(* ===== verification/Bridge_Prelude.thy ===== *)
theory Bridge_Prelude
  imports Main "HOL-Library.Word" "HOL-Library.Monad_Syntax"
begin

text \<open>
  The vocabulary the component theories share: the machine integers of the C sources, the C heap
  (one typed store per struct, with an oracle that decides which allocation fails), byte buffers
  with bounds, little-endian reads and writes of 16, 32 and 64 bit values, and the C idiom
  "find an entry of a pointer array, move the tail down, decrement the count".

  Undefined behaviour is explicit: an operation that dereferences a pointer that is not allocated,
  frees it twice, or touches a byte outside its buffer has the result \<^const>\<open>None\<close>. That an
  operation returns \<^const>\<open>Some\<close> is therefore a statement of memory safety.
\<close>

unbundle bit_operations_syntax

section \<open>Machine integers and pointers\<close>

type_synonym u8 = "8 word"
type_synonym u16 = "16 word"
type_synonym u32 = "32 word"
type_synonym u64 = "64 word"

text \<open>Addresses of heap objects; the null pointer is \<^const>\<open>None\<close> in \<open>ptr option\<close>.\<close>

type_synonym ptr = nat

named_theorems heap_simps "how the heap operations act on the store"
named_theorems wf_intros "heap well-formedness is kept"

lemma bind_eq_SomeE:
  assumes "Option.bind f g = Some y"
  obtains x where "f = Some x" and "g x = Some y"
  using assms by (cases f) auto

text \<open>A \<open>pthread_mutex_t\<close> that is not initialised, free, or held.\<close>

datatype lock_state = LockRaw | LockFree | LockHeld

section \<open>The C heap\<close>

text \<open>
  \<open>hp_mem\<close> holds the live objects, \<open>hp_next\<close> is the next address \<open>calloc\<close> hands out, and
  \<open>hp_oom n\<close> says whether the \<open>n\<close>-th allocation fails (returns \<open>NULL\<close>).
\<close>

record 'a heap =
  hp_mem :: "ptr \<rightharpoonup> 'a"
  hp_next :: nat
  hp_oom :: "nat \<Rightarrow> bool"

definition heap_empty :: "(nat \<Rightarrow> bool) \<Rightarrow> 'a heap" where
  "heap_empty oom = \<lparr>hp_mem = Map.empty, hp_next = 0, hp_oom = oom\<rparr>"

definition heap_alloc :: "'a heap \<Rightarrow> 'a \<Rightarrow> ptr option \<times> 'a heap" where
  "heap_alloc h v =
     (let n = hp_next h in
      if hp_oom h n then (None, h\<lparr>hp_next := Suc n\<rparr>)
      else (Some n, h\<lparr>hp_mem := (hp_mem h)(n \<mapsto> v), hp_next := Suc n\<rparr>))"

definition heap_get :: "'a heap \<Rightarrow> ptr \<Rightarrow> 'a option" where
  "heap_get h p = hp_mem h p"

definition heap_put :: "'a heap \<Rightarrow> ptr \<Rightarrow> 'a \<Rightarrow> 'a heap option" where
  "heap_put h p v =
     (case hp_mem h p of None \<Rightarrow> None | Some _ \<Rightarrow> Some (h\<lparr>hp_mem := (hp_mem h)(p \<mapsto> v)\<rparr>))"

definition heap_free :: "'a heap \<Rightarrow> ptr \<Rightarrow> 'a heap option" where
  "heap_free h p =
     (case hp_mem h p of None \<Rightarrow> None | Some _ \<Rightarrow> Some (h\<lparr>hp_mem := (hp_mem h)(p := None)\<rparr>))"

text \<open>\<open>free(NULL)\<close> does nothing.\<close>

definition heap_free_opt :: "'a heap \<Rightarrow> ptr option \<Rightarrow> 'a heap option" where
  "heap_free_opt h q = (case q of None \<Rightarrow> Some h | Some p \<Rightarrow> heap_free h p)"

definition heap_wf :: "'a heap \<Rightarrow> bool" where
  "heap_wf h \<longleftrightarrow> (\<forall>p v. hp_mem h p = Some v \<longrightarrow> p < hp_next h)"

lemma heap_upd_order [simp]: "h\<lparr>hp_next := n, hp_mem := m\<rparr> = h\<lparr>hp_mem := m, hp_next := n\<rparr>"
  by simp

lemma heap_empty_wf [simp]: "heap_wf (heap_empty oom)"
  by (simp add: heap_wf_def heap_empty_def)

lemma heap_wf_old: "heap_wf h \<Longrightarrow> hp_mem h p = Some v \<Longrightarrow> p < hp_next h"
  by (auto simp: heap_wf_def)

lemma heap_wf_dom: "heap_wf h \<Longrightarrow> p \<in> dom (hp_mem h) \<Longrightarrow> p < hp_next h"
  by (auto simp: heap_wf_def)

lemma heap_wf_fresh: "heap_wf h \<Longrightarrow> hp_mem h (hp_next h) = None"
  using heap_wf_old [of h "hp_next h"] by (cases "hp_mem h (hp_next h)") auto

lemma heap_alloc_Some [heap_simps]:
  "heap_alloc h v = (Some p, h') \<longleftrightarrow>
     p = hp_next h \<and> \<not> hp_oom h p \<and>
     h' = h\<lparr>hp_mem := (hp_mem h)(p \<mapsto> v), hp_next := Suc p\<rparr>"
  by (auto simp: heap_alloc_def Let_def)

lemma heap_alloc_None [heap_simps]:
  "heap_alloc h v = (None, h') \<longleftrightarrow> hp_oom h (hp_next h) \<and> h' = h\<lparr>hp_next := Suc (hp_next h)\<rparr>"
  by (auto simp: heap_alloc_def Let_def)

lemma heap_get_Some [heap_simps]: "heap_get h p = Some v \<longleftrightarrow> hp_mem h p = Some v"
  by (simp add: heap_get_def)

lemma heap_put_Some [heap_simps]:
  "heap_put h p v = Some h' \<longleftrightarrow>
     p \<in> dom (hp_mem h) \<and> h' = h\<lparr>hp_mem := (hp_mem h)(p \<mapsto> v)\<rparr>"
  by (auto simp: heap_put_def split: option.splits)

lemma heap_free_Some [heap_simps]:
  "heap_free h p = Some h' \<longleftrightarrow>
     p \<in> dom (hp_mem h) \<and> h' = h\<lparr>hp_mem := (hp_mem h)(p := None)\<rparr>"
  by (auto simp: heap_free_def split: option.splits)

lemma heap_free_opt_Null [heap_simps]: "heap_free_opt h None = Some h"
  by (simp add: heap_free_opt_def)

lemma heap_free_opt_Some [heap_simps]: "heap_free_opt h (Some p) = heap_free h p"
  by (simp add: heap_free_opt_def)

lemma heap_alloc_wf [wf_intros]: "heap_wf h \<Longrightarrow> heap_alloc h v = (q, h') \<Longrightarrow> heap_wf h'"
  by (cases q) (auto simp: heap_wf_def heap_simps less_Suc_eq)

lemma heap_put_wf [wf_intros]: "heap_wf h \<Longrightarrow> heap_put h p v = Some h' \<Longrightarrow> heap_wf h'"
  by (auto simp: heap_wf_def heap_simps)

lemma heap_free_wf [wf_intros]: "heap_wf h \<Longrightarrow> heap_free h p = Some h' \<Longrightarrow> heap_wf h'"
  by (auto simp: heap_wf_def heap_simps split: if_splits)

lemma heap_free_opt_wf [wf_intros]:
  "heap_wf h \<Longrightarrow> heap_free_opt h q = Some h' \<Longrightarrow> heap_wf h'"
  by (cases q) (auto simp: heap_free_opt_def intro: heap_free_wf)

section \<open>Little-endian bytes\<close>

text \<open>
  \<open>le_bytes n w\<close> are the \<open>n\<close> low bytes of \<open>w\<close> in memory order; \<open>le_word\<close> reads bytes back at
  any width (a \<open>memcpy\<close> of two bytes into a zeroed \<open>uint32_t\<close> is \<open>le_word\<close> at 32 bits).
\<close>

definition le_bytes :: "nat \<Rightarrow> 'a::len word \<Rightarrow> u8 list" where
  "le_bytes n w = map (\<lambda>i. ucast (drop_bit (8 * i) w)) [0..<n]"

primrec le_word :: "u8 list \<Rightarrow> 'a::len word" where
  "le_word [] = 0"
| "le_word (b # bs) = ucast b OR push_bit 8 (le_word bs)"

lemma length_le_bytes [simp]: "length (le_bytes n w) = n"
  by (simp add: le_bytes_def)

lemma bit_le_word:
  "bit (le_word bs :: 'a::len word) i \<longleftrightarrow>
     i < LENGTH('a) \<and> i div 8 < length bs \<and> bit (bs ! (i div 8)) (i mod 8)"
proof (induction bs arbitrary: i)
  case Nil
  then show ?case by simp
next
  case (Cons b bs)
  show ?case
  proof (cases "i < 8")
    case True
    then show ?thesis by (auto simp: bit_simps)
  next
    case False
    then have "i div 8 = Suc ((i - 8) div 8)" and "i mod 8 = (i - 8) mod 8"
      by (simp_all add: le_div_geq le_mod_geq)
    with False Cons.IH [of "i - 8"] show ?thesis
      by (auto simp: bit_simps dest: bit_imp_le_length)
  qed
qed

lemma le_word_le_bytes:
  "le_word (le_bytes n (w :: 'a::len word)) = (ucast (take_bit (8 * n) w) :: 'b::len word)"
proof (rule bit_word_eqI)
  fix i
  assume i: "i < LENGTH('b)"
  have eq: "8 * (i div 8) + i mod 8 = i" by simp
  have "i div 8 < n \<longleftrightarrow> i < 8 * n" by (simp add: div_less_iff_less_mult mult.commute)
  with i eq show "bit (le_word (le_bytes n w) :: 'b word) i = bit (ucast (take_bit (8 * n) w) :: 'b word) i"
    by (auto simp: bit_le_word le_bytes_def bit_simps ac_simps dest: bit_imp_le_length)
qed

lemma le_word_le_bytes_id [simp]:
  "LENGTH('a) = 8 * n \<Longrightarrow> le_word (le_bytes n (w :: 'a::len word)) = w"
  by (simp add: le_word_le_bytes take_bit_word_eq_self)

section \<open>Byte buffers with bounds\<close>

record buf =
  b_size :: nat
  b_mem :: "nat \<Rightarrow> u8"

definition buf_new :: "nat \<Rightarrow> buf" where
  "buf_new n = \<lparr>b_size = n, b_mem = (\<lambda>_. 0)\<rparr>"

definition buf_rd :: "buf \<Rightarrow> nat \<Rightarrow> nat \<Rightarrow> u8 list option" where
  "buf_rd b off n =
     (if off + n \<le> b_size b then Some (map (\<lambda>i. b_mem b (off + i)) [0..<n]) else None)"

definition buf_wr :: "buf \<Rightarrow> nat \<Rightarrow> u8 list \<Rightarrow> buf option" where
  "buf_wr b off bs =
     (if off + length bs \<le> b_size b
      then Some (b\<lparr>b_mem := (\<lambda>i. if off \<le> i \<and> i < off + length bs then bs ! (i - off) else b_mem b i)\<rparr>)
      else None)"

text \<open>
  The interface of a byte store: what a client of \<open>memcpy\<close>-style reads and writes may rely on.
  The typed accesses of the PCIe layer (configuration space, MMIO) and the copies of the GPU
  driver are clients.
\<close>

locale byte_store =
  fixes rd :: "'s \<Rightarrow> nat \<Rightarrow> nat \<Rightarrow> u8 list option"
    and wr :: "'s \<Rightarrow> nat \<Rightarrow> u8 list \<Rightarrow> 's option"
    and size_of :: "'s \<Rightarrow> nat"
  assumes rd_defined: "rd s off n \<noteq> None \<longleftrightarrow> off + n \<le> size_of s"
    and wr_defined: "wr s off bs \<noteq> None \<longleftrightarrow> off + length bs \<le> size_of s"
    and wr_size: "wr s off bs = Some s' \<Longrightarrow> size_of s' = size_of s"
    and rd_length: "rd s off n = Some bs \<Longrightarrow> length bs = n"
    and rd_wr_same: "wr s off bs = Some s' \<Longrightarrow> rd s' off (length bs) = Some bs"
    and rd_wr_other:
      "wr s off bs = Some s' \<Longrightarrow> off' + n \<le> off \<or> off + length bs \<le> off' \<Longrightarrow> rd s' off' n = rd s off' n"
begin

lemma le_round_trip:
  assumes "wr s off (le_bytes n w) = Some s'"
  shows "map_option le_word (rd s' off n) = Some (ucast (take_bit (8 * n) (w :: 'a::len word)) :: 'b::len word)"
  using rd_wr_same [OF assms] by (simp add: le_word_le_bytes)

lemma wr_total: "off + length bs \<le> size_of s \<Longrightarrow> \<exists>s'. wr s off bs = Some s'"
  using wr_defined by blast

lemma rd_total: "off + n \<le> size_of s \<Longrightarrow> \<exists>bs. rd s off n = Some bs \<and> length bs = n"
  using rd_defined rd_length by blast

lemma rd_frame_defined: "wr s off bs = Some s' \<Longrightarrow> rd s' off' n \<noteq> None \<longleftrightarrow> rd s off' n \<noteq> None"
  using rd_defined [of s' off' n] rd_defined [of s off' n] wr_size [of s off bs s'] by simp

end

interpretation bs: byte_store buf_rd buf_wr b_size
  by unfold_locales
    (auto simp: buf_rd_def buf_wr_def split: if_splits intro!: nth_equalityI)

section \<open>Arrays of pointers with a count\<close>

text \<open>
  The sources keep \<open>T *a[N]\<close> with a count. The model is the list of the first \<open>count\<close> entries.
  Removal is the loop \<open>for (j = i; j < count - 1; j++) a[j] = a[j + 1]; count--\<close>.
\<close>

function shift_from :: "'a list \<Rightarrow> nat \<Rightarrow> 'a list" where
  "shift_from xs j =
     (if Suc j < length xs then shift_from (xs[j := xs ! Suc j]) (Suc j) else xs)"
  by pat_completeness auto
termination
  by (relation "measure (\<lambda>(xs, j). length xs - j)") auto

declare shift_from.simps [simp del]

definition compact :: "'a list \<Rightarrow> nat \<Rightarrow> 'a list" where
  "compact xs i = butlast (shift_from xs i)"

lemma shift_from_eq:
  "j < length xs \<Longrightarrow> shift_from xs j = take j xs @ drop (Suc j) xs @ [last xs]"
proof (induction xs j rule: shift_from.induct)
  case (1 xs j)
  show ?case
  proof (cases "Suc j < length xs")
    case True
    let ?ys = "xs[j := xs ! Suc j]"
    have last: "last ?ys = last xs"
      using True by (subst last_list_update) auto
    have "shift_from xs j = shift_from ?ys (Suc j)"
      using True by (simp add: shift_from.simps [of xs j])
    also have "\<dots> = take (Suc j) ?ys @ drop (Suc (Suc j)) ?ys @ [last ?ys]"
      using "1.IH" True by simp
    also have "\<dots> = take j xs @ drop (Suc j) xs @ [last xs]"
      using True last by (simp add: take_Suc_conv_app_nth Cons_nth_drop_Suc [symmetric])
    finally show ?thesis .
  next
    case False
    with "1.prems" have j: "length xs = Suc j" by simp
    then have "xs = take j xs @ [last xs]"
      by (metis append_butlast_last_id butlast_conv_take diff_Suc_1 length_0_conv nat.distinct(1))
    with False j show ?thesis by (simp add: shift_from.simps [of xs j])
  qed
qed

lemma compact_eq: "i < length xs \<Longrightarrow> compact xs i = take i xs @ drop (Suc i) xs"
  by (simp add: compact_def shift_from_eq butlast_append)

text \<open>The search loop that precedes it.\<close>

fun find_from :: "('a \<Rightarrow> bool) \<Rightarrow> 'a list \<Rightarrow> nat option" where
  "find_from P [] = None"
| "find_from P (x # xs) = (if P x then Some 0 else map_option Suc (find_from P xs))"

definition remove_first :: "('a \<Rightarrow> bool) \<Rightarrow> 'a list \<Rightarrow> 'a list" where
  "remove_first P xs = (case find_from P xs of None \<Rightarrow> xs | Some i \<Rightarrow> compact xs i)"

lemma find_from_None: "find_from P xs = None \<longleftrightarrow> (\<forall>x \<in> set xs. \<not> P x)"
  by (induction xs) auto

lemma find_from_Some:
  "find_from P xs = Some i \<Longrightarrow> i < length xs \<and> P (xs ! i) \<and> (\<forall>j < i. \<not> P (xs ! j))"
  by (induction xs arbitrary: i) (auto split: if_splits simp: nth_Cons split: nat.splits)

lemma remove_first_Nil [simp]: "remove_first P [] = []"
  by (simp add: remove_first_def)

lemma remove_first_Cons [simp]:
  "remove_first P (x # xs) = (if P x then xs else x # remove_first P xs)"
proof (cases "find_from P xs")
  case None
  then show ?thesis by (auto simp: remove_first_def compact_eq)
next
  case (Some i)
  then have "i < length xs" by (auto dest: find_from_Some)
  with Some show ?thesis by (simp add: remove_first_def compact_eq)
qed

lemma remove_first_eq_remove1: "remove_first (\<lambda>x. x = y) xs = remove1 y xs"
  by (induction xs) auto

lemma remove_first_none: "\<forall>x \<in> set xs. \<not> P x \<Longrightarrow> remove_first P xs = xs"
  by (induction xs) auto

lemma length_remove_first:
  "length (remove_first P xs) = (if \<exists>x \<in> set xs. P x then length xs - 1 else length xs)"
  by (induction xs) (auto simp: Suc_diff_Suc dest: length_pos_if_in_set)

lemma set_remove_first_subset: "set (remove_first P xs) \<subseteq> set xs"
  by (induction xs) auto

lemma distinct_remove_first: "distinct xs \<Longrightarrow> distinct (remove_first P xs)"
  by (induction xs) (use set_remove_first_subset in fastforce)+

lemma remove_first_split:
  "\<forall>x \<in> set xs. \<not> P x \<Longrightarrow> P y \<Longrightarrow> remove_first P (xs @ y # ys) = xs @ ys"
  by (induction xs) auto

lemma remove_first_map_Some:
  "f y \<notin> f ` set xs \<Longrightarrow>
   remove_first (\<lambda>q. q = Some (f y)) (map (\<lambda>x. Some (f x)) (xs @ y # ys)) = map (\<lambda>x. Some (f x)) (xs @ ys)"
  by (induction xs) auto

end
