(* ===== verification/Usb4.thy ===== *)
theory Usb4
  imports Bridge_Prelude
begin

text \<open>
  The USB4 controller of \<open>src/kernel/usb4/usb4_controller.c\<close> and its header: routers, adapters and
  PCIe tunnels live on the C heap, the controller context holds arrays of pointers to them. IOKit is
  not part of the repository; what the Apple build reads from it is the record \<open>iokit\<close>, and
  \<^const>\<open>None\<close> in its place is the build without \<open>__APPLE__\<close>. A context pointer is the context it
  points to: the guards \<open>if (!ctx)\<close> have no counterpart, the other pointers are options.
\<close>

section \<open>Data\<close>

definition USB4_MAX_TUNNELS :: nat where "USB4_MAX_TUNNELS = 8"
definition USB4_MAX_ADAPTERS :: u8 where "USB4_MAX_ADAPTERS = 64"
definition USB4_PCIE_TUNNEL_BW_GBPS :: u32 where "USB4_PCIE_TUNNEL_BW_GBPS = 32"

lemmas usb4_consts = USB4_MAX_TUNNELS_def USB4_MAX_ADAPTERS_def USB4_PCIE_TUNNEL_BW_GBPS_def

datatype usb4_ret =
    USB4_SUCCESS | USB4_ERR_NOT_FOUND | USB4_ERR_NO_MEMORY | USB4_ERR_IO | USB4_ERR_INVALID_PARAM
  | USB4_ERR_NOT_SUPPORTED | USB4_ERR_TIMEOUT | USB4_ERR_TUNNEL_EXISTS | USB4_ERR_NO_BANDWIDTH

datatype USB4RouterType = USB4_ROUTER_TYPE_HOST | USB4_ROUTER_TYPE_DEVICE | USB4_ROUTER_TYPE_HUB

datatype USB4AdapterType =
    USB4_ADAPTER_INACTIVE | USB4_ADAPTER_LANE | USB4_ADAPTER_HOST_INTERFACE
  | USB4_ADAPTER_PCIE_DOWN | USB4_ADAPTER_PCIE_UP | USB4_ADAPTER_DP_IN | USB4_ADAPTER_DP_OUT
  | USB4_ADAPTER_USB3_DOWN | USB4_ADAPTER_USB3_UP

datatype USB4TunnelState =
    USB4_TUNNEL_STATE_INACTIVE | USB4_TUNNEL_STATE_ACTIVATING | USB4_TUNNEL_STATE_ACTIVE
  | USB4_TUNNEL_STATE_DEACTIVATING | USB4_TUNNEL_STATE_ERROR

record USB4Router =
  rt_route :: u64
  rt_type :: USB4RouterType
  rt_adapter_count :: u8
  rt_vendor_id :: u32
  rt_device_id :: u32
  rt_revision :: u32
  rt_is_connected :: bool
  rt_platform_data :: "ptr option"

text \<open>\<open>USB4Router *\<close> points to the host router inside the context or to a router on the heap.\<close>

datatype router_ref = HostRouter | Rt ptr

record USB4Adapter =
  ad_router :: router_ref
  ad_num :: u8
  ad_type :: USB4AdapterType
  ad_is_active :: bool
  ad_max_bandwidth :: u32

record USB4PCIeTunnel =
  tn_upstream :: "ptr option"
  tn_downstream :: "ptr option"
  tn_state :: USB4TunnelState
  tn_allocated_bw :: u32
  tn_path_length :: u8
  tn_link_width :: u8
  tn_link_speed :: u8

record USB4ControllerContext =
  host_router :: USB4Router
  connected_routers :: "ptr option list"
  active_tunnels :: "ptr option list"
  io_service :: "nat option"
  io_connection :: "nat option"
  hotplug_callback :: "ptr option"
  error_callback :: "ptr option"

text \<open>
  The heap of the controller. \<open>h_iorefs\<close> are the references to IOKit objects the program holds, one
  entry for each: IOKit hands out an object retained, and \<open>IOObjectRelease\<close> gives one reference back.
\<close>

record usb4_heap =
  h_routers :: "USB4Router heap"
  h_adapters :: "USB4Adapter heap"
  h_tunnels :: "USB4PCIeTunnel heap"
  h_pdata :: "nat heap"
  h_iorefs :: "nat list"

text \<open>What the Apple build reads from IOKit.\<close>

record io_device =
  iod_service :: nat
  iod_vendor :: "u32 option"
  iod_device :: "u32 option"

record iokit =
  iok_match_usb4 :: bool
  iok_match_tb :: bool
  iok_service :: "nat option"
  iok_open :: "nat option"
  iok_vendor :: "u32 option"
  iok_device :: "u32 option"
  iok_match_devices :: bool
  iok_devices :: "io_device list option"

text \<open>The all-zero values \<open>memset\<close> and \<open>calloc\<close> give.\<close>

definition router_zero :: USB4Router where
  "router_zero = \<lparr>rt_route = 0, rt_type = USB4_ROUTER_TYPE_HOST, rt_adapter_count = 0,
     rt_vendor_id = 0, rt_device_id = 0, rt_revision = 0, rt_is_connected = False,
     rt_platform_data = None\<rparr>"

definition tunnel_zero :: USB4PCIeTunnel where
  "tunnel_zero = \<lparr>tn_upstream = None, tn_downstream = None, tn_state = USB4_TUNNEL_STATE_INACTIVE,
     tn_allocated_bw = 0, tn_path_length = 0, tn_link_width = 0, tn_link_speed = 0\<rparr>"

definition usb4_ctx_zero :: USB4ControllerContext where
  "usb4_ctx_zero = \<lparr>host_router = router_zero, connected_routers = [], active_tunnels = [],
     io_service = None, io_connection = None, hotplug_callback = None, error_callback = None\<rparr>"

definition io_retained :: "nat \<Rightarrow> usb4_heap \<Rightarrow> usb4_heap" where
  "io_retained s h = h\<lparr>h_iorefs := s # h_iorefs h\<rparr>"

definition io_released :: "nat option \<Rightarrow> usb4_heap \<Rightarrow> usb4_heap" where
  "io_released s h = (case s of None \<Rightarrow> h | Some s \<Rightarrow> h\<lparr>h_iorefs := remove1 s (h_iorefs h)\<rparr>)"

lemma io_refs_sel [simp]:
  "h_routers (io_retained s h) = h_routers h" "h_adapters (io_retained s h) = h_adapters h"
  "h_tunnels (io_retained s h) = h_tunnels h" "h_pdata (io_retained s h) = h_pdata h"
  "h_iorefs (io_retained s h) = s # h_iorefs h"
  "h_routers (io_released r h) = h_routers h" "h_adapters (io_released r h) = h_adapters h"
  "h_tunnels (io_released r h) = h_tunnels h" "h_pdata (io_released r h) = h_pdata h"
  "io_released None h = h"
  "h_iorefs (io_released r h) = (case r of None \<Rightarrow> h_iorefs h | Some s \<Rightarrow> remove1 s (h_iorefs h))"
  by (simp_all add: io_retained_def io_released_def split: option.split)

lemma io_released_retained [simp]:
  "io_released (Some s) (io_retained s h) = h"
  "io_released (Some s) (io_retained s h\<lparr>h_routers := hr\<rparr>) = h\<lparr>h_routers := hr\<rparr>"
  "io_released (Some s) (io_retained s h\<lparr>h_routers := hr, h_pdata := hp\<rparr>) = h\<lparr>h_routers := hr, h_pdata := hp\<rparr>"
  by (simp_all add: io_retained_def io_released_def)

section \<open>Tunnels\<close>

definition usb4_find_pcie_adapter ::
  "USB4Adapter heap \<Rightarrow> router_ref \<Rightarrow> bool \<Rightarrow> ptr option \<times> USB4Adapter heap" where
  "usb4_find_pcie_adapter h router upstream =
     heap_alloc h
       \<lparr>ad_router = router,
        ad_num = (if upstream then 1 else 2),
        ad_type = (if upstream then USB4_ADAPTER_PCIE_UP else USB4_ADAPTER_PCIE_DOWN),
        ad_is_active = False,
        ad_max_bandwidth = USB4_PCIE_TUNNEL_BW_GBPS * 1000\<rparr>"

definition usb4_configure_path :: "USB4PCIeTunnel \<Rightarrow> usb4_ret \<times> USB4PCIeTunnel" where
  "usb4_configure_path t =
     (USB4_SUCCESS,
      t\<lparr>tn_state := USB4_TUNNEL_STATE_ACTIVATING, tn_path_length := 1,
        tn_link_width := 4, tn_link_speed := 3\<rparr>)"

definition set_adapter_active :: "USB4Adapter heap \<Rightarrow> ptr \<Rightarrow> bool \<Rightarrow> USB4Adapter heap option" where
  "set_adapter_active h p b =
     do { a \<leftarrow> heap_get h p; heap_put h p (a\<lparr>ad_is_active := b\<rparr>) }"

definition usb4_activate_tunnel ::
  "USB4Adapter heap \<Rightarrow> USB4PCIeTunnel \<Rightarrow> (usb4_ret \<times> USB4PCIeTunnel \<times> USB4Adapter heap) option" where
  "usb4_activate_tunnel h t =
     do { u \<leftarrow> tn_upstream t;
          h1 \<leftarrow> set_adapter_active h u True;
          d \<leftarrow> tn_downstream t;
          h2 \<leftarrow> set_adapter_active h1 d True;
          Some (USB4_SUCCESS,
                t\<lparr>tn_allocated_bw := USB4_PCIE_TUNNEL_BW_GBPS * 1000,
                  tn_state := USB4_TUNNEL_STATE_ACTIVE\<rparr>, h2) }"

definition get_router :: "USB4ControllerContext \<Rightarrow> usb4_heap \<Rightarrow> router_ref \<Rightarrow> USB4Router option" where
  "get_router ctx h r =
     (case r of HostRouter \<Rightarrow> Some (host_router ctx) | Rt p \<Rightarrow> heap_get (h_routers h) p)"

text \<open>The two loops that guard tunnel creation.\<close>

fun router_verified ::
  "USB4ControllerContext \<Rightarrow> usb4_heap \<Rightarrow> router_ref \<Rightarrow> ptr option list \<Rightarrow> bool option" where
  "router_verified ctx h r [] = Some False"
| "router_verified ctx h r (c # cs) =
     (if map_option Rt c = Some r
      then do { ro \<leftarrow> get_router ctx h r;
                if rt_is_connected ro then Some True else router_verified ctx h r cs }
      else router_verified ctx h r cs)"

fun tunnel_exists :: "usb4_heap \<Rightarrow> router_ref \<Rightarrow> ptr option list \<Rightarrow> bool option" where
  "tunnel_exists h r [] = Some False"
| "tunnel_exists h r (None # ts) = tunnel_exists h r ts"
| "tunnel_exists h r (Some tp # ts) =
     do { t \<leftarrow> heap_get (h_tunnels h) tp;
          case tn_downstream t of
            None \<Rightarrow> tunnel_exists h r ts
          | Some d \<Rightarrow> do { ad \<leftarrow> heap_get (h_adapters h) d;
                          if ad_router ad = r then Some True else tunnel_exists h r ts } }"

definition free_adapters ::
  "USB4Adapter heap \<Rightarrow> ptr option \<Rightarrow> ptr option \<Rightarrow> USB4Adapter heap option" where
  "free_adapters h u d = do { h1 \<leftarrow> heap_free_opt h u; heap_free_opt h1 d }"

text \<open>
  The result is the return code, what \<open>*tunnel_out\<close> is set to (if it is), the context and the heap.
\<close>

definition usb4_create_pcie_tunnel ::
  "USB4ControllerContext \<Rightarrow> usb4_heap \<Rightarrow> router_ref option \<Rightarrow> bool \<Rightarrow>
   (usb4_ret \<times> ptr option \<times> USB4ControllerContext \<times> usb4_heap) option" where
  "usb4_create_pcie_tunnel ctx h router tunnel_out =
     (case router of
        None \<Rightarrow> Some (USB4_ERR_INVALID_PARAM, None, ctx, h)
      | Some r \<Rightarrow>
     (if \<not> tunnel_out then Some (USB4_ERR_INVALID_PARAM, None, ctx, h)
      else if length (active_tunnels ctx) \<ge> USB4_MAX_TUNNELS
      then Some (USB4_ERR_NO_BANDWIDTH, None, ctx, h)
      else do {
        verified \<leftarrow> router_verified ctx h r (connected_routers ctx);
        if \<not> verified then Some (USB4_ERR_INVALID_PARAM, None, ctx, h)
        else do {
          dup \<leftarrow> tunnel_exists h r (active_tunnels ctx);
          if dup then Some (USB4_ERR_TUNNEL_EXISTS, None, ctx, h)
          else (case heap_alloc (h_tunnels h) tunnel_zero of
              (None, ht) \<Rightarrow> Some (USB4_ERR_NO_MEMORY, None, ctx, h\<lparr>h_tunnels := ht\<rparr>)
            | (Some tp, ht) \<Rightarrow>
                (let (u, ha1) = usb4_find_pcie_adapter (h_adapters h) HostRouter True;
                     (d, ha2) = usb4_find_pcie_adapter ha1 r False;
                     t = tunnel_zero\<lparr>tn_upstream := u, tn_downstream := d\<rparr>
                 in if u = None \<or> d = None
                    then do { ha3 \<leftarrow> free_adapters ha2 u d;
                              ht2 \<leftarrow> heap_free ht tp;
                              Some (USB4_ERR_NOT_FOUND, None, ctx,
                                    h\<lparr>h_tunnels := ht2, h_adapters := ha3\<rparr>) }
                    else (case usb4_configure_path t of (ret, t1) \<Rightarrow>
                      if ret \<noteq> USB4_SUCCESS
                      then do { ha3 \<leftarrow> free_adapters ha2 u d;
                                ht2 \<leftarrow> heap_free ht tp;
                                Some (ret, None, ctx, h\<lparr>h_tunnels := ht2, h_adapters := ha3\<rparr>) }
                      else do {
                        (ret2, t2, ha3) \<leftarrow> usb4_activate_tunnel ha2 t1;
                        if ret2 \<noteq> USB4_SUCCESS
                        then do { ha4 \<leftarrow> free_adapters ha3 u d;
                                  ht2 \<leftarrow> heap_free ht tp;
                                  Some (ret2, None, ctx, h\<lparr>h_tunnels := ht2, h_adapters := ha4\<rparr>) }
                        else do {
                          ht2 \<leftarrow> heap_put ht tp t2;
                          Some (USB4_SUCCESS, Some tp,
                                ctx\<lparr>active_tunnels := active_tunnels ctx @ [Some tp]\<rparr>,
                                h\<lparr>h_tunnels := ht2, h_adapters := ha3\<rparr>) } }))) } }))"

definition deactivate_free_adapter ::
  "USB4Adapter heap \<Rightarrow> ptr option \<Rightarrow> USB4Adapter heap option" where
  "deactivate_free_adapter h q =
     (case q of None \<Rightarrow> Some h
      | Some p \<Rightarrow> do { h1 \<leftarrow> set_adapter_active h p False; heap_free h1 p })"

definition usb4_destroy_pcie_tunnel ::
  "USB4ControllerContext \<Rightarrow> usb4_heap \<Rightarrow> ptr option \<Rightarrow>
   (usb4_ret \<times> USB4ControllerContext \<times> usb4_heap) option" where
  "usb4_destroy_pcie_tunnel ctx h tunnel =
     (case tunnel of
        None \<Rightarrow> Some (USB4_ERR_INVALID_PARAM, ctx, h)
      | Some tp \<Rightarrow> do {
          t \<leftarrow> heap_get (h_tunnels h) tp;
          ht1 \<leftarrow> heap_put (h_tunnels h) tp (t\<lparr>tn_state := USB4_TUNNEL_STATE_DEACTIVATING\<rparr>);
          ha1 \<leftarrow> deactivate_free_adapter (h_adapters h) (tn_upstream t);
          ha2 \<leftarrow> deactivate_free_adapter ha1 (tn_downstream t);
          ht2 \<leftarrow> heap_free ht1 tp;
          Some (USB4_SUCCESS,
                ctx\<lparr>active_tunnels := remove_first (\<lambda>x. x = Some tp) (active_tunnels ctx)\<rparr>,
                h\<lparr>h_tunnels := ht2, h_adapters := ha2\<rparr>) })"

section \<open>Initialisation, scan and shutdown\<close>

definition usb4_enumerate_adapters :: "USB4Router \<Rightarrow> usb4_ret \<times> USB4Router" where
  "usb4_enumerate_adapters r = (USB4_SUCCESS, r\<lparr>rt_adapter_count := 4\<rparr>)"

definition usb4_init_host_router ::
  "iokit option \<Rightarrow> USB4ControllerContext \<Rightarrow> usb4_ret \<times> USB4ControllerContext" where
  "usb4_init_host_router io ctx =
     (let r0 = (host_router ctx)\<lparr>rt_route := 0, rt_type := USB4_ROUTER_TYPE_HOST,
                                 rt_is_connected := True\<rparr>;
          r1 = (case io of
                  None \<Rightarrow> r0
                | Some k \<Rightarrow>
                    (let ra = r0\<lparr>rt_vendor_id := (case iok_vendor k of Some v \<Rightarrow> v | None \<Rightarrow> 0x106B)\<rparr>
                     in (case iok_device k of None \<Rightarrow> ra | Some v \<Rightarrow> ra\<lparr>rt_device_id := v\<rparr>)));
          (ret, r2) = usb4_enumerate_adapters r1
      in (ret, ctx\<lparr>host_router := r2\<rparr>))"

text \<open>
  The loop \<open>while (ctx->tunnel_count > 0)\<close>: the last entry is destroyed, or dropped if it is null.
  It ends if destruction shortens the array; \<^const>\<open>None\<close> also stands for not ending.
\<close>

partial_function (option) destroy_all_tunnels ::
  "USB4ControllerContext \<Rightarrow> usb4_heap \<Rightarrow> (USB4ControllerContext \<times> usb4_heap) option" where
  "destroy_all_tunnels ctx h =
     (if active_tunnels ctx = [] then Some (ctx, h)
      else (case last (active_tunnels ctx) of
              Some tp \<Rightarrow> do { (ret, ctx', h') \<leftarrow> usb4_destroy_pcie_tunnel ctx h (Some tp);
                              destroy_all_tunnels ctx' h' }
            | None \<Rightarrow> destroy_all_tunnels
                        (ctx\<lparr>active_tunnels := butlast (active_tunnels ctx)\<rparr>) h))"

fun free_routers :: "usb4_heap \<Rightarrow> ptr option list \<Rightarrow> usb4_heap option" where
  "free_routers h [] = Some h"
| "free_routers h (None # rs) = free_routers h rs"
| "free_routers h (Some p # rs) =
     do { r \<leftarrow> heap_get (h_routers h) p;
          hp \<leftarrow> heap_free_opt (h_pdata h) (rt_platform_data r);
          hr \<leftarrow> heap_free (h_routers h) p;
          free_routers (h\<lparr>h_pdata := hp, h_routers := hr\<rparr>) rs }"

definition usb4_controller_shutdown ::
  "USB4ControllerContext \<Rightarrow> usb4_heap \<Rightarrow> (USB4ControllerContext \<times> usb4_heap) option" where
  "usb4_controller_shutdown ctx h =
     do { (ctx1, h1) \<leftarrow> destroy_all_tunnels ctx h;
          h2 \<leftarrow> free_routers h1 (connected_routers ctx1);
          Some (usb4_ctx_zero, io_released (io_service ctx1) h2) }"

definition usb4_controller_init ::
  "iokit option \<Rightarrow> usb4_heap \<Rightarrow> (usb4_ret \<times> USB4ControllerContext \<times> usb4_heap) option" where
  "usb4_controller_init io h =
     (let ctx0 = usb4_ctx_zero;
          finish = (\<lambda>ctx h. case usb4_init_host_router io ctx of (ret, ctx1) \<Rightarrow>
             if ret \<noteq> USB4_SUCCESS
             then do { (ctx2, h2) \<leftarrow> usb4_controller_shutdown ctx1 h; Some (ret, ctx2, h2) }
             else Some (USB4_SUCCESS, ctx1, h))
      in case io of
           None \<Rightarrow> finish ctx0 h
         | Some k \<Rightarrow>
             (if \<not> iok_match_usb4 k \<and> \<not> iok_match_tb k then Some (USB4_ERR_NOT_FOUND, ctx0, h)
              else (case iok_service k of
                 None \<Rightarrow> Some (USB4_ERR_NOT_FOUND, ctx0, h)
               | Some s \<Rightarrow>
                   (let h = io_retained s h
                    in case iok_open k of
                         None \<Rightarrow> Some (USB4_ERR_IO, ctx0\<lparr>io_service := Some s\<rparr>, io_released (Some s) h)
                       | Some c \<Rightarrow> finish (ctx0\<lparr>io_service := Some s, io_connection := Some c\<rparr>) h))))"

text \<open>The router record the scan fills in for one IOKit device.\<close>

definition scanned_router :: "io_device \<Rightarrow> ptr \<Rightarrow> USB4Router" where
  "scanned_router dv pd =
     (let r0 = router_zero\<lparr>rt_type := USB4_ROUTER_TYPE_DEVICE, rt_is_connected := True\<rparr>;
          r1 = (case iod_vendor dv of None \<Rightarrow> r0 | Some v \<Rightarrow> r0\<lparr>rt_vendor_id := v\<rparr>);
          r2 = (case iod_device dv of None \<Rightarrow> r1 | Some v \<Rightarrow> r1\<lparr>rt_device_id := v\<rparr>)
      in snd (usb4_enumerate_adapters (r2\<lparr>rt_platform_data := Some pd\<rparr>)))"

text \<open>
  The loop over the IOKit iterator: at most \<open>USB4_MAX_TUNNELS\<close> devices, in order. Each device comes
  retained, also the one that is fetched when the table is full and then dropped.
\<close>

fun scan_loop :: "usb4_heap \<Rightarrow> io_device list \<Rightarrow> ptr option list \<Rightarrow> ptr option list \<times> usb4_heap" where
  "scan_loop h [] found = (found, h)"
| "scan_loop h (dv # dvs) found =
     (let h = io_retained (iod_service dv) h
      in if length found \<ge> USB4_MAX_TUNNELS then (found, h)
      else (case heap_alloc (h_routers h) router_zero of
              (None, hr) \<Rightarrow> scan_loop (io_released (Some (iod_service dv)) (h\<lparr>h_routers := hr\<rparr>)) dvs found
            | (Some rp, hr) \<Rightarrow>
                (case heap_alloc (h_pdata h) (iod_service dv) of
                   (None, hp) \<Rightarrow>
                     scan_loop (io_released (Some (iod_service dv))
                         (h\<lparr>h_routers := hr\<lparr>hp_mem := (hp_mem hr)(rp := None)\<rparr>, h_pdata := hp\<rparr>)) dvs found
                 | (Some pd, hp) \<Rightarrow>
                     scan_loop (h\<lparr>h_routers := hr\<lparr>hp_mem := (hp_mem hr)(rp \<mapsto> scanned_router dv pd)\<rparr>,
                                  h_pdata := hp\<rparr>) dvs (found @ [Some rp]))))"

lemma scanned_router_sel [simp]:
  "rt_platform_data (scanned_router dv pd) = Some pd" "rt_is_connected (scanned_router dv pd)"
  by (simp_all add: scanned_router_def usb4_enumerate_adapters_def Let_def split: option.splits)

text \<open>The result is the number of routers found; the two early returns leave the context alone.\<close>

definition usb4_scan_routers ::
  "iokit option \<Rightarrow> USB4ControllerContext \<Rightarrow> usb4_heap \<Rightarrow> nat \<times> USB4ControllerContext \<times> usb4_heap" where
  "usb4_scan_routers io ctx h =
     (case io of
        None \<Rightarrow> (0, ctx\<lparr>connected_routers := []\<rparr>, h)
      | Some k \<Rightarrow>
          (if \<not> iok_match_devices k then (0, ctx, h)
           else (case iok_devices k of
              None \<Rightarrow> (0, ctx, h)
            | Some dvs \<Rightarrow>
                (case scan_loop h dvs [] of (found, h') \<Rightarrow>
                   (length found, ctx\<lparr>connected_routers := found\<rparr>, h')))))"

section \<open>Registers, bandwidth and callbacks\<close>

text \<open>The register accessors are stubs that check their arguments: a read yields 0.\<close>

definition usb4_router_read_reg :: "router_ref option \<Rightarrow> u32 \<Rightarrow> bool \<Rightarrow> usb4_ret \<times> u32 option" where
  "usb4_router_read_reg router off value_out =
     (if router = None \<or> \<not> value_out then (USB4_ERR_INVALID_PARAM, None) else (USB4_SUCCESS, Some 0))"

definition usb4_router_write_reg :: "router_ref option \<Rightarrow> u32 \<Rightarrow> u32 \<Rightarrow> usb4_ret" where
  "usb4_router_write_reg router off v =
     (if router = None then USB4_ERR_INVALID_PARAM else USB4_SUCCESS)"

definition adapter_reg_addr :: "u8 \<Rightarrow> u32 \<Rightarrow> u32" where
  "adapter_reg_addr num off = push_bit 8 (ucast num) OR off"

definition adapter_reg_ok :: "USB4Adapter \<Rightarrow> u32 \<Rightarrow> bool" where
  "adapter_reg_ok a off \<longleftrightarrow> \<not> (off > 0xFF \<or> ad_num a > USB4_MAX_ADAPTERS)"

definition usb4_adapter_read_reg :: "USB4Adapter option \<Rightarrow> u32 \<Rightarrow> bool \<Rightarrow> usb4_ret \<times> u32 option" where
  "usb4_adapter_read_reg adapter off value_out =
     (case adapter of
        None \<Rightarrow> (USB4_ERR_INVALID_PARAM, None)
      | Some a \<Rightarrow>
          if \<not> value_out \<or> \<not> adapter_reg_ok a off then (USB4_ERR_INVALID_PARAM, None)
          else usb4_router_read_reg (Some (ad_router a)) (adapter_reg_addr (ad_num a) off) value_out)"

definition usb4_adapter_write_reg :: "USB4Adapter option \<Rightarrow> u32 \<Rightarrow> u32 \<Rightarrow> usb4_ret" where
  "usb4_adapter_write_reg adapter off v =
     (case adapter of
        None \<Rightarrow> USB4_ERR_INVALID_PARAM
      | Some a \<Rightarrow>
          if \<not> adapter_reg_ok a off then USB4_ERR_INVALID_PARAM
          else usb4_router_write_reg (Some (ad_router a)) (adapter_reg_addr (ad_num a) off) v)"

definition usb4_request_bandwidth ::
  "USB4PCIeTunnel heap \<Rightarrow> ptr option \<Rightarrow> u32 \<Rightarrow> bool \<Rightarrow>
   (usb4_ret \<times> u32 option \<times> USB4PCIeTunnel heap) option" where
  "usb4_request_bandwidth h tunnel requested_bw allocated_out =
     (case tunnel of
        None \<Rightarrow> Some (USB4_ERR_INVALID_PARAM, None, h)
      | Some tp \<Rightarrow>
          if \<not> allocated_out then Some (USB4_ERR_INVALID_PARAM, None, h)
          else (let max_bw = USB4_PCIE_TUNNEL_BW_GBPS * 1000;
                    got = (if requested_bw > max_bw then max_bw else requested_bw)
                in do { t \<leftarrow> heap_get h tp;
                        h1 \<leftarrow> heap_put h tp (t\<lparr>tn_allocated_bw := got\<rparr>);
                        Some (USB4_SUCCESS, Some got, h1) }))"

definition usb4_register_hotplug_callback ::
  "USB4ControllerContext \<Rightarrow> ptr option \<Rightarrow> USB4ControllerContext" where
  "usb4_register_hotplug_callback ctx cb = ctx\<lparr>hotplug_callback := cb\<rparr>"

definition usb4_register_error_callback ::
  "USB4ControllerContext \<Rightarrow> ptr option \<Rightarrow> USB4ControllerContext" where
  "usb4_register_error_callback ctx cb = ctx\<lparr>error_callback := cb\<rparr>"

section \<open>The controller invariant\<close>

text \<open>
  \<open>tunnel_at h tp u d r\<close>: at \<open>tp\<close> lies an active tunnel with its own upstream adapter \<open>u\<close> (on the
  host router) and downstream adapter \<open>d\<close> (on router \<open>r\<close>). \<open>usb4_rep ctx h xs\<close> says that the array of
  the context is exactly the list \<open>xs\<close> of such tunnels: no null entry, at most
  \<open>USB4_MAX_TUNNELS\<close>, no tunnel twice, no adapter shared, and no router with two tunnels.
\<close>

type_synonym tunnel_entry = "ptr \<times> ptr \<times> ptr \<times> router_ref"

definition tunnel_at :: "usb4_heap \<Rightarrow> ptr \<Rightarrow> ptr \<Rightarrow> ptr \<Rightarrow> router_ref \<Rightarrow> bool" where
  "tunnel_at h tp u d r \<longleftrightarrow>
     (\<exists>t au ad. hp_mem (h_tunnels h) tp = Some t \<and> hp_mem (h_adapters h) u = Some au \<and>
        hp_mem (h_adapters h) d = Some ad \<and> tn_upstream t = Some u \<and> tn_downstream t = Some d \<and>
        tn_state t = USB4_TUNNEL_STATE_ACTIVE \<and> tn_allocated_bw t \<le> 32000 \<and>
        ad_router au = HostRouter \<and> ad_router ad = r \<and> ad_is_active au \<and> ad_is_active ad)"

definition ent_ptr :: "tunnel_entry \<Rightarrow> ptr" where "ent_ptr x = fst x"
definition ent_adapters :: "tunnel_entry \<Rightarrow> ptr list" where
  "ent_adapters x = [fst (snd x), fst (snd (snd x))]"
definition ent_router :: "tunnel_entry \<Rightarrow> router_ref" where "ent_router x = snd (snd (snd x))"

lemmas ent_defs = ent_ptr_def ent_adapters_def ent_router_def

definition entries_ok :: "usb4_heap \<Rightarrow> tunnel_entry list \<Rightarrow> bool" where
  "entries_ok h xs \<longleftrightarrow>
     (\<forall>(tp, u, d, r) \<in> set xs. tunnel_at h tp u d r) \<and>
     distinct (map ent_ptr xs) \<and> distinct (concat (map ent_adapters xs)) \<and>
     distinct (map ent_router xs) \<and> length xs \<le> USB4_MAX_TUNNELS"

definition usb4_heap_wf :: "usb4_heap \<Rightarrow> bool" where
  "usb4_heap_wf h \<longleftrightarrow> heap_wf (h_tunnels h) \<and> heap_wf (h_adapters h)"

definition usb4_rep :: "USB4ControllerContext \<Rightarrow> usb4_heap \<Rightarrow> tunnel_entry list \<Rightarrow> bool" where
  "usb4_rep ctx h xs \<longleftrightarrow>
     active_tunnels ctx = map (\<lambda>x. Some (ent_ptr x)) xs \<and> entries_ok h xs \<and> usb4_heap_wf h"

definition usb4_inv :: "USB4ControllerContext \<Rightarrow> usb4_heap \<Rightarrow> bool" where
  "usb4_inv ctx h \<longleftrightarrow> (\<exists>xs. usb4_rep ctx h xs)"

definition routers_live :: "USB4ControllerContext \<Rightarrow> usb4_heap \<Rightarrow> bool" where
  "routers_live ctx h \<longleftrightarrow> (\<forall>p. Some p \<in> set (connected_routers ctx) \<longrightarrow> p \<in> dom (hp_mem (h_routers h)))"

lemma tunnel_at_frame:
  "tunnel_at h tp u d r \<Longrightarrow> hp_mem (h_tunnels h') tp = hp_mem (h_tunnels h) tp \<Longrightarrow>
   hp_mem (h_adapters h') u = hp_mem (h_adapters h) u \<Longrightarrow>
   hp_mem (h_adapters h') d = hp_mem (h_adapters h) d \<Longrightarrow> tunnel_at h' tp u d r"
  unfolding tunnel_at_def by simp

lemma tunnel_at_live:
  "tunnel_at h tp u d r \<Longrightarrow> usb4_heap_wf h \<Longrightarrow>
   tp < hp_next (h_tunnels h) \<and> u < hp_next (h_adapters h) \<and> d < hp_next (h_adapters h)"
  unfolding tunnel_at_def usb4_heap_wf_def by (auto dest: heap_wf_old)

lemma entries_ok_frame:
  assumes "entries_ok h xs"
    and "\<And>x. x \<in> set xs \<Longrightarrow> hp_mem (h_tunnels h') (ent_ptr x) = hp_mem (h_tunnels h) (ent_ptr x)"
    and "\<And>x a. x \<in> set xs \<Longrightarrow> a \<in> set (ent_adapters x) \<Longrightarrow>
           hp_mem (h_adapters h') a = hp_mem (h_adapters h) a"
  shows "entries_ok h' xs"
proof -
  have "tunnel_at h' tp u d r" if x: "(tp, u, d, r) \<in> set xs" for tp u d r
  proof (rule tunnel_at_frame)
    show "tunnel_at h tp u d r" using assms(1) x by (auto simp: entries_ok_def)
    show "hp_mem (h_tunnels h') tp = hp_mem (h_tunnels h) tp"
      using assms(2) [OF x] by (simp add: ent_defs)
    show "hp_mem (h_adapters h') u = hp_mem (h_adapters h) u"
      using assms(3) [OF x, of u] by (simp add: ent_defs)
    show "hp_mem (h_adapters h') d = hp_mem (h_adapters h) d"
      using assms(3) [OF x, of d] by (simp add: ent_defs)
  qed
  with assms(1) show ?thesis by (auto simp: entries_ok_def)
qed

lemma entry_live:
  assumes "entries_ok h xs" and "usb4_heap_wf h" and "x \<in> set xs"
  shows "ent_ptr x < hp_next (h_tunnels h)"
    and "\<And>a. a \<in> set (ent_adapters x) \<Longrightarrow> a < hp_next (h_adapters h)"
  using assms tunnel_at_live [of h "fst x" "fst (snd x)" "fst (snd (snd x))" "snd (snd (snd x))"]
  by (auto simp: entries_ok_def ent_defs)

subsection \<open>Creation\<close>

lemma router_verified_total:
  assumes "routers_live ctx h" and "set cs \<subseteq> set (connected_routers ctx)"
  shows "router_verified ctx h r cs =
     Some (\<exists>p ro. r = Rt p \<and> Some p \<in> set cs \<and> hp_mem (h_routers h) p = Some ro \<and> rt_is_connected ro)"
  using assms(2)
proof (induction cs)
  case Nil
  then show ?case by simp
next
  case (Cons c cs)
  then have IH: "router_verified ctx h r cs =
     Some (\<exists>p ro. r = Rt p \<and> Some p \<in> set cs \<and> hp_mem (h_routers h) p = Some ro \<and> rt_is_connected ro)"
    by simp
  show ?case
  proof (cases "map_option Rt c = Some r")
    case True
    then obtain p where p: "c = Some p" "r = Rt p" by (cases c) auto
    with Cons.prems assms(1) obtain ro where "hp_mem (h_routers h) p = Some ro"
      by (auto simp: routers_live_def)
    with IH p show ?thesis by (auto simp: get_router_def heap_get_def)
  next
    case False
    with IH show ?thesis by auto
  qed
qed

lemma tunnel_exists_total:
  "entries_ok h xs \<Longrightarrow>
   tunnel_exists h r (map (\<lambda>x. Some (ent_ptr x)) xs) = Some (r \<in> ent_router ` set xs)"
proof (induction xs)
  case Nil
  then show ?case by simp
next
  case (Cons x xs)
  then have "entries_ok h xs" by (auto simp: entries_ok_def)
  with Cons.IH have IH:
    "tunnel_exists h r (map (\<lambda>x. Some (ent_ptr x)) xs) = Some (r \<in> ent_router ` set xs)" by simp
  obtain tp u d r' where x: "x = (tp, u, d, r')" by (cases x)
  with Cons.prems have "tunnel_at h tp u d r'" by (auto simp: entries_ok_def)
  with IH x show ?case by (auto simp: tunnel_at_def heap_get_def ent_defs)
qed

text \<open>What creation does once the guards are passed, by the outcome of the three allocations.\<close>

definition router_ok :: "USB4ControllerContext \<Rightarrow> usb4_heap \<Rightarrow> router_ref option \<Rightarrow> bool" where
  "router_ok ctx h router \<longleftrightarrow>
     (\<exists>p ro. router = Some (Rt p) \<and> Some p \<in> set (connected_routers ctx) \<and>
        hp_mem (h_routers h) p = Some ro \<and> rt_is_connected ro)"

definition new_adapter :: "router_ref \<Rightarrow> bool \<Rightarrow> USB4Adapter" where
  "new_adapter r up =
     \<lparr>ad_router = r, ad_num = (if up then 1 else 2),
      ad_type = (if up then USB4_ADAPTER_PCIE_UP else USB4_ADAPTER_PCIE_DOWN),
      ad_is_active = True, ad_max_bandwidth = 32000\<rparr>"

definition new_tunnel :: "ptr \<Rightarrow> ptr \<Rightarrow> USB4PCIeTunnel" where
  "new_tunnel u d =
     \<lparr>tn_upstream = Some u, tn_downstream = Some d, tn_state = USB4_TUNNEL_STATE_ACTIVE,
      tn_allocated_bw = 32000, tn_path_length = 1, tn_link_width = 4, tn_link_speed = 3\<rparr>"

lemma create_guarded:
  assumes "router = Some r" and "length (active_tunnels ctx) < USB4_MAX_TUNNELS"
    and "router_verified ctx h r (connected_routers ctx) = Some True"
    and "tunnel_exists h r (active_tunnels ctx) = Some False"
  shows "usb4_create_pcie_tunnel ctx h router True =
    (let ht = h_tunnels h; ha = h_adapters h; n = hp_next ht; u = hp_next ha; d = Suc u in
     if hp_oom ht n then Some (USB4_ERR_NO_MEMORY, None, ctx, h\<lparr>h_tunnels := ht\<lparr>hp_next := Suc n\<rparr>\<rparr>)
     else if hp_oom ha u \<or> hp_oom ha d
     then Some (USB4_ERR_NOT_FOUND, None, ctx,
       h\<lparr>h_tunnels := ht\<lparr>hp_mem := (hp_mem ht)(n := None), hp_next := Suc n\<rparr>,
         h_adapters := ha\<lparr>hp_mem := (if hp_oom ha u then (if hp_oom ha d then hp_mem ha else (hp_mem ha)(d := None))
                                     else (hp_mem ha)(u := None)),
                          hp_next := Suc d\<rparr>\<rparr>)
     else Some (USB4_SUCCESS, Some n, ctx\<lparr>active_tunnels := active_tunnels ctx @ [Some n]\<rparr>,
       h\<lparr>h_tunnels := ht\<lparr>hp_mem := (hp_mem ht)(n \<mapsto> new_tunnel u d), hp_next := Suc n\<rparr>,
         h_adapters := ha\<lparr>hp_mem := (hp_mem ha)(u \<mapsto> new_adapter HostRouter True, d \<mapsto> new_adapter r False),
                          hp_next := Suc d\<rparr>\<rparr>))"
  using assms
  by (auto simp: usb4_create_pcie_tunnel_def heap_alloc_def usb4_find_pcie_adapter_def Let_def
      free_adapters_def heap_free_opt_def heap_free_def usb4_configure_path_def usb4_activate_tunnel_def
      set_adapter_active_def heap_get_def heap_put_def usb4_consts new_adapter_def new_tunnel_def
      tunnel_zero_def fun_upd_twist)


lemma fresh_upd [simp]: "heap_wf h \<Longrightarrow> (hp_mem h)(hp_next h := None) = hp_mem h"
  by (simp add: heap_wf_fresh fun_upd_idem)

lemma fresh_upd_Suc [simp]: "heap_wf h \<Longrightarrow> (hp_mem h)(Suc (hp_next h) := None) = hp_mem h"
  using heap_wf_old [of h "Suc (hp_next h)"]
  by (cases "hp_mem h (Suc (hp_next h))") (auto simp: fun_upd_idem)

text \<open>The same live objects, whatever happened to the allocation counter: nothing leaked, nothing lost.\<close>

definition same_live :: "usb4_heap \<Rightarrow> usb4_heap \<Rightarrow> bool" where
  "same_live h h' \<longleftrightarrow>
     hp_mem (h_routers h') = hp_mem (h_routers h) \<and> hp_mem (h_adapters h') = hp_mem (h_adapters h) \<and>
     hp_mem (h_tunnels h') = hp_mem (h_tunnels h) \<and> hp_mem (h_pdata h') = hp_mem (h_pdata h) \<and>
     h_iorefs h' = h_iorefs h"

definition same_tunnels :: "usb4_heap \<Rightarrow> usb4_heap \<Rightarrow> bool" where
  "same_tunnels h h' \<longleftrightarrow> same_live h h' \<and> h_routers h' = h_routers h \<and> h_pdata h' = h_pdata h"

lemma usb4_rep_same_live:
  "usb4_rep ctx h xs \<Longrightarrow> same_live h h' \<Longrightarrow> usb4_heap_wf h' \<Longrightarrow> usb4_rep ctx h' xs"
  by (auto simp: usb4_rep_def same_live_def intro: entries_ok_frame)

lemma heap_wf_bump: "heap_wf h \<Longrightarrow> hp_next h \<le> n \<Longrightarrow> heap_wf (h\<lparr>hp_next := n\<rparr>)"
  by (force simp: heap_wf_def)

text \<open>
  The abstract table of tunnels is the list of routers that have one. \<open>table_create\<close> is what
  creation promises on it; the remaining outcomes are the failed allocations.
\<close>

definition table_create :: "bool \<Rightarrow> router_ref list \<Rightarrow> router_ref \<Rightarrow> usb4_ret \<times> router_ref list" where
  "table_create verified rs r =
     (if length rs \<ge> USB4_MAX_TUNNELS then (USB4_ERR_NO_BANDWIDTH, rs)
      else if \<not> verified then (USB4_ERR_INVALID_PARAM, rs)
      else if r \<in> set rs then (USB4_ERR_TUNNEL_EXISTS, rs)
      else (USB4_SUCCESS, rs @ [r]))"

definition alloc_failed :: "usb4_ret \<Rightarrow> bool" where
  "alloc_failed ret \<longleftrightarrow> ret = USB4_ERR_NO_MEMORY \<or> ret = USB4_ERR_NOT_FOUND"

definition create_oom :: "usb4_heap \<Rightarrow> bool" where
  "create_oom h \<longleftrightarrow> hp_oom (h_tunnels h) (hp_next (h_tunnels h)) \<or>
     hp_oom (h_adapters h) (hp_next (h_adapters h)) \<or> hp_oom (h_adapters h) (Suc (hp_next (h_adapters h)))"

lemma create_success_rep:
  assumes rep: "usb4_rep ctx h xs" and len: "length xs < USB4_MAX_TUNNELS"
    and r: "r \<notin> ent_router ` set xs"
  defines "n \<equiv> hp_next (h_tunnels h)" and "u \<equiv> hp_next (h_adapters h)"
  defines "d \<equiv> Suc u"
  shows "usb4_rep (ctx\<lparr>active_tunnels := active_tunnels ctx @ [Some n]\<rparr>)
     (h\<lparr>h_tunnels := h_tunnels h\<lparr>hp_mem := (hp_mem (h_tunnels h))(n \<mapsto> new_tunnel u d), hp_next := Suc n\<rparr>,
        h_adapters := h_adapters h\<lparr>hp_mem := (hp_mem (h_adapters h))(u \<mapsto> new_adapter HostRouter True,
          d \<mapsto> new_adapter r False), hp_next := Suc d\<rparr>\<rparr>) (xs @ [(n, u, d, r)])"
    (is "usb4_rep ?ctx ?h _")
proof -
  from rep have ok: "entries_ok h xs" and wf: "usb4_heap_wf h" by (auto simp: usb4_rep_def)
  note live = entry_live [OF ok wf]
  have old: "entries_ok ?h xs"
  proof (rule entries_ok_frame [OF ok])
    fix x assume "x \<in> set xs"
    with live(1) show "hp_mem (h_tunnels ?h) (ent_ptr x) = hp_mem (h_tunnels h) (ent_ptr x)"
      by (fastforce simp: n_def)
  next
    fix x a assume "x \<in> set xs" and "a \<in> set (ent_adapters x)"
    with live(2) show "hp_mem (h_adapters ?h) a = hp_mem (h_adapters h) a"
      by (fastforce simp: u_def d_def)
  qed
  have new: "tunnel_at ?h n u d r"
    by (simp add: tunnel_at_def new_tunnel_def new_adapter_def d_def)
  have "n \<notin> ent_ptr ` set xs" "u \<notin> (\<Union>x\<in>set xs. set (ent_adapters x))" "d \<notin> (\<Union>x\<in>set xs. set (ent_adapters x))"
    using live by (fastforce simp: n_def u_def d_def)+
  then have "entries_ok ?h (xs @ [(n, u, d, r)])"
    using old new len r by (auto simp: entries_ok_def d_def ent_ptr_def ent_router_def ent_adapters_def)
  moreover have "usb4_heap_wf ?h"
    using wf by (auto simp: usb4_heap_wf_def heap_wf_def n_def u_def d_def less_SucI)
  ultimately show ?thesis
    using rep by (simp add: usb4_rep_def ent_ptr_def)
qed

lemma create_refines:
  assumes rep: "usb4_rep ctx h xs" and live: "routers_live ctx h"
  obtains ret out ctx' h' xs' where
    "usb4_create_pcie_tunnel ctx h (Some r) True = Some (ret, out, ctx', h')"
    and "usb4_rep ctx' h' xs'"
    and "alloc_failed ret \<and> create_oom h \<or>
         (ret, map ent_router xs') = table_create (router_ok ctx h (Some r)) (map ent_router xs) r"
    and "ret \<noteq> USB4_SUCCESS \<Longrightarrow> out = None \<and> ctx' = ctx \<and> xs' = xs \<and> same_tunnels h h'"
    and "ret = USB4_SUCCESS \<Longrightarrow> router_ok ctx h (Some r) \<and>
           (\<exists>tp u d. out = Some tp \<and> xs' = xs @ [(tp, u, d, r)] \<and>
              ctx' = ctx\<lparr>active_tunnels := active_tunnels ctx @ [Some tp]\<rparr> \<and>
              dom (hp_mem (h_tunnels h')) = insert tp (dom (hp_mem (h_tunnels h))) \<and>
              dom (hp_mem (h_adapters h')) = {u, d} \<union> dom (hp_mem (h_adapters h)) \<and>
              h_routers h' = h_routers h \<and> h_pdata h' = h_pdata h \<and> h_iorefs h' = h_iorefs h)"
proof -
  have len: "length (active_tunnels ctx) = length xs"
    and ts: "active_tunnels ctx = map (\<lambda>x. Some (ent_ptr x)) xs"
    and ok: "entries_ok h xs" and wf: "usb4_heap_wf h"
    using rep by (auto simp: usb4_rep_def)
  have ver: "router_verified ctx h r (connected_routers ctx) = Some (router_ok ctx h (Some r))"
    using router_verified_total [OF live order.refl, of r] by (auto simp: router_ok_def)
  have ex: "tunnel_exists h r (active_tunnels ctx) = Some (r \<in> ent_router ` set xs)"
    unfolding ts by (rule tunnel_exists_total [OF ok])
  have refl: "same_tunnels h h" by (simp add: same_tunnels_def same_live_def)
  let ?t = "table_create (router_ok ctx h (Some r)) (map ent_router xs) r"
  show thesis
  proof (cases "length xs < USB4_MAX_TUNNELS \<and> router_ok ctx h (Some r) \<and> r \<notin> ent_router ` set xs")
    case False
    have "usb4_create_pcie_tunnel ctx h (Some r) True = Some (fst ?t, None, ctx, h)"
      and "snd ?t = map ent_router xs" and "fst ?t \<noteq> USB4_SUCCESS"
      using False len ver ex by (auto simp: usb4_create_pcie_tunnel_def table_create_def)
    then show thesis
      using that [of "fst ?t" None ctx h xs] rep refl by (metis prod.collapse)
  next
    case True
    let ?n = "hp_next (h_tunnels h)" and ?u = "hp_next (h_adapters h)"
    have g: "Some r = Some r" "length (active_tunnels ctx) < USB4_MAX_TUNNELS"
      "router_verified ctx h r (connected_routers ctx) = Some True"
      "tunnel_exists h r (active_tunnels ctx) = Some False"
      using True len ver ex by auto
    note closed = create_guarded [OF g] and result = that
    have wt: "heap_wf (h_tunnels h)" and wa: "heap_wf (h_adapters h)"
      using wf by (auto simp: usb4_heap_wf_def)
    have fail: thesis
      if "usb4_create_pcie_tunnel ctx h (Some r) True = Some (ret, None, ctx, h')"
        and "alloc_failed ret \<and> create_oom h" and "same_tunnels h h'" and "usb4_heap_wf h'" for ret h'
      using that(2-) usb4_rep_same_live [OF rep _ that(4)]
      by (intro result [OF that(1)]) (auto simp: alloc_failed_def same_tunnels_def)
    consider "hp_oom (h_tunnels h) ?n"
      | "\<not> hp_oom (h_tunnels h) ?n" "hp_oom (h_adapters h) ?u \<or> hp_oom (h_adapters h) (Suc ?u)"
      | "\<not> hp_oom (h_tunnels h) ?n" "\<not> hp_oom (h_adapters h) ?u" "\<not> hp_oom (h_adapters h) (Suc ?u)"
      by blast
    then show thesis
    proof cases
      case 1
      with closed wt wa show thesis
        by (intro fail [of USB4_ERR_NO_MEMORY "h\<lparr>h_tunnels := h_tunnels h\<lparr>hp_next := Suc ?n\<rparr>\<rparr>"])
          (auto simp: Let_def alloc_failed_def create_oom_def same_tunnels_def same_live_def usb4_heap_wf_def intro: heap_wf_bump)
    next
      case 2
      then show thesis
        using wt wa
        by (intro fail [of USB4_ERR_NOT_FOUND "h\<lparr>h_tunnels := h_tunnels h\<lparr>hp_next := Suc ?n\<rparr>,
            h_adapters := h_adapters h\<lparr>hp_next := Suc (Suc ?u)\<rparr>\<rparr>"])
          (auto simp: closed Let_def alloc_failed_def create_oom_def same_tunnels_def same_live_def usb4_heap_wf_def intro!: heap_wf_bump)
    next
      case 3
      with closed have "usb4_create_pcie_tunnel ctx h (Some r) True =
        Some (USB4_SUCCESS, Some ?n, ctx\<lparr>active_tunnels := active_tunnels ctx @ [Some ?n]\<rparr>,
          h\<lparr>h_tunnels := h_tunnels h\<lparr>hp_mem := (hp_mem (h_tunnels h))(?n \<mapsto> new_tunnel ?u (Suc ?u)), hp_next := Suc ?n\<rparr>,
            h_adapters := h_adapters h\<lparr>hp_mem := (hp_mem (h_adapters h))(?u \<mapsto> new_adapter HostRouter True,
              Suc ?u \<mapsto> new_adapter r False), hp_next := Suc (Suc ?u)\<rparr>\<rparr>)"
        by (simp add: Let_def)
      from that [OF this create_success_rep [OF rep]] True show thesis
        by (auto simp: table_create_def ent_router_def)
    qed
  qed
qed

subsection \<open>Destruction\<close>

definition drop_tunnel :: "usb4_heap \<Rightarrow> ptr set \<Rightarrow> ptr set \<Rightarrow> usb4_heap" where
  "drop_tunnel h T A =
     h\<lparr>h_tunnels := h_tunnels h\<lparr>hp_mem := hp_mem (h_tunnels h) |` (- T)\<rparr>,
       h_adapters := h_adapters h\<lparr>hp_mem := hp_mem (h_adapters h) |` (- A)\<rparr>\<rparr>"

lemma drop_tunnel_sel [simp]:
  "hp_mem (h_tunnels (drop_tunnel h T A)) = hp_mem (h_tunnels h) |` (- T)"
  "hp_mem (h_adapters (drop_tunnel h T A)) = hp_mem (h_adapters h) |` (- A)"
  "h_routers (drop_tunnel h T A) = h_routers h"
  "h_pdata (drop_tunnel h T A) = h_pdata h"
  "h_iorefs (drop_tunnel h T A) = h_iorefs h"
  "hp_oom (h_tunnels (drop_tunnel h T A)) = hp_oom (h_tunnels h)"
  "hp_oom (h_adapters (drop_tunnel h T A)) = hp_oom (h_adapters h)"
  by (simp_all add: drop_tunnel_def)

lemma drop_tunnel_drop [simp]:
  "drop_tunnel (drop_tunnel h T A) T' A' = drop_tunnel h (T \<union> T') (A \<union> A')"
  by (simp add: drop_tunnel_def Int_commute)

lemma restrict_UNIV [simp]: "m |` UNIV = m"
  by (simp add: restrict_map_def)

lemma drop_tunnel_empty [simp]: "drop_tunnel h {} {} = h"
  by (simp add: drop_tunnel_def)

lemma drop_tunnel_wf: "usb4_heap_wf h \<Longrightarrow> usb4_heap_wf (drop_tunnel h T A)"
  by (auto simp: usb4_heap_wf_def heap_wf_def drop_tunnel_def restrict_map_def split: if_splits)

lemma destroy_closed:
  assumes "tunnel_at h tp u d r" and "u \<noteq> d"
  shows "usb4_destroy_pcie_tunnel ctx h (Some tp) =
     Some (USB4_SUCCESS,
       ctx\<lparr>active_tunnels := remove_first (\<lambda>x. x = Some tp) (active_tunnels ctx)\<rparr>,
       drop_tunnel h {tp} {u, d})"
proof -
  have m: "m |` (- {a, b}) = m(a := None, b := None)" and m1: "m |` (- {a}) = m(a := None)"
    for m :: "ptr \<rightharpoonup> 'x" and a b
    by (auto simp: restrict_map_def)
  from assms show ?thesis
    by (auto simp: usb4_destroy_pcie_tunnel_def tunnel_at_def heap_get_def heap_put_def heap_free_def
        deactivate_free_adapter_def set_adapter_active_def drop_tunnel_def m m1 fun_upd_twist)
qed

lemma destroy_closed_null:
  "usb4_destroy_pcie_tunnel ctx h None = Some (USB4_ERR_INVALID_PARAM, ctx, h)"
  by (simp add: usb4_destroy_pcie_tunnel_def)

lemma entries_ok_split:
  assumes "entries_ok h (ys @ x # zs)"
  shows "ent_ptr x \<notin> ent_ptr ` set (ys @ zs)"
    and "\<And>a. a \<in> set (ent_adapters x) \<Longrightarrow> a \<notin> (\<Union>y \<in> set (ys @ zs). set (ent_adapters y))"
    and "distinct (ent_adapters x)"
    and "entries_ok h (ys @ zs)"
  using assms by (auto simp: entries_ok_def)

lemma destroy_refines:
  assumes rep: "usb4_rep ctx h (ys @ x # zs)"
  shows "\<exists>ctx'. usb4_destroy_pcie_tunnel ctx h (Some (ent_ptr x)) =
       Some (USB4_SUCCESS, ctx', drop_tunnel h {ent_ptr x} (set (ent_adapters x))) \<and>
     ctx' = ctx\<lparr>active_tunnels := map (\<lambda>x. Some (ent_ptr x)) (ys @ zs)\<rparr> \<and>
     usb4_rep ctx' (drop_tunnel h {ent_ptr x} (set (ent_adapters x))) (ys @ zs)"
proof -
  obtain tp u d r where x: "x = (tp, u, d, r)" by (cases x)
  from rep have ok: "entries_ok h (ys @ x # zs)" and wf: "usb4_heap_wf h"
    and ts: "active_tunnels ctx = map (\<lambda>x. Some (ent_ptr x)) (ys @ x # zs)"
    by (auto simp: usb4_rep_def)
  note sp = entries_ok_split [OF ok]
  have at: "tunnel_at h tp u d r" and "u \<noteq> d"
    using ok sp(3) by (auto simp: entries_ok_def x ent_adapters_def)
  then have call: "usb4_destroy_pcie_tunnel ctx h (Some (ent_ptr x)) =
     Some (USB4_SUCCESS, ctx\<lparr>active_tunnels := remove_first (\<lambda>q. q = Some (ent_ptr x)) (active_tunnels ctx)\<rparr>,
       drop_tunnel h {ent_ptr x} (set (ent_adapters x)))"
    by (simp add: destroy_closed x ent_defs)
  have rm: "remove_first (\<lambda>q. q = Some (ent_ptr x)) (active_tunnels ctx) = map (\<lambda>x. Some (ent_ptr x)) (ys @ zs)"
    unfolding ts by (rule remove_first_map_Some) (use sp(1) in \<open>simp add: image_Un\<close>)
  have "entries_ok (drop_tunnel h {ent_ptr x} (set (ent_adapters x))) (ys @ zs)"
  proof (rule entries_ok_frame [OF sp(4)])
    fix y
    assume "y \<in> set (ys @ zs)"
    then have "ent_ptr y \<noteq> ent_ptr x" using sp(1) by (metis imageI)
    then show "hp_mem (h_tunnels (drop_tunnel h {ent_ptr x} (set (ent_adapters x)))) (ent_ptr y) =
        hp_mem (h_tunnels h) (ent_ptr y)"
      by (simp add: restrict_map_def)
  next
    fix y a
    assume "y \<in> set (ys @ zs)" and "a \<in> set (ent_adapters y)"
    then have "a \<notin> set (ent_adapters x)" using sp(2) by (metis UN_I)
    then show "hp_mem (h_adapters (drop_tunnel h {ent_ptr x} (set (ent_adapters x)))) a =
        hp_mem (h_adapters h) a"
      by (simp add: restrict_map_def)
  qed
  with call rm wf show ?thesis
    by (auto simp: usb4_rep_def drop_tunnel_wf)
qed

definition drop_entries :: "usb4_heap \<Rightarrow> tunnel_entry list \<Rightarrow> usb4_heap" where
  "drop_entries h xs = drop_tunnel h (ent_ptr ` set xs) (\<Union>x \<in> set xs. set (ent_adapters x))"

lemma destroy_all_frees:
  assumes "usb4_rep ctx h xs"
  shows "destroy_all_tunnels ctx h = Some (ctx\<lparr>active_tunnels := []\<rparr>, drop_entries h xs)"
  using assms
proof (induction xs arbitrary: ctx h rule: rev_induct)
  case Nil
  then show ?case
    by (simp add: usb4_rep_def destroy_all_tunnels.simps drop_entries_def)
next
  case (snoc x xs)
  obtain ctx' where c: "usb4_destroy_pcie_tunnel ctx h (Some (ent_ptr x)) =
       Some (USB4_SUCCESS, ctx', drop_tunnel h {ent_ptr x} (set (ent_adapters x)))"
    and ctx': "ctx' = ctx\<lparr>active_tunnels := map (\<lambda>x. Some (ent_ptr x)) xs\<rparr>"
    and rep: "usb4_rep ctx' (drop_tunnel h {ent_ptr x} (set (ent_adapters x))) xs"
    using destroy_refines [of ctx h xs x "[]"] snoc.prems by auto
  have "last (active_tunnels ctx) = Some (ent_ptr x)" and "active_tunnels ctx \<noteq> []"
    using snoc.prems by (auto simp: usb4_rep_def)
  with c have "destroy_all_tunnels ctx h =
      destroy_all_tunnels ctx' (drop_tunnel h {ent_ptr x} (set (ent_adapters x)))"
    by (simp add: destroy_all_tunnels.simps [of ctx h])
  with snoc.IH [OF rep] ctx' show ?case
    by (simp add: drop_entries_def Un_commute)
qed

subsection \<open>Routers\<close>

text \<open>
  \<open>routers_rep ctx h ps\<close>: the scanned routers are the distinct heap objects \<open>ps\<close>, each with a live
  platform handle of its own.
\<close>

definition pdata_of :: "usb4_heap \<Rightarrow> ptr \<Rightarrow> ptr option" where
  "pdata_of h p = Option.bind (hp_mem (h_routers h) p) rt_platform_data"

definition routers_rep :: "usb4_heap \<Rightarrow> ptr list \<Rightarrow> bool" where
  "routers_rep h ps \<longleftrightarrow>
     distinct ps \<and> distinct (map (pdata_of h) ps) \<and>
     (\<forall>p \<in> set ps. p \<in> dom (hp_mem (h_routers h)) \<and>
        (\<exists>q. pdata_of h p = Some q \<and> q \<in> dom (hp_mem (h_pdata h))))"

definition routers_owned :: "usb4_heap \<Rightarrow> ptr list \<Rightarrow> bool" where
  "routers_owned h ps \<longleftrightarrow>
     dom (hp_mem (h_routers h)) = set ps \<and> Some ` dom (hp_mem (h_pdata h)) = pdata_of h ` set ps"

lemma pdata_of_cong: "hp_mem (h_routers h') = hp_mem (h_routers h) \<Longrightarrow> pdata_of h' = pdata_of h"
  by (simp add: pdata_of_def fun_eq_iff)

lemma routers_cong:
  assumes "hp_mem (h_routers h') = hp_mem (h_routers h)" and "hp_mem (h_pdata h') = hp_mem (h_pdata h)"
  shows "routers_rep h' ps = routers_rep h ps" and "routers_owned h' ps = routers_owned h ps"
  using assms pdata_of_cong [OF assms(1)] by (simp_all add: routers_rep_def routers_owned_def)

lemma free_routers_frees:
  "routers_rep h ps \<Longrightarrow>
   free_routers h (map Some ps) =
     Some (h\<lparr>h_pdata := h_pdata h\<lparr>hp_mem := hp_mem (h_pdata h) |` {q. Some q \<notin> pdata_of h ` set ps}\<rparr>,
             h_routers := h_routers h\<lparr>hp_mem := hp_mem (h_routers h) |` (- set ps)\<rparr>\<rparr>)"
proof (induction ps arbitrary: h)
  case Nil
  then show ?case by simp
next
  case (Cons p ps)
  from Cons.prems obtain r q where r: "hp_mem (h_routers h) p = Some r" "rt_platform_data r = Some q"
    and q: "q \<in> dom (hp_mem (h_pdata h))"
    by (auto simp: routers_rep_def pdata_of_def bind_eq_Some_conv)
  let ?h = "h\<lparr>h_pdata := h_pdata h\<lparr>hp_mem := (hp_mem (h_pdata h))(q := None)\<rparr>,
              h_routers := h_routers h\<lparr>hp_mem := (hp_mem (h_routers h))(p := None)\<rparr>\<rparr>"
  have pd: "pdata_of ?h p' = pdata_of h p'" if "p' \<in> set ps" for p'
    using that Cons.prems by (auto simp: pdata_of_def routers_rep_def)
  have qp: "pdata_of h p = Some q" using r by (simp add: pdata_of_def)
  have "routers_rep ?h ps"
    using Cons.prems pd qp
    by (auto simp: routers_rep_def distinct_map inj_on_def dom_def image_iff) metis
  from Cons.IH [OF this] have rest: "free_routers ?h (map Some ps) =
     Some (?h\<lparr>h_pdata := h_pdata ?h\<lparr>hp_mem := hp_mem (h_pdata ?h) |` {q. Some q \<notin> pdata_of ?h ` set ps}\<rparr>,
             h_routers := h_routers ?h\<lparr>hp_mem := hp_mem (h_routers ?h) |` (- set ps)\<rparr>\<rparr>)" .
  have im: "pdata_of ?h ` set ps = pdata_of h ` set ps" using pd by (auto simp: image_iff)
  have e1: "(hp_mem (h_pdata h))(q := None) |` {q. Some q \<notin> pdata_of h ` set ps} =
            hp_mem (h_pdata h) |` {q. Some q \<notin> pdata_of h ` set (p # ps)}"
    using qp by (auto simp: restrict_map_def fun_eq_iff)
  have e2: "(hp_mem (h_routers h))(p := None) |` (- set ps) = hp_mem (h_routers h) |` (- set (p # ps))"
    by (auto simp: restrict_map_def fun_eq_iff)
  show ?case
    using r q rest e1 e2 im by (auto simp: heap_get_def heap_free_opt_def heap_free_def split: option.splits)
qed

lemma shutdown_frees:
  assumes "usb4_rep ctx h xs" and "connected_routers ctx = map Some ps" and "routers_rep h ps"
  shows "\<exists>h'. usb4_controller_shutdown ctx h = Some (usb4_ctx_zero, h') \<and>
     hp_mem (h_tunnels h') = hp_mem (h_tunnels h) |` (- ent_ptr ` set xs) \<and>
     hp_mem (h_adapters h') = hp_mem (h_adapters h) |` (- (\<Union>x \<in> set xs. set (ent_adapters x))) \<and>
     hp_mem (h_routers h') = hp_mem (h_routers h) |` (- set ps) \<and>
     hp_mem (h_pdata h') = hp_mem (h_pdata h) |` {q. Some q \<notin> pdata_of h ` set ps} \<and>
     h_iorefs h' = h_iorefs (io_released (io_service ctx) h)"
proof -
  have eq: "pdata_of (drop_entries h xs) = pdata_of h"
    by (simp add: fun_eq_iff pdata_of_def drop_entries_def)
  with assms(3) have "routers_rep (drop_entries h xs) ps"
    by (simp add: routers_rep_def) (simp add: drop_entries_def)
  from free_routers_frees [OF this] destroy_all_frees [OF assms(1)] assms(2) eq show ?thesis
    by (simp add: usb4_controller_shutdown_def) (simp add: drop_entries_def split: option.split)
qed

subsection \<open>Scanning\<close>

definition router_heap_wf :: "usb4_heap \<Rightarrow> bool" where
  "router_heap_wf h \<longleftrightarrow> heap_wf (h_routers h) \<and> heap_wf (h_pdata h)"

lemma routers_rep_extend:
  assumes rep: "routers_rep h ps" and wf: "router_heap_wf h"
  defines "p \<equiv> hp_next (h_routers h)" and "q \<equiv> hp_next (h_pdata h)"
  assumes r: "rt_platform_data r = Some q"
    and h': "h' = h\<lparr>h_routers := h_routers h\<lparr>hp_mem := (hp_mem (h_routers h))(p \<mapsto> r), hp_next := Suc p\<rparr>,
                    h_pdata := h_pdata h\<lparr>hp_mem := (hp_mem (h_pdata h))(q \<mapsto> s), hp_next := Suc q\<rparr>\<rparr>"
  shows "routers_rep h' (ps @ [p])" and "router_heap_wf h'"
proof -
  have old: "p' < p \<and> pdata_of h' p' = pdata_of h p'" if "p' \<in> set ps" for p'
  proof -
    have "p' < p"
      using that rep wf heap_wf_dom [of "h_routers h" p']
      by (simp add: routers_rep_def router_heap_wf_def p_def)
    then show ?thesis by (simp add: h' pdata_of_def)
  qed
  have oldq: "q' < q" if "p' \<in> set ps" "pdata_of h p' = Some q'" for p' q'
    using that rep wf heap_wf_dom [of "h_pdata h" q']
    by (force simp: routers_rep_def router_heap_wf_def q_def)
  have new: "pdata_of h' p = Some q" by (simp add: h' pdata_of_def r)
  have same: "map (pdata_of h') ps = map (pdata_of h) ps" using old by simp
  have "Some q \<notin> set (map (pdata_of h) ps)" using oldq by (metis imageE less_irrefl list.set_map)
  with rep new have "distinct (map (pdata_of h') (ps @ [p]))"
    by (simp only: routers_rep_def map_append same list.map distinct_append) simp
  moreover have "distinct (ps @ [p])"
    using rep old by (auto simp: routers_rep_def)
  moreover have "p' \<in> dom (hp_mem (h_routers h')) \<and>
      (\<exists>q. pdata_of h' p' = Some q \<and> q \<in> dom (hp_mem (h_pdata h')))" if "p' \<in> set (ps @ [p])" for p'
  proof (cases "p' = p")
    case True
    with new show ?thesis by (simp add: h')
  next
    case False
    with that have "p' \<in> set ps" by simp
    with rep old [OF this] show ?thesis by (auto simp: routers_rep_def h')
  qed
  ultimately show "routers_rep h' (ps @ [p])"
    unfolding routers_rep_def by blast
  show "router_heap_wf h'"
    using wf by (auto simp: router_heap_wf_def heap_wf_def h' p_def q_def less_SucI)
qed

text \<open>\<open>ls\<close> are the routers of earlier scans.\<close>

lemma scan_loop_rep:
  assumes "scan_loop h dvs (map Some ps) = (found, h')"
    and "routers_rep h (ls @ ps)" and "router_heap_wf h" and "length ps \<le> USB4_MAX_TUNNELS"
  shows "\<exists>ps'. found = map Some ps' \<and> routers_rep h' (ls @ ps') \<and> router_heap_wf h' \<and>
     length ps' \<le> USB4_MAX_TUNNELS \<and> h_tunnels h' = h_tunnels h \<and> h_adapters h' = h_adapters h \<and>
     (routers_owned h (ls @ ps) \<longrightarrow> routers_owned h' (ls @ ps'))"
  using assms
proof (induction dvs arbitrary: h ps)
  case Nil
  then show ?case by auto
next
  case (Cons dv dvs)
  let ?p = "hp_next (h_routers h)" and ?q = "hp_next (h_pdata h)"
  have wf: "heap_wf (h_routers h)" "heap_wf (h_pdata h)"
    using Cons.prems(3) by (auto simp: router_heap_wf_def)
  have frame: "routers_rep h1 qs = routers_rep h qs" "routers_owned h1 qs = routers_owned h qs"
    if "hp_mem (h_routers h1) = hp_mem (h_routers h)" "hp_mem (h_pdata h1) = hp_mem (h_pdata h)" for h1 qs
    using routers_cong [OF that] by simp_all
  show ?case
  proof (cases "length ps \<ge> USB4_MAX_TUNNELS")
    case True
    with Cons.prems frame [of h'] show ?thesis by (auto simp: router_heap_wf_def)
  next
    case False
    have skip: ?thesis
      if "scan_loop h1 dvs (map Some ps) = (found, h')" and "same_live h h1" and "router_heap_wf h1"
        and "h_tunnels h1 = h_tunnels h" "h_adapters h1 = h_adapters h" for h1
      using Cons.IH [OF that(1) _ that(3) Cons.prems(4)] Cons.prems(2) frame [of h1] that(2,4,5)
      by (simp add: same_live_def)
    consider "hp_oom (h_routers h) ?p" | "\<not> hp_oom (h_routers h) ?p" "hp_oom (h_pdata h) ?q"
      | "\<not> hp_oom (h_routers h) ?p" "\<not> hp_oom (h_pdata h) ?q" by blast
    then show ?thesis
    proof cases
      case 1
      show ?thesis
        by (rule skip [of "h\<lparr>h_routers := h_routers h\<lparr>hp_next := Suc ?p\<rparr>\<rparr>"])
          (use 1 False Cons.prems(1) wf in \<open>auto simp: heap_alloc_def Let_def same_live_def router_heap_wf_def
            intro: heap_wf_bump\<close>)
    next
      case 2
      show ?thesis
        by (rule skip [of "h\<lparr>h_routers := h_routers h\<lparr>hp_next := Suc ?p\<rparr>,
              h_pdata := h_pdata h\<lparr>hp_next := Suc ?q\<rparr>\<rparr>"])
          (use 2 False Cons.prems(1) wf in \<open>auto simp: heap_alloc_def Let_def same_live_def router_heap_wf_def
            intro: heap_wf_bump\<close>)
    next
      case 3
      let ?h0 = "io_retained (iod_service dv) h"
      let ?h1 = "?h0\<lparr>h_routers := h_routers ?h0\<lparr>hp_mem := (hp_mem (h_routers ?h0))(?p \<mapsto> scanned_router dv ?q), hp_next := Suc ?p\<rparr>,
           h_pdata := h_pdata ?h0\<lparr>hp_mem := (hp_mem (h_pdata ?h0))(?q \<mapsto> iod_service dv), hp_next := Suc ?q\<rparr>\<rparr>"
      have rest: "scan_loop ?h1 dvs (map Some (ps @ [?p])) = (found, h')"
        using 3 False Cons.prems(1) by (simp add: heap_alloc_def Let_def)
      have "routers_rep ?h0 (ls @ ps)" "router_heap_wf ?h0" using Cons.prems(2,3) frame [of ?h0] by (simp_all add: router_heap_wf_def)
      note ext = routers_rep_extend [OF this, unfolded io_refs_sel, OF scanned_router_sel(1) [of dv] refl, of "iod_service dv"]
      have ext1: "routers_rep ?h1 (ls @ ps @ [?p])" "router_heap_wf ?h1" using ext by simp_all
      from False have "length (ps @ [?p]) \<le> USB4_MAX_TUNNELS" by simp
      have pd: "pdata_of ?h1 p = (if p = ?p then Some ?q else pdata_of h p)" for p
        by (simp add: pdata_of_def)
      have "?p \<notin> set (ls @ ps)"
        using Cons.prems(2) wf heap_wf_dom [of "h_routers h" ?p] by (auto simp: routers_rep_def)
      then have im: "pdata_of ?h1 ` set (ls @ ps @ [?p]) = insert (Some ?q) (pdata_of h ` set (ls @ ps))"
        using pd by auto
      have own: "routers_owned h (ls @ ps) \<Longrightarrow> routers_owned ?h1 (ls @ ps @ [?p])"
        unfolding routers_owned_def im by simp
      from Cons.IH [OF rest ext1 \<open>length (ps @ [?p]) \<le> USB4_MAX_TUNNELS\<close>] own show ?thesis by auto
    qed
  qed
qed

text \<open>
  The references: beside the one to the controller service, one for the device of every router is held
  (others may be, of devices beyond the table). A step that keeps the handles and the references keeps this.
\<close>

definition usb4_handles :: "usb4_heap \<Rightarrow> nat \<Rightarrow> nat" where
  "usb4_handles h s = card {q. hp_mem (h_pdata h) q = Some s}"

definition refs_held :: "USB4ControllerContext \<Rightarrow> usb4_heap \<Rightarrow> bool" where
  "refs_held ctx h \<longleftrightarrow>
     (\<forall>s. usb4_handles h s + (if io_service ctx = Some s then 1 else 0) \<le> count_list (h_iorefs h) s)"

lemma handles_cong: "hp_mem (h_pdata h') = hp_mem (h_pdata h) \<Longrightarrow> usb4_handles h' = usb4_handles h"
  by (simp add: usb4_handles_def fun_eq_iff)

lemma handles_upd:
  assumes "finite (dom m)" and "m q = None" and "hp_mem (h_pdata h') = m(q \<mapsto> v)" and "hp_mem (h_pdata h) = m"
  shows "usb4_handles h' s = usb4_handles h s + (if v = s then 1 else 0)"
proof -
  have "finite {p. m p = Some s}" by (rule finite_subset [OF _ assms(1)]) auto
  moreover have "{p. (m(q \<mapsto> v)) p = Some s} = (if v = s then insert q {p. m p = Some s} else {p. m p = Some s})"
    using assms(2) by auto
  ultimately show ?thesis using assms by (simp add: usb4_handles_def)
qed

lemma count_list_pos: "s \<in> set xs \<Longrightarrow> Suc 0 \<le> count_list xs s"
  using count_list_0_iff [of xs s] by (cases "count_list xs s") auto

lemma count_list_remove1: "count_list (remove1 s xs) v = count_list xs v - (if v = s then 1 else 0)"
  by (induction xs) auto

lemma heap_wf_finite: "heap_wf h \<Longrightarrow> finite (dom (hp_mem h))"
  by (rule finite_subset [of _ "{..< hp_next h}"]) (auto dest: heap_wf_dom)

lemma scan_loop_refs:
  assumes "scan_loop h dvs found = (found', h')" and "router_heap_wf h" and "\<And>s. usb4_handles h s + R s \<le> count_list (h_iorefs h) s"
  shows "usb4_handles h' s + R s \<le> count_list (h_iorefs h') s"
  using assms
proof (induction dvs arbitrary: h found)
  case Nil
  then show ?case by simp
next
  case (Cons dv dvs)
  let ?p = "hp_next (h_routers h)" and ?q = "hp_next (h_pdata h)"
  have wf: "heap_wf (h_routers h)" "heap_wf (h_pdata h)"
    using Cons.prems(2) by (auto simp: router_heap_wf_def)
  have skip: ?case
    if "scan_loop h1 dvs found = (found', h')" "hp_mem (h_pdata h1) = hp_mem (h_pdata h)" "h_iorefs h1 = h_iorefs h"
      "router_heap_wf h1" for h1
    using Cons.IH [OF that(1,4)] Cons.prems(3) that(2,3) handles_cong [of h1 h] by simp
  consider "length found \<ge> USB4_MAX_TUNNELS" | "length found < USB4_MAX_TUNNELS" "hp_oom (h_routers h) ?p"
    | "length found < USB4_MAX_TUNNELS" "\<not> hp_oom (h_routers h) ?p" "hp_oom (h_pdata h) ?q"
    | "length found < USB4_MAX_TUNNELS" "\<not> hp_oom (h_routers h) ?p" "\<not> hp_oom (h_pdata h) ?q" by linarith
  then show ?case
  proof cases
    case 1
    with Cons.prems(1) have "h' = io_retained (iod_service dv) h" by simp
    with Cons.prems(3) [of s] handles_cong [of h' h] show ?thesis by simp
  next
    case 2
    show ?thesis
      by (rule skip [of "h\<lparr>h_routers := h_routers h\<lparr>hp_next := Suc ?p\<rparr>\<rparr>"])
        (use 2 Cons.prems(1) wf in \<open>auto simp: heap_alloc_def Let_def router_heap_wf_def intro: heap_wf_bump\<close>)
  next
    case 3
    show ?thesis
      by (rule skip [of "h\<lparr>h_routers := h_routers h\<lparr>hp_next := Suc ?p\<rparr>, h_pdata := h_pdata h\<lparr>hp_next := Suc ?q\<rparr>\<rparr>"])
        (use 3 Cons.prems(1) wf in \<open>auto simp: heap_alloc_def Let_def router_heap_wf_def intro: heap_wf_bump\<close>)
  next
    case 4
    let ?h1 = "(io_retained (iod_service dv) h)\<lparr>h_routers := h_routers h\<lparr>hp_mem := (hp_mem (h_routers h))(?p \<mapsto> scanned_router dv ?q), hp_next := Suc ?p\<rparr>,
         h_pdata := h_pdata h\<lparr>hp_mem := (hp_mem (h_pdata h))(?q \<mapsto> iod_service dv), hp_next := Suc ?q\<rparr>\<rparr>"
    have rest: "scan_loop ?h1 dvs (found @ [Some ?p]) = (found', h')"
      using 4 Cons.prems(1) by (simp add: heap_alloc_def Let_def)
    have "usb4_handles ?h1 s = usb4_handles h s + (if iod_service dv = s then 1 else 0)" for s
      by (rule handles_upd [OF heap_wf_finite [OF wf(2)] heap_wf_fresh [OF wf(2)]]) simp_all
    moreover have "router_heap_wf ?h1" using wf by (auto simp: router_heap_wf_def heap_wf_def less_Suc_eq)
    ultimately show ?thesis using Cons.prems(3) by (intro Cons.IH [OF rest]) simp_all
  qed
qed

section \<open>Every run of the controller\<close>

text \<open>
  \<open>usb4_owned ctx h xs ps ls\<close>: all live tunnels and adapters are reachable from the context, and the live
  routers and platform handles are those of \<open>ps\<close>, the last scan, and of \<open>ls\<close>, the routers of earlier scans
  that a later one has overwritten. \<open>usb4_reach io ctx h\<close> are the states after initialisation on a heap
  with no USB4 object, followed by any scans, creations (with any arguments and any failing allocation),
  destructions of active tunnels, bandwidth requests and callback registrations. \<open>usb4_lost\<close> are the routers
  that the context no longer names.
\<close>

definition usb4_owned ::
  "USB4ControllerContext \<Rightarrow> usb4_heap \<Rightarrow> tunnel_entry list \<Rightarrow> ptr list \<Rightarrow> ptr list \<Rightarrow> bool" where
  "usb4_owned ctx h xs ps ls \<longleftrightarrow>
     usb4_rep ctx h xs \<and> connected_routers ctx = map Some ps \<and> routers_rep h (ls @ ps) \<and>
     routers_owned h (ls @ ps) \<and> router_heap_wf h \<and> length ps \<le> USB4_MAX_TUNNELS \<and>
     dom (hp_mem (h_tunnels h)) = ent_ptr ` set xs \<and>
     dom (hp_mem (h_adapters h)) = (\<Union>x \<in> set xs. set (ent_adapters x)) \<and> refs_held ctx h"

definition usb4_heap_none :: "usb4_heap \<Rightarrow> bool" where
  "usb4_heap_none h \<longleftrightarrow>
     hp_mem (h_routers h) = Map.empty \<and> hp_mem (h_adapters h) = Map.empty \<and>
     hp_mem (h_tunnels h) = Map.empty \<and> hp_mem (h_pdata h) = Map.empty"

definition usb4_lost :: "USB4ControllerContext \<Rightarrow> usb4_heap \<Rightarrow> ptr set" where
  "usb4_lost ctx h = {p \<in> dom (hp_mem (h_routers h)). Some p \<notin> set (connected_routers ctx)}"

inductive usb4_reach :: "iokit option \<Rightarrow> USB4ControllerContext \<Rightarrow> usb4_heap \<Rightarrow> bool" for io where
  reach_init: "usb4_heap_none h \<Longrightarrow> usb4_controller_init io h = Some (USB4_SUCCESS, ctx, h1) \<Longrightarrow> usb4_reach io ctx h1"
| reach_scan: "usb4_reach io ctx h \<Longrightarrow> usb4_scan_routers io ctx h = (n, ctx', h') \<Longrightarrow> usb4_reach io ctx' h'"
| reach_create: "usb4_reach io ctx h \<Longrightarrow>
     usb4_create_pcie_tunnel ctx h router out = Some (ret, t, ctx', h') \<Longrightarrow> usb4_reach io ctx' h'"
| reach_destroy: "usb4_reach io ctx h \<Longrightarrow> tunnel \<in> insert None (set (active_tunnels ctx)) \<Longrightarrow>
     usb4_destroy_pcie_tunnel ctx h tunnel = Some (ret, ctx', h') \<Longrightarrow> usb4_reach io ctx' h'"
| reach_bandwidth: "usb4_reach io ctx h \<Longrightarrow> tunnel \<in> insert None (set (active_tunnels ctx)) \<Longrightarrow>
     usb4_request_bandwidth (h_tunnels h) tunnel bw out = Some (ret, got, ht) \<Longrightarrow>
     usb4_reach io ctx (h\<lparr>h_tunnels := ht\<rparr>)"
| reach_hotplug_cb: "usb4_reach io ctx h \<Longrightarrow> usb4_reach io (usb4_register_hotplug_callback ctx cb) h"
| reach_error_cb: "usb4_reach io ctx h \<Longrightarrow> usb4_reach io (usb4_register_error_callback ctx cb) h"

lemma owned_live: "usb4_owned ctx h xs ps ls \<Longrightarrow> routers_live ctx h"
  by (auto simp: usb4_owned_def routers_live_def routers_rep_def)

lemma owned_lost: "usb4_owned ctx h xs ps ls \<Longrightarrow> usb4_lost ctx h = set ls"
  by (auto simp: usb4_owned_def usb4_lost_def routers_owned_def routers_rep_def)

lemma refs_cong:
  "refs_held ctx h \<Longrightarrow> io_service ctx' = io_service ctx \<Longrightarrow> hp_mem (h_pdata h') = hp_mem (h_pdata h) \<Longrightarrow>
   h_iorefs h' = h_iorefs h \<Longrightarrow> refs_held ctx' h'"
  using handles_cong [of h' h] by (simp add: refs_held_def)

lemma init_closed:
  assumes "usb4_controller_init io h = Some (ret, ctx, h1)"
  shows "\<exists>rs. h1 = h\<lparr>h_iorefs := rs\<rparr>"
    and "ret = USB4_SUCCESS \<Longrightarrow> active_tunnels ctx = [] \<and> connected_routers ctx = [] \<and>
      (\<forall>s. io_service ctx = Some s \<longrightarrow> s \<in> set (h_iorefs h1))"
  using assms by (auto simp: usb4_controller_init_def usb4_init_host_router_def usb4_enumerate_adapters_def
      usb4_ctx_zero_def Let_def io_retained_def io_released_def intro: exI [of _ "h_iorefs h"] split: option.splits if_splits)

lemma init_none: "usb4_controller_init io h = Some (ret, ctx, h1) \<Longrightarrow> usb4_heap_none h1 = usb4_heap_none h"
  by (drule init_closed(1)) (auto simp: usb4_heap_none_def)

lemma owned_init:
  assumes "usb4_heap_none h" and "usb4_controller_init io h = Some (USB4_SUCCESS, ctx, h1)"
  shows "usb4_owned ctx h1 [] [] []"
  using init_closed(2) [OF assms(2)] init_none [OF assms(2)] assms(1)
  by (auto simp: usb4_owned_def usb4_rep_def entries_ok_def usb4_heap_wf_def usb4_heap_none_def routers_rep_def
      routers_owned_def router_heap_wf_def heap_wf_def refs_held_def usb4_handles_def count_list_pos)

text \<open>A scan leaves the routers of the scan before it behind.\<close>

lemma owned_scan:
  assumes own: "usb4_owned ctx h xs ps ls" and s: "usb4_scan_routers io ctx h = (n, ctx', h')"
  shows "\<exists>ps' ls'. usb4_owned ctx' h' xs ps' ls' \<and> (ls' = ls \<and> ps' = ps \<or> ls' = ls @ ps)"
proof (cases "\<exists>k dvs. io = Some k \<and> iok_match_devices k \<and> iok_devices k = Some dvs")
  case True
  then obtain k dvs where k: "io = Some k" "iok_match_devices k" "iok_devices k = Some dvs" by blast
  obtain found where f: "scan_loop h dvs [] = (found, h')" and c: "ctx' = ctx\<lparr>connected_routers := found\<rparr>"
    using s k by (auto simp: usb4_scan_routers_def split: prod.splits)
  have base: "routers_rep h (ls @ ps)" "router_heap_wf h" "routers_owned h (ls @ ps)"
    "\<And>s. usb4_handles h s + (if io_service ctx = Some s then 1 else 0) \<le> count_list (h_iorefs h) s"
    using own by (simp_all add: usb4_owned_def refs_held_def)
  from scan_loop_rep [of h dvs "[]" found h' "ls @ ps"] f base(1-3) obtain ps' where
    p: "found = map Some ps'" "routers_rep h' ((ls @ ps) @ ps')" "router_heap_wf h'" "length ps' \<le> USB4_MAX_TUNNELS"
      "h_tunnels h' = h_tunnels h" "h_adapters h' = h_adapters h" "routers_owned h' ((ls @ ps) @ ps')" by auto
  from scan_loop_refs [OF f base(2,4)] have r: "refs_held ctx' h'" using c by (simp add: refs_held_def)
  have "usb4_rep ctx' h' xs" using own c p(5,6)
    by (auto simp: usb4_owned_def usb4_rep_def usb4_heap_wf_def intro: entries_ok_frame)
  with own c p r have "usb4_owned ctx' h' xs ps' (ls @ ps)" by (simp add: usb4_owned_def)
  then show ?thesis by blast
next
  case False
  then have "h' = h" and c: "ctx' = ctx \<or> ctx' = ctx\<lparr>connected_routers := []\<rparr>"
    using s by (auto simp: usb4_scan_routers_def split: option.splits if_splits)
  from c show ?thesis
  proof
    assume "ctx' = ctx\<lparr>connected_routers := []\<rparr>"
    with own have "usb4_owned ctx' h xs [] (ls @ ps)"
      by (simp add: usb4_owned_def usb4_rep_def refs_held_def)
    with \<open>h' = h\<close> show ?thesis by blast
  qed (use own \<open>h' = h\<close> in blast)
qed

lemma owned_create:
  assumes own: "usb4_owned ctx h xs ps ls"
    and c: "usb4_create_pcie_tunnel ctx h router out = Some (ret, t, ctx', h')"
  shows "\<exists>xs. usb4_owned ctx' h' xs ps ls"
proof (cases "router = None \<or> \<not> out")
  case True
  with c have "ctx' = ctx \<and> h' = h" by (auto simp: usb4_create_pcie_tunnel_def split: option.splits)
  with own show ?thesis by blast
next
  case False
  then obtain r where r: "router = Some r" and out: "out = True" by auto
  have rep: "usb4_rep ctx h xs" using own by (simp add: usb4_owned_def)
  show ?thesis
  proof (rule create_refines [OF rep owned_live [OF own], of r])
    fix ret' out' ctx'' h'' xs'
    assume call: "usb4_create_pcie_tunnel ctx h (Some r) True = Some (ret', out', ctx'', h'')"
      and rep': "usb4_rep ctx'' h'' xs'"
      and no: "ret' \<noteq> USB4_SUCCESS \<Longrightarrow> out' = None \<and> ctx'' = ctx \<and> xs' = xs \<and> same_tunnels h h''"
      and yes: "ret' = USB4_SUCCESS \<Longrightarrow> router_ok ctx h (Some r) \<and>
           (\<exists>tp u d. out' = Some tp \<and> xs' = xs @ [(tp, u, d, r)] \<and>
              ctx'' = ctx\<lparr>active_tunnels := active_tunnels ctx @ [Some tp]\<rparr> \<and>
              dom (hp_mem (h_tunnels h'')) = insert tp (dom (hp_mem (h_tunnels h))) \<and>
              dom (hp_mem (h_adapters h'')) = {u, d} \<union> dom (hp_mem (h_adapters h)) \<and>
              h_routers h'' = h_routers h \<and> h_pdata h'' = h_pdata h \<and> h_iorefs h'' = h_iorefs h)"
    from call c r out have eq: "ctx' = ctx''" "h' = h''" by auto
    show ?thesis
    proof (cases "ret' = USB4_SUCCESS")
      case True
      with yes obtain tp u d where "xs' = xs @ [(tp, u, d, r)]"
        and "connected_routers ctx'' = connected_routers ctx"
        and "dom (hp_mem (h_tunnels h'')) = insert tp (dom (hp_mem (h_tunnels h)))"
        and "dom (hp_mem (h_adapters h'')) = {u, d} \<union> dom (hp_mem (h_adapters h))"
        and same: "h_routers h'' = h_routers h" "h_pdata h'' = h_pdata h" "h_iorefs h'' = h_iorefs h"
        and "io_service ctx'' = io_service ctx" by auto
      with own rep' routers_cong [of h'' h "ls @ ps"] refs_cong [of ctx h ctx'' h''] have "usb4_owned ctx'' h'' xs' ps ls"
        by (simp add: usb4_owned_def router_heap_wf_def ent_ptr_def ent_adapters_def Un_commute)
      with eq show ?thesis by blast
    next
      case False
      with no own rep' routers_cong [of h'' h "ls @ ps"] refs_cong [of ctx h ctx h''] have "usb4_owned ctx'' h'' xs ps ls"
        by (simp add: usb4_owned_def same_tunnels_def same_live_def router_heap_wf_def)
      with eq show ?thesis by blast
    qed
  qed
qed

lemma owned_active:
  assumes "usb4_owned ctx h xs ps ls" and "Some tp \<in> set (active_tunnels ctx)"
  obtains ys x zs where "xs = ys @ x # zs" and "tp = ent_ptr x"
  using assms by (auto simp: usb4_owned_def usb4_rep_def dest: split_list)

lemma owned_destroy:
  assumes own: "usb4_owned ctx h xs ps ls" and t: "tunnel \<in> insert None (set (active_tunnels ctx))"
  shows "\<exists>ret ctx' h' xs'. usb4_destroy_pcie_tunnel ctx h tunnel = Some (ret, ctx', h') \<and>
     usb4_owned ctx' h' xs' ps ls"
proof (cases tunnel)
  case None
  with own show ?thesis by (auto simp: destroy_closed_null)
next
  case (Some tp)
  with t own obtain ys x zs where xs: "xs = ys @ x # zs" and tp: "tp = ent_ptr x"
    by (auto elim: owned_active)
  have rep: "usb4_rep ctx h (ys @ x # zs)" and ok: "entries_ok h (ys @ x # zs)"
    using own xs by (auto simp: usb4_owned_def usb4_rep_def)
  let ?h = "drop_tunnel h {ent_ptr x} (set (ent_adapters x))"
  obtain ctx' where c: "usb4_destroy_pcie_tunnel ctx h (Some (ent_ptr x)) = Some (USB4_SUCCESS, ctx', ?h)"
    and ctx': "ctx' = ctx\<lparr>active_tunnels := map (\<lambda>x. Some (ent_ptr x)) (ys @ zs)\<rparr>"
    and rep': "usb4_rep ctx' ?h (ys @ zs)"
    using destroy_refines [OF rep] by blast
  have "(ent_ptr ` set xs) - {ent_ptr x} = ent_ptr ` set (ys @ zs)"
    using entries_ok_split(1) [OF ok] by (auto simp: xs image_Un)
  moreover have "(\<Union>y \<in> set xs. set (ent_adapters y)) - set (ent_adapters x) =
      (\<Union>y \<in> set (ys @ zs). set (ent_adapters y))"
    using entries_ok_split(2) [OF ok] by (auto simp: xs)
  ultimately have "usb4_owned ctx' ?h (ys @ zs) ps ls"
    using own rep' routers_cong [of ?h h "ls @ ps"] refs_cong [of ctx h ctx' ?h]
    by (simp add: usb4_owned_def ctx' router_heap_wf_def Diff_eq [symmetric])
  with c Some tp show ?thesis by blast
qed

lemma owned_bandwidth:
  assumes own: "usb4_owned ctx h xs ps ls" and t: "tunnel \<in> insert None (set (active_tunnels ctx))"
  shows "\<exists>ret got ht. usb4_request_bandwidth (h_tunnels h) tunnel bw out = Some (ret, got, ht) \<and>
     usb4_owned ctx (h\<lparr>h_tunnels := ht\<rparr>) xs ps ls"
proof (cases "tunnel = None \<or> \<not> out")
  case True
  with own show ?thesis by (auto simp: usb4_request_bandwidth_def split: option.splits)
next
  case False
  then obtain tp where tp: "tunnel = Some tp" and out: "out" by auto
  with t own obtain ys x zs where xs: "xs = ys @ x # zs" and x: "tp = ent_ptr x"
    by (auto elim: owned_active)
  have ok: "entries_ok h xs" and wf: "usb4_heap_wf h" using own by (auto simp: usb4_owned_def usb4_rep_def)
  then obtain t where tn: "hp_mem (h_tunnels h) tp = Some t"
    by (auto simp: entries_ok_def xs x ent_ptr_def tunnel_at_def)
  let ?bw = "if bw > 32000 then 32000 else bw"
  let ?h = "h\<lparr>h_tunnels := h_tunnels h\<lparr>hp_mem := (hp_mem (h_tunnels h))(tp \<mapsto> t\<lparr>tn_allocated_bw := ?bw\<rparr>)\<rparr>\<rparr>"
  have call: "usb4_request_bandwidth (h_tunnels h) tunnel bw out = Some (USB4_SUCCESS, Some ?bw, h_tunnels ?h)"
    using tn out tp by (simp add: usb4_request_bandwidth_def heap_get_def heap_put_def usb4_consts Let_def)
  have at: "tunnel_at ?h tp' u d r" if "tunnel_at h tp' u d r" for tp' u d r
    using that tn by (auto simp: tunnel_at_def)
  have "entries_ok ?h xs" using ok at unfolding entries_ok_def by blast
  moreover have "usb4_heap_wf ?h" using wf tn by (auto simp: usb4_heap_wf_def heap_wf_def)
  moreover have "dom (hp_mem (h_tunnels ?h)) = dom (hp_mem (h_tunnels h))" using tn by auto
  ultimately have "usb4_owned ctx ?h xs ps ls"
    using own routers_cong [of ?h h "ls @ ps"] refs_cong [of ctx h ctx ?h] by (simp add: usb4_owned_def usb4_rep_def router_heap_wf_def)
  moreover have "h\<lparr>h_tunnels := h_tunnels ?h\<rparr> = ?h" by simp
  ultimately show ?thesis using call by metis
qed

lemma owned_callbacks:
  "usb4_owned ctx h xs ps ls \<Longrightarrow> usb4_owned (usb4_register_hotplug_callback ctx cb) h xs ps ls"
  "usb4_owned ctx h xs ps ls \<Longrightarrow> usb4_owned (usb4_register_error_callback ctx cb) h xs ps ls"
  by (simp_all add: usb4_register_hotplug_callback_def usb4_register_error_callback_def usb4_owned_def usb4_rep_def
      refs_held_def)

lemma reach_owned: "usb4_reach io ctx h \<Longrightarrow> \<exists>xs ps ls. usb4_owned ctx h xs ps ls"
proof (induction rule: usb4_reach.induct)
  case (reach_init h ctx h1)
  then show ?case using owned_init by blast
next
  case (reach_scan ctx h n ctx' h')
  then show ?case using owned_scan by blast
next
  case (reach_create ctx h router out ret t ctx' h')
  then show ?case using owned_create by blast
next
  case (reach_destroy ctx h tunnel ret ctx' h')
  then show ?case using owned_destroy by fastforce
next
  case (reach_bandwidth ctx h tunnel bw out ret got ht)
  then show ?case using owned_bandwidth [where bw = bw and out = out] by fastforce
next
  case (reach_hotplug_cb ctx h cb)
  then show ?case using owned_callbacks by blast
next
  case (reach_error_cb ctx h cb)
  then show ?case using owned_callbacks by blast
qed

text \<open>A client that scans once, as the runtime does, loses no router.\<close>

definition usb4_once :: "iokit option \<Rightarrow> USB4ControllerContext \<Rightarrow> usb4_heap \<Rightarrow> bool" where
  "usb4_once io ctx h \<longleftrightarrow> usb4_reach io ctx h \<and> usb4_lost ctx h = {}"

lemma once_scan:
  assumes "usb4_heap_none h" and "usb4_controller_init io h = Some (USB4_SUCCESS, ctx, h1)"
    and s: "usb4_scan_routers io ctx h1 = (n, ctx', h')"
  shows "usb4_once io ctx' h'"
  using reach_scan [OF reach_init [OF assms(1,2)] s] owned_scan [OF owned_init [OF assms(1,2)] s] owned_lost
  by (fastforce simp: usb4_once_def)

lemma once_create:
  assumes "usb4_once io ctx h" and c: "usb4_create_pcie_tunnel ctx h router out = Some (ret, t, ctx', h')"
  shows "usb4_once io ctx' h'"
proof -
  from assms(1) have r: "usb4_reach io ctx h" and l: "usb4_lost ctx h = {}" by (simp_all add: usb4_once_def)
  from reach_owned [OF r] obtain xs ps ls where own: "usb4_owned ctx h xs ps ls" by blast
  from owned_create [OF own c] obtain xs' where own': "usb4_owned ctx' h' xs' ps ls" by blast
  with reach_create [OF r c] owned_lost [OF own] owned_lost [OF own'] l show ?thesis by (simp add: usb4_once_def)
qed

text \<open>A further scan that reads the device list loses every router of the scans before.\<close>

theorem usb4_rescan_loses:
  assumes "usb4_reach (Some k) ctx h" and "iok_match_devices k" and "iok_devices k = Some dvs"
    and s: "usb4_scan_routers (Some k) ctx h = (n, ctx', h')"
  shows "usb4_lost ctx' h' = dom (hp_mem (h_routers h))"
proof -
  from reach_owned [OF assms(1)] obtain xs ps ls where own: "usb4_owned ctx h xs ps ls" by blast
  obtain found where f: "scan_loop h dvs [] = (found, h')" and c: "ctx' = ctx\<lparr>connected_routers := found\<rparr>"
    using s assms(2,3) by (auto simp: usb4_scan_routers_def split: prod.splits)
  from scan_loop_rep [of h dvs "[]" found h' "ls @ ps"] f own obtain ps' where
    "found = map Some ps'" "routers_rep h' ((ls @ ps) @ ps')" "routers_owned h' ((ls @ ps) @ ps')"
    by (auto simp: usb4_owned_def)
  with c own show ?thesis by (auto simp: usb4_lost_def routers_owned_def routers_rep_def usb4_owned_def)
qed

section \<open>The properties of the controller\<close>

text \<open>
  What a client can observe: the router at the far end of a tunnel, and the table of these routers
  in the order of the context's array.
\<close>

definition tunnel_router :: "usb4_heap \<Rightarrow> ptr option \<Rightarrow> router_ref option" where
  "tunnel_router h q =
     do { tp \<leftarrow> q; t \<leftarrow> heap_get (h_tunnels h) tp; d \<leftarrow> tn_downstream t;
          ad \<leftarrow> heap_get (h_adapters h) d; Some (ad_router ad) }"

definition tunnel_ready :: "usb4_heap \<Rightarrow> ptr option \<Rightarrow> bool" where
  "tunnel_ready h q \<longleftrightarrow>
     (case do { tp \<leftarrow> q; heap_get (h_tunnels h) tp } of
        None \<Rightarrow> False
      | Some t \<Rightarrow> tn_state t = USB4_TUNNEL_STATE_ACTIVE \<and> tn_allocated_bw t \<le> 32000)"

definition usb4_table :: "USB4ControllerContext \<Rightarrow> usb4_heap \<Rightarrow> router_ref list" where
  "usb4_table ctx h = map (\<lambda>q. the (tunnel_router h q)) (active_tunnels ctx)"

lemma rep_observe:
  assumes "usb4_rep ctx h xs"
  shows "map (tunnel_router h) (active_tunnels ctx) = map Some (map ent_router xs)"
    and "\<forall>q \<in> set (active_tunnels ctx). tunnel_ready h q"
    and "usb4_table ctx h = map ent_router xs"
proof -
  have at: "tunnel_at h (ent_ptr x) (fst (snd x)) (fst (snd (snd x))) (ent_router x)" if "x \<in> set xs" for x
    using assms that by (auto simp: usb4_rep_def entries_ok_def ent_defs)
  have ts: "active_tunnels ctx = map (\<lambda>x. Some (ent_ptr x)) xs" using assms by (simp add: usb4_rep_def)
  have tr: "tunnel_router h (Some (ent_ptr x)) = Some (ent_router x) \<and> tunnel_ready h (Some (ent_ptr x))"
    if "x \<in> set xs" for x
    using at [OF that] by (auto simp: tunnel_at_def tunnel_router_def tunnel_ready_def heap_get_def)
  show "map (tunnel_router h) (active_tunnels ctx) = map Some (map ent_router xs)" using tr ts by simp
  show "\<forall>q \<in> set (active_tunnels ctx). tunnel_ready h q" using tr ts by auto
  show "usb4_table ctx h = map ent_router xs" using tr ts by (simp add: usb4_table_def)
qed

lemma restrict_none: "dom m \<subseteq> - S \<Longrightarrow> m |` S = Map.empty"
  by (auto simp: restrict_map_def fun_eq_iff)

text \<open>A concrete run for the witnesses: an Apple build that finds one device.\<close>

definition usb4_heaps0 :: usb4_heap where
  "usb4_heaps0 = \<lparr>h_routers = heap_empty (\<lambda>_. False), h_adapters = heap_empty (\<lambda>_. False),
     h_tunnels = heap_empty (\<lambda>_. False), h_pdata = heap_empty (\<lambda>_. False), h_iorefs = []\<rparr>"

definition iok1 :: iokit where
  "iok1 = \<lparr>iok_match_usb4 = True, iok_match_tb = False, iok_service = Some 7, iok_open = Some 8,
     iok_vendor = None, iok_device = None, iok_match_devices = True,
     iok_devices = Some [\<lparr>iod_service = 9, iod_vendor = Some 0x8086, iod_device = None\<rparr>]\<rparr>"

definition usb4_ctx1 :: USB4ControllerContext where
  "usb4_ctx1 = usb4_ctx_zero\<lparr>host_router := router_zero\<lparr>rt_is_connected := True, rt_vendor_id := 0x106B,
       rt_adapter_count := 4\<rparr>, io_service := Some 7, io_connection := Some 8,
     connected_routers := [Some 0]\<rparr>"

definition usb4_heaps1 :: usb4_heap where
  "usb4_heaps1 = usb4_heaps0\<lparr>h_routers := (heap_empty (\<lambda>_. False))\<lparr>hp_mem := [0 \<mapsto> router_zero\<lparr>
         rt_type := USB4_ROUTER_TYPE_DEVICE, rt_is_connected := True, rt_vendor_id := 0x8086,
         rt_platform_data := Some 0, rt_adapter_count := 4\<rparr>], hp_next := 1\<rparr>,
     h_pdata := (heap_empty (\<lambda>_. False))\<lparr>hp_mem := [0 \<mapsto> 9], hp_next := 1\<rparr>, h_iorefs := [9, 7]\<rparr>"

lemma usb4_reach1: "usb4_reach (Some iok1) usb4_ctx1 usb4_heaps1"
proof (rule reach_scan [OF reach_init])
  show "usb4_heap_none usb4_heaps0" by (simp add: usb4_heap_none_def usb4_heaps0_def heap_empty_def)
  show "usb4_controller_init (Some iok1) usb4_heaps0 =
    Some (USB4_SUCCESS, usb4_ctx1\<lparr>connected_routers := []\<rparr>, io_retained 7 usb4_heaps0)"
    by (simp add: usb4_controller_init_def usb4_init_host_router_def usb4_enumerate_adapters_def
        iok1_def usb4_ctx1_def usb4_ctx_zero_def router_zero_def Let_def)
  show "usb4_scan_routers (Some iok1) (usb4_ctx1\<lparr>connected_routers := []\<rparr>) (io_retained 7 usb4_heaps0) = (1, usb4_ctx1, usb4_heaps1)"
    by (simp add: io_retained_def usb4_scan_routers_def iok1_def usb4_heaps0_def usb4_heaps1_def heap_alloc_def heap_empty_def
        scanned_router_def usb4_enumerate_adapters_def router_zero_def usb4_consts usb4_ctx1_def Let_def)
qed

text \<open>The same after a second scan, which finds the device again.\<close>

definition usb4_ctx3 :: USB4ControllerContext where
  "usb4_ctx3 = usb4_ctx1\<lparr>connected_routers := [Some 1]\<rparr>"

definition usb4_heaps3 :: usb4_heap where
  "usb4_heaps3 = (let r = router_zero\<lparr>rt_type := USB4_ROUTER_TYPE_DEVICE, rt_is_connected := True, rt_vendor_id := 0x8086,
         rt_adapter_count := 4\<rparr>
     in usb4_heaps0\<lparr>h_routers := (heap_empty (\<lambda>_. False))\<lparr>hp_mem := [0 \<mapsto> r\<lparr>rt_platform_data := Some 0\<rparr>,
         1 \<mapsto> r\<lparr>rt_platform_data := Some 1\<rparr>], hp_next := 2\<rparr>,
       h_pdata := (heap_empty (\<lambda>_. False))\<lparr>hp_mem := [0 \<mapsto> 9, 1 \<mapsto> 9], hp_next := 2\<rparr>, h_iorefs := [9, 9, 7]\<rparr>)"

lemma usb4_reach3: "usb4_reach (Some iok1) usb4_ctx3 usb4_heaps3"
proof (rule reach_scan [OF usb4_reach1])
  show "usb4_scan_routers (Some iok1) usb4_ctx1 usb4_heaps1 = (1, usb4_ctx3, usb4_heaps3)"
    by (simp add: io_retained_def usb4_scan_routers_def iok1_def usb4_heaps0_def usb4_heaps1_def usb4_heaps3_def
        heap_alloc_def heap_empty_def scanned_router_def usb4_enumerate_adapters_def router_zero_def usb4_consts
        usb4_ctx1_def usb4_ctx3_def Let_def)
qed

text \<open>What shutdown leaves: the routers an earlier scan found, with their handles, and the references to the devices.\<close>

lemma shutdown_remains:
  assumes "usb4_reach io ctx h"
  shows "\<exists>h'. usb4_controller_shutdown ctx h = Some (usb4_ctx_zero, h') \<and>
    hp_mem (h_tunnels h') = Map.empty \<and> hp_mem (h_adapters h') = Map.empty \<and>
    hp_mem (h_routers h') = hp_mem (h_routers h) |` usb4_lost ctx h \<and>
    Some ` dom (hp_mem (h_pdata h')) = pdata_of h ` usb4_lost ctx h \<and>
    h_iorefs h' = h_iorefs (io_released (io_service ctx) h) \<and> (\<forall>s. usb4_handles h s \<le> count_list (h_iorefs h') s)"
proof -
  from reach_owned [OF assms] obtain xs ps ls where own: "usb4_owned ctx h xs ps ls" by blast
  then have d: "dom (hp_mem (h_tunnels h)) = ent_ptr ` set xs"
    "dom (hp_mem (h_adapters h)) = (\<Union>x \<in> set xs. set (ent_adapters x))"
    "dom (hp_mem (h_routers h)) = set (ls @ ps)" "Some ` dom (hp_mem (h_pdata h)) = pdata_of h ` set (ls @ ps)"
    and r: "usb4_rep ctx h xs" "connected_routers ctx = map Some ps" "routers_rep h (ls @ ps)"
    and refs: "\<forall>s. usb4_handles h s + (if io_service ctx = Some s then 1 else 0) \<le> count_list (h_iorefs h) s"
    by (simp_all add: usb4_owned_def routers_owned_def refs_held_def)
  have ps: "routers_rep h ps" using r(3) by (simp add: routers_rep_def)
  have lost: "usb4_lost ctx h = set ls" by (rule owned_lost [OF own])
  from shutdown_frees [OF r(1,2) ps] obtain h' where c: "usb4_controller_shutdown ctx h = Some (usb4_ctx_zero, h')"
    and m: "hp_mem (h_tunnels h') = hp_mem (h_tunnels h) |` (- ent_ptr ` set xs)"
      "hp_mem (h_adapters h') = hp_mem (h_adapters h) |` (- (\<Union>x \<in> set xs. set (ent_adapters x)))"
      "hp_mem (h_routers h') = hp_mem (h_routers h) |` (- set ps)"
      "hp_mem (h_pdata h') = hp_mem (h_pdata h) |` {q. Some q \<notin> pdata_of h ` set ps}"
      "h_iorefs h' = h_iorefs (io_released (io_service ctx) h)"
    by blast
  have e: "hp_mem (h_tunnels h') = Map.empty" "hp_mem (h_adapters h') = Map.empty"
    using m(1,2) d(1,2) by (simp_all add: restrict_none)
  have disj: "set ls \<inter> set ps = {}" and inj: "pdata_of h ` set ls \<inter> pdata_of h ` set ps = {}"
    using r(3) by (auto simp: routers_rep_def)
  have "hp_mem (h_routers h') = hp_mem (h_routers h) |` set ls"
    unfolding m(3) using d(3) disj by (auto simp: restrict_map_def fun_eq_iff)
  moreover have "Some ` dom (hp_mem (h_pdata h')) = Some ` dom (hp_mem (h_pdata h)) - pdata_of h ` set ps"
    unfolding m(4) by auto
  then have "Some ` dom (hp_mem (h_pdata h')) = pdata_of h ` set ls"
    using d(4) inj by (auto simp: image_Un)
  moreover have "usb4_handles h s \<le> count_list (h_iorefs h') s" for s
    using refs [rule_format, of s] unfolding m(5) by (auto simp: count_list_remove1 split: option.splits if_splits)
  ultimately show ?thesis using c e lost m(5) by simp
qed

text \<open>With no router lost, the heap is empty again.\<close>

lemma usb4_shutdown_clean:
  assumes "usb4_once io ctx h"
  shows "\<exists>h'. usb4_controller_shutdown ctx h = Some (usb4_ctx_zero, h') \<and> usb4_heap_none h'"
  using shutdown_remains [of io ctx h] assms by (fastforce simp: usb4_once_def usb4_heap_none_def)

text \<open>
  C31. Shutting down from any state the controller can reach, after any number of scans, terminates, touches no
  dangling pointer and frees every tunnel, every adapter and the routers of the last scan with their handles,
  each once. What remains is exactly this: the routers the context no longer names, because a later scan
  overwrote them, with their handles; and of the IOKit references all but the one to the controller service,
  among them one for the device of every router.
\<close>

theorem usb4_shutdown_accounts:
  assumes "usb4_reach io ctx h"
  shows "\<exists>h'. usb4_controller_shutdown ctx h = Some (usb4_ctx_zero, h') \<and>
    hp_mem (h_tunnels h') = Map.empty \<and> hp_mem (h_adapters h') = Map.empty \<and>
    hp_mem (h_routers h') = hp_mem (h_routers h) |` usb4_lost ctx h \<and>
    Some ` dom (hp_mem (h_pdata h')) = pdata_of h ` usb4_lost ctx h \<and>
    h_iorefs h' = h_iorefs (io_released (io_service ctx) h) \<and> (\<forall>s. usb4_handles h s \<le> count_list (h_iorefs h') s)"
  by (rule shutdown_remains [OF assms])

text \<open>The example after a second scan: the router and the reference of the first are left.\<close>

theorem usb4_shutdown_accounts_witness:
  "\<exists>h'. usb4_controller_shutdown usb4_ctx3 usb4_heaps3 = Some (usb4_ctx_zero, h') \<and>
    dom (hp_mem (h_routers h')) = {0} \<and> dom (hp_mem (h_pdata h')) = {0} \<and> h_iorefs h' = [9, 9]"
proof -
  have l: "usb4_lost usb4_ctx3 usb4_heaps3 = {0}"
    by (auto simp: usb4_lost_def usb4_ctx3_def usb4_ctx1_def usb4_ctx_zero_def usb4_heaps3_def Let_def split: if_splits)
  have v: "pdata_of usb4_heaps3 0 = Some 0" "io_service usb4_ctx3 = Some 7" "h_iorefs usb4_heaps3 = [9, 9, 7]"
    "dom (hp_mem (h_routers usb4_heaps3)) = {0, 1}"
    by (auto simp: pdata_of_def usb4_heaps3_def usb4_ctx3_def usb4_ctx1_def usb4_ctx_zero_def Let_def)
  from usb4_shutdown_accounts [OF usb4_reach3] obtain h' where "usb4_controller_shutdown usb4_ctx3 usb4_heaps3 = Some (usb4_ctx_zero, h')"
    "hp_mem (h_routers h') = hp_mem (h_routers usb4_heaps3) |` {0}" "Some ` dom (hp_mem (h_pdata h')) = {Some 0}"
    "h_iorefs h' = [9, 9]"
    unfolding l v by (auto simp: v)
  moreover from this(3) have "dom (hp_mem (h_pdata h')) = {0}" by (auto simp del: not_None_eq) 
  ultimately show ?thesis using v(4) by (intro exI [of _ h']) simp
qed

text \<open>
  In every reachable state the controller has at most \<open>USB4_MAX_TUNNELS\<close> tunnels, all active
  within the 32 Gbps of USB4, and no router is the far end of two of them.
\<close>

theorem usb4_tunnels_unique:
  assumes "usb4_reach io ctx h"
  shows "length (active_tunnels ctx) \<le> 8 \<and> distinct (map (tunnel_router h) (active_tunnels ctx)) \<and>
    None \<notin> set (map (tunnel_router h) (active_tunnels ctx)) \<and> list_all (tunnel_ready h) (active_tunnels ctx)"
proof -
  from reach_owned [OF assms] obtain xs where rep: "usb4_rep ctx h xs" by (auto simp: usb4_owned_def)
  then have ok: "entries_ok h xs" and len: "length (active_tunnels ctx) = length xs" by (auto simp: usb4_rep_def)
  have "length xs \<le> 8" using ok by (simp add: entries_ok_def usb4_consts)
  moreover have "distinct (map Some (map ent_router xs))"
    using ok by (simp add: entries_ok_def distinct_map inj_on_def)
  moreover have "None \<notin> set (map Some (map ent_router xs))" by auto
  ultimately show ?thesis
    unfolding rep_observe(1) [OF rep] using len rep_observe(2) [OF rep] by (simp add: list_all_iff)
qed

theorem usb4_tunnels_unique_witness:
  "length (active_tunnels usb4_ctx1) \<le> 8 \<and> distinct (map (tunnel_router usb4_heaps1) (active_tunnels usb4_ctx1)) \<and>
    None \<notin> set (map (tunnel_router usb4_heaps1) (active_tunnels usb4_ctx1)) \<and>
    list_all (tunnel_ready usb4_heaps1) (active_tunnels usb4_ctx1)"
  by (rule usb4_tunnels_unique [OF usb4_reach1])

text \<open>
  C32. Creation refines the abstract table of tunnelled routers: from every reachable state it
  returns, and its code and the new table are those of \<open>table_create\<close> (full table, unverified
  router, duplicate, success, in this order), unless an allocation failed, which leaves the table
  as it was.
\<close>

theorem usb4_create_refines_table:
  assumes "usb4_reach io ctx h"
  shows "\<exists>ret out ctx' h'. usb4_create_pcie_tunnel ctx h (Some r) True = Some (ret, out, ctx', h') \<and>
    (alloc_failed ret \<and> create_oom h \<and> usb4_table ctx' h' = usb4_table ctx h \<or>
     (ret, usb4_table ctx' h') = table_create (router_ok ctx h (Some r)) (usb4_table ctx h) r)"
proof -
  from reach_owned [OF assms] obtain xs ps ls where own: "usb4_owned ctx h xs ps ls" by blast
  then have rep: "usb4_rep ctx h xs" by (simp add: usb4_owned_def)
  show ?thesis
    by (rule create_refines [OF rep owned_live [OF own], of r])
      (use rep_observe(3) rep in \<open>auto simp: alloc_failed_def\<close>)
qed

theorem usb4_create_refines_table_witness:
  "\<exists>ret out ctx' h'. usb4_create_pcie_tunnel usb4_ctx1 usb4_heaps1 (Some (Rt 0)) True = Some (ret, out, ctx', h') \<and>
    (alloc_failed ret \<and> create_oom usb4_heaps1 \<and> usb4_table ctx' h' = usb4_table usb4_ctx1 usb4_heaps1 \<or>
     (ret, usb4_table ctx' h') = table_create (router_ok usb4_ctx1 usb4_heaps1 (Some (Rt 0))) (usb4_table usb4_ctx1 usb4_heaps1) (Rt 0))"
  by (rule usb4_create_refines_table [OF usb4_reach1])

definition usb4_ctx2 :: USB4ControllerContext where
  "usb4_ctx2 = usb4_ctx1\<lparr>active_tunnels := [Some 0]\<rparr>"

definition usb4_heaps2 :: usb4_heap where
  "usb4_heaps2 = usb4_heaps1\<lparr>h_tunnels := (heap_empty (\<lambda>_. False))\<lparr>hp_mem := [0 \<mapsto> new_tunnel 0 1], hp_next := 1\<rparr>,
     h_adapters := (heap_empty (\<lambda>_. False))\<lparr>hp_mem := [0 \<mapsto> new_adapter HostRouter True,
       1 \<mapsto> new_adapter (Rt 0) False], hp_next := 2\<rparr>\<rparr>"

lemma usb4_reach2: "usb4_reach (Some iok1) usb4_ctx2 usb4_heaps2"
proof (rule reach_create [OF usb4_reach1])
  have g: "Some (Rt 0) = Some (Rt 0)" "length (active_tunnels usb4_ctx1) < USB4_MAX_TUNNELS"
      "router_verified usb4_ctx1 usb4_heaps1 (Rt 0) (connected_routers usb4_ctx1) = Some True"
      "tunnel_exists usb4_heaps1 (Rt 0) (active_tunnels usb4_ctx1) = Some False"
    by (simp_all add: usb4_ctx1_def usb4_consts usb4_ctx_zero_def usb4_heaps1_def heap_get_def get_router_def)
  show "usb4_create_pcie_tunnel usb4_ctx1 usb4_heaps1 (Some (Rt 0)) True =
    Some (USB4_SUCCESS, Some 0, usb4_ctx2, usb4_heaps2)"
    using create_guarded [OF g]
    by (simp add: Let_def usb4_ctx2_def usb4_heaps2_def usb4_heaps1_def usb4_heaps0_def usb4_ctx1_def usb4_ctx_zero_def heap_empty_def)
qed

text \<open>
  Destroying an active tunnel of a reachable state succeeds: its router, and only this one,
  leaves the table, the tunnel leaves the array, and its memory is freed.
\<close>

theorem usb4_destroy_refines_table:
  assumes "usb4_reach io ctx h" and "t \<in> set (active_tunnels ctx)"
  shows "\<exists>ctx' h'. usb4_destroy_pcie_tunnel ctx h t = Some (USB4_SUCCESS, ctx', h') \<and>
    usb4_table ctx' h' = remove1 (the (tunnel_router h t)) (usb4_table ctx h) \<and>
    t \<notin> set (active_tunnels ctx') \<and> (\<forall>p. t = Some p \<longrightarrow> heap_get (h_tunnels h') p = None)"
proof -
  from reach_owned [OF assms(1)] obtain xs ps ls where own: "usb4_owned ctx h xs ps ls" by blast
  then have rep: "usb4_rep ctx h xs" by (simp add: usb4_owned_def)
  then have ts: "active_tunnels ctx = map (\<lambda>x. Some (ent_ptr x)) xs" by (simp add: usb4_rep_def)
  with assms(2) obtain ys x zs where xs: "xs = ys @ x # zs" and t: "t = Some (ent_ptr x)"
    by (auto dest: split_list)
  let ?h = "drop_tunnel h {ent_ptr x} (set (ent_adapters x))"
    and ?c = "ctx\<lparr>active_tunnels := map (\<lambda>x. Some (ent_ptr x)) (ys @ zs)\<rparr>"
  have call: "usb4_destroy_pcie_tunnel ctx h t = Some (USB4_SUCCESS, ?c, ?h)"
    and rep': "usb4_rep ?c ?h (ys @ zs)"
    using destroy_refines [OF rep [unfolded xs]] t by auto
  have ok: "entries_ok h (ys @ x # zs)" using rep xs by (simp add: usb4_rep_def)
  have r: "ent_router x \<notin> ent_router ` set ys" using ok by (auto simp: entries_ok_def)
  have "tunnel_router h t = Some (ent_router x)"
    using rep_observe(1) [OF rep] ts xs t by (simp del: map_map)
  with rep_observe(3) [OF rep] rep_observe(3) [OF rep'] r xs
  have "usb4_table ?c ?h = remove1 (the (tunnel_router h t)) (usb4_table ctx h)"
    by (simp add: remove1_append)
  moreover have "t \<notin> set (active_tunnels ?c)" using entries_ok_split(1) [OF ok] t by auto
  ultimately show ?thesis using call t by (simp add: heap_get_def)
qed

theorem usb4_destroy_refines_table_witness:
  "\<exists>ctx' h'. usb4_destroy_pcie_tunnel usb4_ctx2 usb4_heaps2 (Some 0) = Some (USB4_SUCCESS, ctx', h') \<and>
    usb4_table ctx' h' = remove1 (the (tunnel_router usb4_heaps2 (Some 0))) (usb4_table usb4_ctx2 usb4_heaps2) \<and>
    Some 0 \<notin> set (active_tunnels ctx') \<and> (\<forall>p. Some (0::ptr) = Some p \<longrightarrow> heap_get (h_tunnels h') p = None)"
  by (rule usb4_destroy_refines_table [OF usb4_reach2]) (simp add: usb4_ctx2_def)

end
