(* ===== verification/Pcie.thy ===== *)
theory Pcie
  imports Usb4
begin

text \<open>
  The PCIe layer of \<open>src/kernel/pcie/pcie_tunnel.c\<close> and its header: configuration space, BAR
  mappings, MMIO, DMA, the bus scan and the shutdown. Devices and BAR mappings live on the C heap;
  the mapping of a BAR is a byte buffer (\<open>calloc\<close>, or \<open>mach_vm_allocate\<close> in the Apple build, which
  also hands out zeroed memory or fails). An operation that only touches the device it is given is a
  function on the device, \<^const>\<open>None\<close> standing for the null pointer; the callers load and store it.
  The outer option of a result is \<^const>\<open>None\<close> when the C code has no defined behaviour. Log output
  is left out, except that the headers handed to \<open>pcie_send_tlp\<close> are collected in a list, the wire.
\<close>

section \<open>Data\<close>

datatype pcie_ret =
    PCIE_SUCCESS | PCIE_ERR_INVALID_PARAM | PCIE_ERR_NO_MEMORY | PCIE_ERR_IO | PCIE_ERR_NOT_FOUND
  | PCIE_ERR_TIMEOUT | PCIE_ERR_NOT_SUPPORTED

definition PCIE_MAX_DEVICE :: nat where "PCIE_MAX_DEVICE = 32"
definition PCIE_MAX_FUNCTION :: nat where "PCIE_MAX_FUNCTION = 8"
definition PCIE_CONFIG_SPACE_SIZE :: nat where "PCIE_CONFIG_SPACE_SIZE = 4096"
definition PCIE_BAR_COUNT :: nat where "PCIE_BAR_COUNT = 6"
definition PCIE_REG_COMMAND :: u16 where "PCIE_REG_COMMAND = 0x04"
definition PCIE_REG_HEADER_TYPE :: u16 where "PCIE_REG_HEADER_TYPE = 0x0E"
definition PCIE_CMD_IO_ENABLE :: u32 where "PCIE_CMD_IO_ENABLE = 1"
definition PCIE_CMD_MEM_ENABLE :: u32 where "PCIE_CMD_MEM_ENABLE = 2"
definition PCIE_CMD_BUS_MASTER :: u32 where "PCIE_CMD_BUS_MASTER = 4"
definition PCIE_CLASS_3D :: u32 where "PCIE_CLASS_3D = 0x030200"
definition NVIDIA_VENDOR_ID :: u16 where "NVIDIA_VENDOR_ID = 0x10DE"

lemmas pcie_consts = PCIE_MAX_DEVICE_def PCIE_MAX_FUNCTION_def PCIE_CONFIG_SPACE_SIZE_def
  PCIE_BAR_COUNT_def PCIE_REG_COMMAND_def PCIE_REG_HEADER_TYPE_def PCIE_CMD_IO_ENABLE_def
  PCIE_CMD_MEM_ENABLE_def PCIE_CMD_BUS_MASTER_def PCIE_CLASS_3D_def NVIDIA_VENDOR_ID_def

datatype PCIeBarType = PCIE_BAR_TYPE_MEM32 | PCIE_BAR_TYPE_IO | PCIE_BAR_TYPE_MEM64

record PCIeBar =
  physical_base :: u64
  bar_size :: u64
  virtual_base :: "ptr option"
  bar_type :: PCIeBarType
  prefetchable :: bool
  is_mapped :: bool

record PCIeDevice =
  dv_bus :: u8
  dv_device :: u8
  dv_function :: u8
  dv_vendor_id :: u16
  dv_device_id :: u16
  dv_subsystem_vendor_id :: u16
  dv_subsystem_id :: u16
  dv_class_code :: u32
  dv_revision :: u8
  dv_bars :: "PCIeBar list"
  dv_tunnel :: "ptr option"
  dv_is_enabled :: bool
  dv_is_bus_master :: bool
  dv_config_cache :: buf
  dv_platform_data :: "ptr option"

datatype PCIeTlpType =
    PCIE_TLP_TYPE_MEM_READ_32 | PCIE_TLP_TYPE_MEM_READ_64 | PCIE_TLP_TYPE_MEM_WRITE_32
  | PCIE_TLP_TYPE_MEM_WRITE_64 | PCIE_TLP_TYPE_IO_READ | PCIE_TLP_TYPE_IO_WRITE
  | PCIE_TLP_TYPE_CFG_READ_0 | PCIE_TLP_TYPE_CFG_WRITE_0 | PCIE_TLP_TYPE_CFG_READ_1
  | PCIE_TLP_TYPE_CFG_WRITE_1 | PCIE_TLP_TYPE_MSG | PCIE_TLP_TYPE_CPL | PCIE_TLP_TYPE_CPL_DATA

record PCIeTlpHeader =
  tlp_type :: PCIeTlpType
  tlp_tc :: u8
  tlp_attr :: u8
  tlp_length :: u16
  tlp_requester_id :: u16
  tlp_tag :: u8
  tlp_last_be :: u8
  tlp_first_be :: u8
  tlp_address :: u64

record PCIeDmaRequest =
  dma_host_addr :: u64
  dma_device_addr :: u64
  dma_size :: u64
  dma_is_write :: bool
  dma_callback :: "ptr option"
  dma_user_data :: "ptr option"

text \<open>\<open>devices\<close> is the list of the first \<open>device_count\<close> entries of the array of 32 pointers.\<close>

record PCIeTunnelContext =
  usb4_ctx :: "ptr option"
  devices :: "ptr option list"
  next_tag :: u8
  dma_enabled :: bool
  bytes_tx :: u64
  bytes_rx :: u64
  tlp_count :: u64

record pcie_heap =
  h_devices :: "PCIeDevice heap"
  h_maps :: "buf heap"
  h_platform :: "unit heap"
  h_usb4 :: "USB4ControllerContext heap"

definition bar_zero :: PCIeBar where
  "bar_zero = \<lparr>physical_base = 0, bar_size = 0, virtual_base = None, bar_type = PCIE_BAR_TYPE_MEM32,
     prefetchable = False, is_mapped = False\<rparr>"

definition device_zero :: PCIeDevice where
  "device_zero = \<lparr>dv_bus = 0, dv_device = 0, dv_function = 0, dv_vendor_id = 0, dv_device_id = 0,
     dv_subsystem_vendor_id = 0, dv_subsystem_id = 0, dv_class_code = 0, dv_revision = 0,
     dv_bars = replicate PCIE_BAR_COUNT bar_zero, dv_tunnel = None, dv_is_enabled = False,
     dv_is_bus_master = False, dv_config_cache = buf_new PCIE_CONFIG_SPACE_SIZE,
     dv_platform_data = None\<rparr>"

definition tlp_zero :: PCIeTlpHeader where
  "tlp_zero = \<lparr>tlp_type = PCIE_TLP_TYPE_MEM_READ_32, tlp_tc = 0, tlp_attr = 0, tlp_length = 0,
     tlp_requester_id = 0, tlp_tag = 0, tlp_last_be = 0, tlp_first_be = 0, tlp_address = 0\<rparr>"

definition pcie_ctx_zero :: PCIeTunnelContext where
  "pcie_ctx_zero = \<lparr>usb4_ctx = None, devices = [], next_tag = 0, dma_enabled = False,
     bytes_tx = 0, bytes_rx = 0, tlp_count = 0\<rparr>"

section \<open>Operations\<close>

subsection \<open>Packets\<close>

definition pcie_tunnel_init :: "ptr option \<Rightarrow> PCIeTunnelContext \<Rightarrow> pcie_ret \<times> PCIeTunnelContext" where
  "pcie_tunnel_init usb4 ctx =
     (case usb4 of
        None \<Rightarrow> (PCIE_ERR_INVALID_PARAM, ctx)
      | Some _ \<Rightarrow> (PCIE_SUCCESS, pcie_ctx_zero\<lparr>usb4_ctx := usb4, next_tag := 0, dma_enabled := False\<rparr>))"

definition pcie_send_tlp ::
  "PCIeTunnelContext \<Rightarrow> PCIeTlpHeader list \<Rightarrow> PCIeTlpHeader option \<Rightarrow> u8 list option \<Rightarrow> u64 \<Rightarrow>
   pcie_ret \<times> PCIeTunnelContext \<times> PCIeTlpHeader list" where
  "pcie_send_tlp ctx wire header data data_size =
     (case header of
        None \<Rightarrow> (PCIE_ERR_INVALID_PARAM, ctx, wire)
      | Some hdr \<Rightarrow>
          let ctx = ctx\<lparr>tlp_count := tlp_count ctx + 1\<rparr>;
              ctx = (if data \<noteq> None then ctx\<lparr>bytes_tx := bytes_tx ctx + data_size\<rparr> else ctx)
          in (PCIE_SUCCESS, ctx, wire @ [hdr]))"

definition pcie_receive_tlp ::
  "PCIeTunnelContext \<Rightarrow> bool \<Rightarrow> bool \<Rightarrow> u64 option \<Rightarrow> pcie_ret \<times> PCIeTunnelContext" where
  "pcie_receive_tlp ctx header data data_size =
     (if \<not> header then (PCIE_ERR_INVALID_PARAM, ctx)
      else (PCIE_SUCCESS,
        case data_size of
          Some n \<Rightarrow> if data then ctx\<lparr>bytes_rx := bytes_rx ctx + n\<rparr> else ctx
        | None \<Rightarrow> ctx))"

subsection \<open>Configuration space\<close>

text \<open>
  The second component of \<open>pcie_config_read\<close> is what it stores through \<open>value\<close>, \<^const>\<open>None\<close> when
  it stores nothing; \<open>has_value\<close> is \<open>value != NULL\<close>.
\<close>

definition pcie_config_read ::
  "PCIeDevice option \<Rightarrow> u16 \<Rightarrow> u8 \<Rightarrow> bool \<Rightarrow> (pcie_ret \<times> u32 option) option" where
  "pcie_config_read device off sz has_value =
     (case device of
        None \<Rightarrow> Some (PCIE_ERR_INVALID_PARAM, None)
      | Some d \<Rightarrow>
          if \<not> has_value \<or> unat off \<ge> PCIE_CONFIG_SPACE_SIZE then Some (PCIE_ERR_INVALID_PARAM, None)
          else if (ucast off :: u32) + ucast sz > of_nat PCIE_CONFIG_SPACE_SIZE
          then Some (PCIE_ERR_INVALID_PARAM, None)
          else if sz = 1 \<or> sz = 2 \<or> sz = 4 then
            do { bs \<leftarrow> buf_rd (dv_config_cache d) (unat off) (unat sz);
                 Some (PCIE_SUCCESS, Some (le_word bs)) }
          else Some (PCIE_ERR_INVALID_PARAM, Some 0))"

definition pcie_config_write ::
  "PCIeDevice option \<Rightarrow> u16 \<Rightarrow> u8 \<Rightarrow> u32 \<Rightarrow> (pcie_ret \<times> PCIeDevice option) option" where
  "pcie_config_write device off sz value =
     (case device of
        None \<Rightarrow> Some (PCIE_ERR_INVALID_PARAM, None)
      | Some d \<Rightarrow>
          if unat off \<ge> PCIE_CONFIG_SPACE_SIZE then Some (PCIE_ERR_INVALID_PARAM, device)
          else if (ucast off :: u32) + ucast sz > of_nat PCIE_CONFIG_SPACE_SIZE
          then Some (PCIE_ERR_INVALID_PARAM, device)
          else if sz = 1 \<or> sz = 2 \<or> sz = 4 then
            do { cache \<leftarrow> buf_wr (dv_config_cache d) (unat off) (le_bytes (unat sz) value);
                 Some (PCIE_SUCCESS, Some (d\<lparr>dv_config_cache := cache\<rparr>)) }
          else Some (PCIE_ERR_INVALID_PARAM, device))"

text \<open>Reading \<open>cmd\<close> after a \<open>pcie_config_read\<close> that stored nothing would be undefined.\<close>

definition pcie_enable_device :: "PCIeDevice option \<Rightarrow> (pcie_ret \<times> PCIeDevice option) option" where
  "pcie_enable_device device =
     (case device of
        None \<Rightarrow> Some (PCIE_ERR_INVALID_PARAM, None)
      | Some _ \<Rightarrow>
          do { (_, v) \<leftarrow> pcie_config_read device PCIE_REG_COMMAND 2 True;
               cmd \<leftarrow> v;
               let cmd = cmd OR (PCIE_CMD_IO_ENABLE OR PCIE_CMD_MEM_ENABLE);
               (ret, device) \<leftarrow> pcie_config_write device PCIE_REG_COMMAND 2 cmd;
               Some (ret, if ret = PCIE_SUCCESS
                          then map_option (\<lambda>d. d\<lparr>dv_is_enabled := True\<rparr>) device else device) })"

definition pcie_enable_bus_master :: "PCIeDevice option \<Rightarrow> (pcie_ret \<times> PCIeDevice option) option" where
  "pcie_enable_bus_master device =
     (case device of
        None \<Rightarrow> Some (PCIE_ERR_INVALID_PARAM, None)
      | Some _ \<Rightarrow>
          do { (_, v) \<leftarrow> pcie_config_read device PCIE_REG_COMMAND 2 True;
               cmd \<leftarrow> v;
               let cmd = cmd OR PCIE_CMD_BUS_MASTER;
               (ret, device) \<leftarrow> pcie_config_write device PCIE_REG_COMMAND 2 cmd;
               Some (ret, if ret = PCIE_SUCCESS
                          then map_option (\<lambda>d. d\<lparr>dv_is_bus_master := True\<rparr>) device else device) })"

definition pcie_setup_msi :: "PCIeDevice option \<Rightarrow> int \<Rightarrow> pcie_ret" where
  "pcie_setup_msi device num_vectors =
     (if device = None \<or> num_vectors < 1 then PCIE_ERR_INVALID_PARAM else PCIE_SUCCESS)"

subsection \<open>BARs and MMIO\<close>

definition bar_index_ok :: "int \<Rightarrow> bool" where
  "bar_index_ok i \<longleftrightarrow> \<not> (i < 0 \<or> i \<ge> int PCIE_BAR_COUNT)"

definition set_bar :: "PCIeDevice \<Rightarrow> nat \<Rightarrow> PCIeBar \<Rightarrow> PCIeDevice" where
  "set_bar d i b = d\<lparr>dv_bars := (dv_bars d)[i := b]\<rparr>"

definition pcie_map_bar ::
  "buf heap \<Rightarrow> PCIeDevice option \<Rightarrow> int \<Rightarrow> pcie_ret \<times> PCIeDevice option \<times> buf heap" where
  "pcie_map_bar maps device bar_index =
     (case device of
        None \<Rightarrow> (PCIE_ERR_INVALID_PARAM, None, maps)
      | Some d \<Rightarrow>
          if \<not> bar_index_ok bar_index then (PCIE_ERR_INVALID_PARAM, device, maps)
          else
            let bar = dv_bars d ! nat bar_index in
            if bar_size bar = 0 then (PCIE_ERR_NOT_FOUND, device, maps)
            else if is_mapped bar then (PCIE_SUCCESS, device, maps)
            else
              let (vb, maps) = heap_alloc maps (buf_new (unat (bar_size bar)));
                  bar = bar\<lparr>virtual_base := vb\<rparr>
              in if vb = None then (PCIE_ERR_NO_MEMORY, Some (set_bar d (nat bar_index) bar), maps)
                 else (PCIE_SUCCESS, Some (set_bar d (nat bar_index) (bar\<lparr>is_mapped := True\<rparr>)), maps))"

definition pcie_unmap_bar ::
  "buf heap \<Rightarrow> PCIeDevice option \<Rightarrow> int \<Rightarrow> (PCIeDevice option \<times> buf heap) option" where
  "pcie_unmap_bar maps device bar_index =
     (case device of
        None \<Rightarrow> Some (None, maps)
      | Some d \<Rightarrow>
          if \<not> bar_index_ok bar_index then Some (device, maps)
          else
            let bar = dv_bars d ! nat bar_index in
            case virtual_base bar of
              None \<Rightarrow> Some (device, maps)
            | Some vb \<Rightarrow>
                if \<not> is_mapped bar then Some (device, maps)
                else do { maps \<leftarrow> heap_free maps vb;
                          Some (Some (set_bar d (nat bar_index)
                            (bar\<lparr>virtual_base := None, is_mapped := False\<rparr>)), maps) })"

definition pcie_mmio_read32 :: "buf heap \<Rightarrow> PCIeDevice option \<Rightarrow> int \<Rightarrow> u64 \<Rightarrow> u32 option" where
  "pcie_mmio_read32 maps device bar_index off =
     (case device of
        None \<Rightarrow> Some 0xFFFFFFFF
      | Some d \<Rightarrow>
          if \<not> bar_index_ok bar_index then Some 0xFFFFFFFF
          else
            let bar = dv_bars d ! nat bar_index in
            case virtual_base bar of
              None \<Rightarrow> Some 0xFFFFFFFF
            | Some vb \<Rightarrow>
                if \<not> is_mapped bar \<or> off + 4 > bar_size bar then Some 0xFFFFFFFF
                else if off AND 3 \<noteq> 0 then Some 0xFFFFFFFF
                else do { m \<leftarrow> heap_get maps vb; bs \<leftarrow> buf_rd m (unat off) 4; Some (le_word bs) })"

definition pcie_mmio_write32 ::
  "buf heap \<Rightarrow> PCIeDevice option \<Rightarrow> int \<Rightarrow> u64 \<Rightarrow> u32 \<Rightarrow> buf heap option" where
  "pcie_mmio_write32 maps device bar_index off value =
     (case device of
        None \<Rightarrow> Some maps
      | Some d \<Rightarrow>
          if \<not> bar_index_ok bar_index then Some maps
          else
            let bar = dv_bars d ! nat bar_index in
            case virtual_base bar of
              None \<Rightarrow> Some maps
            | Some vb \<Rightarrow>
                if \<not> is_mapped bar \<or> off + 4 > bar_size bar then Some maps
                else if off AND 3 \<noteq> 0 then Some maps
                else do { m \<leftarrow> heap_get maps vb; m \<leftarrow> buf_wr m (unat off) (le_bytes 4 value);
                          heap_put maps vb m })"

definition pcie_mmio_read64 :: "buf heap \<Rightarrow> PCIeDevice option \<Rightarrow> int \<Rightarrow> u64 \<Rightarrow> u64 option" where
  "pcie_mmio_read64 maps device bar_index off =
     (case device of
        None \<Rightarrow> Some 0xFFFFFFFFFFFFFFFF
      | Some d \<Rightarrow>
          if \<not> bar_index_ok bar_index then Some 0xFFFFFFFFFFFFFFFF
          else
            let bar = dv_bars d ! nat bar_index in
            case virtual_base bar of
              None \<Rightarrow> Some 0xFFFFFFFFFFFFFFFF
            | Some vb \<Rightarrow>
                if \<not> is_mapped bar \<or> off + 8 > bar_size bar then Some 0xFFFFFFFFFFFFFFFF
                else if off AND 7 \<noteq> 0 then Some 0xFFFFFFFFFFFFFFFF
                else do { m \<leftarrow> heap_get maps vb; bs \<leftarrow> buf_rd m (unat off) 8; Some (le_word bs) })"

definition pcie_mmio_write64 ::
  "buf heap \<Rightarrow> PCIeDevice option \<Rightarrow> int \<Rightarrow> u64 \<Rightarrow> u64 \<Rightarrow> buf heap option" where
  "pcie_mmio_write64 maps device bar_index off value =
     (case device of
        None \<Rightarrow> Some maps
      | Some d \<Rightarrow>
          if \<not> bar_index_ok bar_index then Some maps
          else
            let bar = dv_bars d ! nat bar_index in
            case virtual_base bar of
              None \<Rightarrow> Some maps
            | Some vb \<Rightarrow>
                if \<not> is_mapped bar \<or> off + 8 > bar_size bar then Some maps
                else if off AND 7 \<noteq> 0 then Some maps
                else do { m \<leftarrow> heap_get maps vb; m \<leftarrow> buf_wr m (unat off) (le_bytes 8 value);
                          heap_put maps vb m })"

subsection \<open>DMA\<close>

lemma chunk_le: "remaining > 0 \<Longrightarrow> (if remaining > 256 then 256 else remaining) \<le> (remaining :: u64)"
  by auto

lemma chunk_less: "0 < (x :: u64) \<Longrightarrow> unat (x - (if x > 256 then 256 else x)) < unat x"
  by (auto simp: unat_sub word_less_nat_alt word_le_nat_alt)

text \<open>The loop that splits a transfer into packets of at most 256 bytes.\<close>

function dma_loop ::
  "PCIeTunnelContext \<Rightarrow> PCIeTlpHeader list \<Rightarrow> PCIeDmaRequest \<Rightarrow> u64 \<Rightarrow> u64 \<Rightarrow>
   pcie_ret \<times> PCIeTunnelContext \<times> PCIeTlpHeader list" where
  "dma_loop ctx wire req remaining dev_offset =
     (if remaining > 0 then
        let chunk = (if remaining > 256 then 256 else remaining);
            header = tlp_zero\<lparr>tlp_type := (if dma_is_write req then PCIE_TLP_TYPE_MEM_WRITE_64
                                          else PCIE_TLP_TYPE_MEM_READ_64),
                              tlp_length := ucast ((chunk + 3) div 4),
                              tlp_address := dma_device_addr req + dev_offset,
                              tlp_tag := next_tag ctx\<rparr>;
            ctx = ctx\<lparr>next_tag := next_tag ctx + 1\<rparr>;
            (ret, ctx, wire) = pcie_send_tlp ctx wire (Some header) None chunk
        in if ret \<noteq> PCIE_SUCCESS then (ret, ctx, wire)
           else dma_loop ctx wire req (remaining - chunk) (dev_offset + chunk)
      else (PCIE_SUCCESS, ctx, wire))"
  by pat_completeness auto

termination
proof (relation "measure (\<lambda>(ctx, wire, req, remaining, dev_offset). unat remaining)", goal_cases)
  case 1
  show ?case by simp
next
  case (2 ctx wire req remaining dev_offset chunk)
  then show ?case using chunk_less [of remaining] by simp
qed

declare dma_loop.simps [simp del]

text \<open>The callback is called at most once; the fourth component is the call's arguments.\<close>

definition pcie_dma_transfer ::
  "PCIeTunnelContext \<Rightarrow> PCIeTlpHeader list \<Rightarrow> PCIeDevice option \<Rightarrow> PCIeDmaRequest option \<Rightarrow>
   pcie_ret \<times> PCIeTunnelContext \<times> PCIeTlpHeader list \<times> (ptr \<times> ptr option \<times> pcie_ret) option" where
  "pcie_dma_transfer ctx wire device request =
     (case request of
        None \<Rightarrow> (PCIE_ERR_INVALID_PARAM, ctx, wire, None)
      | Some req \<Rightarrow>
          if device = None then (PCIE_ERR_INVALID_PARAM, ctx, wire, None)
          else if dma_size req = 0 \<or> dma_size req > 1 * 1024 * 1024 * 1024
          then (PCIE_ERR_INVALID_PARAM, ctx, wire, None)
          else if dma_host_addr req = 0 then (PCIE_ERR_INVALID_PARAM, ctx, wire, None)
          else if dma_host_addr req + dma_size req < dma_host_addr req \<or>
                  dma_device_addr req + dma_size req < dma_device_addr req
          then (PCIE_ERR_INVALID_PARAM, ctx, wire, None)
          else
            let (ret, ctx, wire) = dma_loop ctx wire req (dma_size req) 0 in
            if ret \<noteq> PCIE_SUCCESS then (ret, ctx, wire, None)
            else (PCIE_SUCCESS, ctx, wire,
              map_option (\<lambda>cb. (cb, dma_user_data req, PCIE_SUCCESS)) (dma_callback req)))"

definition pcie_dma_wait :: "PCIeDmaRequest option \<Rightarrow> pcie_ret" where
  "pcie_dma_wait request = (if request = None then PCIE_ERR_INVALID_PARAM else PCIE_SUCCESS)"

subsection \<open>Probing and scanning\<close>

text \<open>\<open>*ctx->usb4_ctx\<close>; the inner option is the null pointer.\<close>

definition get_usb4 :: "PCIeTunnelContext \<Rightarrow> pcie_heap \<Rightarrow> USB4ControllerContext option option" where
  "get_usb4 ctx h =
     (case usb4_ctx ctx of None \<Rightarrow> Some None | Some p \<Rightarrow> map_option Some (heap_get (h_usb4 h) p))"

definition bar_sizes :: "u64 list" where
  "bar_sizes = [16 * 1024 * 1024, 256 * 1024 * 1024, 32 * 1024 * 1024, 0, 0, 0]"

definition probe_bar :: "nat \<Rightarrow> PCIeBar \<Rightarrow> PCIeBar" where
  "probe_bar i b =
     (if bar_sizes ! i > 0 then
        b\<lparr>bar_size := bar_sizes ! i, physical_base := 0x80000000 + of_nat i * 0x10000000,
          bar_type := (if bar_sizes ! i > 0xFFFFFFFF then PCIE_BAR_TYPE_MEM64 else PCIE_BAR_TYPE_MEM32),
          prefetchable := (i = 1), is_mapped := False\<rparr>
      else b)"

definition probed_device :: "u8 \<Rightarrow> u8 \<Rightarrow> u8 \<Rightarrow> u32 \<Rightarrow> ptr option \<Rightarrow> PCIeDevice" where
  "probed_device bus device function vendor_device tunnel =
     (let class_rev = push_bit 8 PCIE_CLASS_3D OR 0xA1;
          dev = device_zero\<lparr>dv_bus := bus, dv_device := device, dv_function := function,
            dv_vendor_id := ucast (vendor_device AND 0xFFFF),
            dv_device_id := ucast (drop_bit 16 vendor_device AND 0xFFFF),
            dv_class_code := drop_bit 8 class_rev AND 0xFFFFFF,
            dv_revision := ucast (class_rev AND 0xFF),
            dv_subsystem_vendor_id := NVIDIA_VENDOR_ID\<rparr>;
          dev = dev\<lparr>dv_subsystem_id := dv_device_id dev, dv_tunnel := tunnel\<rparr>
      in dev\<lparr>dv_bars := map (\<lambda>i. probe_bar i (dv_bars dev ! i)) [0..<PCIE_BAR_COUNT]\<rparr>)"

definition pcie_probe_device ::
  "PCIeTunnelContext \<Rightarrow> pcie_heap \<Rightarrow> u8 \<Rightarrow> u8 \<Rightarrow> u8 \<Rightarrow> (pcie_ret \<times> PCIeTunnelContext \<times> pcie_heap) option" where
  "pcie_probe_device ctx h bus device function =
     do { let ctx = ctx\<lparr>next_tag := next_tag ctx + 1\<rparr>;
          usb4 \<leftarrow> get_usb4 ctx h;
          let tunnels = (case usb4 of None \<Rightarrow> [] | Some u \<Rightarrow> active_tunnels u);
          let vendor_device = (if tunnels \<noteq> [] \<and> device = 0 \<and> function = 0
                               then push_bit 16 0x2684 OR ucast NVIDIA_VENDOR_ID else 0 :: u32);
          if vendor_device = 0 \<or> vendor_device = 0xFFFFFFFF then Some (PCIE_ERR_NOT_FOUND, ctx, h)
          else
            let tunnel = (if tunnels \<noteq> [] then tunnels ! 0 else None) in
            case heap_alloc (h_devices h) (probed_device bus device function vendor_device tunnel) of
              (None, hv) \<Rightarrow> Some (PCIE_ERR_NO_MEMORY, ctx, h\<lparr>h_devices := hv\<rparr>)
            | (Some dev, hv) \<Rightarrow>
                if length (devices ctx) \<ge> 32
                then do { hv \<leftarrow> heap_free hv dev; Some (PCIE_ERR_NO_MEMORY, ctx, h\<lparr>h_devices := hv\<rparr>) }
                else Some (PCIE_SUCCESS, ctx\<lparr>devices := devices ctx @ [Some dev]\<rparr>, h\<lparr>h_devices := hv\<rparr>) }"

text \<open>The functions of one device, and the devices of bus 0, with the breaks of the two loops.\<close>

fun scan_functions ::
  "PCIeTunnelContext \<Rightarrow> pcie_heap \<Rightarrow> nat \<Rightarrow> nat list \<Rightarrow> nat \<Rightarrow>
   (nat \<times> PCIeTunnelContext \<times> pcie_heap) option" where
  "scan_functions ctx h dev [] found = Some (found, ctx, h)"
| "scan_functions ctx h dev (func # funcs) found =
     do { (ret, ctx, h) \<leftarrow> pcie_probe_device ctx h 0 (of_nat dev) (of_nat func);
          if ret = PCIE_SUCCESS then
            (if func = 0 then
               do { p \<leftarrow> (if devices ctx = [] then None else last (devices ctx));
                    d \<leftarrow> heap_get (h_devices h) p;
                    (_, v) \<leftarrow> pcie_config_read (Some d) PCIE_REG_HEADER_TYPE 1 True;
                    header \<leftarrow> v;
                    if header AND 0x80 = 0 then Some (Suc found, ctx, h)
                    else scan_functions ctx h dev funcs (Suc found) }
             else scan_functions ctx h dev funcs (Suc found))
          else if func = 0 then Some (found, ctx, h)
          else scan_functions ctx h dev funcs found }"

fun scan_devices ::
  "PCIeTunnelContext \<Rightarrow> pcie_heap \<Rightarrow> nat list \<Rightarrow> nat \<Rightarrow> (nat \<times> PCIeTunnelContext \<times> pcie_heap) option" where
  "scan_devices ctx h [] found = Some (found, ctx, h)"
| "scan_devices ctx h (dev # devs) found =
     (if found < 32 then
        do { (found, ctx, h) \<leftarrow> scan_functions ctx h dev [0..<PCIE_MAX_FUNCTION] found;
             scan_devices ctx h devs found }
      else Some (found, ctx, h))"

definition pcie_scan_bus ::
  "PCIeTunnelContext \<Rightarrow> pcie_heap \<Rightarrow> (nat \<times> PCIeTunnelContext \<times> pcie_heap) option" where
  "pcie_scan_bus ctx h = scan_devices ctx h [0..<PCIE_MAX_DEVICE] 0"

fun pcie_find_nvidia_gpu :: "pcie_heap \<Rightarrow> ptr option list \<Rightarrow> ptr option option" where
  "pcie_find_nvidia_gpu h [] = Some None"
| "pcie_find_nvidia_gpu h (None # ds) = pcie_find_nvidia_gpu h ds"
| "pcie_find_nvidia_gpu h (Some p # ds) =
     do { dev \<leftarrow> heap_get (h_devices h) p;
          if dv_vendor_id dev = NVIDIA_VENDOR_ID \<and>
             (ucast (drop_bit 16 (dv_class_code dev) AND 0xFF) :: u8) = 0x03
          then Some (Some p) else pcie_find_nvidia_gpu h ds }"

subsection \<open>Shutdown\<close>

primrec unmap_mapped :: "buf heap \<Rightarrow> PCIeDevice \<Rightarrow> nat list \<Rightarrow> (PCIeDevice \<times> buf heap) option" where
  "unmap_mapped maps d [] = Some (d, maps)"
| "unmap_mapped maps d (j # js) =
     (if is_mapped (dv_bars d ! j) then
        do { (d', maps) \<leftarrow> pcie_unmap_bar maps (Some d) (int j);
             d \<leftarrow> d'; unmap_mapped maps d js }
      else unmap_mapped maps d js)"

primrec free_devices :: "pcie_heap \<Rightarrow> ptr option list \<Rightarrow> pcie_heap option" where
  "free_devices h [] = Some h"
| "free_devices h (q # qs) =
     (case q of
        None \<Rightarrow> free_devices h qs
      | Some p \<Rightarrow>
          do { d \<leftarrow> heap_get (h_devices h) p;
               (d, maps) \<leftarrow> unmap_mapped (h_maps h) d [0..<PCIE_BAR_COUNT];
               pd \<leftarrow> heap_free_opt (h_platform h) (dv_platform_data d);
               hv \<leftarrow> heap_put (h_devices h) p (d\<lparr>dv_platform_data := None,
                        dv_config_cache := buf_new PCIE_CONFIG_SPACE_SIZE\<rparr>);
               hv \<leftarrow> heap_free hv p;
               free_devices (h\<lparr>h_devices := hv, h_maps := maps, h_platform := pd\<rparr>) qs })"

definition pcie_tunnel_shutdown ::
  "PCIeTunnelContext \<Rightarrow> pcie_heap \<Rightarrow> (PCIeTunnelContext \<times> pcie_heap) option" where
  "pcie_tunnel_shutdown ctx h =
     do { h \<leftarrow> free_devices h (devices ctx); Some (pcie_ctx_zero, h) }"

section \<open>Configuration space\<close>

text \<open>The accesses the code accepts: one, two or four bytes inside the 4 KB of the space.\<close>

definition cfg_access :: "u16 \<Rightarrow> u8 \<Rightarrow> bool" where
  "cfg_access off sz \<longleftrightarrow> (sz = 1 \<or> sz = 2 \<or> sz = 4) \<and> unat off + unat sz \<le> PCIE_CONFIG_SPACE_SIZE"

definition cfg_ok :: "PCIeDevice \<Rightarrow> bool" where
  "cfg_ok d \<longleftrightarrow> b_size (dv_config_cache d) = PCIE_CONFIG_SPACE_SIZE"

lemma cfg_bound:
  "(ucast (off :: u16) :: u32) + ucast (sz :: u8) > of_nat PCIE_CONFIG_SPACE_SIZE \<longleftrightarrow>
   unat off + unat sz > PCIE_CONFIG_SPACE_SIZE"
proof -
  have "unat off < 2 ^ 16" "unat sz < 2 ^ 8" using unsigned_less [of off] unsigned_less [of sz] by simp_all
  then have "unat ((ucast off :: u32) + ucast sz) = unat off + unat sz"
    by (simp add: unat_word_ariths unsigned_ucast_eq take_bit_nat_eq_self)
  then show ?thesis by (simp add: word_less_nat_alt pcie_consts)
qed

lemma cfg_size_cases:
  assumes "cfg_access off sz"
  obtains "sz = 1" "unat sz = 1" | "sz = 2" "unat sz = 2" | "sz = 4" "unat sz = 4"
  using assms by (auto simp: cfg_access_def)

lemma config_read_closed:
  assumes "cfg_ok d"
  shows "pcie_config_read (Some d) off sz True =
    (if cfg_access off sz
     then Some (PCIE_SUCCESS, Some (le_word (the (buf_rd (dv_config_cache d) (unat off) (unat sz)))))
     else Some (PCIE_ERR_INVALID_PARAM,
       if unat off + unat sz \<le> PCIE_CONFIG_SPACE_SIZE \<and> unat off < PCIE_CONFIG_SPACE_SIZE then Some 0 else None))"
proof -
  have "unat sz \<ge> 1" if "sz = 1 \<or> sz = 2 \<or> sz = 4" using that by auto
  then show ?thesis
    using assms bs.rd_total [of "unat off" "unat sz" "dv_config_cache d"]
    by (auto simp: pcie_config_read_def cfg_bound cfg_access_def cfg_ok_def)
qed

lemma config_write_closed:
  assumes "cfg_ok d"
  shows "\<exists>cache. pcie_config_write (Some d) off sz v =
      (if cfg_access off sz then Some (PCIE_SUCCESS, Some (d\<lparr>dv_config_cache := cache\<rparr>))
       else Some (PCIE_ERR_INVALID_PARAM, Some d)) \<and>
    (cfg_access off sz \<longrightarrow> buf_wr (dv_config_cache d) (unat off) (le_bytes (unat sz) v) = Some cache)"
proof -
  have "unat sz \<ge> 1" if "sz = 1 \<or> sz = 2 \<or> sz = 4" using that by auto
  then show ?thesis
    using assms bs.wr_total [of "unat off" "le_bytes (unat sz) v" "dv_config_cache d"]
    by (auto simp: pcie_config_write_def cfg_bound cfg_access_def cfg_ok_def)
qed

lemma config_write_ok:
  assumes ok: "cfg_ok d" and w: "pcie_config_write (Some d) off sz v = Some (ret, Some d')"
  shows "cfg_ok d' \<and> (\<exists>c. d' = d\<lparr>dv_config_cache := c\<rparr>)"
proof (cases "cfg_access off sz")
  case True
  with config_write_closed [OF ok, of off sz v] w obtain c
    where "d' = d\<lparr>dv_config_cache := c\<rparr>" "buf_wr (dv_config_cache d) (unat off) (le_bytes (unat sz) v) = Some c"
    by auto
  then show ?thesis using ok bs.wr_size by (auto simp: cfg_ok_def)
next
  case False
  with config_write_closed [OF ok, of off sz v] w have "d' = d" by auto
  then have "d' = d\<lparr>dv_config_cache := dv_config_cache d\<rparr>" by simp
  with ok \<open>d' = d\<close> show ?thesis by metis
qed

lemma config_rw:
  assumes "cfg_ok d"
  shows "\<exists>d'. pcie_config_write (Some d) off sz v =
      Some (if cfg_access off sz then PCIE_SUCCESS else PCIE_ERR_INVALID_PARAM, Some d') \<and>
    (if cfg_access off sz
     then pcie_config_read (Some d') off sz True = Some (PCIE_SUCCESS, Some (take_bit (8 * unat sz) v)) \<and>
       (\<forall>off' sz'. unat off' + unat sz' \<le> unat off \<or> unat off + unat sz \<le> unat off' \<longrightarrow>
          pcie_config_read (Some d') off' sz' True = pcie_config_read (Some d) off' sz' True)
     else d' = d)"
proof (cases "cfg_access off sz")
  case False
  then show ?thesis using config_write_closed [OF assms, of off sz v] by auto
next
  case True
  then obtain cache where w: "pcie_config_write (Some d) off sz v = Some (PCIE_SUCCESS, Some (d\<lparr>dv_config_cache := cache\<rparr>))"
    and c: "buf_wr (dv_config_cache d) (unat off) (le_bytes (unat sz) v) = Some cache"
    using config_write_closed [OF assms, of off sz v] by auto
  let ?d = "d\<lparr>dv_config_cache := cache\<rparr>"
  have ok: "cfg_ok ?d" using bs.wr_size [OF c] assms by (simp add: cfg_ok_def)
  have "map_option le_word (buf_rd cache (unat off) (unat sz)) = Some (take_bit (8 * unat sz) v)"
    using bs.le_round_trip [OF c, where 'b = 32] by simp
  then have "pcie_config_read (Some ?d) off sz True = Some (PCIE_SUCCESS, Some (take_bit (8 * unat sz) v))"
    using True by (auto simp: config_read_closed [OF ok])
  moreover have "pcie_config_read (Some ?d) off' sz' True = pcie_config_read (Some d) off' sz' True"
    if "unat off' + unat sz' \<le> unat off \<or> unat off + unat sz \<le> unat off'" for off' sz'
    using bs.rd_wr_other [OF c] that by (simp add: config_read_closed [OF ok] config_read_closed [OF assms])
  ultimately show ?thesis using w True by auto
qed

text \<open>Enabling sets the bits of the command register and keeps the others.\<close>

definition cfg_cmd :: "PCIeDevice \<Rightarrow> u32" where
  "cfg_cmd d = le_word (the (buf_rd (dv_config_cache d) 4 2))"

lemma cmd_rmw:
  assumes ok: "cfg_ok d"
  obtains d' where "pcie_config_read (Some d) PCIE_REG_COMMAND 2 True = Some (PCIE_SUCCESS, Some (cfg_cmd d))"
    and "pcie_config_write (Some d) PCIE_REG_COMMAND 2 v = Some (PCIE_SUCCESS, Some d')"
    and "cfg_ok d'" and "cfg_cmd d' = take_bit 16 v" and "\<exists>c. d' = d\<lparr>dv_config_cache := c\<rparr>"
proof -
  have acc: "cfg_access PCIE_REG_COMMAND 2" by (simp add: cfg_access_def pcie_consts)
  from config_rw [OF ok, of PCIE_REG_COMMAND 2 v] acc
  obtain d' where w: "pcie_config_write (Some d) PCIE_REG_COMMAND 2 v = Some (PCIE_SUCCESS, Some d')"
    and r: "pcie_config_read (Some d') PCIE_REG_COMMAND 2 True = Some (PCIE_SUCCESS, Some (take_bit 16 v))"
    by auto
  from config_write_ok [OF ok w] have d': "cfg_ok d'" "\<exists>c. d' = d\<lparr>dv_config_cache := c\<rparr>" by auto
  show thesis
    using that [OF _ w d'(1) _ d'(2)] acc r
    by (simp add: config_read_closed [OF ok] config_read_closed [OF d'(1)] cfg_cmd_def pcie_consts)
qed


lemma take_bit_le_word: "take_bit (8 * length bs) (le_word bs :: 'a::len word) = le_word bs"
  by (rule bit_word_eqI) (auto simp: bit_simps bit_le_word div_less_iff_less_mult mult.commute)

lemma cfg_cmd_16:
  assumes "cfg_ok d"
  shows "take_bit 16 (cfg_cmd d) = cfg_cmd d"
proof -
  from assms obtain bs where "buf_rd (dv_config_cache d) 4 2 = Some bs" "length bs = 2"
    using bs.rd_total [of 4 2 "dv_config_cache d"] by (auto simp: cfg_ok_def pcie_consts)
  then show ?thesis using take_bit_le_word [where 'a = 32, of bs] by (simp add: cfg_cmd_def)
qed

lemma take_bit_16_or:
  "take_bit 16 (w :: u32) = w \<Longrightarrow> take_bit 16 v = v \<Longrightarrow> take_bit 16 (w OR v) = w OR v"
  by (simp add: take_bit_or)

lemma enable_device_closed:
  assumes "cfg_ok d"
  shows "\<exists>c. pcie_enable_device (Some d) = Some (PCIE_SUCCESS, Some (d\<lparr>dv_config_cache := c, dv_is_enabled := True\<rparr>)) \<and>
    cfg_ok (d\<lparr>dv_config_cache := c\<rparr>) \<and> cfg_cmd (d\<lparr>dv_config_cache := c\<rparr>) = cfg_cmd d OR 3"
proof -
  obtain d' where "pcie_config_read (Some d) PCIE_REG_COMMAND 2 True = Some (PCIE_SUCCESS, Some (cfg_cmd d))"
    "pcie_config_write (Some d) PCIE_REG_COMMAND 2 (cfg_cmd d OR 3) = Some (PCIE_SUCCESS, Some d')"
    "cfg_ok d'" "cfg_cmd d' = take_bit 16 (cfg_cmd d OR 3)" "\<exists>c. d' = d\<lparr>dv_config_cache := c\<rparr>"
    by (rule cmd_rmw [OF assms, of "cfg_cmd d OR 3"])
  moreover from this(4) have "cfg_cmd d' = cfg_cmd d OR 3"
    using take_bit_16_or [OF cfg_cmd_16 [OF assms], of 3] by simp
  ultimately show ?thesis
    by (auto simp: pcie_enable_device_def pcie_consts)
qed

lemma enable_bus_master_closed:
  assumes "cfg_ok d"
  shows "\<exists>c. pcie_enable_bus_master (Some d) = Some (PCIE_SUCCESS, Some (d\<lparr>dv_config_cache := c, dv_is_bus_master := True\<rparr>)) \<and>
    cfg_ok (d\<lparr>dv_config_cache := c\<rparr>) \<and> cfg_cmd (d\<lparr>dv_config_cache := c\<rparr>) = cfg_cmd d OR 4"
proof -
  obtain d' where "pcie_config_read (Some d) PCIE_REG_COMMAND 2 True = Some (PCIE_SUCCESS, Some (cfg_cmd d))"
    "pcie_config_write (Some d) PCIE_REG_COMMAND 2 (cfg_cmd d OR 4) = Some (PCIE_SUCCESS, Some d')"
    "cfg_ok d'" "cfg_cmd d' = take_bit 16 (cfg_cmd d OR 4)" "\<exists>c. d' = d\<lparr>dv_config_cache := c\<rparr>"
    by (rule cmd_rmw [OF assms, of "cfg_cmd d OR 4"])
  moreover from this(4) have "cfg_cmd d' = cfg_cmd d OR 4"
    using take_bit_16_or [OF cfg_cmd_16 [OF assms], of 4] by simp
  ultimately show ?thesis
    by (auto simp: pcie_enable_bus_master_def pcie_consts)
qed

section \<open>Ownership of the BAR mappings\<close>

text \<open>
  \<open>map_sizes maps v\<close> is the size of the live mapping at \<open>v\<close>; \<open>bar_vbs d\<close> are the mappings the BARs
  of \<open>d\<close> point to. A device is \<open>dev_ok\<close> when its BARs point to distinct live mappings of their size
  exactly when they are marked as mapped.
\<close>

definition map_sizes :: "buf heap \<Rightarrow> ptr \<Rightarrow> nat option" where
  "map_sizes maps v = map_option b_size (hp_mem maps v)"

definition bar_vb :: "PCIeDevice \<Rightarrow> nat \<Rightarrow> ptr option" where
  "bar_vb d i = (if i < PCIE_BAR_COUNT then virtual_base (dv_bars d ! i) else None)"

definition bar_vbs :: "PCIeDevice \<Rightarrow> ptr set" where
  "bar_vbs d = {v. \<exists>i. bar_vb d i = Some v}"

definition bar_ok :: "buf heap \<Rightarrow> PCIeBar \<Rightarrow> bool" where
  "bar_ok maps b \<longleftrightarrow> (is_mapped b \<longleftrightarrow> virtual_base b \<noteq> None) \<and>
     (\<forall>v. virtual_base b = Some v \<longrightarrow> map_sizes maps v = Some (unat (bar_size b)))"

definition dev_ok :: "buf heap \<Rightarrow> PCIeDevice \<Rightarrow> bool" where
  "dev_ok maps d \<longleftrightarrow> length (dv_bars d) = PCIE_BAR_COUNT \<and> cfg_ok d \<and> dv_platform_data d = None \<and>
     (\<forall>i < PCIE_BAR_COUNT. bar_ok maps (dv_bars d ! i)) \<and>
     (\<forall>i j v. bar_vb d i = Some v \<longrightarrow> bar_vb d j = Some v \<longrightarrow> i = j)"

definition dev_vbs :: "pcie_heap \<Rightarrow> ptr \<Rightarrow> ptr set" where
  "dev_vbs h p = (case hp_mem (h_devices h) p of None \<Rightarrow> {} | Some d \<Rightarrow> bar_vbs d)"

definition usb4_ok :: "PCIeTunnelContext \<Rightarrow> pcie_heap \<Rightarrow> bool" where
  "usb4_ok ctx h \<longleftrightarrow> (\<exists>u. usb4_ctx ctx = Some u \<and> u \<in> dom (hp_mem (h_usb4 h)))"

definition pcie_owned :: "PCIeTunnelContext \<Rightarrow> pcie_heap \<Rightarrow> ptr list \<Rightarrow> bool" where
  "pcie_owned ctx h ps \<longleftrightarrow>
     devices ctx = map Some ps \<and> distinct ps \<and> length ps \<le> 32 \<and>
     dom (hp_mem (h_devices h)) = set ps \<and> heap_wf (h_devices h) \<and> heap_wf (h_maps h) \<and>
     (\<forall>p \<in> set ps. \<forall>d. hp_mem (h_devices h) p = Some d \<longrightarrow> dev_ok (h_maps h) d) \<and>
     (\<forall>p \<in> set ps. \<forall>q \<in> set ps. p \<noteq> q \<longrightarrow> dev_vbs h p \<inter> dev_vbs h q = {}) \<and>
     dom (hp_mem (h_maps h)) = (\<Union>p \<in> set ps. dev_vbs h p)"

lemma bar_ok_frame:
  "bar_ok maps b \<Longrightarrow> \<forall>v. virtual_base b = Some v \<longrightarrow> map_sizes maps' v = map_sizes maps v \<Longrightarrow> bar_ok maps' b"
  by (auto simp: bar_ok_def)

lemma dev_ok_frame:
  assumes "dev_ok maps d" and "\<forall>v \<in> bar_vbs d. map_sizes maps' v = map_sizes maps v"
  shows "dev_ok maps' d"
proof -
  have "bar_ok maps' (dv_bars d ! i)" if "i < PCIE_BAR_COUNT" for i
  proof (rule bar_ok_frame)
    show "bar_ok maps (dv_bars d ! i)" using assms(1) that by (simp add: dev_ok_def)
    show "\<forall>v. virtual_base (dv_bars d ! i) = Some v \<longrightarrow> map_sizes maps' v = map_sizes maps v"
      using assms(2) that unfolding bar_vbs_def bar_vb_def by (metis (mono_tags, lifting) mem_Collect_eq)
  qed
  with assms(1) show ?thesis by (simp add: dev_ok_def)
qed

lemma dev_vbs_live: "pcie_owned ctx h ps \<Longrightarrow> p \<in> set ps \<Longrightarrow> hp_mem (h_devices h) p = Some d \<Longrightarrow>
    bar_vbs d \<subseteq> dom (hp_mem (h_maps h))"
  by (force simp: pcie_owned_def dev_vbs_def)

text \<open>A device operation that only gives or takes mappings of this device keeps the ownership.\<close>

lemma owned_dev_update:
  assumes own: "pcie_owned ctx h ps" and p: "p \<in> set ps" "hp_mem (h_devices h) p = Some d"
    and ok: "dev_ok maps' d'" and wf: "heap_wf maps'"
    and dm: "dom (hp_mem maps') = dom (hp_mem (h_maps h)) - bar_vbs d \<union> bar_vbs d'"
    and new: "bar_vbs d' \<inter> (dom (hp_mem (h_maps h)) - bar_vbs d) = {}"
    and same: "\<forall>v \<in> dom (hp_mem (h_maps h)) - bar_vbs d. map_sizes maps' v = map_sizes (h_maps h) v"
    and h': "h' = h\<lparr>h_devices := h_devices h\<lparr>hp_mem := (hp_mem (h_devices h))(p \<mapsto> d')\<rparr>, h_maps := maps'\<rparr>"
  shows "pcie_owned ctx h' ps"
proof -
  have vp: "dev_vbs h p = bar_vbs d" "dev_vbs h' p = bar_vbs d'" using p h' by (simp_all add: dev_vbs_def)
  have vq: "dev_vbs h' q = dev_vbs h q" if "q \<noteq> p" for q using that h' by (simp add: dev_vbs_def)
  have dis: "dev_vbs h q \<inter> bar_vbs d = {}" if "q \<in> set ps" "q \<noteq> p" for q
    using own p(1) that vp(1) unfolding pcie_owned_def by metis
  have live: "dev_vbs h q \<subseteq> dom (hp_mem (h_maps h))" if "q \<in> set ps" for q
    using own that unfolding pcie_owned_def by blast
  have out: "dev_vbs h q \<subseteq> dom (hp_mem (h_maps h)) - bar_vbs d" if "q \<in> set ps" "q \<noteq> p" for q
    using dis [OF that] live [OF that(1)] by blast
  have oks: "\<forall>q \<in> set ps. \<forall>e. hp_mem (h_devices h') q = Some e \<longrightarrow> dev_ok (h_maps h') e"
  proof (intro ballI allI impI)
    fix q e assume q: "q \<in> set ps" "hp_mem (h_devices h') q = Some e"
    show "dev_ok (h_maps h') e"
    proof (cases "q = p")
      case True with q ok h' show ?thesis by simp
    next
      case False
      then have e: "hp_mem (h_devices h) q = Some e" using q h' by simp
      then have "bar_vbs e \<subseteq> dom (hp_mem (h_maps h)) - bar_vbs d" using out [OF q(1) False] by (simp add: dev_vbs_def)
      moreover have "dev_ok (h_maps h) e" using own q(1) e by (simp add: pcie_owned_def)
      ultimately show ?thesis using dev_ok_frame [of "h_maps h" e maps'] same h' by auto
    qed
  qed
  have dj: "\<forall>q \<in> set ps. \<forall>r \<in> set ps. q \<noteq> r \<longrightarrow> dev_vbs h' q \<inter> dev_vbs h' r = {}"
  proof (intro ballI impI)
    fix q r assume qr: "q \<in> set ps" "r \<in> set ps" "q \<noteq> r"
    consider "q = p" "r \<noteq> p" | "r = p" "q \<noteq> p" | "q \<noteq> p" "r \<noteq> p" using qr(3) by blast
    then show "dev_vbs h' q \<inter> dev_vbs h' r = {}"
    proof cases
      case 1 then show ?thesis using vp vq [of r] out [of r] new qr by auto
    next
      case 2 then show ?thesis using vp vq [of q] out [of q] new qr by auto
    next
      case 3 then show ?thesis using vq [of q] vq [of r] own qr by (simp add: pcie_owned_def)
    qed
  qed
  have "(\<Union>q \<in> set ps. dev_vbs h' q) = dev_vbs h' p \<union> (\<Union>q \<in> set ps - {p}. dev_vbs h' q)" using p(1) by blast
  also have "\<dots> = bar_vbs d' \<union> (\<Union>q \<in> set ps - {p}. dev_vbs h q)" using vp(2) vq by simp
  finally have "(\<Union>q \<in> set ps. dev_vbs h' q) = bar_vbs d' \<union> (\<Union>q \<in> set ps - {p}. dev_vbs h q)" .
  moreover have "(\<Union>q \<in> set ps - {p}. dev_vbs h q) = dom (hp_mem (h_maps h)) - bar_vbs d"
  proof -
    have "dom (hp_mem (h_maps h)) = (\<Union>q \<in> set ps. dev_vbs h q)" using own by (simp add: pcie_owned_def)
    also have "\<dots> = bar_vbs d \<union> (\<Union>q \<in> set ps - {p}. dev_vbs h q)" using p(1) vp(1) by blast
    finally have "dom (hp_mem (h_maps h)) = bar_vbs d \<union> (\<Union>q \<in> set ps - {p}. dev_vbs h q)" .
    moreover have "(\<Union>q \<in> set ps - {p}. dev_vbs h q) \<inter> bar_vbs d = {}" using dis by blast
    ultimately show ?thesis by blast
  qed
  ultimately have "dom (hp_mem maps') = (\<Union>q \<in> set ps. dev_vbs h' q)" using dm by auto
  moreover have "heap_wf (h_devices h')" using own p h' by (auto simp: pcie_owned_def heap_wf_def)
  moreover have "dom (hp_mem (h_devices h')) = set ps" using own p h' by (auto simp: pcie_owned_def)
  ultimately show ?thesis using own oks dj wf h' by (simp add: pcie_owned_def)
qed

text \<open>What a device operation may do to the mappings.\<close>

definition maps_step :: "buf heap \<Rightarrow> PCIeDevice \<Rightarrow> buf heap \<Rightarrow> PCIeDevice \<Rightarrow> bool" where
  "maps_step m d m' d' \<longleftrightarrow>
     dev_ok m' d' \<and> heap_wf m' \<and> dom (hp_mem m') = dom (hp_mem m) - bar_vbs d \<union> bar_vbs d' \<and>
     bar_vbs d' \<inter> (dom (hp_mem m) - bar_vbs d) = {} \<and>
     (\<forall>v \<in> dom (hp_mem m) - bar_vbs d. map_sizes m' v = map_sizes m v)"

definition dev_in :: "buf heap \<Rightarrow> PCIeDevice \<Rightarrow> bool" where
  "dev_in m d \<longleftrightarrow> dev_ok m d \<and> bar_vbs d \<subseteq> dom (hp_mem m) \<and> heap_wf m"

lemma dom_map_sizes: "map_sizes m' = map_sizes m \<Longrightarrow> dom (hp_mem m') = dom (hp_mem m)"
proof -
  assume "map_sizes m' = map_sizes m"
  then have "dom (map_sizes m') = dom (map_sizes m)" by simp
  then show ?thesis by (simp add: map_sizes_def dom_def)
qed

lemma maps_step_same:
  assumes "dev_in m d" and "dv_bars d' = dv_bars d" and "cfg_ok d'" and "dv_platform_data d' = dv_platform_data d"
    and "map_sizes m' = map_sizes m" and "heap_wf m'"
  shows "maps_step m d m' d'"
proof -
  have vb: "bar_vb d' = bar_vb d" using assms(2) by (simp add: bar_vb_def fun_eq_iff)
  then have "dev_ok m' d'" using assms by (simp add: dev_in_def dev_ok_def bar_ok_def)
  then show ?thesis
    using assms vb dom_map_sizes [OF assms(5)]
    by (auto simp: maps_step_def bar_vbs_def dev_in_def)
qed

lemma set_bar_sel [simp]:
  "cfg_ok (set_bar d i b) = cfg_ok d" "dv_platform_data (set_bar d i b) = dv_platform_data d"
  "dv_bars (set_bar d i b) = (dv_bars d)[i := b]"
  by (simp_all add: set_bar_def cfg_ok_def)

lemma bar_vb_set_bar:
  "length (dv_bars d) = PCIE_BAR_COUNT \<Longrightarrow> i < PCIE_BAR_COUNT \<Longrightarrow>
   bar_vb (set_bar d i b) j = (if j = i then virtual_base b else bar_vb d j)"
  by (simp add: bar_vb_def)

lemma bar_vbs_set_bar:
  assumes "dev_ok m d" and "i < PCIE_BAR_COUNT"
  shows "bar_vbs (set_bar d i b) = set_option (virtual_base b) \<union> (bar_vbs d - set_option (bar_vb d i))"
proof -
  have inj: "bar_vb d j = Some v \<Longrightarrow> bar_vb d i = Some v \<Longrightarrow> j = i" for j v
    using assms(1) unfolding dev_ok_def by blast
  have "v \<in> bar_vbs (set_bar d i b) \<longleftrightarrow> virtual_base b = Some v \<or> (\<exists>j. j \<noteq> i \<and> bar_vb d j = Some v)" for v
    using assms bar_vb_set_bar [of d i b] by (auto simp: bar_vbs_def dev_ok_def split: if_splits)
  moreover have "(\<exists>j. j \<noteq> i \<and> bar_vb d j = Some v) \<longleftrightarrow> v \<in> bar_vbs d \<and> bar_vb d i \<noteq> Some v" for v
  proof
    assume "\<exists>j. j \<noteq> i \<and> bar_vb d j = Some v"
    then obtain j where "j \<noteq> i" "bar_vb d j = Some v" by blast
    then show "v \<in> bar_vbs d \<and> bar_vb d i \<noteq> Some v" using inj by (auto simp: bar_vbs_def)
  next
    assume "v \<in> bar_vbs d \<and> bar_vb d i \<noteq> Some v"
    then obtain j where "bar_vb d j = Some v" "bar_vb d i \<noteq> Some v" by (auto simp: bar_vbs_def)
    then show "\<exists>j. j \<noteq> i \<and> bar_vb d j = Some v" by (intro exI [of _ j]) auto
  qed
  ultimately show ?thesis by (auto simp: set_eq_iff elem_set)
qed

lemma dev_ok_set_bar:
  assumes ok: "dev_ok m d" and i: "i < PCIE_BAR_COUNT" and b: "bar_ok m' b"
    and fresh: "set_option (virtual_base b) \<inter> bar_vbs d = {}"
    and same: "\<forall>v \<in> bar_vbs d - set_option (bar_vb d i). map_sizes m' v = map_sizes m v"
  shows "dev_ok m' (set_bar d i b)"
proof -
  have len: "length (dv_bars d) = PCIE_BAR_COUNT" using ok by (simp add: dev_ok_def)
  note vb = bar_vb_set_bar [OF len i]
  have inj: "bar_vb d j = Some v \<Longrightarrow> bar_vb d k = Some v \<Longrightarrow> j = k" for j k v
    using ok unfolding dev_ok_def by blast
  have "bar_ok m' ((dv_bars d)[i := b] ! j)" if j: "j < PCIE_BAR_COUNT" for j
  proof (cases "j = i")
    case True with b i len show ?thesis by simp
  next
    case False
    have "bar_ok m (dv_bars d ! j)" using ok j by (simp add: dev_ok_def)
    moreover have "map_sizes m' v = map_sizes m v" if "virtual_base (dv_bars d ! j) = Some v" for v
    proof -
      have vj: "bar_vb d j = Some v" using that j by (simp add: bar_vb_def)
      then have "bar_vb d i \<noteq> Some v" using inj False by blast
      with vj same show ?thesis by (auto simp: bar_vbs_def elem_set)
    qed
    ultimately show ?thesis using False bar_ok_frame by simp
  qed
  moreover have "j = k" if "bar_vb (set_bar d i b) j = Some v" "bar_vb (set_bar d i b) k = Some v" for j k v
  proof -
    have no: "bar_vb d l \<noteq> Some v" if "virtual_base b = Some v" for l
      using fresh that by (auto simp: bar_vbs_def)
    show ?thesis using that inj no unfolding vb by (auto split: if_splits)
  qed
  ultimately show ?thesis using ok by (auto simp: dev_ok_def)
qed

lemma index_ok: "bar_index_ok i \<Longrightarrow> nat i < PCIE_BAR_COUNT"
  by (auto simp: bar_index_ok_def)

lemma map_bar_step:
  assumes din: "dev_in m d" and call: "pcie_map_bar m (Some d) i = (ret, d', m')"
  shows "\<exists>e. d' = Some e \<and> maps_step m d m' e"
proof -
  have refl: "maps_step m d m d" using maps_step_same [OF din] din by (simp add: dev_in_def dev_ok_def)
  let ?b = "dv_bars d ! nat i"
  show ?thesis
  proof (cases "bar_index_ok i \<and> bar_size ?b \<noteq> 0 \<and> \<not> is_mapped ?b")
    case False
    then show ?thesis using call refl by (auto simp: pcie_map_bar_def Let_def split: if_splits)
  next
    case True
    then have i: "nat i < PCIE_BAR_COUNT" by (simp add: index_ok)
    have ok: "dev_ok m d" and wf: "heap_wf m" and live: "bar_vbs d \<subseteq> dom (hp_mem m)"
      using din by (simp_all add: dev_in_def)
    have bok: "bar_ok m ?b" using ok i by (simp add: dev_ok_def)
    with True have none: "virtual_base ?b = None" by (simp add: bar_ok_def)
    then have vbi: "bar_vb d (nat i) = None" using i by (simp add: bar_vb_def)
    let ?n = "hp_next m"
    show ?thesis
    proof (cases "hp_oom m ?n")
      case True': True
      have "?b\<lparr>virtual_base := None\<rparr> = ?b" using none by simp
      then have "d' = Some d" and m': "m' = m\<lparr>hp_next := Suc ?n\<rparr>"
        using call True True' by (auto simp: pcie_map_bar_def Let_def heap_alloc_def set_bar_def)
      moreover have "maps_step m d m' d"
        using maps_step_same [OF din, of d m'] din ok m' wf
          heap_wf_bump [OF wf, of "Suc ?n"]
        by (simp add: dev_ok_def map_sizes_def fun_eq_iff)
      ultimately show ?thesis by blast
    next
      case False
      let ?b' = "?b\<lparr>virtual_base := Some ?n, is_mapped := True\<rparr>"
      have d': "d' = Some (set_bar d (nat i) ?b')"
        and m': "m' = m\<lparr>hp_mem := (hp_mem m)(?n \<mapsto> buf_new (unat (bar_size ?b))), hp_next := Suc ?n\<rparr>"
        using call True False by (auto simp: pcie_map_bar_def Let_def heap_alloc_def)
      have fr: "?n \<notin> dom (hp_mem m)" using heap_wf_fresh [OF wf] by auto
      then have fv: "?n \<notin> bar_vbs d" using live by blast
      have same: "map_sizes m' v = map_sizes m v" if "v \<in> dom (hp_mem m)" for v
        using that fr m' by (auto simp: map_sizes_def)
      have vbs: "bar_vbs (set_bar d (nat i) ?b') = insert ?n (bar_vbs d)"
        using bar_vbs_set_bar [OF ok i] vbi by simp
      have "dev_ok m' (set_bar d (nat i) ?b')"
      proof (rule dev_ok_set_bar [OF ok i])
        show "bar_ok m' ?b'" by (simp add: bar_ok_def map_sizes_def m' buf_new_def)
        show "set_option (virtual_base ?b') \<inter> bar_vbs d = {}" using fv by simp
        show "\<forall>v\<in>bar_vbs d - set_option (bar_vb d (nat i)). map_sizes m' v = map_sizes m v"
          using same live by blast
      qed
      moreover have "heap_wf m'" using wf m' by (auto simp: heap_wf_def less_Suc_eq)
      moreover have "dom (hp_mem m') = insert ?n (dom (hp_mem m))" using m' by simp
      ultimately have "maps_step m d m' (set_bar d (nat i) ?b')"
        using vbs same fr live unfolding maps_step_def by auto
      with d' show ?thesis by blast
    qed
  qed
qed

lemma unmap_bar_step:
  assumes din: "dev_in m d" and i: "i < PCIE_BAR_COUNT"
  shows "\<exists>m'. pcie_unmap_bar m (Some d) (int i) = Some (Some (set_bar d i
       ((dv_bars d ! i)\<lparr>virtual_base := None, is_mapped := False\<rparr>)), m') \<and>
     m' = m\<lparr>hp_mem := hp_mem m |` (- set_option (bar_vb d i))\<rparr> \<and>
     maps_step m d m' (set_bar d i ((dv_bars d ! i)\<lparr>virtual_base := None, is_mapped := False\<rparr>))"
proof -
  let ?b = "dv_bars d ! i" and ?c = "(dv_bars d ! i)\<lparr>virtual_base := None, is_mapped := False\<rparr>"
  let ?m = "m\<lparr>hp_mem := hp_mem m |` (- set_option (bar_vb d i))\<rparr>"
  have ok: "dev_ok m d" and wf: "heap_wf m" and live: "bar_vbs d \<subseteq> dom (hp_mem m)"
    using din by (simp_all add: dev_in_def)
  have bok: "bar_ok m ?b" using ok i by (simp add: dev_ok_def)
  have vb: "bar_vb d i = virtual_base ?b" using i by (simp add: bar_vb_def)
  have idx: "bar_index_ok (int i)" using i by (simp add: bar_index_ok_def)
  have sub: "set_option (bar_vb d i) \<subseteq> bar_vbs d" by (auto simp: bar_vbs_def)
  have call: "pcie_unmap_bar m (Some d) (int i) = Some (Some (set_bar d i ?c), ?m)"
  proof (cases "virtual_base ?b")
    case None
    with bok have "?c = ?b" by (simp add: bar_ok_def)
    moreover have "set_bar d i ?b = d" by (simp add: set_bar_def)
    ultimately show ?thesis using None idx vb by (simp add: pcie_unmap_bar_def Let_def)
  next
    case (Some v)
    with bok have "is_mapped ?b" "v \<in> dom (hp_mem m)" by (auto simp: bar_ok_def map_sizes_def)
    moreover have "(hp_mem m)(v := None) = hp_mem m |` (- {v})" by (auto simp: restrict_map_def fun_eq_iff)
    ultimately show ?thesis using Some idx vb by (auto simp: pcie_unmap_bar_def Let_def heap_free_def)
  qed
  have same: "map_sizes ?m v = map_sizes m v" if "v \<notin> set_option (bar_vb d i)" for v
    using that by (simp add: map_sizes_def)
  have "dev_ok ?m (set_bar d i ?c)"
  proof (rule dev_ok_set_bar [OF ok i])
    show "bar_ok ?m ?c" by (simp add: bar_ok_def)
    show "\<forall>v\<in>bar_vbs d - set_option (bar_vb d i). map_sizes ?m v = map_sizes m v" using same by blast
  qed simp
  moreover have "heap_wf ?m" using wf by (auto simp: heap_wf_def restrict_map_def split: if_splits)
  moreover have vbs: "bar_vbs (set_bar d i ?c) = bar_vbs d - set_option (bar_vb d i)"
    using bar_vbs_set_bar [OF ok i, of ?c] by simp
  moreover have "dom (hp_mem ?m) = dom (hp_mem m) - bar_vbs d \<union> bar_vbs (set_bar d i ?c)"
    unfolding vbs using sub live by auto
  moreover have "bar_vbs (set_bar d i ?c) \<inter> (dom (hp_mem m) - bar_vbs d) = {}" unfolding vbs by blast
  moreover have "\<forall>v \<in> dom (hp_mem m) - bar_vbs d. map_sizes ?m v = map_sizes m v" using same sub by blast
  ultimately show ?thesis using call unfolding maps_step_def by blast
qed

text \<open>A write to a mapping keeps all sizes.\<close>

lemma mmio_put_sizes:
  assumes "heap_get m vb = Some b" and "buf_wr b off bs = Some b'" and "heap_put m vb b' = Some m'"
  shows "map_sizes m' = map_sizes m" and "heap_wf m \<Longrightarrow> heap_wf m'"
  using assms bs.wr_size [OF assms(2)] by (auto simp: map_sizes_def fun_eq_iff heap_simps heap_wf_def)

lemma mmio_write32_keeps:
  "pcie_mmio_write32 m device i off v = Some m' \<Longrightarrow> map_sizes m' = map_sizes m \<and> (heap_wf m \<longrightarrow> heap_wf m')"
  by (auto simp: pcie_mmio_write32_def Let_def split: option.splits if_splits
      elim!: bind_eq_SomeE dest: mmio_put_sizes)

lemma mmio_write64_keeps:
  "pcie_mmio_write64 m device i off v = Some m' \<Longrightarrow> map_sizes m' = map_sizes m \<and> (heap_wf m \<longrightarrow> heap_wf m')"
  by (auto simp: pcie_mmio_write64_def Let_def split: option.splits if_splits
      elim!: bind_eq_SomeE dest: mmio_put_sizes)

text \<open>The operations a client may apply to a device of the context.\<close>

inductive dev_step :: "buf heap \<Rightarrow> PCIeDevice \<Rightarrow> buf heap \<Rightarrow> PCIeDevice \<Rightarrow> bool" where
  step_config: "pcie_config_write (Some d) off sz v = Some (ret, Some d') \<Longrightarrow> dev_step m d m d'"
| step_enable: "pcie_enable_device (Some d) = Some (ret, Some d') \<Longrightarrow> dev_step m d m d'"
| step_master: "pcie_enable_bus_master (Some d) = Some (ret, Some d') \<Longrightarrow> dev_step m d m d'"
| step_map: "pcie_map_bar m (Some d) i = (ret, Some d', m') \<Longrightarrow> dev_step m d m' d'"
| step_unmap: "pcie_unmap_bar m (Some d) i = Some (Some d', m') \<Longrightarrow> dev_step m d m' d'"
| step_write32: "pcie_mmio_write32 m (Some d) i off v = Some m' \<Longrightarrow> dev_step m d m' d"
| step_write64: "pcie_mmio_write64 m (Some d) i off w = Some m' \<Longrightarrow> dev_step m d m' d"

lemma dev_step_maps:
  assumes "dev_step m d m' d'" and din: "dev_in m d"
  shows "maps_step m d m' d'"
proof -
  have ok: "cfg_ok d" and wf: "heap_wf m" using din by (simp_all add: dev_in_def dev_ok_def)
  note same = maps_step_same [OF din]
  from assms(1) show ?thesis
  proof cases
    case (step_config off sz v ret)
    from config_write_ok [OF ok step_config(2)] step_config(1) wf show ?thesis by (auto intro!: same)
  next
    case (step_enable ret)
    with enable_device_closed [OF ok] wf show ?thesis by (auto simp: cfg_ok_def intro!: same)
  next
    case (step_master ret)
    with enable_bus_master_closed [OF ok] wf show ?thesis by (auto simp: cfg_ok_def intro!: same)
  next
    case (step_map i ret)
    with map_bar_step [OF din, of i] show ?thesis by auto
  next
    case (step_unmap i)
    show ?thesis
    proof (cases "bar_index_ok i")
      case True
      then have "int (nat i) = i" "nat i < PCIE_BAR_COUNT" by (auto simp: bar_index_ok_def)
      with unmap_bar_step [OF din, of "nat i"] step_unmap show ?thesis by auto
    next
      case False
      with step_unmap have "d' = d" "m' = m" by (auto simp: pcie_unmap_bar_def)
      with same [of d m] wf ok show ?thesis by simp
    qed
  next
    case (step_write32 i off v)
    with mmio_write32_keeps wf ok show ?thesis by (auto intro!: same)
  next
    case (step_write64 i off w)
    with mmio_write64_keeps wf ok show ?thesis by (auto intro!: same)
  qed
qed

lemma owned_dev_in:
  "pcie_owned ctx h ps \<Longrightarrow> p \<in> set ps \<Longrightarrow> hp_mem (h_devices h) p = Some d \<Longrightarrow> dev_in (h_maps h) d"
  using dev_vbs_live by (simp add: dev_in_def pcie_owned_def)

lemma owned_dev_step:
  assumes "pcie_owned ctx h ps" and "Some p \<in> set (devices ctx)" and "hp_mem (h_devices h) p = Some d"
    and "dev_step (h_maps h) d m' d'"
  shows "pcie_owned ctx (h\<lparr>h_devices := h_devices h\<lparr>hp_mem := (hp_mem (h_devices h))(p \<mapsto> d')\<rparr>, h_maps := m'\<rparr>) ps"
proof -
  have p: "p \<in> set ps" using assms(1,2) by (auto simp: pcie_owned_def)
  from dev_step_maps [OF assms(4) owned_dev_in [OF assms(1) p assms(3)]] show ?thesis
    by (intro owned_dev_update [OF assms(1) p assms(3)]) (auto simp: maps_step_def)
qed

section \<open>Scanning\<close>

definition usb4_tunnels :: "USB4ControllerContext option \<Rightarrow> ptr option list" where
  "usb4_tunnels u = (case u of None \<Rightarrow> [] | Some c \<Rightarrow> active_tunnels c)"

abbreviation bump_tag :: "nat \<Rightarrow> PCIeTunnelContext \<Rightarrow> PCIeTunnelContext" where
  "bump_tag n ctx \<equiv> ctx\<lparr>next_tag := next_tag ctx + of_nat n\<rparr>"

lemma get_usb4_tag [simp]: "get_usb4 (ctx\<lparr>next_tag := t\<rparr>) h = get_usb4 ctx h"
  by (simp add: get_usb4_def)

lemma get_usb4_devices [simp]: "get_usb4 (ctx\<lparr>devices := ds\<rparr>) h = get_usb4 ctx h"
  by (simp add: get_usb4_def)

lemma get_usb4_h_devices [simp]: "get_usb4 ctx (h\<lparr>h_devices := hv\<rparr>) = get_usb4 ctx h"
  by (simp add: get_usb4_def split: option.split)

lemma probe_other:
  assumes "get_usb4 ctx h = Some u" and "device \<noteq> 0 \<or> function \<noteq> 0"
  shows "pcie_probe_device ctx h bus device function = Some (PCIE_ERR_NOT_FOUND, bump_tag 1 ctx, h)"
  using assms by (auto simp: pcie_probe_device_def Let_def)

definition gpu_device :: "ptr option list \<Rightarrow> PCIeDevice" where
  "gpu_device ts = probed_device 0 0 0 0x268410DE (if ts \<noteq> [] then ts ! 0 else None)"

lemma probe_first:
  assumes "get_usb4 ctx h = Some u"
  shows "pcie_probe_device ctx h 0 0 0 =
    (if usb4_tunnels u = [] then Some (PCIE_ERR_NOT_FOUND, bump_tag 1 ctx, h)
     else let n = hp_next (h_devices h) in
       if hp_oom (h_devices h) n
       then Some (PCIE_ERR_NO_MEMORY, bump_tag 1 ctx, h\<lparr>h_devices := h_devices h\<lparr>hp_next := Suc n\<rparr>\<rparr>)
       else if length (devices ctx) \<ge> 32
       then Some (PCIE_ERR_NO_MEMORY, bump_tag 1 ctx,
         h\<lparr>h_devices := h_devices h\<lparr>hp_mem := (hp_mem (h_devices h))(n := None), hp_next := Suc n\<rparr>\<rparr>)
       else Some (PCIE_SUCCESS, (bump_tag 1 ctx)\<lparr>devices := devices ctx @ [Some n]\<rparr>,
         h\<lparr>h_devices := h_devices h\<lparr>hp_mem := (hp_mem (h_devices h))(n \<mapsto> gpu_device (usb4_tunnels u)),
             hp_next := Suc n\<rparr>\<rparr>))"
  using assms
  by (auto simp: pcie_probe_device_def Let_def usb4_tunnels_def gpu_device_def pcie_consts
      heap_alloc_def heap_free_def split: option.splits)

lemma probed_bars: "dv_bars (probed_device b d f v t) = map (\<lambda>i. probe_bar i bar_zero) [0..<PCIE_BAR_COUNT]"
  by (simp add: probed_device_def Let_def device_zero_def)

lemma probed_ok: "dev_ok maps (probed_device b d f v t)" and probed_vbs: "bar_vbs (probed_device b d f v t) = {}"
proof -
  have none: "bar_vb (probed_device b d f v t) i = None" for i
    by (simp add: bar_vb_def probed_bars probe_bar_def bar_zero_def)
  then show "bar_vbs (probed_device b d f v t) = {}" by (simp add: bar_vbs_def)
  have "bar_ok maps (probe_bar i bar_zero)" for i by (simp add: bar_ok_def probe_bar_def bar_zero_def)
  with none show "dev_ok maps (probed_device b d f v t)"
    by (simp add: dev_ok_def probed_bars)
      (simp add: probed_device_def Let_def device_zero_def cfg_ok_def buf_new_def)
qed

lemma gpu_header: "pcie_config_read (Some (probed_device b d f v t)) PCIE_REG_HEADER_TYPE 1 True =
    Some (PCIE_SUCCESS, Some 0)"
proof -
  have "cfg_access PCIE_REG_HEADER_TYPE 1" by (simp add: cfg_access_def pcie_consts)
  then show ?thesis
    by (simp add: pcie_config_read_def pcie_consts buf_rd_def probed_device_def Let_def device_zero_def buf_new_def)
qed

lemma scan_first:
  assumes u: "get_usb4 ctx h = Some u"
  shows "scan_functions ctx h 0 [0..<PCIE_MAX_FUNCTION] 0 =
    (case the (pcie_probe_device ctx h 0 0 0) of (ret, ctx', h') \<Rightarrow>
       Some (if ret = PCIE_SUCCESS then 1 else 0, ctx', h'))"
proof -
  have l: "[0..<PCIE_MAX_FUNCTION] = 0 # [1..<8]" by (simp add: pcie_consts upt_rec)
  show ?thesis
    unfolding l
    by (simp add: probe_first [OF u] Let_def heap_get_def gpu_device_def gpu_header)
qed

lemma scan_other:
  assumes u: "get_usb4 ctx h = Some u" and dev: "0 < dev" "dev < 256"
  shows "scan_functions ctx h dev [0..<PCIE_MAX_FUNCTION] found = Some (found, bump_tag 1 ctx, h)"
proof -
  have l: "[0..<PCIE_MAX_FUNCTION] = 0 # [1..<8]" by (simp add: pcie_consts upt_rec)
  have "(of_nat dev :: u8) \<noteq> 0" using dev by (simp add: of_nat_eq_0_iff word_of_nat_eq_0_iff nat_dvd_not_less)
  then show ?thesis unfolding l by (simp add: probe_other [OF u])
qed

lemma scan_rest:
  assumes "get_usb4 ctx h = Some u" and "\<forall>d \<in> set devs. 0 < d \<and> d < 256" and "found < 32"
  shows "scan_devices ctx h devs found = Some (found, bump_tag (length devs) ctx, h)"
  using assms
proof (induction devs arbitrary: ctx)
  case (Cons d devs)
  then show ?case by (simp add: scan_other [OF Cons.prems(1)] ac_simps)
qed simp

lemma scan_closed:
  assumes u: "get_usb4 ctx h = Some u" and p: "pcie_probe_device ctx h 0 0 0 = Some (ret, ctx1, h1)"
  shows "pcie_scan_bus ctx h = Some (if ret = PCIE_SUCCESS then 1 else 0, bump_tag 31 ctx1, h1)"
proof -
  have l: "[0..<PCIE_MAX_DEVICE] = 0 # [1..<32]" by (simp add: pcie_consts upt_rec)
  have u1: "get_usb4 ctx1 h1 = Some u"
    using p u by (auto simp: probe_first [OF u] Let_def split: if_splits)
  have "scan_devices ctx1 h1 [1..<32] n = Some (n, bump_tag 31 ctx1, h1)" if "n < 32" for n
    using scan_rest [OF u1 _ that, of "[1..<32]"] by simp
  then show ?thesis unfolding pcie_scan_bus_def l by (simp add: scan_first [OF u] p)
qed

definition is_gpu :: "PCIeDevice \<Rightarrow> bool" where
  "is_gpu dev \<longleftrightarrow> dv_vendor_id dev = NVIDIA_VENDOR_ID \<and>
     (ucast (drop_bit 16 (dv_class_code dev) AND 0xFF) :: u8) = 0x03"

lemma find_gpu_closed:
  "\<forall>p \<in> set ps. \<exists>d. hp_mem (h_devices h) p = Some d \<Longrightarrow>
   pcie_find_nvidia_gpu h (map Some ps) =
     Some (find (\<lambda>p. is_gpu (the (hp_mem (h_devices h) p))) ps)"
  by (induction ps) (auto simp: heap_get_def is_gpu_def)

lemma gpu_device_is_gpu: "is_gpu (gpu_device ts)"
  by (simp add: is_gpu_def gpu_device_def probed_device_def Let_def pcie_consts)

lemma owned_ctx_cong:
  "pcie_owned ctx h ps \<Longrightarrow> devices ctx' = devices ctx \<Longrightarrow> pcie_owned ctx' h ps"
  by (simp add: pcie_owned_def)

lemma owned_add_device:
  assumes own: "pcie_owned ctx h ps" and len: "length ps < 32" and n: "n = hp_next (h_devices h)"
    and d: "\<forall>maps. dev_ok maps d" "bar_vbs d = {}" and ds: "devices ctx' = devices ctx @ [Some n]"
    and h': "h' = h\<lparr>h_devices := h_devices h\<lparr>hp_mem := (hp_mem (h_devices h))(n \<mapsto> d), hp_next := Suc n\<rparr>\<rparr>"
  shows "pcie_owned ctx' h' (ps @ [n])"
proof -
  have fr: "n \<notin> set ps" using own n by (auto simp: pcie_owned_def dest!: heap_wf_fresh)
  have vq: "dev_vbs h' q = dev_vbs h q" if "q \<in> set ps" for q using that fr h' by (auto simp: dev_vbs_def)
  have vn: "dev_vbs h' n = {}" using d h' by (simp add: dev_vbs_def)
  have "heap_wf (h_devices h')" using own h' n by (auto simp: pcie_owned_def heap_wf_def less_Suc_eq)
  moreover have "(\<Union>p \<in> set (ps @ [n]). dev_vbs h' p) = (\<Union>p \<in> set ps. dev_vbs h p)" using vq vn by simp
  moreover have "\<forall>p \<in> set (ps @ [n]). \<forall>q \<in> set (ps @ [n]). p \<noteq> q \<longrightarrow> dev_vbs h' p \<inter> dev_vbs h' q = {}"
    using own vq vn by (auto simp: pcie_owned_def)
  moreover have "\<forall>p \<in> set (ps @ [n]). \<forall>e. hp_mem (h_devices h') p = Some e \<longrightarrow> dev_ok (h_maps h') e"
    using own d h' fr by (auto simp: pcie_owned_def)
  ultimately show ?thesis using own fr len ds h' by (auto simp: pcie_owned_def)
qed

lemma owned_bump_heap:
  "pcie_owned ctx h ps \<Longrightarrow>
   pcie_owned ctx (h\<lparr>h_devices := h_devices h\<lparr>hp_next := Suc (hp_next (h_devices h))\<rparr>\<rparr>) ps"
  using heap_wf_bump [of "h_devices h" "Suc (hp_next (h_devices h))"]
  by (simp add: pcie_owned_def dev_vbs_def)

lemma owned_usb4:
  assumes "usb4_ok ctx h"
  obtains u where "get_usb4 ctx h = Some u"
  using assms by (auto simp: usb4_ok_def get_usb4_def heap_get_def)

lemma usb4_ok_cong: "usb4_ok ctx h \<Longrightarrow> usb4_ctx ctx' = usb4_ctx ctx \<Longrightarrow> h_usb4 h' = h_usb4 h \<Longrightarrow> usb4_ok ctx' h'"
  by (simp add: usb4_ok_def)

text \<open>What a scan does to the context: at most one device, and 32 tags used.\<close>

lemma scan_cases:
  assumes own: "pcie_owned ctx h ps" and u: "get_usb4 ctx h = Some u"
  shows "\<exists>n ctx' h'. pcie_scan_bus ctx h = Some (n, ctx', h') \<and> next_tag ctx' = next_tag ctx + 32 \<and>
    usb4_ctx ctx' = usb4_ctx ctx \<and> h_usb4 h' = h_usb4 h \<and>
    (if usb4_tunnels u \<noteq> [] \<and> length (devices ctx) < 32 \<and> \<not> hp_oom (h_devices h) (hp_next (h_devices h))
     then n = 1 \<and> devices ctx' = devices ctx @ [Some (hp_next (h_devices h))] \<and>
       hp_mem (h_devices h') = (hp_mem (h_devices h))(hp_next (h_devices h) \<mapsto> gpu_device (usb4_tunnels u)) \<and>
       pcie_owned ctx' h' (ps @ [hp_next (h_devices h)])
     else n = 0 \<and> devices ctx' = devices ctx \<and> hp_mem (h_devices h') = hp_mem (h_devices h) \<and> pcie_owned ctx' h' ps)"
proof -
  let ?n = "hp_next (h_devices h)"
  have len: "length (devices ctx) = length ps" and wf: "heap_wf (h_devices h)"
    using own by (simp_all add: pcie_owned_def)
  have fr: "(hp_mem (h_devices h))(?n := None) = hp_mem (h_devices h)" using wf by (rule fresh_upd)
  have bump: "pcie_owned ctx' (h\<lparr>h_devices := h_devices h\<lparr>hp_next := Suc ?n\<rparr>\<rparr>) ps"
    if "devices ctx' = devices ctx" for ctx'
    using owned_ctx_cong [OF owned_bump_heap [OF own] that] .
  note probe = probe_first [OF u] and scan = scan_closed [OF u]
  consider (none) "usb4_tunnels u = []"
    | (oom) "usb4_tunnels u \<noteq> []" "hp_oom (h_devices h) ?n"
    | (full) "usb4_tunnels u \<noteq> []" "\<not> hp_oom (h_devices h) ?n" "length (devices ctx) \<ge> 32"
    | (ok) "usb4_tunnels u \<noteq> []" "\<not> hp_oom (h_devices h) ?n" "length (devices ctx) < 32"
    by linarith
  then show ?thesis
  proof cases
    case none
    with probe have "pcie_probe_device ctx h 0 0 0 = Some (PCIE_ERR_NOT_FOUND, bump_tag 1 ctx, h)" by simp
    from scan [OF this] none owned_ctx_cong [OF own] show ?thesis by simp
  next
    case oom
    with probe have "pcie_probe_device ctx h 0 0 0 =
      Some (PCIE_ERR_NO_MEMORY, bump_tag 1 ctx, h\<lparr>h_devices := h_devices h\<lparr>hp_next := Suc ?n\<rparr>\<rparr>)"
      by (simp add: Let_def)
    from scan [OF this] oom bump show ?thesis by simp
  next
    case full
    with probe fr have "pcie_probe_device ctx h 0 0 0 =
      Some (PCIE_ERR_NO_MEMORY, bump_tag 1 ctx, h\<lparr>h_devices := h_devices h\<lparr>hp_next := Suc ?n\<rparr>\<rparr>)"
      by (simp add: Let_def)
    from scan [OF this] full bump show ?thesis by simp
  next
    case ok
    let ?h = "h\<lparr>h_devices := h_devices h\<lparr>hp_mem := (hp_mem (h_devices h))(?n \<mapsto> gpu_device (usb4_tunnels u)),
             hp_next := Suc ?n\<rparr>\<rparr>"
    from ok probe have p: "pcie_probe_device ctx h 0 0 0 =
      Some (PCIE_SUCCESS, (bump_tag 1 ctx)\<lparr>devices := devices ctx @ [Some ?n]\<rparr>, ?h)"
      by (simp add: Let_def)
    have "pcie_owned ctx' ?h (ps @ [?n])" if "devices ctx' = devices ctx @ [Some ?n]" for ctx'
      by (rule owned_add_device [OF own _ refl _ _ that refl])
        (use ok len probed_ok probed_vbs in \<open>simp_all add: gpu_device_def\<close>)
    with scan [OF p] ok show ?thesis by simp
  qed
qed

subsection \<open>The reachable states\<close>

text \<open>
  \<open>pcie_reach ctx h\<close>: initialisation with a live USB4 context on a heap without devices, then scans,
  operations on devices of the context, transfers, and any activity of the USB4 controller that
  leaves its context live.
\<close>

definition pcie_heap_none :: "pcie_heap \<Rightarrow> bool" where
  "pcie_heap_none h \<longleftrightarrow> hp_mem (h_devices h) = Map.empty \<and> hp_mem (h_maps h) = Map.empty"

inductive pcie_reach :: "PCIeTunnelContext \<Rightarrow> pcie_heap \<Rightarrow> bool" where
  preach_init: "pcie_heap_none h \<Longrightarrow> u \<in> dom (hp_mem (h_usb4 h)) \<Longrightarrow>
     pcie_tunnel_init (Some u) ctx0 = (PCIE_SUCCESS, ctx) \<Longrightarrow> pcie_reach ctx h"
| preach_scan: "pcie_reach ctx h \<Longrightarrow> pcie_scan_bus ctx h = Some (n, ctx', h') \<Longrightarrow> pcie_reach ctx' h'"
| preach_device: "pcie_reach ctx h \<Longrightarrow> Some p \<in> set (devices ctx) \<Longrightarrow> heap_get (h_devices h) p = Some d \<Longrightarrow>
     dev_step (h_maps h) d m' d' \<Longrightarrow> heap_put (h_devices h) p d' = Some hv \<Longrightarrow>
     pcie_reach ctx (h\<lparr>h_devices := hv, h_maps := m'\<rparr>)"
| preach_dma: "pcie_reach ctx h \<Longrightarrow> pcie_dma_transfer ctx wire device request = (ret, ctx', wire', cb) \<Longrightarrow>
     pcie_reach ctx' h"
| preach_usb4: "pcie_reach ctx h \<Longrightarrow> dom (hp_mem (h_usb4 h)) \<subseteq> dom (hp_mem hu) \<Longrightarrow>
     pcie_reach ctx (h\<lparr>h_usb4 := hu\<rparr>)"

section \<open>DMA\<close>

text \<open>The packets of a transfer: consecutive addresses and tags, 256 bytes each but the last.\<close>

definition dma_header :: "PCIeDmaRequest \<Rightarrow> u8 \<Rightarrow> nat \<Rightarrow> nat \<Rightarrow> PCIeTlpHeader" where
  "dma_header req tag sz k =
     tlp_zero\<lparr>tlp_type := (if dma_is_write req then PCIE_TLP_TYPE_MEM_WRITE_64 else PCIE_TLP_TYPE_MEM_READ_64),
       tlp_length := of_nat ((min 256 (sz - 256 * k) + 3) div 4),
       tlp_address := dma_device_addr req + of_nat (256 * k),
       tlp_tag := tag + of_nat k\<rparr>"

definition dma_packets :: "nat \<Rightarrow> nat" where
  "dma_packets sz = (sz + 255) div 256"

lemma dma_packets_0 [simp]: "dma_packets 0 = 0"
  by (simp add: dma_packets_def)

lemma dma_packets_step: "0 < sz \<Longrightarrow> dma_packets sz = Suc (dma_packets (sz - 256))"
proof -
  assume "0 < sz"
  then obtain n where sz: "sz = Suc n" by (cases sz) auto
  have "(n + 256) div 256 = Suc (n div 256)" by simp
  moreover have "(Suc n - 256 + 255) div 256 = n div 256"
  proof (cases "n < 256")
    case False
    then have "Suc n - 256 + 255 = n" by simp
    then show ?thesis by simp
  qed simp
  ultimately show ?thesis by (simp add: dma_packets_def sz)
qed

lemma dma_loop_closed:
  "dma_loop ctx wire req rem off =
   (PCIE_SUCCESS,
    ctx\<lparr>next_tag := next_tag ctx + of_nat (dma_packets (unat rem)),
        tlp_count := tlp_count ctx + of_nat (dma_packets (unat rem))\<rparr>,
    wire @ map (dma_header (req\<lparr>dma_device_addr := dma_device_addr req + off\<rparr>) (next_tag ctx) (unat rem))
             [0..<dma_packets (unat rem)])"
proof (induction "unat rem" arbitrary: ctx wire rem off rule: less_induct)
  case less
  show ?case
  proof (cases "rem > 0")
    case False
    then have "rem = 0" by (simp add: word_gt_0)
    then show ?thesis by (simp add: dma_loop.simps)
  next
    case True
    define c where "c = (if rem > 256 then 256 else rem)"
    have pos: "0 < unat rem" using True by (simp add: word_less_nat_alt)
    have c: "unat c = min 256 (unat rem)" by (auto simp: c_def word_less_nat_alt)
    have rest: "unat (rem - c) = unat rem - 256"
      using c chunk_le [OF True, folded c_def] by (simp add: unat_sub min_def split: if_splits)
    have c3: "(ucast ((c + 3) div 4) :: u16) = of_nat ((min 256 (unat rem) + 3) div 4)"
    proof -
      have "unat (c + 3) = min 256 (unat rem) + 3" using c by (simp add: unat_word_ariths)
      then have "unat ((c + 3) div 4) = (min 256 (unat rem) + 3) div 4" by (simp add: unat_div)
      then show ?thesis by (metis of_nat_unat)
    qed
    have hdr: "map (dma_header (req\<lparr>dma_device_addr := dma_device_addr req + (off + c)\<rparr>) (next_tag ctx + 1) (unat rem - 256))
        [0..<dma_packets (unat rem - 256)] =
      map (dma_header (req\<lparr>dma_device_addr := dma_device_addr req + off\<rparr>) (next_tag ctx) (unat rem) \<circ> Suc)
        [0..<dma_packets (unat rem - 256)]"
    proof (rule map_cong [OF refl])
      fix k assume "k \<in> set [0..<dma_packets (unat rem - 256)]"
      then have "unat rem > 256" by (cases "unat rem > 256") (auto simp: dma_packets_def)
      then have "c = 256" by (simp add: c_def word_less_nat_alt)
      then show "dma_header (req\<lparr>dma_device_addr := dma_device_addr req + (off + c)\<rparr>) (next_tag ctx + 1) (unat rem - 256) k =
        (dma_header (req\<lparr>dma_device_addr := dma_device_addr req + off\<rparr>) (next_tag ctx) (unat rem) \<circ> Suc) k"
        by (simp add: dma_header_def algebra_simps)
    qed
    let ?H = "dma_header (req\<lparr>dma_device_addr := dma_device_addr req + off\<rparr>) (next_tag ctx) (unat rem)"
    let ?n = "dma_packets (unat rem - 256)"
    let ?ctx = "ctx\<lparr>next_tag := next_tag ctx + 1, tlp_count := tlp_count ctx + 1\<rparr>"
    have l: "map ?H [0..<dma_packets (unat rem)] = ?H 0 # map (?H \<circ> Suc) [0..<?n]"
      unfolding dma_packets_step [OF pos] by (simp add: upt_conv_Cons flip: map_Suc_upt del: upt_Suc)
    have "dma_loop ctx wire req rem off = dma_loop ?ctx (wire @ [?H 0]) req (rem - c) (off + c)"
      using True c3 by (subst dma_loop.simps) (simp add: Let_def pcie_send_tlp_def dma_header_def flip: c_def)
    also have "\<dots> = (PCIE_SUCCESS, ?ctx\<lparr>next_tag := next_tag ?ctx + of_nat ?n, tlp_count := tlp_count ?ctx + of_nat ?n\<rparr>,
        (wire @ [?H 0]) @ map (?H \<circ> Suc) [0..<?n])"
      using less [of "rem - c" ?ctx "wire @ [?H 0]" "off + c"] pos hdr unfolding rest by simp
    finally show ?thesis
      unfolding l unfolding dma_packets_step [OF pos] by (simp add: add.assoc)
  qed
qed

text \<open>The requests the guards let through.\<close>

definition dma_accepted :: "PCIeDmaRequest \<Rightarrow> bool" where
  "dma_accepted req \<longleftrightarrow>
     0 < unat (dma_size req) \<and> unat (dma_size req) \<le> 2 ^ 30 \<and> dma_host_addr req \<noteq> 0 \<and>
     unat (dma_host_addr req) + unat (dma_size req) < 2 ^ 64 \<and>
     unat (dma_device_addr req) + unat (dma_size req) < 2 ^ 64"

lemma nat_mod_once: "m \<le> x \<Longrightarrow> x < 2 * m \<Longrightarrow> x mod m = x - (m :: nat)"
  by (simp add: le_mod_geq)

lemma word_overflow_iff: "(a :: u64) + b < a \<longleftrightarrow> \<not> unat a + unat b < 2 ^ 64"
proof -
  have ab: "unat (a + b) = (unat a + unat b) mod 2 ^ 64" by (simp add: unat_word_ariths)
  have a: "unat a < 2 ^ 64" and b: "unat b < 2 ^ 64" using unsigned_less [of a] unsigned_less [of b] by simp_all
  show ?thesis
  proof (cases "unat a + unat b < 2 ^ 64")
    case True
    then have "unat (a + b) = unat a + unat b" unfolding ab by (rule mod_less)
    with True show ?thesis unfolding word_less_nat_alt by linarith
  next
    case False
    have "unat (a + b) = unat a + unat b - 2 ^ 64"
      unfolding ab by (rule nat_mod_once) (use False a b in linarith)+
    with False b show ?thesis unfolding word_less_nat_alt by linarith
  qed
qed

lemma dma_transfer_closed:
  "pcie_dma_transfer ctx wire (Some d) (Some req) =
     (if dma_accepted req then
        let n = dma_packets (unat (dma_size req)) in
        (PCIE_SUCCESS, ctx\<lparr>next_tag := next_tag ctx + of_nat n, tlp_count := tlp_count ctx + of_nat n\<rparr>,
         wire @ map (dma_header req (next_tag ctx) (unat (dma_size req))) [0..<n],
         map_option (\<lambda>cb. (cb, dma_user_data req, PCIE_SUCCESS)) (dma_callback req))
      else (PCIE_ERR_INVALID_PARAM, ctx, wire, None))"
proof -
  have "dma_size req > 1 * 1024 * 1024 * 1024 \<longleftrightarrow> \<not> unat (dma_size req) \<le> 2 ^ 30"
    by (simp add: word_less_nat_alt not_le)
  moreover have "dma_size req = 0 \<longleftrightarrow> \<not> 0 < unat (dma_size req)" by (simp add: unat_eq_0)
  ultimately show ?thesis
    unfolding pcie_dma_transfer_def dma_accepted_def word_overflow_iff dma_loop_closed
    by (simp add: Let_def)
qed

lemma dma_chunks_sum: "(\<Sum>k < dma_packets n. min 256 (n - 256 * k)) = n"
proof (induction n rule: less_induct)
  case (less n)
  show ?case
  proof (cases "n = 0")
    case False
    then have "(\<Sum>k < dma_packets n. min 256 (n - 256 * k)) = min 256 n + (\<Sum>k < dma_packets (n - 256). min 256 (n - 256 - 256 * k))"
      by (simp add: dma_packets_step sum.lessThan_Suc_shift del: sum.lessThan_Suc)
    with less [of "n - 256"] False show ?thesis by simp
  qed simp
qed

lemma dma_packet_pos: "k < dma_packets n \<Longrightarrow> 256 * k < n"
  by (simp add: dma_packets_def)

lemma dma_header_fields:
  assumes "dma_accepted req" and "k < dma_packets (unat (dma_size req))"
  shows "unat (tlp_address (dma_header req tag (unat (dma_size req)) k)) = unat (dma_device_addr req) + 256 * k"
    and "unat (tlp_length (dma_header req tag (unat (dma_size req)) k)) = (min 256 (unat (dma_size req) - 256 * k) + 3) div 4"
proof -
  let ?a = "unat (dma_device_addr req)"
  have "?a + 256 * k < 2 ^ 64"
    using assms dma_packet_pos [OF assms(2)] by (simp add: dma_accepted_def)
  then show "unat (tlp_address (dma_header req tag (unat (dma_size req)) k)) = ?a + 256 * k"
    by (simp add: dma_header_def unat_word_ariths unat_of_nat mod_add_right_eq)
  have "(min 256 (unat (dma_size req) - 256 * k) + 3) div 4 \<le> (256 + 3) div 4"
    by (intro div_le_mono) simp
  then have "(min 256 (unat (dma_size req) - 256 * k) + 3) div 4 < 2 ^ 16" by simp
  then show "unat (tlp_length (dma_header req tag (unat (dma_size req)) k)) = (min 256 (unat (dma_size req) - 256 * k) + 3) div 4"
    by (simp add: dma_header_def unat_of_nat)
qed

section \<open>Shutdown\<close>

lemma unmap_all:
  "dev_in m d \<Longrightarrow> set js \<subseteq> {..<PCIE_BAR_COUNT} \<Longrightarrow>
   \<exists>d' m'. unmap_mapped m d js = Some (d', m') \<and> dev_in m' d' \<and>
     m' = m\<lparr>hp_mem := hp_mem m |` (- (bar_vbs d - bar_vbs d'))\<rparr> \<and> bar_vbs d' \<subseteq> bar_vbs d \<and>
     (\<forall>j. bar_vb d' j = (if j \<in> set js then None else bar_vb d j))"
proof (induction js arbitrary: m d)
  case Nil
  then show ?case by simp
next
  case (Cons j js)
  have j: "j < PCIE_BAR_COUNT" using Cons.prems(2) by simp
  have ok: "dev_ok m d" using Cons.prems(1) by (simp add: dev_in_def)
  show ?case
  proof (cases "is_mapped (dv_bars d ! j)")
    case False
    with ok j have "bar_vb d j = None" by (simp add: dev_ok_def bar_ok_def bar_vb_def)
    with Cons.IH [OF Cons.prems(1)] Cons.prems(2) False show ?thesis by auto
  next
    case True
    let ?e = "set_bar d j ((dv_bars d ! j)\<lparr>virtual_base := None, is_mapped := False\<rparr>)"
    let ?m = "m\<lparr>hp_mem := hp_mem m |` (- set_option (bar_vb d j))\<rparr>"
    from unmap_bar_step [OF Cons.prems(1) j] have call: "pcie_unmap_bar m (Some d) (int j) = Some (Some ?e, ?m)"
      and st: "maps_step m d ?m ?e" by auto
    have vbs: "bar_vbs ?e = bar_vbs d - set_option (bar_vb d j)" using bar_vbs_set_bar [OF ok j] by simp
    have vb: "bar_vb ?e k = (if k = j then None else bar_vb d k)" for k
      using bar_vb_set_bar [of d j] ok j by (simp add: dev_ok_def)
    have sub: "set_option (bar_vb d j) \<subseteq> bar_vbs d" by (auto simp: bar_vbs_def)
    have "dev_in ?m ?e" using st by (auto simp: maps_step_def dev_in_def)
    from Cons.IH [OF this] Cons.prems(2) obtain d' m' where
      r: "unmap_mapped ?m ?e js = Some (d', m')" "dev_in m' d'"
      and m': "m' = ?m\<lparr>hp_mem := hp_mem ?m |` (- (bar_vbs ?e - bar_vbs d'))\<rparr>" and s: "bar_vbs d' \<subseteq> bar_vbs ?e"
      and v: "\<forall>k. bar_vb d' k = (if k \<in> set js then None else bar_vb ?e k)"
      by auto
    have "- set_option (bar_vb d j) \<inter> - (bar_vbs ?e - bar_vbs d') = - (bar_vbs d - bar_vbs d')"
      unfolding vbs using sub s vbs by blast
    then have "m' = m\<lparr>hp_mem := hp_mem m |` (- (bar_vbs d - bar_vbs d'))\<rparr>" using m' by simp
    moreover have "unmap_mapped m d (j # js) = Some (d', m')" using True call r(1) by simp
    moreover have "bar_vbs d' \<subseteq> bar_vbs d" using s vbs by blast
    moreover have "\<forall>k. bar_vb d' k = (if k \<in> set (j # js) then None else bar_vb d k)" using v vb by simp
    ultimately show ?thesis using r(2) by blast
  qed
qed

lemma unmap_device:
  assumes "dev_in m d"
  shows "\<exists>d'. unmap_mapped m d [0..<PCIE_BAR_COUNT] = Some (d', m\<lparr>hp_mem := hp_mem m |` (- bar_vbs d)\<rparr>) \<and>
     dv_platform_data d' = None"
proof -
  from unmap_all [OF assms, of "[0..<PCIE_BAR_COUNT]"] obtain d' m' where
    r: "unmap_mapped m d [0..<PCIE_BAR_COUNT] = Some (d', m')" "dev_in m' d'"
      "m' = m\<lparr>hp_mem := hp_mem m |` (- (bar_vbs d - bar_vbs d'))\<rparr>"
    and v: "\<forall>j. bar_vb d' j = (if j \<in> set [0..<PCIE_BAR_COUNT] then None else bar_vb d j)"
    by (auto simp: atLeast0LessThan)
  have "bar_vb d' j = None" for j using v by (simp add: bar_vb_def)
  then have "bar_vbs d' = {}" by (simp add: bar_vbs_def)
  with r show ?thesis by (simp add: dev_in_def dev_ok_def)
qed

lemma free_devices_frees:
  "pcie_owned ctx h ps \<Longrightarrow> \<exists>h'. free_devices h (map Some ps) = Some h' \<and> pcie_heap_none h' \<and> h_usb4 h' = h_usb4 h"
proof (induction ps arbitrary: ctx h)
  case Nil
  then show ?case by (simp add: pcie_owned_def pcie_heap_none_def)
next
  case (Cons p ps)
  note own = Cons.prems
  have pin: "p \<in> set (p # ps)" and pout: "p \<notin> set ps" using own by (auto simp: pcie_owned_def)
  have "p \<in> dom (hp_mem (h_devices h))" using own pin by (simp add: pcie_owned_def)
  then obtain d where d: "hp_mem (h_devices h) p = Some d" by blast
  have din: "dev_in (h_maps h) d" by (rule owned_dev_in [OF own pin d])
  from unmap_device [OF din] obtain d' where
    u: "unmap_mapped (h_maps h) d [0..<PCIE_BAR_COUNT] = Some (d', (h_maps h)\<lparr>hp_mem := hp_mem (h_maps h) |` (- bar_vbs d)\<rparr>)"
    and pd: "dv_platform_data d' = None" by blast
  let ?h = "h\<lparr>h_devices := h_devices h\<lparr>hp_mem := (hp_mem (h_devices h))(p := None)\<rparr>,
      h_maps := h_maps h\<lparr>hp_mem := hp_mem (h_maps h) |` (- bar_vbs d)\<rparr>\<rparr>"
  have call: "free_devices h (map Some (p # ps)) = free_devices ?h (map Some ps)"
    using d u pd by (simp add: heap_get_def heap_put_def heap_free_def heap_free_opt_def)
  have vq: "dev_vbs ?h q = dev_vbs h q" if "q \<in> set ps" for q using that pout by (auto simp: dev_vbs_def)
  have vp: "dev_vbs h p = bar_vbs d" using d by (simp add: dev_vbs_def)
  have dis: "dev_vbs h q \<inter> bar_vbs d = {}" if "q \<in> set ps" for q
    using own that pout pin vp unfolding pcie_owned_def by (metis list.set_intros(2))
  have "dev_ok (h_maps ?h) e" if "q \<in> set ps" "hp_mem (h_devices ?h) q = Some e" for q e
  proof (rule dev_ok_frame)
    have e: "hp_mem (h_devices h) q = Some e" using that pout by (auto split: if_splits)
    show "dev_ok (h_maps h) e" using own that(1) e by (simp add: pcie_owned_def)
    have "bar_vbs e \<inter> bar_vbs d = {}" using dis [OF that(1)] e by (simp add: dev_vbs_def)
    then show "\<forall>v\<in>bar_vbs e. map_sizes (h_maps ?h) v = map_sizes (h_maps h) v"
      by (auto simp: map_sizes_def restrict_map_def)
  qed
  moreover have "heap_wf (h_devices ?h)" "heap_wf (h_maps ?h)"
    using own by (auto simp: pcie_owned_def heap_wf_def restrict_map_def split: if_splits)
  moreover have "dom (hp_mem (h_devices ?h)) = set ps" using own pout by (auto simp: pcie_owned_def)
  moreover have "dom (hp_mem (h_maps ?h)) = (\<Union>q \<in> set ps. dev_vbs ?h q)"
  proof -
    have "dom (hp_mem (h_maps h)) = bar_vbs d \<union> (\<Union>q \<in> set ps. dev_vbs h q)"
      using own vp by (simp add: pcie_owned_def)
    moreover have "(\<Union>q \<in> set ps. dev_vbs h q) \<inter> bar_vbs d = {}" using dis by blast
    moreover have "dom (hp_mem (h_maps ?h)) = dom (hp_mem (h_maps h)) - bar_vbs d" by auto
    moreover have "(\<Union>q \<in> set ps. dev_vbs ?h q) = (\<Union>q \<in> set ps. dev_vbs h q)" using vq by simp
    ultimately show ?thesis by (metis Diff_triv Un_Diff Diff_cancel Un_empty_left)
  qed
  moreover have "\<forall>q \<in> set (p # ps). \<forall>r \<in> set (p # ps). q \<noteq> r \<longrightarrow> dev_vbs h q \<inter> dev_vbs h r = {}"
    using own unfolding pcie_owned_def by blast
  then have "\<forall>q \<in> set ps. \<forall>r \<in> set ps. q \<noteq> r \<longrightarrow> dev_vbs ?h q \<inter> dev_vbs ?h r = {}"
    using vq by (metis list.set_intros(2))
  ultimately have "pcie_owned (ctx\<lparr>devices := map Some ps\<rparr>) ?h ps"
    using own by (simp add: pcie_owned_def)
  from Cons.IH [OF this] call show ?case by simp
qed

lemma preach_owned: "pcie_reach ctx h \<Longrightarrow> usb4_ok ctx h \<and> (\<exists>ps. pcie_owned ctx h ps)"
proof (induction rule: pcie_reach.induct)
  case (preach_init h u ctx0 ctx)
  then have "pcie_owned ctx h []"
    by (auto simp: pcie_owned_def pcie_heap_none_def pcie_tunnel_init_def pcie_ctx_zero_def heap_wf_def)
  then show ?case using preach_init by (auto simp: usb4_ok_def pcie_tunnel_init_def)
next
  case (preach_scan ctx h n ctx' h')
  then obtain ps u where own: "pcie_owned ctx h ps" and u: "get_usb4 ctx h = Some u" by (auto elim: owned_usb4)
  from scan_cases [OF own u] preach_scan(2) obtain ps' where
    "pcie_owned ctx' h' ps'" "usb4_ctx ctx' = usb4_ctx ctx" "h_usb4 h' = h_usb4 h"
    by (auto split: if_splits)
  then show ?case using preach_scan usb4_ok_cong by blast
next
  case (preach_device ctx h p d m' d' hv)
  then show ?case
    using owned_dev_step [of ctx h _ p d m' d'] by (auto simp: heap_simps usb4_ok_def)
next
  case (preach_dma ctx h wire device request ret ctx' wire' cb)
  then have "devices ctx' = devices ctx \<and> usb4_ctx ctx' = usb4_ctx ctx"
    using dma_transfer_closed [of ctx wire "the device" "the request"]
    by (cases device; cases request) (auto simp: pcie_dma_transfer_def Let_def split: if_splits)
  then show ?case using preach_dma owned_ctx_cong usb4_ok_cong by blast
next
  case (preach_usb4 ctx h hu)
  then obtain u where "usb4_ctx ctx = Some u" "u \<in> dom (hp_mem (h_usb4 h))" by (auto simp: usb4_ok_def)
  with preach_usb4(2) have "usb4_ok ctx (h\<lparr>h_usb4 := hu\<rparr>)" by (simp add: usb4_ok_def subset_iff)
  moreover have "pcie_owned ctx (h\<lparr>h_usb4 := hu\<rparr>) ps" if "pcie_owned ctx h ps" for ps
    using that by (simp add: pcie_owned_def dev_vbs_def)
  ultimately show ?case using preach_usb4 by blast
qed

section \<open>MMIO\<close>

text \<open>An access of \<open>n\<close> bytes the guards let through; the bound is the code's, with its wrap-around.\<close>

definition mmio_hit :: "PCIeDevice \<Rightarrow> int \<Rightarrow> u64 \<Rightarrow> nat \<Rightarrow> bool" where
  "mmio_hit d i off n \<longleftrightarrow> bar_index_ok i \<and> is_mapped (dv_bars d ! nat i) \<and>
     off AND (of_nat n - 1) = 0 \<and> off + of_nat n \<le> bar_size (dv_bars d ! nat i)"

lemma top_offset:
  assumes "0 < n" and "n < 2 ^ 64" and "off + of_nat n \<le> (sz :: u64)" and "unat off + n < 2 ^ 64"
  shows "unat off + n \<le> unat sz"
proof -
  have "unat (off + of_nat n) = unat off + n"
    using assms(2,4) by (simp add: unat_word_ariths unat_of_nat)
  with assms(3) show ?thesis by (simp add: word_le_nat_alt)
qed

lemma and_low_mod: "unat ((off :: u64) AND mask k) = unat off mod 2 ^ k"
  unfolding take_bit_eq_mask [symmetric] unsigned_take_bit_eq by (simp add: take_bit_eq_mod)

lemma aligned_dvd: "(off :: u64) AND mask k = 0 \<longleftrightarrow> 2 ^ k dvd unat off"
  using and_low_mod [of off k] by (metis dvd_eq_mod_eq_0 unat_eq_0)

text \<open>The only aligned offset whose end wraps is the last one.\<close>

lemma aligned_top:
  assumes al: "(off :: u64) AND mask k = 0" and k: "k < 64" and wrap: "\<not> unat off + 2 ^ k < 2 ^ 64"
  shows "off = - (2 ^ k)"
proof -
  define M :: nat where "M = 2 ^ 64"
  obtain q where q: "unat off = 2 ^ k * q" using al by (auto simp: aligned_dvd)
  define i where "i = 64 - k"
  have j: "64 = k + i" using k by (simp add: i_def)
  have pw: "M = 2 ^ k * 2 ^ i" unfolding M_def j by (rule power_add)
  have lt: "unat off < M" using unsigned_less [of off] by (simp add: M_def)
  have ge: "M \<le> unat off + 2 ^ k" using wrap by (simp add: M_def)
  have "2 ^ k * q < (2::nat) ^ k * 2 ^ i" using lt unfolding q pw .
  then have "q < 2 ^ i" by simp
  moreover have "2 ^ k * 2 ^ i \<le> (2::nat) ^ k * (q + 1)" using ge unfolding q pw by (simp add: algebra_simps)
  then have "2 ^ i \<le> q + 1" unfolding mult_le_cancel1 by simp
  ultimately have "q + 1 = 2 ^ i" by linarith
  then have "unat off + 2 ^ k = M" unfolding q pw by (metis distrib_left mult.right_neutral)
  then have "(of_nat (unat off + 2 ^ k) :: u64) = of_nat (2 ^ LENGTH(64))" by (simp add: M_def)
  also have "\<dots> = 0" by (rule of_nat_2p)
  finally have "off + 2 ^ k = 0" by simp
  then show ?thesis by (simp add: eq_neg_iff_add_eq_0)
qed

lemma mmio_hit_in:
  assumes "mmio_hit d i off n" and "dev_in m d"
  obtains v b where "virtual_base (dv_bars d ! nat i) = Some v" and "hp_mem m v = Some b"
    and "b_size b = unat (bar_size (dv_bars d ! nat i))" and "bar_vb d (nat i) = Some v"
proof -
  have i: "nat i < PCIE_BAR_COUNT" using assms(1) index_ok by (simp add: mmio_hit_def)
  with assms have "bar_ok m (dv_bars d ! nat i)" by (simp add: dev_in_def dev_ok_def)
  with assms(1) i that show thesis by (auto simp: bar_ok_def mmio_hit_def map_sizes_def bar_vb_def)
qed

text \<open>An accepted access is inside the mapping, unless its offset is the last aligned one.\<close>

lemma mmio_hit_bounds:
  assumes "mmio_hit d i off (2 ^ k)" and k': "k = 2 \<or> k = 3"
  shows "if off = - (2 ^ k) then unat off + 2 ^ k = 2 ^ 64
         else unat off + 2 ^ k \<le> unat (bar_size (dv_bars d ! nat i))"
proof (cases "off = - (2 ^ k)")
  case True
  then show ?thesis using k' by auto
next
  case False
  have k: "k < 64" using k' by auto
  have m: "of_nat (2 ^ k) - 1 = (mask k :: u64)" by (simp add: mask_eq_exp_minus_1)
  have "off AND mask k = 0" using assms(1) unfolding mmio_hit_def m by simp
  with aligned_top [OF this k] False have "unat off + 2 ^ k < 2 ^ 64" by blast
  moreover have "(2::nat) ^ k < 2 ^ 64" using k by (intro power_strict_increasing) auto
  ultimately show ?thesis
    using False top_offset [of "2 ^ k" off] assms(1) by (simp add: mmio_hit_def)
qed

lemma dev_in_miss: "dev_in m d \<Longrightarrow> bar_index_ok i \<Longrightarrow>
    is_mapped (dv_bars d ! nat i) \<longleftrightarrow> virtual_base (dv_bars d ! nat i) \<noteq> None"
  using index_ok by (auto simp: dev_in_def dev_ok_def bar_ok_def)

lemma mmio_read32_cases:
  assumes "dev_in m d"
  shows "pcie_mmio_read32 m (Some d) i off =
    (if mmio_hit d i off 4
     then do { v \<leftarrow> virtual_base (dv_bars d ! nat i); b \<leftarrow> hp_mem m v; bs \<leftarrow> buf_rd b (unat off) 4; Some (le_word bs) }
     else Some 0xFFFFFFFF)"
  using dev_in_miss [OF assms, of i]
  by (auto simp: pcie_mmio_read32_def mmio_hit_def Let_def heap_get_def not_le not_less split: option.splits)

lemma mmio_write32_cases:
  assumes "dev_in m d"
  shows "pcie_mmio_write32 m (Some d) i off w =
    (if mmio_hit d i off 4
     then do { v \<leftarrow> virtual_base (dv_bars d ! nat i); b \<leftarrow> hp_mem m v; b \<leftarrow> buf_wr b (unat off) (le_bytes 4 w);
               heap_put m v b }
     else Some m)"
  using dev_in_miss [OF assms, of i]
  by (auto simp: pcie_mmio_write32_def mmio_hit_def Let_def heap_get_def not_le not_less split: option.splits)

lemma mmio_read64_cases:
  assumes "dev_in m d"
  shows "pcie_mmio_read64 m (Some d) i off =
    (if mmio_hit d i off 8
     then do { v \<leftarrow> virtual_base (dv_bars d ! nat i); b \<leftarrow> hp_mem m v; bs \<leftarrow> buf_rd b (unat off) 8; Some (le_word bs) }
     else Some 0xFFFFFFFFFFFFFFFF)"
  using dev_in_miss [OF assms, of i]
  by (auto simp: pcie_mmio_read64_def mmio_hit_def Let_def heap_get_def not_le not_less split: option.splits)

lemma mmio_write64_cases:
  assumes "dev_in m d"
  shows "pcie_mmio_write64 m (Some d) i off w =
    (if mmio_hit d i off 8
     then do { v \<leftarrow> virtual_base (dv_bars d ! nat i); b \<leftarrow> hp_mem m v; b \<leftarrow> buf_wr b (unat off) (le_bytes 8 w);
               heap_put m v b }
     else Some m)"
  using dev_in_miss [OF assms, of i]
  by (auto simp: pcie_mmio_write64_def mmio_hit_def Let_def heap_get_def not_le not_less split: option.splits)

text \<open>Undefined behaviour: exactly the accepted accesses at the last aligned offset.\<close>

lemma mmio_access_defined:
  assumes hit: "mmio_hit d i off (2 ^ k)" and k: "k = 2 \<or> k = 3"
    and sz: "b_size b = unat (bar_size (dv_bars d ! nat i))"
  shows "buf_rd b (unat off) (2 ^ k) = None \<longleftrightarrow> off = - (2 ^ k)"
    and "length bs = 2 ^ k \<Longrightarrow> buf_wr b (unat off) bs = None \<longleftrightarrow> off = - (2 ^ k)"
proof -
  have "unat (bar_size (dv_bars d ! nat i)) < 2 ^ 64" using unsigned_less [of "bar_size (dv_bars d ! nat i)"] by simp
  then have "unat off + 2 ^ k \<le> b_size b \<longleftrightarrow> off \<noteq> - (2 ^ k)"
    using mmio_hit_bounds [OF hit k] unfolding sz by (auto split: if_splits)
  then show "buf_rd b (unat off) (2 ^ k) = None \<longleftrightarrow> off = - (2 ^ k)"
    "length bs = 2 ^ k \<Longrightarrow> buf_wr b (unat off) bs = None \<longleftrightarrow> off = - (2 ^ k)"
    using bs.rd_defined [of b "unat off" "2 ^ k"] bs.wr_defined [of b "unat off" bs] by auto
qed

lemma mmio_defined:
  assumes din: "dev_in m d"
  shows "pcie_mmio_read32 m (Some d) i off = None \<longleftrightarrow> mmio_hit d i off 4 \<and> off = - 4"
    and "pcie_mmio_write32 m (Some d) i off w = None \<longleftrightarrow> mmio_hit d i off 4 \<and> off = - 4"
    and "pcie_mmio_read64 m (Some d) i off = None \<longleftrightarrow> mmio_hit d i off 8 \<and> off = - 8"
    and "pcie_mmio_write64 m (Some d) i off x = None \<longleftrightarrow> mmio_hit d i off 8 \<and> off = - 8"
proof -
  have "(pcie_mmio_read32 m (Some d) i off = None \<longleftrightarrow> mmio_hit d i off 4 \<and> off = - 4) \<and>
    (pcie_mmio_write32 m (Some d) i off w = None \<longleftrightarrow> mmio_hit d i off 4 \<and> off = - 4)"
  proof (cases "mmio_hit d i off 4")
    case True
    then obtain v b where vb: "virtual_base (dv_bars d ! nat i) = Some v" "hp_mem m v = Some b"
      and sz: "b_size b = unat (bar_size (dv_bars d ! nat i))" by (rule mmio_hit_in [OF _ din])
    have "buf_rd b (unat off) 4 = None \<longleftrightarrow> off = - 4" "buf_wr b (unat off) (le_bytes 4 w) = None \<longleftrightarrow> off = - 4"
      using mmio_access_defined(1) [of d i off 2 b] mmio_access_defined(2) [of d i off 2 b "le_bytes 4 w"] True sz by simp_all
    with True vb show ?thesis
      by (cases "buf_rd b (unat off) 4"; cases "buf_wr b (unat off) (le_bytes 4 w)")
        (simp_all add: mmio_read32_cases [OF din] mmio_write32_cases [OF din] heap_put_def)
  qed (simp add: mmio_read32_cases [OF din] mmio_write32_cases [OF din])
  moreover have "(pcie_mmio_read64 m (Some d) i off = None \<longleftrightarrow> mmio_hit d i off 8 \<and> off = - 8) \<and>
    (pcie_mmio_write64 m (Some d) i off x = None \<longleftrightarrow> mmio_hit d i off 8 \<and> off = - 8)"
  proof (cases "mmio_hit d i off 8")
    case True
    then obtain v b where vb: "virtual_base (dv_bars d ! nat i) = Some v" "hp_mem m v = Some b"
      and sz: "b_size b = unat (bar_size (dv_bars d ! nat i))" by (rule mmio_hit_in [OF _ din])
    have "buf_rd b (unat off) 8 = None \<longleftrightarrow> off = - 8" "buf_wr b (unat off) (le_bytes 8 x) = None \<longleftrightarrow> off = - 8"
      using mmio_access_defined(1) [of d i off 3 b] mmio_access_defined(2) [of d i off 3 b "le_bytes 8 x"] True sz by simp_all
    with True vb show ?thesis
      by (cases "buf_rd b (unat off) 8"; cases "buf_wr b (unat off) (le_bytes 8 x)")
        (simp_all add: mmio_read64_cases [OF din] mmio_write64_cases [OF din] heap_put_def)
  qed (simp add: mmio_read64_cases [OF din] mmio_write64_cases [OF din])
  ultimately show "pcie_mmio_read32 m (Some d) i off = None \<longleftrightarrow> mmio_hit d i off 4 \<and> off = - 4"
    "pcie_mmio_write32 m (Some d) i off w = None \<longleftrightarrow> mmio_hit d i off 4 \<and> off = - 4"
    "pcie_mmio_read64 m (Some d) i off = None \<longleftrightarrow> mmio_hit d i off 8 \<and> off = - 8"
    "pcie_mmio_write64 m (Some d) i off x = None \<longleftrightarrow> mmio_hit d i off 8 \<and> off = - 8"
    by simp_all
qed

lemma reach_dev_in:
  assumes "pcie_reach ctx h" and "Some p \<in> set (devices ctx)" and "heap_get (h_devices h) p = Some d"
  shows "dev_in (h_maps h) d"
proof -
  from preach_owned [OF assms(1)] obtain ps where own: "pcie_owned ctx h ps" by blast
  with assms(2) have "p \<in> set ps" by (auto simp: pcie_owned_def)
  from owned_dev_in [OF own this] assms(3) show ?thesis by (simp add: heap_get_def)
qed

text \<open>A write is seen by the reads of its word and by no other.\<close>

lemma dvd_gap: "(k :: nat) dvd a \<Longrightarrow> k dvd b \<Longrightarrow> a < b \<Longrightarrow> a + k \<le> b"
  by (metis add.commute dvd_diff_nat dvd_imp_le le_diff_conv2 less_imp_le zero_less_diff)

lemma mmio_write_read32:
  assumes din: "dev_in m d" and hit: "mmio_hit d i off 4" and top: "off \<noteq> - 4"
  shows "\<exists>m'. pcie_mmio_write32 m (Some d) i off w = Some m' \<and>
    pcie_mmio_read32 m' (Some d) i off = Some w \<and>
    (\<forall>j off'. (j, off') \<noteq> (i, off) \<longrightarrow> pcie_mmio_read32 m' (Some d) j off' = pcie_mmio_read32 m (Some d) j off')"
proof -
  obtain v b where vb: "virtual_base (dv_bars d ! nat i) = Some v" "hp_mem m v = Some b"
    and sz: "b_size b = unat (bar_size (dv_bars d ! nat i))" and vi: "bar_vb d (nat i) = Some v"
    by (rule mmio_hit_in [OF hit din])
  have "unat off + 4 \<le> b_size b" using mmio_hit_bounds [of d i off 2] hit top sz by simp
  then obtain b' where wr: "buf_wr b (unat off) (le_bytes 4 w) = Some b'"
    using bs.wr_total [of "unat off" "le_bytes 4 w" b] by auto
  let ?m = "m\<lparr>hp_mem := (hp_mem m)(v \<mapsto> b')\<rparr>"
  have call: "pcie_mmio_write32 m (Some d) i off w = Some ?m"
    using hit vb wr by (simp add: mmio_write32_cases [OF din] heap_put_def)
  then have keep: "map_sizes ?m = map_sizes m" "heap_wf ?m"
    using mmio_write32_keeps din by (auto simp: dev_in_def)
  have din': "dev_in ?m d"
    using din keep dom_map_sizes [OF keep(1)] dev_ok_frame [of m d ?m] by (simp add: dev_in_def)
  have "pcie_mmio_read32 ?m (Some d) i off = Some w"
    using hit vb bs.le_round_trip [OF wr, where 'b = 32]
    by (auto simp: mmio_read32_cases [OF din'] take_bit_word_eq_self)
  moreover have "pcie_mmio_read32 ?m (Some d) j off' = pcie_mmio_read32 m (Some d) j off'"
    if ne: "(j, off') \<noteq> (i, off)" for j off'
  proof (cases "mmio_hit d j off' 4")
    case True
    then obtain u c where uc: "virtual_base (dv_bars d ! nat j) = Some u" "hp_mem m u = Some c"
      and vj: "bar_vb d (nat j) = Some u" by (rule mmio_hit_in [OF _ din])
    show ?thesis
    proof (cases "u = v")
      case False
      with True uc show ?thesis by (simp add: mmio_read32_cases [OF din] mmio_read32_cases [OF din'])
    next
      case same: True
      have "nat i = nat j" using vi vj same din unfolding dev_in_def dev_ok_def by blast
      moreover have "0 \<le> i" "0 \<le> j" using hit True by (simp_all add: mmio_hit_def bar_index_ok_def)
      ultimately have "off' \<noteq> off" using ne by simp
      moreover have "4 dvd unat off" "4 dvd unat off'"
        using hit True aligned_dvd [of _ 2] by (simp_all add: mmio_hit_def mask_eq_exp_minus_1)
      ultimately have "unat off' + 4 \<le> unat off \<or> unat off + 4 \<le> unat off'"
        using dvd_gap by (metis linorder_neqE_nat unsigned_word_eqI)
      then have "buf_rd b' (unat off') 4 = buf_rd b (unat off') 4" using bs.rd_wr_other [OF wr] by simp
      with True uc vb same show ?thesis
        by (simp add: mmio_read32_cases [OF din] mmio_read32_cases [OF din'])
    qed
  qed (simp add: mmio_read32_cases [OF din] mmio_read32_cases [OF din'])
  ultimately show ?thesis using call by blast
qed

section \<open>The properties of the PCIe layer\<close>

text \<open>A concrete run for the witnesses: a scan that finds the GPU, and its BAR 0 mapped.\<close>

definition pcie_heap0 :: pcie_heap where
  "pcie_heap0 = \<lparr>h_devices = heap_empty (\<lambda>_. False), h_maps = heap_empty (\<lambda>_. False),
     h_platform = heap_empty (\<lambda>_. False),
     h_usb4 = (heap_empty (\<lambda>_. False))\<lparr>hp_mem := [0 \<mapsto> usb4_ctx2], hp_next := 1\<rparr>\<rparr>"

definition pcie_ctx1 :: PCIeTunnelContext where
  "pcie_ctx1 = pcie_ctx_zero\<lparr>usb4_ctx := Some 0, devices := [Some 0], next_tag := 32\<rparr>"

definition gpu1 :: PCIeDevice where
  "gpu1 = gpu_device [Some 0]"

definition gpu1_mapped :: PCIeDevice where
  "gpu1_mapped = set_bar gpu1 0 ((dv_bars gpu1 ! 0)\<lparr>virtual_base := Some 0, is_mapped := True\<rparr>)"

definition pcie_heap1 :: pcie_heap where
  "pcie_heap1 = pcie_heap0\<lparr>h_devices := (heap_empty (\<lambda>_. False))\<lparr>hp_mem := [0 \<mapsto> gpu1], hp_next := 1\<rparr>\<rparr>"

definition pcie_heap2 :: pcie_heap where
  "pcie_heap2 = pcie_heap1\<lparr>h_devices := (heap_empty (\<lambda>_. False))\<lparr>hp_mem := [0 \<mapsto> gpu1_mapped], hp_next := 1\<rparr>,
     h_maps := (heap_empty (\<lambda>_. False))\<lparr>hp_mem := [0 \<mapsto> buf_new 16777216], hp_next := 1\<rparr>\<rparr>"

lemma gpu1_bar0: "dv_bars gpu1 ! 0 = bar_zero\<lparr>bar_size := 16777216, physical_base := 0x80000000\<rparr>"
  by (simp add: gpu1_def gpu_device_def probed_bars probe_bar_def bar_sizes_def pcie_consts bar_zero_def)

lemma pcie_reach0: "pcie_reach (pcie_ctx_zero\<lparr>usb4_ctx := Some 0\<rparr>) pcie_heap0"
  by (rule preach_init [of _ 0 pcie_ctx_zero])
    (simp_all add: pcie_heap_none_def pcie_heap0_def heap_empty_def pcie_tunnel_init_def pcie_ctx_zero_def)

lemma pcie_reach1: "pcie_reach pcie_ctx1 pcie_heap1"
proof (rule preach_scan [OF pcie_reach0])
  have u: "get_usb4 (pcie_ctx_zero\<lparr>usb4_ctx := Some 0\<rparr>) pcie_heap0 = Some (Some usb4_ctx2)"
    by (simp add: get_usb4_def pcie_heap0_def heap_get_def)
  have "pcie_probe_device (pcie_ctx_zero\<lparr>usb4_ctx := Some 0\<rparr>) pcie_heap0 0 0 0 =
    Some (PCIE_SUCCESS, pcie_ctx_zero\<lparr>usb4_ctx := Some 0, devices := [Some 0], next_tag := 1\<rparr>, pcie_heap1)"
    unfolding probe_first [OF u] by (simp add: usb4_tunnels_def usb4_ctx2_def pcie_heap0_def heap_empty_def pcie_heap1_def
        Let_def gpu1_def pcie_ctx_zero_def)
  from scan_closed [OF u this]
  show "pcie_scan_bus (pcie_ctx_zero\<lparr>usb4_ctx := Some 0\<rparr>) pcie_heap0 = Some (1, pcie_ctx1, pcie_heap1)"
    by (simp add: pcie_ctx1_def)
qed

lemma pcie_reach2: "pcie_reach pcie_ctx1 pcie_heap2"
proof -
  have "pcie_map_bar (h_maps pcie_heap1) (Some gpu1) 0 = (PCIE_SUCCESS, Some gpu1_mapped, h_maps pcie_heap2)"
    by (simp add: pcie_map_bar_def bar_index_ok_def pcie_consts gpu1_bar0 bar_zero_def Let_def pcie_heap1_def
        pcie_heap0_def heap_alloc_def heap_empty_def gpu1_mapped_def pcie_heap2_def)
  then have "dev_step (h_maps pcie_heap1) gpu1 (h_maps pcie_heap2) gpu1_mapped" by (rule step_map)
  from preach_device [OF pcie_reach1 _ _ this, of 0 "h_devices pcie_heap2"]
  show ?thesis by (simp add: pcie_ctx1_def pcie_heap1_def pcie_heap2_def heap_get_def heap_put_def heap_empty_def)
qed

lemma gpu1_hit: "mmio_hit gpu1_mapped 0 16 4"
  by (simp add: mmio_hit_def bar_index_ok_def pcie_consts gpu1_mapped_def)
    (simp add: gpu1_def gpu_device_def probed_bars probe_bar_def bar_sizes_def pcie_consts bar_zero_def)

lemma pcie_shutdown_clean:
  assumes "pcie_reach ctx h"
  shows "\<exists>h'. pcie_tunnel_shutdown ctx h = Some (pcie_ctx_zero, h') \<and> pcie_heap_none h' \<and> h_usb4 h' = h_usb4 h"
proof -
  from preach_owned [OF assms] obtain ps where own: "pcie_owned ctx h ps" by blast
  with free_devices_frees [OF own] show ?thesis by (auto simp: pcie_tunnel_shutdown_def pcie_owned_def)
qed

text \<open>
  Shutting down from any reachable state terminates without touching freed memory, releases
  every device and every BAR mapping, and clears the context.
\<close>

theorem pcie_shutdown_no_leak:
  assumes "pcie_reach ctx h"
  shows "\<exists>h'. pcie_tunnel_shutdown ctx h = Some (pcie_ctx_zero, h') \<and> pcie_heap_none h' \<and> h_usb4 h' = h_usb4 h"
  by (rule pcie_shutdown_clean [OF assms])

theorem pcie_shutdown_no_leak_witness:
  "\<exists>h'. pcie_tunnel_shutdown pcie_ctx1 pcie_heap2 = Some (pcie_ctx_zero, h') \<and> pcie_heap_none h' \<and>
     h_usb4 h' = h_usb4 pcie_heap2"
  by (rule pcie_shutdown_no_leak [OF pcie_reach2])

text \<open>
  C40. The MMIO operations on a device of a reachable state are memory safe at every BAR index and
  every offset but one: the bound check of the code wraps around, so an access at the last aligned
  offset of the 64 bit space (2^64 - 4, 2^64 - 8) passes it and leaves the mapping.
\<close>

theorem pcie_mmio_safe_but_top:
  assumes "pcie_reach ctx h" and "Some p \<in> set (devices ctx)" and "heap_get (h_devices h) p = Some d"
  shows "(pcie_mmio_read32 (h_maps h) (Some d) i off = None \<longleftrightarrow> mmio_hit d i off 4 \<and> off = - 4) \<and>
    (pcie_mmio_write32 (h_maps h) (Some d) i off w = None \<longleftrightarrow> mmio_hit d i off 4 \<and> off = - 4) \<and>
    (pcie_mmio_read64 (h_maps h) (Some d) i off = None \<longleftrightarrow> mmio_hit d i off 8 \<and> off = - 8) \<and>
    (pcie_mmio_write64 (h_maps h) (Some d) i off x = None \<longleftrightarrow> mmio_hit d i off 8 \<and> off = - 8)"
  by (intro conjI mmio_defined [OF reach_dev_in [OF assms]])

theorem pcie_mmio_safe_but_top_witness:
  "(pcie_mmio_read32 (h_maps pcie_heap2) (Some gpu1_mapped) 0 16 = None \<longleftrightarrow> mmio_hit gpu1_mapped 0 16 4 \<and> (16 :: u64) = - 4) \<and>
    (pcie_mmio_write32 (h_maps pcie_heap2) (Some gpu1_mapped) 0 16 1 = None \<longleftrightarrow> mmio_hit gpu1_mapped 0 16 4 \<and> (16 :: u64) = - 4) \<and>
    (pcie_mmio_read64 (h_maps pcie_heap2) (Some gpu1_mapped) 0 16 = None \<longleftrightarrow> mmio_hit gpu1_mapped 0 16 8 \<and> (16 :: u64) = - 8) \<and>
    (pcie_mmio_write64 (h_maps pcie_heap2) (Some gpu1_mapped) 0 16 2 = None \<longleftrightarrow> mmio_hit gpu1_mapped 0 16 8 \<and> (16 :: u64) = - 8)"
  by (rule pcie_mmio_safe_but_top [OF pcie_reach2])
    (simp_all add: pcie_ctx1_def pcie_heap2_def heap_get_def)

text \<open>
  A 32 bit MMIO write that the guards accept is read back by a read of the same BAR and offset,
  and no read of any other offset or BAR of the device changes.
\<close>

theorem pcie_mmio_roundtrip:
  assumes "pcie_reach ctx h" and "Some p \<in> set (devices ctx)" and "heap_get (h_devices h) p = Some d"
    and "mmio_hit d i off 4" and "off \<noteq> - 4"
  shows "\<exists>m'. pcie_mmio_write32 (h_maps h) (Some d) i off w = Some m' \<and>
    pcie_mmio_read32 m' (Some d) i off = Some w \<and>
    (\<forall>j off'. (j, off') \<noteq> (i, off) \<longrightarrow>
       pcie_mmio_read32 m' (Some d) j off' = pcie_mmio_read32 (h_maps h) (Some d) j off')"
  by (rule mmio_write_read32 [OF reach_dev_in [OF assms(1-3)] assms(4,5)])

theorem pcie_mmio_roundtrip_witness:
  "\<exists>m'. pcie_mmio_write32 (h_maps pcie_heap2) (Some gpu1_mapped) 0 16 0xCAFE = Some m' \<and>
    pcie_mmio_read32 m' (Some gpu1_mapped) 0 16 = Some 0xCAFE \<and>
    (\<forall>j off'. (j, off') \<noteq> (0, 16) \<longrightarrow>
       pcie_mmio_read32 m' (Some gpu1_mapped) j off' = pcie_mmio_read32 (h_maps pcie_heap2) (Some gpu1_mapped) j off')"
  by (rule pcie_mmio_roundtrip [OF pcie_reach2 _ _ gpu1_hit, of 0])
    (simp_all add: pcie_ctx1_def pcie_heap2_def heap_get_def)

text \<open>
  C34. A DMA request that passes the guards terminates with success. The packets it sends cover the
  transfer: consecutive addresses without wrap-around from the device address, at most 256 bytes
  each, adding up to the size, with consecutive tags; the callback, if any, is called once. A request
  the guards reject changes nothing.
\<close>

theorem pcie_dma_covers:
  "if dma_accepted req then
     \<exists>ctx' pkts. pcie_dma_transfer ctx wire (Some d) (Some req) =
         (PCIE_SUCCESS, ctx', wire @ pkts, map_option (\<lambda>cb. (cb, dma_user_data req, PCIE_SUCCESS)) (dma_callback req)) \<and>
       tlp_count ctx' = tlp_count ctx + of_nat (length pkts) \<and>
       (\<Sum>k < length pkts. min 256 (unat (dma_size req) - 256 * k)) = unat (dma_size req) \<and>
       (\<forall>k < length pkts. unat (tlp_address (pkts ! k)) = unat (dma_device_addr req) + 256 * k \<and>
          unat (tlp_length (pkts ! k)) = (min 256 (unat (dma_size req) - 256 * k) + 3) div 4 \<and>
          tlp_tag (pkts ! k) = next_tag ctx + of_nat k)
   else pcie_dma_transfer ctx wire (Some d) (Some req) = (PCIE_ERR_INVALID_PARAM, ctx, wire, None)"
proof (cases "dma_accepted req")
  case True
  let ?pkts = "map (dma_header req (next_tag ctx) (unat (dma_size req))) [0..<dma_packets (unat (dma_size req))]"
  have "\<forall>k < length ?pkts. unat (tlp_address (?pkts ! k)) = unat (dma_device_addr req) + 256 * k \<and>
      unat (tlp_length (?pkts ! k)) = (min 256 (unat (dma_size req) - 256 * k) + 3) div 4 \<and>
      tlp_tag (?pkts ! k) = next_tag ctx + of_nat k"
    using dma_header_fields [OF True] by (auto simp: dma_header_def)
  with True show ?thesis by (auto simp: dma_transfer_closed Let_def dma_chunks_sum intro!: exI [of _ ?pkts])
qed (simp add: dma_transfer_closed)

theorem pcie_dma_covers_witness:
  "let req = \<lparr>dma_host_addr = 4096, dma_device_addr = 0, dma_size = 600, dma_is_write = True,
       dma_callback = None, dma_user_data = None\<rparr> in
   if dma_accepted req then
     \<exists>ctx' pkts. pcie_dma_transfer pcie_ctx1 [] (Some gpu1) (Some req) =
         (PCIE_SUCCESS, ctx', [] @ pkts, map_option (\<lambda>cb. (cb, dma_user_data req, PCIE_SUCCESS)) (dma_callback req)) \<and>
       tlp_count ctx' = tlp_count pcie_ctx1 + of_nat (length pkts) \<and>
       (\<Sum>k < length pkts. min 256 (unat (dma_size req) - 256 * k)) = unat (dma_size req) \<and>
       (\<forall>k < length pkts. unat (tlp_address (pkts ! k)) = unat (dma_device_addr req) + 256 * k \<and>
          unat (tlp_length (pkts ! k)) = (min 256 (unat (dma_size req) - 256 * k) + 3) div 4 \<and>
          tlp_tag (pkts ! k) = next_tag pcie_ctx1 + of_nat k)
   else pcie_dma_transfer pcie_ctx1 [] (Some gpu1) (Some req) = (PCIE_ERR_INVALID_PARAM, pcie_ctx1, [], None)"
  unfolding Let_def by (rule pcie_dma_covers)

text \<open>
  A bus scan from any reachable state returns, uses 32 tags and finds at most one device: one
  exactly when the USB4 controller has a tunnel, the array has room and the allocation succeeds, and
  then \<open>pcie_find_nvidia_gpu\<close> finds a GPU. Otherwise the devices are as before.
\<close>

theorem pcie_scan_finds_gpu:
  assumes "pcie_reach ctx h"
  shows "\<exists>u n ctx' h'. get_usb4 ctx h = Some u \<and> pcie_scan_bus ctx h = Some (n, ctx', h') \<and>
    next_tag ctx' = next_tag ctx + 32 \<and>
    (if usb4_tunnels u \<noteq> [] \<and> length (devices ctx) < 32 \<and> \<not> hp_oom (h_devices h) (hp_next (h_devices h))
     then n = 1 \<and> length (devices ctx') = Suc (length (devices ctx)) \<and>
       (\<exists>p. pcie_find_nvidia_gpu h' (devices ctx') = Some (Some p))
     else n = 0 \<and> devices ctx' = devices ctx \<and> hp_mem (h_devices h') = hp_mem (h_devices h))"
proof -
  from preach_owned [OF assms] obtain ps u where own: "pcie_owned ctx h ps" and u: "get_usb4 ctx h = Some u"
    by (auto elim: owned_usb4)
  let ?n = "hp_next (h_devices h)"
  from scan_cases [OF own u] obtain n ctx' h' where sc: "pcie_scan_bus ctx h = Some (n, ctx', h')"
    "next_tag ctx' = next_tag ctx + 32"
    and c: "if usb4_tunnels u \<noteq> [] \<and> length (devices ctx) < 32 \<and> \<not> hp_oom (h_devices h) ?n
     then n = 1 \<and> devices ctx' = devices ctx @ [Some ?n] \<and>
       hp_mem (h_devices h') = (hp_mem (h_devices h))(?n \<mapsto> gpu_device (usb4_tunnels u)) \<and>
       pcie_owned ctx' h' (ps @ [?n])
     else n = 0 \<and> devices ctx' = devices ctx \<and> hp_mem (h_devices h') = hp_mem (h_devices h) \<and> pcie_owned ctx' h' ps"
    by blast
  show ?thesis
  proof (cases "usb4_tunnels u \<noteq> [] \<and> length (devices ctx) < 32 \<and> \<not> hp_oom (h_devices h) ?n")
    case True
    with c have n: "n = 1" "devices ctx' = devices ctx @ [Some ?n]" and own': "pcie_owned ctx' h' (ps @ [?n])"
      and new: "hp_mem (h_devices h') ?n = Some (gpu_device (usb4_tunnels u))" by simp_all
    have ds: "devices ctx' = map Some (ps @ [?n])" and "dom (hp_mem (h_devices h')) = set (ps @ [?n])"
      using own' by (simp_all add: pcie_owned_def)
    then have "\<forall>p \<in> set (ps @ [?n]). \<exists>d. hp_mem (h_devices h') p = Some d" by blast
    from find_gpu_closed [OF this] ds have "pcie_find_nvidia_gpu h' (devices ctx') =
      Some (find (\<lambda>p. is_gpu (the (hp_mem (h_devices h') p))) (ps @ [?n]))" by simp
    moreover have "is_gpu (the (hp_mem (h_devices h') ?n))" using new gpu_device_is_gpu by simp
    then have "find (\<lambda>p. is_gpu (the (hp_mem (h_devices h') p))) (ps @ [?n]) \<noteq> None"
      by (auto simp: find_None_iff)
    ultimately show ?thesis using sc u n True by auto
  next
    case False
    with c have "n = 0" "devices ctx' = devices ctx" "hp_mem (h_devices h') = hp_mem (h_devices h)" by simp_all
    with sc u False show ?thesis by auto
  qed
qed

theorem pcie_scan_finds_gpu_witness:
  "\<exists>u n ctx' h'. get_usb4 pcie_ctx1 pcie_heap2 = Some u \<and> pcie_scan_bus pcie_ctx1 pcie_heap2 = Some (n, ctx', h') \<and>
    next_tag ctx' = next_tag pcie_ctx1 + 32 \<and>
    (if usb4_tunnels u \<noteq> [] \<and> length (devices pcie_ctx1) < 32 \<and> \<not> hp_oom (h_devices pcie_heap2) (hp_next (h_devices pcie_heap2))
     then n = 1 \<and> length (devices ctx') = Suc (length (devices pcie_ctx1)) \<and>
       (\<exists>p. pcie_find_nvidia_gpu h' (devices ctx') = Some (Some p))
     else n = 0 \<and> devices ctx' = devices pcie_ctx1 \<and> hp_mem (h_devices h') = hp_mem (h_devices pcie_heap2))"
  by (rule pcie_scan_finds_gpu [OF pcie_reach2])

text \<open>
  On a device with its 4 KB of configuration space, a write of 1, 2 or 4 bytes inside the space
  is read back truncated to its width and changes no read of other bytes; every other size or offset
  is rejected without an access. The code never leaves the space.
\<close>

theorem pcie_config_roundtrip:
  assumes "cfg_ok d"
  shows "\<exists>d'. pcie_config_write (Some d) off sz v =
      Some (if cfg_access off sz then PCIE_SUCCESS else PCIE_ERR_INVALID_PARAM, Some d') \<and>
    (if cfg_access off sz
     then pcie_config_read (Some d') off sz True = Some (PCIE_SUCCESS, Some (take_bit (8 * unat sz) v)) \<and>
       (\<forall>off' sz'. unat off' + unat sz' \<le> unat off \<or> unat off + unat sz \<le> unat off' \<longrightarrow>
          pcie_config_read (Some d') off' sz' True = pcie_config_read (Some d) off' sz' True)
     else d' = d)"
  by (rule config_rw [OF assms])

theorem pcie_config_roundtrip_witness:
  "\<exists>d'. pcie_config_write (Some device_zero) 16 4 0x80000000 =
      Some (if cfg_access 16 4 then PCIE_SUCCESS else PCIE_ERR_INVALID_PARAM, Some d') \<and>
    (if cfg_access 16 4
     then pcie_config_read (Some d') 16 4 True = Some (PCIE_SUCCESS, Some (take_bit (8 * unat (4 :: u8)) 0x80000000)) \<and>
       (\<forall>off' sz'. unat off' + unat sz' \<le> unat (16 :: u16) \<or> unat (16 :: u16) + unat (4 :: u8) \<le> unat off' \<longrightarrow>
          pcie_config_read (Some d') off' sz' True = pcie_config_read (Some device_zero) off' sz' True)
     else d' = device_zero)"
  by (rule pcie_config_roundtrip) (simp add: cfg_ok_def device_zero_def buf_new_def)

text \<open>
  Enabling a device and then its bus mastering sets the three bits of the command register and
  keeps the others.
\<close>

theorem pcie_enable_sets_bits:
  assumes "cfg_ok d"
  shows "\<exists>d1 d2. pcie_enable_device (Some d) = Some (PCIE_SUCCESS, Some d1) \<and>
    pcie_enable_bus_master (Some d1) = Some (PCIE_SUCCESS, Some d2) \<and>
    cfg_cmd d2 = cfg_cmd d OR 7 \<and> dv_is_enabled d2 \<and> dv_is_bus_master d2 \<and> dv_bars d2 = dv_bars d"
proof -
  obtain c where e: "pcie_enable_device (Some d) = Some (PCIE_SUCCESS, Some (d\<lparr>dv_config_cache := c, dv_is_enabled := True\<rparr>))"
    "cfg_ok (d\<lparr>dv_config_cache := c\<rparr>)" "cfg_cmd (d\<lparr>dv_config_cache := c\<rparr>) = cfg_cmd d OR 3"
    using enable_device_closed [OF assms] by blast
  let ?d = "d\<lparr>dv_config_cache := c, dv_is_enabled := True\<rparr>"
  have ok: "cfg_ok ?d" "cfg_cmd ?d = cfg_cmd d OR 3" using e by (simp_all add: cfg_ok_def cfg_cmd_def)
  obtain c' where m: "pcie_enable_bus_master (Some ?d) = Some (PCIE_SUCCESS, Some (?d\<lparr>dv_config_cache := c', dv_is_bus_master := True\<rparr>))"
    "cfg_cmd (?d\<lparr>dv_config_cache := c'\<rparr>) = cfg_cmd ?d OR 4"
    using enable_bus_master_closed [OF ok(1)] by blast
  have "cfg_cmd (?d\<lparr>dv_config_cache := c', dv_is_bus_master := True\<rparr>) = cfg_cmd d OR 7"
    using m(2) ok(2) by (simp add: cfg_cmd_def or.assoc)
  then show ?thesis
    by (intro exI [of _ ?d] exI [of _ "?d\<lparr>dv_config_cache := c', dv_is_bus_master := True\<rparr>"]) (simp add: e(1) m(1))
qed

theorem pcie_enable_sets_bits_witness:
  "\<exists>d1 d2. pcie_enable_device (Some gpu1) = Some (PCIE_SUCCESS, Some d1) \<and>
    pcie_enable_bus_master (Some d1) = Some (PCIE_SUCCESS, Some d2) \<and>
    cfg_cmd d2 = cfg_cmd gpu1 OR 7 \<and> dv_is_enabled d2 \<and> dv_is_bus_master d2 \<and> dv_bars d2 = dv_bars gpu1"
  by (rule pcie_enable_sets_bits)
    (simp add: gpu1_def gpu_device_def probed_device_def Let_def device_zero_def cfg_ok_def buf_new_def)

end
