(* ===== verification/Nvidia.thy ===== *)
theory Nvidia
  imports Pcie
begin

text \<open>
  The GPU driver of \<open>src/driver/nvidia/nvidia_gpu.c\<close> and its header: device information, registers,
  channels, the allocation table with its backing stores, copies, kernel launches and the
  initialisation and shutdown sequences over the PCIe layer. Allocation records, backing stores and
  channels live on the C heap; the function-local \<open>static next_gpu_addr\<close> is a field of the heap
  record. \<open>size_t\<close> is 64 bits wide and \<open>malloc(0)\<close> returns a block of no bytes. The host memory a copy
  reads is the list of its bytes, and what a copy writes to the host is returned.
\<close>

section \<open>Data\<close>

datatype nv_ret =
    NV_SUCCESS | NV_ERR_INVALID_PARAM | NV_ERR_NO_MEMORY | NV_ERR_IO | NV_ERR_NOT_FOUND
  | NV_ERR_TIMEOUT | NV_ERR_GPU_ERROR | NV_ERR_NOT_SUPPORTED

datatype NVArchitecture =
    NV_ARCH_UNKNOWN | NV_ARCH_KEPLER | NV_ARCH_MAXWELL | NV_ARCH_PASCAL | NV_ARCH_VOLTA
  | NV_ARCH_TURING | NV_ARCH_AMPERE | NV_ARCH_ADA | NV_ARCH_HOPPER | NV_ARCH_BLACKWELL

datatype NVGpuState =
    NV_GPU_STATE_UNKNOWN | NV_GPU_STATE_UNINITIALIZED | NV_GPU_STATE_INITIALIZING
  | NV_GPU_STATE_READY | NV_GPU_STATE_BUSY | NV_GPU_STATE_ERROR | NV_GPU_STATE_SUSPENDED

datatype NVMemoryType = NV_MEM_TYPE_SYSTEM | NV_MEM_TYPE_VIDEO | NV_MEM_TYPE_PEER

definition NV_PMC_BOOT_0 :: u32 where "NV_PMC_BOOT_0 = 0x00000000"
definition NV_PMC_BOOT_1 :: u32 where "NV_PMC_BOOT_1 = 0x00000004"
definition NV_PMC_ENABLE :: u32 where "NV_PMC_ENABLE = 0x00000200"
definition NV_PMC_INTR_0 :: u32 where "NV_PMC_INTR_0 = 0x00000100"
definition NV_PMC_INTR_EN_0 :: u32 where "NV_PMC_INTR_EN_0 = 0x00000140"

lemmas nv_regs = NV_PMC_BOOT_0_def NV_PMC_BOOT_1_def NV_PMC_ENABLE_def NV_PMC_INTR_0_def NV_PMC_INTR_EN_0_def

record NVMemoryAlloc =
  ma_gpu_addr :: u64
  ma_host_addr :: u64
  ma_size :: u64
  ma_type :: NVMemoryType
  ma_is_mapped :: bool
  ma_flags :: u32
  ma_backing_store :: "ptr option"

record NVChannel =
  ch_id :: u32
  ch_pb_base :: u64
  ch_pb_size :: u64
  ch_pb_put :: u32
  ch_pb_get :: u32
  ch_is_active :: bool
  ch_user_data :: "ptr option"

record NVSmInfo =
  sm_count :: u32
  sm_cores_per_sm :: u32
  sm_max_threads_per_sm :: u32
  sm_max_blocks_per_sm :: u32
  sm_shared_mem_per_sm :: u32
  sm_registers_per_sm :: u32

record NVDeviceInfo =
  di_name :: string
  di_architecture :: NVArchitecture
  di_chip_id :: u32
  di_revision :: u32
  di_vram_size :: u64
  di_vram_type :: u32
  di_vram_bus_width :: u32
  di_bandwidth :: u64
  di_sm_info :: NVSmInfo
  di_compute_cap_major :: u32
  di_compute_cap_minor :: u32
  di_max_threads_per_block :: u32
  di_max_grid_dim :: "u32 list"
  di_max_block_dim :: "u32 list"
  di_gpu_clock_mhz :: u32
  di_mem_clock_mhz :: u32

record NVGpuContext =
  gpu_pcie_device :: "ptr option"
  gpu_info :: NVDeviceInfo
  gpu_state :: NVGpuState
  gpu_channels :: "ptr option list"
  gpu_vram_free :: u64
  gpu_allocations :: "ptr option list"
  gpu_kernel_launches :: u64
  gpu_bytes_transferred :: u64

record NVKernelParams =
  kp_func_addr :: u64
  kp_grid_dim :: "u32 \<times> u32 \<times> u32"
  kp_block_dim :: "u32 \<times> u32 \<times> u32"
  kp_shared_mem :: u32
  kp_channel :: "ptr option"

record nv_heap =
  h_pcie :: pcie_heap
  h_channels :: "NVChannel heap"
  h_allocs :: "NVMemoryAlloc heap"
  h_stores :: "buf heap"
  next_gpu_addr :: u64

definition alloc_zero :: NVMemoryAlloc where
  "alloc_zero = \<lparr>ma_gpu_addr = 0, ma_host_addr = 0, ma_size = 0, ma_type = NV_MEM_TYPE_SYSTEM,
     ma_is_mapped = False, ma_flags = 0, ma_backing_store = None\<rparr>"

definition channel_zero :: NVChannel where
  "channel_zero = \<lparr>ch_id = 0, ch_pb_base = 0, ch_pb_size = 0, ch_pb_put = 0, ch_pb_get = 0,
     ch_is_active = False, ch_user_data = None\<rparr>"

definition info_zero :: NVDeviceInfo where
  "info_zero = \<lparr>di_name = [], di_architecture = NV_ARCH_UNKNOWN, di_chip_id = 0, di_revision = 0,
     di_vram_size = 0, di_vram_type = 0, di_vram_bus_width = 0, di_bandwidth = 0,
     di_sm_info = \<lparr>sm_count = 0, sm_cores_per_sm = 0, sm_max_threads_per_sm = 0,
       sm_max_blocks_per_sm = 0, sm_shared_mem_per_sm = 0, sm_registers_per_sm = 0\<rparr>,
     di_compute_cap_major = 0, di_compute_cap_minor = 0, di_max_threads_per_block = 0,
     di_max_grid_dim = [0, 0, 0], di_max_block_dim = [0, 0, 0], di_gpu_clock_mhz = 0,
     di_mem_clock_mhz = 0\<rparr>"

definition gpu_ctx_zero :: NVGpuContext where
  "gpu_ctx_zero = \<lparr>gpu_pcie_device = None, gpu_info = info_zero, gpu_state = NV_GPU_STATE_UNKNOWN,
     gpu_channels = [], gpu_vram_free = 0, gpu_allocations = [], gpu_kernel_launches = 0,
     gpu_bytes_transferred = 0\<rparr>"

section \<open>Operations\<close>

subsection \<open>Device information\<close>

definition nv_get_arch_from_chip :: "u32 \<Rightarrow> NVArchitecture" where
  "nv_get_arch_from_chip chip_id =
     (let arch_class = chip_id AND 0x1F0 in
      if arch_class = 0x0E0 then NV_ARCH_KEPLER
      else if arch_class = 0x110 \<or> arch_class = 0x120 then NV_ARCH_MAXWELL
      else if arch_class = 0x130 then NV_ARCH_PASCAL
      else if arch_class = 0x140 then NV_ARCH_VOLTA
      else if arch_class = 0x160 then NV_ARCH_TURING
      else if arch_class = 0x170 then NV_ARCH_AMPERE
      else if arch_class = 0x180 then NV_ARCH_HOPPER
      else if arch_class = 0x190 then NV_ARCH_ADA
      else if arch_class = 0x1A0 then NV_ARCH_BLACKWELL
      else NV_ARCH_UNKNOWN)"

fun nv_arch_name :: "NVArchitecture \<Rightarrow> string" where
  "nv_arch_name NV_ARCH_KEPLER = ''Kepler''"
| "nv_arch_name NV_ARCH_MAXWELL = ''Maxwell''"
| "nv_arch_name NV_ARCH_PASCAL = ''Pascal''"
| "nv_arch_name NV_ARCH_VOLTA = ''Volta''"
| "nv_arch_name NV_ARCH_TURING = ''Turing''"
| "nv_arch_name NV_ARCH_AMPERE = ''Ampere''"
| "nv_arch_name NV_ARCH_ADA = ''Ada Lovelace''"
| "nv_arch_name NV_ARCH_HOPPER = ''Hopper''"
| "nv_arch_name NV_ARCH_BLACKWELL = ''Blackwell''"
| "nv_arch_name NV_ARCH_UNKNOWN = ''Unknown''"

definition sm_update :: "NVSmInfo \<Rightarrow> u32 \<Rightarrow> u32 \<Rightarrow> u32 \<Rightarrow> u32 \<Rightarrow> NVSmInfo" where
  "sm_update sm cores threads blocks shared =
     sm\<lparr>sm_cores_per_sm := cores, sm_max_threads_per_sm := threads, sm_max_blocks_per_sm := blocks,
       sm_shared_mem_per_sm := shared * 1024, sm_registers_per_sm := 65536\<rparr>"

definition nv_get_sm_info :: "NVArchitecture \<Rightarrow> NVSmInfo \<Rightarrow> NVSmInfo" where
  "nv_get_sm_info arch sm =
     (case arch of
        NV_ARCH_AMPERE \<Rightarrow> sm_update sm 128 2048 32 164
      | NV_ARCH_ADA \<Rightarrow> sm_update sm 128 2048 32 228
      | NV_ARCH_TURING \<Rightarrow> sm_update sm 64 1024 16 96
      | _ \<Rightarrow> sm_update sm 128 2048 32 48)"

text \<open>\<open>%04X\<close> of a 16 bit value.\<close>

definition hex_digit :: "nat \<Rightarrow> char" where
  "hex_digit n = (''0123456789ABCDEF'' ! n)"

definition hex4 :: "u16 \<Rightarrow> string" where
  "hex4 w = map (\<lambda>k. hex_digit (unat (drop_bit (4 * k) w AND 0xF))) [3, 2, 1, 0]"

definition device_name :: "u16 \<Rightarrow> string" where
  "device_name device_id =
     (if device_id = 0x2684 then ''GeForce RTX 4090''
      else if device_id = 0x2704 then ''GeForce RTX 4080''
      else if device_id = 0x2782 then ''GeForce RTX 4070 Ti''
      else if device_id = 0x2482 then ''GeForce RTX 3070 Ti''
      else if device_id = 0x2204 then ''GeForce RTX 3090''
      else if device_id = 0x2206 then ''GeForce RTX 3080''
      else ''NVIDIA GPU '' @ hex4 device_id)"

subsection \<open>Registers\<close>

definition nv_gpu_read_reg :: "NVGpuContext \<Rightarrow> nv_heap \<Rightarrow> u32 \<Rightarrow> u32 option" where
  "nv_gpu_read_reg ctx h off =
     (case gpu_pcie_device ctx of
        None \<Rightarrow> Some 0xFFFFFFFF
      | Some p \<Rightarrow>
          do { d \<leftarrow> heap_get (h_devices (h_pcie h)) p;
               pcie_mmio_read32 (h_maps (h_pcie h)) (Some d) 0 (ucast off) })"

definition nv_gpu_write_reg :: "NVGpuContext \<Rightarrow> nv_heap \<Rightarrow> u32 \<Rightarrow> u32 \<Rightarrow> nv_heap option" where
  "nv_gpu_write_reg ctx h off value =
     (case gpu_pcie_device ctx of
        None \<Rightarrow> Some h
      | Some p \<Rightarrow>
          do { d \<leftarrow> heap_get (h_devices (h_pcie h)) p;
               maps \<leftarrow> pcie_mmio_write32 (h_maps (h_pcie h)) (Some d) 0 (ucast off) value;
               Some (h\<lparr>h_pcie := (h_pcie h)\<lparr>h_maps := maps\<rparr>\<rparr>) })"

definition nv_gpu_reset :: "NVGpuContext \<Rightarrow> nv_heap \<Rightarrow> (nv_ret \<times> nv_heap) option" where
  "nv_gpu_reset ctx h =
     do { h \<leftarrow> nv_gpu_write_reg ctx h NV_PMC_INTR_EN_0 0;
          enable \<leftarrow> nv_gpu_read_reg ctx h NV_PMC_ENABLE;
          h \<leftarrow> nv_gpu_write_reg ctx h NV_PMC_ENABLE 0;
          h \<leftarrow> nv_gpu_write_reg ctx h NV_PMC_ENABLE enable;
          h \<leftarrow> nv_gpu_write_reg ctx h NV_PMC_INTR_0 0xFFFFFFFF;
          Some (NV_SUCCESS, h) }"

text \<open>What \<open>nv_gpu_query_info\<close> stores, from the boot register and the device id.\<close>

definition queried_info :: "u32 \<Rightarrow> u16 \<Rightarrow> NVDeviceInfo \<Rightarrow> NVDeviceInfo" where
  "queried_info boot0 device_id info =
     (let chip_id = drop_bit 20 boot0 AND 0x1FF;
          arch = nv_get_arch_from_chip chip_id;
          sm = (nv_get_sm_info arch (di_sm_info info))\<lparr>sm_count :=
            (if device_id = 0x2684 then 128 else if device_id = 0x2704 then 76
             else if device_id = 0x2204 then 82 else 40)\<rparr>;
          cc = (case arch of NV_ARCH_AMPERE \<Rightarrow> (8, 6) | NV_ARCH_ADA \<Rightarrow> (8, 9) | NV_ARCH_HOPPER \<Rightarrow> (9, 0)
                | _ \<Rightarrow> (7, 5));
          (vram, width, bw) =
            (if device_id = 0x2684 then (24 * 1024 * 1024 * 1024, 384, 1008 * 1024 * 1024 * 1024)
             else if device_id = 0x2204 then (24 * 1024 * 1024 * 1024, 384, 936 * 1024 * 1024 * 1024)
             else (8 * 1024 * 1024 * 1024, 256, 448 * 1024 * 1024 * 1024))
      in info\<lparr>
            di_name := device_name device_id, di_architecture := arch, di_chip_id := chip_id,
            di_revision := boot0 AND 0xFF, di_vram_size := vram, di_vram_bus_width := width,
            di_bandwidth := bw, di_sm_info := sm, di_compute_cap_major := fst cc,
            di_compute_cap_minor := snd cc, di_max_threads_per_block := 1024,
            di_max_grid_dim := [2147483647, 65535, 65535], di_max_block_dim := [1024, 1024, 64],
            di_gpu_clock_mhz := 2520, di_mem_clock_mhz := 10501\<rparr>)"

definition nv_gpu_query_info :: "NVGpuContext \<Rightarrow> nv_heap \<Rightarrow> (nv_ret \<times> NVGpuContext) option" where
  "nv_gpu_query_info ctx h =
     do { boot0 \<leftarrow> nv_gpu_read_reg ctx h NV_PMC_BOOT_0;
          boot1 \<leftarrow> nv_gpu_read_reg ctx h NV_PMC_BOOT_1;
          p \<leftarrow> gpu_pcie_device ctx;
          dev \<leftarrow> heap_get (h_devices (h_pcie h)) p;
          Some (NV_SUCCESS, ctx\<lparr>gpu_info := queried_info boot0 (dv_device_id dev) (gpu_info ctx)\<rparr>) }"

subsection \<open>Memory\<close>

text \<open>
  The result is the code, the caller's struct, the context and the heap. \<open>page_round\<close> is
  \<open>(size + 4095) & ~4095\<close> with its wrap-around.
\<close>

definition page_round :: "u64 \<Rightarrow> u64" where
  "page_round sz = (sz + 4095) AND NOT 4095"

definition nv_gpu_alloc_memory ::
  "NVGpuContext \<Rightarrow> nv_heap \<Rightarrow> NVMemoryAlloc option \<Rightarrow>
   (nv_ret \<times> NVMemoryAlloc option \<times> NVGpuContext \<times> nv_heap) option" where
  "nv_gpu_alloc_memory ctx h alloc =
     (case alloc of
        None \<Rightarrow> Some (NV_ERR_INVALID_PARAM, None, ctx, h)
      | Some a \<Rightarrow>
          if ma_size a = 0 then Some (NV_ERR_INVALID_PARAM, alloc, ctx, h)
          else if length (gpu_allocations ctx) \<ge> 4096 then Some (NV_ERR_NO_MEMORY, alloc, ctx, h)
          else
            let aligned_size = page_round (ma_size a);
                video = (ma_type a = NV_MEM_TYPE_VIDEO)
            in if video \<and> aligned_size > gpu_vram_free ctx then Some (NV_ERR_NO_MEMORY, alloc, ctx, h)
            else
              let a = a\<lparr>ma_gpu_addr := next_gpu_addr h, ma_size := aligned_size\<rparr>;
                  h = h\<lparr>next_gpu_addr := next_gpu_addr h + aligned_size\<rparr>;
                  ctx = (if video then ctx\<lparr>gpu_vram_free := gpu_vram_free ctx - aligned_size\<rparr> else ctx);
                  restored = (if video then ctx\<lparr>gpu_vram_free := gpu_vram_free ctx + aligned_size\<rparr> else ctx)
              in
              (case heap_alloc (h_stores h) (buf_new (unat aligned_size)) of
                 (None, hs) \<Rightarrow>
                   Some (NV_ERR_NO_MEMORY, Some (a\<lparr>ma_backing_store := None\<rparr>), restored, h\<lparr>h_stores := hs\<rparr>)
               | (Some store, hs) \<Rightarrow>
                   let a = a\<lparr>ma_backing_store := Some store\<rparr> in
                   (case heap_alloc (h_allocs h) a of
                      (None, ha) \<Rightarrow>
                        do { hs \<leftarrow> heap_free hs store;
                             Some (NV_ERR_NO_MEMORY, Some (a\<lparr>ma_backing_store := None\<rparr>), restored,
                                   h\<lparr>h_stores := hs, h_allocs := ha\<rparr>) }
                    | (Some record_ptr, ha) \<Rightarrow>
                        Some (NV_SUCCESS, Some a,
                              ctx\<lparr>gpu_allocations := gpu_allocations ctx @ [Some record_ptr]\<rparr>,
                              h\<lparr>h_stores := hs, h_allocs := ha\<rparr>))))"

text \<open>The search for the record with the given address, and the wipe of its backing store.\<close>

fun find_record :: "NVMemoryAlloc heap \<Rightarrow> u64 \<Rightarrow> ptr option list \<Rightarrow> nat option option" where
  "find_record ha addr [] = Some None"
| "find_record ha addr (None # rs) = map_option (map_option Suc) (find_record ha addr rs)"
| "find_record ha addr (Some r # rs) =
     do { a \<leftarrow> heap_get ha r;
          if ma_gpu_addr a = addr then Some (Some 0)
          else map_option (map_option Suc) (find_record ha addr rs) }"

definition buf_zero :: "buf \<Rightarrow> nat \<Rightarrow> buf option" where
  "buf_zero b n =
     (if n \<le> b_size b then Some (b\<lparr>b_mem := (\<lambda>i. if i < n then 0 else b_mem b i)\<rparr>) else None)"

definition wipe_store :: "buf heap \<Rightarrow> ptr option \<Rightarrow> u64 \<Rightarrow> buf heap option" where
  "wipe_store hs store sz =
     (case store of
        None \<Rightarrow> Some hs
      | Some s \<Rightarrow> do { b \<leftarrow> heap_get hs s; b \<leftarrow> buf_zero b (unat sz); hs \<leftarrow> heap_put hs s b; heap_free hs s })"

text \<open>The struct is only read, and only before the record is freed.\<close>

definition nv_gpu_free_memory ::
  "NVGpuContext \<Rightarrow> nv_heap \<Rightarrow> NVMemoryAlloc option \<Rightarrow> (NVGpuContext \<times> nv_heap) option" where
  "nv_gpu_free_memory ctx h alloc =
     (case alloc of
        None \<Rightarrow> Some (ctx, h)
      | Some a \<Rightarrow>
          do { let ctx = (if ma_type a = NV_MEM_TYPE_VIDEO
                          then ctx\<lparr>gpu_vram_free := gpu_vram_free ctx + ma_size a\<rparr> else ctx);
               found \<leftarrow> find_record (h_allocs h) (ma_gpu_addr a) (gpu_allocations ctx);
               case found of
                 None \<Rightarrow> Some (ctx, h)
               | Some i \<Rightarrow>
                   do { r \<leftarrow> gpu_allocations ctx ! i;
                        rec \<leftarrow> heap_get (h_allocs h) r;
                        hs \<leftarrow> wipe_store (h_stores h) (ma_backing_store rec) (ma_size rec);
                        ha \<leftarrow> heap_free (h_allocs h) r;
                        Some (ctx\<lparr>gpu_allocations := compact (gpu_allocations ctx) i\<rparr>,
                              h\<lparr>h_stores := hs, h_allocs := ha\<rparr>) } })"

fun nv_find_alloc_by_addr :: "NVMemoryAlloc heap \<Rightarrow> u64 \<Rightarrow> ptr option list \<Rightarrow> NVMemoryAlloc option option" where
  "nv_find_alloc_by_addr ha gpu_addr [] = Some None"
| "nv_find_alloc_by_addr ha gpu_addr (None # rs) = nv_find_alloc_by_addr ha gpu_addr rs"
| "nv_find_alloc_by_addr ha gpu_addr (Some r # rs) =
     do { a \<leftarrow> heap_get ha r;
          let alloc_start = ma_gpu_addr a;
          let alloc_end = alloc_start + ma_size a;
          if gpu_addr \<ge> alloc_start \<and> gpu_addr < alloc_end then Some (Some a)
          else nv_find_alloc_by_addr ha gpu_addr rs }"

text \<open>
  Copies. \<open>memcpy\<close> between overlapping ranges, or beyond one of its buffers, is undefined. \<open>src\<close> of
  \<open>nv_gpu_memcpy_h2d\<close> are the bytes the caller's pointer gives access to; the second component of
  \<open>nv_gpu_memcpy_d2h\<close> are the bytes stored through \<open>dst\<close>, if any.
\<close>

definition nv_gpu_memcpy_h2d ::
  "NVGpuContext \<Rightarrow> nv_heap \<Rightarrow> u64 \<Rightarrow> u8 list option \<Rightarrow> u64 \<Rightarrow> (nv_ret \<times> NVGpuContext \<times> nv_heap) option" where
  "nv_gpu_memcpy_h2d ctx h dst src sz =
     (case src of
        None \<Rightarrow> Some (NV_ERR_INVALID_PARAM, ctx, h)
      | Some bytes \<Rightarrow>
          if sz = 0 then Some (NV_ERR_INVALID_PARAM, ctx, h)
          else
            do { alloc \<leftarrow> nv_find_alloc_by_addr (h_allocs h) dst (gpu_allocations ctx);
                 h \<leftarrow> (case alloc of
                         None \<Rightarrow> Some h
                       | Some a \<Rightarrow>
                           (case ma_backing_store a of
                              None \<Rightarrow> Some h
                            | Some s \<Rightarrow>
                                let offset = dst - ma_gpu_addr a in
                                if offset + sz \<le> ma_size a then
                                  do { bytes \<leftarrow> (if unat sz \<le> length bytes then Some (take (unat sz) bytes) else None);
                                       b \<leftarrow> heap_get (h_stores h) s;
                                       b \<leftarrow> buf_wr b (unat offset) bytes;
                                       hs \<leftarrow> heap_put (h_stores h) s b;
                                       Some (h\<lparr>h_stores := hs\<rparr>) }
                                else Some h));
                 Some (NV_SUCCESS, ctx\<lparr>gpu_bytes_transferred := gpu_bytes_transferred ctx + sz\<rparr>, h) })"

definition nv_gpu_memcpy_d2h ::
  "NVGpuContext \<Rightarrow> nv_heap \<Rightarrow> bool \<Rightarrow> u64 \<Rightarrow> u64 \<Rightarrow> (nv_ret \<times> u8 list option \<times> NVGpuContext) option" where
  "nv_gpu_memcpy_d2h ctx h has_dst src sz =
     (if \<not> has_dst \<or> sz = 0 then Some (NV_ERR_INVALID_PARAM, None, ctx)
      else
        do { alloc \<leftarrow> nv_find_alloc_by_addr (h_allocs h) src (gpu_allocations ctx);
             out \<leftarrow> (case alloc of
                       None \<Rightarrow> Some None
                     | Some a \<Rightarrow>
                         (case ma_backing_store a of
                            None \<Rightarrow> Some None
                          | Some s \<Rightarrow>
                              let offset = src - ma_gpu_addr a in
                              if offset + sz \<le> ma_size a then
                                do { b \<leftarrow> heap_get (h_stores h) s;
                                     bytes \<leftarrow> buf_rd b (unat offset) (unat sz);
                                     Some (Some bytes) }
                              else Some None));
             Some (NV_SUCCESS, out, ctx\<lparr>gpu_bytes_transferred := gpu_bytes_transferred ctx + sz\<rparr>) })"

definition ranges_overlap :: "nat \<Rightarrow> nat \<Rightarrow> nat \<Rightarrow> bool" where
  "ranges_overlap a b n \<longleftrightarrow> a < b + n \<and> b < a + n"

definition nv_gpu_memcpy_d2d ::
  "NVGpuContext \<Rightarrow> nv_heap \<Rightarrow> u64 \<Rightarrow> u64 \<Rightarrow> u64 \<Rightarrow> (nv_ret \<times> nv_heap) option" where
  "nv_gpu_memcpy_d2d ctx h dst src sz =
     (if sz = 0 then Some (NV_ERR_INVALID_PARAM, h)
      else
        do { src_alloc \<leftarrow> nv_find_alloc_by_addr (h_allocs h) src (gpu_allocations ctx);
             dst_alloc \<leftarrow> nv_find_alloc_by_addr (h_allocs h) dst (gpu_allocations ctx);
             (case (src_alloc, dst_alloc) of
                (Some sa, Some da) \<Rightarrow>
                  (case (ma_backing_store sa, ma_backing_store da) of
                     (Some s, Some t) \<Rightarrow>
                       let src_offset = src - ma_gpu_addr sa; dst_offset = dst - ma_gpu_addr da in
                       if src_offset + sz \<le> ma_size sa \<and> dst_offset + sz \<le> ma_size da then
                         (if s = t \<and> ranges_overlap (unat src_offset) (unat dst_offset) (unat sz) then None
                          else do { b \<leftarrow> heap_get (h_stores h) s;
                                    bytes \<leftarrow> buf_rd b (unat src_offset) (unat sz);
                                    c \<leftarrow> heap_get (h_stores h) t;
                                    c \<leftarrow> buf_wr c (unat dst_offset) bytes;
                                    hs \<leftarrow> heap_put (h_stores h) t c;
                                    Some (NV_SUCCESS, h\<lparr>h_stores := hs\<rparr>) })
                       else Some (NV_SUCCESS, h)
                   | _ \<Rightarrow> Some (NV_SUCCESS, h))
              | _ \<Rightarrow> Some (NV_SUCCESS, h)) })"

subsection \<open>Channels\<close>

definition nv_gpu_create_channel ::
  "NVGpuContext \<Rightarrow> nv_heap \<Rightarrow> bool \<Rightarrow> (nv_ret \<times> ptr option \<times> NVGpuContext \<times> nv_heap) option" where
  "nv_gpu_create_channel ctx h has_out =
     (if \<not> has_out then Some (NV_ERR_INVALID_PARAM, None, ctx, h)
      else if length (gpu_channels ctx) \<ge> 64 then Some (NV_ERR_NO_MEMORY, None, ctx, h)
      else
        let channel = channel_zero\<lparr>ch_id := of_nat (length (gpu_channels ctx)),
              ch_pb_size := 1024 * 1024, ch_is_active := False\<rparr>
        in
        (case heap_alloc (h_channels h) channel of
           (None, hc) \<Rightarrow> Some (NV_ERR_NO_MEMORY, None, ctx, h\<lparr>h_channels := hc\<rparr>)
         | (Some c, hc) \<Rightarrow>
             do { let h = h\<lparr>h_channels := hc\<rparr>;
                  let pb_alloc = alloc_zero\<lparr>ma_size := ch_pb_size channel, ma_type := NV_MEM_TYPE_SYSTEM\<rparr>;
                  (ret, pb, ctx, h) \<leftarrow> nv_gpu_alloc_memory ctx h (Some pb_alloc);
                  if ret \<noteq> NV_SUCCESS then
                    do { hc \<leftarrow> heap_free (h_channels h) c;
                         Some (ret, None, ctx, h\<lparr>h_channels := hc\<rparr>) }
                  else
                    do { pb \<leftarrow> pb;
                         hc \<leftarrow> heap_put (h_channels h) c (channel\<lparr>ch_pb_base := ma_gpu_addr pb,
                                 ch_pb_put := 0, ch_pb_get := 0, ch_is_active := True\<rparr>);
                         Some (NV_SUCCESS, Some c, ctx\<lparr>gpu_channels := gpu_channels ctx @ [Some c]\<rparr>,
                               h\<lparr>h_channels := hc\<rparr>) } }))"

definition nv_gpu_destroy_channel ::
  "NVGpuContext \<Rightarrow> nv_heap \<Rightarrow> ptr option \<Rightarrow> (NVGpuContext \<times> nv_heap) option" where
  "nv_gpu_destroy_channel ctx h channel =
     (case channel of
        None \<Rightarrow> Some (ctx, h)
      | Some c \<Rightarrow>
          do { ch \<leftarrow> heap_get (h_channels h) c;
               hc \<leftarrow> heap_put (h_channels h) c (ch\<lparr>ch_is_active := False\<rparr>);
               (ctx, h) \<leftarrow> nv_gpu_free_memory ctx (h\<lparr>h_channels := hc\<rparr>)
                              (Some (alloc_zero\<lparr>ma_gpu_addr := ch_pb_base ch\<rparr>));
               let ctx = ctx\<lparr>gpu_channels := remove_first (\<lambda>q. q = Some c) (gpu_channels ctx)\<rparr>;
               hc \<leftarrow> heap_free (h_channels h) c;
               Some (ctx, h\<lparr>h_channels := hc\<rparr>) })"

text \<open>\<open>while (put != get && timeout-- > 0)\<close>; the value is \<open>timeout\<close> after the loop.\<close>

function sync_loop :: "bool \<Rightarrow> int \<Rightarrow> int" where
  "sync_loop pending timeout =
     (if pending then (if timeout > 0 then sync_loop pending (timeout - 1) else timeout - 1) else timeout)"
  by pat_completeness auto
termination
  by (relation "measure (\<lambda>(_, timeout). nat timeout)") auto

declare sync_loop.simps [simp del]

definition nv_gpu_channel_sync :: "NVChannel option \<Rightarrow> nv_ret" where
  "nv_gpu_channel_sync channel =
     (case channel of
        None \<Rightarrow> NV_ERR_INVALID_PARAM
      | Some ch \<Rightarrow>
          if sync_loop (ch_pb_put ch \<noteq> ch_pb_get ch) 1000000 \<le> 0 then NV_ERR_TIMEOUT else NV_SUCCESS)"

text \<open>The results of the channels are discarded by the code; here they are listed.\<close>

fun sync_channels :: "NVChannel heap \<Rightarrow> ptr option list \<Rightarrow> nv_ret list option" where
  "sync_channels hc [] = Some []"
| "sync_channels hc (None # cs) = sync_channels hc cs"
| "sync_channels hc (Some c # cs) =
     do { ch \<leftarrow> heap_get hc c;
          rs \<leftarrow> sync_channels hc cs;
          Some (if ch_is_active ch then nv_gpu_channel_sync (Some ch) # rs else rs) }"

definition nv_gpu_synchronize :: "NVGpuContext \<Rightarrow> nv_heap \<Rightarrow> (nv_ret \<times> NVGpuContext) option" where
  "nv_gpu_synchronize ctx h =
     do { _ \<leftarrow> sync_channels (h_channels h) (gpu_channels ctx);
          Some (NV_SUCCESS, ctx\<lparr>gpu_state := NV_GPU_STATE_READY\<rparr>) }"

subsection \<open>Kernels, errors and settings\<close>

definition threads_per_block :: "NVKernelParams \<Rightarrow> u64" where
  "threads_per_block params =
     (case kp_block_dim params of (x, y, z) \<Rightarrow> ucast x * ucast y * ucast z)"

definition nv_gpu_launch_kernel :: "NVGpuContext \<Rightarrow> NVKernelParams option \<Rightarrow> nv_ret \<times> NVGpuContext" where
  "nv_gpu_launch_kernel ctx params =
     (case params of
        None \<Rightarrow> (NV_ERR_INVALID_PARAM, ctx)
      | Some p \<Rightarrow>
          if kp_channel p = None then (NV_ERR_INVALID_PARAM, ctx)
          else
            let (bx, by', bz) = kp_block_dim p; (gx, gy, gz) = kp_grid_dim p in
            if bx = 0 \<or> by' = 0 \<or> bz = 0 \<or> gx = 0 \<or> gy = 0 \<or> gz = 0 then (NV_ERR_INVALID_PARAM, ctx)
            else if threads_per_block p > ucast (di_max_threads_per_block (gpu_info ctx))
            then (NV_ERR_INVALID_PARAM, ctx)
            else
              let ctx = ctx\<lparr>gpu_kernel_launches := gpu_kernel_launches ctx + 1, gpu_state := NV_GPU_STATE_BUSY\<rparr>
              in (NV_SUCCESS, ctx\<lparr>gpu_state := NV_GPU_STATE_READY\<rparr>))"

definition nv_gpu_check_error :: "NVGpuContext \<Rightarrow> nv_heap \<Rightarrow> (nv_ret \<times> NVGpuContext) option" where
  "nv_gpu_check_error ctx h =
     do { intr \<leftarrow> nv_gpu_read_reg ctx h NV_PMC_INTR_0;
          if intr \<noteq> 0 then Some (NV_ERR_GPU_ERROR, ctx\<lparr>gpu_state := NV_GPU_STATE_ERROR\<rparr>)
          else Some (NV_SUCCESS, ctx) }"

definition nv_gpu_set_power_state :: "int \<Rightarrow> nv_ret" where
  "nv_gpu_set_power_state state = NV_SUCCESS"

definition nv_gpu_get_temperature :: "bool \<Rightarrow> nv_ret \<times> int option" where
  "nv_gpu_get_temperature has_out = (if \<not> has_out then (NV_ERR_INVALID_PARAM, None) else (NV_SUCCESS, Some 45))"

definition nv_gpu_set_clocks :: "NVGpuContext \<Rightarrow> u32 \<Rightarrow> u32 \<Rightarrow> nv_ret \<times> NVGpuContext" where
  "nv_gpu_set_clocks ctx gpu_mhz mem_mhz =
     (NV_SUCCESS, ctx\<lparr>gpu_info := (gpu_info ctx)\<lparr>di_gpu_clock_mhz := gpu_mhz, di_mem_clock_mhz := mem_mhz\<rparr>\<rparr>)"

subsection \<open>Initialisation and shutdown\<close>

text \<open>Calls of the PCIe layer on the device behind a pointer.\<close>

definition map_device_bar :: "pcie_heap \<Rightarrow> ptr \<Rightarrow> int \<Rightarrow> (pcie_ret \<times> pcie_heap) option" where
  "map_device_bar hp p i =
     do { d \<leftarrow> heap_get (h_devices hp) p;
          let (ret, d', maps) = pcie_map_bar (h_maps hp) (Some d) i;
          d' \<leftarrow> d';
          hv \<leftarrow> heap_put (h_devices hp) p d';
          Some (ret, hp\<lparr>h_devices := hv, h_maps := maps\<rparr>) }"

definition unmap_device_bar :: "pcie_heap \<Rightarrow> ptr \<Rightarrow> int \<Rightarrow> pcie_heap option" where
  "unmap_device_bar hp p i =
     do { d \<leftarrow> heap_get (h_devices hp) p;
          (d', maps) \<leftarrow> pcie_unmap_bar (h_maps hp) (Some d) i;
          d' \<leftarrow> d';
          hv \<leftarrow> heap_put (h_devices hp) p d';
          Some (hp\<lparr>h_devices := hv, h_maps := maps\<rparr>) }"

definition enable_device_at ::
  "(PCIeDevice option \<Rightarrow> (pcie_ret \<times> PCIeDevice option) option) \<Rightarrow> pcie_heap \<Rightarrow> ptr \<Rightarrow> pcie_heap option" where
  "enable_device_at f hp p =
     do { d \<leftarrow> heap_get (h_devices hp) p;
          (_, d') \<leftarrow> f (Some d);
          d' \<leftarrow> d';
          hv \<leftarrow> heap_put (h_devices hp) p d';
          Some (hp\<lparr>h_devices := hv\<rparr>) }"

definition nv_gpu_init ::
  "NVGpuContext \<Rightarrow> nv_heap \<Rightarrow> ptr option \<Rightarrow> (nv_ret \<times> NVGpuContext \<times> nv_heap) option" where
  "nv_gpu_init ctx h pcie_device =
     (case pcie_device of
        None \<Rightarrow> Some (NV_ERR_INVALID_PARAM, ctx, h)
      | Some p \<Rightarrow>
          do { let ctx = gpu_ctx_zero\<lparr>gpu_pcie_device := Some p, gpu_state := NV_GPU_STATE_INITIALIZING\<rparr>;
               (ret, hp) \<leftarrow> map_device_bar (h_pcie h) p 0;
               let h = h\<lparr>h_pcie := hp\<rparr>;
               if ret \<noteq> PCIE_SUCCESS then Some (NV_ERR_IO, ctx, h)
               else do {
                 (ret, hp) \<leftarrow> map_device_bar (h_pcie h) p 1;
                 let h = h\<lparr>h_pcie := hp\<rparr>;
                 if ret \<noteq> PCIE_SUCCESS then
                   do { hp \<leftarrow> unmap_device_bar (h_pcie h) p 0; Some (NV_ERR_IO, ctx, h\<lparr>h_pcie := hp\<rparr>) }
                 else do {
                   hp \<leftarrow> enable_device_at pcie_enable_device (h_pcie h) p;
                   hp \<leftarrow> enable_device_at pcie_enable_bus_master hp p;
                   let h = h\<lparr>h_pcie := hp\<rparr>;
                   (ret, ctx) \<leftarrow> nv_gpu_query_info ctx h;
                   if ret \<noteq> NV_SUCCESS then Some (ret, ctx, h)
                   else do {
                     (ret, h) \<leftarrow> nv_gpu_reset ctx h;
                     if ret \<noteq> NV_SUCCESS then Some (ret, ctx, h)
                     else do {
                       d \<leftarrow> heap_get (h_devices (h_pcie h)) p;
                       let _ = pcie_setup_msi (Some d) 1;
                       Some (NV_SUCCESS, ctx\<lparr>gpu_vram_free := di_vram_size (gpu_info ctx),
                         gpu_state := NV_GPU_STATE_READY\<rparr>, h) } } } } })"

text \<open>
  The two loops of the shutdown run from the end of the arrays. They are partial functions: that
  they end is a theorem.
\<close>

partial_function (option) destroy_channels ::
  "NVGpuContext \<Rightarrow> nv_heap \<Rightarrow> (NVGpuContext \<times> nv_heap) option" where
  "destroy_channels ctx h =
     (if gpu_channels ctx = [] then Some (ctx, h)
      else case last (gpu_channels ctx) of
        Some c \<Rightarrow> Option.bind (nv_gpu_destroy_channel ctx h (Some c)) (\<lambda>r. destroy_channels (fst r) (snd r))
      | None \<Rightarrow> destroy_channels (ctx\<lparr>gpu_channels := butlast (gpu_channels ctx)\<rparr>) h)"

partial_function (option) free_allocations ::
  "NVGpuContext \<Rightarrow> nv_heap \<Rightarrow> (NVGpuContext \<times> nv_heap) option" where
  "free_allocations ctx h =
     (if gpu_allocations ctx = [] then Some (ctx, h)
      else case last (gpu_allocations ctx) of
        Some r \<Rightarrow> Option.bind (heap_get (h_allocs h) r) (\<lambda>a.
          Option.bind (nv_gpu_free_memory ctx h (Some a)) (\<lambda>r. free_allocations (fst r) (snd r)))
      | None \<Rightarrow> free_allocations (ctx\<lparr>gpu_allocations := butlast (gpu_allocations ctx)\<rparr>) h)"

definition nv_gpu_shutdown :: "NVGpuContext \<Rightarrow> nv_heap \<Rightarrow> (NVGpuContext \<times> nv_heap) option" where
  "nv_gpu_shutdown ctx h =
     do { (ctx, h) \<leftarrow> destroy_channels ctx h;
          (ctx, h) \<leftarrow> free_allocations ctx h;
          hp \<leftarrow> (case gpu_pcie_device ctx of
                   None \<Rightarrow> Some (h_pcie h)
                 | Some p \<Rightarrow> do { hp \<leftarrow> unmap_device_bar (h_pcie h) p 0; unmap_device_bar hp p 1 });
          Some (gpu_ctx_zero\<lparr>gpu_state := NV_GPU_STATE_UNINITIALIZED\<rparr>, h\<lparr>h_pcie := hp\<rparr>) }"

section \<open>Page rounding\<close>

lemma and_not_mask: "(w :: u64) AND NOT (mask n) = push_bit n (drop_bit n w)"
  by (rule bit_word_eqI) (auto simp: bit_simps)

lemma page_round_nat:
  assumes "unat sz + 4095 < 2 ^ 64"
  shows "unat (page_round sz) = 4096 * ((unat sz + 4095) div 4096)"
proof -
  have m: "(4095 :: u64) = mask 12" by (simp add: mask_eq_exp_minus_1)
  have s: "unat (sz + 4095) = unat sz + 4095" using assms by (simp add: unat_word_ariths)
  have t: "take_bit 64 (unat sz + 4095) = unat sz + 4095" using assms by (simp add: take_bit_nat_eq_self)
  have "unat (page_round sz) = take_bit 64 (push_bit 12 (drop_bit 12 (unat sz + 4095)))"
    unfolding page_round_def m and_not_mask
    by (simp add: unsigned_push_bit_eq unsigned_drop_bit_eq s t flip: m)
  also have "\<dots> = 4096 * ((unat sz + 4095) div 4096)"
    using assms by (simp add: take_bit_nat_eq_self push_bit_eq_mult drop_bit_eq_div)
  finally show ?thesis .
qed

lemma page_round_bounds:
  assumes "0 < unat sz" and "unat sz + 4095 < 2 ^ 64"
  shows "unat sz \<le> unat (page_round sz)" and "unat (page_round sz) \<le> unat sz + 4095"
    and "4096 dvd unat (page_round sz)"
proof -
  have "(unat sz + 4095) div 4096 * 4096 + (unat sz + 4095) mod 4096 = unat sz + 4095"
    by (rule div_mult_mod_eq)
  moreover have "(unat sz + 4095) mod 4096 < 4096" by simp
  ultimately show "unat sz \<le> unat (page_round sz)" "unat (page_round sz) \<le> unat sz + 4095"
    unfolding page_round_nat [OF assms(2)] by linarith+
  show "4096 dvd unat (page_round sz)" unfolding page_round_nat [OF assms(2)] by simp
qed

text \<open>A size in the last page of the address space rounds to 0, and its allocation succeeds with an empty range.\<close>

lemma page_round_wraps:
  assumes "0xFFFFFFFFFFFFF000 < sz"
  shows "page_round sz = 0"
proof -
  have m: "(4095 :: u64) = mask 12" by (simp add: mask_eq_exp_minus_1)
  have "18446744073709547520 < unat sz"
    using assms by (simp add: word_less_nat_alt)
  moreover have "unat sz < 2 ^ 64" using unsigned_less [of sz] by simp
  ultimately have "unat (sz + 4095) < 4096" by (auto simp: unat_word_ariths mod_if)
  then have "unat (drop_bit 12 (sz + 4095)) = 0" by (simp add: drop_bit_eq_div unat_div)
  then have "drop_bit 12 (sz + 4095) = 0" by (simp only: unat_eq_zero)
  then show ?thesis unfolding page_round_def m and_not_mask by simp
qed

lemma nv_alloc_size_wraps:
  assumes "0xFFFFFFFFFFFFF000 < ma_size a" and "length (gpu_allocations ctx) < 4096"
    and "\<not> hp_oom (h_stores h) (hp_next (h_stores h))" and "\<not> hp_oom (h_allocs h) (hp_next (h_allocs h))"
  shows "\<exists>a' ctx' h'. nv_gpu_alloc_memory ctx h (Some a) = Some (NV_SUCCESS, Some a', ctx', h') \<and> ma_size a' = 0"
proof -
  have "ma_size a \<noteq> 0" using assms(1) by auto
  then show ?thesis using assms(2-4) page_round_wraps [OF assms(1)]
    by (simp add: nv_gpu_alloc_memory_def heap_alloc_def Let_def)
qed

section \<open>The allocation table\<close>

text \<open>
  An entry is the address of its record and the record. \<open>mem_rep\<close>: the records and backing stores
  on the heap are exactly those of the entries, every store has the size of its record, and the
  GPU ranges are page aligned, not empty, in ascending order and below the bump pointer.
\<close>

type_synonym alloc_entry = "ptr \<times> NVMemoryAlloc"

definition gpu_end :: "NVMemoryAlloc \<Rightarrow> nat" where
  "gpu_end a = unat (ma_gpu_addr a) + unat (ma_size a)"

definition below :: "alloc_entry \<Rightarrow> alloc_entry \<Rightarrow> bool" where
  "below x y \<longleftrightarrow> gpu_end (snd x) \<le> unat (ma_gpu_addr (snd y))"

definition entry_ok :: "NVMemoryAlloc heap \<Rightarrow> buf heap \<Rightarrow> nat \<Rightarrow> alloc_entry \<Rightarrow> bool" where
  "entry_ok ha hs limit x \<longleftrightarrow>
     hp_mem ha (fst x) = Some (snd x) \<and>
     (\<exists>s. ma_backing_store (snd x) = Some s \<and> map_sizes hs s = Some (unat (ma_size (snd x)))) \<and>
     0 < unat (ma_size (snd x)) \<and> 4096 dvd unat (ma_gpu_addr (snd x)) \<and> 4096 dvd unat (ma_size (snd x)) \<and>
     gpu_end (snd x) \<le> limit"

definition entry_store :: "alloc_entry \<Rightarrow> ptr option" where
  "entry_store x = ma_backing_store (snd x)"

definition mem_rep :: "NVMemoryAlloc heap \<Rightarrow> buf heap \<Rightarrow> u64 \<Rightarrow> alloc_entry list \<Rightarrow> bool" where
  "mem_rep ha hs next xs \<longleftrightarrow>
     heap_wf ha \<and> heap_wf hs \<and> distinct (map fst xs) \<and> distinct (map entry_store xs) \<and>
     sorted_wrt below xs \<and> (\<forall>x \<in> set xs. entry_ok ha hs (unat next) x) \<and> 4096 dvd unat next \<and>
     dom (hp_mem ha) = fst ` set xs \<and> Some ` dom (hp_mem hs) = entry_store ` set xs"

definition chan_rep :: "NVChannel heap \<Rightarrow> ptr list \<Rightarrow> bool" where
  "chan_rep hc cs \<longleftrightarrow> heap_wf hc \<and> distinct cs \<and> dom (hp_mem hc) = set cs"

definition nv_inv :: "NVGpuContext \<Rightarrow> nv_heap \<Rightarrow> alloc_entry list \<Rightarrow> ptr list \<Rightarrow> bool" where
  "nv_inv ctx h xs cs \<longleftrightarrow>
     gpu_allocations ctx = map (\<lambda>x. Some (fst x)) xs \<and> length xs \<le> 4096 \<and>
     mem_rep (h_allocs h) (h_stores h) (next_gpu_addr h) xs \<and>
     gpu_channels ctx = map Some cs \<and> length cs \<le> 64 \<and> chan_rep (h_channels h) cs"

lemma entry_ok_frame:
  "entry_ok ha hs limit x \<Longrightarrow> hp_mem ha' (fst x) = hp_mem ha (fst x) \<Longrightarrow>
   \<forall>s. entry_store x = Some s \<longrightarrow> map_sizes hs' s = map_sizes hs s \<Longrightarrow> limit \<le> limit' \<Longrightarrow>
   entry_ok ha' hs' limit' x"
  by (auto simp: entry_ok_def entry_store_def)

lemma mem_rep_live:
  "mem_rep ha hs next xs \<Longrightarrow> x \<in> set xs \<Longrightarrow> hp_mem ha (fst x) = Some (snd x)"
  "mem_rep ha hs next xs \<Longrightarrow> x \<in> set xs \<Longrightarrow> \<exists>s b. entry_store x = Some s \<and> hp_mem hs s = Some b \<and>
     b_size b = unat (ma_size (snd x))"
  by (auto simp: mem_rep_def entry_ok_def entry_store_def map_sizes_def)

text \<open>A copy into a store keeps the table.\<close>

lemma mem_rep_sizes:
  assumes "mem_rep ha hs next xs" and "map_sizes hs' = map_sizes hs" and "heap_wf hs'"
  shows "mem_rep ha hs' next xs"
  using assms dom_map_sizes [OF assms(2)] by (simp add: mem_rep_def entry_ok_def)

lemma mem_rep_bump:
  assumes "mem_rep ha hs next xs" and "heap_wf ha'" and "heap_wf hs'" and "hp_mem ha' = hp_mem ha"
    and "hp_mem hs' = hp_mem hs" and "unat next \<le> unat next'" and "4096 dvd unat next'"
  shows "mem_rep ha' hs' next' xs"
proof -
  have sz: "map_sizes hs' = map_sizes hs" using assms(5) by (simp add: map_sizes_def fun_eq_iff)
  have "entry_ok ha' hs' (unat next') x" if "x \<in> set xs" for x
    using that assms sz entry_ok_frame [of ha hs "unat next" x ha' hs' "unat next'"] by (simp add: mem_rep_def)
  then show ?thesis using assms by (simp add: mem_rep_def)
qed

lemma mem_rep_add:
  assumes rep: "mem_rep ha hs next xs" and r: "r = hp_next ha" and s: "s = hp_next hs"
    and a: "ma_gpu_addr a = next" "ma_backing_store a = Some s" "0 < unat (ma_size a)" "4096 dvd unat (ma_size a)"
    and next': "unat next' = unat next + unat (ma_size a)"
    and b: "b_size b = unat (ma_size a)"
    and ha': "ha' = ha\<lparr>hp_mem := (hp_mem ha)(r \<mapsto> a), hp_next := Suc r\<rparr>"
    and hs': "hs' = hs\<lparr>hp_mem := (hp_mem hs)(s \<mapsto> b), hp_next := Suc s\<rparr>"
  shows "mem_rep ha' hs' next' (xs @ [(r, a)])"
proof -
  have wf: "heap_wf ha" "heap_wf hs" using rep by (simp_all add: mem_rep_def)
  have dr: "fst ` set xs = dom (hp_mem ha)" and ds: "entry_store ` set xs = Some ` dom (hp_mem hs)"
    using rep by (simp_all add: mem_rep_def)
  have fr: "r \<notin> fst ` set xs" unfolding dr r using heap_wf_fresh [OF wf(1)] by (simp add: domIff)
  have fs: "Some s \<notin> entry_store ` set xs" unfolding ds s using heap_wf_fresh [OF wf(2)] by (auto simp: domIff)
  have old: "entry_ok ha' hs' (unat next') x" if x: "x \<in> set xs" for x
  proof (rule entry_ok_frame [of ha hs "unat next"])
    show "entry_ok ha hs (unat next) x" using rep x by (simp add: mem_rep_def)
    have "fst x \<noteq> r" using fr x by (metis imageI)
    then show "hp_mem ha' (fst x) = hp_mem ha (fst x)" using ha' by simp
    have "t \<noteq> s" if "entry_store x = Some t" for t using that fs x by (metis imageI)
    then show "\<forall>t. entry_store x = Some t \<longrightarrow> map_sizes hs' t = map_sizes hs t"
      using hs' by (simp add: map_sizes_def)
    show "unat next \<le> unat next'" using next' by simp
  qed
  have "entry_ok ha' hs' (unat next') (r, a)"
    using rep a b next' ha' hs' by (simp add: entry_ok_def map_sizes_def gpu_end_def mem_rep_def)
  moreover have "below x (r, a)" if "x \<in> set xs" for x
    using rep that a(1) by (simp add: mem_rep_def entry_ok_def below_def)
  moreover have "heap_wf ha'" "heap_wf hs'" using wf ha' hs' r s by (auto simp: heap_wf_def less_Suc_eq)
  moreover have "4096 dvd unat next'" using rep a(4) next' by (simp add: mem_rep_def)
  moreover have "entry_store (r, a) = Some s" using a(2) by (simp add: entry_store_def)
  moreover have "Some ` dom (hp_mem hs') = insert (Some s) (entry_store ` set xs)"
    unfolding ds hs' by simp
  ultimately show ?thesis
    using rep old fr fs ha' by (auto simp: mem_rep_def sorted_wrt_append)
qed

text \<open>The counter of GPU addresses is not wrapped by an allocation of \<open>sz\<close> bytes.\<close>

definition addr_room :: "nv_heap \<Rightarrow> u64 \<Rightarrow> bool" where
  "addr_room h sz \<longleftrightarrow> unat (next_gpu_addr h) + unat sz + 4095 < 2 ^ 64"

lemma addr_room_next:
  assumes "addr_room h sz" and "0 < unat sz"
  shows "unat (next_gpu_addr h + page_round sz) = unat (next_gpu_addr h) + unat (page_round sz)"
proof -
  have "unat (page_round sz) \<le> unat sz + 4095"
    using page_round_bounds(2) [OF assms(2)] assms(1) by (simp add: addr_room_def)
  with assms(1) have "unat (next_gpu_addr h) + unat (page_round sz) < 2 ^ 64" by (simp add: addr_room_def)
  then show ?thesis by (simp add: unat_word_ariths)
qed

text \<open>The struct a successful allocation hands back, and the guards.\<close>

definition new_alloc :: "nv_heap \<Rightarrow> NVMemoryAlloc \<Rightarrow> NVMemoryAlloc" where
  "new_alloc h a = a\<lparr>ma_gpu_addr := next_gpu_addr h, ma_size := page_round (ma_size a),
     ma_backing_store := Some (hp_next (h_stores h))\<rparr>"

definition alloc_guard :: "NVGpuContext \<Rightarrow> NVMemoryAlloc \<Rightarrow> nv_ret option" where
  "alloc_guard ctx a =
     (if ma_size a = 0 then Some NV_ERR_INVALID_PARAM
      else if length (gpu_allocations ctx) \<ge> 4096 then Some NV_ERR_NO_MEMORY
      else if ma_type a = NV_MEM_TYPE_VIDEO \<and> page_round (ma_size a) > gpu_vram_free ctx
      then Some NV_ERR_NO_MEMORY else None)"

definition alloc_oom :: "nv_heap \<Rightarrow> bool" where
  "alloc_oom h \<longleftrightarrow> hp_oom (h_stores h) (hp_next (h_stores h)) \<or> hp_oom (h_allocs h) (hp_next (h_allocs h))"

definition take_vram :: "NVMemoryAlloc \<Rightarrow> NVGpuContext \<Rightarrow> NVGpuContext" where
  "take_vram a ctx = (if ma_type a = NV_MEM_TYPE_VIDEO
     then ctx\<lparr>gpu_vram_free := gpu_vram_free ctx - page_round (ma_size a)\<rparr> else ctx)"

lemma alloc_rejected:
  "alloc_guard ctx a = Some e \<Longrightarrow> nv_gpu_alloc_memory ctx h (Some a) = Some (e, Some a, ctx, h)"
  by (auto simp: alloc_guard_def nv_gpu_alloc_memory_def Let_def split: if_splits)

lemma alloc_fails:
  assumes g: "alloc_guard ctx a = None" and oom: "alloc_oom h" and wf: "heap_wf (h_stores h)"
  shows "\<exists>out hs' ha'. nv_gpu_alloc_memory ctx h (Some a) = Some (NV_ERR_NO_MEMORY, out, ctx,
      h\<lparr>next_gpu_addr := next_gpu_addr h + page_round (ma_size a), h_stores := hs', h_allocs := ha'\<rparr>) \<and>
    hp_mem hs' = hp_mem (h_stores h) \<and> hp_mem ha' = hp_mem (h_allocs h) \<and>
    hp_next (h_stores h) \<le> hp_next hs' \<and> hp_next (h_allocs h) \<le> hp_next ha'"
proof (cases "hp_oom (h_stores h) (hp_next (h_stores h))")
  case True
  then show ?thesis
    using g by (auto simp: nv_gpu_alloc_memory_def alloc_guard_def Let_def heap_alloc_def split: if_splits
      intro!: exI [of _ "h_stores h\<lparr>hp_next := Suc (hp_next (h_stores h))\<rparr>"] exI [of _ "h_allocs h"])
next
  case False
  with oom have "hp_oom (h_allocs h) (hp_next (h_allocs h))" by (simp add: alloc_oom_def)
  with False g show ?thesis
    by (auto simp: nv_gpu_alloc_memory_def alloc_guard_def Let_def heap_alloc_def heap_free_def
        fresh_upd [OF wf] split: if_splits
      intro!: exI [of _ "h_stores h\<lparr>hp_next := Suc (hp_next (h_stores h))\<rparr>"]
        exI [of _ "h_allocs h\<lparr>hp_next := Suc (hp_next (h_allocs h))\<rparr>"])
qed

lemma alloc_succeeds:
  assumes g: "alloc_guard ctx a = None" and oom: "\<not> alloc_oom h"
  shows "nv_gpu_alloc_memory ctx h (Some a) = Some (NV_SUCCESS, Some (new_alloc h a),
    (take_vram a ctx)\<lparr>gpu_allocations := gpu_allocations ctx @ [Some (hp_next (h_allocs h))]\<rparr>,
    h\<lparr>next_gpu_addr := next_gpu_addr h + page_round (ma_size a),
      h_stores := h_stores h\<lparr>hp_mem := (hp_mem (h_stores h))(hp_next (h_stores h) \<mapsto>
          buf_new (unat (page_round (ma_size a)))), hp_next := Suc (hp_next (h_stores h))\<rparr>,
      h_allocs := h_allocs h\<lparr>hp_mem := (hp_mem (h_allocs h))(hp_next (h_allocs h) \<mapsto> new_alloc h a),
          hp_next := Suc (hp_next (h_allocs h))\<rparr>\<rparr>)"
  using g oom
  by (auto simp: nv_gpu_alloc_memory_def alloc_guard_def alloc_oom_def Let_def heap_alloc_def new_alloc_def
      take_vram_def split: if_splits)

lemma take_vram_sel [simp]:
  "gpu_allocations (take_vram a ctx) = gpu_allocations ctx" "gpu_channels (take_vram a ctx) = gpu_channels ctx"
  "gpu_pcie_device (take_vram a ctx) = gpu_pcie_device ctx"
  by (simp_all add: take_vram_def)

lemma guard_pos: "alloc_guard ctx a = None \<Longrightarrow> 0 < unat (ma_size a)"
  by (auto simp: alloc_guard_def unat_gt_0 split: if_splits)

text \<open>The outcomes of an allocation in an owned state.\<close>

lemma alloc_cases:
  assumes inv: "nv_inv ctx h xs cs" and room: "addr_room h (ma_size a)"
  obtains (rejected) e where "alloc_guard ctx a = Some e"
      "nv_gpu_alloc_memory ctx h (Some a) = Some (e, Some a, ctx, h)"
  | (failed) out h' where "alloc_guard ctx a = None" "alloc_oom h"
      "nv_gpu_alloc_memory ctx h (Some a) = Some (NV_ERR_NO_MEMORY, out, ctx, h')" "nv_inv ctx h' xs cs"
      "h_pcie h' = h_pcie h" "h_channels h' = h_channels h"
  | (ok) ctx' h' r where "alloc_guard ctx a = None" "\<not> alloc_oom h"
      "nv_gpu_alloc_memory ctx h (Some a) = Some (NV_SUCCESS, Some (new_alloc h a), ctx', h')"
      "nv_inv ctx' h' (xs @ [(r, new_alloc h a)]) cs" "h_pcie h' = h_pcie h" "h_channels h' = h_channels h"
      "ctx' = (take_vram a ctx)\<lparr>gpu_allocations := gpu_allocations ctx @ [Some r]\<rparr>"
      "hp_mem (h_stores h') = (hp_mem (h_stores h))(hp_next (h_stores h) \<mapsto> buf_new (unat (page_round (ma_size a))))"
      "next_gpu_addr h' = next_gpu_addr h + page_round (ma_size a)"
proof (cases "alloc_guard ctx a")
  case (Some e)
  with alloc_rejected show thesis by (intro rejected) auto
next
  case None
  let ?n = "next_gpu_addr h + page_round (ma_size a)"
  have pos: "0 < unat (ma_size a)" using None by (rule guard_pos)
  have n: "unat ?n = unat (next_gpu_addr h) + unat (page_round (ma_size a))" by (rule addr_room_next [OF room pos])
  have b: "unat (ma_size a) \<le> unat (page_round (ma_size a))" "4096 dvd unat (page_round (ma_size a))"
    using page_round_bounds [OF pos] room by (simp_all add: addr_room_def)
  have rep: "mem_rep (h_allocs h) (h_stores h) (next_gpu_addr h) xs" using inv by (simp add: nv_inv_def)
  then have wf: "heap_wf (h_stores h)" "heap_wf (h_allocs h)" and d: "4096 dvd unat (next_gpu_addr h)"
    by (simp_all add: mem_rep_def)
  show thesis
  proof (cases "alloc_oom h")
    case True
    from alloc_fails [OF None True wf(1)] obtain out hs' ha' where
      call: "nv_gpu_alloc_memory ctx h (Some a) = Some (NV_ERR_NO_MEMORY, out, ctx,
        h\<lparr>next_gpu_addr := ?n, h_stores := hs', h_allocs := ha'\<rparr>)"
      and m: "hp_mem hs' = hp_mem (h_stores h)" "hp_mem ha' = hp_mem (h_allocs h)"
      and nx: "hp_next (h_stores h) \<le> hp_next hs'" "hp_next (h_allocs h) \<le> hp_next ha'"
      by blast
    have "heap_wf hs'" "heap_wf ha'"
      using wf m nx unfolding heap_wf_def by (metis order_less_le_trans)+
    with mem_rep_bump [OF rep, of ha' hs' ?n] m n d b(2) have "mem_rep ha' hs' ?n xs" by simp
    with inv call show thesis by (intro failed [OF None True call]) (simp_all add: nv_inv_def)
  next
    case False
    let ?a = "new_alloc h a"
    have "mem_rep (h_allocs h\<lparr>hp_mem := (hp_mem (h_allocs h))(hp_next (h_allocs h) \<mapsto> ?a), hp_next := Suc (hp_next (h_allocs h))\<rparr>)
      (h_stores h\<lparr>hp_mem := (hp_mem (h_stores h))(hp_next (h_stores h) \<mapsto> buf_new (unat (page_round (ma_size a)))),
         hp_next := Suc (hp_next (h_stores h))\<rparr>) ?n (xs @ [(hp_next (h_allocs h), ?a)])"
      by (rule mem_rep_add [OF rep refl refl _ _ _ _ _ _ refl refl])
        (use pos b n in \<open>simp_all add: new_alloc_def buf_new_def\<close>)
    moreover have "length (gpu_allocations ctx) < 4096" using None by (auto simp: alloc_guard_def split: if_splits)
    then have "length xs < 4096" using inv by (simp add: nv_inv_def)
    ultimately show thesis
      using inv by (intro ok [OF None False alloc_succeeds [OF None False]]) (simp_all add: nv_inv_def)
  qed
qed

section \<open>Freeing\<close>

definition at_addr :: "u64 \<Rightarrow> alloc_entry \<Rightarrow> bool" where
  "at_addr addr x \<longleftrightarrow> ma_gpu_addr (snd x) = addr"

lemma find_record_closed:
  "\<forall>x \<in> set xs. hp_mem ha (fst x) = Some (snd x) \<Longrightarrow>
   find_record ha addr (map (\<lambda>x. Some (fst x)) xs) = Some (find_from (at_addr addr) xs)"
  by (induction xs) (auto simp: heap_get_def at_addr_def)

lemma compact_map: "i < length xs \<Longrightarrow> compact (map f xs) i = map f (compact xs i)"
  by (simp add: compact_eq take_map drop_map)

lemma mem_rep_remove:
  assumes rep: "mem_rep ha hs next (ys @ x # zs)"
  shows "mem_rep (ha\<lparr>hp_mem := (hp_mem ha)(fst x := None)\<rparr>)
    (hs\<lparr>hp_mem := hp_mem hs |` (- set_option (entry_store x))\<rparr>) next (ys @ zs)"
proof -
  let ?ha = "ha\<lparr>hp_mem := (hp_mem ha)(fst x := None)\<rparr>"
  let ?hs = "hs\<lparr>hp_mem := hp_mem hs |` (- set_option (entry_store x))\<rparr>"
  from mem_rep_live(2) [OF rep, of x] obtain s where s: "entry_store x = Some s" by auto
  have fx: "fst x \<notin> fst ` set (ys @ zs)" and sx: "entry_store x \<notin> entry_store ` set (ys @ zs)"
    using rep by (simp_all add: mem_rep_def image_Un)
  have old: "entry_ok ?ha ?hs (unat next) y" if y: "y \<in> set (ys @ zs)" for y
  proof (rule entry_ok_frame [of ha hs "unat next"])
    show "entry_ok ha hs (unat next) y" using rep y by (auto simp: mem_rep_def)
    have "fst y \<noteq> fst x" using fx y by (metis imageI)
    then show "hp_mem ?ha (fst y) = hp_mem ha (fst y)" by simp
    have "t \<noteq> s" if "entry_store y = Some t" for t using that sx s y by (metis imageI)
    then show "\<forall>t. entry_store y = Some t \<longrightarrow> map_sizes ?hs t = map_sizes hs t"
      using s by (simp add: map_sizes_def)
  qed simp
  have "dom (hp_mem ?ha) = fst ` set (ys @ zs)"
  proof -
    have "dom (hp_mem ha) = insert (fst x) (fst ` set (ys @ zs))" using rep by (simp add: mem_rep_def image_Un)
    with fx show ?thesis by simp
  qed
  moreover have "Some ` dom (hp_mem ?hs) = entry_store ` set (ys @ zs)"
  proof -
    have "Some ` dom (hp_mem hs) = insert (Some s) (entry_store ` set (ys @ zs))"
      using rep s by (simp add: mem_rep_def image_Un)
    moreover have "Some ` dom (hp_mem ?hs) = Some ` dom (hp_mem hs) - {Some s}" using s by auto
    ultimately show ?thesis using sx s by simp
  qed
  moreover have "sorted_wrt below (ys @ zs)" using rep by (auto simp: mem_rep_def sorted_wrt_append)
  moreover have "heap_wf ?ha" "heap_wf ?hs"
    using rep by (auto simp: mem_rep_def heap_wf_def restrict_map_def split: if_splits)
  ultimately show ?thesis using rep old by (simp add: mem_rep_def)
qed

text \<open>Freeing an entry by its address; a struct of type VIDEO gives its size back to the VRAM.\<close>

definition give_vram :: "NVMemoryAlloc \<Rightarrow> NVGpuContext \<Rightarrow> NVGpuContext" where
  "give_vram a ctx = (if ma_type a = NV_MEM_TYPE_VIDEO
     then ctx\<lparr>gpu_vram_free := gpu_vram_free ctx + ma_size a\<rparr> else ctx)"

lemma give_vram_sel [simp]:
  "gpu_allocations (give_vram a ctx) = gpu_allocations ctx" "gpu_channels (give_vram a ctx) = gpu_channels ctx"
  "gpu_pcie_device (give_vram a ctx) = gpu_pcie_device ctx"
  by (simp_all add: give_vram_def)

lemma free_misses:
  assumes inv: "nv_inv ctx h xs cs" and no: "\<forall>x \<in> set xs. \<not> at_addr (ma_gpu_addr a) x"
  shows "nv_gpu_free_memory ctx h (Some a) = Some (give_vram a ctx, h)" and "nv_inv (give_vram a ctx) h xs cs"
proof -
  have "find_record (h_allocs h) (ma_gpu_addr a) (gpu_allocations ctx) = Some (find_from (at_addr (ma_gpu_addr a)) xs)"
    using inv mem_rep_live(1) by (auto simp: nv_inv_def intro!: find_record_closed)
  moreover have "find_from (at_addr (ma_gpu_addr a)) xs = None" using no by (simp add: find_from_None)
  ultimately show "nv_gpu_free_memory ctx h (Some a) = Some (give_vram a ctx, h)"
    by (simp add: nv_gpu_free_memory_def give_vram_def Let_def)
  show "nv_inv (give_vram a ctx) h xs cs" using inv by (simp add: nv_inv_def)
qed

lemma sorted_addr_inj:
  assumes "sorted_wrt below (ys @ x # zs)" and "\<forall>y \<in> set (ys @ x # zs). 0 < unat (ma_size (snd y))"
  shows "\<forall>y \<in> set (ys @ zs). ma_gpu_addr (snd y) \<noteq> ma_gpu_addr (snd x)"
proof
  fix y assume y: "y \<in> set (ys @ zs)"
  have "0 < unat (ma_size (snd y))" "0 < unat (ma_size (snd x))" using assms(2) y by auto
  moreover have "below y x \<or> below x y" using assms(1) y by (auto simp: sorted_wrt_append)
  ultimately show "ma_gpu_addr (snd y) \<noteq> ma_gpu_addr (snd x)" by (auto simp: below_def gpu_end_def)
qed

lemma entry_pos: "mem_rep ha hs next xs \<Longrightarrow> x \<in> set xs \<Longrightarrow> 0 < unat (ma_size (snd x))"
  by (simp add: mem_rep_def entry_ok_def)

lemma find_from_split:
  assumes "\<forall>y \<in> set ys. \<not> P y" and "P x"
  shows "find_from P (ys @ x # zs) = Some (length ys)"
  using assms by (induction ys) auto

lemma wipe_closed:
  assumes "hp_mem hs s = Some b" and "b_size b = unat sz"
  shows "wipe_store hs (Some s) sz = Some (hs\<lparr>hp_mem := hp_mem hs |` (- {s})\<rparr>)"
proof -
  have m: "hp_mem hs |` (- {s}) = (hp_mem hs)(s := None)" by (auto simp: restrict_map_def fun_eq_iff)
  with assms show ?thesis
    by (simp add: wipe_store_def heap_get_def heap_put_def heap_free_def buf_zero_def)
qed

definition drop_alloc :: "nv_heap \<Rightarrow> alloc_entry \<Rightarrow> nv_heap" where
  "drop_alloc h x = h\<lparr>h_stores := h_stores h\<lparr>hp_mem := hp_mem (h_stores h) |` (- set_option (entry_store x))\<rparr>,
     h_allocs := h_allocs h\<lparr>hp_mem := (hp_mem (h_allocs h))(fst x := None)\<rparr>\<rparr>"

lemma drop_alloc_sel [simp]:
  "h_pcie (drop_alloc h x) = h_pcie h" "h_channels (drop_alloc h x) = h_channels h"
  "next_gpu_addr (drop_alloc h x) = next_gpu_addr h"
  by (simp_all add: drop_alloc_def)

lemma free_hits:
  assumes inv: "nv_inv ctx h (ys @ x # zs) cs" and a: "ma_gpu_addr a = ma_gpu_addr (snd x)"
  shows "nv_gpu_free_memory ctx h (Some a) =
      Some ((give_vram a ctx)\<lparr>gpu_allocations := map (\<lambda>x. Some (fst x)) (ys @ zs)\<rparr>, drop_alloc h x)"
    and "nv_inv ((give_vram a ctx)\<lparr>gpu_allocations := map (\<lambda>x. Some (fst x)) (ys @ zs)\<rparr>) (drop_alloc h x) (ys @ zs) cs"
proof -
  let ?xs = "ys @ x # zs"
  have rep: "mem_rep (h_allocs h) (h_stores h) (next_gpu_addr h) ?xs"
    and al: "gpu_allocations ctx = map (\<lambda>x. Some (fst x)) ?xs" using inv by (simp_all add: nv_inv_def)
  have "\<forall>y \<in> set (ys @ zs). ma_gpu_addr (snd y) \<noteq> ma_gpu_addr (snd x)"
    by (rule sorted_addr_inj) (use rep entry_pos [OF rep] in \<open>simp_all add: mem_rep_def\<close>)
  then have "find_from (at_addr (ma_gpu_addr a)) ?xs = Some (length ys)"
    by (intro find_from_split) (simp_all add: at_addr_def a)
  then have fr: "find_record (h_allocs h) (ma_gpu_addr a) (gpu_allocations ctx) = Some (Some (length ys))"
    using find_record_closed [of ?xs "h_allocs h"] mem_rep_live(1) [OF rep] al by simp
  have live: "hp_mem (h_allocs h) (fst x) = Some (snd x)" using mem_rep_live(1) [OF rep] by simp
  from mem_rep_live(2) [OF rep, of x] obtain s b where s: "entry_store x = Some s"
    "hp_mem (h_stores h) s = Some b" "b_size b = unat (ma_size (snd x))" by auto
  have c: "compact (gpu_allocations ctx) (length ys) = map (\<lambda>x. Some (fst x)) (ys @ zs)"
    unfolding al by (subst compact_map) (simp_all add: compact_eq)
  show "nv_gpu_free_memory ctx h (Some a) =
      Some ((give_vram a ctx)\<lparr>gpu_allocations := map (\<lambda>x. Some (fst x)) (ys @ zs)\<rparr>, drop_alloc h x)"
    using fr live s c wipe_closed [OF s(2,3)] al
    by (simp add: nv_gpu_free_memory_def Let_def give_vram_def heap_get_def heap_free_def entry_store_def
        drop_alloc_def nth_append)
  show "nv_inv ((give_vram a ctx)\<lparr>gpu_allocations := map (\<lambda>x. Some (fst x)) (ys @ zs)\<rparr>) (drop_alloc h x) (ys @ zs) cs"
    using inv mem_rep_remove [OF rep] by (simp add: nv_inv_def drop_alloc_def)
qed

lemma free_cases:
  assumes inv: "nv_inv ctx h xs cs"
  obtains (miss) "nv_gpu_free_memory ctx h (Some a) = Some (give_vram a ctx, h)" "nv_inv (give_vram a ctx) h xs cs"
      "\<forall>x \<in> set xs. \<not> at_addr (ma_gpu_addr a) x"
  | (hit) ys x zs ctx' where "xs = ys @ x # zs" "ma_gpu_addr a = ma_gpu_addr (snd x)"
      "nv_gpu_free_memory ctx h (Some a) = Some (ctx', drop_alloc h x)"
      "nv_inv ctx' (drop_alloc h x) (ys @ zs) cs"
      "ctx' = (give_vram a ctx)\<lparr>gpu_allocations := map (\<lambda>x. Some (fst x)) (ys @ zs)\<rparr>"
proof (cases "\<forall>x \<in> set xs. \<not> at_addr (ma_gpu_addr a) x")
  case True
  with free_misses [OF inv True] show thesis by (intro miss)
next
  case False
  then obtain ys x zs where xs: "xs = ys @ x # zs" and "ma_gpu_addr a = ma_gpu_addr (snd x)"
    by (auto simp: at_addr_def dest: split_list)
  with free_hits [OF inv [unfolded xs]] show thesis by (intro hit [OF xs]) auto
qed

section \<open>Copies\<close>

definition in_alloc :: "alloc_entry \<Rightarrow> u64 \<Rightarrow> bool" where
  "in_alloc x addr \<longleftrightarrow> unat (ma_gpu_addr (snd x)) \<le> unat addr \<and> unat addr < gpu_end (snd x)"

lemma end_no_wrap:
  assumes "mem_rep ha hs next xs" and "x \<in> set xs"
  shows "unat (ma_gpu_addr (snd x) + ma_size (snd x)) = gpu_end (snd x)"
proof -
  have "gpu_end (snd x) \<le> unat next" using assms by (simp add: mem_rep_def entry_ok_def)
  moreover have "unat next < 2 ^ 64" using unsigned_less [of "next"] by simp
  ultimately show ?thesis by (simp add: gpu_end_def unat_word_ariths)
qed

lemma find_alloc_closed:
  assumes "\<forall>x \<in> set xs. hp_mem ha (fst x) = Some (snd x) \<and>
      unat (ma_gpu_addr (snd x) + ma_size (snd x)) = gpu_end (snd x)"
  shows "nv_find_alloc_by_addr ha addr (map (\<lambda>x. Some (fst x)) xs) =
    Some (map_option snd (find (\<lambda>x. in_alloc x addr) xs))"
  using assms
  by (induction xs) (auto simp: heap_get_def in_alloc_def Let_def word_le_nat_alt word_less_nat_alt)

lemma in_alloc_unique:
  assumes "sorted_wrt below xs" and "x \<in> set xs" and "y \<in> set xs" and "in_alloc x addr" and "in_alloc y addr"
  shows "x = y"
proof (rule ccontr)
  assume "x \<noteq> y"
  with assms(1-3) have "below x y \<or> below y x" by (induction xs) auto
  with assms(4,5) show False by (auto simp: below_def in_alloc_def gpu_end_def)
qed

lemma find_alloc_in:
  assumes rep: "mem_rep ha hs next xs" and x: "x \<in> set xs" "in_alloc x addr"
  shows "nv_find_alloc_by_addr ha addr (map (\<lambda>x. Some (fst x)) xs) = Some (Some (snd x))"
proof -
  have "find (\<lambda>x. in_alloc x addr) xs \<noteq> None" using x by (metis find_None_iff)
  then obtain y where y: "find (\<lambda>x. in_alloc x addr) xs = Some y" by blast
  then have "y \<in> set xs" "in_alloc y addr" by (auto simp: find_Some_iff)
  with in_alloc_unique [of xs x y addr] rep x have "y = x" by (simp add: mem_rep_def)
  with y show ?thesis
    using find_alloc_closed [of xs ha addr] mem_rep_live(1) [OF rep] end_no_wrap [OF rep] by simp
qed

text \<open>\<open>n\<close> bytes from \<open>addr\<close> inside the allocation \<open>x\<close>.\<close>

definition gpu_range :: "alloc_entry \<Rightarrow> u64 \<Rightarrow> nat \<Rightarrow> bool" where
  "gpu_range x addr n \<longleftrightarrow> unat (ma_gpu_addr (snd x)) \<le> unat addr \<and> unat addr + n \<le> gpu_end (snd x)"

definition gpu_off :: "alloc_entry \<Rightarrow> u64 \<Rightarrow> nat" where
  "gpu_off x addr = unat addr - unat (ma_gpu_addr (snd x))"

lemma gpu_off_word:
  assumes "gpu_range x addr n"
  shows "unat (addr - ma_gpu_addr (snd x)) = gpu_off x addr"
  using assms by (simp add: gpu_range_def gpu_off_def unat_sub word_le_nat_alt)

lemma gpu_range_guard:
  assumes "gpu_range x addr (unat sz)"
  shows "addr - ma_gpu_addr (snd x) + sz \<le> ma_size (snd x)" and "gpu_off x addr + unat sz \<le> unat (ma_size (snd x))"
proof -
  show le: "gpu_off x addr + unat sz \<le> unat (ma_size (snd x))"
    using assms unfolding gpu_range_def gpu_off_def gpu_end_def by linarith
  moreover have "unat (ma_size (snd x)) < 2 ^ 64" using unsigned_less [of "ma_size (snd x)"] by simp
  ultimately show "addr - ma_gpu_addr (snd x) + sz \<le> ma_size (snd x)"
    using gpu_off_word [OF assms] by (simp add: word_le_nat_alt unat_word_ariths)
qed

lemma gpu_range_in: "gpu_range x addr n \<Longrightarrow> 0 < n \<Longrightarrow> in_alloc x addr"
  by (simp add: gpu_range_def in_alloc_def)

lemma nv_inv_stores:
  assumes "nv_inv ctx h xs cs" and "map_sizes hs' = map_sizes (h_stores h)" and "heap_wf hs'"
    and "gpu_allocations ctx' = gpu_allocations ctx" and "gpu_channels ctx' = gpu_channels ctx"
  shows "nv_inv ctx' (h\<lparr>h_stores := hs'\<rparr>) xs cs"
  using assms mem_rep_sizes [of "h_allocs h" "h_stores h" "next_gpu_addr h" xs hs'] by (simp add: nv_inv_def)

text \<open>The bytes of a range of the device memory.\<close>

definition gpu_bytes :: "nv_heap \<Rightarrow> alloc_entry \<Rightarrow> u64 \<Rightarrow> nat \<Rightarrow> u8 list option" where
  "gpu_bytes h x addr n =
     do { s \<leftarrow> entry_store x; b \<leftarrow> hp_mem (h_stores h) s; buf_rd b (gpu_off x addr) n }"

lemma h2d_in_range:
  assumes inv: "nv_inv ctx h xs cs" and x: "x \<in> set xs" "gpu_range x dst (length bytes)"
    and sz: "unat sz = length bytes" "bytes \<noteq> []"
  obtains b b' s where "entry_store x = Some s" "hp_mem (h_stores h) s = Some b"
    "buf_wr b (gpu_off x dst) bytes = Some b'"
    "nv_gpu_memcpy_h2d ctx h dst (Some bytes) sz =
      Some (NV_SUCCESS, ctx\<lparr>gpu_bytes_transferred := gpu_bytes_transferred ctx + sz\<rparr>,
        h\<lparr>h_stores := h_stores h\<lparr>hp_mem := (hp_mem (h_stores h))(s \<mapsto> b')\<rparr>\<rparr>)"
    "nv_inv (ctx\<lparr>gpu_bytes_transferred := gpu_bytes_transferred ctx + sz\<rparr>)
       (h\<lparr>h_stores := h_stores h\<lparr>hp_mem := (hp_mem (h_stores h))(s \<mapsto> b')\<rparr>\<rparr>) xs cs"
proof -
  have rep: "mem_rep (h_allocs h) (h_stores h) (next_gpu_addr h) xs"
    and al: "gpu_allocations ctx = map (\<lambda>x. Some (fst x)) xs" using inv by (simp_all add: nv_inv_def)
  have rng: "gpu_range x dst (unat sz)" using x(2) sz(1) by simp
  have sz0: "0 < unat sz" using sz by simp
  then have "sz \<noteq> 0" by (metis unat_0 less_not_refl)
  have fa: "nv_find_alloc_by_addr (h_allocs h) dst (gpu_allocations ctx) = Some (Some (snd x))"
    unfolding al by (rule find_alloc_in [OF rep x(1) gpu_range_in [OF rng sz0]])
  obtain s b where s: "entry_store x = Some s" "hp_mem (h_stores h) s = Some b" "b_size b = unat (ma_size (snd x))"
    using mem_rep_live(2) [OF rep x(1)] by blast
  obtain b' where w: "buf_wr b (gpu_off x dst) bytes = Some b'"
    using bs.wr_total [of "gpu_off x dst" bytes b] gpu_range_guard(2) [OF rng] s(3) sz(1) by auto
  let ?hs = "h_stores h\<lparr>hp_mem := (hp_mem (h_stores h))(s \<mapsto> b')\<rparr>"
  have "nv_gpu_memcpy_h2d ctx h dst (Some bytes) sz =
      Some (NV_SUCCESS, ctx\<lparr>gpu_bytes_transferred := gpu_bytes_transferred ctx + sz\<rparr>, h\<lparr>h_stores := ?hs\<rparr>)"
    using \<open>sz \<noteq> 0\<close> fa s w gpu_range_guard(1) [OF rng] gpu_off_word [OF rng] sz(1)
    by (simp add: nv_gpu_memcpy_h2d_def Let_def entry_store_def heap_get_def heap_put_def)
  moreover have "map_sizes ?hs = map_sizes (h_stores h)"
    using s(2) bs.wr_size [OF w] by (simp add: map_sizes_def fun_eq_iff)
  moreover have "heap_wf ?hs" using rep s(2) by (auto simp: mem_rep_def heap_wf_def)
  ultimately show thesis using that [OF s(1,2) w] nv_inv_stores [OF inv] by simp
qed

lemma d2h_in_range:
  assumes inv: "nv_inv ctx h xs cs" and x: "x \<in> set xs" "gpu_range x src (unat sz)" and sz: "0 < unat sz"
  shows "\<exists>bytes. nv_gpu_memcpy_d2h ctx h True src sz =
      Some (NV_SUCCESS, Some bytes, ctx\<lparr>gpu_bytes_transferred := gpu_bytes_transferred ctx + sz\<rparr>) \<and>
    gpu_bytes h x src (unat sz) = Some bytes"
proof -
  have rep: "mem_rep (h_allocs h) (h_stores h) (next_gpu_addr h) xs"
    and al: "gpu_allocations ctx = map (\<lambda>x. Some (fst x)) xs" using inv by (simp_all add: nv_inv_def)
  have "sz \<noteq> 0" using sz by (metis unat_0 less_not_refl)
  have fa: "nv_find_alloc_by_addr (h_allocs h) src (gpu_allocations ctx) = Some (Some (snd x))"
    unfolding al by (rule find_alloc_in [OF rep x(1) gpu_range_in [OF x(2) sz]])
  obtain s b where s: "entry_store x = Some s" "hp_mem (h_stores h) s = Some b" "b_size b = unat (ma_size (snd x))"
    using mem_rep_live(2) [OF rep x(1)] by blast
  obtain bytes where r: "buf_rd b (gpu_off x src) (unat sz) = Some bytes"
    using bs.rd_total [of "gpu_off x src" "unat sz" b] gpu_range_guard(2) [OF x(2)] s(3) by auto
  with \<open>sz \<noteq> 0\<close> fa s gpu_range_guard(1) [OF x(2)] gpu_off_word [OF x(2)] show ?thesis
    by (simp add: nv_gpu_memcpy_d2h_def Let_def entry_store_def heap_get_def gpu_bytes_def)
qed

text \<open>Two ranges of the device memory that share no byte.\<close>

definition gpu_disjoint :: "u64 \<Rightarrow> nat \<Rightarrow> u64 \<Rightarrow> nat \<Rightarrow> bool" where
  "gpu_disjoint a n b m \<longleftrightarrow> unat a + n \<le> unat b \<or> unat b + m \<le> unat a"

lemma gpu_bytes_put:
  assumes rep: "mem_rep ha (h_stores h) next xs" and x: "x \<in> set xs" "entry_store x = Some s"
      "hp_mem (h_stores h) s = Some b" "buf_wr b (gpu_off x dst) bytes = Some b'" "gpu_range x dst (length bytes)"
  shows "gpu_bytes (h\<lparr>h_stores := h_stores h\<lparr>hp_mem := (hp_mem (h_stores h))(s \<mapsto> b')\<rparr>\<rparr>) x dst (length bytes) = Some bytes"
    and "\<lbrakk>y \<in> set xs; gpu_range y src m; gpu_disjoint dst (length bytes) src m\<rbrakk> \<Longrightarrow>
      gpu_bytes (h\<lparr>h_stores := h_stores h\<lparr>hp_mem := (hp_mem (h_stores h))(s \<mapsto> b')\<rparr>\<rparr>) y src m = gpu_bytes h y src m"
proof -
  show "gpu_bytes (h\<lparr>h_stores := h_stores h\<lparr>hp_mem := (hp_mem (h_stores h))(s \<mapsto> b')\<rparr>\<rparr>) x dst (length bytes) = Some bytes"
    using x bs.rd_wr_same [OF x(4)] by (simp add: gpu_bytes_def)
next
  assume y: "y \<in> set xs" "gpu_range y src m" "gpu_disjoint dst (length bytes) src m"
  show "gpu_bytes (h\<lparr>h_stores := h_stores h\<lparr>hp_mem := (hp_mem (h_stores h))(s \<mapsto> b')\<rparr>\<rparr>) y src m = gpu_bytes h y src m"
  proof (cases "y = x")
    case True
    then have "gpu_off x src + m \<le> gpu_off x dst \<or> gpu_off x dst + length bytes \<le> gpu_off x src"
      using y x(5) by (auto simp: gpu_disjoint_def gpu_off_def gpu_range_def)
    with True x bs.rd_wr_other [OF x(4)] show ?thesis by (simp add: gpu_bytes_def)
  next
    case False
    have "distinct (map entry_store xs)" using rep by (simp add: mem_rep_def)
    with False x(1) y(1) have "entry_store y \<noteq> entry_store x" by (auto simp: distinct_map dest: inj_onD)
    with x(2) have "entry_store y \<noteq> Some s" by simp
    moreover obtain t where "entry_store y = Some t" using mem_rep_live(2) [OF rep y(1)] by blast
    ultimately show ?thesis by (simp add: gpu_bytes_def)
  qed
qed

lemma d2d_in_range:
  assumes inv: "nv_inv ctx h xs cs" and x: "x \<in> set xs" "gpu_range x src (unat sz)"
    and y: "y \<in> set xs" "gpu_range y dst (unat sz)" and sz: "0 < unat sz"
    and dis: "gpu_disjoint src (unat sz) dst (unat sz)"
  shows "\<exists>h' bytes. nv_gpu_memcpy_d2d ctx h dst src sz = Some (NV_SUCCESS, h') \<and> nv_inv ctx h' xs cs \<and>
    gpu_bytes h x src (unat sz) = Some bytes \<and> gpu_bytes h' y dst (unat sz) = Some bytes \<and>
    (\<forall>z addr m. z \<in> set xs \<longrightarrow> gpu_range z addr m \<longrightarrow> gpu_disjoint dst (unat sz) addr m \<longrightarrow>
       gpu_bytes h' z addr m = gpu_bytes h z addr m)"
proof -
  have rep: "mem_rep (h_allocs h) (h_stores h) (next_gpu_addr h) xs"
    and al: "gpu_allocations ctx = map (\<lambda>x. Some (fst x)) xs" using inv by (simp_all add: nv_inv_def)
  have "sz \<noteq> 0" using sz by (metis unat_0 less_not_refl)
  have fx: "nv_find_alloc_by_addr (h_allocs h) src (gpu_allocations ctx) = Some (Some (snd x))"
    unfolding al by (rule find_alloc_in [OF rep x(1) gpu_range_in [OF x(2) sz]])
  have fy: "nv_find_alloc_by_addr (h_allocs h) dst (gpu_allocations ctx) = Some (Some (snd y))"
    unfolding al by (rule find_alloc_in [OF rep y(1) gpu_range_in [OF y(2) sz]])
  obtain s b where s: "entry_store x = Some s" "hp_mem (h_stores h) s = Some b" "b_size b = unat (ma_size (snd x))"
    using mem_rep_live(2) [OF rep x(1)] by blast
  obtain t c where t: "entry_store y = Some t" "hp_mem (h_stores h) t = Some c" "b_size c = unat (ma_size (snd y))"
    using mem_rep_live(2) [OF rep y(1)] by blast
  obtain bytes where r: "buf_rd b (gpu_off x src) (unat sz) = Some bytes"
    using bs.rd_total [of "gpu_off x src" "unat sz" b] gpu_range_guard(2) [OF x(2)] s(3) by auto
  then have len: "length bytes = unat sz" by (rule bs.rd_length)
  obtain c' where w: "buf_wr c (gpu_off y dst) bytes = Some c'"
    using bs.wr_total [of "gpu_off y dst" bytes c] gpu_range_guard(2) [OF y(2)] t(3) len by auto
  have no: "\<not> (s = t \<and> ranges_overlap (gpu_off x src) (gpu_off y dst) (unat sz))"
  proof
    assume o: "s = t \<and> ranges_overlap (gpu_off x src) (gpu_off y dst) (unat sz)"
    have "distinct (map entry_store xs)" using rep by (simp add: mem_rep_def)
    then have "inj_on entry_store (set xs)" by (simp add: distinct_map)
    with o s(1) t(1) x(1) y(1) have "x = y" by (metis inj_onD)
    with o dis x(2) y(2) show False
      by (auto simp: ranges_overlap_def gpu_disjoint_def gpu_off_def gpu_range_def)
  qed
  let ?hs = "h_stores h\<lparr>hp_mem := (hp_mem (h_stores h))(t \<mapsto> c')\<rparr>"
  have call: "nv_gpu_memcpy_d2d ctx h dst src sz = Some (NV_SUCCESS, h\<lparr>h_stores := ?hs\<rparr>)"
    using \<open>sz \<noteq> 0\<close> fx fy s t r w no gpu_range_guard(1) [OF x(2)] gpu_off_word [OF x(2)]
      gpu_range_guard(1) [OF y(2)] gpu_off_word [OF y(2)]
    by (simp add: nv_gpu_memcpy_d2d_def Let_def entry_store_def heap_get_def heap_put_def)
  have "map_sizes ?hs = map_sizes (h_stores h)"
    using t(2) bs.wr_size [OF w] by (simp add: map_sizes_def fun_eq_iff)
  moreover have "heap_wf ?hs" using rep t(2) by (auto simp: mem_rep_def heap_wf_def)
  ultimately have "nv_inv ctx (h\<lparr>h_stores := ?hs\<rparr>) xs cs" using nv_inv_stores [OF inv] by simp
  moreover have "gpu_bytes h x src (unat sz) = Some bytes" using s r by (simp add: gpu_bytes_def)
  ultimately show ?thesis
    using call gpu_bytes_put [OF rep y(1) t(1,2) w] y(2) unfolding len by blast
qed

section \<open>Channels and shutdown\<close>

lemma length_remove1_le: "length (remove1 c cs) \<le> length cs"
  by (simp add: length_remove1)

lemma destroy_channel_cases:
  assumes inv: "nv_inv ctx h xs cs" and c: "c \<in> set cs"
  shows "\<exists>ctx' h' xs'. nv_gpu_destroy_channel ctx h (Some c) = Some (ctx', h') \<and> nv_inv ctx' h' xs' (remove1 c cs) \<and>
    h_pcie h' = h_pcie h \<and> gpu_pcie_device ctx' = gpu_pcie_device ctx \<and> set xs' \<subseteq> set xs"
proof -
  have ch: "gpu_channels ctx = map Some cs" and rep: "chan_rep (h_channels h) cs" using inv by (simp_all add: nv_inv_def)
  then obtain v where v: "hp_mem (h_channels h) c = Some v" using c by (auto simp: chan_rep_def)
  let ?hc = "h_channels h\<lparr>hp_mem := (hp_mem (h_channels h))(c \<mapsto> v\<lparr>ch_is_active := False\<rparr>)\<rparr>"
  let ?h = "h\<lparr>h_channels := ?hc\<rparr>" and ?a = "alloc_zero\<lparr>ma_gpu_addr := ch_pb_base v\<rparr>"
  have dm: "dom (hp_mem (h_channels h)) = set cs" using rep by (simp add: chan_rep_def)
  have "heap_wf ?hc" using rep v by (auto simp: chan_rep_def heap_wf_def)
  moreover have "dom (hp_mem ?hc) = set cs" using c dm by auto
  ultimately have "chan_rep ?hc cs" using rep by (simp add: chan_rep_def)
  then have inv': "nv_inv ctx ?h xs cs" using inv by (simp add: nv_inv_def)
  obtain ctx1 h1 xs1 where f: "nv_gpu_free_memory ctx ?h (Some ?a) = Some (ctx1, h1)" "nv_inv ctx1 h1 xs1 cs"
    and k: "h_channels h1 = ?hc" "h_pcie h1 = h_pcie h" "gpu_channels ctx1 = map Some cs"
      "gpu_pcie_device ctx1 = gpu_pcie_device ctx" "set xs1 \<subseteq> set xs"
  proof (rule free_cases [OF inv', of ?a], goal_cases)
    case 1
    then show thesis by (intro 1(1) [of "give_vram ?a ctx" ?h xs]) (auto simp: ch)
  next
    case (2 ys x zs ctx')
    then show thesis by (intro 2(1) [of ctx' "drop_alloc ?h x" "ys @ zs"]) (auto simp: ch)
  qed
  have rm: "remove_first (\<lambda>q. q = Some c) (map Some cs) = map Some (remove1 c cs)"
    by (induction cs) auto
  let ?hc' = "?hc\<lparr>hp_mem := (hp_mem ?hc)(c := None)\<rparr>"
  have d: "distinct cs" using rep by (simp add: chan_rep_def)
  have "heap_wf ?hc'" using rep by (auto simp: chan_rep_def heap_wf_def)
  moreover have "dom (hp_mem ?hc') = set (remove1 c cs)" using dm d by auto
  ultimately have rep': "chan_rep ?hc' (remove1 c cs)" using d by (simp add: chan_rep_def distinct_remove1)
  let ?ctx = "ctx1\<lparr>gpu_channels := map Some (remove1 c cs)\<rparr>"
  have "nv_gpu_destroy_channel ctx h (Some c) = Some (?ctx, h1\<lparr>h_channels := ?hc'\<rparr>)"
    using v f(1) k rm by (simp add: nv_gpu_destroy_channel_def heap_get_def heap_put_def heap_free_def)
  moreover have "nv_inv ?ctx (h1\<lparr>h_channels := ?hc'\<rparr>) xs1 (remove1 c cs)"
  proof -
    have "length cs \<le> 64" using inv by (simp add: nv_inv_def)
    then have "length (remove1 c cs) \<le> 64" by (rule order_trans [OF length_remove1_le])
    with f(2) rep' show ?thesis by (simp add: nv_inv_def)
  qed
  ultimately show ?thesis using k by auto
qed

lemma remove1_last: "distinct (ys @ [y]) \<Longrightarrow> remove1 y (ys @ [y]) = ys"
  by (simp add: remove1_append)

lemma destroy_channels_total:
  "nv_inv ctx h xs cs \<Longrightarrow> \<exists>ctx' h' xs'. destroy_channels ctx h = Some (ctx', h') \<and> nv_inv ctx' h' xs' [] \<and>
    h_pcie h' = h_pcie h \<and> gpu_pcie_device ctx' = gpu_pcie_device ctx"
proof (induction cs arbitrary: ctx h xs rule: rev_induct)
  case Nil
  then show ?case by (subst destroy_channels.simps) (auto simp: nv_inv_def)
next
  case (snoc c cs)
  have ch: "gpu_channels ctx = map Some cs @ [Some c]" using snoc.prems by (simp add: nv_inv_def)
  have "distinct (cs @ [c])" using snoc.prems by (simp add: nv_inv_def chan_rep_def)
  then have "remove1 c (cs @ [c]) = cs" by (rule remove1_last)
  with destroy_channel_cases [OF snoc.prems, of c] obtain ctx1 h1 xs1 where
    d: "nv_gpu_destroy_channel ctx h (Some c) = Some (ctx1, h1)" "nv_inv ctx1 h1 xs1 cs"
      "h_pcie h1 = h_pcie h" "gpu_pcie_device ctx1 = gpu_pcie_device ctx" by auto
  have "destroy_channels ctx h = destroy_channels ctx1 h1"
    by (subst destroy_channels.simps) (simp add: ch d(1))
  with snoc.IH [OF d(2)] d(3,4) show ?case by auto
qed

lemma free_allocations_total:
  "nv_inv ctx h xs cs \<Longrightarrow> \<exists>ctx' h'. free_allocations ctx h = Some (ctx', h') \<and> nv_inv ctx' h' [] cs \<and>
    h_pcie h' = h_pcie h \<and> gpu_pcie_device ctx' = gpu_pcie_device ctx"
proof (induction xs arbitrary: ctx h rule: rev_induct)
  case Nil
  then show ?case by (subst free_allocations.simps) (auto simp: nv_inv_def)
next
  case (snoc x xs)
  have al: "gpu_allocations ctx = map (\<lambda>x. Some (fst x)) xs @ [Some (fst x)]" using snoc.prems by (simp add: nv_inv_def)
  have rep: "mem_rep (h_allocs h) (h_stores h) (next_gpu_addr h) (xs @ [x])" using snoc.prems by (simp add: nv_inv_def)
  have live: "hp_mem (h_allocs h) (fst x) = Some (snd x)" using mem_rep_live(1) [OF rep] by simp
  let ?ctx = "(give_vram (snd x) ctx)\<lparr>gpu_allocations := map (\<lambda>x. Some (fst x)) xs\<rparr>"
  from free_hits [of ctx h xs x "[]" cs "snd x"] snoc.prems
  have f: "nv_gpu_free_memory ctx h (Some (snd x)) = Some (?ctx, drop_alloc h x)" "nv_inv ?ctx (drop_alloc h x) xs cs"
    by simp_all
  have "free_allocations ctx h = free_allocations ?ctx (drop_alloc h x)"
    by (subst free_allocations.simps) (simp add: al heap_get_def live f(1))
  with snoc.IH [OF f(2)] show ?case by simp
qed

subsection \<open>The device below\<close>

text \<open>The context drives a device that a reachable state of the PCIe layer owns.\<close>

definition pcie_link :: "PCIeTunnelContext \<Rightarrow> NVGpuContext \<Rightarrow> nv_heap \<Rightarrow> bool" where
  "pcie_link pctx ctx h \<longleftrightarrow>
     (\<exists>p. gpu_pcie_device ctx = Some p \<and> pcie_reach pctx (h_pcie h) \<and> Some p \<in> set (devices pctx))"

lemma reach_device:
  assumes "pcie_reach pctx hp" and "Some p \<in> set (devices pctx)"
  obtains d where "heap_get (h_devices hp) p = Some d" and "dev_in (h_maps hp) d"
proof -
  from preach_owned [OF assms(1)] obtain ps where own: "pcie_owned pctx hp ps" by blast
  with assms(2) have p: "p \<in> set ps" by (auto simp: pcie_owned_def)
  then have "p \<in> dom (hp_mem (h_devices hp))" using own by (simp add: pcie_owned_def)
  then obtain d where d: "hp_mem (h_devices hp) p = Some d" by blast
  with that owned_dev_in [OF own p d] show thesis by (simp add: heap_get_def)
qed

lemma reach_dev_step:
  assumes r: "pcie_reach pctx hp" "Some p \<in> set (devices pctx)" and d: "heap_get (h_devices hp) p = Some d"
    and st: "dev_step (h_maps hp) d m' d'"
  shows "pcie_reach pctx (hp\<lparr>h_devices := h_devices hp\<lparr>hp_mem := (hp_mem (h_devices hp))(p \<mapsto> d')\<rparr>, h_maps := m'\<rparr>)"
  using preach_device [OF r d st] d by (auto simp: heap_put_def heap_get_def)

lemma ucast_not_top: "(ucast (off :: u32) :: u64) \<noteq> - 4"
proof
  assume a: "(ucast off :: u64) = - 4"
  have "unat off < 2 ^ 32" using unsigned_less [of off] by simp
  then have "unat (ucast off :: u64) < 2 ^ 32" by (simp add: unsigned_ucast_eq take_bit_nat_eq_self)
  then show False unfolding a by simp
qed

lemma read_reg_total:
  assumes "pcie_link pctx ctx h"
  shows "\<exists>v. nv_gpu_read_reg ctx h off = Some v"
proof -
  from assms obtain p where "gpu_pcie_device ctx = Some p" and r: "pcie_reach pctx (h_pcie h)" "Some p \<in> set (devices pctx)"
    by (auto simp: pcie_link_def)
  moreover obtain d where "heap_get (h_devices (h_pcie h)) p = Some d" "dev_in (h_maps (h_pcie h)) d"
    by (rule reach_device [OF r])
  ultimately show ?thesis
    using mmio_defined(1) [of "h_maps (h_pcie h)" d 0 "ucast off"] ucast_not_top by (auto simp: nv_gpu_read_reg_def)
qed

lemma write_reg_total:
  assumes "pcie_link pctx ctx h"
  shows "\<exists>hp. nv_gpu_write_reg ctx h off v = Some (h\<lparr>h_pcie := hp\<rparr>) \<and> pcie_link pctx ctx (h\<lparr>h_pcie := hp\<rparr>)"
proof -
  from assms obtain p where p: "gpu_pcie_device ctx = Some p" and r: "pcie_reach pctx (h_pcie h)" "Some p \<in> set (devices pctx)"
    by (auto simp: pcie_link_def)
  obtain d where d: "heap_get (h_devices (h_pcie h)) p = Some d" "dev_in (h_maps (h_pcie h)) d"
    by (rule reach_device [OF r])
  obtain m where m: "pcie_mmio_write32 (h_maps (h_pcie h)) (Some d) 0 (ucast off) v = Some m"
    using mmio_defined(2) [OF d(2), of 0 "ucast off" v] ucast_not_top by auto
  have same: "h_devices (h_pcie h)\<lparr>hp_mem := (hp_mem (h_devices (h_pcie h)))(p \<mapsto> d)\<rparr> = h_devices (h_pcie h)"
    using d(1) by (simp add: heap_get_def map_upd_triv)
  have "pcie_reach pctx ((h_pcie h)\<lparr>h_maps := m\<rparr>)"
    using reach_dev_step [OF r d(1) step_write32 [OF m]] unfolding same by simp
  with p d(1) m r(2) show ?thesis by (auto simp: nv_gpu_write_reg_def pcie_link_def)
qed

lemma write_reg_devices:
  "nv_gpu_write_reg ctx h off v = Some h' \<Longrightarrow> h_devices (h_pcie h') = h_devices (h_pcie h)"
  by (auto simp: nv_gpu_write_reg_def split: option.splits elim!: bind_eq_SomeE)

lemma reset_total:
  assumes "pcie_link pctx ctx h"
  shows "\<exists>hp. nv_gpu_reset ctx h = Some (NV_SUCCESS, h\<lparr>h_pcie := hp\<rparr>) \<and> pcie_link pctx ctx (h\<lparr>h_pcie := hp\<rparr>) \<and>
    h_devices hp = h_devices (h_pcie h)"
proof -
  obtain hp1 where 1: "nv_gpu_write_reg ctx h NV_PMC_INTR_EN_0 0 = Some (h\<lparr>h_pcie := hp1\<rparr>)" "pcie_link pctx ctx (h\<lparr>h_pcie := hp1\<rparr>)"
    using write_reg_total [OF assms] by blast
  obtain v where v: "nv_gpu_read_reg ctx (h\<lparr>h_pcie := hp1\<rparr>) NV_PMC_ENABLE = Some v" using read_reg_total [OF 1(2)] by blast
  obtain hp2 where 2: "nv_gpu_write_reg ctx (h\<lparr>h_pcie := hp1\<rparr>) NV_PMC_ENABLE 0 = Some (h\<lparr>h_pcie := hp2\<rparr>)" "pcie_link pctx ctx (h\<lparr>h_pcie := hp2\<rparr>)"
    using write_reg_total [OF 1(2), of NV_PMC_ENABLE 0] by auto
  obtain hp3 where 3: "nv_gpu_write_reg ctx (h\<lparr>h_pcie := hp2\<rparr>) NV_PMC_ENABLE v = Some (h\<lparr>h_pcie := hp3\<rparr>)" "pcie_link pctx ctx (h\<lparr>h_pcie := hp3\<rparr>)"
    using write_reg_total [OF 2(2), of NV_PMC_ENABLE v] by auto
  obtain hp4 where 4: "nv_gpu_write_reg ctx (h\<lparr>h_pcie := hp3\<rparr>) NV_PMC_INTR_0 0xFFFFFFFF = Some (h\<lparr>h_pcie := hp4\<rparr>)" "pcie_link pctx ctx (h\<lparr>h_pcie := hp4\<rparr>)"
    using write_reg_total [OF 3(2), of NV_PMC_INTR_0 "0xFFFFFFFF"] by auto
  have "h_devices hp4 = h_devices (h_pcie h)"
    using write_reg_devices [OF 1(1)] write_reg_devices [OF 2(1)] write_reg_devices [OF 3(1)] write_reg_devices [OF 4(1)] by simp
  with 1(1) v 2(1) 3(1) 4 show ?thesis by (auto simp: nv_gpu_reset_def)
qed

text \<open>The simulated interrupt register keeps what the reset writes to clear it.\<close>

lemma write_intr_error:
  assumes link: "pcie_link pctx ctx h" and p: "gpu_pcie_device ctx = Some p"
    and d: "heap_get (h_devices (h_pcie h)) p = Some d" and hit: "mmio_hit d 0 (ucast NV_PMC_INTR_0) 4"
    and w: "nv_gpu_write_reg ctx h NV_PMC_INTR_0 0xFFFFFFFF = Some h'"
  shows "nv_gpu_check_error ctx h' = Some (NV_ERR_GPU_ERROR, ctx\<lparr>gpu_state := NV_GPU_STATE_ERROR\<rparr>)"
proof -
  have "dev_in (h_maps (h_pcie h)) d" using link p reach_dev_in [OF _ _ d] by (auto simp: pcie_link_def)
  from mmio_write_read32 [OF this hit ucast_not_top, of "0xFFFFFFFF"] obtain m where
    "pcie_mmio_write32 (h_maps (h_pcie h)) (Some d) 0 (ucast NV_PMC_INTR_0) 0xFFFFFFFF = Some m"
    "pcie_mmio_read32 m (Some d) 0 (ucast NV_PMC_INTR_0) = Some 0xFFFFFFFF" by blast
  with w p d show ?thesis
    by (auto simp: nv_gpu_write_reg_def nv_gpu_check_error_def nv_gpu_read_reg_def)
qed

lemma reset_then_error:
  assumes link: "pcie_link pctx ctx h" and p: "gpu_pcie_device ctx = Some p"
    and d: "heap_get (h_devices (h_pcie h)) p = Some d" and hit: "mmio_hit d 0 (ucast NV_PMC_INTR_0) 4"
  shows "\<exists>h'. nv_gpu_reset ctx h = Some (NV_SUCCESS, h') \<and>
    nv_gpu_check_error ctx h' = Some (NV_ERR_GPU_ERROR, ctx\<lparr>gpu_state := NV_GPU_STATE_ERROR\<rparr>)"
proof -
  obtain hp1 where 1: "nv_gpu_write_reg ctx h NV_PMC_INTR_EN_0 0 = Some (h\<lparr>h_pcie := hp1\<rparr>)" "pcie_link pctx ctx (h\<lparr>h_pcie := hp1\<rparr>)"
    using write_reg_total [OF link] by blast
  obtain v where v: "nv_gpu_read_reg ctx (h\<lparr>h_pcie := hp1\<rparr>) NV_PMC_ENABLE = Some v" using read_reg_total [OF 1(2)] by blast
  obtain hp2 where 2: "nv_gpu_write_reg ctx (h\<lparr>h_pcie := hp1\<rparr>) NV_PMC_ENABLE 0 = Some (h\<lparr>h_pcie := hp2\<rparr>)" "pcie_link pctx ctx (h\<lparr>h_pcie := hp2\<rparr>)"
    using write_reg_total [OF 1(2), of NV_PMC_ENABLE 0] by auto
  obtain hp3 where 3: "nv_gpu_write_reg ctx (h\<lparr>h_pcie := hp2\<rparr>) NV_PMC_ENABLE v = Some (h\<lparr>h_pcie := hp3\<rparr>)" "pcie_link pctx ctx (h\<lparr>h_pcie := hp3\<rparr>)"
    using write_reg_total [OF 2(2), of NV_PMC_ENABLE v] by auto
  obtain hp4 where 4: "nv_gpu_write_reg ctx (h\<lparr>h_pcie := hp3\<rparr>) NV_PMC_INTR_0 0xFFFFFFFF = Some (h\<lparr>h_pcie := hp4\<rparr>)"
    using write_reg_total [OF 3(2), of NV_PMC_INTR_0 "0xFFFFFFFF"] by auto
  have "h_devices hp3 = h_devices (h_pcie h)"
    using write_reg_devices [OF 1(1)] write_reg_devices [OF 2(1)] write_reg_devices [OF 3(1)] by simp
  with d have "heap_get (h_devices (h_pcie (h\<lparr>h_pcie := hp3\<rparr>))) p = Some d" by simp
  from write_intr_error [OF 3(2) p this hit 4] 1(1) v 2(1) 3(1) 4 show ?thesis by (simp add: nv_gpu_reset_def)
qed

lemma query_total:
  assumes "pcie_link pctx ctx h"
  shows "\<exists>info. nv_gpu_query_info ctx h = Some (NV_SUCCESS, ctx\<lparr>gpu_info := info\<rparr>) \<and>
    di_max_threads_per_block info = 1024 \<and> 8 * 1024 * 1024 * 1024 \<le> di_vram_size info"
proof -
  from assms obtain p where p: "gpu_pcie_device ctx = Some p" and r: "pcie_reach pctx (h_pcie h)" "Some p \<in> set (devices pctx)"
    by (auto simp: pcie_link_def)
  obtain d where "heap_get (h_devices (h_pcie h)) p = Some d" by (rule reach_device [OF r])
  moreover obtain v where "nv_gpu_read_reg ctx h NV_PMC_BOOT_0 = Some v" using read_reg_total [OF assms] by blast
  moreover obtain w where "nv_gpu_read_reg ctx h NV_PMC_BOOT_1 = Some w" using read_reg_total [OF assms] by blast
  ultimately have "nv_gpu_query_info ctx h = Some (NV_SUCCESS, ctx\<lparr>gpu_info := queried_info v (dv_device_id d) (gpu_info ctx)\<rparr>)"
    using p by (simp add: nv_gpu_query_info_def)
  then show ?thesis by (auto simp: queried_info_def Let_def)
qed

text \<open>The calls of the PCIe layer keep its state reachable.\<close>

lemma map_device_reach:
  assumes r: "pcie_reach pctx hp" "Some p \<in> set (devices pctx)"
  shows "\<exists>ret hp'. map_device_bar hp p i = Some (ret, hp') \<and> pcie_reach pctx hp'"
proof -
  obtain d where d: "heap_get (h_devices hp) p = Some d" "dev_in (h_maps hp) d" by (rule reach_device [OF r])
  obtain ret e m where m: "pcie_map_bar (h_maps hp) (Some d) i = (ret, Some e, m)"
    using map_bar_step [OF d(2)] by (metis prod_cases3)
  from reach_dev_step [OF r d(1) step_map [OF m]] d(1) m show ?thesis
    by (auto simp: map_device_bar_def heap_put_def heap_get_def)
qed

lemma unmap_device_reach:
  assumes r: "pcie_reach pctx hp" "Some p \<in> set (devices pctx)" and i: "i < PCIE_BAR_COUNT"
    and d: "heap_get (h_devices hp) p = Some d"
  shows "\<exists>hp' e. unmap_device_bar hp p (int i) = Some hp' \<and> pcie_reach pctx hp' \<and>
    heap_get (h_devices hp') p = Some e \<and>
    e = set_bar d i ((dv_bars d ! i)\<lparr>virtual_base := None, is_mapped := False\<rparr>)"
proof -
  have din: "dev_in (h_maps hp) d" using reach_dev_in [OF r d] .
  let ?e = "set_bar d i ((dv_bars d ! i)\<lparr>virtual_base := None, is_mapped := False\<rparr>)"
  obtain m where m: "pcie_unmap_bar (h_maps hp) (Some d) (int i) = Some (Some ?e, m)"
    using unmap_bar_step [OF din i] by blast
  from reach_dev_step [OF r d step_unmap [OF m]] d m show ?thesis
    by (auto simp: unmap_device_bar_def heap_put_def heap_get_def)
qed

definition bars_at :: "pcie_heap \<Rightarrow> ptr \<Rightarrow> PCIeBar list option" where
  "bars_at hp p = map_option dv_bars (heap_get (h_devices hp) p)"

lemma enable_device_reach:
  assumes r: "pcie_reach pctx hp" "Some p \<in> set (devices pctx)"
  shows "\<exists>hp'. enable_device_at pcie_enable_device hp p = Some hp' \<and> pcie_reach pctx hp' \<and> bars_at hp' p = bars_at hp p"
    and "\<exists>hp'. enable_device_at pcie_enable_bus_master hp p = Some hp' \<and> pcie_reach pctx hp' \<and> bars_at hp' p = bars_at hp p"
proof -
  obtain d where d: "heap_get (h_devices hp) p = Some d" "dev_in (h_maps hp) d" by (rule reach_device [OF r])
  then have ok: "cfg_ok d" by (simp add: dev_in_def dev_ok_def)
  have same: "hp\<lparr>h_devices := hv, h_maps := h_maps hp\<rparr> = hp\<lparr>h_devices := hv\<rparr>" for hv by simp
  obtain e where e: "pcie_enable_device (Some d) = Some (PCIE_SUCCESS, Some e)" "dv_bars e = dv_bars d"
    using enable_device_closed [OF ok] by auto
  from reach_dev_step [OF r d(1) step_enable [OF e(1)]] d(1) e
  show "\<exists>hp'. enable_device_at pcie_enable_device hp p = Some hp' \<and> pcie_reach pctx hp' \<and> bars_at hp' p = bars_at hp p"
    by (auto simp: enable_device_at_def heap_put_def heap_get_def same bars_at_def)
  obtain f where f: "pcie_enable_bus_master (Some d) = Some (PCIE_SUCCESS, Some f)" "dv_bars f = dv_bars d"
    using enable_bus_master_closed [OF ok] by auto
  from reach_dev_step [OF r d(1) step_master [OF f(1)]] d(1) f
  show "\<exists>hp'. enable_device_at pcie_enable_bus_master hp p = Some hp' \<and> pcie_reach pctx hp' \<and> bars_at hp' p = bars_at hp p"
    by (auto simp: enable_device_at_def heap_put_def heap_get_def same bars_at_def)
qed

lemma init_total:
  assumes r: "pcie_reach pctx (h_pcie h)" "Some p \<in> set (devices pctx)"
  shows "\<exists>ret ctx hp. nv_gpu_init ctx0 h (Some p) = Some (ret, ctx, h\<lparr>h_pcie := hp\<rparr>) \<and> pcie_reach pctx hp \<and>
    gpu_allocations ctx = [] \<and> gpu_channels ctx = [] \<and> gpu_pcie_device ctx = Some p \<and>
    (ret = NV_SUCCESS \<or> ret = NV_ERR_IO) \<and>
    (ret = NV_SUCCESS \<longrightarrow> gpu_vram_free ctx = di_vram_size (gpu_info ctx) \<and> gpu_state ctx = NV_GPU_STATE_READY \<and>
       di_max_threads_per_block (gpu_info ctx) = 1024 \<and> 8 * 1024 * 1024 * 1024 \<le> di_vram_size (gpu_info ctx)) \<and>
    (\<forall>hp1 hp2. map_device_bar (h_pcie h) p 0 = Some (PCIE_SUCCESS, hp1) \<longrightarrow>
       map_device_bar hp1 p 1 = Some (PCIE_SUCCESS, hp2) \<longrightarrow> ret = NV_SUCCESS \<and> bars_at hp p = bars_at hp2 p)"
proof -
  let ?c = "gpu_ctx_zero\<lparr>gpu_pcie_device := Some p, gpu_state := NV_GPU_STATE_INITIALIZING\<rparr>"
  have c: "gpu_allocations ?c = []" "gpu_channels ?c = []" by (simp_all add: gpu_ctx_zero_def)
  obtain ret1 hp1 where 1: "map_device_bar (h_pcie h) p 0 = Some (ret1, hp1)" "pcie_reach pctx hp1"
    using map_device_reach [OF r] by blast
  obtain ret2 hp2 where 2: "map_device_bar hp1 p 1 = Some (ret2, hp2)" "pcie_reach pctx hp2"
    using map_device_reach [OF 1(2) r(2)] by blast
  show ?thesis
  proof (cases "ret1 = PCIE_SUCCESS \<and> ret2 = PCIE_SUCCESS")
    case False
    obtain d where d: "heap_get (h_devices hp2) p = Some d" by (rule reach_device [OF 2(2) r(2)])
    have z: "(0::nat) < PCIE_BAR_COUNT" by (simp add: pcie_consts)
    obtain hp3 where "unmap_device_bar hp2 p 0 = Some hp3" "pcie_reach pctx hp3"
      using unmap_device_reach [OF 2(2) r(2) z d] by auto
    with False 1 2 c show ?thesis by (cases "ret1 = PCIE_SUCCESS") (auto simp: nv_gpu_init_def Let_def)
  next
    case True
    obtain hp3 where 3: "enable_device_at pcie_enable_device hp2 p = Some hp3" "pcie_reach pctx hp3" "bars_at hp3 p = bars_at hp2 p"
      using enable_device_reach(1) [OF 2(2) r(2)] by blast
    obtain hp4 where 4: "enable_device_at pcie_enable_bus_master hp3 p = Some hp4" "pcie_reach pctx hp4" "bars_at hp4 p = bars_at hp3 p"
      using enable_device_reach(2) [OF 3(2) r(2)] by blast
    let ?h = "h\<lparr>h_pcie := hp4\<rparr>"
    have link: "pcie_link pctx ?c ?h" using 4(2) r(2) by (auto simp: pcie_link_def)
    obtain info where q: "nv_gpu_query_info ?c ?h = Some (NV_SUCCESS, ?c\<lparr>gpu_info := info\<rparr>)"
      "di_max_threads_per_block info = 1024" "8 * 1024 * 1024 * 1024 \<le> di_vram_size info"
      using query_total [OF link] by blast
    let ?c' = "?c\<lparr>gpu_info := info\<rparr>"
    have link': "pcie_link pctx ?c' ?h" using 4(2) r(2) by (auto simp: pcie_link_def)
    obtain hp5 where 5: "nv_gpu_reset ?c' ?h = Some (NV_SUCCESS, ?h\<lparr>h_pcie := hp5\<rparr>)" "pcie_link pctx ?c' (?h\<lparr>h_pcie := hp5\<rparr>)"
      "h_devices hp5 = h_devices hp4"
      using reset_total [OF link'] by auto
    have r5: "pcie_reach pctx hp5" using 5(2) by (auto simp: pcie_link_def)
    obtain d where d: "heap_get (h_devices hp5) p = Some d" by (rule reach_device [OF r5 r(2)])
    have "nv_gpu_init ctx0 h (Some p) = Some (NV_SUCCESS, ?c'\<lparr>gpu_vram_free := di_vram_size info,
        gpu_state := NV_GPU_STATE_READY\<rparr>, h\<lparr>h_pcie := hp5\<rparr>)"
      using True 1 2 3 4 q 5 d by (simp add: nv_gpu_init_def Let_def)
    moreover have "bars_at hp5 p = bars_at hp2 p" using 3(3) 4(3) 5(3) by (simp add: bars_at_def)
    then have "map_device_bar (h_pcie h) p 0 = Some (PCIE_SUCCESS, k1) \<Longrightarrow>
        map_device_bar k1 p 1 = Some (PCIE_SUCCESS, k2) \<Longrightarrow> bars_at hp5 p = bars_at k2 p" for k1 k2
      using 1(1) 2(1) by simp
    ultimately show ?thesis
      using r5 c q(2,3)
      by (intro exI [of _ NV_SUCCESS] exI [of _ "?c'\<lparr>gpu_vram_free := di_vram_size info, gpu_state := NV_GPU_STATE_READY\<rparr>"]
          exI [of _ hp5]) simp
  qed
qed

subsection \<open>Channel creation\<close>

lemma alloc_channel_frame: "nv_gpu_alloc_memory ctx (h\<lparr>h_channels := hc\<rparr>) a =
      map_option (\<lambda>(ret, out, c, k). (ret, out, c, k\<lparr>h_channels := hc\<rparr>)) (nv_gpu_alloc_memory ctx h a)"
  by (auto simp: nv_gpu_alloc_memory_def Let_def bind_map_option map_option_bind heap_free_def
      split: option.splits prod.splits)

lemma create_channel_unfold:
  fixes ctx h
  defines "n \<equiv> hp_next (h_channels h)"
    and "ch \<equiv> channel_zero\<lparr>ch_id := of_nat (length (gpu_channels ctx)), ch_pb_size := 1024 * 1024, ch_is_active := False\<rparr>"
  assumes "length (gpu_channels ctx) < 64" and "\<not> hp_oom (h_channels h) n"
  shows "nv_gpu_create_channel ctx h True =
    do { (ret, pb, ctx', h') \<leftarrow> nv_gpu_alloc_memory ctx
           (h\<lparr>h_channels := h_channels h\<lparr>hp_mem := (hp_mem (h_channels h))(n \<mapsto> ch), hp_next := Suc n\<rparr>\<rparr>)
           (Some (alloc_zero\<lparr>ma_size := 1024 * 1024, ma_type := NV_MEM_TYPE_SYSTEM\<rparr>));
         if ret \<noteq> NV_SUCCESS then
           do { hc \<leftarrow> heap_free (h_channels h') n; Some (ret, None, ctx', h'\<lparr>h_channels := hc\<rparr>) }
         else
           do { pb \<leftarrow> pb;
                hc \<leftarrow> heap_put (h_channels h') n (ch\<lparr>ch_pb_base := ma_gpu_addr pb, ch_pb_put := 0, ch_pb_get := 0,
                        ch_is_active := True\<rparr>);
                Some (NV_SUCCESS, Some n, ctx'\<lparr>gpu_channels := gpu_channels ctx' @ [Some n]\<rparr>, h'\<lparr>h_channels := hc\<rparr>) } }"
  unfolding n_def ch_def using assms(3,4) by (simp add: nv_gpu_create_channel_def n_def Let_def heap_alloc_def cong: if_cong)

lemma create_channel_cases:
  assumes inv: "nv_inv ctx h xs cs" and room: "addr_room h (1024 * 1024)"
  shows "\<exists>ret out ctx' h' xs' cs'. nv_gpu_create_channel ctx h has_out = Some (ret, out, ctx', h') \<and>
    nv_inv ctx' h' xs' cs' \<and> h_pcie h' = h_pcie h \<and> gpu_pcie_device ctx' = gpu_pcie_device ctx \<and>
    (ret = NV_SUCCESS \<longleftrightarrow> out \<noteq> None) \<and>
    (if ret = NV_SUCCESS then \<exists>c. out = Some c \<and> cs' = cs @ [c] \<and> length xs' = Suc (length xs)
     else cs' = cs \<and> xs' = xs \<and> ctx' = ctx)"
proof (cases "has_out \<and> length cs < 64 \<and> \<not> hp_oom (h_channels h) (hp_next (h_channels h))")
  case False
  let ?hc = "h_channels h\<lparr>hp_next := Suc (hp_next (h_channels h))\<rparr>"
  have "chan_rep ?hc cs" using inv heap_wf_bump [of "h_channels h"] by (simp add: nv_inv_def chan_rep_def)
  then have "nv_inv ctx (h\<lparr>h_channels := ?hc\<rparr>) xs cs" using inv by (simp add: nv_inv_def)
  moreover have "length (gpu_channels ctx) = length cs" using inv by (simp add: nv_inv_def)
  ultimately show ?thesis
    using False inv by (auto simp: nv_gpu_create_channel_def Let_def heap_alloc_def)
next
  case True
  let ?n = "hp_next (h_channels h)"
  let ?ch = "channel_zero\<lparr>ch_id := of_nat (length (gpu_channels ctx)), ch_pb_size := 1024 * 1024, ch_is_active := False\<rparr>"
  let ?hc = "h_channels h\<lparr>hp_mem := (hp_mem (h_channels h))(?n \<mapsto> ?ch), hp_next := Suc ?n\<rparr>"
  let ?h = "h\<lparr>h_channels := h_channels h\<lparr>hp_next := Suc ?n\<rparr>\<rparr>"
  let ?a = "alloc_zero\<lparr>ma_size := 1024 * 1024, ma_type := NV_MEM_TYPE_SYSTEM\<rparr>"
  have crep: "chan_rep (h_channels h) cs" using inv by (simp add: nv_inv_def)
  then have fr: "?n \<notin> set cs" and wf: "heap_wf (h_channels h)"
    using heap_wf_fresh [of "h_channels h"] by (auto simp: chan_rep_def)
  have len: "length (gpu_channels ctx) < 64" using True inv by (simp add: nv_inv_def)
  have h: "has_out" and oom: "\<not> hp_oom (h_channels h) ?n" using True by simp_all
  note call = create_channel_unfold [OF len oom]
  have crep': "chan_rep (?hc\<lparr>hp_mem := (hp_mem ?hc)(?n := None)\<rparr>) cs"
    using crep fr heap_wf_bump [OF wf, of "Suc ?n"] heap_wf_fresh [OF wf] by (simp add: chan_rep_def fresh_upd)
  let ?hc1 = "\<lambda>v. ?hc\<lparr>hp_mem := (hp_mem ?hc)(?n \<mapsto> v)\<rparr>"
  have crep1: "chan_rep (?hc1 v) (cs @ [?n])" for v
    using crep fr wf by (auto simp: chan_rep_def heap_wf_def less_Suc_eq)
  have room': "addr_room h (ma_size ?a)" using room by simp
  from inv room' show ?thesis
  proof (cases rule: alloc_cases)
    case (rejected e)
    moreover have "e \<noteq> NV_SUCCESS" using rejected(1) by (auto simp: alloc_guard_def split: if_splits)
    moreover have "nv_inv ctx (h\<lparr>h_channels := ?hc\<lparr>hp_mem := (hp_mem ?hc)(?n := None)\<rparr>\<rparr>) xs cs"
      using inv crep' by (simp add: nv_inv_def)
    ultimately show ?thesis using call h by (auto simp: alloc_channel_frame heap_free_def)
  next
    case (failed out h')
    moreover have "nv_inv ctx (h'\<lparr>h_channels := ?hc\<lparr>hp_mem := (hp_mem ?hc)(?n := None)\<rparr>\<rparr>) xs cs"
      using failed(4) crep' by (simp add: nv_inv_def)
    ultimately show ?thesis using call h by (auto simp: alloc_channel_frame heap_free_def)
  next
    case (ok ctx' h' r)
    let ?v = "?ch\<lparr>ch_pb_base := ma_gpu_addr (new_alloc h ?a), ch_pb_put := 0, ch_pb_get := 0, ch_is_active := True\<rparr>"
    let ?c = "ctx'\<lparr>gpu_channels := map Some cs @ [Some ?n]\<rparr>" and ?h' = "h'\<lparr>h_channels := ?hc1 ?v\<rparr>"
    have ch: "gpu_channels ctx' = map Some cs" using ok(4) by (simp add: nv_inv_def)
    have "nv_gpu_create_channel ctx h has_out = Some (NV_SUCCESS, Some ?n, ?c, ?h')"
      using call h ok(3) ch by (simp add: alloc_channel_frame heap_put_def)
    moreover have "nv_inv ?c ?h' (xs @ [(r, new_alloc h ?a)]) (cs @ [?n])"
      using ok(4) crep1 [of ?v] True by (simp add: nv_inv_def)
    moreover have "gpu_pcie_device ?c = gpu_pcie_device ctx" "h_pcie ?h' = h_pcie h" using ok(5,7) by simp_all
    moreover have "length (xs @ [(r, new_alloc h ?a)]) = Suc (length xs)" by simp
    ultimately show ?thesis by fastforce
  qed
qed

section \<open>The reachable states\<close>

lemma h2d_shape:
  assumes "nv_gpu_memcpy_h2d ctx h dst src sz = Some (ret, ctx', h')"
  shows "\<exists>n hs. ctx' = ctx\<lparr>gpu_bytes_transferred := n\<rparr> \<and> h' = h\<lparr>h_stores := hs\<rparr> \<and>
    map_sizes hs = map_sizes (h_stores h) \<and> (heap_wf (h_stores h) \<longrightarrow> heap_wf hs)"
proof -
  have triv: "\<exists>n. ctx = ctx\<lparr>gpu_bytes_transferred := n\<rparr>" by (rule exI [of _ "gpu_bytes_transferred ctx"]) simp
  have trivh: "h = h\<lparr>h_stores := h_stores h\<rparr>" by simp
  show ?thesis
    using assms triv trivh mmio_put_sizes
    unfolding nv_gpu_memcpy_h2d_def
    by (auto simp: Let_def split: option.splits if_splits elim!: bind_eq_SomeE) (metis trivh)+
qed

lemma d2d_shape:
  assumes "nv_gpu_memcpy_d2d ctx h dst src sz = Some (ret, h')"
  shows "\<exists>hs. h' = h\<lparr>h_stores := hs\<rparr> \<and>
    map_sizes hs = map_sizes (h_stores h) \<and> (heap_wf (h_stores h) \<longrightarrow> heap_wf hs)"
proof -
  have trivh: "h = h\<lparr>h_stores := h_stores h\<rparr>" by simp
  show ?thesis
    using assms mmio_put_sizes
    unfolding nv_gpu_memcpy_d2d_def
    by (auto simp: Let_def split: option.splits if_splits elim!: bind_eq_SomeE) (metis trivh)+
qed

text \<open>Operations that change neither the table nor the channels nor the heap.\<close>

inductive ctx_step :: "nv_heap \<Rightarrow> NVGpuContext \<Rightarrow> NVGpuContext \<Rightarrow> bool" for h where
  cstep_d2h: "nv_gpu_memcpy_d2h ctx h dst src sz = Some (ret, out, ctx') \<Longrightarrow> ctx_step h ctx ctx'"
| cstep_launch: "nv_gpu_launch_kernel ctx params = (ret, ctx') \<Longrightarrow> ctx_step h ctx ctx'"
| cstep_sync: "nv_gpu_synchronize ctx h = Some (ret, ctx') \<Longrightarrow> ctx_step h ctx ctx'"
| cstep_error: "nv_gpu_check_error ctx h = Some (ret, ctx') \<Longrightarrow> ctx_step h ctx ctx'"
| cstep_clocks: "nv_gpu_set_clocks ctx g m = (ret, ctx') \<Longrightarrow> ctx_step h ctx ctx'"

lemma ctx_step_keeps:
  "ctx_step h ctx ctx' \<Longrightarrow> gpu_allocations ctx' = gpu_allocations ctx \<and> gpu_channels ctx' = gpu_channels ctx \<and>
     gpu_pcie_device ctx' = gpu_pcie_device ctx \<and> gpu_vram_free ctx' = gpu_vram_free ctx"
  by (induction rule: ctx_step.induct)
    (auto simp: nv_gpu_memcpy_d2h_def nv_gpu_launch_kernel_def nv_gpu_synchronize_def nv_gpu_check_error_def
      nv_gpu_set_clocks_def Let_def split: option.splits if_splits prod.splits elim!: bind_eq_SomeE)

definition nv_heap_none :: "nv_heap \<Rightarrow> bool" where
  "nv_heap_none h \<longleftrightarrow> hp_mem (h_channels h) = Map.empty \<and> hp_mem (h_allocs h) = Map.empty \<and>
     hp_mem (h_stores h) = Map.empty"

text \<open>
  \<open>nv_reach pctx ctx h\<close>: initialisation on a device of a reachable PCIe state, with no GPU object on
  the heap and a page aligned address counter, and then the operations of the driver in any order.
  Allocations are made while the 64 bit address counter does not wrap around.
\<close>

inductive nv_reach :: "PCIeTunnelContext \<Rightarrow> NVGpuContext \<Rightarrow> nv_heap \<Rightarrow> bool" for pctx where
  nreach_init: "nv_heap_none h \<Longrightarrow> 4096 dvd unat (next_gpu_addr h) \<Longrightarrow> pcie_reach pctx (h_pcie h) \<Longrightarrow>
     Some p \<in> set (devices pctx) \<Longrightarrow> nv_gpu_init ctx0 h (Some p) = Some (NV_SUCCESS, ctx, h') \<Longrightarrow>
     nv_reach pctx ctx h'"
| nreach_alloc: "nv_reach pctx ctx h \<Longrightarrow> addr_room h (ma_size a) \<Longrightarrow>
     nv_gpu_alloc_memory ctx h (Some a) = Some (ret, out, ctx', h') \<Longrightarrow> nv_reach pctx ctx' h'"
| nreach_free: "nv_reach pctx ctx h \<Longrightarrow> nv_gpu_free_memory ctx h a = Some (ctx', h') \<Longrightarrow> nv_reach pctx ctx' h'"
| nreach_h2d: "nv_reach pctx ctx h \<Longrightarrow> nv_gpu_memcpy_h2d ctx h dst src sz = Some (ret, ctx', h') \<Longrightarrow>
     nv_reach pctx ctx' h'"
| nreach_d2d: "nv_reach pctx ctx h \<Longrightarrow> nv_gpu_memcpy_d2d ctx h dst src sz = Some (ret, h') \<Longrightarrow> nv_reach pctx ctx h'"
| nreach_create: "nv_reach pctx ctx h \<Longrightarrow> addr_room h (1024 * 1024) \<Longrightarrow>
     nv_gpu_create_channel ctx h has_out = Some (ret, out, ctx', h') \<Longrightarrow> nv_reach pctx ctx' h'"
| nreach_destroy: "nv_reach pctx ctx h \<Longrightarrow> c \<in> insert None (set (gpu_channels ctx)) \<Longrightarrow>
     nv_gpu_destroy_channel ctx h c = Some (ctx', h') \<Longrightarrow> nv_reach pctx ctx' h'"
| nreach_ctx: "nv_reach pctx ctx h \<Longrightarrow> ctx_step h ctx ctx' \<Longrightarrow> nv_reach pctx ctx' h"
| nreach_reg: "nv_reach pctx ctx h \<Longrightarrow> nv_gpu_write_reg ctx h off v = Some h' \<Longrightarrow> nv_reach pctx ctx h'"

lemma pcie_link_cong:
  "pcie_link pctx ctx h \<Longrightarrow> gpu_pcie_device ctx' = gpu_pcie_device ctx \<Longrightarrow> h_pcie h' = h_pcie h \<Longrightarrow>
   pcie_link pctx ctx' h'"
  by (simp add: pcie_link_def)

lemma nv_inv_ctx:
  "nv_inv ctx h xs cs \<Longrightarrow> gpu_allocations ctx' = gpu_allocations ctx \<Longrightarrow> gpu_channels ctx' = gpu_channels ctx \<Longrightarrow>
   nv_inv ctx' h xs cs"
  by (simp add: nv_inv_def)

lemma nv_alloc_step:
  assumes inv: "nv_inv ctx h xs cs" and link: "pcie_link pctx ctx h" and "addr_room h (ma_size a)"
    and "nv_gpu_alloc_memory ctx h (Some a) = Some (ret, out, ctx', h')"
  shows "pcie_link pctx ctx' h' \<and> (\<exists>xs cs. nv_inv ctx' h' xs cs)"
  using inv assms(3)
proof (cases rule: alloc_cases)
  case (rejected e)
  with assms(4) inv link show ?thesis by auto
next
  case (failed out' k)
  with assms(4) link pcie_link_cong [OF link, of ctx k] show ?thesis by auto
next
  case (ok ctx1 k r)
  with assms(4) pcie_link_cong [OF link, of ctx1 k] show ?thesis by auto
qed

lemma nv_free_step:
  assumes inv: "nv_inv ctx h xs cs" and link: "pcie_link pctx ctx h" and "nv_gpu_free_memory ctx h a = Some (ctx', h')"
  shows "pcie_link pctx ctx' h' \<and> (\<exists>xs cs. nv_inv ctx' h' xs cs)"
proof (cases a)
  case None
  with assms show ?thesis by (auto simp: nv_gpu_free_memory_def)
next
  case (Some b)
  from inv show ?thesis
  proof (cases rule: free_cases [where a = b])
    case miss
    with assms(3) Some pcie_link_cong [OF link, of "give_vram b ctx" h] show ?thesis by auto
  next
    case (hit ys x zs ctx1)
    with assms(3) Some pcie_link_cong [OF link, of ctx1 "drop_alloc h x"] show ?thesis by auto
  qed
qed

lemma nv_destroy_step:
  assumes inv: "nv_inv ctx h xs cs" and link: "pcie_link pctx ctx h" and c: "c \<in> insert None (set (gpu_channels ctx))"
    and "nv_gpu_destroy_channel ctx h c = Some (ctx', h')"
  shows "pcie_link pctx ctx' h' \<and> (\<exists>xs cs. nv_inv ctx' h' xs cs)"
proof (cases c)
  case None
  with assms show ?thesis by (auto simp: nv_gpu_destroy_channel_def)
next
  case (Some d)
  then have "d \<in> set cs" using c inv by (auto simp: nv_inv_def)
  from destroy_channel_cases [OF inv this] Some assms(4) obtain xs' where
    "nv_inv ctx' h' xs' (remove1 d cs)" "h_pcie h' = h_pcie h" "gpu_pcie_device ctx' = gpu_pcie_device ctx" by auto
  with pcie_link_cong [OF link] show ?thesis by blast
qed

lemma nv_h2d_step:
  assumes inv: "nv_inv ctx h xs cs" and link: "pcie_link pctx ctx h"
    and "nv_gpu_memcpy_h2d ctx h dst src sz = Some (ret, ctx', h')"
  shows "pcie_link pctx ctx' h' \<and> (\<exists>xs cs. nv_inv ctx' h' xs cs)"
proof -
  have "heap_wf (h_stores h)" using inv by (simp add: nv_inv_def mem_rep_def)
  with h2d_shape [OF assms(3)] nv_inv_stores [OF inv] pcie_link_cong [OF link] show ?thesis
    by (metis NVGpuContext.select_convs(1) NVGpuContext.select_convs(4) NVGpuContext.select_convs(6)
        NVGpuContext.surjective NVGpuContext.update_convs(8) nv_heap.select_convs(1) nv_heap.surjective nv_heap.update_convs(4))
qed

lemma nreach_inv: "nv_reach pctx ctx h \<Longrightarrow> pcie_link pctx ctx h \<and> (\<exists>xs cs. nv_inv ctx h xs cs)"
proof (induction rule: nv_reach.induct)
  case (nreach_init h p ctx0 ctx h')
  from init_total [OF nreach_init(3,4), of ctx0] nreach_init(5) obtain hp where
    h': "h' = h\<lparr>h_pcie := hp\<rparr>" and c: "gpu_allocations ctx = []" "gpu_channels ctx = []" "gpu_pcie_device ctx = Some p"
    and r: "pcie_reach pctx hp" by auto
  have "nv_inv ctx h' [] []"
    using nreach_init(1,2) h' c by (simp add: nv_inv_def mem_rep_def chan_rep_def nv_heap_none_def heap_wf_def)
  moreover have "pcie_link pctx ctx h'" using h' c(3) r nreach_init(4) by (simp add: pcie_link_def)
  ultimately show ?case by blast
next
  case (nreach_alloc ctx h a ret out ctx' h')
  then show ?case using nv_alloc_step by blast
next
  case (nreach_free ctx h a ctx' h')
  then show ?case using nv_free_step by blast
next
  case (nreach_h2d ctx h dst src sz ret ctx' h')
  then show ?case using nv_h2d_step by blast
next
  case (nreach_d2d ctx h dst src sz ret h')
  then obtain xs cs where inv: "nv_inv ctx h xs cs" and link: "pcie_link pctx ctx h" by blast
  have "heap_wf (h_stores h)" using inv by (simp add: nv_inv_def mem_rep_def)
  with d2d_shape [OF nreach_d2d(2)] obtain hs where hs: "h' = h\<lparr>h_stores := hs\<rparr>" "map_sizes hs = map_sizes (h_stores h)" "heap_wf hs"
    by blast
  from nv_inv_stores [OF inv hs(2,3) refl refl] hs(1) pcie_link_cong [OF link refl, of h'] show ?case by auto
next
  case (nreach_create ctx h has_out ret out ctx' h')
  then obtain xs cs where inv: "nv_inv ctx h xs cs" and link: "pcie_link pctx ctx h" by blast
  from create_channel_cases [OF inv nreach_create(2), of has_out] nreach_create(3) obtain xs' cs' where
    "nv_inv ctx' h' xs' cs'" "h_pcie h' = h_pcie h" "gpu_pcie_device ctx' = gpu_pcie_device ctx" by auto
  with pcie_link_cong [OF link] show ?case by blast
next
  case (nreach_destroy ctx h c ctx' h')
  then show ?case using nv_destroy_step by blast
next
  case (nreach_ctx ctx h ctx')
  then show ?case using ctx_step_keeps [OF nreach_ctx(2)] nv_inv_ctx pcie_link_cong by blast
next
  case (nreach_reg ctx h off v h')
  then obtain xs cs where inv: "nv_inv ctx h xs cs" and link: "pcie_link pctx ctx h" by blast
  from write_reg_total [OF link, of off v] nreach_reg(2) obtain hp where
    "h' = h\<lparr>h_pcie := hp\<rparr>" "pcie_link pctx ctx h'" by auto
  with inv show ?case by (auto simp: nv_inv_def)
qed

lemma shutdown_total:
  assumes "nv_inv ctx h xs cs" and link: "pcie_link pctx ctx h"
  shows "\<exists>h' p d. nv_gpu_shutdown ctx h = Some (gpu_ctx_zero\<lparr>gpu_state := NV_GPU_STATE_UNINITIALIZED\<rparr>, h') \<and>
    nv_heap_none h' \<and> gpu_pcie_device ctx = Some p \<and> pcie_reach pctx (h_pcie h') \<and>
    heap_get (h_devices (h_pcie h')) p = Some d \<and> \<not> is_mapped (dv_bars d ! 0) \<and> \<not> is_mapped (dv_bars d ! 1)"
proof -
  obtain ctx1 h1 xs1 where 1: "destroy_channels ctx h = Some (ctx1, h1)" "nv_inv ctx1 h1 xs1 []"
    "h_pcie h1 = h_pcie h" "gpu_pcie_device ctx1 = gpu_pcie_device ctx"
    using destroy_channels_total [OF assms(1)] by blast
  obtain ctx2 h2 where 2: "free_allocations ctx1 h1 = Some (ctx2, h2)" "nv_inv ctx2 h2 [] []"
    "h_pcie h2 = h_pcie h" "gpu_pcie_device ctx2 = gpu_pcie_device ctx"
    using free_allocations_total [OF 1(2)] 1(3,4) by auto
  have none: "nv_heap_none (h2\<lparr>h_pcie := hp\<rparr>)" for hp
    using 2(2) by (simp add: nv_inv_def mem_rep_def chan_rep_def nv_heap_none_def)
  from link obtain p where p: "gpu_pcie_device ctx = Some p" and r: "pcie_reach pctx (h_pcie h)" "Some p \<in> set (devices pctx)"
    by (auto simp: pcie_link_def)
  obtain d where d: "heap_get (h_devices (h_pcie h)) p = Some d" "dev_in (h_maps (h_pcie h)) d" by (rule reach_device [OF r])
  have len: "length (dv_bars d) = PCIE_BAR_COUNT" using d(2) by (simp add: dev_in_def dev_ok_def)
  let ?u = "\<lambda>b. b\<lparr>virtual_base := None, is_mapped := False\<rparr>"
  have i: "(0::nat) < PCIE_BAR_COUNT" "(1::nat) < PCIE_BAR_COUNT" by (simp_all add: pcie_consts)
  obtain hp1 where u1: "unmap_device_bar (h_pcie h) p 0 = Some hp1" "pcie_reach pctx hp1"
    "heap_get (h_devices hp1) p = Some (set_bar d 0 (?u (dv_bars d ! 0)))"
    using unmap_device_reach [OF r i(1) d(1)] by auto
  let ?d = "set_bar d 0 (?u (dv_bars d ! 0))"
  obtain hp2 where u2: "unmap_device_bar hp1 p 1 = Some hp2" "pcie_reach pctx hp2"
    "heap_get (h_devices hp2) p = Some (set_bar ?d 1 (?u (dv_bars ?d ! 1)))"
    using unmap_device_reach [OF u1(2) r(2) i(2) u1(3)] by auto
  have "\<not> is_mapped (dv_bars (set_bar ?d 1 (?u (dv_bars ?d ! 1))) ! 0) \<and> \<not> is_mapped (dv_bars (set_bar ?d 1 (?u (dv_bars ?d ! 1))) ! 1)"
    using len i by simp
  moreover have "nv_gpu_shutdown ctx h = Some (gpu_ctx_zero\<lparr>gpu_state := NV_GPU_STATE_UNINITIALIZED\<rparr>, h2\<lparr>h_pcie := hp2\<rparr>)"
    using 1(1) 2(1,3,4) p u1(1) u2(1) by (simp add: nv_gpu_shutdown_def)
  ultimately show ?thesis using none [of hp2] p u2(2,3) by (auto intro!: exI [of _ "h2\<lparr>h_pcie := hp2\<rparr>"])
qed

section \<open>Launches and waiting\<close>

lemma sync_loop_idle [simp]: "sync_loop False t = t"
  by (subst sync_loop.simps) simp

lemma sync_loop_stuck: "0 \<le> t \<Longrightarrow> sync_loop True t = - 1"
proof (induction "nat t" arbitrary: t)
  case 0
  then show ?case by (subst sync_loop.simps) simp
next
  case (Suc n)
  then have "0 < t" "n = nat (t - 1)" "0 \<le> t - 1" by auto
  with Suc.hyps(1) [of "t - 1"] show ?case by (subst sync_loop.simps) simp
qed

lemma channel_sync_closed:
  "nv_gpu_channel_sync (Some ch) = (if ch_pb_put ch = ch_pb_get ch then NV_SUCCESS else NV_ERR_TIMEOUT)"
  by (simp add: nv_gpu_channel_sync_def sync_loop_stuck)

definition dims_ok :: "u32 \<times> u32 \<times> u32 \<Rightarrow> bool" where
  "dims_ok d \<longleftrightarrow> (case d of (x, y, z) \<Rightarrow> x \<noteq> 0 \<and> y \<noteq> 0 \<and> z \<noteq> 0)"

definition dim_product :: "u32 \<times> u32 \<times> u32 \<Rightarrow> nat" where
  "dim_product d = (case d of (x, y, z) \<Rightarrow> unat x * unat y * unat z)"

lemma unat_ucast_32_64: "unat (ucast (x :: u32) :: u64) = unat x"
proof -
  have "unat x < 2 ^ 32" using unsigned_less [of x] by simp
  then have "unat x < 2 ^ 64" by simp
  then show ?thesis by (simp add: unsigned_ucast_eq take_bit_nat_eq_self)
qed

lemma threads_nat: "unat (threads_per_block p) = dim_product (kp_block_dim p) mod 2 ^ 64"
  by (cases "kp_block_dim p")
    (simp add: threads_per_block_def dim_product_def unat_word_ariths unat_ucast_32_64 mod_mult_left_eq)

lemma launch_closed:
  "nv_gpu_launch_kernel ctx (Some p) =
    (if kp_channel p \<noteq> None \<and> dims_ok (kp_block_dim p) \<and> dims_ok (kp_grid_dim p) \<and>
        dim_product (kp_block_dim p) mod 2 ^ 64 \<le> unat (di_max_threads_per_block (gpu_info ctx))
     then (NV_SUCCESS, ctx\<lparr>gpu_kernel_launches := gpu_kernel_launches ctx + 1, gpu_state := NV_GPU_STATE_READY\<rparr>)
     else (NV_ERR_INVALID_PARAM, ctx))"
proof -
  have g: "threads_per_block p > ucast (di_max_threads_per_block (gpu_info ctx)) \<longleftrightarrow>
      \<not> dim_product (kp_block_dim p) mod 2 ^ 64 \<le> unat (di_max_threads_per_block (gpu_info ctx))"
    unfolding word_less_nat_alt threads_nat unat_ucast_32_64 by linarith
  obtain bx by' bz gx gy gz where d: "kp_block_dim p = (bx, by', bz)" "kp_grid_dim p = (gx, gy, gz)"
    by (metis prod_cases3)
  show ?thesis by (auto simp: nv_gpu_launch_kernel_def g d dims_ok_def Let_def)
qed

section \<open>The properties of the driver\<close>

definition nv_table :: "NVGpuContext \<Rightarrow> nv_heap \<Rightarrow> NVMemoryAlloc list" where
  "nv_table ctx h = map (\<lambda>q. the (heap_get (h_allocs h) (the q))) (gpu_allocations ctx)"

lemma nv_table_eq:
  assumes "nv_inv ctx h xs cs"
  shows "nv_table ctx h = map snd xs"
proof -
  have "mem_rep (h_allocs h) (h_stores h) (next_gpu_addr h) xs" and "gpu_allocations ctx = map (\<lambda>x. Some (fst x)) xs"
    using assms by (simp_all add: nv_inv_def)
  with mem_rep_live(1) show ?thesis by (simp add: nv_table_def heap_get_def)
qed

text \<open>A concrete run for the witnesses: the GPU initialised, and 8 KB of video memory allocated.\<close>

definition nv_heap0 :: nv_heap where
  "nv_heap0 = \<lparr>h_pcie = pcie_heap1, h_channels = heap_empty (\<lambda>_. False), h_allocs = heap_empty (\<lambda>_. False),
     h_stores = heap_empty (\<lambda>_. False), next_gpu_addr = 0x200000000\<rparr>"

definition nv_ctx1 :: NVGpuContext where
  "nv_ctx1 = fst (snd (the (nv_gpu_init gpu_ctx_zero nv_heap0 (Some 0))))"

definition nv_heap1 :: nv_heap where
  "nv_heap1 = snd (snd (the (nv_gpu_init gpu_ctx_zero nv_heap0 (Some 0))))"

definition alloc1 :: NVMemoryAlloc where
  "alloc1 = alloc_zero\<lparr>ma_size := 8000, ma_type := NV_MEM_TYPE_VIDEO\<rparr>"

definition nv_ctx2 :: NVGpuContext where
  "nv_ctx2 = fst (snd (snd (the (nv_gpu_alloc_memory nv_ctx1 nv_heap1 (Some alloc1)))))"

definition nv_heap2 :: nv_heap where
  "nv_heap2 = snd (snd (snd (the (nv_gpu_alloc_memory nv_ctx1 nv_heap1 (Some alloc1)))))"

definition alloc2 :: NVMemoryAlloc where
  "alloc2 = alloc1\<lparr>ma_gpu_addr := 0x200000000, ma_size := 8192, ma_backing_store := Some 0\<rparr>"

lemma gpu1_bar0': "dv_bars gpu1_mapped ! 0 = (dv_bars gpu1 ! 0)\<lparr>virtual_base := Some 0, is_mapped := True\<rparr>"
    "bar_size (dv_bars gpu1 ! 0) = 16777216"
  by (simp_all add: gpu1_mapped_def gpu1_bar0) (simp add: gpu1_def gpu_device_def probed_bars pcie_consts gpu1_bar0)

lemma nv_run1:
  "nv_gpu_init gpu_ctx_zero nv_heap0 (Some 0) = Some (NV_SUCCESS, nv_ctx1, nv_heap1)"
  "\<exists>hp. nv_heap1 = nv_heap0\<lparr>h_pcie := hp\<rparr>" "gpu_allocations nv_ctx1 = []" "gpu_channels nv_ctx1 = []"
  "8192 \<le> gpu_vram_free nv_ctx1" "di_max_threads_per_block (gpu_info nv_ctx1) = 1024"
  "gpu_pcie_device nv_ctx1 = Some 0"
  "\<exists>d. heap_get (h_devices (h_pcie nv_heap1)) 0 = Some d \<and> mmio_hit d 0 (ucast NV_PMC_INTR_0) 4"
proof -
  have r: "pcie_reach pcie_ctx1 (h_pcie nv_heap0)" "Some 0 \<in> set (devices pcie_ctx1)"
    using pcie_reach1 by (simp_all add: nv_heap0_def pcie_ctx1_def)
  have b1: "dv_bars gpu1_mapped ! 1 = bar_zero\<lparr>bar_size := 268435456, physical_base := 0x90000000, prefetchable := True\<rparr>"
    by (simp add: gpu1_mapped_def gpu1_def gpu_device_def probed_bars probe_bar_def bar_sizes_def pcie_consts bar_zero_def)
  have m0: "map_device_bar (h_pcie nv_heap0) 0 0 = Some (PCIE_SUCCESS, pcie_heap2)"
    by (simp add: map_device_bar_def nv_heap0_def pcie_heap1_def heap_get_def pcie_map_bar_def bar_index_ok_def
        pcie_consts gpu1_bar0 bar_zero_def Let_def pcie_heap0_def heap_alloc_def heap_empty_def heap_put_def
        gpu1_mapped_def pcie_heap2_def)
  have m1: "\<exists>hp. map_device_bar pcie_heap2 0 1 = Some (PCIE_SUCCESS, hp) \<and>
      (\<exists>b. bars_at hp 0 = Some ((dv_bars gpu1_mapped)[1 := b]))"
    by (simp add: map_device_bar_def pcie_heap2_def heap_get_def pcie_map_bar_def bar_index_ok_def
        pcie_consts b1 [simplified] bar_zero_def Let_def heap_alloc_def heap_empty_def heap_put_def
        bars_at_def) blast
  from init_total [OF r, of gpu_ctx_zero] obtain ret ctx hp where
    i: "nv_gpu_init gpu_ctx_zero nv_heap0 (Some 0) = Some (ret, ctx, nv_heap0\<lparr>h_pcie := hp\<rparr>)"
    and c: "gpu_allocations ctx = []" "gpu_channels ctx = []" "gpu_pcie_device ctx = Some 0"
    and ok: "ret = NV_SUCCESS \<longrightarrow> gpu_vram_free ctx = di_vram_size (gpu_info ctx) \<and> gpu_state ctx = NV_GPU_STATE_READY \<and>
       di_max_threads_per_block (gpu_info ctx) = 1024 \<and> 8 * 1024 * 1024 * 1024 \<le> di_vram_size (gpu_info ctx)"
    and s: "\<forall>hp1 hp2. map_device_bar (h_pcie nv_heap0) 0 0 = Some (PCIE_SUCCESS, hp1) \<longrightarrow>
       map_device_bar hp1 0 1 = Some (PCIE_SUCCESS, hp2) \<longrightarrow> ret = NV_SUCCESS \<and> bars_at hp 0 = bars_at hp2 0" by blast
  from s m0 m1 have ret: "ret = NV_SUCCESS" and ba: "\<exists>b. bars_at hp 0 = Some ((dv_bars gpu1_mapped)[1 := b])" by auto
  have e: "nv_ctx1 = ctx" "nv_heap1 = nv_heap0\<lparr>h_pcie := hp\<rparr>" by (simp_all add: nv_ctx1_def nv_heap1_def i)
  then show "nv_gpu_init gpu_ctx_zero nv_heap0 (Some 0) = Some (NV_SUCCESS, nv_ctx1, nv_heap1)"
    "\<exists>hp. nv_heap1 = nv_heap0\<lparr>h_pcie := hp\<rparr>" "gpu_allocations nv_ctx1 = []" "gpu_channels nv_ctx1 = []"
    "di_max_threads_per_block (gpu_info nv_ctx1) = 1024" "gpu_pcie_device nv_ctx1 = Some 0"
    using i ret c ok by auto
  from ba obtain b d where d: "heap_get (h_devices hp) 0 = Some d" "dv_bars d = (dv_bars gpu1_mapped)[1 := b]"
    by (auto simp: bars_at_def)
  then have "mmio_hit d 0 (ucast NV_PMC_INTR_0) 4"
    using gpu1_bar0' by (simp add: mmio_hit_def bar_index_ok_def pcie_consts nv_regs)
  moreover have "heap_get (h_devices (h_pcie nv_heap1)) 0 = Some d" unfolding e using d(1) by simp
  ultimately show "\<exists>d. heap_get (h_devices (h_pcie nv_heap1)) 0 = Some d \<and> mmio_hit d 0 (ucast NV_PMC_INTR_0) 4" by blast
  have "8 * 1024 * 1024 * 1024 \<le> gpu_vram_free nv_ctx1" using ok ret e by simp
  then show "8192 \<le> gpu_vram_free nv_ctx1" by (simp add: word_le_nat_alt)
qed

lemma nv_reach1: "nv_reach pcie_ctx1 nv_ctx1 nv_heap1"
  by (rule nreach_init [OF _ _ _ _ nv_run1(1)])
    (use pcie_reach1 in \<open>simp_all add: nv_heap0_def nv_heap_none_def heap_empty_def pcie_ctx1_def\<close>)

lemma nv_run2:
  "nv_gpu_alloc_memory nv_ctx1 nv_heap1 (Some alloc1) = Some (NV_SUCCESS, Some alloc2, nv_ctx2, nv_heap2)"
  "gpu_allocations nv_ctx2 = [Some 0]" "heap_get (h_allocs nv_heap2) 0 = Some alloc2"
  "addr_room nv_heap1 8000"
proof -
  obtain hp where h: "nv_heap1 = nv_heap0\<lparr>h_pcie := hp\<rparr>" using nv_run1(2) by blast
  have pr: "page_round 8000 = 8192" by (simp add: page_round_def)
  have g: "alloc_guard nv_ctx1 alloc1 = None"
    using nv_run1(3,5) by (simp add: alloc_guard_def alloc1_def pr not_less)
  have o: "\<not> alloc_oom nv_heap1" by (simp add: alloc_oom_def h nv_heap0_def heap_empty_def)
  have n: "new_alloc nv_heap1 alloc1 = alloc2"
    by (simp add: new_alloc_def alloc2_def alloc1_def pr h nv_heap0_def heap_empty_def)
  note run = alloc_succeeds [OF g o, unfolded n]
  then show "nv_gpu_alloc_memory nv_ctx1 nv_heap1 (Some alloc1) = Some (NV_SUCCESS, Some alloc2, nv_ctx2, nv_heap2)"
    by (simp add: nv_ctx2_def nv_heap2_def)
  show "gpu_allocations nv_ctx2 = [Some 0]" "heap_get (h_allocs nv_heap2) 0 = Some alloc2"
    unfolding nv_ctx2_def nv_heap2_def run
    using nv_run1(3) by (simp_all add: h nv_heap0_def heap_empty_def heap_get_def)
  show "addr_room nv_heap1 8000" by (simp add: addr_room_def h nv_heap0_def)
qed

lemma nv_reach2: "nv_reach pcie_ctx1 nv_ctx2 nv_heap2"
  by (rule nreach_alloc [OF nv_reach1 _ nv_run2(1)]) (use nv_run2(4) in \<open>simp add: alloc1_def\<close>)

text \<open>
  Shutting the driver down from any reachable state terminates, frees every channel, allocation
  record and backing store exactly once, and unmaps BAR 0 and BAR 1 of its device.
\<close>

theorem nv_shutdown_frees:
  assumes "nv_reach pctx ctx h"
  shows "\<exists>h' p d. nv_gpu_shutdown ctx h = Some (gpu_ctx_zero\<lparr>gpu_state := NV_GPU_STATE_UNINITIALIZED\<rparr>, h') \<and>
    nv_heap_none h' \<and> gpu_pcie_device ctx = Some p \<and> pcie_reach pctx (h_pcie h') \<and>
    heap_get (h_devices (h_pcie h')) p = Some d \<and> \<not> is_mapped (dv_bars d ! 0) \<and> \<not> is_mapped (dv_bars d ! 1)"
  using nreach_inv [OF assms] shutdown_total by blast

theorem nv_shutdown_frees_witness:
  "\<exists>h' p d. nv_gpu_shutdown nv_ctx2 nv_heap2 = Some (gpu_ctx_zero\<lparr>gpu_state := NV_GPU_STATE_UNINITIALIZED\<rparr>, h') \<and>
    nv_heap_none h' \<and> gpu_pcie_device nv_ctx2 = Some p \<and> pcie_reach pcie_ctx1 (h_pcie h') \<and>
    heap_get (h_devices (h_pcie h')) p = Some d \<and> \<not> is_mapped (dv_bars d ! 0) \<and> \<not> is_mapped (dv_bars d ! 1)"
  by (rule nv_shutdown_frees [OF nv_reach2])

text \<open>
  C35. In every reachable state the table has at most 4096 entries, its GPU ranges are not empty,
  page aligned, in ascending order and pairwise disjoint, and each has a live backing store of its
  size.
\<close>

theorem nv_table_disjoint:
  assumes "nv_reach pctx ctx h"
  shows "length (nv_table ctx h) \<le> 4096 \<and>
    sorted_wrt (\<lambda>a b. gpu_end a \<le> unat (ma_gpu_addr b)) (nv_table ctx h) \<and>
    list_all (\<lambda>a. 0 < unat (ma_size a) \<and> 4096 dvd unat (ma_gpu_addr a) \<and> 4096 dvd unat (ma_size a) \<and>
      (\<exists>s b. ma_backing_store a = Some s \<and> heap_get (h_stores h) s = Some b \<and> b_size b = unat (ma_size a)))
      (nv_table ctx h)"
proof -
  from nreach_inv [OF assms] obtain xs cs where inv: "nv_inv ctx h xs cs" by blast
  then have rep: "mem_rep (h_allocs h) (h_stores h) (next_gpu_addr h) xs" and len: "length xs \<le> 4096"
    by (simp_all add: nv_inv_def)
  have "sorted_wrt (\<lambda>a b. gpu_end a \<le> unat (ma_gpu_addr b)) (map snd xs)"
    using rep unfolding mem_rep_def sorted_wrt_map below_def [abs_def] by blast
  moreover have "list_all (\<lambda>a. 0 < unat (ma_size a) \<and> 4096 dvd unat (ma_gpu_addr a) \<and> 4096 dvd unat (ma_size a) \<and>
      (\<exists>s b. ma_backing_store a = Some s \<and> heap_get (h_stores h) s = Some b \<and> b_size b = unat (ma_size a))) (map snd xs)"
    using rep mem_rep_live(2) [OF rep]
    by (auto simp: mem_rep_def entry_ok_def list_all_iff entry_store_def heap_get_def map_sizes_def)
  ultimately show ?thesis unfolding nv_table_eq [OF inv] using len by simp
qed

theorem nv_table_disjoint_witness:
  "length (nv_table nv_ctx2 nv_heap2) \<le> 4096 \<and>
    sorted_wrt (\<lambda>a b. gpu_end a \<le> unat (ma_gpu_addr b)) (nv_table nv_ctx2 nv_heap2) \<and>
    list_all (\<lambda>a. 0 < unat (ma_size a) \<and> 4096 dvd unat (ma_gpu_addr a) \<and> 4096 dvd unat (ma_size a) \<and>
      (\<exists>s b. ma_backing_store a = Some s \<and> heap_get (h_stores nv_heap2) s = Some b \<and> b_size b = unat (ma_size a)))
      (nv_table nv_ctx2 nv_heap2)"
  by (rule nv_table_disjoint [OF nv_reach2])

text \<open>
  C33. In a reachable state, copying host bytes into a range inside an allocation and copying the
  range back returns the bytes, and the copy changes no other range of the device memory.
\<close>

theorem nv_memcpy_roundtrip:
  assumes "nv_reach pctx ctx h" and "a \<in> set (nv_table ctx h)"
    and "unat (ma_gpu_addr a) \<le> unat dst" and "unat dst + length bytes \<le> gpu_end a"
    and "bytes \<noteq> []" and "unat sz = length bytes"
  shows "\<exists>ctx' h' ctx2. nv_gpu_memcpy_h2d ctx h dst (Some bytes) sz = Some (NV_SUCCESS, ctx', h') \<and>
    nv_gpu_memcpy_d2h ctx' h' True dst sz = Some (NV_SUCCESS, Some bytes, ctx2) \<and>
    (\<forall>b src n. b \<in> set (nv_table ctx h) \<longrightarrow> 0 < unat n \<longrightarrow>
       unat (ma_gpu_addr b) \<le> unat src \<longrightarrow> unat src + unat n \<le> gpu_end b \<longrightarrow>
       gpu_disjoint dst (length bytes) src (unat n) \<longrightarrow>
       map_option (\<lambda>r. fst (snd r)) (nv_gpu_memcpy_d2h ctx' h' True src n) =
       map_option (\<lambda>r. fst (snd r)) (nv_gpu_memcpy_d2h ctx h True src n))"
proof -
  from nreach_inv [OF assms(1)] obtain xs cs where inv: "nv_inv ctx h xs cs" by blast
  then have rep: "mem_rep (h_allocs h) (h_stores h) (next_gpu_addr h) xs" by (simp add: nv_inv_def)
  from assms(2) obtain x where x: "x \<in> set xs" "a = snd x" unfolding nv_table_eq [OF inv] by auto
  have rng: "gpu_range x dst (length bytes)" using assms(3,4) x(2) by (simp add: gpu_range_def)
  obtain b b' s where s: "entry_store x = Some s" "hp_mem (h_stores h) s = Some b" "buf_wr b (gpu_off x dst) bytes = Some b'"
    and call: "nv_gpu_memcpy_h2d ctx h dst (Some bytes) sz =
      Some (NV_SUCCESS, ctx\<lparr>gpu_bytes_transferred := gpu_bytes_transferred ctx + sz\<rparr>,
        h\<lparr>h_stores := h_stores h\<lparr>hp_mem := (hp_mem (h_stores h))(s \<mapsto> b')\<rparr>\<rparr>)"
    and inv': "nv_inv (ctx\<lparr>gpu_bytes_transferred := gpu_bytes_transferred ctx + sz\<rparr>)
       (h\<lparr>h_stores := h_stores h\<lparr>hp_mem := (hp_mem (h_stores h))(s \<mapsto> b')\<rparr>\<rparr>) xs cs"
    by (rule h2d_in_range [OF inv x(1) rng assms(6,5)])
  let ?c = "ctx\<lparr>gpu_bytes_transferred := gpu_bytes_transferred ctx + sz\<rparr>"
    and ?h = "h\<lparr>h_stores := h_stores h\<lparr>hp_mem := (hp_mem (h_stores h))(s \<mapsto> b')\<rparr>\<rparr>"
  note put = gpu_bytes_put [OF rep x(1) s rng]
  have rng': "gpu_range x dst (unat sz)" and pos: "0 < unat sz" using rng assms(5,6) by simp_all
  have rd_back: "\<exists>ctx2. nv_gpu_memcpy_d2h ?c ?h True dst sz = Some (NV_SUCCESS, Some bytes, ctx2)"
    using d2h_in_range [OF inv' x(1) rng' pos] put(1) unfolding assms(6) by auto
  have "map_option (\<lambda>r. fst (snd r)) (nv_gpu_memcpy_d2h ?c ?h True src n) =
       map_option (\<lambda>r. fst (snd r)) (nv_gpu_memcpy_d2h ctx h True src n)"
    if "e \<in> set (nv_table ctx h)" "0 < unat n" "unat (ma_gpu_addr e) \<le> unat src" "unat src + unat n \<le> gpu_end e"
      "gpu_disjoint dst (length bytes) src (unat n)" for e src n
  proof -
    from that(1) obtain y where y: "y \<in> set xs" "e = snd y" unfolding nv_table_eq [OF inv] by auto
    have ry: "gpu_range y src (unat n)" using that(3,4) y(2) by (simp add: gpu_range_def)
    show ?thesis
      using d2h_in_range [OF inv y(1) ry that(2)] d2h_in_range [OF inv' y(1) ry that(2)] put(2) [OF y(1) ry that(5)]
      by auto
  qed
  with call rd_back show ?thesis by blast
qed

theorem nv_memcpy_roundtrip_witness:
  "\<exists>ctx' h' ctx2. nv_gpu_memcpy_h2d nv_ctx2 nv_heap2 0x200000010 (Some [1, 2, 3]) 3 = Some (NV_SUCCESS, ctx', h') \<and>
    nv_gpu_memcpy_d2h ctx' h' True 0x200000010 3 = Some (NV_SUCCESS, Some [1, 2, 3], ctx2) \<and>
    (\<forall>b src n. b \<in> set (nv_table nv_ctx2 nv_heap2) \<longrightarrow> 0 < unat n \<longrightarrow>
       unat (ma_gpu_addr b) \<le> unat src \<longrightarrow> unat src + unat n \<le> gpu_end b \<longrightarrow>
       gpu_disjoint 0x200000010 (length [1 :: u8, 2, 3]) src (unat n) \<longrightarrow>
       map_option (\<lambda>r. fst (snd r)) (nv_gpu_memcpy_d2h ctx' h' True src n) =
       map_option (\<lambda>r. fst (snd r)) (nv_gpu_memcpy_d2h nv_ctx2 nv_heap2 True src n))"
  by (rule nv_memcpy_roundtrip [OF nv_reach2, of alloc2])
    (simp_all add: nv_table_def nv_run2 alloc2_def gpu_end_def)

text \<open>
  A device to device copy between ranges inside allocations that do not overlap succeeds, and
  reading the destination back gives the bytes the source held before.
\<close>

theorem nv_memcpy_d2d_delivers:
  assumes "nv_reach pctx ctx h" and "a \<in> set (nv_table ctx h)" and "b \<in> set (nv_table ctx h)"
    and "unat (ma_gpu_addr a) \<le> unat src" and "unat src + unat sz \<le> gpu_end a"
    and "unat (ma_gpu_addr b) \<le> unat dst" and "unat dst + unat sz \<le> gpu_end b"
    and "0 < unat sz" and "gpu_disjoint src (unat sz) dst (unat sz)"
  shows "\<exists>h' bytes ctx1 ctx2. nv_gpu_memcpy_d2d ctx h dst src sz = Some (NV_SUCCESS, h') \<and>
    nv_gpu_memcpy_d2h ctx h True src sz = Some (NV_SUCCESS, Some bytes, ctx1) \<and>
    nv_gpu_memcpy_d2h ctx h' True dst sz = Some (NV_SUCCESS, Some bytes, ctx2)"
proof -
  from nreach_inv [OF assms(1)] obtain xs cs where inv: "nv_inv ctx h xs cs" by blast
  from assms(2) obtain x where x: "x \<in> set xs" "a = snd x" unfolding nv_table_eq [OF inv] by auto
  from assms(3) obtain y where y: "y \<in> set xs" "b = snd y" unfolding nv_table_eq [OF inv] by auto
  have rx: "gpu_range x src (unat sz)" and ry: "gpu_range y dst (unat sz)"
    using assms(4-7) x(2) y(2) by (simp_all add: gpu_range_def)
  from d2d_in_range [OF inv x(1) rx y(1) ry assms(8,9)] obtain h' bytes where
    c: "nv_gpu_memcpy_d2d ctx h dst src sz = Some (NV_SUCCESS, h')" "nv_inv ctx h' xs cs"
      "gpu_bytes h x src (unat sz) = Some bytes" "gpu_bytes h' y dst (unat sz) = Some bytes" by blast
  with d2h_in_range [OF inv x(1) rx assms(8)] d2h_in_range [OF c(2) y(1) ry assms(8)] show ?thesis by auto
qed

theorem nv_memcpy_d2d_delivers_witness:
  "\<exists>h' bytes ctx1 ctx2. nv_gpu_memcpy_d2d nv_ctx2 nv_heap2 0x200001000 0x200000000 4096 = Some (NV_SUCCESS, h') \<and>
    nv_gpu_memcpy_d2h nv_ctx2 nv_heap2 True 0x200000000 4096 = Some (NV_SUCCESS, Some bytes, ctx1) \<and>
    nv_gpu_memcpy_d2h nv_ctx2 h' True 0x200001000 4096 = Some (NV_SUCCESS, Some bytes, ctx2)"
  by (rule nv_memcpy_d2d_delivers [OF nv_reach2, of alloc2 alloc2])
    (simp_all add: nv_table_def nv_run2 alloc2_def gpu_end_def gpu_disjoint_def)

text \<open>
  Allocating video memory and freeing it with the struct the allocation handed back restores
  the free VRAM and the table. Freeing it by its address alone, with a zeroed struct as
  \<open>cudaFree\<close> passes it, restores the table but never gives the VRAM back.
\<close>

theorem nv_vram_balance:
  assumes "nv_reach pctx ctx h" and "addr_room h (ma_size a)" and "ma_type a = NV_MEM_TYPE_VIDEO"
    and "nv_gpu_alloc_memory ctx h (Some a) = Some (NV_SUCCESS, out, ctx', h')"
  shows "\<exists>b ctx1 h1 ctx2 h2. out = Some b \<and>
    nv_gpu_free_memory ctx' h' (Some b) = Some (ctx1, h1) \<and>
    gpu_vram_free ctx1 = gpu_vram_free ctx \<and> nv_table ctx1 h1 = nv_table ctx h \<and>
    nv_gpu_free_memory ctx' h' (Some (alloc_zero\<lparr>ma_gpu_addr := ma_gpu_addr b\<rparr>)) = Some (ctx2, h2) \<and>
    gpu_vram_free ctx2 = gpu_vram_free ctx - ma_size b \<and> nv_table ctx2 h2 = nv_table ctx h"
proof -
  from nreach_inv [OF assms(1)] obtain xs cs where inv: "nv_inv ctx h xs cs" by blast
  from inv assms(2) show ?thesis
  proof (cases rule: alloc_cases)
    case (rejected e)
    then have "e \<noteq> NV_SUCCESS" by (auto simp: alloc_guard_def split: if_splits)
    with rejected(2) assms(4) show ?thesis by simp
  next
    case (failed o' k)
    with assms(4) show ?thesis by simp
  next
    case (ok c k r)
    let ?b = "new_alloc h a"
    have e: "out = Some ?b" "ctx' = c" "h' = k" using ok(3) assms(4) by simp_all
    have vram: "gpu_vram_free c = gpu_vram_free ctx - page_round (ma_size a)"
      using ok(7) assms(3) by (simp add: take_vram_def)
    have b: "ma_type ?b = NV_MEM_TYPE_VIDEO" "ma_size ?b = page_round (ma_size a)"
      using assms(3) by (simp_all add: new_alloc_def)
    note f = free_hits [of c k xs "(r, ?b)" "[]" cs, OF ok(4)]
    have t: "nv_table c1 k1 = nv_table ctx h" if "nv_inv c1 k1 xs cs" for c1 k1
      using nv_table_eq [OF that] nv_table_eq [OF inv] by simp
    show ?thesis
      using f [of ?b] f [of "alloc_zero\<lparr>ma_gpu_addr := ma_gpu_addr ?b\<rparr>"] t vram b e
      by (simp add: give_vram_def alloc_zero_def)
  qed
qed

theorem nv_vram_balance_witness:
  "\<exists>b ctx1 h1 ctx2 h2. Some alloc2 = Some b \<and>
    nv_gpu_free_memory nv_ctx2 nv_heap2 (Some b) = Some (ctx1, h1) \<and>
    gpu_vram_free ctx1 = gpu_vram_free nv_ctx1 \<and> nv_table ctx1 h1 = nv_table nv_ctx1 nv_heap1 \<and>
    nv_gpu_free_memory nv_ctx2 nv_heap2 (Some (alloc_zero\<lparr>ma_gpu_addr := ma_gpu_addr b\<rparr>)) = Some (ctx2, h2) \<and>
    gpu_vram_free ctx2 = gpu_vram_free nv_ctx1 - ma_size b \<and> nv_table ctx2 h2 = nv_table nv_ctx1 nv_heap1"
  by (rule nv_vram_balance [OF nv_reach1 _ _ nv_run2(1)]) (use nv_run2(4) in \<open>simp_all add: alloc1_def\<close>)

text \<open>
  When the product of the block dimensions fits in 64 bits, a launch is accepted exactly for
  non-zero dimensions with at most \<open>max_threads_per_block\<close> threads, counts one launch and leaves the
  GPU ready; a rejected launch changes nothing. The product is taken modulo 2^64, so that a block of
  2^22 x 2^21 x 2^21 threads, 2^64 in all, is accepted.
\<close>

theorem nv_launch_exact:
  assumes "dim_product (kp_block_dim p) < 2 ^ 64"
  shows "nv_gpu_launch_kernel ctx (Some p) =
    (if kp_channel p \<noteq> None \<and> dims_ok (kp_block_dim p) \<and> dims_ok (kp_grid_dim p) \<and>
        dim_product (kp_block_dim p) \<le> unat (di_max_threads_per_block (gpu_info ctx))
     then (NV_SUCCESS, ctx\<lparr>gpu_kernel_launches := gpu_kernel_launches ctx + 1, gpu_state := NV_GPU_STATE_READY\<rparr>)
     else (NV_ERR_INVALID_PARAM, ctx))
   \<and> fst (nv_gpu_launch_kernel ctx (Some (p\<lparr>kp_block_dim := (4194304, 2097152, 2097152), kp_grid_dim := (1, 1, 1),
        kp_channel := Some 0\<rparr>))) = NV_SUCCESS"
  using assms by (simp add: launch_closed) (simp add: dim_product_def dims_ok_def)

theorem nv_launch_exact_witness:
  "let p = \<lparr>kp_func_addr = 0, kp_grid_dim = (1, 1, 1), kp_block_dim = (16, 16, 4), kp_shared_mem = 0,
     kp_channel = Some 0\<rparr> in
   nv_gpu_launch_kernel nv_ctx1 (Some p) =
    (if kp_channel p \<noteq> None \<and> dims_ok (kp_block_dim p) \<and> dims_ok (kp_grid_dim p) \<and>
        dim_product (kp_block_dim p) \<le> unat (di_max_threads_per_block (gpu_info nv_ctx1))
     then (NV_SUCCESS, nv_ctx1\<lparr>gpu_kernel_launches := gpu_kernel_launches nv_ctx1 + 1, gpu_state := NV_GPU_STATE_READY\<rparr>)
     else (NV_ERR_INVALID_PARAM, nv_ctx1))
   \<and> fst (nv_gpu_launch_kernel nv_ctx1 (Some (p\<lparr>kp_block_dim := (4194304, 2097152, 2097152), kp_grid_dim := (1, 1, 1),
        kp_channel := Some 0\<rparr>))) = NV_SUCCESS"
  unfolding Let_def by (rule nv_launch_exact) (simp add: dim_product_def)

text \<open>
  Waiting for a channel always ends: with success when the push buffer is empty, and else after
  the million iterations of the timeout, with the timeout error.
\<close>

theorem nv_channel_sync_ends:
  "nv_gpu_channel_sync (Some ch) = (if ch_pb_put ch = ch_pb_get ch then NV_SUCCESS else NV_ERR_TIMEOUT) \<and>
   sync_loop (ch_pb_put ch \<noteq> ch_pb_get ch) 1000000 = (if ch_pb_put ch = ch_pb_get ch then 1000000 else - 1)"
  by (simp add: channel_sync_closed sync_loop_stuck)

text \<open>
  The interrupt register of the simulated MMIO keeps the all-ones value with which the reset
  means to clear it: on a device whose BAR 0 covers the register, every reset is followed by an error
  report of \<open>nv_gpu_check_error\<close>.
\<close>

theorem nv_reset_reports_error:
  assumes "nv_reach pctx ctx h" and "gpu_pcie_device ctx = Some p"
    and "heap_get (h_devices (h_pcie h)) p = Some d" and "mmio_hit d 0 (ucast NV_PMC_INTR_0) 4"
  shows "\<exists>h'. nv_gpu_reset ctx h = Some (NV_SUCCESS, h') \<and>
    nv_gpu_check_error ctx h' = Some (NV_ERR_GPU_ERROR, ctx\<lparr>gpu_state := NV_GPU_STATE_ERROR\<rparr>)"
  using reset_then_error [OF conjunct1 [OF nreach_inv [OF assms(1)]] assms(2-4)] .

theorem nv_reset_reports_error_witness:
  "\<exists>p d h'. gpu_pcie_device nv_ctx1 = Some p \<and> heap_get (h_devices (h_pcie nv_heap1)) p = Some d \<and>
    nv_gpu_reset nv_ctx1 nv_heap1 = Some (NV_SUCCESS, h') \<and>
    nv_gpu_check_error nv_ctx1 h' = Some (NV_ERR_GPU_ERROR, nv_ctx1\<lparr>gpu_state := NV_GPU_STATE_ERROR\<rparr>)"
  using nv_run1(7,8) nv_reset_reports_error [OF nv_reach1] by blast

end
