(* ===== verification/Memory_Manager.thy ===== *)
theory Memory_Manager
  imports Bridge_Prelude
begin

text \<open>
  The memory manager of \<open>src/cuda/memory/memory_manager.c\<close> and its header, as built without
  \<open>__APPLE__\<close>. The blocks of the three pools are objects of one C heap, linked into doubly linked
  lists exactly as the code links them; a pool holds the heads of its two lists. Addresses
  (\<open>void *\<close> and GPU addresses) are 64 bit numbers, 0 is the null pointer. Host memory from
  \<open>posix_memalign\<close> is a map from addresses to byte buffers; the allocator that picks the address of
  the \<open>n\<close>-th allocation, or fails, is a component of that memory. The two
  functions that print are in \<^theory_text>\<open>Memory_Output\<close>.
\<close>

section \<open>Data\<close>

datatype mem_ret = CB_SUCCESS | CB_ERR_INVALID_PARAM | CB_ERR_NO_MEMORY | CB_ERR_NOT_FOUND

datatype CBMemoryAdvise =
    CB_MEM_ADVISE_NONE | CB_MEM_ADVISE_SET_READ_MOSTLY | CB_MEM_ADVISE_UNSET_READ_MOSTLY
  | CB_MEM_ADVISE_SET_PREFERRED_LOCATION | CB_MEM_ADVISE_UNSET_PREFERRED_LOCATION
  | CB_MEM_ADVISE_SET_ACCESSED_BY | CB_MEM_ADVISE_UNSET_ACCESSED_BY

definition CB_MEM_FLAG_DEVICE :: u32 where "CB_MEM_FLAG_DEVICE = 1"
definition CB_MEM_FLAG_HOST :: u32 where "CB_MEM_FLAG_HOST = 2"
definition CB_MEM_FLAG_MANAGED :: u32 where "CB_MEM_FLAG_MANAGED = 4"
definition CB_MEM_FLAG_PINNED :: u32 where "CB_MEM_FLAG_PINNED = 8"
definition CB_PAGE_SIZE_4K :: u64 where "CB_PAGE_SIZE_4K = 4 * 1024"
definition CB_PAGE_SIZE_64K :: u64 where "CB_PAGE_SIZE_64K = 64 * 1024"
definition CB_PAGE_SIZE_2M :: u64 where "CB_PAGE_SIZE_2M = 2 * 1024 * 1024"

lemmas page_sizes = CB_PAGE_SIZE_4K_def CB_PAGE_SIZE_64K_def CB_PAGE_SIZE_2M_def

record CBMemoryBlock =
  mb_gpu_addr :: u64
  mb_host_addr :: u64
  mb_size :: u64
  mb_flags :: u32
  mb_device_id :: int
  mb_is_allocated :: bool
  mb_is_managed :: bool
  mb_preferred_device :: int
  mb_next :: "ptr option"
  mb_prev :: "ptr option"

record CBMemoryPool =
  pl_base_addr :: u64
  pl_total_size :: u64
  pl_used_size :: u64
  pl_page_size :: u64
  pl_free_list :: "ptr option"
  pl_used_list :: "ptr option"
  pl_block_count :: int

record CBMemoryManager =
  mm_device_pool :: CBMemoryPool
  mm_pinned_pool :: CBMemoryPool
  mm_managed_pool :: CBMemoryPool
  mm_page_table :: "ptr option"
  mm_page_table_size :: u64
  mm_total_allocated :: u64
  mm_peak_allocated :: u64
  mm_alloc_count :: u64
  mm_free_count :: u64
  mm_device_id :: int
  mm_unified_memory_enabled :: bool

record host_mem =
  hm_live :: "u64 \<rightharpoonup> buf"
  hm_count :: nat
  hm_pick :: "nat \<Rightarrow> u64 option"

record mem_heap =
  h_blocks :: "CBMemoryBlock heap"
  h_tables :: "u64 heap"
  h_host :: host_mem

definition block_zero :: CBMemoryBlock where
  "block_zero = \<lparr>mb_gpu_addr = 0, mb_host_addr = 0, mb_size = 0, mb_flags = 0, mb_device_id = 0,
     mb_is_allocated = False, mb_is_managed = False, mb_preferred_device = 0, mb_next = None,
     mb_prev = None\<rparr>"

definition pool_zero :: CBMemoryPool where
  "pool_zero = \<lparr>pl_base_addr = 0, pl_total_size = 0, pl_used_size = 0, pl_page_size = 0,
     pl_free_list = None, pl_used_list = None, pl_block_count = 0\<rparr>"

definition mgr_zero :: CBMemoryManager where
  "mgr_zero = \<lparr>mm_device_pool = pool_zero, mm_pinned_pool = pool_zero, mm_managed_pool = pool_zero,
     mm_page_table = None, mm_page_table_size = 0, mm_total_allocated = 0, mm_peak_allocated = 0,
     mm_alloc_count = 0, mm_free_count = 0, mm_device_id = 0, mm_unified_memory_enabled = False\<rparr>"

section \<open>Host memory\<close>

text \<open>\<open>posix_memalign\<close>: null when it fails. \<open>free(NULL)\<close> does nothing; other addresses must be live.\<close>

definition host_alloc :: "host_mem \<Rightarrow> u64 \<Rightarrow> u64 \<times> host_mem" where
  "host_alloc hm sz =
     (let hm' = hm\<lparr>hm_count := Suc (hm_count hm)\<rparr> in
      case hm_pick hm (hm_count hm) of
        None \<Rightarrow> (0, hm')
      | Some a \<Rightarrow> (a, hm'\<lparr>hm_live := (hm_live hm)(a \<mapsto> buf_new (unat sz))\<rparr>))"

definition host_free :: "host_mem \<Rightarrow> u64 \<Rightarrow> host_mem option" where
  "host_free hm a =
     (if a = 0 then Some hm
      else case hm_live hm a of
        None \<Rightarrow> None
      | Some _ \<Rightarrow> Some (hm\<lparr>hm_live := (hm_live hm)(a := None)\<rparr>))"

text \<open>The loop that writes zeros over the first \<open>n\<close> bytes.\<close>

definition host_wipe :: "host_mem \<Rightarrow> u64 \<Rightarrow> u64 \<Rightarrow> host_mem option" where
  "host_wipe hm a n =
     do { b \<leftarrow> hm_live hm a;
          if unat n \<le> b_size b
          then Some (hm\<lparr>hm_live := (hm_live hm)(a \<mapsto> b\<lparr>b_mem := (\<lambda>i. if i < unat n then 0 else b_mem b i)\<rparr>)\<rparr>)
          else None }"

section \<open>Pools\<close>

definition align_up :: "u64 \<Rightarrow> u64 \<Rightarrow> u64" where
  "align_up x align = (x + align - 1) AND NOT (align - 1)"

text \<open>\<open>p->field = v\<close>, and the same under \<open>if (p)\<close>.\<close>

definition upd_block ::
  "CBMemoryBlock heap \<Rightarrow> ptr \<Rightarrow> (CBMemoryBlock \<Rightarrow> CBMemoryBlock) \<Rightarrow> CBMemoryBlock heap option" where
  "upd_block h p f = do { b \<leftarrow> heap_get h p; heap_put h p (f b) }"

definition upd_block_opt ::
  "CBMemoryBlock heap \<Rightarrow> ptr option \<Rightarrow> (CBMemoryBlock \<Rightarrow> CBMemoryBlock) \<Rightarrow> CBMemoryBlock heap option" where
  "upd_block_opt h q f = (case q of None \<Rightarrow> Some h | Some p \<Rightarrow> upd_block h p f)"

definition create_block :: "CBMemoryBlock heap \<Rightarrow> u64 \<Rightarrow> u64 \<Rightarrow> ptr option \<times> CBMemoryBlock heap" where
  "create_block h addr sz =
     heap_alloc h (block_zero\<lparr>mb_gpu_addr := addr, mb_size := sz, mb_is_allocated := False\<rparr>)"

definition pool_init ::
  "CBMemoryBlock heap \<Rightarrow> u64 \<Rightarrow> u64 \<Rightarrow> u64 \<Rightarrow> mem_ret \<times> CBMemoryPool \<times> CBMemoryBlock heap" where
  "pool_init h base sz page_size =
     (let pool = pool_zero\<lparr>pl_base_addr := base, pl_total_size := sz, pl_page_size := page_size,
                   pl_used_size := 0\<rparr>
      in case create_block h base sz of
           (None, h) \<Rightarrow> (CB_ERR_NO_MEMORY, pool, h)
         | (Some block, h) \<Rightarrow>
             (CB_SUCCESS, pool\<lparr>pl_free_list := Some block, pl_block_count := 1\<rparr>, h))"

text \<open>
  The loops over the lists end when they reach a null pointer; on a cyclic list they would not.
\<close>

partial_function (option) free_blocks ::
  "CBMemoryBlock heap \<Rightarrow> ptr option \<Rightarrow> CBMemoryBlock heap option" where
  "free_blocks h block =
     (case block of
        None \<Rightarrow> Some h
      | Some p \<Rightarrow> Option.bind (heap_get h p) (\<lambda>b. Option.bind (heap_free h p) (\<lambda>h. free_blocks h (mb_next b))))"

definition pool_shutdown ::
  "CBMemoryPool \<Rightarrow> CBMemoryBlock heap \<Rightarrow> (CBMemoryPool \<times> CBMemoryBlock heap) option" where
  "pool_shutdown pool h =
     do { h \<leftarrow> free_blocks h (pl_free_list pool);
          h \<leftarrow> free_blocks h (pl_used_list pool);
          Some (pool_zero, h) }"

text \<open>
  Where a search stopped: the block before, and the block itself if the search did not run off the end.
\<close>

datatype position = At (pos_prev: "ptr option") (pos_block: "ptr option")

partial_function (option) first_fit ::
  "CBMemoryBlock heap \<Rightarrow> u64 \<Rightarrow> ptr option \<Rightarrow> ptr option \<Rightarrow> position option" where
  "first_fit h sz prev block =
     (case block of
        None \<Rightarrow> Some (At prev None)
      | Some p \<Rightarrow> Option.bind (heap_get h p) (\<lambda>b.
          if mb_size b \<ge> sz then Some (At prev block) else first_fit h sz block (mb_next b)))"

definition split_block ::
  "CBMemoryPool \<Rightarrow> CBMemoryBlock heap \<Rightarrow> ptr \<Rightarrow> u64 \<Rightarrow> (CBMemoryPool \<times> CBMemoryBlock heap) option" where
  "split_block pool h p sz =
     do { b \<leftarrow> heap_get h p;
          if mb_size b > sz + pl_page_size pool then
            case create_block h (mb_gpu_addr b + sz) (mb_size b - sz) of
              (None, h) \<Rightarrow> Some (pool, h)
            | (Some remaining, h) \<Rightarrow>
                do { h \<leftarrow> upd_block h remaining (mb_next_update (\<lambda>_. mb_next b));
                     h \<leftarrow> upd_block_opt h (mb_next b) (mb_prev_update (\<lambda>_. Some remaining));
                     h \<leftarrow> upd_block h p (mb_next_update (\<lambda>_. Some remaining));
                     h \<leftarrow> upd_block h remaining (mb_prev_update (\<lambda>_. Some p));
                     h \<leftarrow> upd_block h p (mb_size_update (\<lambda>_. sz));
                     Some (pool\<lparr>pl_block_count := pl_block_count pool + 1\<rparr>, h) }
          else Some (pool, h) }"

text \<open>Unlinking a free block and pushing it on the list of used blocks.\<close>

definition take_block ::
  "CBMemoryPool \<Rightarrow> CBMemoryBlock heap \<Rightarrow> ptr option \<Rightarrow> ptr \<Rightarrow> u64 \<Rightarrow>
   (CBMemoryPool \<times> CBMemoryBlock heap) option" where
  "take_block pool h prev p sz =
     do { b \<leftarrow> heap_get h p;
          h \<leftarrow> upd_block_opt h prev (mb_next_update (\<lambda>_. mb_next b));
          let pool = (if prev = None then pool\<lparr>pl_free_list := mb_next b\<rparr> else pool);
          h \<leftarrow> upd_block_opt h (mb_next b) (mb_prev_update (\<lambda>_. prev));
          h \<leftarrow> upd_block h p (\<lambda>b. b\<lparr>mb_next := pl_used_list pool, mb_prev := None\<rparr>);
          h \<leftarrow> upd_block_opt h (pl_used_list pool) (mb_prev_update (\<lambda>_. Some p));
          h \<leftarrow> upd_block h p (mb_is_allocated_update (\<lambda>_. True));
          Some (pool\<lparr>pl_used_list := Some p, pl_used_size := pl_used_size pool + sz\<rparr>, h) }"

definition pool_alloc ::
  "CBMemoryPool \<Rightarrow> CBMemoryBlock heap \<Rightarrow> u64 \<Rightarrow> (ptr option \<times> CBMemoryPool \<times> CBMemoryBlock heap) option" where
  "pool_alloc pool h sz =
     (let aligned = align_up sz (pl_page_size pool) in
      if aligned < sz then Some (None, pool, h)
      else
        do { r \<leftarrow> first_fit h aligned None (pl_free_list pool);
             case r of
               At _ None \<Rightarrow> Some (None, pool, h)
             | At prev (Some p) \<Rightarrow>
                 do { (pool, h) \<leftarrow> split_block pool h p aligned;
                      (pool, h) \<leftarrow> take_block pool h prev p aligned;
                      Some (Some p, pool, h) } })"

text \<open>The place of an address in the free list, and the insertion there.\<close>

partial_function (option) find_place ::
  "CBMemoryBlock heap \<Rightarrow> u64 \<Rightarrow> ptr option \<Rightarrow> ptr option \<Rightarrow> position option" where
  "find_place h addr prev cur =
     (case cur of
        None \<Rightarrow> Some (At prev None)
      | Some c \<Rightarrow> Option.bind (heap_get h c) (\<lambda>b.
          if mb_gpu_addr b < addr then find_place h addr cur (mb_next b) else Some (At prev cur)))"

definition unlink_used ::
  "CBMemoryPool \<Rightarrow> CBMemoryBlock heap \<Rightarrow> ptr \<Rightarrow> (CBMemoryPool \<times> CBMemoryBlock heap) option" where
  "unlink_used pool h p =
     do { b \<leftarrow> heap_get h p;
          h \<leftarrow> upd_block_opt h (mb_prev b) (mb_next_update (\<lambda>_. mb_next b));
          let pool = (if mb_prev b = None then pool\<lparr>pl_used_list := mb_next b\<rparr> else pool);
          h \<leftarrow> upd_block_opt h (mb_next b) (mb_prev_update (\<lambda>_. mb_prev b));
          h \<leftarrow> upd_block h p (mb_is_allocated_update (\<lambda>_. False));
          Some (pool\<lparr>pl_used_size := pl_used_size pool - mb_size b\<rparr>, h) }"

definition insert_free ::
  "CBMemoryPool \<Rightarrow> CBMemoryBlock heap \<Rightarrow> ptr \<Rightarrow> (CBMemoryPool \<times> CBMemoryBlock heap) option" where
  "insert_free pool h p =
     do { b \<leftarrow> heap_get h p;
          pos \<leftarrow> find_place h (mb_gpu_addr b) None (pl_free_list pool);
          let prev = pos_prev pos;
          let cur = pos_block pos;
          h \<leftarrow> upd_block h p (\<lambda>b. b\<lparr>mb_next := cur, mb_prev := prev\<rparr>);
          h \<leftarrow> upd_block_opt h prev (mb_next_update (\<lambda>_. Some p));
          let pool = (if prev = None then pool\<lparr>pl_free_list := Some p\<rparr> else pool);
          h \<leftarrow> upd_block_opt h cur (mb_prev_update (\<lambda>_. Some p));
          Some (pool, h) }"

definition merge_next ::
  "CBMemoryPool \<Rightarrow> CBMemoryBlock heap \<Rightarrow> ptr \<Rightarrow> (CBMemoryPool \<times> CBMemoryBlock heap) option" where
  "merge_next pool h p =
     do { b \<leftarrow> heap_get h p;
          case mb_next b of
            None \<Rightarrow> Some (pool, h)
          | Some n \<Rightarrow>
              do { nb \<leftarrow> heap_get h n;
                   if \<not> mb_is_allocated nb \<and> mb_gpu_addr b + mb_size b = mb_gpu_addr nb then
                     do { h \<leftarrow> upd_block h p (\<lambda>b. b\<lparr>mb_size := mb_size b + mb_size nb, mb_next := mb_next nb\<rparr>);
                          h \<leftarrow> upd_block_opt h (mb_next nb) (mb_prev_update (\<lambda>_. Some p));
                          h \<leftarrow> heap_free h n;
                          Some (pool\<lparr>pl_block_count := pl_block_count pool - 1\<rparr>, h) }
                   else Some (pool, h) } }"

definition merge_prev ::
  "CBMemoryPool \<Rightarrow> CBMemoryBlock heap \<Rightarrow> ptr \<Rightarrow> (CBMemoryPool \<times> CBMemoryBlock heap) option" where
  "merge_prev pool h p =
     do { b \<leftarrow> heap_get h p;
          case mb_prev b of
            None \<Rightarrow> Some (pool, h)
          | Some q \<Rightarrow>
              do { qb \<leftarrow> heap_get h q;
                   if \<not> mb_is_allocated qb \<and> mb_gpu_addr qb + mb_size qb = mb_gpu_addr b then
                     do { h \<leftarrow> upd_block h q (\<lambda>q. q\<lparr>mb_size := mb_size q + mb_size b, mb_next := mb_next b\<rparr>);
                          h \<leftarrow> upd_block_opt h (mb_next b) (mb_prev_update (\<lambda>_. Some q));
                          h \<leftarrow> heap_free h p;
                          Some (pool\<lparr>pl_block_count := pl_block_count pool - 1\<rparr>, h) }
                   else Some (pool, h) } }"

definition pool_free ::
  "CBMemoryPool \<Rightarrow> CBMemoryBlock heap \<Rightarrow> ptr option \<Rightarrow> (CBMemoryPool \<times> CBMemoryBlock heap) option" where
  "pool_free pool h block =
     (case block of
        None \<Rightarrow> Some (pool, h)
      | Some p \<Rightarrow>
          do { b \<leftarrow> heap_get h p;
               if \<not> mb_is_allocated b then Some (pool, h)
               else do { (pool, h) \<leftarrow> unlink_used pool h p;
                         (pool, h) \<leftarrow> insert_free pool h p;
                         (pool, h) \<leftarrow> merge_next pool h p;
                         merge_prev pool h p } })"

section \<open>The manager\<close>

text \<open>\<open>cb_find_block\<close>: the three used lists are searched in this order.\<close>

partial_function (option) find_used ::
  "CBMemoryBlock heap \<Rightarrow> (CBMemoryBlock \<Rightarrow> bool) \<Rightarrow> ptr option \<Rightarrow> ptr option option" where
  "find_used h P block =
     (case block of
        None \<Rightarrow> Some None
      | Some p \<Rightarrow> Option.bind (heap_get h p) (\<lambda>b. if P b then Some block else find_used h P (mb_next b)))"

definition cb_find_block :: "CBMemoryManager \<Rightarrow> CBMemoryBlock heap \<Rightarrow> u64 \<Rightarrow> ptr option option" where
  "cb_find_block mgr h p =
     (if p = 0 then Some None
      else
        do { r \<leftarrow> find_used h (\<lambda>b. mb_gpu_addr b = p) (pl_used_list (mm_device_pool mgr));
             if r \<noteq> None then Some r
             else do {
               r \<leftarrow> find_used h (\<lambda>b. mb_host_addr b = p) (pl_used_list (mm_pinned_pool mgr));
               if r \<noteq> None then Some r
               else find_used h (\<lambda>b. mb_host_addr b = p \<or> mb_gpu_addr b = p)
                      (pl_used_list (mm_managed_pool mgr)) } })"

definition cb_memory_manager_init ::
  "mem_heap \<Rightarrow> int \<Rightarrow> u64 \<Rightarrow> (mem_ret \<times> CBMemoryManager \<times> mem_heap) option" where
  "cb_memory_manager_init h device_id device_mem_size =
     (let mgr = mgr_zero\<lparr>mm_device_id := device_id, mm_unified_memory_enabled := True\<rparr>;
          (ret, dp, hb) = pool_init (h_blocks h) (0x200000000 + of_int device_id * 0x100000000)
                            device_mem_size CB_PAGE_SIZE_2M;
          mgr = mgr\<lparr>mm_device_pool := dp\<rparr>
      in if ret \<noteq> CB_SUCCESS then Some (ret, mgr, h\<lparr>h_blocks := hb\<rparr>)
      else
        let (ret, pp, hb) = pool_init hb 0 (1 * 1024 * 1024 * 1024) CB_PAGE_SIZE_4K;
            mgr = mgr\<lparr>mm_pinned_pool := pp\<rparr>
        in if ret \<noteq> CB_SUCCESS then
             do { (dp, hb) \<leftarrow> pool_shutdown dp hb;
                  Some (ret, mgr\<lparr>mm_device_pool := dp\<rparr>, h\<lparr>h_blocks := hb\<rparr>) }
        else
          let (ret, mp, hb) = pool_init hb 0x100000000 (device_mem_size div 2) CB_PAGE_SIZE_64K;
              mgr = mgr\<lparr>mm_managed_pool := mp\<rparr>
          in if ret \<noteq> CB_SUCCESS then
               do { (dp, hb) \<leftarrow> pool_shutdown dp hb;
                    (pp, hb) \<leftarrow> pool_shutdown pp hb;
                    Some (ret, mgr\<lparr>mm_device_pool := dp, mm_pinned_pool := pp\<rparr>, h\<lparr>h_blocks := hb\<rparr>) }
          else
            let num_pages = device_mem_size div CB_PAGE_SIZE_4K;
                mgr = mgr\<lparr>mm_page_table_size := num_pages\<rparr>
            in case heap_alloc (h_tables h) num_pages of
                 (None, ht) \<Rightarrow>
                   do { (dp, hb) \<leftarrow> pool_shutdown dp hb;
                        (pp, hb) \<leftarrow> pool_shutdown pp hb;
                        (mp, hb) \<leftarrow> pool_shutdown mp hb;
                        Some (CB_ERR_NO_MEMORY,
                          mgr\<lparr>mm_device_pool := dp, mm_pinned_pool := pp, mm_managed_pool := mp\<rparr>,
                          h\<lparr>h_blocks := hb, h_tables := ht\<rparr>) }
               | (Some t, ht) \<Rightarrow>
                   Some (CB_SUCCESS, mgr\<lparr>mm_page_table := Some t\<rparr>, h\<lparr>h_blocks := hb, h_tables := ht\<rparr>))"

definition cb_memory_manager_shutdown ::
  "CBMemoryManager \<Rightarrow> mem_heap \<Rightarrow> (CBMemoryManager \<times> mem_heap) option" where
  "cb_memory_manager_shutdown mgr h =
     do { (dp, hb) \<leftarrow> pool_shutdown (mm_device_pool mgr) (h_blocks h);
          (pp, hb) \<leftarrow> pool_shutdown (mm_pinned_pool mgr) hb;
          (mp, hb) \<leftarrow> pool_shutdown (mm_managed_pool mgr) hb;
          ht \<leftarrow> heap_free_opt (h_tables h) (mm_page_table mgr);
          Some (mgr_zero, h\<lparr>h_blocks := hb, h_tables := ht\<rparr>) }"

text \<open>
  The allocation entry points return the code, the value stored through \<open>ptr\<close> if any, the manager
  and the heap; \<open>has_ptr\<close> is \<open>ptr != NULL\<close>.
\<close>

definition count_allocated :: "CBMemoryManager \<Rightarrow> u64 \<Rightarrow> CBMemoryManager" where
  "count_allocated mgr sz =
     (let total = mm_total_allocated mgr + sz in
      mgr\<lparr>mm_total_allocated := total,
          mm_peak_allocated := (if total > mm_peak_allocated mgr then total else mm_peak_allocated mgr),
          mm_alloc_count := mm_alloc_count mgr + 1\<rparr>)"

definition cb_malloc_device ::
  "CBMemoryManager \<Rightarrow> mem_heap \<Rightarrow> bool \<Rightarrow> u64 \<Rightarrow>
   (mem_ret \<times> u64 option \<times> CBMemoryManager \<times> mem_heap) option" where
  "cb_malloc_device mgr h has_ptr sz =
     (if \<not> has_ptr \<or> sz = 0 then Some (CB_ERR_INVALID_PARAM, None, mgr, h)
      else
        do { (block, pool, hb) \<leftarrow> pool_alloc (mm_device_pool mgr) (h_blocks h) sz;
             let mgr = mgr\<lparr>mm_device_pool := pool\<rparr>;
             case block of
               None \<Rightarrow> Some (CB_ERR_NO_MEMORY, None, mgr, h\<lparr>h_blocks := hb\<rparr>)
             | Some p \<Rightarrow>
                 do { hb \<leftarrow> upd_block hb p (\<lambda>b. b\<lparr>mb_flags := CB_MEM_FLAG_DEVICE,
                               mb_device_id := mm_device_id mgr\<rparr>);
                      b \<leftarrow> heap_get hb p;
                      Some (CB_SUCCESS, Some (mb_gpu_addr b), count_allocated mgr (mb_size b),
                            h\<lparr>h_blocks := hb\<rparr>) } })"

definition cb_free_device ::
  "CBMemoryManager \<Rightarrow> mem_heap \<Rightarrow> u64 \<Rightarrow> (mem_ret \<times> CBMemoryManager \<times> mem_heap) option" where
  "cb_free_device mgr h p =
     (if p = 0 then Some (CB_ERR_INVALID_PARAM, mgr, h)
      else
        do { r \<leftarrow> cb_find_block mgr (h_blocks h) p;
             case r of
               None \<Rightarrow> Some (CB_ERR_NOT_FOUND, mgr, h)
             | Some block \<Rightarrow>
                 do { b \<leftarrow> heap_get (h_blocks h) block;
                      let mgr = mgr\<lparr>mm_total_allocated := mm_total_allocated mgr - mb_size b,
                                    mm_free_count := mm_free_count mgr + 1\<rparr>;
                      (pool, hb) \<leftarrow> pool_free (mm_device_pool mgr) (h_blocks h) (Some block);
                      Some (CB_SUCCESS, mgr\<lparr>mm_device_pool := pool\<rparr>, h\<lparr>h_blocks := hb\<rparr>) } })"

definition cb_malloc_host ::
  "CBMemoryManager \<Rightarrow> mem_heap \<Rightarrow> bool \<Rightarrow> u64 \<Rightarrow> u32 \<Rightarrow>
   (mem_ret \<times> u64 option \<times> CBMemoryManager \<times> mem_heap) option" where
  "cb_malloc_host mgr h has_ptr sz flags =
     (if \<not> has_ptr \<or> sz = 0 then Some (CB_ERR_INVALID_PARAM, None, mgr, h)
      else
        let (host_ptr, hm) = host_alloc (h_host h) sz in
        if host_ptr = 0 then Some (CB_ERR_NO_MEMORY, None, mgr, h\<lparr>h_host := hm\<rparr>)
        else
          do { (block, pool, hb) \<leftarrow> pool_alloc (mm_pinned_pool mgr) (h_blocks h) sz;
               let mgr = mgr\<lparr>mm_pinned_pool := pool\<rparr>;
               let (block, hb) = (case block of
                     Some p \<Rightarrow> (Some p, hb)
                   | None \<Rightarrow> create_block hb host_ptr sz);
               case block of
                 None \<Rightarrow>
                   do { hm \<leftarrow> host_free hm host_ptr;
                        Some (CB_ERR_NO_MEMORY, None, mgr, h\<lparr>h_blocks := hb, h_host := hm\<rparr>) }
               | Some p \<Rightarrow>
                   do { hb \<leftarrow> upd_block hb p (\<lambda>b. b\<lparr>mb_is_allocated := True, mb_host_addr := host_ptr,
                          mb_flags := CB_MEM_FLAG_HOST OR CB_MEM_FLAG_PINNED OR flags,
                          mb_device_id := mm_device_id mgr\<rparr>);
                        Some (CB_SUCCESS, Some host_ptr, mgr\<lparr>mm_alloc_count := mm_alloc_count mgr + 1\<rparr>,
                              h\<lparr>h_blocks := hb, h_host := hm\<rparr>) } })"

definition cb_free_host ::
  "CBMemoryManager \<Rightarrow> mem_heap \<Rightarrow> u64 \<Rightarrow> (mem_ret \<times> CBMemoryManager \<times> mem_heap) option" where
  "cb_free_host mgr h p =
     (if p = 0 then Some (CB_ERR_INVALID_PARAM, mgr, h)
      else
        do { r \<leftarrow> cb_find_block mgr (h_blocks h) p;
             hm \<leftarrow> host_free (h_host h) p;
             let h = h\<lparr>h_host := hm\<rparr>;
             case r of
               None \<Rightarrow> Some (CB_SUCCESS, mgr, h)
             | Some block \<Rightarrow>
                 do { let mgr = mgr\<lparr>mm_free_count := mm_free_count mgr + 1\<rparr>;
                      (pool, hb) \<leftarrow> pool_free (mm_pinned_pool mgr) (h_blocks h) (Some block);
                      Some (CB_SUCCESS, mgr\<lparr>mm_pinned_pool := pool\<rparr>, h\<lparr>h_blocks := hb\<rparr>) } })"

definition cb_malloc_managed ::
  "CBMemoryManager \<Rightarrow> mem_heap \<Rightarrow> bool \<Rightarrow> u64 \<Rightarrow> u32 \<Rightarrow>
   (mem_ret \<times> u64 option \<times> CBMemoryManager \<times> mem_heap) option" where
  "cb_malloc_managed mgr h has_ptr sz flags =
     (if \<not> has_ptr \<or> sz = 0 then Some (CB_ERR_INVALID_PARAM, None, mgr, h)
      else if \<not> mm_unified_memory_enabled mgr then Some (CB_ERR_INVALID_PARAM, None, mgr, h)
      else
        do { (block, pool, hb) \<leftarrow> pool_alloc (mm_managed_pool mgr) (h_blocks h) sz;
             let mgr = mgr\<lparr>mm_managed_pool := pool\<rparr>;
             case block of
               None \<Rightarrow> Some (CB_ERR_NO_MEMORY, None, mgr, h\<lparr>h_blocks := hb\<rparr>)
             | Some p \<Rightarrow>
                 let (host_ptr, hm) = host_alloc (h_host h) sz in
                 if host_ptr = 0 then
                   do { (pool, hb) \<leftarrow> pool_free pool hb (Some p);
                        Some (CB_ERR_NO_MEMORY, None, mgr\<lparr>mm_managed_pool := pool\<rparr>,
                              h\<lparr>h_blocks := hb, h_host := hm\<rparr>) }
                 else
                   do { hb \<leftarrow> upd_block hb p (\<lambda>b. b\<lparr>mb_host_addr := host_ptr,
                          mb_flags := CB_MEM_FLAG_MANAGED OR flags, mb_is_managed := True,
                          mb_device_id := mm_device_id mgr, mb_preferred_device := mm_device_id mgr\<rparr>);
                        b \<leftarrow> heap_get hb p;
                        Some (CB_SUCCESS, Some host_ptr, count_allocated mgr (mb_size b),
                              h\<lparr>h_blocks := hb, h_host := hm\<rparr>) } })"

definition cb_free_managed ::
  "CBMemoryManager \<Rightarrow> mem_heap \<Rightarrow> u64 \<Rightarrow> (mem_ret \<times> CBMemoryManager \<times> mem_heap) option" where
  "cb_free_managed mgr h p =
     (if p = 0 then Some (CB_ERR_INVALID_PARAM, mgr, h)
      else
        do { r \<leftarrow> cb_find_block mgr (h_blocks h) p;
             case r of
               None \<Rightarrow> Some (CB_ERR_NOT_FOUND, mgr, h)
             | Some block \<Rightarrow>
                 do { b \<leftarrow> heap_get (h_blocks h) block;
                      hm \<leftarrow> (if mb_host_addr b \<noteq> 0 then
                               do { hm \<leftarrow> host_wipe (h_host h) (mb_host_addr b) (mb_size b);
                                    host_free hm (mb_host_addr b) }
                             else Some (h_host h));
                      let mgr = mgr\<lparr>mm_total_allocated := mm_total_allocated mgr - mb_size b,
                                    mm_free_count := mm_free_count mgr + 1\<rparr>;
                      (pool, hb) \<leftarrow> pool_free (mm_managed_pool mgr) (h_blocks h) (Some block);
                      Some (CB_SUCCESS, mgr\<lparr>mm_managed_pool := pool\<rparr>, h\<lparr>h_blocks := hb, h_host := hm\<rparr>) } })"

definition cb_mem_advise ::
  "CBMemoryManager \<Rightarrow> mem_heap \<Rightarrow> u64 \<Rightarrow> CBMemoryAdvise \<Rightarrow> int \<Rightarrow> (mem_ret \<times> mem_heap) option" where
  "cb_mem_advise mgr h p advice device =
     (if p = 0 then Some (CB_ERR_INVALID_PARAM, h)
      else
        do { r \<leftarrow> cb_find_block mgr (h_blocks h) p;
             case r of
               None \<Rightarrow> Some (CB_ERR_NOT_FOUND, h)
             | Some block \<Rightarrow>
                 do { b \<leftarrow> heap_get (h_blocks h) block;
                      if \<not> mb_is_managed b then Some (CB_ERR_NOT_FOUND, h)
                      else
                        do { hb \<leftarrow> (case advice of
                                     CB_MEM_ADVISE_SET_PREFERRED_LOCATION \<Rightarrow>
                                       upd_block (h_blocks h) block (mb_preferred_device_update (\<lambda>_. device))
                                   | CB_MEM_ADVISE_UNSET_PREFERRED_LOCATION \<Rightarrow>
                                       upd_block (h_blocks h) block (mb_preferred_device_update (\<lambda>_. - 1))
                                   | _ \<Rightarrow> Some (h_blocks h));
                             Some (CB_SUCCESS, h\<lparr>h_blocks := hb\<rparr>) } } })"

definition cb_mem_prefetch :: "CBMemoryManager \<Rightarrow> mem_heap \<Rightarrow> u64 \<Rightarrow> mem_ret option" where
  "cb_mem_prefetch mgr h p =
     (if p = 0 then Some CB_ERR_INVALID_PARAM
      else
        do { r \<leftarrow> cb_find_block mgr (h_blocks h) p;
             case r of
               None \<Rightarrow> Some CB_ERR_NOT_FOUND
             | Some block \<Rightarrow>
                 do { b \<leftarrow> heap_get (h_blocks h) block;
                      Some (if mb_is_managed b then CB_SUCCESS else CB_ERR_NOT_FOUND) } })"

definition cb_pointer_get_attributes ::
  "CBMemoryManager \<Rightarrow> mem_heap \<Rightarrow> u64 \<Rightarrow> (mem_ret \<times> (u32 \<times> int \<times> u64 \<times> u64) option) option" where
  "cb_pointer_get_attributes mgr h p =
     (if p = 0 then Some (CB_ERR_INVALID_PARAM, None)
      else
        do { r \<leftarrow> cb_find_block mgr (h_blocks h) p;
             case r of
               None \<Rightarrow> Some (CB_ERR_NOT_FOUND, None)
             | Some block \<Rightarrow>
                 do { b \<leftarrow> heap_get (h_blocks h) block;
                      Some (CB_SUCCESS, Some (mb_flags b, mb_device_id b, mb_host_addr b, mb_gpu_addr b)) } })"

definition cb_mem_get_info :: "CBMemoryManager \<Rightarrow> mem_ret \<times> u64 \<times> u64" where
  "cb_mem_get_info mgr =
     (CB_SUCCESS, pl_total_size (mm_device_pool mgr) - pl_used_size (mm_device_pool mgr),
      pl_total_size (mm_device_pool mgr))"

end
