(* ===== verification/Pool_Lists.thy ===== *)
theory Pool_Lists
  imports Memory_Manager
begin

text \<open>
  The linked lists of \<^theory_text>\<open>Memory_Manager\<close>: a predicate for doubly linked lists in the block heap, how
  the pointer updates of the pool operations act on it, and a closed form of every list loop and
  every stage of \<open>pool_alloc\<close> and \<open>pool_free\<close> on well-formed lists. The closed forms also show that the
  loops of the source end.
\<close>

unbundle bit_operations_syntax

section \<open>Doubly linked lists\<close>

text \<open>
  \<open>dll m pr p xs e\<close>: from \<open>p\<close>, following \<open>next\<close>, the blocks of \<open>xs\<close> are met in this order, then \<open>e\<close>;
  every \<open>prev\<close> points to the block before, the first one to \<open>pr\<close>.
\<close>

type_synonym blocks = "ptr \<rightharpoonup> CBMemoryBlock"

fun dll :: "blocks \<Rightarrow> ptr option \<Rightarrow> ptr option \<Rightarrow> ptr list \<Rightarrow> ptr option \<Rightarrow> bool" where
  "dll m pr p [] e \<longleftrightarrow> p = e"
| "dll m pr p (x # xs) e \<longleftrightarrow>
     p = Some x \<and> (\<exists>b. m x = Some b \<and> mb_prev b = pr \<and> dll m (Some x) (mb_next b) xs e)"

definition last_opt :: "ptr option \<Rightarrow> ptr list \<Rightarrow> ptr option" where
  "last_opt pr xs = (if xs = [] then pr else Some (last xs))"

lemma last_opt_simps [simp]:
  "last_opt pr [] = pr" "last_opt pr (x # xs) = last_opt (Some x) xs" "last_opt pr (xs @ [x]) = Some x"
  by (simp_all add: last_opt_def)

lemma dll_append: "dll m pr p (xs @ ys) e \<longleftrightarrow> (\<exists>q. dll m pr p xs q \<and> dll m (last_opt pr xs) q ys e)"
  by (induction xs arbitrary: pr p) auto

lemma dll_frame: "\<forall>x \<in> set xs. m' x = m x \<Longrightarrow> dll m' pr p xs e = dll m pr p xs e"
  by (induction xs arbitrary: pr p) auto

lemma dll_live: "dll m pr p xs e \<Longrightarrow> x \<in> set xs \<Longrightarrow> \<exists>b. m x = Some b"
  by (induction xs arbitrary: pr p) auto

lemma dll_head: "dll m pr p xs None \<Longrightarrow> p = (case xs of [] \<Rightarrow> None | x # _ \<Rightarrow> Some x)"
  by (cases xs) auto

text \<open>
  Links are changed by these two functions; the data of a block is what is left.
\<close>

definition set_next :: "ptr option \<Rightarrow> ptr option \<Rightarrow> blocks \<Rightarrow> blocks" where
  "set_next q v m = (case q of None \<Rightarrow> m | Some p \<Rightarrow> m(p := map_option (mb_next_update (\<lambda>_. v)) (m p)))"

definition set_prev :: "ptr option \<Rightarrow> ptr option \<Rightarrow> blocks \<Rightarrow> blocks" where
  "set_prev q v m = (case q of None \<Rightarrow> m | Some p \<Rightarrow> m(p := map_option (mb_prev_update (\<lambda>_. v)) (m p)))"

lemma set_next_None [simp]: "set_next None v m = m" and set_prev_None [simp]: "set_prev None v m = m"
  by (simp_all add: set_next_def set_prev_def)

lemma set_next_other [simp]: "q \<noteq> Some x \<Longrightarrow> set_next q v m x = m x"
  and set_prev_other [simp]: "q \<noteq> Some x \<Longrightarrow> set_prev q v m x = m x"
  by (auto simp: set_next_def set_prev_def split: option.splits)

lemma set_next_at: "set_next (Some x) v m x = map_option (mb_next_update (\<lambda>_. v)) (m x)"
  and set_prev_at: "set_prev (Some x) v m x = map_option (mb_prev_update (\<lambda>_. v)) (m x)"
  by (simp_all add: set_next_def set_prev_def)

lemma dom_set_next [simp]: "dom (set_next q v m) = dom m" and dom_set_prev [simp]: "dom (set_prev q v m) = dom m"
  by (auto simp: set_next_def set_prev_def split: option.splits if_splits)

text \<open>Relinking the end, the beginning, and both at once.\<close>

lemma dll_relink_last:
  "dll m pr p xs e \<Longrightarrow> distinct xs \<Longrightarrow> xs \<noteq> [] \<Longrightarrow> dll (set_next (Some (last xs)) v m) pr p xs v"
proof (induction xs arbitrary: pr p)
  case (Cons x xs)
  then obtain b where b: "m x = Some b" "mb_prev b = pr" "dll m (Some x) (mb_next b) xs e" "p = Some x" by auto
  show ?case
  proof (cases "xs = []")
    case True
    with b show ?thesis by (simp add: set_next_at)
  next
    case False
    with Cons.prems have "last xs \<noteq> x" by auto
    moreover have "dll (set_next (Some (last xs)) v m) (Some x) (mb_next b) xs v"
      using Cons.IH [OF b(3)] Cons.prems False by simp
    ultimately show ?thesis using b False by simp
  qed
qed simp

lemma dll_reprev:
  assumes "dll m pr p xs e" and "distinct xs"
  shows "dll (set_prev (case xs of [] \<Rightarrow> None | x # _ \<Rightarrow> Some x) v m) v p xs e"
proof (cases xs)
  case (Cons x ys)
  with assms obtain b where b: "m x = Some b" "dll m (Some x) (mb_next b) ys e" "p = Some x" "x \<notin> set ys" by auto
  then have "dll (set_prev (Some x) v m) (Some x) (mb_next b) ys e"
    using dll_frame [of ys "set_prev (Some x) v m" m] by (metis set_prev_other option.inject)
  with b Cons show ?thesis by (simp add: set_prev_at)
qed (use assms in simp)

text \<open>Joining two segments.\<close>

definition head_opt :: "ptr list \<Rightarrow> ptr option" where
  "head_opt xs = (case xs of [] \<Rightarrow> None | x # _ \<Rightarrow> Some x)"

lemma head_opt_simps [simp]: "head_opt [] = None" "head_opt (x # xs) = Some x"
  by (simp_all add: head_opt_def)

lemma head_opt_in: "head_opt xs = Some x \<Longrightarrow> x \<in> set xs"
  by (cases xs) auto

lemma last_opt_in: "last_opt None xs = Some x \<Longrightarrow> x \<in> set xs"
  by (auto simp: last_opt_def split: if_splits)

lemma dll_head_opt: "dll m pr p xs None \<Longrightarrow> p = head_opt xs"
  by (cases xs) auto

text \<open>The data of a block: everything but its links.\<close>

definition strip :: "CBMemoryBlock \<Rightarrow> CBMemoryBlock" where
  "strip b = b\<lparr>mb_next := None, mb_prev := None\<rparr>"

definition bd :: "blocks \<Rightarrow> blocks" where
  "bd m = (\<lambda>x. map_option strip (m x))"

lemma strip_simps [simp]:
  "strip (b\<lparr>mb_next := v\<rparr>) = strip b" "strip (b\<lparr>mb_prev := v\<rparr>) = strip b"
  "strip (b\<lparr>mb_size := s\<rparr>) = strip b\<lparr>mb_size := s\<rparr>"
  "strip (b\<lparr>mb_is_allocated := a\<rparr>) = strip b\<lparr>mb_is_allocated := a\<rparr>"
  "mb_gpu_addr (strip b) = mb_gpu_addr b" "mb_size (strip b) = mb_size b"
  "mb_is_allocated (strip b) = mb_is_allocated b" "mb_host_addr (strip b) = mb_host_addr b"
  by (simp_all add: strip_def)

lemma bd_upd [simp]: "bd (m(p \<mapsto> b)) = (bd m)(p \<mapsto> strip b)" "bd (m(p := None)) = (bd m)(p := None)"
  by (auto simp: bd_def)

lemma bd_set_next [simp]: "bd (set_next q v m) = bd m" and bd_set_prev [simp]: "bd (set_prev q v m) = bd m"
  by (auto simp: bd_def set_next_def set_prev_def option.map_comp comp_def split: option.splits intro!: ext)

lemma strip_links [simp]: "strip (b\<lparr>mb_next := v, mb_prev := w\<rparr>) = strip b"
  by (simp add: strip_def)

lemma bd_None [simp]: "bd m x = None \<longleftrightarrow> m x = None"
  by (simp add: bd_def)

lemma bd_Some: "bd m x = Some d \<Longrightarrow> \<exists>b. m x = Some b \<and> d = strip b"
  by (auto simp: bd_def)

lemma bd_at: "m x = Some b \<Longrightarrow> bd m x = Some (strip b)"
  by (simp add: bd_def)

text \<open>A list without a hole: joining two segments, and inserting a block between them.\<close>

lemma dll_join:
  assumes ys: "dll m None p ys e" and zs: "dll m pr q zs None" and d: "distinct (ys @ zs)"
  shows "dll (set_prev q (last_opt None ys) (set_next (last_opt None ys) q m)) None
    (if ys = [] then q else p) (ys @ zs) None"
proof -
  let ?m1 = "set_next (last_opt None ys) q m" and ?l = "last_opt None ys"
  let ?m2 = "set_prev q ?l ?m1"
  have q: "q = head_opt zs" using zs by (rule dll_head_opt)
  have out: "\<forall>x \<in> set zs. ?l \<noteq> Some x" using d last_opt_in by fastforce
  have inn: "\<forall>x \<in> set ys. q \<noteq> Some x" using d q head_opt_in by fastforce
  have "dll ?m1 pr q zs None" using zs out by (subst dll_frame) simp_all
  then have z2: "dll ?m2 ?l q zs None"
    using dll_reprev [of ?m1 pr q zs None ?l] d q by (simp add: head_opt_def)
  show ?thesis
  proof (cases "ys = []")
    case True
    then show ?thesis using z2 by simp
  next
    case False
    have "dll ?m1 None p ys q" using dll_relink_last [OF ys _ False, of q] d False by (simp add: last_opt_def)
    then have "dll ?m2 None p ys q" using inn by (subst dll_frame) simp_all
    with z2 False show ?thesis by (auto simp: dll_append)
  qed
qed

lemma dll_split_at:
  "dll m None f (ys @ p # zs) None \<longleftrightarrow>
     dll m None f ys (Some p) \<and>
     (\<exists>b. m p = Some b \<and> mb_prev b = last_opt None ys \<and> mb_next b = head_opt zs \<and> dll m (Some p) (mb_next b) zs None)"
  by (auto simp: dll_append dest: dll_head_opt)

text \<open>Unlinking the block \<open>p\<close> from between \<open>ys\<close> and \<open>zs\<close>.\<close>

lemma dll_unlink:
  assumes "dll m None f (ys @ p # zs) None" and d: "distinct (ys @ p # zs)"
  shows "dll (set_prev (head_opt zs) (last_opt None ys) (set_next (last_opt None ys) (head_opt zs) m)) None
    (if ys = [] then head_opt zs else f) (ys @ zs) None"
proof -
  from assms obtain b where "dll m None f ys (Some p)" "dll m (Some p) (head_opt zs) zs None"
    by (auto simp: dll_split_at)
  then show ?thesis using dll_join [of m f ys "Some p" "Some p" "head_opt zs" zs] d by simp
qed

text \<open>Linking the fresh block \<open>p\<close> in between.\<close>

lemma dll_insert:
  assumes dl: "dll m None f (ys @ zs) None" and d: "distinct (ys @ p # zs)"
    and p: "m p = Some b" "mb_next b = head_opt zs" "mb_prev b = last_opt None ys"
  shows "dll (set_prev (head_opt zs) (Some p) (set_next (last_opt None ys) (Some p) m)) None
    (if ys = [] then Some p else f) (ys @ p # zs) None"
proof -
  let ?l = "last_opt None ys" and ?q = "head_opt zs"
  let ?m1 = "set_next ?l (Some p) m"
  let ?m2 = "set_prev ?q (Some p) ?m1"
  from dl obtain e where y: "dll m None f ys e" and z: "dll m ?l ?q zs None"
    by (auto simp: dll_append dest: dll_head_opt)
  have lp: "?l \<noteq> Some p" and qp: "?q \<noteq> Some p" using d last_opt_in head_opt_in by fastforce+
  have out: "\<forall>x \<in> set zs. ?l \<noteq> Some x" using d last_opt_in by fastforce
  have inn: "\<forall>x \<in> set ys. ?q \<noteq> Some x" using d head_opt_in by fastforce
  have "dll ?m1 ?l ?q zs None" using z out by (subst dll_frame) simp_all
  then have z2: "dll ?m2 (Some p) ?q zs None"
    using dll_reprev [of ?m1 ?l ?q zs None "Some p"] d by (simp add: head_opt_def)
  have p2: "?m2 p = Some b" using lp qp p by simp
  show ?thesis
  proof (cases "ys = []")
    case True
    with p p2 z2 show ?thesis by simp
  next
    case False
    have "dll ?m1 None f ys (Some p)"
      using dll_relink_last [OF y _ False, of "Some p"] d False by (simp add: last_opt_def)
    then have "dll ?m2 None f ys (Some p)" using inn by (subst dll_frame) simp_all
    with False p p2 z2 show ?thesis by (simp add: dll_split_at)
  qed
qed

lemma dll_upd_data:
  assumes "m p = Some b" and "mb_next b' = mb_next b" and "mb_prev b' = mb_prev b"
  shows "dll (m(p \<mapsto> b')) pr q xs e = dll m pr q xs e"
  using assms by (induction xs arbitrary: pr q) auto

section \<open>The pool operations on lists\<close>

text \<open>\<open>fs\<close> and \<open>us\<close> are the blocks of the two lists of the pool.\<close>

definition pool_lists :: "CBMemoryPool \<Rightarrow> blocks \<Rightarrow> ptr list \<Rightarrow> ptr list \<Rightarrow> bool" where
  "pool_lists pool m fs us \<longleftrightarrow>
     dll m None (pl_free_list pool) fs None \<and> dll m None (pl_used_list pool) us None \<and> distinct (fs @ us)"

text \<open>Heap objects that no list of the pool holds are untouched.\<close>

definition keeps :: "ptr set \<Rightarrow> blocks \<Rightarrow> blocks \<Rightarrow> bool" where
  "keeps S m m' \<longleftrightarrow> (\<forall>x. x \<notin> S \<longrightarrow> m' x = m x)"

lemma keepsD: "keeps S m m' \<Longrightarrow> x \<notin> S \<Longrightarrow> m' x = m x"
  by (simp add: keeps_def)

lemma keeps_refl [simp]: "keeps S m m"
  by (simp add: keeps_def)

lemma keeps_trans: "keeps S m m1 \<Longrightarrow> keeps S m1 m2 \<Longrightarrow> keeps S m m2"
  by (simp add: keeps_def)

lemma keeps_mono: "keeps S m m' \<Longrightarrow> S \<subseteq> T \<Longrightarrow> keeps T m m'"
  by (auto simp: keeps_def)

lemma keeps_upd: "p \<in> S \<Longrightarrow> keeps S m m' \<Longrightarrow> keeps S m (m'(p := v))"
  by (simp add: keeps_def)

lemma keeps_set_next: "keeps S m m' \<Longrightarrow> (\<And>x. q = Some x \<Longrightarrow> x \<in> S) \<Longrightarrow> keeps S m (set_next q v m')"
  and keeps_set_prev: "keeps S m m' \<Longrightarrow> (\<And>x. q = Some x \<Longrightarrow> x \<in> S) \<Longrightarrow> keeps S m (set_prev q v m')"
  by (auto simp: keeps_def set_next_def set_prev_def split: option.splits)

lemma keeps_dll: "keeps S m m' \<Longrightarrow> S \<inter> set xs = {} \<Longrightarrow> dll m' pr p xs e = dll m pr p xs e"
  by (rule dll_frame) (auto simp: keeps_def)

lemma upd_block_at: "hp_mem h p = Some b \<Longrightarrow> upd_block h p f = Some (h\<lparr>hp_mem := (hp_mem h)(p \<mapsto> f b)\<rparr>)"
  by (simp add: upd_block_def heap_get_def heap_put_def)

lemma upd_next_opt:
  "(\<And>x. q = Some x \<Longrightarrow> x \<in> dom (hp_mem h)) \<Longrightarrow>
     upd_block_opt h q (mb_next_update (\<lambda>_. v)) = Some (h\<lparr>hp_mem := set_next q v (hp_mem h)\<rparr>)"
  by (cases q) (auto simp: upd_block_opt_def upd_block_at set_next_def)

lemma upd_prev_opt:
  "(\<And>x. q = Some x \<Longrightarrow> x \<in> dom (hp_mem h)) \<Longrightarrow>
     upd_block_opt h q (mb_prev_update (\<lambda>_. v)) = Some (h\<lparr>hp_mem := set_prev q v (hp_mem h)\<rparr>)"
  by (cases q) (auto simp: upd_block_opt_def upd_block_at set_prev_def)

lemma heap_id [simp]: "h\<lparr>hp_mem := hp_mem h\<rparr> = h"
  by simp

text \<open>The two searches.\<close>

lemma first_fit_closed:
  assumes "dll (hp_mem h) pr p xs None" and "\<And>x. x \<in> set xs \<Longrightarrow> P x \<longleftrightarrow> mb_size (the (hp_mem h x)) \<ge> sz"
  shows "first_fit h sz pr p =
    Some (At (last_opt pr (takeWhile (\<lambda>x. \<not> P x) xs)) (head_opt (dropWhile (\<lambda>x. \<not> P x) xs)))"
  using assms
proof (induction xs arbitrary: pr p)
  case Nil
  then show ?case by (simp add: first_fit.simps)
next
  case (Cons x xs)
  then obtain b where b: "p = Some x" "hp_mem h x = Some b" "dll (hp_mem h) (Some x) (mb_next b) xs None" by auto
  show ?case
  proof (cases "P x")
    case True
    with Cons.prems(2) [of x] b show ?thesis by (simp add: first_fit.simps [of h sz pr] heap_get_def)
  next
    case False
    with Cons.prems(2) [of x] b Cons.IH [OF b(3)] Cons.prems(2)
    show ?thesis by (simp add: first_fit.simps [of h sz pr] heap_get_def)
  qed
qed

lemma find_place_closed:
  assumes "dll (hp_mem h) pr p xs None" and "\<And>x. x \<in> set xs \<Longrightarrow> P x \<longleftrightarrow> mb_gpu_addr (the (hp_mem h x)) < addr"
  shows "find_place h addr pr p = Some (At (last_opt pr (takeWhile P xs)) (head_opt (dropWhile P xs)))"
  using assms
proof (induction xs arbitrary: pr p)
  case Nil
  then show ?case by (simp add: find_place.simps)
next
  case (Cons x xs)
  then obtain b where b: "p = Some x" "hp_mem h x = Some b" "dll (hp_mem h) (Some x) (mb_next b) xs None" by auto
  show ?case
  proof (cases "P x")
    case False
    with Cons.prems(2) [of x] b show ?thesis by (simp add: find_place.simps [of h addr pr] heap_get_def)
  next
    case True
    with Cons.prems(2) [of x] b Cons.IH [OF b(3)] Cons.prems(2)
    show ?thesis by (simp add: find_place.simps [of h addr pr] heap_get_def)
  qed
qed

lemma find_used_closed:
  assumes "dll (hp_mem h) pr p xs None"
  shows "find_used h P p = Some (head_opt (dropWhile (\<lambda>x. \<not> P (the (hp_mem h x))) xs))"
  using assms
  by (induction xs arbitrary: pr p) (auto simp: find_used.simps [of h P] heap_get_def)

lemma last_opt_live: "dll m None p ys e \<Longrightarrow> last_opt None ys = Some x \<Longrightarrow> x \<in> dom m"
  using last_opt_in dll_live by fastforce

lemma head_opt_live: "dll m pr p zs e \<Longrightarrow> head_opt zs = Some x \<Longrightarrow> x \<in> dom m"
  using head_opt_in dll_live by fastforce

lemma take_block_closed:
  assumes L: "pool_lists pool (hp_mem h) (ys @ p # zs) us"
  shows "\<exists>h' b. hp_mem h p = Some b \<and>
    take_block pool h (last_opt None ys) p sz =
      Some (pool\<lparr>pl_free_list := head_opt (ys @ zs), pl_used_list := Some p, pl_used_size := pl_used_size pool + sz\<rparr>, h') \<and>
    dll (hp_mem h') None (head_opt (ys @ zs)) (ys @ zs) None \<and> dll (hp_mem h') None (Some p) (p # us) None \<and>
    bd (hp_mem h') = (bd (hp_mem h))(p \<mapsto> strip b\<lparr>mb_is_allocated := True\<rparr>) \<and>
    keeps (set (ys @ p # zs) \<union> set us) (hp_mem h) (hp_mem h') \<and> h' = h\<lparr>hp_mem := hp_mem h'\<rparr>"
proof -
  let ?m = "hp_mem h" and ?l = "last_opt None ys" and ?q = "head_opt zs"
  from L have fr: "dll ?m None (pl_free_list pool) (ys @ p # zs) None"
    and us: "dll ?m None (pl_used_list pool) us None" and d: "distinct (ys @ p # zs @ us)"
    by (auto simp: pool_lists_def)
  from fr obtain b where b: "?m p = Some b" "mb_prev b = ?l" "mb_next b = ?q"
    and ys: "dll ?m None (pl_free_list pool) ys (Some p)" and zs: "dll ?m (Some p) (mb_next b) zs None"
    by (auto simp: dll_split_at)
  let ?m2 = "set_prev ?q ?l (set_next ?l ?q ?m)"
  let ?b3 = "b\<lparr>mb_next := pl_used_list pool, mb_prev := None\<rparr>"
  let ?m3 = "?m2(p \<mapsto> ?b3)"
  let ?m4 = "set_prev (pl_used_list pool) (Some p) ?m3"
  let ?m5 = "?m4(p \<mapsto> ?b3\<lparr>mb_is_allocated := True\<rparr>)"
  have lp: "?l \<noteq> Some p" and qp: "?q \<noteq> Some p" using d last_opt_in head_opt_in by fastforce+
  have uh: "pl_used_list pool = head_opt us" using us by (rule dll_head_opt)
  have up: "head_opt us \<noteq> Some p" using d head_opt_in by fastforce
  have m2p: "?m2 p = Some b" using lp qp b by simp
  have m4p: "?m4 p = Some ?b3" using up uh by simp
  have lv: "\<And>x. ?l = Some x \<Longrightarrow> x \<in> dom ?m" "\<And>x. ?q = Some x \<Longrightarrow> x \<in> dom ?m" "\<And>x. head_opt us = Some x \<Longrightarrow> x \<in> dom ?m"
    using ys zs us last_opt_live head_opt_live by blast+
  have dm: "dom ?m3 = dom ?m" using b by auto
  have step: "take_block pool h ?l p sz =
      Some (pool\<lparr>pl_free_list := head_opt (ys @ zs), pl_used_list := Some p, pl_used_size := pl_used_size pool + sz\<rparr>,
        h\<lparr>hp_mem := ?m5\<rparr>)"
  proof -
    have f: "pool\<lparr>pl_free_list := head_opt (ys @ zs)\<rparr> = pool" if "ys \<noteq> []"
      using dll_head_opt [OF fr] that by (cases ys) simp_all
    have "upd_block_opt h ?l (mb_next_update (\<lambda>_. ?q)) = Some (h\<lparr>hp_mem := set_next ?l ?q ?m\<rparr>)"
      by (rule upd_next_opt) (use lv in simp)
    moreover have "upd_block_opt (h\<lparr>hp_mem := set_next ?l ?q ?m\<rparr>) ?q (mb_prev_update (\<lambda>_. ?l)) = Some (h\<lparr>hp_mem := ?m2\<rparr>)"
      by (subst upd_prev_opt) (use lv in simp_all)
    moreover have "upd_block (h\<lparr>hp_mem := ?m2\<rparr>) p (\<lambda>b. b\<lparr>mb_next := pl_used_list pool, mb_prev := None\<rparr>) =
        Some (h\<lparr>hp_mem := ?m3\<rparr>)" by (subst upd_block_at [where b = b]) (use m2p in simp_all)
    moreover have "upd_block_opt (h\<lparr>hp_mem := ?m3\<rparr>) (pl_used_list pool) (mb_prev_update (\<lambda>_. Some p)) =
        Some (h\<lparr>hp_mem := ?m4\<rparr>)" by (subst upd_prev_opt) (use lv dm uh in simp_all)
    moreover have "upd_block (h\<lparr>hp_mem := ?m4\<rparr>) p (mb_is_allocated_update (\<lambda>_. True)) = Some (h\<lparr>hp_mem := ?m5\<rparr>)"
      by (subst upd_block_at [where b = ?b3]) (use m4p in simp_all)
    ultimately show ?thesis
      using b f by (cases "ys = []") (simp_all add: take_block_def heap_get_def Let_def last_opt_def)
  qed
  have out: "\<And>x. x \<in> set us \<Longrightarrow> ?l \<noteq> Some x \<and> ?q \<noteq> Some x" using d last_opt_in head_opt_in by fastforce
  have "dll ?m2 None (if ys = [] then ?q else pl_free_list pool) (ys @ zs) None"
    by (rule dll_unlink [OF fr]) (use d in auto)
  then have f2: "dll ?m2 None (head_opt (ys @ zs)) (ys @ zs) None" using dll_head_opt by fastforce
  have fx: "x \<noteq> p \<and> head_opt us \<noteq> Some x" if "x \<in> set (ys @ zs)" for x
    using that d head_opt_in [of us x] by auto
  have "\<forall>x \<in> set (ys @ zs). ?m5 x = ?m2 x" using fx uh by simp
  then have free: "dll ?m5 None (head_opt (ys @ zs)) (ys @ zs) None" using f2 by (simp only: dll_frame)
  have u0: "dll ?m3 None (head_opt us) us None" using us d out uh by (subst dll_frame [where m = ?m]) auto
  then have "dll ?m4 None (Some p) (p # us) None"
    using dll_insert [of ?m3 "head_opt us" "[]" us p ?b3] d uh by simp
  then have used: "dll ?m5 None (Some p) (p # us) None" using m4p by (subst dll_upd_data [where b = ?b3]) simp_all
  have "keeps (set (ys @ p # zs) \<union> set us) ?m ?m5"
    by (intro keeps_upd keeps_set_prev keeps_set_next) (use uh last_opt_in head_opt_in in auto)
  moreover have "bd ?m5 = (bd ?m)(p \<mapsto> strip b\<lparr>mb_is_allocated := True\<rparr>)" by simp
  ultimately show ?thesis using step free used b
    by (intro exI [of _ "h\<lparr>hp_mem := ?m5\<rparr>"] exI [of _ b]) simp
qed

lemma unlink_used_closed:
  assumes L: "pool_lists pool (hp_mem h) fs (ys @ p # zs)"
  shows "\<exists>h' b. hp_mem h p = Some b \<and>
    unlink_used pool h p =
      Some (pool\<lparr>pl_used_list := head_opt (ys @ zs), pl_used_size := pl_used_size pool - mb_size b\<rparr>, h') \<and>
    dll (hp_mem h') None (pl_free_list pool) fs None \<and> dll (hp_mem h') None (head_opt (ys @ zs)) (ys @ zs) None \<and>
    bd (hp_mem h') = (bd (hp_mem h))(p \<mapsto> strip b\<lparr>mb_is_allocated := False\<rparr>) \<and>
    keeps (set (ys @ p # zs)) (hp_mem h) (hp_mem h') \<and> h' = h\<lparr>hp_mem := hp_mem h'\<rparr>"
proof -
  let ?m = "hp_mem h" and ?l = "last_opt None ys" and ?q = "head_opt zs"
  from L have us: "dll ?m None (pl_used_list pool) (ys @ p # zs) None"
    and fs: "dll ?m None (pl_free_list pool) fs None" and d: "distinct (fs @ ys @ p # zs)"
    by (auto simp: pool_lists_def)
  from us obtain b where b: "?m p = Some b" "mb_prev b = ?l" "mb_next b = ?q"
    and ys: "dll ?m None (pl_used_list pool) ys (Some p)" and zs: "dll ?m (Some p) (mb_next b) zs None"
    by (auto simp: dll_split_at)
  let ?m2 = "set_prev ?q ?l (set_next ?l ?q ?m)"
  let ?m3 = "?m2(p \<mapsto> b\<lparr>mb_is_allocated := False\<rparr>)"
  have lp: "?l \<noteq> Some p" and qp: "?q \<noteq> Some p" using d last_opt_in head_opt_in by fastforce+
  have m2p: "?m2 p = Some b" using lp qp b by simp
  have lv: "\<And>x. ?l = Some x \<Longrightarrow> x \<in> dom ?m" "\<And>x. ?q = Some x \<Longrightarrow> x \<in> dom ?m"
    using ys zs last_opt_live head_opt_live by blast+
  have step: "unlink_used pool h p =
      Some (pool\<lparr>pl_used_list := head_opt (ys @ zs), pl_used_size := pl_used_size pool - mb_size b\<rparr>, h\<lparr>hp_mem := ?m3\<rparr>)"
  proof -
    have f: "pool\<lparr>pl_used_list := head_opt (ys @ zs)\<rparr> = pool" if "ys \<noteq> []"
      using dll_head_opt [OF us] that by (cases ys) simp_all
    have "upd_block_opt h ?l (mb_next_update (\<lambda>_. ?q)) = Some (h\<lparr>hp_mem := set_next ?l ?q ?m\<rparr>)"
      by (rule upd_next_opt) (use lv in simp)
    moreover have "upd_block_opt (h\<lparr>hp_mem := set_next ?l ?q ?m\<rparr>) ?q (mb_prev_update (\<lambda>_. ?l)) = Some (h\<lparr>hp_mem := ?m2\<rparr>)"
      by (subst upd_prev_opt) (use lv in simp_all)
    moreover have "upd_block (h\<lparr>hp_mem := ?m2\<rparr>) p (mb_is_allocated_update (\<lambda>_. False)) = Some (h\<lparr>hp_mem := ?m3\<rparr>)"
      by (subst upd_block_at [where b = b]) (use m2p in simp_all)
    ultimately show ?thesis
      using b f by (cases "ys = []") (simp_all add: unlink_used_def heap_get_def Let_def last_opt_def)
  qed
  have "dll ?m2 None (if ys = [] then ?q else pl_used_list pool) (ys @ zs) None"
    by (rule dll_unlink [OF us]) (use d in auto)
  then have u2: "dll ?m2 None (head_opt (ys @ zs)) (ys @ zs) None" using dll_head_opt by fastforce
  have "\<forall>x \<in> set (ys @ zs). ?m3 x = ?m2 x" using d by auto
  then have used: "dll ?m3 None (head_opt (ys @ zs)) (ys @ zs) None" using u2 by (simp only: dll_frame)
  have kp: "keeps (set (ys @ p # zs)) ?m ?m3"
    by (intro keeps_upd keeps_set_prev keeps_set_next) (use last_opt_in head_opt_in in auto)
  have free: "dll ?m3 None (pl_free_list pool) fs None" 
    by (subst keeps_dll [OF kp]) (use fs d in auto)
  have "bd ?m3 = (bd ?m)(p \<mapsto> strip b\<lparr>mb_is_allocated := False\<rparr>)" by simp
  then show ?thesis using step free used b kp
    by (intro exI [of _ "h\<lparr>hp_mem := ?m3\<rparr>"] exI [of _ b]) simp
qed

lemma insert_free_closed:
  assumes L: "dll (hp_mem h) None (pl_free_list pool) fs None" and d: "distinct (p # fs)"
    and p: "hp_mem h p = Some b"
    and P: "\<And>x. x \<in> set fs \<Longrightarrow> P x \<longleftrightarrow> mb_gpu_addr (the (hp_mem h x)) < mb_gpu_addr b"
    and ys: "ys = takeWhile P fs" and zs: "zs = dropWhile P fs"
  shows "\<exists>h'. insert_free pool h p = Some (pool\<lparr>pl_free_list := head_opt (ys @ p # zs)\<rparr>, h') \<and>
    dll (hp_mem h') None (head_opt (ys @ p # zs)) (ys @ p # zs) None \<and> bd (hp_mem h') = bd (hp_mem h) \<and>
    keeps (set (p # fs)) (hp_mem h) (hp_mem h') \<and> h' = h\<lparr>hp_mem := hp_mem h'\<rparr>"
proof -
  let ?m = "hp_mem h" and ?l = "last_opt None ys" and ?q = "head_opt zs"
  have fs: "fs = ys @ zs" using ys zs by simp
  have sub: "set fs = set ys \<union> set zs" using fs by simp
  let ?b1 = "b\<lparr>mb_next := ?q, mb_prev := ?l\<rparr>"
  let ?m1 = "?m(p \<mapsto> ?b1)"
  let ?m3 = "set_prev ?q (Some p) (set_next ?l (Some p) ?m1)"
  have lv: "\<And>x. ?l = Some x \<Longrightarrow> x \<in> dom ?m1" "\<And>x. ?q = Some x \<Longrightarrow> x \<in> dom ?m1"
    using last_opt_in [of ys] head_opt_in [of zs] dll_live [OF L] sub by fastforce+
  have step: "insert_free pool h p = Some (pool\<lparr>pl_free_list := head_opt (ys @ p # zs)\<rparr>, h\<lparr>hp_mem := ?m3\<rparr>)"
  proof -
    have f: "pool\<lparr>pl_free_list := head_opt (ys @ p # zs)\<rparr> = pool" if "ys \<noteq> []"
      using dll_head_opt [OF L] that fs by (cases ys) simp_all
    have "find_place h (mb_gpu_addr b) None (pl_free_list pool) = Some (At ?l ?q)"
      unfolding ys zs by (rule find_place_closed [OF L P])
    moreover have "upd_block h p (\<lambda>b. b\<lparr>mb_next := ?q, mb_prev := ?l\<rparr>) = Some (h\<lparr>hp_mem := ?m1\<rparr>)"
      by (rule upd_block_at [OF p])
    moreover have "upd_block_opt (h\<lparr>hp_mem := ?m1\<rparr>) ?l (mb_next_update (\<lambda>_. Some p)) =
        Some (h\<lparr>hp_mem := set_next ?l (Some p) ?m1\<rparr>)"
      by (subst upd_next_opt) (use lv in simp_all)
    moreover have "upd_block_opt (h\<lparr>hp_mem := set_next ?l (Some p) ?m1\<rparr>) ?q (mb_prev_update (\<lambda>_. Some p)) =
        Some (h\<lparr>hp_mem := ?m3\<rparr>)"
      by (subst upd_prev_opt) (use lv in simp_all)
    ultimately show ?thesis
      using p f by (cases "ys = []") (simp_all add: insert_free_def heap_get_def Let_def last_opt_def)
  qed
  have "dll ?m1 None (pl_free_list pool) (ys @ zs) None" using L d fs by (subst dll_frame [where m = ?m]) auto
  then have "dll ?m3 None (if ys = [] then Some p else pl_free_list pool) (ys @ p # zs) None"
    by (rule dll_insert [where b = ?b1]) (use d fs in auto)
  then have free: "dll ?m3 None (head_opt (ys @ p # zs)) (ys @ p # zs) None" using dll_head_opt by fastforce
  have kp: "keeps (set (p # fs)) ?m ?m3"
    by (intro keeps_set_prev keeps_set_next keeps_upd) (use last_opt_in [of ys] head_opt_in [of zs] sub in auto)
  have "bd ?m p = Some (strip b)" using p by (rule bd_at)
  then have "bd ?m3 = bd ?m" by (simp add: fun_upd_idem_iff)
  then show ?thesis using step free kp by (intro exI [of _ "h\<lparr>hp_mem := ?m3\<rparr>"]) simp
qed

text \<open>The block \<open>n\<close> is absorbed by the block \<open>q\<close> before it.\<close>

lemma dll_absorb:
  fixes s :: u64
  assumes dl: "dll m None f (ys @ q # n # zs) None" and d: "distinct (ys @ q # n # zs)"
    and q: "m q = Some qb" and n: "m n = Some nb"
  defines "m' \<equiv> (set_prev (mb_next nb) (Some q) (m(q \<mapsto> qb\<lparr>mb_size := s, mb_next := mb_next nb\<rparr>)))(n := None)"
  shows "dll m' None f (ys @ q # zs) None" and "bd m' = (bd m)(q \<mapsto> strip qb\<lparr>mb_size := s\<rparr>, n := None)"
    and "keeps (set (q # n # zs)) m m'"
proof -
  have ys: "dll m None f ys (Some q)" and pq: "mb_prev qb = last_opt None ys"
    and zs0: "dll m (Some n) (mb_next nb) zs None"
    using dl q n by (auto simp: dll_split_at)
  have qz: "mb_next nb = head_opt zs" by (rule dll_head_opt [OF zs0])
  have zs: "dll m (Some n) (head_opt zs) zs None" using zs0 qz by simp
  let ?b = "qb\<lparr>mb_size := s, mb_next := mb_next nb\<rparr>"
  let ?m1 = "m(q \<mapsto> ?b)"
  let ?m2 = "set_prev (head_opt zs) (Some q) ?m1"
  have hz: "head_opt zs \<noteq> Some x" if "x \<in> set ys \<union> {q, n}" for x
    using that d head_opt_in [of zs x] by auto
  have "dll ?m1 (Some n) (head_opt zs) zs None" using zs d by (subst dll_frame [where m = m]) auto
  then have "dll ?m2 (Some q) (head_opt zs) zs None"
    using dll_reprev [of ?m1 "Some n" "head_opt zs" zs None "Some q"] d by (simp add: head_opt_def)
  then have z: "dll (?m2(n := None)) (Some q) (head_opt zs) zs None"
    using d by (subst dll_frame [where m = ?m2]) auto
  have y: "dll (?m2(n := None)) None f ys (Some q)" using ys d hz by (subst dll_frame [where m = m]) auto
  have "(?m2(n := None)) q = Some ?b" using hz [of q] d by simp
  then show "dll m' None f (ys @ q # zs) None"
    using y z pq qz by (simp add: m'_def dll_split_at)
  show "bd m' = (bd m)(q \<mapsto> strip qb\<lparr>mb_size := s\<rparr>, n := None)" by (simp add: m'_def)
  show "keeps (set (q # n # zs)) m m'"
    unfolding m'_def by (intro keeps_upd keeps_set_prev) (use qz head_opt_in [of zs] in auto)
qed

text \<open>What the two merges do, and when: \<open>q\<close> and \<open>n\<close> are neighbours in the list.\<close>

definition adjacent :: "blocks \<Rightarrow> ptr \<Rightarrow> ptr \<Rightarrow> bool" where
  "adjacent m q n \<longleftrightarrow>
     \<not> mb_is_allocated (the (m q)) \<and> \<not> mb_is_allocated (the (m n)) \<and>
     mb_gpu_addr (the (m q)) + mb_size (the (m q)) = mb_gpu_addr (the (m n))"

lemma adjacent_bd: "m q = Some b \<Longrightarrow> m n = Some b' \<Longrightarrow> adjacent (bd m) q n = adjacent m q n"
  by (simp add: adjacent_def bd_at)

definition absorbed :: "blocks \<Rightarrow> ptr \<Rightarrow> ptr \<Rightarrow> blocks" where
  "absorbed m q n =
     m(q \<mapsto> the (m q)\<lparr>mb_size := mb_size (the (m q)) + mb_size (the (m n))\<rparr>, n := None)"

lemma merge_next_closed:
  assumes dl: "dll (hp_mem h) None (pl_free_list pool) (ys @ p # zs) None" and d: "distinct (ys @ p # zs)"
    and a: "\<not> mb_is_allocated (the (hp_mem h p))"
  shows "\<exists>h' pool' zs'. merge_next pool h p = Some (pool', h') \<and>
    (if zs \<noteq> [] \<and> adjacent (hp_mem h) p (hd zs)
     then zs' = tl zs \<and> pool' = pool\<lparr>pl_block_count := pl_block_count pool - 1\<rparr> \<and>
       bd (hp_mem h') = absorbed (bd (hp_mem h)) p (hd zs)
     else zs' = zs \<and> pool' = pool \<and> bd (hp_mem h') = bd (hp_mem h)) \<and>
    dll (hp_mem h') None (pl_free_list pool) (ys @ p # zs') None \<and>
    keeps (set (p # zs)) (hp_mem h) (hp_mem h') \<and> h' = h\<lparr>hp_mem := hp_mem h'\<rparr>"
proof -
  from dl obtain b where b: "hp_mem h p = Some b" "mb_next b = head_opt zs" by (auto simp: dll_split_at)
  show ?thesis
  proof (cases zs)
    case Nil
    with b dl show ?thesis by (intro exI [of _ h] exI [of _ pool] exI [of _ zs]) (simp add: merge_next_def heap_get_def)
  next
    case (Cons n zt)
    with dl obtain nb where nb: "hp_mem h n = Some nb" "mb_next nb = head_opt zt" by (auto simp: dll_split_at dest: dll_head_opt)
    show ?thesis
    proof (cases "adjacent (hp_mem h) p n")
      case False
      with b nb dl Cons a show ?thesis
        by (intro exI [of _ h] exI [of _ pool] exI [of _ zs]) (auto simp: merge_next_def heap_get_def adjacent_def)
    next
      case True
      let ?b = "b\<lparr>mb_size := mb_size b + mb_size nb, mb_next := mb_next nb\<rparr>"
      let ?m1 = "(hp_mem h)(p \<mapsto> ?b)"
      let ?m = "(set_prev (mb_next nb) (Some p) ?m1)(n := None)"
      have pn: "p \<noteq> n" using d Cons by auto
      note ab = dll_absorb [of "hp_mem h" _ ys p n zt b nb, OF _ _ b(1) nb(1), of _ "mb_size b + mb_size nb"]
      have q: "\<And>x. mb_next nb = Some x \<Longrightarrow> x \<in> dom ?m1"
        using nb head_opt_live [of "hp_mem h" "Some n" "head_opt zt" zt None] dl Cons
        by (auto simp: dll_split_at dest: dll_head_opt)
      have "upd_block_opt (h\<lparr>hp_mem := ?m1\<rparr>) (mb_next nb) (mb_prev_update (\<lambda>_. Some p)) =
          Some (h\<lparr>hp_mem := set_prev (mb_next nb) (Some p) ?m1\<rparr>)"
        by (subst upd_prev_opt) (use q in simp_all)
      moreover have "heap_free (h\<lparr>hp_mem := set_prev (mb_next nb) (Some p) ?m1\<rparr>) n = Some (h\<lparr>hp_mem := ?m\<rparr>)"
      proof -
        have "n \<in> dom ?m1" using nb by auto
        then show ?thesis by (simp add: heap_free_Some)
      qed
      ultimately have "merge_next pool h p = Some (pool\<lparr>pl_block_count := pl_block_count pool - 1\<rparr>, h\<lparr>hp_mem := ?m\<rparr>)"
        using b nb True Cons by (simp add: merge_next_def heap_get_def adjacent_def upd_block_at)
      moreover have "bd ?m = absorbed (bd (hp_mem h)) p n"
        using ab(2) dl d Cons b nb by (simp add: absorbed_def bd_at)
      ultimately show ?thesis
        using ab(1,3) dl d Cons True by (intro exI [of _ "h\<lparr>hp_mem := ?m\<rparr>"]) auto
    qed
  qed
qed

lemma merge_prev_closed:
  assumes dl: "dll (hp_mem h) None (pl_free_list pool) (ys @ p # zs) None" and d: "distinct (ys @ p # zs)"
    and a: "\<not> mb_is_allocated (the (hp_mem h p))"
  shows "\<exists>h' pool' xs. merge_prev pool h p = Some (pool', h') \<and>
    (if ys \<noteq> [] \<and> adjacent (hp_mem h) (last ys) p
     then xs = ys @ zs \<and> pool' = pool\<lparr>pl_block_count := pl_block_count pool - 1\<rparr> \<and>
       bd (hp_mem h') = absorbed (bd (hp_mem h)) (last ys) p
     else xs = ys @ p # zs \<and> pool' = pool \<and> bd (hp_mem h') = bd (hp_mem h)) \<and>
    dll (hp_mem h') None (pl_free_list pool) xs None \<and>
    keeps (set (ys @ p # zs)) (hp_mem h) (hp_mem h') \<and> h' = h\<lparr>hp_mem := hp_mem h'\<rparr>"
proof -
  from dl obtain b where b: "hp_mem h p = Some b" "mb_prev b = last_opt None ys" "mb_next b = head_opt zs"
    and zs: "dll (hp_mem h) (Some p) (head_opt zs) zs None" by (auto simp: dll_split_at)
  show ?thesis
  proof (cases ys rule: rev_cases)
    case Nil
    with b dl show ?thesis
      by (intro exI [of _ h] exI [of _ pool] exI [of _ "ys @ p # zs"]) (simp add: merge_prev_def heap_get_def)
  next
    case (snoc yt q)
    with dl obtain qb where qb: "hp_mem h q = Some qb" by (auto simp: dll_append)
    show ?thesis
    proof (cases "adjacent (hp_mem h) q p")
      case False
      with b qb dl snoc a show ?thesis
        by (intro exI [of _ h] exI [of _ pool] exI [of _ "ys @ p # zs"])
          (auto simp: merge_prev_def heap_get_def adjacent_def)
    next
      case True
      let ?b = "qb\<lparr>mb_size := mb_size qb + mb_size b, mb_next := mb_next b\<rparr>"
      let ?m1 = "(hp_mem h)(q \<mapsto> ?b)"
      let ?m = "(set_prev (mb_next b) (Some q) ?m1)(p := None)"
      have dl': "dll (hp_mem h) None (pl_free_list pool) (yt @ q # p # zs) None" "distinct (yt @ q # p # zs)"
        using dl d snoc by simp_all
      note ab = dll_absorb [OF dl' qb b(1), of "mb_size qb + mb_size b"]
      have q: "\<And>x. mb_next b = Some x \<Longrightarrow> x \<in> dom ?m1" using head_opt_live [OF zs] b by auto
      have "upd_block_opt (h\<lparr>hp_mem := ?m1\<rparr>) (mb_next b) (mb_prev_update (\<lambda>_. Some q)) =
          Some (h\<lparr>hp_mem := set_prev (mb_next b) (Some q) ?m1\<rparr>)"
        by (subst upd_prev_opt) (use q in simp_all)
      moreover have "heap_free (h\<lparr>hp_mem := set_prev (mb_next b) (Some q) ?m1\<rparr>) p = Some (h\<lparr>hp_mem := ?m\<rparr>)"
      proof -
        have "p \<in> dom ?m1" using b by auto
        then show ?thesis by (simp add: heap_free_Some)
      qed
      ultimately have "merge_prev pool h p = Some (pool\<lparr>pl_block_count := pl_block_count pool - 1\<rparr>, h\<lparr>hp_mem := ?m\<rparr>)"
        using b qb True snoc by (simp add: merge_prev_def heap_get_def adjacent_def upd_block_at)
      moreover have "bd ?m = absorbed (bd (hp_mem h)) q p"
        using ab(2) b qb by (simp add: absorbed_def bd_at)
      moreover have "keeps (set (ys @ p # zs)) (hp_mem h) ?m" using ab(3) snoc by (auto elim: keeps_mono)
      ultimately show ?thesis
        using ab(1) snoc True by (intro exI [of _ "h\<lparr>hp_mem := ?m\<rparr>"]) auto
    qed
  qed
qed

lemma split_block_none:
  assumes "hp_mem h p = Some b" and "\<not> mb_size b > sz + pl_page_size pool"
  shows "split_block pool h p sz = Some (pool, h)"
  using assms by (simp add: split_block_def heap_get_def)

lemma split_block_oom:
  assumes "hp_mem h p = Some b" and "hp_oom h (hp_next h)"
  shows "split_block pool h p sz =
    Some (pool, if mb_size b > sz + pl_page_size pool then h\<lparr>hp_next := Suc (hp_next h)\<rparr> else h)"
  using assms by (simp add: split_block_def heap_get_def create_block_def heap_alloc_def)

lemma split_block_splits:
  assumes wf: "heap_wf h" and L: "pool_lists pool (hp_mem h) (ys @ p # zs) us"
    and p: "hp_mem h p = Some b" and sz: "mb_size b > sz + pl_page_size pool" and o: "\<not> hp_oom h (hp_next h)"
  defines "r \<equiv> hp_next h"
  shows "\<exists>h'. split_block pool h p sz = Some (pool\<lparr>pl_block_count := pl_block_count pool + 1\<rparr>, h') \<and>
    pool_lists pool (hp_mem h') (ys @ p # r # zs) us \<and>
    bd (hp_mem h') = (bd (hp_mem h))(p \<mapsto> strip b\<lparr>mb_size := sz\<rparr>,
      r \<mapsto> block_zero\<lparr>mb_gpu_addr := mb_gpu_addr b + sz, mb_size := mb_size b - sz\<rparr>) \<and>
    keeps (set (ys @ p # r # zs)) (hp_mem h) (hp_mem h') \<and> h' = h\<lparr>hp_mem := hp_mem h', hp_next := Suc (hp_next h)\<rparr>"
proof -
  let ?m = "hp_mem h" and ?q = "head_opt zs"
  from L have fs: "dll ?m None (pl_free_list pool) (ys @ p # zs) None" and d: "distinct (ys @ p # zs)"
    and us: "dll ?m None (pl_used_list pool) us None" and du: "set us \<inter> set (ys @ p # zs) = {}" "distinct us"
    by (auto simp: pool_lists_def)
  from fs p have nb: "mb_next b = ?q" and zs: "dll ?m (Some p) ?q zs None" by (auto simp: dll_split_at)
  have rn: "?m r = None" unfolding r_def by (rule heap_wf_fresh [OF wf])
  have rf: "r \<notin> set (ys @ p # zs)" using dll_live [OF fs] rn by fastforce
  have ru: "r \<notin> set us" using dll_live [OF us] rn by fastforce
  let ?r0 = "block_zero\<lparr>mb_gpu_addr := mb_gpu_addr b + sz, mb_size := mb_size b - sz\<rparr>"
  let ?r1 = "?r0\<lparr>mb_next := ?q\<rparr>"
  let ?r2 = "?r1\<lparr>mb_prev := Some p\<rparr>"
  let ?m1 = "?m(r \<mapsto> ?r1)"
  let ?m2 = "set_prev ?q (Some r) ?m1"
  let ?m3 = "?m2(p \<mapsto> b\<lparr>mb_next := Some r\<rparr>)"
  let ?m4 = "?m3(r \<mapsto> ?r2)"
  let ?m5 = "?m4(p \<mapsto> b\<lparr>mb_next := Some r, mb_size := sz\<rparr>)"
  let ?H = "\<lambda>m. h\<lparr>hp_mem := m, hp_next := Suc (hp_next h)\<rparr>"
  have pr: "p \<noteq> r" using rf by auto
  have qp: "?q \<noteq> Some p" and qr: "?q \<noteq> Some r" using d rf head_opt_in [of zs] by auto
  have m2: "?m2 p = Some b" "?m2 r = Some ?r1" using qp qr p pr by simp_all
  have "?r0\<lparr>mb_is_allocated := False\<rparr> = ?r0" by (simp add: block_zero_def)
  then have "create_block h (mb_gpu_addr b + sz) (mb_size b - sz) = (Some r, ?H (?m(r \<mapsto> ?r0)))"
    using o by (simp add: create_block_def heap_alloc_def r_def Let_def)
  moreover have "upd_block (?H (?m(r \<mapsto> ?r0))) r (mb_next_update (\<lambda>_. mb_next b)) = Some (?H ?m1)"
    by (subst upd_block_at [where b = ?r0]) (simp_all add: nb)
  moreover have "upd_block_opt (?H ?m1) (mb_next b) (mb_prev_update (\<lambda>_. Some r)) = Some (?H ?m2)"
    by (subst upd_prev_opt) (use nb head_opt_live [OF zs] in auto)
  moreover have "upd_block (?H ?m2) p (mb_next_update (\<lambda>_. Some r)) = Some (?H ?m3)"
    by (subst upd_block_at [where b = b]) (use m2 in simp_all)
  moreover have "upd_block (?H ?m3) r (mb_prev_update (\<lambda>_. Some p)) = Some (?H ?m4)"
    by (subst upd_block_at [where b = ?r1]) (use m2 pr in simp_all)
  moreover have "upd_block (?H ?m4) p (mb_size_update (\<lambda>_. sz)) = Some (?H ?m5)"
    by (subst upd_block_at [where b = "b\<lparr>mb_next := Some r\<rparr>"]) (use pr in simp_all)
  ultimately have step: "split_block pool h p sz = Some (pool\<lparr>pl_block_count := pl_block_count pool + 1\<rparr>, ?H ?m5)"
    using p sz by (simp add: split_block_def heap_get_def)
  let ?n1 = "?m(r \<mapsto> ?r2)"
  let ?n3 = "set_prev ?q (Some r) (set_next (Some p) (Some r) ?n1)"
  have "dll ?n1 None (pl_free_list pool) ((ys @ [p]) @ zs) None" using fs rf by (subst dll_frame [where m = ?m]) auto
  then have "dll (set_prev ?q (Some r) (set_next (last_opt None (ys @ [p])) (Some r) ?n1)) None
      (if ys @ [p] = [] then Some r else pl_free_list pool) ((ys @ [p]) @ r # zs) None"
    by (rule dll_insert [where b = ?r2]) (use d rf in auto)
  then have n3: "dll ?n3 None (pl_free_list pool) (ys @ p # r # zs) None" by simp
  have m5: "?m5 = ?n3(p \<mapsto> b\<lparr>mb_next := Some r, mb_size := sz\<rparr>)"
    using pr p qp qr by (auto simp: set_prev_def set_next_def split: option.splits)
  have "?n3 p = Some (b\<lparr>mb_next := Some r\<rparr>)" using pr p qp by (simp add: set_next_at)
  then have free: "dll ?m5 None (pl_free_list pool) (ys @ p # r # zs) None"
    unfolding m5 by (subst dll_upd_data [where b = "b\<lparr>mb_next := Some r\<rparr>"]) (use n3 in simp_all)
  have kp: "keeps (set (ys @ p # r # zs)) ?m ?m5"
    by (intro keeps_set_prev keeps_upd) (use head_opt_in [of zs] in auto)
  have used: "dll ?m5 None (pl_used_list pool) us None"
    by (subst keeps_dll [OF kp]) (use us du ru in auto)
  have "strip ?r0 = ?r0" by (simp add: strip_def block_zero_def)
  then have "bd ?m5 = (bd ?m)(p \<mapsto> strip b\<lparr>mb_size := sz\<rparr>, r \<mapsto> ?r0)"
    using pr by (auto simp: fun_upd_twist)
  then show ?thesis
    using step free used kp d du rf ru by (intro exI [of _ "?H ?m5"]) (auto simp: pool_lists_def)
qed

end
