(* ===== verification/Regions.thy ===== *)
theory Regions
  imports Bridge_Prelude
begin

text \<open>
  The abstract allocator: a list of free regions (start and size) in ascending order, no two of them
  touching, with first-fit allocation and coalescing return. \<open>owners\<close> counts the regions that
  hold an address; a list in canonical form is determined by the addresses it holds.
\<close>

type_synonym region = "nat \<times> nat"

definition holds :: "region \<Rightarrow> nat \<Rightarrow> bool" where
  "holds a x \<longleftrightarrow> fst a \<le> x \<and> x < fst a + snd a"

definition owners :: "region list \<Rightarrow> nat \<Rightarrow> nat" where
  "owners F x = length (filter (\<lambda>a. holds a x) F)"

definition apart :: "region \<Rightarrow> region \<Rightarrow> bool" where
  "apart a b \<longleftrightarrow> fst a + snd a < fst b"

definition canonical :: "region list \<Rightarrow> bool" where
  "canonical F \<longleftrightarrow> (\<forall>a \<in> set F. 0 < snd a) \<and> sorted_wrt apart F"

definition fit_alloc :: "nat \<Rightarrow> bool \<Rightarrow> nat \<Rightarrow> region list \<Rightarrow> (region \<times> region list) option" where
  "fit_alloc page oom n F =
     (case dropWhile (\<lambda>a. snd a < n) F of
        [] \<Rightarrow> None
      | a # zs \<Rightarrow>
          let ys = takeWhile (\<lambda>a. snd a < n) F in
          if snd a > n + page \<and> \<not> oom then Some ((fst a, n), ys @ (fst a + n, snd a - n) # zs)
          else Some (a, ys @ zs))"

definition glue_next :: "region \<Rightarrow> region list \<Rightarrow> region \<times> region list" where
  "glue_next a zs =
     (if zs \<noteq> [] \<and> fst a + snd a = fst (hd zs) then ((fst a, snd a + snd (hd zs)), tl zs) else (a, zs))"

definition glue_prev :: "region list \<Rightarrow> region \<Rightarrow> region list \<Rightarrow> region list" where
  "glue_prev ys a zs =
     (if ys \<noteq> [] \<and> fst (last ys) + snd (last ys) = fst a
      then butlast ys @ (fst (last ys), snd (last ys) + snd a) # zs else ys @ a # zs)"

definition give_back :: "region \<Rightarrow> region list \<Rightarrow> region list" where
  "give_back a F =
     (let ys = takeWhile (\<lambda>b. fst b < fst a) F;
          (a', zs) = glue_next a (dropWhile (\<lambda>b. fst b < fst a) F)
      in glue_prev ys a' zs)"

section \<open>Counting owners\<close>

lemma owners_simps [simp]:
  "owners [] x = 0" "owners (a # F) x = (if holds a x then 1 else 0) + owners F x"
  "owners (F @ G) x = owners F x + owners G x"
  by (simp_all add: owners_def)

lemma owners_pos: "0 < owners F x \<longleftrightarrow> (\<exists>a \<in> set F. holds a x)"
  by (induction F) auto

lemma owners_0: "owners F x = 0 \<longleftrightarrow> (\<forall>a \<in> set F. \<not> holds a x)"
  by (induction F) auto

lemma holds_split: "n \<le> s \<Longrightarrow> holds (l, s) x \<longleftrightarrow> holds (l, n) x \<or> holds (l + n, s - n) x"
  and holds_excl: "\<not> (holds (l, n) x \<and> holds (l + n, s) x)"
  by (auto simp: holds_def)

lemma owners_cut:
  "n \<le> s \<Longrightarrow> owners [(l, n)] x + owners [(l + n, s - n)] x = owners [(l, s)] x"
  using holds_split [of n s l x] holds_excl [of l n x "s - n"] by auto

section \<open>Canonical lists\<close>

lemma canonical_Nil [simp]: "canonical []"
  by (simp add: canonical_def)

lemma canonical_Cons: "canonical (a # F) \<longleftrightarrow> 0 < snd a \<and> (\<forall>b \<in> set F. apart a b) \<and> canonical F"
  by (auto simp: canonical_def)

lemma canonical_append:
  "canonical (F @ G) \<longleftrightarrow> canonical F \<and> canonical G \<and> (\<forall>a \<in> set F. \<forall>b \<in> set G. apart a b)"
  by (auto simp: canonical_def sorted_wrt_append)

lemma canonical_start: "canonical (a # F) \<Longrightarrow> 0 < owners (a # F) x \<Longrightarrow> fst a \<le> x"
  by (auto simp: canonical_Cons apart_def holds_def owners_pos split: if_splits)

lemma canonical_first: "canonical (a # F) \<Longrightarrow> 0 < owners (a # F) (fst a)"
  by (simp add: canonical_Cons holds_def)

lemma canonical_gap: "canonical (a # F) \<Longrightarrow> owners (a # F) (fst a + snd a) = 0"
  by (auto simp: canonical_Cons owners_0 apart_def holds_def)

theorem canonical_unique:
  assumes "canonical F" and "canonical G" and "\<And>x. owners F x = owners G x"
  shows "F = G"
  using assms
proof (induction F arbitrary: G)
  case Nil
  then show ?case using canonical_first by (cases G) (metis owners_simps(1) less_irrefl)+
next
  case (Cons a F)
  obtain b H where G: "G = b # H"
    using Cons.prems canonical_first [of a F] by (cases G) (metis owners_simps(1) less_irrefl, blast)
  have "fst b \<le> fst a"
    using canonical_start [of b H "fst a"] canonical_first [of a F] Cons.prems G by metis
  moreover have "fst a \<le> fst b"
    using canonical_start [of a F "fst b"] canonical_first [of b H] Cons.prems G by metis
  ultimately have l: "fst a = fst b" by simp
  have "owners G (fst a + snd a) = 0" 
    by (subst Cons.prems(3) [symmetric]) (rule canonical_gap [OF Cons.prems(1)])
  then have "\<not> holds b (fst a + snd a)" using G by (auto split: if_splits)
  moreover have "owners (a # F) (fst b + snd b) = 0"
    by (subst Cons.prems(3), subst G) (rule canonical_gap [OF Cons.prems(2) [unfolded G]])
  then have "\<not> holds a (fst b + snd b)" by (auto split: if_splits)
  moreover have "0 < snd a" "0 < snd b" using Cons.prems G by (simp_all add: canonical_Cons)
  ultimately have "snd a = snd b" using l by (auto simp: holds_def)
  with l have ab: "a = b" by (simp add: prod_eq_iff)
  have "owners F x = owners H x" for x using Cons.prems(3) [of x] G ab by simp
  then show ?case using Cons.IH [of H] Cons.prems(1,2) G ab by (simp add: canonical_Cons)
qed

section \<open>Allocation\<close>

lemma fit_alloc_None: "fit_alloc page oom n F = None \<longleftrightarrow> (\<forall>a \<in> set F. snd a < n)"
  by (auto simp: fit_alloc_def Let_def dropWhile_eq_Nil_conv split: list.splits)
    (metis dropWhile_eq_Nil_conv list.discI)+

lemma fit_alloc_ok:
  assumes "canonical F" and "fit_alloc page oom n F = Some (a, G)" and "0 < n"
  shows "canonical G" and "n \<le> snd a" and "\<And>x. owners F x = owners G x + owners [a] x"
    and "snd a = n \<or> snd a \<le> n + page \<or> oom"
proof -
  let ?ys = "takeWhile (\<lambda>a. snd a < n) F"
  obtain b zs where d: "dropWhile (\<lambda>a. snd a < n) F = b # zs"
    using assms(2) by (cases "dropWhile (\<lambda>a. snd a < n) F") (auto simp: fit_alloc_def)
  then have F: "F = ?ys @ b # zs" by (metis takeWhile_dropWhile_id)
  have nb: "n \<le> snd b" using d by (metis dropWhile_eq_Cons_conv not_less)
  have c: "canonical ?ys" "canonical zs" "0 < snd b" "\<forall>y \<in> set ?ys. apart y b" "\<forall>z \<in> set zs. apart b z"
    "\<forall>y \<in> set ?ys. \<forall>z \<in> set zs. apart y z"
    using assms(1) by (subst (asm) F, simp add: canonical_append canonical_Cons)+
  have o: "owners F x = owners ?ys x + owners [b] x + owners zs x" for x by (subst F) simp
  have cut: "owners [(fst b, n)] x + owners [(fst b + n, snd b - n)] x = owners [b] x" for x
    using owners_cut [OF nb, of "fst b" x] by simp
  have "canonical G \<and> n \<le> snd a \<and> (\<forall>x. owners F x = owners G x + owners [a] x) \<and>
      (snd a = n \<or> snd a \<le> n + page \<or> oom)"
  proof (cases "snd b > n + page \<and> \<not> oom")
    case True
    then have aG: "a = (fst b, n)" "G = ?ys @ (fst b + n, snd b - n) # zs" using assms(2) d by (simp_all add: fit_alloc_def)
    have "canonical G" using c True unfolding aG by (auto simp: canonical_append canonical_Cons apart_def)
    moreover have "owners F x = owners G x + owners [a] x" for x using o [of x] cut [of x] aG by simp
    ultimately show ?thesis using aG by simp
  next
    case False
    then have aG: "a = b" "G = ?ys @ zs" using assms(2) d by (auto simp: fit_alloc_def Let_def split: if_splits)
    have "canonical G" using c unfolding aG by (auto simp: canonical_append)
    moreover have "owners F x = owners G x + owners [a] x" for x using o [of x] aG by simp
    ultimately show ?thesis using aG nb False by auto
  qed
  then show "canonical G" "n \<le> snd a" "\<And>x. owners F x = owners G x + owners [a] x"
    "snd a = n \<or> snd a \<le> n + page \<or> oom" by auto
qed

section \<open>Return\<close>

lemma glue_prev_ok:
  assumes ys: "canonical ys" and zs: "canonical zs" and a: "0 < snd a"
    and ya: "\<forall>y \<in> set ys. fst y + snd y \<le> fst a" and az: "\<forall>z \<in> set zs. apart a z"
    and yz: "\<forall>y \<in> set ys. \<forall>z \<in> set zs. apart y z"
  shows "canonical (glue_prev ys a zs)"
    and "owners (glue_prev ys a zs) x = owners ys x + owners [a] x + owners zs x"
proof -
  have "canonical (glue_prev ys a zs) \<and> owners (glue_prev ys a zs) x = owners ys x + owners [a] x + owners zs x"
  proof (cases ys rule: rev_cases)
    case Nil
    with zs a az show ?thesis by (simp add: glue_prev_def canonical_Cons)
  next
    case (snoc yt b)
    have c: "canonical yt" "0 < snd b" "\<forall>y \<in> set yt. apart y b"
      using ys snoc by (simp_all add: canonical_append canonical_Cons)
    show ?thesis
    proof (cases "fst b + snd b = fst a")
      case True
      have "owners [(fst b, snd b)] x + owners [(fst b + snd b, snd a)] x = owners [(fst b, snd b + snd a)] x"
        using owners_cut [of "snd b" "snd b + snd a" "fst b" x] by simp
      then have "owners [b] x + owners [a] x = owners [(fst b, snd b + snd a)] x" using True by simp
      moreover have "glue_prev ys a zs = yt @ (fst b, snd b + snd a) # zs" using True snoc by (simp add: glue_prev_def)
      moreover have "canonical (yt @ (fst b, snd b + snd a) # zs)"
        using c zs az yz True snoc by (auto simp: canonical_append canonical_Cons apart_def)
      ultimately show ?thesis using snoc by simp
    next
      case False
      then have g: "glue_prev ys a zs = ys @ a # zs" using snoc by (simp add: glue_prev_def)
      have "apart b a" using False ya snoc by (auto simp: apart_def)
      then have "\<forall>y \<in> set ys. apart y a" using c snoc by (auto simp: apart_def)
      then show ?thesis using ys zs a az yz by (simp add: g canonical_append canonical_Cons)
    qed
  qed
  then show "canonical (glue_prev ys a zs)"
    and "owners (glue_prev ys a zs) x = owners ys x + owners [a] x + owners zs x" by simp_all
qed

lemma glue_next_ok:
  assumes zs: "canonical zs" and a: "0 < snd a" and az: "\<forall>z \<in> set zs. fst a + snd a \<le> fst z"
    and g: "glue_next a zs = (b, ws)"
  shows "canonical ws" and "0 < snd b" and "fst b = fst a" and "\<forall>z \<in> set ws. apart b z" and "set ws \<subseteq> set zs"
    and "owners [b] x + owners ws x = owners [a] x + owners zs x"
proof -
  have "canonical ws \<and> 0 < snd b \<and> fst b = fst a \<and> (\<forall>z \<in> set ws. apart b z) \<and> set ws \<subseteq> set zs \<and>
    owners [b] x + owners ws x = owners [a] x + owners zs x"
  proof (cases zs)
    case Nil
    with g a show ?thesis by (auto simp: glue_next_def)
  next
    case (Cons n zt)
    have c: "canonical zt" "0 < snd n" "\<forall>z \<in> set zt. apart n z" using zs Cons by (simp_all add: canonical_Cons)
    show ?thesis
    proof (cases "fst a + snd a = fst n")
      case True
      then have bw: "b = (fst a, snd a + snd n)" "ws = zt" using g Cons by (simp_all add: glue_next_def)
      have "owners [(fst a, snd a)] x + owners [(fst a + snd a, snd n)] x = owners [b] x"
        using owners_cut [of "snd a" "snd a + snd n" "fst a" x] bw by simp
      then have "owners [a] x + owners [n] x = owners [b] x" using True by simp
      moreover have "\<forall>z \<in> set ws. apart b z" using c True bw by (auto simp: apart_def)
      ultimately show ?thesis using c a bw Cons by auto
    next
      case False
      then have bw: "b = a" "ws = zs" using g Cons by (simp_all add: glue_next_def)
      have "apart a n" using False az Cons by (auto simp: apart_def)
      then have "\<forall>z \<in> set zs. apart a z" using c Cons by (auto simp: apart_def)
      then show ?thesis using bw zs a by simp
    qed
  qed
  then show "canonical ws" "0 < snd b" "fst b = fst a" "\<forall>z \<in> set ws. apart b z" "set ws \<subseteq> set zs"
    "owners [b] x + owners ws x = owners [a] x + owners zs x" by simp_all
qed

lemma glue_next_ends:
  assumes "glue_next a zs = (b, ws)" and "c \<in> set (b # ws)"
  shows "\<exists>d \<in> set (a # zs). fst c + snd c = fst d + snd d"
  using assms by (cases zs) (auto simp: glue_next_def split: if_splits)

lemma canonical_dropWhile:
  assumes "canonical F" and "z \<in> set (dropWhile (\<lambda>b. fst b < l) F)"
  shows "l \<le> fst z"
  using assms
  by (induction F) (auto simp: canonical_Cons apart_def split: if_splits)

lemma give_back_ok:
  assumes F: "canonical F" and a: "0 < snd a" and o: "\<And>x. owners F x + owners [a] x \<le> 1"
  shows "canonical (give_back a F)" and "owners (give_back a F) x = owners F x + owners [a] x"
proof -
  let ?P = "\<lambda>b. fst b < fst a"
  let ?ys = "takeWhile ?P F" and ?zs = "dropWhile ?P F"
  have cyz: "canonical (?ys @ ?zs)" using F by (simp only: takeWhile_dropWhile_id)
  have c: "canonical ?ys" "canonical ?zs" "\<forall>y \<in> set ?ys. \<forall>z \<in> set ?zs. apart y z"
    using cyz [unfolded canonical_append] by blast+
  have sub: "set ?ys \<subseteq> set F" "set ?zs \<subseteq> set F" by (auto dest: set_takeWhileD set_dropWhileD)
  have no: "\<not> (holds b x \<and> holds a x)" if "b \<in> set F" for b x
  proof
    assume "holds b x \<and> holds a x"
    then have "0 < owners F x" "owners [a] x = 1" using that by (auto simp: owners_pos)
    then show False using o [of x] by simp
  qed
  have y: "fst y + snd y \<le> fst a" if "y \<in> set ?ys" for y
    using no [of y "fst a"] that sub set_takeWhileD [OF that] a by (auto simp: holds_def)
  have z: "fst a + snd a \<le> fst z" if "z \<in> set ?zs" for z
  proof -
    have "fst a \<le> fst z" by (rule canonical_dropWhile [OF F that])
    moreover have "0 < snd z" using F that sub by (auto simp: canonical_def)
    ultimately show ?thesis using no [of z "fst z"] that sub a by (auto simp: holds_def)
  qed
  obtain b ws where g: "glue_next a ?zs = (b, ws)" by fastforce
  note gn = glue_next_ok [OF c(2) a _ g]
  have az: "\<forall>z \<in> set ?zs. fst a + snd a \<le> fst z" using z by blast
  have r: "give_back a F = glue_prev ?ys b ws" using g by (simp add: give_back_def Let_def)
  have yb: "\<forall>y \<in> set ?ys. fst y + snd y \<le> fst b" using y gn(3) [OF az] by simp
  have yw: "\<forall>y \<in> set ?ys. \<forall>z \<in> set ws. apart y z" using c(3) gn(5) [OF az] by blast
  note gp = glue_prev_ok [OF c(1) gn(1) [OF az] gn(2) [OF az] yb gn(4) [OF az] yw]
  show "canonical (give_back a F)" unfolding r by (rule gp(1))
  have "owners F x = owners ?ys x + owners ?zs x" 
    by (simp only: owners_simps(3) [symmetric] takeWhile_dropWhile_id)
  then show "owners (give_back a F) x = owners F x + owners [a] x"
    unfolding r gp(2) using gn(6) [OF az, of x] by simp
qed

section \<open>The contract of an allocator\<close>

text \<open>
  What a client of an allocator may rely on: \<open>free s x\<close> says that the address \<open>x\<close> can be handed out
  in the state \<open>s\<close>, and two valid states with the same free addresses are equal.
\<close>

locale region_allocator =
  fixes alloc :: "'s \<Rightarrow> nat \<Rightarrow> (region \<times> 's) option"
    and release :: "region \<Rightarrow> 's \<Rightarrow> 's"
    and valid :: "'s \<Rightarrow> bool"
    and free :: "'s \<Rightarrow> nat \<Rightarrow> bool"
  assumes alloc_valid: "valid s \<Longrightarrow> 0 < n \<Longrightarrow> alloc s n = Some (a, s') \<Longrightarrow> valid s'"
    and alloc_size: "valid s \<Longrightarrow> 0 < n \<Longrightarrow> alloc s n = Some (a, s') \<Longrightarrow> n \<le> snd a"
    and alloc_free: "valid s \<Longrightarrow> 0 < n \<Longrightarrow> alloc s n = Some (a, s') \<Longrightarrow> holds a x \<Longrightarrow> free s x"
    and alloc_rest: "valid s \<Longrightarrow> 0 < n \<Longrightarrow> alloc s n = Some (a, s') \<Longrightarrow> free s' x \<longleftrightarrow> free s x \<and> \<not> holds a x"
    and release_valid: "valid s \<Longrightarrow> 0 < snd a \<Longrightarrow> (\<And>x. holds a x \<Longrightarrow> \<not> free s x) \<Longrightarrow> valid (release a s)"
    and release_free: "valid s \<Longrightarrow> 0 < snd a \<Longrightarrow> (\<And>x. holds a x \<Longrightarrow> \<not> free s x) \<Longrightarrow>
      free (release a s) x \<longleftrightarrow> free s x \<or> holds a x"
    and determined: "valid s \<Longrightarrow> valid s' \<Longrightarrow> (\<And>x. free s x \<longleftrightarrow> free s' x) \<Longrightarrow> s = s'"
begin

lemma taken_not_free: "valid s \<Longrightarrow> 0 < n \<Longrightarrow> alloc s n = Some (a, s') \<Longrightarrow> holds a x \<Longrightarrow> \<not> free s' x"
  by (simp add: alloc_rest)

lemma release_restores:
  assumes "valid s" and "0 < n" and "alloc s n = Some (a, s')"
  shows "release a s' = s"
proof (rule determined)
  have v: "valid s'" by (rule alloc_valid [OF assms])
  have p: "0 < snd a" using alloc_size [OF assms] assms(2) by simp
  have t: "\<And>x. holds a x \<Longrightarrow> \<not> free s' x" by (rule taken_not_free [OF assms])
  show "valid (release a s')" by (rule release_valid [OF v p t])
  show "free (release a s') x \<longleftrightarrow> free s x" for x
    using release_free [OF v p t, of x] alloc_rest [OF assms, of x] alloc_free [OF assms, of x] by blast
qed (rule assms(1))

lemma two_allocs_disjoint:
  assumes "valid s" and "0 < n" and "0 < k" and "alloc s n = Some (a, s1)" and "alloc s1 k = Some (b, s2)"
  shows "\<not> (holds a x \<and> holds b x)"
proof
  assume "holds a x \<and> holds b x"
  then have "free s1 x" "\<not> free s1 x"
    using alloc_free [OF alloc_valid [OF assms(1,2,4)] assms(3,5), of x] taken_not_free [OF assms(1,2,4), of x] by simp_all
  then show False by contradiction
qed

lemma releases_commute:
  assumes "valid s" and "0 < snd a" and "0 < snd b"
    and "\<And>x. holds a x \<Longrightarrow> \<not> free s x" and "\<And>x. holds b x \<Longrightarrow> \<not> free s x"
    and "\<And>x. \<not> (holds a x \<and> holds b x)"
  shows "release a (release b s) = release b (release a s)"
proof (rule determined)
  note ra = release_free [OF assms(1,2,4)] and rb = release_free [OF assms(1,3,5)]
  have va: "valid (release a s)" by (rule release_valid [OF assms(1,2,4)])
  have vb: "valid (release b s)" by (rule release_valid [OF assms(1,3,5)])
  have na: "\<not> free (release b s) x" if "holds a x" for x using that rb [of x] assms(4,6) [of x] by blast
  have nb: "\<not> free (release a s) x" if "holds b x" for x using that ra [of x] assms(5,6) [of x] by blast
  show "valid (release a (release b s))" "valid (release b (release a s))"
    using release_valid [OF vb assms(2) na] release_valid [OF va assms(3) nb] by simp_all
  show "free (release a (release b s)) x \<longleftrightarrow> free (release b (release a s)) x" for x
    using release_free [OF vb assms(2) na, of x] release_free [OF va assms(3) nb, of x]
      ra [of x] rb [of x] by blast
qed

end

text \<open>First fit with coalescing on canonical lists meets the contract, for every page size.\<close>

definition has_free :: "region list \<Rightarrow> nat \<Rightarrow> bool" where
  "has_free F x \<longleftrightarrow> 0 < owners F x"

lemma canonical_owners: "canonical F \<Longrightarrow> owners F x \<le> 1"
proof (induction F)
  case (Cons a F)
  show ?case
  proof (cases "holds a x")
    case True
    then have "owners F x = 0" using Cons.prems by (auto simp: canonical_Cons owners_0 apart_def holds_def)
    with True show ?thesis by simp
  qed (use Cons in \<open>simp add: canonical_Cons\<close>)
qed simp

lemma canonical_same_free:
  assumes "canonical F" and "canonical G" and "\<And>x. has_free F x \<longleftrightarrow> has_free G x"
  shows "F = G"
proof (rule canonical_unique [OF assms(1,2)])
  fix x
  show "owners F x = owners G x"
    using canonical_owners [OF assms(1), of x] canonical_owners [OF assms(2), of x] assms(3) [of x]
    by (auto simp: has_free_def)
qed

lemma not_free_room:
  assumes "canonical F" and "\<And>x. holds a x \<Longrightarrow> \<not> has_free F x"
  shows "owners F x + owners [a] x \<le> 1"
  using canonical_owners [OF assms(1), of x] assms(2) [of x] by (auto simp: has_free_def)

interpretation ff: region_allocator "\<lambda>F n. fit_alloc page oom n F" give_back canonical has_free for page oom
proof
  fix F n a G x
  assume F: "canonical F" and n: "0 < n" and s: "fit_alloc page oom n F = Some (a, G)"
  note f = fit_alloc_ok [OF F s n]
  show "canonical G" "n \<le> snd a" by (rule f)+
  show "has_free F x" if "holds a x" using f(3) [of x] that by (simp add: has_free_def)
  show "has_free G x \<longleftrightarrow> has_free F x \<and> \<not> holds a x"
    using f(3) [of x] canonical_owners [OF F, of x] by (auto simp: has_free_def)
next
  fix F a x
  assume F: "canonical F" and a: "0 < snd a" and o: "\<And>x. holds a x \<Longrightarrow> \<not> has_free F x"
  note g = give_back_ok [OF F a not_free_room [OF F o]]
  show "canonical (give_back a F)" by (rule g)
  show "has_free (give_back a F) x \<longleftrightarrow> has_free F x \<or> holds a x" by (auto simp: has_free_def g(2))
next
  fix F G
  assume "canonical F" and "canonical G" and "\<And>x. has_free F x \<longleftrightarrow> has_free G x"
  then show "F = G" by (rule canonical_same_free)
qed

end
