(* ===== verification/Pool_Refinement.thy ===== *)
theory Pool_Refinement
  imports Pool_Lists Regions
begin

text \<open>
  The pools of \<^theory_text>\<open>Memory_Manager\<close> refine the allocator of \<^theory_text>\<open>Regions\<close>: the pool invariant (every
  address of the pool in exactly one block, a sorted and coalesced free list, an exact block count), and
  the refinement lemmas \<open>pool_alloc_refines\<close> and \<open>pool_free_refines\<close>. Requests are rounded up in 64 bit
  arithmetic; the overflow check of \<open>pool_alloc\<close> is shown exact for page sizes that are powers of two.
\<close>

unbundle bit_operations_syntax

section \<open>Rounding\<close>

text \<open>\<open>ALIGN_UP\<close> rounds up to a multiple of the page size; its overflow check is exact.\<close>

definition rounded :: "nat \<Rightarrow> nat \<Rightarrow> nat" where
  "rounded page n = page * ((n + page - 1) div page)"

lemma rounded_bounds:
  assumes "0 < page"
  shows "n \<le> rounded page n" and "rounded page n < n + page" and "page dvd rounded page n"
    and "0 < n \<Longrightarrow> page \<le> rounded page n"
proof -
  have "(n + page - 1) div page * page + (n + page - 1) mod page = n + page - 1" by (rule div_mult_mod_eq)
  moreover have "(n + page - 1) mod page < page" using assms by simp
  moreover have "(n + page - 1) div page * page = rounded page n" by (simp add: rounded_def mult.commute)
  ultimately show b: "n \<le> rounded page n" "rounded page n < n + page" by linarith+
  show d: "page dvd rounded page n" by (simp add: rounded_def)
  show "page \<le> rounded page n" if "0 < n" using d b that by (auto intro: dvd_imp_le)
qed

lemma rounded_multiple:
  assumes "0 < page" and "page dvd n"
  shows "rounded page n = n"
proof -
  obtain k where n: "n = page * k" using assms(2) by (rule dvdE)
  have "n + page - 1 = (page - 1) + page * k" using n assms(1) by simp
  moreover have "((page - 1) + page * k) div page = k" using assms(1) by (subst div_mult_self2) simp_all
  ultimately have "(n + page - 1) div page = k" by (simp only:)
  then show ?thesis by (simp add: rounded_def n)
qed

lemma and_not_low: "(w :: u64) AND NOT (mask n) = push_bit n (drop_bit n w)"
  by (rule bit_word_eqI) (auto simp: bit_simps)

lemma align_up_nat:
  assumes k: "k < 64" and p: "page = 2 ^ k"
  shows "unat x + 2 ^ k \<le> 2 ^ 64 \<Longrightarrow> unat (align_up x page) = rounded (2 ^ k) (unat x)"
    and "2 ^ 64 < unat x + 2 ^ k \<Longrightarrow> align_up x page = 0"
proof -
  have m: "page - 1 = mask k" using p by (simp add: mask_eq_exp_minus_1)
  have e: "align_up x page = push_bit k (drop_bit k (x + mask k))"
  proof -
    have "x + page - 1 = x + mask k" using m by (simp add: algebra_simps)
    then show ?thesis unfolding align_up_def m by (simp only: and_not_low)
  qed
  have um: "unat (mask k :: u64) = 2 ^ k - 1"
  proof -
    have "(2::nat) ^ k < 2 ^ 64" using k by (rule power_strict_increasing) simp
    then have "(2::nat) ^ k - 1 < 2 ^ 64" by linarith
    then have t: "take_bit 64 (mask k :: nat) = 2 ^ k - 1"
      unfolding mask_eq_exp_minus_1 by (rule take_bit_nat_eq_self)
    have "unat (of_nat (mask k) :: u64) = take_bit 64 (mask k)" by (rule trans [OF unsigned_of_nat]) simp
    then show ?thesis unfolding of_nat_mask_eq t .
  qed
  have s: "unat (x + mask k) = (unat x + (2 ^ k - 1)) mod 2 ^ 64" by (simp add: unat_word_ariths um)
  have x: "unat x < 2 ^ 64" using unsigned_less [of x] by simp
  {
    assume a: "unat x + 2 ^ k \<le> 2 ^ 64"
    have "(1::nat) \<le> 2 ^ k" by simp
    then have lt: "unat x + (2 ^ k - 1) < 2 ^ 64" using a by linarith
    have s': "unat (x + mask k) = unat x + 2 ^ k - 1" using s lt by simp
    have le: "2 ^ k * ((unat x + 2 ^ k - 1) div 2 ^ k) \<le> unat x + 2 ^ k - 1" by simp
    have "unat (align_up x page) = take_bit 64 (push_bit k (drop_bit k (unat x + 2 ^ k - 1)))"
    proof -
      have "take_bit 64 (unat x + 2 ^ k - 1) = unat x + 2 ^ k - 1"
        by (rule take_bit_nat_eq_self) (use lt in linarith)
      then show ?thesis unfolding e by (simp add: unsigned_push_bit_eq unsigned_drop_bit_eq s')
    qed
    also have "\<dots> = 2 ^ k * ((unat x + 2 ^ k - 1) div 2 ^ k)"
    proof -
      have "2 ^ k * ((unat x + 2 ^ k - 1) div 2 ^ k) < 2 ^ 64" using le lt by linarith
      then show ?thesis by (simp add: push_bit_eq_mult drop_bit_eq_div take_bit_nat_eq_self mult.commute)
    qed
    finally show "unat (align_up x page) = rounded (2 ^ k) (unat x)" by (simp add: rounded_def)
  }
  {
    assume a: "2 ^ 64 < unat x + 2 ^ k"
    have "(1::nat) \<le> 2 ^ k" by simp
    then have r: "unat x + (2 ^ k - 1) - 2 ^ 64 < 2 ^ k" and ge: "2 ^ 64 \<le> unat x + (2 ^ k - 1)" using a x by linarith+
    have kk: "(2::nat) ^ k < 2 ^ 64" using k by (rule power_strict_increasing) simp
    have "(unat x + (2 ^ k - 1)) mod 2 ^ 64 = unat x + (2 ^ k - 1) - 2 ^ 64"
      using ge r kk by (simp add: mod_if)
    then have "unat (x + mask k) < 2 ^ k" using r s by linarith
    then have "drop_bit k (unat (x + mask k)) = 0" by (simp add: drop_bit_eq_div)
    moreover have "unat (drop_bit k (x + mask k)) = drop_bit k (unat (x + mask k))" by (rule unat_drop_bit_eq)
    ultimately have "drop_bit k (x + mask k) = 0" by (simp only: unat_eq_0)
    then show "align_up x page = 0" unfolding e by simp
  }
qed

section \<open>The pool invariant\<close>

definition reg :: "CBMemoryBlock \<Rightarrow> region" where
  "reg b = (unat (mb_gpu_addr b), unat (mb_size b))"

definition region_of :: "blocks \<Rightarrow> ptr \<Rightarrow> region" where
  "region_of m x = reg (the (m x))"

definition taken :: "blocks \<Rightarrow> ptr \<Rightarrow> bool" where
  "taken m x \<longleftrightarrow> mb_is_allocated (the (m x))"

lemma reg_simps [simp]: "fst (reg b) = unat (mb_gpu_addr b)" "snd (reg b) = unat (mb_size b)"
  "reg (strip b) = reg b" "reg (b\<lparr>mb_is_allocated := a\<rparr>) = reg b"
  "reg (b\<lparr>mb_size := s\<rparr>) = (unat (mb_gpu_addr b), unat s)"
  by (simp_all add: reg_def strip_def)

lemma region_bd: "region_of m x = region_of (bd m) x" and taken_bd: "taken m x = taken (bd m) x"
  by (cases "m x"; simp add: region_of_def taken_def bd_def)+

text \<open>
  The range of the pool does not wrap around, and a request rounded up to a page that fits in a
  block leaves room to add a page.
\<close>

definition pool_geo :: "CBMemoryPool \<Rightarrow> bool" where
  "pool_geo pool \<longleftrightarrow>
     unat (pl_base_addr pool) + unat (pl_total_size pool) < 2 ^ 64 \<and>
     unat (pl_total_size pool) + unat (pl_page_size pool) < 2 ^ 64 \<and>
     (\<exists>k < 64. pl_page_size pool = 2 ^ k)"

definition in_pool :: "CBMemoryPool \<Rightarrow> nat \<Rightarrow> bool" where
  "in_pool pool x \<longleftrightarrow>
     unat (pl_base_addr pool) \<le> x \<and> x < unat (pl_base_addr pool) + unat (pl_total_size pool)"

definition pool_inv :: "CBMemoryPool \<Rightarrow> blocks \<Rightarrow> ptr list \<Rightarrow> ptr list \<Rightarrow> bool" where
  "pool_inv pool m fs us \<longleftrightarrow>
     pool_lists pool m fs us \<and> (\<forall>x \<in> set fs. \<not> taken m x) \<and> (\<forall>x \<in> set us. taken m x) \<and>
     canonical (map (region_of m) fs) \<and> (\<forall>x \<in> set us. 0 < snd (region_of m x)) \<and>
     (\<forall>x. owners (map (region_of m) (fs @ us)) x = (if in_pool pool x then 1 else 0)) \<and>
     pl_block_count pool = int (length fs + length us) \<and> pool_geo pool"

text \<open>The objects no list holds stay as they are.\<close>

definition rest :: "blocks \<Rightarrow> ptr list \<Rightarrow> blocks" where
  "rest m xs = m |` (- set xs)"

lemma restI:
  assumes "\<And>x. x \<notin> set xs' \<Longrightarrow> x \<notin> set xs \<Longrightarrow> m' x = m x"
    and "\<And>x. x \<notin> set xs' \<Longrightarrow> x \<in> set xs \<Longrightarrow> m' x = None" and "\<And>x. x \<in> set xs' \<Longrightarrow> x \<notin> set xs \<Longrightarrow> m x = None"
  shows "rest m' xs' = rest m xs"
  using assms by (auto simp: rest_def restrict_map_def)

lemma inv_lists: "pool_inv pool m fs us \<Longrightarrow> pool_lists pool m fs us"
  by (simp add: pool_inv_def)

lemma inv_live: "pool_inv pool m fs us \<Longrightarrow> x \<in> set fs \<union> set us \<Longrightarrow> \<exists>b. m x = Some b"
  by (auto simp: pool_inv_def pool_lists_def dest: dll_live)

lemma inv_pos: "pool_inv pool m fs us \<Longrightarrow> x \<in> set fs \<union> set us \<Longrightarrow> 0 < snd (region_of m x)"
  by (auto simp: pool_inv_def canonical_def)

lemma inv_within:
  assumes I: "pool_inv pool m fs us" and x: "x \<in> set fs \<union> set us"
  shows "unat (pl_base_addr pool) \<le> fst (region_of m x)"
    and "fst (region_of m x) + snd (region_of m x) \<le> unat (pl_base_addr pool) + unat (pl_total_size pool)"
    and "snd (region_of m x) \<le> unat (pl_total_size pool)"
proof -
  let ?a = "region_of m x" and ?L = "map (region_of m) (fs @ us)"
  have a: "?a \<in> set ?L" using x by auto
  have pos: "0 < snd ?a" by (rule inv_pos [OF I x])
  have inp: "in_pool pool y" if "holds ?a y" for y
  proof -
    have "0 < owners ?L y" using a that by (auto simp only: owners_pos)
    moreover have "owners ?L y = (if in_pool pool y then 1 else 0)" using I by (simp only: pool_inv_def)
    ultimately show ?thesis by (auto split: if_splits)
  qed
  show 1: "unat (pl_base_addr pool) \<le> fst ?a" using inp [of "fst ?a"] pos by (simp add: holds_def in_pool_def)
  show 2: "fst ?a + snd ?a \<le> unat (pl_base_addr pool) + unat (pl_total_size pool)"
  proof -
    have "holds ?a (fst ?a + snd ?a - 1)" using pos by (auto simp: holds_def)
    from inp [OF this] show ?thesis using pos unfolding in_pool_def by linarith
  qed
  show "snd ?a \<le> unat (pl_total_size pool)" using 1 2 by linarith
qed

section \<open>Allocation refines first fit\<close>

lemma inv_distinct: "pool_inv pool m fs us \<Longrightarrow> distinct (fs @ us)"
  by (simp add: pool_inv_def pool_lists_def)

lemma map_region_cong: "(\<And>x. x \<in> set xs \<Longrightarrow> bd m' x = bd m x) \<Longrightarrow> map (region_of m') xs = map (region_of m) xs"
  by (rule map_cong [OF refl]) (metis region_bd region_of_def)

lemma takeWhile_region: "takeWhile (\<lambda>a. snd a < n) (map (region_of m) xs) = map (region_of m) (takeWhile (\<lambda>x. snd (region_of m x) < n) xs)"
  and dropWhile_region: "dropWhile (\<lambda>a. snd a < n) (map (region_of m) xs) = map (region_of m) (dropWhile (\<lambda>x. snd (region_of m x) < n) xs)"
  by (simp_all add: takeWhile_map dropWhile_map comp_def)

definition same_pool :: "CBMemoryPool \<Rightarrow> CBMemoryPool \<Rightarrow> bool" where
  "same_pool pool pool' \<longleftrightarrow> pl_base_addr pool' = pl_base_addr pool \<and> pl_total_size pool' = pl_total_size pool \<and>
     pl_page_size pool' = pl_page_size pool"

lemma same_pool_geo: "same_pool pool pool' \<Longrightarrow> pool_geo pool' = pool_geo pool"
  and same_pool_in: "same_pool pool pool' \<Longrightarrow> in_pool pool' = in_pool pool"
  by (simp_all add: same_pool_def pool_geo_def in_pool_def fun_eq_iff)

text \<open>
  What one pool operation does to the heap: the blocks of the lists before and after are \<open>xs\<close> and
  \<open>xs'\<close>, the rest of the heap is the same.
\<close>

definition heap_step :: "CBMemoryBlock heap \<Rightarrow> ptr list \<Rightarrow> CBMemoryBlock heap \<Rightarrow> ptr list \<Rightarrow> bool" where
  "heap_step h xs h' xs' \<longleftrightarrow>
     rest (hp_mem h') xs' = rest (hp_mem h) xs \<and> heap_wf h' \<and> hp_oom h' = hp_oom h \<and> hp_next h \<le> hp_next h'"

definition alloc_request :: "CBMemoryPool \<Rightarrow> bool \<Rightarrow> u64 \<Rightarrow> region list \<Rightarrow> (region \<times> region list) option" where
  "alloc_request pool oom sz F =
     (let page = unat (pl_page_size pool) in
      if unat sz + page \<le> 2 ^ 64 then fit_alloc page oom (rounded page (unat sz)) F else None)"

lemma align_up_request:
  assumes "pool_geo pool"
  defines "page \<equiv> unat (pl_page_size pool)"
  shows "align_up sz (pl_page_size pool) < sz \<longleftrightarrow> 2 ^ 64 < unat sz + page"
    and "unat sz + page \<le> 2 ^ 64 \<Longrightarrow> unat (align_up sz (pl_page_size pool)) = rounded page (unat sz)"
    and "0 < page"
proof -
  from assms obtain k where k: "k < 64" "pl_page_size pool = 2 ^ k" by (auto simp: pool_geo_def)
  have "(2::nat) ^ k < 2 ^ 64" using k(1) by (rule power_strict_increasing) simp
  then have t: "take_bit 64 ((2::nat) ^ k) = 2 ^ k" by (rule take_bit_nat_eq_self)
  have "unat (of_nat (2 ^ k) :: u64) = take_bit 64 (2 ^ k)" by (rule trans [OF unsigned_of_nat]) simp
  then have p: "page = 2 ^ k" unfolding page_def k t by simp
  note a = align_up_nat [OF k, of sz, folded p]
  show "unat (align_up sz (pl_page_size pool)) = rounded page (unat sz)" if "unat sz + page \<le> 2 ^ 64"
    using a(1) that by simp
  show "0 < page" using p by simp
  show "align_up sz (pl_page_size pool) < sz \<longleftrightarrow> 2 ^ 64 < unat sz + page"
  proof
    assume l: "align_up sz (pl_page_size pool) < sz"
    show "2 ^ 64 < unat sz + page"
    proof (rule ccontr)
      assume "\<not> 2 ^ 64 < unat sz + page"
      then have "unat (align_up sz (pl_page_size pool)) = rounded page (unat sz)" using a(1) by simp
      then have "unat sz \<le> unat (align_up sz (pl_page_size pool))"
        using rounded_bounds(1) [OF \<open>0 < page\<close>, of "unat sz"] by simp
      with l show False by (simp add: word_less_nat_alt)
    qed
  next
    assume w: "2 ^ 64 < unat sz + page"
    then have "align_up sz (pl_page_size pool) = 0" by (rule a(2))
    moreover have "sz \<noteq> 0" using w p \<open>2 ^ k < 2 ^ 64\<close> by (metis add_cancel_right_left less_asym unat_0)
    ultimately show "align_up sz (pl_page_size pool) < sz" by (simp add: word_neq_0_conv)
  qed
qed

text \<open>The list facts of an allocation: the block \<open>p\<close> leaves the free list, \<open>xs\<close> takes its place.\<close>

lemma inv_alloc:
  assumes I: "pool_inv pool m (ys @ p # zs) us"
    and L: "pool_lists pool' m' (ys @ rs @ zs) (p # us)" and sp: "same_pool pool pool'"
    and other: "\<And>x. x \<in> set ys \<union> set zs \<union> set us \<Longrightarrow> bd m' x = bd m x"
    and p: "taken m' p" and r: "\<forall>x \<in> set rs. \<not> taken m' x"
    and cnt: "pl_block_count pool' = pl_block_count pool + int (length rs)"
    and fit: "fit_alloc page oom n (map (region_of m) (ys @ p # zs)) =
      Some (region_of m' p, map (region_of m') (ys @ rs @ zs))" and n: "0 < n"
  shows "pool_inv pool' m' (ys @ rs @ zs) (p # us)"
proof -
  let ?F = "map (region_of m) (ys @ p # zs)"
  have can: "canonical ?F" using I by (simp add: pool_inv_def)
  note f = fit_alloc_ok [OF can fit n]
  have us: "map (region_of m') us = map (region_of m) us" using other by (intro map_region_cong) auto
  have fl: "\<not> taken m' x" if "x \<in> set (ys @ rs @ zs)" for x
  proof (cases "x \<in> set rs")
    case False
    then have x: "x \<in> set ys \<union> set zs" using that by auto
    then have "taken m' x = taken m x" using other [of x] taken_bd [of m x] taken_bd [of m' x] by (simp add: taken_def)
    then show ?thesis using I x by (auto simp: pool_inv_def)
  qed (use r in blast)
  have ul: "taken m' x \<and> 0 < snd (region_of m' x)" if "x \<in> set us" for x
  proof -
    have "taken m' x = taken m x \<and> region_of m' x = region_of m x"
      using other [of x] that taken_bd [of m x] taken_bd [of m' x] region_bd [of m x] region_bd [of m' x]
      by (simp add: taken_def region_of_def)
    then show ?thesis using I that by (auto simp: pool_inv_def)
  qed
  have "owners (map (region_of m') ((ys @ rs @ zs) @ p # us)) x = (if in_pool pool' x then 1 else 0)" for x
  proof -
    have "owners (map (region_of m') ((ys @ rs @ zs) @ p # us)) x = owners ?F x + owners (map (region_of m) us) x"
      unfolding map_append list.map owners_simps(3) us using f(3) [of x] by simp
    also have "\<dots> = (if in_pool pool x then 1 else 0)" using I unfolding pool_inv_def map_append owners_simps(3) by metis
    finally show ?thesis using same_pool_in [OF sp] by simp
  qed
  then show ?thesis
    unfolding pool_inv_def
    using I L f(1,2) n p fl ul cnt same_pool_geo [OF sp] by (auto simp: pool_inv_def)
qed

text \<open>
  The outcome of an allocation, with the abstract allocator beside it. The block handed out is at
  the head of the used list; the counter of used bytes grows by the rounded request.
\<close>

definition alloc_outcome ::
  "CBMemoryPool \<Rightarrow> CBMemoryBlock heap \<Rightarrow> ptr list \<Rightarrow> ptr list \<Rightarrow> u64 \<Rightarrow> region list \<Rightarrow>
   ptr \<Rightarrow> CBMemoryPool \<Rightarrow> CBMemoryBlock heap \<Rightarrow> ptr list \<Rightarrow> bool" where
  "alloc_outcome pool h fs us al G p pool' h' fs' \<longleftrightarrow>
     p \<in> set fs \<and> pool_inv pool' (hp_mem h') fs' (p # us) \<and> map (region_of (hp_mem h')) fs' = G \<and>
     same_pool pool pool' \<and> heap_step h (fs @ us) h' (fs' @ p # us) \<and>
     pl_used_size pool' = pl_used_size pool + al \<and> (\<forall>x \<in> set us. bd (hp_mem h') x = bd (hp_mem h) x) \<and>
     mb_host_addr (the (hp_mem h' p)) = mb_host_addr (the (hp_mem h p))"

lemma taken_strip [simp]: "mb_is_allocated (strip b) = mb_is_allocated b"
  by simp

lemma dom_bd: "dom (bd m) = dom m"
  by (auto simp: bd_def)

lemma heap_wf_by_dom:
  assumes "heap_wf h" and "hp_next h \<le> hp_next h'" and "\<And>x. x \<in> dom (hp_mem h') \<Longrightarrow> x \<in> dom (hp_mem h) \<or> x < hp_next h'"
  shows "heap_wf h'"
  using assms heap_wf_dom [of h] unfolding heap_wf_def by (metis domI less_le_trans)

lemma alloc_whole:
  assumes I: "pool_inv pool (hp_mem h) (ys @ p # zs) us" and wf: "heap_wf h0"
    and h0: "h0 = h \<or> h0 = h\<lparr>hp_next := Suc (hp_next h)\<rparr>" and n: "0 < n"
    and fit: "fit_alloc page oom n (map (region_of (hp_mem h)) (ys @ p # zs)) =
      Some (region_of (hp_mem h) p, map (region_of (hp_mem h)) (ys @ zs))"
  shows "\<exists>pool' h'. take_block pool h0 (last_opt None ys) p al = Some (pool', h') \<and>
    region_of (hp_mem h') p = region_of (hp_mem h) p \<and>
    alloc_outcome pool h (ys @ p # zs) us al (map (region_of (hp_mem h)) (ys @ zs)) p pool' h' (ys @ zs)"
proof -
  let ?m = "hp_mem h"
  have m0: "hp_mem h0 = ?m" using h0 by auto
  have L: "pool_lists pool (hp_mem h0) (ys @ p # zs) us" using inv_lists [OF I] m0 by simp
  have d: "distinct (ys @ p # zs @ us)" using inv_distinct [OF I] by auto
  let ?pool = "pool\<lparr>pl_free_list := head_opt (ys @ zs), pl_used_list := Some p, pl_used_size := pl_used_size pool + al\<rparr>"
  from take_block_closed [OF L, of al] obtain h' b where b: "?m p = Some b"
    and t: "take_block pool h0 (last_opt None ys) p al = Some (?pool, h')"
    and fr: "dll (hp_mem h') None (head_opt (ys @ zs)) (ys @ zs) None" and ur: "dll (hp_mem h') None (Some p) (p # us) None"
    and bdm: "bd (hp_mem h') = (bd ?m)(p \<mapsto> strip b\<lparr>mb_is_allocated := True\<rparr>)"
    and kp: "keeps (set (ys @ p # zs) \<union> set us) ?m (hp_mem h')" and hh: "h' = h0\<lparr>hp_mem := hp_mem h'\<rparr>"
    unfolding m0 by blast
  have rp: "region_of (hp_mem h') p = region_of ?m p" unfolding region_bd [of "hp_mem h'"] bdm by (simp add: region_of_def b)
  have tp: "taken (hp_mem h') p" unfolding taken_bd [of "hp_mem h'"] bdm by (simp add: taken_def)
  have hp: "mb_host_addr (the (hp_mem h' p)) = mb_host_addr (the (?m p))"
  proof -
    have "bd (hp_mem h') p = Some (strip b\<lparr>mb_is_allocated := True\<rparr>)" using bdm by simp
    from bd_Some [OF this] obtain c where "hp_mem h' p = Some c" "strip c = strip b\<lparr>mb_is_allocated := True\<rparr>" by auto
    then have "mb_host_addr (strip c) = mb_host_addr (strip b)" "hp_mem h' p = Some c" by simp_all
    then show ?thesis using b by simp
  qed
  have other: "bd (hp_mem h') x = bd ?m x" if "x \<in> set ys \<union> set zs \<union> set us" for x using bdm that d by auto
  have r2: "map (region_of (hp_mem h')) (ys @ zs) = map (region_of ?m) (ys @ zs)"
    by (rule map_region_cong) (use other in auto)
  have L': "pool_lists ?pool (hp_mem h') (ys @ [] @ zs) (p # us)" using fr ur d by (auto simp: pool_lists_def)
  have sp: "same_pool pool ?pool" by (simp add: same_pool_def)
  have I': "pool_inv ?pool (hp_mem h') (ys @ [] @ zs) (p # us)"
    by (rule inv_alloc [OF I L' sp other tp _ _ _ n, where page = page and oom = oom]) (use fit rp r2 in simp_all)
  have dm: "dom (hp_mem h') = dom ?m" using arg_cong [OF bdm, of dom] b unfolding dom_bd by (auto simp: bd_def)
  have "heap_step h ((ys @ p # zs) @ us) h' ((ys @ zs) @ p # us)"
    unfolding heap_step_def
  proof (intro conjI)
    show "rest (hp_mem h') ((ys @ zs) @ p # us) = rest ?m ((ys @ p # zs) @ us)"
      by (rule restI) (use keepsD [OF kp] in auto)
    have nx: "hp_next h' = hp_next h0" and oo: "hp_oom h' = hp_oom h0" by (subst hh, simp)+
    show "heap_wf h'" by (rule heap_wf_by_dom [OF wf]) (use dm m0 nx in auto)
    show "hp_oom h' = hp_oom h" "hp_next h \<le> hp_next h'" using h0 nx oo by auto
  qed
  then have "alloc_outcome pool h (ys @ p # zs) us al (map (region_of ?m) (ys @ zs)) p ?pool h' (ys @ zs)"
    using I' r2 sp other hp by (auto simp: alloc_outcome_def)
  then show ?thesis using t rp by blast
qed

text \<open>Splitting a block and taking its front part, as one step.\<close>

lemma split_take:
  assumes wf: "heap_wf h" and L: "pool_lists pool (hp_mem h) (ys @ p # zs) us" and b0: "hp_mem h p = Some b0"
    and sz: "mb_size b0 > al + pl_page_size pool" and o: "\<not> hp_oom h (hp_next h)"
  defines "r \<equiv> hp_next h" and "pool1 \<equiv> pool\<lparr>pl_block_count := pl_block_count pool + 1\<rparr>"
  shows "\<exists>h1 h'. split_block pool h p al = Some (pool1, h1) \<and>
    take_block pool1 h1 (last_opt None ys) p al =
      Some (pool1\<lparr>pl_free_list := head_opt (ys @ r # zs), pl_used_list := Some p, pl_used_size := pl_used_size pool1 + al\<rparr>, h') \<and>
    dll (hp_mem h') None (head_opt (ys @ r # zs)) (ys @ r # zs) None \<and> dll (hp_mem h') None (Some p) (p # us) None \<and>
    bd (hp_mem h') = (bd (hp_mem h))(p \<mapsto> strip b0\<lparr>mb_size := al, mb_is_allocated := True\<rparr>,
      r \<mapsto> block_zero\<lparr>mb_gpu_addr := mb_gpu_addr b0 + al, mb_size := mb_size b0 - al\<rparr>) \<and>
    keeps (set (ys @ p # r # zs) \<union> set us) (hp_mem h) (hp_mem h') \<and> hp_next h' = Suc (hp_next h) \<and> hp_oom h' = hp_oom h"
proof -
  let ?m = "hp_mem h"
  from split_block_splits [OF wf L b0 sz o, folded r_def pool1_def] obtain h1 where s1: "split_block pool h p al = Some (pool1, h1)"
    and L0: "pool_lists pool (hp_mem h1) (ys @ p # r # zs) us"
    and bd1: "bd (hp_mem h1) = (bd ?m)(p \<mapsto> strip b0\<lparr>mb_size := al\<rparr>,
      r \<mapsto> block_zero\<lparr>mb_gpu_addr := mb_gpu_addr b0 + al, mb_size := mb_size b0 - al\<rparr>)"
    and k1: "keeps (set (ys @ p # r # zs)) ?m (hp_mem h1)"
    and h1: "h1 = h\<lparr>hp_mem := hp_mem h1, hp_next := Suc r\<rparr>" by - (elim exE conjE, rule that)
  have L1: "pool_lists pool1 (hp_mem h1) (ys @ p # r # zs) us" using L0 by (simp add: pool_lists_def pool1_def)
  from take_block_closed [OF L1, of al] obtain h' b where b: "hp_mem h1 p = Some b"
    and t: "take_block pool1 h1 (last_opt None ys) p al =
      Some (pool1\<lparr>pl_free_list := head_opt (ys @ r # zs), pl_used_list := Some p, pl_used_size := pl_used_size pool1 + al\<rparr>, h')"
    and fr: "dll (hp_mem h') None (head_opt (ys @ r # zs)) (ys @ r # zs) None" and ur: "dll (hp_mem h') None (Some p) (p # us) None"
    and bd2: "bd (hp_mem h') = (bd (hp_mem h1))(p \<mapsto> strip b\<lparr>mb_is_allocated := True\<rparr>)"
    and k2: "keeps (set (ys @ p # r # zs) \<union> set us) (hp_mem h1) (hp_mem h')" and hh: "h' = h1\<lparr>hp_mem := hp_mem h'\<rparr>"
    by - (elim exE conjE, rule that)
  have pr: "p \<noteq> r" using b0 heap_wf_fresh [OF wf] by (auto simp: r_def)
  have "bd (hp_mem h1) p = Some (strip b0\<lparr>mb_size := al\<rparr>)" unfolding bd1 using pr by simp
  then have sb: "strip b = strip b0\<lparr>mb_size := al\<rparr>" using bd_at [of "hp_mem h1", OF b] by simp
  have bdm: "bd (hp_mem h') = (bd ?m)(p \<mapsto> strip b0\<lparr>mb_size := al, mb_is_allocated := True\<rparr>,
      r \<mapsto> block_zero\<lparr>mb_gpu_addr := mb_gpu_addr b0 + al, mb_size := mb_size b0 - al\<rparr>)"
    unfolding bd2 bd1 sb using pr by (simp add: fun_upd_twist)
  have kp: "keeps (set (ys @ p # r # zs) \<union> set us) ?m (hp_mem h')" by (rule keeps_trans [OF keeps_mono [OF k1] k2]) auto
  have n1: "hp_next h1 = Suc (hp_next h)" and o1: "hp_oom h1 = hp_oom h" by (subst h1, simp add: r_def)+
  have "hp_next h' = Suc (hp_next h)" "hp_oom h' = hp_oom h" by (subst hh, simp add: n1) (subst hh, simp add: o1)
  with s1 t fr ur bdm kp show ?thesis by blast
qed

lemma alloc_split:
  assumes I: "pool_inv pool (hp_mem h) (ys @ p # zs) us" and wf: "heap_wf h"
    and b0: "hp_mem h p = Some b0" and sz: "mb_size b0 > al + pl_page_size pool" and o: "\<not> hp_oom h (hp_next h)"
    and n: "0 < unat al" and G: "G = map (region_of (hp_mem h)) ys @
      (unat (mb_gpu_addr b0) + unat al, unat (mb_size b0) - unat al) # map (region_of (hp_mem h)) zs"
    and fit: "fit_alloc page oom (unat al) (map (region_of (hp_mem h)) (ys @ p # zs)) =
      Some ((unat (mb_gpu_addr b0), unat al), G)" and le: "unat al \<le> unat (mb_size b0)"
  shows "\<exists>pool1 h1 pool' h'. split_block pool h p al = Some (pool1, h1) \<and>
    take_block pool1 h1 (last_opt None ys) p al = Some (pool', h') \<and>
    region_of (hp_mem h') p = (unat (mb_gpu_addr b0), unat al) \<and>
    alloc_outcome pool h (ys @ p # zs) us al G p pool' h' (ys @ hp_next h # zs)"
proof -
  let ?m = "hp_mem h" and ?r = "hp_next h"
  let ?pool1 = "pool\<lparr>pl_block_count := pl_block_count pool + 1\<rparr>"
  have d: "distinct (ys @ p # zs @ us)" using inv_distinct [OF I] by auto
  have rn: "?m ?r = None" by (rule heap_wf_fresh [OF wf])
  have rf: "?r \<notin> set ys \<union> {p} \<union> set zs \<union> set us" using inv_live [OF I, of ?r] rn by auto
  let ?pool = "?pool1\<lparr>pl_free_list := head_opt (ys @ ?r # zs), pl_used_list := Some p, pl_used_size := pl_used_size ?pool1 + al\<rparr>"
  from split_take [OF wf inv_lists [OF I] b0 sz o] obtain h1 h' where
    s1: "split_block pool h p al = Some (?pool1, h1)"
    and t: "take_block ?pool1 h1 (last_opt None ys) p al = Some (?pool, h')"
    and fr: "dll (hp_mem h') None (head_opt (ys @ ?r # zs)) (ys @ ?r # zs) None" and ur: "dll (hp_mem h') None (Some p) (p # us) None"
    and bdm: "bd (hp_mem h') = (bd ?m)(p \<mapsto> strip b0\<lparr>mb_size := al, mb_is_allocated := True\<rparr>,
      ?r \<mapsto> block_zero\<lparr>mb_gpu_addr := mb_gpu_addr b0 + al, mb_size := mb_size b0 - al\<rparr>)"
    and kp: "keeps (set (ys @ p # ?r # zs) \<union> set us) ?m (hp_mem h')"
    and nx: "hp_next h' = Suc (hp_next h)" and oo: "hp_oom h' = hp_oom h" by - (elim exE conjE, rule that)
  have pr: "p \<noteq> ?r" using rf by auto
  have rp: "region_of (hp_mem h') p = (unat (mb_gpu_addr b0), unat al)"
    unfolding region_bd [of "hp_mem h'"] bdm using pr by (simp add: region_of_def reg_def)
  have nw: "unat (mb_gpu_addr b0) + unat (mb_size b0) < 2 ^ 64"
  proof -
    have "pool_geo pool" using I by (simp add: pool_inv_def)
    then show ?thesis using inv_within(2) [OF I, of p] b0 by (simp add: pool_geo_def region_of_def)
  qed
  then have ad: "unat (mb_gpu_addr b0 + al) = unat (mb_gpu_addr b0) + unat al"
    using le by (simp add: unat_word_ariths)
  have su: "unat (mb_size b0 - al) = unat (mb_size b0) - unat al"
    by (rule unat_sub) (use le in \<open>simp add: word_le_nat_alt\<close>)
  have rr: "region_of (hp_mem h') ?r = (unat (mb_gpu_addr b0) + unat al, unat (mb_size b0) - unat al)"
    unfolding region_bd [of "hp_mem h'"] bdm by (simp add: region_of_def reg_def ad su)
  have tp: "taken (hp_mem h') p" unfolding taken_bd [of "hp_mem h'"] bdm using pr by (simp add: taken_def)
  have tr: "\<not> taken (hp_mem h') ?r" unfolding taken_bd [of "hp_mem h'"] bdm by (simp add: taken_def block_zero_def)
  have hp: "mb_host_addr (the (hp_mem h' p)) = mb_host_addr (the (?m p))"
  proof -
    have "bd (hp_mem h') p = Some (strip b0\<lparr>mb_size := al, mb_is_allocated := True\<rparr>)" using bdm pr by simp
    from bd_Some [OF this] obtain c where "hp_mem h' p = Some c"
      "strip c = strip b0\<lparr>mb_size := al, mb_is_allocated := True\<rparr>" by auto
    then have "mb_host_addr (strip c) = mb_host_addr (strip b0)" "hp_mem h' p = Some c" by simp_all
    then show ?thesis using b0 by simp
  qed
  have other: "bd (hp_mem h') x = bd ?m x" if "x \<in> set ys \<union> set zs \<union> set us" for x using bdm that d rf by auto
  have r2: "map (region_of (hp_mem h')) ys = map (region_of ?m) ys" "map (region_of (hp_mem h')) zs = map (region_of ?m) zs"
    by (rule map_region_cong; use other in simp)+
  have G': "map (region_of (hp_mem h')) (ys @ [?r] @ zs) = G" unfolding G by (simp add: r2 rr del: map_eq_conv)
  have L': "pool_lists ?pool (hp_mem h') (ys @ [?r] @ zs) (p # us)" using fr ur d rf by (auto simp: pool_lists_def)
  have sp: "same_pool pool ?pool" by (simp add: same_pool_def)
  have I': "pool_inv ?pool (hp_mem h') (ys @ [?r] @ zs) (p # us)"
    by (rule inv_alloc [OF I L' sp other tp _ _ _ n, where page = page and oom = oom]) (use fit rp G' tr in simp_all)
  have dm: "dom (hp_mem h') = insert ?r (dom ?m)"
    using arg_cong [OF bdm, of dom] b0 unfolding dom_bd by (auto simp: bd_def)
  have "heap_step h ((ys @ p # zs) @ us) h' ((ys @ ?r # zs) @ p # us)"
    unfolding heap_step_def
  proof (intro conjI)
    show "rest (hp_mem h') ((ys @ ?r # zs) @ p # us) = rest ?m ((ys @ p # zs) @ us)"
      by (rule restI) (use keepsD [OF kp] rn in auto)
    show "heap_wf h'" by (rule heap_wf_by_dom [OF wf]) (use dm nx in auto)
    show "hp_oom h' = hp_oom h" "hp_next h \<le> hp_next h'" using nx oo by auto
  qed
  then have "alloc_outcome pool h (ys @ p # zs) us al G p ?pool h' (ys @ ?r # zs)"
    using I' G' sp other hp by (auto simp: alloc_outcome_def)
  then show ?thesis using s1 t rp by blast
qed

lemma head_opt_dropWhile: "dropWhile P xs = y # zs \<Longrightarrow> head_opt (dropWhile P xs) = Some y"
  by simp

lemma split_block_skip:
  assumes b: "hp_mem h p = Some b" and no: "\<not> (mb_size b > al + pl_page_size pool \<and> \<not> hp_oom h (hp_next h))"
  shows "split_block pool h p al = Some (pool, if mb_size b > al + pl_page_size pool then h\<lparr>hp_next := Suc (hp_next h)\<rparr> else h)"
proof (cases "mb_size b > al + pl_page_size pool")
  case True
  with no have "hp_oom h (hp_next h)" by simp
  from split_block_oom [OF b this] show ?thesis .
next
  case False
  with split_block_none [OF b False] show ?thesis by simp
qed

text \<open>The allocation of the first region that is large enough.\<close>

lemma fitted_alloc:
  fixes h al pool
  defines "n \<equiv> unat al" and "page \<equiv> unat (pl_page_size pool)" and "oom \<equiv> hp_oom h (hp_next h)"
  assumes I: "pool_inv pool (hp_mem h) (ys @ p # zs) us" and wf: "heap_wf h" and n: "0 < unat al"
    and ys: "\<forall>y \<in> set ys. snd (region_of (hp_mem h) y) < unat al" and p: "unat al \<le> snd (region_of (hp_mem h) p)"
  shows "\<exists>a G pool' h' fs'. fit_alloc page oom n (map (region_of (hp_mem h)) (ys @ p # zs)) = Some (a, G) \<and>
    do { (pool, h) \<leftarrow> split_block pool h p al; (pool, h) \<leftarrow> take_block pool h (last_opt None ys) p al; Some (Some p, pool, h) } =
      Some (Some p, pool', h') \<and>
    region_of (hp_mem h') p = a \<and> alloc_outcome pool h (ys @ p # zs) us al G p pool' h' fs'"
proof -
  let ?m = "hp_mem h" and ?F = "map (region_of (hp_mem h)) (ys @ p # zs)"
  obtain b where b: "?m p = Some b" using inv_live [OF I, of p] by auto
  have rb: "region_of ?m p = (unat (mb_gpu_addr b), unat (mb_size b))" using b by (simp add: region_of_def reg_def)
  have nb: "n \<le> unat (mb_size b)" using p rb by (simp add: n_def)
  have geo: "pool_geo pool" using I by (simp add: pool_inv_def)
  have "unat (mb_size b) \<le> unat (pl_total_size pool)" using inv_within(3) [OF I, of p] b by (simp add: region_of_def)
  then have "n + page < 2 ^ 64" using nb geo by (simp add: pool_geo_def page_def)
  then have room: "unat (al + pl_page_size pool) = n + page" by (simp add: unat_word_ariths n_def page_def)
  have big: "mb_size b > al + pl_page_size pool \<longleftrightarrow> unat (mb_size b) > n + page" by (simp add: word_less_nat_alt room)
  have dw: "dropWhile (\<lambda>a. snd a < n) ?F = region_of ?m p # map (region_of ?m) zs"
    and tw: "takeWhile (\<lambda>a. snd a < n) ?F = map (region_of ?m) ys"
    using ys p by (simp_all add: n_def dropWhile_append takeWhile_append)
  show ?thesis
  proof (cases "unat (mb_size b) > n + page \<and> \<not> oom")
    case True
    let ?G = "map (region_of ?m) ys @ (unat (mb_gpu_addr b) + unat al, unat (mb_size b) - unat al) # map (region_of ?m) zs"
    have fit: "fit_alloc page oom n ?F = Some ((unat (mb_gpu_addr b), unat al), ?G)"
      unfolding fit_alloc_def dw tw list.case Let_def using True by (simp add: rb n_def)
    obtain pool1 h1 pool' h' where "split_block pool h p al = Some (pool1, h1)"
      "take_block pool1 h1 (last_opt None ys) p al = Some (pool', h')" "region_of (hp_mem h') p = (unat (mb_gpu_addr b), unat al)"
      "alloc_outcome pool h (ys @ p # zs) us al ?G p pool' h' (ys @ hp_next h # zs)"
      using alloc_split [OF I wf b, of al ?G page oom] True big n nb fit unfolding n_def oom_def by auto
    with fit show ?thesis by auto
  next
    case False
    let ?h0 = "if mb_size b > al + pl_page_size pool then h\<lparr>hp_next := Suc (hp_next h)\<rparr> else h"
    have fit: "fit_alloc page oom n ?F = Some (region_of ?m p, map (region_of ?m) (ys @ zs))"
      unfolding fit_alloc_def dw tw list.case Let_def using False by (auto simp: rb)
    have sp: "split_block pool h p al = Some (pool, ?h0)"
      by (rule split_block_skip [OF b]) (use False big in \<open>simp add: oom_def\<close>)
    have wf0: "heap_wf ?h0" using wf by (auto simp: heap_wf_def intro: less_SucI)
    have h0c: "?h0 = h \<or> ?h0 = h\<lparr>hp_next := Suc (hp_next h)\<rparr>" by simp
    obtain pool' h' where "take_block pool ?h0 (last_opt None ys) p al = Some (pool', h')" "region_of (hp_mem h') p = region_of ?m p"
      "alloc_outcome pool h (ys @ p # zs) us al (map (region_of ?m) (ys @ zs)) p pool' h' (ys @ zs)"
      using alloc_whole [OF I wf0 h0c n [folded n_def] fit, of al] by - (elim exE conjE, rule that)
    with fit sp show ?thesis by auto
  qed
qed

lemma pool_alloc_refines:
  assumes I: "pool_inv pool (hp_mem h) fs us" and wf: "heap_wf h" and sz: "sz \<noteq> 0"
  shows "case alloc_request pool (hp_oom h (hp_next h)) sz (map (region_of (hp_mem h)) fs) of
      None \<Rightarrow> pool_alloc pool h sz = Some (None, pool, h)
    | Some (a, G) \<Rightarrow> \<exists>p pool' h' fs'. pool_alloc pool h sz = Some (Some p, pool', h') \<and>
        region_of (hp_mem h') p = a \<and>
        alloc_outcome pool h fs us (align_up sz (pl_page_size pool)) G p pool' h' fs'"
proof -
  let ?m = "hp_mem h" and ?F = "map (region_of (hp_mem h)) fs" and ?oom = "hp_oom h (hp_next h)"
  let ?al = "align_up sz (pl_page_size pool)" and ?page = "unat (pl_page_size pool)" and ?n = "rounded (unat (pl_page_size pool)) (unat sz)"
  have geo: "pool_geo pool" using I by (simp add: pool_inv_def)
  note ar = align_up_request(1,2) [OF geo, of sz] align_up_request(3) [OF geo]
  show ?thesis
  proof (cases "unat sz + ?page \<le> 2 ^ 64")
    case False
    then show ?thesis using ar(1) by (simp add: alloc_request_def pool_alloc_def Let_def)
  next
    case True
    then have na: "\<not> ?al < sz" and al: "unat ?al = ?n" using ar by simp_all
    have "0 < unat sz" using sz by (simp add: unat_gt_0)
    then have n: "0 < unat ?al" using rounded_bounds(1) [OF ar(3), of "unat sz"] al by linarith
    let ?P = "\<lambda>x. snd (region_of ?m x) < ?n"
    let ?ys = "takeWhile ?P fs"
    have L: "dll ?m None (pl_free_list pool) fs None" using inv_lists [OF I] by (simp add: pool_lists_def)
    have big: "\<not> ?P x \<longleftrightarrow> ?al \<le> mb_size (the (?m x))" for x by (simp add: region_of_def word_le_nat_alt al not_less)
    have ff: "first_fit h ?al None (pl_free_list pool) = Some (At (last_opt None ?ys) (head_opt (dropWhile ?P fs)))"
      using first_fit_closed [OF L, OF big] by (simp only: not_not)
    have req: "alloc_request pool ?oom sz ?F = fit_alloc ?page ?oom ?n ?F" using True by (simp add: alloc_request_def Let_def)
    show ?thesis
    proof (cases "dropWhile ?P fs")
      case Nil
      then have "fit_alloc ?page ?oom ?n ?F = None" by (simp only: fit_alloc_def dropWhile_region Nil list.map list.case)
      then show ?thesis using req na ff Nil by (simp add: pool_alloc_def Let_def)
    next
      case (Cons p zs)
      have fs: "fs = ?ys @ p # zs" using Cons by (metis takeWhile_dropWhile_id)
      have pa: "pool_alloc pool h sz = do { (pool, h) \<leftarrow> split_block pool h p ?al;
          (pool, h) \<leftarrow> take_block pool h (last_opt None ?ys) p ?al; Some (Some p, pool, h) }"
        using Cons ff na by (simp add: pool_alloc_def Let_def)
      have I': "pool_inv pool ?m (?ys @ p # zs) us" using I fs by metis
      have small: "\<forall>y \<in> set ?ys. snd (region_of ?m y) < unat ?al" unfolding al by (auto dest: set_takeWhileD)
      have "\<not> ?P p" using Cons by (metis dropWhile_eq_Cons_conv)
      then have "unat ?al \<le> snd (region_of ?m p)" unfolding al by simp
      from fitted_alloc [OF I' wf n small this] show ?thesis
        unfolding req pa fs [symmetric] al by (elim exE conjE) auto
    qed
  qed
qed

section \<open>Release refines the coalescing return\<close>

lemma region_alloc_flag:
  assumes "bd m' = (bd m)(p \<mapsto> strip b\<lparr>mb_is_allocated := a\<rparr>)" and "m p = Some b"
  shows "region_of m' x = region_of m x" and "taken m' x = (if x = p then a else taken m x)"
  using assms region_bd [of m' x] region_bd [of m x] taken_bd [of m' x] taken_bd [of m x]
  by (auto simp: region_of_def taken_def bd_at)

lemma free_stage1:
  assumes I: "pool_inv pool (hp_mem h) fs us" and p: "p \<in> set us"
    and ys: "ys = takeWhile (\<lambda>x. fst (region_of (hp_mem h) x) < fst (region_of (hp_mem h) p)) fs"
    and zs: "zs = dropWhile (\<lambda>x. fst (region_of (hp_mem h) x) < fst (region_of (hp_mem h) p)) fs"
  shows "\<exists>pool1 h1 pool2 h2 b. hp_mem h p = Some b \<and> unlink_used pool h p = Some (pool1, h1) \<and>
    insert_free pool1 h1 p = Some (pool2, h2) \<and>
    dll (hp_mem h2) None (pl_free_list pool2) (ys @ p # zs) None \<and>
    dll (hp_mem h2) None (pl_used_list pool2) (remove1 p us) None \<and>
    bd (hp_mem h2) = (bd (hp_mem h))(p \<mapsto> strip b\<lparr>mb_is_allocated := False\<rparr>) \<and>
    keeps (set fs \<union> set us) (hp_mem h) (hp_mem h2) \<and> h2 = h\<lparr>hp_mem := hp_mem h2\<rparr> \<and>
    same_pool pool pool2 \<and> pl_block_count pool2 = pl_block_count pool \<and>
    pl_used_size pool2 = pl_used_size pool - mb_size b"
proof -
  let ?m = "hp_mem h"
  obtain yu zu where u: "us = yu @ p # zu" "p \<notin> set yu" using split_list_first [OF p] by blast
  have r: "remove1 p us = yu @ zu" using u by (simp add: remove1_append)
  have L: "pool_lists pool ?m fs (yu @ p # zu)" using inv_lists [OF I] u by simp
  have d: "distinct (fs @ yu @ p # zu)" using inv_distinct [OF I] u by simp
  from unlink_used_closed [OF L] obtain h1 b where b: "?m p = Some b"
    and s1: "unlink_used pool h p =
      Some (pool\<lparr>pl_used_list := head_opt (yu @ zu), pl_used_size := pl_used_size pool - mb_size b\<rparr>, h1)"
    and f1: "dll (hp_mem h1) None (pl_free_list pool) fs None"
    and u1: "dll (hp_mem h1) None (head_opt (yu @ zu)) (yu @ zu) None"
    and bd1: "bd (hp_mem h1) = (bd ?m)(p \<mapsto> strip b\<lparr>mb_is_allocated := False\<rparr>)"
    and k1: "keeps (set (yu @ p # zu)) ?m (hp_mem h1)" and h1: "h1 = h\<lparr>hp_mem := hp_mem h1\<rparr>"
    by - (elim exE conjE, rule that)
  let ?pool1 = "pool\<lparr>pl_used_list := head_opt (yu @ zu), pl_used_size := pl_used_size pool - mb_size b\<rparr>"
  have "bd (hp_mem h1) p = Some (strip b\<lparr>mb_is_allocated := False\<rparr>)" using bd1 by simp
  then obtain b1 where b1: "hp_mem h1 p = Some b1" "strip b1 = strip b\<lparr>mb_is_allocated := False\<rparr>"
    using bd_Some by metis
  have a1: "mb_gpu_addr b1 = mb_gpu_addr b" using arg_cong [OF b1(2), of mb_gpu_addr] by simp
  have f1': "dll (hp_mem h1) None (pl_free_list ?pool1) fs None" using f1 by simp
  have P: "fst (region_of ?m x) < fst (region_of ?m p) \<longleftrightarrow> mb_gpu_addr (the (hp_mem h1 x)) < mb_gpu_addr b1" for x
  proof -
    have "fst (region_of (hp_mem h1) x) = fst (region_of ?m x)" using region_alloc_flag(1) [OF bd1 b] by simp
    then show ?thesis using a1 b by (simp add: region_of_def word_less_nat_alt)
  qed
  have dp: "distinct (p # fs)" using d by auto
  from insert_free_closed [OF f1' dp b1(1) P ys zs] obtain h2 where
    s2: "insert_free ?pool1 h1 p = Some (?pool1\<lparr>pl_free_list := head_opt (ys @ p # zs)\<rparr>, h2)"
    and f2: "dll (hp_mem h2) None (head_opt (ys @ p # zs)) (ys @ p # zs) None"
    and bd2: "bd (hp_mem h2) = bd (hp_mem h1)"
    and k2: "keeps (set (p # fs)) (hp_mem h1) (hp_mem h2)" and h2: "h2 = h1\<lparr>hp_mem := hp_mem h2\<rparr>"
    by - (elim exE conjE, rule that)
  let ?pool2 = "?pool1\<lparr>pl_free_list := head_opt (ys @ p # zs)\<rparr>"
  have u2: "dll (hp_mem h2) None (head_opt (yu @ zu)) (yu @ zu) None"
    by (subst keeps_dll [OF k2]) (use u1 d in auto)
  have kk: "keeps (set fs \<union> set us) ?m (hp_mem h2)"
    by (rule keeps_trans [OF keeps_mono [OF k1] keeps_mono [OF k2]]) (use u in auto)
  have "h\<lparr>hp_mem := hp_mem h2\<rparr> = h1\<lparr>hp_mem := hp_mem h2\<rparr>" by (subst h1) simp
  then have hh: "h2 = h\<lparr>hp_mem := hp_mem h2\<rparr>" using h2 by simp
  have "dll (hp_mem h2) None (pl_free_list ?pool2) (ys @ p # zs) None"
    "dll (hp_mem h2) None (pl_used_list ?pool2) (remove1 p us) None"
    "same_pool pool ?pool2" "pl_block_count ?pool2 = pl_block_count pool"
    "pl_used_size ?pool2 = pl_used_size pool - mb_size b" using f2 u2 r by (simp_all add: same_pool_def)
  then show ?thesis using b s1 s2 bd1 bd2 kk hh by metis
qed

text \<open>One block absorbs its neighbour, in terms of regions.\<close>

lemma absorbed_regions:
  assumes bdm: "bd m' = absorbed (bd m) q n" and q: "m q = Some qb" and n: "m n = Some nb" and qn: "q \<noteq> n"
    and nw: "snd (region_of m q) + snd (region_of m n) < 2 ^ 64"
  shows "region_of m' q = (fst (region_of m q), snd (region_of m q) + snd (region_of m n))"
    and "\<And>x. x \<noteq> q \<Longrightarrow> x \<noteq> n \<Longrightarrow> bd m' x = bd m x" and "taken m' q = taken m q" and "m' n = None"
    and "dom m' \<subseteq> dom m"
proof -
  have bq: "bd m' q = Some (strip qb\<lparr>mb_size := mb_size qb + mb_size nb\<rparr>)"
    unfolding bdm using q n qn by (simp add: absorbed_def bd_at)
  have s: "unat (mb_size qb + mb_size nb) = unat (mb_size qb) + unat (mb_size nb)"
    using nw q n by (simp add: region_of_def unat_word_ariths)
  show "region_of m' q = (fst (region_of m q), snd (region_of m q) + snd (region_of m n))"
    unfolding region_bd [of m'] using bq q n s by (simp add: region_of_def)
  show "bd m' x = bd m x" if "x \<noteq> q" "x \<noteq> n" for x using that unfolding bdm by (simp add: absorbed_def)
  show "taken m' q = taken m q" unfolding taken_bd [of m'] using bq q by (simp add: taken_def)
  have "bd m' n = None" unfolding bdm by (simp add: absorbed_def)
  then show "m' n = None" by simp
  have "dom (bd m') \<subseteq> dom (bd m)" unfolding bdm using q by (auto simp: absorbed_def bd_def)
  then show "dom m' \<subseteq> dom m" unfolding dom_bd .
qed

lemma region_cong_bd: "bd m' x = bd m x \<Longrightarrow> region_of m' x = region_of m x"
  and taken_cong_bd: "bd m' x = bd m x \<Longrightarrow> taken m' x = taken m x"
  using region_bd [of m' x] region_bd [of m x] taken_bd [of m' x] taken_bd [of m x]
  by (simp_all add: region_of_def taken_def)

lemma adjacent_regions:
  assumes "\<not> taken m q" and "\<not> taken m n" and "fst (region_of m q) + snd (region_of m q) < 2 ^ 64"
  shows "adjacent m q n \<longleftrightarrow> fst (region_of m q) + snd (region_of m q) = fst (region_of m n)"
proof -
  have "unat (mb_gpu_addr (the (m q)) + mb_size (the (m q))) = fst (region_of m q) + snd (region_of m q)"
    using assms(3) by (simp add: region_of_def unat_word_ariths)
  then show ?thesis
    using assms(1,2) unfolding adjacent_def taken_def by (auto simp: region_of_def word_unat_eq_iff)
qed

text \<open>
  The outcome of a merge on a free list \<open>xs\<close>, which becomes \<open>xs'\<close>: the blocks that left the list are
  freed, those that stay are still free, and nothing else changes.
\<close>

definition merge_outcome ::
  "CBMemoryPool \<Rightarrow> CBMemoryBlock heap \<Rightarrow> ptr list \<Rightarrow> CBMemoryPool \<Rightarrow> CBMemoryBlock heap \<Rightarrow> ptr list \<Rightarrow> bool" where
  "merge_outcome pool h xs pool' h' xs' \<longleftrightarrow>
     dll (hp_mem h') None (pl_free_list pool') xs' None \<and> distinct xs' \<and> set xs' \<subseteq> set xs \<and>
     (\<forall>x \<in> set xs - set xs'. hp_mem h' x = None) \<and> (\<forall>x \<in> set xs'. \<not> taken (hp_mem h') x) \<and>
     keeps (set xs) (hp_mem h) (hp_mem h') \<and> h' = h\<lparr>hp_mem := hp_mem h'\<rparr> \<and> dom (hp_mem h') \<subseteq> dom (hp_mem h) \<and>
     same_pool pool pool' \<and> pl_used_list pool' = pl_used_list pool \<and> pl_used_size pool' = pl_used_size pool \<and>
     pl_block_count pool' = pl_block_count pool + int (length xs') - int (length xs)"

lemma merge_outcome_refl:
  assumes "dll (hp_mem h) None (pl_free_list pool) xs None" and "distinct xs" and "\<forall>x \<in> set xs. \<not> taken (hp_mem h) x"
  shows "merge_outcome pool h xs pool h xs"
  using assms by (simp add: merge_outcome_def same_pool_def)

lemma merge_outcome_trans:
  assumes "merge_outcome p0 h0 xs p1 h1 ys" and "merge_outcome p1 h1 ys p2 h2 zs"
  shows "merge_outcome p0 h0 xs p2 h2 zs"
proof -
  have h1: "h1 = h0\<lparr>hp_mem := hp_mem h1\<rparr>" and h2: "h2 = h1\<lparr>hp_mem := hp_mem h2\<rparr>"
    and k1: "keeps (set xs) (hp_mem h0) (hp_mem h1)" and k2: "keeps (set ys) (hp_mem h1) (hp_mem h2)"
    and s: "set zs \<subseteq> set ys" "set ys \<subseteq> set xs" and n1: "\<forall>x \<in> set xs - set ys. hp_mem h1 x = None"
    and n2: "\<forall>x \<in> set ys - set zs. hp_mem h2 x = None"
    using assms [unfolded merge_outcome_def] by - (elim conjE, assumption)+
  have "h1\<lparr>hp_mem := hp_mem h2\<rparr> = h0\<lparr>hp_mem := hp_mem h2\<rparr>" by (subst h1) simp
  then have e: "h2 = h0\<lparr>hp_mem := hp_mem h2\<rparr>" using h2 by simp
  have k: "keeps (set xs) (hp_mem h0) (hp_mem h2)"
    by (rule keeps_trans [OF k1 keeps_mono [OF k2 s(2)]])
  have nn: "hp_mem h2 x = None" if "x \<in> set xs - set zs" for x
  proof (cases "x \<in> set ys")
    case False
    then show ?thesis using that n1 keepsD [OF k2 False] by simp
  qed (use that n2 in blast)
  have "dom (hp_mem h1) \<subseteq> dom (hp_mem h0)" "dom (hp_mem h2) \<subseteq> dom (hp_mem h1)"
    "same_pool p0 p1" "same_pool p1 p2"
    using assms [unfolded merge_outcome_def] by - (elim conjE, assumption)+
  then have dm: "dom (hp_mem h2) \<subseteq> dom (hp_mem h0)" and sp: "same_pool p0 p2"
    by (blast, simp add: same_pool_def)
  have fl: "pl_used_list p2 = pl_used_list p0" "pl_used_size p2 = pl_used_size p0"
    "pl_block_count p2 = pl_block_count p0 + int (length zs) - int (length xs)"
    "distinct zs" "dll (hp_mem h2) None (pl_free_list p2) zs None" "\<forall>x \<in> set zs. \<not> taken (hp_mem h2) x"
    using assms by (simp_all add: merge_outcome_def)
  show ?thesis unfolding merge_outcome_def
    by (intro conjI) (rule fl e k dm sp order_trans [OF s] | (intro ballI, erule nn))+
qed

lemma absorb_outcome:
  assumes dl: "dll (hp_mem h') None (pl_free_list pool) (ys @ q # zs) None"
    and d: "distinct (ys @ q # n # zs)" and fr: "\<forall>x \<in> set (ys @ q # n # zs). \<not> taken (hp_mem h) x"
    and q: "hp_mem h q = Some qb" and n: "hp_mem h n = Some nb"
    and bdm: "bd (hp_mem h') = absorbed (bd (hp_mem h)) q n"
    and nw: "snd (region_of (hp_mem h) q) + snd (region_of (hp_mem h) n) < 2 ^ 64"
    and kp: "keeps (set (ys @ q # n # zs)) (hp_mem h) (hp_mem h')" and hh: "h' = h\<lparr>hp_mem := hp_mem h'\<rparr>"
  shows "merge_outcome pool h (ys @ q # n # zs) (pool\<lparr>pl_block_count := pl_block_count pool - 1\<rparr>) h' (ys @ q # zs)"
    and "map (region_of (hp_mem h')) (ys @ q # zs) = map (region_of (hp_mem h)) ys @
      (fst (region_of (hp_mem h) q), snd (region_of (hp_mem h) q) + snd (region_of (hp_mem h) n)) #
      map (region_of (hp_mem h)) zs"
proof -
  have qn: "q \<noteq> n" using d by auto
  note ar = absorbed_regions [OF bdm q n qn nw]
  have other: "bd (hp_mem h') x = bd (hp_mem h) x" if "x \<in> set ys \<union> set zs" for x using ar(2) [of x] that d by auto
  have "\<not> taken (hp_mem h') x" if "x \<in> set (ys @ q # zs)" for x
    using that fr ar(3) taken_cong_bd [OF other] by (cases "x = q") auto
  then show "merge_outcome pool h (ys @ q # n # zs) (pool\<lparr>pl_block_count := pl_block_count pool - 1\<rparr>) h' (ys @ q # zs)"
    unfolding merge_outcome_def same_pool_def using dl d ar(4,5) kp hh by auto
  show "map (region_of (hp_mem h')) (ys @ q # zs) = map (region_of (hp_mem h)) ys @
      (fst (region_of (hp_mem h) q), snd (region_of (hp_mem h) q) + snd (region_of (hp_mem h) n)) #
      map (region_of (hp_mem h)) zs"
    using ar(1) region_cong_bd [OF other] by simp
qed

lemma merge_next_refines:
  assumes dl: "dll (hp_mem h) None (pl_free_list pool) (ys @ p # zs) None" and d: "distinct (ys @ p # zs)"
    and fr: "\<forall>x \<in> set (ys @ p # zs). \<not> taken (hp_mem h) x"
    and nw: "\<forall>x \<in> set (ys @ p # zs). fst (region_of (hp_mem h) x) + snd (region_of (hp_mem h) x) < 2 ^ 64"
  shows "\<exists>pool' h' zs'. merge_next pool h p = Some (pool', h') \<and>
    merge_outcome pool h (ys @ p # zs) pool' h' (ys @ p # zs') \<and>
    map (region_of (hp_mem h')) ys = map (region_of (hp_mem h)) ys \<and>
    glue_next (region_of (hp_mem h) p) (map (region_of (hp_mem h)) zs) =
      (region_of (hp_mem h') p, map (region_of (hp_mem h')) zs')"
proof -
  let ?R = "region_of (hp_mem h)"
  have a: "\<not> mb_is_allocated (the (hp_mem h p))" using fr by (simp add: taken_def)
  from merge_next_closed [OF dl d a] obtain h' pool' zs' where s: "merge_next pool h p = Some (pool', h')"
    and c: "if zs \<noteq> [] \<and> adjacent (hp_mem h) p (hd zs)
     then zs' = tl zs \<and> pool' = pool\<lparr>pl_block_count := pl_block_count pool - 1\<rparr> \<and>
       bd (hp_mem h') = absorbed (bd (hp_mem h)) p (hd zs)
     else zs' = zs \<and> pool' = pool \<and> bd (hp_mem h') = bd (hp_mem h)"
    and dl': "dll (hp_mem h') None (pl_free_list pool) (ys @ p # zs') None"
    and kp: "keeps (set (p # zs)) (hp_mem h) (hp_mem h')" and hh: "h' = h\<lparr>hp_mem := hp_mem h'\<rparr>"
    by - (elim exE conjE, rule that)
  have kp': "keeps (set (ys @ p # zs)) (hp_mem h) (hp_mem h')" by (rule keeps_mono [OF kp]) auto
  show ?thesis
  proof (cases "zs \<noteq> [] \<and> adjacent (hp_mem h) p (hd zs)")
    case True
    then obtain n zt where z: "zs = n # zt" by (cases zs) auto
    with c True have c': "zs' = zt" "pool' = pool\<lparr>pl_block_count := pl_block_count pool - 1\<rparr>"
      "bd (hp_mem h') = absorbed (bd (hp_mem h)) p n" by simp_all
    obtain b where b: "hp_mem h p = Some b" using dll_live [OF dl, of p] by auto
    obtain nb where nb: "hp_mem h n = Some nb" using dll_live [OF dl, of n] z by auto
    have adj: "fst (?R p) + snd (?R p) = fst (?R n)"
      using adjacent_regions [of "hp_mem h" p n] fr nw True z by auto
    then have "snd (?R p) + snd (?R n) < 2 ^ 64" using nw z by simp
    note ab = absorb_outcome [OF dl' [unfolded c'(1)] d [unfolded z] fr [unfolded z] b nb c'(3) this kp' [unfolded z] hh]
    have mo: "merge_outcome pool h (ys @ p # zs) pool' h' (ys @ p # zs')" using ab(1) c' z by simp
    from ab(2) have "map (region_of (hp_mem h')) ys = map ?R ys"
      "region_of (hp_mem h') p = (fst (?R p), snd (?R p) + snd (?R n))"
      "map (region_of (hp_mem h')) zt = map ?R zt" by simp_all
    with s mo show ?thesis using adj z c' by (intro exI [of _ pool'] exI [of _ h'] exI [of _ zs']) (simp add: glue_next_def)
  next
    case False
    then have c': "zs' = zs" "pool' = pool" "bd (hp_mem h') = bd (hp_mem h)" using c by (simp_all only: if_False)
    have R: "region_of (hp_mem h') x = ?R x" "taken (hp_mem h') x = taken (hp_mem h) x" for x
      using region_cong_bd [of "hp_mem h'" x "hp_mem h"] taken_cong_bd [of "hp_mem h'" x "hp_mem h"] c'(3) by simp_all
    have "dom (hp_mem h') = dom (hp_mem h)" using c'(3) dom_bd by metis
    then have mo: "merge_outcome pool h (ys @ p # zs) pool' h' (ys @ p # zs')"
      unfolding merge_outcome_def same_pool_def using dl' c' d fr kp' hh R(2) by auto
    have "glue_next (?R p) (map ?R zs) = (?R p, map ?R zs)"
      using False adjacent_regions [of "hp_mem h" p "hd zs"] fr nw by (cases zs) (auto simp: glue_next_def)
    with s mo show ?thesis using R(1) c'(1) by (intro exI [of _ pool'] exI [of _ h'] exI [of _ zs']) simp
  qed
qed

lemma merge_prev_refines:
  assumes dl: "dll (hp_mem h) None (pl_free_list pool) (ys @ p # zs) None" and d: "distinct (ys @ p # zs)"
    and fr: "\<forall>x \<in> set (ys @ p # zs). \<not> taken (hp_mem h) x"
    and nw: "\<forall>x \<in> set (ys @ p # zs). fst (region_of (hp_mem h) x) + snd (region_of (hp_mem h) x) < 2 ^ 64"
  shows "\<exists>pool' h' xs. merge_prev pool h p = Some (pool', h') \<and>
    merge_outcome pool h (ys @ p # zs) pool' h' xs \<and>
    map (region_of (hp_mem h')) xs =
      glue_prev (map (region_of (hp_mem h)) ys) (region_of (hp_mem h) p) (map (region_of (hp_mem h)) zs)"
proof -
  let ?R = "region_of (hp_mem h)"
  have a: "\<not> mb_is_allocated (the (hp_mem h p))" using fr by (simp add: taken_def)
  from merge_prev_closed [OF dl d a] obtain h' pool' xs where s: "merge_prev pool h p = Some (pool', h')"
    and c: "if ys \<noteq> [] \<and> adjacent (hp_mem h) (last ys) p
     then xs = ys @ zs \<and> pool' = pool\<lparr>pl_block_count := pl_block_count pool - 1\<rparr> \<and>
       bd (hp_mem h') = absorbed (bd (hp_mem h)) (last ys) p
     else xs = ys @ p # zs \<and> pool' = pool \<and> bd (hp_mem h') = bd (hp_mem h)"
    and dl': "dll (hp_mem h') None (pl_free_list pool) xs None"
    and kp: "keeps (set (ys @ p # zs)) (hp_mem h) (hp_mem h')" and hh: "h' = h\<lparr>hp_mem := hp_mem h'\<rparr>"
    by - (elim exE conjE, rule that)
  show ?thesis
  proof (cases "ys \<noteq> [] \<and> adjacent (hp_mem h) (last ys) p")
    case True
    then obtain yt q where y: "ys = yt @ [q]" by (cases ys rule: rev_cases) auto
    with c True have c': "xs = yt @ q # zs" "pool' = pool\<lparr>pl_block_count := pl_block_count pool - 1\<rparr>"
      "bd (hp_mem h') = absorbed (bd (hp_mem h)) q p" by simp_all
    obtain b where b: "hp_mem h p = Some b" using dll_live [OF dl, of p] by auto
    obtain qb where qb: "hp_mem h q = Some qb" using dll_live [OF dl, of q] y by auto
    have adj: "fst (?R q) + snd (?R q) = fst (?R p)"
      using adjacent_regions [of "hp_mem h" q p] fr nw True y by auto
    then have n2: "snd (?R q) + snd (?R p) < 2 ^ 64" using nw by simp
    have e: "ys @ p # zs = yt @ q # p # zs" using y by simp
    note ab = absorb_outcome [OF dl' [unfolded c'(1)] d [unfolded e] fr [unfolded e] qb b c'(3) n2 kp [unfolded e] hh]
    have "merge_outcome pool h (ys @ p # zs) pool' h' xs" using ab(1) c' e by simp
    moreover have "map (region_of (hp_mem h')) xs = glue_prev (map ?R ys) (?R p) (map ?R zs)"
      using ab(2) adj y c' by (simp add: glue_prev_def)
    ultimately show ?thesis using s by blast
  next
    case False
    then have c': "xs = ys @ p # zs" "pool' = pool" "bd (hp_mem h') = bd (hp_mem h)" using c by (simp_all only: if_False)
    have R: "region_of (hp_mem h') x = ?R x" "taken (hp_mem h') x = taken (hp_mem h) x" for x
      using region_cong_bd [of "hp_mem h'" x "hp_mem h"] taken_cong_bd [of "hp_mem h'" x "hp_mem h"] c'(3) by simp_all
    have "dom (hp_mem h') = dom (hp_mem h)" using c'(3) dom_bd by metis
    then have mo: "merge_outcome pool h (ys @ p # zs) pool' h' xs"
      unfolding merge_outcome_def same_pool_def using dl' c' d fr kp hh R(2) by auto
    have "glue_prev (map ?R ys) (?R p) (map ?R zs) = map ?R ys @ ?R p # map ?R zs"
      using False adjacent_regions [of "hp_mem h" "last ys" p] fr nw by (auto simp: glue_prev_def last_map)
    with s mo show ?thesis using R(1) c'(1) by (intro exI [of _ pool'] exI [of _ h'] exI [of _ xs]) simp
  qed
qed

text \<open>
  Releasing the block \<open>p\<close> of the used list: its region goes back to the free list, coalesced with its
  neighbours, and the counter of used bytes shrinks by the size of the block.
\<close>

lemma takeWhile_start: "takeWhile (\<lambda>a. fst a < l) (map (region_of m) xs) = map (region_of m) (takeWhile (\<lambda>x. fst (region_of m x) < l) xs)"
  and dropWhile_start: "dropWhile (\<lambda>a. fst a < l) (map (region_of m) xs) = map (region_of m) (dropWhile (\<lambda>x. fst (region_of m x) < l) xs)"
  by (simp_all add: takeWhile_map dropWhile_map comp_def)

lemma owners_remove1:
  "p \<in> set us \<Longrightarrow> owners (map f us) x = owners [f p] x + owners (map f (remove1 p us)) x"
  by (induction us) auto

definition free_outcome ::
  "CBMemoryPool \<Rightarrow> CBMemoryBlock heap \<Rightarrow> ptr list \<Rightarrow> ptr list \<Rightarrow> ptr \<Rightarrow> CBMemoryPool \<Rightarrow> CBMemoryBlock heap \<Rightarrow> ptr list \<Rightarrow> bool" where
  "free_outcome pool h fs us p pool' h' fs' \<longleftrightarrow>
     pool_inv pool' (hp_mem h') fs' (remove1 p us) \<and>
     map (region_of (hp_mem h')) fs' = give_back (region_of (hp_mem h) p) (map (region_of (hp_mem h)) fs) \<and>
     same_pool pool pool' \<and> heap_step h (fs @ us) h' (fs' @ remove1 p us) \<and>
     pl_used_size pool' = pl_used_size pool - mb_size (the (hp_mem h p)) \<and>
     (\<forall>x \<in> set (remove1 p us). bd (hp_mem h') x = bd (hp_mem h) x)"

lemma free_heap_step:
  assumes I: "pool_inv pool (hp_mem h) fs us" and wf: "heap_wf h" and p: "p \<in> set us"
    and mo: "merge_outcome pool2 h2 (ys @ p # zs) pool' h' xs" and fs: "fs = ys @ zs" and b: "hp_mem h p = Some b"
    and bd2: "bd (hp_mem h2) = (bd (hp_mem h))(p \<mapsto> strip b\<lparr>mb_is_allocated := False\<rparr>)"
    and k2: "keeps (set fs \<union> set us) (hp_mem h) (hp_mem h2)" and h2: "h2 = h\<lparr>hp_mem := hp_mem h2\<rparr>"
  shows "heap_step h (fs @ us) h' (xs @ remove1 p us)"
  unfolding heap_step_def
proof (intro conjI)
  let ?us = "remove1 p us"
  have us': "set ?us = set us - {p}" using inv_distinct [OF I] by (simp add: set_remove1_eq)
  have m: "set xs \<subseteq> set (ys @ p # zs)" "\<forall>x \<in> set (ys @ p # zs) - set xs. hp_mem h' x = None"
    "keeps (set (ys @ p # zs)) (hp_mem h2) (hp_mem h')" "h' = h2\<lparr>hp_mem := hp_mem h'\<rparr>" "dom (hp_mem h') \<subseteq> dom (hp_mem h2)"
    using mo [unfolded merge_outcome_def] by - (elim conjE, assumption)+
  have h2n: "hp_next h2 = hp_next h" "hp_oom h2 = hp_oom h" by (subst h2, simp)+
  have hn: "hp_next h' = hp_next h" "hp_oom h' = hp_oom h" by (subst m(4), simp add: h2n)+
  show "rest (hp_mem h') (xs @ ?us) = rest (hp_mem h) (fs @ us)"
  proof (rule restI)
    fix x assume x: "x \<notin> set (xs @ ?us)" "x \<notin> set (fs @ us)"
    then have "x \<notin> set (ys @ p # zs)" using fs p by auto
    then have "hp_mem h' x = hp_mem h2 x" by (rule keepsD [OF m(3)])
    moreover have "hp_mem h2 x = hp_mem h x" by (rule keepsD [OF k2]) (use x in auto)
    ultimately show "hp_mem h' x = hp_mem h x" by simp
  next
    fix x assume x: "x \<notin> set (xs @ ?us)" "x \<in> set (fs @ us)"
    then have "x \<in> set (ys @ p # zs) - set xs" using fs us' by auto
    then show "hp_mem h' x = None" using m(2) by blast
  next
    fix x assume "x \<in> set (xs @ ?us)" "x \<notin> set (fs @ us)"
    then show "hp_mem h x = None" using m(1) fs us' p by auto
  qed
  have "dom (hp_mem h2) \<subseteq> dom (hp_mem h)" using arg_cong [OF bd2, of dom] b by (auto simp: dom_bd simp flip: fun_upd_apply)
  then have "dom (hp_mem h') \<subseteq> dom (hp_mem h)" using m(5) by (rule order_trans [rotated])
  then show "heap_wf h'" by (intro heap_wf_by_dom [OF wf]) (simp add: hn, blast)
  show "hp_oom h' = hp_oom h" "hp_next h \<le> hp_next h'" using hn by simp_all
qed

lemma free_assemble:
  assumes I: "pool_inv pool (hp_mem h) fs us" and wf: "heap_wf h" and p: "p \<in> set us"
    and mo: "merge_outcome pool2 h2 (ys @ p # zs) pool' h' xs" and fs: "fs = ys @ zs"
    and u2: "dll (hp_mem h2) None (pl_used_list pool2) (remove1 p us) None" and b: "hp_mem h p = Some b"
    and bd2: "bd (hp_mem h2) = (bd (hp_mem h))(p \<mapsto> strip b\<lparr>mb_is_allocated := False\<rparr>)"
    and k2: "keeps (set fs \<union> set us) (hp_mem h) (hp_mem h2)" and h2: "h2 = h\<lparr>hp_mem := hp_mem h2\<rparr>"
    and sp: "same_pool pool pool2" and cnt: "pl_block_count pool2 = pl_block_count pool"
    and usz: "pl_used_size pool2 = pl_used_size pool - mb_size b"
    and R: "map (region_of (hp_mem h')) xs = give_back (region_of (hp_mem h) p) (map (region_of (hp_mem h)) fs)"
  shows "free_outcome pool h fs us p pool' h' xs"
proof -
  let ?m = "hp_mem h" and ?us = "remove1 p us" and ?a = "region_of (hp_mem h) p"
  let ?F = "map (region_of (hp_mem h)) fs"
  have d: "distinct (fs @ us)" by (rule inv_distinct [OF I])
  have us': "set ?us = set us - {p}" using d by (simp add: set_remove1_eq)
  have m: "dll (hp_mem h') None (pl_free_list pool') xs None" "distinct xs" "set xs \<subseteq> set (ys @ p # zs)"
    "\<forall>x \<in> set (ys @ p # zs) - set xs. hp_mem h' x = None" "\<forall>x \<in> set xs. \<not> taken (hp_mem h') x"
    "keeps (set (ys @ p # zs)) (hp_mem h2) (hp_mem h')" "h' = h2\<lparr>hp_mem := hp_mem h'\<rparr>" "dom (hp_mem h') \<subseteq> dom (hp_mem h2)"
    "same_pool pool2 pool'" "pl_used_list pool' = pl_used_list pool2" "pl_used_size pool' = pl_used_size pool2"
    "pl_block_count pool' = pl_block_count pool2 + int (length xs) - int (length (ys @ p # zs))"
    using mo [unfolded merge_outcome_def] by - (elim conjE, assumption)+
  have ap: "set ?us \<inter> set (ys @ p # zs) = {}" using us' d fs by auto
  have used: "dll (hp_mem h') None (pl_used_list pool') ?us None"
    unfolding m(10) by (subst keeps_dll [OF m(6)]) (use u2 ap in auto)
  have ob: "bd (hp_mem h') x = bd ?m x" if "x \<in> set ?us" for x
  proof -
    have "x \<notin> set (ys @ p # zs)" using that ap by blast
    then have "hp_mem h' x = hp_mem h2 x" by (rule keepsD [OF m(6)])
    then have "bd (hp_mem h') x = bd (hp_mem h2) x" by (simp add: bd_def)
    also have "\<dots> = bd ?m x" unfolding bd2 using that us' by auto
    finally show ?thesis .
  qed
  have sp': "same_pool pool pool'" using sp m(9) by (simp add: same_pool_def)
  have can: "canonical ?F" and pos: "0 < snd ?a" using I inv_pos [OF I, of p] p by (simp_all add: pool_inv_def)
  have own: "owners ?F x + owners (map (region_of ?m) us) x = (if in_pool pool x then 1 else 0)" for x
    using I unfolding pool_inv_def map_append owners_simps(3) by metis
  have o1: "owners ?F x + owners [?a] x \<le> 1" for x using own [of x] owners_remove1 [OF p, of "region_of ?m" x] by (auto split: if_splits)
  note gb = give_back_ok [OF can pos o1]
  have ru: "map (region_of (hp_mem h')) ?us = map (region_of ?m) ?us" by (rule map_region_cong [OF ob])
  have o2: "owners (map (region_of (hp_mem h')) (xs @ ?us)) x = (if in_pool pool' x then 1 else 0)" for x
    unfolding map_append owners_simps(3) R ru gb(2) same_pool_in [OF sp']
    using own [of x] owners_remove1 [OF p, of "region_of ?m" x] by (auto split: if_splits)
  have ul: "taken (hp_mem h') x \<and> 0 < snd (region_of (hp_mem h') x)" if "x \<in> set ?us" for x
    using that I us' taken_cong_bd [OF ob [OF that]] region_cong_bd [OF ob [OF that]] by (simp add: pool_inv_def)
  have "length us = Suc (length ?us)" using p by (simp add: length_remove1) (metis Suc_pred length_pos_if_in_set)
  then have cn: "pl_block_count pool' = int (length xs + length ?us)"
    using m(12) cnt I fs by (simp add: pool_inv_def)
  have pl: "pool_lists pool' (hp_mem h') xs ?us"
    unfolding pool_lists_def using m(1,2,3) used ap d by (auto simp: distinct_remove1)
  have geo: "pool_geo pool'" using I same_pool_geo [OF sp'] by (simp add: pool_inv_def)
  have I': "pool_inv pool' (hp_mem h') xs ?us"
    unfolding pool_inv_def using pl m(5) ul gb(1) R o2 cn geo by simp
  have "heap_step h (fs @ us) h' (xs @ ?us)" by (rule free_heap_step [OF I wf p mo fs b bd2 k2 h2])
  then show ?thesis
    unfolding free_outcome_def using I' R sp' ob m(11) usz b by simp
qed

text \<open>Gluing a region to the next one moves no end.\<close>

lemma glue_next_bounded:
  fixes R R' :: "ptr \<Rightarrow> region"
  assumes g: "glue_next (R p) (map R zs) = (R' p, map R' zs')" and ys: "map R' ys = map R ys"
    and b: "\<forall>y \<in> set (ys @ p # zs). fst (R y) + snd (R y) < n" and x: "x \<in> set (ys @ p # zs')"
  shows "fst (R' x) + snd (R' x) < n"
proof -
  have "\<exists>a \<in> set (map R (ys @ p # zs)). fst (R' x) + snd (R' x) = fst a + snd a"
  proof (cases "x \<in> set ys")
    case True
    then have "R' x = R x" using ys by simp
    then show ?thesis using True by auto
  next
    case False
    note glue_next_ends [OF g, of "R' x"]
    moreover have "R' x \<in> set (map R' (p # zs'))" using x False by auto
    ultimately show ?thesis by auto
  qed
  with b show ?thesis unfolding set_map by fastforce
qed

lemma pool_free_refines:
  assumes I: "pool_inv pool (hp_mem h) fs us" and wf: "heap_wf h" and p: "p \<in> set us"
  shows "\<exists>pool' h' fs'. pool_free pool h (Some p) = Some (pool', h') \<and> free_outcome pool h fs us p pool' h' fs'"
proof -
  let ?m = "hp_mem h" and ?R = "region_of (hp_mem h)"
  let ?ys = "takeWhile (\<lambda>x. fst (?R x) < fst (?R p)) fs" and ?zs = "dropWhile (\<lambda>x. fst (?R x) < fst (?R p)) fs"
  have fs: "fs = ?ys @ ?zs" by simp
  from free_stage1 [OF I p refl refl] obtain pool1 h1 pool2 h2 b where b: "?m p = Some b"
    and s1: "unlink_used pool h p = Some (pool1, h1)" and s2: "insert_free pool1 h1 p = Some (pool2, h2)"
    and f2: "dll (hp_mem h2) None (pl_free_list pool2) (?ys @ p # ?zs) None"
    and u2: "dll (hp_mem h2) None (pl_used_list pool2) (remove1 p us) None"
    and bd2: "bd (hp_mem h2) = (bd ?m)(p \<mapsto> strip b\<lparr>mb_is_allocated := False\<rparr>)"
    and k2: "keeps (set fs \<union> set us) ?m (hp_mem h2)" and h2: "h2 = h\<lparr>hp_mem := hp_mem h2\<rparr>"
    and sp: "same_pool pool pool2" and cnt: "pl_block_count pool2 = pl_block_count pool"
    and usz: "pl_used_size pool2 = pl_used_size pool - mb_size b"
    by - (elim exE conjE, rule that)
  note ra = region_alloc_flag [OF bd2 b]
  have sub: "set (?ys @ p # ?zs) = insert p (set fs)" 
  proof -
    have "set fs = set ?ys \<union> set ?zs" by (metis set_append takeWhile_dropWhile_id)
    then show ?thesis by auto
  qed
  have pf: "p \<notin> set fs" using inv_distinct [OF I] p by auto
  have d: "distinct (?ys @ p # ?zs)"
  proof -
    have "distinct (?ys @ ?zs)" using inv_distinct [OF I] by simp
    moreover have "p \<notin> set (?ys @ ?zs)" using pf by simp
    ultimately show ?thesis by (simp del: takeWhile_dropWhile_id)
  qed
  have fr: "\<forall>x \<in> set (?ys @ p # ?zs). \<not> taken (hp_mem h2) x"
    unfolding sub using ra(2) I by (auto simp: pool_inv_def)
  have geo: "pool_geo pool" using I by (simp add: pool_inv_def)
  have bnd: "fst (?R x) + snd (?R x) < 2 ^ 64" if "x \<in> set fs \<union> set us" for x
    using inv_within(2) [OF I that] geo by (simp add: pool_geo_def)
  have nw: "\<forall>x \<in> set (?ys @ p # ?zs). fst (region_of (hp_mem h2) x) + snd (region_of (hp_mem h2) x) < 2 ^ 64"
    unfolding sub ra(1) using bnd p by auto
  from merge_next_refines [OF f2 d fr nw] obtain pool3 h3 zs3 where s3: "merge_next pool2 h2 p = Some (pool3, h3)"
    and m3: "merge_outcome pool2 h2 (?ys @ p # ?zs) pool3 h3 (?ys @ p # zs3)"
    and y3: "map (region_of (hp_mem h3)) ?ys = map (region_of (hp_mem h2)) ?ys"
    and g3: "glue_next (region_of (hp_mem h2) p) (map (region_of (hp_mem h2)) ?zs) =
      (region_of (hp_mem h3) p, map (region_of (hp_mem h3)) zs3)"
    by - (elim exE conjE, rule that)
  have R2: "region_of (hp_mem h2) = ?R" using ra(1) by blast
  have f3: "dll (hp_mem h3) None (pl_free_list pool3) (?ys @ p # zs3) None" and d3: "distinct (?ys @ p # zs3)"
    and fr3: "\<forall>x \<in> set (?ys @ p # zs3). \<not> taken (hp_mem h3) x"
    using m3 [unfolded merge_outcome_def] by - (elim conjE, assumption)+
  have g3': "glue_next (?R p) (map ?R ?zs) = (region_of (hp_mem h3) p, map (region_of (hp_mem h3)) zs3)" using g3 R2 by simp
  have y3': "map (region_of (hp_mem h3)) ?ys = map ?R ?ys" using y3 R2 by simp
  have bnd2: "\<forall>y \<in> set (?ys @ p # ?zs). fst (?R y) + snd (?R y) < 2 ^ 64" unfolding sub using bnd p by auto
  have nw3: "fst (region_of (hp_mem h3) x) + snd (region_of (hp_mem h3) x) < 2 ^ 64" if "x \<in> set (?ys @ p # zs3)" for x
    by (rule glue_next_bounded [OF g3' y3' bnd2 that])
  from merge_prev_refines [OF f3 d3 fr3] nw3 obtain pool4 h4 xs where s4: "merge_prev pool3 h3 p = Some (pool4, h4)"
    and m4: "merge_outcome pool3 h3 (?ys @ p # zs3) pool4 h4 xs"
    and g4: "map (region_of (hp_mem h4)) xs =
      glue_prev (map (region_of (hp_mem h3)) ?ys) (region_of (hp_mem h3) p) (map (region_of (hp_mem h3)) zs3)" by blast
  have R: "map (region_of (hp_mem h4)) xs = give_back (?R p) (map ?R fs)"
    unfolding give_back_def Let_def takeWhile_start dropWhile_start g4 y3 g3 [unfolded R2] R2 by simp
  have tk: "mb_is_allocated b"
  proof -
    have "taken ?m p" using I p by (simp add: pool_inv_def)
    then show ?thesis using b by (simp add: taken_def)
  qed
  have "pool_free pool h (Some p) = Some (pool4, h4)"
    using b tk s1 s2 s3 s4 by (simp add: pool_free_def heap_get_def)
  moreover have "free_outcome pool h fs us p pool4 h4 xs"
    by (rule free_assemble [OF I wf p merge_outcome_trans [OF m3 m4] fs u2 b bd2 k2 h2 sp cnt usz R])
  ultimately show ?thesis by blast
qed

end
