(* ===== verification/Memory_Invariant.thy ===== *)
theory Memory_Invariant
  imports Pool_Refinement
begin

text \<open>
  The invariant of the whole manager: three pools in one heap, the page table, \<open>total_allocated\<close>, and the
  headers outside every list. Each entry point of \<^theory_text>\<open>Memory_Manager\<close> keeps it; \<open>mgr_reach\<close> collects the
  states they reach from \<open>cb_memory_manager_init\<close>, and \<open>reach_inv\<close> is the invariant by rule induction.
\<close>

unbundle bit_operations_syntax

section \<open>Pools of one heap\<close>

lemma pool_inv_cong:
  assumes "pool_inv pool m fs us" and "\<And>x. x \<in> set fs \<union> set us \<Longrightarrow> m' x = m x"
  shows "pool_inv pool m' fs us"
proof -
  have d: "dll m' pr q fs e = dll m pr q fs e" "dll m' pr q us e = dll m pr q us e" for pr q e
    by (rule dll_frame, use assms(2) in blast)+
  have r: "map (region_of m') fs = map (region_of m) fs" "map (region_of m') us = map (region_of m) us"
    using assms(2) by (simp_all add: region_of_def)
  have f: "\<forall>x \<in> set fs. \<not> taken m' x" "\<forall>x \<in> set us. taken m' x" "\<forall>x \<in> set us. 0 < snd (region_of m' x)"
    using assms by (simp_all add: pool_inv_def taken_def region_of_def)
  show ?thesis using assms(1) f unfolding pool_inv_def pool_lists_def d map_append r by simp
qed

text \<open>Fields that are not links, address, size or the allocation flag do not matter to the pool.\<close>

definition same_core :: "CBMemoryBlock \<Rightarrow> CBMemoryBlock \<Rightarrow> bool" where
  "same_core b b' \<longleftrightarrow> mb_next b' = mb_next b \<and> mb_prev b' = mb_prev b \<and> reg b' = reg b \<and>
     mb_is_allocated b' = mb_is_allocated b"

lemma pool_inv_data:
  assumes I: "pool_inv pool m fs us" and p: "m p = Some b" and c: "same_core b b'"
  shows "pool_inv pool (m(p \<mapsto> b')) fs us"
proof -
  let ?m = "m(p \<mapsto> b')"
  have d: "dll ?m pr q xs e = dll m pr q xs e" for pr q xs e
    by (rule dll_upd_data [where m = m, OF p]) (use c in \<open>simp_all add: same_core_def\<close>)
  have r: "region_of ?m = region_of m" "taken ?m = taken m"
    using p c by (auto simp: region_of_def taken_def same_core_def fun_eq_iff)
  show ?thesis using I unfolding pool_inv_def pool_lists_def d r by simp
qed

lemma heap_step_frame:
  assumes "heap_step h xs h' xs'" and "y \<notin> set xs" and "y \<in> dom (hp_mem h)"
  shows "y \<notin> set xs'" and "hp_mem h' y = hp_mem h y"
proof -
  have "rest (hp_mem h') xs' y = rest (hp_mem h) xs y" using assms(1) by (simp add: heap_step_def)
  then have "rest (hp_mem h') xs' y = hp_mem h y" using assms(2) by (simp add: rest_def)
  with assms(3) show "y \<notin> set xs'" "hp_mem h' y = hp_mem h y"
    by (auto simp: rest_def restrict_map_def split: if_splits)
qed

lemma heap_step_pool:
  assumes s: "heap_step h xs h' xs'" and I: "pool_inv pool (hp_mem h) fs us"
    and d: "set xs \<inter> (set fs \<union> set us) = {}"
  shows "pool_inv pool (hp_mem h') fs us" and "set xs' \<inter> (set fs \<union> set us) = {}"
proof -
  have f: "x \<notin> set xs' \<and> hp_mem h' x = hp_mem h x" if "x \<in> set fs \<union> set us" for x
    using heap_step_frame [OF s, of x] inv_live [OF I that] that d by blast
  show "pool_inv pool (hp_mem h') fs us" by (rule pool_inv_cong [OF I]) (use f in blast)
  show "set xs' \<inter> (set fs \<union> set us) = {}" using f by blast
qed

lemma heap_step_rest:
  assumes s: "heap_step h xs h' xs'"
  shows "rest (hp_mem h') (xs' @ ys) = rest (hp_mem h) (xs @ ys)"
proof
  fix x
  have "rest (hp_mem h') xs' x = rest (hp_mem h) xs x" using s by (simp add: heap_step_def)
  then show "rest (hp_mem h') (xs' @ ys) x = rest (hp_mem h) (xs @ ys) x"
    by (auto simp: rest_def restrict_map_def split: if_splits)
qed

section \<open>The manager invariant\<close>

text \<open>
  The six lists of the three pools share the heap without overlap; \<open>stray\<close> are the block headers no
  list holds; the page table is the one object of its heap; \<open>total_allocated\<close> counts the blocks in use
  in the device and the managed pool.
\<close>

record lists =
  l_fd :: "ptr list"
  l_ud :: "ptr list"
  l_fp :: "ptr list"
  l_up :: "ptr list"
  l_fm :: "ptr list"
  l_um :: "ptr list"

definition all_blocks :: "lists \<Rightarrow> ptr list" where
  "all_blocks L = (l_fd L @ l_ud L) @ (l_fp L @ l_up L) @ (l_fm L @ l_um L)"

definition in_use :: "blocks \<Rightarrow> ptr list \<Rightarrow> u64" where
  "in_use m us = sum_list (map (\<lambda>x. mb_size (the (m x))) us)"

definition mgr_inv :: "CBMemoryManager \<Rightarrow> mem_heap \<Rightarrow> lists \<Rightarrow> bool" where
  "mgr_inv mgr h L \<longleftrightarrow>
     pool_inv (mm_device_pool mgr) (hp_mem (h_blocks h)) (l_fd L) (l_ud L) \<and>
     pool_inv (mm_pinned_pool mgr) (hp_mem (h_blocks h)) (l_fp L) (l_up L) \<and>
     pool_inv (mm_managed_pool mgr) (hp_mem (h_blocks h)) (l_fm L) (l_um L) \<and>
     distinct (all_blocks L) \<and> heap_wf (h_blocks h) \<and> 0 < unat (pl_base_addr (mm_device_pool mgr)) \<and>
     (\<exists>t n. mm_page_table mgr = Some t \<and> hp_mem (h_tables h) = [t \<mapsto> n]) \<and>
     mm_total_allocated mgr = in_use (hp_mem (h_blocks h)) (l_ud L @ l_um L)"

text \<open>The blocks in use, and the allocations counted that no list and no release accounts for.\<close>

definition live_count :: "lists \<Rightarrow> nat" where
  "live_count L = length (l_ud L) + length (l_up L) + length (l_um L)"

definition unreturned :: "CBMemoryManager \<Rightarrow> lists \<Rightarrow> u64" where
  "unreturned mgr L = mm_alloc_count mgr - mm_free_count mgr - of_nat (live_count L)"

definition stray :: "mem_heap \<Rightarrow> lists \<Rightarrow> blocks" where
  "stray h L = rest (hp_mem (h_blocks h)) (all_blocks L)"

lemma in_use_simps [simp]: "in_use m [] = 0" "in_use m (x # us) = mb_size (the (m x)) + in_use m us"
  "in_use m (us @ vs) = in_use m us + in_use m vs"
  by (simp_all add: in_use_def)

lemma in_use_remove1: "p \<in> set us \<Longrightarrow> in_use m us = mb_size (the (m p)) + in_use m (remove1 p us)"
  by (induction us) auto

lemma in_use_cong: "(\<And>x. x \<in> set us \<Longrightarrow> mb_size (the (m' x)) = mb_size (the (m x))) \<Longrightarrow> in_use m' us = in_use m us"
  unfolding in_use_def by (metis (mono_tags, lifting) map_eq_conv)

lemma bd_size: "bd m' x = bd m x \<Longrightarrow> mb_size (the (m' x)) = mb_size (the (m x))"
  by (cases "m x"; cases "m' x") (auto simp: bd_def dest: arg_cong [of _ _ mb_size])

lemma distinct_all_blocks:
  "distinct (all_blocks L) \<longleftrightarrow>
     distinct (l_fd L @ l_ud L) \<and> distinct (l_fp L @ l_up L) \<and> distinct (l_fm L @ l_um L) \<and>
     set (l_fd L @ l_ud L) \<inter> set (l_fp L @ l_up L) = {} \<and> set (l_fd L @ l_ud L) \<inter> set (l_fm L @ l_um L) = {} \<and>
     set (l_fp L @ l_up L) \<inter> set (l_fm L @ l_um L) = {}"
  unfolding all_blocks_def distinct_append [of "l_fd L @ l_ud L"] distinct_append [of "l_fp L @ l_up L"] set_append [of "l_fp L @ l_up L"]
  by blast

lemma mgr_inv_parts:
  assumes "mgr_inv mgr h L"
  shows "pool_inv (mm_device_pool mgr) (hp_mem (h_blocks h)) (l_fd L) (l_ud L)"
    and "pool_inv (mm_pinned_pool mgr) (hp_mem (h_blocks h)) (l_fp L) (l_up L)"
    and "pool_inv (mm_managed_pool mgr) (hp_mem (h_blocks h)) (l_fm L) (l_um L)"
    and "heap_wf (h_blocks h)"
    and "set (l_fd L @ l_ud L) \<inter> (set (l_fp L) \<union> set (l_up L)) = {}"
    and "set (l_fd L @ l_ud L) \<inter> (set (l_fm L) \<union> set (l_um L)) = {}"
    and "set (l_fp L @ l_up L) \<inter> (set (l_fm L) \<union> set (l_um L)) = {}"
  using assms by (simp_all add: mgr_inv_def distinct_all_blocks Int_Un_distrib)

lemma rest_same_set: "set xs = set ys \<Longrightarrow> rest m xs = rest m ys"
  by (simp add: rest_def)

lemma rest_rotate: "rest m (a @ x @ b) = rest m (x @ a @ b)" "rest m (a @ b @ x) = rest m (x @ a @ b)"
  by (rule rest_same_set, auto)+

lemma mgr_device_step:
  assumes I: "mgr_inv mgr h L" and s: "heap_step (h_blocks h) (l_fd L @ l_ud L) hb (fs @ us)"
    and P: "pool_inv pool (hp_mem hb) fs us" and m: "mm_device_pool mgr' = pool" "mm_pinned_pool mgr' = mm_pinned_pool mgr"
      "mm_managed_pool mgr' = mm_managed_pool mgr" "mm_page_table mgr' = mm_page_table mgr"
    and sp: "same_pool (mm_device_pool mgr) pool"
    and t: "mm_total_allocated mgr' = in_use (hp_mem hb) us + in_use (hp_mem (h_blocks h)) (l_um L)"
  shows "mgr_inv mgr' (h\<lparr>h_blocks := hb\<rparr>) (L\<lparr>l_fd := fs, l_ud := us\<rparr>)"
    and "stray (h\<lparr>h_blocks := hb\<rparr>) (L\<lparr>l_fd := fs, l_ud := us\<rparr>) = stray h L"
proof -
  note i = mgr_inv_parts [OF I]
  note p = heap_step_pool [OF s i(2,5)] and q = heap_step_pool [OF s i(3,6)]
  have f: "hp_mem hb x = hp_mem (h_blocks h) x" if "x \<in> set (l_um L)" for x
    using heap_step_frame(2) [OF s, of x] inv_live [OF i(3), of x] i(6) that by blast
  have u: "in_use (hp_mem hb) (l_um L) = in_use (hp_mem (h_blocks h)) (l_um L)" by (rule in_use_cong) (simp add: f)
  have "heap_wf hb" using s by (simp add: heap_step_def)
  moreover have "distinct (all_blocks (L\<lparr>l_fd := fs, l_ud := us\<rparr>))"
    using I inv_distinct [OF P] p(2) q(2) by (simp add: mgr_inv_def distinct_all_blocks Int_Un_distrib)
  ultimately show "mgr_inv mgr' (h\<lparr>h_blocks := hb\<rparr>) (L\<lparr>l_fd := fs, l_ud := us\<rparr>)"
    using I P p(1) q(1) m t u sp by (simp add: mgr_inv_def same_pool_def)
  show "stray (h\<lparr>h_blocks := hb\<rparr>) (L\<lparr>l_fd := fs, l_ud := us\<rparr>) = stray h L"
    using heap_step_rest [OF s, of "(l_fp L @ l_up L) @ (l_fm L @ l_um L)"] by (simp add: stray_def all_blocks_def)
qed

lemma mgr_pinned_step:
  assumes I: "mgr_inv mgr h L" and s: "heap_step (h_blocks h) (l_fp L @ l_up L) hb (fs @ us)"
    and P: "pool_inv pool (hp_mem hb) fs us" and m: "mm_device_pool mgr' = mm_device_pool mgr" "mm_pinned_pool mgr' = pool"
      "mm_managed_pool mgr' = mm_managed_pool mgr" "mm_page_table mgr' = mm_page_table mgr"
      "mm_total_allocated mgr' = mm_total_allocated mgr"
  shows "mgr_inv mgr' (h\<lparr>h_blocks := hb\<rparr>) (L\<lparr>l_fp := fs, l_up := us\<rparr>)"
    and "stray (h\<lparr>h_blocks := hb\<rparr>) (L\<lparr>l_fp := fs, l_up := us\<rparr>) = stray h L"
proof -
  note i = mgr_inv_parts [OF I]
  have d: "set (l_fp L @ l_up L) \<inter> (set (l_fd L) \<union> set (l_ud L)) = {}" using i(5) by (simp add: Int_Un_distrib Int_commute)
  note p = heap_step_pool [OF s i(1) d] and q = heap_step_pool [OF s i(3,7)]
  have f: "hp_mem hb x = hp_mem (h_blocks h) x" if "x \<in> set (l_ud L @ l_um L)" for x
    using heap_step_frame(2) [OF s, of x] inv_live [OF i(1), of x] inv_live [OF i(3), of x] i(7) d that by auto
  have u: "in_use (hp_mem hb) (l_ud L @ l_um L) = in_use (hp_mem (h_blocks h)) (l_ud L @ l_um L)"
    by (rule in_use_cong) (simp add: f)
  have "heap_wf hb" using s by (simp add: heap_step_def)
  moreover have "distinct (all_blocks (L\<lparr>l_fp := fs, l_up := us\<rparr>))"
    using I inv_distinct [OF P] p(2) q(2) by (simp add: mgr_inv_def distinct_all_blocks Int_Un_distrib Int_commute)
  ultimately show "mgr_inv mgr' (h\<lparr>h_blocks := hb\<rparr>) (L\<lparr>l_fp := fs, l_up := us\<rparr>)"
    using I P p(1) q(1) m u by (simp add: mgr_inv_def)
  have e: "stray (h\<lparr>h_blocks := hb\<rparr>) (L\<lparr>l_fp := fs, l_up := us\<rparr>) =
      rest (hp_mem hb) ((l_fd L @ l_ud L) @ (fs @ us) @ (l_fm L @ l_um L))" by (simp add: stray_def all_blocks_def)
  show "stray (h\<lparr>h_blocks := hb\<rparr>) (L\<lparr>l_fp := fs, l_up := us\<rparr>) = stray h L"
    using heap_step_rest [OF s, of "(l_fd L @ l_ud L) @ (l_fm L @ l_um L)"]
    unfolding e unfolding stray_def all_blocks_def by (simp only: rest_rotate(1) [of _ "l_fd L @ l_ud L"])
qed

lemma mgr_managed_step:
  assumes I: "mgr_inv mgr h L" and s: "heap_step (h_blocks h) (l_fm L @ l_um L) hb (fs @ us)"
    and P: "pool_inv pool (hp_mem hb) fs us" and m: "mm_device_pool mgr' = mm_device_pool mgr" "mm_pinned_pool mgr' = mm_pinned_pool mgr"
      "mm_managed_pool mgr' = pool" "mm_page_table mgr' = mm_page_table mgr"
    and t: "mm_total_allocated mgr' = in_use (hp_mem (h_blocks h)) (l_ud L) + in_use (hp_mem hb) us"
  shows "mgr_inv mgr' (h\<lparr>h_blocks := hb\<rparr>) (L\<lparr>l_fm := fs, l_um := us\<rparr>)"
    and "stray (h\<lparr>h_blocks := hb\<rparr>) (L\<lparr>l_fm := fs, l_um := us\<rparr>) = stray h L"
proof -
  note i = mgr_inv_parts [OF I]
  have d: "set (l_fm L @ l_um L) \<inter> (set (l_fd L) \<union> set (l_ud L)) = {}"
    and d2: "set (l_fm L @ l_um L) \<inter> (set (l_fp L) \<union> set (l_up L)) = {}"
    using i(6,7) by (simp_all add: Int_Un_distrib Int_commute)
  note p = heap_step_pool [OF s i(1) d] and q = heap_step_pool [OF s i(2) d2]
  have f: "hp_mem hb x = hp_mem (h_blocks h) x" if "x \<in> set (l_ud L)" for x
    using heap_step_frame(2) [OF s, of x] inv_live [OF i(1), of x] d that by blast
  have u: "in_use (hp_mem hb) (l_ud L) = in_use (hp_mem (h_blocks h)) (l_ud L)" by (rule in_use_cong) (simp add: f)
  have "heap_wf hb" using s by (simp add: heap_step_def)
  moreover have "distinct (all_blocks (L\<lparr>l_fm := fs, l_um := us\<rparr>))"
    using I inv_distinct [OF P] p(2) q(2) by (simp add: mgr_inv_def distinct_all_blocks Int_Un_distrib Int_commute)
  ultimately show "mgr_inv mgr' (h\<lparr>h_blocks := hb\<rparr>) (L\<lparr>l_fm := fs, l_um := us\<rparr>)"
    using I P p(1) q(1) m t u by (simp add: mgr_inv_def)
  have e: "stray (h\<lparr>h_blocks := hb\<rparr>) (L\<lparr>l_fm := fs, l_um := us\<rparr>) =
      rest (hp_mem hb) ((l_fd L @ l_ud L) @ (l_fp L @ l_up L) @ (fs @ us))" by (simp add: stray_def all_blocks_def)
  show "stray (h\<lparr>h_blocks := hb\<rparr>) (L\<lparr>l_fm := fs, l_um := us\<rparr>) = stray h L"
    using heap_step_rest [OF s, of "(l_fd L @ l_ud L) @ (l_fp L @ l_up L)"]
    unfolding e unfolding stray_def all_blocks_def by (simp only: rest_rotate(2) [of _ "l_fd L @ l_ud L"])
qed

lemma mgr_data_step:
  assumes I: "mgr_inv mgr h L" and p: "hp_mem (h_blocks h) p = Some b" and c: "same_core b b'"
    and q: "p \<in> set (all_blocks L)"
  defines "h' \<equiv> h\<lparr>h_blocks := h_blocks h\<lparr>hp_mem := (hp_mem (h_blocks h))(p \<mapsto> b')\<rparr>\<rparr>"
  shows "mgr_inv mgr h' L" and "stray h' L = stray h L"
proof -
  note i = mgr_inv_parts [OF I]
  have wf: "heap_wf (h_blocks h\<lparr>hp_mem := (hp_mem (h_blocks h))(p \<mapsto> b')\<rparr>)"
    using i(4) p by (auto simp: heap_wf_def)
  have "mb_size b' = mb_size b" using c by (simp add: same_core_def reg_def word_unat_eq_iff)
  then have u: "in_use ((hp_mem (h_blocks h))(p \<mapsto> b')) us = in_use (hp_mem (h_blocks h)) us" for us
    by (intro in_use_cong) (use p in simp)
  show "mgr_inv mgr h' L"
    using I pool_inv_data [OF i(1) p c] pool_inv_data [OF i(2) p c] pool_inv_data [OF i(3) p c] wf u
    unfolding h'_def by (simp add: mgr_inv_def)
  show "stray h' L = stray h L" using q unfolding h'_def by (auto simp: stray_def rest_def restrict_map_def)
qed

lemma mgr_fields:
  assumes "mgr_inv mgr h L" and "mm_device_pool mgr' = mm_device_pool mgr" and "mm_pinned_pool mgr' = mm_pinned_pool mgr"
    and "mm_managed_pool mgr' = mm_managed_pool mgr" and "mm_page_table mgr' = mm_page_table mgr"
    and "mm_total_allocated mgr' = mm_total_allocated mgr" and "h_blocks h' = h_blocks h" and "h_tables h' = h_tables h"
  shows "mgr_inv mgr' h' L" and "stray h' L = stray h L"
  using assms by (simp_all add: mgr_inv_def stray_def)

section \<open>Finding blocks\<close>

lemma head_dropWhile_unique:
  assumes "p \<in> set xs" and "P p" and "\<And>x. x \<in> set xs \<Longrightarrow> P x \<Longrightarrow> x = p"
  shows "head_opt (dropWhile (\<lambda>x. \<not> P x) xs) = Some p"
  using assms
proof (induction xs)
  case (Cons x xs)
  show ?case
  proof (cases "P x")
    case True
    then have "x = p" using Cons.prems(3) [of x] by simp
    with True show ?thesis by simp
  next
    case False
    with Cons.prems(1,2) have "p \<in> set xs" by auto
    from Cons.IH [OF this Cons.prems(2)] Cons.prems(3) False show ?thesis by simp
  qed
qed simp

lemma head_dropWhile_in: "head_opt (dropWhile (\<lambda>x. \<not> P x) xs) = Some p \<Longrightarrow> p \<in> set xs \<and> P p"
  by (induction xs) (auto split: if_splits)

lemma head_dropWhile_None: "head_opt (dropWhile (\<lambda>x. \<not> P x) xs) = None \<longleftrightarrow> (\<forall>x \<in> set xs. \<not> P x)"
  by (induction xs) auto

lemma inv_used_dll: "pool_inv pool m fs us \<Longrightarrow> dll m None (pl_used_list pool) us None"
  by (simp add: pool_inv_def pool_lists_def)

lemma inv_find_used:
  "pool_inv pool (hp_mem h) fs us \<Longrightarrow>
     find_used h P (pl_used_list pool) = Some (head_opt (dropWhile (\<lambda>x. \<not> P (the (hp_mem h x))) us))"
  by (rule find_used_closed [OF inv_used_dll])

lemma inv_start_inj:
  assumes I: "pool_inv pool m fs us" and x: "x \<in> set fs \<union> set us" and y: "y \<in> set fs \<union> set us"
    and e: "fst (region_of m x) = fst (region_of m y)"
  shows "x = y"
proof (rule ccontr)
  assume xy: "x \<noteq> y"
  let ?R = "region_of m" and ?a = "fst (region_of m x)"
  have d: "distinct (fs @ us)" by (rule inv_distinct [OF I])
  have hx: "holds (?R x) ?a" "holds (?R y) ?a" using inv_pos [OF I x] inv_pos [OF I y] e by (simp_all add: holds_def)
  have "2 \<le> owners (map ?R (fs @ us)) ?a"
  proof -
    have "owners (map ?R zs) ?a \<ge> 2" if "distinct zs" "x \<in> set zs" "y \<in> set zs" for zs
      using that
    proof (induction zs)
      case (Cons z zs)
      have one: "1 \<le> owners (map ?R zs) ?a" if "w \<in> set zs" "holds (?R w) ?a" for w
      proof -
        have "0 < owners (map ?R zs) ?a" using that by (auto simp: owners_pos)
        then show ?thesis by simp
      qed
      from Cons show ?case using one [of x] one [of y] hx xy by auto
    qed simp
    from this [OF d] x y show ?thesis by simp
  qed
  moreover have "owners (map ?R (fs @ us)) ?a \<le> 1" using I unfolding pool_inv_def by (metis le_refl zero_le_one)
  ultimately show False by simp
qed

lemma find_used_total:
  assumes "pool_inv pool (hp_mem h) fs us"
  shows "\<exists>r. find_used h P (pl_used_list pool) = Some r \<and> (\<forall>p. r = Some p \<longrightarrow> p \<in> set us \<and> P (the (hp_mem h p)))"
  unfolding inv_find_used [OF assms] by (auto dest: head_dropWhile_in)

lemma find_block_total:
  assumes I: "mgr_inv mgr h L"
  shows "\<exists>r. cb_find_block mgr (h_blocks h) q = Some r \<and>
    (\<forall>p. r = Some p \<longrightarrow> p \<in> set (l_ud L) \<union> set (l_up L) \<union> set (l_um L))"
proof -
  note i = mgr_inv_parts(1-3) [OF I]
  obtain r1 where r1: "find_used (h_blocks h) (\<lambda>b. mb_gpu_addr b = q) (pl_used_list (mm_device_pool mgr)) = Some r1"
    "\<forall>p. r1 = Some p \<longrightarrow> p \<in> set (l_ud L)" using find_used_total [OF i(1)] by blast
  obtain r2 where r2: "find_used (h_blocks h) (\<lambda>b. mb_host_addr b = q) (pl_used_list (mm_pinned_pool mgr)) = Some r2"
    "\<forall>p. r2 = Some p \<longrightarrow> p \<in> set (l_up L)" using find_used_total [OF i(2)] by blast
  obtain r3 where r3: "find_used (h_blocks h) (\<lambda>b. mb_host_addr b = q \<or> mb_gpu_addr b = q)
      (pl_used_list (mm_managed_pool mgr)) = Some r3"
    "\<forall>p. r3 = Some p \<longrightarrow> p \<in> set (l_um L)" using find_used_total [OF i(3)] by blast
  show ?thesis
    by (cases "q = 0"; cases r1; cases r2) (use r1 r2 r3 in \<open>auto simp: cb_find_block_def\<close>)
qed

lemma find_block_device:
  assumes I: "mgr_inv mgr h L" and p: "p \<in> set (l_ud L)"
    and q: "mb_gpu_addr (the (hp_mem (h_blocks h) p)) = q"
  shows "cb_find_block mgr (h_blocks h) q = Some (Some p)" and "q \<noteq> 0"
    and "find_used (h_blocks h) (\<lambda>b. mb_gpu_addr b = q) (pl_used_list (mm_device_pool mgr)) = Some (Some p)"
proof -
  note i = mgr_inv_parts(1) [OF I]
  have "unat (pl_base_addr (mm_device_pool mgr)) \<le> unat q" using inv_within(1) [OF i, of p] p q by (simp add: region_of_def)
  then show q0: "q \<noteq> 0" using I by (auto simp: mgr_inv_def)
  have "head_opt (dropWhile (\<lambda>x. mb_gpu_addr (the (hp_mem (h_blocks h) x)) \<noteq> q) (l_ud L)) = Some p"
  proof (rule head_dropWhile_unique [where P = "\<lambda>x. mb_gpu_addr (the (hp_mem (h_blocks h) x)) = q", OF p q])
    fix x assume "x \<in> set (l_ud L)" "mb_gpu_addr (the (hp_mem (h_blocks h) x)) = q"
    then show "x = p" using inv_start_inj [OF i, of x p] p q by (simp add: region_of_def)
  qed
  then show f: "find_used (h_blocks h) (\<lambda>b. mb_gpu_addr b = q) (pl_used_list (mm_device_pool mgr)) = Some (Some p)"
    unfolding inv_find_used [OF i] by simp
  show "cb_find_block mgr (h_blocks h) q = Some (Some p)" using q0 by (simp add: cb_find_block_def f)
qed

section \<open>The device pool\<close>

lemma mgr_id [simp]: "mgr\<lparr>mm_device_pool := mm_device_pool mgr\<rparr> = mgr"
  "mgr\<lparr>mm_pinned_pool := mm_pinned_pool mgr\<rparr> = mgr" "mgr\<lparr>mm_managed_pool := mm_managed_pool mgr\<rparr> = mgr"
  and h_id [simp]: "(h :: mem_heap)\<lparr>h_blocks := h_blocks h\<rparr> = h"
  by simp_all

lemma core_device: "same_core b (b\<lparr>mb_flags := f, mb_device_id := i\<rparr>)"
  by (simp add: same_core_def reg_def)

definition regions :: "mem_heap \<Rightarrow> ptr list \<Rightarrow> region list" where
  "regions h xs = map (region_of (hp_mem (h_blocks h))) xs"

lemma count_allocated_sel [simp]:
  "mm_device_pool (count_allocated mgr n) = mm_device_pool mgr" "mm_pinned_pool (count_allocated mgr n) = mm_pinned_pool mgr"
  "mm_managed_pool (count_allocated mgr n) = mm_managed_pool mgr" "mm_page_table (count_allocated mgr n) = mm_page_table mgr"
  "mm_total_allocated (count_allocated mgr n) = mm_total_allocated mgr + n"
  "mm_alloc_count (count_allocated mgr n) = mm_alloc_count mgr + 1" "mm_free_count (count_allocated mgr n) = mm_free_count mgr"
  by (simp_all add: count_allocated_def Let_def)

lemma length_remove1_in: "p \<in> set us \<Longrightarrow> length us = Suc (length (remove1 p us))"
  by (induction us) auto

lemma region_of_same_core:
  "m p = Some b \<Longrightarrow> same_core b b' \<Longrightarrow> region_of (m(p \<mapsto> b')) = region_of m"
  by (auto simp: region_of_def same_core_def fun_eq_iff)

lemma regions_cong:
  "(\<And>x. x \<in> set xs \<Longrightarrow> hp_mem (h_blocks h') x = hp_mem (h_blocks h) x) \<Longrightarrow> regions h' xs = regions h xs"
  by (simp add: regions_def region_of_def)

text \<open>
  A successful device allocation: the regions of the device pool are those of the abstract allocator,
  the other two pools and the stray headers are unchanged.
\<close>

definition device_alloc_ok ::
  "CBMemoryManager \<Rightarrow> mem_heap \<Rightarrow> lists \<Rightarrow> u64 \<Rightarrow> region \<Rightarrow> region list \<Rightarrow> ptr \<Rightarrow> u64 \<Rightarrow> CBMemoryManager \<Rightarrow> mem_heap \<Rightarrow> lists \<Rightarrow> bool" where
  "device_alloc_ok mgr h L sz a G p q mgr' h' L' \<longleftrightarrow>
     mgr_inv mgr' h' L' \<and> stray h' L' = stray h L \<and> l_ud L' = p # l_ud L \<and> regions h' (l_fd L') = G \<and>
     region_of (hp_mem (h_blocks h')) p = a \<and> mb_gpu_addr (the (hp_mem (h_blocks h') p)) = q \<and>
     regions h' (l_ud L) = regions h (l_ud L) \<and>
     same_pool (mm_device_pool mgr) (mm_device_pool mgr') \<and> h_host h' = h_host h \<and>
     pl_used_size (mm_device_pool mgr') = pl_used_size (mm_device_pool mgr) + align_up sz (pl_page_size (mm_device_pool mgr)) \<and>
     mm_total_allocated mgr' = mm_total_allocated mgr + of_nat (snd a) \<and> unreturned mgr' L' = unreturned mgr L"

lemma malloc_device_cases:
  assumes I: "mgr_inv mgr h L" and sz: "sz \<noteq> 0"
  shows "case alloc_request (mm_device_pool mgr) (hp_oom (h_blocks h) (hp_next (h_blocks h))) sz (regions h (l_fd L)) of
      None \<Rightarrow> cb_malloc_device mgr h True sz = Some (CB_ERR_NO_MEMORY, None, mgr, h)
    | Some (a, G) \<Rightarrow> \<exists>p q mgr' h' L'. cb_malloc_device mgr h True sz = Some (CB_SUCCESS, Some q, mgr', h') \<and>
        device_alloc_ok mgr h L sz a G p q mgr' h' L'"
proof -
  note i = mgr_inv_parts [OF I]
  let ?D = "mm_device_pool mgr" and ?hb = "h_blocks h"
  let ?al = "align_up sz (pl_page_size ?D)"
  note ref = pool_alloc_refines [OF i(1) i(4) sz, folded regions_def]
  show ?thesis
  proof (cases "alloc_request ?D (hp_oom ?hb (hp_next ?hb)) sz (regions h (l_fd L))")
    case None
    then have "pool_alloc ?D ?hb sz = Some (None, ?D, ?hb)" using ref by simp
    with None sz show ?thesis by (simp add: cb_malloc_device_def)
  next
    case (Some aG)
    obtain a G where aG: "aG = (a, G)" by fastforce
    from ref Some aG obtain p pool hb fs where pa: "pool_alloc ?D ?hb sz = Some (Some p, pool, hb)"
      and ra: "region_of (hp_mem hb) p = a" and o: "alloc_outcome ?D ?hb (l_fd L) (l_ud L) ?al G p pool hb fs" by auto
    have P: "pool_inv pool (hp_mem hb) fs (p # l_ud L)" and s: "heap_step ?hb (l_fd L @ l_ud L) hb (fs @ p # l_ud L)"
      and G: "map (region_of (hp_mem hb)) fs = G" and sp: "same_pool ?D pool"
      and us: "pl_used_size pool = pl_used_size ?D + ?al" and ou: "\<forall>x \<in> set (l_ud L). bd (hp_mem hb) x = bd (hp_mem ?hb) x"
      using o [unfolded alloc_outcome_def] by - (elim conjE, assumption)+
    obtain b where b: "hp_mem hb p = Some b" using inv_live [OF P, of p] by auto
    let ?L = "L\<lparr>l_fd := fs, l_ud := p # l_ud L\<rparr>"
    let ?mgr0 = "mgr\<lparr>mm_device_pool := pool\<rparr>"
    let ?b = "b\<lparr>mb_flags := CB_MEM_FLAG_DEVICE, mb_device_id := mm_device_id mgr\<rparr>"
    let ?mgr = "count_allocated ?mgr0 (mb_size b)"
    let ?h1 = "h\<lparr>h_blocks := hb\<rparr>"
    let ?hb2 = "hb\<lparr>hp_mem := (hp_mem hb)(p \<mapsto> ?b)\<rparr>"
    let ?h2 = "h\<lparr>h_blocks := ?hb2\<rparr>"
    have call: "cb_malloc_device mgr h True sz = Some (CB_SUCCESS, Some (mb_gpu_addr b), ?mgr, ?h2)"
      using sz pa b by (simp add: cb_malloc_device_def upd_block_at heap_get_def)
    have iu: "in_use (hp_mem hb) (l_ud L) = in_use (hp_mem ?hb) (l_ud L)"
      by (rule in_use_cong) (rule bd_size, use ou in blast)
    have t: "mm_total_allocated ?mgr = in_use (hp_mem hb) (p # l_ud L) + in_use (hp_mem ?hb) (l_um L)"
      using I b iu by (simp add: mgr_inv_def)
    have I1: "mgr_inv ?mgr ?h1 ?L" "stray ?h1 ?L = stray h L"
      using mgr_device_step [OF I s P, of ?mgr] sp t by simp_all
    have b1: "hp_mem (h_blocks ?h1) p = Some b" using b by simp
    have q1: "p \<in> set (all_blocks ?L)" by (simp add: all_blocks_def)
    note I2 = mgr_data_step [OF I1(1) b1 core_device [where b = b and f = CB_MEM_FLAG_DEVICE and i = "mm_device_id mgr"] q1]
    have R: "region_of (hp_mem (h_blocks ?h2)) = region_of (hp_mem hb)"
      using region_of_same_core [where m = "hp_mem hb", OF b core_device] by simp
    have ru: "regions ?h2 (l_ud L) = regions h (l_ud L)"
      unfolding regions_def R by (rule map_region_cong) (use ou in blast)
    have "of_nat (snd a) = mb_size b" using ra b by (auto simp: region_of_def)
    then have "device_alloc_ok mgr h L sz a G p (mb_gpu_addr b) ?mgr ?h2 ?L"
      unfolding device_alloc_ok_def using I2 I1(2) G ra R ru sp us by (simp add: regions_def unreturned_def live_count_def)
    with call show ?thesis unfolding Some aG by auto
  qed
qed

text \<open>Releasing a device block.\<close>

definition device_free_ok ::
  "CBMemoryManager \<Rightarrow> mem_heap \<Rightarrow> lists \<Rightarrow> ptr \<Rightarrow> CBMemoryManager \<Rightarrow> mem_heap \<Rightarrow> lists \<Rightarrow> bool" where
  "device_free_ok mgr h L p mgr' h' L' \<longleftrightarrow>
     mgr_inv mgr' h' L' \<and> stray h' L' = stray h L \<and> l_ud L' = remove1 p (l_ud L) \<and>
     regions h' (l_fd L') = give_back (region_of (hp_mem (h_blocks h)) p) (regions h (l_fd L)) \<and>
     regions h' (l_ud L') = regions h (l_ud L') \<and>
     same_pool (mm_device_pool mgr) (mm_device_pool mgr') \<and> h_host h' = h_host h \<and>
     pl_used_size (mm_device_pool mgr') = pl_used_size (mm_device_pool mgr) - mb_size (the (hp_mem (h_blocks h) p)) \<and>
     mm_total_allocated mgr' = mm_total_allocated mgr - mb_size (the (hp_mem (h_blocks h) p)) \<and>
     unreturned mgr' L' = unreturned mgr L"

lemma free_device_hit:
  assumes I: "mgr_inv mgr h L" and p: "p \<in> set (l_ud L)"
    and q: "mb_gpu_addr (the (hp_mem (h_blocks h) p)) = q"
  shows "\<exists>mgr' h' L'. cb_free_device mgr h q = Some (CB_SUCCESS, mgr', h') \<and> device_free_ok mgr h L p mgr' h' L'"
proof -
  note i = mgr_inv_parts [OF I]
  let ?D = "mm_device_pool mgr" and ?hb = "h_blocks h"
  note f = find_block_device [OF I p q]
  obtain b where b: "hp_mem ?hb p = Some b" using inv_live [OF i(1), of p] p by auto
  from pool_free_refines [OF i(1,4) p] obtain pool hb fs where pf: "pool_free ?D ?hb (Some p) = Some (pool, hb)"
    and o: "free_outcome ?D ?hb (l_fd L) (l_ud L) p pool hb fs" by blast
  have P: "pool_inv pool (hp_mem hb) fs (remove1 p (l_ud L))" and s: "heap_step ?hb (l_fd L @ l_ud L) hb (fs @ remove1 p (l_ud L))"
    and G: "map (region_of (hp_mem hb)) fs = give_back (region_of (hp_mem ?hb) p) (map (region_of (hp_mem ?hb)) (l_fd L))"
    and sp: "same_pool ?D pool" and us: "pl_used_size pool = pl_used_size ?D - mb_size (the (hp_mem ?hb p))"
    and ou: "\<forall>x \<in> set (remove1 p (l_ud L)). bd (hp_mem hb) x = bd (hp_mem ?hb) x"
    using o [unfolded free_outcome_def] by - (elim conjE, assumption)+
  let ?L = "L\<lparr>l_fd := fs, l_ud := remove1 p (l_ud L)\<rparr>"
  let ?mgr = "mgr\<lparr>mm_total_allocated := mm_total_allocated mgr - mb_size b, mm_free_count := mm_free_count mgr + 1, mm_device_pool := pool\<rparr>"
  let ?h = "h\<lparr>h_blocks := hb\<rparr>"
  have call: "cb_free_device mgr h q = Some (CB_SUCCESS, ?mgr, ?h)"
    using f b pf by (simp add: cb_free_device_def heap_get_def)
  have "in_use (hp_mem hb) (remove1 p (l_ud L)) = in_use (hp_mem ?hb) (remove1 p (l_ud L))"
    by (rule in_use_cong) (rule bd_size, use ou in blast)
  then have t: "mm_total_allocated ?mgr = in_use (hp_mem hb) (remove1 p (l_ud L)) + in_use (hp_mem ?hb) (l_um L)"
    using I b in_use_remove1 [OF p, of "hp_mem ?hb"] by (simp add: mgr_inv_def)
  have I1: "mgr_inv ?mgr ?h ?L" "stray ?h ?L = stray h L"
    using mgr_device_step [OF I s P, of ?mgr] sp t by simp_all
  have "regions ?h (remove1 p (l_ud L)) = regions h (remove1 p (l_ud L))"
    unfolding regions_def by (rule map_region_cong) (use ou in simp)
  then have "device_free_ok mgr h L p ?mgr ?h ?L"
    unfolding device_free_ok_def using I1 G sp us b length_remove1_in [OF p] by (simp add: regions_def unreturned_def live_count_def)
  with call show ?thesis by blast
qed

section \<open>The other entry points keep the invariant\<close>

lemma free_device_miss:
  assumes "cb_find_block mgr (h_blocks h) q = Some None"
  shows "cb_free_device mgr h q = Some (if q = 0 then CB_ERR_INVALID_PARAM else CB_ERR_NOT_FOUND, mgr, h)"
  using assms by (simp add: cb_free_device_def)

lemma mgr_host_irrelevant:
  assumes "mgr_inv mgr h L"
  shows "mgr_inv mgr (h\<lparr>h_host := hm\<rparr>) L" and "stray (h\<lparr>h_host := hm\<rparr>) L = stray h L"
  using assms by (simp_all add: mgr_inv_def stray_def)

lemma core_pinned:
  "mb_is_allocated b \<Longrightarrow>
     same_core b (b\<lparr>mb_is_allocated := True, mb_host_addr := a, mb_flags := f, mb_device_id := i\<rparr>)"
  by (simp add: same_core_def reg_def)

lemma core_managed:
  "same_core b (b\<lparr>mb_host_addr := a, mb_flags := f, mb_is_managed := True, mb_device_id := i, mb_preferred_device := j\<rparr>)"
  by (simp add: same_core_def reg_def)

lemma core_preferred: "same_core b (mb_preferred_device_update f b)"
  by (simp add: same_core_def reg_def)

text \<open>Allocation and release in the pinned and in the managed pool.\<close>

lemma pinned_alloc:
  assumes I: "mgr_inv mgr h L" and sz: "sz \<noteq> 0"
    and a: "pool_alloc (mm_pinned_pool mgr) (h_blocks h) sz = Some (Some p, pool, hb)"
  shows "\<exists>L'. mgr_inv (mgr\<lparr>mm_pinned_pool := pool\<rparr>) (h\<lparr>h_blocks := hb\<rparr>) L' \<and>
    stray (h\<lparr>h_blocks := hb\<rparr>) L' = stray h L \<and> p \<in> set (all_blocks L') \<and> taken (hp_mem hb) p \<and> live_count L' = Suc (live_count L)"
proof -
  note i = mgr_inv_parts [OF I]
  note ref = pool_alloc_refines [OF i(2) i(4) sz]
  obtain aG where aG: "alloc_request (mm_pinned_pool mgr) (hp_oom (h_blocks h) (hp_next (h_blocks h))) sz
      (map (region_of (hp_mem (h_blocks h))) (l_fp L)) = Some aG"
    using ref a by (cases "alloc_request (mm_pinned_pool mgr) (hp_oom (h_blocks h) (hp_next (h_blocks h))) sz
      (map (region_of (hp_mem (h_blocks h))) (l_fp L))") auto
  with ref a obtain fs where o: "alloc_outcome (mm_pinned_pool mgr) (h_blocks h) (l_fp L) (l_up L)
      (align_up sz (pl_page_size (mm_pinned_pool mgr))) (snd aG) p pool hb fs"
    by (cases aG) auto
  then have P: "pool_inv pool (hp_mem hb) fs (p # l_up L)"
    and s: "heap_step (h_blocks h) (l_fp L @ l_up L) hb (fs @ p # l_up L)"
    by (simp_all add: alloc_outcome_def)
  have "taken (hp_mem hb) p" using P by (simp add: pool_inv_def)
  then show ?thesis using mgr_pinned_step [OF I s P, of "mgr\<lparr>mm_pinned_pool := pool\<rparr>"]
    by (intro exI [of _ "L\<lparr>l_fp := fs, l_up := p # l_up L\<rparr>"]) (simp add: all_blocks_def live_count_def)
qed

lemma pinned_free:
  assumes I: "mgr_inv mgr h L" and p: "p \<in> set (l_up L)"
    and f: "pool_free (mm_pinned_pool mgr) (h_blocks h) (Some p) = Some (pool, hb)"
  shows "\<exists>L'. mgr_inv (mgr\<lparr>mm_pinned_pool := pool\<rparr>) (h\<lparr>h_blocks := hb\<rparr>) L' \<and>
    stray (h\<lparr>h_blocks := hb\<rparr>) L' = stray h L \<and> live_count L = Suc (live_count L')"
proof -
  note i = mgr_inv_parts [OF I]
  from pool_free_refines [OF i(2,4) p] f obtain fs where
    "free_outcome (mm_pinned_pool mgr) (h_blocks h) (l_fp L) (l_up L) p pool hb fs" by auto
  then have P: "pool_inv pool (hp_mem hb) fs (remove1 p (l_up L))"
    and s: "heap_step (h_blocks h) (l_fp L @ l_up L) hb (fs @ remove1 p (l_up L))" by (simp_all add: free_outcome_def)
  show ?thesis using mgr_pinned_step [OF I s P, of "mgr\<lparr>mm_pinned_pool := pool\<rparr>"]
    by (intro exI [of _ "L\<lparr>l_fp := fs, l_up := remove1 p (l_up L)\<rparr>"]) (simp add: live_count_def length_remove1_in [OF p])
qed

lemma managed_alloc:
  assumes I: "mgr_inv mgr h L" and sz: "sz \<noteq> 0"
    and a: "pool_alloc (mm_managed_pool mgr) (h_blocks h) sz = Some (Some p, pool, hb)"
  shows "\<exists>L'. mgr_inv (mgr\<lparr>mm_managed_pool := pool,
      mm_total_allocated := mm_total_allocated mgr + mb_size (the (hp_mem hb p))\<rparr>) (h\<lparr>h_blocks := hb\<rparr>) L' \<and>
    stray (h\<lparr>h_blocks := hb\<rparr>) L' = stray h L \<and> l_um L' = p # l_um L \<and>
    same_pool (mm_managed_pool mgr) pool \<and>
    unat (align_up sz (pl_page_size (mm_managed_pool mgr))) \<le> snd (region_of (hp_mem hb) p) \<and>
    unat sz \<le> snd (region_of (hp_mem hb) p) \<and> live_count L' = Suc (live_count L)"
proof -
  note i = mgr_inv_parts [OF I]
  let ?M = "mm_managed_pool mgr" and ?hb = "h_blocks h"
  let ?F = "map (region_of (hp_mem ?hb)) (l_fm L)"
  let ?rq = "alloc_request ?M (hp_oom ?hb (hp_next ?hb)) sz ?F"
  note ref = pool_alloc_refines [OF i(3) i(4) sz]
  obtain c G where aG: "?rq = Some (c, G)" using ref a by (cases ?rq) auto
  with ref a obtain fs where rc: "region_of (hp_mem hb) p = c"
    and o: "alloc_outcome ?M ?hb (l_fm L) (l_um L) (align_up sz (pl_page_size ?M)) G p pool hb fs" by auto
  have P: "pool_inv pool (hp_mem hb) fs (p # l_um L)" and s: "heap_step ?hb (l_fm L @ l_um L) hb (fs @ p # l_um L)"
    and sp: "same_pool ?M pool" and ou: "\<forall>x \<in> set (l_um L). bd (hp_mem hb) x = bd (hp_mem ?hb) x"
    using o [unfolded alloc_outcome_def] by - (elim conjE, assumption)+
  have geo: "pool_geo ?M" and can: "canonical ?F" using i(3) by (simp_all add: pool_inv_def)
  note ar = align_up_request(1,2) [OF geo, of sz] align_up_request(3) [OF geo]
  have le: "unat sz + unat (pl_page_size ?M) \<le> 2 ^ 64"
    and fit: "fit_alloc (unat (pl_page_size ?M)) (hp_oom ?hb (hp_next ?hb)) (rounded (unat (pl_page_size ?M)) (unat sz)) ?F = Some (c, G)"
    using aG by (auto simp: alloc_request_def Let_def split: if_splits)
  have n: "0 < rounded (unat (pl_page_size ?M)) (unat sz)"
    using sz rounded_bounds(1) [OF ar(3), of "unat sz"] by (metis unat_gt_0 less_le_trans)
  have al: "unat (align_up sz (pl_page_size ?M)) \<le> snd (region_of (hp_mem hb) p)"
    using fit_alloc_ok(2) [OF can fit n] ar(2) [OF le] rc by simp
  moreover have "unat sz \<le> unat (align_up sz (pl_page_size ?M))"
    using ar(2) [OF le] rounded_bounds(1) [OF ar(3), of "unat sz"] by simp
  ultimately have us: "unat sz \<le> snd (region_of (hp_mem hb) p)" by simp
  have iu: "in_use (hp_mem hb) (l_um L) = in_use (hp_mem ?hb) (l_um L)"
    by (rule in_use_cong) (rule bd_size, use ou in blast)
  let ?mgr = "mgr\<lparr>mm_managed_pool := pool, mm_total_allocated := mm_total_allocated mgr + mb_size (the (hp_mem hb p))\<rparr>"
  have "mm_total_allocated ?mgr = in_use (hp_mem ?hb) (l_ud L) + in_use (hp_mem hb) (p # l_um L)"
    using I iu by (simp add: mgr_inv_def)
  then show ?thesis using mgr_managed_step [OF I s P, of ?mgr] sp al us
    by (intro exI [of _ "L\<lparr>l_fm := fs, l_um := p # l_um L\<rparr>"]) (simp add: live_count_def)
qed

lemma managed_free:
  assumes I: "mgr_inv mgr h L" and p: "p \<in> set (l_um L)"
    and f: "pool_free (mm_managed_pool mgr) (h_blocks h) (Some p) = Some (pool, hb)"
  shows "\<exists>L'. mgr_inv (mgr\<lparr>mm_managed_pool := pool,
      mm_total_allocated := mm_total_allocated mgr - mb_size (the (hp_mem (h_blocks h) p))\<rparr>) (h\<lparr>h_blocks := hb\<rparr>) L' \<and>
    stray (h\<lparr>h_blocks := hb\<rparr>) L' = stray h L \<and> live_count L = Suc (live_count L')"
proof -
  note i = mgr_inv_parts [OF I]
  let ?hb = "h_blocks h"
  from pool_free_refines [OF i(3,4) p] f obtain fs where
    o: "free_outcome (mm_managed_pool mgr) ?hb (l_fm L) (l_um L) p pool hb fs" by auto
  have P: "pool_inv pool (hp_mem hb) fs (remove1 p (l_um L))"
    and s: "heap_step ?hb (l_fm L @ l_um L) hb (fs @ remove1 p (l_um L))"
    and ou: "\<forall>x \<in> set (remove1 p (l_um L)). bd (hp_mem hb) x = bd (hp_mem ?hb) x"
    using o [unfolded free_outcome_def] by - (elim conjE, assumption)+
  have iu: "in_use (hp_mem hb) (remove1 p (l_um L)) = in_use (hp_mem ?hb) (remove1 p (l_um L))"
    by (rule in_use_cong) (rule bd_size, use ou in blast)
  let ?mgr = "mgr\<lparr>mm_managed_pool := pool, mm_total_allocated := mm_total_allocated mgr - mb_size (the (hp_mem ?hb p))\<rparr>"
  have "mm_total_allocated ?mgr = in_use (hp_mem ?hb) (l_ud L) + in_use (hp_mem hb) (remove1 p (l_um L))"
    using I iu in_use_remove1 [OF p, of "hp_mem ?hb"] by (simp add: mgr_inv_def)
  then show ?thesis using mgr_managed_step [OF I s P, of ?mgr]
    by (intro exI [of _ "L\<lparr>l_fm := fs, l_um := remove1 p (l_um L)\<rparr>"]) (simp add: live_count_def length_remove1_in [OF p])
qed

lemma taken_allocated: "taken m p \<Longrightarrow> m p = Some b \<Longrightarrow> mb_is_allocated b"
  by (simp add: taken_def)

text \<open>A header outside every list: the fallback of \<open>cb_malloc_host\<close>.\<close>

lemma stray_header:
  assumes I: "mgr_inv mgr h L" and c: "create_block (h_blocks h) a sz = (Some p, hb)"
  shows "mgr_inv mgr (h\<lparr>h_blocks := hb\<lparr>hp_mem := (hp_mem hb)(p \<mapsto> b)\<rparr>\<rparr>) L"
    and "stray (h\<lparr>h_blocks := hb\<lparr>hp_mem := (hp_mem hb)(p \<mapsto> b)\<rparr>\<rparr>) L = (stray h L)(p \<mapsto> b)"
    and "p \<notin> dom (stray h L)" and "hp_mem hb p = Some (block_zero\<lparr>mb_gpu_addr := a, mb_size := sz, mb_is_allocated := False\<rparr>)"
proof -
  note i = mgr_inv_parts [OF I]
  let ?m = "hp_mem (h_blocks h)"
  have p: "p = hp_next (h_blocks h)" and hb: "hp_mem hb = ?m(p \<mapsto> block_zero\<lparr>mb_gpu_addr := a, mb_size := sz, mb_is_allocated := False\<rparr>)"
    "hp_next hb = Suc p"
    using c by (simp_all add: create_block_def heap_simps)
  show "hp_mem hb p = Some (block_zero\<lparr>mb_gpu_addr := a, mb_size := sz, mb_is_allocated := False\<rparr>)" using hb by simp
  have pn: "?m p = None" unfolding p by (rule heap_wf_fresh [OF i(4)])
  have live: "x \<noteq> p" if "x \<in> set (all_blocks L)" for x
    using that pn inv_live [OF i(1), of x] inv_live [OF i(2), of x] inv_live [OF i(3), of x]
    by (auto simp: all_blocks_def)
  have e: "((hp_mem hb)(p \<mapsto> b)) x = ?m x" if "x \<noteq> p" for x using hb that by simp
  have sub: "set (l_fd L) \<union> set (l_ud L) \<subseteq> set (all_blocks L)" "set (l_fp L) \<union> set (l_up L) \<subseteq> set (all_blocks L)"
    "set (l_fm L) \<union> set (l_um L) \<subseteq> set (all_blocks L)" by (auto simp: all_blocks_def)
  note pc = pool_inv_cong [of _ ?m _ _ "(hp_mem hb)(p \<mapsto> b)"]
  have P: "pool_inv (mm_device_pool mgr) ((hp_mem hb)(p \<mapsto> b)) (l_fd L) (l_ud L)"
    "pool_inv (mm_pinned_pool mgr) ((hp_mem hb)(p \<mapsto> b)) (l_fp L) (l_up L)"
    "pool_inv (mm_managed_pool mgr) ((hp_mem hb)(p \<mapsto> b)) (l_fm L) (l_um L)"
    by (rule pc [OF i(1)], rule e, rule live, use sub in blast, rule pc [OF i(2)], rule e, rule live, use sub in blast,
        rule pc [OF i(3)], rule e, rule live, use sub in blast)
  have wf: "heap_wf (hb\<lparr>hp_mem := (hp_mem hb)(p \<mapsto> b)\<rparr>)"
    using i(4) hb p by (auto simp: heap_wf_def less_Suc_eq)
  have u: "in_use ((hp_mem hb)(p \<mapsto> b)) (l_ud L @ l_um L) = in_use ?m (l_ud L @ l_um L)"
    by (rule in_use_cong, subst e, rule live) (use sub in auto)
  show "mgr_inv mgr (h\<lparr>h_blocks := hb\<lparr>hp_mem := (hp_mem hb)(p \<mapsto> b)\<rparr>\<rparr>) L"
    using I P wf u by (simp add: mgr_inv_def)
  show "stray (h\<lparr>h_blocks := hb\<lparr>hp_mem := (hp_mem hb)(p \<mapsto> b)\<rparr>\<rparr>) L = (stray h L)(p \<mapsto> b)"
    using live hb by (auto simp: stray_def rest_def restrict_map_def fun_eq_iff)
  show "p \<notin> dom (stray h L)" using pn by (auto simp: stray_def rest_def restrict_map_def split: if_splits)
qed

lemma malloc_host_pool:
  assumes I: "mgr_inv mgr h L" and c: "cb_malloc_host mgr h b sz flags = Some (CB_SUCCESS, out, mgr', h')"
    and a: "pool_alloc (mm_pinned_pool mgr) (h_blocks h) sz = Some (Some p, pool, hb)"
  shows "\<exists>L'. mgr_inv mgr' h' L' \<and> stray h' L' = stray h L \<and> unreturned mgr' L' = unreturned mgr L"
proof -
  have sz: "b" "sz \<noteq> 0" using c by (auto simp: cb_malloc_host_def split: if_splits)
  obtain hp hm where ha: "host_alloc (h_host h) sz = (hp, hm)" by fastforce
  have hp: "hp \<noteq> 0" using c sz ha by (auto simp: cb_malloc_host_def split: if_splits)
  from pinned_alloc [OF I sz(2) a] obtain L' where I': "mgr_inv (mgr\<lparr>mm_pinned_pool := pool\<rparr>) (h\<lparr>h_blocks := hb\<rparr>) L'"
    "stray (h\<lparr>h_blocks := hb\<rparr>) L' = stray h L" and pin: "p \<in> set (all_blocks L')" and tk: "taken (hp_mem hb) p"
    and n: "live_count L' = Suc (live_count L)" by blast
  have "\<exists>bb. hp_mem hb p = Some bb"
    using pin inv_live [OF mgr_inv_parts(1) [OF I'(1)], of p] inv_live [OF mgr_inv_parts(2) [OF I'(1)], of p]
      inv_live [OF mgr_inv_parts(3) [OF I'(1)], of p] by (auto simp: all_blocks_def)
  then obtain bb where bb: "hp_mem hb p = Some bb" by blast
  let ?b = "bb\<lparr>mb_is_allocated := True, mb_host_addr := hp, mb_flags := CB_MEM_FLAG_HOST OR CB_MEM_FLAG_PINNED OR flags,
    mb_device_id := mm_device_id mgr\<rparr>"
  have e: "mgr' = mgr\<lparr>mm_pinned_pool := pool, mm_alloc_count := mm_alloc_count mgr + 1\<rparr>"
    "h' = h\<lparr>h_blocks := hb\<lparr>hp_mem := (hp_mem hb)(p \<mapsto> ?b)\<rparr>, h_host := hm\<rparr>"
    using c sz ha hp a bb by (simp_all add: cb_malloc_host_def upd_block_at)
  have core: "same_core bb ?b" by (rule core_pinned [OF taken_allocated [OF tk bb]])
  have b1: "hp_mem (h_blocks (h\<lparr>h_blocks := hb\<rparr>)) p = Some bb" using bb by simp
  note I2 = mgr_data_step [OF I'(1) b1 core pin]
  show ?thesis
    using mgr_fields [OF I2(1), of mgr' h'] I2(2) I'(2) n unfolding e by (intro exI [of _ L']) (simp add: unreturned_def)
qed

lemma malloc_host_fallback:
  assumes I: "mgr_inv mgr h L" and c: "cb_malloc_host mgr h b sz flags = Some (CB_SUCCESS, out, mgr', h')"
    and a: "pool_alloc (mm_pinned_pool mgr) (h_blocks h) sz = Some (None, pool, hb)"
  shows "\<exists>p v. mgr_inv mgr' h' L \<and> stray h' L = (stray h L)(p \<mapsto> v) \<and> p \<notin> dom (stray h L) \<and> unreturned mgr' L = unreturned mgr L + 1"
proof -
  have sz: "b" "sz \<noteq> 0" using c by (auto simp: cb_malloc_host_def split: if_splits)
  obtain hp hm where ha: "host_alloc (h_host h) sz = (hp, hm)" by fastforce
  have hp: "hp \<noteq> 0" using c sz ha by (auto simp: cb_malloc_host_def split: if_splits)
  have same: "pool = mm_pinned_pool mgr" "hb = h_blocks h"
  proof -
    note i = mgr_inv_parts [OF I]
    show "pool = mm_pinned_pool mgr" "hb = h_blocks h"
      using pool_alloc_refines [OF i(2) i(4) sz(2)] a by (auto split: option.splits)
  qed
  obtain q hb2 where cb: "create_block (h_blocks h) hp sz = (q, hb2)" by fastforce
  show ?thesis
  proof (cases q)
    case None
    then show ?thesis using c sz ha hp a same cb by (auto simp: cb_malloc_host_def bind_eq_Some_conv)
  next
    case (Some p)
    note s = stray_header [OF I cb [unfolded Some]]
    let ?b = "block_zero\<lparr>mb_gpu_addr := hp, mb_size := sz, mb_is_allocated := False,
      mb_is_allocated := True, mb_host_addr := hp, mb_flags := CB_MEM_FLAG_HOST OR CB_MEM_FLAG_PINNED OR flags,
      mb_device_id := mm_device_id mgr\<rparr>"
    have e: "mgr' = mgr\<lparr>mm_alloc_count := mm_alloc_count mgr + 1\<rparr>"
      "h' = h\<lparr>h_blocks := hb2\<lparr>hp_mem := (hp_mem hb2)(p \<mapsto> ?b)\<rparr>, h_host := hm\<rparr>"
      using c sz ha hp a same cb Some s(4) by (simp_all add: cb_malloc_host_def upd_block_at)
    show ?thesis
      using mgr_fields [OF s(1) [of ?b], of mgr' h'] s(2) [of ?b] s(3) unfolding e by (intro exI [of _ p] exI [of _ ?b]) (simp add: unreturned_def)
  qed
qed

lemma bind_Some_iff: "Option.bind f g = Some y \<longleftrightarrow> (\<exists>x. f = Some x \<and> g x = Some y)"
  by (cases f) auto

lemma malloc_managed_keeps:
  assumes I: "mgr_inv mgr h L" and c: "cb_malloc_managed mgr h b sz flags = Some (ret, out, mgr', h')"
  shows "\<exists>L'. mgr_inv mgr' h' L' \<and> stray h' L' = stray h L \<and> unreturned mgr' L' = unreturned mgr L"
proof (cases "\<not> b \<or> sz = 0 \<or> \<not> mm_unified_memory_enabled mgr")
  case True
  then have "mgr' = mgr" "h' = h" using c by (auto simp: cb_malloc_managed_def split: if_splits)
  with I show ?thesis by auto
next
  case False
  then have sz: "b" "sz \<noteq> 0" "mm_unified_memory_enabled mgr" by simp_all
  note i = mgr_inv_parts [OF I]
  obtain r pool hb where a: "pool_alloc (mm_managed_pool mgr) (h_blocks h) sz = Some (r, pool, hb)"
    using c sz by (auto simp: cb_malloc_managed_def bind_Some_iff)
  show ?thesis
  proof (cases r)
    case None
    then have "pool = mm_managed_pool mgr" "hb = h_blocks h"
      using pool_alloc_refines [OF i(3) i(4) sz(2)] a by (auto split: option.splits)
    then have "mgr' = mgr" "h' = h" using c sz a None by (simp_all add: cb_malloc_managed_def)
    with I show ?thesis by auto
  next
    case (Some p)
    let ?mgr1 = "mgr\<lparr>mm_managed_pool := pool, mm_total_allocated := mm_total_allocated mgr + mb_size (the (hp_mem hb p))\<rparr>"
    from managed_alloc [OF I sz(2) a [unfolded Some]] obtain L1 where I1: "mgr_inv ?mgr1 (h\<lparr>h_blocks := hb\<rparr>) L1"
      "stray (h\<lparr>h_blocks := hb\<rparr>) L1 = stray h L" and l: "l_um L1 = p # l_um L" and n: "live_count L1 = Suc (live_count L)" by blast
    have pu: "p \<in> set (l_um L1)" using l by simp
    obtain bb where bb: "hp_mem hb p = Some bb" using inv_live [OF mgr_inv_parts(3) [OF I1(1)], of p] pu by auto
    obtain hp hm where ha: "host_alloc (h_host h) sz = (hp, hm)" by fastforce
    show ?thesis
    proof (cases "hp = 0")
      case True
      obtain pool2 hb2 where f: "pool_free pool hb (Some p) = Some (pool2, hb2)"
        using c sz a Some ha True by (auto simp: cb_malloc_managed_def bind_Some_iff)
      then have e: "mgr' = mgr\<lparr>mm_managed_pool := pool2\<rparr>" "h' = h\<lparr>h_blocks := hb2, h_host := hm\<rparr>"
        using c sz a Some ha True by (auto simp: cb_malloc_managed_def)
      from managed_free [OF I1(1) pu, of pool2 hb2] f obtain L2 where I2: "mgr_inv (?mgr1\<lparr>mm_managed_pool := pool2,
          mm_total_allocated := mm_total_allocated ?mgr1 - mb_size (the (hp_mem hb p))\<rparr>) (h\<lparr>h_blocks := hb2\<rparr>) L2"
        "stray (h\<lparr>h_blocks := hb2\<rparr>) L2 = stray h L" "live_count L1 = Suc (live_count L2)" using I1(2) by auto
      show ?thesis using mgr_fields [OF I2(1), of mgr' h'] I2(2,3) n unfolding e by (intro exI [of _ L2]) (simp add: unreturned_def)
    next
      case False
      let ?b = "bb\<lparr>mb_host_addr := hp, mb_flags := CB_MEM_FLAG_MANAGED OR flags, mb_is_managed := True,
        mb_device_id := mm_device_id mgr, mb_preferred_device := mm_device_id mgr\<rparr>"
      have e: "mgr' = count_allocated (mgr\<lparr>mm_managed_pool := pool\<rparr>) (mb_size bb)"
        "h' = h\<lparr>h_blocks := hb\<lparr>hp_mem := (hp_mem hb)(p \<mapsto> ?b)\<rparr>, h_host := hm\<rparr>"
        using c sz a Some ha False bb by (simp_all add: cb_malloc_managed_def upd_block_at heap_get_def)
      have b1: "hp_mem (h_blocks (h\<lparr>h_blocks := hb\<rparr>)) p = Some bb" using bb by simp
      have pin: "p \<in> set (all_blocks L1)" using pu by (simp add: all_blocks_def)
      note core = core_managed [where b = bb and a = hp and f = "CB_MEM_FLAG_MANAGED OR flags" and i = "mm_device_id mgr" and j = "mm_device_id mgr"]
      note I2 = mgr_data_step [OF I1(1) b1 core pin]
      show ?thesis using mgr_fields [OF I2(1), of mgr' h'] I2(2) I1(2) bb n unfolding e
        by (intro exI [of _ L1]) (simp add: unreturned_def)
    qed
  qed
qed

lemma free_host_keeps:
  assumes I: "mgr_inv mgr h L" and c: "cb_free_host mgr h q = Some (ret, mgr', h')"
    and own: "cb_find_block mgr (h_blocks h) q = Some None \<or> cb_find_block mgr (h_blocks h) q = Some (Some p) \<and> p \<in> set (l_up L)"
  shows "\<exists>L'. mgr_inv mgr' h' L' \<and> stray h' L' = stray h L \<and> unreturned mgr' L' = unreturned mgr L"
proof (cases "q = 0")
  case True
  with c I show ?thesis by (auto simp: cb_free_host_def)
next
  case False
  with c own obtain hm where hm: "host_free (h_host h) q = Some hm"
    by (auto simp: cb_free_host_def bind_Some_iff)
  from own show ?thesis
  proof (elim disjE conjE)
    assume "cb_find_block mgr (h_blocks h) q = Some None"
    then have "mgr' = mgr" "h' = h\<lparr>h_host := hm\<rparr>" using c False hm by (simp_all add: cb_free_host_def)
    then show ?thesis using mgr_host_irrelevant [OF I] by blast
  next
    assume f: "cb_find_block mgr (h_blocks h) q = Some (Some p)" and p: "p \<in> set (l_up L)"
    obtain pool hb where pf: "pool_free (mm_pinned_pool mgr) (h_blocks h) (Some p) = Some (pool, hb)"
      using c False hm f by (auto simp: cb_free_host_def bind_Some_iff)
    then have e: "mgr' = mgr\<lparr>mm_free_count := mm_free_count mgr + 1, mm_pinned_pool := pool\<rparr>"
      "h' = h\<lparr>h_host := hm, h_blocks := hb\<rparr>" using c False hm f by (simp_all add: cb_free_host_def)
    from pinned_free [OF I p pf] obtain L' where I': "mgr_inv (mgr\<lparr>mm_pinned_pool := pool\<rparr>) (h\<lparr>h_blocks := hb\<rparr>) L'"
      "stray (h\<lparr>h_blocks := hb\<rparr>) L' = stray h L" "live_count L = Suc (live_count L')" by blast
    show ?thesis using mgr_fields [OF I'(1), of mgr' h'] I'(2,3) unfolding e by (intro exI [of _ L']) (simp add: unreturned_def)
  qed
qed

lemma free_managed_keeps:
  assumes I: "mgr_inv mgr h L" and c: "cb_free_managed mgr h q = Some (ret, mgr', h')"
    and own: "cb_find_block mgr (h_blocks h) q = Some None \<or> cb_find_block mgr (h_blocks h) q = Some (Some p) \<and> p \<in> set (l_um L)"
  shows "\<exists>L'. mgr_inv mgr' h' L' \<and> stray h' L' = stray h L \<and> unreturned mgr' L' = unreturned mgr L"
proof (cases "q = 0 \<or> cb_find_block mgr (h_blocks h) q = Some None")
  case True
  then have "mgr' = mgr" "h' = h" using c by (auto simp: cb_free_managed_def split: if_splits)
  with I show ?thesis by auto
next
  case False
  then have q: "q \<noteq> 0" and f: "cb_find_block mgr (h_blocks h) q = Some (Some p)" and p: "p \<in> set (l_um L)" using own by auto
  obtain b where b: "hp_mem (h_blocks h) p = Some b" using inv_live [OF mgr_inv_parts(3) [OF I], of p] p by auto
  obtain hm where hm: "(if mb_host_addr b \<noteq> 0 then
      do { hm \<leftarrow> host_wipe (h_host h) (mb_host_addr b) (mb_size b); host_free hm (mb_host_addr b) }
      else Some (h_host h)) = Some hm"
    using c q f b by (auto simp: cb_free_managed_def heap_get_def bind_Some_iff)
  obtain pool hb where pf: "pool_free (mm_managed_pool mgr) (h_blocks h) (Some p) = Some (pool, hb)"
    using pool_free_refines [OF mgr_inv_parts(3,4) [OF I] p] by blast
  have e: "mgr' = mgr\<lparr>mm_total_allocated := mm_total_allocated mgr - mb_size b, mm_free_count := mm_free_count mgr + 1, mm_managed_pool := pool\<rparr>"
    "h' = h\<lparr>h_blocks := hb, h_host := hm\<rparr>"
    using c q f b hm pf by (simp_all add: cb_free_managed_def heap_get_def)
  from managed_free [OF I p pf] obtain L' where I': "mgr_inv (mgr\<lparr>mm_managed_pool := pool,
      mm_total_allocated := mm_total_allocated mgr - mb_size (the (hp_mem (h_blocks h) p))\<rparr>) (h\<lparr>h_blocks := hb\<rparr>) L'"
    "stray (h\<lparr>h_blocks := hb\<rparr>) L' = stray h L" "live_count L = Suc (live_count L')" by blast
  show ?thesis using mgr_fields [OF I'(1), of mgr' h'] I'(2,3) b unfolding e by (intro exI [of _ L']) (simp add: unreturned_def)
qed

lemma mem_advise_keeps:
  assumes I: "mgr_inv mgr h L" and c: "cb_mem_advise mgr h q adv dv = Some (ret, h')"
  shows "mgr_inv mgr h' L" and "stray h' L = stray h L"
proof -
  have "mgr_inv mgr h' L \<and> stray h' L = stray h L"
  proof (cases "h' = h")
    case True
    then show ?thesis using I by simp
  next
    case False
    obtain r where r: "cb_find_block mgr (h_blocks h) q = Some r"
      and rp: "\<forall>p. r = Some p \<longrightarrow> p \<in> set (l_ud L) \<union> set (l_up L) \<union> set (l_um L)" using find_block_total [OF I] by blast
    with c False obtain p where p: "r = Some p" by (cases r) (auto simp: cb_mem_advise_def split: if_splits)
    then have pin: "p \<in> set (all_blocks L)" using rp by (auto simp: all_blocks_def)
    then obtain b where b: "hp_mem (h_blocks h) p = Some b"
      using inv_live [OF mgr_inv_parts(1) [OF I], of p] inv_live [OF mgr_inv_parts(2) [OF I], of p]
        inv_live [OF mgr_inv_parts(3) [OF I], of p] by (auto simp: all_blocks_def)
    with c False r p obtain v where "h' = h\<lparr>h_blocks := h_blocks h\<lparr>hp_mem := (hp_mem (h_blocks h))(p \<mapsto> mb_preferred_device_update (\<lambda>_. v) b)\<rparr>\<rparr>"
      by (auto simp: cb_mem_advise_def heap_get_def upd_block_at split: if_splits CBMemoryAdvise.splits)
    then show ?thesis using mgr_data_step [OF I b core_preferred pin] by simp
  qed
  then show "mgr_inv mgr h' L" "stray h' L = stray h L" by simp_all
qed

section \<open>Shutdown and initialisation\<close>

lemma free_blocks_list:
  assumes "dll (hp_mem h) pr p xs None" and "distinct xs"
  shows "free_blocks h p = Some (h\<lparr>hp_mem := (hp_mem h) |` (- set xs)\<rparr>)"
  using assms
proof (induction xs arbitrary: h pr p)
  case Nil
  then show ?case by (simp add: free_blocks.simps)
next
  case (Cons x xs)
  then obtain b where b: "p = Some x" "hp_mem h x = Some b" and d: "dll (hp_mem h) (Some x) (mb_next b) xs None" by auto
  let ?h = "h\<lparr>hp_mem := (hp_mem h)(x := None)\<rparr>"
  have "dll (hp_mem ?h) (Some x) (mb_next b) xs None" using d Cons.prems(2) by (subst dll_frame [where m = "hp_mem h"]) auto
  moreover have "distinct xs" using Cons.prems(2) by simp
  ultimately have ih: "free_blocks ?h (mb_next b) = Some (?h\<lparr>hp_mem := (hp_mem ?h) |` (- set xs)\<rparr>)" by (rule Cons.IH)
  have r: "(hp_mem ?h) |` (- set xs) = (hp_mem h) |` (- set (x # xs))" by (rule ext) (simp add: restrict_map_def)
  have "free_blocks h p = free_blocks ?h (mb_next b)"
    using b by (simp add: free_blocks.simps [of h] heap_get_def heap_free_def)
  then show ?case unfolding ih r by simp
qed

lemma pool_shutdown_frees:
  assumes "pool_lists pool (hp_mem h) fs us"
  shows "pool_shutdown pool h = Some (pool_zero, h\<lparr>hp_mem := rest (hp_mem h) (fs @ us)\<rparr>)"
proof -
  from assms have f: "dll (hp_mem h) None (pl_free_list pool) fs None" and u: "dll (hp_mem h) None (pl_used_list pool) us None"
    and d: "distinct (fs @ us)" by (simp_all add: pool_lists_def)
  let ?h = "h\<lparr>hp_mem := (hp_mem h) |` (- set fs)\<rparr>"
  have "dll (hp_mem ?h) None (pl_used_list pool) us None"
    using u d by (subst dll_frame [where m = "hp_mem h"]) (auto simp: restrict_map_def)
  from free_blocks_list [OF this] d
  have "free_blocks ?h (pl_used_list pool) = Some (h\<lparr>hp_mem := (hp_mem h) |` (- set fs) |` (- set us)\<rparr>)" by simp
  moreover have "(hp_mem h) |` (- set fs) |` (- set us) = rest (hp_mem h) (fs @ us)"
    by (auto simp: rest_def restrict_map_def fun_eq_iff)
  ultimately show ?thesis using free_blocks_list [OF f] d by (simp add: pool_shutdown_def)
qed

lemma rest_lists:
  assumes "pool_inv pool m fs us" and "set xs \<inter> (set fs \<union> set us) = {}"
  shows "pool_inv pool (rest m xs) fs us"
  by (rule pool_inv_cong [OF assms(1)]) (use assms(2) in \<open>auto simp: rest_def restrict_map_def\<close>)

lemma rest_rest: "rest (rest m xs) ys = rest m (xs @ ys)"
  by (auto simp: rest_def restrict_map_def fun_eq_iff)

lemma manager_shutdown_frees:
  assumes I: "mgr_inv mgr h L"
  shows "\<exists>h'. cb_memory_manager_shutdown mgr h = Some (mgr_zero, h') \<and>
    hp_mem (h_blocks h') = stray h L \<and> hp_mem (h_tables h') = Map.empty \<and> h_host h' = h_host h"
proof -
  note i = mgr_inv_parts [OF I]
  let ?hb = "h_blocks h"
  let ?h1 = "?hb\<lparr>hp_mem := rest (hp_mem ?hb) (l_fd L @ l_ud L)\<rparr>"
  let ?h2 = "?hb\<lparr>hp_mem := rest (hp_mem ?hb) ((l_fd L @ l_ud L) @ (l_fp L @ l_up L))\<rparr>"
  have s1: "pool_shutdown (mm_device_pool mgr) ?hb = Some (pool_zero, ?h1)"
    by (rule pool_shutdown_frees [OF inv_lists [OF i(1)]])
  have p2: "pool_inv (mm_pinned_pool mgr) (hp_mem ?h1) (l_fp L) (l_up L)"
    using rest_lists [OF i(2) i(5)] by simp
  have s2: "pool_shutdown (mm_pinned_pool mgr) ?h1 = Some (pool_zero, ?h2)"
    using pool_shutdown_frees [OF inv_lists [OF p2]] by (simp add: rest_rest)
  have p3: "pool_inv (mm_managed_pool mgr) (hp_mem ?h2) (l_fm L) (l_um L)"
    using rest_lists [OF i(3), of "(l_fd L @ l_ud L) @ (l_fp L @ l_up L)"] i(6,7) by (simp add: Int_Un_distrib2)
  have s3: "pool_shutdown (mm_managed_pool mgr) ?h2 = Some (pool_zero, ?hb\<lparr>hp_mem := stray h L\<rparr>)"
    using pool_shutdown_frees [OF inv_lists [OF p3]] by (simp add: rest_rest stray_def all_blocks_def)
  obtain t n where t: "mm_page_table mgr = Some t" "hp_mem (h_tables h) = [t \<mapsto> n]" using I by (auto simp: mgr_inv_def)
  show ?thesis using s1 s2 s3 t by (simp add: cb_memory_manager_shutdown_def heap_free_opt_Some heap_free_def)
qed

lemma owners_one: "owners [(b, s)] x = (if b \<le> x \<and> x < b + s then 1 else 0)"
  by (simp add: holds_def)

lemma pool_init_inv:
  assumes s: "pool_init h base sz page = (CB_SUCCESS, pool, h')" and wf: "heap_wf h" and sz: "0 < unat sz"
    and g: "unat base + unat sz < 2 ^ 64" "unat sz + unat page < 2 ^ 64" "\<exists>k < 64. page = 2 ^ k"
  shows "pool_inv pool (hp_mem h') [hp_next h] []" and "heap_wf h'" and "hp_mem h (hp_next h) = None"
    and "keeps {hp_next h} (hp_mem h) (hp_mem h')" and "hp_next h' = Suc (hp_next h)"
    and "region_of (hp_mem h') (hp_next h) = (unat base, unat sz)"
    and "pl_base_addr pool = base" and "pl_total_size pool = sz" and "pl_page_size pool = page" and "pl_used_size pool = 0"
proof -
  let ?p = "hp_next h" and ?b = "block_zero\<lparr>mb_gpu_addr := base, mb_size := sz, mb_is_allocated := False\<rparr>"
  obtain q h1 where c: "create_block h base sz = (q, h1)" by fastforce
  with s have q: "q = Some ?p" "h' = h1" and pool: "pool = pool_zero\<lparr>pl_base_addr := base, pl_total_size := sz,
      pl_page_size := page, pl_used_size := 0, pl_free_list := Some ?p, pl_block_count := 1\<rparr>"
 
  proof -
    obtain p where "q = Some p" using s c by (cases q) (simp_all add: pool_init_def Let_def)
    then show "q = Some ?p" using c by (simp add: create_block_def heap_simps)
    with s c show "h' = h1" "pool = pool_zero\<lparr>pl_base_addr := base, pl_total_size := sz,
      pl_page_size := page, pl_used_size := 0, pl_free_list := Some ?p, pl_block_count := 1\<rparr>"
      by (simp_all add: pool_init_def Let_def)
  qed
  have h': "hp_mem h' = (hp_mem h)(?p \<mapsto> ?b)" "hp_next h' = Suc ?p"
    using c q by (simp_all add: create_block_def heap_simps)
  show pn: "hp_mem h ?p = None" by (rule heap_wf_fresh [OF wf])
  show "keeps {?p} (hp_mem h) (hp_mem h')" "hp_next h' = Suc ?p" using h' by (simp_all add: keeps_def)
  show r: "region_of (hp_mem h') ?p = (unat base, unat sz)" using h' by (simp add: region_of_def reg_def)
  show pf: "pl_base_addr pool = base" "pl_total_size pool = sz" "pl_page_size pool = page" "pl_used_size pool = 0"
    using pool by simp_all
  show "heap_wf h'" using wf h' by (auto simp: heap_wf_def less_Suc_eq)
  have dl: "dll (hp_mem h') None (pl_free_list pool) [?p] None" "dll (hp_mem h') None (pl_used_list pool) [] None"
    using pool h' by (simp_all add: block_zero_def pool_zero_def)
  have "\<not> taken (hp_mem h') ?p" using h' by (simp add: taken_def)
  then show "pool_inv pool (hp_mem h') [?p] []"
    using dl r sz g pf pool by (simp add: pool_inv_def pool_lists_def canonical_def pool_geo_def in_pool_def holds_def)
qed

lemma page_sizes:
  "unat CB_PAGE_SIZE_4K = 4096" "unat CB_PAGE_SIZE_64K = 65536" "unat CB_PAGE_SIZE_2M = 2097152"
  "\<exists>k < 64. CB_PAGE_SIZE_4K = 2 ^ k" "\<exists>k < 64. CB_PAGE_SIZE_64K = 2 ^ k" "\<exists>k < 64. CB_PAGE_SIZE_2M = 2 ^ k"
  by (simp_all add: CB_PAGE_SIZE_4K_def CB_PAGE_SIZE_64K_def CB_PAGE_SIZE_2M_def)
    (rule exI [of _ 12], simp, rule exI [of _ 16], simp, rule exI [of _ 21], simp)

text \<open>The devices and sizes for which the address ranges do not wrap around.\<close>

definition init_ok :: "int \<Rightarrow> u64 \<Rightarrow> bool" where
  "init_ok device_id sz \<longleftrightarrow> 0 \<le> device_id \<and> device_id < 2 ^ 20 \<and> 2 \<le> unat sz \<and> unat sz \<le> 2 ^ 50"

definition device_base :: "int \<Rightarrow> u64" where
  "device_base device_id = 0x200000000 + of_int device_id * 0x100000000"

lemma device_base_nat:
  assumes "0 \<le> i" and "i < 2 ^ 20"
  shows "unat (device_base i) = 2 ^ 33 + nat i * 2 ^ 32"
proof -
  obtain n where n: "i = int n" using assms(1) nonneg_int_cases by blast
  with assms(2) have l: "n < 2 ^ 20" by simp
  have "device_base i = word_of_nat (2 ^ 33 + n * 2 ^ 32)" by (simp add: device_base_def n)
  moreover have "unat (word_of_nat N :: u64) = N" if "N < 2 ^ 64" for N
    by (rule trans [OF unsigned_of_nat]) (simp add: take_bit_nat_eq_self that [simplified])
  moreover have "2 ^ 33 + n * 2 ^ 32 < (2 :: nat) ^ 64" using l by simp
  ultimately show ?thesis by (simp only: n nat_int)
qed

definition init_lists :: "nat \<Rightarrow> lists" where
  "init_lists n = \<lparr>l_fd = [n], l_ud = [], l_fp = [Suc n], l_up = [], l_fm = [Suc (Suc n)], l_um = []\<rparr>"

lemma manager_init_pools:
  assumes c: "cb_memory_manager_init h i sz = Some (CB_SUCCESS, mgr, h')"
  obtains dp h1 pp h2 mp t where
    "pool_init (h_blocks h) (device_base i) sz CB_PAGE_SIZE_2M = (CB_SUCCESS, dp, h1)"
    "pool_init h1 0 0x40000000 CB_PAGE_SIZE_4K = (CB_SUCCESS, pp, h2)"
    "pool_init h2 0x100000000 (sz div 2) CB_PAGE_SIZE_64K = (CB_SUCCESS, mp, h_blocks h')"
    "heap_alloc (h_tables h) (sz div CB_PAGE_SIZE_4K) = (Some t, h_tables h')"
    "mm_device_pool mgr = dp" "mm_pinned_pool mgr = pp" "mm_managed_pool mgr = mp" "mm_page_table mgr = Some t"
    "mm_total_allocated mgr = 0" "mm_alloc_count mgr = 0" "mm_free_count mgr = 0"
proof -
  obtain r1 dp h1 where p1: "pool_init (h_blocks h) (device_base i) sz CB_PAGE_SIZE_2M = (r1, dp, h1)" by (metis prod_cases3)
  obtain r2 pp h2 where p2: "pool_init h1 0 0x40000000 CB_PAGE_SIZE_4K = (r2, pp, h2)" by (metis prod_cases3)
  obtain r3 mp h3 where p3: "pool_init h2 0x100000000 (sz div 2) CB_PAGE_SIZE_64K = (r3, mp, h3)" by (metis prod_cases3)
  note d = c [unfolded cb_memory_manager_init_def device_base_def [symmetric]]
  have r1: "r1 = CB_SUCCESS"
  proof (rule ccontr)
    assume "r1 \<noteq> CB_SUCCESS"
    then show False using d by (simp add: Let_def p1)
  qed
  have r2: "r2 = CB_SUCCESS"
  proof (rule ccontr)
    assume "r2 \<noteq> CB_SUCCESS"
    then show False using d p2 by (auto simp: Let_def p1 r1 bind_Some_iff)
  qed
  have r3: "r3 = CB_SUCCESS"
  proof (rule ccontr)
    assume "r3 \<noteq> CB_SUCCESS"
    then show False using d p2 p3 by (auto simp: Let_def p1 r1 r2 bind_Some_iff)
  qed
  obtain tt ht where ta: "heap_alloc (h_tables h) (sz div CB_PAGE_SIZE_4K) = (tt, ht)" by fastforce
  obtain t where t: "tt = Some t"
  proof (cases tt)
    case None
    then show ?thesis using d p2 p3 ta by (auto simp: Let_def p1 r1 r2 r3 bind_Some_iff)
  qed (rule that)
  have "mm_device_pool mgr = dp" "mm_pinned_pool mgr = pp" "mm_managed_pool mgr = mp" "mm_page_table mgr = Some t"
    "mm_total_allocated mgr = 0" "mm_alloc_count mgr = 0" "mm_free_count mgr = 0" "h_blocks h' = h3" "h_tables h' = ht"
    using d p2 p3 ta t by (simp_all add: Let_def p1 r1 r2 r3) (auto simp: mgr_zero_def)
  with p1 p2 p3 ta t r1 r2 r3 show ?thesis by (intro that) simp_all
qed

lemma manager_init_inv:
  assumes c: "cb_memory_manager_init h i sz = Some (CB_SUCCESS, mgr, h')" and ok: "init_ok i sz"
    and e: "hp_mem (h_blocks h) = Map.empty" "hp_mem (h_tables h) = Map.empty"
  shows "\<exists>L. mgr_inv mgr h' L \<and> stray h' L = Map.empty \<and> l_ud L = [] \<and>
    regions h' (l_fd L) = [(unat (device_base i), unat sz)] \<and>
    pl_base_addr (mm_device_pool mgr) = device_base i \<and> pl_total_size (mm_device_pool mgr) = sz \<and>
    pl_page_size (mm_device_pool mgr) = CB_PAGE_SIZE_2M \<and>
    pl_base_addr (mm_managed_pool mgr) = 0x100000000 \<and> pl_total_size (mm_managed_pool mgr) = sz div 2 \<and>
    unreturned mgr L = 0"
proof -
  let ?h0 = "h_blocks h"
  have b: "unat (device_base i) = 2 ^ 33 + nat i * 2 ^ 32" "nat i < 2 ^ 20" and szb: "2 \<le> unat sz" "unat sz \<le> 2 ^ 50"
    using ok device_base_nat [of i] by (simp_all add: init_ok_def nat_less_iff)
  obtain dp h1 pp h2 mp t where p1: "pool_init ?h0 (device_base i) sz CB_PAGE_SIZE_2M = (CB_SUCCESS, dp, h1)"
    and p2: "pool_init h1 0 0x40000000 CB_PAGE_SIZE_4K = (CB_SUCCESS, pp, h2)"
    and p3: "pool_init h2 0x100000000 (sz div 2) CB_PAGE_SIZE_64K = (CB_SUCCESS, mp, h_blocks h')"
    and ta: "heap_alloc (h_tables h) (sz div CB_PAGE_SIZE_4K) = (Some t, h_tables h')"
    and m: "mm_device_pool mgr = dp" "mm_pinned_pool mgr = pp" "mm_managed_pool mgr = mp" "mm_page_table mgr = Some t"
      "mm_total_allocated mgr = 0" "mm_alloc_count mgr = 0" "mm_free_count mgr = 0"
    by (rule manager_init_pools [OF c])
  have ht: "hp_mem (h_tables h') = [t \<mapsto> sz div CB_PAGE_SIZE_4K]" using ta e by (auto simp: heap_simps)
  have wf0: "heap_wf ?h0" using e by (simp add: heap_wf_def)
  have s2: "unat (sz div 2) = unat sz div 2" by (simp add: unat_div)
  have g1: "unat (device_base i) + unat sz < 2 ^ 64" "unat sz + unat CB_PAGE_SIZE_2M < 2 ^ 64"
    using b szb by (simp_all add: page_sizes)
  have g2: "unat (0 :: u64) + unat (0x40000000 :: u64) < 2 ^ 64" "unat (0x40000000 :: u64) + unat CB_PAGE_SIZE_4K < 2 ^ 64"
    by (simp_all add: page_sizes)
  have g3: "unat (0x100000000 :: u64) + unat (sz div 2) < 2 ^ 64" "unat (sz div 2) + unat CB_PAGE_SIZE_64K < 2 ^ 64"
    using szb by (simp_all add: page_sizes s2)
  have pos: "0 < unat sz" "0 < unat (0x40000000 :: u64)" "0 < unat (sz div 2)" using szb s2 by simp_all
  note q1 = pool_init_inv [OF p1 wf0 pos(1) g1 page_sizes(6)]
  note q2 = pool_init_inv [OF p2 q1(2) pos(2) g2 page_sizes(4)]
  note q3 = pool_init_inv [OF p3 q2(2) pos(3) g3 page_sizes(5)]
  let ?n = "hp_next ?h0"
  have n: "hp_next h1 = Suc ?n" "hp_next h2 = Suc (Suc ?n)" using q1(5) q2(5) by simp_all
  let ?L = "init_lists ?n"
  have k2: "hp_mem h2 ?n = hp_mem h1 ?n" using keepsD [OF q2(4), of ?n] n by simp
  have k3: "hp_mem (h_blocks h') ?n = hp_mem h1 ?n" "hp_mem (h_blocks h') (Suc ?n) = hp_mem h2 (Suc ?n)"
    using keepsD [OF q3(4)] n k2 by simp_all
  have P: "pool_inv dp (hp_mem (h_blocks h')) [?n] []" "pool_inv pp (hp_mem (h_blocks h')) [Suc ?n] []" "pool_inv mp (hp_mem (h_blocks h')) [Suc (Suc ?n)] []"
    using pool_inv_cong [OF q1(1), of "hp_mem (h_blocks h')"] pool_inv_cong [OF q2(1), of "hp_mem (h_blocks h')"] q3(1) n k3 by simp_all
  have "unat (pl_base_addr dp) > 0" using q1(7) b by simp
  moreover have "\<exists>t n. mm_page_table mgr = Some t \<and> hp_mem (h_tables h') = [t \<mapsto> n]"
    unfolding m ht by (intro exI conjI) (rule refl)+
  ultimately have "mgr_inv mgr h' ?L"
    using m P q3(2) unfolding mgr_inv_def by (intro conjI) (simp_all add: init_lists_def all_blocks_def in_use_def)
  moreover have "hp_mem (h_blocks h') x = None" if "x \<notin> {?n, Suc ?n, Suc (Suc ?n)}" for x
    using that keepsD [OF q1(4), of x] keepsD [OF q2(4), of x] keepsD [OF q3(4), of x] n e by simp
  then have "stray h' ?L = Map.empty"
    using m by (auto simp: stray_def rest_def restrict_map_def init_lists_def all_blocks_def fun_eq_iff)
  moreover have "regions h' (l_fd ?L) = [(unat (device_base i), unat sz)]"
    using m q1(6) k3(1) by (simp add: regions_def init_lists_def region_of_def)
  ultimately show ?thesis using m q1(7-9) q3(7,8) by (intro exI [of _ ?L]) (simp add: init_lists_def unreturned_def live_count_def)
qed

section \<open>Reachable managers\<close>

text \<open>
  The states the entry points reach from a successful initialisation over an empty block heap, when
  every release names a block of the pool the entry point releases to, or no block at all. The
  number counts the headers \<open>cb_malloc_host\<close> creates outside the pinned pool. The application may
  write to its host memory at any time.
\<close>

inductive mgr_reach :: "nat \<Rightarrow> CBMemoryManager \<Rightarrow> mem_heap \<Rightarrow> bool" where
  init: "cb_memory_manager_init h i sz = Some (CB_SUCCESS, mgr, h') \<Longrightarrow> init_ok i sz \<Longrightarrow>
    hp_mem (h_blocks h) = Map.empty \<Longrightarrow> hp_mem (h_tables h) = Map.empty \<Longrightarrow> mgr_reach 0 mgr h'"
| host_write: "mgr_reach n mgr h \<Longrightarrow> mgr_reach n mgr (h\<lparr>h_host := hm\<rparr>)"
| malloc_device: "mgr_reach n mgr h \<Longrightarrow> cb_malloc_device mgr h b sz = Some (ret, out, mgr', h') \<Longrightarrow>
    mgr_reach n mgr' h'"
| free_device: "mgr_reach n mgr h \<Longrightarrow> cb_free_device mgr h q = Some (ret, mgr', h') \<Longrightarrow>
    cb_find_block mgr (h_blocks h) q = Some None \<or>
    find_used (h_blocks h) (\<lambda>b. mb_gpu_addr b = q) (pl_used_list (mm_device_pool mgr)) \<noteq> Some None \<Longrightarrow>
    mgr_reach n mgr' h'"
| malloc_host_pinned: "mgr_reach n mgr h \<Longrightarrow> cb_malloc_host mgr h b sz flags = Some (CB_SUCCESS, out, mgr', h') \<Longrightarrow>
    pool_alloc (mm_pinned_pool mgr) (h_blocks h) sz = Some (Some p, pool, hb) \<Longrightarrow> mgr_reach n mgr' h'"
| malloc_host_outside: "mgr_reach n mgr h \<Longrightarrow> cb_malloc_host mgr h b sz flags = Some (CB_SUCCESS, out, mgr', h') \<Longrightarrow>
    pool_alloc (mm_pinned_pool mgr) (h_blocks h) sz = Some (None, pool, hb) \<Longrightarrow> mgr_reach (Suc n) mgr' h'"
| free_host: "mgr_reach n mgr h \<Longrightarrow> cb_free_host mgr h q = Some (ret, mgr', h') \<Longrightarrow>
    cb_find_block mgr (h_blocks h) q = Some None \<or>
    find_used (h_blocks h) (\<lambda>b. mb_gpu_addr b = q) (pl_used_list (mm_device_pool mgr)) = Some None \<and>
    find_used (h_blocks h) (\<lambda>b. mb_host_addr b = q) (pl_used_list (mm_pinned_pool mgr)) \<noteq> Some None \<Longrightarrow>
    mgr_reach n mgr' h'"
| malloc_managed: "mgr_reach n mgr h \<Longrightarrow> cb_malloc_managed mgr h b sz flags = Some (ret, out, mgr', h') \<Longrightarrow>
    mgr_reach n mgr' h'"
| free_managed: "mgr_reach n mgr h \<Longrightarrow> cb_free_managed mgr h q = Some (ret, mgr', h') \<Longrightarrow>
    find_used (h_blocks h) (\<lambda>b. mb_gpu_addr b = q) (pl_used_list (mm_device_pool mgr)) = Some None \<Longrightarrow>
    find_used (h_blocks h) (\<lambda>b. mb_host_addr b = q) (pl_used_list (mm_pinned_pool mgr)) = Some None \<Longrightarrow>
    mgr_reach n mgr' h'"
| mem_advise: "mgr_reach n mgr h \<Longrightarrow> cb_mem_advise mgr h q adv dv = Some (ret, h') \<Longrightarrow> mgr_reach n mgr h'"

lemma find_device_part:
  assumes I: "mgr_inv mgr h L" and q: "q \<noteq> 0"
    and f: "find_used (h_blocks h) (\<lambda>b. mb_gpu_addr b = q) (pl_used_list (mm_device_pool mgr)) \<noteq> Some None"
  shows "\<exists>p. p \<in> set (l_ud L) \<and> mb_gpu_addr (the (hp_mem (h_blocks h) p)) = q"
  using find_used_total [OF mgr_inv_parts(1) [OF I], of "\<lambda>b. mb_gpu_addr b = q"] f by (metis option.exhaust)

lemma find_pinned_part:
  assumes I: "mgr_inv mgr h L" and q: "q \<noteq> 0"
    and d: "find_used (h_blocks h) (\<lambda>b. mb_gpu_addr b = q) (pl_used_list (mm_device_pool mgr)) = Some None"
    and f: "find_used (h_blocks h) (\<lambda>b. mb_host_addr b = q) (pl_used_list (mm_pinned_pool mgr)) \<noteq> Some None"
  shows "\<exists>p. cb_find_block mgr (h_blocks h) q = Some (Some p) \<and> p \<in> set (l_up L)"
proof -
  obtain r where r: "find_used (h_blocks h) (\<lambda>b. mb_host_addr b = q) (pl_used_list (mm_pinned_pool mgr)) = Some r"
    "\<forall>p. r = Some p \<longrightarrow> p \<in> set (l_up L)" using find_used_total [OF mgr_inv_parts(2) [OF I]] by blast
  with f obtain p where "r = Some p" by (cases r) auto
  with r q d show ?thesis by (auto simp: cb_find_block_def)
qed

lemma find_managed_part:
  assumes I: "mgr_inv mgr h L"
    and d: "find_used (h_blocks h) (\<lambda>b. mb_gpu_addr b = q) (pl_used_list (mm_device_pool mgr)) = Some None"
    and f: "find_used (h_blocks h) (\<lambda>b. mb_host_addr b = q) (pl_used_list (mm_pinned_pool mgr)) = Some None"
  shows "cb_find_block mgr (h_blocks h) q = Some None \<or>
    (\<exists>p. cb_find_block mgr (h_blocks h) q = Some (Some p) \<and> p \<in> set (l_um L))"
proof -
  obtain r where r: "find_used (h_blocks h) (\<lambda>b. mb_host_addr b = q \<or> mb_gpu_addr b = q)
      (pl_used_list (mm_managed_pool mgr)) = Some r"
    "\<forall>p. r = Some p \<longrightarrow> p \<in> set (l_um L)" using find_used_total [OF mgr_inv_parts(3) [OF I]] by blast
  then show ?thesis using d f by (cases r) (auto simp: cb_find_block_def)
qed

lemma free_device_zero: "cb_free_device mgr h 0 = Some (CB_ERR_INVALID_PARAM, mgr, h)"
  by (simp add: cb_free_device_def)

lemma malloc_device_keeps:
  assumes I: "mgr_inv mgr h L" and c: "cb_malloc_device mgr h b sz = Some (ret, out, mgr', h')"
  shows "\<exists>L'. mgr_inv mgr' h' L' \<and> stray h' L' = stray h L \<and> unreturned mgr' L' = unreturned mgr L"
proof (cases "b \<and> sz \<noteq> 0")
  case False
  with c I show ?thesis by (auto simp: cb_malloc_device_def)
next
  case True
  show ?thesis
  proof (cases "alloc_request (mm_device_pool mgr) (hp_oom (h_blocks h) (hp_next (h_blocks h))) sz (regions h (l_fd L))")
    case None
    with malloc_device_cases [OF I, of sz] True c I show ?thesis by auto
  next
    case (Some aG)
    obtain a G where "aG = (a, G)" by fastforce
    with malloc_device_cases [OF I, of sz] True c Some show ?thesis by (auto simp: device_alloc_ok_def)
  qed
qed

lemma free_device_keeps:
  assumes I: "mgr_inv mgr h L" and c: "cb_free_device mgr h q = Some (ret, mgr', h')"
    and own: "cb_find_block mgr (h_blocks h) q = Some None \<or>
      find_used (h_blocks h) (\<lambda>b. mb_gpu_addr b = q) (pl_used_list (mm_device_pool mgr)) \<noteq> Some None"
  shows "\<exists>L'. mgr_inv mgr' h' L' \<and> stray h' L' = stray h L \<and> unreturned mgr' L' = unreturned mgr L"
proof (cases "q = 0 \<or> cb_find_block mgr (h_blocks h) q = Some None")
  case True
  with c I show ?thesis by (auto simp: free_device_zero free_device_miss)
next
  case False
  with find_device_part [OF I, of q] own obtain p where
    "p \<in> set (l_ud L)" "mb_gpu_addr (the (hp_mem (h_blocks h) p)) = q" by blast
  from free_device_hit [OF I this] c show ?thesis by (auto simp: device_free_ok_def)
qed

lemma stray_finite: "mgr_inv mgr h L \<Longrightarrow> finite (dom (stray h L))"
proof -
  assume "mgr_inv mgr h L"
  then have wf: "heap_wf (h_blocks h)" by (rule mgr_inv_parts)
  have "dom (stray h L) \<subseteq> {..<hp_next (h_blocks h)}"
    using wf by (auto simp: stray_def rest_def restrict_map_def heap_wf_def split: if_splits)
  then show ?thesis by (rule finite_subset) simp
qed

text \<open>The invariant of every reachable manager.\<close>

lemma reach_inv: "mgr_reach n mgr h \<Longrightarrow> \<exists>L. mgr_inv mgr h L \<and> card (dom (stray h L)) = n \<and> unreturned mgr L = of_nat n"
proof (induction rule: mgr_reach.induct)
  case (init h i sz mgr h')
  from manager_init_inv [OF this] obtain L where "mgr_inv mgr h' L" "stray h' L = Map.empty" "unreturned mgr L = 0" by blast
  then show ?case by (intro exI [of _ L]) simp
next
  case (host_write n mgr h hm)
  then show ?case using mgr_host_irrelevant by metis
next
  case (malloc_device n mgr h b sz ret out mgr' h')
  then show ?case using malloc_device_keeps by metis
next
  case (free_device n mgr h q ret mgr' h')
  then show ?case using free_device_keeps by metis
next
  case (malloc_host_pinned n mgr h b sz flags out mgr' h' p pool hb)
  then show ?case using malloc_host_pool by metis
next
  case (malloc_host_outside n mgr h b sz flags out mgr' h' pool hb)
  then obtain L where L: "mgr_inv mgr h L" "card (dom (stray h L)) = n" "unreturned mgr L = of_nat n" by blast
  from malloc_host_fallback [OF L(1) malloc_host_outside(2,3)] obtain p v where
    "mgr_inv mgr' h' L" "stray h' L = (stray h L)(p \<mapsto> v)" "p \<notin> dom (stray h L)" and u: "unreturned mgr' L = unreturned mgr L + 1" by blast
  then have "dom (stray h' L) = insert p (dom (stray h L))" "p \<notin> dom (stray h L)" "mgr_inv mgr' h' L"
    by (simp_all only: dom_fun_upd option.distinct if_False not_False_eq_True)
  then have "card (dom (stray h' L)) = Suc n" "mgr_inv mgr' h' L" using L(2) stray_finite [OF L(1)] by simp_all
  with u L(3) show ?case by (intro exI [of _ L]) simp
next
  case (free_host n mgr h q ret mgr' h')
  then obtain L where L: "mgr_inv mgr h L" "card (dom (stray h L)) = n" "unreturned mgr L = of_nat n" by blast
  show ?case
  proof (cases "q = 0")
    case True
    with free_host L show ?thesis by (auto simp: cb_free_host_def)
  next
    case False
    with find_pinned_part [OF L(1)] free_host(3) obtain p where
      "cb_find_block mgr (h_blocks h) q = Some None \<or> cb_find_block mgr (h_blocks h) q = Some (Some p) \<and> p \<in> set (l_up L)"
      by metis
    from free_host_keeps [OF L(1) free_host(2) this] L(2,3) show ?thesis by metis
  qed
next
  case (malloc_managed n mgr h b sz flags ret out mgr' h')
  then show ?case using malloc_managed_keeps by metis
next
  case (free_managed n mgr h q ret mgr' h')
  then obtain L where L: "mgr_inv mgr h L" "card (dom (stray h L)) = n" "unreturned mgr L = of_nat n" by blast
  from find_managed_part [OF L(1) free_managed(3,4)] obtain p where
    "cb_find_block mgr (h_blocks h) q = Some None \<or> cb_find_block mgr (h_blocks h) q = Some (Some p) \<and> p \<in> set (l_um L)"
    by metis
  from free_managed_keeps [OF L(1) free_managed(2) this] L(2,3) show ?case by metis
next
  case (mem_advise n mgr h q adv dv ret h')
  then show ?case using mem_advise_keeps by metis
qed

end
