(* ===== verification/Memory_Properties.thy ===== *)
theory Memory_Properties
  imports Memory_Invariant
begin

text \<open>
  The properties of the memory manager, each a few steps over the invariant of \<^theory_text>\<open>Memory_Invariant\<close> and
  the interpretation \<open>ff\<close> of the allocator contract in \<^theory_text>\<open>Regions\<close>; the witnesses compute with a manager
  of 3 MB.
\<close>

unbundle bit_operations_syntax

section \<open>Properties\<close>

definition small_heap :: mem_heap where
  "small_heap = \<lparr>h_blocks = heap_empty (\<lambda>_. False), h_tables = heap_empty (\<lambda>_. False),
     h_host = \<lparr>hm_live = Map.empty, hm_count = 0, hm_pick = (\<lambda>n. Some (0x7f0000000000 + of_nat n * 0x100000))\<rparr>\<rparr>"

text \<open>The manager of device 0 with \<open>sz\<close> bytes, for the witnesses.\<close>

definition small_manager :: "u64 \<Rightarrow> CBMemoryManager \<times> mem_heap" where
  "small_manager sz = (case cb_memory_manager_init small_heap 0 sz of Some (ret, mgr, h) \<Rightarrow> (mgr, h) | None \<Rightarrow> (mgr_zero, small_heap))"

lemmas small_eval = small_manager_def small_heap_def cb_memory_manager_init_def pool_init_def create_block_def
  heap_alloc_def heap_empty_def block_zero_def pool_zero_def mgr_zero_def Let_def
  CB_PAGE_SIZE_4K_def CB_PAGE_SIZE_64K_def CB_PAGE_SIZE_2M_def

lemma small_reach: "mgr_reach 0 (fst (small_manager 0x300000)) (snd (small_manager 0x300000))"
proof -
  have "cb_memory_manager_init small_heap 0 0x300000 = Some (CB_SUCCESS, small_manager 0x300000)"
    by (simp add: small_eval)
  then show ?thesis
    by (intro mgr_reach.init [of small_heap 0 "0x300000"]) (simp_all add: init_ok_def small_heap_def heap_empty_def)
qed

lemmas call_eval = cb_malloc_device_def cb_malloc_managed_def pool_alloc_def align_up_def first_fit.simps split_block_def take_block_def
  upd_block_def upd_block_opt_def heap_get_def heap_put_def count_allocated_def host_alloc_def

lemma rounding_pos: "unat sz + page \<le> 2 ^ 64 \<Longrightarrow> 0 < page \<Longrightarrow> sz \<noteq> (0 :: u64) \<Longrightarrow> 0 < rounded page (unat sz)"
  using rounded_bounds(1) [of page "unat sz"] by (metis unat_gt_0 less_le_trans)

text \<open>A successful device allocation, in terms of the abstract allocator.\<close>

lemma device_alloc_success:
  assumes I: "mgr_inv mgr h L" and c: "cb_malloc_device mgr h b sz = Some (CB_SUCCESS, out, mgr', h')"
  obtains a G p q L' where "out = Some q" "device_alloc_ok mgr h L sz a G p q mgr' h' L'" "b" "sz \<noteq> 0"
    "fit_alloc (unat (pl_page_size (mm_device_pool mgr))) (hp_oom (h_blocks h) (hp_next (h_blocks h)))
      (rounded (unat (pl_page_size (mm_device_pool mgr))) (unat sz)) (regions h (l_fd L)) = Some (a, G)"
    "0 < rounded (unat (pl_page_size (mm_device_pool mgr))) (unat sz)"
    "unat sz \<le> rounded (unat (pl_page_size (mm_device_pool mgr))) (unat sz)"
    "canonical (regions h (l_fd L))"
proof -
  have b: "b" "sz \<noteq> 0" using c by (auto simp: cb_malloc_device_def split: if_splits)
  let ?rq = "alloc_request (mm_device_pool mgr) (hp_oom (h_blocks h) (hp_next (h_blocks h))) sz (regions h (l_fd L))"
  have can: "canonical (regions h (l_fd L))" and geo: "pool_geo (mm_device_pool mgr)"
    using mgr_inv_parts(1) [OF I] by (simp_all add: pool_inv_def regions_def)
  have pg: "0 < unat (pl_page_size (mm_device_pool mgr))" by (rule align_up_request(3) [OF geo])
  obtain a G where r: "?rq = Some (a, G)"
    using malloc_device_cases [OF I b(2)] c b by (cases ?rq) auto
  with malloc_device_cases [OF I b(2)] c b obtain p q L' where
    o: "out = Some q" "device_alloc_ok mgr h L sz a G p q mgr' h' L'" by auto
  from r have "unat sz + unat (pl_page_size (mm_device_pool mgr)) \<le> 2 ^ 64"
    and f: "fit_alloc (unat (pl_page_size (mm_device_pool mgr))) (hp_oom (h_blocks h) (hp_next (h_blocks h)))
      (rounded (unat (pl_page_size (mm_device_pool mgr))) (unat sz)) (regions h (l_fd L)) = Some (a, G)"
    by (auto simp: alloc_request_def Let_def split: if_splits)
  with rounding_pos [OF _ pg b(2)] rounded_bounds(1) [OF pg, of "unat sz"] o b can show ?thesis by (intro that) 
qed

lemma regions_owner_free:
  assumes "mgr_inv mgr h L"
  shows "owners (regions h (l_fd L)) x + owners (regions h (l_ud L)) x = (if in_pool (mm_device_pool mgr) x then 1 else 0)"
  using mgr_inv_parts(1) [OF assms] by (simp add: pool_inv_def regions_def)

text \<open>
  C5. Every reachable manager keeps its three pools tiled: the six lists are well-formed doubly linked
  lists over disjoint blocks, every address of a pool belongs to exactly one of its blocks, the free
  list is sorted with no two adjacent entries, the block counts and \<open>total_allocated\<close> are exact, the only headers
  outside the lists are the \<open>n\<close> that \<open>cb_malloc_host\<close> made, and \<open>alloc_count\<close> exceeds \<open>free_count\<close> by the blocks in use
  and these \<open>n\<close>. Nothing is said of \<open>used_size\<close>, which drifts (C7), and of \<open>peak_allocated\<close>.
\<close>

theorem memory_pools_tiled:
  assumes "mgr_reach n mgr h"
  shows "\<exists>L. mgr_inv mgr h L \<and> card (dom (stray h L)) = n \<and>
    mm_alloc_count mgr = mm_free_count mgr + of_nat (length (l_ud L) + length (l_up L) + length (l_um L) + n)"
proof -
  from reach_inv [OF assms] obtain L where "mgr_inv mgr h L" "card (dom (stray h L)) = n" "unreturned mgr L = of_nat n" by blast
  then show ?thesis by (intro exI [of _ L]) (simp add: unreturned_def live_count_def algebra_simps)
qed

theorem memory_pools_tiled_witness:
  "\<exists>L. mgr_inv (fst (small_manager 0x300000)) (snd (small_manager 0x300000)) L \<and>
     card (dom (stray (snd (small_manager 0x300000)) L)) = 0"
  using memory_pools_tiled [OF small_reach] by blast

text \<open>
  C6. \<open>cb_malloc_device\<close> refines the abstract first-fit allocator: it fails exactly when the rounding
  wraps around or no free region is large enough, leaving manager and heap as they were; otherwise it
  returns the first free region that fits, split when the rest exceeds a page, and touches neither the
  other blocks in use nor the other pools.
\<close>

theorem malloc_device_first_fit:
  assumes "mgr_reach n mgr h" and "sz \<noteq> 0"
  shows "\<exists>L. mgr_inv mgr h L \<and>
    (case alloc_request (mm_device_pool mgr) (hp_oom (h_blocks h) (hp_next (h_blocks h))) sz (regions h (l_fd L)) of
       None \<Rightarrow> cb_malloc_device mgr h True sz = Some (CB_ERR_NO_MEMORY, None, mgr, h)
     | Some (a, G) \<Rightarrow> \<exists>p q mgr' h' L'. cb_malloc_device mgr h True sz = Some (CB_SUCCESS, Some q, mgr', h') \<and>
         unat q = fst a \<and> device_alloc_ok mgr h L sz a G p q mgr' h' L')"
proof -
  obtain L where I: "mgr_inv mgr h L" using reach_inv [OF assms(1)] by blast
  have "unat q = fst a" if "device_alloc_ok mgr h L sz a G p q mgr' h' L'" for a G p q mgr' h' L'
    using that by (auto simp: device_alloc_ok_def region_of_def)
  with malloc_device_cases [OF I assms(2)] I show ?thesis by (intro exI [of _ L]) (fastforce split: option.splits)
qed

theorem malloc_device_first_fit_witness:
  "\<exists>L. mgr_inv (fst (small_manager 0x300000)) (snd (small_manager 0x300000)) L \<and>
    (case alloc_request (mm_device_pool (fst (small_manager 0x300000)))
        (hp_oom (h_blocks (snd (small_manager 0x300000))) (hp_next (h_blocks (snd (small_manager 0x300000))))) 1
        (regions (snd (small_manager 0x300000)) (l_fd L)) of
       None \<Rightarrow> cb_malloc_device (fst (small_manager 0x300000)) (snd (small_manager 0x300000)) True 1 =
         Some (CB_ERR_NO_MEMORY, None, fst (small_manager 0x300000), snd (small_manager 0x300000))
     | Some (a, G) \<Rightarrow> \<exists>p q mgr' h' L'. cb_malloc_device (fst (small_manager 0x300000)) (snd (small_manager 0x300000)) True 1 =
         Some (CB_SUCCESS, Some q, mgr', h') \<and> unat q = fst a \<and>
         device_alloc_ok (fst (small_manager 0x300000)) (snd (small_manager 0x300000)) L 1 a G p q mgr' h' L')"
  by (rule malloc_device_first_fit [OF small_reach]) simp

text \<open>
  The range \<open>cb_malloc_device\<close> returns is fresh: its first \<open>sz\<close> bytes lie in the device pool, were
  free before the call, and belong to no block in use.
\<close>

theorem malloc_device_fresh:
  assumes "mgr_reach n mgr h" and "cb_malloc_device mgr h b sz = Some (CB_SUCCESS, out, mgr', h')"
  shows "\<exists>L q. out = Some q \<and> mgr_inv mgr h L \<and>
    (\<forall>x. unat q \<le> x \<and> x < unat q + unat sz \<longrightarrow>
       in_pool (mm_device_pool mgr) x \<and> owners (regions h (l_fd L)) x = 1 \<and> owners (regions h (l_ud L)) x = 0)"
proof -
  obtain L where I: "mgr_inv mgr h L" using reach_inv [OF assms(1)] by blast
  from device_alloc_success [OF I assms(2)] obtain a G p q L' where o: "out = Some q"
    and d: "device_alloc_ok mgr h L sz a G p q mgr' h' L'"
    and f: "fit_alloc (unat (pl_page_size (mm_device_pool mgr))) (hp_oom (h_blocks h) (hp_next (h_blocks h)))
      (rounded (unat (pl_page_size (mm_device_pool mgr))) (unat sz)) (regions h (l_fd L)) = Some (a, G)"
    and r: "0 < rounded (unat (pl_page_size (mm_device_pool mgr))) (unat sz)"
      "unat sz \<le> rounded (unat (pl_page_size (mm_device_pool mgr))) (unat sz)"
    and can: "canonical (regions h (l_fd L))" by metis
  have q: "unat q = fst a" using d by (auto simp: device_alloc_ok_def region_of_def)
  have "in_pool (mm_device_pool mgr) x \<and> owners (regions h (l_fd L)) x = 1 \<and> owners (regions h (l_ud L)) x = 0"
    if "unat q \<le> x \<and> x < unat q + unat sz" for x
  proof -
    have "holds a x" using that q ff.alloc_size [OF can r(1) f] r(2) by (simp add: holds_def)
    then have "has_free (regions h (l_fd L)) x" by (rule ff.alloc_free [OF can r(1) f])
    then show ?thesis using regions_owner_free [OF I, of x] by (auto simp: has_free_def split: if_splits)
  qed
  with o I show ?thesis by blast
qed

text \<open>
  C7. Freeing what \<open>cb_malloc_device\<close> just returned succeeds and restores the free regions, the blocks in
  use and \<open>total_allocated\<close> exactly. The free size \<open>cb_mem_get_info\<close> reports is not restored: the
  allocation adds the rounded request to \<open>used_size\<close>, the release subtracts the size of the block, and
  a block that was not split is larger.
\<close>

theorem malloc_free_device_restores:
  assumes "mgr_reach n mgr h" and "cb_malloc_device mgr h b sz = Some (CB_SUCCESS, Some q, mgr1, h1)"
  shows "\<exists>L L2 p mgr2 h2. mgr_inv mgr h L \<and> cb_free_device mgr1 h1 q = Some (CB_SUCCESS, mgr2, h2) \<and> mgr_inv mgr2 h2 L2 \<and>
    regions h2 (l_fd L2) = regions h (l_fd L) \<and> l_ud L2 = l_ud L \<and> regions h2 (l_ud L2) = regions h (l_ud L) \<and>
    mm_total_allocated mgr2 = mm_total_allocated mgr \<and> pl_used_list (mm_device_pool mgr1) = Some p \<and>
    cb_mem_get_info mgr2 = (CB_SUCCESS, fst (snd (cb_mem_get_info mgr)) +
      (mb_size (the (hp_mem (h_blocks h1) p)) - align_up sz (pl_page_size (mm_device_pool mgr))),
      snd (snd (cb_mem_get_info mgr)))"
proof -
  obtain L where I: "mgr_inv mgr h L" using reach_inv [OF assms(1)] by blast
  from device_alloc_success [OF I assms(2)] obtain a G p L' where
    d: "device_alloc_ok mgr h L sz a G p q mgr1 h1 L'"
    and f: "fit_alloc (unat (pl_page_size (mm_device_pool mgr))) (hp_oom (h_blocks h) (hp_next (h_blocks h)))
      (rounded (unat (pl_page_size (mm_device_pool mgr))) (unat sz)) (regions h (l_fd L)) = Some (a, G)"
    and r: "0 < rounded (unat (pl_page_size (mm_device_pool mgr))) (unat sz)"
    and can: "canonical (regions h (l_fd L))" by (metis option.inject)
  have I1: "mgr_inv mgr1 h1 L'" and u: "l_ud L' = p # l_ud L" and G: "regions h1 (l_fd L') = G"
    and ra: "region_of (hp_mem (h_blocks h1)) p = a" and q: "mb_gpu_addr (the (hp_mem (h_blocks h1) p)) = q"
    and ru: "regions h1 (l_ud L) = regions h (l_ud L)" and sp: "same_pool (mm_device_pool mgr) (mm_device_pool mgr1)"
    and us: "pl_used_size (mm_device_pool mgr1) = pl_used_size (mm_device_pool mgr) + align_up sz (pl_page_size (mm_device_pool mgr))"
    and ta: "mm_total_allocated mgr1 = mm_total_allocated mgr + of_nat (snd a)"
    using d [unfolded device_alloc_ok_def] by - (elim conjE, assumption)+
  have pu: "p \<in> set (l_ud L')" by (simp add: u)
  from free_device_hit [OF I1 pu q] obtain mgr2 h2 L2 where c2: "cb_free_device mgr1 h1 q = Some (CB_SUCCESS, mgr2, h2)"
    and o2: "device_free_ok mgr1 h1 L' p mgr2 h2 L2" by blast
  have s: "of_nat (snd a) = mb_size (the (hp_mem (h_blocks h1) p))" using ra by (auto simp: region_of_def)
  have "regions h2 (l_fd L2) = regions h (l_fd L)"
    using o2 G ra ff.release_restores [OF can r f] by (simp add: device_free_ok_def)
  moreover have ul: "l_ud L2 = l_ud L" and "mgr_inv mgr2 h2 L2"
    using o2 u by (simp_all add: device_free_ok_def)
  moreover have u2: "regions h2 (l_ud L2) = regions h1 (l_ud L2)"
    using o2 [unfolded device_free_ok_def] by - (elim conjE, assumption)
  moreover have "regions h2 (l_ud L2) = regions h (l_ud L)" by (rule trans [OF u2]) (simp only: ul ru)
  moreover have "mm_total_allocated mgr2 = mm_total_allocated mgr" using o2 ta s by (simp add: device_free_ok_def)
  moreover have "pl_used_list (mm_device_pool mgr1) = Some p"
    using inv_used_dll [OF mgr_inv_parts(1) [OF I1]] u by simp
  moreover have "cb_mem_get_info mgr2 = (CB_SUCCESS, fst (snd (cb_mem_get_info mgr)) +
      (mb_size (the (hp_mem (h_blocks h1) p)) - align_up sz (pl_page_size (mm_device_pool mgr))),
      snd (snd (cb_mem_get_info mgr)))"
    using o2 us sp by (simp add: device_free_ok_def cb_mem_get_info_def same_pool_def)
  ultimately show ?thesis using I c2 by blast
qed

text \<open>A device of 3 MB and one byte: the whole pool is handed out, and its release leaves a surplus.\<close>

theorem malloc_free_device_restores_witness:
  "\<exists>mgr1 h1 mgr2 h2. cb_malloc_device (fst (small_manager 0x300000)) (snd (small_manager 0x300000)) True 1 =
     Some (CB_SUCCESS, Some 0x200000000, mgr1, h1) \<and> cb_free_device mgr1 h1 0x200000000 = Some (CB_SUCCESS, mgr2, h2) \<and>
     cb_mem_get_info mgr2 = (CB_SUCCESS, 0x400000, 0x300000)"
proof -
  obtain mgr1 h1 where c: "cb_malloc_device (fst (small_manager 0x300000)) (snd (small_manager 0x300000)) True 1 =
      Some (CB_SUCCESS, Some 0x200000000, mgr1, h1)"
    and s: "\<And>p. pl_used_list (mm_device_pool mgr1) = Some p \<Longrightarrow> mb_size (the (hp_mem (h_blocks h1) p)) = 0x300000"
    by (simp add: small_eval call_eval)
  have i: "cb_mem_get_info (fst (small_manager 0x300000)) = (CB_SUCCESS, 0x300000, 0x300000)"
    "align_up 1 (pl_page_size (mm_device_pool (fst (small_manager 0x300000)))) = 0x200000"
    by (simp_all add: small_eval cb_mem_get_info_def align_up_def)
  from malloc_free_device_restores [OF small_reach c] i s c show ?thesis by auto
qed

theorem malloc_device_fresh_witness:
  "\<exists>L :: lists. \<forall>x. 0x200000000 \<le> x \<and> x < 0x200000000 + 5 \<longrightarrow>
     owners (regions (snd (small_manager 0x300000)) (l_fd L)) x = 1 \<and>
     owners (regions (snd (small_manager 0x300000)) (l_ud L)) x = 0"
proof -
  obtain mgr1 h1 where c: "cb_malloc_device (fst (small_manager 0x300000)) (snd (small_manager 0x300000)) True 5 =
      Some (CB_SUCCESS, Some 0x200000000, mgr1, h1)"
    by (simp add: small_eval call_eval)
  from malloc_device_fresh [OF small_reach c] obtain L :: lists and q where q: "Some 0x200000000 = Some (q :: u64)"
    and x: "\<forall>x. unat q \<le> x \<and> x < unat q + unat (5 :: u64) \<longrightarrow>
      in_pool (mm_device_pool (fst (small_manager 0x300000))) x \<and>
      owners (regions (snd (small_manager 0x300000)) (l_fd L)) x = 1 \<and>
      owners (regions (snd (small_manager 0x300000)) (l_ud L)) x = 0"
    by - (elim exE conjE, rule that, assumption+)
  have "q = 0x200000000" using q by simp
  with x show ?thesis by (intro exI [of _ L]) simp
qed

text \<open>A fresh managed block and its buffer.\<close>

lemma malloc_managed_block:
  assumes "mgr_reach n mgr h" and c: "cb_malloc_managed mgr h b sz flags = Some (CB_SUCCESS, Some q, mgr1, h1)"
  obtains p blk L1 us where "mgr_inv mgr1 h1 L1" and "l_um L1 = p # us" and "pl_used_list (mm_managed_pool mgr1) = Some p"
    and "hp_mem (h_blocks h1) p = Some blk" and "mb_host_addr blk = q" and "q \<noteq> 0"
    and "hm_live (h_host h1) q = Some (buf_new (unat sz))" and "align_up sz (pl_page_size (mm_managed_pool mgr)) \<le> mb_size blk"
    and "sz \<le> mb_size blk"
proof -
  obtain L where I: "mgr_inv mgr h L" using reach_inv [OF assms(1)] by blast
  have sz: "b" "sz \<noteq> 0" "mm_unified_memory_enabled mgr" using c by (auto simp: cb_malloc_managed_def split: if_splits)
  obtain r pool hb where a: "pool_alloc (mm_managed_pool mgr) (h_blocks h) sz = Some (r, pool, hb)"
    using c sz by (auto simp: cb_malloc_managed_def bind_Some_iff)
  obtain p where r: "r = Some p" using c sz a by (cases r) (auto simp: cb_malloc_managed_def)
  obtain hp hm where ha: "host_alloc (h_host h) sz = (hp, hm)" by fastforce
  have hp: "hp \<noteq> 0" using c sz a r ha by (auto simp: cb_malloc_managed_def bind_Some_iff)
  from managed_alloc [OF I sz(2) a [unfolded r]] obtain L1 where I1: "mgr_inv (mgr\<lparr>mm_managed_pool := pool,
      mm_total_allocated := mm_total_allocated mgr + mb_size (the (hp_mem hb p))\<rparr>) (h\<lparr>h_blocks := hb\<rparr>) L1"
    and l: "l_um L1 = p # l_um L"
    and al: "unat (align_up sz (pl_page_size (mm_managed_pool mgr))) \<le> snd (region_of (hp_mem hb) p)"
    and us: "unat sz \<le> snd (region_of (hp_mem hb) p)" by blast
  have P: "pool_inv pool (hp_mem hb) (l_fm L1) (p # l_um L)" using mgr_inv_parts(3) [OF I1] l by simp
  obtain bb where bb: "hp_mem hb p = Some bb" using inv_live [OF P, of p] by auto
  have ul: "pl_used_list pool = Some p" using inv_used_dll [OF P] by simp
  let ?b = "bb\<lparr>mb_host_addr := hp, mb_flags := CB_MEM_FLAG_MANAGED OR flags, mb_is_managed := True,
    mb_device_id := mm_device_id mgr, mb_preferred_device := mm_device_id mgr\<rparr>"
  have e: "mgr1 = count_allocated (mgr\<lparr>mm_managed_pool := pool\<rparr>) (mb_size bb)" "q = hp"
    "h1 = h\<lparr>h_blocks := hb\<lparr>hp_mem := (hp_mem hb)(p \<mapsto> ?b)\<rparr>, h_host := hm\<rparr>"
    using c sz a r ha hp bb by (auto simp: cb_malloc_managed_def upd_block_at heap_get_def)
  have live: "hm_live hm hp = Some (buf_new (unat sz))"
    using ha hp by (auto simp: host_alloc_def Let_def split: option.splits)
  have q1: "p \<in> set (all_blocks L1)" using l by (simp add: all_blocks_def)
  have b0: "hp_mem (h_blocks (h\<lparr>h_blocks := hb\<rparr>)) p = Some bb" using bb by simp
  have "same_core bb ?b" by (rule core_managed)
  from mgr_data_step(1) [OF I1 b0 this q1] have "mgr_inv mgr1 h1 L1" by (rule mgr_fields) (simp_all add: e bb)
  then show thesis
    by (rule that [OF _ l, of ?b]) (use e ul hp live al us bb in \<open>simp_all add: region_of_def word_le_nat_alt\<close>)
qed

text \<open>
  C37. A block that \<open>cb_malloc_managed\<close> just returned can be released by \<open>cb_free_managed\<close> without undefined
  behaviour exactly when its block is as large as the request: the release clears \<open>block->size\<close> bytes
  of a buffer of \<open>size\<close> bytes, and the block is at least the request rounded up to the pool's page.
\<close>

theorem free_managed_overruns:
  assumes "mgr_reach n mgr h" and "cb_malloc_managed mgr h b sz flags = Some (CB_SUCCESS, Some q, mgr1, h1)"
    and "find_used (h_blocks h1) (\<lambda>b. mb_gpu_addr b = q) (pl_used_list (mm_device_pool mgr1)) = Some None"
    and "find_used (h_blocks h1) (\<lambda>b. mb_host_addr b = q) (pl_used_list (mm_pinned_pool mgr1)) = Some None"
  shows "\<exists>p. pl_used_list (mm_managed_pool mgr1) = Some p \<and>
    (cb_free_managed mgr1 h1 q \<noteq> None \<longleftrightarrow> mb_size (the (hp_mem (h_blocks h1) p)) = sz) \<and>
    align_up sz (pl_page_size (mm_managed_pool mgr)) \<le> mb_size (the (hp_mem (h_blocks h1) p)) \<and>
    sz \<le> mb_size (the (hp_mem (h_blocks h1) p))"
proof -
  from assms(1,2) obtain p blk L1 us where I: "mgr_inv mgr1 h1 L1" and l: "l_um L1 = p # us"
    and ul: "pl_used_list (mm_managed_pool mgr1) = Some p" and b1: "hp_mem (h_blocks h1) p = Some blk" and q: "mb_host_addr blk = q" "q \<noteq> 0"
    and live: "hm_live (h_host h1) q = Some (buf_new (unat sz))"
    and al: "align_up sz (pl_page_size (mm_managed_pool mgr)) \<le> mb_size blk" "sz \<le> mb_size blk" by (rule malloc_managed_block)
  have f: "cb_find_block mgr1 (h_blocks h1) q = Some (Some p)"
    using q assms(3,4) ul b1 unfolding cb_find_block_def by (simp add: find_used.simps [of _ _ "Some p"] heap_get_def)
  note i1 = mgr_inv_parts [OF I]
  obtain v where v: "pool_free (mm_managed_pool mgr1) (h_blocks h1) (Some p) = Some v"
    using pool_free_refines [OF i1(3,4), of p] l by auto
  have "cb_free_managed mgr1 h1 q \<noteq> None \<longleftrightarrow> unat (mb_size blk) \<le> unat sz"
    using q f b1 live v by (cases v) (simp add: cb_free_managed_def heap_get_def host_wipe_def host_free_def buf_new_def)
  then show ?thesis using ul al b1
    by (intro exI [of _ p]) (auto simp: word_le_nat_alt word_unat_eq_iff)
qed

lemma small_malloc_managed:
  "\<exists>mgr1 h1. cb_malloc_managed (fst (small_manager 0x300000)) (snd (small_manager 0x300000)) True 100 0 =
     Some (CB_SUCCESS, Some 0x7f0000000000, mgr1, h1) \<and>
     pl_used_list (mm_device_pool mgr1) = None \<and> pl_used_list (mm_pinned_pool mgr1) = None"
  by (simp add: small_eval call_eval)

text \<open>One hundred bytes of managed memory: the block has 64 KB, and its release overruns the buffer.\<close>

theorem free_managed_overruns_witness:
  "\<exists>mgr1 h1. cb_malloc_managed (fst (small_manager 0x300000)) (snd (small_manager 0x300000)) True 100 0 =
     Some (CB_SUCCESS, Some 0x7f0000000000, mgr1, h1) \<and> cb_free_managed mgr1 h1 0x7f0000000000 = None"
proof -
  obtain mgr1 h1 where c: "cb_malloc_managed (fst (small_manager 0x300000)) (snd (small_manager 0x300000)) True 100 0 =
      Some (CB_SUCCESS, Some 0x7f0000000000, mgr1, h1)"
    and n: "pl_used_list (mm_device_pool mgr1) = None" "pl_used_list (mm_pinned_pool mgr1) = None"
    using small_malloc_managed by blast
  have f: "find_used (h_blocks h1) P None = Some None" for P by (simp add: find_used.simps)
  have a: "align_up 100 (pl_page_size (mm_managed_pool (fst (small_manager 0x300000)))) = 0x10000"
    by (simp add: small_eval align_up_def)
  have "\<exists>p. pl_used_list (mm_managed_pool mgr1) = Some p \<and>
      (cb_free_managed mgr1 h1 0x7f0000000000 \<noteq> None \<longleftrightarrow> mb_size (the (hp_mem (h_blocks h1) p)) = 100) \<and>
      align_up 100 (pl_page_size (mm_managed_pool (fst (small_manager 0x300000)))) \<le> mb_size (the (hp_mem (h_blocks h1) p)) \<and>
      100 \<le> mb_size (the (hp_mem (h_blocks h1) p))"
    by (rule free_managed_overruns [OF small_reach c]) (simp_all add: n f)
  then have "cb_free_managed mgr1 h1 0x7f0000000000 = None"
    by (cases "cb_free_managed mgr1 h1 0x7f0000000000") (auto simp: a)
  with c show ?thesis by blast
qed

text \<open>
  The entry points that do not release are free of undefined behaviour in every reachable state:
  allocation on the device, queries, hints, and the search for the block of any address all return.
\<close>

theorem memory_queries_return:
  assumes "mgr_reach n mgr h"
  shows "cb_malloc_device mgr h b sz \<noteq> None \<and> cb_find_block mgr (h_blocks h) q \<noteq> None \<and>
    cb_mem_advise mgr h q adv dv \<noteq> None \<and> cb_mem_prefetch mgr h q \<noteq> None \<and>
    cb_pointer_get_attributes mgr h q \<noteq> None"
proof -
  obtain L where I: "mgr_inv mgr h L" using reach_inv [OF assms] by blast
  note i = mgr_inv_parts [OF I]
  from find_block_total [OF I, of q] obtain r where r: "cb_find_block mgr (h_blocks h) q = Some r"
    and rp: "\<forall>p. r = Some p \<longrightarrow> p \<in> set (l_ud L) \<union> set (l_up L) \<union> set (l_um L)" by blast
  have live: "\<exists>b. hp_mem (h_blocks h) p = Some b" if "r = Some p" for p
    using that rp inv_live [OF i(1), of p] inv_live [OF i(2), of p] inv_live [OF i(3), of p] by blast
  have f: "cb_find_block mgr (h_blocks h) q \<noteq> None" using r by simp
  have g: "cb_mem_prefetch mgr h q \<noteq> None" "cb_pointer_get_attributes mgr h q \<noteq> None"
    using r live by (auto simp: cb_mem_prefetch_def cb_pointer_get_attributes_def heap_get_def split: option.splits)
  have a: "cb_mem_advise mgr h q adv dv \<noteq> None"
    using r live by (cases adv) (auto simp: cb_mem_advise_def heap_get_def upd_block_at split: option.splits)
  have "cb_malloc_device mgr h b sz \<noteq> None"
  proof (cases "b \<and> sz \<noteq> 0")
    case True
    then show ?thesis using malloc_device_cases [OF I, of sz] by (auto split: option.splits)
  qed (auto simp: cb_malloc_device_def)
  with f g a show ?thesis by blast
qed

theorem memory_queries_return_witness:
  "cb_find_block (fst (small_manager 0x300000)) (h_blocks (snd (small_manager 0x300000))) 7 \<noteq> None"
  using memory_queries_return [OF small_reach, of True 1 7 CB_MEM_ADVISE_SET_READ_MOSTLY 0] by blast

text \<open>
  C36. \<open>cb_memory_manager_shutdown\<close> frees every block header of the pools and the page table, each once;
  what is left of the block heap are the headers \<open>cb_malloc_host\<close> made outside its pool, one per such
  call, and the host memory of blocks still in use.
\<close>

theorem memory_shutdown_leak:
  assumes "mgr_reach n mgr h"
  shows "\<exists>h'. cb_memory_manager_shutdown mgr h = Some (mgr_zero, h') \<and> card (dom (hp_mem (h_blocks h'))) = n \<and>
    hp_mem (h_tables h') = Map.empty \<and> h_host h' = h_host h"
proof -
  obtain L where I: "mgr_inv mgr h L" "card (dom (stray h L)) = n" using reach_inv [OF assms] by blast
  from manager_shutdown_frees [OF I(1)] show ?thesis using I(2) by auto
qed

theorem memory_shutdown_leak_witness:
  "\<exists>h'. cb_memory_manager_shutdown (fst (small_manager 0x300000)) (snd (small_manager 0x300000)) = Some (mgr_zero, h') \<and>
     card (dom (hp_mem (h_blocks h'))) = 0"
  using memory_shutdown_leak [OF small_reach] by blast

text \<open>
  The address ranges \<open>cb_memory_manager_init\<close> gives the device pool and the managed pool overlap as
  soon as half of the device memory exceeds 4 GB per device number plus one: device 0 with more than
  8 GB hands out the same GPU address from both pools.
\<close>

theorem device_managed_overlap:
  assumes "cb_memory_manager_init h i sz = Some (CB_SUCCESS, mgr, h')" and "init_ok i sz"
    and "hp_mem (h_blocks h) = Map.empty" and "hp_mem (h_tables h) = Map.empty"
  shows "(\<exists>x. in_pool (mm_device_pool mgr) x \<and> in_pool (mm_managed_pool mgr) x) \<longleftrightarrow>
    2 ^ 32 * (1 + nat i) < unat sz div 2"
proof -
  from manager_init_inv [OF assms] have p: "pl_base_addr (mm_device_pool mgr) = device_base i"
    "pl_total_size (mm_device_pool mgr) = sz" "pl_base_addr (mm_managed_pool mgr) = 0x100000000"
    "pl_total_size (mm_managed_pool mgr) = sz div 2" by blast+
  have b: "unat (device_base i) = 2 ^ 33 + nat i * 2 ^ 32" and s: "2 \<le> unat sz"
    using assms(2) device_base_nat [of i] by (simp_all add: init_ok_def)
  have u: "unat (sz div 2) = unat sz div 2" "unat (0x100000000 :: u64) = 2 ^ 32" by (simp_all add: unat_div)
  show ?thesis
  proof
    assume "\<exists>x. in_pool (mm_device_pool mgr) x \<and> in_pool (mm_managed_pool mgr) x"
    then show "2 ^ 32 * (1 + nat i) < unat sz div 2" unfolding in_pool_def p b u by auto
  next
    assume "2 ^ 32 * (1 + nat i) < unat sz div 2"
    then show "\<exists>x. in_pool (mm_device_pool mgr) x \<and> in_pool (mm_managed_pool mgr) x"
      using s unfolding in_pool_def p b u by (intro exI [of _ "2 ^ 33 + nat i * 2 ^ 32"]) simp
  qed
qed

theorem device_managed_overlap_witness:
  "\<exists>mgr h'. cb_memory_manager_init small_heap 0 0x400000000 = Some (CB_SUCCESS, mgr, h') \<and>
     (\<exists>x. in_pool (mm_device_pool mgr) x \<and> in_pool (mm_managed_pool mgr) x)"
proof -
  obtain mgr h' where c: "cb_memory_manager_init small_heap 0 0x400000000 = Some (CB_SUCCESS, mgr, h')"
    by (simp add: small_eval)
  have "(\<exists>x. in_pool (mm_device_pool mgr) x \<and> in_pool (mm_managed_pool mgr) x) \<longleftrightarrow>
      2 ^ 32 * (1 + nat 0) < unat (0x400000000 :: u64) div 2"
    by (rule device_managed_overlap [OF c]) (simp_all add: init_ok_def small_heap_def heap_empty_def)
  with c show ?thesis by auto
qed

end
