(* ===== verification/Cuda_Runtime.thy ===== *)
theory Cuda_Runtime
  imports Nvidia Memory_Manager
begin

text \<open>
  The CUDA runtime layer of \<open>src/cuda/runtime/cuda_runtime.c\<close>: the global state, initialisation over
  the USB4, PCIe and GPU layers with the simulation fallback, shutdown, and the exported functions.

  The global \<open>g_state\<close> and the heaps the layers use form one record, the world. The USB4 context
  embedded in \<open>g_state\<close> is the object at address \<open>g_usb4\<close> of the heap the PCIe layer reads it from.
  A function returns its code, what it stores through its output pointers and the world;
  \<^const>\<open>None\<close> is undefined behaviour. Host memory the runtime allocates is in \<open>w_host\<close>; the bytes
  that a host pointer given by the caller makes accessible are arguments. The lock, which one thread
  never finds taken, and the log are left out; what the operating system returns (\<open>getenv\<close>, the
  clock, IOKit) is an argument.
\<close>

section \<open>Data\<close>

datatype cudaError =
    cudaSuccess | cudaErrorInvalidValue | cudaErrorMemoryAllocation | cudaErrorInitializationError
  | cudaErrorCudartUnloading | cudaErrorProfilerDisabled | cudaErrorInvalidConfiguration
  | cudaErrorInvalidPitchValue | cudaErrorInvalidSymbol | cudaErrorInvalidHostPointer
  | cudaErrorInvalidDevicePointer | cudaErrorInvalidTexture | cudaErrorInvalidTextureBinding
  | cudaErrorInvalidChannelDescriptor | cudaErrorInvalidMemcpyDirection | cudaErrorInvalidFilterSetting
  | cudaErrorInvalidNormSetting | cudaErrorUnknown | cudaErrorInvalidResourceHandle
  | cudaErrorInsufficientDriver | cudaErrorNoDevice | cudaErrorSetOnActiveProcess | cudaErrorInvalidDevice
  | cudaErrorDeviceAlreadyInUse | cudaErrorLaunchFailure | cudaErrorLaunchTimeout
  | cudaErrorLaunchOutOfResources | cudaErrorNotReady | cudaErrorPeerAccessAlreadyEnabled
  | cudaErrorPeerAccessNotEnabled | cudaErrorDevicesUnavailable | cudaErrorHostMemoryAlreadyRegistered
  | cudaErrorHostMemoryNotRegistered

datatype cudaMemcpyKind =
    cudaMemcpyHostToHost | cudaMemcpyHostToDevice | cudaMemcpyDeviceToHost | cudaMemcpyDeviceToDevice
  | cudaMemcpyDefault

definition MAX_HOST_ALLOCS :: nat where "MAX_HOST_ALLOCS = 1024"
definition CUDA_VERSION :: int where "CUDA_VERSION = 12000"

record HostAllocInfo =
  ha_ptr :: u64
  ha_is_managed :: bool

text \<open>The arrays are the lists of their first \<open>gpu_count\<close> and \<open>host_alloc_count\<close> entries.\<close>

record CudaBridgeState =
  gs_initialized :: bool
  gs_pcie_ctx :: PCIeTunnelContext
  gs_gpu_contexts :: "ptr option list"
  gs_current_device :: int
  gs_last_error :: cudaError
  gs_host_allocs :: "HostAllocInfo list"
  gs_simulation_mode :: bool

record CUstream_st =
  cs_device :: int
  cs_channel :: "ptr option"
  cs_is_default :: bool

record CUevent_st =
  ev_device :: int
  ev_timestamp :: u64
  ev_recorded :: bool

record world =
  w_state :: CudaBridgeState
  w_usb4 :: usb4_heap
  w_nv :: nv_heap
  w_gpus :: "NVGpuContext heap"
  w_streams :: "CUstream_st heap"
  w_events :: "CUevent_st heap"
  w_host :: host_mem

record cuda_env =
  env_iokit :: "iokit option"
  env_simulation :: "string option"

text \<open>The fields of \<open>cudaDeviceProp\<close> the code sets; it clears the others.\<close>

record cudaDeviceProp =
  dp_name :: string
  dp_totalGlobalMem :: u64
  dp_sharedMemPerBlock :: u64
  dp_regsPerBlock :: int
  dp_warpSize :: int
  dp_maxThreadsPerBlock :: int
  dp_maxThreadsDim :: "int list"
  dp_maxGridSize :: "int list"
  dp_clockRate :: int
  dp_major :: int
  dp_minor :: int
  dp_multiProcessorCount :: int
  dp_l2CacheSize :: int
  dp_memoryClockRate :: int
  dp_memoryBusWidth :: int
  dp_maxThreadsPerMultiProcessor :: int
  dp_sharedMemPerMultiprocessor :: u64
  dp_regsPerMultiprocessor :: int
  dp_concurrentKernels :: int
  dp_asyncEngineCount :: int
  dp_unifiedAddressing :: int
  dp_managedMemory :: int
  dp_cooperativeLaunch :: int

definition state_zero :: CudaBridgeState where
  "state_zero = \<lparr>gs_initialized = False, gs_pcie_ctx = pcie_ctx_zero, gs_gpu_contexts = [],
     gs_current_device = 0, gs_last_error = cudaSuccess, gs_host_allocs = [], gs_simulation_mode = False\<rparr>"

definition g_usb4 :: ptr where "g_usb4 = 0"

definition set_state :: "(CudaBridgeState \<Rightarrow> CudaBridgeState) \<Rightarrow> world \<Rightarrow> world" where
  "set_state f w = w\<lparr>w_state := f (w_state w)\<rparr>"

definition set_error :: "cudaError \<Rightarrow> world \<Rightarrow> world" where
  "set_error error = set_state (gs_last_error_update (\<lambda>_. error))"

abbreviation w_pcie :: "world \<Rightarrow> pcie_heap" where "w_pcie w \<equiv> h_pcie (w_nv w)"

definition set_pcie :: "pcie_heap \<Rightarrow> world \<Rightarrow> world" where
  "set_pcie hp w = w\<lparr>w_nv := (w_nv w)\<lparr>h_pcie := hp\<rparr>\<rparr>"

definition get_usb4_ctx :: "world \<Rightarrow> USB4ControllerContext option" where
  "get_usb4_ctx w = heap_get (h_usb4 (w_pcie w)) g_usb4"

definition put_usb4 :: "USB4ControllerContext \<Rightarrow> usb4_heap \<Rightarrow> world \<Rightarrow> world option" where
  "put_usb4 ctx hu w =
     do { hx \<leftarrow> heap_put (h_usb4 (w_pcie w)) g_usb4 ctx;
          Some (set_pcie ((w_pcie w)\<lparr>h_usb4 := hx\<rparr>) (w\<lparr>w_usb4 := hu\<rparr>)) }"

section \<open>Initialisation and shutdown\<close>

definition get_current_gpu :: "world \<Rightarrow> ptr option" where
  "get_current_gpu w =
     (let s = w_state w in
      if \<not> gs_initialized s \<or> gs_current_device s < 0 \<or>
         gs_current_device s \<ge> int (length (gs_gpu_contexts s)) then None
      else gs_gpu_contexts s ! nat (gs_current_device s))"

definition use_simulation_fallback :: "string option \<Rightarrow> bool" where
  "use_simulation_fallback mode =
     (case mode of
        None \<Rightarrow> True
      | Some m \<Rightarrow> if m = [] then True
                  else if m = ''0'' \<or> m = ''off'' \<or> m = ''false'' then False else True)"

text \<open>The loop over the routers; the results of the calls are not used.\<close>

fun create_tunnels :: "world \<Rightarrow> ptr option list \<Rightarrow> world option" where
  "create_tunnels w [] = Some w"
| "create_tunnels w (r # rs) =
     (case r of
        None \<Rightarrow> create_tunnels w rs
      | Some p \<Rightarrow>
          do { ctx \<leftarrow> get_usb4_ctx w;
               (_, _, ctx, hu) \<leftarrow> usb4_create_pcie_tunnel ctx (w_usb4 w) (Some (Rt p)) True;
               w \<leftarrow> put_usb4 ctx hu w;
               create_tunnels w rs })"

definition add_gpu :: "ptr \<Rightarrow> CudaBridgeState \<Rightarrow> CudaBridgeState" where
  "add_gpu gp = gs_gpu_contexts_update (\<lambda>gs. gs @ [Some gp])"

fun init_gpus :: "world \<Rightarrow> ptr option list \<Rightarrow> world option" where
  "init_gpus w [] = Some w"
| "init_gpus w (d # ds) =
     (if length (gs_gpu_contexts (w_state w)) \<ge> 8 then Some w
      else case d of
        None \<Rightarrow> init_gpus w ds
      | Some p \<Rightarrow>
          do { dev \<leftarrow> heap_get (h_devices (w_pcie w)) p;
               if dv_vendor_id dev = 0x10DE then
                 (case heap_alloc (w_gpus w) gpu_ctx_zero of
                    (None, hg) \<Rightarrow> init_gpus (w\<lparr>w_gpus := hg\<rparr>) ds
                  | (Some gp, hg) \<Rightarrow>
                      do { (ret, ctx, nv) \<leftarrow> nv_gpu_init gpu_ctx_zero (w_nv w) (Some p);
                           hg \<leftarrow> heap_put hg gp ctx;
                           if ret = NV_SUCCESS then
                             init_gpus (set_state (add_gpu gp) (w\<lparr>w_nv := nv, w_gpus := hg\<rparr>)) ds
                           else do { hg \<leftarrow> heap_free hg gp;
                                     init_gpus (w\<lparr>w_nv := nv, w_gpus := hg\<rparr>) ds } })
               else init_gpus w ds })"

definition virtual_gpu :: NVGpuContext where
  "virtual_gpu =
     (let info = info_zero\<lparr>di_name := ''CudaBridge Virtual GPU'', di_architecture := NV_ARCH_AMPERE,
            di_vram_size := 8 * 1024 * 1024 * 1024, di_compute_cap_major := 8, di_compute_cap_minor := 6,
            di_sm_info := (di_sm_info info_zero)\<lparr>sm_count := 40, sm_cores_per_sm := 128\<rparr>,
            di_max_threads_per_block := 1024\<rparr>
      in gpu_ctx_zero\<lparr>gpu_state := NV_GPU_STATE_READY, gpu_info := info, gpu_vram_free := di_vram_size info\<rparr>)"

definition shutdown_usb4 :: "world \<Rightarrow> world option" where
  "shutdown_usb4 w =
     do { ctx \<leftarrow> get_usb4_ctx w;
          (ctx, hu) \<leftarrow> usb4_controller_shutdown ctx (w_usb4 w);
          put_usb4 ctx hu w }"

definition shutdown_pcie :: "world \<Rightarrow> world option" where
  "shutdown_pcie w =
     do { (ctx, hp) \<leftarrow> pcie_tunnel_shutdown (gs_pcie_ctx (w_state w)) (w_pcie w);
          Some (set_pcie hp (set_state (gs_pcie_ctx_update (\<lambda>_. ctx)) w)) }"

definition init_done :: "world \<Rightarrow> cudaError \<times> world" where
  "init_done w = (cudaSuccess, set_state (\<lambda>s. s\<lparr>gs_current_device := 0, gs_initialized := True,
     gs_last_error := cudaSuccess\<rparr>) w)"

text \<open>The part after the search for GPUs.\<close>

definition init_finish :: "cuda_env \<Rightarrow> world \<Rightarrow> (cudaError \<times> world) option" where
  "init_finish env w =
     (if gs_gpu_contexts (w_state w) = [] then
        if \<not> use_simulation_fallback (env_simulation env) then
          do { w \<leftarrow> shutdown_usb4 w;
               w \<leftarrow> shutdown_pcie w;
               Some (cudaErrorNoDevice, set_error cudaErrorNoDevice w) }
        else case heap_alloc (w_gpus w) virtual_gpu of
               (None, hg) \<Rightarrow> Some (cudaErrorMemoryAllocation,
                 set_error cudaErrorMemoryAllocation (w\<lparr>w_gpus := hg\<rparr>))
             | (Some gp, hg) \<Rightarrow>
                 Some (init_done (set_state (\<lambda>s. (add_gpu gp s)\<lparr>gs_simulation_mode := True\<rparr>)
                   (w\<lparr>w_gpus := hg\<rparr>)))
      else Some (init_done w))"

definition cudaBridgeInit :: "cuda_env \<Rightarrow> world \<Rightarrow> (cudaError \<times> world) option" where
  "cudaBridgeInit env w =
     (if gs_initialized (w_state w) then Some (cudaSuccess, w)
      else
        do { (ret, ctx, hu) \<leftarrow> usb4_controller_init (env_iokit env) (w_usb4 w);
             w \<leftarrow> put_usb4 ctx hu w;
             if ret \<noteq> USB4_SUCCESS then
               Some (cudaErrorInitializationError, set_error cudaErrorInitializationError w)
             else do {
               let (_, ctx, hu) = usb4_scan_routers (env_iokit env) ctx (w_usb4 w);
               w \<leftarrow> put_usb4 ctx hu w;
               let (ret, pctx) = pcie_tunnel_init (Some g_usb4) (gs_pcie_ctx (w_state w));
               let w = set_state (gs_pcie_ctx_update (\<lambda>_. pctx)) w;
               if ret \<noteq> PCIE_SUCCESS then
                 do { w \<leftarrow> shutdown_usb4 w;
                      Some (cudaErrorInitializationError, set_error cudaErrorInitializationError w) }
               else do {
                 w \<leftarrow> create_tunnels w (connected_routers ctx);
                 (_, pctx, hp) \<leftarrow> pcie_scan_bus pctx (w_pcie w);
                 let w = set_pcie hp (set_state (\<lambda>s. s\<lparr>gs_pcie_ctx := pctx, gs_gpu_contexts := []\<rparr>) w);
                 w \<leftarrow> init_gpus w (devices pctx);
                 init_finish env w } } })"

fun shutdown_gpus :: "world \<Rightarrow> ptr option list \<Rightarrow> world option" where
  "shutdown_gpus w [] = Some w"
| "shutdown_gpus w (q # qs) =
     (case q of
        None \<Rightarrow> shutdown_gpus w qs
      | Some gp \<Rightarrow>
          do { ctx \<leftarrow> heap_get (w_gpus w) gp;
               (_, nv) \<leftarrow> nv_gpu_shutdown ctx (w_nv w);
               hg \<leftarrow> heap_free (w_gpus w) gp;
               shutdown_gpus (w\<lparr>w_nv := nv, w_gpus := hg\<rparr>) qs })"

text \<open>The last step is the loop that clears \<open>g_state\<close>, the USB4 context in it included.\<close>

definition cudaBridgeShutdown :: "world \<Rightarrow> (cudaError \<times> world) option" where
  "cudaBridgeShutdown w =
     (if \<not> gs_initialized (w_state w) then Some (cudaSuccess, w)
      else
        do { w \<leftarrow> shutdown_gpus w (gs_gpu_contexts (w_state w));
             w \<leftarrow> shutdown_pcie w;
             w \<leftarrow> shutdown_usb4 w;
             w \<leftarrow> put_usb4 usb4_ctx_zero (w_usb4 w) w;
             Some (cudaSuccess, w\<lparr>w_state := state_zero\<rparr>) })"

section \<open>Devices\<close>

text \<open>\<open>set_error(e); return e;\<close>, for functions with an output and without.\<close>

definition fail :: "cudaError \<Rightarrow> world \<Rightarrow> cudaError \<times> world" where
  "fail e w = (e, set_error e w)"

definition fail_out :: "cudaError \<Rightarrow> world \<Rightarrow> cudaError \<times> 'a option \<times> world" where
  "fail_out e w = (e, None, set_error e w)"

definition cudaDriverGetVersion :: "bool \<Rightarrow> world \<Rightarrow> cudaError \<times> int option \<times> world" where
  "cudaDriverGetVersion has_out w =
     (if \<not> has_out then fail_out cudaErrorInvalidValue w else (cudaSuccess, Some CUDA_VERSION, w))"

definition cudaRuntimeGetVersion :: "bool \<Rightarrow> world \<Rightarrow> cudaError \<times> int option \<times> world" where
  "cudaRuntimeGetVersion has_out w =
     (if \<not> has_out then fail_out cudaErrorInvalidValue w else (cudaSuccess, Some CUDA_VERSION, w))"

text \<open>\<open>if (!g_state.initialized) cudaBridgeInit();\<close>\<close>

definition auto_init :: "cuda_env \<Rightarrow> world \<Rightarrow> world option" where
  "auto_init env w =
     (if \<not> gs_initialized (w_state w) then map_option snd (cudaBridgeInit env w) else Some w)"

definition cudaGetDeviceCount :: "cuda_env \<Rightarrow> bool \<Rightarrow> world \<Rightarrow> (cudaError \<times> int option \<times> world) option" where
  "cudaGetDeviceCount env has_out w =
     (if \<not> has_out then Some (fail_out cudaErrorInvalidValue w)
      else
        do { (err, w) \<leftarrow> (if \<not> gs_initialized (w_state w) then cudaBridgeInit env w else Some (cudaSuccess, w));
             if err \<noteq> cudaSuccess then Some (err, Some 0, w)
             else Some (cudaSuccess, Some (int (length (gs_gpu_contexts (w_state w)))), w) })"

definition cudaGetDevice :: "cuda_env \<Rightarrow> bool \<Rightarrow> world \<Rightarrow> (cudaError \<times> int option \<times> world) option" where
  "cudaGetDevice env has_out w =
     (if \<not> has_out then Some (fail_out cudaErrorInvalidValue w)
      else do { w \<leftarrow> auto_init env w;
                Some (cudaSuccess, Some (gs_current_device (w_state w)), w) })"

definition device_index_ok :: "int \<Rightarrow> world \<Rightarrow> bool" where
  "device_index_ok device w \<longleftrightarrow> \<not> (device < 0 \<or> device \<ge> int (length (gs_gpu_contexts (w_state w))))"

definition cudaSetDevice :: "cuda_env \<Rightarrow> int \<Rightarrow> world \<Rightarrow> (cudaError \<times> world) option" where
  "cudaSetDevice env device w =
     do { w \<leftarrow> auto_init env w;
          if \<not> device_index_ok device w then Some (fail cudaErrorInvalidDevice w)
          else Some (cudaSuccess, set_state (gs_current_device_update (\<lambda>_. device)) w) }"

text \<open>Assigning a \<open>uint32_t\<close> to an \<open>int\<close> keeps the bits.\<close>

definition device_prop :: "NVDeviceInfo \<Rightarrow> cudaDeviceProp" where
  "device_prop info = \<lparr>
     dp_name = take 255 (di_name info), dp_totalGlobalMem = di_vram_size info,
     dp_sharedMemPerBlock = ucast (sm_shared_mem_per_sm (di_sm_info info) div 2),
     dp_regsPerBlock = sint (sm_registers_per_sm (di_sm_info info)), dp_warpSize = 32,
     dp_maxThreadsPerBlock = sint (di_max_threads_per_block info),
     dp_maxThreadsDim = map sint (take 3 (di_max_block_dim info)),
     dp_maxGridSize = map sint (take 3 (di_max_grid_dim info)),
     dp_clockRate = sint (di_gpu_clock_mhz info * 1000),
     dp_major = sint (di_compute_cap_major info), dp_minor = sint (di_compute_cap_minor info),
     dp_multiProcessorCount = sint (sm_count (di_sm_info info)),
     dp_l2CacheSize = 48 * 1024 * 1024, dp_memoryClockRate = sint (di_mem_clock_mhz info * 1000),
     dp_memoryBusWidth = sint (di_vram_bus_width info),
     dp_maxThreadsPerMultiProcessor = sint (sm_max_threads_per_sm (di_sm_info info)),
     dp_sharedMemPerMultiprocessor = ucast (sm_shared_mem_per_sm (di_sm_info info)),
     dp_regsPerMultiprocessor = sint (sm_registers_per_sm (di_sm_info info)),
     dp_concurrentKernels = 1, dp_asyncEngineCount = 2, dp_unifiedAddressing = 1, dp_managedMemory = 1,
     dp_cooperativeLaunch = 1\<rparr>"

definition cudaGetDeviceProperties ::
  "cuda_env \<Rightarrow> bool \<Rightarrow> int \<Rightarrow> world \<Rightarrow> (cudaError \<times> cudaDeviceProp option \<times> world) option" where
  "cudaGetDeviceProperties env has_out device w =
     (if \<not> has_out then Some (fail_out cudaErrorInvalidValue w)
      else
        do { w \<leftarrow> auto_init env w;
             if \<not> device_index_ok device w then Some (fail_out cudaErrorInvalidDevice w)
             else case gs_gpu_contexts (w_state w) ! nat device of
               None \<Rightarrow> Some (fail_out cudaErrorInvalidDevice w)
             | Some gp \<Rightarrow> do { gpu \<leftarrow> heap_get (w_gpus w) gp;
                              Some (cudaSuccess, Some (device_prop (gpu_info gpu)), w) } })"

definition cudaDeviceReset :: "world \<Rightarrow> (cudaError \<times> world) option" where
  "cudaDeviceReset w =
     (case get_current_gpu w of
        None \<Rightarrow> Some (fail cudaErrorInvalidDevice w)
      | Some gp \<Rightarrow>
          do { gpu \<leftarrow> heap_get (w_gpus w) gp;
               (ret, nv) \<leftarrow> nv_gpu_reset gpu (w_nv w);
               let w = w\<lparr>w_nv := nv\<rparr>;
               if ret \<noteq> NV_SUCCESS then Some (fail cudaErrorUnknown w) else Some (cudaSuccess, w) })"

definition cudaDeviceSynchronize :: "world \<Rightarrow> (cudaError \<times> world) option" where
  "cudaDeviceSynchronize w =
     (case get_current_gpu w of
        None \<Rightarrow> Some (fail cudaErrorInvalidDevice w)
      | Some gp \<Rightarrow>
          do { gpu \<leftarrow> heap_get (w_gpus w) gp;
               (ret, gpu) \<leftarrow> nv_gpu_synchronize gpu (w_nv w);
               hg \<leftarrow> heap_put (w_gpus w) gp gpu;
               let w = w\<lparr>w_gpus := hg\<rparr>;
               if ret \<noteq> NV_SUCCESS then Some (fail cudaErrorUnknown w) else Some (cudaSuccess, w) })"

definition prop_attribute :: "int \<Rightarrow> cudaDeviceProp \<Rightarrow> int" where
  "prop_attribute attr prop =
     (if attr = 1 then dp_maxThreadsPerBlock prop
      else if attr = 2 then dp_maxThreadsDim prop ! 0
      else if attr = 3 then dp_maxThreadsDim prop ! 1
      else if attr = 4 then dp_maxThreadsDim prop ! 2
      else if attr = 5 then dp_maxGridSize prop ! 0
      else if attr = 10 then dp_warpSize prop
      else if attr = 16 then dp_multiProcessorCount prop
      else if attr = 75 then dp_major prop
      else if attr = 76 then dp_minor prop
      else 0)"

definition cudaDeviceGetAttribute ::
  "cuda_env \<Rightarrow> bool \<Rightarrow> int \<Rightarrow> int \<Rightarrow> world \<Rightarrow> (cudaError \<times> int option \<times> world) option" where
  "cudaDeviceGetAttribute env has_out attr device w =
     (if \<not> has_out then Some (fail_out cudaErrorInvalidValue w)
      else
        do { (err, prop, w) \<leftarrow> cudaGetDeviceProperties env True device w;
             if err \<noteq> cudaSuccess then Some (err, None, w)
             else do { prop \<leftarrow> prop; Some (cudaSuccess, Some (prop_attribute attr prop), w) } })"

section \<open>Memory\<close>

definition cudaMalloc :: "bool \<Rightarrow> u64 \<Rightarrow> world \<Rightarrow> (cudaError \<times> u64 option \<times> world) option" where
  "cudaMalloc has_out sz w =
     (if \<not> has_out \<or> sz = 0 then Some (fail_out cudaErrorInvalidValue w)
      else case get_current_gpu w of
        None \<Rightarrow> Some (fail_out cudaErrorInvalidDevice w)
      | Some gp \<Rightarrow>
          do { gpu \<leftarrow> heap_get (w_gpus w) gp;
               (ret, alloc, gpu, nv) \<leftarrow> nv_gpu_alloc_memory gpu (w_nv w)
                  (Some (alloc_zero\<lparr>ma_size := sz, ma_type := NV_MEM_TYPE_VIDEO\<rparr>));
               hg \<leftarrow> heap_put (w_gpus w) gp gpu;
               let w = w\<lparr>w_nv := nv, w_gpus := hg\<rparr>;
               if ret \<noteq> NV_SUCCESS then Some (fail_out cudaErrorMemoryAllocation w)
               else do { alloc \<leftarrow> alloc; Some (cudaSuccess, Some (ma_gpu_addr alloc), w) } })"

definition track_host_alloc :: "u64 \<Rightarrow> bool \<Rightarrow> world \<Rightarrow> world" where
  "track_host_alloc p is_managed w =
     (if length (gs_host_allocs (w_state w)) < MAX_HOST_ALLOCS
      then set_state (gs_host_allocs_update (\<lambda>as. as @ [\<lparr>ha_ptr = p, ha_is_managed = is_managed\<rparr>])) w
      else w)"

definition free_tracked_host_alloc :: "u64 \<Rightarrow> world \<Rightarrow> (bool \<times> world) option" where
  "free_tracked_host_alloc p w =
     (if find_from (\<lambda>a. ha_ptr a = p) (gs_host_allocs (w_state w)) = None then Some (False, w)
      else do { hm \<leftarrow> host_free (w_host w) p;
                Some (True, set_state (gs_host_allocs_update (remove_first (\<lambda>a. ha_ptr a = p)))
                  (w\<lparr>w_host := hm\<rparr>)) })"

definition cudaFree :: "u64 \<Rightarrow> world \<Rightarrow> (cudaError \<times> world) option" where
  "cudaFree devPtr w =
     (if devPtr = 0 then Some (cudaSuccess, w)
      else
        do { (tracked, w) \<leftarrow> free_tracked_host_alloc devPtr w;
             if tracked then Some (cudaSuccess, w)
             else case get_current_gpu w of
               None \<Rightarrow> Some (fail cudaErrorInvalidDevice w)
             | Some gp \<Rightarrow>
                 do { gpu \<leftarrow> heap_get (w_gpus w) gp;
                      (gpu, nv) \<leftarrow> nv_gpu_free_memory gpu (w_nv w) (Some (alloc_zero\<lparr>ma_gpu_addr := devPtr\<rparr>));
                      hg \<leftarrow> heap_put (w_gpus w) gp gpu;
                      Some (cudaSuccess, w\<lparr>w_nv := nv, w_gpus := hg\<rparr>) } })"

text \<open>
  A host pointer of the caller: its address, the bytes readable there and the number of bytes writable
  there. \<open>memcpy\<close> between overlapping ranges is undefined. The second component of the result are the
  bytes stored through \<open>dst\<close> when it is a host pointer.
\<close>

record host_ptr =
  hp_addr :: u64
  hp_bytes :: "u8 list"
  hp_room :: nat

definition host_store :: "host_ptr \<Rightarrow> u8 list \<Rightarrow> u8 list option" where
  "host_store dst bytes = (if length bytes \<le> hp_room dst then Some bytes else None)"

definition host_memcpy :: "host_ptr \<Rightarrow> host_ptr \<Rightarrow> u64 \<Rightarrow> u8 list option" where
  "host_memcpy dst src count =
     (if unat count \<le> length (hp_bytes src) \<and>
         \<not> ranges_overlap (unat (hp_addr dst)) (unat (hp_addr src)) (unat count)
      then host_store dst (take (unat count) (hp_bytes src)) else None)"

definition copy_result ::
  "nv_ret \<Rightarrow> u8 list option \<Rightarrow> world \<Rightarrow> cudaError \<times> u8 list option \<times> world" where
  "copy_result ret out w =
     (if ret \<noteq> NV_SUCCESS then (cudaErrorUnknown, out, set_error cudaErrorUnknown w) else (cudaSuccess, out, w))"

definition cudaMemcpy ::
  "host_ptr \<Rightarrow> host_ptr \<Rightarrow> u64 \<Rightarrow> cudaMemcpyKind \<Rightarrow> world \<Rightarrow> (cudaError \<times> u8 list option \<times> world) option" where
  "cudaMemcpy dst src count kind w =
     (if hp_addr dst = 0 \<or> hp_addr src = 0 \<or> count = 0 then Some (fail_out cudaErrorInvalidValue w)
      else
        (case kind of
           cudaMemcpyHostToHost \<Rightarrow>
             do { bytes \<leftarrow> host_memcpy dst src count; Some (copy_result NV_SUCCESS (Some bytes) w) }
         | _ \<Rightarrow>
             (case get_current_gpu w of
                None \<Rightarrow> Some (fail_out cudaErrorInvalidDevice w)
              | Some gp \<Rightarrow>
                  do { gpu \<leftarrow> heap_get (w_gpus w) gp;
                       (case kind of
                          cudaMemcpyHostToDevice \<Rightarrow>
                            do { (ret, gpu, nv) \<leftarrow> nv_gpu_memcpy_h2d gpu (w_nv w) (hp_addr dst)
                                   (Some (hp_bytes src)) count;
                                 hg \<leftarrow> heap_put (w_gpus w) gp gpu;
                                 Some (copy_result ret None (w\<lparr>w_nv := nv, w_gpus := hg\<rparr>)) }
                        | cudaMemcpyDeviceToHost \<Rightarrow>
                            do { (ret, out, gpu) \<leftarrow> nv_gpu_memcpy_d2h gpu (w_nv w) True (hp_addr src) count;
                                 out \<leftarrow> (case out of None \<Rightarrow> Some None
                                         | Some bytes \<Rightarrow> map_option Some (host_store dst bytes));
                                 hg \<leftarrow> heap_put (w_gpus w) gp gpu;
                                 Some (copy_result ret out (w\<lparr>w_gpus := hg\<rparr>)) }
                        | cudaMemcpyDeviceToDevice \<Rightarrow>
                            do { (ret, nv) \<leftarrow> nv_gpu_memcpy_d2d gpu (w_nv w) (hp_addr dst) (hp_addr src) count;
                                 Some (copy_result ret None (w\<lparr>w_nv := nv\<rparr>)) }
                        | _ \<Rightarrow> Some (fail_out cudaErrorInvalidMemcpyDirection w)) })))"

definition cudaMemcpyAsync ::
  "host_ptr \<Rightarrow> host_ptr \<Rightarrow> u64 \<Rightarrow> cudaMemcpyKind \<Rightarrow> ptr option \<Rightarrow> world \<Rightarrow>
   (cudaError \<times> u8 list option \<times> world) option" where
  "cudaMemcpyAsync dst src count kind stream w = cudaMemcpy dst src count kind w"

definition device_ptr :: "u64 \<Rightarrow> host_ptr" where
  "device_ptr a = \<lparr>hp_addr = a, hp_bytes = [], hp_room = 0\<rparr>"

definition cudaMemset :: "u64 \<Rightarrow> int \<Rightarrow> u64 \<Rightarrow> world \<Rightarrow> (cudaError \<times> world) option" where
  "cudaMemset devPtr val count w =
     (if devPtr = 0 \<or> count = 0 then Some (fail cudaErrorInvalidValue w)
      else if count > 1 * 1024 * 1024 * 1024 then Some (fail cudaErrorInvalidValue w)
      else
        let (tmp, hm) = host_alloc (w_host w) count;
            w = w\<lparr>w_host := hm\<rparr>
        in if tmp = 0 then Some (fail cudaErrorMemoryAllocation w)
           else do { (err, _, w) \<leftarrow> cudaMemcpy (device_ptr devPtr)
                        \<lparr>hp_addr = tmp, hp_bytes = replicate (unat count) (word_of_int val),
                         hp_room = unat count\<rparr> count cudaMemcpyHostToDevice w;
                     hm \<leftarrow> host_free (w_host w) tmp;
                     Some (err, w\<lparr>w_host := hm\<rparr>) })"

definition cudaMemsetAsync :: "u64 \<Rightarrow> int \<Rightarrow> u64 \<Rightarrow> ptr option \<Rightarrow> world \<Rightarrow> (cudaError \<times> world) option" where
  "cudaMemsetAsync devPtr val count stream w = cudaMemset devPtr val count w"

definition cudaMallocHost :: "bool \<Rightarrow> u64 \<Rightarrow> world \<Rightarrow> cudaError \<times> u64 option \<times> world" where
  "cudaMallocHost has_out sz w =
     (if \<not> has_out \<or> sz = 0 then fail_out cudaErrorInvalidValue w
      else
        let (p, hm) = host_alloc (w_host w) sz;
            w = w\<lparr>w_host := hm\<rparr>
        in if p = 0 then fail_out cudaErrorMemoryAllocation w
           else (cudaSuccess, Some p, track_host_alloc p False w))"

definition cudaFreeHost :: "u64 \<Rightarrow> world \<Rightarrow> (cudaError \<times> world) option" where
  "cudaFreeHost p w =
     (if p \<noteq> 0 then map_option (\<lambda>(_, w). (cudaSuccess, w)) (free_tracked_host_alloc p w)
      else Some (cudaSuccess, w))"

definition cudaHostAlloc :: "bool \<Rightarrow> u64 \<Rightarrow> u32 \<Rightarrow> world \<Rightarrow> cudaError \<times> u64 option \<times> world" where
  "cudaHostAlloc has_out sz flags w = cudaMallocHost has_out sz w"

definition cudaHostGetDevicePointer ::
  "bool \<Rightarrow> u64 \<Rightarrow> u32 \<Rightarrow> world \<Rightarrow> cudaError \<times> u64 option \<times> world" where
  "cudaHostGetDevicePointer has_out pHost flags w =
     (if \<not> has_out \<or> pHost = 0 then fail_out cudaErrorInvalidValue w else (cudaSuccess, Some pHost, w))"

definition cudaMemGetInfo :: "bool \<Rightarrow> bool \<Rightarrow> world \<Rightarrow> (cudaError \<times> (u64 \<times> u64) option \<times> world) option" where
  "cudaMemGetInfo has_free has_total w =
     (if \<not> has_free \<or> \<not> has_total then Some (fail_out cudaErrorInvalidValue w)
      else case get_current_gpu w of
        None \<Rightarrow> Some (fail_out cudaErrorInvalidDevice w)
      | Some gp \<Rightarrow>
          do { gpu \<leftarrow> heap_get (w_gpus w) gp;
               Some (cudaSuccess, Some (gpu_vram_free gpu, di_vram_size (gpu_info gpu)), w) })"

section \<open>Streams\<close>

definition cudaStreamCreateWithFlags ::
  "bool \<Rightarrow> u32 \<Rightarrow> world \<Rightarrow> (cudaError \<times> ptr option \<times> world) option" where
  "cudaStreamCreateWithFlags has_out flags w =
     (if \<not> has_out then Some (fail_out cudaErrorInvalidValue w)
      else case get_current_gpu w of
        None \<Rightarrow> Some (fail_out cudaErrorInvalidDevice w)
      | Some gp \<Rightarrow>
          (let stream = \<lparr>cs_device = gs_current_device (w_state w), cs_channel = None, cs_is_default = False\<rparr> in
           case heap_alloc (w_streams w) stream of
             (None, hs) \<Rightarrow> Some (fail_out cudaErrorMemoryAllocation (w\<lparr>w_streams := hs\<rparr>))
           | (Some sp, hs) \<Rightarrow>
               do { gpu \<leftarrow> heap_get (w_gpus w) gp;
                    (ret, channel, gpu, nv) \<leftarrow> nv_gpu_create_channel gpu (w_nv w) True;
                    hg \<leftarrow> heap_put (w_gpus w) gp gpu;
                    let w = w\<lparr>w_nv := nv, w_gpus := hg\<rparr>;
                    if ret \<noteq> NV_SUCCESS then
                      do { hs \<leftarrow> heap_free hs sp; Some (fail_out cudaErrorUnknown (w\<lparr>w_streams := hs\<rparr>)) }
                    else
                      do { hs \<leftarrow> heap_put hs sp (stream\<lparr>cs_channel := channel\<rparr>);
                           Some (cudaSuccess, Some sp, w\<lparr>w_streams := hs\<rparr>) } }))"

definition cudaStreamCreate :: "bool \<Rightarrow> world \<Rightarrow> (cudaError \<times> ptr option \<times> world) option" where
  "cudaStreamCreate has_out w = cudaStreamCreateWithFlags has_out 0 w"

definition cudaStreamDestroy :: "ptr option \<Rightarrow> world \<Rightarrow> (cudaError \<times> world) option" where
  "cudaStreamDestroy stream w =
     (case stream of
        None \<Rightarrow> Some (cudaSuccess, w)
      | Some sp \<Rightarrow>
          do { s \<leftarrow> heap_get (w_streams w) sp;
               if \<not> device_index_ok (cs_device s) w then
                 do { hs \<leftarrow> heap_free (w_streams w) sp; Some (fail cudaErrorInvalidDevice (w\<lparr>w_streams := hs\<rparr>)) }
               else
                 do { w \<leftarrow> (case gs_gpu_contexts (w_state w) ! nat (cs_device s) of
                              None \<Rightarrow> Some w
                            | Some gp \<Rightarrow>
                                if cs_channel s = None then Some w
                                else do { gpu \<leftarrow> heap_get (w_gpus w) gp;
                                          (gpu, nv) \<leftarrow> nv_gpu_destroy_channel gpu (w_nv w) (cs_channel s);
                                          hg \<leftarrow> heap_put (w_gpus w) gp gpu;
                                          Some (w\<lparr>w_nv := nv, w_gpus := hg\<rparr>) });
                      hs \<leftarrow> heap_free (w_streams w) sp;
                      Some (cudaSuccess, w\<lparr>w_streams := hs\<rparr>) } })"

definition cudaStreamSynchronize :: "ptr option \<Rightarrow> world \<Rightarrow> (cudaError \<times> world) option" where
  "cudaStreamSynchronize stream w =
     (case stream of
        None \<Rightarrow> cudaDeviceSynchronize w
      | Some sp \<Rightarrow>
          do { s \<leftarrow> heap_get (w_streams w) sp;
               if \<not> device_index_ok (cs_device s) w then Some (fail cudaErrorInvalidDevice w)
               else case gs_gpu_contexts (w_state w) ! nat (cs_device s) of
                 None \<Rightarrow> Some (fail cudaErrorInvalidDevice w)
               | Some gp \<Rightarrow>
                   do { _ \<leftarrow> (case cs_channel s of
                               None \<Rightarrow> Some NV_SUCCESS
                             | Some c \<Rightarrow> do { ch \<leftarrow> heap_get (h_channels (w_nv w)) c;
                                             Some (nv_gpu_channel_sync (Some ch)) });
                        Some (cudaSuccess, w) } })"

definition cudaStreamQuery :: "ptr option \<Rightarrow> cudaError" where
  "cudaStreamQuery stream = cudaSuccess"

definition cudaStreamWaitEvent :: "ptr option \<Rightarrow> ptr option \<Rightarrow> u32 \<Rightarrow> cudaError" where
  "cudaStreamWaitEvent stream event flags = cudaSuccess"

section \<open>Events\<close>

definition cudaEventCreateWithFlags :: "bool \<Rightarrow> u32 \<Rightarrow> world \<Rightarrow> cudaError \<times> ptr option \<times> world" where
  "cudaEventCreateWithFlags has_out flags w =
     (if \<not> has_out then fail_out cudaErrorInvalidValue w
      else case heap_alloc (w_events w)
          \<lparr>ev_device = gs_current_device (w_state w), ev_timestamp = 0, ev_recorded = False\<rparr> of
        (None, he) \<Rightarrow> fail_out cudaErrorMemoryAllocation (w\<lparr>w_events := he\<rparr>)
      | (Some ep, he) \<Rightarrow> (cudaSuccess, Some ep, w\<lparr>w_events := he\<rparr>))"

definition cudaEventCreate :: "bool \<Rightarrow> world \<Rightarrow> cudaError \<times> ptr option \<times> world" where
  "cudaEventCreate has_out w = cudaEventCreateWithFlags has_out 0 w"

definition cudaEventDestroy :: "ptr option \<Rightarrow> world \<Rightarrow> (cudaError \<times> world) option" where
  "cudaEventDestroy event w =
     do { he \<leftarrow> heap_free_opt (w_events w) event; Some (cudaSuccess, w\<lparr>w_events := he\<rparr>) }"

text \<open>\<open>tv_sec\<close> and \<open>tv_nsec\<close> of the monotonic clock are arguments.\<close>

definition cudaEventRecord :: "ptr option \<Rightarrow> ptr option \<Rightarrow> u64 \<Rightarrow> u64 \<Rightarrow> world \<Rightarrow> (cudaError \<times> world) option" where
  "cudaEventRecord event stream tv_sec tv_nsec w =
     (case event of
        None \<Rightarrow> Some (fail cudaErrorInvalidValue w)
      | Some ep \<Rightarrow>
          do { e \<leftarrow> heap_get (w_events w) ep;
               he \<leftarrow> heap_put (w_events w) ep
                       (e\<lparr>ev_timestamp := tv_sec * 1000000000 + tv_nsec, ev_recorded := True\<rparr>);
               Some (cudaSuccess, w\<lparr>w_events := he\<rparr>) })"

definition cudaEventSynchronize :: "ptr option \<Rightarrow> cudaError" where
  "cudaEventSynchronize event = cudaSuccess"

definition cudaEventQuery :: "ptr option \<Rightarrow> cudaError" where
  "cudaEventQuery event = cudaSuccess"

text \<open>
  The output is the difference in nanoseconds, which the code converts to \<open>float\<close> and divides by
  \<open>1000000.0f\<close>; 0 stands for \<open>0.0f\<close>.
\<close>

definition cudaEventElapsedTime ::
  "bool \<Rightarrow> ptr option \<Rightarrow> ptr option \<Rightarrow> world \<Rightarrow> (cudaError \<times> u64 option \<times> world) option" where
  "cudaEventElapsedTime has_out start stop w =
     (case (start, stop) of
        (Some sp, Some ep) \<Rightarrow>
          if \<not> has_out then Some (fail_out cudaErrorInvalidValue w)
          else
            do { s \<leftarrow> heap_get (w_events w) sp;
                 e \<leftarrow> heap_get (w_events w) ep;
                 if \<not> ev_recorded s \<or> \<not> ev_recorded e then Some (fail_out cudaErrorInvalidResourceHandle w)
                 else if ev_timestamp e < ev_timestamp s then Some (cudaSuccess, Some 0, w)
                 else Some (cudaSuccess, Some (ev_timestamp e - ev_timestamp s), w) }
      | _ \<Rightarrow> Some (fail_out cudaErrorInvalidValue w))"

section \<open>Errors, kernels and status\<close>

definition cudaGetLastError :: "world \<Rightarrow> cudaError \<times> world" where
  "cudaGetLastError w = (gs_last_error (w_state w), set_error cudaSuccess w)"

definition cudaPeekAtLastError :: "world \<Rightarrow> cudaError" where
  "cudaPeekAtLastError w = gs_last_error (w_state w)"

definition cudaGetErrorName :: "cudaError \<Rightarrow> string" where
  "cudaGetErrorName error =
     (case error of
        cudaSuccess \<Rightarrow> ''cudaSuccess''
      | cudaErrorInvalidValue \<Rightarrow> ''cudaErrorInvalidValue''
      | cudaErrorMemoryAllocation \<Rightarrow> ''cudaErrorMemoryAllocation''
      | cudaErrorInitializationError \<Rightarrow> ''cudaErrorInitializationError''
      | cudaErrorInvalidDevice \<Rightarrow> ''cudaErrorInvalidDevice''
      | cudaErrorInvalidMemcpyDirection \<Rightarrow> ''cudaErrorInvalidMemcpyDirection''
      | cudaErrorNoDevice \<Rightarrow> ''cudaErrorNoDevice''
      | cudaErrorNotReady \<Rightarrow> ''cudaErrorNotReady''
      | _ \<Rightarrow> ''cudaErrorUnknown'')"

definition cudaGetErrorString :: "cudaError \<Rightarrow> string" where
  "cudaGetErrorString error =
     (case error of
        cudaSuccess \<Rightarrow> ''no error''
      | cudaErrorInvalidValue \<Rightarrow> ''invalid argument''
      | cudaErrorMemoryAllocation \<Rightarrow> ''out of memory''
      | cudaErrorInitializationError \<Rightarrow> ''initialization error''
      | cudaErrorInvalidDevice \<Rightarrow> ''invalid device ordinal''
      | cudaErrorInvalidMemcpyDirection \<Rightarrow> ''invalid memcpy direction''
      | cudaErrorNoDevice \<Rightarrow> ''no CUDA-capable device is detected''
      | cudaErrorNotReady \<Rightarrow> ''device not ready''
      | _ \<Rightarrow> ''unknown error'')"

record dim3 =
  d3_x :: u32
  d3_y :: u32
  d3_z :: u32

text \<open>The channel of the stream, the first channel of the GPU, or a new one.\<close>

definition launch_channel ::
  "ptr option \<Rightarrow> ptr \<Rightarrow> world \<Rightarrow> (nv_ret \<times> ptr option \<times> world) option" where
  "launch_channel stream gp w =
     do { sc \<leftarrow> (case stream of None \<Rightarrow> Some None
                  | Some sp \<Rightarrow> map_option cs_channel (heap_get (w_streams w) sp));
          gpu \<leftarrow> heap_get (w_gpus w) gp;
          let channel = (if sc \<noteq> None then sc
                         else if length (gpu_channels gpu) > 0 then gpu_channels gpu ! 0 else None);
          if channel = None then
            do { (ret, channel, gpu, nv) \<leftarrow> nv_gpu_create_channel gpu (w_nv w) True;
                 hg \<leftarrow> heap_put (w_gpus w) gp gpu;
                 Some (ret, channel, w\<lparr>w_nv := nv, w_gpus := hg\<rparr>) }
          else Some (NV_SUCCESS, channel, w) }"

definition cudaLaunchKernel ::
  "u64 \<Rightarrow> dim3 \<Rightarrow> dim3 \<Rightarrow> u64 \<Rightarrow> ptr option \<Rightarrow> world \<Rightarrow> (cudaError \<times> world) option" where
  "cudaLaunchKernel func gridDim blockDim sharedMem stream w =
     (case get_current_gpu w of
        None \<Rightarrow> Some (fail cudaErrorInvalidDevice w)
      | Some gp \<Rightarrow>
          do { (ret, channel, w) \<leftarrow> launch_channel stream gp w;
               if ret \<noteq> NV_SUCCESS then Some (fail cudaErrorLaunchFailure w)
               else do {
                 gpu \<leftarrow> heap_get (w_gpus w) gp;
                 let params = \<lparr>kp_func_addr = func,
                   kp_grid_dim = (d3_x gridDim, d3_y gridDim, d3_z gridDim),
                   kp_block_dim = (d3_x blockDim, d3_y blockDim, d3_z blockDim),
                   kp_shared_mem = ucast sharedMem, kp_channel = channel\<rparr>;
                 let (ret, gpu) = nv_gpu_launch_kernel gpu (Some params);
                 hg \<leftarrow> heap_put (w_gpus w) gp gpu;
                 let w = w\<lparr>w_gpus := hg\<rparr>;
                 if ret \<noteq> NV_SUCCESS then Some (fail cudaErrorLaunchFailure w) else Some (cudaSuccess, w) } })"

definition cudaBridgeGetConnectionStatus :: "bool \<Rightarrow> world \<Rightarrow> (cudaError \<times> int option \<times> world) option" where
  "cudaBridgeGetConnectionStatus has_out w =
     (if \<not> has_out then Some (fail_out cudaErrorInvalidValue w)
      else if \<not> gs_initialized (w_state w) then Some (cudaSuccess, Some 0, w)
      else if gs_simulation_mode (w_state w) then Some (cudaSuccess, Some 1, w)
      else do { ctx \<leftarrow> get_usb4_ctx w;
                Some (cudaSuccess, Some (if length (active_tunnels ctx) > 0 then 1 else 0), w) })"

definition cudaBridgeGetBandwidthInfo ::
  "bool \<Rightarrow> bool \<Rightarrow> world \<Rightarrow> (cudaError \<times> (u64 \<times> u64) option \<times> world) option" where
  "cudaBridgeGetBandwidthInfo has_up has_down w =
     (let bw = 32 * 1024 * 1024 * 1024 div 8 in
      if \<not> has_up \<or> \<not> has_down then Some (fail_out cudaErrorInvalidValue w)
      else if \<not> gs_initialized (w_state w) then Some (cudaSuccess, Some (0, 0), w)
      else if gs_simulation_mode (w_state w) then Some (cudaSuccess, Some (bw, bw), w)
      else do { ctx \<leftarrow> get_usb4_ctx w;
                if length (active_tunnels ctx) = 0 then Some (cudaSuccess, Some (0, 0), w)
                else Some (cudaSuccess, Some (bw, bw), w) })"

definition cudaBridgeIsSimulationMode :: "bool \<Rightarrow> world \<Rightarrow> cudaError \<times> int option \<times> world" where
  "cudaBridgeIsSimulationMode has_out w =
     (if \<not> has_out then fail_out cudaErrorInvalidValue w
      else (cudaSuccess, Some (if gs_simulation_mode (w_state w) then 1 else 0), w))"

end
