(* ===== verification/Cuda_Invariant.thy ===== *)
theory Cuda_Invariant
  imports Cuda_Runtime
begin

text \<open>
  The invariant of the runtime: cold (nothing allocated in any layer) or hot (one GPU context whose
  allocations and channels satisfy the driver's invariant, reachable USB4 and PCIe states below it, the
  streams of the client on live channels), and that initialisation and shutdown keep it.
\<close>

unbundle bit_operations_syntax

section \<open>The world as the layers see it\<close>

named_theorems world_simps "selectors of the updated world"

lemma set_state_sel [world_simps]:
  "w_state (set_state f w) = f (w_state w)" "w_usb4 (set_state f w) = w_usb4 w" "w_nv (set_state f w) = w_nv w"
  "w_gpus (set_state f w) = w_gpus w" "w_streams (set_state f w) = w_streams w" "w_events (set_state f w) = w_events w"
  "w_host (set_state f w) = w_host w"
  by (simp_all add: set_state_def)

lemma set_error_sel [world_simps]:
  "w_state (set_error e w) = (w_state w)\<lparr>gs_last_error := e\<rparr>" "w_usb4 (set_error e w) = w_usb4 w" "w_nv (set_error e w) = w_nv w"
  "w_gpus (set_error e w) = w_gpus w" "w_streams (set_error e w) = w_streams w" "w_events (set_error e w) = w_events w"
  "w_host (set_error e w) = w_host w"
  by (simp_all add: set_error_def world_simps)

lemma set_pcie_sel [world_simps]:
  "w_state (set_pcie hp w) = w_state w" "w_usb4 (set_pcie hp w) = w_usb4 w" "w_nv (set_pcie hp w) = (w_nv w)\<lparr>h_pcie := hp\<rparr>"
  "w_gpus (set_pcie hp w) = w_gpus w" "w_streams (set_pcie hp w) = w_streams w" "w_events (set_pcie hp w) = w_events w"
  "w_host (set_pcie hp w) = w_host w"
  by (simp_all add: set_pcie_def)

lemma add_gpu_sel [world_simps]:
  "gs_gpu_contexts (add_gpu p s) = gs_gpu_contexts s @ [Some p]" "gs_initialized (add_gpu p s) = gs_initialized s"
  "gs_pcie_ctx (add_gpu p s) = gs_pcie_ctx s" "gs_host_allocs (add_gpu p s) = gs_host_allocs s"
  "gs_simulation_mode (add_gpu p s) = gs_simulation_mode s"
  by (simp_all add: add_gpu_def)

text \<open>The heap after storing the USB4 context.\<close>

definition usb4_at :: "USB4ControllerContext \<Rightarrow> pcie_heap \<Rightarrow> pcie_heap" where
  "usb4_at ctx hp = hp\<lparr>h_usb4 := (h_usb4 hp)\<lparr>hp_mem := (hp_mem (h_usb4 hp))(g_usb4 \<mapsto> ctx)\<rparr>\<rparr>"

lemma usb4_at_sel [world_simps]:
  "h_devices (usb4_at ctx hp) = h_devices hp" "h_maps (usb4_at ctx hp) = h_maps hp"
  "heap_get (h_usb4 (usb4_at ctx hp)) g_usb4 = Some ctx"
  "dom (hp_mem (h_usb4 (usb4_at ctx hp))) = insert g_usb4 (dom (hp_mem (h_usb4 hp)))"
  by (simp_all add: usb4_at_def heap_get_def)

definition has_usb4 :: "world \<Rightarrow> bool" where
  "has_usb4 w \<longleftrightarrow> g_usb4 \<in> dom (hp_mem (h_usb4 (w_pcie w)))"

lemma put_usb4_closed:
  "has_usb4 w \<Longrightarrow> put_usb4 ctx hu w = Some (set_pcie (usb4_at ctx (w_pcie w)) (w\<lparr>w_usb4 := hu\<rparr>))"
  by (auto simp: put_usb4_def heap_put_def has_usb4_def usb4_at_def split: option.splits)

lemma has_usb4_get: "has_usb4 w \<Longrightarrow> \<exists>ctx. get_usb4_ctx w = Some ctx"
  by (auto simp: has_usb4_def get_usb4_ctx_def heap_get_def)

section \<open>The invariant of the runtime\<close>

text \<open>
  The handles of a client: the streams it may still use with their channels. \<open>gpu_up\<close>: one GPU context
  on the heap, whose allocations and channels satisfy the driver's invariant, on a device of the PCIe
  context or on none (the virtual GPU).
\<close>

definition gpu_up :: "world \<Rightarrow> ptr \<Rightarrow> NVGpuContext \<Rightarrow> alloc_entry list \<Rightarrow> ptr list \<Rightarrow> bool" where
  "gpu_up w gp ctx xs cs \<longleftrightarrow>
     gs_gpu_contexts (w_state w) = [Some gp] \<and> hp_mem (w_gpus w) = [gp \<mapsto> ctx] \<and> nv_inv ctx (w_nv w) xs cs \<and>
     (gpu_pcie_device ctx = None \<or> gpu_pcie_device ctx \<in> set (devices (gs_pcie_ctx (w_state w))))"

definition usb4_up :: "iokit option \<Rightarrow> world \<Rightarrow> bool" where
  "usb4_up io w \<longleftrightarrow> (\<exists>ctx. get_usb4_ctx w = Some ctx \<and> usb4_once io ctx (w_usb4 w))"

definition stream_at :: "world \<Rightarrow> ptr \<times> ptr \<Rightarrow> bool" where
  "stream_at w x \<longleftrightarrow> (\<exists>s. heap_get (w_streams w) (fst x) = Some s \<and> cs_device s = 0 \<and> cs_channel s = Some (snd x))"

definition streams_ok :: "(ptr \<times> ptr) list \<Rightarrow> ptr list \<Rightarrow> world \<Rightarrow> bool" where
  "streams_ok S cs w \<longleftrightarrow> distinct (map fst S) \<and> distinct (map snd S) \<and> snd ` set S \<subseteq> set cs \<and> (\<forall>x \<in> set S. stream_at w x)"

definition host_ok :: "world \<Rightarrow> bool" where
  "host_ok w \<longleftrightarrow>
     distinct (map ha_ptr (gs_host_allocs (w_state w))) \<and> length (gs_host_allocs (w_state w)) \<le> MAX_HOST_ALLOCS \<and>
     (\<forall>a \<in> set (gs_host_allocs (w_state w)). ha_ptr a \<noteq> 0 \<and> ha_ptr a \<in> dom (hm_live (w_host w)))"

definition heaps_ok :: "world \<Rightarrow> bool" where
  "heaps_ok w \<longleftrightarrow> heap_wf (w_gpus w) \<and> heap_wf (w_streams w) \<and> heap_wf (w_events w) \<and> has_usb4 w \<and> host_ok w"

definition cold :: "world \<Rightarrow> bool" where
  "cold w \<longleftrightarrow> \<not> gs_initialized (w_state w) \<and> gs_gpu_contexts (w_state w) = [] \<and> hp_mem (w_gpus w) = Map.empty \<and>
     usb4_heap_none (w_usb4 w) \<and> pcie_heap_none (w_pcie w) \<and> nv_heap_none (w_nv w) \<and> 4096 dvd unat (next_gpu_addr (w_nv w))"

definition hot :: "iokit option \<Rightarrow> (ptr \<times> ptr) list \<Rightarrow> world \<Rightarrow> bool" where
  "hot io S w \<longleftrightarrow> gs_initialized (w_state w) \<and> gs_current_device (w_state w) = 0 \<and> usb4_up io w \<and>
     pcie_reach (gs_pcie_ctx (w_state w)) (w_pcie w) \<and> (\<exists>gp ctx xs cs. gpu_up w gp ctx xs cs \<and> streams_ok S cs w)"

definition cuda_inv :: "iokit option \<Rightarrow> (ptr \<times> ptr) list \<Rightarrow> world \<Rightarrow> bool" where
  "cuda_inv io S w \<longleftrightarrow> heaps_ok w \<and> (if gs_initialized (w_state w) then hot io S w else cold w \<and> S = [])"

lemma hotE:
  assumes "cuda_inv io S w" and "gs_initialized (w_state w)"
  obtains gp ctx xs cs where "gpu_up w gp ctx xs cs" and "streams_ok S cs w" and "get_current_gpu w = Some gp"
    and "heap_get (w_gpus w) gp = Some ctx" and "nv_inv ctx (w_nv w) xs cs" and "usb4_up io w"
    and "pcie_reach (gs_pcie_ctx (w_state w)) (w_pcie w)"
proof -
  from assms obtain gp ctx xs cs where "gpu_up w gp ctx xs cs" "streams_ok S cs w" "usb4_up io w"
    "pcie_reach (gs_pcie_ctx (w_state w)) (w_pcie w)" "gs_current_device (w_state w) = 0"
    by (auto simp: cuda_inv_def hot_def)
  then show ?thesis using assms(2)
    by (intro that [of gp ctx xs cs]) (simp_all add: gpu_up_def get_current_gpu_def heap_get_def)
qed

lemma coldE:
  assumes "cuda_inv io S w" and "\<not> gs_initialized (w_state w)"
  shows "cold w" and "S = []" and "get_current_gpu w = None"
  using assms by (simp_all add: cuda_inv_def get_current_gpu_def)

text \<open>Changing the last error, the current device to itself, or nothing the invariant reads.\<close>

definition same_core_state :: "CudaBridgeState \<Rightarrow> CudaBridgeState \<Rightarrow> bool" where
  "same_core_state s t \<longleftrightarrow> gs_initialized t = gs_initialized s \<and> gs_pcie_ctx t = gs_pcie_ctx s \<and>
     gs_gpu_contexts t = gs_gpu_contexts s \<and> gs_current_device t = gs_current_device s"

lemma inv_cong:
  assumes I: "cuda_inv io S w" and s: "same_core_state (w_state w) (w_state w')" and u: "w_usb4 w' = w_usb4 w"
    and n: "w_nv w' = w_nv w" and g: "w_gpus w' = w_gpus w" and st: "w_streams w' = w_streams w"
    and e: "heap_wf (w_events w')" and h: "host_ok w'"
  shows "cuda_inv io S w'"
proof -
  have "heaps_ok w'" using I e h n g st by (simp add: cuda_inv_def heaps_ok_def has_usb4_def)
  moreover have "hot io S w' = hot io S w" "cold w' = cold w" "gs_initialized (w_state w') = gs_initialized (w_state w)"
    using s u n g st
    by (simp_all add: hot_def cold_def same_core_state_def usb4_up_def get_usb4_ctx_def gpu_up_def streams_ok_def stream_at_def)
  ultimately show ?thesis using I by (simp add: cuda_inv_def)
qed

lemma inv_set_error [intro]: "cuda_inv io S w \<Longrightarrow> cuda_inv io S (set_error e w)"
  by (rule inv_cong [of _ _ w]) (auto simp: world_simps same_core_state_def cuda_inv_def heaps_ok_def host_ok_def)

text \<open>A driver call on the current GPU.\<close>

lemma inv_gpu:
  assumes I: "cuda_inv io S w" and i: "gs_initialized (w_state w)" and g: "gpu_up w gp ctx xs cs"
    and v: "nv_inv ctx' nv xs' cs'" and p: "pcie_reach (gs_pcie_ctx (w_state w)) (h_pcie nv)"
    and u: "h_usb4 (h_pcie nv) = h_usb4 (w_pcie w)" and d: "gpu_pcie_device ctx' = gpu_pcie_device ctx"
    and S: "streams_ok S cs' w"
  shows "cuda_inv io S (w\<lparr>w_nv := nv, w_gpus := (w_gpus w)\<lparr>hp_mem := (hp_mem (w_gpus w))(gp \<mapsto> ctx')\<rparr>\<rparr>)"
    (is "cuda_inv io S ?w")
proof -
  have m: "hp_mem (w_gpus w) = [gp \<mapsto> ctx]" using g by (simp add: gpu_up_def)
  then have wf: "heap_wf (w_gpus ?w)" using I by (auto simp: cuda_inv_def heaps_ok_def heap_wf_def split: if_splits)
  have "heaps_ok ?w" using I wf u by (simp add: cuda_inv_def heaps_ok_def has_usb4_def host_ok_def)
  moreover have "gpu_up ?w gp ctx' xs' cs'" using g v d m by (simp add: gpu_up_def)
  moreover have "streams_ok S cs' ?w" using S by (simp add: streams_ok_def stream_at_def)
  moreover have "usb4_up io ?w" using I i u by (simp add: cuda_inv_def hot_def usb4_up_def get_usb4_ctx_def)
  moreover have "gs_current_device (w_state w) = 0" using I i by (simp add: cuda_inv_def hot_def)
  ultimately show ?thesis using i p by (auto simp: cuda_inv_def hot_def)
qed

lemma streams_mono: "streams_ok S cs w \<Longrightarrow> set cs \<subseteq> set cs' \<Longrightarrow> streams_ok S cs' w"
  by (auto simp: streams_ok_def)

lemma put_gpu:
  "heap_get hg gp = Some ctx \<Longrightarrow> heap_put hg gp ctx' = Some (hg\<lparr>hp_mem := (hp_mem hg)(gp \<mapsto> ctx')\<rparr>)"
  by (simp add: heap_put_def heap_get_def)

section \<open>Initialisation and shutdown keep the invariant\<close>

lemma usb4_init_total:
  "\<exists>ret ctx hu. usb4_controller_init io h = Some (ret, ctx, hu) \<and> usb4_heap_none hu = usb4_heap_none h \<and>
     (ret = USB4_SUCCESS \<or> ret = USB4_ERR_NOT_FOUND \<or> ret = USB4_ERR_IO)"
proof -
  have "\<exists>ret ctx hu. usb4_controller_init io h = Some (ret, ctx, hu) \<and>
     (ret = USB4_SUCCESS \<or> ret = USB4_ERR_NOT_FOUND \<or> ret = USB4_ERR_IO)"
    by (auto simp: usb4_controller_init_def usb4_init_host_router_def usb4_enumerate_adapters_def Let_def split: option.splits)
  then show ?thesis using init_none by blast
qed

lemma usb4_create_total:
  assumes "usb4_once io ctx h"
  shows "\<exists>ret out ctx' h'. usb4_create_pcie_tunnel ctx h (Some r) True = Some (ret, out, ctx', h') \<and> usb4_once io ctx' h'"
proof -
  from assms have "usb4_reach io ctx h" by (simp add: usb4_once_def)
  from reach_owned [OF this] obtain xs ps ls where own: "usb4_owned ctx h xs ps ls" by blast
  then have rep: "usb4_rep ctx h xs" by (simp add: usb4_owned_def)
  obtain ret out ctx' h' where c: "usb4_create_pcie_tunnel ctx h (Some r) True = Some (ret, out, ctx', h')"
    by (rule create_refines [OF rep owned_live [OF own], of r]) auto
  with once_create [OF assms c] show ?thesis by blast
qed

text \<open>What the USB4 part of the initialisation may change.\<close>

definition usb4_only :: "world \<Rightarrow> world \<Rightarrow> bool" where
  "usb4_only w w' \<longleftrightarrow> (\<exists>hx. w' = set_pcie ((w_pcie w)\<lparr>h_usb4 := hx\<rparr>) (w\<lparr>w_usb4 := w_usb4 w'\<rparr>)) \<and> has_usb4 w'"

lemma usb4_only_sel:
  assumes "usb4_only w w'"
  shows "w_state w' = w_state w" "w_gpus w' = w_gpus w" "w_streams w' = w_streams w" "w_events w' = w_events w"
    "w_host w' = w_host w" "h_devices (w_pcie w') = h_devices (w_pcie w)" "h_maps (w_pcie w') = h_maps (w_pcie w)"
    "h_channels (w_nv w') = h_channels (w_nv w)" "h_allocs (w_nv w') = h_allocs (w_nv w)" "h_stores (w_nv w') = h_stores (w_nv w)"
    "next_gpu_addr (w_nv w') = next_gpu_addr (w_nv w)" "has_usb4 w'"
proof -
  from assms obtain hx where e: "w' = set_pcie ((w_pcie w)\<lparr>h_usb4 := hx\<rparr>) (w\<lparr>w_usb4 := w_usb4 w'\<rparr>)" by (auto simp: usb4_only_def)
  show "w_state w' = w_state w" "w_gpus w' = w_gpus w" "w_streams w' = w_streams w" "w_events w' = w_events w"
    "w_host w' = w_host w" "h_devices (w_pcie w') = h_devices (w_pcie w)" "h_maps (w_pcie w') = h_maps (w_pcie w)"
    "h_channels (w_nv w') = h_channels (w_nv w)" "h_allocs (w_nv w') = h_allocs (w_nv w)" "h_stores (w_nv w') = h_stores (w_nv w)"
    "next_gpu_addr (w_nv w') = next_gpu_addr (w_nv w)"
    by (subst e, simp add: world_simps)+
  show "has_usb4 w'" using assms by (simp add: usb4_only_def)
qed

lemma usb4_only_put:
  assumes "has_usb4 w"
  shows "put_usb4 ctx hu w = Some (set_pcie (usb4_at ctx (w_pcie w)) (w\<lparr>w_usb4 := hu\<rparr>))"
    and "usb4_only w (set_pcie (usb4_at ctx (w_pcie w)) (w\<lparr>w_usb4 := hu\<rparr>))"
    and "get_usb4_ctx (set_pcie (usb4_at ctx (w_pcie w)) (w\<lparr>w_usb4 := hu\<rparr>)) = Some ctx"
  using assms put_usb4_closed [OF assms]
  by (auto simp: usb4_only_def usb4_at_def world_simps has_usb4_def get_usb4_ctx_def heap_get_def)

lemma usb4_only_trans:
  assumes "usb4_only w w1" and "usb4_only w1 w2"
  shows "usb4_only w w2"
proof -
  from assms(1) obtain h1 where a: "w1 = set_pcie ((w_pcie w)\<lparr>h_usb4 := h1\<rparr>) (w\<lparr>w_usb4 := w_usb4 w1\<rparr>)" by (auto simp: usb4_only_def)
  from assms(2) obtain h2 where b: "w2 = set_pcie ((w_pcie w1)\<lparr>h_usb4 := h2\<rparr>) (w1\<lparr>w_usb4 := w_usb4 w2\<rparr>)" by (auto simp: usb4_only_def)
  have "set_pcie ((w_pcie w1)\<lparr>h_usb4 := h2\<rparr>) (w1\<lparr>w_usb4 := u\<rparr>) = set_pcie ((w_pcie w)\<lparr>h_usb4 := h2\<rparr>) (w\<lparr>w_usb4 := u\<rparr>)" for u
    by (subst a, subst a) (simp add: set_pcie_def)
  with b have "w2 = set_pcie ((w_pcie w)\<lparr>h_usb4 := h2\<rparr>) (w\<lparr>w_usb4 := w_usb4 w2\<rparr>)" by metis
  moreover have "has_usb4 w2" using assms(2) by (simp add: usb4_only_def)
  ultimately show ?thesis unfolding usb4_only_def by blast
qed

lemma usb4_only_refl: "has_usb4 w \<Longrightarrow> usb4_only w w"
  unfolding usb4_only_def by (intro conjI exI [of _ "h_usb4 (w_pcie w)"]) (simp_all add: set_pcie_def)

lemma create_tunnels_total:
  assumes "usb4_up io w" and "has_usb4 w"
  shows "\<exists>w'. create_tunnels w rs = Some w' \<and> usb4_up io w' \<and> usb4_only w w'"
  using assms
proof (induction rs arbitrary: w)
  case Nil
  then show ?case by (simp add: usb4_only_refl)
next
  case (Cons r rs)
  show ?case
  proof (cases r)
    case None
    with Cons show ?thesis by simp
  next
    case (Some p)
    from Cons.prems(1) obtain ctx where u: "get_usb4_ctx w = Some ctx" "usb4_once io ctx (w_usb4 w)" by (auto simp: usb4_up_def)
    from usb4_create_total [OF u(2), of "Rt p"] obtain ret out ctx' hu where
      c: "usb4_create_pcie_tunnel ctx (w_usb4 w) (Some (Rt p)) True = Some (ret, out, ctx', hu)" "usb4_once io ctx' hu" by blast
    let ?w = "set_pcie (usb4_at ctx' (w_pcie w)) (w\<lparr>w_usb4 := hu\<rparr>)"
    note o = usb4_only_put [OF Cons.prems(2), of ctx' hu]
    have "usb4_up io ?w" using o(3) c(2) by (simp add: usb4_up_def world_simps)
    from Cons.IH [OF this] o(2) obtain w' where "create_tunnels ?w rs = Some w'" "usb4_up io w'" "usb4_only ?w w'"
      by (auto simp: usb4_only_def)
    with u(1) c(1) o Some usb4_only_trans [OF o(2)] show ?thesis by auto
  qed
qed

text \<open>The search for GPUs, with nothing or one device to try.\<close>

definition gpu_none :: "world \<Rightarrow> bool" where
  "gpu_none w \<longleftrightarrow> gs_gpu_contexts (w_state w) = [] \<and> hp_mem (w_gpus w) = Map.empty"

definition same_handles :: "world \<Rightarrow> world \<Rightarrow> bool" where
  "same_handles w w' \<longleftrightarrow> w_usb4 w' = w_usb4 w \<and> w_streams w' = w_streams w \<and> w_events w' = w_events w \<and> w_host w' = w_host w \<and>
     gs_host_allocs (w_state w') = gs_host_allocs (w_state w) \<and> gs_initialized (w_state w') = gs_initialized (w_state w) \<and>
     gs_pcie_ctx (w_state w') = gs_pcie_ctx (w_state w)"

lemma nv_none_inv:
  "nv_heap_none nv \<Longrightarrow> 4096 dvd unat (next_gpu_addr nv) \<Longrightarrow> gpu_allocations ctx = [] \<Longrightarrow> gpu_channels ctx = [] \<Longrightarrow> nv_inv ctx nv [] []"
  by (simp add: nv_inv_def mem_rep_def chan_rep_def nv_heap_none_def heap_wf_def)

text \<open>After the search: no GPU, or one.\<close>

definition searched :: "world \<Rightarrow> world \<Rightarrow> bool" where
  "searched w w' \<longleftrightarrow> same_handles w w' \<and> pcie_reach (gs_pcie_ctx (w_state w')) (w_pcie w') \<and> h_usb4 (w_pcie w') = h_usb4 (w_pcie w) \<and>
     heap_wf (w_gpus w') \<and>
     (gpu_none w' \<and> nv_heap_none (w_nv w') \<and> 4096 dvd unat (next_gpu_addr (w_nv w')) \<or>
      (\<exists>gp ctx. gpu_up w' gp ctx [] [] \<and> di_max_threads_per_block (gpu_info ctx) = 1024))"

lemma searched_start:
  "gpu_none w \<Longrightarrow> nv_heap_none (w_nv w) \<Longrightarrow> 4096 dvd unat (next_gpu_addr (w_nv w)) \<Longrightarrow>
   pcie_reach (gs_pcie_ctx (w_state w)) (w_pcie w) \<Longrightarrow> heap_wf (w_gpus w) \<Longrightarrow> searched w w"
  by (simp add: searched_def same_handles_def)

lemma device_calls_usb4:
  "map_device_bar hp p i = Some (r, hp') \<Longrightarrow> h_usb4 hp' = h_usb4 hp"
  "unmap_device_bar hp p i = Some hp' \<Longrightarrow> h_usb4 hp' = h_usb4 hp"
  "enable_device_at f hp p = Some hp' \<Longrightarrow> h_usb4 hp' = h_usb4 hp"
  "nv_gpu_write_reg ctx h off v = Some h' \<Longrightarrow> h_usb4 (h_pcie h') = h_usb4 (h_pcie h)"
  by (auto simp: map_device_bar_def unmap_device_bar_def enable_device_at_def nv_gpu_write_reg_def split: option.splits prod.splits
      elim!: bind_eq_SomeE)

lemma reset_usb4: "nv_gpu_reset ctx h = Some (r, h') \<Longrightarrow> h_usb4 (h_pcie h') = h_usb4 (h_pcie h)"
  by (auto simp: nv_gpu_reset_def elim!: bind_eq_SomeE dest!: device_calls_usb4(4))

lemma gpu_init_usb4: "nv_gpu_init ctx0 h q = Some (r, ctx, h') \<Longrightarrow> h_usb4 (h_pcie h') = h_usb4 (h_pcie h)"
  by (auto simp: nv_gpu_init_def Let_def split: option.splits if_splits elim!: bind_eq_SomeE
      dest!: device_calls_usb4 reset_usb4)

lemma init_gpus_total:
  assumes g: "gpu_none w" and n: "nv_heap_none (w_nv w)" "4096 dvd unat (next_gpu_addr (w_nv w))"
    and r: "pcie_reach (gs_pcie_ctx (w_state w)) (w_pcie w)" and wf: "heap_wf (w_gpus w)"
    and d: "ds = [] \<or> (\<exists>p. ds = [Some p])" and ds: "set ds \<subseteq> set (devices (gs_pcie_ctx (w_state w)))"
  shows "\<exists>w'. init_gpus w ds = Some w' \<and> searched w w'"
proof -
  note start = searched_start [OF g n r wf]
  from d show ?thesis
  proof (elim disjE exE)
    assume "ds = []"
    with start show ?thesis by simp
  next
    fix p assume p: "ds = [Some p]"
    have pin: "Some p \<in> set (devices (gs_pcie_ctx (w_state w)))" using ds p by simp
    obtain dev where dev: "heap_get (h_devices (w_pcie w)) p = Some dev" by (rule reach_device [OF r pin])
    have len: "\<not> 8 \<le> length (gs_gpu_contexts (w_state w))" using g by (simp add: gpu_none_def)
    obtain q hg where c: "heap_alloc (w_gpus w) gpu_ctx_zero = (q, hg)" by fastforce
    have wf': "heap_wf hg" by (rule heap_alloc_wf [OF wf c])
    show ?thesis
    proof (cases "dv_vendor_id dev = 0x10DE \<and> q \<noteq> None")
      case False
      then have "init_gpus w ds = Some (if dv_vendor_id dev = 0x10DE then w\<lparr>w_gpus := hg\<rparr> else w)"
        using p len dev c by auto
      moreover have "searched w (w\<lparr>w_gpus := hg\<rparr>)" if "q = None"
        using start wf' c that g by (auto simp: searched_def same_handles_def gpu_none_def gpu_up_def heap_simps)
      ultimately show ?thesis using start False by auto
    next
      case True
      then obtain gp where gp: "q = Some gp" and v: "dv_vendor_id dev = 0x10DE" by auto
      have m: "hp_mem hg = [gp \<mapsto> gpu_ctx_zero]" using c gp g by (simp add: heap_simps gpu_none_def)
      from init_total [OF r pin, of gpu_ctx_zero] obtain ret ctx hp where
        i: "nv_gpu_init gpu_ctx_zero (w_nv w) (Some p) = Some (ret, ctx, (w_nv w)\<lparr>h_pcie := hp\<rparr>)"
        and hp: "pcie_reach (gs_pcie_ctx (w_state w)) hp" and e: "gpu_allocations ctx = []" "gpu_channels ctx = []"
          "gpu_pcie_device ctx = Some p" and t: "ret = NV_SUCCESS \<longrightarrow> di_max_threads_per_block (gpu_info ctx) = 1024" by blast
      have hu: "h_usb4 hp = h_usb4 (w_pcie w)" using gpu_init_usb4 [OF i] by simp
      let ?nv = "(w_nv w)\<lparr>h_pcie := hp\<rparr>" and ?hg = "hg\<lparr>hp_mem := [gp \<mapsto> ctx]\<rparr>"
      have nn: "nv_heap_none ?nv" "4096 dvd unat (next_gpu_addr ?nv)" using n by (simp_all add: nv_heap_none_def)
      have hw: "heap_wf ?hg" using wf' m by (auto simp: heap_wf_def)
      show ?thesis
      proof (cases "ret = NV_SUCCESS")
        case True
        let ?w = "set_state (add_gpu gp) (w\<lparr>w_nv := ?nv, w_gpus := ?hg\<rparr>)"
        have "init_gpus w ds = Some ?w" using p len dev c v gp i True m by (simp add: heap_put_def)
        moreover have "gpu_up ?w gp ctx [] []"
          using g nv_none_inv [OF nn e(1,2)] e(3) pin by (simp add: gpu_up_def world_simps gpu_none_def)
        then have "searched w ?w" using hp hu hw t True by (auto simp: searched_def same_handles_def world_simps)
        ultimately show ?thesis by blast
      next
        case False
        let ?w = "w\<lparr>w_nv := ?nv, w_gpus := hg\<lparr>hp_mem := Map.empty\<rparr>\<rparr>"
        have "init_gpus w ds = Some ?w" using p len dev c v gp i False m by (simp add: heap_put_def heap_free_def)
        moreover have "searched w ?w"
          using hp hu nn g by (simp add: searched_def same_handles_def gpu_none_def heap_wf_def)
        ultimately show ?thesis by blast
      qed
    qed
  qed
qed

text \<open>Shutting down the two lower layers.\<close>

lemma shutdown_usb4_total:
  assumes "usb4_up io w" and "has_usb4 w"
  shows "\<exists>w'. shutdown_usb4 w = Some w' \<and> usb4_only w w' \<and> usb4_heap_none (w_usb4 w')"
proof -
  from assms(1) obtain ctx where u: "get_usb4_ctx w = Some ctx" "usb4_once io ctx (w_usb4 w)" by (auto simp: usb4_up_def)
  from usb4_shutdown_clean [OF u(2)] obtain hu where s: "usb4_controller_shutdown ctx (w_usb4 w) = Some (usb4_ctx_zero, hu)"
    "usb4_heap_none hu" by blast
  from usb4_only_put [OF assms(2), of usb4_ctx_zero hu] u(1) s show ?thesis
    by (auto simp: shutdown_usb4_def world_simps)
qed

lemma shutdown_pcie_total:
  assumes "pcie_reach (gs_pcie_ctx (w_state w)) (w_pcie w)"
  shows "\<exists>hp. shutdown_pcie w = Some (set_pcie hp (set_state (gs_pcie_ctx_update (\<lambda>_. pcie_ctx_zero)) w)) \<and>
    pcie_heap_none hp \<and> h_usb4 hp = h_usb4 (w_pcie w)"
  using pcie_shutdown_clean [OF assms] by (auto simp: shutdown_pcie_def)

lemma cold_inv: "cold w \<Longrightarrow> heaps_ok w \<Longrightarrow> cuda_inv io [] w"
  by (simp add: cuda_inv_def cold_def)

text \<open>What no initialisation changes.\<close>

definition same_client :: "world \<Rightarrow> world \<Rightarrow> bool" where
  "same_client w w' \<longleftrightarrow> w_streams w' = w_streams w \<and> w_events w' = w_events w \<and> w_host w' = w_host w \<and>
     gs_host_allocs (w_state w') = gs_host_allocs (w_state w)"

lemma heaps_ok_client:
  "heaps_ok w \<Longrightarrow> same_client w w' \<Longrightarrow> heap_wf (w_gpus w') \<Longrightarrow> has_usb4 w' \<Longrightarrow> heaps_ok w'"
  by (simp add: heaps_ok_def same_client_def host_ok_def)

text \<open>The end of a successful initialisation.\<close>

lemma init_done_hot:
  assumes g: "gpu_up v gp ctx [] []" and v: "heaps_ok v" "usb4_up io v" "pcie_reach (gs_pcie_ctx (w_state v)) (w_pcie v)"
  shows "cuda_inv io [] (snd (init_done v))"
proof -
  let ?v = "snd (init_done v)"
  have "heaps_ok ?v" using v(1) by (simp add: init_done_def heaps_ok_def world_simps has_usb4_def host_ok_def)
  moreover have "gpu_up ?v gp ctx [] []" using g by (simp add: init_done_def gpu_up_def world_simps)
  moreover have "usb4_up io ?v" using v(2) by (simp add: init_done_def usb4_up_def get_usb4_ctx_def world_simps)
  moreover have "streams_ok [] [] ?v" by (simp add: streams_ok_def)
  ultimately have "hot io [] ?v" using v(3) by (auto simp: hot_def init_done_def world_simps)
  with \<open>heaps_ok ?v\<close> show ?thesis by (simp add: cuda_inv_def init_done_def world_simps)
qed

lemma init_done_code:
  "init_done v = (cudaSuccess, snd (init_done v)) \<and> gs_initialized (w_state (snd (init_done v))) \<and> same_client v (snd (init_done v))"
  by (simp add: init_done_def world_simps same_client_def)

lemma shutdown_usb4_pcie:
  assumes s: "shutdown_usb4 w = Some w'" and o: "usb4_only w w'" and u: "usb4_up io w" and hu: "has_usb4 w"
    and r: "pcie_reach (gs_pcie_ctx (w_state w)) (w_pcie w)"
  shows "pcie_reach (gs_pcie_ctx (w_state w')) (w_pcie w')"
proof -
  obtain hx where e: "w' = set_pcie ((w_pcie w)\<lparr>h_usb4 := hx\<rparr>) (w\<lparr>w_usb4 := w_usb4 w'\<rparr>)"
    and h: "has_usb4 w'" using o by (auto simp: usb4_only_def)
  have p: "w_pcie w' = (w_pcie w)\<lparr>h_usb4 := hx\<rparr>" by (subst e) (simp add: world_simps)
  obtain c where c: "get_usb4_ctx w = Some c" using u by (auto simp: usb4_up_def)
  with s obtain d hu' where "put_usb4 d hu' w = Some w'"
    by (auto simp: shutdown_usb4_def elim!: bind_eq_SomeE split: prod.splits)
  then have "w_pcie w' = usb4_at d (w_pcie w)" using put_usb4_closed [OF hu] by (auto simp: world_simps)
  moreover have "hx = h_usb4 (w_pcie w')" by (simp only: p) simp
  ultimately have "hx = h_usb4 (usb4_at d (w_pcie w))" by simp
  then have "dom (hp_mem (h_usb4 (w_pcie w))) \<subseteq> dom (hp_mem hx)" by (auto simp: usb4_at_def)
  with preach_usb4 [OF r, of hx] p usb4_only_sel(1) [OF o] show ?thesis by simp
qed

text \<open>No GPU was found: without the fallback everything is shut down again, with it a virtual GPU is made.\<close>

lemma init_finish_none:
  assumes gs: "gs_gpu_contexts (w_state w) = []" "hp_mem (w_gpus w) = Map.empty"
    and nn: "nv_heap_none (w_nv w)" "4096 dvd unat (next_gpu_addr (w_nv w))"
    and ok: "heaps_ok w" and u: "usb4_up io w" and cold: "\<not> gs_initialized (w_state w)"
    and r: "pcie_reach (gs_pcie_ctx (w_state w)) (w_pcie w)" and False: "\<not> use_simulation_fallback (env_simulation env)"
  shows "\<exists>w'. init_finish env w = Some (cudaErrorNoDevice, w') \<and> same_client w w' \<and> cuda_inv io [] w' \<and> \<not> gs_initialized (w_state w')"
proof -
  have hu: "has_usb4 w" and wf: "heap_wf (w_gpus w)" using ok by (simp_all add: heaps_ok_def)
  from shutdown_usb4_total [OF u hu] obtain w1 where 1: "shutdown_usb4 w = Some w1" "usb4_only w w1" "usb4_heap_none (w_usb4 w1)" by blast
  note sel = usb4_only_sel [OF 1(2)]
  from shutdown_pcie_total [OF shutdown_usb4_pcie [OF 1(1,2) u hu r]] obtain hp where
    2: "shutdown_pcie w1 = Some (set_pcie hp (set_state (gs_pcie_ctx_update (\<lambda>_. pcie_ctx_zero)) w1))"
    "pcie_heap_none hp" "h_usb4 hp = h_usb4 (w_pcie w1)" by blast
  let ?w = "set_error cudaErrorNoDevice (set_pcie hp (set_state (gs_pcie_ctx_update (\<lambda>_. pcie_ctx_zero)) w1))"
  have call: "init_finish env w = Some (cudaErrorNoDevice, ?w)" using gs False 1(1) 2(1) by (simp add: init_finish_def)
  have sc: "same_client w ?w" using sel by (simp add: same_client_def world_simps)
  have "cold ?w" using cold gs nn sel 1(3) 2(2) by (simp add: cold_def world_simps nv_heap_none_def)
  moreover have "heaps_ok ?w"
    by (rule heaps_ok_client [OF ok sc]) (use sel 2(3) wf in \<open>simp_all add: world_simps has_usb4_def\<close>)
  ultimately have "cuda_inv io [] ?w" by (rule cold_inv)
  moreover have "\<not> gs_initialized (w_state ?w)" using cold sel by (simp add: world_simps)
  ultimately show ?thesis using call sc by blast
qed

lemma init_finish_simulated:
  assumes gs: "gs_gpu_contexts (w_state w) = []" "hp_mem (w_gpus w) = Map.empty"
    and nn: "nv_heap_none (w_nv w)" "4096 dvd unat (next_gpu_addr (w_nv w))"
    and ok: "heaps_ok w" and u: "usb4_up io w" and r: "pcie_reach (gs_pcie_ctx (w_state w)) (w_pcie w)"
    and True: "use_simulation_fallback (env_simulation env)" and c: "heap_alloc (w_gpus w) virtual_gpu = (Some gp, hg)"
  shows "\<exists>v. init_finish env w = Some (init_done v) \<and> cuda_inv io [] (snd (init_done v)) \<and> same_client w (snd (init_done v))"
proof -
  have hu: "has_usb4 w" and wf: "heap_wf (w_gpus w)" using ok by (simp_all add: heaps_ok_def)
  let ?v = "set_state (\<lambda>s. (add_gpu gp s)\<lparr>gs_simulation_mode := True\<rparr>) (w\<lparr>w_gpus := hg\<rparr>)"
  have call: "init_finish env w = Some (init_done ?v)" using gs True c by (simp add: init_finish_def)
  have "nv_inv virtual_gpu (w_nv w) [] []"
    by (rule nv_none_inv [OF nn]) (simp_all add: virtual_gpu_def gpu_ctx_zero_def)
  then have g: "gpu_up ?v gp virtual_gpu [] []"
    using gs c by (simp add: gpu_up_def world_simps heap_simps virtual_gpu_def gpu_ctx_zero_def Let_def)
  have "heaps_ok ?v"
    by (rule heaps_ok_client [OF ok])
      (use hu heap_alloc_wf [OF wf c] in \<open>simp_all add: same_client_def world_simps has_usb4_def\<close>)
  moreover have "usb4_up io ?v" using u by (simp add: usb4_up_def get_usb4_ctx_def world_simps)
  moreover have "pcie_reach (gs_pcie_ctx (w_state ?v)) (w_pcie ?v)" using r by (simp add: world_simps)
  ultimately have "cuda_inv io [] (snd (init_done ?v))" by (rule init_done_hot [OF g])
  moreover have "same_client w (snd (init_done ?v))" using init_done_code [of ?v] by (simp add: same_client_def world_simps)
  ultimately show ?thesis using call by blast
qed

text \<open>The outcome of \<open>init_finish\<close>.\<close>

lemma init_finish_cases:
  assumes s: "searched w0 w" and ok: "heaps_ok w" and u: "usb4_up io w" and cold: "\<not> gs_initialized (w_state w)"
  shows "\<exists>err w'. init_finish env w = Some (err, w') \<and> same_client w w' \<and>
    (err = cudaSuccess \<and> gs_initialized (w_state w') \<and> cuda_inv io [] w' \<or>
     err = cudaErrorNoDevice \<and> cuda_inv io [] w' \<and> \<not> gs_initialized (w_state w') \<or>
     err = cudaErrorMemoryAllocation \<and> \<not> gs_initialized (w_state w'))"
proof -
  have r: "pcie_reach (gs_pcie_ctx (w_state w)) (w_pcie w)" using s by (simp add: searched_def)
  have success: ?thesis if "init_finish env w = Some (init_done v)" "cuda_inv io [] (snd (init_done v))" "same_client w (snd (init_done v))" for v
    using that init_done_code [of v] by (intro exI [of _ cudaSuccess] exI [of _ "snd (init_done v)"]) simp
  show ?thesis
  proof (cases "gpu_none w")
    case False
    then obtain gp ctx where g: "gpu_up w gp ctx [] []" using s by (auto simp: searched_def)
    then have "init_finish env w = Some (init_done w)" by (simp add: init_finish_def gpu_up_def)
    then show ?thesis by (rule success [OF _ init_done_hot [OF g ok u r]]) (use init_done_code [of w] in simp)
  next
    case none: True
    then have gs: "gs_gpu_contexts (w_state w) = []" "hp_mem (w_gpus w) = Map.empty" by (simp_all add: gpu_none_def)
    have nn: "nv_heap_none (w_nv w)" "4096 dvd unat (next_gpu_addr (w_nv w))"
      using s none by (auto simp: searched_def gpu_none_def gpu_up_def)
    show ?thesis
    proof (cases "use_simulation_fallback (env_simulation env)")
      case False
      from init_finish_none [OF gs nn ok u cold r this] show ?thesis by blast
    next
      case True
      obtain q hg where c: "heap_alloc (w_gpus w) virtual_gpu = (q, hg)" by fastforce
      show ?thesis
      proof (cases q)
        case None
        then have "init_finish env w = Some (cudaErrorMemoryAllocation, set_error cudaErrorMemoryAllocation (w\<lparr>w_gpus := hg\<rparr>))"
          using gs True c by (simp add: init_finish_def)
        then show ?thesis using cold by (auto simp: same_client_def world_simps)
      next
        case (Some gp)
        from init_finish_simulated [OF gs nn ok u r True c [unfolded Some]] success show ?thesis by blast
      qed
    qed
  qed
qed

lemma scan_few:
  assumes r: "pcie_reach ctx h" and d: "devices ctx = []"
  shows "\<exists>n ctx' h'. pcie_scan_bus ctx h = Some (n, ctx', h') \<and> pcie_reach ctx' h' \<and> h_usb4 h' = h_usb4 h \<and>
    (devices ctx' = [] \<or> (\<exists>p. devices ctx' = [Some p]))"
proof -
  from preach_owned [OF r] obtain ps where own: "pcie_owned ctx h ps" and ok: "usb4_ok ctx h" by blast
  obtain u where u: "get_usb4 ctx h = Some u" by (rule owned_usb4 [OF ok])
  from scan_cases [OF own u] obtain n ctx' h' where s: "pcie_scan_bus ctx h = Some (n, ctx', h')" "h_usb4 h' = h_usb4 h"
    "devices ctx' = devices ctx \<or> devices ctx' = devices ctx @ [Some (hp_next (h_devices h))]"
    by (metis (no_types, lifting))
  with preach_scan [OF r s(1)] d show ?thesis by auto
qed

lemma cold_put:
  assumes c: "cold w" and ok: "heaps_ok w" and hu: "usb4_heap_none hu"
  shows "cold (set_pcie (usb4_at ctx (w_pcie w)) (w\<lparr>w_usb4 := hu\<rparr>))"
    and "heaps_ok (set_pcie (usb4_at ctx (w_pcie w)) (w\<lparr>w_usb4 := hu\<rparr>))"
  using assms by (simp_all add: cold_def heaps_ok_def world_simps has_usb4_def pcie_heap_none_def nv_heap_none_def host_ok_def)

lemma cold_error: "cold w \<Longrightarrow> heaps_ok w \<Longrightarrow> cuda_inv io [] (set_error e w)"
  using cold_inv [of w io] by (rule inv_set_error)

text \<open>\<open>cudaBridgeInit\<close> from a cold state.\<close>

lemma init_cold:
  assumes c: "cold w" and ok: "heaps_ok w" and io: "env_iokit env = io"
  shows "\<exists>err w'. cudaBridgeInit env w = Some (err, w') \<and> same_client w w' \<and>
    (err = cudaSuccess \<and> gs_initialized (w_state w') \<and> cuda_inv io [] w' \<or>
     (err = cudaErrorInitializationError \<or> err = cudaErrorNoDevice) \<and> cuda_inv io [] w' \<and> \<not> gs_initialized (w_state w') \<or>
     err = cudaErrorMemoryAllocation \<and> \<not> gs_initialized (w_state w'))"
proof -
  have i: "\<not> gs_initialized (w_state w)" and un: "usb4_heap_none (w_usb4 w)" using c by (simp_all add: cold_def)
  have hu: "has_usb4 w" using ok by (simp add: heaps_ok_def)
  obtain ret ctx hu1 where u: "usb4_controller_init io (w_usb4 w) = Some (ret, ctx, hu1)" and un1: "usb4_heap_none hu1"
    using usb4_init_total un by blast
  let ?w1 = "set_pcie (usb4_at ctx (w_pcie w)) (w\<lparr>w_usb4 := hu1\<rparr>)"
  note p1 = usb4_only_put [OF hu, of ctx hu1] and c1 = cold_put [OF c ok un1, of ctx]
  show ?thesis
  proof (cases "ret = USB4_SUCCESS")
    case False
    then have "cudaBridgeInit env w = Some (cudaErrorInitializationError, set_error cudaErrorInitializationError ?w1)"
      using i u io p1(1) by (simp add: cudaBridgeInit_def)
    then show ?thesis using cold_error [OF c1, of io cudaErrorInitializationError] i
      by (auto simp: same_client_def world_simps)
  next
    case True
    obtain n ctx2 hu2 where s: "usb4_scan_routers io ctx hu1 = (n, ctx2, hu2)" by (metis prod_cases3)
    have ur: "usb4_once io ctx2 hu2" by (rule once_scan [OF un u [unfolded True] s])
    let ?w2 = "set_pcie (usb4_at ctx2 (w_pcie ?w1)) (?w1\<lparr>w_usb4 := hu2\<rparr>)"
    have hu1: "has_usb4 ?w1" using c1(2) by (simp add: heaps_ok_def)
    note p2 = usb4_only_put [OF hu1, of ctx2 hu2]
    obtain pctx where pt: "pcie_tunnel_init (Some g_usb4) (gs_pcie_ctx (w_state ?w2)) = (PCIE_SUCCESS, pctx)"
      by (simp add: pcie_tunnel_init_def)
    then have pd: "devices pctx = []" by (auto simp: pcie_tunnel_init_def pcie_ctx_zero_def)
    let ?w3 = "set_state (gs_pcie_ctx_update (\<lambda>_. pctx)) ?w2"
    have u3: "usb4_up io ?w3" and h3: "has_usb4 ?w3"
      using p2(3) ur p2(2) by (simp_all add: usb4_up_def get_usb4_ctx_def world_simps usb4_only_def has_usb4_def)
    from create_tunnels_total [OF u3 h3] obtain w4 where t: "create_tunnels ?w3 (connected_routers ctx2) = Some w4"
      and u4: "usb4_up io w4" and o4: "usb4_only ?w3 w4" by blast
    note sel = usb4_only_sel [OF o4]
    have "pcie_heap_none (w_pcie w4)" using c sel by (simp add: pcie_heap_none_def cold_def world_simps)
    moreover have "g_usb4 \<in> dom (hp_mem (h_usb4 (w_pcie w4)))" using o4 by (simp add: usb4_only_def has_usb4_def)
    ultimately have r4: "pcie_reach pctx (w_pcie w4)" using pt by (rule preach_init)
    from scan_few [OF r4 pd] obtain k pctx5 hp5 where sc: "pcie_scan_bus pctx (w_pcie w4) = Some (k, pctx5, hp5)"
      and r5: "pcie_reach pctx5 hp5" and u5: "h_usb4 hp5 = h_usb4 (w_pcie w4)"
      and d5: "devices pctx5 = [] \<or> (\<exists>p. devices pctx5 = [Some p])" by blast
    let ?w5 = "set_pcie hp5 (set_state (\<lambda>s. s\<lparr>gs_pcie_ctx := pctx5, gs_gpu_contexts := []\<rparr>) w4)"
    have "gpu_none ?w5" using c sel by (simp add: gpu_none_def world_simps cold_def)
    moreover have "nv_heap_none (w_nv ?w5)" "4096 dvd unat (next_gpu_addr (w_nv ?w5))"
      using c sel by (simp_all add: nv_heap_none_def world_simps cold_def)
    moreover have "pcie_reach (gs_pcie_ctx (w_state ?w5)) (w_pcie ?w5)" using r5 by (simp add: world_simps)
    moreover have "heap_wf (w_gpus ?w5)" using ok sel by (simp add: heaps_ok_def world_simps)
    ultimately obtain w6 where g: "init_gpus ?w5 (devices pctx5) = Some w6" and s6: "searched ?w5 w6"
      using init_gpus_total [of ?w5 "devices pctx5"] d5 by (auto simp: world_simps)
    have sh: "same_handles ?w5 w6" and h6: "h_usb4 (w_pcie w6) = h_usb4 (w_pcie ?w5)" and wf6: "heap_wf (w_gpus w6)"
      using s6 by (simp_all add: searched_def)
    have sc6: "same_client w w6" using sh sel by (simp add: same_client_def same_handles_def world_simps)
    have "has_usb4 w6" using h6 u5 o4 by (simp add: has_usb4_def world_simps usb4_only_def)
    then have ok6: "heaps_ok w6" by (rule heaps_ok_client [OF ok sc6 wf6])
    have u6: "usb4_up io w6" using u4 h6 u5 sh by (simp add: usb4_up_def get_usb4_ctx_def world_simps same_handles_def)
    have i6: "\<not> gs_initialized (w_state w6)" using i sh sel by (simp add: same_handles_def world_simps)
    have call: "cudaBridgeInit env w = init_finish env w6"
      using i u True io p1(1) s p2(1) pt t sc g by (simp add: cudaBridgeInit_def Let_def world_simps)
    from init_finish_cases [OF s6 ok6 u6 i6, of env] sc6 show ?thesis
      unfolding call by (auto simp: same_client_def)
  qed
qed

lemma gpu_shutdown_total:
  assumes inv: "nv_inv ctx h xs cs" and r: "pcie_reach pctx (h_pcie h)"
    and d: "gpu_pcie_device ctx = None \<or> gpu_pcie_device ctx \<in> set (devices pctx)"
  shows "\<exists>ctx' h'. nv_gpu_shutdown ctx h = Some (ctx', h') \<and> nv_heap_none h' \<and> pcie_reach pctx (h_pcie h') \<and>
    h_usb4 (h_pcie h') = h_usb4 (h_pcie h) \<and> 4096 dvd unat (next_gpu_addr h')"
proof -
  obtain ctx1 h1 xs1 where 1: "destroy_channels ctx h = Some (ctx1, h1)" "nv_inv ctx1 h1 xs1 []"
    "h_pcie h1 = h_pcie h" "gpu_pcie_device ctx1 = gpu_pcie_device ctx"
    using destroy_channels_total [OF inv] by blast
  obtain ctx2 h2 where 2: "free_allocations ctx1 h1 = Some (ctx2, h2)" "nv_inv ctx2 h2 [] []"
    "h_pcie h2 = h_pcie h" "gpu_pcie_device ctx2 = gpu_pcie_device ctx"
    using free_allocations_total [OF 1(2)] 1(3,4) by auto
  have none: "nv_heap_none (h2\<lparr>h_pcie := hp\<rparr>)" "4096 dvd unat (next_gpu_addr (h2\<lparr>h_pcie := hp\<rparr>))" for hp
    using 2(2) by (simp_all add: nv_inv_def mem_rep_def chan_rep_def nv_heap_none_def)
  show ?thesis
  proof (cases "gpu_pcie_device ctx")
    case None
    then show ?thesis using 1 2 none [of "h_pcie h"] r
      by (auto simp: nv_gpu_shutdown_def nv_heap_none_def)
  next
    case (Some p)
    then have pin: "Some p \<in> set (devices pctx)" using d by simp
    obtain dev where dev: "heap_get (h_devices (h_pcie h)) p = Some dev" by (rule reach_device [OF r pin])
    have i: "(0::nat) < PCIE_BAR_COUNT" "(1::nat) < PCIE_BAR_COUNT" by (simp_all add: pcie_consts)
    obtain hp1 d1 where u1: "unmap_device_bar (h_pcie h) p 0 = Some hp1" "pcie_reach pctx hp1" "heap_get (h_devices hp1) p = Some d1"
      using unmap_device_reach [OF r pin i(1) dev] by auto
    obtain hp2 where u2: "unmap_device_bar hp1 p 1 = Some hp2" "pcie_reach pctx hp2"
      using unmap_device_reach [OF u1(2) pin i(2) u1(3)] by auto
    have hu: "h_usb4 hp2 = h_usb4 (h_pcie h)" using device_calls_usb4(2) u1(1) u2(1) by metis
    have "nv_gpu_shutdown ctx h = Some (gpu_ctx_zero\<lparr>gpu_state := NV_GPU_STATE_UNINITIALIZED\<rparr>, h2\<lparr>h_pcie := hp2\<rparr>)"
      using 1(1) 2(1,3,4) Some u1(1) u2(1) by (simp add: nv_gpu_shutdown_def)
    then show ?thesis using none [of hp2] u2(2) hu by auto
  qed
qed

text \<open>Everything the layers own is freed; the handles of the client are untouched.\<close>

lemma shutdown_hot:
  assumes I: "cuda_inv io S w" and i: "gs_initialized (w_state w)"
  shows "\<exists>w'. cudaBridgeShutdown w = Some (cudaSuccess, w') \<and> cold w' \<and> heaps_ok w' \<and> w_state w' = state_zero \<and>
    w_streams w' = w_streams w \<and> w_events w' = w_events w \<and> w_host w' = w_host w \<and> hp_oom (w_gpus w') = hp_oom (w_gpus w)"
proof -
  obtain gp ctx xs cs where g: "gpu_up w gp ctx xs cs" and v: "nv_inv ctx (w_nv w) xs cs" and u: "usb4_up io w"
    and gp: "heap_get (w_gpus w) gp = Some ctx" and r: "pcie_reach (gs_pcie_ctx (w_state w)) (w_pcie w)"
    by (rule hotE [OF I i])
  have ok: "heaps_ok w" using I by (simp add: cuda_inv_def)
  have hu: "has_usb4 w" using ok by (simp add: heaps_ok_def)
  from gpu_shutdown_total [OF v r] g obtain ctx' nv where s: "nv_gpu_shutdown ctx (w_nv w) = Some (ctx', nv)" "nv_heap_none nv"
    "pcie_reach (gs_pcie_ctx (w_state w)) (h_pcie nv)" "h_usb4 (h_pcie nv) = h_usb4 (w_pcie w)" "4096 dvd unat (next_gpu_addr nv)"
    by (auto simp: gpu_up_def)
  let ?hg = "(w_gpus w)\<lparr>hp_mem := Map.empty\<rparr>"
  let ?w1 = "w\<lparr>w_nv := nv, w_gpus := ?hg\<rparr>"
  have m: "hp_mem (w_gpus w) = [gp \<mapsto> ctx]" "gs_gpu_contexts (w_state w) = [Some gp]" using g by (simp_all add: gpu_up_def)
  then have 1: "shutdown_gpus w (gs_gpu_contexts (w_state w)) = Some ?w1" using gp s(1) by (simp add: heap_free_def)
  have r1: "pcie_reach (gs_pcie_ctx (w_state ?w1)) (w_pcie ?w1)" using s(3) by simp
  from shutdown_pcie_total [OF r1] obtain hp where 2: "shutdown_pcie ?w1 = Some (set_pcie hp
      (set_state (gs_pcie_ctx_update (\<lambda>_. pcie_ctx_zero)) ?w1))" "pcie_heap_none hp" "h_usb4 hp = h_usb4 (w_pcie ?w1)" by blast
  let ?w2 = "set_pcie hp (set_state (gs_pcie_ctx_update (\<lambda>_. pcie_ctx_zero)) ?w1)"
  have u2: "usb4_up io ?w2" "has_usb4 ?w2" using u hu 2(3) s(4) by (simp_all add: usb4_up_def get_usb4_ctx_def world_simps has_usb4_def)
  from shutdown_usb4_total [OF u2] obtain w3 where 3: "shutdown_usb4 ?w2 = Some w3" "usb4_only ?w2 w3" "usb4_heap_none (w_usb4 w3)" by blast
  note sel = usb4_only_sel [OF 3(2)]
  note 4 = usb4_only_put [OF sel(12), of usb4_ctx_zero "w_usb4 w3"]
  let ?w4 = "set_pcie (usb4_at usb4_ctx_zero (w_pcie w3)) (w3\<lparr>w_usb4 := w_usb4 w3\<rparr>)"
  let ?w = "?w4\<lparr>w_state := state_zero\<rparr>"
  have "cudaBridgeShutdown w = Some (cudaSuccess, ?w)" using i 1 2(1) 3(1) 4(1) by (simp add: cudaBridgeShutdown_def)
  moreover have "cold ?w" using s(2,5) 2(2) 3(3) sel
    by (simp add: cold_def state_zero_def world_simps pcie_heap_none_def nv_heap_none_def)
  moreover have "heaps_ok ?w" using ok sel
    by (simp add: heaps_ok_def state_zero_def world_simps has_usb4_def host_ok_def heap_wf_def)
  moreover have "w_state ?w = state_zero" "w_streams ?w = w_streams w" "w_events ?w = w_events w" "w_host ?w = w_host w"
    "hp_oom (w_gpus ?w) = hp_oom (w_gpus w)"
    using sel by (simp_all add: world_simps)
  ultimately show ?thesis by blast
qed

end
