(* ===== verification/Cuda_Calls.thy ===== *)
theory Cuda_Calls
  imports Cuda_Invariant
begin

text \<open>
  Every other function of the runtime returns in a state that satisfies the invariant and keeps it, given
  handles the client owns and host ranges that are accessible.
\<close>

unbundle bit_operations_syntax

section \<open>The calls\<close>

text \<open>The state a driver call leaves.\<close>

abbreviation with_gpu :: "world \<Rightarrow> ptr \<Rightarrow> NVGpuContext \<Rightarrow> nv_heap \<Rightarrow> world" where
  "with_gpu w gp ctx nv \<equiv> w\<lparr>w_nv := nv, w_gpus := (w_gpus w)\<lparr>hp_mem := (hp_mem (w_gpus w))(gp \<mapsto> ctx)\<rparr>\<rparr>"

lemma inv_fail: "cuda_inv io S w \<Longrightarrow> cuda_inv io S (snd (fail e w))"
  and inv_fail_out: "cuda_inv io S w \<Longrightarrow> cuda_inv io S (snd (snd (fail_out e w)))"
  by (simp_all add: fail_def fail_out_def inv_set_error)

lemma init_total_inv:
  assumes I: "cuda_inv io S w" and io: "env_iokit env = io"
  shows "\<exists>err w'. cudaBridgeInit env w = Some (err, w') \<and> same_client w w' \<and>
    (err \<noteq> cudaErrorMemoryAllocation \<longrightarrow> cuda_inv io S w') \<and> (err = cudaSuccess \<longleftrightarrow> gs_initialized (w_state w'))"
proof (cases "gs_initialized (w_state w)")
  case True
  with I show ?thesis by (simp add: cudaBridgeInit_def same_client_def)
next
  case False
  have ok: "heaps_ok w" using I by (simp add: cuda_inv_def)
  note c = coldE [OF I False]
  from init_cold [OF c(1) ok io] c(2) show ?thesis by auto
qed

lemma shutdown_total_inv:
  assumes I: "cuda_inv io S w"
  shows "\<exists>w'. cudaBridgeShutdown w = Some (cudaSuccess, w') \<and> cold w' \<and> cuda_inv io [] w' \<and>
    w_streams w' = w_streams w \<and> w_events w' = w_events w \<and> w_host w' = w_host w \<and> hp_oom (w_gpus w') = hp_oom (w_gpus w)"
proof (cases "gs_initialized (w_state w)")
  case True
  from shutdown_hot [OF I True] cold_inv [where io = io] show ?thesis by blast
next
  case False
  note c = coldE [OF I False]
  have "heaps_ok w" using I by (simp add: cuda_inv_def)
  with c(1) False cold_inv [of w io] show ?thesis by (simp add: cudaBridgeShutdown_def)
qed

lemma malloc_total:
  assumes I: "cuda_inv io S w" and room: "addr_room (w_nv w) sz"
  shows "\<exists>err out w'. cudaMalloc b sz w = Some (err, out, w') \<and> cuda_inv io S w'"
proof (cases "b \<and> sz \<noteq> 0 \<and> gs_initialized (w_state w)")
  case False
  with I show ?thesis
    by (auto simp: cudaMalloc_def fail_out_def coldE(3) [OF I] inv_set_error)
next
  case True
  then have i: "gs_initialized (w_state w)" by simp
  obtain gp ctx xs cs where g: "gpu_up w gp ctx xs cs" and S: "streams_ok S cs w" and cur: "get_current_gpu w = Some gp"
    and hg: "heap_get (w_gpus w) gp = Some ctx" and v: "nv_inv ctx (w_nv w) xs cs"
    and r: "pcie_reach (gs_pcie_ctx (w_state w)) (w_pcie w)" by (rule hotE [OF I i])
  let ?a = "alloc_zero\<lparr>ma_size := sz, ma_type := NV_MEM_TYPE_VIDEO\<rparr>"
  have room': "addr_room (w_nv w) (ma_size ?a)" using room by simp
  have fin: "cuda_inv io S (with_gpu w gp ctx' nv)"
    if "nv_inv ctx' nv xs' cs" "h_pcie nv = w_pcie w" "gpu_pcie_device ctx' = gpu_pcie_device ctx" for ctx' nv xs'
    by (rule inv_gpu [OF I i g that(1) _ _ that(3) S]) (use r that(2) in simp_all)
  from v room' show ?thesis
  proof (cases rule: alloc_cases)
    case (rejected e)
    have ne: "e \<noteq> NV_SUCCESS" using rejected(1) by (auto simp: alloc_guard_def split: if_splits)
    from fin [OF v refl refl] show ?thesis
      using True cur hg rejected(2) ne by (auto simp: cudaMalloc_def put_gpu fail_out_def inv_set_error)
  next
    case (failed out nv)
    from fin [OF failed(4,5) refl] show ?thesis
      using True cur hg failed(3) by (auto simp: cudaMalloc_def put_gpu fail_out_def inv_set_error)
  next
    case (ok ctx' nv r')
    have "gpu_pcie_device ctx' = gpu_pcie_device ctx" using ok(7) by simp
    from fin [OF ok(4,5) this] show ?thesis
      using True cur hg ok(3) by (auto simp: cudaMalloc_def put_gpu)
  qed
qed

lemma drop_alloc_pcie: "h_pcie (drop_alloc h x) = h_pcie h"
  by simp

lemma find_from_ex: "find_from P xs \<noteq> None \<longleftrightarrow> (\<exists>x \<in> set xs. P x)"
  by (induction xs) auto

lemma host_ok_find:
  assumes "host_ok w" and "find_from (\<lambda>a. ha_ptr a = p) (gs_host_allocs (w_state w)) \<noteq> None"
  shows "p \<noteq> 0" and "p \<in> dom (hm_live (w_host w))"
  using assms unfolding find_from_ex by (auto simp: host_ok_def)

lemma remove_ptr:
  "distinct (map ha_ptr as) \<Longrightarrow> distinct (map ha_ptr (remove_first (\<lambda>a. ha_ptr a = p) as)) \<and>
     p \<notin> ha_ptr ` set (remove_first (\<lambda>a. ha_ptr a = p) as)"
  by (induction as) (use set_remove_first_subset in \<open>fastforce simp: image_iff\<close>)+

lemma tracked_free:
  assumes I: "cuda_inv io S w"
  shows "\<exists>t w'. free_tracked_host_alloc p w = Some (t, w') \<and> cuda_inv io S w' \<and> (\<not> t \<longrightarrow> w' = w) \<and>
    (t \<longleftrightarrow> p \<in> ha_ptr ` set (gs_host_allocs (w_state w))) \<and> gs_initialized (w_state w') = gs_initialized (w_state w) \<and>
    (t \<longrightarrow> hm_live (w_host w') = (hm_live (w_host w))(p := None) \<and> p \<notin> ha_ptr ` set (gs_host_allocs (w_state w')))"
proof (cases "find_from (\<lambda>a. ha_ptr a = p) (gs_host_allocs (w_state w)) = None")
  case True
  then have "p \<notin> ha_ptr ` set (gs_host_allocs (w_state w))"
    using find_from_ex [of "\<lambda>a. ha_ptr a = p" "gs_host_allocs (w_state w)"] by auto
  with True I show ?thesis
    by (intro exI [of _ False] exI [of _ w]) (simp add: free_tracked_host_alloc_def)
next
  case False
  have ok: "host_ok w" using I by (simp add: cuda_inv_def heaps_ok_def)
  note f = host_ok_find [OF ok False]
  have pin: "p \<in> ha_ptr ` set (gs_host_allocs (w_state w))" using False unfolding find_from_ex by auto
  obtain hm where hm: "host_free (w_host w) p = Some hm" "hm_live hm = (hm_live (w_host w))(p := None)"
    using f by (auto simp: host_free_def)
  let ?f = "remove_first (\<lambda>a. ha_ptr a = p)"
  let ?w = "set_state (gs_host_allocs_update ?f) (w\<lparr>w_host := hm\<rparr>)"
  have d: "distinct (map ha_ptr (gs_host_allocs (w_state w)))" using ok by (simp add: host_ok_def)
  note rp = remove_ptr [OF d, of p]
  have "ha_ptr a \<in> dom (hm_live hm) \<and> ha_ptr a \<noteq> 0" if a: "a \<in> set (?f (gs_host_allocs (w_state w)))" for a
  proof -
    have "ha_ptr a \<noteq> p" using rp a by (metis imageI)
    moreover have "a \<in> set (gs_host_allocs (w_state w))" using a set_remove_first_subset by fastforce
    ultimately show ?thesis using ok hm(2) by (auto simp: host_ok_def)
  qed
  moreover have "length (?f (gs_host_allocs (w_state w))) \<le> MAX_HOST_ALLOCS"
    using ok by (auto simp: host_ok_def length_remove_first intro: le_trans [OF diff_le_self])
  ultimately have h: "host_ok ?w" using rp by (simp add: host_ok_def world_simps)
  have e: "heap_wf (w_events w)" using I by (simp add: cuda_inv_def heaps_ok_def)
  have "cuda_inv io S ?w"
    by (rule inv_cong [OF I]) (simp_all add: world_simps same_core_state_def e h)
  moreover have "free_tracked_host_alloc p w = Some (True, ?w)" using False hm by (simp add: free_tracked_host_alloc_def)
  ultimately show ?thesis using pin hm(2) rp
    by (intro exI [of _ True] exI [of _ ?w]) (simp add: world_simps)
qed

lemma free_total:
  assumes I: "cuda_inv io S w"
  shows "\<exists>err w'. cudaFree q w = Some (err, w') \<and> cuda_inv io S w'"
proof -
  obtain t w1 where 1: "free_tracked_host_alloc q w = Some (t, w1)" "cuda_inv io S w1" "\<not> t \<longrightarrow> w1 = w"
    using tracked_free [OF I, of q] by blast
  show ?thesis
  proof (cases "q = 0 \<or> t \<or> \<not> gs_initialized (w_state w)")
    case True
    with I 1 show ?thesis by (auto simp: cudaFree_def coldE(3) [OF I] inv_fail fail_def inv_set_error)
  next
    case False
    then have i: "gs_initialized (w_state w)" and w1: "w1 = w" "q \<noteq> 0" "\<not> t" using 1(3) by simp_all
    obtain gp ctx xs cs where g: "gpu_up w gp ctx xs cs" and S: "streams_ok S cs w" and cur: "get_current_gpu w = Some gp"
      and hg: "heap_get (w_gpus w) gp = Some ctx" and v: "nv_inv ctx (w_nv w) xs cs"
      and r: "pcie_reach (gs_pcie_ctx (w_state w)) (w_pcie w)" by (rule hotE [OF I i])
    let ?a = "alloc_zero\<lparr>ma_gpu_addr := q\<rparr>"
    have fin: "cuda_inv io S (with_gpu w gp ctx' nv)"
      if "nv_inv ctx' nv xs' cs" "h_pcie nv = w_pcie w" "gpu_pcie_device ctx' = gpu_pcie_device ctx" for ctx' nv xs'
      by (rule inv_gpu [OF I i g that(1) _ _ that(3) S]) (use r that(2) in simp_all)
    from v show ?thesis
    proof (cases rule: free_cases [where a = ?a])
      case miss
      from fin [OF miss(2)] show ?thesis using miss(1) 1(1) w1 cur hg by (auto simp: cudaFree_def put_gpu)
    next
      case (hit ys x zs ctx')
      from fin [OF hit(4)] show ?thesis using hit(3,5) 1(1) w1 cur hg by (auto simp: cudaFree_def put_gpu)
    qed
  qed
qed

lemma memcpy_keeps:
  assumes I: "cuda_inv io S w" and c: "cudaMemcpy dst src count kind w = Some (err, out, w')"
  shows "cuda_inv io S w' \<and> w_host w' = w_host w \<and> gs_host_allocs (w_state w') = gs_host_allocs (w_state w) \<and>
    w_streams w' = w_streams w \<and> w_events w' = w_events w"
proof (cases "hp_addr dst = 0 \<or> hp_addr src = 0 \<or> count = 0 \<or> kind = cudaMemcpyHostToHost \<or> \<not> gs_initialized (w_state w)")
  case True
  with c I show ?thesis
    by (auto simp: cudaMemcpy_def fail_out_def copy_result_def coldE(3) [OF I] inv_set_error world_simps bind_eq_Some_conv
        split: if_splits cudaMemcpyKind.splits)
next
  case False
  then have i: "gs_initialized (w_state w)" by simp
  obtain gp ctx xs cs where g: "gpu_up w gp ctx xs cs" and S: "streams_ok S cs w" and cur: "get_current_gpu w = Some gp"
    and hg: "heap_get (w_gpus w) gp = Some ctx" and v: "nv_inv ctx (w_nv w) xs cs"
    and r: "pcie_reach (gs_pcie_ctx (w_state w)) (w_pcie w)" by (rule hotE [OF I i])
  have wf: "heap_wf (h_stores (w_nv w))" using v by (simp add: nv_inv_def mem_rep_def)
  have fin: "cuda_inv io S (with_gpu w gp ctx' ((w_nv w)\<lparr>h_stores := hs\<rparr>))"
    if s: "map_sizes hs = map_sizes (h_stores (w_nv w))" "heap_wf hs" "gpu_allocations ctx' = gpu_allocations ctx"
      "gpu_channels ctx' = gpu_channels ctx" "gpu_pcie_device ctx' = gpu_pcie_device ctx" for ctx' hs
    by (rule inv_gpu [OF I i g nv_inv_stores [OF v s(1-4)] _ _ s(5) S]) (use r in simp_all)
  have fr: "copy_result ret o' W = (err, out, w') \<Longrightarrow> cuda_inv io S W \<Longrightarrow> w_host W = w_host w \<Longrightarrow>
      gs_host_allocs (w_state W) = gs_host_allocs (w_state w) \<Longrightarrow> w_streams W = w_streams w \<Longrightarrow> w_events W = w_events w \<Longrightarrow> ?thesis" for ret o' W
    by (auto simp: copy_result_def world_simps inv_set_error split: if_splits)
  show ?thesis
  proof (cases kind)
    case cudaMemcpyHostToHost
    with False show ?thesis by simp
  next
    case cudaMemcpyHostToDevice
    with c False cur hg obtain ret ctx' nv where m: "nv_gpu_memcpy_h2d ctx (w_nv w) (hp_addr dst) (Some (hp_bytes src)) count = Some (ret, ctx', nv)"
      and e: "copy_result ret None (with_gpu w gp ctx' nv) = (err, out, w')"
      by (auto simp: cudaMemcpy_def bind_eq_Some_conv put_gpu)
    from h2d_shape [OF m] wf obtain n hs where s: "ctx' = ctx\<lparr>gpu_bytes_transferred := n\<rparr>" "nv = (w_nv w)\<lparr>h_stores := hs\<rparr>"
      "map_sizes hs = map_sizes (h_stores (w_nv w))" "heap_wf hs" by blast
    show ?thesis by (rule fr [OF e]) (use fin [OF s(3,4), of ctx'] s(1,2) in simp_all)
  next
    case cudaMemcpyDeviceToHost
    with c False cur hg obtain ret o1 o2 ctx' where m: "nv_gpu_memcpy_d2h ctx (w_nv w) True (hp_addr src) count = Some (ret, o1, ctx')"
      and e: "copy_result ret o2 (w\<lparr>w_gpus := (w_gpus w)\<lparr>hp_mem := (hp_mem (w_gpus w))(gp \<mapsto> ctx')\<rparr>\<rparr>) = (err, out, w')"
      by (auto simp: cudaMemcpy_def bind_eq_Some_conv put_gpu)
    have k: "gpu_allocations ctx' = gpu_allocations ctx" "gpu_channels ctx' = gpu_channels ctx" "gpu_pcie_device ctx' = gpu_pcie_device ctx"
      using ctx_step_keeps [OF cstep_d2h [OF m]] by simp_all
    have "with_gpu w gp ctx' ((w_nv w)\<lparr>h_stores := h_stores (w_nv w)\<rparr>) = w\<lparr>w_gpus := (w_gpus w)\<lparr>hp_mem := (hp_mem (w_gpus w))(gp \<mapsto> ctx')\<rparr>\<rparr>"
      by simp
    with fin [OF refl wf k] show ?thesis by (intro fr [OF e]) simp_all
  next
    case cudaMemcpyDeviceToDevice
    with c False cur hg obtain ret nv where m: "nv_gpu_memcpy_d2d ctx (w_nv w) (hp_addr dst) (hp_addr src) count = Some (ret, nv)"
      and e: "copy_result ret None (w\<lparr>w_nv := nv\<rparr>) = (err, out, w')"
      by (auto simp: cudaMemcpy_def bind_eq_Some_conv)
    from d2d_shape [OF m] wf obtain hs where s: "nv = (w_nv w)\<lparr>h_stores := hs\<rparr>"
      "map_sizes hs = map_sizes (h_stores (w_nv w))" "heap_wf hs" by blast
    have "(hp_mem (w_gpus w))(gp \<mapsto> ctx) = hp_mem (w_gpus w)" using hg by (simp add: heap_get_def fun_upd_idem)
    then have "with_gpu w gp ctx nv = w\<lparr>w_nv := nv\<rparr>" by simp
    with fin [OF s(2,3), of ctx] s(1) show ?thesis by (intro fr [OF e]) simp_all
  next
    case cudaMemcpyDefault
    with c False cur hg I show ?thesis by (auto simp: cudaMemcpy_def fail_out_def inv_set_error world_simps)
  qed
qed

text \<open>The host allocator hands out addresses that are not null and not in use.\<close>

definition host_fresh :: "host_mem \<Rightarrow> bool" where
  "host_fresh hm \<longleftrightarrow> (\<forall>a. hm_pick hm (hm_count hm) = Some a \<longrightarrow> a \<noteq> 0 \<and> a \<notin> dom (hm_live hm))"

lemma host_alloc_cases:
  assumes "host_alloc hm sz = (p, hm')"
  shows "hm_live hm' = (if hm_pick hm (hm_count hm) = None then hm_live hm
      else (hm_live hm)(p \<mapsto> buf_new (unat sz)))" and "hm_pick hm (hm_count hm) = None \<longrightarrow> p = 0"
    and "hm_pick hm (hm_count hm) \<noteq> None \<longrightarrow> hm_pick hm (hm_count hm) = Some p"
  using assms by (auto simp: host_alloc_def Let_def split: option.splits)

lemma inv_host:
  assumes I: "cuda_inv io S w" and d: "dom (hm_live (w_host w)) \<subseteq> dom (hm_live hm)"
  shows "cuda_inv io S (w\<lparr>w_host := hm\<rparr>)"
proof (rule inv_cong [OF I])
  have "heaps_ok w" using I by (simp add: cuda_inv_def)
  then show "heap_wf (w_events (w\<lparr>w_host := hm\<rparr>))" by (simp add: heaps_ok_def)
  have "host_ok w" using \<open>heaps_ok w\<close> by (simp add: heaps_ok_def)
  then show "host_ok (w\<lparr>w_host := hm\<rparr>)" using d unfolding host_ok_def by (simp del: domIff) blast
qed (simp_all add: same_core_state_def)

lemma malloc_host_total:
  assumes I: "cuda_inv io S w" and f: "host_fresh (w_host w)"
  shows "cuda_inv io S (snd (snd (cudaMallocHost b sz w)))"
proof -
  obtain p hm where a: "host_alloc (w_host w) sz = (p, hm)" by fastforce
  note h = host_alloc_cases [OF a]
  have sub: "dom (hm_live (w_host w)) \<subseteq> dom (hm_live hm)" using h(1) by auto
  have I1: "cuda_inv io S (w\<lparr>w_host := hm\<rparr>)" by (rule inv_host [OF I sub])
  show ?thesis
  proof (cases "b \<and> sz \<noteq> 0 \<and> p \<noteq> 0 \<and> length (gs_host_allocs (w_state w)) < MAX_HOST_ALLOCS")
    case False
    with I I1 a show ?thesis
      by (auto simp: cudaMallocHost_def Let_def fail_out_def inv_set_error track_host_alloc_def)
  next
    case True
    then have pk: "hm_pick (w_host w) (hm_count (w_host w)) = Some p" using h(2,3) by auto
    then have fr: "p \<notin> dom (hm_live (w_host w))" using f by (simp add: host_fresh_def)
    let ?w = "track_host_alloc p False (w\<lparr>w_host := hm\<rparr>)"
    have hok: "host_ok w" using I by (simp add: cuda_inv_def heaps_ok_def)
    then have "p \<notin> ha_ptr ` set (gs_host_allocs (w_state w))" using fr by (auto simp: host_ok_def)
    then have "host_ok ?w" using hok sub True h(1) pk
      by (auto simp: track_host_alloc_def host_ok_def world_simps)
    moreover have "heap_wf (w_events w)" using I by (simp add: cuda_inv_def heaps_ok_def)
    ultimately have "cuda_inv io S ?w"
      by (intro inv_cong [OF I1]) (simp_all add: track_host_alloc_def world_simps same_core_state_def)
    with True a show ?thesis by (simp add: cudaMallocHost_def)
  qed
qed

text \<open>The search for the allocation of a device range: it misses, or gives a live store that holds the
  range when the bound check passes.\<close>

lemma find_alloc_outcomes:
  assumes v: "nv_inv ctx h xs cs" and room: "addr_room h sz"
  obtains (miss) "nv_find_alloc_by_addr (h_allocs h) a (gpu_allocations ctx) = Some None"
  | (hit) x s b where "nv_find_alloc_by_addr (h_allocs h) a (gpu_allocations ctx) = Some (Some (snd x))"
      "x \<in> set xs" "ma_backing_store (snd x) = Some s" "hp_mem (h_stores h) s = Some b"
      "a - ma_gpu_addr (snd x) + sz \<le> ma_size (snd x) \<Longrightarrow> unat (a - ma_gpu_addr (snd x)) + unat sz \<le> b_size b"
      "unat a = unat (ma_gpu_addr (snd x)) + unat (a - ma_gpu_addr (snd x))"
proof -
  have rep: "mem_rep (h_allocs h) (h_stores h) (next_gpu_addr h) xs" and al: "gpu_allocations ctx = map (\<lambda>x. Some (fst x)) xs"
    using v by (simp_all add: nv_inv_def)
  have f: "nv_find_alloc_by_addr (h_allocs h) a (gpu_allocations ctx) = Some (map_option snd (find (\<lambda>x. in_alloc x a) xs))"
    unfolding al by (rule find_alloc_closed) (use mem_rep_live(1) [OF rep] end_no_wrap [OF rep] in blast)
  show thesis
  proof (cases "find (\<lambda>x. in_alloc x a) xs")
    case None
    with f show ?thesis by (simp add: miss)
  next
    case (Some x)
    then have x: "x \<in> set xs" "in_alloc x a" by (auto simp: find_Some_iff)
    from mem_rep_live(2) [OF rep x(1)] obtain s b where s: "ma_backing_store (snd x) = Some s" "hp_mem (h_stores h) s = Some b"
      "b_size b = unat (ma_size (snd x))" by (auto simp: entry_store_def)
    let ?o = "a - ma_gpu_addr (snd x)"
    have o: "unat ?o < unat (ma_size (snd x))" and u: "unat a = unat (ma_gpu_addr (snd x)) + unat ?o"
      using x(2) by (auto simp: in_alloc_def gpu_end_def unat_sub word_le_nat_alt)
    have "gpu_end (snd x) \<le> unat (next_gpu_addr h)" using rep x(1) by (simp add: mem_rep_def entry_ok_def)
    with o room have "unat ?o + unat sz < 2 ^ 64" by (simp add: addr_room_def gpu_end_def)
    then have "unat ?o + unat sz \<le> b_size b" if "?o + sz \<le> ma_size (snd x)"
      using that s(3) by (simp add: word_le_nat_alt unat_word_ariths)
    with f Some x(1) s(1,2) u show ?thesis by (intro hit) simp_all
  qed
qed

lemma h2d_total:
  assumes v: "nv_inv ctx h xs cs" and l: "unat sz \<le> length bytes" and room: "addr_room h sz"
  shows "\<exists>ret ctx' h'. nv_gpu_memcpy_h2d ctx h dst (Some bytes) sz = Some (ret, ctx', h')"
  using v room
proof (cases rule: find_alloc_outcomes [where a = dst])
  case miss
  then show ?thesis by (simp add: nv_gpu_memcpy_h2d_def)
next
  case (hit x s b)
  show ?thesis
  proof (cases "dst - ma_gpu_addr (snd x) + sz \<le> ma_size (snd x)")
    case True
    then obtain b' where "buf_wr b (unat (dst - ma_gpu_addr (snd x))) (take (unat sz) bytes) = Some b'"
      using l hit(5) bs.wr_total [of _ "take (unat sz) bytes" b] by fastforce
    with hit l True show ?thesis by (auto simp: nv_gpu_memcpy_h2d_def Let_def heap_get_def heap_put_def)
  qed (use hit(1-4) in \<open>simp add: nv_gpu_memcpy_h2d_def Let_def\<close>)
qed

lemma d2h_total:
  assumes v: "nv_inv ctx h xs cs" and room: "addr_room h sz"
  shows "\<exists>ret out ctx'. nv_gpu_memcpy_d2h ctx h True src sz = Some (ret, out, ctx') \<and>
    (\<forall>bytes. out = Some bytes \<longrightarrow> length bytes = unat sz)"
  using v room
proof (cases rule: find_alloc_outcomes [where a = src])
  case miss
  then show ?thesis by (simp add: nv_gpu_memcpy_d2h_def)
next
  case (hit x s b)
  show ?thesis
  proof (cases "src - ma_gpu_addr (snd x) + sz \<le> ma_size (snd x)")
    case True
    then obtain bytes where "buf_rd b (unat (src - ma_gpu_addr (snd x))) (unat sz) = Some bytes" "length bytes = unat sz"
      using hit(5) by (auto simp: buf_rd_def)
    with hit True show ?thesis by (auto simp: nv_gpu_memcpy_d2h_def Let_def heap_get_def)
  qed (use hit(1-4) in \<open>simp add: nv_gpu_memcpy_d2h_def Let_def\<close>)
qed

lemma nv_inv_store_inj:
  "nv_inv ctx h xs cs \<Longrightarrow> x \<in> set xs \<Longrightarrow> y \<in> set xs \<Longrightarrow> entry_store x = entry_store y \<Longrightarrow> x = y"
  by (auto simp: nv_inv_def mem_rep_def distinct_map dest: inj_onD)

lemma d2d_total:
  assumes v: "nv_inv ctx h xs cs" and room: "addr_room h sz" and apart: "\<not> ranges_overlap (unat dst) (unat src) (unat sz)"
  shows "\<exists>ret h'. nv_gpu_memcpy_d2d ctx h dst src sz = Some (ret, h')"
  using v room
proof (cases rule: find_alloc_outcomes [where a = src])
  case miss
  with v room show ?thesis
    by (cases rule: find_alloc_outcomes [where a = dst]) (simp_all add: nv_gpu_memcpy_d2d_def)
next
  case src: (hit x s b)
  from v room show ?thesis
  proof (cases rule: find_alloc_outcomes [where a = dst])
    case miss
    with src show ?thesis by (simp add: nv_gpu_memcpy_d2d_def)
  next
    case dst: (hit y t c)
    let ?so = "src - ma_gpu_addr (snd x)" and ?do = "dst - ma_gpu_addr (snd y)"
    show ?thesis
    proof (cases "?so + sz \<le> ma_size (snd x) \<and> ?do + sz \<le> ma_size (snd y)")
      case True
      have "x = y" if "s = t"
        using nv_inv_store_inj [OF v src(2) dst(2)] src(3) dst(3) that by (simp add: entry_store_def)
      then have na: "\<not> (s = t \<and> ranges_overlap (unat ?so) (unat ?do) (unat sz))"
        using apart src(6) dst(6) by (auto simp: ranges_overlap_def)
      obtain bytes where r: "buf_rd b (unat ?so) (unat sz) = Some bytes" "length bytes = unat sz"
        using True src(5) by (auto simp: buf_rd_def)
      obtain c' where w: "buf_wr c (unat ?do) bytes = Some c'"
        using True dst(5) r(2) bs.wr_total [of "unat ?do" bytes c] by auto
      from src dst True na r(1) w show ?thesis
        by (auto simp: nv_gpu_memcpy_d2d_def Let_def heap_get_def heap_put_def)
    qed (use src(1-4) dst(1-4) in \<open>auto simp: nv_gpu_memcpy_d2d_def Let_def\<close>)
  qed
qed

text \<open>\<open>cudaMemset\<close> allocates a temporary buffer and frees it on every path.\<close>

lemma memset_total:
  assumes I: "cuda_inv io S w" and f: "host_fresh (w_host w)" and room: "addr_room (w_nv w) count"
  shows "\<exists>err w'. cudaMemset p v count w = Some (err, w') \<and> cuda_inv io S w' \<and> hm_live (w_host w') = hm_live (w_host w)"
proof (cases "p = 0 \<or> count = 0 \<or> count > 1 * 1024 * 1024 * 1024")
  case True
  with I show ?thesis by (auto simp: cudaMemset_def fail_def inv_set_error world_simps)
next
  case False
  obtain tmp hm where a: "host_alloc (w_host w) count = (tmp, hm)" by fastforce
  note h = host_alloc_cases [OF a]
  let ?w = "w\<lparr>w_host := hm\<rparr>"
  have sub: "dom (hm_live (w_host w)) \<subseteq> dom (hm_live hm)" using h(1) by auto
  have I1: "cuda_inv io S ?w" by (rule inv_host [OF I sub])
  show ?thesis
  proof (cases "hm_pick (w_host w) (hm_count (w_host w))")
    case None
    with h have "tmp = 0" "hm_live hm = hm_live (w_host w)" by simp_all
    with False a I1 show ?thesis by (auto simp: cudaMemset_def fail_def inv_set_error world_simps)
  next
    case (Some t)
    with h have t: "t = tmp" "hm_live hm = (hm_live (w_host w))(tmp \<mapsto> buf_new (unat count))" by simp_all
    have fr: "tmp \<notin> dom (hm_live (w_host w))" using f Some t by (simp add: host_fresh_def)
    have nz: "tmp \<noteq> 0" using f Some t by (simp add: host_fresh_def)
    let ?src = "\<lparr>hp_addr = tmp, hp_bytes = replicate (unat count) (word_of_int v), hp_room = unat count\<rparr>"
    have "\<exists>err out w1. cudaMemcpy (device_ptr p) ?src count cudaMemcpyHostToDevice ?w = Some (err, out, w1)"
    proof (cases "gs_initialized (w_state w)")
      case False
      then show ?thesis by (auto simp: cudaMemcpy_def device_ptr_def coldE(3) [OF I1] fail_out_def)
    next
      case True
      then have i: "gs_initialized (w_state ?w)" by simp
      obtain gp ctx xs cs where cur: "get_current_gpu ?w = Some gp" and hg: "heap_get (w_gpus ?w) gp = Some ctx"
        and nv: "nv_inv ctx (w_nv ?w) xs cs" by (rule hotE [OF I1 i])
      have "addr_room (w_nv ?w) count" using room by simp
      with h2d_total [OF nv, of count "replicate (unat count) (word_of_int v)" p]
      obtain ret ctx' nv' where "nv_gpu_memcpy_h2d ctx (w_nv ?w) p (Some (replicate (unat count) (word_of_int v))) count
          = Some (ret, ctx', nv')" by auto
      with cur hg nz False show ?thesis by (auto simp: cudaMemcpy_def device_ptr_def put_gpu copy_result_def)
    qed
    then obtain err out w1 where m: "cudaMemcpy (device_ptr p) ?src count cudaMemcpyHostToDevice ?w = Some (err, out, w1)" by blast
    from memcpy_keeps [OF I1 m] have k: "cuda_inv io S w1" "w_host w1 = hm"
      "gs_host_allocs (w_state w1) = gs_host_allocs (w_state w)" by simp_all
    obtain hm' where hf: "host_free hm tmp = Some hm'" "hm_live hm' = hm_live (w_host w)"
      using t(2) nz fr by (auto simp: host_free_def fun_upd_idem domIff)
    have ok: "heaps_ok w" "heaps_ok w1" using I k(1) by (simp_all add: cuda_inv_def)
    then have "host_ok (w1\<lparr>w_host := hm'\<rparr>)" using k(3) hf(2) by (simp add: heaps_ok_def host_ok_def)
    moreover have "heap_wf (w_events w1)" using ok(2) by (simp add: heaps_ok_def)
    ultimately have "cuda_inv io S (w1\<lparr>w_host := hm'\<rparr>)"
      by (intro inv_cong [OF k(1)]) (simp_all add: same_core_state_def)
    with False a nz m k(2) hf show ?thesis by (simp add: cudaMemset_def Let_def)
  qed
qed

lemma free_host_total:
  assumes I: "cuda_inv io S w"
  shows "\<exists>w'. cudaFreeHost p w = Some (cudaSuccess, w') \<and> cuda_inv io S w'"
  using tracked_free [OF I, of p] I by (auto simp: cudaFreeHost_def)

subsection \<open>Streams\<close>

lemma inv_wf:
  assumes "cuda_inv io S w"
  shows "heap_wf (w_gpus w)" and "heap_wf (w_streams w)" and "heap_wf (w_events w)"
  using assms by (simp_all add: cuda_inv_def heaps_ok_def)

lemma inv_streams:
  assumes I: "cuda_inv io S w" and wf: "heap_wf hs"
    and h: "\<And>cs. gs_initialized (w_state w) \<Longrightarrow> streams_ok S cs w \<Longrightarrow> streams_ok S' cs (w\<lparr>w_streams := hs\<rparr>)"
    and c: "\<not> gs_initialized (w_state w) \<Longrightarrow> S' = []"
  shows "cuda_inv io S' (w\<lparr>w_streams := hs\<rparr>)"
proof (cases "gs_initialized (w_state w)")
  case True
  have "heaps_ok (w\<lparr>w_streams := hs\<rparr>)" using I wf by (simp add: cuda_inv_def heaps_ok_def has_usb4_def host_ok_def)
  moreover obtain gp ctx xs cs where "gpu_up w gp ctx xs cs" "streams_ok S cs w" "usb4_up io w"
    "pcie_reach (gs_pcie_ctx (w_state w)) (w_pcie w)" by (rule hotE [OF I True])
  moreover from this h [OF True] have "gpu_up (w\<lparr>w_streams := hs\<rparr>) gp ctx xs cs" "streams_ok S' cs (w\<lparr>w_streams := hs\<rparr>)"
    "usb4_up io (w\<lparr>w_streams := hs\<rparr>)" by (simp_all add: gpu_up_def usb4_up_def get_usb4_ctx_def)
  moreover have "gs_current_device (w_state w) = 0" using I True by (simp add: cuda_inv_def hot_def)
  ultimately show ?thesis using True by (auto simp: cuda_inv_def hot_def)
next
  case False
  with I wf c show ?thesis by (simp add: cuda_inv_def heaps_ok_def has_usb4_def host_ok_def cold_def)
qed

lemma streams_ok_frame:
  assumes "streams_ok S cs w" and "\<And>x. x \<in> set S \<Longrightarrow> hp_mem (w_streams w') (fst x) = hp_mem (w_streams w) (fst x)"
  shows "streams_ok S cs w'"
  using assms by (auto simp: streams_ok_def stream_at_def heap_get_def)

lemma inv_streams_frame:
  assumes I: "cuda_inv io S w" and wf: "heap_wf hs"
    and h: "\<And>x. x \<in> set S \<Longrightarrow> hp_mem hs (fst x) = hp_mem (w_streams w) (fst x)"
  shows "cuda_inv io S (w\<lparr>w_streams := hs\<rparr>)"
proof (rule inv_streams [OF I wf])
  show "streams_ok S cs (w\<lparr>w_streams := hs\<rparr>)" if "streams_ok S cs w" for cs
    by (rule streams_ok_frame [OF that]) (simp add: h)
  show "S = []" if "\<not> gs_initialized (w_state w)" by (rule coldE(2) [OF I that])
qed

lemma stream_old:
  assumes "streams_ok S cs w" and "x \<in> set S" and "heap_wf (w_streams w)"
  shows "fst x < hp_next (w_streams w)"
  using assms by (auto simp: streams_ok_def stream_at_def heap_get_def heap_wf_def)

lemma create_channelE:
  assumes "nv_inv ctx h xs cs" and "addr_room h (1024 * 1024)"
  obtains ret out ctx' h' xs' cs' where "nv_gpu_create_channel ctx h True = Some (ret, out, ctx', h')"
    and "nv_inv ctx' h' xs' cs'" and "h_pcie h' = h_pcie h" and "gpu_pcie_device ctx' = gpu_pcie_device ctx"
    and "set cs \<subseteq> set cs'" and "ret = NV_SUCCESS \<Longrightarrow> \<exists>c. out = Some c \<and> cs' = cs @ [c]"
proof -
  let ?P = "\<lambda>ret out cs' ctx' xs'. if ret = NV_SUCCESS then \<exists>c. out = Some c \<and> cs' = cs @ [c] \<and> length xs' = Suc (length xs)
     else cs' = cs \<and> xs' = xs \<and> ctx' = ctx"
  from create_channel_cases [OF assms, of True] obtain ret out ctx' h' xs' cs' where
    1: "nv_gpu_create_channel ctx h True = Some (ret, out, ctx', h')" "nv_inv ctx' h' xs' cs'" "h_pcie h' = h_pcie h"
      "gpu_pcie_device ctx' = gpu_pcie_device ctx" and 2: "?P ret out cs' ctx' xs'"
    by - (elim exE conjE, rule that, assumption+)
  have "set cs \<subseteq> set cs'" "ret = NV_SUCCESS \<Longrightarrow> \<exists>c. out = Some c \<and> cs' = cs @ [c]"
    using 2 by (auto split: if_split_asm)
  from that [OF 1 this] show thesis .
qed

abbreviation stream_made :: "(ptr \<times> ptr) list \<Rightarrow> ptr option \<Rightarrow> (ptr \<times> ptr) list \<Rightarrow> bool" where
  "stream_made S out S' \<equiv> (case out of None \<Rightarrow> S' = S | Some sp \<Rightarrow> \<exists>c. S' = (sp, c) # S)"

lemma stream_create_fails:
  "call = Some (fail_out e W) \<Longrightarrow> cuda_inv io S W \<Longrightarrow>
   \<exists>err out w' S'. call = Some (err, out, w') \<and> cuda_inv io S' w' \<and> stream_made S out S'"
  by (intro exI [of _ e] exI [of _ None] exI [of _ "set_error e W"] exI [of _ S]) (simp add: fail_out_def inv_set_error)

text \<open>A new stream on a new channel.\<close>

lemma stream_added:
  assumes I: "cuda_inv io S w" and i: "gs_initialized (w_state w)" and g: "gpu_up w gp ctx xs cs" and S: "streams_ok S cs w"
    and I1: "cuda_inv io S (with_gpu w gp ctx' nv)" and nv: "nv_inv ctx' nv xs' (cs @ [cc])" "gpu_pcie_device ctx' = gpu_pcie_device ctx"
    and n: "n = hp_next (w_streams w)" and hs: "heap_wf hs" "hp_mem hs = (hp_mem (w_streams w))(n \<mapsto> s)" "cs_device s = 0" "cs_channel s = Some cc"
  shows "cuda_inv io ((n, cc) # S) ((with_gpu w gp ctx' nv)\<lparr>w_streams := hs\<rparr>)"
proof -
  let ?w = "(with_gpu w gp ctx' nv)\<lparr>w_streams := hs\<rparr>"
  have cd: "gs_current_device (w_state w) = 0" using I i by (simp add: cuda_inv_def hot_def)
  have ns: "n \<notin> fst ` set S" using stream_old [OF S _ inv_wf(2) [OF I]] n by fastforce
  have "cc \<notin> set cs" using nv(1) by (simp add: nv_inv_def chan_rep_def)
  then have nc: "cc \<notin> snd ` set S" using S by (auto simp: streams_ok_def)
  have "\<forall>x \<in> set S. stream_at ?w x"
    using S ns hs(2) unfolding streams_ok_def stream_at_def heap_get_def by (auto simp: image_iff)
  then have "streams_ok ((n, cc) # S) (cs @ [cc]) ?w"
    using S ns nc hs by (auto simp: streams_ok_def stream_at_def heap_get_def)
  moreover have "heaps_ok ?w" using I1 hs(1) by (simp add: cuda_inv_def heaps_ok_def has_usb4_def host_ok_def)
  moreover have "gpu_up ?w gp ctx' xs' (cs @ [cc])" using g nv by (simp add: gpu_up_def)
  moreover have "usb4_up io ?w" "pcie_reach (gs_pcie_ctx (w_state ?w)) (w_pcie ?w)"
    using I1 i by (simp_all add: cuda_inv_def hot_def usb4_up_def get_usb4_ctx_def)
  ultimately show ?thesis using i cd by (auto simp: cuda_inv_def hot_def)
qed

lemma stream_create_total:
  assumes I: "cuda_inv io S w" and room: "addr_room (w_nv w) (1024 * 1024)"
  shows "\<exists>err out w' S'. cudaStreamCreateWithFlags b flags w = Some (err, out, w') \<and> cuda_inv io S' w' \<and>
    stream_made S out S'"
proof (cases "b \<and> gs_initialized (w_state w)")
  case False
  then have "cudaStreamCreateWithFlags b flags w = Some (fail_out (if b then cudaErrorInvalidDevice else cudaErrorInvalidValue) w)"
    by (simp add: cudaStreamCreateWithFlags_def coldE(3) [OF I])
  from stream_create_fails [OF this I] show ?thesis .
next
  case True
  then have i: "gs_initialized (w_state w)" by simp
  obtain gp ctx xs cs where g: "gpu_up w gp ctx xs cs" and S: "streams_ok S cs w" and cur: "get_current_gpu w = Some gp"
    and hg: "heap_get (w_gpus w) gp = Some ctx" and v: "nv_inv ctx (w_nv w) xs cs"
    and r: "pcie_reach (gs_pcie_ctx (w_state w)) (w_pcie w)" by (rule hotE [OF I i])
  have cd: "gs_current_device (w_state w) = 0" using I i by (simp add: cuda_inv_def hot_def)
  let ?s = "\<lparr>cs_device = 0, cs_channel = None, cs_is_default = False\<rparr>" and ?n = "hp_next (w_streams w)"
  have wf: "heap_wf (w_streams w)" by (rule inv_wf(2) [OF I])
  note old = stream_old [OF S _ wf]
  show ?thesis
  proof (cases "hp_oom (w_streams w) ?n")
    case oom: True
    let ?hs = "w_streams w\<lparr>hp_next := Suc ?n\<rparr>"
    have "heap_alloc (w_streams w) ?s = (None, ?hs)" using oom by (simp add: heap_simps)
    moreover have "heap_wf ?hs" using wf by (auto simp: heap_wf_def less_Suc_eq)
    moreover have "cuda_inv io S (w\<lparr>w_streams := ?hs\<rparr>)"
      using I calculation(2) by (rule inv_streams_frame) simp
    moreover from calculation(1) have
      "cudaStreamCreateWithFlags b flags w = Some (fail_out cudaErrorMemoryAllocation (w\<lparr>w_streams := ?hs\<rparr>))"
      using True cur cd by (simp add: cudaStreamCreateWithFlags_def)
    ultimately show ?thesis using stream_create_fails by blast
  next
    case False
    let ?hs = "w_streams w\<lparr>hp_mem := (hp_mem (w_streams w))(?n \<mapsto> ?s), hp_next := Suc ?n\<rparr>"
    have a: "heap_alloc (w_streams w) ?s = (Some ?n, ?hs)" using False by (simp add: heap_simps)
    obtain ret out ctx' nv xs' cs' where c: "nv_gpu_create_channel ctx (w_nv w) True = Some (ret, out, ctx', nv)"
      "nv_inv ctx' nv xs' cs'" "h_pcie nv = w_pcie w" "gpu_pcie_device ctx' = gpu_pcie_device ctx"
      and sub: "set cs \<subseteq> set cs'" and new_ch: "ret = NV_SUCCESS \<Longrightarrow> \<exists>c. out = Some c \<and> cs' = cs @ [c]"
      by (rule create_channelE [OF v room]) (rule that)
    have I1: "cuda_inv io S (with_gpu w gp ctx' nv)"
      by (rule inv_gpu [OF I i g c(2) _ _ c(4) streams_mono [OF S sub]]) (use r c(3) in simp_all)
    show ?thesis
    proof (cases "ret = NV_SUCCESS")
      case bad: False
      let ?hs' = "?hs\<lparr>hp_mem := (hp_mem ?hs)(?n := None)\<rparr>"
      have f: "heap_free ?hs ?n = Some ?hs'" by (simp add: heap_simps)
      have wf': "heap_wf ?hs'" using wf by (auto simp: heap_wf_def less_Suc_eq)
      have I2: "cuda_inv io S ((with_gpu w gp ctx' nv)\<lparr>w_streams := ?hs'\<rparr>)"
        by (rule inv_streams_frame [OF I1 wf']) (use old in fastforce)
      have "cudaStreamCreateWithFlags b flags w = Some (fail_out cudaErrorUnknown ((with_gpu w gp ctx' nv)\<lparr>w_streams := ?hs'\<rparr>))"
        using True cur cd a c(1) hg f bad by (simp add: cudaStreamCreateWithFlags_def put_gpu)
      from stream_create_fails [OF this I2] show ?thesis .
    next
      case good: True
      obtain cc where cc: "out = Some cc" "cs' = cs @ [cc]" using new_ch [OF good] by blast
      let ?s' = "?s\<lparr>cs_channel := Some cc\<rparr>"
      let ?hs' = "?hs\<lparr>hp_mem := (hp_mem ?hs)(?n \<mapsto> ?s')\<rparr>"
      have p: "heap_put ?hs ?n ?s' = Some ?hs'" by (simp add: heap_simps)
      have wf': "heap_wf ?hs'" using wf by (auto simp: heap_wf_def less_Suc_eq)
      let ?w = "(with_gpu w gp ctx' nv)\<lparr>w_streams := ?hs'\<rparr>"
      have "cuda_inv io ((?n, cc) # S) ?w"
        by (rule stream_added [OF I i g S I1 c(2) [unfolded cc(2)] c(4) refl wf', where s = ?s']) simp_all
      with True cur cd a c(1) hg p good cc show ?thesis
        by (intro exI [of _ cudaSuccess] exI [of _ "Some ?n"] exI [of _ ?w] exI [of _ "(?n, cc) # S"])
          (simp add: cudaStreamCreateWithFlags_def put_gpu)
    qed
  qed
qed

text \<open>A stream of the client.\<close>

lemma streamE:
  assumes "streams_ok S cs w" and "(sp, c) \<in> set S"
  obtains s where "heap_get (w_streams w) sp = Some s" and "cs_device s = 0" and "cs_channel s = Some c" and "c \<in> set cs"
  using assms by (force simp: streams_ok_def stream_at_def)

lemma stream_handle_hot: "cuda_inv io S w \<Longrightarrow> x \<in> set S \<Longrightarrow> gs_initialized (w_state w)"
  by (auto simp: cuda_inv_def split: if_splits)

lemma device0: "gpu_up w gp ctx xs cs \<Longrightarrow> device_index_ok 0 w" "gpu_up w gp ctx xs cs \<Longrightarrow> gs_gpu_contexts (w_state w) ! 0 = Some gp"
  by (simp_all add: gpu_up_def device_index_ok_def)

lemma stream_destroy_total:
  assumes I: "cuda_inv io S w" and x: "(sp, c) \<in> set S"
  shows "\<exists>w'. cudaStreamDestroy (Some sp) w = Some (cudaSuccess, w') \<and> cuda_inv io (remove1 (sp, c) S) w' \<and>
    hp_mem (w_streams w') sp = None"
proof -
  note i = stream_handle_hot [OF I x]
  obtain gp ctx xs cs where g: "gpu_up w gp ctx xs cs" and S: "streams_ok S cs w"
    and hg: "heap_get (w_gpus w) gp = Some ctx" and v: "nv_inv ctx (w_nv w) xs cs"
    and r: "pcie_reach (gs_pcie_ctx (w_state w)) (w_pcie w)" by (rule hotE [OF I i])
  obtain s where s: "heap_get (w_streams w) sp = Some s" "cs_device s = 0" "cs_channel s = Some c" "c \<in> set cs"
    by (rule streamE [OF S x])
  obtain ctx' nv xs' where d: "nv_gpu_destroy_channel ctx (w_nv w) (Some c) = Some (ctx', nv)"
    "nv_inv ctx' nv xs' (remove1 c cs)" "h_pcie nv = w_pcie w" "gpu_pcie_device ctx' = gpu_pcie_device ctx"
    using destroy_channel_cases [OF v s(4)] by blast
  let ?S = "remove1 (sp, c) S" and ?w1 = "with_gpu w gp ctx' nv"
  let ?hs = "w_streams w\<lparr>hp_mem := (hp_mem (w_streams w))(sp := None)\<rparr>"
  have dS: "distinct (map fst S)" "distinct (map snd S)" "distinct cs" "snd ` set S \<subseteq> set cs"
    using S v by (simp_all add: streams_ok_def nv_inv_def chan_rep_def)
  have dd: "distinct S" using dS(1) by (simp add: distinct_map)
  have ne: "fst y \<noteq> sp" "snd y \<noteq> c" if y: "y \<in> set ?S" for y
  proof -
    have "y \<in> set S" "y \<noteq> (sp, c)" using y dd by auto
    with x dS(1,2) show "fst y \<noteq> sp" "snd y \<noteq> c" unfolding distinct_map inj_on_def by fastforce+
  qed
  have sub: "set ?S \<subseteq> set S" by (rule set_remove1_subset)
  have so: "streams_ok ?S (remove1 c cs) w"
  proof -
    have "snd ` set ?S \<subseteq> set (remove1 c cs)" using sub dS(3,4) ne(2) by auto
    moreover have "distinct (map fst ?S)" "distinct (map snd ?S)"
      using dS(1,2) dd sub by (auto simp: distinct_map intro: inj_on_subset)
    moreover have "\<forall>y \<in> set ?S. stream_at w y" using S sub by (auto simp: streams_ok_def)
    ultimately show ?thesis by (simp add: streams_ok_def)
  qed
  have "cuda_inv io ?S ?w1"
  proof -
    have "cuda_inv io ?S w"
    proof -
      have "streams_ok ?S cs w" using so by (rule streams_mono) (rule set_remove1_subset)
      then show ?thesis using I i g by (auto simp: cuda_inv_def hot_def)
    qed
    from inv_gpu [OF this i g d(2) _ _ d(4) so] show ?thesis using r d(3) by simp
  qed
  moreover have "heap_wf ?hs" using inv_wf(2) [OF I] by (auto simp: heap_wf_def)
  ultimately have "cuda_inv io ?S (?w1\<lparr>w_streams := ?hs\<rparr>)"
    by (rule inv_streams_frame) (use ne in simp)
  moreover have "heap_free (w_streams w) sp = Some ?hs" using s(1) by (auto simp: heap_simps)
  ultimately show ?thesis using s d(1) hg device0 [OF g] by (auto simp: cudaStreamDestroy_def put_gpu)
qed

lemma stream_sync_total:
  assumes I: "cuda_inv io S w" and x: "(sp, c) \<in> set S"
  shows "cudaStreamSynchronize (Some sp) w = Some (cudaSuccess, w)"
proof -
  obtain gp ctx xs cs where g: "gpu_up w gp ctx xs cs" and S: "streams_ok S cs w" and v: "nv_inv ctx (w_nv w) xs cs"
    by (rule hotE [OF I stream_handle_hot [OF I x]])
  obtain s where s: "heap_get (w_streams w) sp = Some s" "cs_device s = 0" "cs_channel s = Some c" "c \<in> set cs"
    by (rule streamE [OF S x])
  moreover obtain ch where "heap_get (h_channels (w_nv w)) c = Some ch"
    using v s(4) by (auto simp: nv_inv_def chan_rep_def heap_get_def)
  ultimately show ?thesis using device0 [OF g] by (simp add: cudaStreamSynchronize_def)
qed

subsection \<open>Copies\<close>

text \<open>The host ranges of a copy are accessible, and a copy within one side does not overlap itself.\<close>

fun copy_ok :: "host_ptr \<Rightarrow> host_ptr \<Rightarrow> u64 \<Rightarrow> cudaMemcpyKind \<Rightarrow> bool" where
  "copy_ok dst src count cudaMemcpyHostToHost \<longleftrightarrow> unat count \<le> length (hp_bytes src) \<and> unat count \<le> hp_room dst \<and>
     \<not> ranges_overlap (unat (hp_addr dst)) (unat (hp_addr src)) (unat count)"
| "copy_ok dst src count cudaMemcpyHostToDevice \<longleftrightarrow> unat count \<le> length (hp_bytes src)"
| "copy_ok dst src count cudaMemcpyDeviceToHost \<longleftrightarrow> unat count \<le> hp_room dst"
| "copy_ok dst src count cudaMemcpyDeviceToDevice \<longleftrightarrow>
     \<not> ranges_overlap (unat (hp_addr dst)) (unat (hp_addr src)) (unat count)"
| "copy_ok dst src count cudaMemcpyDefault \<longleftrightarrow> True"

lemma memcpy_total:
  assumes I: "cuda_inv io S w" and ok: "copy_ok dst src count kind" and room: "addr_room (w_nv w) count"
  shows "\<exists>err out w'. cudaMemcpy dst src count kind w = Some (err, out, w')"
proof (cases "hp_addr dst = 0 \<or> hp_addr src = 0 \<or> count = 0 \<or> kind = cudaMemcpyHostToHost \<or> \<not> gs_initialized (w_state w)")
  case True
  with ok show ?thesis
    by (cases kind) (auto simp: cudaMemcpy_def fail_out_def copy_result_def coldE(3) [OF I] host_memcpy_def host_store_def)
next
  case False
  then have i: "gs_initialized (w_state w)" by simp
  obtain gp ctx xs cs where cur: "get_current_gpu w = Some gp" and hg: "heap_get (w_gpus w) gp = Some ctx"
    and v: "nv_inv ctx (w_nv w) xs cs" by (rule hotE [OF I i])
  note env = False cur hg
  show ?thesis
  proof (cases kind)
    case cudaMemcpyHostToDevice
    with ok h2d_total [OF v _ room, where dst = "hp_addr dst" and bytes = "hp_bytes src"] obtain ret ctx' nv where
      "nv_gpu_memcpy_h2d ctx (w_nv w) (hp_addr dst) (Some (hp_bytes src)) count = Some (ret, ctx', nv)" by auto
    with env cudaMemcpyHostToDevice show ?thesis by (auto simp: cudaMemcpy_def put_gpu copy_result_def)
  next
    case cudaMemcpyDeviceToHost
    from d2h_total [OF v room] obtain ret o' ctx' where
      "nv_gpu_memcpy_d2h ctx (w_nv w) True (hp_addr src) count = Some (ret, o', ctx')"
      "\<forall>bytes. o' = Some bytes \<longrightarrow> length bytes = unat count" by blast
    with env ok cudaMemcpyDeviceToHost show ?thesis
      by (cases o') (auto simp: cudaMemcpy_def put_gpu copy_result_def host_store_def)
  next
    case cudaMemcpyDeviceToDevice
    with ok d2d_total [OF v room, where dst = "hp_addr dst" and src = "hp_addr src"] obtain ret nv where
      "nv_gpu_memcpy_d2d ctx (w_nv w) (hp_addr dst) (hp_addr src) count = Some (ret, nv)" by auto
    with env cudaMemcpyDeviceToDevice show ?thesis by (auto simp: cudaMemcpy_def copy_result_def)
  qed (use env in \<open>auto simp: cudaMemcpy_def fail_out_def\<close>)
qed

subsection \<open>The device\<close>

lemma sync_channels_total: "set cs \<subseteq> dom (hp_mem hc) \<Longrightarrow> \<exists>rs. sync_channels hc (map Some cs) = Some rs"
  by (induction cs) (auto simp: heap_get_def)

lemma device_sync_total:
  assumes I: "cuda_inv io S w"
  shows "\<exists>err w'. cudaDeviceSynchronize w = Some (err, w') \<and> cuda_inv io S w' \<and>
    (err = cudaSuccess \<longleftrightarrow> gs_initialized (w_state w))"
proof (cases "gs_initialized (w_state w)")
  case False
  with I show ?thesis by (auto simp: cudaDeviceSynchronize_def coldE(3) [OF I] fail_def inv_set_error)
next
  case i: True
  obtain gp ctx xs cs where g: "gpu_up w gp ctx xs cs" and S: "streams_ok S cs w" and cur: "get_current_gpu w = Some gp"
    and hg: "heap_get (w_gpus w) gp = Some ctx" and v: "nv_inv ctx (w_nv w) xs cs"
    and r: "pcie_reach (gs_pcie_ctx (w_state w)) (w_pcie w)" by (rule hotE [OF I i])
  obtain rs where rs: "sync_channels (h_channels (w_nv w)) (gpu_channels ctx) = Some rs"
    using v sync_channels_total [of cs "h_channels (w_nv w)"] by (auto simp: nv_inv_def chan_rep_def)
  let ?ctx = "ctx\<lparr>gpu_state := NV_GPU_STATE_READY\<rparr>"
  have "nv_inv ?ctx (w_nv w) xs cs" by (rule nv_inv_ctx [OF v]) simp_all
  from inv_gpu [OF I i g this r refl _ S] have "cuda_inv io S (with_gpu w gp ?ctx (w_nv w))" by simp
  with i cur hg rs show ?thesis by (auto simp: cudaDeviceSynchronize_def nv_gpu_synchronize_def put_gpu)
qed

lemma device_reset_total:
  assumes I: "cuda_inv io S w"
  shows "\<exists>err w'. cudaDeviceReset w = Some (err, w') \<and> cuda_inv io S w'"
proof (cases "gs_initialized (w_state w)")
  case False
  with I show ?thesis by (auto simp: cudaDeviceReset_def coldE(3) [OF I] fail_def inv_set_error)
next
  case i: True
  obtain gp ctx xs cs where g: "gpu_up w gp ctx xs cs" and S: "streams_ok S cs w" and cur: "get_current_gpu w = Some gp"
    and hg: "heap_get (w_gpus w) gp = Some ctx" and v: "nv_inv ctx (w_nv w) xs cs"
    and r: "pcie_reach (gs_pcie_ctx (w_state w)) (w_pcie w)" by (rule hotE [OF I i])
  have same: "(hp_mem (w_gpus w))(gp \<mapsto> ctx) = hp_mem (w_gpus w)" using hg by (simp add: heap_get_def fun_upd_idem)
  obtain hp where hp: "nv_gpu_reset ctx (w_nv w) = Some (NV_SUCCESS, (w_nv w)\<lparr>h_pcie := hp\<rparr>)"
    "pcie_reach (gs_pcie_ctx (w_state w)) hp"
  proof (cases "gpu_pcie_device ctx")
    case None
    then have "nv_gpu_reset ctx (w_nv w) = Some (NV_SUCCESS, (w_nv w)\<lparr>h_pcie := w_pcie w\<rparr>)"
      by (simp add: nv_gpu_reset_def nv_gpu_read_reg_def nv_gpu_write_reg_def)
    then show ?thesis by (rule that) (rule r)
  next
    case (Some p)
    then have "pcie_link (gs_pcie_ctx (w_state w)) ctx (w_nv w)" using g r by (auto simp: pcie_link_def gpu_up_def)
    from reset_total [OF this] show ?thesis by (auto simp: pcie_link_def intro: that)
  qed
  have "nv_inv ctx ((w_nv w)\<lparr>h_pcie := hp\<rparr>) xs cs" using v by (simp add: nv_inv_def)
  moreover have "h_usb4 hp = h_usb4 (w_pcie w)" using reset_usb4 [OF hp(1)] by simp
  ultimately have "cuda_inv io S (with_gpu w gp ctx ((w_nv w)\<lparr>h_pcie := hp\<rparr>))"
    by (intro inv_gpu [OF I i g _ _ _ refl S]) (use hp(2) in simp_all)
  with cur hg hp(1) same show ?thesis by (simp add: cudaDeviceReset_def)
qed

lemma inv_same_device:
  "cuda_inv io S w \<Longrightarrow> gs_initialized (w_state w) \<Longrightarrow>
   cuda_inv io S (set_state (gs_current_device_update (\<lambda>_. 0)) w)"
  by (rule inv_cong [of _ _ w])
    (auto simp: world_simps same_core_state_def cuda_inv_def hot_def heaps_ok_def host_ok_def)

text \<open>There is one GPU: the device is 0.\<close>

lemma device_ok_iff: "gpu_up w gp ctx xs cs \<Longrightarrow> device_index_ok d w \<longleftrightarrow> d = 0"
  by (auto simp: gpu_up_def device_index_ok_def)

lemma set_device_total:
  assumes I: "cuda_inv io S w" and i: "gs_initialized (w_state w)"
  shows "\<exists>err w'. cudaSetDevice env d w = Some (err, w') \<and> cuda_inv io S w' \<and> (err = cudaSuccess \<longleftrightarrow> d = 0)"
proof -
  obtain gp ctx xs cs where "gpu_up w gp ctx xs cs" by (rule hotE [OF I i])
  then have "device_index_ok d w \<longleftrightarrow> d = 0" by (rule device_ok_iff)
  with I i inv_same_device [OF I i] show ?thesis
    by (auto simp: cudaSetDevice_def auto_init_def fail_def inv_set_error)
qed

lemma mem_info_total:
  assumes I: "cuda_inv io S w"
  shows "\<exists>err out w'. cudaMemGetInfo b1 b2 w = Some (err, out, w') \<and> cuda_inv io S w'"
proof (cases "gs_initialized (w_state w)")
  case False
  with I show ?thesis by (auto simp: cudaMemGetInfo_def coldE(3) [OF I] fail_out_def inv_set_error)
next
  case True
  obtain gp ctx xs cs where "get_current_gpu w = Some gp" "heap_get (w_gpus w) gp = Some ctx" by (rule hotE [OF I True])
  with I show ?thesis by (auto simp: cudaMemGetInfo_def fail_out_def inv_set_error)
qed

subsection \<open>Kernels\<close>

text \<open>The channel a launch uses: the stream's, the first of the GPU, or a new one.\<close>

lemma launch_channel_total:
  assumes I: "cuda_inv io S w" and i: "gs_initialized (w_state w)" and cur: "get_current_gpu w = Some gp"
    and st: "stream \<in> insert None (Some ` fst ` set S)" and room: "addr_room (w_nv w) (1024 * 1024)"
  shows "\<exists>ret c w'. launch_channel stream gp w = Some (ret, c, w') \<and> cuda_inv io S w' \<and>
    gs_initialized (w_state w') \<and> get_current_gpu w' = Some gp"
proof -
  obtain gq ctx xs cs where g: "gpu_up w gq ctx xs cs" and S: "streams_ok S cs w" and cur': "get_current_gpu w = Some gq"
    and hg: "heap_get (w_gpus w) gq = Some ctx" and v: "nv_inv ctx (w_nv w) xs cs"
    and r: "pcie_reach (gs_pcie_ctx (w_state w)) (w_pcie w)" by (rule hotE [OF I i])
  have gq: "gq = gp" using cur cur' by simp
  obtain sc where sc: "(case stream of None \<Rightarrow> Some None | Some sp \<Rightarrow> map_option cs_channel (heap_get (w_streams w) sp)) = Some sc"
  proof (cases stream)
    case None
    then show ?thesis using that by simp
  next
    case (Some sp)
    then obtain c where "(sp, c) \<in> set S" using st by auto
    from streamE [OF S this] Some that show ?thesis by (metis option.simps(5) option.simps(9))
  qed
  show ?thesis
  proof (cases "sc = None \<and> (gpu_channels ctx = [] \<or> gpu_channels ctx ! 0 = None)")
    case False
    then have "\<exists>c. launch_channel stream gp w = Some (NV_SUCCESS, c, w)"
      using sc hg gq by (auto simp: launch_channel_def)
    with I i cur show ?thesis by blast
  next
    case True
    obtain ret out ctx' nv xs' cs' where c: "nv_gpu_create_channel ctx (w_nv w) True = Some (ret, out, ctx', nv)"
      "nv_inv ctx' nv xs' cs'" "h_pcie nv = w_pcie w" "gpu_pcie_device ctx' = gpu_pcie_device ctx"
      and sub: "set cs \<subseteq> set cs'" by (rule create_channelE [OF v room]) (rule that)
    have "launch_channel stream gp w = Some (ret, out, with_gpu w gp ctx' nv)"
      using True sc hg gq c(1) by (auto simp: launch_channel_def put_gpu)
    moreover have "cuda_inv io S (with_gpu w gp ctx' nv)"
      by (rule inv_gpu [OF I i g [unfolded gq] c(2) _ _ c(4) streams_mono [OF S sub]]) (use r c(3) in simp_all)
    moreover have "get_current_gpu (with_gpu w gp ctx' nv) = Some gp" using cur by (simp add: get_current_gpu_def)
    ultimately show ?thesis using i by auto
  qed
qed

lemma launch_total:
  assumes I: "cuda_inv io S w" and st: "stream \<in> insert None (Some ` fst ` set S)" and room: "addr_room (w_nv w) (1024 * 1024)"
  shows "\<exists>err w'. cudaLaunchKernel func grid block shared stream w = Some (err, w') \<and> cuda_inv io S w'"
proof (cases "gs_initialized (w_state w)")
  case False
  with I show ?thesis by (auto simp: cudaLaunchKernel_def coldE(3) [OF I] fail_def inv_set_error)
next
  case i: True
  obtain gp where cur: "get_current_gpu w = Some gp" by (rule hotE [OF I i])
  obtain ret c w1 where l: "launch_channel stream gp w = Some (ret, c, w1)" and I1: "cuda_inv io S w1"
    and i1: "gs_initialized (w_state w1)" and cur1: "get_current_gpu w1 = Some gp"
    using launch_channel_total [OF I i cur st room] by blast
  show ?thesis
  proof (cases "ret = NV_SUCCESS")
    case False
    with cur l I1 show ?thesis by (auto simp: cudaLaunchKernel_def fail_def inv_set_error)
  next
    case True
    obtain gq ctx xs cs where g: "gpu_up w1 gq ctx xs cs" and S: "streams_ok S cs w1" and cur': "get_current_gpu w1 = Some gq"
      and hg: "heap_get (w_gpus w1) gq = Some ctx" and v: "nv_inv ctx (w_nv w1) xs cs"
      and r: "pcie_reach (gs_pcie_ctx (w_state w1)) (w_pcie w1)" by (rule hotE [OF I1 i1])
    have gq: "gq = gp" using cur1 cur' by simp
    let ?p = "\<lparr>kp_func_addr = func, kp_grid_dim = (d3_x grid, d3_y grid, d3_z grid),
      kp_block_dim = (d3_x block, d3_y block, d3_z block), kp_shared_mem = ucast shared, kp_channel = c\<rparr>"
    obtain lr ctx' where k: "nv_gpu_launch_kernel ctx (Some ?p) = (lr, ctx')" by fastforce
    from ctx_step_keeps [OF cstep_launch [OF k]] have e: "gpu_allocations ctx' = gpu_allocations ctx"
      "gpu_channels ctx' = gpu_channels ctx" "gpu_pcie_device ctx' = gpu_pcie_device ctx" by simp_all
    have "nv_inv ctx' (w_nv w1) xs cs" by (rule nv_inv_ctx [OF v e(1,2)])
    from inv_gpu [OF I1 i1 g [unfolded gq] this r refl e(3) S] have
      I2: "cuda_inv io S (w1\<lparr>w_gpus := (w_gpus w1)\<lparr>hp_mem := (hp_mem (w_gpus w1))(gp \<mapsto> ctx')\<rparr>\<rparr>)" (is "cuda_inv io S ?w2")
      by simp
    have "cudaLaunchKernel func grid block shared stream w =
        Some (if lr \<noteq> NV_SUCCESS then fail cudaErrorLaunchFailure ?w2 else (cudaSuccess, ?w2))"
      using True cur l hg gq k by (simp add: cudaLaunchKernel_def put_gpu Let_def)
    with I2 show ?thesis by (auto simp: fail_def inv_set_error)
  qed
qed

subsection \<open>Events\<close>

lemma inv_events: "cuda_inv io S w \<Longrightarrow> heap_wf he \<Longrightarrow> cuda_inv io S (w\<lparr>w_events := he\<rparr>)"
  by (rule inv_cong [of _ _ w]) (auto simp: same_core_state_def cuda_inv_def heaps_ok_def host_ok_def)

lemma event_create_inv: "cuda_inv io S w \<Longrightarrow> cuda_inv io S (snd (snd (cudaEventCreate b w)))"
  by (auto simp: cudaEventCreate_def cudaEventCreateWithFlags_def fail_out_def split: prod.splits option.splits
      intro!: inv_set_error inv_events elim: heap_alloc_wf [OF inv_wf(3)])

lemma event_destroy_total:
  assumes I: "cuda_inv io S w" and e: "event \<in> insert None (Some ` dom (hp_mem (w_events w)))"
  shows "\<exists>err w'. cudaEventDestroy event w = Some (err, w') \<and> cuda_inv io S w'"
proof (cases event)
  case None
  with I show ?thesis by (simp add: cudaEventDestroy_def heap_simps)
next
  case (Some p)
  then obtain he where he: "heap_free (w_events w) p = Some he" using e by (auto simp: heap_free_def)
  have "cuda_inv io S (w\<lparr>w_events := he\<rparr>)" by (rule inv_events [OF I heap_free_wf [OF inv_wf(3) [OF I] he]])
  with Some he show ?thesis by (simp add: cudaEventDestroy_def heap_free_opt_Some)
qed

lemma event_record_total:
  assumes I: "cuda_inv io S w" and e: "event \<in> insert None (Some ` dom (hp_mem (w_events w)))"
  shows "\<exists>err w'. cudaEventRecord event stream s n w = Some (err, w') \<and> cuda_inv io S w'"
proof (cases event)
  case None
  with I show ?thesis by (simp add: cudaEventRecord_def fail_def inv_set_error)
next
  case (Some p)
  then obtain v where v: "heap_get (w_events w) p = Some v" using e by (auto simp: heap_get_def)
  let ?v = "v\<lparr>ev_timestamp := s * 1000000000 + n, ev_recorded := True\<rparr>"
  obtain he where he: "heap_put (w_events w) p ?v = Some he" using v by (auto simp: heap_put_def heap_get_def)
  have "cuda_inv io S (w\<lparr>w_events := he\<rparr>)" by (rule inv_events [OF I heap_put_wf [OF inv_wf(3) [OF I] he]])
  with Some v he show ?thesis by (simp add: cudaEventRecord_def)
qed

end
