(* ===== verification/Cuda_Init.thy ===== *)
theory Cuda_Init
  imports Cuda_Calls
begin

text \<open>
  What \<open>cudaBridgeInit\<close> returns and what it leaves alone, and the calls that may run it on their own
  (\<open>cudaGetDeviceCount\<close>, \<open>cudaGetDevice\<close>, \<open>cudaSetDevice\<close>, \<open>cudaGetDeviceProperties\<close>,
  \<open>cudaDeviceGetAttribute\<close>); then the calls that only report.
\<close>

section \<open>What the initialisation returns, and what it leaves alone\<close>

text \<open>Tunnels and GPUs: the allocation oracle of the GPU contexts and the channels stay.\<close>

definition same_channels :: "world \<Rightarrow> world \<Rightarrow> bool" where
  "same_channels w w' \<longleftrightarrow> hp_oom (w_gpus w') = hp_oom (w_gpus w) \<and> h_channels (w_nv w') = h_channels (w_nv w)"

lemma same_channels_refl [simp]: "same_channels w w"
  by (simp add: same_channels_def)

lemma same_channels_trans: "same_channels u v \<Longrightarrow> same_channels v w \<Longrightarrow> same_channels u w"
  by (simp add: same_channels_def)

lemma put_usb4_channels: "put_usb4 ctx hu w = Some w' \<Longrightarrow> same_channels w w'"
  by (auto simp: put_usb4_def same_channels_def world_simps elim!: bind_eq_SomeE)

lemma create_tunnels_channels: "create_tunnels w rs = Some w' \<Longrightarrow> same_channels w w'"
proof (induction rs arbitrary: w)
  case (Cons r rs)
  then show ?case
    by (auto split: option.splits prod.splits elim!: bind_eq_SomeE
        intro: same_channels_trans [OF put_usb4_channels])
qed simp

lemma write_reg_channels: "nv_gpu_write_reg ctx h off v = Some h' \<Longrightarrow> h_channels h' = h_channels h"
  by (auto simp: nv_gpu_write_reg_def split: option.splits elim!: bind_eq_SomeE)

lemma reset_channels: "nv_gpu_reset ctx h = Some (r, h') \<Longrightarrow> h_channels h' = h_channels h"
  by (auto simp: nv_gpu_reset_def elim!: bind_eq_SomeE dest!: write_reg_channels)

lemma gpu_init_channels: "nv_gpu_init ctx0 h q = Some (r, ctx, h') \<Longrightarrow> h_channels h' = h_channels h"
  by (auto simp: nv_gpu_init_def Let_def split: option.splits if_splits elim!: bind_eq_SomeE dest!: reset_channels)

lemma heap_oom_simps:
  "heap_alloc h v = (q, h') \<Longrightarrow> hp_oom h' = hp_oom h" "heap_put h p v = Some h' \<Longrightarrow> hp_oom h' = hp_oom h"
  "heap_free h p = Some h' \<Longrightarrow> hp_oom h' = hp_oom h"
  by (cases q, auto simp: heap_simps)

lemma init_gpus_channels: "init_gpus w ds = Some w' \<Longrightarrow> same_channels w w'"
proof (induction ds arbitrary: w)
  case (Cons d ds)
  have step: "same_channels w w'" if "init_gpus v ds = Some w'" "same_channels w v" for v
    using Cons.IH [OF that(1)] that(2) same_channels_trans by blast
  show ?case
  proof (cases "8 \<le> length (gs_gpu_contexts (w_state w)) \<or> d = None")
    case True
    with Cons step show ?thesis by (auto split: if_splits)
  next
    case False
    then obtain p where p: "d = Some p" and l: "\<not> 8 \<le> length (gs_gpu_contexts (w_state w))" by auto
    obtain q hg where a: "heap_alloc (w_gpus w) gpu_ctx_zero = (q, hg)" by fastforce
    have o: "hp_oom hg = hp_oom (w_gpus w)" by (rule heap_oom_simps(1) [OF a])
    obtain dev where dev: "heap_get (h_devices (w_pcie w)) p = Some dev"
      using Cons.prems p l by (cases "heap_get (h_devices (w_pcie w)) p") simp_all
    show ?thesis
    proof (cases "dv_vendor_id dev = 0x10DE")
      case False
      with Cons.prems p l dev have "init_gpus w ds = Some w'" by simp
      then show ?thesis by (rule step) simp
    next
      case v: True
      show ?thesis
      proof (cases q)
        case None
        with Cons.prems p l dev v a have "init_gpus (w\<lparr>w_gpus := hg\<rparr>) ds = Some w'" by simp
        then show ?thesis by (rule step) (simp add: same_channels_def o)
      next
        case (Some gp)
        obtain ret ctx nv where g: "nv_gpu_init gpu_ctx_zero (w_nv w) (Some p) = Some (ret, ctx, nv)"
          using Cons.prems p l dev v a Some by (cases "nv_gpu_init gpu_ctx_zero (w_nv w) (Some p)") auto
        obtain hg1 where h1: "heap_put hg gp ctx = Some hg1"
          using Cons.prems p l dev v a Some g by (cases "heap_put hg gp ctx") auto
        note ok = gpu_init_channels [OF g] heap_oom_simps(2) [OF h1] o
        show ?thesis
        proof (cases "ret = NV_SUCCESS")
          case True
          with Cons.prems p l dev v a Some g h1
          have "init_gpus (set_state (add_gpu gp) (w\<lparr>w_nv := nv, w_gpus := hg1\<rparr>)) ds = Some w'" by simp
          then show ?thesis by (rule step) (simp add: same_channels_def world_simps ok)
        next
          case False
          obtain hg2 where h2: "heap_free hg1 gp = Some hg2"
            using Cons.prems p l dev v a Some g h1 False by (cases "heap_free hg1 gp") auto
          with Cons.prems p l dev v a Some g h1 False
          have "init_gpus (w\<lparr>w_nv := nv, w_gpus := hg2\<rparr>) ds = Some w'" by simp
          then show ?thesis by (rule step) (simp add: same_channels_def ok heap_oom_simps(3) [OF h2])
        qed
      qed
    qed
  qed
qed simp

lemma init_finish_reasons:
  assumes "init_finish env w = Some (err, w')"
  shows "err = cudaSuccess \<or> err = cudaErrorNoDevice \<and> \<not> use_simulation_fallback (env_simulation env) \<or>
      err = cudaErrorMemoryAllocation \<and> (\<exists>n. hp_oom (w_gpus w) n)"
    and "err = cudaSuccess \<Longrightarrow> h_channels (w_nv w') = h_channels (w_nv w)"
  using assms
  by (auto simp: init_finish_def init_done_def world_simps heap_simps split: if_splits option.splits prod.splits elim!: bind_eq_SomeE)

lemma init_reasons:
  assumes c: "cudaBridgeInit env w = Some (err, w')" and i: "\<not> gs_initialized (w_state w)"
  shows "err = cudaSuccess \<and> h_channels (w_nv w') = h_channels (w_nv w) \<or>
      err = cudaErrorInitializationError \<and> (\<exists>ret ctx hu. usb4_controller_init (env_iokit env) (w_usb4 w) = Some (ret, ctx, hu) \<and> ret \<noteq> USB4_SUCCESS) \<or>
      err = cudaErrorNoDevice \<and> \<not> use_simulation_fallback (env_simulation env) \<or>
      err = cudaErrorMemoryAllocation \<and> (\<exists>n. hp_oom (w_gpus w) n)"
proof -
  from c i obtain ret ctx hu w1 where u: "usb4_controller_init (env_iokit env) (w_usb4 w) = Some (ret, ctx, hu)"
    and w1: "put_usb4 ctx hu w = Some w1"
    by (auto simp: cudaBridgeInit_def elim!: bind_eq_SomeE)
  show ?thesis
  proof (cases "ret = USB4_SUCCESS")
    case False
    with c i u w1 show ?thesis by (auto simp: cudaBridgeInit_def)
  next
    case True
    obtain n ctx2 hu2 where s: "usb4_scan_routers (env_iokit env) ctx (w_usb4 w1) = (n, ctx2, hu2)" by (metis prod_cases3)
    obtain r3 pctx where p: "pcie_tunnel_init (Some g_usb4) (gs_pcie_ctx (w_state w)) = (r3, pctx)" by fastforce
    have r3: "r3 = PCIE_SUCCESS" using p by (simp add: pcie_tunnel_init_def)
    have st: "w_state w2 = w_state w" if "put_usb4 ctx2 hu2 w1 = Some w2" for w2
      using w1 that by (auto simp: put_usb4_def world_simps elim!: bind_eq_SomeE)
    note env = c i u w1 True s p r3
    obtain w2 where 2: "put_usb4 ctx2 hu2 w1 = Some w2"
      using env by (cases "put_usb4 ctx2 hu2 w1") (simp_all add: cudaBridgeInit_def)
    let ?v = "set_state (gs_pcie_ctx_update (\<lambda>_. pctx)) w2"
    obtain w3 where 3: "create_tunnels ?v (connected_routers ctx2) = Some w3"
      using env 2 st [OF 2] by (cases "create_tunnels ?v (connected_routers ctx2)") (simp_all add: cudaBridgeInit_def)
    obtain m pctx4 hp4 where 4: "pcie_scan_bus pctx (w_pcie w3) = Some (m, pctx4, hp4)"
      using env 2 st [OF 2] 3 by (cases "pcie_scan_bus pctx (w_pcie w3)") (auto simp: cudaBridgeInit_def)
    let ?v4 = "set_pcie hp4 (set_state (\<lambda>s. s\<lparr>gs_pcie_ctx := pctx4, gs_gpu_contexts := []\<rparr>) w3)"
    obtain w5 where 5: "init_gpus ?v4 (devices pctx4) = Some w5"
      using env 2 st [OF 2] 3 4 by (cases "init_gpus ?v4 (devices pctx4)") (simp_all add: cudaBridgeInit_def)
    have 6: "init_finish env w5 = Some (err, w')"
      using env 2 st [OF 2] 3 4 5 by (simp add: cudaBridgeInit_def)
    have "same_channels w w5"
      using put_usb4_channels [OF w1] put_usb4_channels [OF 2] create_tunnels_channels [OF 3] init_gpus_channels [OF 5]
      by (simp add: same_channels_def world_simps)
    with init_finish_reasons [OF 6] show ?thesis by (auto simp: same_channels_def)
  qed
qed

text \<open>An initialisation stores its code, success included.\<close>

lemma init_error:
  "cudaBridgeInit env w = Some (e, w') \<Longrightarrow>
   gs_last_error (w_state w') = (if gs_initialized (w_state w) then gs_last_error (w_state w) else e)"
  by (auto simp: cudaBridgeInit_def init_finish_def init_done_def world_simps Let_def
      split: if_splits option.splits prod.splits elim!: bind_eq_SomeE)

section \<open>Calls that may initialise\<close>

text \<open>
  A call that initialises on its own drops the code. It is safe when the runtime is initialised, or when
  there is memory for the virtual GPU.
\<close>

definition auto_ok :: "iokit option \<Rightarrow> world \<Rightarrow> cuda_env \<Rightarrow> bool" where
  "auto_ok io w env \<longleftrightarrow> gs_initialized (w_state w) \<or> env_iokit env = io \<and> (\<forall>n. \<not> hp_oom (w_gpus w) n)"

lemma auto_init_total:
  assumes I: "cuda_inv io S w" and ok: "auto_ok io w env"
  shows "\<exists>w'. auto_init env w = Some w' \<and> cuda_inv io S w'"
proof (cases "gs_initialized (w_state w)")
  case True
  with I show ?thesis by (simp add: auto_init_def)
next
  case False
  with ok have io: "env_iokit env = io" and no: "\<forall>n. \<not> hp_oom (w_gpus w) n" by (simp_all add: auto_ok_def)
  from init_total_inv [OF I io] obtain e w' where c: "cudaBridgeInit env w = Some (e, w')"
    "e \<noteq> cudaErrorMemoryAllocation \<longrightarrow> cuda_inv io S w'" by blast
  from init_reasons [OF c(1) False] no have "e \<noteq> cudaErrorMemoryAllocation" by auto
  with c False show ?thesis by (simp add: auto_init_def)
qed

lemma device_index_cold: "cuda_inv io S w \<Longrightarrow> \<not> gs_initialized (w_state w) \<Longrightarrow> \<not> device_index_ok d w"
  by (auto dest!: coldE(1) simp: cold_def device_index_ok_def)

lemma set_device_auto:
  assumes I: "cuda_inv io S w" and ok: "auto_ok io w env"
  shows "\<exists>err w'. cudaSetDevice env d w = Some (err, w') \<and> cuda_inv io S w'"
proof -
  from auto_init_total [OF I ok] obtain w1 where 1: "auto_init env w = Some w1" "cuda_inv io S w1" by blast
  show ?thesis
  proof (cases "gs_initialized (w_state w1)")
    case True
    from set_device_total [OF 1(2) True, of env d] 1(1) True show ?thesis
      by (auto simp: cudaSetDevice_def auto_init_def)
  next
    case False
    with 1 device_index_cold [OF 1(2)] show ?thesis by (simp add: cudaSetDevice_def fail_def inv_set_error)
  qed
qed

lemma get_device_total:
  assumes I: "cuda_inv io S w" and ok: "auto_ok io w env"
  shows "\<exists>err out w'. cudaGetDevice env b w = Some (err, out, w') \<and> cuda_inv io S w'"
  using auto_init_total [OF I ok] I by (auto simp: cudaGetDevice_def fail_out_def inv_set_error)

lemma device_count_total:
  assumes I: "cuda_inv io S w" and io: "env_iokit env = io"
  shows "\<exists>err out w'. cudaGetDeviceCount env b w = Some (err, out, w') \<and>
    (err \<noteq> cudaErrorMemoryAllocation \<longrightarrow> cuda_inv io S w')"
  using init_total_inv [OF I io] I by (auto simp: cudaGetDeviceCount_def fail_out_def inv_set_error)

lemma device_properties_total:
  assumes I: "cuda_inv io S w" and ok: "auto_ok io w env"
  shows "\<exists>err out w'. cudaGetDeviceProperties env b d w = Some (err, out, w') \<and> cuda_inv io S w' \<and>
    (err = cudaSuccess \<longrightarrow> out \<noteq> None)"
proof (cases b)
  case False
  with I show ?thesis by (simp add: cudaGetDeviceProperties_def fail_out_def inv_set_error)
next
  case b: True
  from auto_init_total [OF I ok] obtain w1 where 1: "auto_init env w = Some w1" "cuda_inv io S w1" by blast
  show ?thesis
  proof (cases "gs_initialized (w_state w1)")
    case True
    obtain gp ctx xs cs where g: "gpu_up w1 gp ctx xs cs" "heap_get (w_gpus w1) gp = Some ctx" by (rule hotE [OF 1(2) True])
    with b 1 device_ok_iff [OF g(1), of d] device0(2) [OF g(1)] show ?thesis
      by (auto simp: cudaGetDeviceProperties_def fail_out_def inv_set_error)
  next
    case False
    with b 1 device_index_cold [OF 1(2)] show ?thesis
      by (simp add: cudaGetDeviceProperties_def fail_out_def inv_set_error)
  qed
qed

lemma attribute_total:
  assumes I: "cuda_inv io S w" and ok: "auto_ok io w env"
  shows "\<exists>err out w'. cudaDeviceGetAttribute env b a d w = Some (err, out, w') \<and> cuda_inv io S w'"
  using device_properties_total [OF I ok, of True d] I
  by (auto simp: cudaDeviceGetAttribute_def fail_out_def inv_set_error)

section \<open>Calls that report\<close>

lemma elapsed_total:
  assumes I: "cuda_inv io S w" and e: "{start, stop} \<subseteq> insert None (Some ` dom (hp_mem (w_events w)))"
  shows "\<exists>err out w'. cudaEventElapsedTime b start stop w = Some (err, out, w') \<and> cuda_inv io S w'"
proof (cases "start = None \<or> stop = None")
  case True
  with I show ?thesis by (auto simp: cudaEventElapsedTime_def fail_out_def inv_set_error split: option.split)
next
  case False
  then obtain sp ep where s: "start = Some sp" "stop = Some ep" by auto
  with e obtain x y where "heap_get (w_events w) sp = Some x" "heap_get (w_events w) ep = Some y" by (auto simp: heap_get_def)
  with I s show ?thesis by (auto simp: cudaEventElapsedTime_def fail_out_def inv_set_error)
qed

lemma status_total:
  assumes I: "cuda_inv io S w"
  shows "\<exists>err out w'. cudaBridgeGetConnectionStatus b w = Some (err, out, w') \<and> cuda_inv io S w'"
    and "\<exists>err out w'. cudaBridgeGetBandwidthInfo b c w = Some (err, out, w') \<and> cuda_inv io S w'"
proof -
  have "\<exists>ctx. get_usb4_ctx w = Some ctx" using I has_usb4_get by (auto simp: cuda_inv_def heaps_ok_def)
  with I show "\<exists>err out w'. cudaBridgeGetConnectionStatus b w = Some (err, out, w') \<and> cuda_inv io S w'"
    and "\<exists>err out w'. cudaBridgeGetBandwidthInfo b c w = Some (err, out, w') \<and> cuda_inv io S w'"
    by (auto simp: cudaBridgeGetConnectionStatus_def cudaBridgeGetBandwidthInfo_def Let_def fail_out_def inv_set_error)
qed

lemma event_flags_inv: "cuda_inv io S w \<Longrightarrow> cuda_inv io S (snd (snd (cudaEventCreateWithFlags b f w)))"
  using event_create_inv [of io S w b] by (simp add: cudaEventCreate_def cudaEventCreateWithFlags_def)

lemma version_inv:
  "cuda_inv io S w \<Longrightarrow> cuda_inv io S (snd (snd (cudaDriverGetVersion b w)))"
  "cuda_inv io S w \<Longrightarrow> cuda_inv io S (snd (snd (cudaRuntimeGetVersion b w)))"
  "cuda_inv io S w \<Longrightarrow> cuda_inv io S (snd (snd (cudaBridgeIsSimulationMode b w)))"
  "cuda_inv io S w \<Longrightarrow> cuda_inv io S (snd (snd (cudaHostGetDevicePointer b p f w)))"
  "cuda_inv io S w \<Longrightarrow> cuda_inv io S (snd (cudaGetLastError w))"
  by (simp_all add: cudaDriverGetVersion_def cudaRuntimeGetVersion_def cudaBridgeIsSimulationMode_def
      cudaHostGetDevicePointer_def cudaGetLastError_def fail_out_def inv_set_error)

end
