(* ===== verification/Cuda_Properties.thy ===== *)
theory Cuda_Properties
  imports Cuda_Init
begin

text \<open>
  The runtime as a state machine of calls, the states a correct client reaches, and the properties. The
  locale \<open>error_latch\<close> is the contract of the last error; \<open>cuda\<close> interprets it for the calls of the runtime.
  The witnesses run the initialisation without IOKit, which ends on the virtual GPU.
\<close>

unbundle bit_operations_syntax

section \<open>Sequences of calls\<close>

datatype cuda_call =
    Init cuda_env | Shutdown | SetDevice cuda_env int | DeviceReset | DeviceSynchronize
  | Malloc bool u64 | Free u64 | Memcpy host_ptr host_ptr u64 cudaMemcpyKind | Memset u64 int u64
  | MallocHost bool u64 | FreeHost u64 | MemGetInfo bool bool
  | StreamCreate bool u32 | StreamDestroy "ptr option" | StreamSynchronize "ptr option"
  | EventCreate bool | EventRecord "ptr option" "ptr option" u64 u64 | EventDestroy "ptr option"
  | LaunchKernel u64 dim3 dim3 u64 "ptr option"
  | GetDeviceCount cuda_env bool | GetDevice cuda_env bool | GetDeviceProperties cuda_env bool int
  | DeviceGetAttribute cuda_env bool int int | DriverGetVersion bool | RuntimeGetVersion bool
  | MemcpyAsync host_ptr host_ptr u64 cudaMemcpyKind "ptr option" | MemsetAsync u64 int u64 "ptr option"
  | HostAlloc bool u64 u32 | HostGetDevicePointer bool u64 u32
  | StreamQuery "ptr option" | StreamWaitEvent "ptr option" "ptr option" u32 | EventCreateWithFlags bool u32
  | EventSynchronize "ptr option" | EventQuery "ptr option" | EventElapsedTime bool "ptr option" "ptr option"
  | GetLastError | PeekAtLastError | ConnectionStatus bool | BandwidthInfo bool bool | IsSimulationMode bool

text \<open>
  A client that keeps the list of its streams: a call with the list before and after. Shutdown ends
  the life of all streams.
\<close>

fun run_call :: "cuda_call \<Rightarrow> ptr list \<Rightarrow> world \<Rightarrow> (cudaError \<times> ptr list \<times> world) option" where
  "run_call (Init env) H w = map_option (\<lambda>(e, w). (e, H, w)) (cudaBridgeInit env w)"
| "run_call Shutdown H w = map_option (\<lambda>(e, w). (e, [], w)) (cudaBridgeShutdown w)"
| "run_call (SetDevice env d) H w = map_option (\<lambda>(e, w). (e, H, w)) (cudaSetDevice env d w)"
| "run_call DeviceReset H w = map_option (\<lambda>(e, w). (e, H, w)) (cudaDeviceReset w)"
| "run_call DeviceSynchronize H w = map_option (\<lambda>(e, w). (e, H, w)) (cudaDeviceSynchronize w)"
| "run_call (Malloc b sz) H w = map_option (\<lambda>(e, _, w). (e, H, w)) (cudaMalloc b sz w)"
| "run_call (Free p) H w = map_option (\<lambda>(e, w). (e, H, w)) (cudaFree p w)"
| "run_call (Memcpy dst src n kind) H w = map_option (\<lambda>(e, _, w). (e, H, w)) (cudaMemcpy dst src n kind w)"
| "run_call (Memset p v n) H w = map_option (\<lambda>(e, w). (e, H, w)) (cudaMemset p v n w)"
| "run_call (MallocHost b sz) H w = (case cudaMallocHost b sz w of (e, _, w) \<Rightarrow> Some (e, H, w))"
| "run_call (FreeHost p) H w = map_option (\<lambda>(e, w). (e, H, w)) (cudaFreeHost p w)"
| "run_call (MemGetInfo a b) H w = map_option (\<lambda>(e, _, w). (e, H, w)) (cudaMemGetInfo a b w)"
| "run_call (StreamCreate b flags) H w =
     map_option (\<lambda>(e, out, w). (e, case out of None \<Rightarrow> H | Some sp \<Rightarrow> sp # H, w)) (cudaStreamCreateWithFlags b flags w)"
| "run_call (StreamDestroy s) H w =
     map_option (\<lambda>(e, w). (e, case s of None \<Rightarrow> H | Some sp \<Rightarrow> remove1 sp H, w)) (cudaStreamDestroy s w)"
| "run_call (StreamSynchronize s) H w = map_option (\<lambda>(e, w). (e, H, w)) (cudaStreamSynchronize s w)"
| "run_call (EventCreate b) H w = (case cudaEventCreate b w of (e, _, w) \<Rightarrow> Some (e, H, w))"
| "run_call (EventRecord e s sec nsec) H w = map_option (\<lambda>(e, w). (e, H, w)) (cudaEventRecord e s sec nsec w)"
| "run_call (EventDestroy e) H w = map_option (\<lambda>(e, w). (e, H, w)) (cudaEventDestroy e w)"
| "run_call (LaunchKernel func grid block shared s) H w =
     map_option (\<lambda>(e, w). (e, H, w)) (cudaLaunchKernel func grid block shared s w)"
| "run_call (GetDeviceCount env b) H w = map_option (\<lambda>(e, _, w). (e, H, w)) (cudaGetDeviceCount env b w)"
| "run_call (GetDevice env b) H w = map_option (\<lambda>(e, _, w). (e, H, w)) (cudaGetDevice env b w)"
| "run_call (GetDeviceProperties env b d) H w = map_option (\<lambda>(e, _, w). (e, H, w)) (cudaGetDeviceProperties env b d w)"
| "run_call (DeviceGetAttribute env b a d) H w = map_option (\<lambda>(e, _, w). (e, H, w)) (cudaDeviceGetAttribute env b a d w)"
| "run_call (DriverGetVersion b) H w = (case cudaDriverGetVersion b w of (e, _, w) \<Rightarrow> Some (e, H, w))"
| "run_call (RuntimeGetVersion b) H w = (case cudaRuntimeGetVersion b w of (e, _, w) \<Rightarrow> Some (e, H, w))"
| "run_call (MemcpyAsync dst src n kind s) H w = map_option (\<lambda>(e, _, w). (e, H, w)) (cudaMemcpyAsync dst src n kind s w)"
| "run_call (MemsetAsync p v n s) H w = map_option (\<lambda>(e, w). (e, H, w)) (cudaMemsetAsync p v n s w)"
| "run_call (HostAlloc b sz f) H w = (case cudaHostAlloc b sz f w of (e, _, w) \<Rightarrow> Some (e, H, w))"
| "run_call (HostGetDevicePointer b p f) H w = (case cudaHostGetDevicePointer b p f w of (e, _, w) \<Rightarrow> Some (e, H, w))"
| "run_call (StreamQuery s) H w = Some (cudaStreamQuery s, H, w)"
| "run_call (StreamWaitEvent s ev f) H w = Some (cudaStreamWaitEvent s ev f, H, w)"
| "run_call (EventCreateWithFlags b f) H w = (case cudaEventCreateWithFlags b f w of (e, _, w) \<Rightarrow> Some (e, H, w))"
| "run_call (EventSynchronize ev) H w = Some (cudaEventSynchronize ev, H, w)"
| "run_call (EventQuery ev) H w = Some (cudaEventQuery ev, H, w)"
| "run_call (EventElapsedTime b ev1 ev2) H w = map_option (\<lambda>(e, _, w). (e, H, w)) (cudaEventElapsedTime b ev1 ev2 w)"
| "run_call GetLastError H w = (case cudaGetLastError w of (e, w) \<Rightarrow> Some (e, H, w))"
| "run_call PeekAtLastError H w = Some (cudaPeekAtLastError w, H, w)"
| "run_call (ConnectionStatus b) H w = map_option (\<lambda>(e, _, w). (e, H, w)) (cudaBridgeGetConnectionStatus b w)"
| "run_call (BandwidthInfo b c) H w = map_option (\<lambda>(e, _, w). (e, H, w)) (cudaBridgeGetBandwidthInfo b c w)"
| "run_call (IsSimulationMode b) H w = (case cudaBridgeIsSimulationMode b w of (e, _, w) \<Rightarrow> Some (e, H, w))"

text \<open>
  What a correct client respects: handles it owns, host ranges that are accessible, an address counter
  that does not wrap around, memory for the virtual GPU when a call initialises the runtime on its own;
  and the host allocator hands out fresh addresses.
\<close>

fun call_ok :: "iokit option \<Rightarrow> ptr list \<Rightarrow> world \<Rightarrow> cuda_call \<Rightarrow> bool" where
  "call_ok io H w (Init env) \<longleftrightarrow> env_iokit env = io"
| "call_ok io H w (SetDevice env d) \<longleftrightarrow> auto_ok io w env"
| "call_ok io H w (GetDeviceCount env b) \<longleftrightarrow> env_iokit env = io"
| "call_ok io H w (GetDevice env b) \<longleftrightarrow> auto_ok io w env"
| "call_ok io H w (GetDeviceProperties env b d) \<longleftrightarrow> auto_ok io w env"
| "call_ok io H w (DeviceGetAttribute env b a d) \<longleftrightarrow> auto_ok io w env"
| "call_ok io H w (MemcpyAsync dst src n kind s) \<longleftrightarrow> copy_ok dst src n kind \<and> addr_room (w_nv w) n"
| "call_ok io H w (MemsetAsync p v n s) \<longleftrightarrow> host_fresh (w_host w) \<and> addr_room (w_nv w) n"
| "call_ok io H w (HostAlloc b sz f) \<longleftrightarrow> host_fresh (w_host w)"
| "call_ok io H w (EventElapsedTime b ev1 ev2) \<longleftrightarrow> {ev1, ev2} \<subseteq> insert None (Some ` dom (hp_mem (w_events w)))"
| "call_ok io H w (Malloc b sz) \<longleftrightarrow> addr_room (w_nv w) sz"
| "call_ok io H w (Memcpy dst src n kind) \<longleftrightarrow> copy_ok dst src n kind \<and> addr_room (w_nv w) n"
| "call_ok io H w (Memset p v n) \<longleftrightarrow> host_fresh (w_host w) \<and> addr_room (w_nv w) n"
| "call_ok io H w (MallocHost b sz) \<longleftrightarrow> host_fresh (w_host w)"
| "call_ok io H w (StreamCreate b flags) \<longleftrightarrow> addr_room (w_nv w) (1024 * 1024)"
| "call_ok io H w (StreamDestroy s) \<longleftrightarrow> s \<in> insert None (Some ` set H)"
| "call_ok io H w (StreamSynchronize s) \<longleftrightarrow> s \<in> insert None (Some ` set H)"
| "call_ok io H w (EventRecord e s sec nsec) \<longleftrightarrow> e \<in> insert None (Some ` dom (hp_mem (w_events w)))"
| "call_ok io H w (EventDestroy e) \<longleftrightarrow> e \<in> insert None (Some ` dom (hp_mem (w_events w)))"
| "call_ok io H w (LaunchKernel func grid block shared s) \<longleftrightarrow>
     s \<in> insert None (Some ` set H) \<and> addr_room (w_nv w) (1024 * 1024)"
| "call_ok io H w _ \<longleftrightarrow> True"

text \<open>
  Initialisation that ran out of memory for the virtual GPU, which two calls report, leaves the layers
  below up.
\<close>

definition init_oom :: "cuda_call \<Rightarrow> cudaError \<Rightarrow> bool" where
  "init_oom call e \<longleftrightarrow> (\<exists>env b. call = Init env \<or> call = GetDeviceCount env b) \<and> e = cudaErrorMemoryAllocation"

definition cuda_start :: "world \<Rightarrow> bool" where
  "cuda_start w \<longleftrightarrow> w_state w = state_zero \<and> hp_mem (w_gpus w) = Map.empty \<and> hp_mem (w_streams w) = Map.empty \<and>
     hp_mem (w_events w) = Map.empty \<and> usb4_heap_none (w_usb4 w) \<and> pcie_heap_none (w_pcie w) \<and> nv_heap_none (w_nv w) \<and>
     get_usb4_ctx w = Some usb4_ctx_zero \<and> 4096 dvd unat (next_gpu_addr (w_nv w))"

inductive cuda_reach :: "iokit option \<Rightarrow> ptr list \<Rightarrow> world \<Rightarrow> bool" for io where
  creach_start: "cuda_start w \<Longrightarrow> cuda_reach io [] w"
| creach_call: "cuda_reach io H w \<Longrightarrow> call_ok io H w call \<Longrightarrow> run_call call H w = Some (e, H', w') \<Longrightarrow>
     \<not> init_oom call e \<Longrightarrow> cuda_reach io H' w'"

lemma start_inv: "cuda_start w \<Longrightarrow> cuda_inv io [] w"
  by (auto simp: cuda_start_def cuda_inv_def heaps_ok_def heap_wf_def has_usb4_def get_usb4_ctx_def heap_get_def host_ok_def
      state_zero_def cold_def)

lemma map_fst_remove1:
  "distinct (map fst S) \<Longrightarrow> (a, b) \<in> set S \<Longrightarrow> map fst (remove1 (a, b) S) = remove1 a (map fst S)"
  by (induction S) (auto simp: rev_image_eqI)

definition inv_handles :: "iokit option \<Rightarrow> ptr list \<Rightarrow> world \<Rightarrow> bool" where
  "inv_handles io H w \<longleftrightarrow> (\<exists>S. map fst S = H \<and> cuda_inv io S w)"

lemma handlesI: "cuda_inv io S w \<Longrightarrow> inv_handles io (map fst S) w"
  by (auto simp: inv_handles_def)

text \<open>Every call of a correct client is defined and keeps the invariant.\<close>

lemma stream_destroy_call:
  assumes "inv_handles io H w" and "s \<in> insert None (Some ` set H)"
  shows "\<exists>e H' w'. run_call (StreamDestroy s) H w = Some (e, H', w') \<and> inv_handles io H' w'"
proof -
  from assms(1) obtain S where H: "H = map fst S" and I: "cuda_inv io S w" by (auto simp: inv_handles_def)
  show ?thesis
  proof (cases s)
    case None
    with I H handlesI [OF I] show ?thesis by (auto simp: cudaStreamDestroy_def)
  next
    case (Some sp)
    then obtain c where x: "(sp, c) \<in> set S" using assms(2) H by auto
    have "distinct (map fst S)" using I x by (auto simp: cuda_inv_def hot_def streams_ok_def split: if_splits)
    from stream_destroy_total [OF I x] handlesI [of io "remove1 (sp, c) S"] map_fst_remove1 [OF this x] H Some
    show ?thesis by auto
  qed
qed

lemma stream_sync_call:
  assumes "inv_handles io H w" and "s \<in> insert None (Some ` set H)"
  shows "\<exists>e H' w'. run_call (StreamSynchronize s) H w = Some (e, H', w') \<and> inv_handles io H' w'"
proof -
  from assms(1) obtain S where H: "H = map fst S" and I: "cuda_inv io S w" by (auto simp: inv_handles_def)
  show ?thesis
  proof (cases s)
    case None
    with device_sync_total [OF I] H handlesI [of io S] show ?thesis by (auto simp: cudaStreamSynchronize_def)
  next
    case (Some sp)
    then obtain c where "(sp, c) \<in> set S" using assms(2) H by auto
    from stream_sync_total [OF I this] I Some H handlesI [of io S] show ?thesis by auto
  qed
qed

lemma launch_call:
  assumes "inv_handles io H w" and "call_ok io H w (LaunchKernel func grid block shared s)"
  shows "\<exists>e H' w'. run_call (LaunchKernel func grid block shared s) H w = Some (e, H', w') \<and> inv_handles io H' w'"
proof -
  from assms(1) obtain S where H: "H = map fst S" and I: "cuda_inv io S w" by (auto simp: inv_handles_def)
  have "s \<in> insert None (Some ` fst ` set S)" using assms(2) H by (auto simp: image_image)
  from launch_total [OF I this] assms(2) obtain e w' where
    "cudaLaunchKernel func grid block shared s w = Some (e, w')" "cuda_inv io S w'" by fastforce
  with H handlesI [of io S] show ?thesis by simp
qed

lemma call_total:
  assumes "inv_handles io H w" and ok: "call_ok io H w call"
  shows "\<exists>e H' w'. run_call call H w = Some (e, H', w') \<and> (\<not> init_oom call e \<longrightarrow> inv_handles io H' w')"
proof -
  from assms(1) obtain S where H: "H = map fst S" and I: "cuda_inv io S w" by (auto simp: inv_handles_def)
  have keep: "inv_handles io H w'" if "cuda_inv io S w'" for w'
    using that H handlesI [of io S w'] by simp
  show ?thesis
  proof (cases call)
    case (Init env)
    with init_total_inv [OF I, of env] ok obtain e w' where "cudaBridgeInit env w = Some (e, w')"
      "e \<noteq> cudaErrorMemoryAllocation \<longrightarrow> cuda_inv io S w'" by auto
    with Init H handlesI [of io S w'] show ?thesis by (auto simp: init_oom_def)
  next
    case Shutdown
    with shutdown_total_inv [OF I] handlesI [of io "[]"] show ?thesis by auto
  next
    case (SetDevice env d)
    with set_device_auto [OF I, of env d] ok show ?thesis by (auto intro: keep)
  next
    case DeviceReset
    with device_reset_total [OF I] show ?thesis by (auto intro: keep)
  next
    case DeviceSynchronize
    with device_sync_total [OF I] show ?thesis by (auto intro: keep)
  next
    case (Malloc b sz)
    with malloc_total [OF I, of sz b] ok show ?thesis by (auto intro: keep)
  next
    case (Free p)
    with free_total [OF I, of p] show ?thesis by (auto intro: keep)
  next
    case (Memcpy dst src n kind)
    with memcpy_total [OF I, of dst src n kind] ok obtain e out w' where "cudaMemcpy dst src n kind w = Some (e, out, w')" by auto
    with Memcpy memcpy_keeps [OF I this] show ?thesis by (auto intro: keep)
  next
    case (Memset p v n)
    with memset_total [OF I, of n p v] ok show ?thesis by (auto intro: keep)
  next
    case (MallocHost b sz)
    obtain e q w' where "cudaMallocHost b sz w = (e, q, w')" by (metis prod_cases3)
    with MallocHost malloc_host_total [OF I, of b sz] ok show ?thesis by (auto intro: keep)
  next
    case (FreeHost p)
    with free_host_total [OF I, of p] show ?thesis by (auto intro: keep)
  next
    case (MemGetInfo a b)
    with mem_info_total [OF I, of a b] show ?thesis by (auto intro: keep)
  next
    case (StreamCreate b flags)
    with stream_create_total [OF I, of b flags] ok obtain e out w' S' where
      "cudaStreamCreateWithFlags b flags w = Some (e, out, w')" "cuda_inv io S' w'" "stream_made S out S'" by auto
    with StreamCreate H handlesI [of io S' w'] show ?thesis by (auto split: option.splits)
  next
    case (StreamDestroy s)
    with stream_destroy_call [OF assms(1), of s] ok show ?thesis by fastforce
  next
    case (StreamSynchronize s)
    with stream_sync_call [OF assms(1), of s] ok show ?thesis by fastforce
  next
    case (EventCreate b)
    obtain e q w' where "cudaEventCreate b w = (e, q, w')" by (metis prod_cases3)
    with EventCreate event_create_inv [OF I, of b] show ?thesis by (auto intro: keep)
  next
    case (EventRecord e s sec nsec)
    with event_record_total [OF I, of e s sec nsec] ok show ?thesis by (auto intro: keep)
  next
    case (EventDestroy e)
    with event_destroy_total [OF I, of e] ok show ?thesis by (auto intro: keep)
  next
    case (LaunchKernel func grid block shared s)
    with launch_call [OF assms(1), of func grid block shared s] ok show ?thesis by blast
  next
    case (GetDeviceCount env b)
    with device_count_total [OF I, of env b] ok obtain e out w' where "cudaGetDeviceCount env b w = Some (e, out, w')"
      "e \<noteq> cudaErrorMemoryAllocation \<longrightarrow> cuda_inv io S w'" by auto
    with GetDeviceCount H handlesI [of io S w'] show ?thesis by (auto simp: init_oom_def)
  next
    case (GetDevice env b)
    with get_device_total [OF I, of env b] ok show ?thesis by (auto intro: keep)
  next
    case (GetDeviceProperties env b d)
    with device_properties_total [OF I, of env b d] ok show ?thesis by (auto intro: keep)
  next
    case (DeviceGetAttribute env b a d)
    with attribute_total [OF I, of env b a d] ok show ?thesis by (auto intro: keep)
  next
    case (MemcpyAsync dst src n kind s)
    with memcpy_total [OF I, of dst src n kind] ok obtain e out w' where "cudaMemcpy dst src n kind w = Some (e, out, w')" by auto
    with MemcpyAsync memcpy_keeps [OF I this] show ?thesis by (auto simp: cudaMemcpyAsync_def intro: keep)
  next
    case (MemsetAsync p v n s)
    with memset_total [OF I, of n p v] ok show ?thesis by (auto simp: cudaMemsetAsync_def intro: keep)
  next
    case (HostAlloc b sz f)
    obtain e q w' where "cudaMallocHost b sz w = (e, q, w')" by (metis prod_cases3)
    with HostAlloc malloc_host_total [OF I, of b sz] ok show ?thesis by (auto simp: cudaHostAlloc_def intro: keep)
  next
    case (EventCreateWithFlags b f)
    obtain e q w' where "cudaEventCreateWithFlags b f w = (e, q, w')" by (metis prod_cases3)
    with EventCreateWithFlags event_flags_inv [OF I, of b f] show ?thesis by (auto intro: keep)
  next
    case (EventElapsedTime b ev1 ev2)
    with elapsed_total [OF I, of ev1 ev2 b] ok show ?thesis by (auto intro: keep)
  next
    case (ConnectionStatus b)
    with status_total(1) [OF I, of b] show ?thesis by (auto intro: keep)
  next
    case (BandwidthInfo b c)
    with status_total(2) [OF I, of b c] show ?thesis by (auto intro: keep)
  qed (use version_inv [OF I] keep I in \<open>auto split: prod.splits simp: prod_eq_iff\<close>)
qed

lemma creach_inv: "cuda_reach io H w \<Longrightarrow> inv_handles io H w"
proof (induction rule: cuda_reach.induct)
  case (creach_start w)
  from handlesI [OF start_inv [OF creach_start]] show ?case by simp
next
  case (creach_call H w call e H' w')
  from call_total [OF creach_call.IH creach_call.hyps(2)] creach_call.hyps(3,4) show ?case by auto
qed

section \<open>Device memory through the runtime\<close>

text \<open>A successful \<open>cudaMalloc\<close>.\<close>

lemma malloc_hot:
  assumes I: "cuda_inv io S w" and room: "addr_room (w_nv w) sz"
    and c: "cudaMalloc True sz w = Some (cudaSuccess, Some a, w1)"
  obtains gp ctx ctx' xs cs r nv where "gpu_up w gp ctx xs cs" and "get_current_gpu w = Some gp"
    and "a = next_gpu_addr (w_nv w)" and "w1 = with_gpu w gp ctx' nv" and "cuda_inv io S w1" and "gs_initialized (w_state w)"
    and "nv_inv ctx' nv (xs @ [(r, new_alloc (w_nv w) (alloc_zero\<lparr>ma_size := sz, ma_type := NV_MEM_TYPE_VIDEO\<rparr>))]) cs"
    and "h_pcie nv = w_pcie w" and "gpu_vram_free ctx' = gpu_vram_free ctx - page_round sz" and "gpu_info ctx' = gpu_info ctx"
    and "next_gpu_addr nv = next_gpu_addr (w_nv w) + page_round sz"
    and "gpu_pcie_device ctx' = gpu_pcie_device ctx" and "streams_ok S cs w" and "0 < unat sz"
    and "hp_mem (h_stores nv) = (hp_mem (h_stores (w_nv w)))(hp_next (h_stores (w_nv w)) \<mapsto> buf_new (unat (page_round sz)))"
proof -
  have nz: "sz \<noteq> 0" using c by (auto simp: cudaMalloc_def fail_out_def)
  have i: "gs_initialized (w_state w)"
  proof (rule ccontr)
    assume "\<not> gs_initialized (w_state w)"
    with c nz coldE(3) [OF I] show False by (simp add: cudaMalloc_def fail_out_def)
  qed
  obtain gp ctx xs cs where g: "gpu_up w gp ctx xs cs" and S: "streams_ok S cs w" and cur: "get_current_gpu w = Some gp"
    and hg: "heap_get (w_gpus w) gp = Some ctx" and v: "nv_inv ctx (w_nv w) xs cs"
    and p: "pcie_reach (gs_pcie_ctx (w_state w)) (w_pcie w)" by (rule hotE [OF I i])
  let ?a = "alloc_zero\<lparr>ma_size := sz, ma_type := NV_MEM_TYPE_VIDEO\<rparr>"
  have room': "addr_room (w_nv w) (ma_size ?a)" using room by simp
  from malloc_total [OF I room, of True] c have I1: "cuda_inv io S w1" by auto
  from v room' show thesis
  proof (cases rule: alloc_cases)
    case (rejected e)
    then have "e \<noteq> NV_SUCCESS" by (auto simp: alloc_guard_def split: if_splits)
    with rejected c nz cur hg show ?thesis by (simp add: cudaMalloc_def put_gpu fail_out_def)
  next
    case (failed out nv)
    with c nz cur hg show ?thesis by (simp add: cudaMalloc_def put_gpu fail_out_def)
  next
    case (ok ctx' nv r)
    with c nz cur hg have "a = next_gpu_addr (w_nv w)" "w1 = with_gpu w gp ctx' nv"
      by (auto simp: cudaMalloc_def put_gpu new_alloc_def)
    moreover have "0 < unat sz" using nz by (simp add: unat_gt_0)
    moreover have "gpu_vram_free ctx' = gpu_vram_free ctx - page_round sz" "gpu_info ctx' = gpu_info ctx"
      "gpu_pcie_device ctx' = gpu_pcie_device ctx" using ok(7) by (simp_all add: take_vram_def)
    moreover have "next_gpu_addr nv = next_gpu_addr (w_nv w) + page_round sz" using ok(9) by simp
    moreover note ok(8)
    ultimately show ?thesis by (intro that [OF g cur _ _ I1 i ok(4,5)]) (simp_all add: S)
  qed
qed

lemma with_gpu_sel [simp]:
  "gs_gpu_contexts (w_state (with_gpu w gp ctx nv)) = gs_gpu_contexts (w_state w)"
  "get_current_gpu (with_gpu w gp ctx nv) = get_current_gpu w"
  "heap_get (hg\<lparr>hp_mem := (hp_mem hg)(gp \<mapsto> ctx)\<rparr>) gp = Some ctx"
  "heap_put (hg\<lparr>hp_mem := (hp_mem hg)(gp \<mapsto> ctx)\<rparr>) gp ctx' = Some (hg\<lparr>hp_mem := (hp_mem hg)(gp \<mapsto> ctx')\<rparr>)"
  by (simp_all add: get_current_gpu_def heap_get_def heap_put_def)

lemma malloc_copy_roundtrip:
  assumes I: "cuda_inv io S w" and room: "addr_room (w_nv w) sz"
    and c: "cudaMalloc True sz w = Some (cudaSuccess, Some a, w1)"
    and n: "0 < unat n" "unat n \<le> unat sz" "length bytes = unat n" "unat n \<le> hp_room dst"
    and nz: "a \<noteq> 0" "hp_addr src \<noteq> 0" "hp_addr dst \<noteq> 0" "hp_bytes src = bytes"
  shows "\<exists>w2 w3. cudaMemcpy (device_ptr a) src n cudaMemcpyHostToDevice w1 = Some (cudaSuccess, None, w2) \<and>
    cudaMemcpy dst (device_ptr a) n cudaMemcpyDeviceToHost w2 = Some (cudaSuccess, Some bytes, w3)"
  using I room c
proof (cases rule: malloc_hot)
  case (1 gp ctx ctx' xs cs r nv)
  let ?x = "(r, new_alloc (w_nv w) (alloc_zero\<lparr>ma_size := sz, ma_type := NV_MEM_TYPE_VIDEO\<rparr>))"
  have "unat sz + 4095 < 2 ^ 64" using room by (simp add: addr_room_def)
  from page_round_bounds(1) [OF 1(14) this] have pr: "unat sz \<le> unat (page_round sz)" .
  have x: "?x \<in> set (xs @ [?x])" by simp
  have rng: "gpu_range ?x a (length bytes)"
    using 1(3) n pr by (simp add: gpu_range_def new_alloc_def gpu_end_def)
  have n0: "n \<noteq> 0" "bytes \<noteq> []" using n by auto
  obtain b b' s where s: "entry_store ?x = Some s" "hp_mem (h_stores nv) s = Some b" "buf_wr b (gpu_off ?x a) bytes = Some b'"
    and put: "nv_gpu_memcpy_h2d ctx' nv a (Some bytes) n =
      Some (NV_SUCCESS, ctx'\<lparr>gpu_bytes_transferred := gpu_bytes_transferred ctx' + n\<rparr>,
        nv\<lparr>h_stores := h_stores nv\<lparr>hp_mem := (hp_mem (h_stores nv))(s \<mapsto> b')\<rparr>\<rparr>)"
    and v2: "nv_inv (ctx'\<lparr>gpu_bytes_transferred := gpu_bytes_transferred ctx' + n\<rparr>)
       (nv\<lparr>h_stores := h_stores nv\<lparr>hp_mem := (hp_mem (h_stores nv))(s \<mapsto> b')\<rparr>\<rparr>) (xs @ [?x]) cs"
    by (rule h2d_in_range [OF 1(7) x rng n(3) [symmetric] n0(2)]) (rule that)
  let ?ctx2 = "ctx'\<lparr>gpu_bytes_transferred := gpu_bytes_transferred ctx' + n\<rparr>"
  let ?nv2 = "nv\<lparr>h_stores := h_stores nv\<lparr>hp_mem := (hp_mem (h_stores nv))(s \<mapsto> b')\<rparr>\<rparr>"
  let ?w2 = "with_gpu w1 gp ?ctx2 ?nv2"
  have rep: "mem_rep (h_allocs nv) (h_stores nv) (next_gpu_addr nv) (xs @ [?x])" using 1(7) by (simp add: nv_inv_def)
  have stored: "gpu_bytes ?nv2 ?x a (unat n) = Some bytes"
    using gpu_bytes_put(1) [OF rep x s rng] n(3) by simp
  have rng': "gpu_range ?x a (unat n)" using rng n(3) by simp
  from d2h_in_range [OF v2 x rng' n(1)] stored have got: "nv_gpu_memcpy_d2h ?ctx2 ?nv2 True a n =
      Some (NV_SUCCESS, Some bytes, ?ctx2\<lparr>gpu_bytes_transferred := gpu_bytes_transferred ?ctx2 + n\<rparr>)" by auto
  have w1: "get_current_gpu w1 = Some gp" "heap_get (w_gpus w1) gp = Some ctx'" "w_nv w1 = nv"
    using 1(2,4) by simp_all
  have h2d: "cudaMemcpy (device_ptr a) src n cudaMemcpyHostToDevice w1 = Some (cudaSuccess, None, ?w2)"
    using w1 nz n0 put by (simp add: cudaMemcpy_def device_ptr_def put_gpu copy_result_def)
  have w2: "get_current_gpu ?w2 = Some gp" "heap_get (w_gpus ?w2) gp = Some ?ctx2" "w_nv ?w2 = ?nv2" using w1(1) by simp_all
  have "\<exists>w3. cudaMemcpy dst (device_ptr a) n cudaMemcpyDeviceToHost ?w2 = Some (cudaSuccess, Some bytes, w3)"
    unfolding cudaMemcpy_def using w2 nz n0 got n(3,4)
    by (simp add: device_ptr_def copy_result_def host_store_def)
  with h2d show ?thesis by blast
qed

lemma below_last:
  assumes "mem_rep ha hs nx (xs @ [y])" and "x \<in> set xs"
  shows "ma_gpu_addr (snd x) \<noteq> ma_gpu_addr (snd y)"
proof -
  have "below x y" and "entry_ok ha hs (unat nx) x" using assms by (auto simp: mem_rep_def sorted_wrt_append)
  then have "unat (ma_gpu_addr (snd x)) < unat (ma_gpu_addr (snd y))" by (simp add: below_def entry_ok_def gpu_end_def)
  then show ?thesis by auto
qed

lemma split_at_last: "distinct (map f (xs @ [y])) \<Longrightarrow> xs @ [y] = ys @ y # zs \<Longrightarrow> ys = xs \<and> zs = []"
  by (cases zs rule: rev_cases) auto

lemma malloc_free_vram:
  assumes I: "cuda_inv io S w" and room: "addr_room (w_nv w) sz"
    and c: "cudaMalloc True sz w = Some (cudaSuccess, Some a, w1)"
    and nz: "a \<noteq> 0" and nt: "a \<notin> ha_ptr ` set (gs_host_allocs (w_state w))"
  shows "\<exists>f t w2 ctx ctx2 gp. cudaMemGetInfo True True w = Some (cudaSuccess, Some (f, t), w) \<and>
    cudaFree a w1 = Some (cudaSuccess, w2) \<and>
    cudaMemGetInfo True True w2 = Some (cudaSuccess, Some (f - page_round sz, t), w2) \<and>
    get_current_gpu w = Some gp \<and> get_current_gpu w2 = Some gp \<and>
    heap_get (w_gpus w) gp = Some ctx \<and> heap_get (w_gpus w2) gp = Some ctx2 \<and>
    gpu_allocations ctx2 = gpu_allocations ctx"
  using I room c
proof (cases rule: malloc_hot)
  case (1 gp ctx ctx' xs cs r nv)
  let ?y = "(r, new_alloc (w_nv w) (alloc_zero\<lparr>ma_size := sz, ma_type := NV_MEM_TYPE_VIDEO\<rparr>))"
  let ?a = "alloc_zero\<lparr>ma_gpu_addr := a\<rparr>"
  have hg: "heap_get (w_gpus w) gp = Some ctx" using 1(1) by (simp add: gpu_up_def heap_get_def)
  have w1: "get_current_gpu w1 = Some gp" "heap_get (w_gpus w1) gp = Some ctx'" "w_nv w1 = nv"
    "gs_host_allocs (w_state w1) = gs_host_allocs (w_state w)"
    using 1(2,4) by simp_all
  have rep: "mem_rep (h_allocs nv) (h_stores nv) (next_gpu_addr nv) (xs @ [?y])" using 1(7) by (simp add: nv_inv_def)
  have ay: "ma_gpu_addr (snd ?y) = a" using 1(3) by (simp add: new_alloc_def)
  from 1(7) obtain ctx2 nv2 where f: "nv_gpu_free_memory ctx' nv (Some ?a) = Some (ctx2, nv2)"
    and k: "gpu_vram_free ctx2 = gpu_vram_free ctx'" "gpu_info ctx2 = gpu_info ctx'"
      "gpu_allocations ctx2 = map (\<lambda>x. Some (fst x)) xs"
  proof (cases rule: free_cases [where a = ?a])
    case miss
    have "fst ?y \<in> fst ` set (xs @ [?y])" by simp
    from miss(3) ay show ?thesis by (simp add: at_addr_def)
  next
    case (hit ys x zs ctx2)
    have "x \<in> set (xs @ [?y])" unfolding hit(1) by simp
    moreover have "x \<notin> set xs" using below_last [OF rep, of x] hit(2) ay by auto
    ultimately have "x = ?y" by simp
    have "distinct (map fst (xs @ [?y]))" using rep by (simp add: mem_rep_def)
    with hit(1) \<open>x = ?y\<close> split_at_last [of fst xs ?y ys zs] have "ys @ zs = xs" by auto
    with hit(3,5) show ?thesis by (intro that [of ctx2 "drop_alloc nv x"]) (simp_all add: give_vram_def alloc_zero_def)
  qed
  have al: "gpu_allocations ctx = map (\<lambda>x. Some (fst x)) xs" using 1(1) by (simp add: gpu_up_def nv_inv_def)
  have "find_from (\<lambda>h. ha_ptr h = a) (gs_host_allocs (w_state w1)) = None"
    using nt w1(4) find_from_ex [of "\<lambda>h. ha_ptr h = a" "gs_host_allocs (w_state w1)"] by (auto simp: image_iff)
  then have t: "free_tracked_host_alloc a w1 = Some (False, w1)" by (simp add: free_tracked_host_alloc_def)
  let ?w2 = "with_gpu w1 gp ctx2 nv2"
  have "cudaFree a w1 = Some (cudaSuccess, ?w2)"
    using nz t w1(1,2,3) f by (simp add: cudaFree_def put_gpu)
  moreover have w2: "get_current_gpu ?w2 = Some gp" "heap_get (w_gpus ?w2) gp = Some ctx2" using w1(1) by simp_all
  moreover have "cudaMemGetInfo True True ?w2 = Some (cudaSuccess, Some (gpu_vram_free ctx - page_round sz, di_vram_size (gpu_info ctx)), ?w2)"
    unfolding cudaMemGetInfo_def using w2 k 1(9,10) by (simp del: with_gpu_sel)
  moreover have "cudaMemGetInfo True True w = Some (cudaSuccess, Some (gpu_vram_free ctx, di_vram_size (gpu_info ctx)), w)"
    using 1(2) hg by (simp add: cudaMemGetInfo_def)
  ultimately show ?thesis using 1(2) hg k(3) al
    by (intro exI [of _ "gpu_vram_free ctx"] exI [of _ "di_vram_size (gpu_info ctx)"] exI [of _ ?w2] exI [of _ ctx]
        exI [of _ ctx2] exI [of _ gp] conjI) (assumption | simp)+
qed

section \<open>The error latch\<close>

text \<open>
  An interface with an error code per call and one last error: a failing call stores its code there, a
  successful one leaves it, with exceptions. \<open>run_list\<close> runs a sequence of calls and lists the codes.
\<close>

fun run_list :: "('c \<Rightarrow> 's \<Rightarrow> (cudaError \<times> 's) option) \<Rightarrow> 'c list \<Rightarrow> 's \<Rightarrow> (cudaError list \<times> 's) option" where
  "run_list exec [] s = Some ([], s)"
| "run_list exec (c # cs) s = do { (e, s) \<leftarrow> exec c s; (es, s) \<leftarrow> run_list exec cs s; Some (e # es, s) }"

text \<open>
  Which code a call stores is a function of the call, the state before and the code it returns; the last
  error after a sequence of calls is the last code stored.
\<close>

fun stored_list ::
    "('c \<Rightarrow> 's \<Rightarrow> (cudaError \<times> 's) option) \<Rightarrow> ('c \<Rightarrow> 's \<Rightarrow> cudaError \<Rightarrow> cudaError option) \<Rightarrow> 'c list \<Rightarrow> 's \<Rightarrow> cudaError list" where
  "stored_list exec st [] s = []"
| "stored_list exec st (c # cs) s =
     (case exec c s of
        None \<Rightarrow> []
      | Some (e, s') \<Rightarrow> (case st c s e of None \<Rightarrow> [] | Some x \<Rightarrow> [x]) @ stored_list exec st cs s')"

definition failure :: "cudaError \<Rightarrow> cudaError option" where
  "failure e = (if e = cudaSuccess then None else Some e)"

locale error_latch =
  fixes exec :: "'c \<Rightarrow> 's \<Rightarrow> (cudaError \<times> 's) option" and err :: "'s \<Rightarrow> cudaError"
    and st :: "'c \<Rightarrow> 's \<Rightarrow> cudaError \<Rightarrow> cudaError option"
  assumes latch: "exec c s = Some (e, s') \<Longrightarrow> err s' = (case st c s e of None \<Rightarrow> err s | Some x \<Rightarrow> x)"
begin

lemma run_latches: "run_list exec cs s = Some (es, s') \<Longrightarrow> err s' = last (err s # stored_list exec st cs s)"
proof (induction cs arbitrary: s es)
  case Nil
  then show ?case by simp
next
  case (Cons c cs)
  then obtain e s1 es1 where e: "exec c s = Some (e, s1)" "run_list exec cs s1 = Some (es1, s')"
    by (auto elim!: bind_eq_SomeE)
  from Cons.IH [OF e(2)] latch [OF e(1)] e(1) show ?case by (auto split: option.splits)
qed

text \<open>Calls that store their failures only.\<close>

lemma run_failures:
  "run_list exec cs s = Some (es, s') \<Longrightarrow> \<forall>c \<in> set cs. \<forall>s e. st c s e = failure e \<Longrightarrow>
   stored_list exec st cs s = filter (\<lambda>e. e \<noteq> cudaSuccess) es"
proof (induction cs arbitrary: s es)
  case Nil
  then show ?case by simp
next
  case (Cons c cs)
  then obtain e s1 es1 where e: "exec c s = Some (e, s1)" "run_list exec cs s1 = Some (es1, s')" "es = e # es1"
    by (auto elim!: bind_eq_SomeE)
  with Cons.IH [OF e(2)] Cons.prems(2) show ?case by (simp add: failure_def)
qed

end

text \<open>
  The runtime: a call stores the code of its failure, with these exceptions. An initialisation stores its
  code also when it succeeds (which clears the error), shutdown clears it, and so does \<open>cudaGetLastError\<close>;
  a call that initialises on its own and then succeeds leaves the code of the initialisation, and
  \<open>cudaPeekAtLastError\<close> stores nothing.
\<close>

definition auto_code :: "cuda_env \<Rightarrow> world \<Rightarrow> cudaError option" where
  "auto_code env w = (if gs_initialized (w_state w) then None else map_option fst (cudaBridgeInit env w))"

fun stored :: "cuda_call \<Rightarrow> world \<Rightarrow> cudaError \<Rightarrow> cudaError option" where
  "stored (Init env) w e = (if gs_initialized (w_state w) then None else Some e)"
| "stored Shutdown w e = (if gs_initialized (w_state w) then Some cudaSuccess else None)"
| "stored (GetDeviceCount env b) w e = (if b \<and> \<not> gs_initialized (w_state w) then Some e else failure e)"
| "stored (SetDevice env d) w e = (if e = cudaSuccess then auto_code env w else Some e)"
| "stored (GetDevice env b) w e = (if e = cudaSuccess then auto_code env w else Some e)"
| "stored (GetDeviceProperties env b d) w e = (if e = cudaSuccess then auto_code env w else Some e)"
| "stored (DeviceGetAttribute env b a d) w e = (if e = cudaSuccess then auto_code env w else Some e)"
| "stored GetLastError w e = Some cudaSuccess"
| "stored PeekAtLastError w e = None"
| "stored _ w e = failure e"

definition latching :: "cuda_call \<Rightarrow> bool" where
  "latching c \<longleftrightarrow> (\<forall>w e. stored c w e = failure e)"

definition exec_call :: "cuda_call \<Rightarrow> ptr list \<times> world \<Rightarrow> (cudaError \<times> ptr list \<times> world) option" where
  "exec_call c s = run_call c (fst s) (snd s)"

definition stores :: "cuda_call \<Rightarrow> ptr list \<times> world \<Rightarrow> cudaError \<Rightarrow> cudaError option" where
  "stores c s e = stored c (snd s) e"

definition last_err :: "ptr list \<times> world \<Rightarrow> cudaError" where
  "last_err s = cudaPeekAtLastError (snd s)"

text \<open>The codes a sequence of calls stores, in order.\<close>

definition stored_codes :: "cuda_call list \<Rightarrow> ptr list \<times> world \<Rightarrow> cudaError list" where
  "stored_codes = stored_list exec_call stores"

abbreviation latches :: "cudaError \<Rightarrow> world \<Rightarrow> world \<Rightarrow> bool" where
  "latches e w w' \<equiv> gs_last_error (w_state w') = (if e = cudaSuccess then gs_last_error (w_state w) else e)"

lemmas latch_defs = fail_def fail_out_def copy_result_def world_simps track_host_alloc_def Let_def

lemma tracked_error: "free_tracked_host_alloc p w = Some (t, w') \<Longrightarrow> gs_last_error (w_state w') = gs_last_error (w_state w)"
  by (auto simp: free_tracked_host_alloc_def world_simps split: if_splits elim!: bind_eq_SomeE)

lemma malloc_latch: "cudaMalloc b sz w = Some (e, out, w') \<Longrightarrow> latches e w w'"
  by (auto simp: cudaMalloc_def latch_defs split: if_splits option.splits elim!: bind_eq_SomeE)

lemma free_latch: "cudaFree p w = Some (e, w') \<Longrightarrow> latches e w w'"
  by (auto simp: cudaFree_def latch_defs split: if_splits option.splits prod.splits elim!: bind_eq_SomeE dest!: tracked_error)

lemma memcpy_latch: "cudaMemcpy dst src n kind w = Some (e, out, w') \<Longrightarrow> latches e w w'"
  by (cases kind) (auto simp: cudaMemcpy_def latch_defs split: if_splits option.splits elim!: bind_eq_SomeE)

lemma memset_latch: "cudaMemset p v n w = Some (e, w') \<Longrightarrow> latches e w w'"
  by (auto simp: cudaMemset_def Let_def fail_def world_simps split: if_splits prod.splits elim!: bind_eq_SomeE dest!: memcpy_latch)

lemma host_latch: "cudaMallocHost b sz w = (e, out, w') \<Longrightarrow> latches e w w'" "cudaFreeHost p w = Some (e, w') \<Longrightarrow> latches e w w'"
  by (auto simp: cudaMallocHost_def cudaFreeHost_def latch_defs split: if_splits prod.splits dest!: tracked_error)

lemma device_latch:
  "cudaDeviceReset w = Some (e, w') \<Longrightarrow> latches e w w'" "cudaDeviceSynchronize w = Some (e, w') \<Longrightarrow> latches e w w'"
  "cudaMemGetInfo b1 b2 w = Some (e, out, w') \<Longrightarrow> latches e w w'"
  by (auto simp: cudaDeviceReset_def cudaDeviceSynchronize_def cudaMemGetInfo_def latch_defs
      split: if_splits option.splits elim!: bind_eq_SomeE)

lemma stream_create_latch: "cudaStreamCreateWithFlags b flags w = Some (e, out, w') \<Longrightarrow> latches e w w'"
  by (auto simp: cudaStreamCreateWithFlags_def latch_defs split: if_splits option.splits prod.splits elim!: bind_eq_SomeE)

lemma stream_latch:
  "cudaStreamDestroy s w = Some (e, w') \<Longrightarrow> latches e w w'"
  "cudaStreamSynchronize s w = Some (e, w') \<Longrightarrow> latches e w w'"
  by (auto simp: cudaStreamDestroy_def cudaStreamSynchronize_def latch_defs
      split: if_splits option.splits elim!: bind_eq_SomeE dest!: device_latch)

lemma event_latch:
  "cudaEventCreate b w = (e, out, w') \<Longrightarrow> latches e w w'"
  "cudaEventRecord ev s sec nsec w = Some (e, w') \<Longrightarrow> latches e w w'"
  "cudaEventDestroy ev w = Some (e, w') \<Longrightarrow> latches e w w'"
  "cudaEventCreateWithFlags b f w = (e, out, w') \<Longrightarrow> latches e w w'"
  "cudaEventElapsedTime b ev1 ev2 w = Some (e, t, w') \<Longrightarrow> latches e w w'"
  by (auto simp: cudaEventElapsedTime_def cudaEventCreate_def cudaEventCreateWithFlags_def cudaEventRecord_def cudaEventDestroy_def latch_defs
      split: if_splits option.splits prod.splits elim!: bind_eq_SomeE)

lemma launch_channel_error:
  "launch_channel stream gp w = Some (ret, c, w') \<Longrightarrow> gs_last_error (w_state w') = gs_last_error (w_state w)"
  by (auto simp: launch_channel_def Let_def split: if_splits elim!: bind_eq_SomeE)

lemma launch_latch: "cudaLaunchKernel func grid block shared s w = Some (e, w') \<Longrightarrow> latches e w w'"
  by (auto simp: cudaLaunchKernel_def latch_defs split: if_splits option.splits prod.splits elim!: bind_eq_SomeE
      dest!: launch_channel_error)

lemma map_option_SomeE:
  assumes "map_option f x = Some y"
  obtains z where "x = Some z" and "f z = y"
  using assms by (cases x) simp_all

lemma report_latch:
  "cudaDriverGetVersion b w = (e, v, w') \<Longrightarrow> latches e w w'" "cudaRuntimeGetVersion b w = (e, v, w') \<Longrightarrow> latches e w w'"
  "cudaHostGetDevicePointer b p f w = (e, a, w') \<Longrightarrow> latches e w w'"
  "cudaBridgeIsSimulationMode b w = (e, v, w') \<Longrightarrow> latches e w w'"
  "cudaBridgeGetConnectionStatus b w = Some (e, v, w') \<Longrightarrow> latches e w w'"
  "cudaBridgeGetBandwidthInfo b c w = Some (e, x, w') \<Longrightarrow> latches e w w'"
  by (auto simp: cudaDriverGetVersion_def cudaRuntimeGetVersion_def cudaHostGetDevicePointer_def cudaBridgeIsSimulationMode_def
      cudaBridgeGetConnectionStatus_def cudaBridgeGetBandwidthInfo_def latch_defs split: if_splits elim!: bind_eq_SomeE)

text \<open>The calls that may initialise.\<close>

abbreviation stores_code :: "cudaError option \<Rightarrow> world \<Rightarrow> world \<Rightarrow> bool" where
  "stores_code x w w' \<equiv> gs_last_error (w_state w') = (case x of None \<Rightarrow> gs_last_error (w_state w) | Some c \<Rightarrow> c)"

lemma auto_error:
  assumes "auto_init env w = Some w'"
  shows "stores_code (auto_code env w) w w'"
proof (cases "gs_initialized (w_state w)")
  case True
  with assms show ?thesis by (simp add: auto_init_def auto_code_def)
next
  case False
  with assms obtain e where c: "cudaBridgeInit env w = Some (e, w')" by (auto simp: auto_init_def)
  from init_error [OF c] c False show ?thesis by (simp add: auto_code_def)
qed

lemma shutdown_error:
  "cudaBridgeShutdown w = Some (e, w') \<Longrightarrow> stores_code (if gs_initialized (w_state w) then Some cudaSuccess else None) w w'"
  by (auto simp: cudaBridgeShutdown_def state_zero_def split: if_splits elim!: bind_eq_SomeE)

lemma count_error:
  "cudaGetDeviceCount env b w = Some (e, n, w') \<Longrightarrow>
   stores_code (if b \<and> \<not> gs_initialized (w_state w) then Some e else failure e) w w'"
  by (auto simp: cudaGetDeviceCount_def latch_defs failure_def split: if_splits elim!: bind_eq_SomeE dest: init_error)

lemma properties_error:
  "cudaGetDeviceProperties env b d w = Some (e, out, w') \<Longrightarrow> stores_code (if e = cudaSuccess then auto_code env w else Some e) w w'"
  by (auto simp: cudaGetDeviceProperties_def latch_defs split: if_splits option.splits elim!: bind_eq_SomeE dest!: auto_error)

lemma device_error:
  "cudaSetDevice env d w = Some (e, w') \<Longrightarrow> stores_code (if e = cudaSuccess then auto_code env w else Some e) w w'"
  "cudaGetDevice env b w = Some (e, out, w') \<Longrightarrow> stores_code (if e = cudaSuccess then auto_code env w else Some e) w w'"
  "cudaDeviceGetAttribute env b a d w = Some (e, v, w') \<Longrightarrow> stores_code (if e = cudaSuccess then auto_code env w else Some e) w w'"
  by (auto simp: cudaSetDevice_def cudaGetDevice_def cudaDeviceGetAttribute_def latch_defs
      split: if_splits elim!: bind_eq_SomeE dest!: auto_error properties_error)

lemma latches_failure: "latches e w w' \<Longrightarrow> stores_code (failure e) w w'"
  by (simp add: failure_def)

lemma call_stores:
  assumes "run_call c H w = Some (e, H', w')"
  shows "stores_code (stored c w e) w w'"
proof (cases "\<exists>env. c = Init env")
  case True
  with assms init_error show ?thesis by fastforce
next
  case False
  with assms show ?thesis
    by (cases c) (auto simp: cudaMemcpyAsync_def cudaMemsetAsync_def cudaHostAlloc_def failure_def cudaStreamQuery_def
        cudaStreamWaitEvent_def cudaEventSynchronize_def cudaEventQuery_def cudaGetLastError_def world_simps
        simp del: map_option_eq_Some Option.map_option_eq_Some split: prod.splits elim!: map_option_SomeE
        dest!: malloc_latch free_latch memcpy_latch memset_latch host_latch device_latch
        stream_create_latch stream_latch event_latch launch_latch report_latch shutdown_error count_error properties_error device_error)
qed

interpretation cuda: error_latch exec_call last_err stores
proof unfold_locales
  fix c s e s'
  assume "exec_call c s = Some (e, s')"
  then have "run_call c (fst s) (snd s) = Some (e, fst s', snd s')" by (simp add: exec_call_def)
  from call_stores [OF this] show "last_err s' = (case stores c s e of None \<Rightarrow> last_err s | Some x \<Rightarrow> x)"
    by (simp add: last_err_def stores_def cudaPeekAtLastError_def split: option.splits)
qed

section \<open>A concrete run\<close>

text \<open>No IOKit, no device: the initialisation falls back to the virtual GPU.\<close>

lemma scan_functions_idle:
  assumes "get_usb4 ctx h = Some (Some u)" and "active_tunnels u = []"
  shows "\<exists>t. scan_functions ctx h dev fs n = Some (n, ctx\<lparr>next_tag := t\<rparr>, h)"
  using assms
proof (induction fs arbitrary: ctx)
  case Nil
  have "ctx = ctx\<lparr>next_tag := next_tag ctx\<rparr>" by simp
  then show ?case by (metis scan_functions.simps(1))
next
  case (Cons f fs)
  let ?c = "ctx\<lparr>next_tag := next_tag ctx + 1\<rparr>"
  have g: "get_usb4 ?c h = Some (Some u)" using Cons.prems(1) by (simp add: get_usb4_def)
  then have "pcie_probe_device ctx h 0 (of_nat dev) (of_nat f) = Some (PCIE_ERR_NOT_FOUND, ?c, h)"
    using Cons.prems(2) by (simp add: pcie_probe_device_def)
  with Cons.IH [OF g Cons.prems(2)] show ?case by auto
qed

lemma scan_devices_idle:
  assumes "get_usb4 ctx h = Some (Some u)" and "active_tunnels u = []"
  shows "\<exists>t. scan_devices ctx h ds n = Some (n, ctx\<lparr>next_tag := t\<rparr>, h)"
  using assms
proof (induction ds arbitrary: ctx)
  case Nil
  have "ctx = ctx\<lparr>next_tag := next_tag ctx\<rparr>" by simp
  then show ?case by (metis scan_devices.simps(1))
next
  case (Cons d ds)
  obtain t where t: "scan_functions ctx h d [0..<PCIE_MAX_FUNCTION] n = Some (n, ctx\<lparr>next_tag := t\<rparr>, h)"
    using scan_functions_idle [OF Cons.prems] by blast
  have g: "get_usb4 (ctx\<lparr>next_tag := t\<rparr>) h = Some (Some u)" using Cons.prems(1) by (simp add: get_usb4_def)
  show ?case
  proof (cases "n < 32")
    case True
    with t Cons.IH [OF g Cons.prems(2)] show ?thesis by auto
  next
    case False
    have "ctx = ctx\<lparr>next_tag := next_tag ctx\<rparr>" by simp
    with False show ?thesis by (metis scan_devices.simps(2))
  qed
qed

definition demo_env :: cuda_env where
  "demo_env = \<lparr>env_iokit = None, env_simulation = None\<rparr>"

definition demo_usb4 :: "USB4ControllerContext \<Rightarrow> USB4ControllerContext heap" where
  "demo_usb4 ctx = \<lparr>hp_mem = [0 \<mapsto> ctx], hp_next = 1, hp_oom = (\<lambda>_. False)\<rparr>"

definition demo_world :: world where
  "demo_world = \<lparr>w_state = state_zero, w_usb4 = usb4_heaps0,
     w_nv = \<lparr>h_pcie = \<lparr>h_devices = heap_empty (\<lambda>_. False), h_maps = heap_empty (\<lambda>_. False),
                       h_platform = heap_empty (\<lambda>_. False), h_usb4 = demo_usb4 usb4_ctx_zero\<rparr>,
             h_channels = heap_empty (\<lambda>_. False), h_allocs = heap_empty (\<lambda>_. False),
             h_stores = heap_empty (\<lambda>_. False), next_gpu_addr = 0x200000000\<rparr>,
     w_gpus = heap_empty (\<lambda>_. False), w_streams = heap_empty (\<lambda>_. False), w_events = heap_empty (\<lambda>_. False),
     w_host = \<lparr>hm_live = Map.empty, hm_count = 0, hm_pick = (\<lambda>n. Some (of_nat (n + 1) * 4096))\<rparr>\<rparr>"

definition demo_router :: USB4ControllerContext where
  "demo_router = usb4_ctx_zero\<lparr>host_router := router_zero\<lparr>rt_is_connected := True, rt_adapter_count := 4\<rparr>\<rparr>"

definition demo_hot :: "u8 \<Rightarrow> world" where
  "demo_hot t = demo_world\<lparr>
     w_state := \<lparr>gs_initialized = True, gs_pcie_ctx = pcie_ctx_zero\<lparr>usb4_ctx := Some 0, next_tag := t\<rparr>,
       gs_gpu_contexts = [Some 0], gs_current_device = 0, gs_last_error = cudaSuccess, gs_host_allocs = [],
       gs_simulation_mode = True\<rparr>,
     w_nv := (w_nv demo_world)\<lparr>h_pcie := (w_pcie demo_world)\<lparr>h_usb4 := demo_usb4 demo_router\<rparr>\<rparr>,
     w_gpus := \<lparr>hp_mem = [0 \<mapsto> virtual_gpu], hp_next = 1, hp_oom = (\<lambda>_. False)\<rparr>\<rparr>"

lemma demo_start: "cuda_start demo_world"
  by (simp add: cuda_start_def demo_world_def heap_empty_def usb4_heap_none_def usb4_heaps0_def pcie_heap_none_def
      nv_heap_none_def get_usb4_ctx_def heap_get_def demo_usb4_def g_usb4_def)

lemma demo_usb4_put: "heap_put (demo_usb4 c) 0 d = Some (demo_usb4 d)" "heap_get (demo_usb4 c) 0 = Some c"
  by (simp_all add: demo_usb4_def heap_put_def heap_get_def)

lemma demo_init: "\<exists>t. cudaBridgeInit demo_env demo_world = Some (cudaSuccess, demo_hot t)"
proof -
  let ?p = "pcie_ctx_zero\<lparr>usb4_ctx := Some 0\<rparr>" and ?h = "(w_pcie demo_world)\<lparr>h_usb4 := demo_usb4 demo_router\<rparr>"
  let ?q = "pcie_ctx_zero\<lparr>usb4_ctx := Some 0, next_tag := 0, dma_enabled := False\<rparr>"
  have q: "?q = ?p" by (simp add: pcie_ctx_zero_def)
  have "get_usb4 ?p ?h = Some (Some demo_router)" "active_tunnels demo_router = []"
    by (simp_all add: get_usb4_def demo_usb4_put demo_router_def usb4_ctx_zero_def)
  from scan_devices_idle [OF this, of "[0..<PCIE_MAX_DEVICE]" 0] obtain t where
    s: "pcie_scan_bus ?p ?h = Some (0, ?p\<lparr>next_tag := t\<rparr>, ?h)" by (auto simp: pcie_scan_bus_def)
  have u: "usb4_controller_init None usb4_heaps0 = Some (USB4_SUCCESS, demo_router, usb4_heaps0)"
    by (simp add: usb4_controller_init_def usb4_init_host_router_def usb4_enumerate_adapters_def demo_router_def usb4_ctx_zero_def
        router_zero_def)
  have r: "demo_router\<lparr>connected_routers := []\<rparr> = demo_router" "connected_routers demo_router = []"
    by (simp_all add: demo_router_def usb4_ctx_zero_def)
  have d: "devices pcie_ctx_zero = []" by (simp add: pcie_ctx_zero_def)
  let ?w1 = "set_pcie ?h demo_world"
  have w1: "put_usb4 demo_router usb4_heaps0 demo_world = Some ?w1" "put_usb4 demo_router usb4_heaps0 ?w1 = Some ?w1"
    by (simp_all add: put_usb4_def demo_world_def set_pcie_def g_usb4_def demo_usb4_put)
  have sel: "w_usb4 demo_world = usb4_heaps0" "w_usb4 ?w1 = usb4_heaps0" "gs_initialized (w_state demo_world) = False"
    "env_iokit demo_env = None" "env_simulation demo_env = None"
    by (simp_all add: demo_world_def set_pcie_def state_zero_def demo_env_def)
  have pi: "pcie_tunnel_init (Some g_usb4) c = (PCIE_SUCCESS, ?p)" for c
    by (simp add: pcie_tunnel_init_def q g_usb4_def)
  let ?w2 = "set_state (gs_pcie_ctx_update (\<lambda>_. ?p)) ?w1"
  have p2: "w_pcie ?w2 = ?h" by (simp add: world_simps)
  let ?w3 = "set_pcie ?h (set_state (\<lambda>s. s\<lparr>gs_pcie_ctx := ?p\<lparr>next_tag := t\<rparr>, gs_gpu_contexts := []\<rparr>) ?w2)"
  have fin: "init_finish demo_env ?w3 = Some (cudaSuccess, demo_hot t)"
    by (simp add: init_finish_def sel use_simulation_fallback_def demo_world_def heap_alloc_def heap_empty_def
        init_done_def add_gpu_def demo_hot_def set_pcie_def set_state_def state_zero_def)
  have "usb4_scan_routers None demo_router usb4_heaps0 = (0, demo_router, usb4_heaps0)" by (simp add: usb4_scan_routers_def r)
  then have "cudaBridgeInit demo_env demo_world = Some (cudaSuccess, demo_hot t)"
    using u w1 s fin by (simp add: cudaBridgeInit_def sel pi r d p2)
  then show ?thesis by blast
qed

lemma demo_reach: "cudaBridgeInit demo_env demo_world = Some (cudaSuccess, demo_hot t) \<Longrightarrow> cuda_reach None [] (demo_hot t)"
  by (rule creach_call [OF creach_start [OF demo_start], where call = "Init demo_env" and e = cudaSuccess])
    (simp_all add: demo_env_def init_oom_def)

section \<open>The properties\<close>

lemma reachE:
  assumes "cuda_reach io H w"
  obtains S where "H = map fst S" and "cuda_inv io S w"
  using creach_inv [OF assms] by (auto simp: inv_handles_def)

lemma shutdown_reach:
  assumes "cuda_reach io H w"
  shows "\<exists>w'. cudaBridgeShutdown w = Some (cudaSuccess, w') \<and> cold w' \<and> cuda_reach io [] w' \<and>
    w_streams w' = w_streams w \<and> w_events w' = w_events w \<and> w_host w' = w_host w \<and> hp_oom (w_gpus w') = hp_oom (w_gpus w)"
proof -
  from assms obtain S where I: "cuda_inv io S w" by (rule reachE)
  from shutdown_total_inv [OF I] obtain w' where w: "cudaBridgeShutdown w = Some (cudaSuccess, w')" "cold w'"
    "w_streams w' = w_streams w" "w_events w' = w_events w" "w_host w' = w_host w" "hp_oom (w_gpus w') = hp_oom (w_gpus w)" by blast
  have "cuda_reach io [] w'"
    by (rule creach_call [OF assms, where call = Shutdown]) (simp_all add: w(1) init_oom_def)
  with w show ?thesis by simp
qed

lemma init_fallback:
  assumes "cuda_reach None H w" and "\<not> gs_initialized (w_state w)" and "hp_oom (w_gpus w) = (\<lambda>_. False)"
  shows "\<exists>w'. cudaBridgeInit demo_env w = Some (cudaSuccess, w')"
proof -
  from assms(1) obtain S where I: "cuda_inv None S w" by (rule reachE)
  from init_total_inv [OF I, of demo_env] obtain err w' where c: "cudaBridgeInit demo_env w = Some (err, w')"
    by (auto simp: demo_env_def)
  have "err = cudaSuccess" using init_reasons [OF c assms(2)] assms(3)
    by (auto simp: demo_env_def use_simulation_fallback_def usb4_controller_init_def usb4_init_host_router_def
        usb4_enumerate_adapters_def)
  with c show ?thesis by simp
qed

text \<open>
  C1. Shutdown from any reachable state of the runtime returns \<open>cudaSuccess\<close> and frees, exactly once,
  every object on the heaps of the four layers: GPU contexts, channels, allocations with their stores, PCIe devices
  and BAR mappings, USB4 routers, adapters and tunnels. (The IOKit references to the devices are kept, see C31.) What belongs to the client (streams, events,
  host buffers) stays allocated.
\<close>

theorem cuda_shutdown_frees:
  assumes "cuda_reach io H w"
  shows "\<exists>w'. cudaBridgeShutdown w = Some (cudaSuccess, w') \<and> \<not> gs_initialized (w_state w') \<and>
    hp_mem (w_gpus w') = Map.empty \<and> nv_heap_none (w_nv w') \<and> pcie_heap_none (w_pcie w') \<and> usb4_heap_none (w_usb4 w') \<and>
    w_streams w' = w_streams w \<and> w_events w' = w_events w \<and> w_host w' = w_host w \<and> cuda_reach io [] w'"
  using shutdown_reach [OF assms] by (auto simp: cold_def)

theorem cuda_shutdown_frees_witness:
  "\<exists>t w'. cudaBridgeShutdown (demo_hot t) = Some (cudaSuccess, w') \<and> hp_mem (w_gpus w') = Map.empty \<and>
     hp_mem (w_gpus (demo_hot t)) \<noteq> Map.empty"
proof -
  obtain t where i: "cudaBridgeInit demo_env demo_world = Some (cudaSuccess, demo_hot t)" using demo_init by blast
  have "hp_mem (w_gpus (demo_hot t)) \<noteq> Map.empty" by (simp add: demo_hot_def)
  with cuda_shutdown_frees [OF demo_reach [OF i]] show ?thesis by blast
qed

text \<open>
  C2. Every call of a correct client in a reachable state is defined (no access to freed or unmapped
  memory, no double free), and in an initialised state there is exactly one GPU, whose context is live.
\<close>

theorem cuda_calls_defined:
  assumes "cuda_reach io H w" and "call_ok io H w call"
  shows "(\<exists>e H' w'. run_call call H w = Some (e, H', w') \<and> (\<not> init_oom call e \<longrightarrow> cuda_reach io H' w')) \<and>
    (gs_initialized (w_state w) \<longrightarrow> (\<exists>gp. gs_gpu_contexts (w_state w) = [Some gp] \<and> dom (hp_mem (w_gpus w)) = {gp} \<and>
       get_current_gpu w = Some gp))"
proof
  from call_total [OF creach_inv [OF assms(1)] assms(2)] creach_call [OF assms]
  show "\<exists>e H' w'. run_call call H w = Some (e, H', w') \<and> (\<not> init_oom call e \<longrightarrow> cuda_reach io H' w')" by blast
next
  from assms(1) obtain S where I: "cuda_inv io S w" by (rule reachE)
  show "gs_initialized (w_state w) \<longrightarrow> (\<exists>gp. gs_gpu_contexts (w_state w) = [Some gp] \<and> dom (hp_mem (w_gpus w)) = {gp} \<and>
       get_current_gpu w = Some gp)"
  proof
    assume i: "gs_initialized (w_state w)"
    obtain gp ctx xs cs where "gpu_up w gp ctx xs cs" "get_current_gpu w = Some gp" by (rule hotE [OF I i])
    then show "\<exists>gp. gs_gpu_contexts (w_state w) = [Some gp] \<and> dom (hp_mem (w_gpus w)) = {gp} \<and> get_current_gpu w = Some gp"
      by (auto simp: gpu_up_def)
  qed
qed

theorem cuda_calls_defined_witness:
  "\<exists>t e H' w'. run_call (StreamCreate True 0) [] (demo_hot t) = Some (e, H', w') \<and> cuda_reach None H' w'"
proof -
  obtain t where i: "cudaBridgeInit demo_env demo_world = Some (cudaSuccess, demo_hot t)" using demo_init by blast
  have "call_ok None [] (demo_hot t) (StreamCreate True 0)" by (simp add: demo_hot_def demo_world_def addr_room_def)
  from conjunct1 [OF cuda_calls_defined [OF demo_reach [OF i] this]] show ?thesis unfolding init_oom_def by blast
qed

text \<open>
  C4. Initialisation always returns. It succeeds exactly when the runtime is initialised afterwards; a
  failure has one of three reasons: no USB4 controller, no GPU with the simulation switched off, or no
  memory for the virtual GPU. Unless it is the third, nothing leaks.
\<close>

theorem cuda_init_outcome:
  assumes "cuda_reach io H w" and "env_iokit env = io"
  shows "\<exists>err w'. cudaBridgeInit env w = Some (err, w') \<and> (err = cudaSuccess \<longleftrightarrow> gs_initialized (w_state w')) \<and>
    (err \<noteq> cudaErrorMemoryAllocation \<longrightarrow> cuda_reach io H w') \<and>
    (err = cudaSuccess \<or>
     err = cudaErrorInitializationError \<and>
       (\<exists>ret ctx hu. usb4_controller_init io (w_usb4 w) = Some (ret, ctx, hu) \<and> ret \<noteq> USB4_SUCCESS) \<or>
     err = cudaErrorNoDevice \<and> env_simulation env \<in> {Some ''0'', Some ''off'', Some ''false''} \<or>
     err = cudaErrorMemoryAllocation \<and> (\<exists>n. hp_oom (w_gpus w) n))"
proof -
  from assms(1) obtain S where I: "cuda_inv io S w" by (rule reachE)
  from init_total_inv [OF I assms(2)] obtain err w' where
    r: "cudaBridgeInit env w = Some (err, w')" "err = cudaSuccess \<longleftrightarrow> gs_initialized (w_state w')" by blast
  have "err \<noteq> cudaErrorMemoryAllocation \<longrightarrow> cuda_reach io H w'"
    using creach_call [OF assms(1), of "Init env"] assms(2) r(1) by (auto simp: init_oom_def)
  moreover have "env_simulation env \<in> {Some ''0'', Some ''off'', Some ''false''}"
    if "\<not> use_simulation_fallback (env_simulation env)"
    using that by (auto simp: use_simulation_fallback_def split: option.splits if_splits)
  moreover have "err = cudaSuccess" if "gs_initialized (w_state w)" using that r(1) by (simp add: cudaBridgeInit_def)
  ultimately show ?thesis using r init_reasons [OF r(1)] assms(2) by blast
qed

theorem cuda_init_outcome_witness:
  "\<exists>w'. cudaBridgeInit demo_env demo_world = Some (cudaSuccess, w') \<and> gs_initialized (w_state w')"
proof -
  have "env_iokit demo_env = None" by (simp add: demo_env_def)
  from cuda_init_outcome [OF creach_start [OF demo_start] this] demo_init show ?thesis by auto
qed

text \<open>
  C3. What is copied into a block \<open>cudaMalloc\<close> has just returned is what \<open>cudaMemcpy\<close> then copies back, in
  every reachable state and for every length up to the requested one.
\<close>

theorem cuda_memcpy_roundtrip:
  assumes "cuda_reach io H w" and "addr_room (w_nv w) sz" and "cudaMalloc True sz w = Some (cudaSuccess, Some a, w1)"
    and "0 < unat n" and "unat n \<le> unat sz" and "length bytes = unat n" and "unat n \<le> hp_room dst"
    and "a \<noteq> 0" and "hp_addr src \<noteq> 0" and "hp_addr dst \<noteq> 0" and "hp_bytes src = bytes"
  shows "\<exists>w2 w3. cudaMemcpy (device_ptr a) src n cudaMemcpyHostToDevice w1 = Some (cudaSuccess, None, w2) \<and>
    cudaMemcpy dst (device_ptr a) n cudaMemcpyDeviceToHost w2 = Some (cudaSuccess, Some bytes, w3)"
proof -
  from assms(1) obtain S where "cuda_inv io S w" by (rule reachE)
  from malloc_copy_roundtrip [OF this assms(2-)] show ?thesis .
qed

lemma demo_malloc:
  "\<exists>w1. cudaMalloc True 100 (demo_hot t) = Some (cudaSuccess, Some 0x200000000, w1)"
  by (simp add: cudaMalloc_def demo_hot_def demo_world_def get_current_gpu_def heap_get_def nv_gpu_alloc_memory_def
      alloc_zero_def virtual_gpu_def gpu_ctx_zero_def page_round_def heap_alloc_def heap_empty_def heap_put_def Let_def)

theorem cuda_memcpy_roundtrip_witness:
  "\<exists>t w1 w2 w3. cudaMalloc True 100 (demo_hot t) = Some (cudaSuccess, Some 0x200000000, w1) \<and>
     cudaMemcpy (device_ptr 0x200000000) \<lparr>hp_addr = 16, hp_bytes = [1, 2, 3], hp_room = 3\<rparr> 3 cudaMemcpyHostToDevice w1
       = Some (cudaSuccess, None, w2) \<and>
     cudaMemcpy \<lparr>hp_addr = 32, hp_bytes = [0, 0, 0], hp_room = 3\<rparr> (device_ptr 0x200000000) 3 cudaMemcpyDeviceToHost w2
       = Some (cudaSuccess, Some [1, 2, 3], w3)"
proof -
  obtain t where i: "cudaBridgeInit demo_env demo_world = Some (cudaSuccess, demo_hot t)" using demo_init by blast
  obtain w1 where m: "cudaMalloc True 100 (demo_hot t) = Some (cudaSuccess, Some 0x200000000, w1)" using demo_malloc by blast
  have "addr_room (w_nv (demo_hot t)) 100" by (simp add: demo_hot_def demo_world_def addr_room_def)
  from cuda_memcpy_roundtrip [OF demo_reach [OF i] this m, of 3 "[1, 2, 3]" "\<lparr>hp_addr = 32, hp_bytes = [0, 0, 0], hp_room = 3\<rparr>"
      "\<lparr>hp_addr = 16, hp_bytes = [1, 2, 3], hp_room = 3\<rparr>"] m
  show ?thesis by auto
qed

text \<open>
  Freeing does not give video memory back: after \<open>cudaMalloc\<close> and \<open>cudaFree\<close> of the same block the
  allocation table is as before, but \<open>cudaMemGetInfo\<close> reports the rounded size less than before.
\<close>

theorem cuda_free_keeps_vram:
  assumes "cuda_reach io H w" and "addr_room (w_nv w) sz" and "cudaMalloc True sz w = Some (cudaSuccess, Some a, w1)"
    and "a \<noteq> 0" and "a \<notin> ha_ptr ` set (gs_host_allocs (w_state w))"
  shows "\<exists>f t w2 ctx ctx2 gp. cudaMemGetInfo True True w = Some (cudaSuccess, Some (f, t), w) \<and>
    cudaFree a w1 = Some (cudaSuccess, w2) \<and>
    cudaMemGetInfo True True w2 = Some (cudaSuccess, Some (f - page_round sz, t), w2) \<and>
    get_current_gpu w = Some gp \<and> get_current_gpu w2 = Some gp \<and>
    heap_get (w_gpus w) gp = Some ctx \<and> heap_get (w_gpus w2) gp = Some ctx2 \<and>
    gpu_allocations ctx2 = gpu_allocations ctx"
proof -
  from assms(1) obtain S where "cuda_inv io S w" by (rule reachE)
  from malloc_free_vram [OF this assms(2-)] show ?thesis .
qed

theorem cuda_free_keeps_vram_witness:
  "\<exists>t w1 w2 f tot. cudaMalloc True 100 (demo_hot t) = Some (cudaSuccess, Some 0x200000000, w1) \<and>
     cudaMemGetInfo True True (demo_hot t) = Some (cudaSuccess, Some (f, tot), demo_hot t) \<and>
     cudaFree 0x200000000 w1 = Some (cudaSuccess, w2) \<and>
     cudaMemGetInfo True True w2 = Some (cudaSuccess, Some (f - 4096, tot), w2)"
proof -
  obtain t where i: "cudaBridgeInit demo_env demo_world = Some (cudaSuccess, demo_hot t)" using demo_init by blast
  obtain w1 where m: "cudaMalloc True 100 (demo_hot t) = Some (cudaSuccess, Some 0x200000000, w1)" using demo_malloc by blast
  have "addr_room (w_nv (demo_hot t)) 100" "gs_host_allocs (w_state (demo_hot t)) = []"
    by (simp_all add: demo_hot_def demo_world_def addr_room_def)
  from cuda_free_keeps_vram [OF demo_reach [OF i] this(1) m] this(2) obtain f tot w2 where
    "cudaMemGetInfo True True (demo_hot t) = Some (cudaSuccess, Some (f, tot), demo_hot t)"
    "cudaFree 0x200000000 w1 = Some (cudaSuccess, w2)"
    "cudaMemGetInfo True True w2 = Some (cudaSuccess, Some (f - page_round 100, tot), w2)" by auto
  moreover have "page_round 100 = 4096" by (simp add: page_round_def)
  ultimately show ?thesis using m by metis
qed

text \<open>
  \<open>cudaFreeHost\<close> always reports success, and releases the buffer exactly when the runtime tracks it.
  \<open>cudaMallocHost\<close> tracks a buffer exactly while fewer than 1024 are tracked, and shutdown of an
  initialised runtime forgets them all without releasing any: later buffers, and all buffers after a
  shutdown, leak.
\<close>

theorem cuda_free_host_leaks:
  assumes "cuda_reach io H w" and "host_fresh (w_host w)"
  shows "(\<exists>w'. cudaFreeHost p w = Some (cudaSuccess, w') \<and>
      hm_live (w_host w') = (if p \<noteq> 0 \<and> p \<in> ha_ptr ` set (gs_host_allocs (w_state w)) then (hm_live (w_host w))(p := None)
        else hm_live (w_host w))) \<and>
    (\<forall>sz q w'. cudaMallocHost True sz w = (cudaSuccess, Some q, w') \<longrightarrow> q \<in> dom (hm_live (w_host w')) \<and>
      (q \<in> ha_ptr ` set (gs_host_allocs (w_state w')) \<longleftrightarrow> length (gs_host_allocs (w_state w)) < 1024)) \<and>
    (\<forall>e w'. gs_initialized (w_state w) \<longrightarrow> cudaBridgeShutdown w = Some (e, w') \<longrightarrow>
      gs_host_allocs (w_state w') = [] \<and> hm_live (w_host w') = hm_live (w_host w))"
proof -
  from assms(1) obtain S where I: "cuda_inv io S w" by (rule reachE)
  have ok: "host_ok w" using I by (simp add: cuda_inv_def heaps_ok_def)
  have "\<exists>w'. cudaFreeHost p w = Some (cudaSuccess, w') \<and>
      hm_live (w_host w') = (if p \<noteq> 0 \<and> p \<in> ha_ptr ` set (gs_host_allocs (w_state w)) then (hm_live (w_host w))(p := None)
        else hm_live (w_host w))"
    using tracked_free [OF I, of p] by (auto simp: cudaFreeHost_def)
  moreover have "q \<in> dom (hm_live (w_host w')) \<and>
      (q \<in> ha_ptr ` set (gs_host_allocs (w_state w')) \<longleftrightarrow> length (gs_host_allocs (w_state w)) < 1024)"
    if c: "cudaMallocHost True sz w = (cudaSuccess, Some q, w')" for sz q w'
  proof -
    obtain r hm where a: "host_alloc (w_host w) sz = (r, hm)" by fastforce
    note h = host_alloc_cases [OF a]
    from c a have r: "r = q" "q \<noteq> 0" and w': "w' = track_host_alloc q False (w\<lparr>w_host := hm\<rparr>)"
      by (auto simp: cudaMallocHost_def fail_out_def Let_def split: if_splits)
    have pk: "hm_pick (w_host w) (hm_count (w_host w)) = Some q" using h(2,3) r by auto
    then have "q \<notin> dom (hm_live (w_host w))" using assms(2) by (simp add: host_fresh_def)
    then have "q \<notin> ha_ptr ` set (gs_host_allocs (w_state w))" using ok by (auto simp: host_ok_def)
    with w' h(1) pk show ?thesis by (auto simp: track_host_alloc_def MAX_HOST_ALLOCS_def world_simps r)
  qed
  moreover have "gs_host_allocs (w_state w') = [] \<and> hm_live (w_host w') = hm_live (w_host w)"
    if "gs_initialized (w_state w)" "cudaBridgeShutdown w = Some (e, w')" for e w'
    using shutdown_hot [OF I that(1)] that(2) by (auto simp: state_zero_def)
  ultimately show ?thesis by blast
qed

theorem cuda_free_host_leaks_witness:
  "\<exists>t w1 w2 w3. cudaMallocHost True 64 (demo_hot t) = (cudaSuccess, Some 4096, w1) \<and>
     cudaBridgeShutdown w1 = Some (cudaSuccess, w2) \<and> cudaFreeHost 4096 w2 = Some (cudaSuccess, w3) \<and>
     4096 \<in> dom (hm_live (w_host w3))"
proof -
  obtain t where i: "cudaBridgeInit demo_env demo_world = Some (cudaSuccess, demo_hot t)" using demo_init by blast
  have f: "host_fresh (w_host (demo_hot t))" by (simp add: demo_hot_def demo_world_def host_fresh_def)
  obtain w1 where m: "cudaMallocHost True 64 (demo_hot t) = (cudaSuccess, Some 4096, w1)"
    by (simp add: cudaMallocHost_def demo_hot_def demo_world_def host_alloc_def Let_def)
  have r1: "cuda_reach None [] w1"
    by (rule creach_call [OF demo_reach [OF i], where call = "MallocHost True 64"]) (simp_all add: f m init_oom_def)
  have i1: "gs_initialized (w_state w1)" and f1: "host_fresh (w_host w1)"
    using m by (auto simp: cudaMallocHost_def demo_hot_def demo_world_def host_alloc_def Let_def track_host_alloc_def
        world_simps MAX_HOST_ALLOCS_def host_fresh_def)
  have l1: "4096 \<in> dom (hm_live (w_host w1))" using cuda_free_host_leaks [OF demo_reach [OF i] f] m by blast
  from shutdown_reach [OF r1] obtain w2 where 2: "cudaBridgeShutdown w1 = Some (cudaSuccess, w2)" "cuda_reach None [] w2"
    "w_host w2 = w_host w1" by blast
  have e2: "gs_host_allocs (w_state w2) = []" "hm_live (w_host w2) = hm_live (w_host w1)"
    using cuda_free_host_leaks [OF r1 f1] i1 2(1) by blast+
  have "host_fresh (w_host w2)" using f1 2(3) by simp
  from cuda_free_host_leaks [OF 2(2) this, of 4096] e2 obtain w3 where
    3: "cudaFreeHost 4096 w2 = Some (cudaSuccess, w3)" "hm_live (w_host w3) = hm_live (w_host w1)" by auto
  have "4096 \<in> dom (hm_live (w_host w3))" using l1 3(2) by simp
  with m 2(1) 3(1) show ?thesis by blast
qed

text \<open>
  C38. A stream that outlives a shutdown is dangling: after a new initialisation, destroying it or
  waiting for it reads a freed channel, which is undefined.
\<close>

theorem cuda_stale_stream_undefined:
  assumes "cuda_reach io H w" and "sp \<in> set H" and "cudaBridgeShutdown w = Some (e, w1)"
    and "env_iokit env = io" and "cudaBridgeInit env w1 = Some (cudaSuccess, w2)"
  shows "cudaStreamDestroy (Some sp) w2 = None \<and> cudaStreamSynchronize (Some sp) w2 = None"
proof -
  from assms(1) obtain S where H: "H = map fst S" and I: "cuda_inv io S w" by (rule reachE)
  from assms(2) H obtain c where x: "(sp, c) \<in> set S" by auto
  obtain gp ctx xs cs where S: "streams_ok S cs w" by (rule hotE [OF I stream_handle_hot [OF I x]])
  obtain s where s: "heap_get (w_streams w) sp = Some s" "cs_device s = 0" "cs_channel s = Some c"
    by (rule streamE [OF S x])
  from shutdown_total_inv [OF I] assms(3) have 1: "cold w1" "cuda_inv io [] w1" "w_streams w1 = w_streams w" by auto
  from init_total_inv [OF 1(2) assms(4)] assms(5) have 2: "same_client w1 w2" "cuda_inv io [] w2" "gs_initialized (w_state w2)"
    by auto
  have i1: "\<not> gs_initialized (w_state w1)" using 1(1) by (simp add: cold_def)
  have "h_channels (w_nv w2) = h_channels (w_nv w1)" using init_reasons [OF assms(5) i1] by auto
  then have nc: "hp_mem (h_channels (w_nv w2)) = Map.empty" using 1(1) by (simp add: cold_def nv_heap_none_def)
  obtain gq cty ys ds where g: "gpu_up w2 gq cty ys ds" and hg: "heap_get (w_gpus w2) gq = Some cty"
    by (rule hotE [OF 2(2,3)])
  have "heap_get (w_streams w2) sp = Some s" using s(1) 1(3) 2(1) by (simp add: same_client_def)
  with s(2,3) nc device0 [OF g] hg show ?thesis
    by (simp add: cudaStreamDestroy_def cudaStreamSynchronize_def nv_gpu_destroy_channel_def heap_get_def)
qed

lemma demo_stream: "\<exists>w1. run_call (StreamCreate True 0) [] (demo_hot t) = Some (cudaSuccess, [0], w1)"
  by (simp add: cudaStreamCreateWithFlags_def demo_hot_def demo_world_def get_current_gpu_def heap_get_def nv_gpu_create_channel_def
      nv_gpu_alloc_memory_def alloc_zero_def channel_zero_def virtual_gpu_def gpu_ctx_zero_def page_round_def heap_alloc_def
      heap_empty_def heap_put_def Let_def)

theorem cuda_stale_stream_undefined_witness:
  "\<exists>t w1 w2 w3. run_call (StreamCreate True 0) [] (demo_hot t) = Some (cudaSuccess, [0], w1) \<and>
     cudaBridgeShutdown w1 = Some (cudaSuccess, w2) \<and> cudaBridgeInit demo_env w2 = Some (cudaSuccess, w3) \<and>
     cudaStreamDestroy (Some 0) w3 = None"
proof -
  obtain t where i: "cudaBridgeInit demo_env demo_world = Some (cudaSuccess, demo_hot t)" using demo_init by blast
  obtain w1 where m: "run_call (StreamCreate True 0) [] (demo_hot t) = Some (cudaSuccess, [0], w1)" using demo_stream by blast
  have r1: "cuda_reach None [0] w1"
    by (rule creach_call [OF demo_reach [OF i] _ m]) (simp_all add: demo_hot_def demo_world_def addr_room_def init_oom_def)
  have o1: "hp_oom (w_gpus w1) = (\<lambda>_. False)"
    using m by (auto simp: cudaStreamCreateWithFlags_def demo_hot_def demo_world_def get_current_gpu_def heap_get_def
      nv_gpu_create_channel_def nv_gpu_alloc_memory_def alloc_zero_def channel_zero_def virtual_gpu_def gpu_ctx_zero_def
      page_round_def heap_alloc_def heap_empty_def heap_put_def Let_def)
  from shutdown_reach [OF r1] obtain w2 where 2: "cudaBridgeShutdown w1 = Some (cudaSuccess, w2)" "cuda_reach None [] w2"
    "\<not> gs_initialized (w_state w2)" "hp_oom (w_gpus w2) = (\<lambda>_. False)" using o1 by (auto simp: cold_def)
  from init_fallback [OF 2(2-4)] obtain w3 where 3: "cudaBridgeInit demo_env w2 = Some (cudaSuccess, w3)" by blast
  have "env_iokit demo_env = None" by (simp add: demo_env_def)
  from cuda_stale_stream_undefined [OF r1 _ 2(1) this 3, of 0] m 2(1) 3 show ?thesis by auto
qed

text \<open>
  C39. The last error after any sequence of calls of the runtime is the last code stored in it, or what it was
  before if none was: initialisation stores its code, success included, shutdown and \<open>cudaGetLastError\<close> clear it,
  \<open>cudaPeekAtLastError\<close> only reads it, a call that initialises on its own and succeeds leaves the code of the initialisation, and the other calls store their
  failures, so that after a sequence of those it is the code of the last failing call. \<open>cudaGetLastError\<close> returns
  it once and resets it.
\<close>

theorem cuda_last_error_latch:
  assumes "run_list exec_call calls (H, w) = Some (es, H', w')"
  shows "cudaPeekAtLastError w' = last (cudaPeekAtLastError w # stored_codes calls (H, w)) \<and>
    (list_all latching calls \<longrightarrow> stored_codes calls (H, w) = filter (\<lambda>e. e \<noteq> cudaSuccess) es) \<and>
    fst (cudaGetLastError w') = cudaPeekAtLastError w' \<and> fst (cudaGetLastError (snd (cudaGetLastError w'))) = cudaSuccess"
  using cuda.run_latches [OF assms] cuda.run_failures [OF assms]
  by (simp add: last_err_def stored_codes_def stores_def latching_def list_all_iff cudaGetLastError_def cudaPeekAtLastError_def world_simps)

theorem cuda_last_error_latch_witness:
  "\<exists>es s. run_list exec_call [Init demo_env, MallocHost True 0, GetDevice demo_env True, FreeHost 0, EventRecord None None 0 0] ([], demo_world)
       = Some (es, s) \<and> cudaPeekAtLastError (snd s) = cudaErrorInvalidValue"
proof -
  obtain t where i: "cudaBridgeInit demo_env demo_world = Some (cudaSuccess, demo_hot t)" using demo_init by blast
  let ?cs = "[Init demo_env, MallocHost True 0, GetDevice demo_env True, FreeHost 0, EventRecord None None 0 0]"
  obtain w' where r: "run_list exec_call ?cs ([], demo_world) =
      Some ([cudaSuccess, cudaErrorInvalidValue, cudaSuccess, cudaSuccess, cudaErrorInvalidValue], [], w')"
    using i by (simp add: exec_call_def cudaMallocHost_def cudaFreeHost_def cudaEventRecord_def cudaGetDevice_def auto_init_def
        fail_def fail_out_def world_simps demo_hot_def)
  have g: "gs_initialized (w_state (demo_hot t))" by (simp add: demo_hot_def)
  have "stored_codes ?cs ([], demo_world) = [cudaSuccess, cudaErrorInvalidValue, cudaErrorInvalidValue]"
    using i g by (simp add: stored_codes_def stores_def exec_call_def cudaMallocHost_def cudaFreeHost_def cudaEventRecord_def
        cudaGetDevice_def auto_init_def auto_code_def failure_def fail_def fail_out_def world_simps demo_world_def state_zero_def)
  with cuda_last_error_latch [OF r] have "cudaPeekAtLastError w' = cudaErrorInvalidValue" by simp
  with r show ?thesis by auto
qed

end
