(* ===== verification/Egpu.thy ===== *)
theory Egpu
  imports Complex_Main Bridge_Prelude
begin

text \<open>
  The eGPU safety manager of \<open>src/egpu/egpu_safety.c\<close>: the connection state machine, its recovery, the
  monitoring thread, and the CRC-32 of transferred data.

  The global \<open>g_egpu\<close> is a record that also holds the mutex as a state of its own, the calls of the event
  callback in order, and the monitoring threads that have not ended; \<^const>\<open>None\<close> is undefined behaviour
  or a deadlock (locking a mutex that is held, or that is not initialised). The five hardware functions
  the file simulates are arguments, collected in the record \<open>egpu_hw\<close> (\<open>simulated\<close> is what the file
  does), so that the error paths are covered too; calls are numbered by \<open>eg_tick\<close>, which also is the clock. Error rates are
  rational numbers. The log calls and the pauses are left out, but a pause is undefined when its
  microseconds overflow an \<open>int\<close>. The body of the callback is the client's: it does not call the
  manager.
\<close>

unbundle bit_operations_syntax

section \<open>Data\<close>

datatype EGPUConnectionState =
    EGPU_STATE_DISCONNECTED | EGPU_STATE_DETECTING | EGPU_STATE_AUTHENTICATING | EGPU_STATE_TUNNEL_SETUP
  | EGPU_STATE_INITIALIZING | EGPU_STATE_CONNECTED | EGPU_STATE_DEGRADED | EGPU_STATE_ERROR
  | EGPU_STATE_RECOVERING | EGPU_STATE_SAFE_DISCONNECT | EGPU_STATE_FORCE_DISCONNECT

datatype EGPUError =
    EGPU_ERR_NONE | EGPU_ERR_DEVICE_NOT_FOUND | EGPU_ERR_INCOMPATIBLE_DEVICE | EGPU_ERR_AUTH_FAILED
  | EGPU_ERR_TUNNEL_FAILED | EGPU_ERR_BANDWIDTH_LOW | EGPU_ERR_POWER_INSUFFICIENT | EGPU_ERR_LINK_UNSTABLE
  | EGPU_ERR_TIMEOUT | EGPU_ERR_GPU_INIT_FAILED | EGPU_ERR_DATA_CORRUPTION | EGPU_ERR_UNEXPECTED_DISCONNECT
  | EGPU_ERR_THERMAL_SHUTDOWN | EGPU_ERR_DRIVER_MISMATCH | EGPU_ERR_RECOVERY_FAILED

datatype EGPUConnectionType =
    EGPU_CONN_USB4 | EGPU_CONN_THUNDERBOLT3 | EGPU_CONN_THUNDERBOLT4 | EGPU_CONN_UNKNOWN

record EGPUHealthMetrics =
  hm_link_error_rate :: rat
  hm_bandwidth_util :: rat
  hm_temperature :: int
  hm_power_draw :: int
  hm_packets_sent :: u64
  hm_packets_received :: u64
  hm_errors_corrected :: u64
  hm_errors_uncorrected :: u64
  hm_retransmissions :: u32
  hm_last_heartbeat :: nat

record EGPUSafetyPolicy =
  sp_max_retry_count :: int
  sp_retry_delay_ms :: int
  sp_heartbeat_interval_ms :: int
  sp_heartbeat_timeout_ms :: int
  sp_error_rate_threshold :: rat
  sp_thermal_limit :: int
  sp_enable_auto_recovery :: bool
  sp_enable_data_integrity :: bool
  sp_force_disconnect_on_incompatible :: bool
  sp_safe_disconnect_timeout_ms :: int

record EGPUDeviceInfo =
  ei_vendor_id :: u16
  ei_device_id :: u16
  ei_name :: string
  ei_serial :: string
  ei_conn_type :: EGPUConnectionType
  ei_max_bandwidth_mbps :: u32
  ei_power_budget_watts :: int
  ei_is_compatible :: bool
  ei_incompatible_reason :: string

text \<open>One call of the callback: state, error, message and user data.\<close>

type_synonym egpu_event = "EGPUConnectionState \<times> EGPUError \<times> string \<times> nat"

record egpu =
  eg_initialized :: bool
  eg_policy :: EGPUSafetyPolicy
  eg_state :: EGPUConnectionState
  eg_last_error :: EGPUError
  eg_device_info :: EGPUDeviceInfo
  eg_health :: EGPUHealthMetrics
  eg_callback :: "nat option"
  eg_lock :: lock_state
  eg_monitor_thread :: "nat option"
  eg_monitor_running :: bool
  eg_retry_count :: int
  eg_events :: "egpu_event list"
  eg_threads :: "nat list"
  eg_next_thread :: nat
  eg_tick :: nat

definition health_zero :: EGPUHealthMetrics where
  "health_zero = \<lparr>hm_link_error_rate = 0, hm_bandwidth_util = 0, hm_temperature = 0, hm_power_draw = 0,
     hm_packets_sent = 0, hm_packets_received = 0, hm_errors_corrected = 0, hm_errors_uncorrected = 0,
     hm_retransmissions = 0, hm_last_heartbeat = 0\<rparr>"

definition policy_zero :: EGPUSafetyPolicy where
  "policy_zero = \<lparr>sp_max_retry_count = 0, sp_retry_delay_ms = 0, sp_heartbeat_interval_ms = 0,
     sp_heartbeat_timeout_ms = 0, sp_error_rate_threshold = 0, sp_thermal_limit = 0,
     sp_enable_auto_recovery = False, sp_enable_data_integrity = False,
     sp_force_disconnect_on_incompatible = False, sp_safe_disconnect_timeout_ms = 0\<rparr>"

definition info_none :: EGPUDeviceInfo where
  "info_none = \<lparr>ei_vendor_id = 0, ei_device_id = 0, ei_name = [], ei_serial = [], ei_conn_type = EGPU_CONN_USB4,
     ei_max_bandwidth_mbps = 0, ei_power_budget_watts = 0, ei_is_compatible = False, ei_incompatible_reason = []\<rparr>"

definition egpu_zero :: egpu where
  "egpu_zero = \<lparr>eg_initialized = False, eg_policy = policy_zero, eg_state = EGPU_STATE_DISCONNECTED,
     eg_last_error = EGPU_ERR_NONE, eg_device_info = info_none, eg_health = health_zero, eg_callback = None,
     eg_lock = LockRaw, eg_monitor_thread = None, eg_monitor_running = False, eg_retry_count = 0,
     eg_events = [], eg_threads = [], eg_next_thread = 0, eg_tick = 0\<rparr>"

text \<open>The hardware functions; the number is the call. \<open>hw_thread\<close>: \<open>pthread_create\<close> succeeds.\<close>

record egpu_hw =
  hw_detect :: "nat \<Rightarrow> EGPUDeviceInfo \<Rightarrow> int \<times> EGPUDeviceInfo"
  hw_tunnel :: "nat \<Rightarrow> int"
  hw_gpu_init :: "nat \<Rightarrow> int"
  hw_reset_link :: "nat \<Rightarrow> EGPUError"
  hw_hard_reset :: "nat \<Rightarrow> EGPUError"
  hw_thread :: "nat \<Rightarrow> bool"

definition tick :: "egpu \<Rightarrow> egpu" where
  "tick s = s\<lparr>eg_tick := Suc (eg_tick s)\<rparr>"

section \<open>Mutex, pauses and events\<close>

definition lock_mutex :: "egpu \<Rightarrow> egpu option" where
  "lock_mutex s = (if eg_lock s = LockFree then Some (s\<lparr>eg_lock := LockHeld\<rparr>) else None)"

definition unlock_mutex :: "egpu \<Rightarrow> egpu option" where
  "unlock_mutex s = (if eg_lock s = LockHeld then Some (s\<lparr>eg_lock := LockFree\<rparr>) else None)"

text \<open>\<open>usleep((unsigned int)(n))\<close> of an \<open>int\<close> expression.\<close>

definition int_ok :: "int \<Rightarrow> bool" where
  "int_ok n \<longleftrightarrow> - (2 ^ 31) \<le> n \<and> n < 2 ^ 31"

definition pause :: "int \<Rightarrow> unit option" where
  "pause us = (if int_ok us then Some () else None)"

definition egpu_set_state :: "EGPUConnectionState \<Rightarrow> egpu \<Rightarrow> egpu" where
  "egpu_set_state st s = s\<lparr>eg_state := st\<rparr>"

definition egpu_set_error :: "EGPUError \<Rightarrow> egpu \<Rightarrow> egpu" where
  "egpu_set_error e s = s\<lparr>eg_last_error := e\<rparr>"

definition notify_event :: "string \<Rightarrow> egpu \<Rightarrow> egpu" where
  "notify_event message s =
     (case eg_callback s of
        None \<Rightarrow> s
      | Some d \<Rightarrow> s\<lparr>eg_events := eg_events s @ [(eg_state s, eg_last_error s, message, d)]\<rparr>)"

definition egpu_error_string :: "EGPUError \<Rightarrow> string" where
  "egpu_error_string error =
     (case error of
        EGPU_ERR_NONE \<Rightarrow> ''No error''
      | EGPU_ERR_DEVICE_NOT_FOUND \<Rightarrow> ''eGPU device not found''
      | EGPU_ERR_INCOMPATIBLE_DEVICE \<Rightarrow> ''Incompatible eGPU device''
      | EGPU_ERR_AUTH_FAILED \<Rightarrow> ''Thunderbolt authentication failed''
      | EGPU_ERR_TUNNEL_FAILED \<Rightarrow> ''PCIe tunnel creation failed''
      | EGPU_ERR_BANDWIDTH_LOW \<Rightarrow> ''Insufficient bandwidth''
      | EGPU_ERR_POWER_INSUFFICIENT \<Rightarrow> ''Insufficient power supply''
      | EGPU_ERR_LINK_UNSTABLE \<Rightarrow> ''Unstable link connection''
      | EGPU_ERR_TIMEOUT \<Rightarrow> ''Connection timeout''
      | EGPU_ERR_GPU_INIT_FAILED \<Rightarrow> ''GPU initialization failed''
      | EGPU_ERR_DATA_CORRUPTION \<Rightarrow> ''Data transfer corruption detected''
      | EGPU_ERR_UNEXPECTED_DISCONNECT \<Rightarrow> ''Unexpected disconnection''
      | EGPU_ERR_THERMAL_SHUTDOWN \<Rightarrow> ''Thermal limit exceeded''
      | EGPU_ERR_DRIVER_MISMATCH \<Rightarrow> ''Driver version mismatch''
      | EGPU_ERR_RECOVERY_FAILED \<Rightarrow> ''Recovery attempt failed'')"

section \<open>The simulated hardware\<close>

definition simulate_device_detect :: "EGPUDeviceInfo \<Rightarrow> int \<times> EGPUDeviceInfo" where
  "simulate_device_detect info =
     (0, info\<lparr>ei_vendor_id := 0x10DE, ei_device_id := 0x2684,
        ei_name := ''NVIDIA GeForce RTX 4090 (Simulated)'', ei_serial := ''SIM-0000-0000-0001'',
        ei_conn_type := EGPU_CONN_THUNDERBOLT4, ei_max_bandwidth_mbps := 32000,
        ei_power_budget_watts := 450, ei_is_compatible := True, ei_incompatible_reason := []\<rparr>)"

definition check_device_compatible :: "EGPUDeviceInfo \<Rightarrow> bool" where
  "check_device_compatible info =
     (if ei_vendor_id info \<noteq> 0x10DE then False
      else if ei_power_budget_watts info < 75 then False
      else True)"

definition setup_pcie_tunnel :: int where "setup_pcie_tunnel = 0"

text \<open>What \<open>initialize_gpu\<close> stores; its result is 0.\<close>

definition initialize_gpu :: "egpu \<Rightarrow> egpu" where
  "initialize_gpu s = s\<lparr>eg_health := health_zero\<lparr>hm_temperature := 35, hm_power_draw := 25,
     hm_last_heartbeat := eg_tick s\<rparr>\<rparr>"

definition egpu_reset_link :: EGPUError where "egpu_reset_link = EGPU_ERR_NONE"

definition egpu_hard_reset :: EGPUError where "egpu_hard_reset = EGPU_ERR_NONE"

definition simulated :: egpu_hw where
  "simulated = \<lparr>hw_detect = (\<lambda>_. simulate_device_detect), hw_tunnel = (\<lambda>_. setup_pcie_tunnel),
     hw_gpu_init = (\<lambda>_. 0), hw_reset_link = (\<lambda>_. egpu_reset_link), hw_hard_reset = (\<lambda>_. egpu_hard_reset),
     hw_thread = (\<lambda>_. True)\<rparr>"

section \<open>Initialisation and monitoring\<close>

definition egpu_safety_default_policy :: EGPUSafetyPolicy where
  "egpu_safety_default_policy = \<lparr>sp_max_retry_count = 3, sp_retry_delay_ms = 500,
     sp_heartbeat_interval_ms = 1000, sp_heartbeat_timeout_ms = 5000, sp_error_rate_threshold = 1 / 100,
     sp_thermal_limit = 90, sp_enable_auto_recovery = True, sp_enable_data_integrity = True,
     sp_force_disconnect_on_incompatible = True, sp_safe_disconnect_timeout_ms = 10000\<rparr>"

definition egpu_safety_init :: "EGPUSafetyPolicy option \<Rightarrow> egpu \<Rightarrow> int \<times> egpu" where
  "egpu_safety_init policy s =
     (if eg_initialized s then (0, s)
      else (0, s\<lparr>eg_policy := (case policy of Some p \<Rightarrow> p | None \<Rightarrow> egpu_safety_default_policy),
                 eg_lock := LockFree, eg_state := EGPU_STATE_DISCONNECTED, eg_last_error := EGPU_ERR_NONE,
                 eg_monitor_running := False, eg_retry_count := 0, eg_initialized := True\<rparr>))"

definition egpu_start_monitoring :: "egpu_hw \<Rightarrow> egpu \<Rightarrow> int \<times> egpu" where
  "egpu_start_monitoring hw s =
     (if eg_monitor_running s then (0, s)
      else if \<not> hw_thread hw (eg_next_thread s) then (-1, s\<lparr>eg_next_thread := Suc (eg_next_thread s)\<rparr>)
      else (0, s\<lparr>eg_monitor_running := True, eg_monitor_thread := Some (eg_next_thread s),
                 eg_threads := eg_threads s @ [eg_next_thread s], eg_next_thread := Suc (eg_next_thread s)\<rparr>))"

text \<open>\<open>pthread_join\<close> waits until the thread whose handle is stored has ended.\<close>

definition egpu_stop_monitoring :: "egpu \<Rightarrow> egpu" where
  "egpu_stop_monitoring s =
     (if \<not> eg_monitor_running s then s
      else s\<lparr>eg_monitor_running := False,
             eg_threads := (case eg_monitor_thread s of None \<Rightarrow> eg_threads s | Some t \<Rightarrow> remove1 t (eg_threads s))\<rparr>)"

section \<open>Connecting and disconnecting\<close>

definition egpu_safe_disconnect :: "egpu \<Rightarrow> (EGPUError \<times> egpu) option" where
  "egpu_safe_disconnect s =
     (if \<not> eg_initialized s then Some (EGPU_ERR_NONE, s)
      else
        do { let s = egpu_stop_monitoring s;
             s \<leftarrow> lock_mutex s;
             let s = notify_event ''Safe disconnect in progress...'' (egpu_set_state EGPU_STATE_SAFE_DISCONNECT s);
             let s = egpu_set_error EGPU_ERR_NONE (egpu_set_state EGPU_STATE_DISCONNECTED s);
             let s = notify_event ''eGPU disconnected safely'' s;
             s \<leftarrow> unlock_mutex s;
             Some (EGPU_ERR_NONE, s) })"

definition egpu_force_disconnect :: "string option \<Rightarrow> egpu \<Rightarrow> (EGPUError \<times> egpu) option" where
  "egpu_force_disconnect reason s =
     (if \<not> eg_initialized s then Some (EGPU_ERR_NONE, s)
      else
        do { let s = s\<lparr>eg_monitor_running := False\<rparr>;
             s \<leftarrow> lock_mutex s;
             let s = egpu_set_state EGPU_STATE_FORCE_DISCONNECT s;
             let s = notify_event (case reason of Some r \<Rightarrow> r | None \<Rightarrow> ''Force disconnect'') s;
             let s = egpu_set_state EGPU_STATE_DISCONNECTED s;
             let s = notify_event ''eGPU forcefully disconnected'' s;
             s \<leftarrow> unlock_mutex s;
             Some (EGPU_ERR_NONE, s) })"

definition egpu_safety_shutdown :: "egpu \<Rightarrow> egpu option" where
  "egpu_safety_shutdown s =
     (if \<not> eg_initialized s then Some s
      else
        do { let s = egpu_stop_monitoring s;
             s \<leftarrow> (if eg_state s = EGPU_STATE_CONNECTED \<or> eg_state s = EGPU_STATE_DEGRADED
                    then map_option snd (egpu_safe_disconnect s) else Some s);
             if eg_lock s = LockFree then Some (s\<lparr>eg_lock := LockRaw, eg_initialized := False\<rparr>) else None })"

text \<open>One attempt of \<open>egpu_connect\<close>; \<open>Retry\<close> is the recursive call after a failed tunnel.\<close>

datatype attempt = Retry | Finished EGPUError

definition fail_attempt :: "EGPUError \<Rightarrow> egpu \<Rightarrow> (attempt \<times> egpu) option" where
  "fail_attempt e s = do { s \<leftarrow> unlock_mutex s; Some (Finished e, s) }"

definition attempt_gpu :: "egpu_hw \<Rightarrow> egpu \<Rightarrow> (attempt \<times> egpu) option" where
  "attempt_gpu hw s =
     (let s = notify_event ''Initializing GPU...'' (egpu_set_state EGPU_STATE_INITIALIZING s);
          ret = hw_gpu_init hw (eg_tick s);
          s = tick (initialize_gpu s)
      in if ret \<noteq> 0 then
           let s = egpu_set_state EGPU_STATE_ERROR (egpu_set_error EGPU_ERR_GPU_INIT_FAILED s);
               s = notify_event ''GPU initialization failed'' s
           in fail_attempt EGPU_ERR_GPU_INIT_FAILED (egpu_set_state EGPU_STATE_DISCONNECTED s)
         else
           do { let s = egpu_set_error EGPU_ERR_NONE (egpu_set_state EGPU_STATE_CONNECTED s);
                let s = s\<lparr>eg_retry_count := 0\<rparr>;
                let s = notify_event ''eGPU connected and ready'' s;
                s \<leftarrow> unlock_mutex s;
                let (_, s) = egpu_start_monitoring hw s;
                Some (Finished EGPU_ERR_NONE, s) })"

definition attempt_tunnel :: "egpu_hw \<Rightarrow> egpu \<Rightarrow> (attempt \<times> egpu) option" where
  "attempt_tunnel hw s =
     (let s = notify_event ''Setting up PCIe tunnel...'' (egpu_set_state EGPU_STATE_TUNNEL_SETUP s);
          ret = hw_tunnel hw (eg_tick s);
          s = tick s
      in if ret \<noteq> 0 then
           let s = egpu_set_state EGPU_STATE_ERROR (egpu_set_error EGPU_ERR_TUNNEL_FAILED s);
               s = notify_event ''PCIe tunnel setup failed'' s
           in if sp_enable_auto_recovery (eg_policy s) \<and> eg_retry_count s < sp_max_retry_count (eg_policy s) then
                do { s \<leftarrow> unlock_mutex (s\<lparr>eg_retry_count := eg_retry_count s + 1\<rparr>);
                     pause (sp_retry_delay_ms (eg_policy s) * 1000);
                     Some (Retry, s) }
              else fail_attempt EGPU_ERR_TUNNEL_FAILED (egpu_set_state EGPU_STATE_DISCONNECTED s)
         else attempt_gpu hw s)"

definition connect_attempt :: "egpu_hw \<Rightarrow> egpu \<Rightarrow> (attempt \<times> egpu) option" where
  "connect_attempt hw s =
     (if \<not> eg_initialized s then Some (Finished EGPU_ERR_DEVICE_NOT_FOUND, s)
      else
        do { s \<leftarrow> lock_mutex s;
             let s = notify_event ''Scanning for eGPU devices...'' (egpu_set_state EGPU_STATE_DETECTING s);
             let (ret, info) = hw_detect hw (eg_tick s) (eg_device_info s);
             let s = tick (s\<lparr>eg_device_info := info\<rparr>);
             if ret \<noteq> 0 then
               let s = egpu_set_state EGPU_STATE_DISCONNECTED (egpu_set_error EGPU_ERR_DEVICE_NOT_FOUND s)
               in fail_attempt EGPU_ERR_DEVICE_NOT_FOUND (notify_event ''No eGPU device found'' s)
             else if \<not> check_device_compatible (eg_device_info s) then
               let s = egpu_set_error EGPU_ERR_INCOMPATIBLE_DEVICE s;
                   s = (if sp_force_disconnect_on_incompatible (eg_policy s) then
                          egpu_set_state EGPU_STATE_DISCONNECTED
                            (notify_event ''Incompatible device - force disconnect initiated''
                              (egpu_set_state EGPU_STATE_FORCE_DISCONNECT s))
                        else notify_event ''Incompatible device detected'' (egpu_set_state EGPU_STATE_ERROR s))
               in fail_attempt EGPU_ERR_INCOMPATIBLE_DEVICE s
             else
               attempt_tunnel hw (notify_event ''Authenticating Thunderbolt connection...''
                 (egpu_set_state EGPU_STATE_AUTHENTICATING s)) })"

lemma notify_event_sel [simp]:
  "eg_initialized (notify_event m s) = eg_initialized s" "eg_policy (notify_event m s) = eg_policy s"
  "eg_state (notify_event m s) = eg_state s" "eg_last_error (notify_event m s) = eg_last_error s"
  "eg_device_info (notify_event m s) = eg_device_info s" "eg_health (notify_event m s) = eg_health s"
  "eg_callback (notify_event m s) = eg_callback s" "eg_lock (notify_event m s) = eg_lock s"
  "eg_monitor_thread (notify_event m s) = eg_monitor_thread s" "eg_monitor_running (notify_event m s) = eg_monitor_running s"
  "eg_retry_count (notify_event m s) = eg_retry_count s" "eg_threads (notify_event m s) = eg_threads s"
  "eg_next_thread (notify_event m s) = eg_next_thread s" "eg_tick (notify_event m s) = eg_tick s"
  by (simp_all add: notify_event_def split: option.splits)

lemma unlock_mutex_sel [simp]: "eg_lock s = LockHeld \<Longrightarrow> unlock_mutex s = Some (s\<lparr>eg_lock := LockFree\<rparr>)"
  by (simp add: unlock_mutex_def)

lemmas egpu_steps = egpu_set_state_def egpu_set_error_def tick_def initialize_gpu_def Let_def

text \<open>A retry uses up one of the retries the policy allows.\<close>

definition retries_left :: "egpu \<Rightarrow> nat" where
  "retries_left s = nat (sp_max_retry_count (eg_policy s) - eg_retry_count s)"

lemma attempt_gpu_finishes: "attempt_gpu hw s = Some (a, s') \<Longrightarrow> a \<noteq> Retry"
  by (auto simp: attempt_gpu_def fail_attempt_def Let_def split: if_splits prod.splits elim!: bind_eq_SomeE)

lemma attempt_retries:
  assumes "connect_attempt hw s = Some (Retry, s')"
  shows "eg_policy s' = eg_policy s" and "eg_retry_count s' = eg_retry_count s + 1"
    and "eg_retry_count s < sp_max_retry_count (eg_policy s)"
  using assms
  by (auto simp: connect_attempt_def attempt_tunnel_def fail_attempt_def lock_mutex_def unlock_mutex_def pause_def egpu_steps
      split: if_splits prod.splits elim!: bind_eq_SomeE dest: attempt_gpu_finishes)

lemma attempt_measure: "connect_attempt hw s = Some (Retry, s') \<Longrightarrow> retries_left s' < retries_left s"
  using attempt_retries [of hw s s'] by (simp add: retries_left_def)

function egpu_connect :: "egpu_hw \<Rightarrow> egpu \<Rightarrow> (EGPUError \<times> egpu) option" where
  "egpu_connect hw s =
     (case connect_attempt hw s of
        None \<Rightarrow> None
      | Some (a, s') \<Rightarrow> (case a of Finished e \<Rightarrow> Some (e, s') | Retry \<Rightarrow> egpu_connect hw s'))"
  by pat_completeness auto
termination
  by (relation "measure (\<lambda>(hw, s). retries_left s)") (auto intro: attempt_measure)

declare egpu_connect.simps [simp del]

section \<open>Recovery\<close>

definition egpu_try_recovery :: "egpu_hw \<Rightarrow> egpu \<Rightarrow> (EGPUError \<times> egpu) option" where
  "egpu_try_recovery hw s =
     (if eg_retry_count s \<ge> sp_max_retry_count (eg_policy s) then
        do { (_, s) \<leftarrow> egpu_force_disconnect (Some ''Max recovery attempts exceeded'') s;
             Some (EGPU_ERR_RECOVERY_FAILED, s) }
      else
        do { s \<leftarrow> lock_mutex (s\<lparr>eg_retry_count := eg_retry_count s + 1\<rparr>);
             s \<leftarrow> unlock_mutex (notify_event ''Recovery in progress...'' (egpu_set_state EGPU_STATE_RECOVERING s));
             let err = hw_reset_link hw (eg_tick s);
             let s = tick s;
             if err = EGPU_ERR_NONE then
               do { s \<leftarrow> lock_mutex s;
                    let s = egpu_set_error EGPU_ERR_NONE (egpu_set_state EGPU_STATE_CONNECTED s);
                    let s = s\<lparr>eg_retry_count := 0, eg_health := (eg_health s)\<lparr>hm_errors_uncorrected := 0,
                              hm_link_error_rate := 0\<rparr>\<rparr>;
                    s \<leftarrow> unlock_mutex (notify_event ''Recovery successful (link reset)'' s);
                    Some (EGPU_ERR_NONE, s) }
             else do {
               pause (sp_retry_delay_ms (eg_policy s) * 1000);
               let err = hw_hard_reset hw (eg_tick s);
               let s = tick s;
               if err = EGPU_ERR_NONE then
                 do { s \<leftarrow> lock_mutex s;
                      let s = egpu_set_error EGPU_ERR_NONE (egpu_set_state EGPU_STATE_CONNECTED s);
                      let s = s\<lparr>eg_retry_count := 0\<rparr>;
                      s \<leftarrow> unlock_mutex (notify_event ''Recovery successful (hard reset)'' s);
                      Some (EGPU_ERR_NONE, s) }
               else
                 do { (_, s) \<leftarrow> egpu_force_disconnect (Some ''Recovery reconnection'') s;
                      pause (sp_retry_delay_ms (eg_policy s) * 1000 * 2);
                      egpu_connect hw s } } })"

section \<open>The monitoring thread\<close>

text \<open>
  A thread sleeps at the head of its loop. \<open>monitor_pass\<close> is what it does when it wakes up, until it
  sleeps again (\<^const>\<open>True\<close>) or ends (\<^const>\<open>False\<close>); a thread that has just been created counts as
  sleeping. \<open>monitor_checks\<close> is the part under the lock: the first check that hits ends the pass.
\<close>

datatype check = Thermal | Recover | Passed

definition monitor_checks :: "egpu \<Rightarrow> check \<times> egpu" where
  "monitor_checks s =
     (let s = s\<lparr>eg_health := (eg_health s)\<lparr>hm_last_heartbeat := eg_tick s\<rparr>\<rparr>; p = eg_policy s; m = eg_health s in
      if hm_temperature m \<ge> sp_thermal_limit p then
        (Thermal, notify_event ''Thermal limit exceeded - emergency shutdown''
           (egpu_set_state EGPU_STATE_ERROR (egpu_set_error EGPU_ERR_THERMAL_SHUTDOWN s)))
      else if hm_link_error_rate m > sp_error_rate_threshold p \<and>
              hm_link_error_rate m > sp_error_rate_threshold p * 10 then
        (Recover, notify_event ''Link error rate critical''
           (egpu_set_state EGPU_STATE_ERROR (egpu_set_error EGPU_ERR_LINK_UNSTABLE s)))
      else
        let s = (if hm_link_error_rate m > sp_error_rate_threshold p
                 then notify_event ''Link performance degraded'' (egpu_set_state EGPU_STATE_DEGRADED s) else s)
        in if hm_errors_uncorrected m > 0 then
             (Recover, notify_event ''Data integrity violation detected''
                (egpu_set_state EGPU_STATE_ERROR (egpu_set_error EGPU_ERR_DATA_CORRUPTION s)))
           else (Passed, s))"

definition monitor_pass :: "egpu_hw \<Rightarrow> egpu \<Rightarrow> (bool \<times> egpu) option" where
  "monitor_pass hw s =
     (if \<not> eg_monitor_running s then Some (False, s)
      else
        do { s \<leftarrow> (if eg_state s \<noteq> EGPU_STATE_CONNECTED \<and> eg_state s \<noteq> EGPU_STATE_DEGRADED then Some s
                   else
                     do { s \<leftarrow> lock_mutex s;
                          let (c, s) = monitor_checks s;
                          s \<leftarrow> unlock_mutex s;
                          (case c of
                             Thermal \<Rightarrow> map_option snd (egpu_force_disconnect (Some ''Thermal emergency'') s)
                           | Recover \<Rightarrow> if sp_enable_auto_recovery (eg_policy s)
                                        then map_option snd (egpu_try_recovery hw s) else Some s
                           | Passed \<Rightarrow> Some s) });
             if eg_monitor_running s
             then do { pause (sp_heartbeat_interval_ms (eg_policy s) * 1000); Some (True, s) }
             else Some (False, s) })"

text \<open>Thread \<open>t\<close> wakes up; when it ends it leaves the list.\<close>

definition monitor_wake :: "egpu_hw \<Rightarrow> nat \<Rightarrow> egpu \<Rightarrow> egpu option" where
  "monitor_wake hw t s =
     do { (alive, s) \<leftarrow> monitor_pass hw s;
          Some (if alive then s else s\<lparr>eg_threads := remove1 t (eg_threads s)\<rparr>) }"

section \<open>Queries and compatibility\<close>

definition egpu_get_state :: "egpu \<Rightarrow> EGPUConnectionState" where "egpu_get_state s = eg_state s"

definition egpu_get_last_error :: "egpu \<Rightarrow> EGPUError" where "egpu_get_last_error s = eg_last_error s"

definition egpu_get_health :: "bool \<Rightarrow> egpu \<Rightarrow> (int \<times> EGPUHealthMetrics option \<times> egpu) option" where
  "egpu_get_health has_out s =
     (if \<not> has_out then Some (-1, None, s)
      else do { s \<leftarrow> lock_mutex s; let m = eg_health s; s \<leftarrow> unlock_mutex s; Some (0, Some m, s) })"

definition egpu_get_device_info :: "bool \<Rightarrow> egpu \<Rightarrow> (int \<times> EGPUDeviceInfo option \<times> egpu) option" where
  "egpu_get_device_info has_out s =
     (if \<not> has_out then Some (-1, None, s)
      else do { s \<leftarrow> lock_mutex s; let i = eg_device_info s; s \<leftarrow> unlock_mutex s; Some (0, Some i, s) })"

definition egpu_set_event_callback :: "nat option \<Rightarrow> egpu \<Rightarrow> egpu option" where
  "egpu_set_event_callback callback s =
     do { s \<leftarrow> lock_mutex s; unlock_mutex (s\<lparr>eg_callback := callback\<rparr>) }"

definition egpu_check_compatibility :: "EGPUDeviceInfo option \<Rightarrow> bool" where
  "egpu_check_compatibility info = (case info of None \<Rightarrow> False | Some i \<Rightarrow> check_device_compatible i)"

definition egpu_verify_system_requirements :: bool where "egpu_verify_system_requirements = True"

section \<open>CRC-32\<close>

fun crc_bits :: "nat \<Rightarrow> u32 \<Rightarrow> u32" where
  "crc_bits 0 crc = crc"
| "crc_bits (Suc j) crc = crc_bits j (drop_bit 1 crc XOR (if crc AND 1 \<noteq> 0 then 0xEDB88320 else 0))"

definition init_crc32_table :: "u32 list" where
  "init_crc32_table = map (\<lambda>i. crc_bits 8 (of_nat i)) [0..<256]"

fun crc_loop :: "u32 \<Rightarrow> u8 list \<Rightarrow> u32" where
  "crc_loop crc [] = crc"
| "crc_loop crc (b # bs) =
     crc_loop (drop_bit 8 crc XOR init_crc32_table ! unat ((crc XOR ucast b) AND 0xFF)) bs"

definition egpu_compute_crc32 :: "u8 list \<Rightarrow> u32" where
  "egpu_compute_crc32 data = crc_loop 0xFFFFFFFF data XOR 0xFFFFFFFF"

definition egpu_verify_data_integrity :: "u8 list \<Rightarrow> u32 \<Rightarrow> bool" where
  "egpu_verify_data_integrity data expected_crc =
     (let actual_crc = egpu_compute_crc32 data in if actual_crc \<noteq> expected_crc then False else True)"

end
