(* ===== verification/Egpu_Crc.thy ===== *)
theory Egpu_Crc
  imports Egpu
begin

text \<open>
  The CRC-32 of \<^theory_text>\<open>Egpu\<close> against a bit-serial reference: the table holds the remainders of the single
  bytes, one table step is eight serial steps, and a serial step is injective, so that no burst of up to
  32 bits goes unnoticed.
\<close>

unbundle bit_operations_syntax

section \<open>The table-driven CRC against the bit-serial one\<close>

definition crc_poly :: u32 where "crc_poly = 0xEDB88320"

definition crc_shift :: "u32 \<Rightarrow> u32" where
  "crc_shift crc = drop_bit 1 crc XOR (if bit crc 0 then crc_poly else 0)"

text \<open>The reference: one message bit at a time, least significant bit of a byte first.\<close>

fun crc_serial :: "u32 \<Rightarrow> bool list \<Rightarrow> u32" where
  "crc_serial crc [] = crc"
| "crc_serial crc (x # xs) = crc_serial (drop_bit 1 crc XOR (if bit crc 0 \<noteq> x then crc_poly else 0)) xs"

definition byte_bits :: "u8 \<Rightarrow> bool list" where "byte_bits b = map (bit b) [0..<8]"

definition crc_reference :: "u8 list \<Rightarrow> u32" where
  "crc_reference data = NOT (crc_serial (NOT 0) (concat (map byte_bits data)))"

lemma crc_bits_shift: "crc_bits n crc = (crc_shift ^^ n) crc"
proof (induction n arbitrary: crc)
  case (Suc n)
  have "crc AND 1 \<noteq> 0 \<longleftrightarrow> bit crc 0" by (simp add: and_one_eq bit_0 odd_iff_mod_2_eq_one)
  then have "crc_bits (Suc n) crc = crc_bits n (crc_shift crc)" by (simp add: crc_shift_def crc_poly_def)
  then show ?case by (simp add: Suc funpow_swap1)
qed simp

lemma shift_linear: "crc_shift (a XOR b) = crc_shift a XOR crc_shift b"
  by (rule bit_word_eqI) (auto simp: crc_shift_def bit_simps)

lemma shifts_linear: "(crc_shift ^^ n) (a XOR b) = (crc_shift ^^ n) a XOR (crc_shift ^^ n) b"
  by (induction n) (simp_all add: shift_linear)

text \<open>The top bit of the polynomial keeps the bit that is shifted out.\<close>

lemma shift_top: "bit (crc_shift a) 31 = bit a 0"
proof -
  have "bit crc_poly 31" by (simp add: crc_poly_def bit_simps)
  then show ?thesis using bit_imp_le_length [of a 32] by (auto simp: crc_shift_def bit_simps)
qed

lemma shift_inj: "crc_shift a = crc_shift b \<Longrightarrow> a = b"
proof -
  assume e: "crc_shift a = crc_shift b"
  then have z: "bit a 0 = bit b 0" using shift_top [of a] shift_top [of b] by simp
  have "drop_bit 1 a = crc_shift a XOR (if bit a 0 then crc_poly else 0)"
    "drop_bit 1 b = crc_shift b XOR (if bit b 0 then crc_poly else 0)"
    by (simp_all add: crc_shift_def xor.assoc)
  with e z have d: "drop_bit 1 a = drop_bit 1 b" by simp
  show "a = b"
  proof (rule bit_word_eqI)
    fix n assume "n < LENGTH(32)"
    show "bit a n = bit b n"
    proof (cases n)
      case (Suc m)
      have "bit (drop_bit 1 a) m = bit (drop_bit 1 b) m" using d by simp
      with Suc show ?thesis by (simp add: bit_simps)
    qed (use z in simp)
  qed
qed

lemma shifts_inj: "(crc_shift ^^ n) a = (crc_shift ^^ n) b \<Longrightarrow> a = b"
  by (induction n) (auto dest: shift_inj)

text \<open>A zero low byte is just shifted out.\<close>

lemma shifts_zero: "(\<forall>i < n. \<not> bit a i) \<Longrightarrow> (crc_shift ^^ n) a = drop_bit n a"
proof (induction n)
  case (Suc n)
  then have "(crc_shift ^^ n) a = drop_bit n a" by simp
  moreover have "\<not> bit (drop_bit n a) 0" using Suc.prems by (simp add: bit_simps)
  ultimately show ?case by (simp add: crc_shift_def [of "drop_bit n a"])
qed simp

lemma table_entry: "init_crc32_table ! unat ((x :: u32) AND 0xFF) = (crc_shift ^^ 8) (x AND 0xFF)"
proof -
  have "x AND 0xFF \<le> 0xFF" by (rule word_and_le1)
  then have "unat (x AND 0xFF) < 256" by (simp add: word_le_nat_alt)
  then show ?thesis by (simp add: init_crc32_table_def crc_bits_shift)
qed

lemma table_step: "drop_bit 8 crc XOR init_crc32_table ! unat ((crc XOR ucast (b :: u8)) AND 0xFF) = (crc_shift ^^ 8) (crc XOR ucast b)"
proof -
  let ?y = "crc XOR ucast b"
  have m: "(0xFF :: u32) = mask 8" by (simp add: mask_eq_decr_exp)
  have y: "?y = (?y AND 0xFF) XOR (?y AND NOT 0xFF)"
    by (rule bit_word_eqI) (auto simp: bit_simps)
  have "(crc_shift ^^ 8) (?y AND NOT 0xFF) = drop_bit 8 (?y AND NOT 0xFF)"
    by (rule shifts_zero) (auto simp: m bit_simps)
  also have "\<dots> = drop_bit 8 crc"
    by (rule bit_word_eqI) (use bit_imp_le_length [of b] bit_imp_le_length [of crc] in \<open>fastforce simp: m bit_simps\<close>)
  finally have z: "(crc_shift ^^ 8) (?y AND NOT 0xFF) = drop_bit 8 crc" .
  have "(crc_shift ^^ 8) ?y = (crc_shift ^^ 8) (?y AND 0xFF) XOR (crc_shift ^^ 8) (?y AND NOT 0xFF)"
    by (subst y) (rule shifts_linear)
  then show ?thesis unfolding z table_entry by (simp only: xor.commute)
qed

lemma serial_word:
  "length xs \<le> 32 \<Longrightarrow> crc_serial crc xs = (crc_shift ^^ length xs) (crc XOR horner_sum of_bool 2 xs)"
proof (induction xs arbitrary: crc)
  case (Cons x xs)
  let ?w = "horner_sum of_bool 2 (x # xs) :: u32"
  have b: "bit ?w n \<longleftrightarrow> n < length (x # xs) \<and> (x # xs) ! n" if "n < 32" for n
    using that Cons.prems by (auto simp: bit_horner_sum_bit_word_iff simp del: horner_sum_simps)
  have d: "drop_bit 1 ?w = horner_sum of_bool 2 xs"
    by (rule bit_word_eqI) (use Cons.prems in \<open>auto simp: bit_simps bit_horner_sum_bit_word_iff b simp del: horner_sum_simps\<close>)
  have "bit (crc XOR ?w) 0 \<longleftrightarrow> bit crc 0 \<noteq> x" using b [of 0] by (simp add: bit_simps del: horner_sum_simps)
  then have "crc_shift (crc XOR ?w) = (drop_bit 1 crc XOR (if bit crc 0 \<noteq> x then crc_poly else 0)) XOR horner_sum of_bool 2 xs"
    unfolding crc_shift_def by (simp add: d [unfolded One_nat_def] drop_bit_xor xor.assoc xor.commute xor.left_commute del: horner_sum_simps)
  with Cons show ?case by (simp add: funpow_swap1 del: horner_sum_simps)
qed simp

lemma byte_word: "horner_sum of_bool 2 (byte_bits b) = (ucast b :: u32)"
proof (rule bit_word_eqI)
  fix n assume "n < LENGTH(32)"
  then show "bit (horner_sum of_bool 2 (byte_bits b) :: u32) n = bit (ucast b :: u32) n"
    using bit_imp_le_length [of b n] by (cases "n < 8") (auto simp: byte_bits_def bit_horner_sum_bit_word_iff bit_simps)
qed

lemma serial_append: "crc_serial crc (xs @ ys) = crc_serial (crc_serial crc xs) ys"
  by (induction xs arbitrary: crc) simp_all

lemma loop_serial: "crc_loop crc data = crc_serial crc (concat (map byte_bits data))"
proof (induction data arbitrary: crc)
  case (Cons b data)
  have "crc_serial crc (byte_bits b) = (crc_shift ^^ 8) (crc XOR ucast b)"
    using serial_word [of "byte_bits b" crc] by (simp add: byte_word) (simp add: byte_bits_def)
  with Cons show ?case by (simp add: table_step serial_append)
qed simp

lemma xor_ones: "(x :: u32) XOR 0xFFFFFFFF = NOT x"
proof -
  have "(0xFFFFFFFF :: u32) = - 1" by simp
  then show ?thesis by (rule ssubst) simp
qed

lemma crc_is_serial: "egpu_compute_crc32 data = crc_reference data"
proof -
  have e: "(0xFFFFFFFF :: u32) = NOT 0" by simp
  show ?thesis unfolding egpu_compute_crc32_def crc_reference_def xor_ones loop_serial by (simp only: e)
qed

text \<open>Detection: the serial CRC is injective in its start value, and in up to 32 message bits.\<close>

lemma xor_cancel: "(a :: u32) XOR c = b XOR c \<Longrightarrow> a = b"
proof -
  assume "a XOR c = b XOR c"
  then have "(a XOR c) XOR c = (b XOR c) XOR c" by simp
  then show "a = b" by (simp add: xor.assoc)
qed

lemma serial_inj: "crc_serial a xs = crc_serial b xs \<Longrightarrow> a = b"
proof (induction xs arbitrary: a b)
  case (Cons x xs)
  have e: "drop_bit 1 a XOR (if bit a 0 \<noteq> x then crc_poly else 0) = drop_bit 1 b XOR (if bit b 0 \<noteq> x then crc_poly else 0)"
    by (rule Cons.IH) (use Cons.prems in simp)
  have sh: "crc_shift (c XOR of_bool x) = drop_bit 1 c XOR (if bit c 0 \<noteq> x then crc_poly else 0)" for c
    by (cases x) (simp_all add: crc_shift_def drop_bit_xor bit_xor_iff drop_bit_of_1)
  have "crc_shift (a XOR of_bool x) = crc_shift (b XOR of_bool x)" unfolding sh by (rule e)
  then have "a XOR of_bool x = b XOR of_bool x" by (rule shift_inj)
  then show ?case by (rule xor_cancel)
qed simp

lemma serial_bits_inj:
  assumes "length xs = length ys" and "length xs \<le> 32" and "crc_serial c xs = crc_serial c ys"
  shows "xs = ys"
proof -
  have "(crc_shift ^^ length xs) (c XOR horner_sum of_bool 2 xs) = (crc_shift ^^ length xs) (c XOR horner_sum of_bool 2 ys)"
    using assms serial_word [of xs c] serial_word [of ys c] by simp
  then have "c XOR horner_sum of_bool 2 xs = c XOR horner_sum of_bool 2 ys" by (rule shifts_inj)
  then have w: "(horner_sum of_bool 2 xs :: u32) = horner_sum of_bool 2 ys"
    by (rule xor_cancel [OF _ , where c = c, unfolded xor.commute [of _ c]])
  show ?thesis
  proof (rule nth_equalityI [OF assms(1)])
    fix i assume i: "i < length xs"
    have "bit (horner_sum of_bool 2 xs :: u32) i = bit (horner_sum of_bool 2 ys :: u32) i" using w by simp
    then show "xs ! i = ys ! i" using i assms(1,2) by (simp add: bit_horner_sum_bit_word_iff)
  qed
qed

lemma bytes_bits_inj: "length xs = length ys \<Longrightarrow> concat (map byte_bits xs) = concat (map byte_bits ys) \<Longrightarrow> xs = ys"
proof (induction xs ys rule: list_induct2)
  case (Cons x xs y ys)
  have l: "length (byte_bits x) = length (byte_bits y)" by (simp add: byte_bits_def)
  with Cons have e: "byte_bits x = byte_bits y" "concat (map byte_bits xs) = concat (map byte_bits ys)" by simp_all
  have "x = y"
  proof (rule bit_word_eqI)
    fix n assume n: "n < LENGTH(8)"
    have "byte_bits x ! n = byte_bits y ! n" using e(1) by simp
    with n show "bit x n = bit y n" by (simp add: byte_bits_def)
  qed
  with Cons e show ?case by simp
qed simp

lemma crc_burst:
  assumes l: "length xs = length ys" "length xs \<le> 4" and ne: "xs \<noteq> ys"
  shows "egpu_compute_crc32 (pre @ xs @ post) \<noteq> egpu_compute_crc32 (pre @ ys @ post)"
proof
  assume e: "egpu_compute_crc32 (pre @ xs @ post) = egpu_compute_crc32 (pre @ ys @ post)"
  let ?b = "\<lambda>d. concat (map byte_bits d)" and ?c = "crc_serial (NOT 0) (concat (map byte_bits pre))"
  have "crc_serial (crc_serial ?c (?b xs)) (?b post) = crc_serial (crc_serial ?c (?b ys)) (?b post)"
    using e unfolding crc_is_serial crc_reference_def by (simp add: serial_append)
  then have "crc_serial ?c (?b xs) = crc_serial ?c (?b ys)" by (rule serial_inj)
  moreover have "length (?b d) = 8 * length d" for d
    by (induction d) (simp_all add: byte_bits_def)
  ultimately have "?b xs = ?b ys" using l by (intro serial_bits_inj [where c = ?c]) simp_all
  with bytes_bits_inj [OF l(1)] ne show False by simp
qed

end
