(* ===== verification/Egpu_Invariant.thy ===== *)
theory Egpu_Invariant
  imports Egpu_Crc
begin

text \<open>
  The invariant of the eGPU manager between calls, and that every call and every pass of a monitoring thread
  returns and keeps it. \<open>held\<close> is the invariant of the stages under the lock.
\<close>

unbundle bit_operations_syntax

section \<open>The invariant between calls\<close>

definition policy_ok :: "EGPUSafetyPolicy \<Rightarrow> bool" where
  "policy_ok p \<longleftrightarrow> int_ok (sp_heartbeat_interval_ms p * 1000) \<and> int_ok (sp_retry_delay_ms p * 1000) \<and>
     int_ok (sp_retry_delay_ms p * 1000 * 2)"

definition at_rest :: "EGPUConnectionState \<Rightarrow> bool" where
  "at_rest st \<longleftrightarrow> st \<in> {EGPU_STATE_DISCONNECTED, EGPU_STATE_CONNECTED, EGPU_STATE_DEGRADED, EGPU_STATE_ERROR}"

definition online :: "EGPUConnectionState \<Rightarrow> bool" where
  "online st \<longleftrightarrow> st = EGPU_STATE_CONNECTED \<or> st = EGPU_STATE_DEGRADED"

definition threads_ok :: "egpu \<Rightarrow> bool" where
  "threads_ok s \<longleftrightarrow> distinct (eg_threads s) \<and> (\<forall>t \<in> set (eg_threads s). t < eg_next_thread s) \<and>
     (eg_monitor_running s \<longrightarrow> (\<exists>t. eg_monitor_thread s = Some t \<and> t \<in> set (eg_threads s)))"

definition egpu_inv :: "egpu \<Rightarrow> bool" where
  "egpu_inv s \<longleftrightarrow> eg_lock s = (if eg_initialized s then LockFree else LockRaw) \<and> at_rest (eg_state s) \<and>
     (online (eg_state s) \<longrightarrow> eg_initialized s) \<and> policy_ok (eg_policy s) \<and> threads_ok s \<and>
     0 \<le> eg_retry_count s \<and> eg_retry_count s \<le> max 0 (sp_max_retry_count (eg_policy s))"

lemmas egpu_inv_defs = egpu_inv_def at_rest_def online_def threads_ok_def

lemma default_policy_ok [simp]: "policy_ok egpu_safety_default_policy" "policy_ok policy_zero"
  by (simp_all add: policy_ok_def egpu_safety_default_policy_def policy_zero_def int_ok_def)

lemma zero_inv: "egpu_inv egpu_zero"
  by (simp add: egpu_inv_defs egpu_zero_def)

lemma init_inv: "egpu_inv s \<Longrightarrow> (\<forall>p. policy = Some p \<longrightarrow> policy_ok p) \<Longrightarrow> egpu_inv (snd (egpu_safety_init policy s))"
  by (auto simp: egpu_inv_defs egpu_safety_init_def split: option.splits)

lemma stop_inv: "egpu_inv s \<Longrightarrow> egpu_inv (egpu_stop_monitoring s)"
  by (auto simp: egpu_inv_defs egpu_stop_monitoring_def split: option.splits dest: in_set_remove1)

lemma monitor_start_inv: "egpu_inv s \<Longrightarrow> egpu_inv (snd (egpu_start_monitoring hw s))"
  by (auto simp: egpu_inv_defs egpu_start_monitoring_def less_Suc_eq)

lemma stop_sel [simp]:
  "eg_initialized (egpu_stop_monitoring s) = eg_initialized s" "eg_lock (egpu_stop_monitoring s) = eg_lock s"
  "eg_state (egpu_stop_monitoring s) = eg_state s" "eg_monitor_running (egpu_stop_monitoring s) = False"
  by (simp_all add: egpu_stop_monitoring_def)

lemma safe_total: "egpu_inv s \<Longrightarrow> \<exists>s'. egpu_safe_disconnect s = Some (EGPU_ERR_NONE, s') \<and> egpu_inv s' \<and>
    eg_initialized s' = eg_initialized s \<and> (eg_initialized s \<longrightarrow> eg_state s' = EGPU_STATE_DISCONNECTED \<and> \<not> eg_monitor_running s')"
proof -
  assume I: "egpu_inv s"
  note J = stop_inv [OF I]
  show ?thesis using I J
    by (auto simp: egpu_safe_disconnect_def lock_mutex_def egpu_steps egpu_inv_defs)
qed

lemma force_total: "egpu_inv s \<Longrightarrow> \<exists>s'. egpu_force_disconnect reason s = Some (EGPU_ERR_NONE, s') \<and> egpu_inv s' \<and>
    eg_initialized s' = eg_initialized s \<and> eg_policy s' = eg_policy s \<and> eg_threads s' = eg_threads s \<and>
    eg_retry_count s' = eg_retry_count s \<and>
    (eg_initialized s \<longrightarrow> eg_state s' = EGPU_STATE_DISCONNECTED \<and> \<not> eg_monitor_running s')"
  by (auto simp: egpu_force_disconnect_def lock_mutex_def egpu_steps egpu_inv_defs)

lemma shutdown_egpu_total: "egpu_inv s \<Longrightarrow> \<exists>s'. egpu_safety_shutdown s = Some s' \<and> egpu_inv s' \<and> \<not> eg_initialized s'"
proof -
  assume I: "egpu_inv s"
  note J = stop_inv [OF I]
  from safe_total [OF J] obtain s2 where 2: "egpu_safe_disconnect (egpu_stop_monitoring s) = Some (EGPU_ERR_NONE, s2)"
    "egpu_inv s2" "eg_initialized s2 = eg_initialized s" "eg_initialized s \<longrightarrow> eg_state s2 = EGPU_STATE_DISCONNECTED" by auto
  show ?thesis
  proof (cases "eg_initialized s")
    case False
    with I show ?thesis by (simp add: egpu_safety_shutdown_def)
  next
    case True
    let ?m = "egpu_stop_monitoring s"
    let ?x = "if eg_state s = EGPU_STATE_CONNECTED \<or> eg_state s = EGPU_STATE_DEGRADED then s2 else ?m"
    have x: "egpu_inv ?x" "eg_initialized ?x" "\<not> online (eg_state ?x)"
      using J 2 True by (simp_all add: online_def)
    have "eg_lock s = LockFree" "eg_lock s2 = LockFree" using I 2(2,3) True by (simp_all add: egpu_inv_def)
    then have "egpu_safety_shutdown s = Some (?x\<lparr>eg_lock := LockRaw, eg_initialized := False\<rparr>)"
      using True 2(1) by (auto simp: egpu_safety_shutdown_def)
    moreover have "egpu_inv (?x\<lparr>eg_lock := LockRaw, eg_initialized := False\<rparr>)"
      using x by (simp add: egpu_inv_def threads_ok_def del: if_split_asm split del: if_split)
    ultimately show ?thesis by (intro exI [of _ "?x\<lparr>eg_lock := LockRaw, eg_initialized := False\<rparr>"]) simp
  qed
qed

lemma force_state:
  "eg_initialized v \<Longrightarrow> egpu_force_disconnect r (v\<lparr>eg_state := st\<rparr>) = egpu_force_disconnect r v"
  by (simp add: egpu_force_disconnect_def lock_mutex_def egpu_set_state_def)

subsection \<open>Connecting\<close>

text \<open>The common frame of the stages under the lock.\<close>

definition held :: "egpu \<Rightarrow> bool" where
  "held s \<longleftrightarrow> eg_initialized s \<and> eg_lock s = LockHeld \<and> policy_ok (eg_policy s) \<and> threads_ok s \<and>
     0 \<le> eg_retry_count s \<and> eg_retry_count s \<le> max 0 (sp_max_retry_count (eg_policy s))"

lemma held_upd [simp]:
  "held (notify_event m s) = held s" "held (egpu_set_state st s) = held s" "held (egpu_set_error e s) = held s"
  "held (tick s) = held s" "held (initialize_gpu s) = held s" "held (s\<lparr>eg_device_info := i\<rparr>) = held s"
  by (simp_all add: held_def threads_ok_def egpu_steps)

lemma held_fail: "held s \<Longrightarrow> at_rest (eg_state s) \<Longrightarrow> \<exists>s'. fail_attempt e s = Some (Finished e, s') \<and> egpu_inv s'"
  by (auto simp: fail_attempt_def held_def egpu_inv_def threads_ok_def)

lemma lock_held: "egpu_inv s \<Longrightarrow> eg_initialized s \<Longrightarrow> \<exists>s'. lock_mutex s = Some s' \<and> held s'"
  by (auto simp: lock_mutex_def held_def egpu_inv_def threads_ok_def)

lemma unlock_held: "held s \<Longrightarrow> at_rest (eg_state s) \<Longrightarrow> \<exists>s'. unlock_mutex s = Some s' \<and> egpu_inv s'"
  by (auto simp: unlock_mutex_def held_def egpu_inv_def threads_ok_def)

lemma state_sel [simp]: "eg_state (egpu_set_state st s) = st" "eg_state (egpu_set_error e s) = eg_state s"
  by (simp_all add: egpu_steps)

lemma gpu_total: "held s \<Longrightarrow> \<exists>e s'. attempt_gpu hw s = Some (Finished e, s') \<and> egpu_inv s'"
proof -
  assume h: "held s"
  let ?s = "tick (initialize_gpu (notify_event ''Initializing GPU...'' (egpu_set_state EGPU_STATE_INITIALIZING s)))"
  show ?thesis
  proof (cases "hw_gpu_init hw (eg_tick (notify_event ''Initializing GPU...'' (egpu_set_state EGPU_STATE_INITIALIZING s))) = 0")
    case False
    with held_fail [of "egpu_set_state EGPU_STATE_DISCONNECTED (notify_event ''GPU initialization failed''
        (egpu_set_state EGPU_STATE_ERROR (egpu_set_error EGPU_ERR_GPU_INIT_FAILED ?s)))" EGPU_ERR_GPU_INIT_FAILED] h
    show ?thesis by (auto simp: attempt_gpu_def Let_def at_rest_def)
  next
    case True
    let ?t = "notify_event ''eGPU connected and ready'' ((egpu_set_error EGPU_ERR_NONE (egpu_set_state EGPU_STATE_CONNECTED ?s))\<lparr>eg_retry_count := 0\<rparr>)"
    have "held ((egpu_set_error EGPU_ERR_NONE (egpu_set_state EGPU_STATE_CONNECTED ?s))\<lparr>eg_retry_count := 0\<rparr>)"
      using h by (simp add: held_def threads_ok_def egpu_steps)
    then have "held ?t" by simp
    moreover have "at_rest (eg_state ?t)" by (simp add: at_rest_def)
    ultimately obtain u where u: "unlock_mutex ?t = Some u" "egpu_inv u" using unlock_held by blast
    obtain r v where v: "egpu_start_monitoring hw u = (r, v)" by fastforce
    with monitor_start_inv [OF u(2), of hw] have "egpu_inv v" by simp
    with True u(1) v show ?thesis by (auto simp: attempt_gpu_def Let_def)
  qed
qed

lemma tunnel_total: "held s \<Longrightarrow> \<exists>a s'. attempt_tunnel hw s = Some (a, s') \<and> egpu_inv s'"
proof -
  assume h: "held s"
  let ?n = "notify_event ''Setting up PCIe tunnel...'' (egpu_set_state EGPU_STATE_TUNNEL_SETUP s)"
  let ?e = "notify_event ''PCIe tunnel setup failed'' (egpu_set_state EGPU_STATE_ERROR (egpu_set_error EGPU_ERR_TUNNEL_FAILED (tick ?n)))"
  have hn: "held (tick ?n)" "held ?e" using h by simp_all
  show ?thesis
  proof (cases "hw_tunnel hw (eg_tick ?n) = 0")
    case True
    with gpu_total [OF hn(1), of hw] show ?thesis by (auto simp: attempt_tunnel_def Let_def)
  next
    case ne: False
    show ?thesis
    proof (cases "sp_enable_auto_recovery (eg_policy ?e) \<and> eg_retry_count ?e < sp_max_retry_count (eg_policy ?e)")
      case True
      have "held (?e\<lparr>eg_retry_count := eg_retry_count ?e + 1\<rparr>)" using hn(2) True by (simp add: held_def threads_ok_def)
      moreover have "at_rest (eg_state (?e\<lparr>eg_retry_count := eg_retry_count ?e + 1\<rparr>))" by (simp add: at_rest_def)
      ultimately obtain u where u: "unlock_mutex (?e\<lparr>eg_retry_count := eg_retry_count ?e + 1\<rparr>) = Some u" "egpu_inv u"
        using unlock_held by blast
      have "pause (sp_retry_delay_ms (eg_policy u) * 1000) = Some ()"
        using u(2) by (simp add: egpu_inv_def policy_ok_def pause_def)
      with ne True u show ?thesis by (auto simp: attempt_tunnel_def Let_def)
    next
      case False
      obtain u where "fail_attempt EGPU_ERR_TUNNEL_FAILED (egpu_set_state EGPU_STATE_DISCONNECTED ?e) = Some (Finished EGPU_ERR_TUNNEL_FAILED, u)"
        "egpu_inv u" using held_fail [of "egpu_set_state EGPU_STATE_DISCONNECTED ?e"] hn(2) by (auto simp: at_rest_def)
      with ne False show ?thesis by (auto simp: attempt_tunnel_def Let_def)
    qed
  qed
qed

lemma attempt_total: "egpu_inv s \<Longrightarrow> \<exists>a s'. connect_attempt hw s = Some (a, s') \<and> egpu_inv s'"
proof (cases "eg_initialized s")
  case False
  then show "egpu_inv s \<Longrightarrow> ?thesis" by (auto simp: connect_attempt_def)
next
  case True
  assume I: "egpu_inv s"
  obtain l where l: "lock_mutex s = Some l" "held l" using lock_held [OF I True] by blast
  let ?d = "notify_event ''Scanning for eGPU devices...'' (egpu_set_state EGPU_STATE_DETECTING l)"
  obtain r info where r: "hw_detect hw (eg_tick ?d) (eg_device_info ?d) = (r, info)" by fastforce
  let ?t = "tick (?d\<lparr>eg_device_info := info\<rparr>)"
  have t: "held ?t" using l(2) by simp
  show ?thesis
  proof (cases "r = 0")
    case False
    have "\<exists>s'. fail_attempt EGPU_ERR_DEVICE_NOT_FOUND (notify_event ''No eGPU device found''
        (egpu_set_state EGPU_STATE_DISCONNECTED (egpu_set_error EGPU_ERR_DEVICE_NOT_FOUND ?t))) = Some (Finished EGPU_ERR_DEVICE_NOT_FOUND, s') \<and> egpu_inv s'"
      by (rule held_fail) (use t in \<open>simp_all add: at_rest_def\<close>)
    with True False l(1) r show ?thesis by (auto simp: connect_attempt_def Let_def)
  next
    case r0: True
    show ?thesis
    proof (cases "check_device_compatible (eg_device_info ?t)")
      case False
      let ?i = "egpu_set_error EGPU_ERR_INCOMPATIBLE_DEVICE ?t"
      let ?f = "if sp_force_disconnect_on_incompatible (eg_policy ?i) then
          egpu_set_state EGPU_STATE_DISCONNECTED (notify_event ''Incompatible device - force disconnect initiated''
            (egpu_set_state EGPU_STATE_FORCE_DISCONNECT ?i))
        else notify_event ''Incompatible device detected'' (egpu_set_state EGPU_STATE_ERROR ?i)"
      have "\<exists>s'. fail_attempt EGPU_ERR_INCOMPATIBLE_DEVICE ?f = Some (Finished EGPU_ERR_INCOMPATIBLE_DEVICE, s') \<and> egpu_inv s'"
        by (rule held_fail) (use t in \<open>simp_all add: at_rest_def\<close>)
      with True r0 False l(1) r show ?thesis by (auto simp: connect_attempt_def Let_def)
    next
      case ok: True
      let ?a = "notify_event ''Authenticating Thunderbolt connection...'' (egpu_set_state EGPU_STATE_AUTHENTICATING ?t)"
      have "held ?a" using t by simp
      from tunnel_total [OF this, of hw] True r0 ok l(1) r show ?thesis by (auto simp: connect_attempt_def Let_def)
    qed
  qed
qed

lemma connect_total: "egpu_inv s \<Longrightarrow> \<exists>e s'. egpu_connect hw s = Some (e, s') \<and> egpu_inv s'"
proof (induction hw s rule: egpu_connect.induct)
  case (1 hw s)
  from attempt_total [OF 1(2), of hw] obtain a s' where a: "connect_attempt hw s = Some (a, s')" "egpu_inv s'" by blast
  show ?case
  proof (cases a)
    case Retry
    with a 1(1) [of "(a, s')" a s'] show ?thesis by (auto simp: egpu_connect.simps [of hw s])
  next
    case (Finished e)
    with a show ?thesis by (auto simp: egpu_connect.simps [of hw s])
  qed
qed

subsection \<open>Recovery and monitoring\<close>

lemma recovery_total:
  assumes I: "egpu_inv s" and i: "eg_initialized s"
  shows "\<exists>e s'. egpu_try_recovery hw s = Some (e, s') \<and> egpu_inv s'"
proof (cases "eg_retry_count s \<ge> sp_max_retry_count (eg_policy s)")
  case True
  with force_total [OF I, of "Some ''Max recovery attempts exceeded''"] show ?thesis by (auto simp: egpu_try_recovery_def)
next
  case False
  let ?p = "eg_policy s"
  have pa: "pause (sp_retry_delay_ms ?p * 1000) = Some ()" "pause (sp_retry_delay_ms ?p * 1000 * 2) = Some ()"
    using I by (simp_all add: egpu_inv_def policy_ok_def pause_def)
  have pos: "0 < sp_max_retry_count ?p" using I False by (simp add: egpu_inv_def)
  let ?n = "notify_event ''Recovery in progress...'' (egpu_set_state EGPU_STATE_RECOVERING (s\<lparr>eg_retry_count := eg_retry_count s + 1, eg_lock := LockHeld\<rparr>))"
  let ?u = "?n\<lparr>eg_lock := LockFree\<rparr>"
  have lk: "lock_mutex (s\<lparr>eg_retry_count := eg_retry_count s + 1\<rparr>) = Some (s\<lparr>eg_retry_count := eg_retry_count s + 1, eg_lock := LockHeld\<rparr>)"
    "unlock_mutex ?n = Some ?u"
    using I i by (simp_all add: lock_mutex_def egpu_inv_def egpu_steps)
  have sel: "eg_lock ?u = LockFree" "eg_initialized ?u" "eg_policy ?u = ?p" "threads_ok ?u" "eg_retry_count ?u = eg_retry_count s + 1"
    using I i by (simp_all add: egpu_inv_def egpu_steps threads_ok_def)
  have rc: "0 \<le> eg_retry_count s" "eg_retry_count s < sp_max_retry_count ?p" "policy_ok ?p" using I False by (simp_all add: egpu_inv_def)
  show ?thesis
  proof (cases "hw_reset_link hw (eg_tick ?u) = EGPU_ERR_NONE")
    case True
    with False lk sel rc pos show ?thesis
      by (auto simp: egpu_try_recovery_def lock_mutex_def tick_def egpu_set_state_def egpu_set_error_def egpu_inv_def threads_ok_def
          at_rest_def online_def Let_def)
  next
    case l: False
    show ?thesis
    proof (cases "hw_hard_reset hw (eg_tick (tick ?u)) = EGPU_ERR_NONE")
      case True
      with False l lk sel rc pos pa show ?thesis
        by (auto simp: egpu_try_recovery_def lock_mutex_def tick_def egpu_set_state_def egpu_set_error_def egpu_inv_def threads_ok_def
            at_rest_def online_def Let_def)
    next
      case h: False
      let ?v = "tick (tick ?u)"
      let ?w = "?v\<lparr>eg_state := EGPU_STATE_ERROR\<rparr>"
      have f: "egpu_force_disconnect r ?v = egpu_force_disconnect r ?w" for r
        by (rule force_state [symmetric]) (use sel(2) in \<open>simp add: tick_def\<close>)
      have "egpu_inv ?w" using sel rc by (simp add: egpu_inv_def at_rest_def online_def tick_def threads_ok_def)
      from force_total [OF this, of "Some ''Recovery reconnection''"] obtain x where
        x: "egpu_force_disconnect (Some ''Recovery reconnection'') ?v = Some (EGPU_ERR_NONE, x)" "egpu_inv x"
        and p: "eg_policy x = ?p" using f sel(3) by (auto simp: tick_def)
      from connect_total [OF x(2), of hw] False l h lk pa x(1) p sel(3) show ?thesis
        by (auto simp: egpu_try_recovery_def tick_def Let_def)
    qed
  qed
qed

lemma held_health [simp]: "held (s\<lparr>eg_health := m\<rparr>) = held s"
  by (simp add: held_def threads_ok_def)

lemma checks_held: "held s \<Longrightarrow> monitor_checks s = (c, s') \<Longrightarrow> online (eg_state s) \<Longrightarrow> held s' \<and> at_rest (eg_state s')"
  by (auto simp: monitor_checks_def Let_def at_rest_def online_def split: if_splits)

lemma pass_total:
  assumes I: "egpu_inv s"
  shows "\<exists>a s'. monitor_pass hw s = Some (a, s') \<and> egpu_inv s' \<and> (a \<longleftrightarrow> eg_monitor_running s')"
proof (cases "eg_monitor_running s")
  case False
  with I show ?thesis by (auto simp: monitor_pass_def)
next
  case run: True
  have fin: "\<exists>a s'. (if eg_monitor_running u then do { pause (sp_heartbeat_interval_ms (eg_policy u) * 1000); Some (True, u) }
      else Some (False, u)) = Some (a, s') \<and> egpu_inv s' \<and> (a \<longleftrightarrow> eg_monitor_running s')" if "egpu_inv u" for u
    using that by (auto simp: egpu_inv_def policy_ok_def pause_def)
  show ?thesis
  proof (cases "online (eg_state s)")
    case False
    with run fin [OF I] show ?thesis by (auto simp: monitor_pass_def online_def)
  next
    case on: True
    then have i: "eg_initialized s" using I by (simp add: egpu_inv_def)
    obtain l where l: "lock_mutex s = Some l" "held l" using lock_held [OF I i] by blast
    have "eg_state l = eg_state s" using l(1) by (auto simp: lock_mutex_def split: if_splits)
    obtain c t where c: "monitor_checks l = (c, t)" by fastforce
    with checks_held [OF l(2)] on \<open>eg_state l = eg_state s\<close> have "held t" "at_rest (eg_state t)" by auto
    then obtain u where u: "unlock_mutex t = Some u" "egpu_inv u" using unlock_held by blast
    have iu: "eg_initialized u" using u(1) \<open>held t\<close> by (auto simp: unlock_mutex_def held_def split: if_splits)
    have "\<exists>v. (case c of Thermal \<Rightarrow> map_option snd (egpu_force_disconnect (Some ''Thermal emergency'') u)
        | Recover \<Rightarrow> if sp_enable_auto_recovery (eg_policy u) then map_option snd (egpu_try_recovery hw u) else Some u
        | Passed \<Rightarrow> Some u) = Some v \<and> egpu_inv v"
      using force_total [OF u(2), of "Some ''Thermal emergency''"] recovery_total [OF u(2) iu, of hw] u(2)
      by (cases c) auto
    then obtain v where v: "(case c of Thermal \<Rightarrow> map_option snd (egpu_force_disconnect (Some ''Thermal emergency'') u)
        | Recover \<Rightarrow> if sp_enable_auto_recovery (eg_policy u) then map_option snd (egpu_try_recovery hw u) else Some u
        | Passed \<Rightarrow> Some u) = Some v" "egpu_inv v" by blast
    have "(eg_state s \<noteq> EGPU_STATE_CONNECTED \<and> eg_state s \<noteq> EGPU_STATE_DEGRADED) = False"
      using on by (auto simp: online_def)
    then have "monitor_pass hw s = (if eg_monitor_running v then do { pause (sp_heartbeat_interval_ms (eg_policy v) * 1000);
        Some (True, v) } else Some (False, v))"
      unfolding monitor_pass_def using run l(1) c u(1) v(1) by (simp only: if_False) simp
    with fin [OF v(2)] show ?thesis by simp
  qed
qed

lemma wake_total: "egpu_inv s \<Longrightarrow> \<exists>s'. monitor_wake hw t s = Some s' \<and> egpu_inv s'"
proof -
  assume I: "egpu_inv s"
  from pass_total [OF I, of hw] obtain a s' where p: "monitor_pass hw s = Some (a, s')" "egpu_inv s'" "a \<longleftrightarrow> eg_monitor_running s'" by blast
  then show ?thesis
    by (cases a) (auto simp: monitor_wake_def egpu_inv_def threads_ok_def dest: in_set_remove1)
qed

end
