(* ===== verification/Egpu_Properties.thy ===== *)
theory Egpu_Properties
  imports Egpu_Invariant
begin

text \<open>
  The manager as a state machine (calls of the client, wake-ups of the monitoring threads, new health
  metrics), the stages of a connection, recovery and monitoring against their specifications, and the
  properties.
\<close>

unbundle bit_operations_syntax

section \<open>Calls, threads and the hardware\<close>

datatype egpu_call =
    EInit "EGPUSafetyPolicy option" | EShutdown | EConnect | ESafe | EForce "string option" | ERecover
  | ECallback "nat option" | EStart | EStop | EWake nat | EHealth EGPUHealthMetrics

text \<open>A call of the client, a monitoring thread that wakes up, or new values from the hardware.\<close>

fun run_egpu :: "egpu_hw \<Rightarrow> egpu_call \<Rightarrow> egpu \<Rightarrow> egpu option" where
  "run_egpu hw (EInit p) s = Some (snd (egpu_safety_init p s))"
| "run_egpu hw EShutdown s = egpu_safety_shutdown s"
| "run_egpu hw EConnect s = map_option snd (egpu_connect hw s)"
| "run_egpu hw ESafe s = map_option snd (egpu_safe_disconnect s)"
| "run_egpu hw (EForce r) s = map_option snd (egpu_force_disconnect r s)"
| "run_egpu hw ERecover s = map_option snd (egpu_try_recovery hw s)"
| "run_egpu hw (ECallback c) s = egpu_set_event_callback c s"
| "run_egpu hw EStart s = Some (snd (egpu_start_monitoring hw s))"
| "run_egpu hw EStop s = Some (egpu_stop_monitoring s)"
| "run_egpu hw (EWake t) s = monitor_wake hw t s"
| "run_egpu hw (EHealth m) s = Some (s\<lparr>eg_health := m\<rparr>)"

fun egpu_ok :: "egpu \<Rightarrow> egpu_call \<Rightarrow> bool" where
  "egpu_ok s (EInit (Some p)) \<longleftrightarrow> policy_ok p"
| "egpu_ok s ERecover \<longleftrightarrow> eg_initialized s"
| "egpu_ok s (ECallback c) \<longleftrightarrow> eg_initialized s"
| "egpu_ok s (EWake t) \<longleftrightarrow> t \<in> set (eg_threads s)"
| "egpu_ok s _ \<longleftrightarrow> True"

inductive egpu_reach :: "egpu_hw \<Rightarrow> egpu \<Rightarrow> bool" for hw where
  ereach_start: "egpu_reach hw egpu_zero"
| ereach_call: "egpu_reach hw s \<Longrightarrow> egpu_ok s c \<Longrightarrow> run_egpu hw c s = Some s' \<Longrightarrow> egpu_reach hw s'"

lemma callback_total: "egpu_inv s \<Longrightarrow> eg_initialized s \<Longrightarrow> \<exists>s'. egpu_set_event_callback c s = Some s' \<and> egpu_inv s'"
  by (auto simp: egpu_set_event_callback_def lock_mutex_def egpu_inv_def threads_ok_def)

lemma egpu_call_total:
  assumes I: "egpu_inv s" and ok: "egpu_ok s c"
  shows "\<exists>s'. run_egpu hw c s = Some s' \<and> egpu_inv s'"
proof (cases c)
  case (EInit p)
  with init_inv [OF I, of p] ok show ?thesis by (cases p) auto
next
  case EShutdown
  with shutdown_egpu_total [OF I] show ?thesis by auto
next
  case EConnect
  with connect_total [OF I, of hw] show ?thesis by auto
next
  case ESafe
  with safe_total [OF I] show ?thesis by auto
next
  case (EForce r)
  with force_total [OF I, of r] show ?thesis by auto
next
  case ERecover
  with recovery_total [OF I, of hw] ok show ?thesis by auto
next
  case (ECallback f)
  with callback_total [OF I, of f] ok show ?thesis by auto
next
  case EStart
  with monitor_start_inv [OF I, of hw] show ?thesis by auto
next
  case EStop
  with stop_inv [OF I] show ?thesis by auto
next
  case (EWake t)
  with wake_total [OF I, of hw t] show ?thesis by auto
next
  case (EHealth m)
  with I show ?thesis by (simp add: egpu_inv_def threads_ok_def)
qed

lemma ereach_inv: "egpu_reach hw s \<Longrightarrow> egpu_inv s"
proof (induction rule: egpu_reach.induct)
  case (ereach_call s c s')
  from egpu_call_total [OF ereach_call.IH ereach_call.hyps(2), of hw] ereach_call.hyps(3) show ?case by auto
qed (rule zero_inv)

section \<open>Connecting, step by step\<close>

lemma notify_events [simp]:
  "eg_events (notify_event m s) = eg_events s @ (case eg_callback s of None \<Rightarrow> [] | Some d \<Rightarrow> [(eg_state s, eg_last_error s, m, d)])"
  by (simp add: notify_event_def split: option.splits)

lemma step_sel [simp]:
  "eg_events (egpu_set_state st s) = eg_events s" "eg_events (egpu_set_error e s) = eg_events s" "eg_events (tick s) = eg_events s"
  "eg_events (initialize_gpu s) = eg_events s" "eg_callback (egpu_set_state st s) = eg_callback s"
  "eg_callback (egpu_set_error e s) = eg_callback s" "eg_callback (tick s) = eg_callback s" "eg_callback (initialize_gpu s) = eg_callback s"
  "eg_last_error (egpu_set_state st s) = eg_last_error s" "eg_last_error (egpu_set_error e s) = e" "eg_last_error (tick s) = eg_last_error s"
  "eg_last_error (initialize_gpu s) = eg_last_error s" "eg_lock (egpu_set_state st s) = eg_lock s" "eg_lock (egpu_set_error e s) = eg_lock s"
  "eg_lock (tick s) = eg_lock s" "eg_lock (initialize_gpu s) = eg_lock s" "eg_state (tick s) = eg_state s"
  "eg_state (initialize_gpu s) = eg_state s" "eg_device_info (egpu_set_state st s) = eg_device_info s"
  "eg_device_info (egpu_set_error e s) = eg_device_info s" "eg_device_info (tick s) = eg_device_info s"
  "eg_device_info (initialize_gpu s) = eg_device_info s" "eg_policy (egpu_set_state st s) = eg_policy s"
  "eg_policy (egpu_set_error e s) = eg_policy s" "eg_policy (tick s) = eg_policy s" "eg_policy (initialize_gpu s) = eg_policy s"
  by (simp_all add: egpu_steps)

lemma start_sel [simp]:
  "eg_events (snd (egpu_start_monitoring hw s)) = eg_events s" "eg_state (snd (egpu_start_monitoring hw s)) = eg_state s"
  "eg_last_error (snd (egpu_start_monitoring hw s)) = eg_last_error s" "eg_retry_count (snd (egpu_start_monitoring hw s)) = eg_retry_count s"
  "eg_device_info (snd (egpu_start_monitoring hw s)) = eg_device_info s"
  "eg_policy (snd (egpu_start_monitoring hw s)) = eg_policy s"
  "eg_monitor_running (snd (egpu_start_monitoring simulated s))"
  by (simp_all add: egpu_start_monitoring_def simulated_def)

lemma unlock_Some: "unlock_mutex x = Some y \<longleftrightarrow> eg_lock x = LockHeld \<and> y = x\<lparr>eg_lock := LockFree\<rparr>"
  by (auto simp: unlock_mutex_def)

lemma fail_Some: "fail_attempt e x = Some (b, y) \<longleftrightarrow> eg_lock x = LockHeld \<and> b = Finished e \<and> y = x\<lparr>eg_lock := LockFree\<rparr>"
  by (auto simp: fail_attempt_def unlock_mutex_def)

lemma attempt_gpu_ok:
  assumes "hw_gpu_init hw (eg_tick s) = 0" and "eg_lock s = LockHeld"
  shows "attempt_gpu hw s = Some (Finished EGPU_ERR_NONE, snd (egpu_start_monitoring hw
    ((notify_event ''eGPU connected and ready'' ((egpu_set_error EGPU_ERR_NONE (egpu_set_state EGPU_STATE_CONNECTED
      (tick (initialize_gpu (notify_event ''Initializing GPU...'' (egpu_set_state EGPU_STATE_INITIALIZING s))))))
        \<lparr>eg_retry_count := 0\<rparr>))\<lparr>eg_lock := LockFree\<rparr>)))"
proof -
  have "eg_tick (notify_event ''Initializing GPU...'' (egpu_set_state EGPU_STATE_INITIALIZING s)) = eg_tick s"
    by (simp add: egpu_set_state_def)
  with assms show ?thesis by (simp add: attempt_gpu_def Let_def case_prod_unfold)
qed

lemma attempt_gpu_bad:
  assumes "hw_gpu_init hw (eg_tick s) \<noteq> 0" and "eg_lock s = LockHeld"
  shows "attempt_gpu hw s = Some (Finished EGPU_ERR_GPU_INIT_FAILED, (egpu_set_state EGPU_STATE_DISCONNECTED
    (notify_event ''GPU initialization failed'' (egpu_set_state EGPU_STATE_ERROR (egpu_set_error EGPU_ERR_GPU_INIT_FAILED
      (tick (initialize_gpu (notify_event ''Initializing GPU...'' (egpu_set_state EGPU_STATE_INITIALIZING s))))))))\<lparr>eg_lock := LockFree\<rparr>)"
proof -
  have "eg_tick (notify_event ''Initializing GPU...'' (egpu_set_state EGPU_STATE_INITIALIZING s)) = eg_tick s"
    by (simp add: egpu_set_state_def)
  with assms show ?thesis by (simp add: attempt_gpu_def Let_def fail_Some)
qed

lemma sim_attempt:
  assumes I: "egpu_inv s" and i: "eg_initialized s"
  shows "\<exists>s'. connect_attempt simulated s = Some (Finished EGPU_ERR_NONE, s') \<and> eg_state s' = EGPU_STATE_CONNECTED \<and>
    eg_last_error s' = EGPU_ERR_NONE \<and> eg_retry_count s' = 0 \<and> eg_monitor_running s' \<and> eg_policy s' = eg_policy s \<and>
    eg_device_info s' = snd (simulate_device_detect (eg_device_info s)) \<and>
    eg_events s' = eg_events s @ (case eg_callback s of None \<Rightarrow> [] | Some d \<Rightarrow>
      [(EGPU_STATE_DETECTING, eg_last_error s, ''Scanning for eGPU devices...'', d),
       (EGPU_STATE_AUTHENTICATING, eg_last_error s, ''Authenticating Thunderbolt connection...'', d),
       (EGPU_STATE_TUNNEL_SETUP, eg_last_error s, ''Setting up PCIe tunnel...'', d),
       (EGPU_STATE_INITIALIZING, eg_last_error s, ''Initializing GPU...'', d),
       (EGPU_STATE_CONNECTED, EGPU_ERR_NONE, ''eGPU connected and ready'', d)])"
proof -
  have l: "eg_lock s = LockFree" using I i by (simp add: egpu_inv_def)
  have hw: "hw_detect simulated n = simulate_device_detect" "hw_tunnel simulated n = 0" "hw_gpu_init simulated n = 0" for n
    by (simp_all add: simulated_def setup_pcie_tunnel_def)
  have ok: "check_device_compatible (snd (simulate_device_detect d))" "fst (simulate_device_detect d) = 0" for d
    by (simp_all add: simulate_device_detect_def check_device_compatible_def)
  show ?thesis
    by (cases "eg_callback s")
      (simp_all add: i l hw ok connect_attempt_def lock_mutex_def attempt_tunnel_def attempt_gpu_ok Let_def case_prod_unfold)
qed

text \<open>A device that is found and fits, behind a tunnel that never comes up.\<close>

definition tunnel_down :: "egpu_hw \<Rightarrow> bool" where
  "tunnel_down hw \<longleftrightarrow> (\<forall>n i. fst (hw_detect hw n i) = 0 \<and> check_device_compatible (snd (hw_detect hw n i)) \<and> hw_tunnel hw n \<noteq> 0)"

lemma down_attempt:
  assumes I: "egpu_inv s" and i: "eg_initialized s" and d: "tunnel_down hw" and a: "sp_enable_auto_recovery (eg_policy s)"
  shows "\<exists>s'. connect_attempt hw s = Some (if retries_left s = 0 then Finished EGPU_ERR_TUNNEL_FAILED else Retry, s') \<and>
    eg_initialized s' \<and> eg_policy s' = eg_policy s \<and> eg_tick s' = eg_tick s + 2 \<and>
    eg_state s' = (if retries_left s = 0 then EGPU_STATE_DISCONNECTED else EGPU_STATE_ERROR) \<and>
    eg_last_error s' = EGPU_ERR_TUNNEL_FAILED \<and> eg_monitor_running s' = eg_monitor_running s \<and>
    retries_left s' = retries_left s - 1"
proof -
  have l: "eg_lock s = LockFree" and p: "pause (sp_retry_delay_ms (eg_policy s) * 1000) = Some ()"
    using I i by (simp_all add: egpu_inv_def policy_ok_def pause_def)
  obtain r info where h: "hw_detect hw (eg_tick s) (eg_device_info s) = (r, info)" by fastforce
  with d have r: "r = 0" "check_device_compatible info" unfolding tunnel_down_def by (metis fst_conv, metis snd_conv)
  have t: "\<forall>n. hw_tunnel hw n \<noteq> 0" using d by (simp add: tunnel_down_def)
  show ?thesis
    by (cases "eg_retry_count s < sp_max_retry_count (eg_policy s)")
      (simp_all add: i l p h r t a retries_left_def connect_attempt_def lock_mutex_def attempt_tunnel_def fail_attempt_def
        egpu_set_state_def egpu_set_error_def tick_def Let_def nat_diff_distrib)
qed

lemma down_connect:
  "egpu_inv s \<Longrightarrow> eg_initialized s \<Longrightarrow> tunnel_down hw \<Longrightarrow> sp_enable_auto_recovery (eg_policy s) \<Longrightarrow>
   \<exists>s'. egpu_connect hw s = Some (EGPU_ERR_TUNNEL_FAILED, s') \<and> eg_state s' = EGPU_STATE_DISCONNECTED \<and>
     eg_last_error s' = EGPU_ERR_TUNNEL_FAILED \<and> eg_tick s' = eg_tick s + 2 * (retries_left s + 1) \<and> retries_left s' = 0 \<and>
     eg_monitor_running s' = eg_monitor_running s \<and> eg_policy s' = eg_policy s \<and> egpu_inv s' \<and> eg_initialized s'"
proof (induction "retries_left s" arbitrary: s)
  case 0
  from down_attempt [OF 0(2-5)] attempt_total [OF 0(2), of hw] 0(1) show ?case by (auto simp: egpu_connect.simps [of hw s])
next
  case (Suc n)
  from down_attempt [OF Suc.prems] attempt_total [OF Suc.prems(1), of hw] Suc.hyps(2) obtain u where
    u: "connect_attempt hw s = Some (Retry, u)" "egpu_inv u" "eg_initialized u" "eg_policy u = eg_policy s"
      "eg_tick u = eg_tick s + 2" "retries_left u = n" "eg_monitor_running u = eg_monitor_running s" by (auto split: if_splits)
  from Suc.hyps(1) [of u] u Suc.prems(3,4) Suc.hyps(2) [symmetric] show ?case by (auto simp: egpu_connect.simps [of hw s])
qed

text \<open>What connecting does to the monitoring threads.\<close>

definition same_threads :: "egpu \<Rightarrow> egpu \<Rightarrow> bool" where
  "same_threads s u \<longleftrightarrow> eg_threads u = eg_threads s \<and> eg_monitor_running u = eg_monitor_running s \<and>
     eg_next_thread u = eg_next_thread s \<and> eg_monitor_thread u = eg_monitor_thread s"

lemma same_threads_simps [simp]:
  "same_threads s (notify_event m u) = same_threads s u" "same_threads s (egpu_set_state st u) = same_threads s u"
  "same_threads s (egpu_set_error e u) = same_threads s u" "same_threads s (tick u) = same_threads s u"
  "same_threads s (initialize_gpu u) = same_threads s u" "same_threads s (u\<lparr>eg_lock := l\<rparr>) = same_threads s u"
  "same_threads s (u\<lparr>eg_retry_count := r\<rparr>) = same_threads s u" "same_threads s (u\<lparr>eg_device_info := i\<rparr>) = same_threads s u"
  "same_threads s s"
  by (simp_all add: same_threads_def egpu_steps)

lemma gpu_ok_threads:
  assumes "hw_gpu_init hw (eg_tick x) = 0" and "eg_lock x = LockHeld" and "same_threads s x"
  shows "\<exists>u. same_threads s u \<and> attempt_gpu hw x = Some (Finished EGPU_ERR_NONE, snd (egpu_start_monitoring hw u))"
  by (rule exI, rule conjI [rotated], rule attempt_gpu_ok [OF assms(1,2)]) (simp add: assms(3))

lemma attempt_threads:
  assumes "connect_attempt hw s = Some (a, s')"
  shows "if a = Finished EGPU_ERR_NONE then \<exists>u. same_threads s u \<and> s' = snd (egpu_start_monitoring hw u) else same_threads s s'"
    (is "?P a s'")
proof -
  have gp: "?P b y" if "attempt_gpu hw x = Some (b, y)" "same_threads s x" "eg_lock x = LockHeld" for x b y
  proof (cases "hw_gpu_init hw (eg_tick x) = 0")
    case True
    from gpu_ok_threads [OF True that(3,2)] that(1) show ?thesis by auto
  next
    case False
    from attempt_gpu_bad [OF False that(3)] that(1,2) show ?thesis by simp
  qed
  have tn: "?P b y" if t: "attempt_tunnel hw x = Some (b, y)" "same_threads s x" "eg_lock x = LockHeld" for x b y
  proof -
    let ?n = "notify_event ''Setting up PCIe tunnel...'' (egpu_set_state EGPU_STATE_TUNNEL_SETUP x)"
    have n: "same_threads s (tick ?n)" "eg_lock (tick ?n) = LockHeld" using t(2,3) by simp_all
    show ?thesis
    proof (cases "hw_tunnel hw (eg_tick ?n) = 0")
      case True
      with t(1) have "attempt_gpu hw (tick ?n) = Some (b, y)" by (simp add: attempt_tunnel_def Let_def)
      from gp [OF this n] show ?thesis .
    next
      case False
      with t n show ?thesis
        by (auto simp: attempt_tunnel_def Let_def fail_Some unlock_Some pause_def split: if_splits elim!: bind_eq_SomeE)
    qed
  qed
  show ?thesis
  proof (cases "eg_initialized s")
    case False
    with assms show ?thesis by (auto simp: connect_attempt_def)
  next
    case True
    with assms obtain l where l: "lock_mutex s = Some l" by (cases "lock_mutex s") (auto simp: connect_attempt_def)
    then have hl: "same_threads s l" "eg_lock l = LockHeld" by (auto simp: lock_mutex_def split: if_splits)
    let ?d = "notify_event ''Scanning for eGPU devices...'' (egpu_set_state EGPU_STATE_DETECTING l)"
    obtain r info where r: "hw_detect hw (eg_tick ?d) (eg_device_info ?d) = (r, info)" by fastforce
    let ?t = "tick (?d\<lparr>eg_device_info := info\<rparr>)"
    let ?a = "notify_event ''Authenticating Thunderbolt connection...'' (egpu_set_state EGPU_STATE_AUTHENTICATING ?t)"
    have ha: "same_threads s ?a" "eg_lock ?a = LockHeld" using hl by simp_all
    show ?thesis
    proof (cases "r = 0 \<and> check_device_compatible (eg_device_info ?t)")
      case ok: True
      with True assms l r have "attempt_tunnel hw ?a = Some (a, s')" by (simp add: connect_attempt_def Let_def)
      from tn [OF this ha] show ?thesis .
    next
      case False
      with True assms l r hl show ?thesis
        by (auto simp: connect_attempt_def Let_def fail_Some split: if_splits)
    qed
  qed
qed

lemma connect_threads:
  "egpu_connect hw s = Some (e, s') \<Longrightarrow>
   if e = EGPU_ERR_NONE then \<exists>u. same_threads s u \<and> s' = snd (egpu_start_monitoring hw u) else same_threads s s'"
proof (induction hw s rule: egpu_connect.induct)
  case (1 hw s)
  from 1(2) obtain a u where a: "connect_attempt hw s = Some (a, u)"
    by (cases "connect_attempt hw s") (auto simp: egpu_connect.simps [of hw s])
  note t = attempt_threads [OF a]
  show ?case
  proof (cases a)
    case (Finished e')
    with a 1(2) t show ?thesis by (auto simp: egpu_connect.simps [of hw s])
  next
    case Retry
    with a 1(2) have "egpu_connect hw u = Some (e, s')" by (simp add: egpu_connect.simps [of hw s])
    with 1(1) [OF a refl Retry] t Retry show ?thesis by (auto simp: same_threads_def split: if_splits)
  qed
qed

section \<open>What a monitoring thread does when it wakes up\<close>

text \<open>The state after one pass over an online device, on the simulated hardware, and whether the thread goes on.\<close>

definition thermal_trip :: "egpu \<Rightarrow> bool" where
  "thermal_trip s \<longleftrightarrow> sp_thermal_limit (eg_policy s) \<le> hm_temperature (eg_health s)"

definition link_rate :: "egpu \<Rightarrow> rat" where "link_rate s = hm_link_error_rate (eg_health s)"

definition link_bad :: "egpu \<Rightarrow> bool" where
  "link_bad s \<longleftrightarrow> sp_error_rate_threshold (eg_policy s) < link_rate s"

definition needs_recovery :: "egpu \<Rightarrow> bool" where
  "needs_recovery s \<longleftrightarrow> link_bad s \<and> sp_error_rate_threshold (eg_policy s) * 10 < link_rate s \<or>
     0 < hm_errors_uncorrected (eg_health s)"

definition monitor_spec :: "egpu \<Rightarrow> EGPUConnectionState \<times> bool" where
  "monitor_spec s =
     (if thermal_trip s then (EGPU_STATE_DISCONNECTED, False)
      else if needs_recovery s then
        if \<not> sp_enable_auto_recovery (eg_policy s) then (EGPU_STATE_ERROR, True)
        else if retries_left s = 0 then (EGPU_STATE_DISCONNECTED, False)
        else (EGPU_STATE_CONNECTED, True)
      else if link_bad s then (EGPU_STATE_DEGRADED, True)
      else (eg_state s, True))"

definition check_spec :: "egpu \<Rightarrow> check \<times> EGPUConnectionState" where
  "check_spec s =
     (if thermal_trip s then (Thermal, EGPU_STATE_ERROR)
      else if needs_recovery s then (Recover, EGPU_STATE_ERROR)
      else (Passed, if link_bad s then EGPU_STATE_DEGRADED else eg_state s))"

definition same_setup :: "egpu \<Rightarrow> egpu \<Rightarrow> bool" where
  "same_setup s u \<longleftrightarrow> eg_policy u = eg_policy s \<and> eg_retry_count u = eg_retry_count s \<and>
     eg_monitor_running u = eg_monitor_running s \<and> eg_initialized u = eg_initialized s"

lemma same_setup_simps [simp]:
  "same_setup s (notify_event m u) = same_setup s u" "same_setup s (egpu_set_state st u) = same_setup s u"
  "same_setup s (egpu_set_error e u) = same_setup s u" "same_setup s (tick u) = same_setup s u"
  "same_setup s (u\<lparr>eg_lock := l\<rparr>) = same_setup s u" "same_setup s (u\<lparr>eg_health := h\<rparr>) = same_setup s u"
  "same_setup s s"
  by (simp_all add: same_setup_def egpu_steps)

lemma checks_meet_spec:
  "\<exists>u. monitor_checks s = (fst (check_spec s), u) \<and> eg_state u = snd (check_spec s) \<and> same_setup s u"
proof -
  have "monitor_checks s = (fst (check_spec s), snd (monitor_checks s)) \<and>
      eg_state (snd (monitor_checks s)) = snd (check_spec s) \<and> same_setup s (snd (monitor_checks s))"
    by (simp add: monitor_checks_def check_spec_def thermal_trip_def needs_recovery_def link_bad_def link_rate_def Let_def)
  then show ?thesis by (rule exI [of _ "snd (monitor_checks s)"])
qed

lemma sim_recovery:
  assumes I: "egpu_inv s" and i: "eg_initialized s" and r: "retries_left s \<noteq> 0"
  shows "\<exists>s'. egpu_try_recovery simulated s = Some (EGPU_ERR_NONE, s') \<and> eg_state s' = EGPU_STATE_CONNECTED \<and>
    eg_last_error s' = EGPU_ERR_NONE \<and> eg_retry_count s' = 0 \<and> eg_device_info s' = eg_device_info s \<and>
    eg_monitor_running s' = eg_monitor_running s \<and> eg_threads s' = eg_threads s \<and>
    hm_errors_uncorrected (eg_health s') = 0 \<and> hm_link_error_rate (eg_health s') = 0"
proof -
  have "\<not> sp_max_retry_count (eg_policy s) \<le> eg_retry_count s" using r by (simp add: retries_left_def)
  moreover have "eg_lock s = LockFree" using I i by (simp add: egpu_inv_def)
  moreover have "hw_reset_link simulated n = EGPU_ERR_NONE" for n by (simp add: simulated_def egpu_reset_link_def)
  ultimately show ?thesis
    by (simp add: egpu_try_recovery_def lock_mutex_def egpu_set_state_def egpu_set_error_def tick_def Let_def)
qed

lemma spent_recovery:
  assumes I: "egpu_inv s" and i: "eg_initialized s" and r: "retries_left s = 0"
  shows "\<exists>s'. egpu_try_recovery hw s = Some (EGPU_ERR_RECOVERY_FAILED, s') \<and> eg_state s' = EGPU_STATE_DISCONNECTED \<and>
    \<not> eg_monitor_running s' \<and> egpu_inv s' \<and> eg_policy s' = eg_policy s \<and> eg_threads s' = eg_threads s \<and>
    retries_left s' = 0"
proof -
  have "sp_max_retry_count (eg_policy s) \<le> eg_retry_count s" using r by (simp add: retries_left_def)
  with force_total [OF I, of "Some ''Max recovery attempts exceeded''"] i r show ?thesis
    by (auto simp: egpu_try_recovery_def retries_left_def)
qed

lemma pass_locked:
  assumes "eg_monitor_running s" and "online (eg_state s)" and "lock_mutex s = Some l"
    and "monitor_checks l = (c, m)" and "unlock_mutex m = Some u"
  shows "monitor_pass hw s =
     do { s \<leftarrow> (case c of
             Thermal \<Rightarrow> map_option snd (egpu_force_disconnect (Some ''Thermal emergency'') u)
           | Recover \<Rightarrow> if sp_enable_auto_recovery (eg_policy u)
                        then map_option snd (egpu_try_recovery hw u) else Some u
           | Passed \<Rightarrow> Some u);
          if eg_monitor_running s
          then do { pause (sp_heartbeat_interval_ms (eg_policy s) * 1000); Some (True, s) }
          else Some (False, s) }"
proof -
  have "(eg_state s \<noteq> EGPU_STATE_CONNECTED \<and> eg_state s \<noteq> EGPU_STATE_DEGRADED) = False"
    using assms(2) by (auto simp: online_def)
  with assms(1,3-5) show ?thesis unfolding monitor_pass_def by (simp only: if_False) simp
qed

lemma retries_left_lock [simp]: "retries_left (s\<lparr>eg_lock := l\<rparr>) = retries_left s"
  by (simp add: retries_left_def)

lemma setup_retries: "same_setup s u \<Longrightarrow> retries_left u = retries_left s \<and> eg_policy u = eg_policy s \<and>
    eg_monitor_running u = eg_monitor_running s \<and> eg_initialized u = eg_initialized s"
  by (simp add: same_setup_def retries_left_def)

lemma wake_meets_spec:
  assumes I: "egpu_inv s" and on: "online (eg_state s)" and run: "eg_monitor_running s"
  shows "\<exists>s'. monitor_wake simulated t s = Some s' \<and> eg_state s' = fst (monitor_spec s) \<and>
    eg_monitor_running s' = snd (monitor_spec s) \<and> egpu_inv s'"
proof -
  have i: "eg_initialized s" using I on by (simp add: egpu_inv_def)
  then have l: "lock_mutex s = Some (s\<lparr>eg_lock := LockHeld\<rparr>)" (is "_ = Some ?l") using I by (simp add: lock_mutex_def egpu_inv_def)
  with lock_held [OF I i] have hl: "held ?l" by simp
  from checks_meet_spec [of ?l] obtain m where
    m: "monitor_checks ?l = (fst (check_spec ?l), m)" "eg_state m = snd (check_spec ?l)" "same_setup ?l m" by blast
  have sp: "check_spec ?l = check_spec s" by (simp add: check_spec_def thermal_trip_def needs_recovery_def link_bad_def link_rate_def)
  have "held m" "at_rest (eg_state m)" using checks_held [OF hl m(1)] on by simp_all
  then obtain u where u: "unlock_mutex m = Some u" "egpu_inv u" using unlock_held by blast
  then have ue: "u = m\<lparr>eg_lock := LockFree\<rparr>" by (simp add: unlock_Some)
  have su: "retries_left u = retries_left s" "eg_policy u = eg_policy s" "eg_monitor_running u" "eg_initialized u"
    "eg_state u = snd (check_spec s)"
    using setup_retries [OF m(3)] m(2) sp ue run i by simp_all
  note p = pass_locked [OF run on l m(1) u(1), of simulated]
  note fd = force_total [OF u(2), of "Some ''Thermal emergency''"]
  have pz: "pause (sp_heartbeat_interval_ms (eg_policy v) * 1000) = Some ()" if "egpu_inv v" for v
    using that by (simp add: egpu_inv_def policy_ok_def pause_def)
  obtain a v where v: "monitor_pass simulated s = Some (a, v)" "egpu_inv v" "a \<longleftrightarrow> eg_monitor_running v"
    using pass_total [OF I, of simulated] by blast
  have "eg_state v = fst (monitor_spec s) \<and> eg_monitor_running v = snd (monitor_spec s)"
  proof (cases "fst (check_spec s)")
    case Thermal
    then have "thermal_trip s" by (simp add: check_spec_def split: if_splits)
    with p v(1) Thermal sp fd su show ?thesis by (auto simp: monitor_spec_def)
  next
    case Recover
    then have tr: "\<not> thermal_trip s" "needs_recovery s" by (simp_all add: check_spec_def split: if_splits)
    consider (off) "\<not> sp_enable_auto_recovery (eg_policy s)" | (spent) "sp_enable_auto_recovery (eg_policy s)" "retries_left s = 0"
      | (again) "sp_enable_auto_recovery (eg_policy s)" "retries_left s \<noteq> 0" by blast
    then show ?thesis
    proof cases
      case off
      with p v(1) Recover sp su tr pz [OF u(2)] show ?thesis by (simp add: monitor_spec_def check_spec_def)
    next
      case spent
      with p v(1) Recover sp su tr spent_recovery [OF u(2) su(4), of simulated] show ?thesis by (auto simp: monitor_spec_def)
    next
      case again
      from sim_recovery [OF u(2) su(4)] again su(1) obtain w where
        w: "egpu_try_recovery simulated u = Some (EGPU_ERR_NONE, w)" "eg_state w = EGPU_STATE_CONNECTED"
          "eg_monitor_running w = eg_monitor_running u" by auto
      with recovery_total [OF u(2) su(4), of simulated] have "egpu_inv w" by simp
      with p v(1) Recover sp su tr again w pz show ?thesis by (simp add: monitor_spec_def)
    qed
  next
    case Passed
    then have "\<not> thermal_trip s" "\<not> needs_recovery s" by (simp_all add: check_spec_def split: if_splits)
    with p v(1) Passed sp su pz [OF u(2)] show ?thesis by (auto simp: monitor_spec_def check_spec_def)
  qed
  with v show ?thesis
    by (auto simp: monitor_wake_def egpu_inv_def threads_ok_def dest: in_set_remove1)
qed

section \<open>Properties\<close>

lemma reach_run: "egpu_reach hw s \<Longrightarrow> egpu_ok s c \<Longrightarrow> \<exists>s'. run_egpu hw c s = Some s' \<and> egpu_reach hw s'"
  using egpu_call_total [OF ereach_inv] by (blast intro: ereach_call)

lemma reach_init: "policy_ok p \<Longrightarrow> egpu_reach hw (snd (egpu_safety_init (Some p) egpu_zero))"
  by (rule ereach_call [where c = "EInit (Some p)", OF ereach_start]) simp_all

definition started :: egpu where
  "started = snd (egpu_safety_init (Some egpu_safety_default_policy) egpu_zero)"

lemma started_reach [simp]: "egpu_reach hw started" "eg_initialized started"
  by (simp_all add: started_def reach_init) (simp add: egpu_safety_init_def egpu_zero_def)

lemma started_sel [simp]: "eg_policy started = egpu_safety_default_policy" "retries_left started = 3"
  "eg_state started = EGPU_STATE_DISCONNECTED" "eg_threads started = []" "eg_callback started = None"
  "eg_device_info started = info_none" "\<not> eg_monitor_running started" "eg_next_thread started = 0"
  "eg_lock started = LockFree" "eg_tick started = 0"
  by (simp_all add: started_def egpu_safety_init_def egpu_zero_def retries_left_def egpu_safety_default_policy_def)

text \<open>
  C8. Calls of the eGPU manager, wake-ups of its monitoring threads and changes of the health metrics, in any
  order and with any behaviour of the hardware functions: from every reachable state every permitted step returns (no
  deadlock, no use of an uninitialised mutex, no overflow), and the new state has the mutex free, is in
  one of the four states of rest, online only if initialised, within the retry bound, with a running
  monitor that is one of the live threads.
\<close>

theorem egpu_calls_defined:
  assumes "egpu_reach hw s" and "egpu_ok s c"
  shows "\<exists>s'. run_egpu hw c s = Some s' \<and> egpu_reach hw s' \<and>
    eg_lock s' = (if eg_initialized s' then LockFree else LockRaw) \<and> at_rest (eg_state s') \<and>
    (online (eg_state s') \<longrightarrow> eg_initialized s') \<and>
    0 \<le> eg_retry_count s' \<and> eg_retry_count s' \<le> max 0 (sp_max_retry_count (eg_policy s')) \<and>
    (eg_monitor_running s' \<longrightarrow> (\<exists>t \<in> set (eg_threads s'). eg_monitor_thread s' = Some t))"
proof -
  from egpu_call_total [OF ereach_inv [OF assms(1)] assms(2)] obtain s' where s': "run_egpu hw c s = Some s'" "egpu_inv s'" by blast
  with ereach_call [OF assms] show ?thesis by (auto simp: egpu_inv_def threads_ok_def)
qed

theorem egpu_calls_defined_witness:
  "\<exists>s'. egpu_connect simulated started = Some (EGPU_ERR_NONE, s') \<and> egpu_reach simulated s' \<and>
     eg_lock s' = LockFree \<and> (\<exists>t \<in> set (eg_threads s'). eg_monitor_thread s' = Some t)"
proof -
  from sim_attempt [OF ereach_inv, of simulated started] obtain u where
    u: "egpu_connect simulated started = Some (EGPU_ERR_NONE, u)" "eg_state u = EGPU_STATE_CONNECTED" "eg_monitor_running u"
    by (auto simp: egpu_connect.simps [of simulated started])
  from egpu_calls_defined [of simulated started EConnect] u show ?thesis by (auto simp: online_def)
qed

text \<open>
  C12. \<open>egpu_connect\<close> on the hardware the file simulates, from any initialised state: the device found is
  stored, the client sees the five stages in order (the earlier ones still with the previous error), and
  the manager is connected with no error, a fresh retry budget and a monitor.
\<close>

theorem egpu_connect_sequence:
  assumes "egpu_reach hw s" and "eg_initialized s"
  shows "\<exists>s'. egpu_connect simulated s = Some (EGPU_ERR_NONE, s') \<and> eg_state s' = EGPU_STATE_CONNECTED \<and>
    eg_last_error s' = EGPU_ERR_NONE \<and> eg_retry_count s' = 0 \<and> eg_monitor_running s' \<and>
    eg_device_info s' = snd (simulate_device_detect (eg_device_info s)) \<and>
    eg_events s' = eg_events s @ (case eg_callback s of None \<Rightarrow> [] | Some d \<Rightarrow>
      [(EGPU_STATE_DETECTING, eg_last_error s, ''Scanning for eGPU devices...'', d),
       (EGPU_STATE_AUTHENTICATING, eg_last_error s, ''Authenticating Thunderbolt connection...'', d),
       (EGPU_STATE_TUNNEL_SETUP, eg_last_error s, ''Setting up PCIe tunnel...'', d),
       (EGPU_STATE_INITIALIZING, eg_last_error s, ''Initializing GPU...'', d),
       (EGPU_STATE_CONNECTED, EGPU_ERR_NONE, ''eGPU connected and ready'', d)])"
  using sim_attempt [OF ereach_inv [OF assms(1)] assms(2)] by (auto simp: egpu_connect.simps [of simulated s])

theorem egpu_connect_sequence_witness:
  "\<exists>s'. egpu_connect simulated started = Some (EGPU_ERR_NONE, s') \<and> eg_state s' = EGPU_STATE_CONNECTED \<and>
     ei_power_budget_watts (eg_device_info s') = 450"
  using egpu_connect_sequence [of simulated started] by (auto simp: simulate_device_detect_def)

text \<open>
  C13. Automatic recovery while the device is detected but its tunnel never comes up: \<open>egpu_connect\<close>
  returns with the tunnel error, disconnected, after exactly one attempt (two hardware calls) more than the retries left; the
  retries are then spent and are not given back, so that connecting again makes a single attempt.
\<close>

theorem egpu_connect_retries_bounded:
  assumes "egpu_reach hw s" and "eg_initialized s" and "tunnel_down hw" and "sp_enable_auto_recovery (eg_policy s)"
  shows "\<exists>s' s''. egpu_connect hw s = Some (EGPU_ERR_TUNNEL_FAILED, s') \<and> eg_state s' = EGPU_STATE_DISCONNECTED \<and>
    eg_tick s' = eg_tick s + 2 * (retries_left s + 1) \<and> retries_left s' = 0 \<and>
    egpu_connect hw s' = Some (EGPU_ERR_TUNNEL_FAILED, s'') \<and> eg_tick s'' = eg_tick s' + 2"
proof -
  from down_connect [OF ereach_inv [OF assms(1)] assms(2-4)] obtain s' where
    s': "egpu_connect hw s = Some (EGPU_ERR_TUNNEL_FAILED, s')" "eg_state s' = EGPU_STATE_DISCONNECTED"
      "eg_tick s' = eg_tick s + 2 * (retries_left s + 1)" "retries_left s' = 0" "eg_policy s' = eg_policy s"
      "egpu_inv s'" "eg_initialized s'" by blast
  with down_connect [OF s'(6,7) assms(3)] assms(4) show ?thesis by auto
qed

definition no_tunnel :: egpu_hw where "no_tunnel = simulated\<lparr>hw_tunnel := \<lambda>_. -1\<rparr>"

theorem egpu_connect_retries_bounded_witness:
  "\<exists>s'. egpu_connect no_tunnel started = Some (EGPU_ERR_TUNNEL_FAILED, s') \<and> eg_tick s' = 8"
proof -
  have "tunnel_down no_tunnel"
    by (simp add: tunnel_down_def no_tunnel_def simulated_def simulate_device_detect_def check_device_compatible_def)
  with egpu_connect_retries_bounded [of no_tunnel started] show ?thesis by (auto simp: egpu_safety_default_policy_def)
qed

text \<open>
  C9. A monitoring thread that wakes up over an online device, on the simulated hardware, does what
  \<open>monitor_spec\<close> says: the thermal limit disconnects and ends the monitor; a critical link or uncorrected errors
  recover the connection while retries are left, and disconnect after that; a raised error rate
  degrades; and otherwise the state stays, so that a degraded connection stays degraded when the rate falls. No other
  field decides: an overdue heartbeat does nothing, for \<open>heartbeat_timeout_ms\<close> and \<open>hm_last_heartbeat\<close> are not read.
\<close>

theorem egpu_monitor_reacts:
  assumes "egpu_reach hw s" and "online (eg_state s)" and "eg_monitor_running s"
  shows "\<exists>s'. monitor_wake simulated t s = Some s' \<and> eg_state s' = fst (monitor_spec s) \<and>
    eg_monitor_running s' = snd (monitor_spec s)"
  using wake_meets_spec [OF ereach_inv [OF assms(1)] assms(2,3), of t] by blast

lemma sim_connected: "\<exists>s. egpu_reach simulated s \<and> eg_state s = EGPU_STATE_CONNECTED \<and> eg_monitor_running s \<and>
    eg_policy s = egpu_safety_default_policy \<and> eg_initialized s"
proof -
  from sim_attempt [OF ereach_inv, of simulated started] obtain u where
    u: "egpu_connect simulated started = Some (EGPU_ERR_NONE, u)" "eg_state u = EGPU_STATE_CONNECTED" "eg_monitor_running u"
      "eg_policy u = egpu_safety_default_policy"
    by (auto simp: egpu_connect.simps [of simulated started])
  then have r: "egpu_reach simulated u" by (intro ereach_call [of simulated started EConnect u]) simp_all
  with u ereach_inv [OF r] show ?thesis
    by (auto simp: egpu_inv_def online_def)
qed

theorem egpu_monitor_reacts_witness:
  "\<exists>s s'. egpu_reach simulated s \<and> hm_temperature (eg_health s) = 90 \<and>
     monitor_wake simulated 0 s = Some s' \<and> eg_state s' = EGPU_STATE_DISCONNECTED"
proof -
  let ?m = "health_zero\<lparr>hm_temperature := 90\<rparr>"
  from sim_connected obtain s where s: "egpu_reach simulated s" "eg_state s = EGPU_STATE_CONNECTED" "eg_monitor_running s"
    "eg_policy s = egpu_safety_default_policy" by blast
  have r: "egpu_reach simulated (s\<lparr>eg_health := ?m\<rparr>)"
    by (rule ereach_call [OF s(1), of "EHealth ?m"]) simp_all
  have "fst (monitor_spec (s\<lparr>eg_health := ?m\<rparr>)) = EGPU_STATE_DISCONNECTED"
    using s(4) by (simp add: monitor_spec_def thermal_trip_def egpu_safety_default_policy_def)
  moreover obtain s' where "monitor_wake simulated 0 (s\<lparr>eg_health := ?m\<rparr>) = Some s'"
      "eg_state s' = fst (monitor_spec (s\<lparr>eg_health := ?m\<rparr>))"
    using egpu_monitor_reacts [OF r, of 0] s(2,3) by (auto simp: online_def)
  ultimately show ?thesis using r by (intro exI [of _ "s\<lparr>eg_health := ?m\<rparr>"] exI [of _ s'] conjI) simp_all
qed

text \<open>
  C14. \<open>egpu_try_recovery\<close> from any initialised state, on the simulated hardware. With a retry left it reports success
  and the state connected, also when nothing was ever detected, in which case the device information is still empty and
  no monitor is running. With the retries spent it reports \<open>EGPU_ERR_RECOVERY_FAILED\<close>, the state is disconnected and
  the monitor told to stop, and the counter stays at its limit.
\<close>

theorem egpu_recovery_fakes_connection:
  assumes "egpu_reach hw s" and "eg_initialized s"
  shows "\<exists>s'. egpu_try_recovery simulated s = Some (if retries_left s = 0 then EGPU_ERR_RECOVERY_FAILED else EGPU_ERR_NONE, s') \<and>
    eg_threads s' = eg_threads s \<and>
    (if retries_left s = 0 then eg_state s' = EGPU_STATE_DISCONNECTED \<and> \<not> eg_monitor_running s' \<and> retries_left s' = 0
     else eg_state s' = EGPU_STATE_CONNECTED \<and> eg_last_error s' = EGPU_ERR_NONE \<and> eg_retry_count s' = 0 \<and>
       eg_device_info s' = eg_device_info s \<and> eg_monitor_running s' = eg_monitor_running s)"
  using sim_recovery [OF ereach_inv [OF assms(1)] assms(2)] spent_recovery [OF ereach_inv [OF assms(1)] assms(2), of simulated]
  by (cases "retries_left s = 0") auto

theorem egpu_recovery_fakes_connection_witness:
  "\<exists>s'. egpu_try_recovery simulated started = Some (EGPU_ERR_NONE, s') \<and> eg_state s' = EGPU_STATE_CONNECTED \<and>
     eg_device_info s' = info_none \<and> \<not> eg_monitor_running s'"
  using egpu_recovery_fakes_connection [of simulated started] by auto

text \<open>
  C15. A forced disconnection while the monitor sleeps, followed by a successful connection: the old
  thread is still alive next to the new one, the manager only knows the new one, and stopping the
  monitoring joins the new one alone.
\<close>

theorem egpu_two_monitors:
  assumes "egpu_reach hw s" and "eg_initialized s" and "eg_monitor_running s" and "\<And>n. hw_thread hw n"
    and "egpu_force_disconnect reason s = Some (e, s1)" and "egpu_connect hw s1 = Some (EGPU_ERR_NONE, s2)"
  shows "\<exists>t. eg_threads s2 = eg_threads s @ [t] \<and> t \<notin> set (eg_threads s) \<and> eg_monitor_thread s2 = Some t \<and>
    eg_threads s \<noteq> [] \<and> eg_threads (egpu_stop_monitoring s2) = eg_threads s"
proof -
  note I = ereach_inv [OF assms(1)]
  from force_total [OF I, of reason] assms(2,5) have s1: "egpu_inv s1" "\<not> eg_monitor_running s1" "eg_threads s1 = eg_threads s"
    by auto
  from connect_threads [OF assms(6)] obtain u where u: "same_threads s1 u" "s2 = snd (egpu_start_monitoring hw u)" by auto
  have new: "eg_next_thread u \<notin> set (eg_threads s)" using s1 u(1) by (auto simp: egpu_inv_def threads_ok_def same_threads_def)
  moreover have "eg_threads s \<noteq> []" using I assms(3) by (auto simp: egpu_inv_def threads_ok_def)
  ultimately show ?thesis using s1(2,3) u assms(4)
    by (intro exI [of _ "eg_next_thread u"]) (simp add: egpu_start_monitoring_def egpu_stop_monitoring_def same_threads_def remove1_append)
qed

theorem egpu_two_monitors_witness:
  "\<exists>s2. egpu_reach simulated s2 \<and> 2 \<le> size (eg_threads s2)"
proof -
  from sim_connected obtain s where s: "egpu_reach simulated s" "eg_monitor_running s" "eg_initialized s" by blast
  from force_total [OF ereach_inv [OF s(1)], of None] s(3) obtain s1 where
    f: "egpu_force_disconnect None s = Some (EGPU_ERR_NONE, s1)" "eg_initialized s1" by auto
  have r1: "egpu_reach simulated s1" by (rule ereach_call [OF s(1), of "EForce None"]) (simp_all add: f)
  from sim_attempt [OF ereach_inv [OF r1] f(2)] obtain s2 where
    c: "egpu_connect simulated s1 = Some (EGPU_ERR_NONE, s2)" by (auto simp: egpu_connect.simps [of simulated s1])
  have r2: "egpu_reach simulated s2" by (rule ereach_call [OF r1, of EConnect]) (simp_all add: c)
  from egpu_two_monitors [OF s(1,3,2) _ f(1) c] obtain t where "eg_threads s2 = eg_threads s @ [t]" "eg_threads s \<noteq> []"
    by (auto simp: simulated_def)
  with r2 show ?thesis by (cases "eg_threads s") auto
qed

text \<open>
  C10. The table-driven CRC-32 of the transfers computes the bit-serial one of the standard: the reflected polynomial
  \<open>0xEDB88320\<close>, one message bit at a time, all ones at the start and the complement at the end.
\<close>

theorem egpu_crc_serial: "egpu_compute_crc32 data = crc_reference data"
  by (rule crc_is_serial)

text \<open>
  C11. \<open>egpu_verify_data_integrity\<close> accepts a transfer that arrives as it was sent, and rejects every
  transfer in which up to four consecutive bytes were replaced by as many others.
\<close>

theorem egpu_crc_detects_bursts:
  assumes "length xs = length ys" and "length xs \<le> 4" and "xs \<noteq> ys"
  shows "egpu_verify_data_integrity (pre @ xs @ post) (egpu_compute_crc32 (pre @ xs @ post)) \<and>
    \<not> egpu_verify_data_integrity (pre @ ys @ post) (egpu_compute_crc32 (pre @ xs @ post))"
  using crc_burst [OF assms, of pre post] by (simp add: egpu_verify_data_integrity_def Let_def)

theorem egpu_crc_detects_bursts_witness:
  "\<not> egpu_verify_data_integrity [1, 9, 3, 4] (egpu_compute_crc32 [1, 2, 3, 4])"
  using egpu_crc_detects_bursts [of "[2]" "[9]" "[1]" "[3, 4]"] by simp

end
