(* ===== verification/Text_Output.thy ===== *)
theory Text_Output
  imports Main
begin

text \<open>
  The conversions of \<open>printf\<close> and friends the logging system and the command line tool use: decimal and hexadecimal
  numbers, field widths, \<open>snprintf\<close> into a buffer of a given size, and \<open>atoi\<close>. Text is a list of bytes
  (\<^typ>\<open>char\<close> has eight bits), the terminating zero is not part of it.
\<close>

section \<open>Numbers\<close>

definition digit :: "nat \<Rightarrow> char" where
  "digit n = char_of (if n < 10 then 48 + n else 55 + n)"

fun base_text :: "nat \<Rightarrow> nat \<Rightarrow> string" where
  "base_text b n = (if n < b \<or> b < 2 then [digit n] else base_text b (n div b) @ [digit (n mod b)])"

declare base_text.simps [simp del]

definition dec :: "nat \<Rightarrow> string" where "dec n = base_text 10 n"

definition hex :: "nat \<Rightarrow> string" where "hex n = base_text 16 n"

definition dec_int :: "int \<Rightarrow> string" where
  "dec_int i = (if i < 0 then CHR 0x2D # dec (nat (- i)) else dec (nat i))"

section \<open>Fields and buffers\<close>

text \<open>\<open>%0wd\<close>, \<open>%0wX\<close>, \<open>%-ws\<close> and \<open>snprintf\<close> into \<open>n\<close> bytes.\<close>

definition zeros :: "nat \<Rightarrow> string \<Rightarrow> string" where
  "zeros w s = replicate (w - length s) (CHR 0x30) @ s"

definition field :: "nat \<Rightarrow> string \<Rightarrow> string" where
  "field w s = s @ replicate (w - length s) (CHR 0x20)"

definition into_buffer :: "nat \<Rightarrow> string \<Rightarrow> string" where
  "into_buffer n s = take (n - 1) s"

definition newline :: string where "newline = [CHR 0x0A]"

section \<open>\<open>atoi\<close>\<close>

definition is_digit :: "char \<Rightarrow> bool" where
  "is_digit c \<longleftrightarrow> 48 \<le> (of_char c :: nat) \<and> (of_char c :: nat) \<le> 57"

definition digits_value :: "string \<Rightarrow> nat" where
  "digits_value s = foldl (\<lambda>n c. 10 * n + (of_char c - 48)) 0 s"

definition is_space :: "char \<Rightarrow> bool" where
  "is_space c \<longleftrightarrow> c = CHR 0x20 \<or> 9 \<le> (of_char c :: nat) \<and> (of_char c :: nat) \<le> 13"

text \<open>White space, a sign, digits; the rest is ignored. The value has to fit an \<open>int\<close>.\<close>

definition atoi :: "string \<Rightarrow> int" where
  "atoi s =
     (let s = dropWhile is_space s;
          neg = (case s of c # _ \<Rightarrow> c = CHR 0x2D | [] \<Rightarrow> False);
          s = (case s of c # t \<Rightarrow> if c = CHR 0x2D \<or> c = CHR 0x2B then t else s | [] \<Rightarrow> s);
          n = int (digits_value (takeWhile is_digit s))
      in if neg then - n else n)"

section \<open>What the conversions print\<close>

lemma digit_value: "n < 10 \<Longrightarrow> of_char (digit n) = (48 + n :: nat)"
  by (simp add: digit_def of_char_of)

lemma digit_is_digit: "n < 10 \<Longrightarrow> is_digit (digit n)"
  by (simp add: is_digit_def digit_value)

lemma digits_value_snoc: "digits_value (s @ [c]) = 10 * digits_value s + (of_char c - 48)"
  by (simp add: digits_value_def)

lemma dec_digits: "c \<in> set (dec n) \<Longrightarrow> is_digit c"
  unfolding dec_def
proof (induction "10 :: nat" n rule: base_text.induct)
  case (1 n)
  then show ?case by (subst (asm) (2) base_text.simps) (auto simp: digit_is_digit split: if_splits)
qed

lemma dec_value: "digits_value (dec n) = n"
  unfolding dec_def
proof (induction "10 :: nat" n rule: base_text.induct)
  case (1 n)
  then show ?case
    by (subst base_text.simps) (simp add: digits_value_snoc digit_value digits_value_def split: if_splits)
qed

lemma dec_inj [simp]: "dec m = dec n \<longleftrightarrow> m = n"
  by (metis dec_value)

lemma dec_nonempty [simp]: "dec n \<noteq> []"
  by (simp add: dec_def base_text.simps [of 10 n])

lemma atoi_dec:
  assumes "0 \<le> i"
  shows "atoi (dec_int i) = i"
proof -
  obtain c s where d: "dec (nat i) = c # s" by (cases "dec (nat i)") auto
  have "is_digit x" if "x \<in> set (c # s)" for x using that dec_digits [of x "nat i"] d by simp
  then have "takeWhile is_digit (c # s) = c # s" "is_digit c" by (auto simp: takeWhile_eq_all_conv)
  moreover from \<open>is_digit c\<close> have "\<not> is_space c" "c \<noteq> CHR 0x2D" "c \<noteq> CHR 0x2B" by (auto simp: is_digit_def is_space_def)
  ultimately show ?thesis using assms dec_value [of "nat i"] d by (simp add: atoi_def dec_int_def Let_def del: takeWhile_eq_all_conv)
qed

lemma atoi_negative:
  assumes "i < 0"
  shows "atoi (dec_int i) = i"
proof -
  have "takeWhile is_digit (dec (nat (- i))) = dec (nat (- i))" by (auto simp: takeWhile_eq_all_conv dec_digits)
  with assms dec_value [of "nat (- i)"] show ?thesis by (simp add: atoi_def dec_int_def Let_def is_space_def del: takeWhile_eq_all_conv)
qed

text \<open>\<open>atoi\<close> reads back what \<open>%d\<close> printed.\<close>

lemma atoi_dec_int: "atoi (dec_int i) = i"
  by (cases "0 \<le> i") (simp_all add: atoi_dec atoi_negative)

end
