(* ===== verification/Logging.thy ===== *)
theory Logging
  imports Bridge_Prelude Text_Output
begin

text \<open>
  The logging system of \<open>src/logging/cb_log.c\<close>: levels and categories, the log file and its rotation,
  the console, the callback and the statistics.

  The record \<open>log\<close> is the global \<open>g_log\<close> together with what it acts on: the mutex, the files and
  directories, the text on \<open>stderr\<close>, and the calls of the callback. An open \<open>FILE\<close> is the path it was opened
  with (the code closes it before it renames). The clock is an oracle: reading it gives the broken-down local time,
  and readings are numbered. \<open>fopen\<close> and \<open>mkdir\<close> succeed as the environment says; writes to an open
  file succeed. The message is what \<open>vsnprintf\<close> makes of the format and its arguments, before
  it is cut to the buffer. \<^const>\<open>None\<close> is undefined behaviour: an index outside a table, a mutex that is
  not initialised, or one that is initialised twice.
\<close>

section \<open>Levels and categories\<close>

datatype CBLogLevel =
  CB_LOG_TRACE | CB_LOG_DEBUG | CB_LOG_INFO | CB_LOG_WARN | CB_LOG_ERROR | CB_LOG_FATAL | CB_LOG_OFF

datatype CBLogCategory =
    CB_LOG_CAT_GENERAL | CB_LOG_CAT_DRIVER | CB_LOG_CAT_EGPU | CB_LOG_CAT_MEMORY | CB_LOG_CAT_PCIE
  | CB_LOG_CAT_USB4 | CB_LOG_CAT_CUDA | CB_LOG_CAT_CLI | CB_LOG_CAT_PYTHON | CB_LOG_CAT_COUNT

fun level_num :: "CBLogLevel \<Rightarrow> nat" where
  "level_num CB_LOG_TRACE = 0"
| "level_num CB_LOG_DEBUG = 1"
| "level_num CB_LOG_INFO = 2"
| "level_num CB_LOG_WARN = 3"
| "level_num CB_LOG_ERROR = 4"
| "level_num CB_LOG_FATAL = 5"
| "level_num CB_LOG_OFF = 6"

fun category_num :: "CBLogCategory \<Rightarrow> nat" where
  "category_num CB_LOG_CAT_GENERAL = 0"
| "category_num CB_LOG_CAT_DRIVER = 1"
| "category_num CB_LOG_CAT_EGPU = 2"
| "category_num CB_LOG_CAT_MEMORY = 3"
| "category_num CB_LOG_CAT_PCIE = 4"
| "category_num CB_LOG_CAT_USB4 = 5"
| "category_num CB_LOG_CAT_CUDA = 6"
| "category_num CB_LOG_CAT_CLI = 7"
| "category_num CB_LOG_CAT_PYTHON = 8"
| "category_num CB_LOG_CAT_COUNT = 9"

text \<open>C compares the numbers of the levels.\<close>

instantiation CBLogLevel :: linorder
begin

definition less_eq_CBLogLevel :: "CBLogLevel \<Rightarrow> CBLogLevel \<Rightarrow> bool" where
  "less_eq_CBLogLevel a b \<longleftrightarrow> level_num a \<le> level_num b"

definition less_CBLogLevel :: "CBLogLevel \<Rightarrow> CBLogLevel \<Rightarrow> bool" where
  "less_CBLogLevel a b \<longleftrightarrow> level_num a < level_num b"

lemma level_num_inj: "level_num a = level_num b \<Longrightarrow> a = b"
  by (cases a; cases b) simp_all

instance
  by standard (auto simp: less_eq_CBLogLevel_def less_CBLogLevel_def dest: level_num_inj)

end

definition level_names :: "string list" where
  "level_names = [''TRACE'', ''DEBUG'', ''INFO'', ''WARN'', ''ERROR'', ''FATAL'', ''OFF'']"

definition cb_log_level_name :: "CBLogLevel \<Rightarrow> string" where
  "cb_log_level_name level = (if level \<le> CB_LOG_OFF then level_names ! level_num level else ''UNKNOWN'')"

definition category_names :: "string list" where
  "category_names = [''GENERAL'', ''DRIVER'', ''EGPU'', ''MEMORY'', ''PCIE'', ''USB4'', ''CUDA'', ''CLI'', ''PYTHON'']"

definition cb_log_category_name :: "CBLogCategory \<Rightarrow> string" where
  "cb_log_category_name category =
     (if category_num category < category_num CB_LOG_CAT_COUNT then category_names ! category_num category
      else ''UNKNOWN'')"

definition escape :: "string \<Rightarrow> string" where "escape s = CHR 0x1B # CHR 0x5B # s @ ''m''"

definition level_colors :: "string list" where
  "level_colors = map escape [''90'', ''36'', ''32'', ''33'', ''31'', ''35;1'']"

definition color_reset :: string where "color_reset = escape ''0''"

definition level_color :: "CBLogLevel \<Rightarrow> string option" where
  "level_color level =
     (if level_num level < length level_colors then Some (level_colors ! level_num level) else None)"

section \<open>State\<close>

record CBLogConfig =
  lc_min_level :: CBLogLevel
  lc_enable_console :: bool
  lc_enable_file :: bool
  lc_enable_color :: bool
  lc_enable_timestamp :: bool
  lc_enable_source_loc :: bool
  lc_log_dir :: string
  lc_max_file_size :: u64
  lc_max_rotated_files :: int

text \<open>A reading of the clock: \<open>struct tm\<close> with the nanoseconds.\<close>

record log_time =
  tm_year :: nat
  tm_mon :: nat
  tm_mday :: nat
  tm_hour :: nat
  tm_min :: nat
  tm_sec :: nat
  tv_nsec :: nat

record CBLogEntry =
  le_level :: CBLogLevel
  le_category :: CBLogCategory
  le_timestamp :: log_time
  le_file :: string
  le_line :: int
  le_func :: string
  le_message :: string

record log =
  lg_initialized :: bool
  lg_config :: CBLogConfig
  lg_log_file :: "string option"
  lg_log_file_path :: string
  lg_lock :: lock_state
  lg_callback :: "nat option"
  lg_category_levels :: "CBLogLevel list"
  lg_total_entries :: u64
  lg_dropped_entries :: u64
  lg_current_file_size :: u64
  lg_files :: "string \<rightharpoonup> string"
  lg_dirs :: "string \<Rightarrow> bool"
  lg_console :: string
  lg_calls :: "(CBLogEntry \<times> nat) list"
  lg_clock :: nat

definition config_zero :: CBLogConfig where
  "config_zero = \<lparr>lc_min_level = CB_LOG_TRACE, lc_enable_console = False, lc_enable_file = False,
     lc_enable_color = False, lc_enable_timestamp = False, lc_enable_source_loc = False, lc_log_dir = [],
     lc_max_file_size = 0, lc_max_rotated_files = 0\<rparr>"

text \<open>A process that starts, over the given files and directories.\<close>

definition log_zero :: "(string \<rightharpoonup> string) \<Rightarrow> (string \<Rightarrow> bool) \<Rightarrow> log" where
  "log_zero files dirs = \<lparr>lg_initialized = False, lg_config = config_zero, lg_log_file = None,
     lg_log_file_path = [], lg_lock = LockRaw, lg_callback = None,
     lg_category_levels = replicate 9 CB_LOG_TRACE, lg_total_entries = 0, lg_dropped_entries = 0,
     lg_current_file_size = 0, lg_files = files, lg_dirs = dirs, lg_console = [], lg_calls = [], lg_clock = 0\<rparr>"

record log_env =
  en_time :: "nat \<Rightarrow> log_time"
  en_fopen :: "nat \<Rightarrow> string \<Rightarrow> bool"
  en_mkdir :: "string \<Rightarrow> bool"
  en_isatty :: bool

definition read_clock :: "log_env \<Rightarrow> log \<Rightarrow> log_time \<times> log" where
  "read_clock env s = (en_time env (lg_clock s), s\<lparr>lg_clock := Suc (lg_clock s)\<rparr>)"

text \<open>\<open>fprintf\<close> to the log file and to \<open>stderr\<close>.\<close>

definition file_print :: "string \<Rightarrow> log \<Rightarrow> log" where
  "file_print t s =
     (case lg_log_file s of
        None \<Rightarrow> s
      | Some p \<Rightarrow> s\<lparr>lg_files := (lg_files s)(p \<mapsto> (case lg_files s p of None \<Rightarrow> t | Some c \<Rightarrow> c @ t))\<rparr>)"

definition err_print :: "string \<Rightarrow> log \<Rightarrow> log" where
  "err_print t s = s\<lparr>lg_console := lg_console s @ t\<rparr>"

section \<open>The log file\<close>

definition ensure_log_dir :: "log_env \<Rightarrow> string \<Rightarrow> log \<Rightarrow> int \<times> log" where
  "ensure_log_dir env dir s =
     (if lg_dirs s dir then (0, s)
      else if lg_files s dir \<noteq> None then (-1, s)
      else if en_mkdir env dir then (0, s\<lparr>lg_dirs := (lg_dirs s)(dir := True)\<rparr>)
      else (-1, s))"

definition date_time :: "log_time \<Rightarrow> string" where
  "date_time t = zeros 4 (dec (tm_year t + 1900)) @ ''-'' @ zeros 2 (dec (tm_mon t + 1)) @ ''-'' @
     zeros 2 (dec (tm_mday t)) @ '' '' @ zeros 2 (dec (tm_hour t)) @ '':'' @ zeros 2 (dec (tm_min t)) @ '':'' @
     zeros 2 (dec (tm_sec t))"

definition file_stamp :: "log_time \<Rightarrow> string" where
  "file_stamp t = zeros 4 (dec (tm_year t + 1900)) @ zeros 2 (dec (tm_mon t + 1)) @ zeros 2 (dec (tm_mday t)) @ ''_'' @
     zeros 2 (dec (tm_hour t)) @ zeros 2 (dec (tm_min t)) @ zeros 2 (dec (tm_sec t))"

definition log_path :: "string \<Rightarrow> log_time \<Rightarrow> string" where
  "log_path dir t = into_buffer 1024 (dir @ ''/cudabridge_'' @ file_stamp t @ ''.log'')"

definition log_header :: "log_time \<Rightarrow> string" where
  "log_header t = ''=== CudaBridge Log Started at '' @ date_time t @ '' ==='' @ newline"

definition open_log_file :: "log_env \<Rightarrow> log \<Rightarrow> int \<times> log" where
  "open_log_file env s =
     (let (now, s) = read_clock env s;
          path = log_path (lc_log_dir (lg_config s)) now;
          s = s\<lparr>lg_log_file_path := path\<rparr>
      in if \<not> en_fopen env (lg_clock s) path then (-1, s\<lparr>lg_log_file := None\<rparr>)
         else (0, file_print (log_header now) (s\<lparr>lg_log_file := Some path, lg_current_file_size := 0\<rparr>)))"

text \<open>\<open>rename\<close>: a source that does not exist is an error the code ignores.\<close>

definition rename_file :: "string \<Rightarrow> string \<Rightarrow> (string \<rightharpoonup> string) \<Rightarrow> (string \<rightharpoonup> string)" where
  "rename_file old new files =
     (case files old of None \<Rightarrow> files | Some c \<Rightarrow> files(old := None, new \<mapsto> c))"

definition rotated :: "string \<Rightarrow> nat \<Rightarrow> string" where
  "rotated path i = into_buffer 1100 (path @ ''.'' @ dec i)"

text \<open>The renames for \<open>i\<close> downto 1.\<close>

fun shift_rotated :: "string \<Rightarrow> nat \<Rightarrow> (string \<rightharpoonup> string) \<Rightarrow> (string \<rightharpoonup> string)" where
  "shift_rotated path 0 files = files"
| "shift_rotated path (Suc i) files =
     shift_rotated path i (rename_file (rotated path i) (rotated path (Suc i)) files)"

definition cb_log_rotate :: "log_env \<Rightarrow> log \<Rightarrow> int \<times> log" where
  "cb_log_rotate env s =
     (if lg_log_file s = None then (-1, s)
      else
        let s = s\<lparr>lg_log_file := None\<rparr>;
            files = shift_rotated (lg_log_file_path s) (nat (lc_max_rotated_files (lg_config s) - 1)) (lg_files s);
            s = s\<lparr>lg_files := rename_file (lg_log_file_path s) (rotated (lg_log_file_path s) 0) files\<rparr>
        in open_log_file env s)"

section \<open>Initialisation and settings\<close>

definition cb_log_init :: "log_env \<Rightarrow> CBLogConfig option \<Rightarrow> log \<Rightarrow> (int \<times> log) option" where
  "cb_log_init env config s =
     (if lg_initialized s then Some (0, s)
      else case config of
        None \<Rightarrow> Some (-1, s)
      | Some c \<Rightarrow>
          if lg_lock s \<noteq> LockRaw then None
          else
            let s = s\<lparr>lg_config := c, lg_lock := LockFree, lg_category_levels := replicate 9 (lc_min_level c)\<rparr>;
                fin = (\<lambda>s. (0, s\<lparr>lg_total_entries := 0, lg_dropped_entries := 0, lg_initialized := True\<rparr>))
            in Some (if lc_enable_file c then
                 let (r, s) = ensure_log_dir env (lc_log_dir c) s in
                 if r \<noteq> 0 then
                   (-1, err_print (''[CudaBridge] Failed to create log directory: '' @ lc_log_dir c @ newline) s)
                 else
                   let (r, s) = open_log_file env s in
                   if r \<noteq> 0 then (-1, err_print (''[CudaBridge] Failed to open log file'' @ newline) s)
                   else fin s
               else fin s))"

definition default_log_config :: "log_env \<Rightarrow> CBLogConfig" where
  "default_log_config env = \<lparr>lc_min_level = CB_LOG_INFO, lc_enable_console = True, lc_enable_file = True,
     lc_enable_color = en_isatty env, lc_enable_timestamp = True, lc_enable_source_loc = False,
     lc_log_dir = into_buffer 512 ''/tmp/cudabridge_logs'', lc_max_file_size = 10 * 1024 * 1024,
     lc_max_rotated_files = 5\<rparr>"

definition cb_log_init_default :: "log_env \<Rightarrow> log \<Rightarrow> (int \<times> log) option" where
  "cb_log_init_default env s = cb_log_init env (Some (default_log_config env)) s"

definition log_lock :: "log \<Rightarrow> log option" where
  "log_lock s = (if lg_lock s = LockFree then Some (s\<lparr>lg_lock := LockHeld\<rparr>) else None)"

definition log_unlock :: "log \<Rightarrow> log option" where
  "log_unlock s = (if lg_lock s = LockHeld then Some (s\<lparr>lg_lock := LockFree\<rparr>) else None)"

definition cb_log_shutdown :: "log \<Rightarrow> log option" where
  "cb_log_shutdown s =
     (if \<not> lg_initialized s then Some s
      else
        do { s \<leftarrow> log_lock s;
             let s = (if lg_log_file s \<noteq> None
                      then (file_print (''=== CudaBridge Log Ended ==='' @ newline) s)\<lparr>lg_log_file := None\<rparr> else s);
             s \<leftarrow> log_unlock (s\<lparr>lg_initialized := False\<rparr>);
             Some (s\<lparr>lg_lock := LockRaw\<rparr>) })"

definition cb_log_set_level :: "CBLogLevel \<Rightarrow> log \<Rightarrow> log" where
  "cb_log_set_level level s =
     s\<lparr>lg_config := (lg_config s)\<lparr>lc_min_level := level\<rparr>, lg_category_levels := replicate 9 level\<rparr>"

definition cb_log_set_category_level :: "CBLogCategory \<Rightarrow> CBLogLevel \<Rightarrow> log \<Rightarrow> log" where
  "cb_log_set_category_level category level s =
     (if category_num category < category_num CB_LOG_CAT_COUNT
      then s\<lparr>lg_category_levels := (lg_category_levels s)[category_num category := level]\<rparr> else s)"

definition cb_log_set_callback :: "nat option \<Rightarrow> log \<Rightarrow> log option" where
  "cb_log_set_callback callback s =
     do { s \<leftarrow> log_lock s; log_unlock (s\<lparr>lg_callback := callback\<rparr>) }"

definition cb_log_get_stats :: "log \<Rightarrow> u64 \<times> u64" where
  "cb_log_get_stats s = (lg_total_entries s, lg_dropped_entries s)"

text \<open>Flushing has no effect here: the text of an open file is the text that was written.\<close>

definition cb_log_flush :: "log \<Rightarrow> log option" where
  "cb_log_flush s = (if \<not> lg_initialized s then Some s else do { s \<leftarrow> log_lock s; log_unlock s })"

section \<open>Writing an entry\<close>

definition time_stamp :: "log_time \<Rightarrow> string" where
  "time_stamp t = date_time t @ ''.'' @ zeros 3 (dec (tv_nsec t div 1000000))"

definition source_loc :: "CBLogEntry \<Rightarrow> string" where
  "source_loc e = '' ('' @ le_file e @ '':'' @ dec_int (le_line e) @ '' '' @ le_func e @ '')''"

definition bracket :: "string \<Rightarrow> string" where "bracket s = ''['' @ s @ '']''"

text \<open>The text for the console; undefined for a level without a colour.\<close>

definition console_text :: "CBLogConfig \<Rightarrow> CBLogEntry \<Rightarrow> string option" where
  "console_text c e =
     do { color \<leftarrow> (if lc_enable_color c then level_color (le_level e) else Some []);
          let name = cb_log_level_name (le_level e);
          let category = bracket (field 7 (cb_log_category_name (le_category e)));
          Some ((if lc_enable_color c
                 then color @ bracket name @ color_reset @ '' '' @ category @ '' '' @ bracket (field 7 []) @ '' '' @
                   le_message e else []) @
                (if lc_enable_timestamp c then time_stamp (le_timestamp e) @ '' '' else []) @
                (if lc_enable_color c then color @ field 5 name @ color_reset @ '' '' else field 5 name @ '' '') @
                category @ '' '' @ le_message e @
                (if lc_enable_source_loc c then source_loc e else []) @ newline) }"

definition file_line :: "CBLogConfig \<Rightarrow> CBLogEntry \<Rightarrow> string" where
  "file_line c e =
     time_stamp (le_timestamp e) @ '' '' @ field 5 (cb_log_level_name (le_level e)) @ '' '' @
     bracket (field 7 (cb_log_category_name (le_category e))) @ '' '' @ le_message e @
     (if lc_enable_source_loc c then source_loc e else []) @ newline"

definition write_console :: "CBLogEntry \<Rightarrow> log \<Rightarrow> log option" where
  "write_console e s =
     (if lc_enable_console (lg_config s) \<and> CB_LOG_WARN \<le> le_level e
      then do { t \<leftarrow> console_text (lg_config s) e; Some (err_print t s) } else Some s)"

definition write_file :: "log_env \<Rightarrow> CBLogEntry \<Rightarrow> log \<Rightarrow> log" where
  "write_file env e s =
     (if lc_enable_file (lg_config s) \<and> lg_log_file s \<noteq> None then
        let t = file_line (lg_config s) e;
            s = file_print t s;
            s = s\<lparr>lg_current_file_size := lg_current_file_size s + of_nat (length t)\<rparr>
        in if lc_max_file_size (lg_config s) \<le> lg_current_file_size s then snd (cb_log_rotate env s) else s
      else s)"

definition call_back :: "CBLogEntry \<Rightarrow> log \<Rightarrow> log" where
  "call_back e s = (case lg_callback s of None \<Rightarrow> s | Some d \<Rightarrow> s\<lparr>lg_calls := lg_calls s @ [(e, d)]\<rparr>)"

definition cb_log_write ::
    "log_env \<Rightarrow> CBLogLevel \<Rightarrow> CBLogCategory \<Rightarrow> string \<Rightarrow> int \<Rightarrow> string \<Rightarrow> string \<Rightarrow> log \<Rightarrow> log option" where
  "cb_log_write env level category file line func message s =
     (if \<not> lg_initialized s then Some s
      else if \<not> category_num category < length (lg_category_levels s) then None
      else if level < lg_category_levels s ! category_num category then Some s
      else
        do { let (now, s) = read_clock env s;
             let e = \<lparr>le_level = level, le_category = category, le_timestamp = now, le_file = file, le_line = line,
                      le_func = func, le_message = into_buffer 2048 message\<rparr>;
             s \<leftarrow> log_lock s;
             s \<leftarrow> write_console e (s\<lparr>lg_total_entries := lg_total_entries s + 1\<rparr>);
             log_unlock (call_back e (write_file env e s)) })"

end
