(* ===== verification/Log_Properties.thy ===== *)
theory Log_Properties
  imports Logging
begin

text \<open>
  The logging system as a state machine of calls, the filter of the entries, the closed form of a rotation, the number
  of files, and the properties. The witnesses run on a clock that advances by one second with every reading.
\<close>

section \<open>The calls and the states they reach\<close>

datatype log_call =
    LInit "CBLogConfig option" | LInitDefault | LShutdown | LLevel CBLogLevel | LCategory CBLogCategory CBLogLevel
  | LCallback "nat option" | LRotate | LFlush | LWrite CBLogLevel CBLogCategory string int string string

fun run_log :: "log_env \<Rightarrow> log_call \<Rightarrow> log \<Rightarrow> log option" where
  "run_log env (LInit c) s = map_option snd (cb_log_init env c s)"
| "run_log env LInitDefault s = map_option snd (cb_log_init_default env s)"
| "run_log env LShutdown s = cb_log_shutdown s"
| "run_log env (LLevel l) s = Some (cb_log_set_level l s)"
| "run_log env (LCategory c l) s = Some (cb_log_set_category_level c l s)"
| "run_log env (LCallback f) s = cb_log_set_callback f s"
| "run_log env LRotate s = Some (snd (cb_log_rotate env s))"
| "run_log env LFlush s = cb_log_flush s"
| "run_log env (LWrite l c f n g m) s = cb_log_write env l c f n g m s"

text \<open>The directory fits \<open>char[512]\<close>, the number of files an \<open>int\<close>.\<close>

definition config_ok :: "CBLogConfig \<Rightarrow> bool" where
  "config_ok c \<longleftrightarrow> length (lc_log_dir c) < 512 \<and> lc_max_rotated_files c < 2 ^ 31"

text \<open>
  The calls that are defined: \<open>log_typed\<close> is what the C types enforce, \<open>log_ok\<close> what a client has to respect: no second
  initialisation after one that failed, no callback before the first initialisation, and, once the system is initialised,
  a category of the table and no entry of the level \<open>CB_LOG_OFF\<close> for a coloured console. Reachable is whatever any
  sequence of calls leads to, as long as each is defined.
\<close>

fun log_typed :: "log_call \<Rightarrow> bool" where
  "log_typed (LInit (Some d)) \<longleftrightarrow> config_ok d"
| "log_typed _ \<longleftrightarrow> True"

fun log_ok :: "log \<Rightarrow> log_call \<Rightarrow> bool" where
  "log_ok s (LInit c) \<longleftrightarrow> lg_initialized s \<or> c = None \<or> lg_lock s = LockRaw"
| "log_ok s LInitDefault \<longleftrightarrow> lg_initialized s \<or> lg_lock s = LockRaw"
| "log_ok s (LCallback f) \<longleftrightarrow> lg_lock s \<noteq> LockRaw"
| "log_ok s (LWrite l c f n g m) \<longleftrightarrow>
     (lg_initialized s \<longrightarrow> c \<noteq> CB_LOG_CAT_COUNT \<and>
        (l = CB_LOG_OFF \<longrightarrow> \<not> (lc_enable_console (lg_config s) \<and> lc_enable_color (lg_config s))))"
| "log_ok s _ \<longleftrightarrow> True"

inductive log_reach :: "log_env \<Rightarrow> log \<Rightarrow> bool" for env where
  lreach_start: "log_reach env (log_zero files dirs)"
| lreach_call: "log_reach env s \<Longrightarrow> log_typed c \<Longrightarrow> run_log env c s = Some s' \<Longrightarrow> log_reach env s'"

definition log_wf :: "log \<Rightarrow> bool" where
  "log_wf s \<longleftrightarrow> length (lg_category_levels s) = 9 \<and> lg_lock s \<noteq> LockHeld \<and> config_ok (lg_config s) \<and>
     length (lg_log_file_path s) < 1024 \<and>
     (lg_initialized s \<longrightarrow> lg_lock s = LockFree) \<and> lg_dropped_entries s = 0 \<and>
     (\<forall>p. lg_log_file s = Some p \<longrightarrow> p = lg_log_file_path s \<and> lg_files s p \<noteq> None)"

section \<open>What the steps keep\<close>

lemma file_print_sel [simp]:
  "lg_initialized (file_print t s) = lg_initialized s" "lg_config (file_print t s) = lg_config s"
  "lg_log_file (file_print t s) = lg_log_file s" "lg_log_file_path (file_print t s) = lg_log_file_path s"
  "lg_lock (file_print t s) = lg_lock s" "lg_callback (file_print t s) = lg_callback s"
  "lg_category_levels (file_print t s) = lg_category_levels s" "lg_total_entries (file_print t s) = lg_total_entries s"
  "lg_dropped_entries (file_print t s) = lg_dropped_entries s" "lg_current_file_size (file_print t s) = lg_current_file_size s"
  "lg_console (file_print t s) = lg_console s" "lg_calls (file_print t s) = lg_calls s" "lg_clock (file_print t s) = lg_clock s"
  by (simp_all add: file_print_def split: option.splits)

lemma file_print_files [simp]:
  "lg_log_file s = Some p \<Longrightarrow> lg_files (file_print t s) = (lg_files s)(p \<mapsto> (case lg_files s p of None \<Rightarrow> t | Some c \<Rightarrow> c @ t))"
  "lg_log_file s = None \<Longrightarrow> file_print t s = s"
  by (simp_all add: file_print_def)

lemma err_print_sel [simp]:
  "lg_initialized (err_print t s) = lg_initialized s" "lg_config (err_print t s) = lg_config s"
  "lg_log_file (err_print t s) = lg_log_file s" "lg_log_file_path (err_print t s) = lg_log_file_path s"
  "lg_lock (err_print t s) = lg_lock s" "lg_callback (err_print t s) = lg_callback s"
  "lg_category_levels (err_print t s) = lg_category_levels s" "lg_total_entries (err_print t s) = lg_total_entries s"
  "lg_dropped_entries (err_print t s) = lg_dropped_entries s" "lg_current_file_size (err_print t s) = lg_current_file_size s"
  "lg_files (err_print t s) = lg_files s" "lg_calls (err_print t s) = lg_calls s" "lg_clock (err_print t s) = lg_clock s"
  by (simp_all add: err_print_def)

text \<open>Everything an entry does not touch: the settings and the counters.\<close>

definition same_log :: "log \<Rightarrow> log \<Rightarrow> bool" where
  "same_log s s' \<longleftrightarrow> lg_initialized s' = lg_initialized s \<and> lg_config s' = lg_config s \<and> lg_lock s' = lg_lock s \<and>
     lg_callback s' = lg_callback s \<and> lg_category_levels s' = lg_category_levels s \<and>
     lg_total_entries s' = lg_total_entries s \<and> lg_dropped_entries s' = lg_dropped_entries s \<and> lg_calls s' = lg_calls s"

definition file_wf :: "log \<Rightarrow> bool" where
  "file_wf s \<longleftrightarrow> length (lg_log_file_path s) < 1024 \<and> (\<forall>p. lg_log_file s = Some p \<longrightarrow> p = lg_log_file_path s \<and> lg_files s p \<noteq> None)"

lemma same_log_refl [simp]: "same_log s s"
  by (simp add: same_log_def)

lemma same_log_trans: "same_log s t \<Longrightarrow> same_log t u \<Longrightarrow> same_log s u"
  by (simp add: same_log_def)

lemma log_path_length [simp]: "length (log_path dir t) < 1024"
proof -
  have "length (into_buffer 1024 x) < 1024" for x by (simp add: into_buffer_def)
  then show ?thesis by (simp only: log_path_def)
qed

lemma open_keeps: "same_log s (snd (open_log_file env s)) \<and> file_wf (snd (open_log_file env s))"
  by (simp add: open_log_file_def read_clock_def Let_def same_log_def file_wf_def)

lemma rotate_keeps: "file_wf s \<Longrightarrow> same_log s (snd (cb_log_rotate env s)) \<and> file_wf (snd (cb_log_rotate env s))"
proof (cases "lg_log_file s")
  case None
  then show "file_wf s \<Longrightarrow> ?thesis" by (simp add: cb_log_rotate_def)
next
  case (Some p)
  let ?s = "s\<lparr>lg_log_file := None, lg_files := rename_file (lg_log_file_path s) (rotated (lg_log_file_path s) 0)
    (shift_rotated (lg_log_file_path s) (nat (lc_max_rotated_files (lg_config s) - 1)) (lg_files s))\<rparr>"
  have e: "cb_log_rotate env s = open_log_file env ?s" using Some by (simp add: cb_log_rotate_def Let_def)
  have "same_log s ?s" by (simp add: same_log_def)
  with open_keeps [of ?s env] same_log_trans [of s ?s] show ?thesis unfolding e by blast
qed

lemma write_file_keeps:
  assumes "file_wf s"
  shows "same_log s (write_file env e s) \<and> file_wf (write_file env e s)"
proof (cases "lc_enable_file (lg_config s) \<and> lg_log_file s \<noteq> None")
  case False
  with assms show ?thesis by (auto simp: write_file_def)
next
  case True
  let ?t = "file_line (lg_config s) e"
  let ?s = "(file_print ?t s)\<lparr>lg_current_file_size := lg_current_file_size s + of_nat (length ?t)\<rparr>"
  have w: "write_file env e s = (if lc_max_file_size (lg_config s) \<le> lg_current_file_size ?s then snd (cb_log_rotate env ?s) else ?s)"
    using True by (simp add: write_file_def Let_def)
  have k: "same_log s ?s" "file_wf ?s" using True assms by (auto simp: same_log_def file_wf_def)
  with rotate_keeps [OF k(2), of env] same_log_trans [OF k(1)] show ?thesis unfolding w by auto
qed

lemma level_color_some: "l \<noteq> CB_LOG_OFF \<Longrightarrow> \<exists>c. level_color l = Some c"
  by (cases l) (simp_all add: level_color_def level_colors_def)

lemma write_console_total:
  assumes "le_level e = CB_LOG_OFF \<longrightarrow> \<not> (lc_enable_console (lg_config s) \<and> lc_enable_color (lg_config s))"
  shows "\<exists>t. write_console e s = Some t \<and> same_log s t \<and> (file_wf s \<longrightarrow> file_wf t) \<and>
    lg_log_file t = lg_log_file s \<and> lg_files t = lg_files s"
proof (cases "lc_enable_console (lg_config s) \<and> CB_LOG_WARN \<le> le_level e")
  case False
  then show ?thesis by (auto simp: write_console_def)
next
  case True
  obtain t where "console_text (lg_config s) e = Some t"
    using True assms level_color_some [of "le_level e"] by (cases "lc_enable_color (lg_config s)") (auto simp: console_text_def Let_def)
  with True show ?thesis by (auto simp: write_console_def same_log_def file_wf_def)
qed

text \<open>An entry that passes the filter: written, counted and handed to the callback.\<close>

lemma write_accepted:
  assumes w: "log_wf s" "lg_initialized s" and c: "log_ok s (LWrite l c f n g m)"
    and a: "\<not> l < lg_category_levels s ! category_num c"
  shows "\<exists>s'. cb_log_write env l c f n g m s = Some s' \<and> log_wf s' \<and> lg_initialized s' \<and> lg_config s' = lg_config s \<and>
    lg_callback s' = lg_callback s \<and> lg_category_levels s' = lg_category_levels s \<and>
    lg_total_entries s' = lg_total_entries s + 1 \<and>
    lg_calls s' = lg_calls s @ (case lg_callback s of None \<Rightarrow> [] | Some d \<Rightarrow>
      [(\<lparr>le_level = l, le_category = c, le_timestamp = en_time env (lg_clock s), le_file = f, le_line = n, le_func = g,
         le_message = into_buffer 2048 m\<rparr>, d)])"
proof -
  let ?e = "\<lparr>le_level = l, le_category = c, le_timestamp = en_time env (lg_clock s), le_file = f, le_line = n, le_func = g,
    le_message = into_buffer 2048 m\<rparr>"
  let ?s = "s\<lparr>lg_clock := Suc (lg_clock s), lg_lock := LockHeld, lg_total_entries := lg_total_entries s + 1\<rparr>"
  have cat: "category_num c < 9" using c w(2) by (cases c) simp_all
  have "le_level ?e = CB_LOG_OFF \<longrightarrow> \<not> (lc_enable_console (lg_config ?s) \<and> lc_enable_color (lg_config ?s))" using c w(2) by simp
  from write_console_total [OF this] obtain t where t: "write_console ?e ?s = Some t" "same_log ?s t" "file_wf ?s \<longrightarrow> file_wf t" by blast
  have fs: "file_wf ?s" using w(1) by (simp add: file_wf_def log_wf_def)
  with t(3) write_file_keeps [of t env ?e] have k: "same_log t (write_file env ?e t)" "file_wf (write_file env ?e t)" by blast+
  have u: "same_log ?s (write_file env ?e t)" by (rule same_log_trans [OF t(2) k(1)])
  have "lg_lock (call_back ?e (write_file env ?e t)) = LockHeld" using u by (simp add: same_log_def call_back_def split: option.splits)
  then have "cb_log_write env l c f n g m s = Some ((call_back ?e (write_file env ?e t))\<lparr>lg_lock := LockFree\<rparr>)"
    using w cat a t(1) by (simp add: cb_log_write_def log_wf_def read_clock_def log_lock_def log_unlock_def Let_def)
  moreover have "log_wf ((call_back ?e (write_file env ?e t))\<lparr>lg_lock := LockFree\<rparr>)"
    using w(1) k(2) u by (auto simp: log_wf_def file_wf_def same_log_def call_back_def split: option.splits)
  ultimately show ?thesis using u w(2) by (auto simp: same_log_def call_back_def split: option.splits)
qed

lemma write_total:
  assumes w: "log_wf s" and c: "log_ok s (LWrite l c f n g m)"
  shows "\<exists>s'. cb_log_write env l c f n g m s = Some s' \<and> log_wf s'"
proof -
  have cat: "category_num c < 9" if "lg_initialized s" using c that by (cases c) simp_all
  show ?thesis
  proof (cases "lg_initialized s \<and> \<not> l < lg_category_levels s ! category_num c")
    case True
    with write_accepted [OF w _ c, of env] show ?thesis by blast
  next
    case False
    with w cat show ?thesis by (auto simp: cb_log_write_def log_wf_def)
  qed
qed

lemma log_init_total:
  assumes w: "log_wf s" and l: "lg_initialized s \<or> c = None \<or> lg_lock s = LockRaw" and o: "\<forall>d. c = Some d \<longrightarrow> config_ok d"
  shows "\<exists>r s'. cb_log_init env c s = Some (r, s') \<and> log_wf s'"
proof (cases "lg_initialized s \<or> c = None")
  case True
  with w show ?thesis by (auto simp: cb_log_init_def)
next
  case False
  then obtain d where d: "c = Some d" by auto
  let ?s = "s\<lparr>lg_config := d, lg_lock := LockFree, lg_category_levels := replicate 9 (lc_min_level d)\<rparr>"
  have fin: "log_wf (err_print t u)" "log_wf (u\<lparr>lg_total_entries := 0, lg_dropped_entries := 0, lg_initialized := True\<rparr>)"
    if "same_log ?s u" "file_wf u" for t u
    using that w False o d by (auto simp: log_wf_def file_wf_def same_log_def err_print_def)
  have s: "same_log ?s ?s" "file_wf ?s" using w by (simp_all add: file_wf_def log_wf_def)
  obtain r u where e: "ensure_log_dir env (lc_log_dir d) ?s = (r, u)" by fastforce
  then have u: "same_log ?s u" "file_wf u" using s(2) by (auto simp: ensure_log_dir_def same_log_def file_wf_def split: if_splits)
  obtain q v where v: "open_log_file env u = (q, v)" by fastforce
  with open_keeps [of u env] same_log_trans [OF u(1)] have v': "same_log ?s v" "file_wf v" by auto
  show ?thesis using False l d e v fin [OF s] fin [OF u] fin [OF v']
    by (auto simp: cb_log_init_def Let_def split: if_splits)
qed

lemma log_call_total:
  assumes w: "log_wf s" and t: "log_typed c" and c: "log_ok s c"
  shows "\<exists>s'. run_log env c s = Some s' \<and> log_wf s'"
proof (cases c)
  case (LInit d)
  with log_init_total [OF w, of d env] c t show ?thesis by (cases d) auto
next
  case LInitDefault
  have "config_ok (default_log_config env)" by (simp add: config_ok_def default_log_config_def into_buffer_def)
  with log_init_total [OF w, of "Some (default_log_config env)" env] c LInitDefault show ?thesis by (auto simp: cb_log_init_default_def)
next
  case LShutdown
  with w show ?thesis by (auto simp: cb_log_shutdown_def log_lock_def log_unlock_def log_wf_def Let_def)
next
  case (LLevel l)
  with w show ?thesis by (simp add: cb_log_set_level_def log_wf_def config_ok_def)
next
  case (LCategory a l)
  with w show ?thesis by (simp add: cb_log_set_category_level_def log_wf_def)
next
  case (LCallback f)
  have "lg_lock s = LockFree" using w c LCallback by (cases "lg_lock s") (simp_all add: log_wf_def)
  with LCallback w show ?thesis by (simp add: cb_log_set_callback_def log_lock_def log_unlock_def log_wf_def)
next
  case LRotate
  have "file_wf s" using w by (simp add: file_wf_def log_wf_def)
  from rotate_keeps [OF this, of env] w LRotate show ?thesis by (auto simp: log_wf_def file_wf_def same_log_def)
next
  case LFlush
  with w show ?thesis by (simp add: cb_log_flush_def log_lock_def log_unlock_def log_wf_def)
next
  case (LWrite l a f n g m)
  with write_total [OF w, of l a f n g m env] c show ?thesis by simp
qed

text \<open>The other calls are undefined.\<close>

lemma log_call_undefined:
  assumes w: "log_wf s" and c: "\<not> log_ok s c"
  shows "run_log env c s = None"
proof (cases c)
  case (LInit d)
  with c show ?thesis by (auto simp: cb_log_init_def)
next
  case LInitDefault
  with c show ?thesis by (simp add: cb_log_init_default_def cb_log_init_def)
next
  case (LCallback f)
  with c show ?thesis by (simp add: cb_log_set_callback_def log_lock_def)
next
  case (LWrite l a f n g m)
  have "\<not> CB_LOG_OFF < x" for x by (cases x) (simp_all add: less_CBLogLevel_def)
  moreover have "level_color CB_LOG_OFF = None" by (simp add: level_color_def level_colors_def)
  moreover have "CB_LOG_WARN \<le> CB_LOG_OFF" by (simp add: less_eq_CBLogLevel_def)
  moreover have "lg_initialized s" and "length (lg_category_levels s) = 9" using w c LWrite by (simp_all add: log_wf_def)
  ultimately show ?thesis using c LWrite
    by (cases "a = CB_LOG_CAT_COUNT")
       (auto simp: cb_log_write_def read_clock_def log_lock_def write_console_def console_text_def Let_def)
qed (use c in simp_all)

lemma zero_log_wf: "log_wf (log_zero files dirs)"
  by (simp add: log_wf_def log_zero_def config_ok_def config_zero_def)

lemma lreach_wf: "log_reach env s \<Longrightarrow> log_wf s"
proof (induction rule: log_reach.induct)
  case (lreach_call s c s')
  have "log_ok s c" using log_call_undefined [OF lreach_call.IH, of c env] lreach_call.hyps(3) by auto
  from log_call_total [OF lreach_call.IH lreach_call.hyps(2) this, of env] lreach_call.hyps(3) show ?case by auto
qed (rule zero_log_wf)

section \<open>The filter\<close>

type_synonym log_request = "CBLogLevel \<times> CBLogCategory \<times> string \<times> int \<times> string \<times> string"

fun write_all :: "log_env \<Rightarrow> log_request list \<Rightarrow> log \<Rightarrow> log option" where
  "write_all env [] s = Some s"
| "write_all env ((l, c, f, n, g, m) # ws) s = Option.bind (cb_log_write env l c f n g m s) (write_all env ws)"

fun passes :: "CBLogLevel list \<Rightarrow> log_request \<Rightarrow> bool" where
  "passes levels (l, c, _) \<longleftrightarrow> levels ! category_num c \<le> l"

fun request_ok :: "log \<Rightarrow> log_request \<Rightarrow> bool" where
  "request_ok s (l, c, f, n, g, m) \<longleftrightarrow> log_ok s (LWrite l c f n g m)"

fun cut_message :: "log_request \<Rightarrow> log_request" where
  "cut_message (l, c, f, n, g, m) = (l, c, f, n, g, take 2047 m)"

definition entry_request :: "CBLogEntry \<Rightarrow> log_request" where
  "entry_request e = (le_level e, le_category e, le_file e, le_line e, le_func e, le_message e)"

definition handed :: "log \<Rightarrow> log_request list" where
  "handed s = map (\<lambda>c. entry_request (fst c)) (lg_calls s)"

lemma write_all_exact:
  "log_wf s \<Longrightarrow> lg_initialized s \<Longrightarrow> lg_callback s = Some d \<Longrightarrow> \<forall>w \<in> set ws. request_ok s w \<Longrightarrow>
   \<exists>s'. write_all env ws s = Some s' \<and> log_wf s' \<and>
     handed s' = handed s @ map cut_message (filter (passes (lg_category_levels s)) ws) \<and>
     lg_total_entries s' = lg_total_entries s + of_nat (length (filter (passes (lg_category_levels s)) ws))"
proof (induction ws arbitrary: s)
  case (Cons w ws)
  obtain l c f n g m where w: "w = (l, c, f, n, g, m)" by (cases w)
  have ok: "log_ok s (LWrite l c f n g m)" using Cons.prems(4) w by simp
  show ?case
  proof (cases "l < lg_category_levels s ! category_num c")
    case True
    have "category_num c < 9" using ok Cons.prems(2) by (cases c) simp_all
    with True Cons.prems(1,2) have "cb_log_write env l c f n g m s = Some s" by (simp add: cb_log_write_def log_wf_def)
    moreover have "passes (lg_category_levels s) w = False" using True w by (simp add: not_le)
    ultimately show ?thesis using w Cons.IH [of s] Cons.prems by simp
  next
    case False
    from write_accepted [OF Cons.prems(1,2) ok False, of env] Cons.prems(3) obtain u where
      u: "cb_log_write env l c f n g m s = Some u" "log_wf u" "lg_initialized u" "lg_config u = lg_config s"
        "lg_callback u = Some d" "lg_category_levels u = lg_category_levels s" "lg_total_entries u = lg_total_entries s + 1"
        "handed u = handed s @ [cut_message w]"
      by (auto simp: handed_def entry_request_def w into_buffer_def)
    have "request_ok u v" if "request_ok s v" for v using that u(4) Cons.prems(2) by (cases v) auto
    with Cons.IH [OF u(2,3,5)] Cons.prems(4) u(1,6-8) False w show ?thesis by (auto simp: not_less)
  qed
qed simp

section \<open>Rotation\<close>

lemma dec_length: "n < 10 ^ k \<Longrightarrow> 0 < k \<Longrightarrow> length (dec n) \<le> k"
proof (induction k arbitrary: n)
  case (Suc k)
  show ?case
  proof (cases "n < 10")
    case True
    then show ?thesis by (simp add: dec_def base_text.simps)
  next
    case False
    then have "0 < k" using Suc.prems(1) by (cases k) auto
    moreover have "n div 10 < 10 ^ k" using Suc.prems(1) by (simp add: less_mult_imp_div_less mult.commute)
    ultimately have "length (dec (n div 10)) \<le> k" by (rule Suc.IH [rotated])
    with False show ?thesis by (simp add: dec_def base_text.simps [of 10 n])
  qed
qed simp

lemma rotated_eq:
  assumes "length p < 1024" and "i < 2 ^ 31"
  shows "rotated p i = p @ ''.'' @ dec i"
proof -
  have "length (dec i) \<le> 10" using dec_length [of i 10] assms(2) by simp
  with assms(1) show ?thesis by (simp add: rotated_def into_buffer_def)
qed

lemma last_dec: "is_digit (last (dec n))"
  by (rule dec_digits [of _ n]) simp

lemma rotated_inj:
  "length p < 1024 \<Longrightarrow> length q < 1024 \<Longrightarrow> i < 2 ^ 31 \<Longrightarrow> j < 2 ^ 31 \<Longrightarrow> rotated p i = rotated q j \<longleftrightarrow> p = q \<and> i = j"
proof -
  assume l: "length p < 1024" "length q < 1024" "i < 2 ^ 31" "j < 2 ^ 31"
  have nd: "CHR ''.'' \<notin> set (dec n)" for n using dec_digits [of "CHR ''.''" n] by (auto simp: is_digit_def)
  have "rev (dec i) = rev (dec j) \<and> rev p = rev q" if "p @ ''.'' @ dec i = q @ ''.'' @ dec j"
  proof -
    have e: "rev (dec i) @ CHR ''.'' # rev p = rev (dec j) @ CHR ''.'' # rev q" using arg_cong [OF that, of rev] by (simp only: rev_append rev.simps append_Nil append_Cons append_assoc)
    have tw: "takeWhile (\<lambda>c. c \<noteq> CHR ''.'') (rev (dec n) @ CHR ''.'' # r) = rev (dec n)" for n r
      using nd [of n] by (subst takeWhile_append2) auto
    from arg_cong [OF e, of "takeWhile (\<lambda>c. c \<noteq> CHR ''.'')"] have "rev (dec i) = rev (dec j)" by (simp only: tw)
    with e show ?thesis by simp
  qed
  with l show ?thesis by (auto simp: rotated_eq)
qed

lemma rotated_not_self [simp]: "length p < 1024 \<Longrightarrow> i < 2 ^ 31 \<Longrightarrow> rotated p i \<noteq> p"
  by (simp add: rotated_eq)

lemma rename_at:
  "rename_file old new files old = (if old = new then files old else None)"
  "old \<noteq> new \<Longrightarrow> rename_file old new files new = (case files old of None \<Rightarrow> files new | Some c \<Rightarrow> Some c)"
  "q \<noteq> old \<Longrightarrow> q \<noteq> new \<Longrightarrow> rename_file old new files q = files q"
  by (auto simp: rename_file_def split: option.splits)

lemma shift_closed:
  assumes p: "length p < 1024"
  shows "k < 2 ^ 31 \<Longrightarrow>
    (\<forall>i. 0 < i \<and> i < k \<longrightarrow> shift_rotated p k files (rotated p i) = files (rotated p (i - 1))) \<and>
    (0 < k \<longrightarrow> shift_rotated p k files (rotated p 0) = None) \<and>
    (0 < k \<longrightarrow> shift_rotated p k files (rotated p k) =
       (case files (rotated p (k - 1)) of None \<Rightarrow> files (rotated p k) | Some c \<Rightarrow> Some c)) \<and>
    (\<forall>q. (\<forall>i \<le> k. q \<noteq> rotated p i) \<longrightarrow> shift_rotated p k files q = files q)"
proof (induction k arbitrary: files)
  case (Suc k)
  let ?f = "rename_file (rotated p k) (rotated p (Suc k)) files"
  have ne: "rotated p i = rotated p j \<longleftrightarrow> i = j" if "i \<le> Suc k" "j \<le> Suc k" for i j
    using rotated_inj [OF p p, of i j] that Suc.prems by simp
  have f: "?f (rotated p k) = None" "?f (rotated p (Suc k)) = (case files (rotated p k) of None \<Rightarrow> files (rotated p (Suc k)) | Some c \<Rightarrow> Some c)"
    "\<And>i. i < k \<Longrightarrow> ?f (rotated p i) = files (rotated p i)"
    "\<And>q. \<forall>i \<le> Suc k. q \<noteq> rotated p i \<Longrightarrow> ?f q = files q"
    using ne by (auto simp: rename_at)
  have "\<forall>i \<le> k. rotated p (Suc k) \<noteq> rotated p i" using ne by auto
  with Suc.IH [of ?f] Suc.prems have last: "shift_rotated p k ?f (rotated p (Suc k)) = ?f (rotated p (Suc k))" by auto
  have mid: "shift_rotated p k ?f (rotated p i) = files (rotated p (i - 1))" if i: "0 < i" "i < Suc k" for i
  proof (cases "i = k")
    case True
    with Suc.IH [of ?f] Suc.prems i f(1) f(3) [of "k - 1"] show ?thesis by (auto split: option.splits)
  next
    case False
    with Suc.IH [of ?f] Suc.prems i f(3) [of "i - 1"] show ?thesis by auto
  qed
  have zero: "shift_rotated p k ?f (rotated p 0) = None"
    using Suc.IH [of ?f] Suc.prems f(1) by (cases "k = 0") auto
  from Suc.IH [of ?f] Suc.prems f(4) have rest: "shift_rotated p k ?f q = files q" if "\<forall>i \<le> Suc k. q \<noteq> rotated p i" for q
    using that by auto
  show ?case using last mid zero rest f(2) by simp
qed simp

text \<open>A reading of the clock: four digits for the year, two for the rest.\<close>

definition time_ok :: "log_time \<Rightarrow> bool" where
  "time_ok t \<longleftrightarrow> tm_year t + 1900 < 10 ^ 4 \<and> tm_mon t + 1 < 10 ^ 2 \<and> tm_mday t < 10 ^ 2 \<and> tm_hour t < 10 ^ 2 \<and>
     tm_min t < 10 ^ 2 \<and> tm_sec t < 10 ^ 2"

lemma zeros_length: "n < 10 ^ w \<Longrightarrow> 0 < w \<Longrightarrow> length (zeros w (dec n)) = w"
  using dec_length [of n w] by (simp add: zeros_def)

lemma stamp_length: "time_ok t \<Longrightarrow> length (file_stamp t) = 15"
  by (simp add: time_ok_def file_stamp_def zeros_length)

lemma log_path_eq: "time_ok t \<Longrightarrow> length dir < 512 \<Longrightarrow> log_path dir t = dir @ ''/cudabridge_'' @ file_stamp t @ ''.log''"
  by (simp add: log_path_def into_buffer_def stamp_length)

lemma log_path_not_rotated:
  assumes "time_ok t" and "length dir < 512" and "length p < 1024" and "i < 2 ^ 31"
  shows "log_path dir t \<noteq> rotated p i"
proof
  assume "log_path dir t = rotated p i"
  then have "last (log_path dir t) = last (rotated p i)" by simp
  then have "last (dec i) = CHR ''g''" using assms by (simp add: log_path_eq rotated_eq)
  with last_dec [of i] show False by (simp add: is_digit_def)
qed

definition next_path :: "log_env \<Rightarrow> log \<Rightarrow> string" where
  "next_path env s = log_path (lc_log_dir (lg_config s)) (en_time env (lg_clock s))"

definition opens :: "log_env \<Rightarrow> log \<Rightarrow> bool" where
  "opens env s \<longleftrightarrow> en_fopen env (Suc (lg_clock s)) (next_path env s)"

lemma rotate_files:
  assumes "lg_log_file s \<noteq> None" and "opens env s"
  defines "p \<equiv> lg_log_file_path s" and "k \<equiv> nat (lc_max_rotated_files (lg_config s) - 1)"
  defines "mid \<equiv> rename_file p (rotated p 0) (shift_rotated p k (lg_files s))"
  shows "\<exists>s'. cb_log_rotate env s = (0, s') \<and> lg_log_file s' = Some (next_path env s) \<and>
    lg_log_file_path s' = next_path env s \<and> lg_config s' = lg_config s \<and> lg_clock s' = Suc (lg_clock s) \<and>
    lg_current_file_size s' = 0 \<and>
    lg_files s' = mid(next_path env s \<mapsto> (case mid (next_path env s) of None \<Rightarrow> [] | Some c \<Rightarrow> c) @ log_header (en_time env (lg_clock s)))"
  using assms
  by (auto simp: cb_log_rotate_def open_log_file_def read_clock_def next_path_def opens_def Let_def split: option.splits)

section \<open>The number of files\<close>

fun rotate_times :: "log_env \<Rightarrow> nat \<Rightarrow> log \<Rightarrow> log" where
  "rotate_times env 0 s = s"
| "rotate_times env (Suc n) s = rotate_times env n (snd (cb_log_rotate env s))"

lemma shift_nothing: "\<forall>i \<le> k. files (rotated p i) = None \<Longrightarrow> shift_rotated p k files = files"
  by (induction k) (simp_all add: rename_file_def)

definition path_at :: "log_env \<Rightarrow> string \<Rightarrow> nat \<Rightarrow> string" where
  "path_at env dir m = log_path dir (en_time env m)"

definition clear_of :: "(string \<rightharpoonup> string) \<Rightarrow> string \<Rightarrow> bool" where
  "clear_of files p \<longleftrightarrow> (\<forall>i < 2 ^ 31. files (rotated p i) = None)"

lemma rotate_fresh:
  assumes w: "log_wf s" and o: "lg_log_file s = Some p" and c: "clear_of (lg_files s) p"
    and q: "next_path env s \<notin> dom (lg_files s)" "next_path env s \<noteq> rotated p 0" "opens env s"
  shows "\<exists>s'. cb_log_rotate env s = (0, s') \<and> log_wf s' \<and> lg_log_file s' = Some (next_path env s) \<and>
    lg_config s' = lg_config s \<and> lg_clock s' = Suc (lg_clock s) \<and>
    dom (lg_files s') = insert (next_path env s) (insert (rotated p 0) (dom (lg_files s) - {p}))"
proof -
  let ?k = "nat (lc_max_rotated_files (lg_config s) - 1)"
  have p: "p = lg_log_file_path s" "length p < 1024" "p \<in> dom (lg_files s)" using w o by (auto simp: log_wf_def)
  have "?k < 2 ^ 31" using w by (auto simp: log_wf_def config_ok_def)
  then have sh: "shift_rotated p ?k (lg_files s) = lg_files s" using c by (intro shift_nothing) (auto simp: clear_of_def)
  from rotate_files [of s env] o q(3) p(1) sh obtain s' where
    s': "cb_log_rotate env s = (0, s')" "lg_log_file s' = Some (next_path env s)" "lg_config s' = lg_config s"
      "lg_clock s' = Suc (lg_clock s)"
      "dom (lg_files s') = insert (next_path env s) (dom (rename_file p (rotated p 0) (lg_files s)))" by auto
  moreover have "log_wf s'" using log_call_total [OF w, of LRotate env] s'(1) by simp
  moreover have "dom (rename_file p (rotated p 0) (lg_files s)) = insert (rotated p 0) (dom (lg_files s) - {p})"
    using p(2,3) by (auto simp: rename_file_def split: if_splits)
  ultimately show ?thesis by auto
qed

lemma rotate_grows:
  "log_wf s \<Longrightarrow> lg_log_file s = Some p \<Longrightarrow> clear_of (lg_files s) p \<Longrightarrow> finite (dom (lg_files s)) \<Longrightarrow>
   \<forall>m \<in> {lg_clock s..<lg_clock s + n}. time_ok (en_time env m) \<and> en_fopen env (Suc m) (path_at env dir m) \<and>
     path_at env dir m \<notin> dom (lg_files s) \<and> clear_of (lg_files s) (path_at env dir m) \<Longrightarrow>
   inj_on (path_at env dir) {lg_clock s..<lg_clock s + n} \<Longrightarrow> lc_log_dir (lg_config s) = dir \<Longrightarrow>
   card (dom (lg_files (rotate_times env n s))) = card (dom (lg_files s)) + n"
proof (induction n arbitrary: s p)
  case (Suc n)
  let ?t = "lg_clock s" and ?q = "path_at env dir (lg_clock s)"
  have nq: "next_path env s = ?q" using Suc.prems(7) by (simp add: next_path_def path_at_def)
  have p: "length p < 1024" "p \<in> dom (lg_files s)" using Suc.prems(1,2) by (auto simp: log_wf_def)
  have d: "length dir < 512" using Suc.prems(1,7) by (simp add: log_wf_def config_ok_def)
  have now: "time_ok (en_time env ?t)" "en_fopen env (Suc ?t) ?q" "?q \<notin> dom (lg_files s)" "clear_of (lg_files s) ?q"
    using Suc.prems(5) by auto
  have nr: "path_at env dir m \<noteq> rotated r i" if "time_ok (en_time env m)" "length r < 1024" "i < 2 ^ 31" for m r i
    using log_path_not_rotated [OF that(1) d that(2,3)] by (simp add: path_at_def)
  have ql: "length (path_at env dir m) < 1024" for m by (simp add: path_at_def)
  from rotate_fresh [OF Suc.prems(1-3), of env] nq now nr [OF now(1) p(1), of 0] obtain u where
    u: "cb_log_rotate env s = (0, u)" "log_wf u" "lg_log_file u = Some ?q" "lg_config u = lg_config s" "lg_clock u = Suc ?t"
      "dom (lg_files u) = insert ?q (insert (rotated p 0) (dom (lg_files s) - {p}))"
    by (auto simp: opens_def)
  have du: "x \<notin> dom (lg_files u)" if "x \<notin> dom (lg_files s)" "x \<noteq> ?q" "x \<noteq> rotated p 0" for x
    using that u(6) by auto
  have cl: "clear_of (lg_files u) r" if "clear_of (lg_files s) r" "r \<noteq> p" "length r < 1024" for r
    unfolding clear_of_def
  proof (intro allI impI)
    fix i :: nat
    assume i: "i < 2 ^ 31"
    have "rotated r i \<notin> dom (lg_files s)" using that(1) i by (auto simp: clear_of_def)
    moreover have "rotated r i \<noteq> ?q" using nr [OF now(1) that(3) i] by simp
    moreover have "rotated r i \<noteq> rotated p 0" using rotated_inj [OF that(3) p(1) i, of 0] that(2) by simp
    ultimately have "rotated r i \<notin> dom (lg_files u)" by (rule du)
    then show "lg_files u (rotated r i) = None" by auto
  qed
  have later: "time_ok (en_time env m) \<and> en_fopen env (Suc m) (path_at env dir m) \<and> path_at env dir m \<notin> dom (lg_files u) \<and>
      clear_of (lg_files u) (path_at env dir m)" if "m \<in> {lg_clock u..<lg_clock u + n}" for m
  proof -
    have m: "m \<in> {?t..<?t + Suc n}" "m \<noteq> ?t" using that u(5) by auto
    with Suc.prems(5) have b: "time_ok (en_time env m)" "en_fopen env (Suc m) (path_at env dir m)"
      "path_at env dir m \<notin> dom (lg_files s)" "clear_of (lg_files s) (path_at env dir m)" by blast+
    moreover have "path_at env dir m \<noteq> ?q" using inj_onD [OF Suc.prems(6) _ m(1), of ?t] m(2) by auto
    moreover have "path_at env dir m \<noteq> rotated p 0" by (rule nr [OF b(1) p(1)]) simp
    moreover have "path_at env dir m \<noteq> p" using b(3) p(2) by auto
    ultimately show ?thesis using du cl ql by blast
  qed
  have "clear_of (lg_files u) ?q" using now(3,4) p(2) ql by (intro cl) auto
  moreover have "inj_on (path_at env dir) {lg_clock u..<lg_clock u + n}"
    by (rule inj_on_subset [OF Suc.prems(6)]) (use u(5) in auto)
  moreover have "finite (dom (lg_files u))" using Suc.prems(4) u(6) by simp
  ultimately have ih: "card (dom (lg_files (rotate_times env n u))) = card (dom (lg_files u)) + n"
    using later u(4) Suc.prems(7) by (intro Suc.IH [OF u(2,3)]) auto
  have "rotated p 0 \<notin> dom (lg_files s) - {p}" using Suc.prems(3) by (auto simp: clear_of_def)
  moreover have "?q \<notin> insert (rotated p 0) (dom (lg_files s) - {p})" using now(3) nr [OF now(1) p(1), of 0] by auto
  ultimately have "card (dom (lg_files u)) = card (dom (lg_files s)) + 1"
    using Suc.prems(4) p(2) u(6) card_Suc_Diff1 [OF Suc.prems(4) p(2)] by simp
  with ih u(1) show ?case by simp
qed simp

section \<open>Properties\<close>

text \<open>
  C18. Calls of the logging system in any order, with arguments the C types admit: a call in a reachable state returns
  if it satisfies \<open>log_ok\<close>, and the state is again well-formed: nine category levels, the mutex free whenever the system is
  initialised and never left locked, the open file present under the path on record, and the counter of dropped entries
  still 0 (it is never incremented). Every other call is undefined: a second initialisation after a failed one, a callback
  set before the first initialisation, a category outside the table, and an entry of the level \<open>CB_LOG_OFF\<close> with colours.
\<close>

theorem log_calls_defined:
  assumes "log_reach env s" and "log_typed c"
  shows "if log_ok s c then
      \<exists>s'. run_log env c s = Some s' \<and> log_reach env s' \<and> length (lg_category_levels s') = 9 \<and>
        lg_lock s' \<noteq> LockHeld \<and> (lg_initialized s' \<longrightarrow> lg_lock s' = LockFree) \<and>
        (\<forall>p. lg_log_file s' = Some p \<longrightarrow> p = lg_log_file_path s' \<and> lg_files s' p \<noteq> None) \<and> snd (cb_log_get_stats s') = 0
    else run_log env c s = None"
proof (cases "log_ok s c")
  case True
  from log_call_total [OF lreach_wf [OF assms(1)] assms(2) True, of env] obtain s' where s': "run_log env c s = Some s'" "log_wf s'"
    by blast
  with True lreach_call [OF assms s'(1)] show ?thesis by (simp add: log_wf_def cb_log_get_stats_def)
qed (simp add: log_call_undefined [OF lreach_wf [OF assms(1)]])

definition demo_time :: "nat \<Rightarrow> log_time" where
  "demo_time n = \<lparr>tm_year = 125, tm_mon = 0, tm_mday = 1, tm_hour = 12, tm_min = 0, tm_sec = n, tv_nsec = 0\<rparr>"

definition demo_log_env :: log_env where
  "demo_log_env = \<lparr>en_time = demo_time, en_fopen = (\<lambda>_ _. True), en_mkdir = (\<lambda>_. True), en_isatty = False\<rparr>"

definition demo_config :: CBLogConfig where
  "demo_config = default_log_config demo_log_env"

definition demo_log :: log where
  "demo_log = snd (the (cb_log_init demo_log_env (Some demo_config) (log_zero Map.empty (\<lambda>_. False))))"

lemma demo_config_sel [simp]: "lc_enable_file demo_config" "config_ok demo_config" "lc_min_level demo_config = CB_LOG_INFO"
  "length (lc_log_dir demo_config) = 20" "lc_max_rotated_files demo_config = 5" "\<not> lc_enable_color demo_config"
  by (simp_all add: demo_config_def default_log_config_def config_ok_def into_buffer_def demo_log_env_def)

lemma init_file:
  assumes "lc_enable_file c" and "en_mkdir env (lc_log_dir c)" and "en_fopen env (Suc 0) (path_at env (lc_log_dir c) 0)"
  shows "\<exists>s. cb_log_init env (Some c) (log_zero Map.empty (\<lambda>_. False)) = Some (0, s) \<and> lg_initialized s \<and>
    lg_config s = c \<and> lg_log_file s = Some (path_at env (lc_log_dir c) 0) \<and> lg_clock s = 1 \<and>
    dom (lg_files s) = {path_at env (lc_log_dir c) 0} \<and> lg_callback s = None \<and> lg_lock s = LockFree \<and>
    lg_category_levels s = replicate 9 (lc_min_level c) \<and> lg_total_entries s = 0"
  using assms
  by (simp add: cb_log_init_def log_zero_def ensure_log_dir_def open_log_file_def read_clock_def path_at_def Let_def)

lemma demo_env_sel [simp]: "en_mkdir demo_log_env d" "en_fopen demo_log_env n p" "en_time demo_log_env = demo_time"
  by (simp_all add: demo_log_env_def)

lemma demo_log_sel: "cb_log_init demo_log_env (Some demo_config) (log_zero Map.empty (\<lambda>_. False)) = Some (0, demo_log)"
  "lg_initialized demo_log" "lg_config demo_log = demo_config" "lg_clock demo_log = 1" "lg_lock demo_log = LockFree"
  "lg_category_levels demo_log = replicate 9 CB_LOG_INFO" "lg_callback demo_log = None" "lg_total_entries demo_log = 0"
  "lg_log_file demo_log = Some (path_at demo_log_env (lc_log_dir demo_config) 0)"
  "dom (lg_files demo_log) = {path_at demo_log_env (lc_log_dir demo_config) 0}"
proof -
  from init_file [of demo_config demo_log_env] obtain s where
    s: "cb_log_init demo_log_env (Some demo_config) (log_zero Map.empty (\<lambda>_. False)) = Some (0, s)"
      "lg_initialized s" "lg_config s = demo_config" "lg_log_file s = Some (path_at demo_log_env (lc_log_dir demo_config) 0)"
      "lg_clock s = 1" "dom (lg_files s) = {path_at demo_log_env (lc_log_dir demo_config) 0}" "lg_callback s = None"
      "lg_lock s = LockFree" "lg_category_levels s = replicate 9 CB_LOG_INFO" "lg_total_entries s = 0" by auto
  have "demo_log = s" by (simp add: demo_log_def s(1))
  with s show "cb_log_init demo_log_env (Some demo_config) (log_zero Map.empty (\<lambda>_. False)) = Some (0, demo_log)"
    "lg_initialized demo_log" "lg_config demo_log = demo_config" "lg_clock demo_log = 1" "lg_lock demo_log = LockFree"
    "lg_category_levels demo_log = replicate 9 CB_LOG_INFO" "lg_callback demo_log = None" "lg_total_entries demo_log = 0"
    "lg_log_file demo_log = Some (path_at demo_log_env (lc_log_dir demo_config) 0)"
    "dom (lg_files demo_log) = {path_at demo_log_env (lc_log_dir demo_config) 0}" by simp_all
qed

lemma demo_log_reach: "log_reach demo_log_env demo_log"
  by (rule lreach_call [where c = "LInit (Some demo_config)", OF lreach_start [of _ Map.empty "\<lambda>_. False"]])
    (simp_all add: demo_log_sel(1))

theorem log_calls_defined_witness:
  "\<exists>s'. cb_log_write demo_log_env CB_LOG_ERROR CB_LOG_CAT_CLI ''a.c'' 7 ''f'' ''message'' demo_log = Some s' \<and>
     lg_lock s' = LockFree \<and> cb_log_shutdown s' \<noteq> None"
proof -
  from log_calls_defined [OF demo_log_reach, of "LWrite CB_LOG_ERROR CB_LOG_CAT_CLI ''a.c'' 7 ''f'' ''message''"] obtain s' where
    s': "cb_log_write demo_log_env CB_LOG_ERROR CB_LOG_CAT_CLI ''a.c'' 7 ''f'' ''message'' demo_log = Some s'"
      "log_reach demo_log_env s'" "lg_lock s' \<noteq> LockHeld" by auto
  from write_accepted [OF lreach_wf [OF demo_log_reach] demo_log_sel(2), of CB_LOG_ERROR CB_LOG_CAT_CLI "''a.c''" 7 "''f''" "''message''" demo_log_env]
    s'(1) have i: "lg_initialized s'" "log_wf s'" by (auto simp: demo_log_sel less_CBLogLevel_def)
  from log_calls_defined [OF s'(2), of LShutdown] i s'(1) show ?thesis by (auto simp: log_wf_def)
qed

text \<open>
  C17. The filter, over any sequence of entries: the callback is handed exactly the entries whose level reaches that of
  their category, in order, with the message cut to 2047 characters, and \<open>total_entries\<close> grows by their number.
\<close>

theorem log_filter_exact:
  assumes "log_reach env s" and "lg_initialized s" and "lg_callback s = Some d" and "\<forall>w \<in> set ws. request_ok s w"
  shows "\<exists>s'. write_all env ws s = Some s' \<and>
    handed s' = handed s @ map cut_message (filter (passes (lg_category_levels s)) ws) \<and>
    lg_total_entries s' = lg_total_entries s + of_nat (length (filter (passes (lg_category_levels s)) ws))"
  using write_all_exact [OF lreach_wf [OF assms(1)] assms(2-4), of env] by blast

theorem log_filter_exact_witness:
  "\<exists>s s'. log_reach demo_log_env s \<and>
     write_all demo_log_env [(CB_LOG_DEBUG, CB_LOG_CAT_CLI, ''a.c'', 1, ''f'', ''one''), (CB_LOG_WARN, CB_LOG_CAT_USB4, ''b.c'', 2, ''g'', ''two'')] s = Some s' \<and>
     handed s' = handed s @ [(CB_LOG_WARN, CB_LOG_CAT_USB4, ''b.c'', 2, ''g'', ''two'')]"
proof -
  let ?s = "demo_log\<lparr>lg_callback := Some 5\<rparr>"
  have "run_log demo_log_env (LCallback (Some 5)) demo_log = Some ?s"
    using demo_log_sel(5) by (simp add: cb_log_set_callback_def log_lock_def log_unlock_def)
  then have r: "log_reach demo_log_env ?s" by (rule lreach_call [OF demo_log_reach, rotated]) (simp add: demo_log_sel)
  from log_filter_exact [OF r, of 5 "[(CB_LOG_DEBUG, CB_LOG_CAT_CLI, ''a.c'', 1, ''f'', ''one''), (CB_LOG_WARN, CB_LOG_CAT_USB4, ''b.c'', 2, ''g'', ''two'')]"]
  obtain s' where s': "write_all demo_log_env [(CB_LOG_DEBUG, CB_LOG_CAT_CLI, ''a.c'', 1, ''f'', ''one''), (CB_LOG_WARN, CB_LOG_CAT_USB4, ''b.c'', 2, ''g'', ''two'')] ?s = Some s'"
    "handed s' = handed ?s @ [(CB_LOG_WARN, CB_LOG_CAT_USB4, ''b.c'', 2, ''g'', ''two'')]"
    by (auto simp: demo_log_sel less_eq_CBLogLevel_def)
  with r show ?thesis by blast
qed

text \<open>
  C16. Rotation when the clock reads on: the file of generation \<open>i - 1\<close> becomes generation \<open>i\<close>, the current file
  generation 0, the oldest one is overwritten, no other file changes, and a new current file is opened that starts
  with a header (after what a file of that name already held).
\<close>

theorem log_rotate_shifts:
  assumes "log_reach env s" and "lg_log_file s = Some p" and "opens env s" and "time_ok (en_time env (lg_clock s))"
    and "lg_files s p = Some content" and "k = nat (lc_max_rotated_files (lg_config s) - 1)"
  shows "\<exists>s'. cb_log_rotate env s = (0, s') \<and> lg_log_file s' = Some (next_path env s) \<and> lg_current_file_size s' = 0 \<and>
    lg_files s' (rotated p 0) = Some content \<and>
    (\<forall>i. 0 < i \<and> i < k \<longrightarrow> lg_files s' (rotated p i) = lg_files s (rotated p (i - 1))) \<and>
    (0 < k \<longrightarrow> lg_files s' (rotated p k) =
       (case lg_files s (rotated p (k - 1)) of None \<Rightarrow> lg_files s (rotated p k) | Some c \<Rightarrow> Some c)) \<and>
    (\<forall>q. q \<noteq> p \<and> q \<noteq> next_path env s \<and> (\<forall>i \<le> k. q \<noteq> rotated p i) \<longrightarrow> lg_files s' q = lg_files s q) \<and>
    (\<exists>before. lg_files s' (next_path env s) = Some (before @ log_header (en_time env (lg_clock s))) \<and>
       (lg_files s (next_path env s) = None \<or> next_path env s = p \<longrightarrow> before = []))"
proof -
  note w = lreach_wf [OF assms(1)]
  have p: "p = lg_log_file_path s" "length p < 1024" using w assms(2) by (auto simp: log_wf_def)
  have k: "k < 2 ^ 31" using w assms(6) by (auto simp: log_wf_def config_ok_def)
  let ?sh = "shift_rotated p k (lg_files s)" and ?q = "next_path env s"
  note sh = shift_closed [OF p(2) k, of "lg_files s"]
  have np: "rotated p i \<noteq> p" "rotated p i \<noteq> ?q" if "i \<le> k" for i
    using that k p(2) log_path_not_rotated [OF assms(4) _ p(2), of "lc_log_dir (lg_config s)" i] w
    by (auto simp: next_path_def log_wf_def config_ok_def)
  have ri: "rotated p i = rotated p j \<longleftrightarrow> i = j" if "i \<le> k" "j \<le> k" for i j
    using rotated_inj [OF p(2) p(2), of i j] that k by simp
  have "\<forall>i \<le> k. p \<noteq> rotated p i" using np by metis
  with sh assms(5) have "?sh p = Some content" by simp
  then have mid: "rename_file p (rotated p 0) ?sh = ?sh(p := None, rotated p 0 \<mapsto> content)" by (simp add: rename_file_def)
  have "\<forall>i \<le> k. ?q \<noteq> rotated p i" using np by metis
  with sh have shq: "?sh ?q = lg_files s ?q" by blast
  from rotate_files [of s env] assms(2,3,6) p(1) mid obtain s' where
    s': "cb_log_rotate env s = (0, s')" "lg_log_file s' = Some ?q" "lg_current_file_size s' = 0"
      "lg_files s' = (?sh(p := None, rotated p 0 \<mapsto> content))(?q \<mapsto> (case (?sh(p := None, rotated p 0 \<mapsto> content)) ?q of
         None \<Rightarrow> [] | Some c \<Rightarrow> c) @ log_header (en_time env (lg_clock s)))" by auto
  have "lg_files s' (rotated p i) = ?sh (rotated p i)" if "0 < i" "i \<le> k" for i
    using np [OF that(2)] ri [OF that(2), of 0] that s'(4) by simp
  moreover have "lg_files s' (rotated p 0) = Some content" using np [of 0] s'(4) by simp
  moreover have "lg_files s' q = lg_files s q" if "q \<noteq> p" "q \<noteq> ?q" "\<forall>i \<le> k. q \<noteq> rotated p i" for q
    using that sh s'(4) by simp
  moreover have "\<exists>before. lg_files s' ?q = Some (before @ log_header (en_time env (lg_clock s))) \<and>
      (lg_files s ?q = None \<or> ?q = p \<longrightarrow> before = [])"
    using s'(4) shq np(2) [of 0] by (auto split: option.splits)
  ultimately show ?thesis using s'(1-3) sh by (intro exI [of _ s'] conjI) auto
qed

lemma demo_path_open: "opens demo_log_env s"
  by (simp add: opens_def)

lemma demo_time_ok: "n < 100 \<Longrightarrow> time_ok (demo_time n)"
  by (simp add: time_ok_def demo_time_def)

theorem log_rotate_shifts_witness:
  "\<exists>s' content. cb_log_rotate demo_log_env demo_log = (0, s') \<and>
     lg_files s' (rotated (path_at demo_log_env (lc_log_dir demo_config) 0) 0) = Some content"
proof -
  obtain content where c: "lg_files demo_log (path_at demo_log_env (lc_log_dir demo_config) 0) = Some content"
    using demo_log_sel(10) by blast
  have "time_ok (en_time demo_log_env (lg_clock demo_log))" by (simp add: demo_log_sel demo_time_ok)
  from log_rotate_shifts [OF demo_log_reach demo_log_sel(9) demo_path_open this c refl] show ?thesis by blast
qed

text \<open>
  C19. \<open>max_rotated_files\<close> does not bound the number of log files: because the name of a log file holds the second in
  which it was opened, \<open>n\<close> rotations in different seconds leave \<open>n + 1\<close> files, whatever the setting.
\<close>

theorem log_rotation_unbounded:
  assumes "config_ok c" and "lc_enable_file c" and "en_mkdir env (lc_log_dir c)"
    and "cb_log_init env (Some c) (log_zero Map.empty (\<lambda>_. False)) = Some (0, s)"
    and "\<forall>m \<le> n. time_ok (en_time env m) \<and> en_fopen env (Suc m) (path_at env (lc_log_dir c) m)"
    and "inj_on (path_at env (lc_log_dir c)) {..n}"
  shows "card (dom (lg_files (rotate_times env n s))) = n + 1"
proof -
  let ?p = "path_at env (lc_log_dir c)"
  from init_file [OF assms(2,3)] assms(4,5) have s: "lg_config s = c" "lg_log_file s = Some (?p 0)" "lg_clock s = 1"
    "dom (lg_files s) = {?p 0}" by auto
  have "log_reach env s"
    by (rule lreach_call [where c = "LInit (Some c)", OF lreach_start [of _ Map.empty "\<lambda>_. False"]])
      (use assms(1,4) in simp_all)
  note w = lreach_wf [OF this]
  have d: "length (lc_log_dir c) < 512" using assms(1) by (simp add: config_ok_def)
  have clear: "clear_of (lg_files s) (?p m)" for m
    unfolding clear_of_def
  proof (intro allI impI)
    fix i :: nat
    assume "i < 2 ^ 31"
    then have "?p 0 \<noteq> rotated (?p m) i" unfolding path_at_def using assms(5) d by (intro log_path_not_rotated) auto
    then have "rotated (?p m) i \<notin> dom (lg_files s)" using s(4) by auto
    then show "lg_files s (rotated (?p m) i) = None" by auto
  qed
  have "?p m \<notin> dom (lg_files s)" if "m \<in> {1..<1 + n}" for m
    using inj_onD [OF assms(6), of m 0] that s(4) by auto
  moreover have "inj_on ?p {lg_clock s..<lg_clock s + n}" by (rule inj_on_subset [OF assms(6)]) (use s(3) in auto)
  ultimately have "card (dom (lg_files (rotate_times env n s))) = card (dom (lg_files s)) + n"
    using assms(5) s clear by (intro rotate_grows [OF w s(2) clear, where dir = "lc_log_dir c"]) auto
  with s(4) show ?thesis by simp
qed

lemma demo_paths: "inj_on (path_at demo_log_env (lc_log_dir demo_config)) {..50}"
proof (rule inj_onI)
  fix m n :: nat
  assume mn: "m \<in> {..50}" "n \<in> {..50}" and e: "path_at demo_log_env (lc_log_dir demo_config) m = path_at demo_log_env (lc_log_dir demo_config) n"
  have "zeros 2 (dec m) = zeros 2 (dec n)"
    using e mn demo_time_ok [of m] demo_time_ok [of n] by (simp add: path_at_def log_path_eq file_stamp_def) (simp add: demo_time_def)
  moreover have "digits_value (zeros 2 (dec k)) = k" for k
  proof -
    have "digits_value (replicate j (CHR 0x30) @ x) = digits_value x" for j x by (induction j) (simp_all add: digits_value_def)
    then show ?thesis by (simp add: zeros_def dec_value)
  qed
  ultimately show "m = n" by metis
qed

theorem log_rotation_unbounded_witness:
  "lc_max_rotated_files (lg_config demo_log) = 5 \<and> card (dom (lg_files (rotate_times demo_log_env 50 demo_log))) = 51"
  using log_rotation_unbounded [of demo_config demo_log_env demo_log 50] demo_paths
  by (simp add: demo_log_sel demo_time_ok)

end
