(* ===== verification/Userspace.thy ===== *)
theory Userspace
  imports Complex_Main Cuda_Runtime
begin

text \<open>
  The public library of \<open>src/userspace/lib/cudabridge.c\<close> and \<open>src/userspace/include/cudabridge.h\<close>: error codes of its own, an
  initialisation flag and a last error of its own, and functions that check their arguments and call
  the CUDA runtime of \<^theory_text>\<open>Cuda_Runtime\<close>.

  The record \<open>library\<close> is the three globals of the file on top of the world of the runtime. Results
  follow the runtime: the code, what is stored through the output pointers, and the new state; an output pointer
  is the Boolean that says whether it is given. The floating-point output of \<open>cbEventElapsedTime\<close> is the
  difference in nanoseconds the runtime divides.
\<close>

section \<open>Data\<close>

datatype cbError =
    cbSuccess | cbErrorInvalidValue | cbErrorOutOfMemory | cbErrorNotInitialized | cbErrorNoDevice
  | cbErrorInvalidDevice | cbErrorDeviceNotConnected | cbErrorDriverNotFound | cbErrorTimeout
  | cbErrorLaunchFailure | cbErrorInvalidKernel | cbErrorInvalidConfiguration | cbErrorEGPUNotSupported
  | cbErrorUSB4NotAvailable | cbErrorBandwidthInsufficient | cbErrorUnknown

datatype cbMemcpyKind =
    CB_MEMCPY_HOST_TO_HOST | CB_MEMCPY_HOST_TO_DEVICE | CB_MEMCPY_DEVICE_TO_HOST
  | CB_MEMCPY_DEVICE_TO_DEVICE | CB_MEMCPY_DEFAULT

record cbDeviceProp =
  pr_name :: string
  pr_totalGlobalMem :: u64
  pr_sharedMemPerBlock :: u64
  pr_regsPerBlock :: int
  pr_warpSize :: int
  pr_maxThreadsPerBlock :: int
  pr_maxThreadsDim :: "int list"
  pr_maxGridSize :: "int list"
  pr_clockRate :: int
  pr_major :: int
  pr_minor :: int
  pr_multiProcessorCount :: int
  pr_memoryClockRate :: int
  pr_memoryBusWidth :: int
  pr_l2CacheSize :: int
  pr_maxThreadsPerMultiProcessor :: int
  pr_computeMode :: int
  pr_concurrentKernels :: int
  pr_asyncEngineCount :: int
  pr_unifiedAddressing :: int
  pr_managedMemory :: int

record cbConnectionInfo =
  ci_isConnected :: int
  ci_connectionType :: int
  ci_upstreamBandwidth :: u64
  ci_downstreamBandwidth :: u64
  ci_pcieGeneration :: int
  ci_pcieLanes :: int
  ci_linkUtilization :: rat

record library =
  lb_initialized :: bool
  lb_last_error :: cbError
  lb_hotplug :: "nat option"
  lb_world :: world

definition library_zero :: "world \<Rightarrow> library" where
  "library_zero w = \<lparr>lb_initialized = False, lb_last_error = cbSuccess, lb_hotplug = None, lb_world = w\<rparr>"

definition CUDABRIDGE_VERSION :: int where "CUDABRIDGE_VERSION = 1 * 10000 + 0 * 100 + 0"

section \<open>Errors\<close>

definition SET_ERROR :: "cbError \<Rightarrow> library \<Rightarrow> library" where
  "SET_ERROR err l = l\<lparr>lb_last_error := err\<rparr>"

definition cuda_to_cb_error :: "cudaError \<Rightarrow> cbError" where
  "cuda_to_cb_error cuda_err =
     (case cuda_err of
        cudaSuccess \<Rightarrow> cbSuccess
      | cudaErrorInvalidValue \<Rightarrow> cbErrorInvalidValue
      | cudaErrorMemoryAllocation \<Rightarrow> cbErrorOutOfMemory
      | cudaErrorInitializationError \<Rightarrow> cbErrorNotInitialized
      | cudaErrorNoDevice \<Rightarrow> cbErrorNoDevice
      | cudaErrorInvalidDevice \<Rightarrow> cbErrorInvalidDevice
      | _ \<Rightarrow> cbErrorUnknown)"

definition cbGetErrorName :: "cbError \<Rightarrow> string" where
  "cbGetErrorName error =
     (case error of
        cbSuccess \<Rightarrow> ''cbSuccess''
      | cbErrorInvalidValue \<Rightarrow> ''cbErrorInvalidValue''
      | cbErrorOutOfMemory \<Rightarrow> ''cbErrorOutOfMemory''
      | cbErrorNotInitialized \<Rightarrow> ''cbErrorNotInitialized''
      | cbErrorNoDevice \<Rightarrow> ''cbErrorNoDevice''
      | cbErrorInvalidDevice \<Rightarrow> ''cbErrorInvalidDevice''
      | cbErrorDeviceNotConnected \<Rightarrow> ''cbErrorDeviceNotConnected''
      | cbErrorDriverNotFound \<Rightarrow> ''cbErrorDriverNotFound''
      | cbErrorTimeout \<Rightarrow> ''cbErrorTimeout''
      | cbErrorLaunchFailure \<Rightarrow> ''cbErrorLaunchFailure''
      | cbErrorInvalidKernel \<Rightarrow> ''cbErrorInvalidKernel''
      | cbErrorInvalidConfiguration \<Rightarrow> ''cbErrorInvalidConfiguration''
      | cbErrorEGPUNotSupported \<Rightarrow> ''cbErrorEGPUNotSupported''
      | cbErrorUSB4NotAvailable \<Rightarrow> ''cbErrorUSB4NotAvailable''
      | cbErrorBandwidthInsufficient \<Rightarrow> ''cbErrorBandwidthInsufficient''
      | _ \<Rightarrow> ''cbErrorUnknown'')"

definition cbGetErrorString :: "cbError \<Rightarrow> string" where
  "cbGetErrorString error =
     (case error of
        cbSuccess \<Rightarrow> ''no error''
      | cbErrorInvalidValue \<Rightarrow> ''invalid argument''
      | cbErrorOutOfMemory \<Rightarrow> ''out of memory''
      | cbErrorNotInitialized \<Rightarrow> ''CudaBridge not initialized''
      | cbErrorNoDevice \<Rightarrow> ''no CUDA-capable device detected''
      | cbErrorInvalidDevice \<Rightarrow> ''invalid device ordinal''
      | cbErrorDeviceNotConnected \<Rightarrow> ''eGPU device not connected''
      | cbErrorDriverNotFound \<Rightarrow> ''driver not found''
      | cbErrorTimeout \<Rightarrow> ''operation timed out''
      | cbErrorLaunchFailure \<Rightarrow> ''kernel launch failure''
      | cbErrorInvalidKernel \<Rightarrow> ''invalid kernel''
      | cbErrorInvalidConfiguration \<Rightarrow> ''invalid configuration''
      | cbErrorEGPUNotSupported \<Rightarrow> ''eGPU not supported on this system''
      | cbErrorUSB4NotAvailable \<Rightarrow> ''USB4/Thunderbolt not available''
      | cbErrorBandwidthInsufficient \<Rightarrow> ''insufficient bandwidth''
      | _ \<Rightarrow> ''unknown error'')"

definition cbGetLastError :: "library \<Rightarrow> cbError \<times> library" where
  "cbGetLastError l = (lb_last_error l, l\<lparr>lb_last_error := cbSuccess\<rparr>)"

definition cbPeekAtLastError :: "library \<Rightarrow> cbError" where
  "cbPeekAtLastError l = lb_last_error l"

text \<open>
  \<open>SET_ERROR(cbErrorInvalidValue); return cbErrorInvalidValue;\<close>, a runtime call whose code is converted and
  returned, and the calls that also record an error.
\<close>

definition reject :: "library \<Rightarrow> cbError \<times> library" where
  "reject l = (cbErrorInvalidValue, SET_ERROR cbErrorInvalidValue l)"

definition reject_out :: "library \<Rightarrow> cbError \<times> 'a option \<times> library" where
  "reject_out l = (cbErrorInvalidValue, None, SET_ERROR cbErrorInvalidValue l)"

definition runtime :: "library \<Rightarrow> (cudaError \<times> world) option \<Rightarrow> (cbError \<times> library) option" where
  "runtime l = map_option (\<lambda>(err, w). (cuda_to_cb_error err, l\<lparr>lb_world := w\<rparr>))"

definition runtime_out ::
    "library \<Rightarrow> (cudaError \<times> 'a option \<times> world) option \<Rightarrow> (cbError \<times> 'a option \<times> library) option" where
  "runtime_out l = map_option (\<lambda>(err, out, w). (cuda_to_cb_error err, out, l\<lparr>lb_world := w\<rparr>))"

definition record_error :: "cbError \<times> library \<Rightarrow> cbError \<times> library" where
  "record_error = (\<lambda>(err, l). (err, if err \<noteq> cbSuccess then SET_ERROR err l else l))"

definition record_error_out :: "cbError \<times> 'a option \<times> library \<Rightarrow> cbError \<times> 'a option \<times> library" where
  "record_error_out = (\<lambda>(err, out, l). (err, out, if err \<noteq> cbSuccess then SET_ERROR err l else l))"

section \<open>Initialisation and devices\<close>

definition cbInit :: "cuda_env \<Rightarrow> library \<Rightarrow> (cbError \<times> library) option" where
  "cbInit env l =
     (if lb_initialized l then Some (cbSuccess, l)
      else
        do { (err, w) \<leftarrow> cudaBridgeInit env (lb_world l);
             let l = l\<lparr>lb_world := w\<rparr>;
             if err \<noteq> cudaSuccess then
               let l = SET_ERROR (cuda_to_cb_error err) l in Some (lb_last_error l, l)
             else Some (cbSuccess, l\<lparr>lb_initialized := True\<rparr>) })"

definition cbShutdown :: "library \<Rightarrow> (cbError \<times> library) option" where
  "cbShutdown l =
     (if \<not> lb_initialized l then Some (cbSuccess, l)
      else
        do { (_, w) \<leftarrow> cudaBridgeShutdown (lb_world l);
             Some (cbSuccess, l\<lparr>lb_world := w, lb_initialized := False, lb_last_error := cbSuccess, lb_hotplug := None\<rparr>) })"

definition cbIsInitialized :: "library \<Rightarrow> bool" where
  "cbIsInitialized l = lb_initialized l"

definition cbGetVersion :: "bool \<Rightarrow> library \<Rightarrow> cbError \<times> int option \<times> library" where
  "cbGetVersion has_out l = (if \<not> has_out then reject_out l else (cbSuccess, Some CUDABRIDGE_VERSION, l))"

definition cbGetDriverVersion :: "bool \<Rightarrow> library \<Rightarrow> (cbError \<times> int option \<times> library) option" where
  "cbGetDriverVersion has_out l =
     (if \<not> has_out then Some (reject_out l) else runtime_out l (Some (cudaDriverGetVersion True (lb_world l))))"

definition cbGetDeviceCount :: "cuda_env \<Rightarrow> bool \<Rightarrow> library \<Rightarrow> (cbError \<times> int option \<times> library) option" where
  "cbGetDeviceCount env has_out l =
     (if \<not> has_out then Some (reject_out l)
      else
        do { (err, l) \<leftarrow> (if \<not> lb_initialized l then cbInit env l else Some (cbSuccess, l));
             if err \<noteq> cbSuccess then Some (err, Some 0, l)
             else runtime_out l (cudaGetDeviceCount env True (lb_world l)) })"

definition cbGetDevice :: "cuda_env \<Rightarrow> bool \<Rightarrow> library \<Rightarrow> (cbError \<times> int option \<times> library) option" where
  "cbGetDevice env has_out l =
     (if \<not> has_out then Some (reject_out l) else runtime_out l (cudaGetDevice env True (lb_world l)))"

definition cbSetDevice :: "cuda_env \<Rightarrow> int \<Rightarrow> library \<Rightarrow> (cbError \<times> library) option" where
  "cbSetDevice env device l = map_option record_error (runtime l (cudaSetDevice env device (lb_world l)))"

definition cb_device_prop :: "cudaDeviceProp \<Rightarrow> cbDeviceProp" where
  "cb_device_prop p = \<lparr>
     pr_name = take 255 (dp_name p), pr_totalGlobalMem = dp_totalGlobalMem p,
     pr_sharedMemPerBlock = dp_sharedMemPerBlock p, pr_regsPerBlock = dp_regsPerBlock p,
     pr_warpSize = dp_warpSize p, pr_maxThreadsPerBlock = dp_maxThreadsPerBlock p,
     pr_maxThreadsDim = dp_maxThreadsDim p, pr_maxGridSize = dp_maxGridSize p, pr_clockRate = dp_clockRate p,
     pr_major = dp_major p, pr_minor = dp_minor p, pr_multiProcessorCount = dp_multiProcessorCount p,
     pr_memoryClockRate = dp_memoryClockRate p, pr_memoryBusWidth = dp_memoryBusWidth p,
     pr_l2CacheSize = dp_l2CacheSize p, pr_maxThreadsPerMultiProcessor = dp_maxThreadsPerMultiProcessor p,
     pr_computeMode = 0, pr_concurrentKernels = dp_concurrentKernels p,
     pr_asyncEngineCount = dp_asyncEngineCount p, pr_unifiedAddressing = dp_unifiedAddressing p,
     pr_managedMemory = dp_managedMemory p\<rparr>"

definition cbGetDeviceProperties ::
    "cuda_env \<Rightarrow> bool \<Rightarrow> int \<Rightarrow> library \<Rightarrow> (cbError \<times> cbDeviceProp option \<times> library) option" where
  "cbGetDeviceProperties env has_out device l =
     (if \<not> has_out then Some (reject_out l)
      else
        do { (err, p, w) \<leftarrow> cudaGetDeviceProperties env True device (lb_world l);
             let l = l\<lparr>lb_world := w\<rparr>;
             if err \<noteq> cudaSuccess then Some (cuda_to_cb_error err, None, l)
             else do { p \<leftarrow> p; Some (cbSuccess, Some (cb_device_prop p), l) } })"

definition cbDeviceSynchronize :: "library \<Rightarrow> (cbError \<times> library) option" where
  "cbDeviceSynchronize l = runtime l (cudaDeviceSynchronize (lb_world l))"

definition cbDeviceReset :: "library \<Rightarrow> (cbError \<times> library) option" where
  "cbDeviceReset l = runtime l (cudaDeviceReset (lb_world l))"

section \<open>Memory\<close>

definition cbMalloc :: "bool \<Rightarrow> u64 \<Rightarrow> library \<Rightarrow> (cbError \<times> u64 option \<times> library) option" where
  "cbMalloc has_out sz l =
     (if \<not> has_out \<or> sz = 0 then Some (reject_out l)
      else map_option record_error_out (runtime_out l (cudaMalloc True sz (lb_world l))))"

definition cbFree :: "u64 \<Rightarrow> library \<Rightarrow> (cbError \<times> library) option" where
  "cbFree devPtr l = runtime l (cudaFree devPtr (lb_world l))"

definition cuda_kind :: "cbMemcpyKind \<Rightarrow> cudaMemcpyKind" where
  "cuda_kind kind =
     (case kind of
        CB_MEMCPY_HOST_TO_HOST \<Rightarrow> cudaMemcpyHostToHost
      | CB_MEMCPY_HOST_TO_DEVICE \<Rightarrow> cudaMemcpyHostToDevice
      | CB_MEMCPY_DEVICE_TO_HOST \<Rightarrow> cudaMemcpyDeviceToHost
      | CB_MEMCPY_DEVICE_TO_DEVICE \<Rightarrow> cudaMemcpyDeviceToDevice
      | _ \<Rightarrow> cudaMemcpyDefault)"

definition cbMemcpy ::
    "host_ptr \<Rightarrow> host_ptr \<Rightarrow> u64 \<Rightarrow> cbMemcpyKind \<Rightarrow> library \<Rightarrow> (cbError \<times> u8 list option \<times> library) option" where
  "cbMemcpy dst src count kind l =
     (if hp_addr dst = 0 \<or> hp_addr src = 0 \<or> count = 0 then Some (reject_out l)
      else map_option record_error_out (runtime_out l (cudaMemcpy dst src count (cuda_kind kind) (lb_world l))))"

definition cbMemcpyAsync ::
    "host_ptr \<Rightarrow> host_ptr \<Rightarrow> u64 \<Rightarrow> cbMemcpyKind \<Rightarrow> ptr option \<Rightarrow> library \<Rightarrow>
     (cbError \<times> u8 list option \<times> library) option" where
  "cbMemcpyAsync dst src count kind stream l =
     runtime_out l (cudaMemcpyAsync dst src count (cuda_kind kind) stream (lb_world l))"

definition cbMemset :: "u64 \<Rightarrow> int \<Rightarrow> u64 \<Rightarrow> library \<Rightarrow> (cbError \<times> library) option" where
  "cbMemset devPtr val count l = runtime l (cudaMemset devPtr val count (lb_world l))"

definition cbMallocHost :: "bool \<Rightarrow> u64 \<Rightarrow> library \<Rightarrow> (cbError \<times> u64 option \<times> library) option" where
  "cbMallocHost has_out sz l =
     (if \<not> has_out \<or> sz = 0 then Some (reject_out l)
      else runtime_out l (Some (cudaMallocHost True sz (lb_world l))))"

definition cbFreeHost :: "u64 \<Rightarrow> library \<Rightarrow> (cbError \<times> library) option" where
  "cbFreeHost p l = runtime l (cudaFreeHost p (lb_world l))"

definition cbMallocManaged :: "bool \<Rightarrow> u64 \<Rightarrow> library \<Rightarrow> (cbError \<times> u64 option \<times> library) option" where
  "cbMallocManaged has_out sz l =
     (if \<not> has_out \<or> sz = 0 then Some (reject_out l)
      else runtime_out l (Some (cudaMallocHost True sz (lb_world l))))"

definition cbMemGetInfo :: "bool \<Rightarrow> bool \<Rightarrow> library \<Rightarrow> (cbError \<times> (u64 \<times> u64) option \<times> library) option" where
  "cbMemGetInfo has_free has_total l = runtime_out l (cudaMemGetInfo has_free has_total (lb_world l))"

section \<open>Streams, events and kernels\<close>

definition cbStreamCreate :: "bool \<Rightarrow> library \<Rightarrow> (cbError \<times> ptr option \<times> library) option" where
  "cbStreamCreate has_out l =
     (if \<not> has_out then Some (reject_out l) else runtime_out l (cudaStreamCreate True (lb_world l)))"

definition cbStreamDestroy :: "ptr option \<Rightarrow> library \<Rightarrow> (cbError \<times> library) option" where
  "cbStreamDestroy stream l = runtime l (cudaStreamDestroy stream (lb_world l))"

definition cbStreamSynchronize :: "ptr option \<Rightarrow> library \<Rightarrow> (cbError \<times> library) option" where
  "cbStreamSynchronize stream l = runtime l (cudaStreamSynchronize stream (lb_world l))"

definition cbStreamQuery :: "ptr option \<Rightarrow> cbError" where
  "cbStreamQuery stream = cuda_to_cb_error (cudaStreamQuery stream)"

definition cbEventCreate :: "bool \<Rightarrow> library \<Rightarrow> (cbError \<times> ptr option \<times> library) option" where
  "cbEventCreate has_out l =
     (if \<not> has_out then Some (reject_out l) else runtime_out l (Some (cudaEventCreate True (lb_world l))))"

definition cbEventDestroy :: "ptr option \<Rightarrow> library \<Rightarrow> (cbError \<times> library) option" where
  "cbEventDestroy event l = runtime l (cudaEventDestroy event (lb_world l))"

definition cbEventRecord :: "ptr option \<Rightarrow> ptr option \<Rightarrow> u64 \<Rightarrow> u64 \<Rightarrow> library \<Rightarrow> (cbError \<times> library) option" where
  "cbEventRecord event stream tv_sec tv_nsec l = runtime l (cudaEventRecord event stream tv_sec tv_nsec (lb_world l))"

definition cbEventSynchronize :: "ptr option \<Rightarrow> cbError" where
  "cbEventSynchronize event = cuda_to_cb_error (cudaEventSynchronize event)"

definition cbEventElapsedTime ::
    "bool \<Rightarrow> ptr option \<Rightarrow> ptr option \<Rightarrow> library \<Rightarrow> (cbError \<times> u64 option \<times> library) option" where
  "cbEventElapsedTime has_out start stop l = runtime_out l (cudaEventElapsedTime has_out start stop (lb_world l))"

definition cbLaunchKernel ::
    "u64 \<Rightarrow> dim3 \<Rightarrow> dim3 \<Rightarrow> u64 \<Rightarrow> ptr option \<Rightarrow> library \<Rightarrow> (cbError \<times> library) option" where
  "cbLaunchKernel func gridDim blockDim sharedMem stream l =
     map_option record_error (runtime l (cudaLaunchKernel func gridDim blockDim sharedMem stream (lb_world l)))"

section \<open>The connection\<close>

definition info_zero_cb :: cbConnectionInfo where
  "info_zero_cb = \<lparr>ci_isConnected = 0, ci_connectionType = 0, ci_upstreamBandwidth = 0, ci_downstreamBandwidth = 0,
     ci_pcieGeneration = 0, ci_pcieLanes = 0, ci_linkUtilization = 0\<rparr>"

definition cbGetConnectionInfo :: "bool \<Rightarrow> library \<Rightarrow> (cbError \<times> cbConnectionInfo option \<times> library) option" where
  "cbGetConnectionInfo has_out l =
     (if \<not> has_out then Some (reject_out l)
      else
        do { (_, connected, w) \<leftarrow> cudaBridgeGetConnectionStatus True (lb_world l);
             connected \<leftarrow> connected;
             let l = l\<lparr>lb_world := w\<rparr>;
             let info = info_zero_cb\<lparr>ci_isConnected := connected, ci_connectionType := 0\<rparr>;
             if connected \<noteq> 0 then
               do { (_, bw, w) \<leftarrow> cudaBridgeGetBandwidthInfo True True (lb_world l);
                    (up, down) \<leftarrow> bw;
                    Some (cbSuccess, Some (info\<lparr>ci_upstreamBandwidth := up, ci_downstreamBandwidth := down,
                      ci_pcieGeneration := 3, ci_pcieLanes := 4, ci_linkUtilization := 0\<rparr>), l\<lparr>lb_world := w\<rparr>) }
             else Some (cbSuccess, Some info, l) })"

definition cbGetUSB4Bandwidth :: "bool \<Rightarrow> bool \<Rightarrow> library \<Rightarrow> (cbError \<times> (u64 \<times> u64) option \<times> library) option" where
  "cbGetUSB4Bandwidth has_up has_down l =
     (if \<not> has_up \<or> \<not> has_down then Some (reject_out l)
      else runtime_out l (cudaBridgeGetBandwidthInfo True True (lb_world l)))"

definition cbSetHotplugCallback :: "nat option \<Rightarrow> library \<Rightarrow> cbError \<times> library" where
  "cbSetHotplugCallback callback l = (cbSuccess, l\<lparr>lb_hotplug := callback\<rparr>)"

definition cbGetPCIeTunnelStatus :: "bool \<Rightarrow> bool \<Rightarrow> library \<Rightarrow> (cbError \<times> (int \<times> int) option \<times> library) option" where
  "cbGetPCIeTunnelStatus has_active has_bandwidth l =
     (if \<not> has_active \<or> \<not> has_bandwidth then Some (reject_out l)
      else
        do { (_, connected, w) \<leftarrow> cudaBridgeGetConnectionStatus True (lb_world l);
             connected \<leftarrow> connected;
             Some (cbSuccess, Some (connected, if connected \<noteq> 0 then 32000 else 0), l\<lparr>lb_world := w\<rparr>) })"

end
