(* ===== verification/Userspace_Properties.thy ===== *)
theory Userspace_Properties
  imports Userspace Cuda_Properties
begin

text \<open>
  The library as a state machine of calls, what each call passes on to the runtime, and the properties: the library
  refines the runtime, and the initialisation it does not see.
\<close>

section \<open>The library over the runtime\<close>

datatype cb_call =
    CbInit cuda_env | CbShutdown | CbSetDevice cuda_env int | CbDeviceReset | CbDeviceSynchronize
  | CbMalloc bool u64 | CbFree u64 | CbMemcpy host_ptr host_ptr u64 cbMemcpyKind | CbMemset u64 int u64
  | CbMallocHost bool u64 | CbMallocManaged bool u64 | CbFreeHost u64 | CbMemGetInfo bool bool
  | CbStreamCreate bool | CbStreamDestroy "ptr option" | CbStreamSynchronize "ptr option"
  | CbEventCreate bool | CbEventRecord "ptr option" "ptr option" u64 u64 | CbEventDestroy "ptr option"
  | CbLaunchKernel u64 dim3 dim3 u64 "ptr option" | CbGetLastError | CbSetHotplug "nat option"
  | CbGetVersion bool | CbGetDriverVersion bool | CbGetDeviceCount cuda_env bool | CbGetDevice cuda_env bool
  | CbGetDeviceProperties cuda_env bool int | CbMemcpyAsync host_ptr host_ptr u64 cbMemcpyKind "ptr option"
  | CbStreamQuery "ptr option" | CbEventSynchronize "ptr option" | CbEventElapsedTime bool "ptr option" "ptr option"
  | CbPeekAtLastError | CbGetConnectionInfo bool | CbGetUSB4Bandwidth bool bool | CbGetPCIeTunnelStatus bool bool

text \<open>A call with the list of the client's streams, as in \<^theory_text>\<open>Cuda_Properties\<close>.\<close>

fun run_cb :: "cb_call \<Rightarrow> ptr list \<Rightarrow> library \<Rightarrow> (cbError \<times> ptr list \<times> library) option" where
  "run_cb (CbInit env) H l = map_option (\<lambda>(e, l). (e, H, l)) (cbInit env l)"
| "run_cb CbShutdown H l = map_option (\<lambda>(e, l'). (e, if lb_initialized l then [] else H, l')) (cbShutdown l)"
| "run_cb (CbSetDevice env d) H l = map_option (\<lambda>(e, l). (e, H, l)) (cbSetDevice env d l)"
| "run_cb CbDeviceReset H l = map_option (\<lambda>(e, l). (e, H, l)) (cbDeviceReset l)"
| "run_cb CbDeviceSynchronize H l = map_option (\<lambda>(e, l). (e, H, l)) (cbDeviceSynchronize l)"
| "run_cb (CbMalloc b sz) H l = map_option (\<lambda>(e, _, l). (e, H, l)) (cbMalloc b sz l)"
| "run_cb (CbFree p) H l = map_option (\<lambda>(e, l). (e, H, l)) (cbFree p l)"
| "run_cb (CbMemcpy dst src n kind) H l = map_option (\<lambda>(e, _, l). (e, H, l)) (cbMemcpy dst src n kind l)"
| "run_cb (CbMemset p v n) H l = map_option (\<lambda>(e, l). (e, H, l)) (cbMemset p v n l)"
| "run_cb (CbMallocHost b sz) H l = map_option (\<lambda>(e, _, l). (e, H, l)) (cbMallocHost b sz l)"
| "run_cb (CbMallocManaged b sz) H l = map_option (\<lambda>(e, _, l). (e, H, l)) (cbMallocManaged b sz l)"
| "run_cb (CbFreeHost p) H l = map_option (\<lambda>(e, l). (e, H, l)) (cbFreeHost p l)"
| "run_cb (CbMemGetInfo a b) H l = map_option (\<lambda>(e, _, l). (e, H, l)) (cbMemGetInfo a b l)"
| "run_cb (CbStreamCreate b) H l =
     map_option (\<lambda>(e, out, l). (e, case out of None \<Rightarrow> H | Some sp \<Rightarrow> sp # H, l)) (cbStreamCreate b l)"
| "run_cb (CbStreamDestroy s) H l =
     map_option (\<lambda>(e, l). (e, case s of None \<Rightarrow> H | Some sp \<Rightarrow> remove1 sp H, l)) (cbStreamDestroy s l)"
| "run_cb (CbStreamSynchronize s) H l = map_option (\<lambda>(e, l). (e, H, l)) (cbStreamSynchronize s l)"
| "run_cb (CbEventCreate b) H l = map_option (\<lambda>(e, _, l). (e, H, l)) (cbEventCreate b l)"
| "run_cb (CbEventRecord ev s sec nsec) H l = map_option (\<lambda>(e, l). (e, H, l)) (cbEventRecord ev s sec nsec l)"
| "run_cb (CbEventDestroy ev) H l = map_option (\<lambda>(e, l). (e, H, l)) (cbEventDestroy ev l)"
| "run_cb (CbLaunchKernel func grid block shared s) H l =
     map_option (\<lambda>(e, l). (e, H, l)) (cbLaunchKernel func grid block shared s l)"
| "run_cb CbGetLastError H l = (case cbGetLastError l of (e, l) \<Rightarrow> Some (e, H, l))"
| "run_cb (CbSetHotplug f) H l = (case cbSetHotplugCallback f l of (e, l) \<Rightarrow> Some (e, H, l))"
| "run_cb (CbGetVersion b) H l = (case cbGetVersion b l of (e, _, l) \<Rightarrow> Some (e, H, l))"
| "run_cb (CbGetDriverVersion b) H l = map_option (\<lambda>(e, _, l). (e, H, l)) (cbGetDriverVersion b l)"
| "run_cb (CbGetDeviceCount env b) H l = map_option (\<lambda>(e, _, l). (e, H, l)) (cbGetDeviceCount env b l)"
| "run_cb (CbGetDevice env b) H l = map_option (\<lambda>(e, _, l). (e, H, l)) (cbGetDevice env b l)"
| "run_cb (CbGetDeviceProperties env b d) H l = map_option (\<lambda>(e, _, l). (e, H, l)) (cbGetDeviceProperties env b d l)"
| "run_cb (CbMemcpyAsync dst src n kind s) H l = map_option (\<lambda>(e, _, l). (e, H, l)) (cbMemcpyAsync dst src n kind s l)"
| "run_cb (CbStreamQuery s) H l = Some (cbStreamQuery s, H, l)"
| "run_cb (CbEventSynchronize ev) H l = Some (cbEventSynchronize ev, H, l)"
| "run_cb (CbEventElapsedTime b ev1 ev2) H l = map_option (\<lambda>(e, _, l). (e, H, l)) (cbEventElapsedTime b ev1 ev2 l)"
| "run_cb CbPeekAtLastError H l = Some (cbPeekAtLastError l, H, l)"
| "run_cb (CbGetConnectionInfo b) H l = map_option (\<lambda>(e, _, l). (e, H, l)) (cbGetConnectionInfo b l)"
| "run_cb (CbGetUSB4Bandwidth b c) H l = map_option (\<lambda>(e, _, l). (e, H, l)) (cbGetUSB4Bandwidth b c l)"
| "run_cb (CbGetPCIeTunnelStatus b c) H l = map_option (\<lambda>(e, _, l). (e, H, l)) (cbGetPCIeTunnelStatus b c l)"

text \<open>The call of the runtime a call of the library comes down to, or begins with, if it makes one.\<close>

fun runtime_call :: "library \<Rightarrow> cb_call \<Rightarrow> cuda_call option" where
  "runtime_call l (CbInit env) = (if lb_initialized l then None else Some (Init env))"
| "runtime_call l CbShutdown = (if lb_initialized l then Some Shutdown else None)"
| "runtime_call l (CbSetDevice env d) = Some (SetDevice env d)"
| "runtime_call l CbDeviceReset = Some DeviceReset"
| "runtime_call l CbDeviceSynchronize = Some DeviceSynchronize"
| "runtime_call l (CbMalloc b sz) = (if \<not> b \<or> sz = 0 then None else Some (Malloc True sz))"
| "runtime_call l (CbFree p) = Some (Free p)"
| "runtime_call l (CbMemcpy dst src n kind) =
     (if hp_addr dst = 0 \<or> hp_addr src = 0 \<or> n = 0 then None else Some (Memcpy dst src n (cuda_kind kind)))"
| "runtime_call l (CbMemset p v n) = Some (Memset p v n)"
| "runtime_call l (CbMallocHost b sz) = (if \<not> b \<or> sz = 0 then None else Some (MallocHost True sz))"
| "runtime_call l (CbMallocManaged b sz) = (if \<not> b \<or> sz = 0 then None else Some (MallocHost True sz))"
| "runtime_call l (CbFreeHost p) = Some (FreeHost p)"
| "runtime_call l (CbMemGetInfo a b) = Some (MemGetInfo a b)"
| "runtime_call l (CbStreamCreate b) = (if b then Some (StreamCreate True 0) else None)"
| "runtime_call l (CbStreamDestroy s) = Some (StreamDestroy s)"
| "runtime_call l (CbStreamSynchronize s) = Some (StreamSynchronize s)"
| "runtime_call l (CbEventCreate b) = (if b then Some (EventCreate True) else None)"
| "runtime_call l (CbEventRecord ev s sec nsec) = Some (EventRecord ev s sec nsec)"
| "runtime_call l (CbEventDestroy ev) = Some (EventDestroy ev)"
| "runtime_call l (CbLaunchKernel func grid block shared s) = Some (LaunchKernel func grid block shared s)"
| "runtime_call l CbGetLastError = None"
| "runtime_call l (CbSetHotplug f) = None"
| "runtime_call l (CbGetVersion b) = None"
| "runtime_call l (CbGetDriverVersion b) = (if b then Some (DriverGetVersion True) else None)"
| "runtime_call l (CbGetDeviceCount env b) =
     (if \<not> b then None else if lb_initialized l then Some (GetDeviceCount env True) else Some (Init env))"
| "runtime_call l (CbGetDevice env b) = (if b then Some (GetDevice env True) else None)"
| "runtime_call l (CbGetDeviceProperties env b d) = (if b then Some (GetDeviceProperties env True d) else None)"
| "runtime_call l (CbMemcpyAsync dst src n kind s) = Some (MemcpyAsync dst src n (cuda_kind kind) s)"
| "runtime_call l (CbStreamQuery s) = Some (StreamQuery s)"
| "runtime_call l (CbEventSynchronize ev) = Some (EventSynchronize ev)"
| "runtime_call l (CbEventElapsedTime b ev1 ev2) = Some (EventElapsedTime b ev1 ev2)"
| "runtime_call l CbPeekAtLastError = None"
| "runtime_call l (CbGetConnectionInfo b) = (if b then Some (ConnectionStatus True) else None)"
| "runtime_call l (CbGetUSB4Bandwidth b c) = (if b \<and> c then Some (BandwidthInfo True True) else None)"
| "runtime_call l (CbGetPCIeTunnelStatus b c) = (if b \<and> c then Some (ConnectionStatus True) else None)"

text \<open>
  The second call, which two functions make: \<open>cbGetDeviceCount\<close> after it has initialised the library, and
  \<open>cbGetConnectionInfo\<close> when there is a connection. The arguments are the code of the first call and the
  state it leaves.
\<close>

definition connected_now :: "world \<Rightarrow> bool" where
  "connected_now w = (case cudaBridgeGetConnectionStatus True w of Some (_, Some c, _) \<Rightarrow> c \<noteq> 0 | _ \<Rightarrow> False)"

fun next_call :: "library \<Rightarrow> cb_call \<Rightarrow> cudaError \<Rightarrow> world \<Rightarrow> cuda_call option" where
  "next_call l (CbGetDeviceCount env b) e w =
     (if lb_initialized l \<or> e \<noteq> cudaSuccess then None else Some (GetDeviceCount env True))"
| "next_call l (CbGetConnectionInfo b) e w = (if connected_now w then Some (BandwidthInfo True True) else None)"
| "next_call l _ e w = None"

text \<open>The code of a call that does not reach the runtime.\<close>

fun local_code :: "library \<Rightarrow> cb_call \<Rightarrow> cbError" where
  "local_code l (CbInit env) = cbSuccess"
| "local_code l CbShutdown = cbSuccess"
| "local_code l (CbSetHotplug f) = cbSuccess"
| "local_code l CbGetLastError = cbPeekAtLastError l"
| "local_code l CbPeekAtLastError = cbPeekAtLastError l"
| "local_code l (CbGetVersion b) = (if b then cbSuccess else cbErrorInvalidValue)"
| "local_code l _ = cbErrorInvalidValue"

text \<open>What a call of the library is in terms of the runtime: its code, the streams and the state after.\<close>

definition runtime_spec :: "library \<Rightarrow> cb_call \<Rightarrow> ptr list \<Rightarrow> (cbError \<times> ptr list \<times> world) option" where
  "runtime_spec l c H =
     (case runtime_call l c of
        None \<Rightarrow> Some (local_code l c, H, lb_world l)
      | Some r \<Rightarrow>
          do { (e, H, w) \<leftarrow> run_call r H (lb_world l);
               case next_call l c e w of
                 None \<Rightarrow> Some (cuda_to_cb_error e, H, w)
               | Some r \<Rightarrow> do { (e, H, w) \<leftarrow> run_call r H w; Some (cuda_to_cb_error e, H, w) } })"

lemmas runtime_defs = runtime_def runtime_out_def record_error_def record_error_out_def reject_def reject_out_def
  SET_ERROR_def

lemmas cb_defs = cbInit_def cbShutdown_def cbSetDevice_def cbDeviceReset_def cbDeviceSynchronize_def cbMalloc_def
  cbFree_def cbMemcpy_def cbMemset_def cbMallocHost_def cbMallocManaged_def cbFreeHost_def cbMemGetInfo_def
  cbStreamCreate_def cbStreamDestroy_def cbStreamSynchronize_def cbEventCreate_def cbEventRecord_def
  cbEventDestroy_def cbLaunchKernel_def cbGetLastError_def cbSetHotplugCallback_def cudaStreamCreate_def
  cbPeekAtLastError_def cbGetVersion_def cbGetDriverVersion_def cbGetDevice_def cbGetDeviceProperties_def
  cbMemcpyAsync_def cbStreamQuery_def cbEventSynchronize_def cbEventElapsedTime_def cbGetUSB4Bandwidth_def
  cbGetPCIeTunnelStatus_def cbGetDeviceCount_def cbGetConnectionInfo_def

lemma cuda_to_cb_success [simp]: "cuda_to_cb_error e = cbSuccess \<longleftrightarrow> e = cudaSuccess"
  by (cases e) (simp_all add: cuda_to_cb_error_def)

lemma cuda_to_cb_cudaSuccess [simp]: "cuda_to_cb_error cudaSuccess = cbSuccess"
  by simp

lemma local_call:
  "runtime_call l c = None \<Longrightarrow> \<exists>l'. run_cb c H l = Some (local_code l c, H, l') \<and> lb_world l' = lb_world l \<and>
     lb_initialized l' = lb_initialized l"
  by (cases c) (auto simp: cb_defs runtime_defs split: if_splits)

lemma shutdown_code: "cudaBridgeShutdown w = Some (e, w') \<Longrightarrow> e = cudaSuccess \<and> \<not> gs_initialized (w_state w')"
  by (auto simp: cudaBridgeShutdown_def state_zero_def split: if_splits elim!: bind_eq_SomeE)

definition cb_view :: "cbError \<times> ptr list \<times> library \<Rightarrow> cbError \<times> ptr list \<times> world \<times> bool" where
  "cb_view = (\<lambda>(e, H, l). (e, H, lb_world l, lb_initialized l))"

lemma properties_out: "cudaGetDeviceProperties env b d w = Some (cudaSuccess, out, w') \<Longrightarrow> out \<noteq> None"
  by (auto simp: cudaGetDeviceProperties_def fail_out_def split: if_splits option.splits elim!: bind_eq_SomeE)

lemma status_out:
  "cudaBridgeGetConnectionStatus True w = Some (e, out, w') \<Longrightarrow>
     e = cudaSuccess \<and> w' = w \<and> (\<exists>c. out = Some c \<and> (connected_now w \<longleftrightarrow> c \<noteq> 0))"
  "cudaBridgeGetBandwidthInfo True True w = Some (e, bw, w') \<Longrightarrow> e = cudaSuccess \<and> w' = w \<and> bw \<noteq> None"
  by (auto simp: connected_now_def cudaBridgeGetConnectionStatus_def cudaBridgeGetBandwidthInfo_def Let_def
      split: if_splits option.splits elim!: bind_eq_SomeE)

abbreviation initialized_after :: "cuda_call \<Rightarrow> cudaError \<Rightarrow> library \<Rightarrow> bool" where
  "initialized_after r e l \<equiv> (if r = Shutdown then False else lb_initialized l \<or> (\<exists>env. r = Init env) \<and> e = cudaSuccess)"

text \<open>The functions that make one call.\<close>

lemma passed_view:
  assumes "runtime_call l c = Some r" and "run_call r H (lb_world l) = Some (e, H', w')"
    and "\<And>env b. c \<noteq> CbGetDeviceCount env b" "\<And>b. c \<noteq> CbGetConnectionInfo b"
  shows "map_option cb_view (run_cb c H l) = Some (cuda_to_cb_error e, H', w', initialized_after r e l)"
proof (cases c)
  case (CbGetDeviceProperties env b d)
  with assms(1,2) obtain out where "cudaGetDeviceProperties env True d (lb_world l) = Some (e, out, w')" "b" "H' = H"
    "r = GetDeviceProperties env True d"
    by (auto simp del: map_option_eq_Some Option.map_option_eq_Some split: if_splits elim!: map_option_SomeE)
  moreover from properties_out this(1) have "e = cudaSuccess \<Longrightarrow> out \<noteq> None" by blast
  ultimately show ?thesis using CbGetDeviceProperties
    by (auto simp: cbGetDeviceProperties_def cb_view_def Let_def)
next
  case (CbGetPCIeTunnelStatus b d)
  with assms(1,2) obtain out where s: "cudaBridgeGetConnectionStatus True (lb_world l) = Some (e, out, w')" "b" "d" "H' = H"
    "r = ConnectionStatus True"
    by (auto simp del: map_option_eq_Some Option.map_option_eq_Some split: if_splits elim!: map_option_SomeE)
  with status_out(1) [OF s(1)] CbGetPCIeTunnelStatus show ?thesis
    by (auto simp: cbGetPCIeTunnelStatus_def cb_view_def Let_def)
qed (use assms shutdown_code [of "lb_world l" e w'] in \<open>auto simp: cb_defs runtime_defs cb_view_def Let_def
    simp del: map_option_eq_Some Option.map_option_eq_Some split: if_splits option.splits prod.splits elim!: map_option_SomeE\<close>)

text \<open>The two that may make a second one.\<close>

lemma count_view:
  assumes c: "c = CbGetDeviceCount env b" and r: "runtime_call l c = Some r" "run_call r H (lb_world l) = Some (e, H0, w0)"
    and s: "runtime_spec l c H = Some (e', H', w')"
  shows "map_option cb_view (run_cb c H l) = Some (e', H', w', initialized_after r e l)"
  using assms
  by (auto simp: runtime_spec_def cbGetDeviceCount_def cbInit_def runtime_defs cb_view_def Let_def
      simp del: map_option_eq_Some Option.map_option_eq_Some split: if_splits option.splits prod.splits
      elim!: map_option_SomeE bind_eq_SomeE)

lemma info_view:
  assumes c: "c = CbGetConnectionInfo b" and r: "runtime_call l c = Some r" "run_call r H (lb_world l) = Some (e, H0, w0)"
    and s: "runtime_spec l c H = Some (e', H', w')"
  shows "map_option cb_view (run_cb c H l) = Some (e', H', w', initialized_after r e l)"
proof -
  have b: "b" "r = ConnectionStatus True" using c r(1) by (auto split: if_splits)
  from r(2) b obtain out where s1: "cudaBridgeGetConnectionStatus True (lb_world l) = Some (e, out, w0)" and H0: "H0 = H"
    by (auto simp del: map_option_eq_Some Option.map_option_eq_Some elim!: map_option_SomeE)
  from status_out(1) [OF s1] obtain v where v: "e = cudaSuccess" "w0 = lb_world l" "out = Some v"
    "connected_now w0 \<longleftrightarrow> v \<noteq> 0" by auto
  show ?thesis
  proof (cases "v = 0")
    case True
    with c b r s s1 v H0 show ?thesis by (simp add: runtime_spec_def cbGetConnectionInfo_def Let_def cb_view_def)
  next
    case False
    with c b r s v H0 obtain e1 bw w1 where s2: "cudaBridgeGetBandwidthInfo True True w0 = Some (e1, bw, w1)"
      "e' = cuda_to_cb_error e1" "H' = H" "w' = w1"
      by (auto simp: runtime_spec_def simp del: map_option_eq_Some Option.map_option_eq_Some elim!: map_option_SomeE bind_eq_SomeE)
    from status_out(2) [OF s2(1)] obtain x where "e1 = cudaSuccess" "w1 = w0" "bw = Some x" by auto
    with False c b s1 v s2 show ?thesis by (cases x) (simp add: cbGetConnectionInfo_def Let_def cb_view_def)
  qed
qed

lemma passed_call:
  assumes "runtime_call l c = Some r" and "run_call r H (lb_world l) = Some (e, H0, w0)"
    and s: "runtime_spec l c H = Some (e', H', w')"
  shows "\<exists>l'. run_cb c H l = Some (e', H', l') \<and> lb_world l' = w' \<and> lb_initialized l' = initialized_after r e l"
proof -
  have "map_option cb_view (run_cb c H l) = Some (e', H', w', initialized_after r e l)"
  proof (cases "(\<exists>env b. c = CbGetDeviceCount env b) \<or> (\<exists>b. c = CbGetConnectionInfo b)")
    case True
    then show ?thesis using count_view [OF _ assms] info_view [OF _ assms] by blast
  next
    case False
    then have "next_call l c e w0 = None" by (cases c) simp_all
    with assms have "e' = cuda_to_cb_error e" "H' = H0" "w' = w0" by (simp_all add: runtime_spec_def)
    with passed_view [OF assms(1,2)] False show ?thesis by blast
  qed
  then show ?thesis by (cases "run_cb c H l") (auto simp: cb_view_def)
qed

section \<open>Reachable libraries\<close>

definition lib_ok :: "iokit option \<Rightarrow> ptr list \<Rightarrow> library \<Rightarrow> cb_call \<Rightarrow> bool" where
  "lib_ok io H l c \<longleftrightarrow> (case runtime_call l c of None \<Rightarrow> True | Some r \<Rightarrow> call_ok io H (lb_world l) r)"

definition lib_oom :: "cb_call \<Rightarrow> cbError \<Rightarrow> bool" where
  "lib_oom c e \<longleftrightarrow> (\<exists>env b. c = CbInit env \<or> c = CbGetDeviceCount env b) \<and> e = cbErrorOutOfMemory"

inductive lib_reach :: "iokit option \<Rightarrow> ptr list \<Rightarrow> library \<Rightarrow> bool" for io where
  libreach_start: "cuda_start w \<Longrightarrow> lib_reach io [] (library_zero w)"
| libreach_call: "lib_reach io H l \<Longrightarrow> lib_ok io H l c \<Longrightarrow> run_cb c H l = Some (e, H', l') \<Longrightarrow> \<not> lib_oom c e \<Longrightarrow>
     lib_reach io H' l'"

definition lib_inv :: "iokit option \<Rightarrow> ptr list \<Rightarrow> library \<Rightarrow> bool" where
  "lib_inv io H l \<longleftrightarrow> cuda_reach io H (lb_world l) \<and> (lb_initialized l \<longrightarrow> gs_initialized (w_state (lb_world l)))"

lemma tracked_init: "free_tracked_host_alloc p w = Some (t, w') \<Longrightarrow> gs_initialized (w_state w') = gs_initialized (w_state w)"
  by (auto simp: free_tracked_host_alloc_def world_simps split: if_splits elim!: bind_eq_SomeE)

lemma memcpy_init: "cudaMemcpy dst src n kind w = Some (e, out, w') \<Longrightarrow> gs_initialized (w_state w') = gs_initialized (w_state w)"
  by (cases kind) (auto simp: cudaMemcpy_def latch_defs split: if_splits option.splits elim!: bind_eq_SomeE)

lemma count_init: "cudaGetDeviceCount env b w = Some (e, n, w') \<Longrightarrow> gs_initialized (w_state w) \<Longrightarrow> gs_initialized (w_state w')"
  by (auto simp: cudaGetDeviceCount_def latch_defs split: if_splits)

lemma properties_init:
  "cudaGetDeviceProperties env b d w = Some (e, out, w') \<Longrightarrow> gs_initialized (w_state w) \<Longrightarrow> gs_initialized (w_state w')"
  by (auto simp: cudaGetDeviceProperties_def auto_init_def latch_defs split: if_splits option.splits elim!: bind_eq_SomeE)

lemma memset_init: "cudaMemset p v n w = Some (e, w') \<Longrightarrow> gs_initialized (w_state w') = gs_initialized (w_state w)"
  by (auto simp: cudaMemset_def Let_def fail_def world_simps split: if_splits prod.splits elim!: bind_eq_SomeE dest!: memcpy_init)

lemma report_init:
  "cudaBridgeGetConnectionStatus b w = Some (e, v, w') \<Longrightarrow> gs_initialized (w_state w') = gs_initialized (w_state w)"
  "cudaBridgeGetBandwidthInfo b c w = Some (e, x, w') \<Longrightarrow> gs_initialized (w_state w') = gs_initialized (w_state w)"
  "cudaEventElapsedTime b ev1 ev2 w = Some (e, t, w') \<Longrightarrow> gs_initialized (w_state w') = gs_initialized (w_state w)"
  by (auto simp: cudaBridgeGetConnectionStatus_def cudaBridgeGetBandwidthInfo_def cudaEventElapsedTime_def latch_defs
      split: if_splits option.splits elim!: bind_eq_SomeE)

lemma launch_channel_init: "launch_channel s gp w = Some (r, c, w') \<Longrightarrow> gs_initialized (w_state w') = gs_initialized (w_state w)"
  by (auto simp: launch_channel_def Let_def split: if_splits option.splits elim!: bind_eq_SomeE)

lemma sync_init: "cudaDeviceSynchronize w = Some (e, w') \<Longrightarrow> gs_initialized (w_state w') = gs_initialized (w_state w)"
  by (auto simp: cudaDeviceSynchronize_def latch_defs split: if_splits option.splits elim!: bind_eq_SomeE)

text \<open>Only shutdown ends the initialised state.\<close>

lemma call_keeps_init:
  assumes "run_call c H w = Some (e, H', w')" and "gs_initialized (w_state w)" and "c \<noteq> Shutdown"
  shows "gs_initialized (w_state w')"
proof (cases c)
  case (Memset p v n)
  with assms show ?thesis by (auto dest!: memset_init)
next
  case (StreamCreate b f)
  with assms show ?thesis
    by (auto simp: cudaStreamCreateWithFlags_def latch_defs split: if_splits option.splits prod.splits elim!: bind_eq_SomeE)
next
  case (StreamDestroy s)
  with assms show ?thesis
    by (auto simp: cudaStreamDestroy_def latch_defs split: if_splits option.splits elim!: bind_eq_SomeE)
next
  case (LaunchKernel f g b s st)
  with assms show ?thesis
    by (auto simp: cudaLaunchKernel_def latch_defs split: if_splits option.splits prod.splits elim!: bind_eq_SomeE
        dest!: launch_channel_init)
qed (use assms in \<open>auto simp: cudaBridgeInit_def cudaSetDevice_def auto_init_def cudaDeviceReset_def cudaMalloc_def cudaFree_def
    cudaMallocHost_def cudaFreeHost_def cudaMemGetInfo_def cudaStreamSynchronize_def cudaEventCreate_def
    cudaEventCreateWithFlags_def cudaEventRecord_def cudaEventDestroy_def latch_defs
    cudaGetDevice_def cudaDeviceGetAttribute_def cudaDriverGetVersion_def cudaRuntimeGetVersion_def cudaMemcpyAsync_def
    cudaMemsetAsync_def cudaHostAlloc_def cudaHostGetDevicePointer_def cudaGetLastError_def cudaBridgeIsSimulationMode_def
    split: if_splits option.splits prod.splits elim!: bind_eq_SomeE
    dest!: memcpy_init memset_init sync_init tracked_init report_init dest: count_init properties_init\<close>)

lemma init_success: "cudaBridgeInit env w = Some (cudaSuccess, w') \<Longrightarrow> gs_initialized (w_state w')"
  by (auto simp: cudaBridgeInit_def init_finish_def init_done_def world_simps Let_def
      split: if_splits option.splits prod.splits elim!: bind_eq_SomeE)

text \<open>The second call is always permitted, and keeps what the first has reached.\<close>

lemma next_ok:
  assumes "next_call l c e w = Some r" and "runtime_call l c = Some r0" and "run_call r0 H w0 = Some (e, H', w)"
    and "call_ok io H w0 r0"
  shows "call_ok io H' w r" and "\<not> init_oom r0 e" and "r \<noteq> Shutdown"
  using assms status_out(1) [of w0 e]
  by (cases c; auto simp: init_oom_def simp del: map_option_eq_Some Option.map_option_eq_Some
      split: if_splits elim!: map_option_SomeE)+

lemma spec_total:
  assumes I: "cuda_reach io H (lb_world l)" and ok: "lib_ok io H l c"
  shows "\<exists>e H' w'. runtime_spec l c H = Some (e, H', w') \<and> (\<not> lib_oom c e \<longrightarrow> cuda_reach io H' w')"
    and "runtime_call l c = Some r \<Longrightarrow> \<exists>e H' w'. run_call r H (lb_world l) = Some (e, H', w')"
proof -
  show "\<exists>e H' w'. run_call r H (lb_world l) = Some (e, H', w')" if "runtime_call l c = Some r"
    using call_total [OF creach_inv [OF I], of r] ok that by (auto simp: lib_ok_def)
  show "\<exists>e H' w'. runtime_spec l c H = Some (e, H', w') \<and> (\<not> lib_oom c e \<longrightarrow> cuda_reach io H' w')"
  proof (cases "runtime_call l c")
    case None
    with I show ?thesis by (simp add: runtime_spec_def)
  next
    case (Some r)
    have cok: "call_ok io H (lb_world l) r" using ok Some by (simp add: lib_ok_def)
    from call_total [OF creach_inv [OF I] cok] obtain e H0 w0 where r: "run_call r H (lb_world l) = Some (e, H0, w0)" by blast
    note reach = creach_call [OF I cok r]
    show ?thesis
    proof (cases "next_call l c e w0")
      case None
      have "init_oom r e \<Longrightarrow> lib_oom c (cuda_to_cb_error e)"
        using Some by (cases c) (auto simp: init_oom_def lib_oom_def cuda_to_cb_error_def split: if_splits)
      with Some r None reach show ?thesis by (auto simp: runtime_spec_def)
    next
      case n: (Some r')
      note ok' = next_ok [OF n Some r cok]
      have re: "cuda_reach io H0 w0" by (rule reach [OF ok'(2)])
      from call_total [OF creach_inv [OF re] ok'(1)] obtain e1 H1 w1 where r1: "run_call r' H0 w0 = Some (e1, H1, w1)" by blast
      have "init_oom r' e1 \<Longrightarrow> lib_oom c (cuda_to_cb_error e1)"
        using n by (cases c) (auto simp: init_oom_def lib_oom_def cuda_to_cb_error_def split: if_splits)
      with creach_call [OF re ok'(1) r1] Some r n r1 show ?thesis by (auto simp: runtime_spec_def)
    qed
  qed
qed

text \<open>When the library counts as initialised after a call, so does the runtime.\<close>

lemma spec_keeps_init:
  assumes r: "runtime_call l c = Some r" "run_call r H (lb_world l) = Some (e, H0, w0)"
    and s: "runtime_spec l c H = Some (e', H', w')" and i: "lb_initialized l \<Longrightarrow> gs_initialized (w_state (lb_world l))"
    and a: "initialized_after r e l" and ok: "call_ok io H (lb_world l) r"
  shows "gs_initialized (w_state w')"
proof -
  have w0: "gs_initialized (w_state w0)"
  proof (cases "lb_initialized l")
    case True
    with a i call_keeps_init [OF r(2)] show ?thesis by (auto split: if_splits)
  next
    case False
    with a obtain env where "r = Init env" "e = cudaSuccess" by (auto split: if_splits)
    with r(2) init_success show ?thesis by auto
  qed
  show ?thesis
  proof (cases "next_call l c e w0")
    case None
    with r s w0 show ?thesis by (auto simp: runtime_spec_def)
  next
    case (Some r')
    with r s obtain e1 where r1: "run_call r' H0 w0 = Some (e1, H', w')" by (auto simp: runtime_spec_def elim!: bind_eq_SomeE)
    from call_keeps_init [OF r1 w0 next_ok(3) [OF Some r ok]] show ?thesis .
  qed
qed

lemma cb_step:
  assumes I: "lib_inv io H l" and ok: "lib_ok io H l c"
  shows "\<exists>e H' l'. run_cb c H l = Some (e, H', l') \<and> (\<not> lib_oom c e \<longrightarrow> lib_inv io H' l') \<and>
    runtime_spec l c H = Some (e, H', lb_world l')"
proof (cases "runtime_call l c")
  case None
  from local_call [OF None, of H] I None show ?thesis by (auto simp: lib_inv_def runtime_spec_def)
next
  case (Some r)
  have cr: "cuda_reach io H (lb_world l)" and cok: "call_ok io H (lb_world l) r" using I ok Some by (simp_all add: lib_inv_def lib_ok_def)
  from spec_total(2) [OF cr ok Some] obtain e0 H0 w0 where r: "run_call r H (lb_world l) = Some (e0, H0, w0)" by blast
  from spec_total(1) [OF cr ok] obtain e H' w' where
    s: "runtime_spec l c H = Some (e, H', w')" "\<not> lib_oom c e \<longrightarrow> cuda_reach io H' w'" by blast
  from passed_call [OF Some r s(1)] obtain l' where
    l': "run_cb c H l = Some (e, H', l')" "lb_world l' = w'" "lb_initialized l' = initialized_after r e0 l" by blast
  have "lb_initialized l \<Longrightarrow> gs_initialized (w_state (lb_world l))" using I by (simp add: lib_inv_def)
  from spec_keeps_init [OF Some r s(1) this _ cok] l' s show ?thesis by (auto simp: lib_inv_def)
qed

lemma libreach_inv: "lib_reach io H l \<Longrightarrow> lib_inv io H l"
proof (induction rule: lib_reach.induct)
  case (libreach_start w)
  then show ?case by (simp add: lib_inv_def library_zero_def creach_start)
next
  case (libreach_call H l c e H' l')
  from cb_step [OF libreach_call.IH libreach_call.hyps(2)] libreach_call.hyps(3,4) show ?case by auto
qed

section \<open>Properties\<close>

text \<open>
  C20. The library refines the runtime: in every reachable state every call of a correct client returns, with the
  code, the streams and the state of the runtime that \<open>runtime_spec\<close> gives. A call that passes the argument checks
  is one call of the runtime whose code it converts, two of them a second one (\<open>cbGetDeviceCount\<close> after it has
  initialised, \<open>cbGetConnectionInfo\<close> over a connection), and any other call leaves the runtime alone. Whenever the
  library counts as initialised the runtime is.
\<close>

theorem cb_refines_runtime:
  assumes "lib_reach io H l" and "lib_ok io H l c"
  shows "\<exists>e H' l'. run_cb c H l = Some (e, H', l') \<and> runtime_spec l c H = Some (e, H', lb_world l') \<and>
    (\<not> lib_oom c e \<longrightarrow> lib_reach io H' l' \<and> cuda_reach io H' (lb_world l') \<and>
       (cbIsInitialized l' \<longrightarrow> gs_initialized (w_state (lb_world l'))))"
proof -
  from cb_step [OF libreach_inv [OF assms(1)] assms(2)] obtain e H' l' where
    s: "run_cb c H l = Some (e, H', l')" "\<not> lib_oom c e \<longrightarrow> lib_inv io H' l'"
    "runtime_spec l c H = Some (e, H', lb_world l')" by blast
  with libreach_call [OF assms s(1)] show ?thesis by (auto simp: lib_inv_def cbIsInitialized_def)
qed

lemma demo_cb_init:
  "\<exists>l. cbInit demo_env (library_zero demo_world) = Some (cbSuccess, l) \<and> lib_reach None [] l \<and> (\<exists>t. lb_world l = demo_hot t) \<and>
     lb_initialized l \<and> lb_last_error l = cbSuccess"
proof -
  obtain t where i: "cudaBridgeInit demo_env demo_world = Some (cudaSuccess, demo_hot t)" using demo_init by blast
  have r: "lib_reach None [] (library_zero demo_world)" by (rule libreach_start [OF demo_start])
  let ?l = "(library_zero demo_world)\<lparr>lb_world := demo_hot t, lb_initialized := True\<rparr>"
  have c: "cbInit demo_env (library_zero demo_world) = Some (cbSuccess, ?l)"
    using i by (simp add: cbInit_def library_zero_def)
  have ok: "lib_ok None [] (library_zero demo_world) (CbInit demo_env)" by (simp add: lib_ok_def library_zero_def demo_env_def)
  have "run_cb (CbInit demo_env) [] (library_zero demo_world) = Some (cbSuccess, [], ?l)" by (simp add: c)
  then have "lib_reach None [] ?l" by (rule libreach_call [OF r ok]) (simp add: lib_oom_def)
  with c show ?thesis by (auto simp: library_zero_def)
qed

theorem cb_refines_runtime_witness:
  "\<exists>l e l'. cbInit demo_env (library_zero demo_world) = Some (cbSuccess, l) \<and> cbShutdown l = Some (e, l') \<and>
     lib_reach None [] l' \<and> cuda_reach None [] (lb_world l')"
proof -
  from demo_cb_init obtain l where l: "cbInit demo_env (library_zero demo_world) = Some (cbSuccess, l)" "lib_reach None [] l" "lb_initialized l"
    by blast
  from cb_refines_runtime [OF l(2), of CbShutdown] l show ?thesis by (auto simp: lib_ok_def lib_oom_def)
qed

text \<open>
  C24. A client that starts with \<open>cbGetDevice\<close> initialises the runtime behind the back of the library: the call succeeds,
  the library does not count as initialised, and \<open>cbShutdown\<close> then returns success without releasing
  anything, with the GPU contexts still allocated.
\<close>

theorem cb_shutdown_skipped:
  assumes "cuda_start w" and "cudaBridgeInit env w = Some (cudaSuccess, w')"
  shows "\<exists>d l. cbGetDevice env True (library_zero w) = Some (cbSuccess, Some d, l) \<and> \<not> cbIsInitialized l \<and>
    cbShutdown l = Some (cbSuccess, l) \<and> gs_initialized (w_state (lb_world l)) \<and> hp_mem (w_gpus (lb_world l)) \<noteq> Map.empty"
proof -
  have r: "cuda_reach (env_iokit env) [] w'"
    by (rule creach_call [OF creach_start [OF assms(1)], of _ "Init env" cudaSuccess]) (simp_all add: assms(2) init_oom_def)
  from reachE [OF r] obtain S where I: "cuda_inv (env_iokit env) S w'" by blast
  note i = init_success [OF assms(2)]
  obtain gp ctx where "heap_get (w_gpus w') gp = Some ctx" using hotE [OF I i] by metis
  then have g: "hp_mem (w_gpus w') \<noteq> Map.empty" by (auto simp: heap_get_def)
  have "\<not> gs_initialized (w_state w)" using assms(1) by (simp add: cuda_start_def state_zero_def)
  then have "cbGetDevice env True (library_zero w) =
      Some (cbSuccess, Some (gs_current_device (w_state w')), (library_zero w)\<lparr>lb_world := w'\<rparr>)"
    using assms(2) by (simp add: cbGetDevice_def cudaGetDevice_def auto_init_def runtime_out_def library_zero_def)
  with i g show ?thesis by (auto simp: cbIsInitialized_def cbShutdown_def library_zero_def)
qed

theorem cb_shutdown_skipped_witness:
  "\<exists>d l. cbGetDevice demo_env True (library_zero demo_world) = Some (cbSuccess, Some d, l) \<and>
     cbShutdown l = Some (cbSuccess, l) \<and> hp_mem (w_gpus (lb_world l)) \<noteq> Map.empty"
proof -
  obtain t where "cudaBridgeInit demo_env demo_world = Some (cudaSuccess, demo_hot t)" using demo_init by blast
  from cb_shutdown_skipped [OF demo_start this] show ?thesis by blast
qed

end
