(* ===== verification/Python_Api.thy ===== *)
theory Python_Api
  imports Userspace Egpu_Crc Logging
begin

text \<open>
  The C side of the Python module, \<open>src/python/cudabridge_python.c\<close>: array handles, transfers with a checksum, usage
  counters, and the operations that copy their arguments to the host, compute there and copy the result back.

  The record \<open>python\<close> is the global \<open>g_pyctx\<close>, the array handles (a heap of its own), the static device name, and
  the library and the logging system below. Temporary buffers are host memory of the world. Elements are
  little-endian codes; the floating-point operations of the machine are the record \<open>fp_ops\<close> over these codes
  (operation 0 adds, 1 subtracts, 2 multiplies, 3 divides). \<^const>\<open>None\<close> is undefined behaviour: besides that of
  the layers below, an element outside its buffer, a signed overflow, a mutex that is not initialised, and
  reading a buffer no byte of which was stored (a copy the driver skipped).
\<close>

section \<open>Data\<close>

record CBPyArray =
  ar_device_ptr :: u64
  ar_size :: u64
  ar_elem_count :: u64
  ar_dtype :: int
  ar_ndim :: int
  ar_shape :: "u64 list"
  ar_is_synced :: bool
  ar_crc32 :: u32

record python =
  py_initialized :: bool
  py_lock :: lock_state
  py_total_allocs :: u64
  py_total_frees :: u64
  py_current_usage :: u64
  py_peak_usage :: u64
  py_arrays :: "CBPyArray heap"
  py_name :: string
  py_lib :: library
  py_log :: log

record fp_ops =
  fp32 :: "int \<Rightarrow> nat \<Rightarrow> nat \<Rightarrow> nat"
  fp64 :: "int \<Rightarrow> nat \<Rightarrow> nat \<Rightarrow> nat"
  fp_narrow :: "nat \<Rightarrow> nat"
  fp_widen :: "nat \<Rightarrow> nat"
  fp32_zero :: "nat \<Rightarrow> bool"
  fp64_zero :: "nat \<Rightarrow> bool"
  fp64_less :: "nat \<Rightarrow> nat \<Rightarrow> bool"
  fp64_of_count :: "nat \<Rightarrow> nat"

text \<open>The environment: that of the layers below, and \<open>__FILE__\<close>.\<close>

record py_env =
  pe_cuda :: cuda_env
  pe_log :: log_env
  pe_file :: string
  pe_fp :: fp_ops

abbreviation (input) CB_DTYPE_FLOAT32 :: int where "CB_DTYPE_FLOAT32 \<equiv> 0"
abbreviation (input) CB_DTYPE_FLOAT64 :: int where "CB_DTYPE_FLOAT64 \<equiv> 1"
abbreviation (input) CB_DTYPE_INT32 :: int where "CB_DTYPE_INT32 \<equiv> 2"
abbreviation (input) CB_DTYPE_INT64 :: int where "CB_DTYPE_INT64 \<equiv> 3"
abbreviation (input) CB_DTYPE_UINT8 :: int where "CB_DTYPE_UINT8 \<equiv> 4"
abbreviation (input) CB_DTYPE_UINT32 :: int where "CB_DTYPE_UINT32 \<equiv> 5"
abbreviation (input) CB_DTYPE_INT8 :: int where "CB_DTYPE_INT8 \<equiv> 6"
abbreviation (input) CB_DTYPE_INT16 :: int where "CB_DTYPE_INT16 \<equiv> 7"
abbreviation (input) CB_DTYPE_FLOAT16 :: int where "CB_DTYPE_FLOAT16 \<equiv> 8"
abbreviation (input) CB_DTYPE_BOOL :: int where "CB_DTYPE_BOOL \<equiv> 9"

abbreviation (input) CBPY_OP_ADD :: int where "CBPY_OP_ADD \<equiv> 0"
abbreviation (input) CBPY_OP_SUB :: int where "CBPY_OP_SUB \<equiv> 1"
abbreviation (input) CBPY_OP_MUL :: int where "CBPY_OP_MUL \<equiv> 2"
abbreviation (input) CBPY_OP_DIV :: int where "CBPY_OP_DIV \<equiv> 3"

abbreviation (input) CBPY_REDUCE_SUM :: int where "CBPY_REDUCE_SUM \<equiv> 0"
abbreviation (input) CBPY_REDUCE_MEAN :: int where "CBPY_REDUCE_MEAN \<equiv> 1"
abbreviation (input) CBPY_REDUCE_MAX :: int where "CBPY_REDUCE_MAX \<equiv> 2"
abbreviation (input) CBPY_REDUCE_MIN :: int where "CBPY_REDUCE_MIN \<equiv> 3"

definition array_zero :: CBPyArray where
  "array_zero = \<lparr>ar_device_ptr = 0, ar_size = 0, ar_elem_count = 0, ar_dtype = 0, ar_ndim = 0,
     ar_shape = replicate 8 0, ar_is_synced = False, ar_crc32 = 0\<rparr>"

definition cbpy_dtype_size :: "int \<Rightarrow> u64" where
  "cbpy_dtype_size dtype =
     (if dtype = CB_DTYPE_FLOAT32 then 4
      else if dtype = CB_DTYPE_FLOAT64 then 8
      else if dtype = CB_DTYPE_INT32 then 4
      else if dtype = CB_DTYPE_INT64 then 8
      else if dtype = CB_DTYPE_UINT8 then 1
      else if dtype = CB_DTYPE_UINT32 then 4
      else if dtype = CB_DTYPE_INT8 then 1
      else if dtype = CB_DTYPE_INT16 then 2
      else if dtype = CB_DTYPE_FLOAT16 then 2
      else if dtype = CB_DTYPE_BOOL then 1
      else 0)"

section \<open>State\<close>

definition set_lib :: "library \<Rightarrow> python \<Rightarrow> python" where
  "set_lib l p = p\<lparr>py_lib := l\<rparr>"

definition py_malloc :: "u64 \<Rightarrow> python \<Rightarrow> u64 \<times> python" where
  "py_malloc n p =
     (let w = lb_world (py_lib p); (a, hm) = host_alloc (w_host w) n
      in (a, set_lib ((py_lib p)\<lparr>lb_world := w\<lparr>w_host := hm\<rparr>\<rparr>) p))"

definition py_dispose :: "u64 \<Rightarrow> python \<Rightarrow> python option" where
  "py_dispose a p =
     (let w = lb_world (py_lib p) in
      do { hm \<leftarrow> host_free (w_host w) a; Some (set_lib ((py_lib p)\<lparr>lb_world := w\<lparr>w_host := hm\<rparr>\<rparr>) p) })"

definition free_handle :: "ptr \<Rightarrow> python \<Rightarrow> python option" where
  "free_handle a p = do { ha \<leftarrow> heap_free (py_arrays p) a; Some (p\<lparr>py_arrays := ha\<rparr>) }"

definition put_array :: "ptr \<Rightarrow> CBPyArray \<Rightarrow> python \<Rightarrow> python option" where
  "put_array a arr p = do { ha \<leftarrow> heap_put (py_arrays p) a arr; Some (p\<lparr>py_arrays := ha\<rparr>) }"

text \<open>The counters under the lock.\<close>

definition count_alloc :: "u64 \<Rightarrow> python \<Rightarrow> python option" where
  "count_alloc n p =
     (if py_lock p \<noteq> LockFree then None
      else
        let p = p\<lparr>py_total_allocs := py_total_allocs p + 1, py_current_usage := py_current_usage p + n\<rparr>
        in Some (if py_current_usage p > py_peak_usage p then p\<lparr>py_peak_usage := py_current_usage p\<rparr> else p))"

definition count_free :: "u64 \<Rightarrow> python \<Rightarrow> python option" where
  "count_free n p =
     (if py_lock p \<noteq> LockFree then None
      else
        let p = p\<lparr>py_total_frees := py_total_frees p + 1\<rparr>
        in Some (if py_current_usage p \<ge> n then p\<lparr>py_current_usage := py_current_usage p - n\<rparr>
                 else p\<lparr>py_current_usage := 0\<rparr>))"

definition cbpy_init :: "py_env \<Rightarrow> python \<Rightarrow> (int \<times> python) option" where
  "cbpy_init env p =
     (if py_initialized p then Some (0, p)
      else
        do { (_, lg) \<leftarrow> cb_log_init_default (pe_log env) (py_log p);
             (err, l) \<leftarrow> cbInit (pe_cuda env) (py_lib p);
             if err \<noteq> cbSuccess then
               do { lg \<leftarrow> cb_log_write (pe_log env) CB_LOG_ERROR CB_LOG_CAT_PYTHON (pe_file env) 83 ''cbpy_init''
                      (''cbInit failed: '' @ cbGetErrorString err) lg;
                    Some (-1, (set_lib l p)\<lparr>py_log := lg\<rparr>) }
             else if py_lock p \<noteq> LockRaw then None
             else Some (0, (set_lib l p)\<lparr>py_log := lg, py_lock := LockFree, py_total_allocs := 0, py_total_frees := 0,
                    py_current_usage := 0, py_peak_usage := 0, py_initialized := True\<rparr>) })"

definition cbpy_shutdown :: "python \<Rightarrow> python option" where
  "cbpy_shutdown p =
     (if \<not> py_initialized p then Some p
      else
        do { (_, l) \<leftarrow> cbShutdown (py_lib p);
             if py_lock p \<noteq> LockFree then None
             else Some ((set_lib l p)\<lparr>py_lock := LockRaw, py_initialized := False\<rparr>) })"

section \<open>Transfers\<close>

definition validate_array :: "CBPyArray \<Rightarrow> bool" where
  "validate_array arr \<longleftrightarrow> \<not> (ar_device_ptr arr = 0 \<or> ar_size arr = 0)"

text \<open>The loop over the dimensions; a shape given by the caller has to have them.\<close>

definition handle_shape :: "u64 \<Rightarrow> int \<Rightarrow> u64 list option \<Rightarrow> u64 list option" where
  "handle_shape elem_count ndim shape =
     (let n = min (nat ndim) 8 in
      case shape of
        None \<Rightarrow> Some (replicate n elem_count @ replicate (8 - n) 0)
      | Some s \<Rightarrow> if n \<le> length s then Some (take n s @ replicate (8 - n) 0) else None)"

definition alloc_array_handle ::
    "u64 \<Rightarrow> u64 \<Rightarrow> int \<Rightarrow> int \<Rightarrow> u64 list option \<Rightarrow> python \<Rightarrow> (ptr option \<times> python) option" where
  "alloc_array_handle elem_count total_size dtype ndim shape p =
     (case heap_alloc (py_arrays p) array_zero of
        (None, ha) \<Rightarrow> Some (None, p\<lparr>py_arrays := ha\<rparr>)
      | (Some a, ha) \<Rightarrow>
          do { s \<leftarrow> handle_shape elem_count ndim shape;
               p \<leftarrow> put_array a (array_zero\<lparr>ar_size := total_size, ar_elem_count := elem_count, ar_dtype := dtype,
                      ar_ndim := ndim, ar_shape := s\<rparr>) (p\<lparr>py_arrays := ha\<rparr>);
               Some (Some a, p) })"

definition compute_crc32 :: "u8 list \<Rightarrow> u64 \<Rightarrow> u32 option" where
  "compute_crc32 data n =
     (if unat n \<le> length data then Some (egpu_compute_crc32 (take (unat n) data)) else None)"

definition cbpy_to_device ::
    "host_ptr \<Rightarrow> u64 \<Rightarrow> int \<Rightarrow> int \<Rightarrow> u64 list option \<Rightarrow> python \<Rightarrow> (ptr option \<times> python) option" where
  "cbpy_to_device host_data elem_count dtype ndim shape p =
     (if \<not> py_initialized p \<or> hp_addr host_data = 0 \<or> elem_count = 0 then Some (None, p)
      else if ndim < 1 \<or> ndim > 8 then Some (None, p)
      else
        let elem_size = cbpy_dtype_size dtype in
        if elem_size = 0 then Some (None, p)
        else
          let total_size = elem_count * elem_size in
          do { (arr, p) \<leftarrow> alloc_array_handle elem_count total_size dtype ndim shape p;
               case arr of
                 None \<Rightarrow> Some (None, p)
               | Some a \<Rightarrow>
                   do { (err, d, l) \<leftarrow> cbMalloc True total_size (py_lib p);
                        let p = set_lib l p;
                        if err \<noteq> cbSuccess then do { p \<leftarrow> free_handle a p; Some (None, p) }
                        else do {
                          d \<leftarrow> d;
                          (err, _, l) \<leftarrow> cbMemcpy (device_ptr d) host_data total_size CB_MEMCPY_HOST_TO_DEVICE (py_lib p);
                          let p = set_lib l p;
                          if err \<noteq> cbSuccess then
                            do { (_, l) \<leftarrow> cbFree d (py_lib p);
                                 p \<leftarrow> free_handle a (set_lib l p);
                                 Some (None, p) }
                          else do {
                            r \<leftarrow> heap_get (py_arrays p) a;
                            crc \<leftarrow> compute_crc32 (hp_bytes host_data) total_size;
                            p \<leftarrow> put_array a (r\<lparr>ar_device_ptr := d, ar_is_synced := True, ar_crc32 := crc\<rparr>) p;
                            p \<leftarrow> count_alloc total_size p;
                            Some (Some a, p) } } } })"

definition cbpy_from_device :: "ptr option \<Rightarrow> host_ptr \<Rightarrow> python \<Rightarrow> (int \<times> u8 list option \<times> python) option" where
  "cbpy_from_device arr host_data p =
     (case arr of
        None \<Rightarrow> Some (-1, None, p)
      | Some a \<Rightarrow>
          do { r \<leftarrow> heap_get (py_arrays p) a;
               if \<not> validate_array r \<or> hp_addr host_data = 0 then Some (-1, None, p)
               else do {
                 (err, out, l) \<leftarrow> cbMemcpy host_data (device_ptr (ar_device_ptr r)) (ar_size r) CB_MEMCPY_DEVICE_TO_HOST (py_lib p);
                 let p = set_lib l p;
                 if err \<noteq> cbSuccess then Some (-1, out, p)
                 else do { p \<leftarrow> put_array a (r\<lparr>ar_is_synced := True\<rparr>) p; Some (0, out, p) } } })"

definition cbpy_free :: "ptr option \<Rightarrow> python \<Rightarrow> python option" where
  "cbpy_free arr p =
     (case arr of
        None \<Rightarrow> Some p
      | Some a \<Rightarrow>
          do { r \<leftarrow> heap_get (py_arrays p) a;
               p \<leftarrow> (if ar_device_ptr r \<noteq> 0
                     then map_option (\<lambda>(_, l). set_lib l p) (cbFree (ar_device_ptr r) (py_lib p)) else Some p);
               p \<leftarrow> count_free (ar_size r) p;
               free_handle a p })"

text \<open>
  A copy of an array in a new buffer: its address and its bytes; no bytes when the driver skipped the copy.
\<close>

definition copy_to_host :: "CBPyArray \<Rightarrow> python \<Rightarrow> ((u64 \<times> u8 list option) option \<times> python) option" where
  "copy_to_host r p =
     (if \<not> validate_array r then Some (None, p)
      else
        let (buf, p) = py_malloc (ar_size r) p in
        if buf = 0 then Some (None, p)
        else
          do { (err, out, l) \<leftarrow> cbMemcpy \<lparr>hp_addr = buf, hp_bytes = [], hp_room = unat (ar_size r)\<rparr>
                 (device_ptr (ar_device_ptr r)) (ar_size r) CB_MEMCPY_DEVICE_TO_HOST (py_lib p);
               let p = set_lib l p;
               if err \<noteq> cbSuccess then do { p \<leftarrow> py_dispose buf p; Some (None, p) }
               else Some (Some (buf, out), p) })"

definition copy_result_to_device ::
    "host_ptr \<Rightarrow> u64 \<Rightarrow> int \<Rightarrow> int \<Rightarrow> u64 list \<Rightarrow> python \<Rightarrow> (ptr option \<times> python) option" where
  "copy_result_to_device host_buf elem_count dtype ndim shape p =
     do { (result, p) \<leftarrow> cbpy_to_device host_buf elem_count dtype ndim (Some shape) p;
          case result of
            None \<Rightarrow> Some (None, p)
          | Some a \<Rightarrow> do { r \<leftarrow> heap_get (py_arrays p) a;
                           p \<leftarrow> put_array a (r\<lparr>ar_is_synced := False\<rparr>) p;
                           Some (Some a, p) } }"

section \<open>Elements\<close>

fun le_code :: "u8 list \<Rightarrow> nat" where
  "le_code [] = 0"
| "le_code (b # bs) = unat b + 256 * le_code bs"

fun code_bytes :: "nat \<Rightarrow> nat \<Rightarrow> u8 list" where
  "code_bytes 0 n = []"
| "code_bytes (Suc k) n = of_nat (n mod 256) # code_bytes k (n div 256)"

text \<open>\<open>((T *)buf)[i]\<close>.\<close>

definition elem_at :: "nat \<Rightarrow> u8 list \<Rightarrow> nat \<Rightarrow> nat option" where
  "elem_at sz buf i =
     (if i * sz + sz \<le> length buf then Some (le_code (take sz (drop (i * sz) buf))) else None)"

definition signed_code :: "nat \<Rightarrow> nat \<Rightarrow> int" where
  "signed_code sz n = (if n < 2 ^ (8 * sz - 1) then int n else int n - 2 ^ (8 * sz))"

text \<open>
  \<open>(T)(x op y)\<close>: \<open>int\<close> and wider signed types overflow undefined; narrower types are computed as \<open>int\<close>
  and converted back, unsigned ones wrap around.
\<close>

definition signed_op :: "nat \<Rightarrow> int \<Rightarrow> nat \<Rightarrow> nat \<Rightarrow> nat option" where
  "signed_op sz op x y =
     (let a = signed_code sz x; b = signed_code sz y; r = (if op = CBPY_OP_ADD then a + b else a * b)
      in if 4 \<le> sz \<and> \<not> (- (2 ^ (8 * sz - 1)) \<le> r \<and> r < 2 ^ (8 * sz - 1)) then None
         else Some (nat (r mod 2 ^ (8 * sz))))"

definition unsigned_op :: "nat \<Rightarrow> int \<Rightarrow> nat \<Rightarrow> nat \<Rightarrow> nat option" where
  "unsigned_op sz op x y = Some ((if op = CBPY_OP_ADD then x + y else x * y) mod 2 ^ (8 * sz))"

definition binary_elem :: "fp_ops \<Rightarrow> int \<Rightarrow> int \<Rightarrow> nat \<Rightarrow> nat \<Rightarrow> nat option" where
  "binary_elem fp dtype op x y =
     (let fop = (if op = CBPY_OP_ADD then CBPY_OP_ADD else CBPY_OP_MUL) in
      if dtype = CB_DTYPE_FLOAT32 then Some (fp32 fp fop x y)
      else if dtype = CB_DTYPE_FLOAT64 then Some (fp64 fp fop x y)
      else if dtype = CB_DTYPE_INT32 then signed_op 4 op x y
      else if dtype = CB_DTYPE_INT64 then signed_op 8 op x y
      else if dtype = CB_DTYPE_UINT8 then unsigned_op 1 op x y
      else if dtype = CB_DTYPE_UINT32 then unsigned_op 4 op x y
      else if dtype = CB_DTYPE_INT8 then signed_op 1 op x y
      else if dtype = CB_DTYPE_INT16 then signed_op 2 op x y
      else unsigned_op 1 op x y)"

text \<open>A loop that stores one value for each index.\<close>

fun each :: "nat \<Rightarrow> (nat \<Rightarrow> 'a option) \<Rightarrow> 'a list option" where
  "each 0 f = Some []"
| "each (Suc n) f = do { xs \<leftarrow> each n f; x \<leftarrow> f n; Some (xs @ [x]) }"

definition binary_loop :: "fp_ops \<Rightarrow> int \<Rightarrow> int \<Rightarrow> nat \<Rightarrow> nat \<Rightarrow> u8 list \<Rightarrow> u8 list \<Rightarrow> nat \<Rightarrow> u8 list option" where
  "binary_loop fp dtype op sz count ap bp room =
     (if room < count * sz then None
      else map_option (\<lambda>xs. concat (map (code_bytes sz) xs))
        (each count (\<lambda>i. do { x \<leftarrow> elem_at sz ap i; y \<leftarrow> elem_at sz bp i; binary_elem fp dtype op x y })))"

section \<open>Operations on arrays\<close>

definition get_array :: "ptr option \<Rightarrow> python \<Rightarrow> CBPyArray option option" where
  "get_array a p = (case a of None \<Rightarrow> Some None | Some q \<Rightarrow> map_option Some (heap_get (py_arrays p) q))"

definition validate_binary_inputs :: "CBPyArray \<Rightarrow> CBPyArray \<Rightarrow> bool option" where
  "validate_binary_inputs a b =
     (if \<not> validate_array a \<or> \<not> validate_array b then Some False
      else if ar_elem_count a \<noteq> ar_elem_count b \<or> ar_dtype a \<noteq> ar_dtype b \<or> ar_ndim a \<noteq> ar_ndim b then Some False
      else if ar_ndim a > 8 then None
      else Some (take (nat (ar_ndim a)) (ar_shape a) = take (nat (ar_ndim a)) (ar_shape b)))"

text \<open>
  \<open>launch_binary_kernel\<close>, which no function of the file calls: a new array, and a kernel of 256 threads a block over it. Its
  arguments, the addresses of the three buffers and the count, are not looked at by the layers below.
\<close>

definition launch_binary_kernel :: "ptr option \<Rightarrow> ptr option \<Rightarrow> u64 \<Rightarrow> python \<Rightarrow> (ptr option \<times> python) option" where
  "launch_binary_kernel pa pb kernel_ptr p =
     do { a \<leftarrow> get_array pa p;
          b \<leftarrow> get_array pb p;
          case (a, b) of
            (Some a, Some b) \<Rightarrow>
              do { ok \<leftarrow> validate_binary_inputs a b;
                   if \<not> ok \<or> kernel_ptr = 0 then Some (None, p)
                   else do {
                     (out, p) \<leftarrow> alloc_array_handle (ar_elem_count a) (ar_size a) (ar_dtype a) (ar_ndim a) (Some (ar_shape a)) p;
                     case out of
                       None \<Rightarrow> Some (None, p)
                     | Some q \<Rightarrow>
                         do { (err, d, l) \<leftarrow> cbMalloc True (ar_size a) (py_lib p);
                              let p = set_lib l p;
                              if err \<noteq> cbSuccess then do { p \<leftarrow> free_handle q p; Some (None, p) }
                              else do {
                                d \<leftarrow> d;
                                r \<leftarrow> heap_get (py_arrays p) q;
                                p \<leftarrow> put_array q (r\<lparr>ar_device_ptr := d\<rparr>) p;
                                (err, l) \<leftarrow> cbLaunchKernel kernel_ptr
                                  \<lparr>d3_x = ucast ((ar_elem_count a + 256 - 1) div 256), d3_y = 1, d3_z = 1\<rparr>
                                  \<lparr>d3_x = 256, d3_y = 1, d3_z = 1\<rparr> 0 None (py_lib p);
                                let p = set_lib l p;
                                if err \<noteq> cbSuccess then
                                  do { (_, l) \<leftarrow> cbFree d (py_lib p); p \<leftarrow> free_handle q (set_lib l p); Some (None, p) }
                                else do {
                                  (err, l) \<leftarrow> cbDeviceSynchronize (py_lib p);
                                  let p = set_lib l p;
                                  if err \<noteq> cbSuccess then
                                    do { (_, l) \<leftarrow> cbFree d (py_lib p); p \<leftarrow> free_handle q (set_lib l p); Some (None, p) }
                                  else do {
                                    p \<leftarrow> count_alloc (ar_size a) p;
                                    r \<leftarrow> heap_get (py_arrays p) q;
                                    p \<leftarrow> put_array q (r\<lparr>ar_is_synced := False\<rparr>) p;
                                    Some (Some q, p) } } } } } }
          | _ \<Rightarrow> Some (None, p) }"

text \<open>The two copies: \<open>free\<close> of what was allocated when one fails.\<close>

definition copy_both ::
    "CBPyArray \<Rightarrow> CBPyArray \<Rightarrow> u64 \<Rightarrow> python \<Rightarrow> (((u64 \<times> u8 list option) \<times> u64 \<times> u8 list option) option \<times> python) option" where
  "copy_both a b out_buf p =
     do { (x, p) \<leftarrow> copy_to_host a p;
          case x of
            None \<Rightarrow> do { p \<leftarrow> py_dispose out_buf p; Some (None, p) }
          | Some (a_buf, av) \<Rightarrow>
              do { (y, p) \<leftarrow> copy_to_host b p;
                   case y of
                     None \<Rightarrow> do { p \<leftarrow> py_dispose a_buf p; p \<leftarrow> py_dispose out_buf p; Some (None, p) }
                   | Some (b_buf, bv) \<Rightarrow> Some (Some ((a_buf, av), b_buf, bv), p) } }"

definition free_three :: "u64 \<Rightarrow> u64 \<Rightarrow> u64 \<Rightarrow> python \<Rightarrow> python option" where
  "free_three a b c p = do { p \<leftarrow> py_dispose a p; p \<leftarrow> py_dispose b p; py_dispose c p }"

definition binary_host_op :: "fp_ops \<Rightarrow> ptr option \<Rightarrow> ptr option \<Rightarrow> int \<Rightarrow> python \<Rightarrow> (ptr option \<times> python) option" where
  "binary_host_op fp pa pb op p =
     do { a \<leftarrow> get_array pa p;
          b \<leftarrow> get_array pb p;
          case (a, b) of
            (Some a, Some b) \<Rightarrow>
              do { ok \<leftarrow> validate_binary_inputs a b;
                   if \<not> ok then Some (None, p)
                   else
                     let elem_size = cbpy_dtype_size (ar_dtype a) in
                     if elem_size = 0 then Some (None, p)
                     else
                       let (out_buf, p) = py_malloc (ar_size a) p in
                       if out_buf = 0 then Some (None, p)
                       else do {
                         (bufs, p) \<leftarrow> copy_both a b out_buf p;
                         case bufs of
                           None \<Rightarrow> Some (None, p)
                         | Some ((a_buf, av), b_buf, bv) \<Rightarrow>
                             if ar_dtype a = CB_DTYPE_FLOAT16 then
                               do { p \<leftarrow> free_three a_buf b_buf out_buf p; Some (None, p) }
                             else do {
                               av \<leftarrow> av; bv \<leftarrow> bv;
                               out \<leftarrow> binary_loop fp (ar_dtype a) op (unat elem_size) (unat (ar_elem_count a)) av bv
                                        (unat (ar_size a));
                               (result, p) \<leftarrow> copy_result_to_device \<lparr>hp_addr = out_buf, hp_bytes = out, hp_room = unat (ar_size a)\<rparr>
                                        (ar_elem_count a) (ar_dtype a) (ar_ndim a) (ar_shape a) p;
                               p \<leftarrow> free_three a_buf b_buf out_buf p;
                               Some (result, p) } } }
          | _ \<Rightarrow> Some (None, p) }"

definition cbpy_add :: "fp_ops \<Rightarrow> ptr option \<Rightarrow> ptr option \<Rightarrow> python \<Rightarrow> (ptr option \<times> python) option" where
  "cbpy_add fp a b p = binary_host_op fp a b CBPY_OP_ADD p"

definition cbpy_multiply :: "fp_ops \<Rightarrow> ptr option \<Rightarrow> ptr option \<Rightarrow> python \<Rightarrow> (ptr option \<times> python) option" where
  "cbpy_multiply fp a b p = binary_host_op fp a b CBPY_OP_MUL p"

text \<open>The product of an \<open>m\<close> by \<open>k\<close> and a \<open>k\<close> by \<open>n\<close> matrix; indices are \<open>size_t\<close>.\<close>

fun dot :: "(int \<Rightarrow> nat \<Rightarrow> nat \<Rightarrow> nat) \<Rightarrow> nat \<Rightarrow> u8 list \<Rightarrow> u8 list \<Rightarrow> u64 \<Rightarrow> u64 \<Rightarrow> u64 \<Rightarrow> u64 \<Rightarrow> nat \<Rightarrow> nat option" where
  "dot fop sz ap bp k n row col 0 = Some 0"
| "dot fop sz ap bp k n row col (Suc j) =
     do { sum \<leftarrow> dot fop sz ap bp k n row col j;
          x \<leftarrow> elem_at sz ap (unat (row * k + of_nat j));
          y \<leftarrow> elem_at sz bp (unat (of_nat j * n + col));
          Some (fop CBPY_OP_ADD sum (fop CBPY_OP_MUL x y)) }"

definition matmul_loop ::
    "(int \<Rightarrow> nat \<Rightarrow> nat \<Rightarrow> nat) \<Rightarrow> nat \<Rightarrow> u8 list \<Rightarrow> u8 list \<Rightarrow> u64 \<Rightarrow> u64 \<Rightarrow> u64 \<Rightarrow> nat \<Rightarrow> u8 list option" where
  "matmul_loop fop sz ap bp m k n room =
     (if room < unat m * unat n * sz then None
      else map_option (\<lambda>rows. concat (map (code_bytes sz) (concat rows)))
        (each (unat m) (\<lambda>row. each (unat n) (\<lambda>col. dot fop sz ap bp k n (of_nat row) (of_nat col) (unat k)))))"

text \<open>\<open>calloc\<close> fails when the product of its arguments overflows; its bytes are zero.\<close>

definition py_calloc :: "u64 \<Rightarrow> u64 \<Rightarrow> python \<Rightarrow> u64 \<times> python" where
  "py_calloc count sz p = (if 2 ^ 64 \<le> unat count * unat sz then (0, p) else py_malloc (count * sz) p)"

definition cbpy_matmul :: "fp_ops \<Rightarrow> ptr option \<Rightarrow> ptr option \<Rightarrow> python \<Rightarrow> (ptr option \<times> python) option" where
  "cbpy_matmul fp pa pb p =
     do { a \<leftarrow> get_array pa p;
          b \<leftarrow> get_array pb p;
          case (a, b) of
            (Some a, Some b) \<Rightarrow>
              if \<not> validate_array a \<or> \<not> validate_array b then Some (None, p)
              else if ar_ndim a \<noteq> 2 \<or> ar_ndim b \<noteq> 2 then Some (None, p)
              else if ar_shape a ! 1 \<noteq> ar_shape b ! 0 \<or> ar_dtype a \<noteq> ar_dtype b then Some (None, p)
              else if ar_dtype a \<noteq> CB_DTYPE_FLOAT32 \<and> ar_dtype a \<noteq> CB_DTYPE_FLOAT64 then Some (None, p)
              else
                let m = ar_shape a ! 0; k = ar_shape a ! 1; n = ar_shape b ! 1;
                    sz = cbpy_dtype_size (ar_dtype a);
                    out_count = m * n; out_size = out_count * sz;
                    (out_buf, p) = py_calloc out_count sz p
                in if out_buf = 0 then Some (None, p)
                   else do {
                     (bufs, p) \<leftarrow> copy_both a b out_buf p;
                     case bufs of
                       None \<Rightarrow> Some (None, p)
                     | Some ((a_buf, av), b_buf, bv) \<Rightarrow>
                         do { av \<leftarrow> av; bv \<leftarrow> bv;
                              out \<leftarrow> matmul_loop (if ar_dtype a = CB_DTYPE_FLOAT32 then fp32 fp else fp64 fp) (unat sz) av bv m k n
                                       (unat out_size);
                              (result, p) \<leftarrow> copy_result_to_device \<lparr>hp_addr = out_buf, hp_bytes = out, hp_room = unat out_size\<rparr>
                                       out_count (ar_dtype a) 2 [m, n] p;
                              p \<leftarrow> (case result of
                                     None \<Rightarrow> Some p
                                   | Some q \<Rightarrow> do { r \<leftarrow> heap_get (py_arrays p) q; put_array q (r\<lparr>ar_size := out_size\<rparr>) p });
                              p \<leftarrow> free_three a_buf b_buf out_buf p;
                              Some (result, p) } }
          | _ \<Rightarrow> Some (None, p) }"

definition scalar_elem ::
    "(int \<Rightarrow> nat \<Rightarrow> nat \<Rightarrow> nat) \<Rightarrow> (nat \<Rightarrow> bool) \<Rightarrow> int \<Rightarrow> nat \<Rightarrow> nat \<Rightarrow> nat" where
  "scalar_elem fop is_zero op s x =
     (if op = CBPY_OP_ADD then fop CBPY_OP_ADD x s
      else if op = CBPY_OP_SUB then fop CBPY_OP_SUB x s
      else if op = CBPY_OP_MUL then fop CBPY_OP_MUL x s
      else if op = CBPY_OP_DIV then if \<not> is_zero s then fop CBPY_OP_DIV x s else 0
      else x)"

text \<open>
  The buffer after the loop: the elements, and the bytes after them. With any other operation than the
  four the body does nothing, and no element is touched.
\<close>

definition scalar_op_known :: "int \<Rightarrow> bool" where
  "scalar_op_known op \<longleftrightarrow> op = CBPY_OP_ADD \<or> op = CBPY_OP_SUB \<or> op = CBPY_OP_MUL \<or> op = CBPY_OP_DIV"

definition map_elems :: "int \<Rightarrow> nat \<Rightarrow> nat \<Rightarrow> (nat \<Rightarrow> nat) \<Rightarrow> u8 list \<Rightarrow> u8 list option" where
  "map_elems op sz count f buf =
     (if \<not> scalar_op_known op then Some buf
      else map_option (\<lambda>xs. concat (map (code_bytes sz) xs) @ drop (count * sz) buf)
             (each count (\<lambda>i. map_option f (elem_at sz buf i))))"

definition cbpy_scalar_op :: "fp_ops \<Rightarrow> ptr option \<Rightarrow> nat \<Rightarrow> int \<Rightarrow> python \<Rightarrow> (ptr option \<times> python) option" where
  "cbpy_scalar_op fp pa scalar op p =
     do { a \<leftarrow> get_array pa p;
          case a of
            None \<Rightarrow> Some (None, p)
          | Some a \<Rightarrow>
              if \<not> validate_array a \<or> cbpy_dtype_size (ar_dtype a) = 0 then Some (None, p)
              else do {
                (x, p) \<leftarrow> copy_to_host a p;
                case x of
                  None \<Rightarrow> Some (None, p)
                | Some (host_buf, bytes) \<Rightarrow>
                    if ar_dtype a \<noteq> CB_DTYPE_FLOAT32 \<and> ar_dtype a \<noteq> CB_DTYPE_FLOAT64 then
                      do { p \<leftarrow> py_dispose host_buf p; Some (None, p) }
                    else do {
                      bytes \<leftarrow> bytes;
                      bytes \<leftarrow> (if ar_dtype a = CB_DTYPE_FLOAT32
                               then map_elems op 4 (unat (ar_elem_count a)) (scalar_elem (fp32 fp) (fp32_zero fp) op (fp_narrow fp scalar)) bytes
                               else map_elems op 8 (unat (ar_elem_count a)) (scalar_elem (fp64 fp) (fp64_zero fp) op scalar) bytes);
                      (result, p) \<leftarrow> cbpy_to_device \<lparr>hp_addr = host_buf, hp_bytes = bytes, hp_room = unat (ar_size a)\<rparr>
                                        (ar_elem_count a) (ar_dtype a) (ar_ndim a) (Some (ar_shape a)) p;
                      p \<leftarrow> py_dispose host_buf p;
                      Some (result, p) } } }"

definition reduce_step :: "fp_ops \<Rightarrow> int \<Rightarrow> nat \<Rightarrow> nat \<Rightarrow> nat" where
  "reduce_step fp op result x =
     (if op = CBPY_REDUCE_SUM \<or> op = CBPY_REDUCE_MEAN then fp64 fp CBPY_OP_ADD result x
      else if op = CBPY_REDUCE_MAX \<and> fp64_less fp result x then x
      else if op = CBPY_REDUCE_MIN \<and> fp64_less fp x result then x
      else result)"

text \<open>The first element is always read, the others by the four operations only.\<close>

definition reduce_op_known :: "int \<Rightarrow> bool" where
  "reduce_op_known op \<longleftrightarrow>
     op = CBPY_REDUCE_SUM \<or> op = CBPY_REDUCE_MEAN \<or> op = CBPY_REDUCE_MAX \<or> op = CBPY_REDUCE_MIN"

definition reduce_loop :: "fp_ops \<Rightarrow> int \<Rightarrow> nat \<Rightarrow> (nat \<Rightarrow> nat) \<Rightarrow> nat \<Rightarrow> u8 list \<Rightarrow> nat option" where
  "reduce_loop fp op sz conv count buf =
     do { x0 \<leftarrow> elem_at sz buf 0;
          if \<not> reduce_op_known op then Some (conv x0)
          else do { xs \<leftarrow> each (count - 1) (\<lambda>i. map_option conv (elem_at sz buf (Suc i)));
                    Some (foldl (reduce_step fp op) (conv x0) xs) } }"

text \<open>The result is the code of a \<open>double\<close>; 0 is \<open>0.0\<close>.\<close>

definition cbpy_reduce :: "fp_ops \<Rightarrow> ptr option \<Rightarrow> int \<Rightarrow> python \<Rightarrow> (nat \<times> python) option" where
  "cbpy_reduce fp pa op p =
     do { a \<leftarrow> get_array pa p;
          case a of
            None \<Rightarrow> Some (0, p)
          | Some a \<Rightarrow>
              if \<not> validate_array a then Some (0, p)
              else do {
                (x, p) \<leftarrow> copy_to_host a p;
                case x of
                  None \<Rightarrow> Some (0, p)
                | Some (host_buf, bytes) \<Rightarrow>
                    do { result \<leftarrow> (if ar_dtype a = CB_DTYPE_FLOAT32
                                  then do { b \<leftarrow> bytes; reduce_loop fp op 4 (fp_widen fp) (unat (ar_elem_count a)) b }
                                  else if ar_dtype a = CB_DTYPE_FLOAT64
                                  then do { b \<leftarrow> bytes; reduce_loop fp op 8 (\<lambda>x. x) (unat (ar_elem_count a)) b }
                                  else Some 0);
                         let result = (if op = CBPY_REDUCE_MEAN \<and> ar_elem_count a > 0
                                       then fp64 fp CBPY_OP_DIV result (fp64_of_count fp (unat (ar_elem_count a))) else result);
                         p \<leftarrow> py_dispose host_buf p;
                         Some (result, p) } } }"

definition cbpy_device_name :: "py_env \<Rightarrow> python \<Rightarrow> (string \<times> python) option" where
  "cbpy_device_name env p =
     do { (err, prop, l) \<leftarrow> cbGetDeviceProperties (pe_cuda env) True 0 (py_lib p);
          let p = set_lib l p;
          if err \<noteq> cbSuccess then Some (py_name p, p)
          else do { prop \<leftarrow> prop;
                    let name = into_buffer 256 (pr_name prop);
                    Some (name, p\<lparr>py_name := name\<rparr>) } }"

definition cbpy_mem_info :: "bool \<Rightarrow> bool \<Rightarrow> python \<Rightarrow> (int \<times> (u64 \<times> u64) option \<times> python) option" where
  "cbpy_mem_info has_free has_total p =
     do { (err, out, l) \<leftarrow> cbMemGetInfo has_free has_total (py_lib p);
          Some (if err = cbSuccess then 0 else -1, out, set_lib l p) }"

definition python_zero :: "library \<Rightarrow> log \<Rightarrow> (nat \<Rightarrow> bool) \<Rightarrow> python" where
  "python_zero l lg oom = \<lparr>py_initialized = False, py_lock = LockRaw, py_total_allocs = 0, py_total_frees = 0,
     py_current_usage = 0, py_peak_usage = 0, py_arrays = heap_empty oom, py_name = ''No device'', py_lib = l, py_log = lg\<rparr>"

end
