(* ===== verification/Python_Memory.thy ===== *)
theory Python_Memory
  imports Python_Api Userspace_Properties
begin

text \<open>
  What device memory holds under the Python module: the bytes a copy to the host would deliver, which reads and host
  buffers leave alone, and the upload of new bytes. \<open>py_ready\<close> is the state of a module a client has initialised, over
  a runtime whose invariant holds (\<open>reachE\<close> gives it for every reachable runtime).
\<close>

section \<open>What device memory holds\<close>

text \<open>What a copy to the host would deliver: the code of the driver and the bytes it stores.\<close>

definition dev_read :: "world \<Rightarrow> u64 \<Rightarrow> u64 \<Rightarrow> (nv_ret \<times> u8 list option) option" where
  "dev_read w d n =
     do { gp \<leftarrow> get_current_gpu w;
          gpu \<leftarrow> heap_get (w_gpus w) gp;
          (ret, out, _) \<leftarrow> nv_gpu_memcpy_d2h gpu (w_nv w) True d n;
          Some (ret, out) }"

lemma dev_read_host [simp]: "dev_read (w\<lparr>w_host := hm\<rparr>) d n = dev_read w d n"
  by (simp add: dev_read_def get_current_gpu_def)

lemma d2h_counter:
  "nv_gpu_memcpy_d2h (gpu\<lparr>gpu_bytes_transferred := k\<rparr>) h b d n =
   map_option (\<lambda>(ret, out, g). (ret, out, if ret = NV_SUCCESS then gpu\<lparr>gpu_bytes_transferred := k + n\<rparr> else gpu\<lparr>gpu_bytes_transferred := k\<rparr>))
     (nv_gpu_memcpy_d2h gpu h b d n)"
  by (auto simp: nv_gpu_memcpy_d2h_def Let_def split: option.splits bind_splits)

lemma d2h_gpu:
  "nv_gpu_memcpy_d2h gpu h b d n = Some (ret, out, g) \<Longrightarrow> \<exists>k. g = gpu\<lparr>gpu_bytes_transferred := k\<rparr>"
proof -
  assume a: "nv_gpu_memcpy_d2h gpu h b d n = Some (ret, out, g)"
  have "g = gpu\<lparr>gpu_bytes_transferred := gpu_bytes_transferred g\<rparr>"
    using a by (auto simp: nv_gpu_memcpy_d2h_def Let_def split: if_splits elim!: bind_eq_SomeE)
  then show ?thesis ..
qed

text \<open>A copy to the host is such a read, and reads leave what is read later alone.\<close>

lemma copy_is_read:
  assumes "cudaMemcpy dst (device_ptr d) n cudaMemcpyDeviceToHost w = Some (cudaSuccess, Some bs, w')"
  shows "dev_read w d n = Some (NV_SUCCESS, Some bs)"
  using assms
  by (auto simp: cudaMemcpy_def dev_read_def device_ptr_def fail_out_def copy_result_def host_store_def
      split: if_splits option.splits elim!: bind_eq_SomeE)

lemma read_copies:
  assumes r: "dev_read w d n = Some (NV_SUCCESS, Some bs)" and "d \<noteq> 0" "n \<noteq> 0" "hp_addr dst \<noteq> 0" "length bs \<le> hp_room dst"
  shows "\<exists>w'. cudaMemcpy dst (device_ptr d) n cudaMemcpyDeviceToHost w = Some (cudaSuccess, Some bs, w') \<and>
    (\<forall>d n. dev_read w' d n = dev_read w d n) \<and> w_nv w' = w_nv w \<and> w_host w' = w_host w"
proof -
  from r obtain gp gpu g where g: "get_current_gpu w = Some gp" "heap_get (w_gpus w) gp = Some gpu"
    "nv_gpu_memcpy_d2h gpu (w_nv w) True d n = Some (NV_SUCCESS, Some bs, g)"
    by (auto simp: dev_read_def elim!: bind_eq_SomeE)
  from d2h_gpu [OF g(3)] obtain k where k: "g = gpu\<lparr>gpu_bytes_transferred := k\<rparr>" ..
  let ?w = "w\<lparr>w_gpus := (w_gpus w)\<lparr>hp_mem := (hp_mem (w_gpus w))(gp \<mapsto> g)\<rparr>\<rparr>"
  have put: "heap_put (w_gpus w) gp g = Some ((w_gpus w)\<lparr>hp_mem := (hp_mem (w_gpus w))(gp \<mapsto> g)\<rparr>)"
    using g(2) by (simp add: heap_put_def heap_get_def)
  have c: "cudaMemcpy dst (device_ptr d) n cudaMemcpyDeviceToHost w = Some (cudaSuccess, Some bs, ?w)"
    using assms(2-5) g put by (simp add: cudaMemcpy_def device_ptr_def copy_result_def host_store_def)
  have cur: "get_current_gpu ?w = Some gp" "heap_get (w_gpus ?w) gp = Some g" "w_nv ?w = w_nv w"
    using g(1) by (simp_all add: get_current_gpu_def heap_get_def)
  have "dev_read ?w d' n' = dev_read w d' n'" for d' n'
    unfolding dev_read_def cur g(1,2) bind.bind_lunit unfolding k d2h_counter by (cases "nv_gpu_memcpy_d2h gpu (w_nv w) True d' n'") auto
  with c show ?thesis by auto
qed

abbreviation py_world :: "python \<Rightarrow> world" where "py_world p \<equiv> lb_world (py_lib p)"

text \<open>The bytes on the device an array handle stands for.\<close>

definition array_read :: "python \<Rightarrow> CBPyArray \<Rightarrow> u8 list option" where
  "array_read p r =
     (case dev_read (py_world p) (ar_device_ptr r) (ar_size r) of
        Some (NV_SUCCESS, Some bs) \<Rightarrow> if length bs = unat (ar_size r) then Some bs else None
      | _ \<Rightarrow> None)"

definition array_bytes :: "python \<Rightarrow> ptr \<Rightarrow> u8 list option" where
  "array_bytes p a = do { r \<leftarrow> heap_get (py_arrays p) a; array_read p r }"

lemma array_readD:
  "array_read p r = Some bs \<longleftrightarrow>
     dev_read (py_world p) (ar_device_ptr r) (ar_size r) = Some (NV_SUCCESS, Some bs) \<and> length bs = unat (ar_size r)"
  by (auto simp: array_read_def split: option.splits nv_ret.splits prod.splits if_splits)

text \<open>Two states of the module that differ in the library below only.\<close>

definition same_py :: "python \<Rightarrow> python \<Rightarrow> bool" where
  "same_py p p' \<longleftrightarrow> p' = set_lib (py_lib p') p"

text \<open>
  A step that reads: the device holds what it held, the host memory is \<open>hm\<close>, and the invariant of the runtime is kept.
\<close>

definition reads :: "python \<Rightarrow> python \<Rightarrow> bool" where
  "reads p p' \<longleftrightarrow> same_py p p' \<and> (\<forall>d n. dev_read (py_world p') d n = dev_read (py_world p) d n) \<and>
     w_nv (py_world p') = w_nv (py_world p)"

lemma set_lib_sel [simp]:
  "py_lib (set_lib l p) = l" "py_arrays (set_lib l p) = py_arrays p" "py_initialized (set_lib l p) = py_initialized p"
  "py_lock (set_lib l p) = py_lock p" "py_current_usage (set_lib l p) = py_current_usage p"
  "py_peak_usage (set_lib l p) = py_peak_usage p" "py_total_allocs (set_lib l p) = py_total_allocs p"
  "py_total_frees (set_lib l p) = py_total_frees p" "set_lib l (set_lib l' p) = set_lib l p"
  by (simp_all add: set_lib_def)

lemma set_lib_id [simp]: "set_lib (py_lib p) p = p"
  by (simp add: set_lib_def)

lemma same_pyI [intro]: "same_py p (set_lib l p)"
  by (simp add: same_py_def)

lemma same_py_refl [simp]: "same_py p p"
  by (simp add: same_py_def)

lemma same_py_trans: "same_py p q \<Longrightarrow> same_py q r \<Longrightarrow> same_py p r"
  unfolding same_py_def by (metis set_lib_sel(9))

lemma same_py_sel:
  assumes "same_py p p'"
  shows "py_arrays p' = py_arrays p" "py_initialized p' = py_initialized p" "py_lock p' = py_lock p"
    "py_current_usage p' = py_current_usage p" "py_peak_usage p' = py_peak_usage p"
    "py_total_allocs p' = py_total_allocs p" "py_total_frees p' = py_total_frees p"
proof -
  obtain l where "p' = set_lib l p" using assms by (auto simp: same_py_def)
  then show "py_arrays p' = py_arrays p" "py_initialized p' = py_initialized p" "py_lock p' = py_lock p"
    "py_current_usage p' = py_current_usage p" "py_peak_usage p' = py_peak_usage p"
    "py_total_allocs p' = py_total_allocs p" "py_total_frees p' = py_total_frees p" by simp_all
qed

lemma reads_refl [simp]: "reads p p"
  by (simp add: reads_def)

lemma reads_trans [trans]: "reads p q \<Longrightarrow> reads q r \<Longrightarrow> reads p r"
  unfolding reads_def using same_py_trans by auto

lemma reads_array: "reads p p' \<Longrightarrow> array_read p' r = array_read p r"
  by (simp add: reads_def array_read_def)

lemma reads_same: "reads p p' \<Longrightarrow> same_py p p'"
  by (simp add: reads_def)

section \<open>Host buffers\<close>

text \<open>The next \<open>k\<close> addresses \<open>malloc\<close> picks are not null, not in use and different from each other.\<close>

definition picks_fresh :: "nat \<Rightarrow> host_mem \<Rightarrow> bool" where
  "picks_fresh k hm \<longleftrightarrow> (\<forall>i < k. \<forall>a. hm_pick hm (hm_count hm + i) = Some a \<longrightarrow>
     a \<noteq> 0 \<and> a \<notin> dom (hm_live hm) \<and> (\<forall>j < i. hm_pick hm (hm_count hm + j) \<noteq> Some a))"

text \<open>One pick later, which gave an address or not.\<close>

definition picked :: "host_mem \<Rightarrow> host_mem \<Rightarrow> bool \<Rightarrow> bool" where
  "picked h h' got \<longleftrightarrow> hm_pick h' = hm_pick h \<and> hm_count h' = Suc (hm_count h) \<and> (\<not> got \<longrightarrow> hm_pick h (hm_count h) = None)"

lemma host_alloc_fresh:
  assumes h: "host_alloc h n = (a, hm)" and f: "picks_fresh (Suc k) h"
  shows "picks_fresh k hm \<and> dom (hm_live h) \<subseteq> dom (hm_live hm) \<and>
    (a \<noteq> 0 \<longrightarrow> a \<notin> dom (hm_live h) \<and> hm_live hm = (hm_live h)(a \<mapsto> buf_new (unat n))) \<and> picked h hm (a \<noteq> 0)"
proof -
  have c: "hm_count hm = Suc (hm_count h)" "hm_pick hm = hm_pick h" using h by (auto simp: host_alloc_def Let_def split: option.splits)
  note l = host_alloc_cases [OF h]
  have z: "a = 0 \<Longrightarrow> hm_pick h (hm_count h) = None"
  proof (rule ccontr)
    assume "a = 0" and "hm_pick h (hm_count h) \<noteq> None"
    with l(3) have "hm_pick h (hm_count h + 0) = Some 0" by simp
    with f [unfolded picks_fresh_def, rule_format, of 0 0] show False by simp
  qed
  have a: "a \<noteq> 0 \<Longrightarrow> hm_pick h (hm_count h) = Some a" using l(2,3) by auto
  then have d: "a \<noteq> 0 \<Longrightarrow> a \<notin> dom (hm_live h) \<and> hm_live hm = (hm_live h)(a \<mapsto> buf_new (unat n))"
    using l(1) f [unfolded picks_fresh_def, rule_format, of 0 a] by simp
  have "picks_fresh k hm"
    unfolding picks_fresh_def c
  proof (intro allI impI)
    fix i b assume i: "i < k" "hm_pick h (Suc (hm_count h) + i) = Some b"
    then have b: "b \<noteq> 0" "b \<notin> dom (hm_live h)" and j: "\<forall>j < Suc i. hm_pick h (hm_count h + j) \<noteq> Some b"
      using f [unfolded picks_fresh_def, rule_format, of "Suc i" b] by simp_all
    have "b \<notin> dom (hm_live hm)" using l(1,3) b(2) j [rule_format, of 0] by (auto split: if_splits)
    moreover have "\<forall>j < i. hm_pick h (Suc (hm_count h) + j) \<noteq> Some b"
      using j by (metis Suc_less_eq add_Suc add_Suc_right)
    ultimately show "b \<noteq> 0 \<and> b \<notin> dom (hm_live hm) \<and> (\<forall>j < i. hm_pick h (Suc (hm_count h) + j) \<noteq> Some b)" using b by blast
  qed
  moreover have "picked h hm (a \<noteq> 0)" using c z by (simp add: picked_def)
  moreover have "dom (hm_live h) \<subseteq> dom (hm_live hm)" using l(1) by auto
  ultimately show ?thesis using d by blast
qed

lemma py_malloc_step:
  assumes m: "py_malloc n p = (a, q)" and f: "picks_fresh (Suc k) (w_host (py_world p))"
  shows "reads p q \<and> picks_fresh k (w_host (py_world q)) \<and> (cuda_inv io S (py_world p) \<longrightarrow> cuda_inv io S (py_world q)) \<and>
    dom (hm_live (w_host (py_world p))) \<subseteq> dom (hm_live (w_host (py_world q))) \<and>
    (a \<noteq> 0 \<longrightarrow> a \<notin> dom (hm_live (w_host (py_world p))) \<and> a \<in> dom (hm_live (w_host (py_world q)))) \<and>
    picked (w_host (py_world p)) (w_host (py_world q)) (a \<noteq> 0)"
proof -
  obtain hm where h: "host_alloc (w_host (py_world p)) n = (a, hm)"
    and q: "q = set_lib ((py_lib p)\<lparr>lb_world := (py_world p)\<lparr>w_host := hm\<rparr>\<rparr>) p"
    using m by (auto simp: py_malloc_def Let_def split: prod.splits)
  from host_alloc_fresh [OF h f] q inv_host [of io S "py_world p" hm] show ?thesis by (auto simp: reads_def)
qed

lemma py_dispose_live:
  assumes "a \<in> dom (hm_live (w_host (py_world p)))"
  shows "\<exists>q. py_dispose a p = Some q \<and> reads p q \<and>
    dom (hm_live (w_host (py_world q))) = (if a = 0 then dom (hm_live (w_host (py_world p))) else dom (hm_live (w_host (py_world p))) - {a})"
  using assms by (auto simp: py_dispose_def host_free_def Let_def reads_def)

lemma free_three_live:
  assumes "{a, b, c} \<subseteq> dom (hm_live (w_host (py_world p)))" and "a \<noteq> b" "a \<noteq> c" "b \<noteq> c"
  shows "\<exists>q. free_three a b c p = Some q \<and> reads p q"
proof -
  from assms(1) py_dispose_live [of a p] obtain q1 where q1: "py_dispose a p = Some q1" "reads p q1"
    "dom (hm_live (w_host (py_world q1))) = (if a = 0 then dom (hm_live (w_host (py_world p))) else dom (hm_live (w_host (py_world p))) - {a})" by auto
  with assms py_dispose_live [of b q1] obtain q2 where q2: "py_dispose b q1 = Some q2" "reads q1 q2"
    "dom (hm_live (w_host (py_world q2))) = (if b = 0 then dom (hm_live (w_host (py_world q1))) else dom (hm_live (w_host (py_world q1))) - {b})"
    by (auto split: if_splits)
  with q1(3) assms py_dispose_live [of c q2] obtain q3 where "py_dispose c q2 = Some q3" "reads q2 q3" by (auto split: if_splits)
  with q1 q2 show ?thesis by (auto simp: free_three_def intro: reads_trans)
qed

section \<open>Copies between host and device\<close>

lemma cb_memcpy_d2h:
  assumes "cudaMemcpy dst (device_ptr d) n cudaMemcpyDeviceToHost (lb_world l) = Some (cudaSuccess, out, w')"
    and "d \<noteq> 0" "n \<noteq> 0" "hp_addr dst \<noteq> 0"
  shows "cbMemcpy dst (device_ptr d) n CB_MEMCPY_DEVICE_TO_HOST l = Some (cbSuccess, out, l\<lparr>lb_world := w'\<rparr>)"
  using assms by (simp add: cbMemcpy_def device_ptr_def runtime_out_def record_error_out_def cuda_kind_def)

text \<open>Copying a readable array to the host either runs out of host memory or gives its bytes.\<close>

lemma copy_to_host_read:
  assumes r: "array_read p r = Some bs" and v: "validate_array r" and f: "picks_fresh (Suc k) (w_host (py_world p))"
  shows "\<exists>x q. copy_to_host r p = Some (x, q) \<and> reads p q \<and> picks_fresh k (w_host (py_world q)) \<and>
    (cuda_inv io S (py_world p) \<longrightarrow> cuda_inv io S (py_world q)) \<and>
    dom (hm_live (w_host (py_world p))) \<subseteq> dom (hm_live (w_host (py_world q))) \<and>
    picked (w_host (py_world p)) (w_host (py_world q)) (x \<noteq> None) \<and>
    (case x of None \<Rightarrow> True
     | Some (buf, out) \<Rightarrow> out = Some bs \<and> buf \<noteq> 0 \<and> buf \<notin> dom (hm_live (w_host (py_world p))) \<and> buf \<in> dom (hm_live (w_host (py_world q))))"
proof -
  obtain buf q where m: "py_malloc (ar_size r) p = (buf, q)" by fastforce
  note s = py_malloc_step [OF m f, of io S]
  show ?thesis
  proof (cases "buf = 0")
    case True
    then show ?thesis using v m s by (auto simp: copy_to_host_def)
  next
    case False
    let ?dst = "\<lparr>hp_addr = buf, hp_bytes = [], hp_room = unat (ar_size r)\<rparr>"
    have nz: "ar_device_ptr r \<noteq> 0" "ar_size r \<noteq> 0" using v by (simp_all add: validate_array_def)
    have rq: "dev_read (py_world q) (ar_device_ptr r) (ar_size r) = Some (NV_SUCCESS, Some bs)" and l: "length bs = unat (ar_size r)"
      using r s by (auto simp: array_readD reads_def)
    from read_copies [OF rq nz, of ?dst] False l obtain w' where
      w': "cudaMemcpy ?dst (device_ptr (ar_device_ptr r)) (ar_size r) cudaMemcpyDeviceToHost (py_world q) = Some (cudaSuccess, Some bs, w')"
        "\<forall>d n. dev_read w' d n = dev_read (py_world q) d n" "w_nv w' = w_nv (py_world q)" "w_host w' = w_host (py_world q)" by auto
    have c: "copy_to_host r p = Some (Some (buf, Some bs), set_lib ((py_lib q)\<lparr>lb_world := w'\<rparr>) q)"
      using v m False cb_memcpy_d2h [OF w'(1) nz] by (simp add: copy_to_host_def)
    have "reads q (set_lib ((py_lib q)\<lparr>lb_world := w'\<rparr>) q)" using w' by (auto simp: reads_def)
    with s have "reads p (set_lib ((py_lib q)\<lparr>lb_world := w'\<rparr>) q)" by (blast intro: reads_trans)
    moreover have "cuda_inv io S (py_world p) \<longrightarrow> cuda_inv io S w'" using s memcpy_keeps [OF _ w'(1)] by blast
    ultimately show ?thesis using c s w'(4) False by auto
  qed
qed

lemma copy_to_host_ok:
  assumes "array_read p r = Some bs" and "validate_array r" and "picks_fresh 1 (w_host (py_world p))"
    and "hm_pick (w_host (py_world p)) (hm_count (w_host (py_world p))) \<noteq> None"
  shows "\<exists>buf q. copy_to_host r p = Some (Some (buf, Some bs), q)"
proof -
  have f: "picks_fresh (Suc 0) (w_host (py_world p))" using assms(3) by simp
  obtain x q where c: "copy_to_host r p = Some (x, q)" "picked (w_host (py_world p)) (w_host (py_world q)) (x \<noteq> None)"
    "case x of None \<Rightarrow> True | Some (buf, out) \<Rightarrow> out = Some bs \<and> buf \<noteq> 0 \<and> buf \<notin> dom (hm_live (w_host (py_world p))) \<and>
       buf \<in> dom (hm_live (w_host (py_world q)))"
    using copy_to_host_read [OF assms(1,2) f] by blast
  from c(2) assms(4) obtain buf out where "x = Some (buf, out)" by (cases x) (auto simp: picked_def)
  with c(1,3) show ?thesis by auto
qed

section \<open>To the device\<close>

lemma malloc_host_same: "cudaMalloc b sz w = Some (e, out, w') \<Longrightarrow> w_host w' = w_host w"
  by (auto simp: cudaMalloc_def fail_out_def world_simps Let_def split: if_splits option.splits elim!: bind_eq_SomeE)

lemma malloc_out: "cudaMalloc b sz w = Some (cudaSuccess, out, w') \<Longrightarrow> \<exists>a. out = Some a"
  by (auto simp: cudaMalloc_def fail_out_def world_simps Let_def split: if_splits option.splits elim!: bind_eq_SomeE)

lemma h2d_next: "cudaMemcpy dst src n cudaMemcpyHostToDevice w = Some (e, out, w') \<Longrightarrow> next_gpu_addr (w_nv w') = next_gpu_addr (w_nv w)"
  by (auto simp: cudaMemcpy_def fail_out_def copy_result_def world_simps dest!: h2d_shape split: if_splits option.splits elim!: bind_eq_SomeE)

text \<open>A new block on the device with the host bytes in it, or the code of the failure.\<close>

lemma upload:
  assumes I: "cuda_inv io S w" and room: "addr_room (w_nv w) n" and nz: "next_gpu_addr (w_nv w) \<noteq> 0" "n \<noteq> 0"
    and src: "hp_addr src \<noteq> 0" "length (hp_bytes src) = unat n"
  shows "\<exists>e out w1. cudaMalloc True n w = Some (e, out, w1) \<and> cuda_inv io S w1 \<and> w_host w1 = w_host w \<and>
    (e = cudaSuccess \<longrightarrow> out = Some (next_gpu_addr (w_nv w)) \<and>
      (\<exists>w2. cudaMemcpy (device_ptr (next_gpu_addr (w_nv w))) src n cudaMemcpyHostToDevice w1 = Some (cudaSuccess, None, w2) \<and>
        cuda_inv io S w2 \<and> w_host w2 = w_host w \<and> next_gpu_addr (w_nv w2) \<noteq> 0 \<and>
        next_gpu_addr (w_nv w2) = next_gpu_addr (w_nv w) + page_round n \<and> dev_read w2 (next_gpu_addr (w_nv w)) n = Some (NV_SUCCESS, Some (hp_bytes src))))"
proof -
  from malloc_total [OF I room, of True] obtain e out w1 where
    m: "cudaMalloc True n w = Some (e, out, w1)" and I1: "cuda_inv io S w1" by blast
  note h = malloc_host_same [OF m]
  show ?thesis
  proof (cases "e = cudaSuccess")
    case False
    with m I1 h show ?thesis by auto
  next
    case True
    with malloc_out m obtain a where a: "out = Some a" by blast
    have c: "cudaMalloc True n w = Some (cudaSuccess, Some a, w1)" using m True a by simp
    from I room c have an: "a = next_gpu_addr (w_nv w)" and nx: "next_gpu_addr (w_nv w1) = next_gpu_addr (w_nv w) + page_round n"
      by (cases rule: malloc_hot, simp)+
    have n0: "0 < unat n" using nz(2) by (simp add: unat_gt_0)
    let ?dst = "\<lparr>hp_addr = 1, hp_bytes = [], hp_room = unat n\<rparr>"
    have a0: "a \<noteq> 0" using an nz(1) by simp
    obtain w2 w3 where w: "cudaMemcpy (device_ptr a) src n cudaMemcpyHostToDevice w1 = Some (cudaSuccess, None, w2)"
      "cudaMemcpy ?dst (device_ptr a) n cudaMemcpyDeviceToHost w2 = Some (cudaSuccess, Some (hp_bytes src), w3)"
      using malloc_copy_roundtrip [OF I room c n0 order.refl src(2), of ?dst src] a0 src(1) by auto
    have "unat (next_gpu_addr (w_nv w2)) = unat (next_gpu_addr (w_nv w)) + unat (page_round n)"
      unfolding h2d_next [OF w(1)] nx by (rule addr_room_next [OF room n0])
    then have "next_gpu_addr (w_nv w2) \<noteq> 0" using nz(1) by (auto simp: unat_eq_0)
    moreover from memcpy_keeps [OF I1 w(1)] h have "cuda_inv io S w2" "w_host w2 = w_host w" by simp_all
    moreover have "next_gpu_addr (w_nv w2) = next_gpu_addr (w_nv w) + page_round n" unfolding h2d_next [OF w(1)] nx ..
    ultimately show ?thesis using m I1 h True a an w(1) copy_is_read [OF w(2)] by auto
  qed
qed

definition shape_given :: "int \<Rightarrow> u64 list option \<Rightarrow> bool" where
  "shape_given ndim shape \<longleftrightarrow> (case shape of None \<Rightarrow> True | Some s \<Rightarrow> nat ndim \<le> length s)"

text \<open>A module a client has initialised, over a runtime in a state the client reached.\<close>

definition py_ready :: "iokit option \<Rightarrow> (ptr \<times> ptr) list \<Rightarrow> python \<Rightarrow> bool" where
  "py_ready io S p \<longleftrightarrow> py_initialized p \<and> py_lock p = LockFree \<and> heap_wf (py_arrays p) \<and>
     cuda_inv io S (py_world p) \<and> next_gpu_addr (w_nv (py_world p)) \<noteq> 0"

text \<open>The handle \<open>cbpy_to_device\<close> makes.\<close>

definition new_array :: "host_ptr \<Rightarrow> u64 \<Rightarrow> int \<Rightarrow> int \<Rightarrow> u64 list option \<Rightarrow> u64 \<Rightarrow> CBPyArray" where
  "new_array host count dtype ndim shape d =
     (let n = count * cbpy_dtype_size dtype in
      \<lparr>ar_device_ptr = d, ar_size = n, ar_elem_count = count, ar_dtype = dtype, ar_ndim = ndim,
       ar_shape = the (handle_shape count ndim shape), ar_is_synced = True, ar_crc32 = crc_reference (hp_bytes host)\<rparr>)"

lemma cb_malloc_true: "n \<noteq> 0 \<Longrightarrow> cudaMalloc True n (lb_world l) = Some (e, out, w) \<Longrightarrow>
    cbMalloc True n l = Some (cuda_to_cb_error e, out,
      if e = cudaSuccess then l\<lparr>lb_world := w\<rparr> else SET_ERROR (cuda_to_cb_error e) (l\<lparr>lb_world := w\<rparr>))"
  by (simp add: cbMalloc_def runtime_out_def record_error_out_def)

lemma cb_memcpy_h2d:
  "cudaMemcpy (device_ptr d) src n cudaMemcpyHostToDevice (lb_world l) = Some (cudaSuccess, out, w') \<Longrightarrow>
   d \<noteq> 0 \<Longrightarrow> n \<noteq> 0 \<Longrightarrow> hp_addr src \<noteq> 0 \<Longrightarrow>
   cbMemcpy (device_ptr d) src n CB_MEMCPY_HOST_TO_DEVICE l = Some (cbSuccess, out, l\<lparr>lb_world := w'\<rparr>)"
  by (simp add: cbMemcpy_def device_ptr_def runtime_out_def record_error_out_def cuda_kind_def)

lemma handle_shape_total: "shape_given ndim shape \<Longrightarrow> handle_shape c ndim shape = Some (the (handle_shape c ndim shape))"
  by (auto simp: shape_given_def handle_shape_def Let_def split: option.splits)

lemma alloc_handle_cases:
  assumes "shape_given ndim shape"
  obtains "alloc_array_handle c n dtype ndim shape p = Some (None, p\<lparr>py_arrays := (py_arrays p)\<lparr>hp_next := Suc (hp_next (py_arrays p))\<rparr>\<rparr>)"
      "hp_oom (py_arrays p) (hp_next (py_arrays p))"
  | r where "alloc_array_handle c n dtype ndim shape p = Some (Some (hp_next (py_arrays p)),
       p\<lparr>py_arrays := (py_arrays p)\<lparr>hp_mem := (hp_mem (py_arrays p))(hp_next (py_arrays p) \<mapsto> r), hp_next := Suc (hp_next (py_arrays p))\<rparr>\<rparr>)"
     "r = array_zero\<lparr>ar_size := n, ar_elem_count := c, ar_dtype := dtype, ar_ndim := ndim, ar_shape := the (handle_shape c ndim shape)\<rparr>"
proof (cases "hp_oom (py_arrays p) (hp_next (py_arrays p))")
  case True
  then show ?thesis by (intro that(1)) (simp_all add: alloc_array_handle_def heap_alloc_def Let_def)
next
  case False
  show ?thesis
    by (rule that(2) [OF _ refl], subst alloc_array_handle_def, subst handle_shape_total [OF assms])
       (simp add: False heap_alloc_def Let_def put_array_def heap_put_def)
qed

lemma count_alloc_step:
  "py_lock p = LockFree \<Longrightarrow> \<exists>q. count_alloc n p = Some q \<and> py_lib q = py_lib p \<and> py_arrays q = py_arrays p \<and>
     py_initialized q = py_initialized p \<and> py_lock q = LockFree \<and> py_current_usage q = py_current_usage p + n \<and>
     py_peak_usage q = max (py_peak_usage p) (py_current_usage p + n)"
  by (auto simp: count_alloc_def Let_def max_def)

text \<open>No memory for a handle, or none on the device.\<close>

definition no_memory :: "python \<Rightarrow> u64 \<Rightarrow> bool" where
  "no_memory p n \<longleftrightarrow> hp_oom (py_arrays p) (hp_next (py_arrays p)) \<or>
     (\<forall>out w. cudaMalloc True n (py_world p) \<noteq> Some (cudaSuccess, out, w))"

lemma to_device_guard:
  assumes "hp_addr host \<noteq> 0" "c \<noteq> 0" "1 \<le> ndim" "ndim \<le> 8" "cbpy_dtype_size dtype \<noteq> 0" "py_initialized p"
    and n: "n = c * cbpy_dtype_size dtype"
  shows "cbpy_to_device host c dtype ndim shape p =
    do { (arr, p) \<leftarrow> alloc_array_handle c n dtype ndim shape p;
               case arr of
                 None \<Rightarrow> Some (None, p)
               | Some a \<Rightarrow>
                   do { (err, d, l) \<leftarrow> cbMalloc True n (py_lib p);
                        let p = set_lib l p;
                        if err \<noteq> cbSuccess then do { p \<leftarrow> free_handle a p; Some (None, p) }
                        else do {
                          d \<leftarrow> d;
                          (err, _, l) \<leftarrow> cbMemcpy (device_ptr d) host n CB_MEMCPY_HOST_TO_DEVICE (py_lib p);
                          let p = set_lib l p;
                          if err \<noteq> cbSuccess then
                            do { (_, l) \<leftarrow> cbFree d (py_lib p);
                                 p \<leftarrow> free_handle a (set_lib l p);
                                 Some (None, p) }
                          else do {
                            r \<leftarrow> heap_get (py_arrays p) a;
                            crc \<leftarrow> compute_crc32 (hp_bytes host) n;
                            p \<leftarrow> put_array a (r\<lparr>ar_device_ptr := d, ar_is_synced := True, ar_crc32 := crc\<rparr>) p;
                            p \<leftarrow> count_alloc n p;
                            Some (Some a, p) } } } }"
  unfolding n using assms(1-6) by (simp add: cbpy_to_device_def Let_def)

text \<open>What the upload of an array gives: no handle, when there was no memory, or a handle on a new block with the bytes.\<close>

definition uploaded ::
    "iokit option \<Rightarrow> (ptr \<times> ptr) list \<Rightarrow> host_ptr \<Rightarrow> u64 \<Rightarrow> int \<Rightarrow> int \<Rightarrow> u64 list option \<Rightarrow> python \<Rightarrow> u64 \<Rightarrow> ptr option \<Rightarrow> python \<Rightarrow> bool" where
  "uploaded io S host c dtype ndim shape p n out q \<longleftrightarrow>
    w_host (py_world q) = w_host (py_world p) \<and> heap_wf (py_arrays q) \<and> py_initialized q \<and> py_lock q = LockFree \<and>
    (case out of
       None \<Rightarrow> hp_mem (py_arrays q) = hp_mem (py_arrays p) \<and> py_current_usage q = py_current_usage p \<and>
         py_peak_usage q = py_peak_usage p \<and> no_memory p n
     | Some a \<Rightarrow> a = hp_next (py_arrays p) \<and> n \<noteq> 0 \<and>
         hp_mem (py_arrays q) = (hp_mem (py_arrays p))(a \<mapsto> new_array host c dtype ndim shape (next_gpu_addr (w_nv (py_world p)))) \<and>
         array_bytes q a = Some (hp_bytes host) \<and> py_ready io S q \<and>
         next_gpu_addr (w_nv (py_world q)) = next_gpu_addr (w_nv (py_world p)) + page_round n \<and>
         py_current_usage q = py_current_usage p + n \<and> py_peak_usage q = max (py_peak_usage p) (py_current_usage q))"

text \<open>The last steps of an upload, once the bytes are in their block.\<close>

lemma upload_finish:
  fixes p :: python
  defines "a \<equiv> hp_next (py_arrays p)" and "d \<equiv> next_gpu_addr (w_nv (py_world p))"
  assumes R: "py_ready io S p" and n: "n = c * cbpy_dtype_size dtype" "length (hp_bytes host) = unat n" "n \<noteq> 0"
    and w: "w_host w2 = w_host (py_world p)" "cuda_inv io S w2" "next_gpu_addr (w_nv w2) \<noteq> 0" "next_gpu_addr (w_nv w2) = d + page_round n"
      "dev_read w2 d n = Some (NV_SUCCESS, Some (hp_bytes host))"
  shows "\<exists>q. count_alloc n ((set_lib ((py_lib p)\<lparr>lb_world := w2\<rparr>) p)\<lparr>py_arrays :=
      (py_arrays p)\<lparr>hp_mem := (hp_mem (py_arrays p))(a \<mapsto> new_array host c dtype ndim shape d), hp_next := Suc a\<rparr>\<rparr>) = Some q \<and>
    uploaded io S host c dtype ndim shape p n (Some a) q"
proof -
  let ?l2 = "(py_lib p)\<lparr>lb_world := w2\<rparr>" and ?r = "new_array host c dtype ndim shape d"
  let ?q0 = "(set_lib ?l2 p)\<lparr>py_arrays := (py_arrays p)\<lparr>hp_mem := (hp_mem (py_arrays p))(a \<mapsto> ?r), hp_next := Suc a\<rparr>\<rparr>"
  have wf: "heap_wf (py_arrays p)" and ini: "py_initialized p" and lk: "py_lock p = LockFree" using R by (simp_all add: py_ready_def)
  have wfs: "heap_wf ((py_arrays p)\<lparr>hp_mem := (hp_mem (py_arrays p))(a \<mapsto> ?r), hp_next := Suc a\<rparr>)"
    using wf by (auto simp: heap_wf_def less_Suc_eq a_def)
  obtain q where q: "count_alloc n ?q0 = Some q" "py_lib q = ?l2" "py_arrays q = py_arrays ?q0" "py_initialized q" "py_lock q = LockFree"
    "py_current_usage q = py_current_usage p + n" "py_peak_usage q = max (py_peak_usage p) (py_current_usage q)"
    using count_alloc_step [of ?q0 n] lk ini by auto
  have "array_bytes q a = Some (hp_bytes host)"
    using q(2,3) w(5) n by (simp add: array_bytes_def heap_get_def array_readD new_array_def Let_def)
  with q w wfs n(3) show ?thesis by (auto simp: uploaded_def py_ready_def a_def d_def)
qed

lemma to_device:
  assumes R: "py_ready io S p" and h: "hp_addr host \<noteq> 0" "c \<noteq> 0" "1 \<le> ndim" "ndim \<le> 8" "cbpy_dtype_size dtype \<noteq> 0"
    and sg: "shape_given ndim shape" and n: "n = c * cbpy_dtype_size dtype" "length (hp_bytes host) = unat n"
    and room: "addr_room (w_nv (py_world p)) n"
  shows "\<exists>out q. cbpy_to_device host c dtype ndim shape p = Some (out, q) \<and> uploaded io S host c dtype ndim shape p n out q"
proof -
  let ?a = "hp_next (py_arrays p)" and ?d = "next_gpu_addr (w_nv (py_world p))"
  have I: "cuda_inv io S (py_world p)" and d0: "?d \<noteq> 0" and wf: "heap_wf (py_arrays p)" and ini: "py_initialized p" and lk: "py_lock p = LockFree"
    using R by (simp_all add: py_ready_def)
  have none: "hp_mem (py_arrays p) ?a = None" by (rule heap_wf_fresh [OF wf])
  have wfs: "heap_wf ((py_arrays p)\<lparr>hp_mem := (hp_mem (py_arrays p))(?a \<mapsto> r), hp_next := Suc ?a\<rparr>)"
    "heap_wf ((py_arrays p)\<lparr>hp_next := Suc ?a\<rparr>)" for r
    using wf by (auto simp: heap_wf_def less_Suc_eq)
  note guard = to_device_guard [OF h ini n(1), of shape]
  show ?thesis
    using sg
  proof (cases rule: alloc_handle_cases [where c = c and n = n and dtype = dtype and p = p])
    case 1
    with guard wfs ini lk show ?thesis by (simp add: no_memory_def uploaded_def)
  next
    case (2 r)
    let ?p = "p\<lparr>py_arrays := (py_arrays p)\<lparr>hp_mem := (hp_mem (py_arrays p))(?a \<mapsto> r), hp_next := Suc ?a\<rparr>\<rparr>"
    have freed: "(hp_mem (py_arrays p))(?a := None) = hp_mem (py_arrays p)" using none by (simp add: fun_upd_idem)
    have fh: "free_handle ?a (set_lib l ?p) = Some ((set_lib l p)\<lparr>py_arrays := (py_arrays p)\<lparr>hp_next := Suc ?a\<rparr>\<rparr>)" for l
      using freed by (simp add: free_handle_def heap_free_def set_lib_def)
    have fail: ?thesis if "cbpy_to_device host c dtype ndim shape p = Some (None, (set_lib l p)\<lparr>py_arrays := (py_arrays p)\<lparr>hp_next := Suc ?a\<rparr>\<rparr>)"
      "w_host (lb_world l) = w_host (py_world p)" "no_memory p n" for l
      using that wfs ini lk by (simp add: uploaded_def)
    show ?thesis
    proof (cases "n = 0")
      case True
      have "cbpy_to_device host c dtype ndim shape p =
          Some (None, (set_lib (SET_ERROR cbErrorInvalidValue (py_lib p)) p)\<lparr>py_arrays := (py_arrays p)\<lparr>hp_next := Suc ?a\<rparr>\<rparr>)"
        unfolding guard 2(1) using fh True by (simp add: cbMalloc_def reject_out_def)
      then show ?thesis by (rule fail) (simp_all add: SET_ERROR_def no_memory_def cudaMalloc_def fail_out_def True)
    next
      case False
      from upload [OF I room d0 False h(1) n(2)] obtain e out w1 where
        m: "cudaMalloc True n (py_world p) = Some (e, out, w1)" "w_host w1 = w_host (py_world p)" and
        s: "e = cudaSuccess \<Longrightarrow> out = Some ?d \<and>
            (\<exists>w2. cudaMemcpy (device_ptr ?d) host n cudaMemcpyHostToDevice w1 = Some (cudaSuccess, None, w2) \<and>
              cuda_inv io S w2 \<and> w_host w2 = w_host (py_world p) \<and> next_gpu_addr (w_nv w2) \<noteq> 0 \<and>
              next_gpu_addr (w_nv w2) = ?d + page_round n \<and> dev_read w2 ?d n = Some (NV_SUCCESS, Some (hp_bytes host)))"
        by blast
      show ?thesis
      proof (cases "e = cudaSuccess")
        case False
        let ?l = "SET_ERROR (cuda_to_cb_error e) ((py_lib p)\<lparr>lb_world := w1\<rparr>)"
        have "cbpy_to_device host c dtype ndim shape p = Some (None, (set_lib ?l p)\<lparr>py_arrays := (py_arrays p)\<lparr>hp_next := Suc ?a\<rparr>\<rparr>)"
          unfolding guard 2(1) using fh False cb_malloc_true [OF \<open>n \<noteq> 0\<close> m(1)] by (simp add: Let_def)
        then show ?thesis by (rule fail) (simp_all add: SET_ERROR_def m no_memory_def False)
      next
        case True
        then obtain w2 where o: "out = Some ?d" and
          w2: "cudaMemcpy (device_ptr ?d) host n cudaMemcpyHostToDevice w1 = Some (cudaSuccess, None, w2)"
            "w_host w2 = w_host (py_world p)" "cuda_inv io S w2" "next_gpu_addr (w_nv w2) \<noteq> 0" "next_gpu_addr (w_nv w2) = ?d + page_round n" "dev_read w2 ?d n = Some (NV_SUCCESS, Some (hp_bytes host))" using s by blast
        let ?l1 = "(py_lib p)\<lparr>lb_world := w1\<rparr>" and ?l2 = "(py_lib p)\<lparr>lb_world := w2\<rparr>"
        let ?r = "new_array host c dtype ndim shape ?d"
        have r: "r\<lparr>ar_device_ptr := ?d, ar_is_synced := True, ar_crc32 := crc_reference (hp_bytes host)\<rparr> = ?r"
          using 2(2) n(1) by (simp add: new_array_def array_zero_def Let_def)
        have cm: "cbMemcpy (device_ptr ?d) host n CB_MEMCPY_HOST_TO_DEVICE ?l1 = Some (cbSuccess, None, ?l2)"
          using cb_memcpy_h2d [of ?d host n ?l1 None w2] w2(1) d0 \<open>n \<noteq> 0\<close> h(1) by simp
        have crc: "compute_crc32 (hp_bytes host) n = Some (crc_reference (hp_bytes host))"
          using n(2) by (simp add: compute_crc32_def crc_is_serial)
        from upload_finish [OF R n \<open>n \<noteq> 0\<close> w2(2-6), of ndim shape] obtain q where
          q: "count_alloc n ((set_lib ?l2 p)\<lparr>py_arrays := (py_arrays p)\<lparr>hp_mem := (hp_mem (py_arrays p))(?a \<mapsto> ?r), hp_next := Suc ?a\<rparr>\<rparr>) = Some q"
            "uploaded io S host c dtype ndim shape p n (Some ?a) q" by blast
        have "cbpy_to_device host c dtype ndim shape p = Some (Some ?a, q)"
          unfolding guard 2(1) using cb_malloc_true [OF \<open>n \<noteq> 0\<close> m(1)] True o cm crc r q(1)
          by (simp add: Let_def heap_get_def put_array_def heap_put_def set_lib_def)
        with q(2) show ?thesis by blast
      qed
    qed
  qed
qed

end
