(* ===== verification/Python_Properties.thy ===== *)
theory Python_Properties
  imports Python_Memory
begin

text \<open>
  The properties of the Python module: the round trip of an upload, the element-wise operations, and the missing overflow
  check of the size. The witnesses run on the virtual GPU of \<^theory_text>\<open>Cuda_Properties\<close>.
\<close>

section \<open>From the device\<close>

lemma from_device:
  assumes "heap_get (py_arrays p) a = Some r" and "validate_array r" and "array_read p r = Some bs"
    and "hp_addr dst \<noteq> 0" and "unat (ar_size r) \<le> hp_room dst"
  shows "\<exists>q. cbpy_from_device (Some a) dst p = Some (0, Some bs, q) \<and> array_bytes q a = Some bs \<and>
    heap_get (py_arrays q) a = Some (r\<lparr>ar_is_synced := True\<rparr>)"
proof -
  have nz: "ar_device_ptr r \<noteq> 0" "ar_size r \<noteq> 0" using assms(2) by (simp_all add: validate_array_def)
  from assms(3) have rd: "dev_read (py_world p) (ar_device_ptr r) (ar_size r) = Some (NV_SUCCESS, Some bs)" and l: "length bs = unat (ar_size r)"
    by (simp_all add: array_readD)
  from read_copies [OF rd nz assms(4)] l assms(5) obtain w' where
    w': "cudaMemcpy dst (device_ptr (ar_device_ptr r)) (ar_size r) cudaMemcpyDeviceToHost (py_world p) = Some (cudaSuccess, Some bs, w')"
    "\<forall>d n. dev_read w' d n = dev_read (py_world p) d n" by auto
  let ?q = "(set_lib ((py_lib p)\<lparr>lb_world := w'\<rparr>) p)\<lparr>py_arrays := (py_arrays p)\<lparr>hp_mem := (hp_mem (py_arrays p))(a \<mapsto> r\<lparr>ar_is_synced := True\<rparr>)\<rparr>\<rparr>"
  have "cbpy_from_device (Some a) dst p = Some (0, Some bs, ?q)"
    using assms(1,2,4) cb_memcpy_d2h [OF w'(1) nz assms(4)]
    by (simp add: cbpy_from_device_def put_array_def heap_put_def heap_get_def)
  moreover have "array_bytes ?q a = Some bs" using w'(2) rd l by (simp add: array_bytes_def heap_get_def array_readD)
  moreover have "heap_get (py_arrays ?q) a = Some (r\<lparr>ar_is_synced := True\<rparr>)" by (simp add: heap_get_def)
  ultimately show ?thesis by blast
qed

section \<open>Loops over elements\<close>


lemma each_Some: "(\<And>i. i < n \<Longrightarrow> f i \<noteq> None) \<Longrightarrow> each n f = Some (map (\<lambda>i. the (f i)) [0..<n])"
proof (induction n)
  case (Suc n)
  then obtain y where "f n = Some y" by blast
  moreover have "each n f = Some (map (\<lambda>i. the (f i)) [0..<n])" using Suc by simp
  ultimately show ?case by simp
qed simp

lemma each_iff: "each n f = Some xs \<longleftrightarrow> length xs = n \<and> (\<forall>i < n. f i = Some (xs ! i))"
proof
  show "each n f = Some xs \<Longrightarrow> length xs = n \<and> (\<forall>i < n. f i = Some (xs ! i))"
    by (induction n arbitrary: xs) (auto simp: nth_append less_Suc_eq elim!: bind_eq_SomeE)
  show "length xs = n \<and> (\<forall>i < n. f i = Some (xs ! i)) \<Longrightarrow> each n f = Some xs"
    by (subst each_Some) (auto intro: nth_equalityI)
qed


lemma code_bytes_length [simp]: "length (code_bytes n x) = n"
  by (induction n arbitrary: x) simp_all

lemma le_code_bytes: "le_code (code_bytes n x) = x mod 256 ^ n"
proof (induction n arbitrary: x)
  case (Suc n)
  have "x mod 256 ^ Suc n = x mod 256 + 256 * (x div 256 mod 256 ^ n)" by (simp add: mod_mult2_eq)
  with Suc show ?case by (simp add: unat_of_nat)
qed simp

lemma take_drop_concat:
  assumes "\<And>x. x \<in> set xs \<Longrightarrow> length (f x) = sz" and "i < length xs"
  shows "take sz (drop (i * sz) (concat (map f xs) @ rest)) = f (xs ! i)"
  using assms
proof (induction xs arbitrary: i)
  case (Cons x xs)
  then have l: "length (f x) = sz" by simp
  show ?case
  proof (cases i)
    case 0
    with l show ?thesis by simp
  next
    case (Suc j)
    with Cons l show ?thesis by simp
  qed
qed simp

lemma length_concat_codes: "length (concat (map (code_bytes sz) xs)) = length xs * sz"
  by (induction xs) simp_all

section \<open>Properties\<close>

definition upload_ok :: "host_ptr \<Rightarrow> u64 \<Rightarrow> int \<Rightarrow> int \<Rightarrow> u64 list option \<Rightarrow> python \<Rightarrow> bool" where
  "upload_ok host count dtype ndim shape p \<longleftrightarrow> hp_addr host \<noteq> 0 \<and> count \<noteq> 0 \<and> 1 \<le> ndim \<and> ndim \<le> 8 \<and>
     cbpy_dtype_size dtype \<noteq> 0 \<and> shape_given ndim shape \<and>
     length (hp_bytes host) = unat (count * cbpy_dtype_size dtype) \<and>
     addr_room (w_nv (py_world p)) (count * cbpy_dtype_size dtype)"

lemma new_array_valid: "d \<noteq> 0 \<Longrightarrow> count * cbpy_dtype_size dtype \<noteq> 0 \<Longrightarrow> validate_array (new_array host count dtype ndim shape d)"
  by (simp add: new_array_def validate_array_def Let_def)

lemma array_bytes_get: "heap_get (py_arrays p) a = Some r \<Longrightarrow> array_bytes p a = array_read p r"
  by (simp add: array_bytes_def)

text \<open>A read keeps the array readable.\<close>

lemma from_device_again:
  assumes "heap_get (py_arrays p) a = Some r" and "validate_array r" and "array_bytes p a = Some bs" and "length bs = unat (ar_size r)"
    and "hp_addr dst \<noteq> 0" and "length bs \<le> hp_room dst"
  shows "\<exists>q r'. cbpy_from_device (Some a) dst p = Some (0, Some bs, q) \<and> array_bytes q a = Some bs \<and>
    heap_get (py_arrays q) a = Some r' \<and> validate_array r' \<and> ar_size r' = ar_size r"
proof -
  have "array_read p r = Some bs" using assms(1,3) by (simp add: array_bytes_get)
  from from_device [OF assms(1,2) this assms(5)] assms(4,6) obtain q where
    "cbpy_from_device (Some a) dst p = Some (0, Some bs, q)" "array_bytes q a = Some bs"
    "heap_get (py_arrays q) a = Some (r\<lparr>ar_is_synced := True\<rparr>)" by auto
  with assms(2) show ?thesis by (auto simp: validate_array_def)
qed

text \<open>
  C21. An array that is uploaded and downloaded again holds the bytes of the host: the upload returns, either with no
  handle and nothing counted because memory has run out, or with a new handle that carries the CRC-32 of the bytes, counts its size in the usage and
  the peak, and gives the bytes back to \<open>cbpy_from_device\<close> as often as it is asked.
\<close>

theorem cbpy_transfer_roundtrip:
  assumes R: "py_ready io S p" and "upload_ok host count dtype ndim shape p"
  shows "\<exists>out q. cbpy_to_device host count dtype ndim shape p = Some (out, q) \<and>
    (case out of
       None \<Rightarrow> hp_mem (py_arrays q) = hp_mem (py_arrays p) \<and> py_current_usage q = py_current_usage p \<and>
         no_memory p (count * cbpy_dtype_size dtype)
     | Some a \<Rightarrow> \<exists>r. hp_mem (py_arrays p) a = None \<and> heap_get (py_arrays q) a = Some r \<and>
         ar_crc32 r = crc_reference (hp_bytes host) \<and> ar_elem_count r = count \<and> ar_dtype r = dtype \<and>
         py_current_usage q = py_current_usage p + ar_size r \<and> py_current_usage q \<le> py_peak_usage q \<and>
         (\<forall>dst. hp_addr dst \<noteq> 0 \<longrightarrow> length (hp_bytes host) \<le> hp_room dst \<longrightarrow>
            (\<exists>q2 q3. cbpy_from_device (Some a) dst q = Some (0, Some (hp_bytes host), q2) \<and>
               cbpy_from_device (Some a) dst q2 = Some (0, Some (hp_bytes host), q3))))"
proof -
  let ?n = "count * cbpy_dtype_size dtype" and ?d = "next_gpu_addr (w_nv (py_world p))"
  from assms(2) have h: "hp_addr host \<noteq> 0" "count \<noteq> 0" "1 \<le> ndim" "ndim \<le> 8" "cbpy_dtype_size dtype \<noteq> 0"
    "shape_given ndim shape" "length (hp_bytes host) = unat ?n" "addr_room (w_nv (py_world p)) ?n" by (simp_all add: upload_ok_def)
  from to_device [OF R h(1-6) refl h(7,8), unfolded uploaded_def] obtain out q where
    q: "cbpy_to_device host count dtype ndim shape p = Some (out, q)" and
    c: "case out of
       None \<Rightarrow> hp_mem (py_arrays q) = hp_mem (py_arrays p) \<and> py_current_usage q = py_current_usage p \<and> py_peak_usage q = py_peak_usage p \<and> no_memory p ?n
     | Some a \<Rightarrow> a = hp_next (py_arrays p) \<and> ?n \<noteq> 0 \<and>
         hp_mem (py_arrays q) = (hp_mem (py_arrays p))(a \<mapsto> new_array host count dtype ndim shape ?d) \<and>
         array_bytes q a = Some (hp_bytes host) \<and> py_ready io S q \<and>
         next_gpu_addr (w_nv (py_world q)) = next_gpu_addr (w_nv (py_world p)) + page_round ?n \<and>
         py_current_usage q = py_current_usage p + ?n \<and> py_peak_usage q = max (py_peak_usage p) (py_current_usage q)" by blast
  have d0: "?d \<noteq> 0" and wf: "heap_wf (py_arrays p)" using R by (simp_all add: py_ready_def)
  show ?thesis
  proof (cases out)
    case None
    with q c show ?thesis by auto
  next
    case (Some a)
    let ?r = "new_array host count dtype ndim shape ?d"
    from c Some have a: "?n \<noteq> 0" "heap_get (py_arrays q) a = Some ?r" "array_bytes q a = Some (hp_bytes host)"
      "py_current_usage q = py_current_usage p + ?n" "py_current_usage q \<le> py_peak_usage q" "hp_mem (py_arrays p) a = None"
      using heap_wf_fresh [OF wf] by (auto simp: heap_get_def)
    have sz: "ar_size ?r = ?n" "ar_crc32 ?r = crc_reference (hp_bytes host)" "ar_elem_count ?r = count" "ar_dtype ?r = dtype"
      by (simp_all add: new_array_def Let_def)
    have len: "length (hp_bytes host) = unat (ar_size ?r)" using h(7) sz(1) by simp
    have "\<exists>q2 q3. cbpy_from_device (Some a) dst q = Some (0, Some (hp_bytes host), q2) \<and>
        cbpy_from_device (Some a) dst q2 = Some (0, Some (hp_bytes host), q3)"
      if d: "hp_addr dst \<noteq> 0" "length (hp_bytes host) \<le> hp_room dst" for dst
    proof -
      from from_device_again [OF a(2) new_array_valid [OF d0 a(1)] a(3) len d] obtain q2 r2 where
        q2: "cbpy_from_device (Some a) dst q = Some (0, Some (hp_bytes host), q2)" "array_bytes q2 a = Some (hp_bytes host)"
          "heap_get (py_arrays q2) a = Some r2" "validate_array r2" "ar_size r2 = ar_size ?r" by blast
      from from_device_again [OF q2(3,4,2) _ d] q2(1,5) len show ?thesis by auto
    qed
    with q Some a sz show ?thesis by auto
  qed
qed

section \<open>Element-wise operations\<close>

lemma elem_at_codes_mod:
  assumes "i < length xs"
  shows "elem_at sz (concat (map (code_bytes sz) xs)) i = Some (xs ! i mod 256 ^ sz)"
proof -
  have "Suc i * sz \<le> length xs * sz" using assms(1) by (intro mult_right_mono) simp_all
  then have "i * sz + sz \<le> length (concat (map (code_bytes sz) xs))" by (simp add: length_concat_codes add.commute)
  moreover have "take sz (drop (i * sz) (concat (map (code_bytes sz) xs))) = code_bytes sz (xs ! i)"
    using take_drop_concat [of xs "code_bytes sz" sz i "[]"] assms(1) by simp
  ultimately show ?thesis by (simp add: elem_at_def le_code_bytes)
qed

text \<open>The value of the operation at one index.\<close>

definition elem_result :: "fp_ops \<Rightarrow> int \<Rightarrow> int \<Rightarrow> nat \<Rightarrow> u8 list \<Rightarrow> u8 list \<Rightarrow> nat \<Rightarrow> nat option" where
  "elem_result fp dtype op sz av bv i = do { x \<leftarrow> elem_at sz av i; y \<leftarrow> elem_at sz bv i; binary_elem fp dtype op x y }"

lemma binary_loop_elems:
  assumes "\<And>i. i < n \<Longrightarrow> elem_result fp dtype op sz av bv i \<noteq> None" and "n * sz \<le> room"
  shows "\<exists>ov. binary_loop fp dtype op sz n av bv room = Some ov \<and> length ov = n * sz \<and>
    (\<forall>i < n. elem_at sz ov i = map_option (\<lambda>z. z mod 256 ^ sz) (elem_result fp dtype op sz av bv i))"
proof -
  let ?f = "elem_result fp dtype op sz av bv"
  have e: "map_option g (?f i) = Some (g (the (?f i)))" if "i < n" for i g using assms(1) [OF that] by auto
  have "each n ?f = Some (map (\<lambda>i. the (?f i)) [0..<n])" using each_Some assms(1) .
  then have "binary_loop fp dtype op sz n av bv room = Some (concat (map (code_bytes sz) (map (\<lambda>i. the (?f i)) [0..<n])))"
    using assms(2) by (simp add: binary_loop_def elem_result_def [symmetric])
  moreover have "elem_at sz (concat (map (code_bytes sz) (map (\<lambda>i. the (?f i)) [0..<n]))) i = map_option (\<lambda>z. z mod 256 ^ sz) (?f i)"
    if "i < n" for i
    unfolding e [OF that] using elem_at_codes_mod [of i "map (\<lambda>i. the (?f i)) [0..<n]" sz] that by (simp del: map_map)
  ultimately show ?thesis by (auto simp: length_concat_codes simp del: map_map map_option_eq_Some)
qed

lemma copy_both_read:
  assumes R: "array_read p a = Some av" "array_read p b = Some bv" and v: "validate_array a" "validate_array b"
    and f: "picks_fresh 2 (w_host (py_world p))" and o: "out \<in> dom (hm_live (w_host (py_world p)))"
  shows "\<exists>x q. copy_both a b out p = Some (x, q) \<and> reads p q \<and>
    (case x of None \<Rightarrow> \<exists>i < 2. hm_pick (w_host (py_world p)) (hm_count (w_host (py_world p)) + i) = None
     | Some ((ab, ao), bb, bo) \<Rightarrow> ao = Some av \<and> bo = Some bv \<and> ab \<noteq> bb \<and> ab \<noteq> out \<and> bb \<noteq> out \<and>
         {ab, bb, out} \<subseteq> dom (hm_live (w_host (py_world q))) \<and> (cuda_inv io S (py_world p) \<longrightarrow> cuda_inv io S (py_world q)))"
proof -
  have f2: "picks_fresh (Suc 1) (w_host (py_world p))" using f by (simp add: numeral_2_eq_2)
  from copy_to_host_read [OF R(1) v(1) f2, of io S] obtain x q where c: "copy_to_host a p = Some (x, q)" "reads p q"
    "picks_fresh (Suc 0) (w_host (py_world q))" "cuda_inv io S (py_world p) \<longrightarrow> cuda_inv io S (py_world q)"
    "dom (hm_live (w_host (py_world p))) \<subseteq> dom (hm_live (w_host (py_world q)))"
    "case x of None \<Rightarrow> True | Some (buf, o1) \<Rightarrow> o1 = Some av \<and> buf \<noteq> 0 \<and> buf \<notin> dom (hm_live (w_host (py_world p))) \<and>
       buf \<in> dom (hm_live (w_host (py_world q)))" "picked (w_host (py_world p)) (w_host (py_world q)) (x \<noteq> None)" by auto
  show ?thesis
  proof (cases x)
    case None
    from o c(5) have "out \<in> dom (hm_live (w_host (py_world q)))" by blast
    from py_dispose_live [OF this] obtain q' where "py_dispose out q = Some q'" "reads q q'" by blast
    moreover have "hm_pick (w_host (py_world p)) (hm_count (w_host (py_world p)) + 0) = None" using c(7) None by (simp add: picked_def)
    then have "\<exists>i < 2. hm_pick (w_host (py_world p)) (hm_count (w_host (py_world p)) + i) = None" using pos2 by blast
    ultimately show ?thesis using c None by (auto simp: copy_both_def intro: reads_trans)
  next
    case (Some y)
    then obtain ab where y: "x = Some (ab, Some av)" "ab \<noteq> 0" "ab \<notin> dom (hm_live (w_host (py_world p)))" "ab \<in> dom (hm_live (w_host (py_world q)))"
      using c(6) by (cases y) auto
    have rb: "array_read q b = Some bv" using reads_array [OF c(2)] R(2) by simp
    from copy_to_host_read [OF rb v(2) c(3), of io S] obtain z r where d: "copy_to_host b q = Some (z, r)" "reads q r"
      "cuda_inv io S (py_world q) \<longrightarrow> cuda_inv io S (py_world r)"
      "dom (hm_live (w_host (py_world q))) \<subseteq> dom (hm_live (w_host (py_world r)))"
      "case z of None \<Rightarrow> True | Some (buf, o1) \<Rightarrow> o1 = Some bv \<and> buf \<noteq> 0 \<and> buf \<notin> dom (hm_live (w_host (py_world q))) \<and>
         buf \<in> dom (hm_live (w_host (py_world r)))" "picked (w_host (py_world q)) (w_host (py_world r)) (z \<noteq> None)" by auto
    have pr: "reads p r" using c(2) d(2) by (rule reads_trans)
    show ?thesis
    proof (cases z)
      case None
      have "ab \<in> dom (hm_live (w_host (py_world r)))" using y(4) d(4) by blast
      from py_dispose_live [OF this] obtain r1 where r1: "py_dispose ab r = Some r1" "reads r r1"
        "dom (hm_live (w_host (py_world r1))) = dom (hm_live (w_host (py_world r))) - {ab}" using y(2) by auto
      have "out \<in> dom (hm_live (w_host (py_world r1)))" unfolding r1(3) using o c(5) d(4) y(3) by blast
      from py_dispose_live [OF this] obtain r2 where r2: "py_dispose out r1 = Some r2" "reads r1 r2" by blast
      have "hm_pick (w_host (py_world p)) (hm_count (w_host (py_world p)) + 1) = None" using c(7) d(6) None by (simp add: picked_def)
      then have "\<exists>i < 2. hm_pick (w_host (py_world p)) (hm_count (w_host (py_world p)) + i) = None" by (metis one_less_numeral_iff semiring_norm(76))
      with r2 c(1) d(1) y(1) None r1 pr show ?thesis by (auto simp: copy_both_def intro: reads_trans)
    next
      case (Some bz)
      then obtain bb where z: "z = Some (bb, Some bv)" "bb \<notin> dom (hm_live (w_host (py_world q)))" "bb \<in> dom (hm_live (w_host (py_world r)))"
        using d(5) by (cases bz) auto
      have "{ab, bb, out} \<subseteq> dom (hm_live (w_host (py_world r)))" using y(4) z(3) o c(5) d(4) by blast
      moreover have "ab \<noteq> bb" "ab \<noteq> out" "bb \<noteq> out" using y(3,4) z(2) o c(5) by blast+
      moreover have "copy_both a b out p = Some (Some ((ab, Some av), bb, Some bv), r)" using c(1) d(1) y(1) z(1) by (simp add: copy_both_def)
      ultimately show ?thesis using pr c(4) d(3) by auto
    qed
  qed
qed

text \<open>Not enough memory for the buffers of an operation on the host, or for its result of \<open>n\<close> bytes.\<close>

definition no_room :: "python \<Rightarrow> u64 \<Rightarrow> bool" where
  "no_room p n \<longleftrightarrow> (\<exists>i < 3. hm_pick (w_host (py_world p)) (hm_count (w_host (py_world p)) + i) = None) \<or>
     (\<exists>p'. reads p p' \<and> no_memory p' n)"

text \<open>The arguments of an element-wise operation, and what it needs of the memory.\<close>

definition binary_ok :: "fp_ops \<Rightarrow> int \<Rightarrow> CBPyArray \<Rightarrow> CBPyArray \<Rightarrow> u8 list \<Rightarrow> u8 list \<Rightarrow> python \<Rightarrow> bool" where
  "binary_ok fp op a b av bv p \<longleftrightarrow> validate_binary_inputs a b = Some True \<and>
     array_read p a = Some av \<and> array_read p b = Some bv \<and> ar_dtype a \<noteq> CB_DTYPE_FLOAT16 \<and> cbpy_dtype_size (ar_dtype a) \<noteq> 0 \<and>
     1 \<le> ar_ndim a \<and> ar_ndim a \<le> 8 \<and> length (ar_shape a) = 8 \<and>
     unat (ar_size a) = unat (ar_elem_count a) * unat (cbpy_dtype_size (ar_dtype a)) \<and>
     (\<forall>i < unat (ar_elem_count a). elem_result fp (ar_dtype a) op (unat (cbpy_dtype_size (ar_dtype a))) av bv i \<noteq> None) \<and>
     picks_fresh 3 (w_host (py_world p)) \<and> addr_room (w_nv (py_world p)) (ar_size a)"

text \<open>The host part of an operation: no memory for its buffers, or both operands on the host and the result in a third buffer.\<close>

lemma binary_front:
  assumes R: "py_ready io S p" and g: "heap_get (py_arrays p) pa = Some a" "heap_get (py_arrays p) pb = Some b"
    and v: "validate_binary_inputs a b = Some True" and rd: "array_read p a = Some av" "array_read p b = Some bv"
    and dt: "ar_dtype a \<noteq> CB_DTYPE_FLOAT16" "cbpy_dtype_size (ar_dtype a) \<noteq> 0" and pf: "picks_fresh 3 (w_host (py_world p))"
    and ov: "binary_loop fp (ar_dtype a) op (unat (cbpy_dtype_size (ar_dtype a))) (unat (ar_elem_count a)) av bv (unat (ar_size a)) = Some ov"
  obtains (no_memory) q where "binary_host_op fp (Some pa) (Some pb) op p = Some (None, q)" and "py_arrays q = py_arrays p"
      and "no_room p (ar_size a)"
  | (computed) ob ab bb p2 where "ob \<noteq> 0" and "ab \<noteq> bb" and "ab \<noteq> ob" and "bb \<noteq> ob"
      and "{ab, bb, ob} \<subseteq> dom (hm_live (w_host (py_world p2)))" and "cuda_inv io S (py_world p2)" and "reads p p2"
      and "binary_host_op fp (Some pa) (Some pb) op p =
        do { (result, p) \<leftarrow> copy_result_to_device \<lparr>hp_addr = ob, hp_bytes = ov, hp_room = unat (ar_size a)\<rparr>
               (ar_elem_count a) (ar_dtype a) (ar_ndim a) (ar_shape a) p2;
             p \<leftarrow> free_three ab bb ob p; Some (result, p) }"
proof -
  have va: "validate_array a" "validate_array b" using v by (auto simp: validate_binary_inputs_def split: if_splits)
  have I: "cuda_inv io S (py_world p)" using R by (simp add: py_ready_def)
  have pf': "picks_fresh (Suc 2) (w_host (py_world p))" using pf by (simp add: eval_nat_numeral)
  obtain ob p1 where m: "py_malloc (ar_size a) p = (ob, p1)" by fastforce
  note s = py_malloc_step [OF m pf', of io S]
  show thesis
  proof (cases "ob = 0")
    case True
    have "py_arrays p1 = py_arrays p" using s by (simp add: same_py_sel(1) reads_same)
    moreover have "hm_pick (w_host (py_world p)) (hm_count (w_host (py_world p)) + 0) = None" using s True by (simp add: picked_def)
    then have "no_room p (ar_size a)" unfolding no_room_def by (intro disjI1 exI [of _ 0]) simp
    ultimately show thesis using True v g dt m by (intro no_memory [of p1]) (simp_all add: binary_host_op_def get_array_def)
  next
    case False
    from s False have s1: "reads p p1" "picks_fresh 2 (w_host (py_world p1))" "cuda_inv io S (py_world p1)" "ob \<in> dom (hm_live (w_host (py_world p1)))"
      using I by auto
    have r1: "array_read p1 a = Some av" "array_read p1 b = Some bv" using reads_array [OF s1(1)] rd by simp_all
    from copy_both_read [OF r1 va s1(2,4), of io S] obtain x p2 where c: "copy_both a b ob p1 = Some (x, p2)" "reads p1 p2"
      "case x of None \<Rightarrow> \<exists>i < 2. hm_pick (w_host (py_world p1)) (hm_count (w_host (py_world p1)) + i) = None
       | Some ((ab, ao), bb, bo) \<Rightarrow> ao = Some av \<and> bo = Some bv \<and> ab \<noteq> bb \<and> ab \<noteq> ob \<and> bb \<noteq> ob \<and>
         {ab, bb, ob} \<subseteq> dom (hm_live (w_host (py_world p2))) \<and> (cuda_inv io S (py_world p1) \<longrightarrow> cuda_inv io S (py_world p2))" by blast
    have p2: "reads p p2" using s1(1) c(2) by (rule reads_trans)
    show thesis
    proof (cases x)
      case None
      have "py_arrays p2 = py_arrays p" using p2 by (simp add: same_py_sel(1) reads_same)
      moreover from c(3) None obtain i where "i < 2" "hm_pick (w_host (py_world p1)) (hm_count (w_host (py_world p1)) + i) = None" by auto
      with s have "hm_pick (w_host (py_world p)) (hm_count (w_host (py_world p)) + Suc i) = None" "Suc i < 3" by (simp_all add: picked_def)
      then have "no_room p (ar_size a)" unfolding no_room_def by blast
      ultimately show thesis using None v g dt m False c(1)
        by (intro no_memory [of p2]) (simp_all add: binary_host_op_def get_array_def)
    next
      case (Some y)
      then obtain ab bb where y: "x = Some ((ab, Some av), bb, Some bv)" "ab \<noteq> bb" "ab \<noteq> ob" "bb \<noteq> ob"
        "{ab, bb, ob} \<subseteq> dom (hm_live (w_host (py_world p2)))" "cuda_inv io S (py_world p2)" using c(3) s1(3) by (cases y) auto
      show thesis
        by (rule computed [OF False y(2-6) p2]) (use v g dt m False c(1) y(1) ov in \<open>simp add: binary_host_op_def get_array_def\<close>)
    qed
  qed
qed

text \<open>The device part: the result in an array of its own, and the host buffers released.\<close>

lemma binary_back:
  assumes R: "py_ready io S p" and n: "n \<noteq> 0" "sz = n * cbpy_dtype_size dtype" "length ov = unat sz" "cbpy_dtype_size dtype \<noteq> 0"
    and nd: "1 \<le> ndim" "ndim \<le> 8" "length shape = 8" and room: "addr_room (w_nv (py_world p)) sz"
    and b: "ob \<noteq> 0" "ab \<noteq> bb" "ab \<noteq> ob" "bb \<noteq> ob" "{ab, bb, ob} \<subseteq> dom (hm_live (w_host (py_world p)))"
  shows "\<exists>out q. do { (result, p) \<leftarrow> copy_result_to_device \<lparr>hp_addr = ob, hp_bytes = ov, hp_room = unat sz\<rparr> n dtype ndim shape p;
        p \<leftarrow> free_three ab bb ob p; Some (result, p) } = Some (out, q) \<and>
    (case out of
       None \<Rightarrow> hp_mem (py_arrays q) = hp_mem (py_arrays p) \<and> no_memory p sz
     | Some c \<Rightarrow> \<exists>r. hp_mem (py_arrays p) c = None \<and> heap_get (py_arrays q) c = Some r \<and> ar_elem_count r = n \<and>
         ar_dtype r = dtype \<and> ar_ndim r = ndim \<and> array_bytes q c = Some ov)"
proof -
  let ?host = "\<lparr>hp_addr = ob, hp_bytes = ov, hp_room = unat sz\<rparr>"
  have up: "hp_addr ?host \<noteq> 0" "shape_given ndim (Some shape)" "length (hp_bytes ?host) = unat sz"
    using b(1) nd n(3) by (simp_all add: shape_given_def)
  from to_device [OF R up(1) n(1) nd(1,2) n(4) up(2) n(2) up(3) room] obtain out q where
    q: "cbpy_to_device ?host n dtype ndim (Some shape) p = Some (out, q)"
    and u: "uploaded io S ?host n dtype ndim (Some shape) p sz out q" by blast
  have h: "w_host (py_world q) = w_host (py_world p)" using u by (simp add: uploaded_def)
  show ?thesis
  proof (cases out)
    case None
    from free_three_live [of ab bb ob q] b h obtain q' where "free_three ab bb ob q = Some q'" "reads q q'" by auto
    moreover from this(2) have "py_arrays q' = py_arrays q" by (simp add: same_py_sel(1) reads_same)
    ultimately show ?thesis using q None u by (simp add: copy_result_to_device_def uploaded_def)
  next
    case (Some cp)
    let ?r = "new_array ?host n dtype ndim (Some shape) (next_gpu_addr (w_nv (py_world p)))"
    let ?q = "q\<lparr>py_arrays := (py_arrays q)\<lparr>hp_mem := (hp_mem (py_arrays q))(cp \<mapsto> ?r\<lparr>ar_is_synced := False\<rparr>)\<rparr>\<rparr>"
    have gq: "heap_get (py_arrays q) cp = Some ?r" "array_bytes q cp = Some ov" "hp_mem (py_arrays p) cp = None"
      using u Some R by (auto simp: heap_get_def heap_wf_fresh py_ready_def uploaded_def)
    have cr: "copy_result_to_device ?host n dtype ndim shape p = Some (Some cp, ?q)"
      using q Some gq(1) by (simp add: copy_result_to_device_def put_array_def heap_put_def heap_get_def)
    from free_three_live [of ab bb ob ?q] b h obtain q' where f: "free_three ab bb ob ?q = Some q'" "reads ?q q'" by auto
    have "array_bytes ?q cp = Some ov" using gq(1,2) by (simp add: array_bytes_def array_readD heap_get_def)
    moreover have "py_arrays q' = py_arrays ?q" "array_read q' = array_read ?q"
      by (fact same_py_sel(1) [OF reads_same [OF f(2)]]) (rule ext, rule reads_array [OF f(2)])
    ultimately have "array_bytes q' cp = Some ov" "heap_get (py_arrays q') cp = Some (?r\<lparr>ar_is_synced := False\<rparr>)"
      by (simp_all add: array_bytes_def heap_get_def)
    with cr f(1) gq(3) show ?thesis by (auto simp: new_array_def Let_def)
  qed
qed

lemma binary_op:
  assumes R: "py_ready io S p" and g: "heap_get (py_arrays p) pa = Some a" "heap_get (py_arrays p) pb = Some b"
    and ok: "binary_ok fp op a b av bv p"
  shows "\<exists>out q. binary_host_op fp (Some pa) (Some pb) op p = Some (out, q) \<and>
    (case out of
       None \<Rightarrow> hp_mem (py_arrays q) = hp_mem (py_arrays p) \<and> no_room p (ar_size a)
     | Some c \<Rightarrow> \<exists>r ov. hp_mem (py_arrays p) c = None \<and> heap_get (py_arrays q) c = Some r \<and> ar_elem_count r = ar_elem_count a \<and>
         ar_dtype r = ar_dtype a \<and> ar_ndim r = ar_ndim a \<and> array_bytes q c = Some ov \<and>
         (\<forall>i < unat (ar_elem_count a). elem_at (unat (cbpy_dtype_size (ar_dtype a))) ov i =
            map_option (\<lambda>z. z mod 256 ^ unat (cbpy_dtype_size (ar_dtype a)))
              (elem_result fp (ar_dtype a) op (unat (cbpy_dtype_size (ar_dtype a))) av bv i)))"
proof -
  let ?sz = "cbpy_dtype_size (ar_dtype a)" and ?n = "ar_elem_count a"
  from ok have v: "validate_binary_inputs a b = Some True" and rd: "array_read p a = Some av" "array_read p b = Some bv"
    and dt: "ar_dtype a \<noteq> CB_DTYPE_FLOAT16" "?sz \<noteq> 0" and nd: "1 \<le> ar_ndim a" "ar_ndim a \<le> 8" "length (ar_shape a) = 8"
    and n: "unat (ar_size a) = unat ?n * unat ?sz"
    and el: "\<And>i. i < unat ?n \<Longrightarrow> elem_result fp (ar_dtype a) op (unat ?sz) av bv i \<noteq> None"
    and pf: "picks_fresh 3 (w_host (py_world p))" and room: "addr_room (w_nv (py_world p)) (ar_size a)"
    by (simp_all add: binary_ok_def)
  have "of_nat (unat (ar_size a)) = (of_nat (unat ?n * unat ?sz) :: u64)" using n by simp
  then have nw: "ar_size a = ?n * ?sz" by simp
  have "validate_array a" using v by (auto simp: validate_binary_inputs_def split: if_splits)
  then have n0: "?n \<noteq> 0" using nw by (auto simp: validate_array_def)
  obtain ov where ov: "binary_loop fp (ar_dtype a) op (unat ?sz) (unat ?n) av bv (unat (ar_size a)) = Some ov" "length ov = unat (ar_size a)"
    "\<forall>i < unat ?n. elem_at (unat ?sz) ov i = map_option (\<lambda>z. z mod 256 ^ unat ?sz) (elem_result fp (ar_dtype a) op (unat ?sz) av bv i)"
    using binary_loop_elems [of "unat ?n" fp "ar_dtype a" op "unat ?sz" av bv "unat (ar_size a)"] el n by auto
  show ?thesis
    using R g v rd dt pf ov(1)
  proof (cases rule: binary_front)
    case (no_memory q)
    then show ?thesis by simp
  next
    case (computed ob ab bb p2)
    have p2: "py_ready io S p2" "w_nv (py_world p2) = w_nv (py_world p)" "py_arrays p2 = py_arrays p"
      using R computed(6,7) same_py_sel(1-3) [OF reads_same [OF computed(7)]] by (simp_all add: py_ready_def reads_def)
    have r2: "addr_room (w_nv (py_world p2)) (ar_size a)" using room p2(2) by simp
    from binary_back [OF p2(1) n0 nw ov(2) dt(2) nd r2 computed(1-5)] obtain out q where
      q: "binary_host_op fp (Some pa) (Some pb) op p = Some (out, q)" and
      c: "case out of None \<Rightarrow> hp_mem (py_arrays q) = hp_mem (py_arrays p2) \<and> no_memory p2 (ar_size a)
        | Some c \<Rightarrow> \<exists>r. hp_mem (py_arrays p2) c = None \<and> heap_get (py_arrays q) c = Some r \<and> ar_elem_count r = ?n \<and>
            ar_dtype r = ar_dtype a \<and> ar_ndim r = ar_ndim a \<and> array_bytes q c = Some ov" unfolding computed(8) by blast
    have "no_memory p2 (ar_size a) \<Longrightarrow> no_room p (ar_size a)" using computed(7) by (auto simp: no_room_def)
    with q c ov(3) p2(3) show ?thesis by (cases out) auto
  qed
qed

text \<open>
  C22. \<open>cbpy_add\<close> and \<open>cbpy_multiply\<close> compute element by element: on two readable arrays of the same shape whose elements
  the operation is defined for, the call returns, either with no handle because memory has run out, or with a
  new handle of the same shape whose bytes on the device hold at every index the result on the two elements, cut to
  the width of the type.
\<close>

theorem cbpy_binary_elementwise:
  assumes R: "py_ready io S p" and "heap_get (py_arrays p) pa = Some a" and "heap_get (py_arrays p) pb = Some b"
    and "(f, op) \<in> {(cbpy_add, CBPY_OP_ADD), (cbpy_multiply, CBPY_OP_MUL)}" and "binary_ok fp op a b av bv p"
    and "sz = unat (cbpy_dtype_size (ar_dtype a))"
  shows "\<exists>out q. f fp (Some pa) (Some pb) p = Some (out, q) \<and>
    (case out of
       None \<Rightarrow> hp_mem (py_arrays q) = hp_mem (py_arrays p) \<and> no_room p (ar_size a)
     | Some c \<Rightarrow> \<exists>r cv. hp_mem (py_arrays p) c = None \<and> heap_get (py_arrays q) c = Some r \<and> ar_elem_count r = ar_elem_count a \<and>
         ar_dtype r = ar_dtype a \<and> ar_ndim r = ar_ndim a \<and> array_bytes q c = Some cv \<and>
         (\<forall>i < unat (ar_elem_count a). elem_at sz cv i =
            map_option (\<lambda>z. z mod 256 ^ sz)
              (do { x \<leftarrow> elem_at sz av i; y \<leftarrow> elem_at sz bv i; binary_elem fp (ar_dtype a) op x y })))"
proof -
  have "f fp (Some pa) (Some pb) p = binary_host_op fp (Some pa) (Some pb) op p"
    using assms(4) by (auto simp: cbpy_add_def cbpy_multiply_def)
  with binary_op [OF R assms(2,3,5)] show ?thesis unfolding assms(6) elem_result_def by simp
qed




definition demo_py :: "u8 \<Rightarrow> python" where
  "demo_py t = (python_zero ((library_zero (demo_hot t))\<lparr>lb_initialized := True\<rparr>) (log_zero Map.empty (\<lambda>_. False)) (\<lambda>_. False))
     \<lparr>py_initialized := True, py_lock := LockFree\<rparr>"

text \<open>The integer operations of the witnesses do not depend on the floating-point unit.\<close>

definition demo_fp :: fp_ops where
  "demo_fp = \<lparr>fp32 = (\<lambda>op x y. x + y), fp64 = (\<lambda>op x y. x + y), fp_narrow = (\<lambda>x. x), fp_widen = (\<lambda>x. x), fp32_zero = (\<lambda>x. x = 0),
     fp64_zero = (\<lambda>x. x = 0), fp64_less = (<), fp64_of_count = (\<lambda>n. n)\<rparr>"

lemma demo_py_sel [simp]:
  "py_world (demo_py t) = demo_hot t" "hp_mem (py_arrays (demo_py t)) = Map.empty" "hp_next (py_arrays (demo_py t)) = 0"
  "hp_oom (py_arrays (demo_py t)) n = False"
  "next_gpu_addr (w_nv (demo_hot t)) = 0x200000000"
  "w_host (demo_hot t) = \<lparr>hm_live = Map.empty, hm_count = 0, hm_pick = (\<lambda>n. Some (of_nat (n + 1) * 4096))\<rparr>"
  by (simp_all add: demo_py_def python_zero_def library_zero_def heap_empty_def demo_hot_def demo_world_def)

lemma demo_ready: "\<exists>t S. py_ready None S (demo_py t)"
proof -
  obtain t where "cudaBridgeInit demo_env demo_world = Some (cudaSuccess, demo_hot t)" using demo_init by blast
  then have "cuda_reach None [] (demo_hot t)"
    by (intro creach_call [OF creach_start [OF demo_start], of _ "Init demo_env" cudaSuccess]) (simp_all add: init_oom_def demo_env_def)
  then obtain S where "cuda_inv None S (demo_hot t)" by (rule reachE)
  then have "py_ready None S (demo_py t)"
    by (simp add: py_ready_def heap_wf_def) (simp add: demo_py_def)
  then show ?thesis by blast
qed

lemma less_three: "i < 3 \<longleftrightarrow> i = 0 \<or> i = 1 \<or> i = (2 :: nat)"
  by auto

lemma demo_upload:
  assumes "sz = 4 \<or> sz = 8"
  shows "\<exists>w1. cudaMalloc True sz (demo_hot t) = Some (cudaSuccess, Some 0x200000000, w1)"
  using assms
  by (auto simp: cudaMalloc_def demo_hot_def demo_world_def get_current_gpu_def heap_get_def nv_gpu_alloc_memory_def
      alloc_zero_def virtual_gpu_def gpu_ctx_zero_def page_round_def heap_alloc_def heap_empty_def heap_put_def Let_def)

lemma demo_memory: "sz = 4 \<or> sz = 8 \<Longrightarrow> \<not> no_memory (demo_py t) sz"
  using demo_upload [of sz t] by (auto simp: no_memory_def)

theorem cbpy_transfer_roundtrip_witness:
  "\<exists>t a q q2. cbpy_to_device \<lparr>hp_addr = 16, hp_bytes = [1, 2, 3, 4], hp_room = 4\<rparr> 1 CB_DTYPE_INT32 1 None (demo_py t) = Some (Some a, q) \<and>
     cbpy_from_device (Some a) \<lparr>hp_addr = 32, hp_bytes = [], hp_room = 4\<rparr> q = Some (0, Some [1, 2, 3, 4], q2)"
proof -
  obtain t S where R: "py_ready None S (demo_py t)" using demo_ready by blast
  let ?host = "\<lparr>hp_addr = 16, hp_bytes = [1, 2, 3, 4], hp_room = 4\<rparr>"
  have "upload_ok ?host 1 CB_DTYPE_INT32 1 None (demo_py t)"
    by (simp add: upload_ok_def cbpy_dtype_size_def shape_given_def addr_room_def)
  from cbpy_transfer_roundtrip [OF R this] obtain out q where
    q: "cbpy_to_device ?host 1 CB_DTYPE_INT32 1 None (demo_py t) = Some (out, q)" and
    c: "case out of None \<Rightarrow> hp_mem (py_arrays q) = hp_mem (py_arrays (demo_py t)) \<and>
          py_current_usage q = py_current_usage (demo_py t) \<and> no_memory (demo_py t) (1 * cbpy_dtype_size CB_DTYPE_INT32)
     | Some a \<Rightarrow> \<exists>r. hp_mem (py_arrays (demo_py t)) a = None \<and> heap_get (py_arrays q) a = Some r \<and>
         ar_crc32 r = crc_reference (hp_bytes ?host) \<and> ar_elem_count r = 1 \<and> ar_dtype r = CB_DTYPE_INT32 \<and>
         py_current_usage q = py_current_usage (demo_py t) + ar_size r \<and> py_current_usage q \<le> py_peak_usage q \<and>
         (\<forall>dst. hp_addr dst \<noteq> 0 \<longrightarrow> length (hp_bytes ?host) \<le> hp_room dst \<longrightarrow>
            (\<exists>q2 q3. cbpy_from_device (Some a) dst q = Some (0, Some (hp_bytes ?host), q2) \<and>
               cbpy_from_device (Some a) dst q2 = Some (0, Some (hp_bytes ?host), q3)))" by blast
  have "\<not> no_memory (demo_py t) (1 * cbpy_dtype_size CB_DTYPE_INT32)" using demo_memory [of 4 t] by (simp add: cbpy_dtype_size_def)
  with c obtain a where a: "out = Some a" by (cases out) auto
  let ?dst = "\<lparr>hp_addr = 32, hp_bytes = [], hp_room = 4\<rparr>"
  from c a have "hp_addr ?dst \<noteq> 0 \<longrightarrow> length (hp_bytes ?host) \<le> hp_room ?dst \<longrightarrow>
      (\<exists>q2 q3. cbpy_from_device (Some a) ?dst q = Some (0, Some (hp_bytes ?host), q2) \<and>
         cbpy_from_device (Some a) ?dst q2 = Some (0, Some (hp_bytes ?host), q3))" by auto
  with q a show ?thesis by auto
qed

theorem cbpy_binary_elementwise_witness:
  "\<exists>t a q out q2. cbpy_to_device \<lparr>hp_addr = 16, hp_bytes = [3, 5, 7, 250], hp_room = 4\<rparr> 4 CB_DTYPE_UINT8 1 None (demo_py t) = Some (Some a, q) \<and>
     cbpy_add demo_fp (Some a) (Some a) q = Some (out, q2) \<and>
     (case out of None \<Rightarrow> no_room q 4 | Some c \<Rightarrow> \<exists>cv. array_bytes q2 c = Some cv \<and> elem_at 1 cv 2 = Some 14 \<and> elem_at 1 cv 3 = Some 244)"
proof -
  obtain t S where R: "py_ready None S (demo_py t)" using demo_ready by blast
  let ?host = "\<lparr>hp_addr = 16, hp_bytes = [3, 5, 7, 250], hp_room = 4\<rparr>" and ?p = "demo_py t"
  have o: "hp_addr ?host \<noteq> 0" "(4 :: u64) \<noteq> 0" "1 \<le> (1 :: int)" "1 \<le> (8 :: int)" "cbpy_dtype_size CB_DTYPE_UINT8 \<noteq> 0"
    "shape_given 1 None" "(4 :: u64) = 4 * cbpy_dtype_size CB_DTYPE_UINT8" "length (hp_bytes ?host) = unat (4 :: u64)"
    "addr_room (w_nv (py_world ?p)) 4"
    by (simp_all add: cbpy_dtype_size_def shape_given_def addr_room_def)
  from to_device [OF R o, unfolded uploaded_def] demo_memory [of 4 t] obtain a q where
    q: "cbpy_to_device ?host 4 CB_DTYPE_UINT8 1 None ?p = Some (Some a, q)" "w_host (py_world q) = w_host (demo_hot t)"
      "hp_mem (py_arrays q) = [a \<mapsto> new_array ?host 4 CB_DTYPE_UINT8 1 None 0x200000000]"
      "array_bytes q a = Some [3, 5, 7, 250]" "py_ready None S q" "next_gpu_addr (w_nv (py_world q)) = 0x200000000 + page_round 4"
    by (auto split: option.splits)
  let ?r = "new_array ?host 4 CB_DTYPE_UINT8 1 None 0x200000000"
  have r: "?r = \<lparr>ar_device_ptr = 0x200000000, ar_size = 4, ar_elem_count = 4, ar_dtype = 4, ar_ndim = 1,
       ar_shape = [4, 0, 0, 0, 0, 0, 0, 0], ar_is_synced = True, ar_crc32 = crc_reference [3, 5, 7, 250]\<rparr>"
    by (simp add: new_array_def handle_shape_def cbpy_dtype_size_def Let_def numeral_eq_Suc)
  have g: "heap_get (py_arrays q) a = Some ?r" using q(3) by (simp add: heap_get_def)
  have rd: "array_read q ?r = Some [3, 5, 7, 250]" using q(4) g by (simp add: array_bytes_get)
  have room: "addr_room (w_nv (py_world q)) 4" using q(6) by (simp add: addr_room_def page_round_def)
  have el: "elem_result demo_fp 4 CBPY_OP_ADD 1 [3, 5, 7, 250] [3, 5, 7, 250] i \<noteq> None" if "i < 4" for i
    using that by (auto simp: elem_result_def elem_at_def binary_elem_def unsigned_op_def Let_def)
  have pf: "picks_fresh 3 (w_host (py_world q))"
    unfolding q(2) by (auto simp: picks_fresh_def less_three less_2_cases_iff)
  have ok: "binary_ok demo_fp CBPY_OP_ADD ?r ?r [3, 5, 7, 250] [3, 5, 7, 250] q"
    unfolding binary_ok_def using rd room el pf r
    by (simp add: validate_binary_inputs_def validate_array_def cbpy_dtype_size_def)
  from cbpy_binary_elementwise [OF q(5) g g _ ok refl, of cbpy_add] obtain out q2 where
    q2: "cbpy_add demo_fp (Some a) (Some a) q = Some (out, q2)" and
    c: "case out of None \<Rightarrow> hp_mem (py_arrays q2) = hp_mem (py_arrays q) \<and> no_room q (ar_size ?r)
     | Some c \<Rightarrow> \<exists>r cv. hp_mem (py_arrays q) c = None \<and> heap_get (py_arrays q2) c = Some r \<and> ar_elem_count r = ar_elem_count ?r \<and>
         ar_dtype r = ar_dtype ?r \<and> ar_ndim r = ar_ndim ?r \<and> array_bytes q2 c = Some cv \<and>
         (\<forall>i < unat (ar_elem_count ?r). elem_at (unat (cbpy_dtype_size (ar_dtype ?r))) cv i =
            map_option (\<lambda>z. z mod 256 ^ unat (cbpy_dtype_size (ar_dtype ?r)))
              (do { x \<leftarrow> elem_at (unat (cbpy_dtype_size (ar_dtype ?r))) [3, 5, 7, 250] i;
                    y \<leftarrow> elem_at (unat (cbpy_dtype_size (ar_dtype ?r))) [3, 5, 7, 250] i; binary_elem demo_fp (ar_dtype ?r) CBPY_OP_ADD x y }))" by auto
  have "case out of None \<Rightarrow> no_room q 4 | Some c \<Rightarrow> \<exists>cv. array_bytes q2 c = Some cv \<and> elem_at 1 cv 2 = Some 14 \<and> elem_at 1 cv 3 = Some 244"
  proof (cases out)
    case None
    with c r show ?thesis by simp
  next
    case (Some x)
    with c r obtain cv where cv: "array_bytes q2 x = Some cv" and
      e: "\<forall>i < 4. elem_at 1 cv i = map_option (\<lambda>z. z mod 256) (do { x \<leftarrow> elem_at 1 [3, 5, 7, 250] i;
            y \<leftarrow> elem_at 1 [3, 5, 7, 250] i; binary_elem demo_fp 4 CBPY_OP_ADD x y })"
      by (auto simp: cbpy_dtype_size_def simp del: map_option_eq_Some)
    from e have "elem_at 1 cv 2 = Some 14" "elem_at 1 cv 3 = Some 244"
      by (simp_all add: elem_at_def [of _ "[3, 5, 7, 250]"] binary_elem_def unsigned_op_def)
    with cv Some show ?thesis by auto
  qed
  with q(1) q2 show ?thesis by blast
qed


end
