(* ===== verification/Printf.thy ===== *)
theory Printf
  imports Text_Output Complex_Main
begin

text \<open>
  The part of \<open>printf\<close> the programs use: the conversions \<open>s\<close>, \<open>d\<close>, \<open>u\<close>, \<open>X\<close>, \<open>f\<close> and \<open>%\<close> with the flags
  \<open>-\<close> and \<open>0\<close>, a width, a precision and the lengths \<open>l\<close> and \<open>z\<close>. Floating-point numbers are of any type; how one is
  printed to a given precision is a parameter. Text that is not ASCII is written as its code points, \<open>utf8\<close> encodes it.
\<close>

section \<open>Text\<close>

definition utf8_char :: "nat \<Rightarrow> string" where
  "utf8_char n =
     (if n < 0x80 then [char_of n]
      else if n < 0x800 then [char_of (0xC0 + n div 64), char_of (0x80 + n mod 64)]
      else [char_of (0xE0 + n div 4096), char_of (0x80 + n div 64 mod 64), char_of (0x80 + n mod 64)])"

definition utf8 :: "nat list \<Rightarrow> string" where
  "utf8 ns = concat (map utf8_char ns)"

section \<open>Conversions\<close>

datatype 'f printf_arg = AStr string | AInt int | ANat nat | AFloat 'f

record conversion =
  cv_flags :: string
  cv_width :: nat
  cv_precision :: nat
  cv_char :: char

fun precision_of :: "string \<Rightarrow> nat \<times> string" where
  "precision_of [] = (6, [])"
| "precision_of (c # s) =
     (if c = CHR 0x2E then (digits_value (takeWhile is_digit s), dropWhile is_digit s) else (6, c # s))"

text \<open>A conversion after its \<open>%\<close>, and the text behind it.\<close>

definition conversion_of :: "string \<Rightarrow> (conversion \<times> string) option" where
  "conversion_of s =
     (let flags = takeWhile (\<lambda>c. c \<in> set ''-0'') s; s = dropWhile (\<lambda>c. c \<in> set ''-0'') s;
          width = digits_value (takeWhile is_digit s); s = dropWhile is_digit s;
          (prec, s) = precision_of s; s = dropWhile (\<lambda>c. c \<in> set ''lz'') s
      in case s of
           [] \<Rightarrow> None
         | c # t \<Rightarrow> Some (\<lparr>cv_flags = flags, cv_width = width, cv_precision = prec, cv_char = c\<rparr>, t))"

lemma precision_shorter: "length (snd (precision_of s)) \<le> length s"
  by (cases s) (auto intro: order_trans [OF length_dropWhile_le])

lemma conversion_shorter:
  assumes "conversion_of s = Some (v, t)"
  shows "length t < length s"
proof -
  let ?u = "dropWhile is_digit (dropWhile (\<lambda>c. c \<in> set ''-0'') s)"
  obtain c where "dropWhile (\<lambda>c. c \<in> set ''lz'') (snd (precision_of ?u)) = c # t"
    using assms by (auto simp: conversion_of_def Let_def split: list.splits prod.splits)
  then have "Suc (length t) \<le> length (snd (precision_of ?u))" by (metis length_Cons length_dropWhile_le)
  also have "\<dots> \<le> length ?u" by (rule precision_shorter)
  also have "\<dots> \<le> length s" by (meson length_dropWhile_le order_trans)
  finally show ?thesis by simp
qed

text \<open>The converted argument: \<open>0\<close> pads numbers, \<open>-\<close> pads on the right.\<close>

definition converted :: "(nat \<Rightarrow> 'f \<Rightarrow> string) \<Rightarrow> conversion \<Rightarrow> 'f printf_arg \<Rightarrow> string" where
  "converted fl v a =
     (case a of
        AStr s \<Rightarrow> s
      | AInt i \<Rightarrow> dec_int i
      | ANat n \<Rightarrow> if cv_char v = CHR ''X'' then hex n else dec n
      | AFloat q \<Rightarrow> fl (cv_precision v) q)"

definition padded :: "conversion \<Rightarrow> string \<Rightarrow> string" where
  "padded v s =
     (if CHR 0x2D \<in> set (cv_flags v) then field (cv_width v) s
      else if CHR 0x30 \<in> set (cv_flags v) then zeros (cv_width v) s
      else replicate (cv_width v - length s) (CHR 0x20) @ s)"

function printf :: "(nat \<Rightarrow> 'f \<Rightarrow> string) \<Rightarrow> string \<Rightarrow> 'f printf_arg list \<Rightarrow> string" where
  "printf fl [] args = []"
| "printf fl (c # s) args =
     (if c \<noteq> CHR ''%'' then c # printf fl s args
      else case conversion_of s of
        None \<Rightarrow> []
      | Some (v, t) \<Rightarrow>
          if cv_char v = CHR ''%'' then CHR ''%'' # printf fl t args
          else case args of
            [] \<Rightarrow> []
          | a # args \<Rightarrow> padded v (converted fl v a) @ printf fl t args)"
  by pat_completeness auto
termination
  by (relation "measure (\<lambda>(fl, s, args). length s)") (auto dest!: conversion_shorter)

lemma printf_example: "printf (\<lambda>n q. []) (''%-6s|%04X|%3d%%'') [AStr ''ab'', ANat 255, AInt (-5)] = ''ab    |00FF| -5%''"
  by code_simp

end
