(* ===== verification/Cli.thy ===== *)
theory Cli
  imports Printf Egpu Logging
begin

text \<open>
  The command line tool of \<open>src/cli/cudabridge_cli.c\<close>: the parser of the options, the table of the commands, the
  commands, and \<open>main\<close>.

  The record \<open>cli\<close> is the colour flag, standard output, and the eGPU manager and the logging system of the
  process; standard error is the console of the logging system. What lies outside the
  process is the record \<open>cli_env\<close>: the clock and the files, the hardware, how \<open>printf\<close> prints a
  floating-point number, \<open>__FILE__\<close>, \<open>__DATE__\<close> and \<open>__TIME__\<close>,
      and for \<open>monitor\<close> how many rounds pass before
  the interrupt and what the monitoring thread does in the pauses. \<^const>\<open>None\<close> is undefined behaviour, also that of
  \<open>atoi\<close> outside the range of \<open>int\<close>. A signal handler does nothing but end the loop of \<open>monitor\<close>. The
  log calls of the eGPU manager are left out, as in \<^theory_text>\<open>Egpu\<close>.
\<close>

section \<open>Data\<close>

definition CLI_OK :: int where "CLI_OK = 0"
definition CLI_ERR_ARGS :: int where "CLI_ERR_ARGS = 1"
definition CLI_ERR_INIT :: int where "CLI_ERR_INIT = 2"
definition CLI_ERR_DEVICE :: int where "CLI_ERR_DEVICE = 3"
definition CLI_ERR_CONNECT :: int where "CLI_ERR_CONNECT = 4"
definition CLI_ERR_DISCONNECT :: int where "CLI_ERR_DISCONNECT = 5"
definition CLI_ERR_CONFIG :: int where "CLI_ERR_CONFIG = 6"
definition CLI_ERR_UNKNOWN :: int where "CLI_ERR_UNKNOWN = 99"

record CLIOptions =
  op_verbose :: bool
  op_json_output :: bool
  op_no_color :: bool
  op_force :: bool
  op_device_index :: int
  op_interval_ms :: int
  op_log_lines :: int
  op_log_level :: string

datatype CLICommandHandler =
    Cmd_info | Cmd_status | Cmd_connect | Cmd_disconnect | Cmd_monitor | Cmd_config | Cmd_diag | Cmd_log
  | Cmd_benchmark | Cmd_reset | Cmd_help | Cmd_version

record CLICommand =
  cc_name :: string
  cc_alias :: string
  cc_description :: string
  cc_usage :: string
  cc_handler :: CLICommandHandler

record cli =
  cl_color :: bool
  cl_out :: string
  cl_egpu :: egpu
  cl_log :: log

record cli_env =
  ce_log :: log_env
  ce_hw :: egpu_hw
  ce_fixed :: "nat \<Rightarrow> rat \<Rightarrow> string"
  ce_file :: string
  ce_build :: "string \<times> string"
  ce_rounds :: nat
  ce_between :: "nat \<Rightarrow> egpu \<Rightarrow> egpu option"

definition command :: "string \<Rightarrow> string \<Rightarrow> string \<Rightarrow> string \<Rightarrow> CLICommandHandler \<Rightarrow> CLICommand" where
  "command n a d u h = \<lparr>cc_name = n, cc_alias = a, cc_description = d, cc_usage = u, cc_handler = h\<rparr>"

definition commands :: "CLICommand list" where
  "commands =
     [command ''info'' ''i'' (''GPU '' @ utf8 [0xB514, 0xBC14, 0xC774, 0xC2A4] @ '' '' @ utf8 [0xC815, 0xBCF4] @ '' '' @ utf8 [0xD45C,
         0xC2DC]) ''cudabridge-cli info [-d <device>] [--json]'' Cmd_info,
      command ''status'' ''s'' (''eGPU '' @ utf8 [0xC5F0, 0xACB0] @ '' '' @ utf8 [0xC0C1, 0xD0DC] @ '' '' @ utf8 [0xD45C,
          0xC2DC]) ''cudabridge-cli status [--json]'' Cmd_status,
      command ''connect'' ''c'' (''eGPU '' @ utf8 [0xC5F0, 0xACB0]) ''cudabridge-cli connect [-d <device>]'' Cmd_connect,
      command ''disconnect'' ''dc'' (''eGPU '' @ utf8 [0xC548, 0xC804] @ '' '' @ utf8 [0xD574,
          0xC81C]) ''cudabridge-cli disconnect [--force]'' Cmd_disconnect,
      command ''monitor'' ''m'' (utf8 [0xC2E4, 0xC2DC, 0xAC04] @ '' GPU '' @ utf8 [0xBAA8, 0xB2C8, 0xD130,
          0xB9C1]) ''cudabridge-cli monitor [-i <interval_ms>]'' Cmd_monitor,
      command ''config'' ''cf'' (''GPU '' @ utf8 [0xC124, 0xC815] @ '' '' @ utf8 [0xAD00, 0xB9AC]) ''cudabridge-cli config <subcommand>'' Cmd_config,
      command ''diag'' ''d'' (utf8 [0xC2DC, 0xC2A4, 0xD15C] @ '' '' @ utf8 [0xC9C4, 0xB2E8] @ '' '' @ utf8 [0xC2E4,
          0xD589]) ''cudabridge-cli diag'' Cmd_diag,
      command ''log'' ''l'' (utf8 [0xB4DC, 0xB77C, 0xC774, 0xBC84] @ '' '' @ utf8 [0xB85C, 0xADF8] @ '' '' @ utf8 [0xC870,
          0xD68C]) ''cudabridge-cli log [-n <lines>] [--level <level>]'' Cmd_log,
      command ''benchmark'' ''b'' (utf8 [0xC131, 0xB2A5] @ '' '' @ utf8 [0xBCA4, 0xCE58, 0xB9C8, 0xD06C] @ '' '' @ utf8 [0xC2E4,
          0xD589]) ''cudabridge-cli benchmark'' Cmd_benchmark,
      command ''reset'' ''r'' (''GPU '' @ utf8 [0xB9AC, 0xC14B]) ''cudabridge-cli reset [--hard]'' Cmd_reset,
      command ''help'' ''h'' (utf8 [0xB3C4, 0xC6C0, 0xB9D0] @ '' '' @ utf8 [0xD45C, 0xC2DC]) ''cudabridge-cli help [command]'' Cmd_help,
      command ''version'' ''ver'' (utf8 [0xBC84, 0xC804] @ '' '' @ utf8 [0xC815, 0xBCF4] @ '' '' @ utf8 [0xD45C,
          0xC2DC]) ''cudabridge-cli version'' Cmd_version]"

section \<open>Output\<close>

definition say :: "cli_env \<Rightarrow> string \<Rightarrow> rat printf_arg list \<Rightarrow> cli \<Rightarrow> cli" where
  "say env fmt args c = c\<lparr>cl_out := cl_out c @ printf (ce_fixed env) fmt args\<rparr>"

text \<open>A sequence of lines, each a format without its final newline.\<close>

fun lines_out :: "cli_env \<Rightarrow> (string \<times> rat printf_arg list) list \<Rightarrow> cli \<Rightarrow> cli" where
  "lines_out env [] c = c"
| "lines_out env ((fmt, args) # ls) c = lines_out env ls (say env (fmt @ newline) args c)"

definition colour :: "string \<Rightarrow> cli \<Rightarrow> string" where
  "colour code c = (if cl_color c then escape code else '''')"

definition C_RESET :: "cli \<Rightarrow> string" where "C_RESET = colour ''0''"
definition C_BOLD :: "cli \<Rightarrow> string" where "C_BOLD = colour ''1''"
definition C_RED :: "cli \<Rightarrow> string" where "C_RED = colour ''31''"
definition C_GREEN :: "cli \<Rightarrow> string" where "C_GREEN = colour ''32''"
definition C_YELLOW :: "cli \<Rightarrow> string" where "C_YELLOW = colour ''33''"
definition C_BLUE :: "cli \<Rightarrow> string" where "C_BLUE = colour ''34''"
definition C_MAGENTA :: "cli \<Rightarrow> string" where "C_MAGENTA = colour ''35''"
definition C_CYAN :: "cli \<Rightarrow> string" where "C_CYAN = colour ''36''"
definition C_DIM :: "cli \<Rightarrow> string" where "C_DIM = colour ''2''"

definition cli_print_banner :: "cli_env \<Rightarrow> cli \<Rightarrow> cli" where
  "cli_print_banner env c =
     say env ''%s'' [AStr (C_RESET c)]
       (lines_out env
          [(utf8 (0x2554 # replicate 63 0x2550 @ [0x2557]), []),
           (utf8 [0x2551] @ ''           CudaBridge GPU Driver CLI v1.0.0                  '' @ utf8 [0x2551], []),
           (utf8 [0x2551] @ ''     Apple Silicon eGPU Management & Control Tool            '' @ utf8 [0x2551], []),
           (utf8 (0x255A # replicate 63 0x2550 @ [0x255D]), [])]
          (say env ''%s'' [AStr (C_CYAN c)] c))"

definition cli_print_separator :: "cli_env \<Rightarrow> cli \<Rightarrow> cli" where
  "cli_print_separator env c =
     lines_out env [(''%s'' @ utf8 (replicate 63 0x2500) @ ''%s'', [AStr (C_DIM c), AStr (C_RESET c)])] c"

text \<open>\<open>snprintf\<close> into a buffer of \<open>n\<close> bytes.\<close>

definition snprintf :: "cli_env \<Rightarrow> nat \<Rightarrow> string \<Rightarrow> rat printf_arg list \<Rightarrow> string" where
  "snprintf env n fmt args = into_buffer n (printf (ce_fixed env) fmt args)"

definition cli_format_bytes :: "cli_env \<Rightarrow> u64 \<Rightarrow> nat \<Rightarrow> string" where
  "cli_format_bytes env bytes buf_size =
     (let b = of_nat (unat bytes) :: rat in
      if bytes \<ge> 1024 * 1024 * 1024 * 1024 then snprintf env buf_size ''%.2f TB'' [AFloat (b / (1024 * 1024 * 1024 * 1024))]
      else if bytes \<ge> 1024 * 1024 * 1024 then snprintf env buf_size ''%.2f GB'' [AFloat (b / (1024 * 1024 * 1024))]
      else if bytes \<ge> 1024 * 1024 then snprintf env buf_size ''%.2f MB'' [AFloat (b / (1024 * 1024))]
      else if bytes \<ge> 1024 then snprintf env buf_size ''%.2f KB'' [AFloat (b / 1024)]
      else snprintf env buf_size ''%lu B'' [ANat (unat bytes)])"

definition cli_format_bandwidth :: "cli_env \<Rightarrow> u64 \<Rightarrow> nat \<Rightarrow> string" where
  "cli_format_bandwidth env bps buf_size =
     (let b = of_nat (unat bps) :: rat in
      if bps \<ge> 1000000000 then snprintf env buf_size ''%.1f Gbps'' [AFloat (b / 1000000000)]
      else if bps \<ge> 1000000 then snprintf env buf_size ''%.1f Mbps'' [AFloat (b / 1000000)]
      else snprintf env buf_size ''%lu bps'' [ANat (unat bps)])"

definition cli_format_temperature :: "cli_env \<Rightarrow> int \<Rightarrow> nat \<Rightarrow> cli \<Rightarrow> string" where
  "cli_format_temperature env celsius buf_size c =
     (let color = (if cl_color c then if celsius \<ge> 85 then C_RED c else if celsius \<ge> 70 then C_YELLOW c else C_GREEN c else '''')
      in snprintf env buf_size (''%s%d'' @ utf8 [0x00B0] @ ''C%s'') [AStr color, AInt celsius, AStr (if cl_color c then C_RESET c else '''')])"

definition state_to_string :: "EGPUConnectionState \<Rightarrow> string" where
  "state_to_string state =
     (case state of
        EGPU_STATE_DISCONNECTED \<Rightarrow> ''Disconnected''
      | EGPU_STATE_DETECTING \<Rightarrow> ''Detecting''
      | EGPU_STATE_AUTHENTICATING \<Rightarrow> ''Authenticating''
      | EGPU_STATE_TUNNEL_SETUP \<Rightarrow> ''Setting up tunnel''
      | EGPU_STATE_INITIALIZING \<Rightarrow> ''Initializing''
      | EGPU_STATE_CONNECTED \<Rightarrow> ''Connected''
      | EGPU_STATE_DEGRADED \<Rightarrow> ''Degraded''
      | EGPU_STATE_ERROR \<Rightarrow> ''Error''
      | EGPU_STATE_RECOVERING \<Rightarrow> ''Recovering''
      | EGPU_STATE_SAFE_DISCONNECT \<Rightarrow> ''Disconnecting (safe)''
      | EGPU_STATE_FORCE_DISCONNECT \<Rightarrow> ''Disconnecting (force)'')"

definition state_color :: "EGPUConnectionState \<Rightarrow> cli \<Rightarrow> string" where
  "state_color state c =
     (if \<not> cl_color c then ''''
      else case state of
        EGPU_STATE_CONNECTED \<Rightarrow> C_GREEN c
      | EGPU_STATE_DEGRADED \<Rightarrow> C_YELLOW c
      | EGPU_STATE_ERROR \<Rightarrow> C_RED c
      | _ \<Rightarrow> C_DIM c)"

definition conn_name :: "EGPUConnectionType \<Rightarrow> string" where
  "conn_name t =
     (if t = EGPU_CONN_USB4 then ''USB4'' else if t = EGPU_CONN_THUNDERBOLT3 then ''Thunderbolt 3''
      else if t = EGPU_CONN_THUNDERBOLT4 then ''Thunderbolt 4'' else ''Unknown'')"

text \<open>The getters of the eGPU manager, which lock its mutex.\<close>

definition device_info :: "cli \<Rightarrow> (int \<times> EGPUDeviceInfo \<times> cli) option" where
  "device_info c =
     do { (r, info, e) \<leftarrow> egpu_get_device_info True (cl_egpu c); info \<leftarrow> info; Some (r, info, c\<lparr>cl_egpu := e\<rparr>) }"

definition health_now :: "cli \<Rightarrow> (EGPUHealthMetrics \<times> cli) option" where
  "health_now c =
     do { (_, m, e) \<leftarrow> egpu_get_health True (cl_egpu c); m \<leftarrow> m; Some (m, c\<lparr>cl_egpu := e\<rparr>) }"

section \<open>Commands\<close>

definition info_json :: "cli_env \<Rightarrow> bool \<Rightarrow> EGPUDeviceInfo \<Rightarrow> cli \<Rightarrow> cli" where
  "info_json env has_device info c =
     lines_out env
       ([(''{'', []), (''  \"driver_version\": \"1.0.0\",'', []), (''  \"cuda_version\": \"12.0 (Bridge)\",'', [])]
        @ (if has_device then
             [(''  \"gpu\": {'', []),
              (''    \"name\": \"%s\",'', [AStr (ei_name info)]),
              (''    \"vendor_id\": \"0x%04X\",'', [ANat (unat (ei_vendor_id info))]),
              (''    \"device_id\": \"0x%04X\",'', [ANat (unat (ei_device_id info))]),
              (''    \"serial\": \"%s\",'', [AStr (ei_serial info)]),
              (''    \"connection\": \"%s\",'', [AStr (conn_name (ei_conn_type info))]),
              (''    \"max_bandwidth_mbps\": %u,'', [ANat (unat (ei_max_bandwidth_mbps info))]),
              (''    \"power_budget_watts\": %d,'', [AInt (ei_power_budget_watts info)]),
              (''    \"compatible\": %s'', [AStr (if ei_is_compatible info then ''true'' else ''false'')]),
              (''  }'', [])]
           else [(''  \"gpu\": null'', [])])
        @ [(''}'', [])]) c"

definition info_device :: "cli_env \<Rightarrow> EGPUDeviceInfo \<Rightarrow> cli \<Rightarrow> cli" where
  "info_device env info c =
     lines_out env
       [(''  %-24s 0x%04X'', [AStr ''Vendor ID:'', ANat (unat (ei_vendor_id info))]),
        (''  %-24s 0x%04X'', [AStr ''Device ID:'', ANat (unat (ei_device_id info))]),
        (''  %-24s %s'', [AStr ''Serial:'', AStr (ei_serial info)]),
        (''  %-24s %s'', [AStr ''Connection:'', AStr (conn_name (ei_conn_type info))]),
        (''  %-24s %s'', [AStr ''Max Bandwidth:'', AStr (cli_format_bandwidth env (ucast (ei_max_bandwidth_mbps info) * 1000000) 64)]),
        (''  %-24s %d W'', [AStr ''Power Budget:'', AInt (ei_power_budget_watts info)]),
        (''  %-24s %s%s%s'', [AStr ''Compatible:'', AStr (if ei_is_compatible info then C_GREEN c else C_RED c),
           AStr (if ei_is_compatible info then ''Yes'' else ''No''), AStr (C_RESET c)]),
        ('''', []),
        (''  %sCompute Capabilities:%s'', [AStr (C_BOLD c), AStr (C_RESET c)]),
        (''  %-24s %s'', [AStr ''Architecture:'', AStr ''Ada Lovelace'']),
        (''  %-24s %d.%d'', [AStr ''Compute Capability:'', AInt 8, AInt 9]),
        (''  %-24s %d'', [AStr ''SM Count:'', AInt 128]),
        (''  %-24s %d'', [AStr ''CUDA Cores:'', AInt 16384]),
        (''  %-24s %s'', [AStr ''VRAM:'', AStr ''24 GB GDDR6X'']),
        (''  %-24s %d-bit'', [AStr ''Memory Bus:'', AInt 384]),
        (''  %-24s %d MHz'', [AStr ''GPU Clock:'', AInt 2520]),
        (''  %-24s %d MHz'', [AStr ''Memory Clock:'', AInt 1313])]
       (cli_print_separator env (lines_out env [(''  %sGPU 0:%s %s'', [AStr (C_BOLD c), AStr (C_RESET c), AStr (ei_name info)])] c))"

text \<open>The title of a command: an empty line, the title in bold, and the separator.\<close>

definition title :: "cli_env \<Rightarrow> string \<Rightarrow> rat printf_arg list \<Rightarrow> cli \<Rightarrow> cli" where
  "title env fmt args c =
     cli_print_separator env (lines_out env [('''', []), (''%s '' @ fmt @ '' %s'', [AStr (C_BOLD c)] @ args @ [AStr (C_RESET c)])] c)"

definition cmd_info :: "cli_env \<Rightarrow> CLIOptions \<Rightarrow> cli \<Rightarrow> (int \<times> cli) option" where
  "cmd_info env opts c =
     do { (r, info, c) \<leftarrow> device_info (title env ''GPU Device Information'' [] c);
          let has_device = (r = 0 \<and> ei_vendor_id info \<noteq> 0);
          if op_json_output opts then Some (CLI_OK, info_json env has_device info c)
          else
            let c = lines_out env
                  [(''  %-24s %s%s%s'', [AStr ''Driver Version:'', AStr (C_BOLD c), AStr ''1.0.0'', AStr (C_RESET c)]),
                   (''  %-24s %s%s%s'', [AStr ''CUDA Version:'', AStr (C_BOLD c), AStr ''12.0 (Bridge)'', AStr (C_RESET c)]),
                   (''  %-24s %s%s%s'', [AStr ''Platform:'', AStr (C_BOLD c), AStr ''CudaBridge for Apple Silicon'', AStr (C_RESET c)]),
                   ('''', [])] c;
                c = (if has_device then info_device env info c
                     else lines_out env
                       [(''  %sNo eGPU device detected%s'', [AStr (C_DIM c), AStr (C_RESET c)]),
                        (''  Connect an eGPU via Thunderbolt/USB4 and run: cudabridge-cli connect'', [])] c)
            in Some (CLI_OK, lines_out env [('''', [])] c) }"

definition status_json :: "cli_env \<Rightarrow> EGPUConnectionState \<Rightarrow> EGPUError \<Rightarrow> EGPUHealthMetrics \<Rightarrow> cli \<Rightarrow> cli" where
  "status_json env state last_err health c =
     lines_out env
       [(''{'', []),
        (''  \"state\": \"%s\",'', [AStr (state_to_string state)]),
        (''  \"error\": \"%s\",'', [AStr (egpu_error_string last_err)]),
        (''  \"health\": {'', []),
        (''    \"temperature\": %d,'', [AInt (hm_temperature health)]),
        (''    \"power_draw\": %d,'', [AInt (hm_power_draw health)]),
        (''    \"link_error_rate\": %.6f,'', [AFloat (hm_link_error_rate health)]),
        (''    \"bandwidth_utilization\": %.4f,'', [AFloat (hm_bandwidth_util health)]),
        (''    \"packets_sent\": %lu,'', [ANat (unat (hm_packets_sent health))]),
        (''    \"packets_received\": %lu,'', [ANat (unat (hm_packets_received health))]),
        (''    \"errors_corrected\": %lu,'', [ANat (unat (hm_errors_corrected health))]),
        (''    \"errors_uncorrected\": %lu'', [ANat (unat (hm_errors_uncorrected health))]),
        (''  }'', []),
        (''}'', [])] c"

definition status_health :: "cli_env \<Rightarrow> EGPUHealthMetrics \<Rightarrow> cli \<Rightarrow> cli" where
  "status_health env health c =
     lines_out env
       ([('''', []),
         (''  %sHealth Metrics:%s'', [AStr (C_BOLD c), AStr (C_RESET c)]),
         (''  %-24s %s'', [AStr ''Temperature:'', AStr (cli_format_temperature env (hm_temperature health) 64 c)]),
         (''  %-24s %d W'', [AStr ''Power Draw:'', AInt (hm_power_draw health)]),
         (''  %-24s %.4f%%'', [AStr ''Link Error Rate:'', AFloat (hm_link_error_rate health * 100)]),
         (''  %-24s %.1f%%'', [AStr ''Bandwidth Usage:'', AFloat (hm_bandwidth_util health * 100)]),
         (''  %-24s %lu / %lu'', [AStr ''Packets (TX/RX):'', ANat (unat (hm_packets_sent health)), ANat (unat (hm_packets_received health))])]
        @ (if hm_errors_corrected health > 0 \<or> hm_errors_uncorrected health > 0 then
             [(''  %-24s %s%lu corrected, %lu uncorrected%s'', [AStr ''Errors:'',
                AStr (if hm_errors_uncorrected health > 0 then C_RED c else C_YELLOW c),
                ANat (unat (hm_errors_corrected health)), ANat (unat (hm_errors_uncorrected health)), AStr (C_RESET c)])]
           else [])) c"

definition cmd_status :: "cli_env \<Rightarrow> CLIOptions \<Rightarrow> cli \<Rightarrow> (int \<times> cli) option" where
  "cmd_status env opts c =
     (let state = egpu_get_state (cl_egpu c); last_err = egpu_get_last_error (cl_egpu c) in
      do { (health, c) \<leftarrow> health_now c;
           if op_json_output opts then Some (CLI_OK, status_json env state last_err health c)
           else
             let c = title env ''eGPU Connection Status'' [] c;
                 c = lines_out env ((''  %-24s %s%s%s'', [AStr ''State:'', AStr (state_color state c), AStr (state_to_string state),
                     AStr (C_RESET c)])
                     # (if last_err \<noteq> EGPU_ERR_NONE then
                          [(''  %-24s %s%s%s'', [AStr ''Last Error:'', AStr (C_RED c), AStr (egpu_error_string last_err), AStr (C_RESET c)])]
                        else [])) c;
                 c = (if state = EGPU_STATE_CONNECTED \<or> state = EGPU_STATE_DEGRADED then status_health env health c else c)
             in Some (CLI_OK, lines_out env [('''', [])] c) })"

definition cmd_connect :: "cli_env \<Rightarrow> CLIOptions \<Rightarrow> cli \<Rightarrow> (int \<times> cli) option" where
  "cmd_connect env opts c =
     (let c = title env ''Connecting eGPU...'' [] c in
      do { (err, e) \<leftarrow> egpu_connect (ce_hw env) (cl_egpu c);
           let c = c\<lparr>cl_egpu := e\<rparr>;
           c \<leftarrow> (if err = EGPU_ERR_NONE then
                  do { (_, info, c) \<leftarrow> device_info c;
                       Some (lines_out env
                         [(''  %s'' @ utf8 [0x2713] @ '' Connected:%s %s'', [AStr (C_GREEN c), AStr (C_RESET c), AStr (ei_name info)]),
                          (''  %s'' @ utf8 [0x2713] @ '' Connection:%s %s at %u Mbps'', [AStr (C_GREEN c), AStr (C_RESET c),
                             AStr (conn_name (ei_conn_type info)), ANat (unat (ei_max_bandwidth_mbps info))]),
                          (''  %s'' @ utf8 [0x2713] @ '' Health monitoring started%s'', [AStr (C_GREEN c), AStr (C_RESET c)])] c) }
                else
                  Some (lines_out env
                    ((''  %s'' @ utf8 [0x2717] @ '' Connection failed: %s%s'', [AStr (C_RED c), AStr (egpu_error_string err), AStr (C_RESET c)])
                     # (if err = EGPU_ERR_INCOMPATIBLE_DEVICE then
                          [('''', []),
                           (''  %sNote:%s The device is not compatible with CudaBridge.'', [AStr (C_YELLOW c), AStr (C_RESET c)]),
                           (''  Only NVIDIA GPUs (Kepler or newer) are supported.'', []),
                           (''  The device has been forcefully disconnected for safety.'', [])]
                        else [])) c));
           Some (if err = EGPU_ERR_NONE then CLI_OK else CLI_ERR_CONNECT, lines_out env [('''', [])] c) })"

definition cmd_disconnect :: "cli_env \<Rightarrow> CLIOptions \<Rightarrow> cli \<Rightarrow> (int \<times> cli) option" where
  "cmd_disconnect env opts c =
     (if egpu_get_state (cl_egpu c) = EGPU_STATE_DISCONNECTED then
        Some (CLI_OK, lines_out env [('''', []), (''  %sNo eGPU connected%s'', [AStr (C_DIM c), AStr (C_RESET c)]), ('''', [])] c)
      else
        let c = title env ''Disconnecting eGPU...'' [] c in
        do { (err, c) \<leftarrow>
               (if op_force opts then
                  do { let c = lines_out env [(''  %s'' @ utf8 [0x26A0] @ '' Force disconnect requested%s'', [AStr (C_YELLOW c),
                      AStr (C_RESET c)])] c;
                       (err, e) \<leftarrow> egpu_force_disconnect (Some ''User requested force disconnect via CLI'') (cl_egpu c);
                       Some (err, c\<lparr>cl_egpu := e\<rparr>) }
                else
                  do { let c = lines_out env [(''  Waiting for pending operations...'', [])] c;
                       (err, e) \<leftarrow> egpu_safe_disconnect (cl_egpu c);
                       Some (err, c\<lparr>cl_egpu := e\<rparr>) });
             let c = lines_out env
               [if err = EGPU_ERR_NONE then (''  %s'' @ utf8 [0x2713] @ '' eGPU disconnected safely%s'', [AStr (C_GREEN c), AStr (C_RESET c)])
                else (''  %s'' @ utf8 [0x2717] @ '' Disconnect error: %s%s'', [AStr (C_RED c), AStr (egpu_error_string err), AStr (C_RESET c)]),
                ('''', [])] c;
             Some (if err = EGPU_ERR_NONE then CLI_OK else CLI_ERR_DISCONNECT, c) })"

text \<open>The rounds of \<open>monitor\<close> until the interrupt.\<close>

fun monitor_loop :: "cli_env \<Rightarrow> int \<Rightarrow> nat \<Rightarrow> cli \<Rightarrow> cli option" where
  "monitor_loop env interval 0 c = Some c"
| "monitor_loop env interval (Suc n) c =
     do { (health, c) \<leftarrow> health_now c;
          let state = egpu_get_state (cl_egpu c);
          let c = say env (''  %-8s %-8d %-8.4f %-12lu %-12lu %-9.1f%% %s%-10s%s'' @ [CHR 0x0D] @ newline)
            [AStr (cli_format_temperature env (hm_temperature health) 32 c), AInt (hm_power_draw health),
             AFloat (hm_link_error_rate health), ANat (unat (hm_packets_sent health)), ANat (unat (hm_packets_received health)),
             AFloat (hm_bandwidth_util health * 100), AStr (state_color state c), AStr (state_to_string state), AStr (C_RESET c)] c;
          if \<not> int_ok (interval * 1000) then None
          else do { e \<leftarrow> ce_between env n (cl_egpu c); monitor_loop env interval n (c\<lparr>cl_egpu := e\<rparr>) } }"

definition cmd_monitor :: "cli_env \<Rightarrow> CLIOptions \<Rightarrow> cli \<Rightarrow> (int \<times> cli) option" where
  "cmd_monitor env opts c =
     (let state = egpu_get_state (cl_egpu c) in
      if state \<noteq> EGPU_STATE_CONNECTED \<and> state \<noteq> EGPU_STATE_DEGRADED then
        Some (CLI_ERR_DEVICE, lines_out env
          [('''', []), (''  %sNo eGPU connected. Connect first: cudabridge-cli connect%s'', [AStr (C_DIM c), AStr (C_RESET c)]), ('''', [])] c)
      else
        let interval = (if op_interval_ms opts > 0 then op_interval_ms opts else 1000);
            c = lines_out env
              [(''  Monitoring GPU (interval: %dms, Ctrl+C to stop)'', [AInt interval]), ('''', []),
               (''  %-8s %-8s %-8s %-12s %-12s %-10s %-10s'', map AStr
                  [''Temp'', ''Power'', ''ErrRate'', ''TX Pkts'', ''RX Pkts'', ''BW Usage'', ''State''])] c
        in do { c \<leftarrow> monitor_loop env interval (ce_rounds env) (cli_print_separator env c);
                Some (CLI_OK, lines_out env [('''', []), (''  Monitoring stopped.'', []), ('''', [])] c) })"

definition int_arg :: "string \<Rightarrow> int option" where
  "int_arg s = (let n = atoi s in if int_ok n then Some n else None)"

definition config_usage :: "cli_env \<Rightarrow> cli \<Rightarrow> cli" where
  "config_usage env c =
     lines_out env
       [(''  Subcommands:'', []),
        (''    show             '' @ utf8 [0xD604, 0xC7AC] @ '' '' @ utf8 [0xC124, 0xC815] @ '' '' @ utf8 [0xD45C, 0xC2DC], []),
        (''    set <key> <val>  '' @ utf8 [0xC124, 0xC815] @ '' '' @ utf8 [0xBCC0, 0xACBD], []),
        (''    reset            '' @ utf8 [0xAE30, 0xBCF8, 0xAC12, 0xC73C, 0xB85C] @ '' '' @ utf8 [0xCD08, 0xAE30, 0xD654], []),
        (''    clock <gpu> <mem>  '' @ utf8 [0xD074, 0xB7ED] @ '' '' @ utf8 [0xC18D, 0xB3C4] @ '' '' @ utf8 [0xC124, 0xC815] @ '' (MHz)'', []),
        (''    power <limit>    '' @ utf8 [0xC804, 0xB825] @ '' '' @ utf8 [0xC81C, 0xD55C] @ '' '' @ utf8 [0xC124, 0xC815] @ '' (W)'', []),
        (''    fan <speed>      '' @ utf8 [0xD32C] @ '' '' @ utf8 [0xC18D, 0xB3C4] @ '' '' @ utf8 [0xC124, 0xC815] @ '' (%%, 0='' @ utf8 [0xC790,
            0xB3D9] @ '')'', []),
        (''    pstate <state>   '' @ utf8 [0xC804, 0xB825] @ '' '' @ utf8 [0xC0C1, 0xD0DC] @ '' '' @ utf8 [0xC124, 0xC815] @ '' (P0-P12)'', []),
        ('''', []), (''  Available keys:'', []),
        (''    thermal_limit      '' @ utf8 [0xC628, 0xB3C4] @ '' '' @ utf8 [0xC81C, 0xD55C] @ '' ('' @ utf8 [0x00B0] @ ''C)'', []),
        (''    auto_recovery      '' @ utf8 [0xC790, 0xB3D9] @ '' '' @ utf8 [0xBCF5, 0xAD6C] @ '' (0/1)'', []),
        (''    data_integrity     '' @ utf8 [0xB370, 0xC774, 0xD130] @ '' '' @ utf8 [0xBB34, 0xACB0, 0xC131] @ '' '' @ utf8 [0xAC80, 0xC99D] @
            '' (0/1)'', []),
        (''    heartbeat_interval '' @ utf8 [0xD558, 0xD2B8, 0xBE44, 0xD2B8] @ '' '' @ utf8 [0xAC04, 0xACA9] @ '' (ms)'', []),
        (''    max_retries        '' @ utf8 [0xCD5C, 0xB300] @ '' '' @ utf8 [0xC7AC, 0xC2DC, 0xB3C4] @ '' '' @ utf8 [0xD69F, 0xC218], []),
        ('''', [])] (title env ''GPU Configuration'' [] c)"

definition config_show :: "cli_env \<Rightarrow> cli \<Rightarrow> cli" where
  "config_show env c =
     (let policy = egpu_safety_default_policy; on = (\<lambda>b. AStr (if b then ''Enabled'' else ''Disabled'')) in
      lines_out env
       [(''  %-28s %d'', [AStr ''Max Retries:'', AInt (sp_max_retry_count policy)]),
        (''  %-28s %d ms'', [AStr ''Retry Delay:'', AInt (sp_retry_delay_ms policy)]),
        (''  %-28s %d ms'', [AStr ''Heartbeat Interval:'', AInt (sp_heartbeat_interval_ms policy)]),
        (''  %-28s %d ms'', [AStr ''Heartbeat Timeout:'', AInt (sp_heartbeat_timeout_ms policy)]),
        (''  %-28s %.2f%%'', [AStr ''Error Rate Threshold:'', AFloat (sp_error_rate_threshold policy * 100)]),
        (''  %-28s %d '' @ utf8 [0x00B0] @ ''C'', [AStr ''Thermal Limit:'', AInt (sp_thermal_limit policy)]),
        (''  %-28s %s'', [AStr ''Auto Recovery:'', on (sp_enable_auto_recovery policy)]),
        (''  %-28s %s'', [AStr ''Data Integrity Check:'', on (sp_enable_data_integrity policy)]),
        (''  %-28s %s'', [AStr ''Force Disconnect (Incompat.):'', on (sp_force_disconnect_on_incompatible policy)]),
        (''  %-28s %d ms'', [AStr ''Safe Disconnect Timeout:'', AInt (sp_safe_disconnect_timeout_ms policy)]),
        ('''', []),
        (''  %sGPU Performance Settings:%s'', [AStr (C_BOLD c), AStr (C_RESET c)]),
        (''  %-28s %s'', [AStr ''GPU Clock:'', AStr ''2520 MHz (simulated)'']),
        (''  %-28s %s'', [AStr ''Memory Clock:'', AStr ''1313 MHz (simulated)'']),
        (''  %-28s %s'', [AStr ''Power Limit:'', AStr ''450 W (simulated)'']),
        (''  %-28s %s'', [AStr ''Fan Speed:'', AStr ''Auto'']),
        (''  %-28s %s'', [AStr ''Performance State:'', AStr ''P0 (Max Performance)'']),
        ('''', [])] (title env ''Current Configuration'' [] c))"

text \<open>A line that ends a simulated setting, and a usage error.\<close>

definition config_done :: "cli_env \<Rightarrow> string \<Rightarrow> cli \<Rightarrow> (int \<times> cli) option" where
  "config_done env what c =
     Some (CLI_OK, lines_out env [(''  %s'' @ utf8 [0x2713] @ '' '' @ what @ ''%s'', [AStr (C_GREEN c), AStr (C_RESET c)]), ('''', [])] c)"

definition config_misuse :: "cli_env \<Rightarrow> string \<Rightarrow> cli \<Rightarrow> (int \<times> cli) option" where
  "config_misuse env usage c = Some (CLI_ERR_ARGS, lines_out env [(''  Usage: cudabridge-cli config '' @ usage, [])] c)"

definition cmd_config :: "cli_env \<Rightarrow> string list \<Rightarrow> cli \<Rightarrow> (int \<times> cli) option" where
  "cmd_config env args c =
     (case args of
        [] \<Rightarrow> Some (CLI_OK, config_usage env c)
      | sub # args \<Rightarrow>
          if sub = ''show'' then Some (CLI_OK, config_show env c)
          else if sub = ''set'' then
            (case args of
               key # val # _ \<Rightarrow>
                 Some (CLI_OK, lines_out env
                   [(''  %s'' @ utf8 [0x2713] @ '' Set %s = %s%s'', [AStr (C_GREEN c), AStr key, AStr val, AStr (C_RESET c)]),
                    (''  (Note: Configuration changes are simulated in this version)'', []), ('''', [])] c)
             | _ \<Rightarrow> config_misuse env ''set <key> <value>'' c)
          else if sub = ''clock'' then
            (case args of
               gpu # mem # _ \<Rightarrow>
                 do { g \<leftarrow> int_arg gpu; m \<leftarrow> int_arg mem;
                      config_done env ''Clock speeds updated (simulated)''
                        (lines_out env [(''  Setting GPU clock: %d MHz, Memory clock: %d MHz'', [AInt g, AInt m])] c) }
             | _ \<Rightarrow> config_misuse env ''clock <gpu_mhz> <mem_mhz>'' c)
          else if sub = ''power'' then
            (case args of
               limit # _ \<Rightarrow>
                 do { watts \<leftarrow> int_arg limit;
                      config_done env ''Power limit updated (simulated)'' (lines_out env [(''  Setting power limit: %d W'', [AInt watts])] c) }
             | _ \<Rightarrow> config_misuse env ''power <limit_watts>'' c)
          else if sub = ''fan'' then
            (case args of
               speed # _ \<Rightarrow>
                 config_done env ''Fan speed updated (simulated)''
                   (lines_out env [if speed = ''auto'' then (''  Fan speed set to: Auto'', []) else (''  Fan speed set to: %s%%'', [AStr speed])] c)
             | _ \<Rightarrow> config_misuse env ''fan <speed_percent|auto>'' c)
          else if sub = ''pstate'' then
            (case args of
               state # _ \<Rightarrow>
                 config_done env ''Performance state updated (simulated)''
                   (lines_out env [(''  Performance state set to: %s'', [AStr state])] c)
             | _ \<Rightarrow> config_misuse env ''pstate <P0-P12>'' c)
          else if sub = ''reset'' then config_done env ''Configuration reset to defaults'' c
          else Some (CLI_ERR_ARGS, lines_out env [(''  Unknown subcommand: %s'', [AStr sub])] c))"

definition cmd_diag :: "cli_env \<Rightarrow> cli \<Rightarrow> (int \<times> cli) option" where
  "cmd_diag env c =
     (let c = title env ''System Diagnostics'' [] c;
          ok = [AStr (C_GREEN c), AStr (C_RESET c)]; off = [AStr (C_YELLOW c), AStr (C_RESET c)];
          state = egpu_get_state (cl_egpu c);
          test_data = [1, 2, 3, 4, 5] :: u8 list;
          crc = egpu_compute_crc32 test_data;
          integrity_ok = egpu_verify_data_integrity test_data crc;
          c = lines_out env
            ([(''  Running diagnostics...'', []), ('''', []),
              (''  [1/6] System Requirements'', []),
              (''        %s'' @ utf8 [0x2713] @ ''%s OS compatible'', ok),
              (''        %s'' @ utf8 [0x2713] @ ''%s USB4/Thunderbolt port available (simulated)'', ok),
              (''  [2/6] Driver Status'', []),
              (''        %s'' @ utf8 [0x2713] @ ''%s CudaBridge driver v1.0.0 loaded'', ok),
              (''        %s'' @ utf8 [0x2713] @ ''%s Logging system active'', ok),
              (''  [3/6] eGPU Connection'', []),
              if state = EGPU_STATE_CONNECTED \<or> state = EGPU_STATE_DEGRADED then (''        %s'' @ utf8 [0x2713] @ ''%s eGPU connected'', ok)
              else (''        %s-%s eGPU not connected'', off),
              (''  [4/6] PCIe Tunnel'', [])]
             @ (if state = EGPU_STATE_CONNECTED then
                  [(''        %s'' @ utf8 [0x2713] @ ''%s Tunnel active'', ok), (''        %s'' @ utf8 [0x2713] @
                      ''%s Bandwidth: 32 Gbps (simulated)'', ok)]
                else [(''        %s-%s Tunnel not established'', off)])
             @ [(''  [5/6] Data Integrity'', []),
                (''        %s'' @ utf8 [0x2713] @ ''%s CRC32 engine: %s'', [AStr (if integrity_ok then C_GREEN c else C_RED c), AStr (C_RESET c),
                   AStr (if integrity_ok then ''OK'' else ''FAILED'')]),
                (''  [6/6] Health Check'', [])]) c
      in do { c \<leftarrow> (if state = EGPU_STATE_CONNECTED then
                     do { (health, c) \<leftarrow> health_now c;
                          Some (lines_out env
                            [(''        Temperature: %s'', [AStr (cli_format_temperature env (hm_temperature health) 32 c)]),
                             (''        Error rate: %.6f'', [AFloat (hm_link_error_rate health)]),
                             (''        %s'' @ utf8 [0x2713] @ ''%s GPU health: OK'', ok)] c) }
                   else Some (lines_out env [(''        %s-%s GPU not available for health check'', off)] c));
              Some (CLI_OK, lines_out env
                [('''', []), (''  %sDiagnostics complete.%s'', [AStr (C_BOLD c), AStr (C_RESET c)]), ('''', [])] c) })"

definition cmd_log :: "cli_env \<Rightarrow> CLIOptions \<Rightarrow> cli \<Rightarrow> (int \<times> cli) option" where
  "cmd_log env opts c =
     (let lines = (if op_log_lines opts > 0 then op_log_lines opts else 20);
          c = title env ''Driver Logs (last %d entries)'' [AInt lines] c;
          (total, dropped) = cb_log_get_stats (cl_log c)
      in Some (CLI_OK, lines_out env
           ([(''  Total log entries: %lu, Dropped: %lu'', [ANat (unat total), ANat (unat dropped)]), ('''', []),
             (''  Log files are stored in: /tmp/cudabridge_logs/'', []),
             (''  Use: tail -f /tmp/cudabridge_logs/*.log  for live monitoring'', [])]
            @ (if op_log_level opts \<noteq> '''' then [(''  Filter level: %s'', [AStr (op_log_level opts)])] else [])
            @ [('''', []),
               (''  %sTip:%s Set log level with: cudabridge-cli config set log_level DEBUG'', [AStr (C_CYAN c), AStr (C_RESET c)]),
               ('''', [])]) c))"

definition cmd_benchmark :: "cli_env \<Rightarrow> cli \<Rightarrow> (int \<times> cli) option" where
  "cmd_benchmark env c =
     (if egpu_get_state (cl_egpu c) \<noteq> EGPU_STATE_CONNECTED then
        Some (CLI_ERR_DEVICE, lines_out env
          [('''', []), (''  %sNo eGPU connected. Connect first: cudabridge-cli connect%s'', [AStr (C_DIM c), AStr (C_RESET c)]), ('''', [])] c)
      else
        let c = title env ''Performance Benchmark'' [] c; row = (\<lambda>q. [AStr (C_GREEN c), AFloat q, AStr (C_RESET c)]) in
        Some (CLI_OK, lines_out env
          [(''  Running benchmarks (simulated)...'', []), ('''', []),
           (''  [Host '' @ utf8 [0x2192] @ '' Device Transfer]'', []),
           (''    1 KB:   %s%.2f GB/s%s  (latency: 0.012 ms)'', row (8 / 100)),
           (''    1 MB:   %s%.2f GB/s%s  (latency: 0.089 ms)'', row (112 / 10)),
           (''    64 MB:  %s%.2f GB/s%s  (latency: 4.57 ms)'', row 14),
           (''    256 MB: %s%.2f GB/s%s  (latency: 17.8 ms)'', row (144 / 10)),
           ('''', []), (''  [Device '' @ utf8 [0x2192] @ '' Host Transfer]'', []),
           (''    1 KB:   %s%.2f GB/s%s  (latency: 0.015 ms)'', row (6 / 100)),
           (''    1 MB:   %s%.2f GB/s%s  (latency: 0.095 ms)'', row (105 / 10)),
           (''    64 MB:  %s%.2f GB/s%s  (latency: 4.92 ms)'', row 13),
           (''    256 MB: %s%.2f GB/s%s  (latency: 18.5 ms)'', row (138 / 10)),
           ('''', []), (''  [Kernel Launch Overhead]'', []),
           (''    Empty kernel:  %s%.3f ms%s'', row (45 / 1000)),
           (''    Vector add:    %s%.3f ms%s (1M elements)'', row (123 / 1000)),
           (''    Matrix mul:    %s%.3f ms%s (1024x1024)'', row (2456 / 1000)),
           ('''', []), (''  %sNote:%s Benchmarks are simulated in this version.'', [AStr (C_YELLOW c), AStr (C_RESET c)]),
           (''  Connect a real eGPU for actual performance measurements.'', []), ('''', [])] c))"

text \<open>The two resets are hardware calls of the eGPU manager; the number of the call is its clock.\<close>

definition cmd_reset :: "cli_env \<Rightarrow> CLIOptions \<Rightarrow> cli \<Rightarrow> (int \<times> cli) option" where
  "cmd_reset env opts c =
     (let c = title env ''GPU Reset'' [] c;
          n = eg_tick (cl_egpu c);
          err = (if op_force opts then hw_hard_reset (ce_hw env) n else hw_reset_link (ce_hw env) n);
          name = (if op_force opts then ''Hard reset'' else ''Link reset'');
          c = lines_out env
            [if op_force opts then (''  Performing %shard reset%s...'', [AStr (C_RED c), AStr (C_RESET c)])
             else (''  Performing soft link reset...'', []),
             if err = EGPU_ERR_NONE then (''  %s'' @ utf8 [0x2713] @ '' '' @ name @ '' complete%s'', [AStr (C_GREEN c), AStr (C_RESET c)])
             else (''  %s'' @ utf8 [0x2717] @ '' '' @ name @ '' failed: %s%s'', [AStr (C_RED c), AStr (egpu_error_string err), AStr (C_RESET c)]),
             ('''', [])] (c\<lparr>cl_egpu := tick (cl_egpu c)\<rparr>)
      in Some (CLI_OK, c))"

definition find_command :: "string \<Rightarrow> CLICommand option" where
  "find_command name = find (\<lambda>k. cc_name k = name \<or> cc_alias k = name) commands"

definition help_overview :: "cli_env \<Rightarrow> cli \<Rightarrow> cli" where
  "help_overview env c =
     (let b = [AStr (C_BOLD c), AStr (C_RESET c)] in
      lines_out env
       ([('''', []), (''  %sUsage:%s cudabridge-cli <command> [options]'', b), ('''', []),
         (''  %sCommands:%s'', b)]
        @ map (\<lambda>k. (''    %s%-14s%s (%s)  %s'', map AStr [C_GREEN c, cc_name k, C_RESET c, cc_alias k, cc_description k])) commands
        @ [('''', []), (''  %sGlobal Options:%s'', b),
           (''    -v, --verbose     '' @ utf8 [0xC0C1, 0xC138] @ '' '' @ utf8 [0xCD9C, 0xB825], []),
           (''    -j, --json        JSON '' @ utf8 [0xD615, 0xC2DD] @ '' '' @ utf8 [0xCD9C, 0xB825], []),
           (''    --no-color        '' @ utf8 [0xC0C9, 0xC0C1] @ '' '' @ utf8 [0xBE44, 0xD65C, 0xC131, 0xD654], []),
           (''    -d, --device N    '' @ utf8 [0xB300, 0xC0C1] @ '' '' @ utf8 [0xC7A5, 0xCE58] @ '' '' @ utf8 [0xC778, 0xB371, 0xC2A4], []),
           (''    -f, --force       '' @ utf8 [0xAC15, 0xC81C] @ '' '' @ utf8 [0xC2E4, 0xD589], []),
           (''    -i, --interval N  '' @ utf8 [0xBAA8, 0xB2C8, 0xD130, 0xB9C1] @ '' '' @ utf8 [0xAC04, 0xACA9] @ '' (ms)'', []),
           (''    -n, --lines N     '' @ utf8 [0xD45C, 0xC2DC, 0xD560] @ '' '' @ utf8 [0xB85C, 0xADF8] @ '' '' @ utf8 [0xC904] @ '' '' @
               utf8 [0xC218], []),
           (''    --level LEVEL     '' @ utf8 [0xB85C, 0xADF8] @ '' '' @ utf8 [0xD544, 0xD130] @ '' '' @ utf8 [0xB808, 0xBCA8], []),
           ('''', []), (''  %sExamples:%s'', b),
           (''    cudabridge-cli info                 GPU '' @ utf8 [0xC815, 0xBCF4] @ '' '' @ utf8 [0xD655, 0xC778], []),
           (''    cudabridge-cli connect              eGPU '' @ utf8 [0xC5F0, 0xACB0], []),
           (''    cudabridge-cli monitor -i 500       500ms '' @ utf8 [0xAC04, 0xACA9] @ '' '' @ utf8 [0xBAA8, 0xB2C8, 0xD130, 0xB9C1], []),
           (''    cudabridge-cli config show           '' @ utf8 [0xD604, 0xC7AC] @ '' '' @ utf8 [0xC124, 0xC815] @ '' '' @ utf8 [0xD655, 0xC778],
               []),
           (''    cudabridge-cli config clock 2100 1200  '' @ utf8 [0xD074, 0xB7ED] @ '' '' @ utf8 [0xC18D, 0xB3C4] @ '' '' @ utf8 [0xBCC0,
               0xACBD], []),
           (''    cudabridge-cli disconnect --force   '' @ utf8 [0xAC15, 0xC81C] @ '' '' @ utf8 [0xD574, 0xC81C], []),
           (''    cudabridge-cli diag                 '' @ utf8 [0xC9C4, 0xB2E8] @ '' '' @ utf8 [0xC2E4, 0xD589], []),
           (''    cudabridge-cli log -n 50 --level ERROR  '' @ utf8 [0xC624, 0xB958] @ '' '' @ utf8 [0xB85C, 0xADF8] @ '' '' @ utf8 [0xD655,
               0xC778], []),
           ('''', [])]) (cli_print_banner env c))"

definition cmd_help :: "cli_env \<Rightarrow> string list \<Rightarrow> cli \<Rightarrow> int \<times> cli" where
  "cmd_help env args c =
     (case args of
        [] \<Rightarrow> (CLI_OK, help_overview env c)
      | name # _ \<Rightarrow>
          (case find_command name of
             Some k \<Rightarrow>
               (CLI_OK, lines_out env
                 [('''', []), (''  %s%s%s - %s'', map AStr [C_BOLD c, cc_name k, C_RESET c, cc_description k]),
                  (''  Usage: %s'', [AStr (cc_usage k)]), ('''', [])] c)
           | None \<Rightarrow>
               (CLI_OK, help_overview env (lines_out env [(''  Unknown command: %s'', [AStr name]), ('''', [])] c))))"

definition cmd_version :: "cli_env \<Rightarrow> cli \<Rightarrow> int \<times> cli" where
  "cmd_version env c =
     (CLI_OK, lines_out env
        [(''cudabridge-cli version 1.0.0'', []), (''CudaBridge Driver version 1.0.0'', []), (''CUDA Bridge API version 12.0'', []),
         (''Build: %s %s'', [AStr (fst (ce_build env)), AStr (snd (ce_build env))])] c)"

definition run_handler :: "cli_env \<Rightarrow> CLICommandHandler \<Rightarrow> string list \<Rightarrow> CLIOptions \<Rightarrow> cli \<Rightarrow> (int \<times> cli) option" where
  "run_handler env h args opts c =
     (case h of
        Cmd_info \<Rightarrow> cmd_info env opts c
      | Cmd_status \<Rightarrow> cmd_status env opts c
      | Cmd_connect \<Rightarrow> cmd_connect env opts c
      | Cmd_disconnect \<Rightarrow> cmd_disconnect env opts c
      | Cmd_monitor \<Rightarrow> cmd_monitor env opts c
      | Cmd_config \<Rightarrow> cmd_config env args c
      | Cmd_diag \<Rightarrow> cmd_diag env c
      | Cmd_log \<Rightarrow> cmd_log env opts c
      | Cmd_benchmark \<Rightarrow> cmd_benchmark env c
      | Cmd_reset \<Rightarrow> cmd_reset env opts c
      | Cmd_help \<Rightarrow> Some (cmd_help env args c)
      | Cmd_version \<Rightarrow> Some (cmd_version env c))"

section \<open>Options\<close>

definition options_zero :: CLIOptions where
  "options_zero = \<lparr>op_verbose = False, op_json_output = False, op_no_color = False, op_force = False, op_device_index = -1,
     op_interval_ms = 1000, op_log_lines = 20, op_log_level = ''''\<rparr>"

text \<open>The options without an argument, and those with one.\<close>

definition flag_option :: "string \<Rightarrow> (CLIOptions \<Rightarrow> CLIOptions) option" where
  "flag_option arg =
     (if arg = ''-v'' \<or> arg = ''--verbose'' then Some (op_verbose_update (\<lambda>_. True))
      else if arg = ''-j'' \<or> arg = ''--json'' then Some (op_json_output_update (\<lambda>_. True))
      else if arg = ''--no-color'' then Some (op_no_color_update (\<lambda>_. True))
      else if arg = ''-f'' \<or> arg = ''--force'' \<or> arg = ''--hard'' then Some (op_force_update (\<lambda>_. True))
      else None)"

definition value_option :: "string \<Rightarrow> (string \<Rightarrow> CLIOptions \<Rightarrow> CLIOptions option) option" where
  "value_option arg =
     (if arg = ''-d'' \<or> arg = ''--device'' then Some (\<lambda>s opts. map_option (\<lambda>n. opts\<lparr>op_device_index := n\<rparr>) (int_arg s))
      else if arg = ''-i'' \<or> arg = ''--interval'' then Some (\<lambda>s opts. map_option (\<lambda>n. opts\<lparr>op_interval_ms := n\<rparr>) (int_arg s))
      else if arg = ''-n'' \<or> arg = ''--lines'' then Some (\<lambda>s opts. map_option (\<lambda>n. opts\<lparr>op_log_lines := n\<rparr>) (int_arg s))
      else if arg = ''--level'' then Some (\<lambda>s opts. Some (opts\<lparr>op_log_level := take 15 s\<rparr>))
      else None)"

definition unknown_option :: "string \<Rightarrow> cli \<Rightarrow> cli" where
  "unknown_option arg c = c\<lparr>cl_log := err_print (''Unknown option: '' @ arg @ newline) (cl_log c)\<rparr>"

text \<open>The loop over the arguments: an option that takes a value counts only if there is one.\<close>

fun parse_args :: "nat \<Rightarrow> string list \<Rightarrow> CLIOptions \<Rightarrow> cli \<Rightarrow> (int \<times> CLIOptions \<times> nat \<times> cli) option" where
  "parse_args i [] opts c = Some (0, opts, 1, c)"
| "parse_args i (arg # rest) opts c =
     (if arg = ''--'' then Some (0, opts, i + 1, c)
      else if take 1 arg \<noteq> ''-'' then Some (0, opts, i, c)
      else case flag_option arg of
        Some f \<Rightarrow> parse_args (i + 1) rest (f opts) (if arg = ''--no-color'' then c\<lparr>cl_color := False\<rparr> else c)
      | None \<Rightarrow>
          (case value_option arg of
             None \<Rightarrow> Some (CLI_ERR_ARGS, opts, 1, unknown_option arg c)
           | Some f \<Rightarrow>
               (case rest of
                  [] \<Rightarrow> Some (CLI_ERR_ARGS, opts, 1, unknown_option arg c)
                | s # others \<Rightarrow> do { opts \<leftarrow> f s opts; parse_args (i + 2) others opts c })))"

definition parse_options :: "string list \<Rightarrow> cli \<Rightarrow> (int \<times> CLIOptions \<times> nat \<times> cli) option" where
  "parse_options argv c = parse_args 1 (drop 1 argv) options_zero c"

section \<open>The program\<close>

definition cli_log_config :: "CLIOptions \<Rightarrow> CBLogConfig" where
  "cli_log_config opts = \<lparr>lc_min_level = (if op_verbose opts then CB_LOG_DEBUG else CB_LOG_INFO), lc_enable_console = op_verbose opts,
     lc_enable_file = True, lc_enable_color = \<not> op_no_color opts, lc_enable_timestamp = True,
     lc_enable_source_loc = op_verbose opts, lc_log_dir = into_buffer 512 ''/tmp/cudabridge_logs'',
     lc_max_file_size = 10 * 1024 * 1024, lc_max_rotated_files = 5\<rparr>"

definition log_info :: "cli_env \<Rightarrow> int \<Rightarrow> string \<Rightarrow> cli \<Rightarrow> cli option" where
  "log_info env line msg c =
     do { l \<leftarrow> cb_log_write (ce_log env) CB_LOG_INFO CB_LOG_CAT_CLI (ce_file env) line ''main'' msg (cl_log c);
          Some (c\<lparr>cl_log := l\<rparr>) }"

definition run_command :: "cli_env \<Rightarrow> string \<Rightarrow> string list \<Rightarrow> CLIOptions \<Rightarrow> cli \<Rightarrow> (int \<times> cli) option" where
  "run_command env name args opts c =
     (case find_command name of
        Some k \<Rightarrow> run_handler env (cc_handler k) args opts c
      | None \<Rightarrow> Some (CLI_ERR_ARGS, c\<lparr>cl_log := err_print (''Unknown command: '' @ name @ newline @
                  ''Run 'cudabridge-cli help' for usage information.'' @ newline) (cl_log c)\<rparr>))"

definition main_run :: "cli_env \<Rightarrow> string \<Rightarrow> string list \<Rightarrow> CLIOptions \<Rightarrow> cli \<Rightarrow> (int \<times> cli) option" where
  "main_run env name args opts c =
     do { (_, l) \<leftarrow> cb_log_init (ce_log env) (Some (cli_log_config opts)) (cl_log c);
          let c = c\<lparr>cl_log := l, cl_egpu := snd (egpu_safety_init (Some egpu_safety_default_policy) (cl_egpu c))\<rparr>;
          c \<leftarrow> log_info env 832 (''CLI started: '' @ name) c;
          (result, c) \<leftarrow> run_command env name args opts c;
          c \<leftarrow> log_info env 848 (''CLI finished with code '' @ dec_int result) c;
          e \<leftarrow> egpu_safety_shutdown (cl_egpu c);
          l \<leftarrow> cb_log_shutdown (cl_log c);
          Some (result, c\<lparr>cl_egpu := e, cl_log := l\<rparr>) }"

definition cli_main :: "cli_env \<Rightarrow> string list \<Rightarrow> cli \<Rightarrow> (int \<times> cli) option" where
  "cli_main env argv c =
     do { (parse_result, opts, cmd_start, c) \<leftarrow> parse_options argv c;
          if parse_result \<noteq> CLI_OK then Some (parse_result, snd (cmd_help env [] c))
          else if length argv < 2 \<or> cmd_start \<ge> length argv then Some (CLI_OK, snd (cmd_help env [] c))
          else main_run env (argv ! cmd_start) (drop (cmd_start + 1) argv) opts c }"

text \<open>A process that starts over the given files and directories.\<close>

definition cli_zero :: "(string \<rightharpoonup> string) \<Rightarrow> (string \<Rightarrow> bool) \<Rightarrow> cli" where
  "cli_zero files dirs = \<lparr>cl_color = True, cl_out = '''', cl_egpu = egpu_zero, cl_log = log_zero files dirs\<rparr>"

end
