(* ===== verification/Cli_Properties.thy ===== *)
theory Cli_Properties
  imports Cli Egpu_Properties Log_Properties
begin

text \<open>
  The command line tool: what each command leaves of the eGPU manager and the logging system (\<open>egpu_left\<close>,
  \<open>settles\<close>), the parser against the rendering of a set of options, and the properties. The witnesses run the tool over
  the simulated hardware.
\<close>

section \<open>What printing leaves alone\<close>

lemma say_sel [simp]:
  "cl_egpu (say env f a c) = cl_egpu c" "cl_log (say env f a c) = cl_log c" "cl_color (say env f a c) = cl_color c"
  by (simp_all add: say_def)

lemma lines_sel [simp]:
  "cl_egpu (lines_out env ls c) = cl_egpu c" "cl_log (lines_out env ls c) = cl_log c" "cl_color (lines_out env ls c) = cl_color c"
  by (induction env ls c rule: lines_out.induct) simp_all

lemma lines_out_cong: "cl_out c = cl_out c' \<Longrightarrow> cl_out (lines_out env ls c) = cl_out (lines_out env ls c')"
  by (induction ls arbitrary: c c') (auto simp: say_def)

lemma separator_sel [simp]:
  "cl_egpu (cli_print_separator env c) = cl_egpu c" "cl_log (cli_print_separator env c) = cl_log c"
  "cl_egpu (title env f a c) = cl_egpu c" "cl_log (title env f a c) = cl_log c"
  by (simp_all add: cli_print_separator_def title_def)

lemma blocks_sel [simp]:
  "cl_egpu (info_json env b i c) = cl_egpu c" "cl_log (info_json env b i c) = cl_log c"
  "cl_egpu (info_device env i c) = cl_egpu c" "cl_log (info_device env i c) = cl_log c"
  "cl_egpu (status_json env s e m c) = cl_egpu c" "cl_log (status_json env s e m c) = cl_log c"
  "cl_egpu (status_health env m c) = cl_egpu c" "cl_log (status_health env m c) = cl_log c"
  "cl_egpu (config_usage env c) = cl_egpu c" "cl_log (config_usage env c) = cl_log c"
  "cl_egpu (config_show env c) = cl_egpu c" "cl_log (config_show env c) = cl_log c"
  "cl_egpu (help_overview env c) = cl_egpu c" "cl_log (help_overview env c) = cl_log c"
  by (simp_all add: info_json_def info_device_def status_json_def status_health_def config_usage_def config_show_def
      help_overview_def cli_print_banner_def Let_def)

lemma help_sel [simp]:
  "cl_egpu (snd (cmd_help env args c)) = cl_egpu c" "cl_log (snd (cmd_help env args c)) = cl_log c" "fst (cmd_help env args c) = CLI_OK"
  "cl_egpu (snd (cmd_version env c)) = cl_egpu c" "cl_log (snd (cmd_version env c)) = cl_log c" "fst (cmd_version env c) = CLI_OK"
  by (auto simp: cmd_help_def cmd_version_def split: list.splits option.splits)

lemma unknown_sel [simp]: "cl_egpu (unknown_option a c) = cl_egpu c" "log_wf (cl_log (unknown_option a c)) = log_wf (cl_log c)"
  by (simp_all add: unknown_option_def log_wf_def)

lemma cli_codes: "CLI_OK = 0" "CLI_ERR_ARGS = 1" "CLI_ERR_DEVICE = 3" "CLI_ERR_CONNECT = 4" "CLI_ERR_DISCONNECT = 5"
  by (simp_all add: CLI_OK_def CLI_ERR_ARGS_def CLI_ERR_DEVICE_def CLI_ERR_CONNECT_def CLI_ERR_DISCONNECT_def)

section \<open>The eGPU manager of a process\<close>

lemma getters_initialized:
  assumes "eg_lock (cl_egpu c) = LockFree"
  shows "device_info c = Some (0, eg_device_info (cl_egpu c), c)" and "health_now c = Some (eg_health (cl_egpu c), c)"
proof -
  have "(cl_egpu c)\<lparr>eg_lock := LockFree\<rparr> = cl_egpu c" using assms by simp
  then show "device_info c = Some (0, eg_device_info (cl_egpu c), c)" "health_now c = Some (eg_health (cl_egpu c), c)"
    using assms by (simp_all add: device_info_def health_now_def egpu_get_device_info_def egpu_get_health_def lock_mutex_def unlock_mutex_def)
qed

lemma attempt_initialized: "connect_attempt hw s = Some (a, s') \<Longrightarrow> eg_initialized s' = eg_initialized s"
  by (auto simp: connect_attempt_def attempt_tunnel_def attempt_gpu_def fail_Some unlock_Some lock_mutex_def egpu_start_monitoring_def
      Let_def egpu_steps initialize_gpu_def split: if_splits prod.splits elim!: bind_eq_SomeE)

lemma connect_initialized: "egpu_connect hw s = Some (e, s') \<Longrightarrow> eg_initialized s' = eg_initialized s"
proof (induction hw s rule: egpu_connect.induct)
  case (1 hw s)
  from 1(2) obtain a u where a: "connect_attempt hw s = Some (a, u)"
    by (cases "connect_attempt hw s") (auto simp: egpu_connect.simps [of hw s])
  note t = attempt_initialized [OF a]
  show ?case
  proof (cases a)
    case (Finished e')
    with a 1(2) t show ?thesis by (auto simp: egpu_connect.simps [of hw s])
  next
    case Retry
    with a 1(2) have "egpu_connect hw u = Some (e, s')" by (simp add: egpu_connect.simps [of hw s])
    with 1(1) [OF a refl Retry] t show ?thesis by simp
  qed
qed

text \<open>What a command may leave behind: at most one monitoring thread, the one that shutdown stops.\<close>

definition egpu_left :: "egpu \<Rightarrow> bool" where
  "egpu_left e \<longleftrightarrow> egpu_inv e \<and> eg_initialized e \<and>
     (eg_threads e = [] \<or> eg_monitor_running e \<and> (\<exists>t. eg_monitor_thread e = Some t \<and> eg_threads e = [t]))"

lemma started_left [simp]: "egpu_left started"
  using ereach_inv [OF started_reach(1)] by (simp add: egpu_left_def)

lemma connect_left:
  "\<exists>err e. egpu_connect hw started = Some (err, e) \<and> egpu_left e"
proof -
  from connect_total [OF ereach_inv [OF started_reach(1)]] obtain err e where c: "egpu_connect hw started = Some (err, e)" "egpu_inv e" by blast
  from connect_threads [OF c(1)] have "eg_threads e = [] \<or> eg_monitor_running e \<and> (\<exists>t. eg_monitor_thread e = Some t \<and> eg_threads e = [t])"
    by (auto simp: same_threads_def egpu_start_monitoring_def split: if_splits)
  with c connect_initialized [OF c(1)] show ?thesis by (simp add: egpu_left_def)
qed

lemma safe_threads: "egpu_safe_disconnect s = Some (e, s') \<Longrightarrow> eg_threads s = [] \<Longrightarrow> eg_threads s' = []"
  by (auto simp: egpu_safe_disconnect_def egpu_stop_monitoring_def lock_mutex_def unlock_mutex_def egpu_steps Let_def
      split: if_splits option.splits)

lemma shutdown_left:
  assumes "egpu_left e"
  shows "\<exists>e'. egpu_safety_shutdown e = Some e' \<and> \<not> eg_initialized e' \<and> eg_threads e' = [] \<and> \<not> online (eg_state e')"
proof -
  have I: "egpu_inv e" and i: "eg_initialized e" and t: "eg_threads (egpu_stop_monitoring e) = []"
    using assms by (auto simp: egpu_left_def egpu_stop_monitoring_def egpu_inv_def threads_ok_def)
  from shutdown_egpu_total [OF I] obtain e' where e': "egpu_safety_shutdown e = Some e'" "egpu_inv e'" "\<not> eg_initialized e'" by blast
  have "eg_threads e' = []"
    using e'(1) i t by (auto simp: egpu_safety_shutdown_def Let_def dest!: safe_threads [OF _ t] split: if_splits elim!: bind_eq_SomeE)
  with e' show ?thesis by (auto simp: egpu_inv_def)
qed

section \<open>Commands\<close>

text \<open>No argument starts with a number outside \<open>int\<close>.\<close>

definition ints_ok :: "string list \<Rightarrow> bool" where
  "ints_ok args \<longleftrightarrow> (\<forall>a \<in> set args. int_arg a \<noteq> None)"

definition settles :: "cli \<Rightarrow> (int \<times> cli) option \<Rightarrow> bool" where
  "settles c x \<longleftrightarrow> (\<exists>r c'. x = Some (r, c') \<and> r \<in> {CLI_OK, CLI_ERR_ARGS} \<and> cl_egpu c' = cl_egpu c \<and> cl_log c' = cl_log c)"

lemma settles_if: "settles c x \<Longrightarrow> settles c y \<Longrightarrow> settles c (if b then x else y)"
  by simp

lemma settles_end [intro]:
  "settles c (Some (CLI_OK, lines_out env ls c))" "settles c (Some (CLI_ERR_ARGS, lines_out env ls c))"
  "settles c (config_done env m (lines_out env ls c))" "settles c (config_done env m c)" "settles c (config_misuse env m c)"
  "settles c (Some (CLI_OK, config_show env c))" "settles c (Some (CLI_OK, config_usage env c))"
  by (simp_all add: settles_def config_done_def config_misuse_def)

lemma config_total:
  assumes "ints_ok args"
  shows "settles c (cmd_config env args c)"
proof (cases args)
  case Nil
  then show ?thesis by (simp add: cmd_config_def settles_end)
next
  case (Cons sub as)
  have int: "\<exists>n. int_arg a = Some n" if "a \<in> set as" for a using assms Cons that by (auto simp: ints_ok_def)
  show ?thesis
  proof (cases as)
    case Nil
    show ?thesis unfolding cmd_config_def Cons Nil list.case by (intro settles_if settles_end)
  next
    case as1: (Cons x bs)
    then obtain n where n: "int_arg x = Some n" using int by auto
    show ?thesis
    proof (cases bs)
      case Nil
      show ?thesis unfolding cmd_config_def Cons as1 Nil list.case n bind.bind_lunit by (intro settles_if settles_end)
    next
      case (Cons y ds)
      then obtain m where m: "int_arg y = Some m" using int as1 by auto
      show ?thesis unfolding cmd_config_def \<open>args = sub # as\<close> as1 Cons list.case n m bind.bind_lunit by (intro settles_if settles_end)
    qed
  qed
qed

text \<open>Every command of a process that has just started returns.\<close>

lemma command_total:
  assumes e: "cl_egpu c = started" and w: "log_wf (cl_log c)" and i: "ints_ok args"
  shows "\<exists>r c'. run_command env name args opts c = Some (r, c') \<and> r \<in> {CLI_OK, CLI_ERR_ARGS, CLI_ERR_DEVICE, CLI_ERR_CONNECT} \<and>
    egpu_left (cl_egpu c') \<and> log_wf (cl_log c')"
proof (cases "find_command name")
  case None
  with e w show ?thesis by (simp add: run_command_def log_wf_def)
next
  case (Some k)
  have same: ?thesis if "run_command env name args opts c = Some (r, c')" "r \<in> {CLI_OK, CLI_ERR_ARGS, CLI_ERR_DEVICE, CLI_ERR_CONNECT}"
    "cl_egpu c' = cl_egpu c" "cl_log c' = cl_log c" for r c'
    using that e w by auto
  have tick: "egpu_left (tick started)"
    using started_left by (simp add: egpu_left_def egpu_inv_def threads_ok_def tick_def)
  have lk: "eg_lock (cl_egpu (title env f a d)) = LockFree" if "cl_egpu d = started" for f a d using that by simp
  note g = getters_initialized [OF lk [OF e]] getters_initialized [of c]
  show ?thesis
  proof (cases "cc_handler k")
    case Cmd_connect
    from connect_left [of "ce_hw env"] obtain err e' where x: "egpu_connect (ce_hw env) started = Some (err, e')" "egpu_left e'" by blast
    have "eg_lock e' = LockFree" using x(2) by (simp add: egpu_left_def egpu_inv_def)
    then have d: "device_info (d\<lparr>cl_egpu := e'\<rparr>) = Some (0, eg_device_info e', d\<lparr>cl_egpu := e'\<rparr>)" for d
      using getters_initialized(1) [of "d\<lparr>cl_egpu := e'\<rparr>"] by simp
    show ?thesis using Some Cmd_connect x e w
      by (simp add: run_command_def run_handler_def cmd_connect_def d Let_def)
  next
    case Cmd_config
    from config_total [OF i] obtain r c' where r: "cmd_config env args c = Some (r, c')" "r \<in> {CLI_OK, CLI_ERR_ARGS}"
      "cl_egpu c' = cl_egpu c" "cl_log c' = cl_log c" unfolding settles_def by blast
    show ?thesis by (rule same [of r c']) (use r Some Cmd_config in \<open>auto simp: run_command_def run_handler_def\<close>)
  next
    case Cmd_reset
    with Some e w tick show ?thesis by (simp add: run_command_def run_handler_def cmd_reset_def Let_def)
  next
    case Cmd_help
    obtain r c' where "cmd_help env args c = (r, c')" by fastforce
    with help_sel(1-3) [of env args c] show ?thesis by (intro same [of r c']) (simp_all add: run_command_def run_handler_def Some Cmd_help)
  next
    case Cmd_version
    obtain r c' where "cmd_version env c = (r, c')" by fastforce
    with help_sel(4-6) [of env c] show ?thesis by (intro same [of r c']) (simp_all add: run_command_def run_handler_def Some Cmd_version)
  qed (use Some e w g in \<open>simp_all add: run_command_def run_handler_def cmd_info_def cmd_status_def cmd_disconnect_def cmd_monitor_def
      cmd_diag_def cmd_log_def cmd_benchmark_def egpu_get_state_def Let_def split: prod.split\<close>)
qed

section \<open>Parsing\<close>

definition log_raw :: "log \<Rightarrow> bool" where
  "log_raw l \<longleftrightarrow> log_wf l \<and> lg_lock l = LockRaw \<and> \<not> lg_initialized l"

lemma raw_unknown [simp]: "log_raw (cl_log (unknown_option a c)) = log_raw (cl_log c)"
  by (simp add: log_raw_def unknown_option_def log_wf_def)

lemma raw_zero [simp]: "log_raw (log_zero files dirs)"
  by (simp add: log_raw_def zero_log_wf) (simp add: log_zero_def)

lemma value_defined: "case value_option arg of None \<Rightarrow> True | Some f \<Rightarrow> \<forall>s opts. int_arg s \<noteq> None \<longrightarrow> f s opts \<noteq> None"
  by (simp add: value_option_def)

lemma value_total:
  assumes "value_option arg = Some f" and "int_arg s \<noteq> None"
  shows "\<exists>opts'. f s opts = Some opts'"
proof -
  have "\<forall>s opts. int_arg s \<noteq> None \<longrightarrow> f s opts \<noteq> None" using value_defined [of arg] unfolding assms(1) option.case .
  with assms(2) show ?thesis by blast
qed

lemma parse_total:
  "ints_ok args \<Longrightarrow> \<exists>r opts' n c'. parse_args i args opts c = Some (r, opts', n, c') \<and> r \<in> {CLI_OK, CLI_ERR_ARGS} \<and>
     cl_egpu c' = cl_egpu c \<and> log_raw (cl_log c') = log_raw (cl_log c)"
proof (induction i args opts c rule: parse_args.induct)
  case (2 i arg rest opts c)
  have r: "ints_ok rest" using 2(3) by (simp add: ints_ok_def)
  show ?case
  proof (cases "arg = ''--'' \<or> take 1 arg \<noteq> ''-''")
    case True
    then show ?thesis by (auto simp: CLI_OK_def)
  next
    case False
    show ?thesis
    proof (cases "flag_option arg")
      case (Some f)
      let ?c = "if arg = ''--no-color'' then c\<lparr>cl_color := False\<rparr> else c"
      have "cl_egpu ?c = cl_egpu c" "cl_log ?c = cl_log c" by simp_all
      with 2(2) [of f] False r Some show ?thesis by (auto split del: if_split)
    next
      case None
      show ?thesis
      proof (cases "value_option arg")
        case None
        with False \<open>flag_option arg = None\<close> show ?thesis by auto
      next
        case (Some f)
        show ?thesis
        proof (cases rest)
          case Nil
          with False None Some show ?thesis by auto
        next
          case (Cons s others)
          have "int_arg s \<noteq> None" "ints_ok others" using 2(3) Cons by (auto simp: ints_ok_def)
          with value_total [OF Some, of s opts] obtain o' where o': "f s opts = Some o'" by blast
          from False None Some Cons o' 2(1) [of f s others o'] \<open>ints_ok others\<close> show ?thesis by auto
        qed
      qed
    qed
  qed
qed (simp add: CLI_OK_def)

text \<open>What stands behind the command does not change how the options before it are parsed.\<close>

lemma parse_prefix:
  "parse_args i (pre @ [name]) opts c = Some (0, opts', i + length pre, c') \<Longrightarrow> take 1 name \<noteq> ''-'' \<Longrightarrow> 1 \<le> i \<Longrightarrow>
   parse_args i (pre @ name # extra) opts c = Some (0, opts', i + length pre, c')"
proof (induction i pre opts c rule: parse_args.induct)
  case (1 i opts c)
  then show ?case by (auto split: if_splits)
next
  case (2 i arg rest opts c)
  show ?case
  proof (cases "arg = ''--'' \<or> take 1 arg \<noteq> ''-''")
    case True
    with 2(3) show ?thesis by (auto split: if_splits)
  next
    case False
    show ?thesis
    proof (cases "flag_option arg")
      case (Some f)
      with 2 False show ?thesis by (simp split del: if_split)
    next
      case None
      show ?thesis
      proof (cases "value_option arg")
        case None
        with False \<open>flag_option arg = None\<close> 2(3) show ?thesis by (simp add: CLI_ERR_ARGS_def)
      next
        case (Some f)
        show ?thesis
        proof (cases rest)
          case Nil
          with False None Some 2(3,5) show ?thesis by (auto elim!: bind_eq_SomeE)
        next
          case (Cons s others)
          with False None Some 2(3) obtain o' where "f s opts = Some o'" by (auto elim!: bind_eq_SomeE)
          with False None Some Cons 2(1) [of f s others o'] 2(3,4) show ?thesis by simp
        qed
      qed
    qed
  qed
qed

text \<open>Options written as arguments.\<close>

definition render_flags :: "CLIOptions \<Rightarrow> string list" where
  "render_flags os = (if op_verbose os then [''--verbose''] else []) @ (if op_json_output os then [''-j''] else []) @
     (if op_no_color os then [''--no-color''] else []) @ (if op_force os then [''--force''] else [])"

definition render :: "CLIOptions \<Rightarrow> string list" where
  "render os = render_flags os @ [''-d'', dec_int (op_device_index os), ''--interval'', dec_int (op_interval_ms os), ''-n'',
     dec_int (op_log_lines os), ''--level'', op_log_level os]"

lemma option_names [simp]:
  "flag_option ''--verbose'' = Some (op_verbose_update (\<lambda>_. True))" "flag_option ''-j'' = Some (op_json_output_update (\<lambda>_. True))"
  "flag_option ''--no-color'' = Some (op_no_color_update (\<lambda>_. True))" "flag_option ''--force'' = Some (op_force_update (\<lambda>_. True))"
  "flag_option ''-d'' = None" "flag_option ''--interval'' = None" "flag_option ''-n'' = None" "flag_option ''--level'' = None"
  "value_option ''-d'' = Some (\<lambda>s opts. map_option (\<lambda>n. opts\<lparr>op_device_index := n\<rparr>) (int_arg s))"
  "value_option ''--interval'' = Some (\<lambda>s opts. map_option (\<lambda>n. opts\<lparr>op_interval_ms := n\<rparr>) (int_arg s))"
  "value_option ''-n'' = Some (\<lambda>s opts. map_option (\<lambda>n. opts\<lparr>op_log_lines := n\<rparr>) (int_arg s))"
  "value_option ''--level'' = Some (\<lambda>s opts. Some (opts\<lparr>op_log_level := take 15 s\<rparr>))"
  by (simp_all add: flag_option_def value_option_def)

lemma int_arg_dec [simp]: "int_ok n \<Longrightarrow> int_arg (dec_int n) = Some n"
  by (simp add: int_arg_def atoi_dec_int)

definition options_ok :: "CLIOptions \<Rightarrow> bool" where
  "options_ok os \<longleftrightarrow> int_ok (op_device_index os) \<and> int_ok (op_interval_ms os) \<and> int_ok (op_log_lines os) \<and> length (op_log_level os) \<le> 15"

lemma parse_values:
  assumes "options_ok os" and "take 1 name \<noteq> ''-''"
  shows "parse_args i (''-d'' # dec_int (op_device_index os) # ''--interval'' # dec_int (op_interval_ms os) # ''-n'' #
      dec_int (op_log_lines os) # ''--level'' # op_log_level os # name # args) opts c =
    Some (0, opts\<lparr>op_device_index := op_device_index os, op_interval_ms := op_interval_ms os, op_log_lines := op_log_lines os,
      op_log_level := op_log_level os\<rparr>, i + 8, c)"
  using assms by (simp add: options_ok_def) (auto simp: take_Suc split: list.splits)

lemma parse_flags:
  "parse_args i (render_flags os @ rest) options_zero c =
   parse_args (i + length (render_flags os)) rest
     (options_zero\<lparr>op_verbose := op_verbose os, op_json_output := op_json_output os, op_no_color := op_no_color os, op_force := op_force os\<rparr>)
     (if op_no_color os then c\<lparr>cl_color := False\<rparr> else c)"
  by (cases "op_verbose os"; cases "op_json_output os"; cases "op_no_color os"; cases "op_force os")
     (simp_all add: render_flags_def options_zero_def)

lemma parse_render:
  assumes "options_ok os" and "take 1 name \<noteq> ''-''"
  shows "parse_options (prog # render os @ name # args) c =
    Some (0, os, length (render os) + 1, if op_no_color os then c\<lparr>cl_color := False\<rparr> else c)"
proof -
  let ?z = "options_zero\<lparr>op_verbose := op_verbose os, op_json_output := op_json_output os, op_no_color := op_no_color os,
     op_force := op_force os\<rparr>"
  have "?z\<lparr>op_device_index := op_device_index os, op_interval_ms := op_interval_ms os, op_log_lines := op_log_lines os,
      op_log_level := op_log_level os\<rparr> = os" by (simp add: options_zero_def)
  moreover have "parse_options (prog # render os @ name # args) c =
      parse_args (1 + length (render_flags os)) (''-d'' # dec_int (op_device_index os) # ''--interval'' # dec_int (op_interval_ms os) #
        ''-n'' # dec_int (op_log_lines os) # ''--level'' # op_log_level os # name # args) ?z
        (if op_no_color os then c\<lparr>cl_color := False\<rparr> else c)"
    by (simp only: parse_options_def render_def append_assoc parse_flags drop_Suc_Cons drop_0 One_nat_def append_Cons append_Nil)
  ultimately show ?thesis by (simp only: parse_values [OF assms]) (simp add: render_def)
qed

section \<open>The program\<close>

lemma cli_config_ok: "config_ok (cli_log_config opts)"
  by (simp add: config_ok_def cli_log_config_def into_buffer_def)

lemma info_total: "log_wf (cl_log c) \<Longrightarrow> \<exists>l. log_info env line m c = Some (c\<lparr>cl_log := l\<rparr>) \<and> log_wf l"
  using write_total [of "cl_log c" CB_LOG_INFO CB_LOG_CAT_CLI "ce_file env" line "''main''" m "ce_log env"] by (auto simp: log_info_def)

lemma log_shutdown_total: "log_wf l \<Longrightarrow> \<exists>l'. cb_log_shutdown l = Some l' \<and> log_wf l' \<and> \<not> lg_initialized l'"
  by (auto simp: cb_log_shutdown_def log_lock_def log_unlock_def log_wf_def Let_def)

lemma main_run_steps:
  assumes e: "cl_egpu c = egpu_zero" and l: "log_raw (cl_log c)" and i: "ints_ok args"
  shows "\<exists>c1 r c2 c3. run_command env name args opts c1 = Some (r, c2) \<and> cl_egpu c1 = started \<and> log_wf (cl_log c1) \<and>
    cl_out c1 = cl_out c \<and> cl_color c1 = cl_color c \<and> r \<in> {CLI_OK, CLI_ERR_ARGS, CLI_ERR_DEVICE, CLI_ERR_CONNECT} \<and> main_run env name args opts c = Some (r, c3) \<and>
    egpu_safety_shutdown (cl_egpu c2) = Some (cl_egpu c3) \<and> cl_out c3 = cl_out c2 \<and>
    \<not> eg_initialized (cl_egpu c3) \<and> eg_threads (cl_egpu c3) = [] \<and> \<not> online (eg_state (cl_egpu c3)) \<and> \<not> lg_initialized (cl_log c3)"
proof -
  from l cli_config_ok [of opts] obtain q l0 where 0: "cb_log_init (ce_log env) (Some (cli_log_config opts)) (cl_log c) = Some (q, l0)" "log_wf l0"
    using log_init_total [of "cl_log c" "Some (cli_log_config opts)" "ce_log env"] by (auto simp: log_raw_def)
  let ?c0 = "c\<lparr>cl_log := l0, cl_egpu := started\<rparr>"
  have s: "snd (egpu_safety_init (Some egpu_safety_default_policy) (cl_egpu c)) = started" by (simp add: e started_def)
  from info_total [of ?c0 env 832 "''CLI started: '' @ name"] 0(2) obtain l1 where
    1: "log_info env 832 (''CLI started: '' @ name) ?c0 = Some (?c0\<lparr>cl_log := l1\<rparr>)" "log_wf l1" by auto
  from command_total [of "?c0\<lparr>cl_log := l1\<rparr>" args env name opts] i 1(2) obtain r c2 where
    2: "run_command env name args opts (?c0\<lparr>cl_log := l1\<rparr>) = Some (r, c2)" "r \<in> {CLI_OK, CLI_ERR_ARGS, CLI_ERR_DEVICE, CLI_ERR_CONNECT}"
      "egpu_left (cl_egpu c2)" "log_wf (cl_log c2)" by auto
  from info_total [OF 2(4), of env 848 "''CLI finished with code '' @ dec_int r"] obtain l3 where
    3: "log_info env 848 (''CLI finished with code '' @ dec_int r) c2 = Some (c2\<lparr>cl_log := l3\<rparr>)" "log_wf l3" by blast
  from shutdown_left [OF 2(3)] obtain e4 where 4: "egpu_safety_shutdown (cl_egpu c2) = Some e4" "\<not> eg_initialized e4" "eg_threads e4 = []"
    "\<not> online (eg_state e4)" by blast
  from log_shutdown_total [OF 3(2)] obtain l5 where 5: "cb_log_shutdown l3 = Some l5" "\<not> lg_initialized l5" by blast
  let ?c3 = "c2\<lparr>cl_egpu := e4, cl_log := l5\<rparr>"
  have "main_run env name args opts c = Some (r, ?c3)"
    using 0(1) s 1(1) 2(1) 3(1) 4(1) 5(1) by (simp add: main_run_def)
  with 1(2) 2(1,2) 4 5(2) show ?thesis
    by (intro exI [of _ "?c0\<lparr>cl_log := l1\<rparr>"] exI [of _ r] exI [of _ c2] exI [of _ ?c3]) simp
qed

lemma ints_drop: "ints_ok args \<Longrightarrow> ints_ok (drop n args)"
  by (auto simp: ints_ok_def dest: in_set_dropD)

lemma fresh_parse:
  assumes "ints_ok argv"
  obtains r opts n c where "parse_options argv (cli_zero files dirs) = Some (r, opts, n, c)" and "r \<in> {CLI_OK, CLI_ERR_ARGS}"
    and "cl_egpu c = egpu_zero" and "log_raw (cl_log c)"
  using parse_total [OF ints_drop [OF assms, of 1], of 1 options_zero "cli_zero files dirs"]
  by (auto simp: parse_options_def cli_zero_def)

text \<open>What a command prints that finds no connection: three lines, and the page of \<open>status\<close>.\<close>

definition three_lines :: "cli_env \<Rightarrow> string \<Rightarrow> cli \<Rightarrow> string" where
  "three_lines env msg c = cl_out (lines_out env [('''', []), (msg, [AStr (C_DIM c), AStr (C_RESET c)]), ('''', [])] c)"

definition status_out :: "cli_env \<Rightarrow> string \<Rightarrow> cli \<Rightarrow> string" where
  "status_out env state c =
     cl_out (lines_out env [(''  %-24s %s%s%s'', [AStr ''State:'', AStr (C_DIM c), AStr state, AStr (C_RESET c)]), ('''', [])]
       (title env ''eGPU Connection Status'' [] c))"

lemma colour_cong: "cl_color c = cl_color c' \<Longrightarrow> colour s c = colour s c'"
  by (simp add: colour_def)

lemma three_lines_cong:
  assumes "cl_out c = cl_out c'" and "cl_color c = cl_color c'"
  shows "three_lines env msg c = three_lines env msg c'"
  unfolding three_lines_def C_DIM_def C_RESET_def colour_cong [OF assms(2)] by (rule lines_out_cong) (rule assms(1))

lemma title_color [simp]: "cl_color (title env f a c) = cl_color c" "cl_color (cli_print_separator env c) = cl_color c"
  by (simp_all add: title_def cli_print_separator_def)

lemma status_out_cong:
  assumes "cl_out c = cl_out c'" and "cl_color c = cl_color c'"
  shows "status_out env st c = status_out env st c'"
  unfolding status_out_def title_def cli_print_separator_def C_DIM_def C_RESET_def C_BOLD_def
    colour_cong [OF assms(2)] colour_cong [of "lines_out env ls c" c for ls, OF lines_sel(3)] colour_cong [of "lines_out env ls c'" c' for ls, OF lines_sel(3)]
  by (intro lines_out_cong assms(1))

lemma started_state [simp]: "egpu_get_state started = EGPU_STATE_DISCONNECTED" "egpu_get_last_error started = EGPU_ERR_NONE"
  by (simp_all add: started_def egpu_get_state_def egpu_get_last_error_def egpu_safety_init_def egpu_zero_def Let_def)

lemma refused_fresh:
  assumes "cl_egpu c = started"
  shows "cmd_monitor env opts c = Some (r, c') \<Longrightarrow>
      r = CLI_ERR_DEVICE \<and> cl_out c' = three_lines env ''  %sNo eGPU connected. Connect first: cudabridge-cli connect%s'' c"
    and "cmd_benchmark env c = Some (r, c') \<Longrightarrow>
      r = CLI_ERR_DEVICE \<and> cl_out c' = three_lines env ''  %sNo eGPU connected. Connect first: cudabridge-cli connect%s'' c"
    and "cmd_disconnect env opts c = Some (r, c') \<Longrightarrow> r = CLI_OK \<and> cl_out c' = three_lines env ''  %sNo eGPU connected%s'' c"
  by (auto simp only: cmd_monitor_def cmd_benchmark_def cmd_disconnect_def three_lines_def assms started_state Let_def
      EGPUConnectionState.distinct simp_thms if_True option.inject prod.inject)

lemma status_fresh:
  assumes "cl_egpu c = started" and "cmd_status env opts c = Some (r, c')" and "\<not> op_json_output opts"
  shows "r = CLI_OK \<and> cl_out c' = status_out env ''Disconnected'' c"
proof -
  have "eg_lock (cl_egpu c) = LockFree" using assms(1) by (simp add: started_def egpu_safety_init_def egpu_zero_def Let_def)
  from getters_initialized(2) [OF this] assms(2,3)
  have "r = CLI_OK \<and> c' = lines_out env [('''', [])] (lines_out env [(''  %-24s %s%s%s'', [AStr ''State:'',
      AStr (state_color EGPU_STATE_DISCONNECTED (title env ''eGPU Connection Status'' [] c)), AStr (state_to_string EGPU_STATE_DISCONNECTED),
      AStr (C_RESET (title env ''eGPU Connection Status'' [] c))])] (title env ''eGPU Connection Status'' [] c))"
    by (simp only: cmd_status_def assms(1) started_state Let_def) simp
  then show ?thesis
    by (simp add: status_out_def state_color_def state_to_string_def C_DIM_def C_RESET_def colour_def)
qed

text \<open>A process of the witnesses: the simulated hardware and files that always open.\<close>

definition demo_cli_env :: cli_env where
  "demo_cli_env = \<lparr>ce_log = demo_log_env, ce_hw = simulated, ce_fixed = (\<lambda>_ _. ''?''), ce_file = ''cudabridge_cli.c'',
     ce_build = (''Jan  1 2026'', ''00:00:00''), ce_rounds = 1, ce_between = (\<lambda>_. Some)\<rparr>"

lemma demo_ints: "ints_ok [''cli'', ''connect'']" "ints_ok [''cli'', ''monitor'']"
  by (simp_all add: ints_ok_def int_arg_def atoi_def is_space_def is_digit_def int_ok_def digits_value_def Let_def)

section \<open>Properties\<close>

text \<open>
  C27. Options written out as arguments before the command are parsed back: flags, numbers of any sign and a level that
  fits its buffer, whatever follows the command, and with the index of the command.
\<close>

theorem cli_options_roundtrip:
  assumes "options_ok os" and "take 1 name \<noteq> ''-''"
  shows "parse_options (prog # render os @ name # args) c =
    Some (CLI_OK, os, length (render os) + 1, c\<lparr>cl_color := cl_color c \<and> \<not> op_no_color os\<rparr>)"
  using parse_render [OF assms] by (simp add: CLI_OK_def)

theorem cli_options_roundtrip_witness:
  "parse_options (''cli'' # render (options_zero\<lparr>op_force := True, op_interval_ms := -500, op_log_level := ''ERROR''\<rparr>) @ [''log''])
     (cli_zero Map.empty (\<lambda>_. False)) =
   Some (CLI_OK, options_zero\<lparr>op_force := True, op_interval_ms := -500, op_log_level := ''ERROR''\<rparr>, 10, cli_zero Map.empty (\<lambda>_. False))"
  using cli_options_roundtrip [of "options_zero\<lparr>op_force := True, op_interval_ms := -500, op_log_level := ''ERROR''\<rparr>" "''log''" "''cli''" "[]"
      "cli_zero Map.empty (\<lambda>_. False)"]
  by (simp add: options_ok_def options_zero_def int_ok_def cli_zero_def render_def render_flags_def)

text \<open>
  C28. What stands behind the command is not parsed: for every command but \<open>config\<close> and \<open>help\<close>, a run with any further
  arguments, the documented \<open>disconnect --force\<close>, \<open>info --json\<close> and \<open>monitor -i 500\<close> among them, is the same run
  without them, with the same output, exit code and state.
\<close>

theorem cli_trailing_arguments_ignored:
  assumes "parse_options (prog # pre @ [name]) c = Some (CLI_OK, opts, length pre + 1, c')" and "take 1 name \<noteq> ''-''"
    and "find_command name = Some k" and "cc_handler k \<noteq> Cmd_config" and "cc_handler k \<noteq> Cmd_help"
  shows "cli_main env (prog # pre @ name # args) c = cli_main env (prog # pre @ [name]) c"
proof -
  have p: "parse_options (prog # pre @ name # args) c = Some (0, opts, length pre + 1, c')" for args
    using assms(1) parse_prefix [of 1 pre name options_zero c opts c' args] assms(2) by (simp add: parse_options_def CLI_OK_def)
  have r: "run_command env name args opts x = run_command env name [] opts x" for x
    using assms(3-5) by (cases "cc_handler k") (simp_all add: run_command_def run_handler_def)
  then have "main_run env name args opts c' = main_run env name [] opts c'" by (simp only: main_run_def)
  then show ?thesis using p [of args] p [of "[]"] by (simp add: cli_main_def CLI_OK_def)
qed

theorem cli_trailing_arguments_ignored_witness:
  "\<exists>c. find_command ''disconnect'' \<noteq> None \<and> cli_main demo_cli_env [''cli'', ''disconnect'', ''--force''] c = cli_main demo_cli_env [''cli'', ''disconnect''] c"
proof -
  let ?c = "cli_zero Map.empty (\<lambda>_. False)"
  obtain k where k: "find_command ''disconnect'' = Some k" "cc_handler k = Cmd_disconnect"
    by (simp add: find_command_def commands_def command_def)
  have "parse_options (''cli'' # [] @ [''disconnect'']) ?c = Some (CLI_OK, options_zero, length [] + 1, ?c)"
    by (simp add: parse_options_def CLI_OK_def)
  from cli_trailing_arguments_ignored [OF this _ k(1), of demo_cli_env "[''--force'']"] k have
    "cli_main demo_cli_env [''cli'', ''disconnect'', ''--force''] ?c = cli_main demo_cli_env [''cli'', ''disconnect''] ?c" by simp
  with k(1) show ?thesis by auto
qed

text \<open>
  C26. Every run of the tool returns, with code 0, 1, 3 or 4 for any hardware and any arguments whose numbers fit an \<open>int\<close>, and leaves
  no monitoring thread, no connection and no open logging system behind: a connection never outlives its process.
\<close>

theorem cli_runs_end:
  assumes "ints_ok argv"
  shows "\<exists>r c. cli_main env argv (cli_zero files dirs) = Some (r, c) \<and> r \<in> {CLI_OK, CLI_ERR_ARGS, CLI_ERR_DEVICE, CLI_ERR_CONNECT} \<and>
    \<not> eg_initialized (cl_egpu c) \<and> eg_threads (cl_egpu c) = [] \<and> \<not> online (eg_state (cl_egpu c)) \<and> \<not> lg_initialized (cl_log c)"
proof -
  from assms obtain r opts n c where p: "parse_options argv (cli_zero files dirs) = Some (r, opts, n, c)" "r \<in> {CLI_OK, CLI_ERR_ARGS}"
    "cl_egpu c = egpu_zero" "log_raw (cl_log c)" by (rule fresh_parse)
  show ?thesis
  proof (cases "r \<noteq> CLI_OK \<or> length argv < 2 \<or> n \<ge> length argv")
    case True
    have "\<exists>q. cli_main env argv (cli_zero files dirs) = Some (q, snd (cmd_help env [] c)) \<and> q \<in> {CLI_OK, CLI_ERR_ARGS}"
      using True p(1,2) by (auto simp: cli_main_def)
    with p(3,4) show ?thesis by (auto simp: log_raw_def egpu_zero_def online_def)
  next
    case False
    then have "cli_main env argv (cli_zero files dirs) = main_run env (argv ! n) (drop (n + 1) argv) opts c"
      using p(1) by (simp add: cli_main_def)
    with main_run_steps [OF p(3,4) ints_drop [OF assms], of env "argv ! n" "n + 1" opts] show ?thesis by auto
  qed
qed

theorem cli_runs_end_witness:
  "\<exists>r c. cli_main demo_cli_env [''cli'', ''connect''] (cli_zero Map.empty (\<lambda>_. False)) = Some (r, c) \<and> \<not> online (eg_state (cl_egpu c))"
  using cli_runs_end [OF demo_ints(1), of demo_cli_env Map.empty "\<lambda>_. False"] by blast

text \<open>
  C25. No command ever meets a connection, whatever was connected by runs before it: the state on entry to the command
  is \<open>DISCONNECTED\<close>, so \<open>monitor\<close> and \<open>benchmark\<close> print that there is no eGPU and end with \<open>CLI_ERR_DEVICE\<close>,
  \<open>disconnect\<close> prints that there is no eGPU and returns \<open>CLI_OK\<close>, and \<open>status\<close> prints \<open>Disconnected\<close>. The texts are
  the whole output of the run.
\<close>

theorem cli_never_connected:
  assumes "ints_ok argv" and "parse_options argv (cli_zero files dirs) = Some (CLI_OK, opts, n, c0)"
    and "1 < length argv" and "n < length argv" and "find_command (argv ! n) = Some k"
  shows "\<exists>r c c1 c2. cli_main env argv (cli_zero files dirs) = Some (r, c) \<and>
    run_command env (argv ! n) (drop (n + 1) argv) opts c1 = Some (r, c2) \<and> egpu_get_state (cl_egpu c1) = EGPU_STATE_DISCONNECTED \<and>
    cl_out c1 = cl_out c0 \<and> cl_out c = cl_out c2 \<and>
    (cc_handler k \<in> {Cmd_monitor, Cmd_benchmark} \<longrightarrow>
       r = CLI_ERR_DEVICE \<and> cl_out c = three_lines env ''  %sNo eGPU connected. Connect first: cudabridge-cli connect%s'' c0) \<and>
    (cc_handler k = Cmd_disconnect \<longrightarrow> r = CLI_OK \<and> cl_out c = three_lines env ''  %sNo eGPU connected%s'' c0) \<and>
    (cc_handler k = Cmd_status \<and> \<not> op_json_output opts \<longrightarrow> r = CLI_OK \<and> cl_out c = status_out env ''Disconnected'' c0)"
proof -
  from fresh_parse [OF assms(1), of files dirs] assms(2) have c0: "cl_egpu c0 = egpu_zero" "log_raw (cl_log c0)" by auto
  have m: "cli_main env argv (cli_zero files dirs) = main_run env (argv ! n) (drop (n + 1) argv) opts c0"
    using assms(2-4) by (simp add: cli_main_def)
  from main_run_steps [OF c0 ints_drop [OF assms(1)], of env "argv ! n" "n + 1" opts] obtain c1 r c2 c3 where
    s: "run_command env (argv ! n) (drop (n + 1) argv) opts c1 = Some (r, c2)" "cl_egpu c1 = started"
      "main_run env (argv ! n) (drop (n + 1) argv) opts c0 = Some (r, c3)" "cl_out c3 = cl_out c2"
      "cl_out c1 = cl_out c0" "cl_color c1 = cl_color c0" by blast
  have h: "run_handler env (cc_handler k) (drop (n + 1) argv) opts c1 = Some (r, c2)" using s(1) assms(5) by (simp add: run_command_def)
  have "r = CLI_OK \<and> cl_out c2 = status_out env ''Disconnected'' c0" if "cc_handler k = Cmd_status" "\<not> op_json_output opts"
    using status_fresh [OF s(2) _ that(2), of env r c2] h that(1) by (simp only: run_handler_def CLICommandHandler.case status_out_cong [OF s(5,6)])
  moreover have "r = CLI_ERR_DEVICE \<and> cl_out c2 = three_lines env ''  %sNo eGPU connected. Connect first: cudabridge-cli connect%s'' c0"
    if "cc_handler k \<in> {Cmd_monitor, Cmd_benchmark}"
    using refused_fresh(1) [OF s(2), of env opts r c2] refused_fresh(2) [OF s(2), of env r c2] h that
    by (auto simp only: run_handler_def CLICommandHandler.case three_lines_cong [OF s(5,6)] insert_iff empty_iff)
  moreover have "r = CLI_OK \<and> cl_out c2 = three_lines env ''  %sNo eGPU connected%s'' c0" if "cc_handler k = Cmd_disconnect"
    using refused_fresh(3) [OF s(2), of env opts r c2] h that by (simp only: run_handler_def CLICommandHandler.case three_lines_cong [OF s(5,6)])
  ultimately show ?thesis using m s(1,2,3,4,5) started_state(1)
    by - (rule exI [of _ r], rule exI [of _ c3], rule exI [of _ c1], rule exI [of _ c2], simp only: simp_thms, blast)
qed

theorem cli_never_connected_witness:
  "\<exists>c. cli_main demo_cli_env [''cli'', ''monitor''] (cli_zero Map.empty (\<lambda>_. False)) = Some (CLI_ERR_DEVICE, c)"
proof -
  let ?c = "cli_zero Map.empty (\<lambda>_. False)"
  obtain k where k: "find_command ([''cli'', ''monitor''] ! 1) = Some k" "cc_handler k = Cmd_monitor"
    by (simp add: find_command_def commands_def command_def)
  have "parse_options [''cli'', ''monitor''] ?c = Some (CLI_OK, options_zero, 1, ?c)"
    by (simp add: parse_options_def CLI_OK_def)
  from cli_never_connected [OF demo_ints(2) this _ _ k(1), of demo_cli_env] k(2) show ?thesis by auto
qed

end
