(* ===== verification/Memory_Output.thy ===== *)
theory Memory_Output
  imports Memory_Properties Printf
begin

text \<open>
  The two functions of \<open>src/cuda/memory/memory_manager.c\<close> that print: the state of a pool with its first ten free
  blocks, and the statistics. A double is the rational number it stands for, and how it is printed is a parameter.
\<close>

abbreviation (input) megabytes :: "u64 \<Rightarrow> rat printf_arg" where
  "megabytes n \<equiv> AFloat (of_nat (unat n) / (1024 * 1024))"

text \<open>The loop over the free list, which stops after ten blocks: the text, and the block it stopped at.\<close>

definition block_line :: "(nat \<Rightarrow> rat \<Rightarrow> string) \<Rightarrow> nat \<Rightarrow> CBMemoryBlock \<Rightarrow> string" where
  "block_line fl count b =
     printf fl (''  [%d] 0x%lX - 0x%lX (%.2f MB)'' @ newline)
       [ANat count, ANat (unat (mb_gpu_addr b)), ANat (unat (mb_gpu_addr b + mb_size b)), megabytes (mb_size b)]"

fun dump_blocks ::
    "(nat \<Rightarrow> rat \<Rightarrow> string) \<Rightarrow> CBMemoryBlock heap \<Rightarrow> nat \<Rightarrow> nat \<Rightarrow> ptr option \<Rightarrow> (string \<times> ptr option) option" where
  "dump_blocks fl h count left None = Some ([], None)"
| "dump_blocks fl h count 0 (Some p) = Some ([], Some p)"
| "dump_blocks fl h count (Suc left) (Some p) =
     do { b \<leftarrow> heap_get h p;
          (s, rest) \<leftarrow> dump_blocks fl h (Suc count) left (mb_next b);
          Some (block_line fl count b @ s, rest) }"

definition cb_memory_pool_dump ::
    "(nat \<Rightarrow> rat \<Rightarrow> string) \<Rightarrow> CBMemoryBlock heap \<Rightarrow> CBMemoryPool \<Rightarrow> string \<Rightarrow> string option" where
  "cb_memory_pool_dump fl h pool name =
     do { (s, rest) \<leftarrow> dump_blocks fl h 0 10 (pl_free_list pool);
          Some (printf fl (newline @ ''=== Memory Pool: %s ==='' @ newline) [AStr name] @
            printf fl (''Base: 0x%lX, Total: %.2f MB, Used: %.2f MB (%.1f%%)'' @ newline)
              [ANat (unat (pl_base_addr pool)), megabytes (pl_total_size pool), megabytes (pl_used_size pool),
               AFloat (if pl_total_size pool > 0
                       then 100 * of_nat (unat (pl_used_size pool)) / of_nat (unat (pl_total_size pool)) else 0)] @
            printf fl (''Block count: %d'' @ newline) [AInt (pl_block_count pool)] @
            newline @ ''Free blocks:'' @ newline @ s @
            (if rest \<noteq> None then ''  ... (more blocks)'' @ newline else [])) }"

definition cb_memory_manager_stats :: "(nat \<Rightarrow> rat \<Rightarrow> string) \<Rightarrow> CBMemoryManager \<Rightarrow> string" where
  "cb_memory_manager_stats fl mgr =
     newline @ ''=== Memory Manager Statistics ==='' @ newline @
     printf fl (''Device: %d'' @ newline) [AInt (mm_device_id mgr)] @
     printf fl (''Total allocated: %.2f MB'' @ newline) [megabytes (mm_total_allocated mgr)] @
     printf fl (''Peak allocated: %.2f MB'' @ newline) [megabytes (mm_peak_allocated mgr)] @
     printf fl (''Allocation count: %lu'' @ newline) [ANat (unat (mm_alloc_count mgr))] @
     printf fl (''Free count: %lu'' @ newline) [ANat (unat (mm_free_count mgr))] @
     printf fl (''Unified memory: %s'' @ newline) [AStr (if mm_unified_memory_enabled mgr then ''enabled'' else ''disabled'')]"

lemma dump_empty: "cb_memory_pool_dump (\<lambda>_ _. ''0.0'') (heap_empty oom) pool_zero ''p'' =
   Some (newline @ ''=== Memory Pool: p ==='' @ newline @ ''Base: 0x0, Total: 0.0 MB, Used: 0.0 MB (0.0%)'' @ newline @
     ''Block count: 0'' @ newline @ newline @ ''Free blocks:'' @ newline)"
  by (simp add: cb_memory_pool_dump_def pool_zero_def) code_simp

section \<open>What is printed of a pool\<close>

text \<open>On a well-formed list the loop prints its first blocks in order, numbered from where it starts.\<close>

lemma dump_blocks_dll:
  "dll (hp_mem h) pr p xs None \<Longrightarrow>
   dump_blocks fl h count n p =
     Some (concat (map (\<lambda>(i, x). block_line fl i (the (hp_mem h x))) (zip [count..<count + length xs] (take n xs))),
       if n < length xs then Some (xs ! n) else None)"
proof (induction xs arbitrary: pr p count n)
  case Nil
  then show ?case by (cases n) simp_all
next
  case (Cons x xs)
  then obtain b where b: "p = Some x" "hp_mem h x = Some b" "dll (hp_mem h) (Some x) (mb_next b) xs None" by auto
  show ?case
  proof (cases n)
    case 0
    with b show ?thesis by simp
  next
    case (Suc m)
    from Cons.IH [OF b(3), of "Suc count" m] b Suc show ?thesis
      by (simp add: heap_get_def upt_conv_Cons del: upt_Suc)
  qed
qed

text \<open>A dump of any pool of a reachable manager is defined.\<close>

lemma dump_reachable:
  assumes "mgr_reach n mgr h" and "pool \<in> {mm_device_pool mgr, mm_pinned_pool mgr, mm_managed_pool mgr}"
  shows "cb_memory_pool_dump fl (h_blocks h) pool name \<noteq> None"
proof -
  obtain L where "mgr_inv mgr h L" using reach_inv [OF assms(1)] by blast
  with assms(2) obtain fs us where "pool_inv pool (hp_mem (h_blocks h)) fs us" unfolding mgr_inv_def by blast
  then have "dll (hp_mem (h_blocks h)) None (pl_free_list pool) fs None" by (simp add: pool_inv_def pool_lists_def)
  from dump_blocks_dll [OF this, of fl 0 10] show ?thesis by (simp add: cb_memory_pool_dump_def)
qed

end
