(* ===== verification/Examples.thy ===== *)
theory Examples
  imports "HOL-Library.Signed_Division" Printf Python_Api
begin

text \<open>
  The example programs of \<open>src/userspace/examples\<close>, clients of the library of \<^theory_text>\<open>Userspace\<close>: the vector addition
  (\<open>vector_add.c\<close>), the bandwidth test (\<open>bandwidth_test.c\<close>) and the device information (\<open>device_info.c\<close>).

  A program is the library, standard output, and the number of times the clock was read. The record \<open>example_env\<close> is
  what lies outside: the environment of the runtime, the clock, the floating-point operations over the codes of
  \<^theory_text>\<open>Python_Api\<close>, the conversions of exact numbers to \<open>float\<close> and \<open>double\<close>, and how
  \<open>printf\<close> prints a \<open>double\<close>. The contents of host buffers are lists of bytes next to their addresses. \<^const>\<open>None\<close> is undefined behaviour,
  here above all the use of a variable that was never set.
\<close>

section \<open>Programs\<close>

record example_env =
  xe_cuda :: cuda_env
  xe_clock :: "nat \<Rightarrow> u64 \<times> u64"
  xe_fp :: fp_ops
  xe_float :: "rat \<Rightarrow> nat"
  xe_double :: "rat \<Rightarrow> nat"
  xe_text :: "nat \<Rightarrow> nat \<Rightarrow> string"

record example =
  xp_lib :: library
  xp_out :: string
  xp_clock :: nat

definition emit :: "example_env \<Rightarrow> string \<Rightarrow> nat printf_arg list \<Rightarrow> example \<Rightarrow> example" where
  "emit env fmt args p = p\<lparr>xp_out := xp_out p @ printf (xe_text env) fmt args\<rparr>"

definition call :: "(library \<Rightarrow> (cbError \<times> library) option) \<Rightarrow> example \<Rightarrow> (cbError \<times> example) option" where
  "call f p = map_option (\<lambda>(err, l). (err, p\<lparr>xp_lib := l\<rparr>)) (f (xp_lib p))"

definition call_out ::
    "(library \<Rightarrow> (cbError \<times> 'a option \<times> library) option) \<Rightarrow> example \<Rightarrow> (cbError \<times> 'a option \<times> example) option" where
  "call_out f p = map_option (\<lambda>(err, out, l). (err, out, p\<lparr>xp_lib := l\<rparr>)) (f (xp_lib p))"

text \<open>Recording an event reads the clock.\<close>

definition record_event :: "example_env \<Rightarrow> ptr \<Rightarrow> example \<Rightarrow> example option" where
  "record_event env ev p =
     (let (tv_sec, tv_nsec) = xe_clock env (xp_clock p)
      in map_option snd (call (cbEventRecord (Some ev) None tv_sec tv_nsec) (p\<lparr>xp_clock := Suc (xp_clock p)\<rparr>)))"

text \<open>\<open>(float)diff / 1000000.0f\<close> of the nanoseconds between two events.\<close>

definition elapsed_time :: "example_env \<Rightarrow> ptr \<Rightarrow> ptr \<Rightarrow> example \<Rightarrow> (nat \<times> example) option" where
  "elapsed_time env start stop p =
     do { (_, diff, p) \<leftarrow> call_out (cbEventElapsedTime True (Some start) (Some stop)) p;
          diff \<leftarrow> diff;
          Some (fp32 (xe_fp env) CBPY_OP_DIV (xe_float env (of_nat (unat diff))) (xe_float env 1000000), p) }"

definition event_create :: "example \<Rightarrow> (ptr \<times> example) option" where
  "event_create p = do { (_, ev, p) \<leftarrow> call_out (cbEventCreate True) p; ev \<leftarrow> ev; Some (ev, p) }"

text \<open>A host buffer after a copy into it.\<close>

definition received :: "u8 list \<Rightarrow> u8 list option \<Rightarrow> u8 list" where
  "received old out = (case out of None \<Rightarrow> old | Some bs \<Rightarrow> bs @ drop (length bs) old)"

definition host_buf :: "u64 \<Rightarrow> u8 list \<Rightarrow> host_ptr" where
  "host_buf a bytes = \<lparr>hp_addr = a, hp_bytes = bytes, hp_room = length bytes\<rparr>"

definition copy_in :: "u64 \<Rightarrow> u64 \<Rightarrow> u8 list \<Rightarrow> u64 \<Rightarrow> example \<Rightarrow> (cbError \<times> example) option" where
  "copy_in d h bytes n p =
     do { (err, _, p) \<leftarrow> call_out (cbMemcpy (device_ptr d) (host_buf h bytes) n CB_MEMCPY_HOST_TO_DEVICE) p; Some (err, p) }"

definition copy_back :: "u64 \<Rightarrow> u8 list \<Rightarrow> u64 \<Rightarrow> u64 \<Rightarrow> example \<Rightarrow> (cbError \<times> u8 list \<times> example) option" where
  "copy_back h bytes d n p =
     do { (err, out, p) \<leftarrow> call_out (cbMemcpy (host_buf h bytes) (device_ptr d) n CB_MEMCPY_DEVICE_TO_HOST) p;
          Some (err, received bytes out, p) }"

text \<open>\<open>bytes / (ms / 1000.0) / (1024 * 1024 * 1024)\<close> in \<open>double\<close>.\<close>

definition gigabytes_per_second :: "example_env \<Rightarrow> nat \<Rightarrow> nat \<Rightarrow> nat" where
  "gigabytes_per_second env bytes ms =
     fp64 (xe_fp env) CBPY_OP_DIV
       (fp64 (xe_fp env) CBPY_OP_DIV bytes
          (fp64 (xe_fp env) CBPY_OP_DIV (fp_widen (xe_fp env) ms) (xe_double env 1000)))
       (xe_double env (1024 * 1024 * 1024))"

definition gigabytes :: "example_env \<Rightarrow> u64 \<Rightarrow> nat" where
  "gigabytes env n = fp64 (xe_fp env) CBPY_OP_DIV (xe_double env (of_nat (unat n))) (xe_double env (1024 * 1024 * 1024))"

section \<open>Vector addition\<close>

definition VECTOR_N :: nat where "VECTOR_N = 1024 * 1024"

definition VECTOR_BYTES :: u64 where "VECTOR_BYTES = 1024 * 1024 * 4"

definition float_bytes :: "nat list \<Rightarrow> u8 list" where
  "float_bytes xs = concat (map (code_bytes 4) xs)"

definition input_a :: "example_env \<Rightarrow> u8 list" where
  "input_a env = float_bytes (map (\<lambda>i. xe_float env (of_nat i)) [0..<VECTOR_N])"

definition input_b :: "example_env \<Rightarrow> u8 list" where
  "input_b env = float_bytes (map (\<lambda>i. xe_float env (of_nat (VECTOR_N - i))) [0..<VECTOR_N])"

definition vector_add_cpu :: "fp_ops \<Rightarrow> u8 list \<Rightarrow> u8 list \<Rightarrow> nat \<Rightarrow> u8 list option" where
  "vector_add_cpu fp a b n =
     map_option float_bytes
       (each n (\<lambda>i. do { x \<leftarrow> elem_at 4 a i; y \<leftarrow> elem_at 4 b i; Some (fp32 fp CBPY_OP_ADD x y) }))"

text \<open>\<open>fabs\<close> of a \<open>double\<close> clears the sign bit.\<close>

definition fabs :: "nat \<Rightarrow> nat" where
  "fabs x = x mod 2 ^ 63"

fun verify_from ::
    "example_env \<Rightarrow> u8 list \<Rightarrow> u8 list \<Rightarrow> u8 list \<Rightarrow> nat \<Rightarrow> nat \<Rightarrow> example \<Rightarrow> (int \<times> example) option" where
  "verify_from env a b c i 0 p = Some (1, p)"
| "verify_from env a b c i (Suc k) p =
     do { x \<leftarrow> elem_at 4 a i; y \<leftarrow> elem_at 4 b i; z \<leftarrow> elem_at 4 c i;
          let expected = fp32 (xe_fp env) CBPY_OP_ADD x y;
          if fp64_less (xe_fp env) (xe_double env (1 / 100000)) (fabs (fp_widen (xe_fp env) (fp32 (xe_fp env) CBPY_OP_SUB z expected)))
          then Some (0, emit env (''Mismatch at index %d: expected %f, got %f'' @ newline)
                  [ANat i, AFloat (fp_widen (xe_fp env) expected), AFloat (fp_widen (xe_fp env) z)] p)
          else verify_from env a b c (Suc i) k p }"

definition verify_result :: "example_env \<Rightarrow> u8 list \<Rightarrow> u8 list \<Rightarrow> u8 list \<Rightarrow> nat \<Rightarrow> example \<Rightarrow> (int \<times> example) option" where
  "verify_result env a b c n p = verify_from env a b c 0 n p"

text \<open>
  The variables of \<open>main\<close>: the three host buffers, the three device buffers and the two events. A jump to \<open>cleanup\<close>
  before the events are created skips their declarations, so that \<open>cleanup\<close> uses variables that were never set: undefined.
\<close>

record vector_vars =
  va_ha :: u64
  va_hb :: u64
  va_hc :: u64
  va_da :: u64
  va_db :: u64
  va_dc :: u64
  va_start :: ptr
  va_stop :: ptr

definition or_undefined :: "(cbError \<times> 'a option \<times> example) option \<Rightarrow> ('a \<times> example) option" where
  "or_undefined r =
     do { (err, out, p) \<leftarrow> r;
          if err \<noteq> cbSuccess then None else do { out \<leftarrow> out; Some (out, p) } }"

definition va_report :: "example_env \<Rightarrow> example \<Rightarrow> example option" where
  "va_report env p =
     do { (_, device_count, p) \<leftarrow> call_out (cbGetDeviceCount (xe_cuda env) True) p;
          device_count \<leftarrow> device_count;
          let p = emit env (''Found %d GPU(s)'' @ newline) [AInt device_count] p;
          p \<leftarrow> (if device_count > 0 then
                 do { (_, prop, p) \<leftarrow> call_out (cbGetDeviceProperties (xe_cuda env) True 0) p;
                      prop \<leftarrow> prop;
                      Some (emit env (''Using: %s'' @ newline) [AStr (pr_name prop)] p) }
               else Some p);
          Some (emit env (newline @ ''Vector size: %d elements (%.2f MB)'' @ newline)
            [ANat VECTOR_N, AFloat (fp_widen (xe_fp env) (fp32 (xe_fp env) CBPY_OP_DIV
               (xe_float env (of_nat (unat VECTOR_BYTES))) (xe_float env (1024 * 1024))))] p) }"

definition va_setup :: "example_env \<Rightarrow> example \<Rightarrow> (vector_vars \<times> example) option" where
  "va_setup env p =
     do { (ha, p) \<leftarrow> or_undefined (call_out (cbMallocHost True VECTOR_BYTES) p);
          (hb, p) \<leftarrow> or_undefined (call_out (cbMallocHost True VECTOR_BYTES) p);
          (hc, p) \<leftarrow> or_undefined (call_out (cbMallocHost True VECTOR_BYTES) p);
          let p = emit env (newline @ ''Initializing input data...'' @ newline) [] p;
          (da, p) \<leftarrow> or_undefined (call_out (cbMalloc True VECTOR_BYTES) p);
          (db, p) \<leftarrow> or_undefined (call_out (cbMalloc True VECTOR_BYTES) p);
          (dc, p) \<leftarrow> or_undefined (call_out (cbMalloc True VECTOR_BYTES) p);
          (start, p) \<leftarrow> event_create p;
          (stop, p) \<leftarrow> event_create p;
          Some (\<lparr>va_ha = ha, va_hb = hb, va_hc = hc, va_da = da, va_db = db, va_dc = dc, va_start = start, va_stop = stop\<rparr>, p) }"

text \<open>\<open>cbEventRecord(stop, NULL); cbEventSynchronize(stop); cbEventElapsedTime(&t, start, stop);\<close>\<close>

definition va_lap :: "example_env \<Rightarrow> vector_vars \<Rightarrow> example \<Rightarrow> (nat \<times> example) option" where
  "va_lap env v p = do { p \<leftarrow> record_event env (va_stop v) p; elapsed_time env (va_start v) (va_stop v) p }"

text \<open>The transfer to the device: the time it took, or \<^const>\<open>None\<close> for a jump to \<open>cleanup\<close>.\<close>

definition va_upload :: "example_env \<Rightarrow> vector_vars \<Rightarrow> example \<Rightarrow> (nat option \<times> example) option" where
  "va_upload env v p =
     do { p \<leftarrow> record_event env (va_start v) (emit env (''Copying data to device...'' @ newline) [] p);
          (err, p) \<leftarrow> copy_in (va_da v) (va_ha v) (input_a env) VECTOR_BYTES p;
          if err \<noteq> cbSuccess then Some (None, emit env (''Failed to copy d_a: %s'' @ newline) [AStr (cbGetErrorString err)] p)
          else do {
            (err, p) \<leftarrow> copy_in (va_db v) (va_hb v) (input_b env) VECTOR_BYTES p;
            if err \<noteq> cbSuccess then Some (None, emit env (''Failed to copy d_b: %s'' @ newline) [AStr (cbGetErrorString err)] p)
            else do {
              (h2d_time, p) \<leftarrow> va_lap env v p;
              Some (Some h2d_time, emit env (''  H2D transfer time: %.2f ms (%.2f GB/s)'' @ newline)
                [AFloat (fp_widen (xe_fp env) h2d_time),
                 AFloat (gigabytes_per_second env (xe_double env (2 * of_nat (unat VECTOR_BYTES))) h2d_time)] p) } } }"

text \<open>The stand-in for the kernel: back to the host, added there, and to the device again. The three buffers and the time.\<close>

definition va_kernel ::
    "example_env \<Rightarrow> vector_vars \<Rightarrow> example \<Rightarrow> (u8 list \<times> u8 list \<times> u8 list \<times> nat \<times> example) option" where
  "va_kernel env v p =
     do { p \<leftarrow> record_event env (va_start v) (emit env (''Executing vector addition...'' @ newline) [] p);
          (_, a, p) \<leftarrow> copy_back (va_ha v) (input_a env) (va_da v) VECTOR_BYTES p;
          (_, b, p) \<leftarrow> copy_back (va_hb v) (input_b env) (va_db v) VECTOR_BYTES p;
          c \<leftarrow> vector_add_cpu (xe_fp env) a b VECTOR_N;
          (_, p) \<leftarrow> copy_in (va_dc v) (va_hc v) c VECTOR_BYTES p;
          (kernel_time, p) \<leftarrow> va_lap env v p;
          Some (a, b, c, kernel_time, emit env (''  Kernel time: %.2f ms'' @ newline) [AFloat (fp_widen (xe_fp env) kernel_time)] p) }"

text \<open>The result comes back and is compared with a new addition of the original input.\<close>

definition va_check :: "example_env \<Rightarrow> u8 list \<Rightarrow> example \<Rightarrow> example option" where
  "va_check env c p =
     do { (ok, p) \<leftarrow> verify_result env (input_a env) (input_b env) c VECTOR_N (emit env (newline @ ''Verifying result...'' @
         newline) [] p);
          Some (emit env (if ok \<noteq> 0 then (''Result: PASSED'' @ newline) else (''Result: FAILED'' @ newline)) [] p) }"

definition va_samples :: "example_env \<Rightarrow> u8 list \<Rightarrow> nat \<Rightarrow> example \<Rightarrow> example option" where
  "va_samples env c total_time p =
     (let elem = (\<lambda>bs i. map_option (\<lambda>x. AFloat (fp_widen (xe_fp env) x)) (elem_at 4 bs i)) in
      do { a0 \<leftarrow> elem (input_a env) 0; b0 \<leftarrow> elem (input_b env) 0; c0 \<leftarrow> elem c 0;
           a1 \<leftarrow> elem (input_a env) (VECTOR_N div 2); b1 \<leftarrow> elem (input_b env) (VECTOR_N div 2); c1 \<leftarrow> elem c (VECTOR_N div 2);
           a2 \<leftarrow> elem (input_a env) (VECTOR_N - 1); b2 \<leftarrow> elem (input_b env) (VECTOR_N - 1); c2 \<leftarrow> elem c (VECTOR_N - 1);
           let p = emit env (newline @ ''Total time: %.2f ms'' @ newline) [AFloat (fp_widen (xe_fp env) total_time)] p;
           let p = emit env (newline @ ''Sample results:'' @ newline) [] p;
           let p = emit env (''  a[0] + b[0] = %f + %f = %f'' @ newline) [a0, b0, c0] p;
           let p = emit env (''  a[N/2] + b[N/2] = %f + %f = %f'' @ newline) [a1, b1, c1] p;
           Some (emit env (''  a[N-1] + b[N-1] = %f + %f = %f'' @ newline) [a2, b2, c2] p) })"

definition va_compute :: "example_env \<Rightarrow> vector_vars \<Rightarrow> example \<Rightarrow> example option" where
  "va_compute env v p =
     do { (h2d_time, p) \<leftarrow> va_upload env v p;
          case h2d_time of
            None \<Rightarrow> Some p
          | Some h2d_time \<Rightarrow>
              do { (a, b, c, kernel_time, p) \<leftarrow> va_kernel env v p;
                   p \<leftarrow> record_event env (va_start v) (emit env (''Copying result to host...'' @ newline) [] p);
                   (err, c, p) \<leftarrow> copy_back (va_hc v) c (va_dc v) VECTOR_BYTES p;
                   if err \<noteq> cbSuccess then Some (emit env (''Failed to copy result: %s'' @ newline) [AStr (cbGetErrorString err)] p)
                   else do {
                     (d2h_time, p) \<leftarrow> va_lap env v p;
                     let p = emit env (''  D2H transfer time: %.2f ms (%.2f GB/s)'' @ newline)
                       [AFloat (fp_widen (xe_fp env) d2h_time),
                        AFloat (gigabytes_per_second env (xe_double env (of_nat (unat VECTOR_BYTES))) d2h_time)] p;
                     p \<leftarrow> va_check env c p;
                     va_samples env c (fp32 (xe_fp env) CBPY_OP_ADD (fp32 (xe_fp env) CBPY_OP_ADD h2d_time kernel_time) d2h_time) p } } }"

definition free_if :: "(u64 \<Rightarrow> library \<Rightarrow> (cbError \<times> library) option) \<Rightarrow> u64 \<Rightarrow> example \<Rightarrow> example option" where
  "free_if f a p = (if a \<noteq> 0 then map_option snd (call (f a) p) else Some p)"

definition va_cleanup :: "example_env \<Rightarrow> vector_vars \<Rightarrow> example \<Rightarrow> example option" where
  "va_cleanup env v p =
     do { (_, p) \<leftarrow> call (cbEventDestroy (Some (va_start v))) (emit env (newline @ ''Cleaning up...'' @ newline) [] p);
          (_, p) \<leftarrow> call (cbEventDestroy (Some (va_stop v))) p;
          p \<leftarrow> free_if cbFree (va_da v) p; p \<leftarrow> free_if cbFree (va_db v) p; p \<leftarrow> free_if cbFree (va_dc v) p;
          p \<leftarrow> free_if cbFreeHost (va_ha v) p; p \<leftarrow> free_if cbFreeHost (va_hb v) p; p \<leftarrow> free_if cbFreeHost (va_hc v) p;
          (_, p) \<leftarrow> call cbShutdown p;
          Some (emit env (''Done.'' @ newline @ newline) [] p) }"

definition vector_add_main :: "example_env \<Rightarrow> example \<Rightarrow> (int \<times> example) option" where
  "vector_add_main env p =
     do { (err, p) \<leftarrow> call (cbInit (xe_cuda env)) (emit env (newline @ ''=== CudaBridge Vector Addition Example ==='' @ newline @
         newline) [] p);
          if err \<noteq> cbSuccess then Some (1, emit env (''Failed to initialize CudaBridge: %s'' @ newline) [AStr (cbGetErrorString err)] p)
          else do {
            p \<leftarrow> va_report env p;
            (v, p) \<leftarrow> va_setup env p;
            p \<leftarrow> va_compute env v p;
            p \<leftarrow> va_cleanup env v p;
            Some (0, p) } }"

section \<open>Bandwidth test\<close>

definition test_sizes :: "u64 list" where
  "test_sizes = [1 * 1024, 4 * 1024, 16 * 1024, 64 * 1024, 256 * 1024, 1 * 1024 * 1024, 4 * 1024 * 1024, 16 * 1024 * 1024,
     64 * 1024 * 1024, 256 * 1024 * 1024]"

definition NUM_SIZES :: nat where "NUM_SIZES = length test_sizes"
definition NUM_ITERATIONS :: nat where "NUM_ITERATIONS = 10"

definition format_size :: "example_env \<Rightarrow> u64 \<Rightarrow> nat \<Rightarrow> string" where
  "format_size env bytes buf_size =
     (let scaled = (\<lambda>k. AFloat (fp64 (xe_fp env) CBPY_OP_DIV (xe_double env (of_nat (unat bytes))) (xe_double env k))) in
      into_buffer buf_size
        (if bytes \<ge> 1024 * 1024 * 1024 then printf (xe_text env) ''%.1f GB'' [scaled (1024 * 1024 * 1024)]
         else if bytes \<ge> 1024 * 1024 then printf (xe_text env) ''%.1f MB'' [scaled (1024 * 1024)]
         else if bytes \<ge> 1024 then printf (xe_text env) ''%.1f KB'' [scaled 1024]
         else printf (xe_text env) ''%zu B'' [ANat (unat bytes)]))"

text \<open>
  The best of the iterations, as a \<open>float\<close> of milliseconds; \<open>copy\<close> is the transfer that is measured, which may
  change the host buffer.
\<close>

fun measure_loop ::
    "example_env \<Rightarrow> (u8 list \<Rightarrow> example \<Rightarrow> (u8 list \<times> example) option) \<Rightarrow> ptr \<Rightarrow> ptr \<Rightarrow> nat \<Rightarrow> nat \<Rightarrow> u8 list \<Rightarrow> example \<Rightarrow>
     (nat \<times> u8 list \<times> example) option" where
  "measure_loop env copy start stop 0 min_time data p = Some (min_time, data, p)"
| "measure_loop env copy start stop (Suc k) min_time data p =
     do { p \<leftarrow> record_event env start p;
          (data, p) \<leftarrow> copy data p;
          p \<leftarrow> record_event env stop p;
          (elapsed, p) \<leftarrow> elapsed_time env start stop p;
          let min_time = (if fp64_less (xe_fp env) (fp_widen (xe_fp env) elapsed) (fp_widen (xe_fp env) min_time) then elapsed else min_time);
          measure_loop env copy start stop k min_time data p }"

definition measure_h2d_bandwidth ::
    "example_env \<Rightarrow> u64 \<Rightarrow> u8 list \<Rightarrow> u64 \<Rightarrow> u64 \<Rightarrow> ptr \<Rightarrow> ptr \<Rightarrow> example \<Rightarrow> (nat \<times> u8 list \<times> example) option" where
  "measure_h2d_bandwidth env h_data data d_data sz start stop p =
     do { (min_time, data, p) \<leftarrow> measure_loop env
            (\<lambda>data p. do { (_, p) \<leftarrow> copy_in d_data h_data data sz p; Some (data, p) })
            start stop NUM_ITERATIONS (xe_float env 1000000000) data p;
          Some (gigabytes_per_second env (xe_double env (of_nat (unat sz))) min_time, data, p) }"

definition measure_d2h_bandwidth ::
    "example_env \<Rightarrow> u64 \<Rightarrow> u8 list \<Rightarrow> u64 \<Rightarrow> u64 \<Rightarrow> ptr \<Rightarrow> ptr \<Rightarrow> example \<Rightarrow> (nat \<times> u8 list \<times> example) option" where
  "measure_d2h_bandwidth env h_data data d_data sz start stop p =
     do { (min_time, data, p) \<leftarrow> measure_loop env
            (\<lambda>data p. do { (_, data, p) \<leftarrow> copy_back h_data data d_data sz p; Some (data, p) })
            start stop NUM_ITERATIONS (xe_float env 1000000000) data p;
          Some (gigabytes_per_second env (xe_double env (of_nat (unat sz))) min_time, data, p) }"

definition print_header :: "example_env \<Rightarrow> example \<Rightarrow> example" where
  "print_header env p =
     emit env (utf8 ([0x251C] @ replicate 14 0x2500 @ [0x253C] @ replicate 18 0x2500 @ [0x253C] @ replicate 18 0x2500 @ [0x2524]) @ newline) []
       (emit env (utf8 [0x2502] @ ''  Data Size   '' @ utf8 [0x2502] @ ''   H2D (GB/s)     '' @ utf8 [0x2502] @ ''   D2H (GB/s)     '' @
           utf8 [0x2502] @ newline) []
         (emit env (utf8 ([0x250C] @ replicate 14 0x2500 @ [0x252C] @ replicate 18 0x2500 @ [0x252C] @ replicate 18 0x2500 @ [0x2510]) @
             newline) []
           (emit env newline [] p)))"

definition print_row :: "example_env \<Rightarrow> string \<Rightarrow> nat \<Rightarrow> nat \<Rightarrow> example \<Rightarrow> example" where
  "print_row env size_str h2d_bw d2h_bw p =
     emit env (utf8 [0x2502] @ '' %12s '' @ utf8 [0x2502] @ '' %14.2f   '' @ utf8 [0x2502] @ '' %14.2f   '' @ utf8 [0x2502] @ newline)
         [AStr size_str, AFloat h2d_bw, AFloat d2h_bw] p"

definition print_footer :: "example_env \<Rightarrow> example \<Rightarrow> example" where
  "print_footer env p = emit env (utf8 ([0x2514] @ replicate 14 0x2500 @ [0x2534] @ replicate 18 0x2500 @ [0x2534] @ replicate 18 0x2500 @
      [0x2518]) @ newline) [] p"

definition double_line :: "example_env \<Rightarrow> example \<Rightarrow> example" where
  "double_line env p = emit env (utf8 (replicate 63 0x2550) @ newline) [] p"

definition connection_name :: "int \<Rightarrow> string" where
  "connection_name t = (if t = 0 then ''USB4'' else if t = 1 then ''Thunderbolt 3'' else if t = 2 then ''Thunderbolt 4'' else ''Unknown'')"

text \<open>The sizes in turn, with the best bandwidths so far.\<close>

fun bw_rows ::
    "example_env \<Rightarrow> u64 \<Rightarrow> u64 \<Rightarrow> ptr \<Rightarrow> ptr \<Rightarrow> u64 list \<Rightarrow> nat \<times> nat \<Rightarrow> u8 list \<Rightarrow> example \<Rightarrow>
     ((nat \<times> nat) \<times> u8 list \<times> example) option" where
  "bw_rows env h d start stop [] peak data p = Some (peak, data, p)"
| "bw_rows env h d start stop (sz # sizes) peak data p =
     do { (h2d_bw, data, p) \<leftarrow> measure_h2d_bandwidth env h data d sz start stop p;
          (d2h_bw, data, p) \<leftarrow> measure_d2h_bandwidth env h data d sz start stop p;
          let p = print_row env (format_size env sz 32) h2d_bw d2h_bw p;
          let better = (\<lambda>x m. if fp64_less (xe_fp env) m x then x else m);
          bw_rows env h d start stop sizes (better h2d_bw (fst peak), better d2h_bw (snd peak)) data p }"

definition bw_connection :: "example_env \<Rightarrow> cbConnectionInfo \<Rightarrow> example \<Rightarrow> example" where
  "bw_connection env conn p =
     (if ci_isConnected conn \<noteq> 0 then
        emit env (''Theoretical bandwidth: %.1f GB/s (per direction)'' @ newline) [AFloat (gigabytes env (ci_upstreamBandwidth conn))]
          (emit env ('' (PCIe Gen%d x%d)'' @ newline) [AInt (ci_pcieGeneration conn), AInt (ci_pcieLanes conn)]
            (emit env ''%s'' [AStr (connection_name (ci_connectionType conn))] (emit env (newline @ ''Connection: '') [] p)))
      else p)"

definition bw_summary :: "example_env \<Rightarrow> cbConnectionInfo \<Rightarrow> nat \<times> nat \<Rightarrow> example \<Rightarrow> example" where
  "bw_summary env conn peak p =
     (let p = double_line env (emit env newline [] (print_footer env p));
          p = double_line env (emit env (''                         Summary'' @ newline) [] p);
          p = emit env (''  Peak H2D Bandwidth: %.2f GB/s'' @ newline) [AFloat (fst peak)] p;
          p = emit env (''  Peak D2H Bandwidth: %.2f GB/s'' @ newline) [AFloat (snd peak)] p;
          efficiency = (\<lambda>x. AFloat (fp64 (xe_fp env) CBPY_OP_MUL
            (fp64 (xe_fp env) CBPY_OP_DIV x (gigabytes env (ci_upstreamBandwidth conn))) (xe_double env 100)));
          p = (if ci_isConnected conn \<noteq> 0 then
                 emit env (''  D2H Efficiency: %.1f%%'' @ newline) [efficiency (snd peak)]
                   (emit env (newline @ ''  H2D Efficiency: %.1f%%'' @ newline) [efficiency (fst peak)] p)
               else p)
      in emit env (''        (32 Gbps with encoding overhead)'' @ newline) []
           (emit env (newline @ ''  Note: USB4 theoretical max is ~4 GB/s per direction'' @ newline) [] p))"

definition bw_measure :: "example_env \<Rightarrow> cbConnectionInfo \<Rightarrow> u64 \<Rightarrow> u64 \<Rightarrow> u64 \<Rightarrow> example \<Rightarrow> example option" where
  "bw_measure env conn max_size h d p =
     (let data = replicate (unat max_size) (0xAB :: u8) in
      do { (start, p) \<leftarrow> event_create p;
           (stop, p) \<leftarrow> event_create p;
           (_, p) \<leftarrow> copy_in d h data (1024 * 1024) (emit env (newline @ ''Warming up...'' @ newline) [] p);
           (_, data, p) \<leftarrow> copy_back h data d (1024 * 1024) p;
           (_, p) \<leftarrow> call cbDeviceSynchronize p;
           let p = print_header env (emit env (newline @ ''Measuring bandwidth (%d iterations per size)...'' @ newline) [ANat NUM_ITERATIONS] p);
           (peak, data, p) \<leftarrow> bw_rows env h d start stop test_sizes (xe_double env 0, xe_double env 0) data p;
           let p = bw_summary env conn peak p;
           (_, p) \<leftarrow> call (cbEventDestroy (Some start)) p;
           (_, p) \<leftarrow> call (cbEventDestroy (Some stop)) p;
           (_, p) \<leftarrow> call (cbFree d) p;
           (_, p) \<leftarrow> call (cbFreeHost h) p;
           (_, p) \<leftarrow> call cbShutdown p;
           Some (emit env newline [] p) })"

definition bw_device :: "example_env \<Rightarrow> example \<Rightarrow> (cbConnectionInfo \<times> example) option" where
  "bw_device env p =
     do { (_, prop, p) \<leftarrow> call_out (cbGetDeviceProperties (xe_cuda env) True 0) p;
          prop \<leftarrow> prop;
          let p = emit env (newline @ ''Device: %s'' @ newline) [AStr (pr_name prop)] p;
          let p = emit env (''Compute Capability: %d.%d'' @ newline) [AInt (pr_major prop), AInt (pr_minor prop)] p;
          (_, conn, p) \<leftarrow> call_out (cbGetConnectionInfo True) p;
          conn \<leftarrow> conn;
          Some (conn, bw_connection env conn p) }"

definition bandwidth_test_main :: "example_env \<Rightarrow> example \<Rightarrow> (int \<times> example) option" where
  "bandwidth_test_main env p =
     (let p = double_line env (emit env (''     CudaBridge - USB4/Thunderbolt eGPU Bandwidth Test'' @ newline) []
                (double_line env (emit env newline [] p)));
          leave = (\<lambda>p. do { (_, p) \<leftarrow> call cbShutdown p; Some (1, p) }) in
      do { (err, p) \<leftarrow> call (cbInit (xe_cuda env)) p;
           if err \<noteq> cbSuccess then Some (1, emit env (''Failed to initialize CudaBridge: %s'' @ newline) [AStr (cbGetErrorString err)] p)
           else do {
             (_, device_count, p) \<leftarrow> call_out (cbGetDeviceCount (xe_cuda env) True) p;
             device_count \<leftarrow> device_count;
             if device_count = 0 then leave (emit env (newline @ ''No GPU devices found!'' @ newline) [] p)
             else do {
               (conn, p) \<leftarrow> bw_device env p;
               let max_size = test_sizes ! (NUM_SIZES - 1);
               (err, h, p) \<leftarrow> call_out (cbMallocHost True max_size) p;
               if err \<noteq> cbSuccess then leave (emit env (''Failed to allocate host memory: %s'' @ newline) [AStr (cbGetErrorString err)] p)
               else do {
                 h \<leftarrow> h;
                 (err, d, p) \<leftarrow> call_out (cbMalloc True max_size) p;
                 if err \<noteq> cbSuccess then
                   do { (_, p) \<leftarrow> call (cbFreeHost h) (emit env (''Failed to allocate device memory: %s'' @ newline)
                       [AStr (cbGetErrorString err)] p);
                        leave p }
                 else do {
                   d \<leftarrow> d;
                   p \<leftarrow> bw_measure env conn max_size h d p;
                   Some (0, p) } } } } })"

section \<open>Device information\<close>

definition print_features :: "example_env \<Rightarrow> cbDeviceProp \<Rightarrow> example \<Rightarrow> example" where
  "print_features env prop p =
     (let yes = (\<lambda>n. AStr (if n \<noteq> (0 :: int) then ''Yes'' else ''No''));
          p = emit env (newline @ utf8 [0x3010] @ ''Shared Memory'' @ utf8 [0x3011] @ newline) [] p;
          p = emit env (''  Shared Memory/Block:    %zu KB'' @ newline) [ANat (unat (pr_sharedMemPerBlock prop) div 1024)] p;
          p = emit env (''  Registers/Block:        %d'' @ newline) [AInt (pr_regsPerBlock prop)] p;
          p = emit env (newline @ utf8 [0x3010] @ ''Clock'' @ utf8 [0x3011] @ newline) [] p;
          p = emit env (''  GPU Clock Rate:         %d MHz'' @ newline) [AInt (pr_clockRate prop sdiv 1000)] p;
          p = emit env (newline @ utf8 [0x3010] @ ''Features'' @ utf8 [0x3011] @ newline) [] p;
          p = emit env (''  Concurrent Kernels:     %s'' @ newline) [yes (pr_concurrentKernels prop)] p;
          p = emit env (''  Async Engine Count:     %d'' @ newline) [AInt (pr_asyncEngineCount prop)] p;
          p = emit env (''  Unified Addressing:     %s'' @ newline) [yes (pr_unifiedAddressing prop)] p;
          p = emit env (''  Managed Memory:         %s'' @ newline) [yes (pr_managedMemory prop)] p
      in emit env newline [] p)"

definition print_device_info :: "example_env \<Rightarrow> int \<Rightarrow> example \<Rightarrow> example option" where
  "print_device_info env device p =
     do { (err, prop, p) \<leftarrow> call_out (cbGetDeviceProperties (xe_cuda env) True device) p;
          if err \<noteq> cbSuccess then
            Some (emit env (''Failed to get properties for device %d: %s'' @ newline) [AInt device, AStr (cbGetErrorString err)] p)
          else do {
            prop \<leftarrow> prop;
            let fp = xe_fp env;
            let p = double_line env (emit env newline [] p);
            let p = double_line env (emit env ('' Device %d: %s'' @ newline) [AInt device, AStr (pr_name prop)] p);
            let p = emit env (newline @ utf8 [0x3010] @ ''Compute Capability'' @ utf8 [0x3011] @ newline) [] p;
            let p = emit env (''  Version: %d.%d'' @ newline) [AInt (pr_major prop), AInt (pr_minor prop)] p;
            let p = emit env (newline @ utf8 [0x3010] @ ''Memory'' @ utf8 [0x3011] @ newline) [] p;
            let p = emit env (''  Total Global Memory:    %.2f GB'' @ newline) [AFloat (gigabytes env (pr_totalGlobalMem prop))] p;
            let p = emit env (''  Memory Clock Rate:      %d MHz'' @ newline) [AInt (pr_memoryClockRate prop sdiv 1000)] p;
            let p = emit env (''  Memory Bus Width:       %d bits'' @ newline) [AInt (pr_memoryBusWidth prop)] p;
            let p = emit env (''  L2 Cache Size:          %d KB'' @ newline) [AInt (pr_l2CacheSize prop sdiv 1024)] p;
            let bandwidth = fp64 fp CBPY_OP_DIV
              (fp64 fp CBPY_OP_MUL (fp64 fp CBPY_OP_MUL (xe_double env 2) (xe_double env (of_int (pr_memoryClockRate prop))))
                (fp64 fp CBPY_OP_DIV (xe_double env (of_int (pr_memoryBusWidth prop))) (xe_double env 8))) (xe_double env 1000000);
            let p = emit env (''  Peak Memory Bandwidth:  %.1f GB/s'' @ newline) [AFloat bandwidth] p;
            let p = emit env (newline @ utf8 [0x3010] @ ''Multiprocessor'' @ utf8 [0x3011] @ newline) [] p;
            let p = emit env (''  SM Count:               %d'' @ newline) [AInt (pr_multiProcessorCount prop)] p;
            let p = emit env (''  Max Threads/SM:         %d'' @ newline) [AInt (pr_maxThreadsPerMultiProcessor prop)] p;
            let cores_per_sm = (if pr_major prop = 7 then 64 else 128);
            let total_cores = pr_multiProcessorCount prop * cores_per_sm;
            if \<not> (- (2 ^ 31) \<le> total_cores \<and> total_cores < 2 ^ 31) then None
            else if length (pr_maxThreadsDim prop) < 3 \<or> length (pr_maxGridSize prop) < 3 then None
            else
              let p = emit env (''  CUDA Cores (est.):      %d'' @ newline) [AInt total_cores] p;
                  p = emit env (newline @ utf8 [0x3010] @ ''Thread Configuration'' @ utf8 [0x3011] @ newline) [] p;
                  p = emit env (''  Warp Size:              %d'' @ newline) [AInt (pr_warpSize prop)] p;
                  p = emit env (''  Max Threads/Block:      %d'' @ newline) [AInt (pr_maxThreadsPerBlock prop)] p;
                  p = emit env (''  Max Block Dimensions:   (%d, %d, %d)'' @ newline)
                        [AInt (pr_maxThreadsDim prop ! 0), AInt (pr_maxThreadsDim prop ! 1), AInt (pr_maxThreadsDim prop ! 2)] p;
                  p = emit env (''  Max Grid Dimensions:    (%d, %d, %d)'' @ newline)
                        [AInt (pr_maxGridSize prop ! 0), AInt (pr_maxGridSize prop ! 1), AInt (pr_maxGridSize prop ! 2)] p
              in Some (print_features env prop p) } }"

definition print_connection_info :: "example_env \<Rightarrow> example \<Rightarrow> example option" where
  "print_connection_info env p =
     do { (err, info, p) \<leftarrow> call_out (cbGetConnectionInfo True) p;
          if err \<noteq> cbSuccess then Some (emit env (''Failed to get connection info: %s'' @ newline) [AStr (cbGetErrorString err)] p)
          else do {
            info \<leftarrow> info;
            let p = double_line env (emit env ('' eGPU Connection Status'' @ newline) [] (double_line env p));
            let p = emit env (newline @ utf8 [0x3010] @ ''Connection'' @ utf8 [0x3011] @ newline) [] p;
            let p = emit env (''  Status:                 %s'' @ newline)
                [AStr (if ci_isConnected info \<noteq> 0 then ''Connected'' else ''Not Connected'')] p;
            let p = (if ci_isConnected info \<noteq> 0 then
              let p = emit env (''  Connection Type:        %s'' @ newline) [AStr (connection_name (ci_connectionType info))] p;
                  p = emit env (''  PCIe Generation:        Gen %d'' @ newline) [AInt (ci_pcieGeneration info)] p;
                  p = emit env (''  PCIe Lanes:             x%d'' @ newline) [AInt (ci_pcieLanes info)] p;
                  p = emit env (newline @ utf8 [0x3010] @ ''Bandwidth'' @ utf8 [0x3011] @ newline) [] p;
                  p = emit env (''  Upstream (H'' @ utf8 [0x2192] @ ''D):         %.2f GB/s'' @ newline)
                      [AFloat (gigabytes env (ci_upstreamBandwidth info))] p;
                  p = emit env (''  Downstream (D'' @ utf8 [0x2192] @ ''H):       %.2f GB/s'' @ newline)
                      [AFloat (gigabytes env (ci_downstreamBandwidth info))] p
              in emit env (''  Link Utilization:       %.1f%%'' @ newline)
                   [AFloat (fp_widen (xe_fp env) (fp32 (xe_fp env) CBPY_OP_MUL (xe_float env (ci_linkUtilization info)) (xe_float env 100)))] p
              else p);
            Some (emit env newline [] p) } }"

definition print_memory_info :: "example_env \<Rightarrow> example \<Rightarrow> example option" where
  "print_memory_info env p =
     do { (err, info, p) \<leftarrow> call_out (cbMemGetInfo True True) p;
          if err \<noteq> cbSuccess then Some (emit env (''Failed to get memory info: %s'' @ newline) [AStr (cbGetErrorString err)] p)
          else do {
            (free, total) \<leftarrow> info;
            let fp = xe_fp env;
            let used = total - free;
            let p = double_line env (emit env ('' Memory Status'' @ newline) [] (double_line env p));
            let p = emit env newline [] p;
            let p = emit env (''  Total:     %.2f GB'' @ newline) [AFloat (gigabytes env total)] p;
            let p = emit env (''  Free:      %.2f GB'' @ newline) [AFloat (gigabytes env free)] p;
            let p = emit env (''  Used:      %.2f GB (%.1f%%)'' @ newline)
              [AFloat (gigabytes env used),
               AFloat (fp64 fp CBPY_OP_DIV (fp64 fp CBPY_OP_MUL (xe_double env 100) (xe_double env (of_nat (unat used))))
                 (xe_double env (of_nat (unat total))))] p;
            Some (emit env newline [] p) } }"

fun each_device :: "example_env \<Rightarrow> int \<Rightarrow> nat \<Rightarrow> example \<Rightarrow> example option" where
  "each_device env i 0 p = Some p"
| "each_device env i (Suc k) p =
     do { (_, p) \<leftarrow> call (cbSetDevice (xe_cuda env) i) p;
          p \<leftarrow> print_device_info env i p;
          each_device env (i + 1) k p }"

definition device_info_main :: "example_env \<Rightarrow> example \<Rightarrow> (int \<times> example) option" where
  "device_info_main env p =
     (let p = double_line env (emit env ('' CudaBridge - GPU Device Information'' @ newline) [] (double_line env (emit env newline [] p))) in
      do { (err, p) \<leftarrow> call (cbInit (xe_cuda env)) p;
           if err \<noteq> cbSuccess then Some (1, emit env (newline @ ''Failed to initialize CudaBridge: %s'' @ newline)
               [AStr (cbGetErrorString err)] p)
           else do {
             (_, version, p) \<leftarrow> call_out (\<lambda>l. Some (cbGetVersion True l)) p;
             v \<leftarrow> version;
             let p = emit env (newline @ ''  CudaBridge Version: %d.%d.%d'' @ newline)
               [AInt (v sdiv 10000), AInt ((v sdiv 100) smod 100), AInt (v smod 100)] p;
             (_, driver, p) \<leftarrow> call_out (cbGetDriverVersion True) p;
             let v = (case driver of None \<Rightarrow> v | Some d \<Rightarrow> d);
             let p = emit env (''  CUDA Driver Version: %d.%d'' @ newline) [AInt (v sdiv 1000), AInt ((v smod 1000) sdiv 10)] p;
             (err, device_count, p) \<leftarrow> call_out (cbGetDeviceCount (xe_cuda env) True) p;
             if err \<noteq> cbSuccess then
               do { (_, p) \<leftarrow> call cbShutdown (emit env (newline @ ''Failed to get device count: %s'' @ newline)
                   [AStr (cbGetErrorString err)] p);
                    Some (1, p) }
             else do {
               device_count \<leftarrow> device_count;
               p \<leftarrow> print_connection_info env (emit env (''  Available Devices: %d'' @ newline) [AInt device_count] p);
               p \<leftarrow> each_device env 0 (nat device_count) p;
               p \<leftarrow> (if device_count > 0 then
                      do { (_, p) \<leftarrow> call (cbSetDevice (xe_cuda env) 0) p; print_memory_info env p }
                    else Some p);
               (_, p) \<leftarrow> call cbShutdown p;
               Some (0, p) } } })"

text \<open>A process before it calls the library.\<close>

definition example_zero :: "world \<Rightarrow> example" where
  "example_zero w = \<lparr>xp_lib = library_zero w, xp_out = '''', xp_clock = 0\<rparr>"

end
