(* ===== verification/Device_Memory.thy ===== *)
theory Device_Memory
  imports Python_Memory
begin

text \<open>
  What device memory promises to the programs above it, as an interface: blocks that hold bytes, a write that
  replaces the bytes of one block, a read that gives them back, and the steps that do not touch device memory. A client
  sees it as a map from blocks to bytes. The library provides it with \<open>cbMemcpy\<close>.
\<close>

section \<open>The interface\<close>

locale device_memory =
  fixes holds :: "'s \<Rightarrow> 'p \<Rightarrow> 'b list \<Rightarrow> bool"
    and usable :: "'h \<Rightarrow> bool"
    and store :: "'h \<Rightarrow> 'p \<Rightarrow> 'b list \<Rightarrow> 's \<Rightarrow> 's option"
    and load :: "'h \<Rightarrow> 'p \<Rightarrow> nat \<Rightarrow> 's \<Rightarrow> ('b list \<times> 's) option"
  assumes store_total: "holds s p xs \<Longrightarrow> length ys = length xs \<Longrightarrow> usable h \<Longrightarrow> \<exists>s'. store h p ys s = Some s'"
    and store_same: "holds s p xs \<Longrightarrow> length ys = length xs \<Longrightarrow> store h p ys s = Some s' \<Longrightarrow> holds s' p ys"
    and store_other: "holds s p xs \<Longrightarrow> length ys = length xs \<Longrightarrow> store h p ys s = Some s' \<Longrightarrow> holds s q zs \<Longrightarrow> q \<noteq> p \<Longrightarrow>
      holds s' q zs"
    and load_total: "holds s p xs \<Longrightarrow> usable h \<Longrightarrow> \<exists>s'. load h p (length xs) s = Some (xs, s')"
    and load_keeps: "holds s p xs \<Longrightarrow> load h p (length xs) s = Some (ys, s') \<Longrightarrow> holds s q zs \<Longrightarrow> holds s' q zs"
begin

text \<open>The blocks of a client, as a map.\<close>

definition holds_map :: "'s \<Rightarrow> ('p \<rightharpoonup> 'b list) \<Rightarrow> bool" where
  "holds_map s m \<longleftrightarrow> (\<forall>p xs. m p = Some xs \<longrightarrow> holds s p xs)"

lemma store_map:
  assumes "holds_map s m" and "m p = Some xs" and "length ys = length xs" and "usable h"
  shows "\<exists>s'. store h p ys s = Some s' \<and> holds_map s' (m(p \<mapsto> ys))"
proof -
  have p: "holds s p xs" using assms(1,2) by (simp add: holds_map_def)
  from store_total [OF p assms(3,4)] obtain s' where w: "store h p ys s = Some s'" ..
  with store_same [OF p assms(3) w] store_other [OF p assms(3) w] assms(1) show ?thesis by (auto simp: holds_map_def)
qed

lemma load_map:
  assumes "holds_map s m" and "m p = Some xs" and "usable h"
  shows "\<exists>s'. load h p (length xs) s = Some (xs, s') \<and> holds_map s' m"
proof -
  have p: "holds s p xs" using assms(1,2) by (simp add: holds_map_def)
  from load_total [OF p assms(3)] obtain s' where r: "load h p (length xs) s = Some (xs, s')" ..
  with load_keeps [OF p r] assms(1) show ?thesis by (auto simp: holds_map_def)
qed

lemma holds_map_mono: "holds_map s m \<Longrightarrow> m' \<subseteq>\<^sub>m m \<Longrightarrow> holds_map s m'"
  by (auto simp: holds_map_def map_le_def dom_def)

end

text \<open>With an allocation, whose new block is none of the old ones.\<close>

locale device_heap = device_memory holds usable store load
  for holds :: "'s \<Rightarrow> 'p \<Rightarrow> 'b list \<Rightarrow> bool" and usable :: "'h \<Rightarrow> bool"
    and store :: "'h \<Rightarrow> 'p \<Rightarrow> 'b list \<Rightarrow> 's \<Rightarrow> 's option" and load :: "'h \<Rightarrow> 'p \<Rightarrow> nat \<Rightarrow> 's \<Rightarrow> ('b list \<times> 's) option" +
  fixes room :: "'s \<Rightarrow> nat \<Rightarrow> bool" and alloc :: "nat \<Rightarrow> 's \<Rightarrow> ('p \<times> 's) option" and zero :: 'b
  assumes alloc_new: "room s n \<Longrightarrow> alloc n s = Some (p, s') \<Longrightarrow> holds s' p (replicate n zero)"
    and alloc_old: "room s n \<Longrightarrow> alloc n s = Some (p, s') \<Longrightarrow> holds s q zs \<Longrightarrow> q \<noteq> p \<and> holds s' q zs"
begin

lemma alloc_map:
  assumes "holds_map s m" and "room s n" and "alloc n s = Some (p, s')"
  shows "m p = None \<and> holds_map s' (m(p \<mapsto> replicate n zero))"
proof -
  have "q \<noteq> p \<and> holds s' q zs" if "m q = Some zs" for q zs
    using alloc_old [OF assms(2,3)] assms(1) that unfolding holds_map_def by blast
  with alloc_new [OF assms(2,3)] show ?thesis by (cases "m p") (auto simp: holds_map_def)
qed

end

section \<open>Blocks of the runtime\<close>

definition gpu_holds :: "world \<Rightarrow> u64 \<Rightarrow> u8 list \<Rightarrow> bool" where
  "gpu_holds w a bs \<longleftrightarrow> a \<noteq> 0 \<and> bs \<noteq> [] \<and> (\<exists>gp ctx xs cs x. get_current_gpu w = Some gp \<and> heap_get (w_gpus w) gp = Some ctx \<and>
     nv_inv ctx (w_nv w) xs cs \<and> x \<in> set xs \<and> ma_gpu_addr (snd x) = a \<and> gpu_range x a (length bs) \<and>
     gpu_bytes (w_nv w) x a (length bs) = Some bs)"

lemma entries_unique:
  assumes "nv_inv ctx h xs cs" and "nv_inv ctx h ys ds"
  shows "xs = ys"
proof -
  have rep: "mem_rep (h_allocs h) (h_stores h) (next_gpu_addr h) xs" "mem_rep (h_allocs h) (h_stores h) (next_gpu_addr h) ys"
    and a: "gpu_allocations ctx = map (\<lambda>x. Some (fst x)) xs" "gpu_allocations ctx = map (\<lambda>x. Some (fst x)) ys"
    using assms by (simp_all add: nv_inv_def)
  have "map Some (map fst xs) = map Some (map fst ys)" using a by (simp add: comp_def)
  then have m: "map fst xs = map fst ys" by (simp only: inj_map_eq_map [OF inj_Some])
  from m have l: "length xs = length ys" by (metis length_map)
  show ?thesis
  proof (rule nth_equalityI [OF l])
    fix i assume i: "i < length xs"
    then have f: "fst (xs ! i) = fst (ys ! i)" using m l by (metis nth_map)
    have "hp_mem (h_allocs h) (fst (xs ! i)) = Some (snd (xs ! i))" "hp_mem (h_allocs h) (fst (ys ! i)) = Some (snd (ys ! i))"
      using i l mem_rep_live(1) [OF rep(1)] mem_rep_live(1) [OF rep(2)] by simp_all
    with f show "xs ! i = ys ! i" by (simp add: prod_eq_iff)
  qed
qed

text \<open>The view a block has of its runtime.\<close>

lemma gpu_holdsE:
  assumes "gpu_holds w a bs" and "get_current_gpu w = Some gp" and "heap_get (w_gpus w) gp = Some ctx" and "nv_inv ctx (w_nv w) xs cs"
  obtains x where "x \<in> set xs" and "ma_gpu_addr (snd x) = a" and "gpu_range x a (length bs)" and "gpu_bytes (w_nv w) x a (length bs) = Some bs"
proof -
  from assms(1) obtain gp' ctx' xs' cs' x where x: "get_current_gpu w = Some gp'" "heap_get (w_gpus w) gp' = Some ctx'"
    "nv_inv ctx' (w_nv w) xs' cs'" "x \<in> set xs'" "ma_gpu_addr (snd x) = a" "gpu_range x a (length bs)"
    "gpu_bytes (w_nv w) x a (length bs) = Some bs" unfolding gpu_holds_def by blast
  then have "ctx' = ctx" using assms(2,3) by simp
  with x(3) entries_unique [OF assms(4)] have "xs' = xs" by simp
  with x show thesis by (intro that) simp_all
qed

lemma gpu_holdsI:
  assumes "a \<noteq> 0" and "bs \<noteq> []" and "get_current_gpu w = Some gp" and "heap_get (w_gpus w) gp = Some ctx" and "nv_inv ctx (w_nv w) xs cs"
    and "x \<in> set xs" and "ma_gpu_addr (snd x) = a" and "gpu_range x a (length bs)" and "gpu_bytes (w_nv w) x a (length bs) = Some bs"
  shows "gpu_holds w a bs"
  unfolding gpu_holds_def using assms by blast

lemma range_fits: "mem_rep ha hs nx xs \<Longrightarrow> x \<in> set xs \<Longrightarrow> gpu_range x a n \<Longrightarrow> n < 2 ^ 64"
proof -
  assume r: "mem_rep ha hs nx xs" "x \<in> set xs" "gpu_range x a n"
  have "unat a + n \<le> unat nx" using r order_trans by (fastforce simp: mem_rep_def entry_ok_def gpu_range_def)
  moreover have "unat nx < 2 ^ 64" using unsigned_less [of nx] by simp
  ultimately show ?thesis by linarith
qed

lemma gpu_holds_length: "gpu_holds w a bs \<Longrightarrow> length bs < 2 ^ 64"
  unfolding gpu_holds_def nv_inv_def using range_fits by blast

lemma gpu_rangeI:
  assumes "nv_inv ctx h xs cs" and "x \<in> set xs" "y \<in> set xs" and "ma_gpu_addr (snd x) \<noteq> ma_gpu_addr (snd y)"
    and "gpu_range x (ma_gpu_addr (snd x)) n" "gpu_range y (ma_gpu_addr (snd y)) m"
  shows "gpu_disjoint (ma_gpu_addr (snd x)) n (ma_gpu_addr (snd y)) m"
proof -
  have "sorted_wrt below xs" using assms(1) by (simp add: nv_inv_def mem_rep_def)
  moreover have "x \<noteq> y" using assms(4) by blast
  ultimately have "below x y \<or> below y x" using assms(2,3) by (induction xs) auto
  with assms(5,6) show ?thesis by (auto simp: below_def gpu_disjoint_def gpu_range_def)
qed

text \<open>A copy to a block replaces its bytes and no others.\<close>

lemma copy_to_block:
  assumes H: "gpu_holds w a xs" and l: "length ys = length xs" and src: "hp_addr src \<noteq> 0" "hp_bytes src = ys"
  shows "\<exists>w'. cudaMemcpy (device_ptr a) src (of_nat (length ys)) cudaMemcpyHostToDevice w = Some (cudaSuccess, None, w') \<and>
    gpu_holds w' a ys \<and> (\<forall>q zs. q \<noteq> a \<longrightarrow> gpu_holds w q zs \<longrightarrow> gpu_holds w' q zs)"
proof -
  from H obtain gp ctx es cs x where cur: "get_current_gpu w = Some gp" and hg: "heap_get (w_gpus w) gp = Some ctx"
    and inv: "nv_inv ctx (w_nv w) es cs" and x: "x \<in> set es" "ma_gpu_addr (snd x) = a" "gpu_range x a (length xs)"
    unfolding gpu_holds_def by blast
  have nz: "a \<noteq> 0" "ys \<noteq> []" using H l by (auto simp: gpu_holds_def)
  have u: "unat (of_nat (length ys) :: u64) = length ys" using gpu_holds_length [OF H] l by (simp add: unsigned_of_nat take_bit_nat_eq_self)
  have n0: "(of_nat (length ys) :: u64) \<noteq> 0" using u nz(2) by (metis length_0_conv unat_0)
  have rng: "gpu_range x a (length ys)" using x(3) l by simp
  obtain b b' s where s: "entry_store x = Some s" "hp_mem (h_stores (w_nv w)) s = Some b" "buf_wr b (gpu_off x a) ys = Some b'"
    and put: "nv_gpu_memcpy_h2d ctx (w_nv w) a (Some ys) (of_nat (length ys)) =
      Some (NV_SUCCESS, ctx\<lparr>gpu_bytes_transferred := gpu_bytes_transferred ctx + of_nat (length ys)\<rparr>,
        (w_nv w)\<lparr>h_stores := h_stores (w_nv w)\<lparr>hp_mem := (hp_mem (h_stores (w_nv w)))(s \<mapsto> b')\<rparr>\<rparr>)"
    and inv': "nv_inv (ctx\<lparr>gpu_bytes_transferred := gpu_bytes_transferred ctx + of_nat (length ys)\<rparr>)
       ((w_nv w)\<lparr>h_stores := h_stores (w_nv w)\<lparr>hp_mem := (hp_mem (h_stores (w_nv w)))(s \<mapsto> b')\<rparr>\<rparr>) es cs"
    by (rule h2d_in_range [OF inv x(1) rng u nz(2)]) (rule that)
  let ?ctx = "ctx\<lparr>gpu_bytes_transferred := gpu_bytes_transferred ctx + of_nat (length ys)\<rparr>"
  let ?nv = "(w_nv w)\<lparr>h_stores := h_stores (w_nv w)\<lparr>hp_mem := (hp_mem (h_stores (w_nv w)))(s \<mapsto> b')\<rparr>\<rparr>"
  let ?w = "with_gpu w gp ?ctx ?nv"
  have rep: "mem_rep (h_allocs (w_nv w)) (h_stores (w_nv w)) (next_gpu_addr (w_nv w)) es" using inv by (simp add: nv_inv_def)
  note bytes = gpu_bytes_put [OF rep x(1) s rng]
  have view: "gpu_holds ?w q zs" if "q \<noteq> 0" "zs \<noteq> []" "y \<in> set es" "ma_gpu_addr (snd y) = q" "gpu_range y q (length zs)"
    "gpu_bytes ?nv y q (length zs) = Some zs" for q zs y
    by (rule gpu_holdsI [OF that(1,2), of _ gp ?ctx es cs y]) (use that cur inv' in \<open>simp_all add: heap_get_def\<close>)
  have "cudaMemcpy (device_ptr a) src (of_nat (length ys)) cudaMemcpyHostToDevice w = Some (cudaSuccess, None, ?w)"
    using cur hg put nz n0 src by (simp add: cudaMemcpy_def device_ptr_def put_gpu copy_result_def)
  moreover have "gpu_holds ?w a ys" by (rule view [OF nz x(1,2) rng bytes(1)])
  moreover have "gpu_holds ?w q zs" if q: "q \<noteq> a" "gpu_holds w q zs" for q zs
  proof -
    from q(2) cur hg inv obtain y where y: "y \<in> set es" "ma_gpu_addr (snd y) = q" "gpu_range y q (length zs)"
      "gpu_bytes (w_nv w) y q (length zs) = Some zs" by (rule gpu_holdsE)
    have "gpu_disjoint a (length ys) q (length zs)"
      using gpu_rangeI [OF inv x(1) y(1)] x(2) y(2,3) rng q(1) by simp
    with bytes(2) [OF y(1,3)] y(4) have "gpu_bytes ?nv y q (length zs) = Some zs" by simp
    with q(2) y show ?thesis by (intro view [of q zs y]) (auto simp: gpu_holds_def)
  qed
  ultimately show ?thesis by blast
qed

text \<open>A copy from a block delivers its bytes.\<close>

lemma gpu_holds_cong:
  assumes "w_state w' = w_state w" and "w_nv w' = w_nv w" and "w_gpus w' = w_gpus w"
  shows "gpu_holds w' a bs = gpu_holds w a bs"
  using assms by (simp add: gpu_holds_def get_current_gpu_def)

lemma copy_from_block:
  assumes H: "gpu_holds w a xs" and dst: "hp_addr dst \<noteq> 0" "length xs \<le> hp_room dst"
  shows "\<exists>w'. cudaMemcpy dst (device_ptr a) (of_nat (length xs)) cudaMemcpyDeviceToHost w = Some (cudaSuccess, Some xs, w') \<and>
    (\<forall>q zs. gpu_holds w q zs \<longrightarrow> gpu_holds w' q zs)"
proof -
  from H obtain gp ctx es cs x where cur: "get_current_gpu w = Some gp" and hg: "heap_get (w_gpus w) gp = Some ctx"
    and inv: "nv_inv ctx (w_nv w) es cs" and x: "x \<in> set es" "ma_gpu_addr (snd x) = a" "gpu_range x a (length xs)"
      "gpu_bytes (w_nv w) x a (length xs) = Some xs"
    unfolding gpu_holds_def by blast
  have nz: "a \<noteq> 0" "xs \<noteq> []" using H by (auto simp: gpu_holds_def)
  have u: "unat (of_nat (length xs) :: u64) = length xs" using gpu_holds_length [OF H] by (simp add: unsigned_of_nat take_bit_nat_eq_self)
  have n0: "(of_nat (length xs) :: u64) \<noteq> 0" using u nz(2) by (metis length_0_conv unat_0)
  let ?ctx = "ctx\<lparr>gpu_bytes_transferred := gpu_bytes_transferred ctx + of_nat (length xs)\<rparr>"
  have "gpu_range x a (unat (of_nat (length xs) :: u64))" "0 < unat (of_nat (length xs) :: u64)" using x(3) u nz(2) by simp_all
  from d2h_in_range [OF inv x(1) this] x(4) have got:
    "nv_gpu_memcpy_d2h ctx (w_nv w) True a (of_nat (length xs)) = Some (NV_SUCCESS, Some xs, ?ctx)" unfolding u by auto
  let ?w = "w\<lparr>w_gpus := (w_gpus w)\<lparr>hp_mem := (hp_mem (w_gpus w))(gp \<mapsto> ?ctx)\<rparr>\<rparr>"
  have "cudaMemcpy dst (device_ptr a) (of_nat (length xs)) cudaMemcpyDeviceToHost w = Some (cudaSuccess, Some xs, ?w)"
    using cur hg got nz n0 dst by (simp add: cudaMemcpy_def device_ptr_def copy_result_def host_store_def heap_get_def heap_put_def)
  moreover have "gpu_holds ?w q zs" if q: "gpu_holds w q zs" for q zs
  proof -
    from q cur hg inv obtain y where "y \<in> set es" "ma_gpu_addr (snd y) = q" "gpu_range y q (length zs)"
      "gpu_bytes (w_nv w) y q (length zs) = Some zs" by (rule gpu_holdsE)
    moreover have "q \<noteq> 0" "zs \<noteq> []" using q by (auto simp: gpu_holds_def)
    moreover have "nv_inv ?ctx (w_nv w) es cs" using inv by (simp add: nv_inv_def)
    ultimately show ?thesis using cur by (intro gpu_holdsI [of q zs _ gp ?ctx es cs y]) (simp_all add: get_current_gpu_def heap_get_def)
  qed
  ultimately show ?thesis by blast
qed

text \<open>A new block holds zeros.\<close>

lemma new_block:
  assumes I: "cuda_inv io S w" and room: "addr_room (w_nv w) sz"
    and c: "cudaMalloc True sz w = Some (cudaSuccess, Some a, w1)" and nz: "a \<noteq> 0"
  shows "gpu_holds w1 a (replicate (unat sz) 0)" and "\<And>q zs. gpu_holds w q zs \<Longrightarrow> q \<noteq> a \<and> gpu_holds w1 q zs"
proof -
  from I room c obtain gp ctx ctx' xs cs r nv where g: "gpu_up w gp ctx xs cs" "get_current_gpu w = Some gp" "a = next_gpu_addr (w_nv w)"
    "w1 = with_gpu w gp ctx' nv" "0 < unat sz"
    and inv: "nv_inv ctx' nv (xs @ [(r, new_alloc (w_nv w) (alloc_zero\<lparr>ma_size := sz, ma_type := NV_MEM_TYPE_VIDEO\<rparr>))]) cs"
    and st: "hp_mem (h_stores nv) = (hp_mem (h_stores (w_nv w)))(hp_next (h_stores (w_nv w)) \<mapsto> buf_new (unat (page_round sz)))"
    by (cases rule: malloc_hot) blast
  let ?x = "(r, new_alloc (w_nv w) (alloc_zero\<lparr>ma_size := sz, ma_type := NV_MEM_TYPE_VIDEO\<rparr>))"
  have "unat sz + 4095 < 2 ^ 64" using room by (simp add: addr_room_def)
  from page_round_bounds(1) [OF g(5) this] have pr: "unat sz \<le> unat (page_round sz)" .
  have cur: "get_current_gpu w1 = Some gp" "heap_get (w_gpus w1) gp = Some ctx'" "w_nv w1 = nv" using g(2,4) by simp_all
  have "gpu_bytes nv ?x a (unat sz) = Some (replicate (unat sz) 0)"
    using st pr g(3) by (simp add: gpu_bytes_def entry_store_def new_alloc_def gpu_off_def buf_rd_def buf_new_def map_replicate_const)
  moreover have "gpu_range ?x a (unat sz)" using g(3) pr by (simp add: gpu_range_def new_alloc_def gpu_end_def)
  moreover have "ma_gpu_addr (snd ?x) = a" using g(3) by (simp add: new_alloc_def)
  ultimately show "gpu_holds w1 a (replicate (unat sz) 0)"
    using nz g(5) cur inv by (intro gpu_holdsI [of a _ w1 gp ctx' "xs @ [?x]" cs ?x]) simp_all
  fix q zs
  assume q: "gpu_holds w q zs"
  have hg: "heap_get (w_gpus w) gp = Some ctx" and v: "nv_inv ctx (w_nv w) xs cs" using g(1) by (simp_all add: gpu_up_def heap_get_def)
  from q g(2) hg v obtain y where y: "y \<in> set xs" "ma_gpu_addr (snd y) = q" "gpu_range y q (length zs)"
    "gpu_bytes (w_nv w) y q (length zs) = Some zs" by (rule gpu_holdsE)
  have rep: "mem_rep (h_allocs (w_nv w)) (h_stores (w_nv w)) (next_gpu_addr (w_nv w)) xs" using v by (simp add: nv_inv_def)
  have fresh: "hp_mem (h_stores (w_nv w)) (hp_next (h_stores (w_nv w))) = None"
    by (rule heap_wf_fresh) (use rep in \<open>simp add: mem_rep_def\<close>)
  obtain s b where "entry_store y = Some s" "hp_mem (h_stores (w_nv w)) s = Some b" using mem_rep_live(2) [OF rep y(1)] by blast
  with fresh st y(4) have "gpu_bytes nv y q (length zs) = Some zs" by (auto simp: gpu_bytes_def)
  moreover have "q \<noteq> 0" "zs \<noteq> []" using q by (auto simp: gpu_holds_def)
  moreover have "mem_rep (h_allocs nv) (h_stores nv) (next_gpu_addr nv) (xs @ [?x])" using inv by (simp add: nv_inv_def)
  from below_last [OF this y(1)] have "q \<noteq> a" using y(2) g(3) by (simp add: new_alloc_def)
  ultimately show "q \<noteq> a \<and> gpu_holds w1 q zs"
    using y cur inv by (simp add: gpu_holdsI [of q zs w1 gp ctx' "xs @ [?x]" cs y])
qed

section \<open>The library provides the interface\<close>

definition host_buffer :: "u64 \<Rightarrow> u8 list \<Rightarrow> host_ptr" where
  "host_buffer h bytes = \<lparr>hp_addr = h, hp_bytes = bytes, hp_room = length bytes\<rparr>"

definition cb_holds :: "library \<Rightarrow> u64 \<Rightarrow> u8 list \<Rightarrow> bool" where
  "cb_holds l = gpu_holds (lb_world l)"

definition cb_store :: "u64 \<Rightarrow> u64 \<Rightarrow> u8 list \<Rightarrow> library \<Rightarrow> library option" where
  "cb_store h a bytes l =
     do { (err, _, l) \<leftarrow> cbMemcpy (device_ptr a) (host_buffer h bytes) (of_nat (length bytes)) CB_MEMCPY_HOST_TO_DEVICE l;
          if err = cbSuccess then Some l else None }"

definition cb_load :: "u64 \<Rightarrow> u64 \<Rightarrow> nat \<Rightarrow> library \<Rightarrow> (u8 list \<times> library) option" where
  "cb_load h a n l =
     do { (err, out, l) \<leftarrow> cbMemcpy (host_buffer h (replicate n 0)) (device_ptr a) (of_nat n) CB_MEMCPY_DEVICE_TO_HOST l;
          out \<leftarrow> out;
          if err = cbSuccess then Some (out, l) else None }"

lemma holds_count: "gpu_holds w a xs \<Longrightarrow> length ys = length xs \<Longrightarrow> (of_nat (length ys) :: u64) \<noteq> 0 \<and> a \<noteq> 0"
proof -
  assume h: "gpu_holds w a xs" and l: "length ys = length xs"
  have "unat (of_nat (length ys) :: u64) = length ys" using gpu_holds_length [OF h] l by (simp add: unsigned_of_nat take_bit_nat_eq_self)
  moreover have "ys \<noteq> []" and "a \<noteq> 0" using h l by (auto simp: gpu_holds_def)
  ultimately show ?thesis by (metis length_0_conv unat_0)
qed

lemma cb_store_world:
  assumes "cb_holds l a xs" and "length ys = length xs" and "h \<noteq> 0"
  shows "\<exists>l'. cb_store h a ys l = Some l' \<and> cb_holds l' a ys \<and> (\<forall>q zs. q \<noteq> a \<longrightarrow> cb_holds l q zs \<longrightarrow> cb_holds l' q zs)"
proof -
  let ?src = "host_buffer h ys"
  have H: "gpu_holds (lb_world l) a xs" using assms(1) by (simp add: cb_holds_def)
  from copy_to_block [OF H assms(2), of ?src] assms(3) obtain w' where
    w': "cudaMemcpy (device_ptr a) ?src (of_nat (length ys)) cudaMemcpyHostToDevice (lb_world l) = Some (cudaSuccess, None, w')"
      "gpu_holds w' a ys" "\<forall>q zs. q \<noteq> a \<longrightarrow> gpu_holds (lb_world l) q zs \<longrightarrow> gpu_holds w' q zs" by (auto simp: host_buffer_def)
  from cb_memcpy_h2d [OF w'(1)] holds_count [OF H assms(2)] assms(3) have "cb_store h a ys l = Some (l\<lparr>lb_world := w'\<rparr>)"
    by (simp add: cb_store_def host_buffer_def)
  with w' show ?thesis by (simp add: cb_holds_def)
qed

lemma cb_load_world:
  assumes "cb_holds l a xs" and "h \<noteq> 0"
  shows "\<exists>l'. cb_load h a (length xs) l = Some (xs, l') \<and> (\<forall>q zs. cb_holds l q zs \<longrightarrow> cb_holds l' q zs)"
proof -
  let ?dst = "host_buffer h (replicate (length xs) 0)"
  have H: "gpu_holds (lb_world l) a xs" using assms(1) by (simp add: cb_holds_def)
  from copy_from_block [OF H, of ?dst] assms(2) obtain w' where
    w': "cudaMemcpy ?dst (device_ptr a) (of_nat (length xs)) cudaMemcpyDeviceToHost (lb_world l) = Some (cudaSuccess, Some xs, w')"
      "\<forall>q zs. gpu_holds (lb_world l) q zs \<longrightarrow> gpu_holds w' q zs" by (auto simp: host_buffer_def)
  from cb_memcpy_d2h [OF w'(1)] holds_count [OF H refl] assms(2) have "cb_load h a (length xs) l = Some (xs, l\<lparr>lb_world := w'\<rparr>)"
    by (simp add: cb_load_def host_buffer_def)
  with w' show ?thesis by (simp add: cb_holds_def)
qed

text \<open>A store that succeeds was from a usable buffer.\<close>

lemma cb_store_usable: "cb_store h a ys l = Some l' \<Longrightarrow> h \<noteq> 0"
  by (auto simp: cb_store_def cbMemcpy_def host_buffer_def reject_out_def)

lemma cb_load_usable: "cb_load h a n l = Some x \<Longrightarrow> h \<noteq> 0"
  by (auto simp: cb_load_def cbMemcpy_def host_buffer_def reject_out_def)

interpretation cb: device_memory cb_holds "\<lambda>h. h \<noteq> 0" cb_store cb_load
proof unfold_locales
  fix l a xs and ys :: "u8 list" and h :: u64
  assume a: "cb_holds l a xs" "length ys = length xs" "h \<noteq> 0"
  from cb_store_world [OF this] show "\<exists>l'. cb_store h a ys l = Some l'" by blast
next
  fix l a xs ys h l' assume a: "cb_holds l a xs" "length ys = length xs" "cb_store h a ys l = Some l'"
  from cb_store_world [OF a(1,2) cb_store_usable [OF a(3)]] a(3) show "cb_holds l' a ys" by auto
next
  fix l a xs ys h l' q zs
  assume a: "cb_holds l a xs" "length ys = length xs" "cb_store h a ys l = Some l'" and q: "cb_holds l q zs" "q \<noteq> a"
  from cb_store_world [OF a(1,2) cb_store_usable [OF a(3)]] a(3) q show "cb_holds l' q zs" by auto
next
  fix l a xs and h :: u64
  assume a: "cb_holds l a xs" "h \<noteq> 0"
  from cb_load_world [OF this] show "\<exists>l'. cb_load h a (length xs) l = Some (xs, l')" by blast
next
  fix l a xs h ys l' q zs assume a: "cb_holds l a xs" "cb_load h a (length xs) l = Some (ys, l')" and q: "cb_holds l q zs"
  from cb_load_world [OF a(1) cb_load_usable [OF a(2)]] a(2) q show "cb_holds l' q zs" by auto
qed

definition cb_room :: "library \<Rightarrow> nat \<Rightarrow> bool" where
  "cb_room l n \<longleftrightarrow> (\<exists>io S. cuda_inv io S (lb_world l)) \<and> n < 2 ^ 64 \<and> addr_room (w_nv (lb_world l)) (of_nat n) \<and>
     next_gpu_addr (w_nv (lb_world l)) \<noteq> 0"

definition cb_alloc :: "nat \<Rightarrow> library \<Rightarrow> (u64 \<times> library) option" where
  "cb_alloc n l =
     do { (err, out, l) \<leftarrow> cbMalloc True (of_nat n) l;
          out \<leftarrow> out;
          if err = cbSuccess then Some (out, l) else None }"

lemma cb_malloc_success:
  assumes "cbMalloc True n l = Some (cbSuccess, out, l')"
  obtains a w where "out = Some a" and "cudaMalloc True n (lb_world l) = Some (cudaSuccess, Some a, w)" and "l' = l\<lparr>lb_world := w\<rparr>"
proof -
  from assms obtain e w where w: "cudaMalloc True n (lb_world l) = Some (e, out, w)" "cuda_to_cb_error e = cbSuccess" "l' = l\<lparr>lb_world := w\<rparr>"
    by (auto simp: cbMalloc_def reject_out_def runtime_out_def record_error_out_def split: if_splits)
  then have "e = cudaSuccess" by simp
  moreover from this w(1) malloc_out obtain a where "out = Some a" by blast
  ultimately show thesis using w by (intro that) simp_all
qed

lemma cb_alloc_world:
  assumes "cb_room l n" and "cb_alloc n l = Some (a, l')"
  shows "cb_holds l' a (replicate n 0) \<and> (\<forall>q zs. cb_holds l q zs \<longrightarrow> q \<noteq> a \<and> cb_holds l' q zs)"
proof -
  from assms(2) have "cbMalloc True (of_nat n) l = Some (cbSuccess, Some a, l')"
    by (auto simp: cb_alloc_def split: if_splits elim!: bind_eq_SomeE)
  then obtain w where w: "cudaMalloc True (of_nat n) (lb_world l) = Some (cudaSuccess, Some a, w)" "l' = l\<lparr>lb_world := w\<rparr>"
    by (rule cb_malloc_success) simp
  from assms(1) obtain io S where I: "cuda_inv io S (lb_world l)" and r: "addr_room (w_nv (lb_world l)) (of_nat n)"
    and n: "n < 2 ^ 64" "next_gpu_addr (w_nv (lb_world l)) \<noteq> 0" by (auto simp: cb_room_def)
  have "a = next_gpu_addr (w_nv (lb_world l))" using I r w(1) by (cases rule: malloc_hot) simp
  then have a: "a \<noteq> 0" using n(2) by simp
  have "unat (of_nat n :: u64) = n" using n(1) by (simp add: unsigned_of_nat take_bit_nat_eq_self)
  with new_block [OF I r w(1) a] w(2) show ?thesis by (simp add: cb_holds_def)
qed

interpretation cbh: device_heap cb_holds "\<lambda>h. h \<noteq> 0" cb_store cb_load cb_room cb_alloc 0
  by unfold_locales (use cb_alloc_world in blast)+

end
