(* ===== verification/Vector_Add.thy ===== *)
theory Vector_Add
  imports Examples Device_Memory Python_Properties
begin

text \<open>
  The vector addition of \<open>vector_add.c\<close> step by step: what each step leaves alone, that recorded events stay recorded, that the
  copies of the example move whole blocks (by the interface of \<^theory_text>\<open>Device_Memory\<close>), and that the comparison of the result with a
  second addition passes.
\<close>

section \<open>What a program leaves alone\<close>

abbreviation pworld :: "example \<Rightarrow> world" where "pworld p \<equiv> lb_world (xp_lib p)"

lemma emit_sel [simp]: "xp_lib (emit env f a p) = xp_lib p" "xp_clock (emit env f a p) = xp_clock p"
  by (simp_all add: emit_def)

definition recorded :: "example \<Rightarrow> ptr \<Rightarrow> bool" where
  "recorded p ev \<longleftrightarrow> (\<exists>e. heap_get (w_events (pworld p)) ev = Some e \<and> ev_recorded e)"

text \<open>A step that prints and uses the device: the host memory and the next device address stay, and recorded events stay recorded.\<close>

definition after :: "example \<Rightarrow> example \<Rightarrow> bool" where
  "after p q \<longleftrightarrow> w_host (pworld q) = w_host (pworld p) \<and> gs_host_allocs (w_state (pworld q)) = gs_host_allocs (w_state (pworld p)) \<and>
     next_gpu_addr (w_nv (pworld q)) = next_gpu_addr (w_nv (pworld p)) \<and> (\<exists>s. xp_out q = xp_out p @ s) \<and> (\<forall>ev. recorded p ev \<longrightarrow> recorded q ev)"

lemma after_refl [simp]: "after p p"
  by (simp add: after_def)

lemma after_trans [trans]: "after p q \<Longrightarrow> after q r \<Longrightarrow> after p r"
  by (auto simp: after_def)

lemma after_emit [simp]: "after p (emit env f a p)"
  by (simp add: after_def recorded_def) (simp add: emit_def)

lemma emit_after: "after (emit env f a p) q \<Longrightarrow> after p q"
  by (rule after_trans [OF after_emit])

lemma recorded_emit [simp]: "recorded (emit env f a p) ev = recorded p ev"
  by (simp add: recorded_def)

text \<open>The state between the steps of \<open>vector_add.c\<close>: the two events are live, and the device holds what \<open>m\<close> says.\<close>

definition run_ok :: "iokit option \<Rightarrow> (ptr \<times> ptr) list \<Rightarrow> vector_vars \<Rightarrow> (u64 \<rightharpoonup> u8 list) \<Rightarrow> example \<Rightarrow> bool" where
  "run_ok io S v m p \<longleftrightarrow> cuda_inv io S (pworld p) \<and> lb_initialized (xp_lib p) \<and> cb.holds_map (xp_lib p) m \<and>
     {va_start v, va_stop v} \<subseteq> dom (hp_mem (w_events (pworld p))) \<and> va_start v \<noteq> va_stop v"

lemma run_ok_emit [simp]: "run_ok io S v m (emit env f a p) = run_ok io S v m p"
  by (simp add: run_ok_def)

lemma cb_holds_cong:
  "w_state (lb_world l') = w_state (lb_world l) \<Longrightarrow> w_nv (lb_world l') = w_nv (lb_world l) \<Longrightarrow> w_gpus (lb_world l') = w_gpus (lb_world l) \<Longrightarrow>
   cb.holds_map l' m = cb.holds_map l m"
  by (simp add: cb.holds_map_def cb_holds_def gpu_holds_def get_current_gpu_def)

section \<open>Events\<close>

lemma record_step:
  assumes ok: "run_ok io S v m p" and ev: "ev \<in> {va_start v, va_stop v}"
  shows "\<exists>q. record_event env ev p = Some q \<and> run_ok io S v m q \<and> after p q \<and> recorded q ev"
proof -
  obtain sec nsec where t: "xe_clock env (xp_clock p) = (sec, nsec)" by fastforce
  obtain e where e: "heap_get (w_events (pworld p)) ev = Some e" using ok ev by (auto simp: run_ok_def heap_get_def)
  let ?e = "e\<lparr>ev_timestamp := sec * 1000000000 + nsec, ev_recorded := True\<rparr>"
  let ?he = "(w_events (pworld p))\<lparr>hp_mem := (hp_mem (w_events (pworld p)))(ev \<mapsto> ?e)\<rparr>"
  have put: "heap_put (w_events (pworld p)) ev ?e = Some ?he" using e by (simp add: heap_put_def heap_get_def)
  let ?w = "(pworld p)\<lparr>w_events := ?he\<rparr>"
  let ?q = "p\<lparr>xp_clock := Suc (xp_clock p), xp_lib := (xp_lib p)\<lparr>lb_world := ?w\<rparr>\<rparr>"
  have r: "record_event env ev p = Some ?q"
    using t e put by (simp add: record_event_def call_def cbEventRecord_def runtime_def cudaEventRecord_def)
  have "cuda_inv io S ?w"
    using ok by (intro inv_events) (auto simp: run_ok_def intro: heap_put_wf [OF inv_wf(3) put])
  moreover have "cb.holds_map (xp_lib ?q) m" using ok cb_holds_cong [of "xp_lib ?q" "xp_lib p" m] by (simp add: run_ok_def)
  ultimately have "run_ok io S v m ?q" using ok by (auto simp: run_ok_def)
  moreover have "after p ?q" by (auto simp: after_def recorded_def heap_get_def)
  moreover have "recorded ?q ev" by (simp add: recorded_def heap_get_def)
  ultimately show ?thesis using r by blast
qed

lemma elapsed_step:
  assumes "recorded p a" and "recorded p b"
  shows "\<exists>t. elapsed_time env a b p = Some (t, p)"
proof -
  from assms obtain x y where "heap_get (w_events (pworld p)) a = Some x" "ev_recorded x"
    "heap_get (w_events (pworld p)) b = Some y" "ev_recorded y" by (auto simp: recorded_def)
  then have "cudaEventElapsedTime True (Some a) (Some b) (pworld p) =
      Some (cudaSuccess, Some (if ev_timestamp y < ev_timestamp x then 0 else ev_timestamp y - ev_timestamp x), pworld p)"
    by (simp add: cudaEventElapsedTime_def)
  then show ?thesis by (simp add: elapsed_time_def call_out_def cbEventElapsedTime_def runtime_out_def)
qed

lemma lap_step:
  assumes ok: "run_ok io S v m p" and r: "recorded p (va_start v)"
  shows "\<exists>t q. va_lap env v p = Some (t, q) \<and> run_ok io S v m q \<and> after p q"
proof -
  from record_step [OF ok, of "va_stop v" env] obtain q where
    q: "record_event env (va_stop v) p = Some q" "run_ok io S v m q" "after p q" "recorded q (va_stop v)" by auto
  have "recorded q (va_start v)" using r q(3) by (simp add: after_def)
  from elapsed_step [OF this q(4), of env] q show ?thesis by (auto simp: va_lap_def)
qed

section \<open>Copies\<close>

lemma nv_copy_next:
  "nv_gpu_memcpy_h2d ctx h a bs n = Some (r, ctx', h') \<Longrightarrow> next_gpu_addr h' = next_gpu_addr h"
  "nv_gpu_memcpy_d2d ctx h a b n = Some (r, h') \<Longrightarrow> next_gpu_addr h' = next_gpu_addr h"
  by (auto simp: nv_gpu_memcpy_h2d_def nv_gpu_memcpy_d2d_def Let_def split: if_splits option.splits elim!: bind_eq_SomeE)

lemma memcpy_next:
  assumes "cudaMemcpy dst src n kind w = Some (e, out, w')"
  shows "next_gpu_addr (w_nv w') = next_gpu_addr (w_nv w)"
  using assms by (cases kind) (auto simp: cudaMemcpy_def fail_out_def copy_result_def world_simps nv_copy_next
    split: if_splits option.splits elim!: bind_eq_SomeE)

lemma cb_memcpy_frame:
  assumes "cbMemcpy dst src n kind l = Some (e, out, l')" and "cuda_inv io S (lb_world l)"
  shows "cuda_inv io S (lb_world l') \<and> w_host (lb_world l') = w_host (lb_world l) \<and> w_events (lb_world l') = w_events (lb_world l) \<and>
    gs_host_allocs (w_state (lb_world l')) = gs_host_allocs (w_state (lb_world l)) \<and> lb_initialized l' = lb_initialized l \<and>
    next_gpu_addr (w_nv (lb_world l')) = next_gpu_addr (w_nv (lb_world l))"
  using assms memcpy_keeps [OF assms(2)] memcpy_next
  by (auto simp: cbMemcpy_def reject_out_def runtime_out_def record_error_out_def SET_ERROR_def split: if_splits)

lemma run_ok_lib:
  assumes ok: "run_ok io S v m p" and c: "cbMemcpy dst src n kind (xp_lib p) = Some (e, out, l)" and h: "cb.holds_map l m'"
  shows "run_ok io S v m' (p\<lparr>xp_lib := l\<rparr>) \<and> after p (p\<lparr>xp_lib := l\<rparr>)"
proof -
  from cb_memcpy_frame [OF c, of io S] ok have "cuda_inv io S (lb_world l)" "w_host (lb_world l) = w_host (pworld p)"
    "w_events (lb_world l) = w_events (pworld p)" "gs_host_allocs (w_state (lb_world l)) = gs_host_allocs (w_state (pworld p))"
    "lb_initialized l" "next_gpu_addr (w_nv (lb_world l)) = next_gpu_addr (w_nv (pworld p))" by (simp_all add: run_ok_def)
  with ok h show ?thesis by (simp add: run_ok_def after_def recorded_def)
qed

lemma copy_in_step:
  assumes ok: "run_ok io S v m p" and d: "m d = Some xs" "length bytes = length xs" and h: "h \<noteq> 0" and n: "n = of_nat (length bytes)"
  shows "\<exists>q. copy_in d h bytes n p = Some (cbSuccess, q) \<and> run_ok io S v (m(d \<mapsto> bytes)) q \<and> after p q"
proof -
  from ok have "cb.holds_map (xp_lib p) m" by (simp add: run_ok_def)
  from cb.store_map [OF this d h] obtain l where l: "cb_store h d bytes (xp_lib p) = Some l" "cb.holds_map l (m(d \<mapsto> bytes))" by blast
  from l(1) obtain out where c: "cbMemcpy (device_ptr d) (host_buf h bytes) n CB_MEMCPY_HOST_TO_DEVICE (xp_lib p) = Some (cbSuccess, out, l)"
    by (auto simp: cb_store_def host_buffer_def host_buf_def n split: if_splits elim!: bind_eq_SomeE)
  from run_ok_lib [OF ok c l(2)] c show ?thesis by (simp add: copy_in_def call_out_def)
qed

text \<open>What a copy to the host returns does not depend on what its buffer held.\<close>

lemma host_store_old: "host_store \<lparr>hp_addr = h, hp_bytes = xs, hp_room = k\<rparr> = host_store \<lparr>hp_addr = h, hp_bytes = ys, hp_room = k\<rparr>"
  by (rule ext) (simp add: host_store_def)

lemma memcpy_old_bytes:
  "cbMemcpy \<lparr>hp_addr = h, hp_bytes = xs, hp_room = k\<rparr> src n CB_MEMCPY_DEVICE_TO_HOST l =
   cbMemcpy \<lparr>hp_addr = h, hp_bytes = ys, hp_room = k\<rparr> src n CB_MEMCPY_DEVICE_TO_HOST l"
  by (simp add: cbMemcpy_def cudaMemcpy_def cuda_kind_def host_store_old [of h xs k ys] cong: option.case_cong)

lemma copy_back_step:
  assumes ok: "run_ok io S v m p" and d: "m d = Some xs" "length old = length xs" and h: "h \<noteq> 0" and n: "n = of_nat (length xs)"
  shows "\<exists>q. copy_back h old d n p = Some (cbSuccess, xs, q) \<and> run_ok io S v m q \<and> after p q"
proof -
  from ok have "cb.holds_map (xp_lib p) m" by (simp add: run_ok_def)
  from cb.load_map [OF this d(1) h] obtain l where l: "cb_load h d (length xs) (xp_lib p) = Some (xs, l)" "cb.holds_map l m" by blast
  from l(1) have c: "cbMemcpy (host_buf h old) (device_ptr d) n CB_MEMCPY_DEVICE_TO_HOST (xp_lib p) = Some (cbSuccess, Some xs, l)"
    unfolding host_buf_def memcpy_old_bytes [of h old _ _ _ _ "replicate (length xs) 0"]
    by (auto simp: cb_load_def host_buffer_def n d(2) split: if_splits elim!: bind_eq_SomeE)
  have "received old (Some xs) = xs" using d(2) by (simp add: received_def)
  with run_ok_lib [OF ok c l(2)] c show ?thesis by (simp add: copy_back_def call_out_def)
qed

section \<open>The data\<close>

text \<open>IEEE single precision: a sum has a 32-bit code, and the difference of a number and itself is zero or not a number.\<close>

definition float_sane :: "example_env \<Rightarrow> bool" where
  "float_sane env \<longleftrightarrow> (\<forall>x y. fp32 (xe_fp env) CBPY_OP_ADD x y < 2 ^ 32) \<and>
     (\<forall>x. \<not> fp64_less (xe_fp env) (xe_double env (1 / 100000)) (fabs (fp_widen (xe_fp env) (fp32 (xe_fp env) CBPY_OP_SUB x x))))"

definition vector_sums :: "example_env \<Rightarrow> nat list" where
  "vector_sums env = map (\<lambda>i. fp32 (xe_fp env) CBPY_OP_ADD (xe_float env (of_nat i) mod 2 ^ 32) (xe_float env (of_nat (VECTOR_N - i)) mod 2 ^ 32))
     [0..<VECTOR_N]"

lemma float_bytes_length [simp]: "length (float_bytes xs) = length xs * 4"
  by (simp add: float_bytes_def length_concat_codes)

lemma elem_float_bytes: "i < length xs \<Longrightarrow> elem_at 4 (float_bytes xs) i = Some (xs ! i mod 2 ^ 32)"
  by (simp add: float_bytes_def elem_at_codes_mod)

lemma inputs [simp]:
  "length (input_a env) = VECTOR_N * 4" "length (input_b env) = VECTOR_N * 4" "length (vector_sums env) = VECTOR_N"
  by (simp_all add: input_a_def input_b_def vector_sums_def)

lemma elem_inputs:
  assumes "i < VECTOR_N"
  shows "elem_at 4 (input_a env) i = Some (xe_float env (of_nat i) mod 2 ^ 32)"
    and "elem_at 4 (input_b env) i = Some (xe_float env (of_nat (VECTOR_N - i)) mod 2 ^ 32)"
  using assms by (simp_all add: input_a_def input_b_def elem_float_bytes)

lemma elem_sums:
  assumes "float_sane env" and "i < VECTOR_N"
  shows "elem_at 4 (float_bytes (vector_sums env)) i =
    Some (fp32 (xe_fp env) CBPY_OP_ADD (xe_float env (of_nat i) mod 2 ^ 32) (xe_float env (of_nat (VECTOR_N - i)) mod 2 ^ 32))"
  using assms by (simp add: elem_float_bytes vector_sums_def float_sane_def)

lemma vector_add_cpu_sums: "vector_add_cpu (xe_fp env) (input_a env) (input_b env) VECTOR_N = Some (float_bytes (vector_sums env))"
proof -
  have "each VECTOR_N (\<lambda>i. do { x \<leftarrow> elem_at 4 (input_a env) i; y \<leftarrow> elem_at 4 (input_b env) i; Some (fp32 (xe_fp env) CBPY_OP_ADD x y) }) =
      Some (vector_sums env)"
    by (simp add: each_iff elem_inputs vector_sums_def)
  then show ?thesis by (simp add: vector_add_cpu_def)
qed

text \<open>The comparison of the sums with the sums passes, and prints nothing.\<close>

lemma verify_sums:
  assumes "float_sane env" and "i + k = VECTOR_N"
  shows "verify_from env (input_a env) (input_b env) (float_bytes (vector_sums env)) i k p = Some (1, p)"
  using assms(2)
proof (induction k arbitrary: i)
  case (Suc k)
  then have "i < VECTOR_N" by simp
  with Suc assms(1) show ?case by (simp add: elem_inputs elem_sums Let_def) (simp add: float_sane_def)
qed simp

section \<open>The computation\<close>

definition printed :: "example \<Rightarrow> string \<Rightarrow> bool" where
  "printed p s \<longleftrightarrow> (\<exists>u v. xp_out p = u @ s @ v)"

lemma printed_after: "printed p s \<Longrightarrow> after p q \<Longrightarrow> printed q s"
  unfolding printed_def after_def by (metis append.assoc)

lemma after_emits: "after p q \<Longrightarrow> after p (emit env f a q)"
  by (rule after_trans [OF _ after_emit])

lemma samples_total:
  assumes "float_sane env"
  shows "\<exists>q. va_samples env (float_bytes (vector_sums env)) t p = Some q \<and> after p q \<and> (\<forall>io S v m. run_ok io S v m p \<longrightarrow> run_ok io S v m q)"
proof -
  have "0 < VECTOR_N" "VECTOR_N div 2 < VECTOR_N" "VECTOR_N - 1 < VECTOR_N" by (simp_all add: VECTOR_N_def)
  with assms show ?thesis by (simp add: va_samples_def elem_inputs elem_sums after_emits)
qed

lemma check_passes:
  assumes "float_sane env"
  shows "\<exists>q. va_check env (float_bytes (vector_sums env)) p = Some q \<and> after p q \<and> printed q (''Result: PASSED'' @ newline) \<and>
    (\<forall>io S v m. run_ok io S v m p \<longrightarrow> run_ok io S v m q)"
proof -
  let ?p = "emit env (newline @ ''Verifying result...'' @ newline) [] p"
  let ?q = "emit env (''Result: PASSED'' @ newline) [] ?p"
  have "va_check env (float_bytes (vector_sums env)) p = Some ?q"
    using verify_sums [OF assms, of 0 VECTOR_N ?p] by (simp add: va_check_def verify_result_def)
  moreover have "xp_out ?q = xp_out ?p @ ''Result: PASSED'' @ newline @ []"
    by (simp add: emit_def newline_def)
  then have "printed ?q (''Result: PASSED'' @ newline)" unfolding printed_def by (metis append.assoc)
  moreover have "after p ?q" by (rule after_trans [OF after_emit after_emit])
  ultimately show ?thesis by (intro exI [of _ ?q]) simp
qed


text \<open>The rate lines only print.\<close>

abbreviation blocks :: "vector_vars \<Rightarrow> u8 list \<Rightarrow> u8 list \<Rightarrow> u8 list \<Rightarrow> u64 \<rightharpoonup> u8 list" where
  "blocks v a b c \<equiv> [va_da v \<mapsto> a, va_db v \<mapsto> b, va_dc v \<mapsto> c]"

definition vars_ok :: "vector_vars \<Rightarrow> bool" where
  "vars_ok v \<longleftrightarrow> 0 \<notin> {va_ha v, va_hb v, va_hc v} \<and> va_da v \<noteq> va_db v \<and> va_da v \<noteq> va_dc v \<and> va_db v \<noteq> va_dc v"

lemma vector_bytes: "VECTOR_BYTES = of_nat (VECTOR_N * 4)"
  by (simp add: VECTOR_BYTES_def VECTOR_N_def)

lemma record_start:
  assumes "run_ok io S v m p"
  obtains q where "record_event env (va_start v) p = Some q" and "run_ok io S v m q" and "after p q" and "recorded q (va_start v)"
  using record_step [OF assms, of "va_start v" env] by blast

lemma upload_step:
  assumes ok: "run_ok io S v (blocks v x y z) p" and v: "vars_ok v"
    and l: "length x = VECTOR_N * 4" "length y = VECTOR_N * 4"
  obtains t q where "va_upload env v p = Some (Some t, q)" and "run_ok io S v (blocks v (input_a env) (input_b env) z) q" and "after p q"
proof -
  have n: "VECTOR_BYTES = of_nat (length (input_a env))" "VECTOR_BYTES = of_nat (length (input_b env))" by (simp_all add: vector_bytes)
  have la: "length (input_a env) = length x" "length (input_b env) = length y" using l by simp_all
  have ok0: "run_ok io S v (blocks v x y z) (emit env (''Copying data to device...'' @ newline) [] p)" using ok by simp
  obtain p1 where p1: "record_event env (va_start v) (emit env (''Copying data to device...'' @ newline) [] p) = Some p1"
    "run_ok io S v (blocks v x y z) p1" "after p p1" "recorded p1 (va_start v)"
    by (rule record_start [OF ok0]) (blast dest: emit_after)
  have "blocks v x y z (va_da v) = Some x" "va_ha v \<noteq> 0" using v by (auto simp: vars_ok_def)
  from copy_in_step [OF p1(2) this(1) la(1) this(2) n(1)] obtain p2 where
    p2: "copy_in (va_da v) (va_ha v) (input_a env) VECTOR_BYTES p1 = Some (cbSuccess, p2)"
      "run_ok io S v ((blocks v x y z)(va_da v \<mapsto> input_a env)) p2" "after p1 p2" by blast
  have "((blocks v x y z)(va_da v \<mapsto> input_a env)) (va_db v) = Some y" "va_hb v \<noteq> 0" using v by (auto simp: vars_ok_def)
  from copy_in_step [OF p2(2) this(1) la(2) this(2) n(2)] obtain p3 where
    p3: "copy_in (va_db v) (va_hb v) (input_b env) VECTOR_BYTES p2 = Some (cbSuccess, p3)"
      "run_ok io S v ((blocks v x y z)(va_da v \<mapsto> input_a env, va_db v \<mapsto> input_b env)) p3" "after p2 p3" by blast
  have m: "(blocks v x y z)(va_da v \<mapsto> input_a env, va_db v \<mapsto> input_b env) = blocks v (input_a env) (input_b env) z"
    using v by (auto simp: vars_ok_def)
  have "recorded p3 (va_start v)" using p1(4) p2(3) p3(3) by (simp add: after_def)
  from lap_step [OF p3(2) this, of env] obtain t p4 where
    p4: "va_lap env v p3 = Some (t, p4)" "run_ok io S v (blocks v (input_a env) (input_b env) z) p4" "after p3 p4" unfolding m by blast
  have "after p p4" by (rule after_trans [OF p1(3) after_trans [OF p2(3) after_trans [OF p3(3) p4(3)]]])
  with p1(1) p2(1) p3(1) p4(1,2) have "\<exists>t q. va_upload env v p = Some (Some t, q) \<and>
      run_ok io S v (blocks v (input_a env) (input_b env) z) q \<and> after p q" by (simp add: va_upload_def after_emits)
  then show thesis using that by blast
qed

lemma kernel_step:
  assumes ok: "run_ok io S v (blocks v (input_a env) (input_b env) z) p" and v: "vars_ok v" and l: "length z = VECTOR_N * 4"
  obtains t q where "va_kernel env v p = Some (input_a env, input_b env, float_bytes (vector_sums env), t, q)"
    and "run_ok io S v (blocks v (input_a env) (input_b env) (float_bytes (vector_sums env))) q" and "after p q"
proof -
  let ?a = "input_a env" and ?b = "input_b env" and ?c = "float_bytes (vector_sums env)"
  have n: "VECTOR_BYTES = of_nat (length ?a)" "VECTOR_BYTES = of_nat (length ?b)" "VECTOR_BYTES = of_nat (length ?c)"
    by (simp_all add: vector_bytes)
  have ok0: "run_ok io S v (blocks v ?a ?b z) (emit env (''Executing vector addition...'' @ newline) [] p)" using ok by simp
  obtain p1 where p1: "record_event env (va_start v) (emit env (''Executing vector addition...'' @ newline) [] p) = Some p1"
    "run_ok io S v (blocks v ?a ?b z) p1" "after p p1" "recorded p1 (va_start v)"
    by (rule record_start [OF ok0]) (blast dest: emit_after)
  have d: "blocks v ?a ?b z (va_da v) = Some ?a" "blocks v ?a ?b z (va_db v) = Some ?b" "blocks v ?a ?b z (va_dc v) = Some z"
    and h: "va_ha v \<noteq> 0" "va_hb v \<noteq> 0" "va_hc v \<noteq> 0" using v by (auto simp: vars_ok_def)
  from copy_back_step [OF p1(2) d(1) _ h(1) n(1)] obtain p2 where
    p2: "copy_back (va_ha v) ?a (va_da v) VECTOR_BYTES p1 = Some (cbSuccess, ?a, p2)" "run_ok io S v (blocks v ?a ?b z) p2" "after p1 p2" by blast
  from copy_back_step [OF p2(2) d(2) _ h(2) n(2)] obtain p3 where
    p3: "copy_back (va_hb v) ?b (va_db v) VECTOR_BYTES p2 = Some (cbSuccess, ?b, p3)" "run_ok io S v (blocks v ?a ?b z) p3" "after p2 p3" by blast
  have "length ?c = length z" using l by simp
  from copy_in_step [OF p3(2) d(3) this h(3) n(3)] obtain p4 where
    p4: "copy_in (va_dc v) (va_hc v) ?c VECTOR_BYTES p3 = Some (cbSuccess, p4)"
      "run_ok io S v (blocks v ?a ?b ?c) p4" "after p3 p4" by (auto simp only: fun_upd_upd)
  have "recorded p4 (va_start v)" using p1(4) p2(3) p3(3) p4(3) by (simp add: after_def)
  from lap_step [OF p4(2) this, of env] obtain t p5 where
    p5: "va_lap env v p4 = Some (t, p5)" "run_ok io S v (blocks v ?a ?b ?c) p5" "after p4 p5" by blast
  have "after p p5" by (rule after_trans [OF p1(3) after_trans [OF p2(3) after_trans [OF p3(3) after_trans [OF p4(3) p5(3)]]]])
  with p1(1) p2(1) p3(1) p4(1) p5(1,2) have "\<exists>t q. va_kernel env v p = Some (?a, ?b, ?c, t, q) \<and>
      run_ok io S v (blocks v ?a ?b ?c) q \<and> after p q" by (simp add: va_kernel_def vector_add_cpu_sums after_emits)
  then show thesis using that by blast
qed

lemma compute_passes:
  assumes ok: "run_ok io S v (blocks v x y z) p" and v: "vars_ok v" and f: "float_sane env"
    and l: "length x = VECTOR_N * 4" "length y = VECTOR_N * 4" "length z = VECTOR_N * 4"
  shows "\<exists>q. va_compute env v p = Some q \<and> run_ok io S v (blocks v (input_a env) (input_b env) (float_bytes (vector_sums env))) q \<and>
    after p q \<and> printed q (''Result: PASSED'' @ newline)"
proof -
  let ?a = "input_a env" and ?b = "input_b env" and ?c = "float_bytes (vector_sums env)"
  obtain t1 p1 where p1: "va_upload env v p = Some (Some t1, p1)" "run_ok io S v (blocks v ?a ?b z) p1" "after p p1"
    by (rule upload_step [OF ok v l(1,2)])
  obtain t2 p2 where p2: "va_kernel env v p1 = Some (?a, ?b, ?c, t2, p2)" "run_ok io S v (blocks v ?a ?b ?c) p2" "after p1 p2"
    by (rule kernel_step [OF p1(2) v l(3)])
  have ok2: "run_ok io S v (blocks v ?a ?b ?c) (emit env (''Copying result to host...'' @ newline) [] p2)" using p2(2) by simp
  obtain p3 where p3: "record_event env (va_start v) (emit env (''Copying result to host...'' @ newline) [] p2) = Some p3"
    "run_ok io S v (blocks v ?a ?b ?c) p3" "after p2 p3" "recorded p3 (va_start v)"
    by (rule record_start [OF ok2]) (blast dest: emit_after)
  have n: "VECTOR_BYTES = of_nat (length ?c)" and d: "blocks v ?a ?b ?c (va_dc v) = Some ?c" and h: "va_hc v \<noteq> 0"
    using v by (simp_all add: vector_bytes vars_ok_def)
  from copy_back_step [OF p3(2) d refl h n] obtain p4 where
    p4: "copy_back (va_hc v) ?c (va_dc v) VECTOR_BYTES p3 = Some (cbSuccess, ?c, p4)" "run_ok io S v (blocks v ?a ?b ?c) p4" "after p3 p4" by blast
  have "recorded p4 (va_start v)" using p3(4) p4(3) by (simp add: after_def)
  from lap_step [OF p4(2) this, of env] obtain t3 p5 where
    p5: "va_lap env v p4 = Some (t3, p5)" "run_ok io S v (blocks v ?a ?b ?c) p5" "after p4 p5" by blast
  let ?p5 = "emit env (''  D2H transfer time: %.2f ms (%.2f GB/s)'' @ newline)
    [AFloat (fp_widen (xe_fp env) t3), AFloat (gigabytes_per_second env (xe_double env (of_nat (unat VECTOR_BYTES))) t3)] p5"
  from check_passes [OF f, of ?p5] obtain p6 where
    p6: "va_check env ?c ?p5 = Some p6" "after ?p5 p6" "printed p6 (''Result: PASSED'' @ newline)" "run_ok io S v (blocks v ?a ?b ?c) p6"
    using p5(2) by auto
  let ?t = "fp32 (xe_fp env) CBPY_OP_ADD (fp32 (xe_fp env) CBPY_OP_ADD t1 t2) t3"
  from samples_total [OF f, of ?t p6] obtain q where
    q: "va_samples env ?c ?t p6 = Some q" "after p6 q" "run_ok io S v (blocks v ?a ?b ?c) q" using p6(4) by blast
  have "va_compute env v p = Some q"
    using p1(1) p2(1) p3(1) p4(1) p5(1) p6(1) q(1) by (simp add: va_compute_def)
  moreover have "after p q"
    by (rule after_trans [OF p1(3) after_trans [OF p2(3) after_trans [OF p3(3) after_trans [OF p4(3) after_trans [OF p5(3)
      after_trans [OF emit_after [OF p6(2)] q(2)]]]]]])
  moreover have "printed q (''Result: PASSED'' @ newline)" by (rule printed_after [OF p6(3) q(2)])
  ultimately show ?thesis using q(3) by blast
qed

end
