(* ===== verification/Vector_Setup.thy ===== *)
theory Vector_Setup
  imports Vector_Add
begin

text \<open>
  The buffers and events of \<open>vector_add.c\<close>: the host memory the runtime tracks and the rest of it, three host buffers and three
  zeroed device blocks that do not overlap, the memory that is enough for them, and their release before \<open>cbShutdown\<close>.
\<close>

section \<open>Host buffers\<close>

text \<open>The host memory the runtime does not track.\<close>

definition tracked :: "world \<Rightarrow> u64 set" where
  "tracked w = ha_ptr ` set (gs_host_allocs (w_state w))"

definition untracked :: "world \<Rightarrow> u64 \<rightharpoonup> buf" where
  "untracked w = hm_live (w_host w) |` (- tracked w)"

lemma untracked_cong:
  "w_host w' = w_host w \<Longrightarrow> gs_host_allocs (w_state w') = gs_host_allocs (w_state w) \<Longrightarrow>
   untracked w' = untracked w \<and> tracked w' = tracked w"
  by (simp add: untracked_def tracked_def)

lemma picks_host_fresh: "picks_fresh (Suc k) h \<Longrightarrow> host_fresh h"
  unfolding host_fresh_def using picks_fresh_def [of "Suc k" h] by (metis add.right_neutral zero_less_Suc)

text \<open>Room to allocate and track \<open>k\<close> more buffers.\<close>

definition host_space :: "nat \<Rightarrow> world \<Rightarrow> bool" where
  "host_space k w \<longleftrightarrow> picks_fresh k (w_host w) \<and> length (gs_host_allocs (w_state w)) + k \<le> MAX_HOST_ALLOCS"

lemma malloc_host_step:
  assumes I: "cuda_inv io S w" and s: "host_space (Suc k) w" and c: "cudaMallocHost True n w = (cudaSuccess, out, w')"
  shows "\<exists>a. out = Some a \<and> a \<noteq> 0 \<and> cuda_inv io S w' \<and> host_space k w' \<and> untracked w' = untracked w \<and> tracked w' = insert a (tracked w) \<and>
    w_nv w' = w_nv w \<and> w_gpus w' = w_gpus w \<and> w_events w' = w_events w \<and> get_current_gpu w' = get_current_gpu w"
proof -
  obtain a hm where h: "host_alloc (w_host w) n = (a, hm)" by fastforce
  from s have f: "picks_fresh (Suc k) (w_host w)" and l: "length (gs_host_allocs (w_state w)) < MAX_HOST_ALLOCS"
    by (simp_all add: host_space_def)
  from c h have a: "a \<noteq> 0" "out = Some a" and w': "w' = track_host_alloc a False (w\<lparr>w_host := hm\<rparr>)"
    by (auto simp: cudaMallocHost_def fail_out_def Let_def split: if_splits)
  from host_alloc_fresh [OF h f] a(1) have d: "picks_fresh k hm" "a \<notin> dom (hm_live (w_host w))"
    "hm_live hm = (hm_live (w_host w))(a \<mapsto> buf_new (unat n))" by simp_all
  have "cuda_inv io S w'" using malloc_host_total [OF I picks_host_fresh [OF f], of True n] c by simp
  moreover have "host_space k w'" using w' l s d(1) by (simp add: host_space_def track_host_alloc_def world_simps)
  moreover have t: "tracked w' = insert a (tracked w)" using w' l by (simp add: tracked_def track_host_alloc_def world_simps)
  moreover have "w_host w' = hm" using w' l by (simp add: track_host_alloc_def world_simps)
  then have "untracked w' = untracked w" using t d(2,3) by (auto simp: untracked_def restrict_map_def fun_eq_iff)
  ultimately show ?thesis using a w' l by (simp add: track_host_alloc_def world_simps get_current_gpu_def Let_def)
qed

lemma remove_ptr_set:
  "distinct (map ha_ptr as) \<Longrightarrow> ha_ptr ` set (remove_first (\<lambda>a. ha_ptr a = p) as) = ha_ptr ` set as - {p}"
  by (induction as) (auto simp: image_iff)

lemma tracked_free_step:
  assumes I: "cuda_inv io S w" and f: "free_tracked_host_alloc p w = Some (t, w')"
  shows "cuda_inv io S w' \<and> untracked w' = untracked w \<and> tracked w' = tracked w - {p}"
proof (cases t)
  case True
  from tracked_free [OF I, of p] f True have a: "cuda_inv io S w'" "p \<in> tracked w"
    "hm_live (w_host w') = (hm_live (w_host w))(p := None)" by (auto simp: tracked_def)
  have "distinct (map ha_ptr (gs_host_allocs (w_state w)))" using I by (simp add: cuda_inv_def heaps_ok_def host_ok_def)
  note r = remove_ptr_set [OF this, of p]
  from f True obtain hm where "w' = set_state (gs_host_allocs_update (remove_first (\<lambda>a. ha_ptr a = p))) (w\<lparr>w_host := hm\<rparr>)"
    by (auto simp: free_tracked_host_alloc_def split: if_splits elim!: bind_eq_SomeE)
  then have "tracked w' = tracked w - {p}" using r by (simp add: tracked_def world_simps)
  with a show ?thesis by (auto simp: untracked_def restrict_map_def fun_eq_iff)
next
  case False
  with tracked_free [OF I, of p] f show ?thesis by (auto simp: tracked_def)
qed

section \<open>The setup\<close>

definition gpu_space :: "nat \<Rightarrow> world \<Rightarrow> bool" where
  "gpu_space j w \<longleftrightarrow> next_gpu_addr (w_nv w) \<noteq> 0 \<and> unat (next_gpu_addr (w_nv w)) + j * (VECTOR_N * 4) + 4095 < 2 ^ 64"

text \<open>The state while the buffers are allocated: room for \<open>k\<close> host and \<open>j\<close> device buffers more.\<close>

definition prep :: "iokit option \<Rightarrow> (ptr \<times> ptr) list \<Rightarrow> (u64 \<rightharpoonup> buf) \<Rightarrow> u64 set \<Rightarrow> nat \<Rightarrow> nat \<Rightarrow> (u64 \<rightharpoonup> u8 list) \<Rightarrow> example \<Rightarrow> bool" where
  "prep io S L H k j m p \<longleftrightarrow> cuda_inv io S (pworld p) \<and> lb_initialized (xp_lib p) \<and> host_space k (pworld p) \<and>
     untracked (pworld p) = L \<and> tracked (pworld p) = H \<and> gpu_space j (pworld p) \<and> cb.holds_map (xp_lib p) m"

lemma prep_emit [simp]: "prep io S L H k j m (emit env f a p) = prep io S L H k j m p"
  by (simp add: prep_def)

lemma or_undefinedE:
  assumes "or_undefined (call_out f p) = Some (x, q)"
  obtains l where "f (xp_lib p) = Some (cbSuccess, Some x, l)" and "q = p\<lparr>xp_lib := l\<rparr>"
  using assms by (auto simp: or_undefined_def call_out_def split: if_splits elim!: bind_eq_SomeE)

lemma vector_bytes_nz [simp]: "VECTOR_BYTES \<noteq> 0"
  by (simp add: VECTOR_BYTES_def)

lemma holds_map_world:
  "w_nv w' = w_nv w \<Longrightarrow> w_gpus w' = w_gpus w \<Longrightarrow> get_current_gpu w' = get_current_gpu w \<Longrightarrow>
   cb.holds_map (l\<lparr>lb_world := w'\<rparr>) m = cb.holds_map (l\<lparr>lb_world := w\<rparr>) m"
  by (simp add: cb.holds_map_def cb_holds_def gpu_holds_def)

lemma host_made:
  assumes p: "prep io S L H (Suc k) j m p" and c: "call_out (cbMallocHost True n) p = Some (cbSuccess, out, q)"
  shows "\<exists>h. out = Some h \<and> h \<noteq> 0 \<and> prep io S L (insert h H) k j m q \<and> w_events (pworld q) = w_events (pworld p)"
proof -
  from c obtain l where l: "cbMallocHost True n (xp_lib p) = Some (cbSuccess, out, l)" "q = p\<lparr>xp_lib := l\<rparr>" by (auto simp: call_out_def)
  obtain e out' w where w: "cudaMallocHost True n (pworld p) = (e, out', w)" by (rule prod_cases3)
  with l(1) have e: "e = cudaSuccess" "out' = out" "l = (xp_lib p)\<lparr>lb_world := w\<rparr>"
    by (auto simp: cbMallocHost_def runtime_out_def reject_out_def split: if_splits)
  from p have "cuda_inv io S (pworld p)" "host_space (Suc k) (pworld p)" by (simp_all add: prep_def)
  from malloc_host_step [OF this, of n out w] w e obtain h where s: "out = Some h" "h \<noteq> 0" "cuda_inv io S w" "host_space k w"
    "untracked w = untracked (pworld p)" "tracked w = insert h (tracked (pworld p))" "w_nv w = w_nv (pworld p)"
    "w_gpus w = w_gpus (pworld p)" "w_events w = w_events (pworld p)" "get_current_gpu w = get_current_gpu (pworld p)" by auto
  have "cb.holds_map l m" using p holds_map_world [OF s(7,8,10), of "xp_lib p" m] e(3) by (simp add: prep_def)
  with s p l(2) e(3) show ?thesis by (simp add: prep_def gpu_space_def)
qed

lemma host_step:
  assumes p: "prep io S L H (Suc k) j m p" and c: "or_undefined (call_out (cbMallocHost True n) p) = Some (h, q)"
  shows "h \<noteq> 0 \<and> prep io S L (insert h H) k j m q \<and> w_events (pworld q) = w_events (pworld p)"
proof -
  from c have "call_out (cbMallocHost True n) p = Some (cbSuccess, Some h, q)"
    by (auto simp: or_undefined_def split: if_splits elim!: bind_eq_SomeE)
  from host_made [OF p this] show ?thesis by simp
qed

lemma page_vector: "page_round VECTOR_BYTES = VECTOR_BYTES"
  by (simp add: page_round_def VECTOR_BYTES_def)

lemma unat_vector: "unat VECTOR_BYTES = VECTOR_N * 4"
  by (simp add: VECTOR_BYTES_def VECTOR_N_def)

lemma device_step:
  assumes p: "prep io S L H k (Suc j) m p" and c: "or_undefined (call_out (cbMalloc True VECTOR_BYTES) p) = Some (a, q)"
  shows "m a = None \<and> prep io S L H k j (m(a \<mapsto> replicate (VECTOR_N * 4) 0)) q \<and> w_events (pworld q) = w_events (pworld p)"
proof -
  from c obtain l where l: "cbMalloc True VECTOR_BYTES (xp_lib p) = Some (cbSuccess, Some a, l)" "q = p\<lparr>xp_lib := l\<rparr>" by (rule or_undefinedE)
  then obtain w where w: "cudaMalloc True VECTOR_BYTES (pworld p) = Some (cudaSuccess, Some a, w)" "l = (xp_lib p)\<lparr>lb_world := w\<rparr>"
    by (blast elim: cb_malloc_success)
  let ?n = "next_gpu_addr (w_nv (pworld p))"
  from p have I: "cuda_inv io S (pworld p)" and s: "?n \<noteq> 0" "unat ?n + Suc j * (VECTOR_N * 4) + 4095 < 2 ^ 64"
    and hm: "cb.holds_map (xp_lib p) m" by (simp_all add: prep_def gpu_space_def)
  have room: "addr_room (w_nv (pworld p)) VECTOR_BYTES" using s(2) by (simp add: addr_room_def unat_vector)
  have "cb_room (xp_lib p) (VECTOR_N * 4)"
    using I room s(1) unfolding cb_room_def vector_bytes [symmetric] by (simp add: VECTOR_N_def) blast
  moreover have "cb_alloc (VECTOR_N * 4) (xp_lib p) = Some (a, l)"
    using l(1) by (simp add: cb_alloc_def vector_bytes [symmetric] del: of_nat_mult)
  ultimately have M: "m a = None" "cb.holds_map l (m(a \<mapsto> replicate (VECTOR_N * 4) 0))"
    using cbh.alloc_map [OF hm] by blast+
  from I room w(1) obtain gp ctx' nv where
    g: "w = with_gpu (pworld p) gp ctx' nv" "cuda_inv io S w" "next_gpu_addr nv = ?n + page_round VECTOR_BYTES"
    by (cases rule: malloc_hot) blast
  have "unat (next_gpu_addr nv) = unat ?n + VECTOR_N * 4"
    using addr_room_next [OF room] by (simp add: g(3) page_vector unat_vector VECTOR_N_def)
  then have "gpu_space j w" using s(2) g(1) by (auto simp: gpu_space_def VECTOR_N_def)
  moreover have "host_space k w" "untracked w = L" "tracked w = H"
    using p g(1) untracked_cong [of w "pworld p"] by (simp_all add: prep_def host_space_def)
  ultimately show ?thesis using p g w(2) l(2) M by (simp add: prep_def)
qed

lemma event_step:
  assumes p: "prep io S L H k j m p" and c: "event_create p = Some (ev, q)"
  shows "prep io S L H k j m q \<and> ev \<notin> dom (hp_mem (w_events (pworld p))) \<and>
    dom (hp_mem (w_events (pworld q))) = insert ev (dom (hp_mem (w_events (pworld p))))"
proof -
  let ?e = "\<lparr>ev_device = gs_current_device (w_state (pworld p)), ev_timestamp = 0, ev_recorded = False\<rparr>"
  obtain r he where a: "heap_alloc (w_events (pworld p)) ?e = (r, he)" by fastforce
  with c have r: "heap_alloc (w_events (pworld p)) ?e = (Some ev, he)" and q: "q = p\<lparr>xp_lib := (xp_lib p)\<lparr>lb_world := (pworld p)\<lparr>w_events := he\<rparr>\<rparr>\<rparr>"
    by (auto simp: event_create_def call_out_def cbEventCreate_def runtime_out_def cudaEventCreate_def cudaEventCreateWithFlags_def
        fail_out_def split: option.splits elim!: bind_eq_SomeE)
  from p have I: "cuda_inv io S (pworld p)" by (simp add: prep_def)
  note wf = inv_wf(3) [OF I]
  have "cuda_inv io S (pworld q)" using q by (simp add: inv_events [OF I heap_alloc_wf [OF wf r]])
  moreover have "cb.holds_map (xp_lib q) m"
    using p q holds_map_world [of "(pworld p)\<lparr>w_events := he\<rparr>" "pworld p" "xp_lib p" m] by (simp add: prep_def get_current_gpu_def)
  moreover have "ev \<notin> dom (hp_mem (w_events (pworld p)))" "hp_mem he = (hp_mem (w_events (pworld p)))(ev \<mapsto> ?e)"
    using r heap_wf_fresh [OF wf] by (auto simp: heap_simps)
  moreover have "untracked (pworld q) = untracked (pworld p)" "tracked (pworld q) = tracked (pworld p)"
    using q untracked_cong [of "pworld q" "pworld p"] by simp_all
  ultimately show ?thesis using p q by (simp add: prep_def host_space_def gpu_space_def)
qed

definition zero_block :: "u8 list" where
  "zero_block = replicate (VECTOR_N * 4) 0"

lemma setup_step:
  assumes p: "prep io S L {} 3 3 Map.empty p" and c: "va_setup env p = Some (v, q)"
  shows "vars_ok v \<and> run_ok io S v (blocks v zero_block zero_block zero_block) q \<and> untracked (pworld q) = L \<and>
    tracked (pworld q) = {va_ha v, va_hb v, va_hc v}"
proof -
  from c obtain ha p1 hb p2 hc p3 da p4 db p5 dc p6 e1 p7 e2 where
    1: "or_undefined (call_out (cbMallocHost True VECTOR_BYTES) p) = Some (ha, p1)" and
    2: "or_undefined (call_out (cbMallocHost True VECTOR_BYTES) p1) = Some (hb, p2)" and
    3: "or_undefined (call_out (cbMallocHost True VECTOR_BYTES) p2) = Some (hc, p3)" and
    4: "or_undefined (call_out (cbMalloc True VECTOR_BYTES) (emit env (newline @ ''Initializing input data...'' @ newline) [] p3)) = Some (da, p4)" and
    5: "or_undefined (call_out (cbMalloc True VECTOR_BYTES) p4) = Some (db, p5)" and
    6: "or_undefined (call_out (cbMalloc True VECTOR_BYTES) p5) = Some (dc, p6)" and
    7: "event_create p6 = Some (e1, p7)" and 8: "event_create p7 = Some (e2, q)" and
    v: "v = \<lparr>va_ha = ha, va_hb = hb, va_hc = hc, va_da = da, va_db = db, va_dc = dc, va_start = e1, va_stop = e2\<rparr>"
    by (auto simp: va_setup_def elim!: bind_eq_SomeE)
  have p0: "prep io S L {} (Suc (Suc (Suc 0))) (Suc (Suc (Suc 0))) Map.empty p" using p by (simp add: numeral_3_eq_3)
  from host_step [OF p0 1] have s1: "ha \<noteq> 0" "prep io S L {ha} (Suc (Suc 0)) (Suc (Suc (Suc 0))) Map.empty p1" by simp_all
  from host_step [OF s1(2) 2] have s2: "hb \<noteq> 0" "prep io S L {hb, ha} (Suc 0) (Suc (Suc (Suc 0))) Map.empty p2" by simp_all
  from host_step [OF s2(2) 3] have s3: "hc \<noteq> 0" "prep io S L {hc, hb, ha} 0 (Suc (Suc (Suc 0))) Map.empty p3" by simp_all
  have "prep io S L {hc, hb, ha} 0 (Suc (Suc (Suc 0))) Map.empty (emit env (newline @ ''Initializing input data...'' @ newline) [] p3)"
    using s3(2) by simp
  from device_step [OF this 4] have s4: "prep io S L {hc, hb, ha} 0 (Suc (Suc 0)) [da \<mapsto> zero_block] p4" by (simp add: zero_block_def)
  from device_step [OF s4 5] have s5: "db \<noteq> da" "prep io S L {hc, hb, ha} 0 (Suc 0) [da \<mapsto> zero_block, db \<mapsto> zero_block] p5"
    by (auto simp: zero_block_def split: if_splits)
  from device_step [OF s5(2) 6] have s6: "dc \<noteq> da" "dc \<noteq> db"
    "prep io S L {hc, hb, ha} 0 0 [da \<mapsto> zero_block, db \<mapsto> zero_block, dc \<mapsto> zero_block] p6"
    by (auto simp: zero_block_def split: if_splits)
  from event_step [OF s6(3) 7] have s7: "prep io S L {hc, hb, ha} 0 0 [da \<mapsto> zero_block, db \<mapsto> zero_block, dc \<mapsto> zero_block] p7"
    "e1 \<in> dom (hp_mem (w_events (pworld p7)))" by simp_all
  from event_step [OF s7(1) 8] s7(2) have s8: "prep io S L {hc, hb, ha} 0 0 [da \<mapsto> zero_block, db \<mapsto> zero_block, dc \<mapsto> zero_block] q"
    "e1 \<noteq> e2" "{e1, e2} \<subseteq> dom (hp_mem (w_events (pworld q)))" by auto
  show ?thesis using s1(1) s2(1) s3(1) s5(1) s6(1,2) s8 unfolding v by (auto simp: vars_ok_def run_ok_def prep_def)
qed

section \<open>Enough memory\<close>

definition setup_room :: "nat \<Rightarrow> nat \<Rightarrow> world \<Rightarrow> bool" where
  "setup_room k j w \<longleftrightarrow> (\<forall>i < k. \<exists>a. hm_pick (w_host w) (hm_count (w_host w) + i) = Some a \<and> a \<noteq> 0) \<and>
     (\<exists>gp ctx. get_current_gpu w = Some gp \<and> heap_get (w_gpus w) gp = Some ctx \<and> length (gpu_allocations ctx) + j \<le> 4096 \<and>
        j * (VECTOR_N * 4) \<le> unat (gpu_vram_free ctx)) \<and>
     hp_oom (h_stores (w_nv w)) = (\<lambda>_. False) \<and> hp_oom (h_allocs (w_nv w)) = (\<lambda>_. False) \<and> hp_oom (w_events w) = (\<lambda>_. False)"

lemma host_room:
  assumes r: "setup_room (Suc k) j (pworld p)" and n: "n \<noteq> 0"
  shows "\<exists>h q. call_out (cbMallocHost True n) p = Some (cbSuccess, Some h, q) \<and> setup_room k j (pworld q)"
proof -
  from r [unfolded setup_room_def, THEN conjunct1, rule_format, of 0] obtain a where
    a: "hm_pick (w_host (pworld p)) (hm_count (w_host (pworld p))) = Some a" "a \<noteq> 0" by auto
  obtain hm where hm: "host_alloc (w_host (pworld p)) n = (a, hm)" "hm_pick hm = hm_pick (w_host (pworld p))"
    "hm_count hm = Suc (hm_count (w_host (pworld p)))" using a(1) by (simp add: host_alloc_def Let_def)
  let ?w = "track_host_alloc a False ((pworld p)\<lparr>w_host := hm\<rparr>)"
  have w: "w_host ?w = hm" "w_gpus ?w = w_gpus (pworld p)" "w_nv ?w = w_nv (pworld p)" "w_events ?w = w_events (pworld p)"
    "get_current_gpu ?w = get_current_gpu (pworld p)"
    by (cases "length (gs_host_allocs (w_state (pworld p))) < MAX_HOST_ALLOCS";
        simp add: track_host_alloc_def world_simps get_current_gpu_def Let_def)+
  have "\<exists>b. hm_pick hm (Suc (hm_count (w_host (pworld p))) + i) = Some b \<and> b \<noteq> 0" if "i < k" for i
    using r [unfolded setup_room_def, THEN conjunct1, rule_format, of "Suc i"] that hm(2) by simp
  then have "setup_room k j ?w" using r unfolding setup_room_def w hm(2,3) by blast
  with a hm(1) n show ?thesis
    by (simp add: call_out_def cbMallocHost_def cudaMallocHost_def runtime_out_def cuda_to_cb_error_def Let_def)
qed

text \<open>A device allocation of \<open>c\<close> vectors.\<close>

lemma device_room:
  assumes r: "setup_room k (c + j) (pworld p)" and n: "unat n = c * (VECTOR_N * 4)" "page_round n = n" and c: "0 < c"
  shows "\<exists>a q. call_out (cbMalloc True n) p = Some (cbSuccess, Some a, q) \<and> setup_room k j (pworld q)"
proof -
  let ?w = "pworld p" and ?n = "w_nv (pworld p)"
  from r obtain gp ctx where g: "get_current_gpu ?w = Some gp" "heap_get (w_gpus ?w) gp = Some ctx"
    "length (gpu_allocations ctx) + (c + j) \<le> 4096" "(c + j) * (VECTOR_N * 4) \<le> unat (gpu_vram_free ctx)"
    and o: "hp_oom (h_stores ?n) = (\<lambda>_. False)" "hp_oom (h_allocs ?n) = (\<lambda>_. False)" by (auto simp: setup_room_def)
  have le: "n \<le> gpu_vram_free ctx" using g(4) n(1) by (simp add: word_le_nat_alt add_mult_distrib)
  then have u: "unat (gpu_vram_free ctx - n) = unat (gpu_vram_free ctx) - c * (VECTOR_N * 4)" by (simp add: unat_sub n(1))
  have nz: "n \<noteq> 0" using n(1) c by (auto simp: VECTOR_N_def)
  have "\<exists>al ctx' nv. nv_gpu_alloc_memory ctx ?n (Some (alloc_zero\<lparr>ma_size := n, ma_type := NV_MEM_TYPE_VIDEO\<rparr>)) =
      Some (NV_SUCCESS, Some al, ctx', nv) \<and> length (gpu_allocations ctx') = Suc (length (gpu_allocations ctx)) \<and>
    gpu_vram_free ctx' = gpu_vram_free ctx - n \<and> hp_oom (h_stores nv) = (\<lambda>_. False) \<and> hp_oom (h_allocs nv) = (\<lambda>_. False)"
    using g(3) le o nz c by (simp add: nv_gpu_alloc_memory_def n(2) heap_alloc_def Let_def alloc_zero_def)
  then obtain al ctx' nv where al: "nv_gpu_alloc_memory ctx ?n (Some (alloc_zero\<lparr>ma_size := n, ma_type := NV_MEM_TYPE_VIDEO\<rparr>)) =
      Some (NV_SUCCESS, Some al, ctx', nv)" "length (gpu_allocations ctx') = Suc (length (gpu_allocations ctx))"
    "gpu_vram_free ctx' = gpu_vram_free ctx - n" "hp_oom (h_stores nv) = (\<lambda>_. False)" "hp_oom (h_allocs nv) = (\<lambda>_. False)"
    by blast
  have "length (gpu_allocations ctx') + j \<le> 4096" "j * (VECTOR_N * 4) \<le> unat (gpu_vram_free ctx')"
    using g(3,4) al(2) c u al(3) by (simp_all add: add_mult_distrib)
  then have "setup_room k j (with_gpu ?w gp ctx' nv)"
    using r g(1) al(4,5) unfolding setup_room_def by (auto simp: heap_get_def)
  with g(1,2) al(1) nz show ?thesis
    by (simp add: call_out_def cbMalloc_def cudaMalloc_def runtime_out_def record_error_out_def cuda_to_cb_error_def put_gpu)
qed

lemma event_made:
  assumes "hp_oom (w_events (pworld p)) = (\<lambda>_. False)"
  shows "\<exists>ev he. event_create p = Some (ev, p\<lparr>xp_lib := (xp_lib p)\<lparr>lb_world := (pworld p)\<lparr>w_events := he\<rparr>\<rparr>\<rparr>) \<and> hp_oom he = (\<lambda>_. False)"
  using assms
  by (simp add: event_create_def call_out_def cbEventCreate_def runtime_out_def cudaEventCreate_def cudaEventCreateWithFlags_def
      heap_alloc_def Let_def) (rule exI, rule conjI, rule refl, simp)

lemma event_room:
  assumes r: "setup_room k j (pworld p)"
  shows "\<exists>ev q. event_create p = Some (ev, q) \<and> setup_room k j (pworld q)"
  using event_made [of p] r by (auto simp: setup_room_def get_current_gpu_def)

lemma vector_room:
  "setup_room (Suc k) j (pworld p) \<Longrightarrow>
     \<exists>h q. or_undefined (call_out (cbMallocHost True VECTOR_BYTES) p) = Some (h, q) \<and> setup_room k j (pworld q)"
  "setup_room k (Suc j) (pworld p) \<Longrightarrow>
     \<exists>a q. or_undefined (call_out (cbMalloc True VECTOR_BYTES) p) = Some (a, q) \<and> setup_room k j (pworld q)"
  using host_room [of k j p VECTOR_BYTES] device_room [of k 1 j p VECTOR_BYTES] page_vector unat_vector
  by (auto simp: or_undefined_def)

lemma setup_succeeds:
  assumes "setup_room 3 3 (pworld p)"
  shows "va_setup env p \<noteq> None"
proof -
  have "setup_room (Suc (Suc (Suc 0))) (Suc (Suc (Suc 0))) (pworld p)" using assms by (simp add: numeral_3_eq_3)
  from vector_room(1) [OF this] obtain h1 p1 where 1: "or_undefined (call_out (cbMallocHost True VECTOR_BYTES) p) = Some (h1, p1)"
    and "setup_room (Suc (Suc 0)) (Suc (Suc (Suc 0))) (pworld p1)" by blast
  from vector_room(1) [OF this(2)] obtain h2 p2 where 2: "or_undefined (call_out (cbMallocHost True VECTOR_BYTES) p1) = Some (h2, p2)"
    and "setup_room (Suc 0) (Suc (Suc (Suc 0))) (pworld p2)" by blast
  from vector_room(1) [OF this(2)] obtain h3 p3 where 3: "or_undefined (call_out (cbMallocHost True VECTOR_BYTES) p2) = Some (h3, p3)"
    and r: "setup_room 0 (Suc (Suc (Suc 0))) (pworld p3)" by blast
  let ?p = "emit env (newline @ ''Initializing input data...'' @ newline) [] p3"
  have "setup_room 0 (Suc (Suc (Suc 0))) (pworld ?p)" using r by simp
  from vector_room(2) [OF this] obtain d1 p4 where 4: "or_undefined (call_out (cbMalloc True VECTOR_BYTES) ?p) = Some (d1, p4)"
    and "setup_room 0 (Suc (Suc 0)) (pworld p4)" by blast
  from vector_room(2) [OF this(2)] obtain d2 p5 where 5: "or_undefined (call_out (cbMalloc True VECTOR_BYTES) p4) = Some (d2, p5)"
    and "setup_room 0 (Suc 0) (pworld p5)" by blast
  from vector_room(2) [OF this(2)] obtain d3 p6 where 6: "or_undefined (call_out (cbMalloc True VECTOR_BYTES) p5) = Some (d3, p6)"
    and "setup_room 0 0 (pworld p6)" by blast
  from event_room [OF this(2)] obtain e1 p7 where 7: "event_create p6 = Some (e1, p7)" and "setup_room 0 0 (pworld p7)" by blast
  from event_room [OF this(2)] obtain e2 p8 where "event_create p7 = Some (e2, p8)" by blast
  with 1 2 3 4 5 6 7 show ?thesis by (simp add: va_setup_def)
qed

section \<open>The end of the program\<close>

text \<open>While the resources are released: at most the buffers of \<open>H\<close> are still tracked.\<close>

definition closing :: "iokit option \<Rightarrow> (ptr \<times> ptr) list \<Rightarrow> (u64 \<rightharpoonup> buf) \<Rightarrow> u64 set \<Rightarrow> example \<Rightarrow> bool" where
  "closing io S L H p \<longleftrightarrow> cuda_inv io S (pworld p) \<and> lb_initialized (xp_lib p) \<and> untracked (pworld p) = L \<and> tracked (pworld p) \<subseteq> H"

definition later :: "example \<Rightarrow> example \<Rightarrow> bool" where
  "later p q \<longleftrightarrow> (\<exists>s. xp_out q = xp_out p @ s)"

lemma later_refl [simp]: "later p p"
  by (simp add: later_def)

lemma later_trans [trans]: "later p q \<Longrightarrow> later q r \<Longrightarrow> later p r"
  by (auto simp: later_def)

lemma later_emit [simp]: "later p (emit env f a p)"
  by (simp add: later_def) (simp add: emit_def)

lemma later_lib [simp]: "later p (p\<lparr>xp_lib := l\<rparr>)"
  by (simp add: later_def)

lemma printed_later: "printed p s \<Longrightarrow> later p q \<Longrightarrow> printed q s"
  unfolding printed_def later_def by (metis append.assoc)

lemma closing_emit [simp]: "closing io S L H (emit env f a p) = closing io S L H p"
  by (simp add: closing_def)

lemma destroy_step:
  assumes p: "closing io S L H p" and e: "ev \<in> dom (hp_mem (w_events (pworld p)))"
  shows "\<exists>err q. call (cbEventDestroy (Some ev)) p = Some (err, q) \<and> closing io S L H q \<and> later p q \<and>
    dom (hp_mem (w_events (pworld q))) = dom (hp_mem (w_events (pworld p))) - {ev}"
proof -
  from e obtain he where he: "heap_free (w_events (pworld p)) ev = Some he" by (auto simp: heap_free_def)
  let ?q = "p\<lparr>xp_lib := (xp_lib p)\<lparr>lb_world := (pworld p)\<lparr>w_events := he\<rparr>\<rparr>\<rparr>"
  have "call (cbEventDestroy (Some ev)) p = Some (cbSuccess, ?q)"
    using he by (simp add: call_def cbEventDestroy_def runtime_def cudaEventDestroy_def heap_free_opt_Some cuda_to_cb_error_def)
  moreover have I: "cuda_inv io S (pworld p)" using p by (simp add: closing_def)
  have "closing io S L H ?q"
    using p untracked_cong [of "(pworld p)\<lparr>w_events := he\<rparr>" "pworld p"] inv_events [OF I heap_free_wf [OF inv_wf(3) [OF I] he]]
    by (simp add: closing_def)
  moreover have "dom (hp_mem he) = dom (hp_mem (w_events (pworld p))) - {ev}"
    using he by (auto simp: heap_free_def split: if_splits option.splits)
  ultimately show ?thesis by (intro exI [of _ cbSuccess] exI [of _ ?q]) simp
qed

lemma free_call:
  assumes p: "closing io S L H p"
  shows "\<exists>err q. call (cbFree a) p = Some (err, q) \<and> closing io S L H q \<and> later p q"
proof -
  from p have I: "cuda_inv io S (pworld p)" by (simp add: closing_def)
  from free_total [OF I, of a] obtain err w where w: "cudaFree a (pworld p) = Some (err, w)" "cuda_inv io S w" by blast
  have "untracked w = untracked (pworld p) \<and> tracked w \<subseteq> tracked (pworld p)"
  proof (cases "a = 0")
    case True
    with w(1) show ?thesis by (simp add: cudaFree_def)
  next
    case False
    with w(1) obtain t w1 where t: "free_tracked_host_alloc a (pworld p) = Some (t, w1)" by (auto simp: cudaFree_def elim!: bind_eq_SomeE)
    note f = tracked_free_step [OF I t]
    have "untracked w = untracked w1 \<and> tracked w = tracked w1"
      by (rule untracked_cong) (use w(1) False t in \<open>auto simp: cudaFree_def fail_def world_simps split: if_splits option.splits elim!: bind_eq_SomeE\<close>)
    with f show ?thesis by auto
  qed
  with p w show ?thesis by (auto simp: call_def cbFree_def runtime_def closing_def)
qed

lemma free_step:
  assumes "closing io S L H p"
  shows "\<exists>q. free_if cbFree a p = Some q \<and> closing io S L H q \<and> later p q"
  using free_call [OF assms, of a] assms by (auto simp: free_if_def)

lemma free_host_call:
  assumes p: "closing io S L H p" and a: "a \<noteq> 0"
  shows "\<exists>err q. call (cbFreeHost a) p = Some (err, q) \<and> closing io S L (H - {a}) q \<and> later p q"
proof -
  from p have I: "cuda_inv io S (pworld p)" by (simp add: closing_def)
  from tracked_free [OF I, of a] obtain t w where t: "free_tracked_host_alloc a (pworld p) = Some (t, w)" by blast
  from tracked_free_step [OF I t] p a t show ?thesis
    by (auto simp: call_def cbFreeHost_def cudaFreeHost_def runtime_def closing_def)
qed

lemma free_host_step:
  assumes "closing io S L H p" and "a \<noteq> 0"
  shows "\<exists>q. free_if cbFreeHost a p = Some q \<and> closing io S L (H - {a}) q \<and> later p q"
  using free_host_call [OF assms] assms(2) by (auto simp: free_if_def)

lemma shutdown_step:
  assumes p: "closing io S L {} p"
  shows "\<exists>err q. call cbShutdown p = Some (err, q) \<and> later p q \<and> \<not> cbIsInitialized (xp_lib q) \<and> hm_live (w_host (pworld q)) = L \<and>
    cold (pworld q)"
proof -
  from p have I: "cuda_inv io S (pworld p)" and i: "lb_initialized (xp_lib p)" and L: "hm_live (w_host (pworld p)) = L"
    by (auto simp: closing_def untracked_def)
  from shutdown_total_inv [OF I] obtain w where "cudaBridgeShutdown (pworld p) = Some (cudaSuccess, w)" "w_host w = w_host (pworld p)" "cold w"
    by blast
  with i L show ?thesis by (auto simp: call_def cbShutdown_def cbIsInitialized_def)
qed

lemma cleanup_step:
  assumes c: "closing io S L {va_ha v, va_hb v, va_hc v} p" and v: "vars_ok v"
    and e: "{va_start v, va_stop v} \<subseteq> dom (hp_mem (w_events (pworld p)))" "va_start v \<noteq> va_stop v"
  shows "\<exists>q. va_cleanup env v p = Some q \<and> later p q \<and> \<not> cbIsInitialized (xp_lib q) \<and> hm_live (w_host (pworld q)) = L \<and> cold (pworld q)"
proof -
  let ?p = "emit env (newline @ ''Cleaning up...'' @ newline) [] p" and ?H = "{va_ha v, va_hb v, va_hc v}"
  from v have h: "va_ha v \<noteq> 0" "va_hb v \<noteq> 0" "va_hc v \<noteq> 0" by (simp_all add: vars_ok_def)
  have "closing io S L ?H ?p" "va_start v \<in> dom (hp_mem (w_events (pworld ?p)))" using c e by simp_all
  from destroy_step [OF this] obtain r1 p1 where
    1: "call (cbEventDestroy (Some (va_start v))) ?p = Some (r1, p1)" "closing io S L ?H p1" "later ?p p1"
    and "dom (hp_mem (w_events (pworld p1))) = dom (hp_mem (w_events (pworld ?p))) - {va_start v}" by blast
  then have live: "va_stop v \<in> dom (hp_mem (w_events (pworld p1)))" using e by simp
  from destroy_step [OF 1(2) live] obtain r2 p2 where 2: "call (cbEventDestroy (Some (va_stop v))) p1 = Some (r2, p2)" "closing io S L ?H p2" "later p1 p2" by blast
  from free_step [OF 2(2), of "va_da v"] obtain p3 where 3: "free_if cbFree (va_da v) p2 = Some p3" "closing io S L ?H p3" "later p2 p3" by blast
  from free_step [OF 3(2), of "va_db v"] obtain p4 where 4: "free_if cbFree (va_db v) p3 = Some p4" "closing io S L ?H p4" "later p3 p4" by blast
  from free_step [OF 4(2), of "va_dc v"] obtain p5 where 5: "free_if cbFree (va_dc v) p4 = Some p5" "closing io S L ?H p5" "later p4 p5" by blast
  from free_host_step [OF 5(2) h(1)] obtain p6 where
    6: "free_if cbFreeHost (va_ha v) p5 = Some p6" "closing io S L (?H - {va_ha v}) p6" "later p5 p6" by blast
  from free_host_step [OF 6(2) h(2)] obtain p7 where
    7: "free_if cbFreeHost (va_hb v) p6 = Some p7" "closing io S L (?H - {va_ha v} - {va_hb v}) p7" "later p6 p7" by blast
  from free_host_step [OF 7(2) h(3)] obtain p8 where
    8: "free_if cbFreeHost (va_hc v) p7 = Some p8" "closing io S L (?H - {va_ha v} - {va_hb v} - {va_hc v}) p8" "later p7 p8" by blast
  have "?H - {va_ha v} - {va_hb v} - {va_hc v} = {}" by blast
  with 8(2) have "closing io S L {} p8" by (simp only:)
  from shutdown_step [OF this] obtain r9 p9 where
    9: "call cbShutdown p8 = Some (r9, p9)" "later p8 p9" "\<not> cbIsInitialized (xp_lib p9)" "hm_live (w_host (pworld p9)) = L" "cold (pworld p9)" by blast
  let ?q = "emit env (''Done.'' @ newline @ newline) [] p9"
  have "later p ?q"
    by (rule later_trans [OF later_emit later_trans [OF 1(3) later_trans [OF 2(3) later_trans [OF 3(3) later_trans [OF 4(3) later_trans [OF 5(3)
      later_trans [OF 6(3) later_trans [OF 7(3) later_trans [OF 8(3) later_trans [OF 9(2) later_emit]]]]]]]]]])
  moreover have "va_cleanup env v p = Some ?q"
    using 1(1) 2(1) 3(1) 4(1) 5(1) 6(1) 7(1) 8(1) 9(1) by (simp add: va_cleanup_def)
  ultimately show ?thesis using 9 by (intro exI [of _ ?q]) simp
qed

end
