(* ===== verification/Bandwidth_Test.thy ===== *)
theory Bandwidth_Test
  imports Vector_Setup
begin

text \<open>
  The bandwidth test of \<open>bandwidth_test.c\<close>: its copies use only the front of two large buffers. Every stage returns, keeps the events
  and the host buffer of the program, and leaves what \<^theory_text>\<open>Vector_Setup\<close> needs for the release.
\<close>

section \<open>Copies of any size\<close>

text \<open>The program between its setup and its end; \<open>gpu_space 64\<close> is room for the largest transfer.\<close>

definition bench :: "iokit option \<Rightarrow> (ptr \<times> ptr) list \<Rightarrow> vector_vars \<Rightarrow> example \<Rightarrow> bool" where
  "bench io S v p \<longleftrightarrow> run_ok io S v Map.empty p \<and> gpu_space 64 (pworld p)"

definition MAX_SIZE :: nat where "MAX_SIZE = 256 * 1024 * 1024"

lemma bench_after: "bench io S v p \<Longrightarrow> run_ok io S v Map.empty q \<Longrightarrow> after p q \<Longrightarrow> bench io S v q"
  by (simp add: bench_def after_def gpu_space_def)

lemma bench_emit [simp]: "bench io S v (emit env f a p) = bench io S v p"
  by (simp add: bench_def)

lemma bench_room: "bench io S v p \<Longrightarrow> unat n \<le> MAX_SIZE \<Longrightarrow> addr_room (w_nv (pworld p)) n"
  by (simp add: bench_def gpu_space_def addr_room_def MAX_SIZE_def VECTOR_N_def)

lemma holds_none [simp]: "cb.holds_map l Map.empty"
  by (simp add: cb.holds_map_def)

lemma memcpy_any:
  assumes b: "bench io S v p" and n: "unat n \<le> MAX_SIZE" and ok: "copy_ok dst src n (cuda_kind kind)"
  obtains err out l where "cbMemcpy dst src n kind (xp_lib p) = Some (err, out, l)" and "bench io S v (p\<lparr>xp_lib := l\<rparr>)"
    and "after p (p\<lparr>xp_lib := l\<rparr>)"
proof -
  from b have r: "run_ok io S v Map.empty p" by (simp add: bench_def)
  then have "cuda_inv io S (pworld p)" by (simp add: run_ok_def)
  from memcpy_total [OF this ok bench_room [OF b n]] obtain err out l where c: "cbMemcpy dst src n kind (xp_lib p) = Some (err, out, l)"
    by (fastforce simp: cbMemcpy_def runtime_out_def record_error_out_def reject_out_def)
  from run_ok_lib [OF r c holds_none] bench_after [OF b] c show thesis by (blast intro: that)
qed

lemma copy_in_any:
  assumes b: "bench io S v p" and n: "unat n \<le> MAX_SIZE" and l: "length bytes = MAX_SIZE"
  shows "\<exists>err q. copy_in d h bytes n p = Some (err, q) \<and> bench io S v q \<and> after p q"
proof -
  have "copy_ok (device_ptr d) (host_buf h bytes) n (cuda_kind CB_MEMCPY_HOST_TO_DEVICE)"
    using n l by (simp add: cuda_kind_def host_buf_def)
  from memcpy_any [OF b n this] obtain err out l where
    "cbMemcpy (device_ptr d) (host_buf h bytes) n CB_MEMCPY_HOST_TO_DEVICE (xp_lib p) = Some (err, out, l)"
    "bench io S v (p\<lparr>xp_lib := l\<rparr>)" "after p (p\<lparr>xp_lib := l\<rparr>)" .
  then show ?thesis by (simp add: copy_in_def call_out_def)
qed

lemma memcpy_out_room:
  "cudaMemcpy dst src n cudaMemcpyDeviceToHost w = Some (e, Some bs, w') \<Longrightarrow> length bs \<le> hp_room dst"
  by (auto simp: cudaMemcpy_def fail_out_def copy_result_def host_store_def split: if_splits option.splits elim!: bind_eq_SomeE)

lemma copy_back_any:
  assumes b: "bench io S v p" and n: "unat n \<le> MAX_SIZE" and l: "length bytes = MAX_SIZE"
  shows "\<exists>err bytes' q. copy_back h bytes d n p = Some (err, bytes', q) \<and> length bytes' = MAX_SIZE \<and> bench io S v q \<and> after p q"
proof -
  have "copy_ok (host_buf h bytes) (device_ptr d) n (cuda_kind CB_MEMCPY_DEVICE_TO_HOST)"
    using n l by (simp add: cuda_kind_def host_buf_def)
  from memcpy_any [OF b n this] obtain err out q where
    c: "cbMemcpy (host_buf h bytes) (device_ptr d) n CB_MEMCPY_DEVICE_TO_HOST (xp_lib p) = Some (err, out, q)"
    "bench io S v (p\<lparr>xp_lib := q\<rparr>)" "after p (p\<lparr>xp_lib := q\<rparr>)" .
  have "length bs \<le> length bytes" if "out = Some bs" for bs
    using c(1) that memcpy_out_room [of "host_buf h bytes"]
    by (auto simp: cbMemcpy_def reject_out_def runtime_out_def record_error_out_def cuda_kind_def host_buf_def split: if_splits)
  then have "length (received bytes out) = MAX_SIZE" using l by (auto simp: received_def split: option.splits)
  with c show ?thesis by (simp add: copy_back_def call_out_def)
qed

section \<open>The measurement\<close>

lemma measure_loop_any:
  assumes copy: "\<forall>data p. bench io S v p \<longrightarrow> length data = MAX_SIZE \<longrightarrow>
      (\<exists>data' q. copy data p = Some (data', q) \<and> length data' = MAX_SIZE \<and> bench io S v q \<and> after p q)"
    and "bench io S v p" and "length data = MAX_SIZE"
  shows "\<exists>t data' q. measure_loop env copy (va_start v) (va_stop v) k t0 data p = Some (t, data', q) \<and> length data' = MAX_SIZE \<and>
    bench io S v q \<and> after p q"
  using assms(2,3)
proof (induction k arbitrary: t0 data p)
  case (Suc k)
  from Suc.prems(1) have "run_ok io S v Map.empty p" by (simp add: bench_def)
  from record_step [OF this, of "va_start v" env] obtain p1 where
    1: "record_event env (va_start v) p = Some p1" "run_ok io S v Map.empty p1" "after p p1" "recorded p1 (va_start v)" by auto
  from copy [rule_format, OF bench_after [OF Suc.prems(1) 1(2,3)] Suc.prems(2)] obtain data' p2 where
    2: "copy data p1 = Some (data', p2)" "length data' = MAX_SIZE" "bench io S v p2" "after p1 p2" by blast
  from 2(3) have "run_ok io S v Map.empty p2" by (simp add: bench_def)
  from record_step [OF this, of "va_stop v" env] obtain p3 where
    3: "record_event env (va_stop v) p2 = Some p3" "run_ok io S v Map.empty p3" "after p2 p3" "recorded p3 (va_stop v)" by auto
  have "recorded p3 (va_start v)" using 1(4) 2(4) 3(3) by (simp add: after_def)
  from elapsed_step [OF this 3(4), of env] obtain t where t: "elapsed_time env (va_start v) (va_stop v) p3 = Some (t, p3)" by blast
  have a: "after p p3" by (rule after_trans [OF 1(3) after_trans [OF 2(4) 3(3)]])
  let ?m = "if fp64_less (xe_fp env) (fp_widen (xe_fp env) t) (fp_widen (xe_fp env) t0) then t else t0"
  from Suc.IH [OF bench_after [OF 2(3) 3(2,3)] 2(2), of ?m] obtain s d q where
    4: "measure_loop env copy (va_start v) (va_stop v) k ?m data' p3 = Some (s, d, q)" "length d = MAX_SIZE" "bench io S v q" "after p3 q" by blast
  from 1(1) 2(1) 3(1) t 4 after_trans [OF a 4(4)] show ?case by simp
qed simp

lemma measure_h2d_any:
  assumes "bench io S v p" and "length data = MAX_SIZE" and "unat sz \<le> MAX_SIZE"
  shows "\<exists>b data' q. measure_h2d_bandwidth env h data d sz (va_start v) (va_stop v) p = Some (b, data', q) \<and> length data' = MAX_SIZE \<and>
    bench io S v q \<and> after p q"
proof -
  let ?copy = "\<lambda>data p. do { (_, p) \<leftarrow> copy_in d h data sz p; Some (data, p) }"
  have "\<forall>data p. bench io S v p \<longrightarrow> length data = MAX_SIZE \<longrightarrow>
      (\<exists>data' q. ?copy data p = Some (data', q) \<and> length data' = MAX_SIZE \<and> bench io S v q \<and> after p q)"
    using copy_in_any [OF _ assms(3), of io S v _ _ d h] by fastforce
  from measure_loop_any [OF this assms(1,2), of env NUM_ITERATIONS "xe_float env 1000000000"] show ?thesis by (fastforce simp: measure_h2d_bandwidth_def)
qed

lemma measure_d2h_any:
  assumes "bench io S v p" and "length data = MAX_SIZE" and "unat sz \<le> MAX_SIZE"
  shows "\<exists>b data' q. measure_d2h_bandwidth env h data d sz (va_start v) (va_stop v) p = Some (b, data', q) \<and> length data' = MAX_SIZE \<and>
    bench io S v q \<and> after p q"
proof -
  let ?copy = "\<lambda>data p. do { (_, data, p) \<leftarrow> copy_back h data d sz p; Some (data, p) }"
  have "\<forall>data p. bench io S v p \<longrightarrow> length data = MAX_SIZE \<longrightarrow>
      (\<exists>data' q. ?copy data p = Some (data', q) \<and> length data' = MAX_SIZE \<and> bench io S v q \<and> after p q)"
    using copy_back_any [OF _ assms(3), of io S v _ _ h d] by fastforce
  from measure_loop_any [OF this assms(1,2), of env NUM_ITERATIONS "xe_float env 1000000000"] show ?thesis by (fastforce simp: measure_d2h_bandwidth_def)
qed

lemma rows_any:
  assumes "bench io S v p" and "length data = MAX_SIZE" and "\<forall>sz \<in> set sizes. unat sz \<le> MAX_SIZE"
  shows "\<exists>pk data' q. bw_rows env h d (va_start v) (va_stop v) sizes peak data p = Some (pk, data', q) \<and> bench io S v q \<and> after p q"
  using assms
proof (induction sizes arbitrary: peak data p)
  case (Cons sz sizes)
  from Cons.prems have sz: "unat sz \<le> MAX_SIZE" "\<forall>sz \<in> set sizes. unat sz \<le> MAX_SIZE" by simp_all
  from measure_h2d_any [OF Cons.prems(1,2) sz(1)] obtain x d1 p1 where
    1: "measure_h2d_bandwidth env h data d sz (va_start v) (va_stop v) p = Some (x, d1, p1)" "length d1 = MAX_SIZE" "bench io S v p1" "after p p1"
    by blast
  from measure_d2h_any [OF 1(3,2) sz(1)] obtain y d2 p2 where
    2: "measure_d2h_bandwidth env h d1 d sz (va_start v) (va_stop v) p1 = Some (y, d2, p2)" "length d2 = MAX_SIZE" "bench io S v p2" "after p1 p2"
    by blast
  let ?p = "print_row env (format_size env sz 32) x y p2" and ?b = "\<lambda>x m. if fp64_less (xe_fp env) m x then x else m"
  have "bench io S v ?p" using 2(3) by (simp add: print_row_def)
  from Cons.IH [OF this 2(2) sz(2), of "(?b x (fst peak), ?b y (snd peak))"] obtain pk d3 q where
    3: "bw_rows env h d (va_start v) (va_stop v) sizes (?b x (fst peak), ?b y (snd peak)) d2 ?p = Some (pk, d3, q)" "bench io S v q" "after ?p q"
    by blast
  have "after p q"
    using after_trans [OF 1(4) after_trans [OF 2(4) after_trans [OF _ 3(3)]]] by (simp add: print_row_def)
  with 1(1) 2(1) 3(1,2) show ?case by (simp add: Let_def)
qed simp


section \<open>Setup and release\<close>

lemma sync_frame:
  "cudaDeviceSynchronize w = Some (e, w') \<Longrightarrow> w_host w' = w_host w \<and> w_events w' = w_events w \<and>
   gs_host_allocs (w_state w') = gs_host_allocs (w_state w) \<and> w_nv w' = w_nv w"
  by (auto simp: cudaDeviceSynchronize_def fail_def world_simps Let_def split: if_splits option.splits elim!: bind_eq_SomeE)

lemma sync_any:
  assumes b: "bench io S v p"
  shows "\<exists>err q. call cbDeviceSynchronize p = Some (err, q) \<and> bench io S v q \<and> after p q"
proof -
  from b have I: "cuda_inv io S (pworld p)" by (simp add: bench_def run_ok_def)
  from device_sync_total [OF I] obtain err w where w: "cudaDeviceSynchronize (pworld p) = Some (err, w)" "cuda_inv io S w" by blast
  from sync_frame [OF w(1)] w b show ?thesis
    by (auto simp: call_def cbDeviceSynchronize_def runtime_def bench_def run_ok_def after_def recorded_def gpu_space_def)
qed

lemma malloc_frame:
  "cudaMalloc True n w = Some (e, out, w') \<Longrightarrow> w_host w' = w_host w \<and> w_events w' = w_events w \<and>
   gs_host_allocs (w_state w') = gs_host_allocs (w_state w)"
  by (auto simp: cudaMalloc_def fail_out_def world_simps Let_def split: if_splits option.splits elim!: bind_eq_SomeE)

lemma page_max:
  assumes "unat n = MAX_SIZE"
  shows "n = 0x10000000" and "page_round n = n"
proof -
  show "n = 0x10000000" using assms by (simp add: MAX_SIZE_def word_unat_eq_iff)
  then show "page_round n = n" by (simp add: page_round_def)
qed

lemma host_failed:
  assumes p: "prep io S L H (Suc k) j m p" and c: "call_out (cbMallocHost True n) p = Some (err, out, q)" and e: "err \<noteq> cbSuccess"
  shows "closing io S L H q"
proof -
  from c obtain l where l: "cbMallocHost True n (xp_lib p) = Some (err, out, l)" "q = p\<lparr>xp_lib := l\<rparr>" by (auto simp: call_out_def)
  from p have cl: "closing io S L H p" and I: "cuda_inv io S (pworld p)" and f: "picks_fresh (Suc k) (w_host (pworld p))"
    by (simp_all add: prep_def closing_def host_space_def)
  show ?thesis
  proof (cases "n = 0")
    case True
    with l cl show ?thesis by (auto simp: cbMallocHost_def reject_out_def SET_ERROR_def closing_def)
  next
    case False
    obtain a hm where h: "host_alloc (w_host (pworld p)) n = (a, hm)" by fastforce
    let ?w = "set_error cudaErrorMemoryAllocation ((pworld p)\<lparr>w_host := hm\<rparr>)"
    have a: "a = 0" and w: "l = (xp_lib p)\<lparr>lb_world := ?w\<rparr>"
      using l(1) False h e by (auto simp: cbMallocHost_def cudaMallocHost_def runtime_out_def fail_out_def Let_def split: if_splits)
    have live: "hm_live hm = hm_live (w_host (pworld p))"
      using host_alloc_cases(1) [OF h] host_alloc_fresh [OF h f] a by (simp add: picked_def)
    have "cuda_inv io S (snd (snd (cudaMallocHost True n (pworld p))))" by (rule malloc_host_total [OF I picks_host_fresh [OF f]])
    then have "cuda_inv io S ?w" using h a False by (simp add: cudaMallocHost_def fail_out_def)
    with cl w l(2) live show ?thesis by (simp add: closing_def untracked_def tracked_def world_simps)
  qed
qed

lemma device_any:
  assumes p: "prep io S L H k 128 m p" and n: "unat n = MAX_SIZE"
  shows "\<exists>err out q. call_out (cbMalloc True n) p = Some (err, out, q) \<and> closing io S L H q \<and> later p q \<and>
    (err = cbSuccess \<longrightarrow> (\<exists>d. out = Some d \<and> prep io S L H k 64 Map.empty q \<and> w_events (pworld q) = w_events (pworld p)))"
proof -
  let ?w = "pworld p" and ?n = "next_gpu_addr (w_nv (pworld p))"
  from p have I: "cuda_inv io S ?w" and i: "lb_initialized (xp_lib p)" and s: "?n \<noteq> 0" "unat ?n + 128 * (VECTOR_N * 4) + 4095 < 2 ^ 64"
    by (simp_all add: prep_def gpu_space_def)
  have room: "addr_room (w_nv ?w) n" using s(2) n by (simp add: addr_room_def MAX_SIZE_def VECTOR_N_def)
  from malloc_total [OF I room, of True] obtain e out w where w: "cudaMalloc True n ?w = Some (e, out, w)" "cuda_inv io S w" by blast
  note fr = malloc_frame [OF w(1)]
  have nz: "n \<noteq> 0" using page_max(1) [OF n] by simp
  let ?l = "(if e = cudaSuccess then id else SET_ERROR (cuda_to_cb_error e)) ((xp_lib p)\<lparr>lb_world := w\<rparr>)"
  have c: "call_out (cbMalloc True n) p = Some (cuda_to_cb_error e, out, p\<lparr>xp_lib := ?l\<rparr>)"
    using w(1) nz by (simp add: call_out_def cbMalloc_def runtime_out_def record_error_out_def)
  have "lb_world ?l = w" "lb_initialized ?l" using i by (simp_all add: SET_ERROR_def)
  then have cl: "closing io S L H (p\<lparr>xp_lib := ?l\<rparr>)" using p w(2) fr untracked_cong [of w ?w] by (simp add: closing_def prep_def)
  have "\<exists>d. out = Some d \<and> prep io S L H k 64 Map.empty (p\<lparr>xp_lib := ?l\<rparr>) \<and> w_events (pworld (p\<lparr>xp_lib := ?l\<rparr>)) = w_events ?w"
    if "e = cudaSuccess"
  proof -
    from malloc_out w(1) that obtain d where d: "out = Some d" by blast
    with w(1) that have "cudaMalloc True n ?w = Some (cudaSuccess, Some d, w)" by simp
    with I room obtain nv gp ctx' where g: "w = with_gpu ?w gp ctx' nv" "next_gpu_addr nv = ?n + page_round n"
      by (cases rule: malloc_hot) blast
    have "unat (next_gpu_addr nv) = unat ?n + MAX_SIZE"
      using addr_room_next [OF room] n unfolding g(2) page_max(2) [OF n] by (simp add: MAX_SIZE_def)
    then have "gpu_space 64 w" using s(2) g(1) by (auto simp: gpu_space_def MAX_SIZE_def VECTOR_N_def)
    with that d p w(2) fr i untracked_cong [of w ?w] show ?thesis by (simp add: prep_def host_space_def)
  qed
  with c cl show ?thesis by auto
qed

section \<open>The program\<close>

lemma later_emits: "later p q \<Longrightarrow> later p (emit env f a q)"
  by (rule later_trans [OF _ later_emit])

lemma after_later: "after p q \<Longrightarrow> later p q"
  by (auto simp: after_def later_def)

lemma print_sel [simp]:
  "xp_lib (double_line env p) = xp_lib p" "xp_lib (bw_summary env conn peak p) = xp_lib p" "xp_lib (bw_connection env conn p) = xp_lib p"
  "xp_lib (print_header env p) = xp_lib p"
  by (simp_all add: double_line_def bw_summary_def bw_connection_def print_header_def print_footer_def Let_def)

lemma print_later:
  "later q p \<Longrightarrow> later q (double_line env p)" "later q p \<Longrightarrow> later q (bw_summary env conn peak p)"
  "later q p \<Longrightarrow> later q (bw_connection env conn p)" "later q p \<Longrightarrow> later q (print_header env p)"
  by (simp_all add: double_line_def bw_summary_def bw_connection_def print_header_def print_footer_def Let_def later_emits)

lemma bench_lib: "xp_lib q = xp_lib p \<Longrightarrow> bench io S v q = bench io S v p"
  by (simp add: bench_def run_ok_def gpu_space_def)

lemma test_sizes_bound: "\<forall>sz \<in> set test_sizes. unat sz \<le> MAX_SIZE" "unat (test_sizes ! (NUM_SIZES - 1)) = MAX_SIZE"
  by (simp_all add: test_sizes_def NUM_SIZES_def MAX_SIZE_def)

lemma two_events:
  assumes p: "prep io S L H k 64 Map.empty p" and o: "hp_oom (w_events (pworld p)) = (\<lambda>_. False)"
  obtains a b p1 q v where "event_create p = Some (a, p1)" and "event_create p1 = Some (b, q)" and "va_start v = a" and "va_stop v = b"
    and "bench io S v q" and "untracked (pworld q) = L" and "tracked (pworld q) = H" and "later p q"
proof -
  from event_made [OF o] obtain a he where 1: "event_create p = Some (a, p\<lparr>xp_lib := (xp_lib p)\<lparr>lb_world := (pworld p)\<lparr>w_events := he\<rparr>\<rparr>\<rparr>)"
    (is "_ = Some (a, ?p1)") and o1: "hp_oom he = (\<lambda>_. False)" by blast
  from event_made [of ?p1] o1 obtain b he2 where
    2: "event_create ?p1 = Some (b, ?p1\<lparr>xp_lib := (xp_lib ?p1)\<lparr>lb_world := (pworld ?p1)\<lparr>w_events := he2\<rparr>\<rparr>\<rparr>)" (is "_ = Some (b, ?q)") by auto
  from event_step [OF p 1] have s1: "prep io S L H k 64 Map.empty ?p1" "a \<in> dom (hp_mem (w_events (pworld ?p1)))" by blast+
  from event_step [OF s1(1) 2] s1(2) have s2: "prep io S L H k 64 Map.empty ?q" "{a, b} \<subseteq> dom (hp_mem (w_events (pworld ?q)))" "a \<noteq> b" by blast+
  let ?v = "\<lparr>va_ha = 0, va_hb = 0, va_hc = 0, va_da = 0, va_db = 0, va_dc = 0, va_start = a, va_stop = b\<rparr>"
  have "bench io S ?v ?q" using s2 by (auto simp: bench_def run_ok_def prep_def)
  moreover have "untracked (pworld ?q) = L" "tracked (pworld ?q) = H" using s2(1) by (simp_all add: prep_def)
  moreover have "later p ?q" by (simp add: later_def)
  ultimately show thesis by (intro that [OF 1 2, of ?v]) simp_all
qed

lemma bench_closing:
  assumes "bench io S v q" and "after p q" and "untracked (pworld p) = L" and "tracked (pworld p) = H"
  shows "closing io S L H q" and "va_start v \<in> dom (hp_mem (w_events (pworld q)))" and "va_stop v \<in> dom (hp_mem (w_events (pworld q))) - {va_start v}"
proof -
  have "untracked (pworld q) = L" "tracked (pworld q) = H" using untracked_cong [of "pworld q" "pworld p"] assms(2-4) by (simp_all add: after_def)
  with assms(1) show "closing io S L H q" "va_start v \<in> dom (hp_mem (w_events (pworld q)))"
    "va_stop v \<in> dom (hp_mem (w_events (pworld q))) - {va_start v}" by (auto simp: closing_def bench_def run_ok_def)
qed

lemma transfers_any:
  assumes b: "bench io S v p" and n: "unat max_size = MAX_SIZE"
  obtains e1 p1 e2 data p2 e3 p3 peak data' q where
    "copy_in d h (replicate (unat max_size) 0xAB) (1024 * 1024) p = Some (e1, p1)"
    and "copy_back h (replicate (unat max_size) 0xAB) d (1024 * 1024) p1 = Some (e2, data, p2)"
    and "call cbDeviceSynchronize p2 = Some (e3, p3)"
    and "bw_rows env h d (va_start v) (va_stop v) test_sizes pk data (print_header env (emit env f a p3)) = Some (peak, data', q)"
    and "bench io S v q" and "after p q"
proof -
  let ?data = "replicate (unat max_size) (0xAB :: u8)"
  have l: "length ?data = MAX_SIZE" and m: "unat (1024 * 1024 :: u64) \<le> MAX_SIZE" using n by (simp_all add: MAX_SIZE_def)
  from copy_in_any [OF b m l, of d h] obtain e1 p1 where
    1: "copy_in d h ?data (1024 * 1024) p = Some (e1, p1)" "bench io S v p1" "after p p1" by blast
  from copy_back_any [OF 1(2) m l, of h d] obtain e2 data p2 where
    2: "copy_back h ?data d (1024 * 1024) p1 = Some (e2, data, p2)" "length data = MAX_SIZE" "bench io S v p2" "after p1 p2" by blast
  from sync_any [OF 2(3)] obtain e3 p3 where 3: "call cbDeviceSynchronize p2 = Some (e3, p3)" "bench io S v p3" "after p2 p3" by blast
  let ?p = "print_header env (emit env f a p3)"
  have "bench io S v ?p" "after p3 ?p" using 3(2) by (simp_all add: print_header_def after_emits)
  from rows_any [OF this(1) 2(2) test_sizes_bound(1), of env h d pk] this(2) obtain peak data' q where
    4: "bw_rows env h d (va_start v) (va_stop v) test_sizes pk data ?p = Some (peak, data', q)" "bench io S v q" "after p3 q"
    by (blast intro: after_trans)
  show thesis by (rule that [OF 1(1) 2(1) 3(1) 4(1,2) after_trans [OF 1(3) after_trans [OF 2(4) after_trans [OF 3(3) 4(3)]]]])
qed

text \<open>The end of every run: no library, no GPU context, and the host memory \<open>L\<close>.\<close>

definition ended :: "(u64 \<rightharpoonup> buf) \<Rightarrow> example \<Rightarrow> bool" where
  "ended L q \<longleftrightarrow> \<not> cbIsInitialized (xp_lib q) \<and> hm_live (w_host (pworld q)) = L \<and> cold (pworld q)"

lemma ended_emit [simp]: "ended L (emit env f a q) = ended L q"
  by (simp add: ended_def)

lemma shutdown_ends: "closing io S L {} p \<Longrightarrow> \<exists>err q. call cbShutdown p = Some (err, q) \<and> ended L q"
  using shutdown_step unfolding ended_def by blast

lemma release_ends:
  assumes c: "closing io S L {h} p" and h: "h \<noteq> 0"
  shows "\<exists>e1 p1 e2 q. call (cbFreeHost h) p = Some (e1, p1) \<and> call cbShutdown p1 = Some (e2, q) \<and> ended L q"
proof -
  from free_host_call [OF c h] obtain e1 p1 where 1: "call (cbFreeHost h) p = Some (e1, p1)" "closing io S L ({h} - {h}) p1" by blast
  have "{h} - {h} = {}" by simp
  with 1(2) have "closing io S L {} p1" by (simp only:)
  from shutdown_ends [OF this] 1(1) show ?thesis by blast
qed

lemma measure_ends:
  assumes p: "prep io S L {h} k 64 Map.empty p" and o: "hp_oom (w_events (pworld p)) = (\<lambda>_. False)" and h: "h \<noteq> 0"
    and n: "unat max_size = MAX_SIZE"
  shows "\<exists>q. bw_measure env conn max_size h d p = Some q \<and> ended L q"
proof -
  obtain a b p1 p2 v where 1: "event_create p = Some (a, p1)" "event_create p1 = Some (b, p2)" "va_start v = a" "va_stop v = b"
    and b: "bench io S v p2" and t: "untracked (pworld p2) = L" "tracked (pworld p2) = {h}" by (rule two_events [OF p o])
  let ?w = "emit env (newline @ ''Warming up...'' @ newline) [] p2" and ?d = "replicate (unat max_size) (0xAB :: u8)"
  have bw: "bench io S v ?w" using b by simp
  obtain e1 p3 e2 data p4 e3 p5 peak data' p6 where
    2: "copy_in d h ?d (1024 * 1024) ?w = Some (e1, p3)" "copy_back h ?d d (1024 * 1024) p3 = Some (e2, data, p4)"
      "call cbDeviceSynchronize p4 = Some (e3, p5)"
      "bw_rows env h d a b test_sizes (xe_double env 0, xe_double env 0) data
         (print_header env (emit env (newline @ ''Measuring bandwidth (%d iterations per size)...'' @ newline) [ANat NUM_ITERATIONS] p5)) =
         Some (peak, data', p6)"
    and b6: "bench io S v p6" and a6: "after ?w p6"
    using transfers_any [OF bw n, of d h env "(xe_double env 0, xe_double env 0)"] unfolding 1(3,4) by metis
  let ?s = "bw_summary env conn peak p6"
  have cl: "closing io S L {h} ?s" and live: "a \<in> dom (hp_mem (w_events (pworld ?s)))" "b \<in> dom (hp_mem (w_events (pworld ?s))) - {a}"
    using bench_closing [OF b6 emit_after [OF a6] t] unfolding 1(3,4) by (simp_all add: closing_def)
  from destroy_step [OF cl live(1)] obtain e4 p7 where 3: "call (cbEventDestroy (Some a)) ?s = Some (e4, p7)" "closing io S L {h} p7"
    and "dom (hp_mem (w_events (pworld p7))) = dom (hp_mem (w_events (pworld ?s))) - {a}" by blast
  with live(2) have "b \<in> dom (hp_mem (w_events (pworld p7)))" by simp
  from destroy_step [OF 3(2) this] obtain e5 p8 where 4: "call (cbEventDestroy (Some b)) p7 = Some (e5, p8)" "closing io S L {h} p8" by blast
  from free_call [OF 4(2), of d] obtain e6 p9 where 5: "call (cbFree d) p8 = Some (e6, p9)" "closing io S L {h} p9" by blast
  from release_ends [OF 5(2) h] obtain e7 p10 e8 q where
    6: "call (cbFreeHost h) p9 = Some (e7, p10)" "call cbShutdown p10 = Some (e8, q)" "ended L q" by blast
  from 1(1,2) 2 3(1) 4(1) 5(1) 6 show ?thesis by (simp add: bw_measure_def Let_def)
qed

lemma device_report:
  fixes p :: example
  assumes r: "lib_reach io H (xp_lib p)" and i: "lb_initialized (xp_lib p)"
  shows "cbGetDeviceCount (xe_cuda env) True (xp_lib p) = Some (cbSuccess, Some 1, xp_lib p)"
    and "\<exists>prop. cbGetDeviceProperties (xe_cuda env) True 0 (xp_lib p) = Some (cbSuccess, Some prop, xp_lib p)"
    and "\<exists>conn. cbGetConnectionInfo True (xp_lib p) = Some (cbSuccess, Some conn, xp_lib p)"
proof -
  from libreach_inv [OF r] i have g: "gs_initialized (w_state (pworld p))" and c: "cuda_reach io H (pworld p)" by (simp_all add: lib_inv_def)
  from c obtain S where I: "cuda_inv io S (pworld p)" by (rule reachE)
  from I g obtain gp ctx xs cs where "gpu_up (pworld p) gp ctx xs cs" and hg: "heap_get (w_gpus (pworld p)) gp = Some ctx"
    and "usb4_up io (pworld p)" by (rule hotE)
  then have "gs_gpu_contexts (w_state (pworld p)) = [Some gp]" and u: "\<exists>c. get_usb4_ctx (pworld p) = Some c" by (auto simp: gpu_up_def usb4_up_def)
  then show "cbGetDeviceCount (xe_cuda env) True (xp_lib p) = Some (cbSuccess, Some 1, xp_lib p)"
    and "\<exists>prop. cbGetDeviceProperties (xe_cuda env) True 0 (xp_lib p) = Some (cbSuccess, Some prop, xp_lib p)"
    using g i hg by (simp_all add: cbGetDeviceCount_def cudaGetDeviceCount_def runtime_out_def cuda_to_cb_error_def cbGetDeviceProperties_def
        cudaGetDeviceProperties_def auto_init_def device_index_ok_def)
  show "\<exists>conn. cbGetConnectionInfo True (xp_lib p) = Some (cbSuccess, Some conn, xp_lib p)"
    using g u by (auto simp: cbGetConnectionInfo_def cudaBridgeGetConnectionStatus_def cudaBridgeGetBandwidthInfo_def Let_def)
qed

end
