(* ===== verification/Examples_Properties.thy ===== *)
theory Examples_Properties
  imports Bandwidth_Test
begin

text \<open>
  The properties of the vector addition and the bandwidth test over the whole programs, from \<open>cbInit\<close> to \<open>cbShutdown\<close>, and a run
  of each on the simulated GPU.
\<close>

section \<open>The report\<close>

lemma report_step:
  assumes "lib_reach io H (xp_lib p)" and "lb_initialized (xp_lib p)"
  shows "\<exists>q. va_report env p = Some q \<and> xp_lib q = xp_lib p \<and> later p q"
proof -
  from device_report(1,2) [OF assms, of env] obtain pr where "cbGetDeviceCount (xe_cuda env) True (xp_lib p) = Some (cbSuccess, Some 1, xp_lib p)"
    "cbGetDeviceProperties (xe_cuda env) True 0 (xp_lib p) = Some (cbSuccess, Some pr, xp_lib p)" by blast
  then show ?thesis by (simp add: va_report_def call_out_def later_def) (simp add: emit_def)
qed

lemma bw_device_step:
  assumes "lib_reach io H (xp_lib p)" and "lb_initialized (xp_lib p)"
  shows "\<exists>conn q. bw_device env p = Some (conn, q) \<and> xp_lib q = xp_lib p"
proof -
  from device_report(2,3) [OF assms] obtain pr conn where
    "cbGetDeviceProperties (xe_cuda env) True 0 (xp_lib p) = Some (cbSuccess, Some pr, xp_lib p)"
    "cbGetConnectionInfo True (xp_lib p) = Some (cbSuccess, Some conn, xp_lib p)" by blast
  then show ?thesis by (simp add: bw_device_def call_out_def Let_def)
qed

text \<open>The bandwidth test from its device buffer on.\<close>

lemma bw_device_buffer:
  fixes n :: u64
  defines "n \<equiv> test_sizes ! (NUM_SIZES - 1)"
  assumes p: "prep io S L {h} 0 128 Map.empty p" and h: "h \<noteq> 0" and o: "hp_oom (w_events (pworld p)) = (\<lambda>_. False)"
  obtains (failed) err out p4 e p5 e2 q where "call_out (cbMalloc True n) p = Some (err, out, p4)" and "err \<noteq> cbSuccess"
      and "call (cbFreeHost h) (emit env (''Failed to allocate device memory: %s'' @ newline) [AStr (cbGetErrorString err)] p4) = Some (e, p5)"
      and "call cbShutdown p5 = Some (e2, q)" and "ended L q" and "\<not> setup_room 0 64 (pworld p)"
  | (measured) d p4 q where "call_out (cbMalloc True n) p = Some (cbSuccess, Some d, p4)"
      and "bw_measure env conn n h d p4 = Some q" and "ended L q"
proof -
  have n: "unat n = MAX_SIZE" using test_sizes_bound(2) by (simp add: n_def)
  from device_any [OF p n] obtain err out p4 where
    4: "call_out (cbMalloc True n) p = Some (err, out, p4)" "closing io S L {h} p4"
    "err = cbSuccess \<longrightarrow> (\<exists>d. out = Some d \<and> prep io S L {h} 0 64 Map.empty p4 \<and> w_events (pworld p4) = w_events (pworld p))" by blast
  show thesis
  proof (cases "err = cbSuccess")
    case False
    have "closing io S L {h} (emit env (''Failed to allocate device memory: %s'' @ newline) [AStr (cbGetErrorString err)] p4)"
      using 4(2) by simp
    moreover have "\<not> setup_room 0 64 (pworld p)"
      using device_room [of 0 64 0 p n] page_max(2) [OF n] 4(1) False n by (auto simp: MAX_SIZE_def VECTOR_N_def)
    ultimately show thesis using failed [OF 4(1) False] release_ends [OF _ h] by blast
  next
    case True
    with 4(3) obtain d where d: "out = Some d" "prep io S L {h} 0 64 Map.empty p4" "w_events (pworld p4) = w_events (pworld p)" by auto
    have "hp_oom (w_events (pworld p4)) = (\<lambda>_. False)" using d(3) o by simp
    from measure_ends [OF d(2) this h n, of env conn d] measured 4(1) True d(1) show thesis by blast
  qed
qed

section \<open>A run\<close>

text \<open>Numbers as exact naturals.\<close>

definition demo_example_env :: example_env where
  "demo_example_env = \<lparr>xe_cuda = demo_env, xe_clock = (\<lambda>n. (of_nat n, 0)),
     xe_fp = \<lparr>fp32 = (\<lambda>op x y. if op = CBPY_OP_ADD then (x + y) mod 2 ^ 32 else if op = CBPY_OP_SUB then x - y else x div y),
       fp64 = (\<lambda>op x y. x div y), fp_narrow = id, fp_widen = id, fp32_zero = (\<lambda>x. x = 0), fp64_zero = (\<lambda>x. x = 0),
       fp64_less = (<), fp64_of_count = id\<rparr>,
     xe_float = (\<lambda>r. nat \<lfloor>r\<rfloor>), xe_double = (\<lambda>r. nat \<lfloor>r\<rfloor>), xe_text = (\<lambda>prec x. dec x)\<rparr>"

lemma demo_sane: "float_sane demo_example_env"
  by (simp add: float_sane_def demo_example_env_def fabs_def)

lemma demo_bench_room: "setup_room 1 64 (demo_hot t)" "picks_fresh 1 (w_host (demo_hot t))" "gpu_space 128 (demo_hot t)"
    "gs_host_allocs (w_state (demo_hot t)) = []" "hp_oom (w_events (demo_hot t)) = (\<lambda>_. False)"
  by (simp_all add: setup_room_def picks_fresh_def gpu_space_def demo_hot_def demo_world_def VECTOR_N_def virtual_gpu_def gpu_ctx_zero_def
      Let_def heap_empty_def get_current_gpu_def heap_get_def)

lemma demo_room: "setup_room 3 3 (demo_hot t)" "picks_fresh 3 (w_host (demo_hot t))" "gpu_space 3 (demo_hot t)"
    "gs_host_allocs (w_state (demo_hot t)) = []"
  by (simp_all add: setup_room_def picks_fresh_def gpu_space_def demo_hot_def demo_world_def VECTOR_N_def virtual_gpu_def gpu_ctx_zero_def
      Let_def heap_empty_def get_current_gpu_def heap_get_def less_Suc_eq numeral_3_eq_3)

section \<open>The example\<close>

lemma run_closing:
  assumes "run_ok io S v m p" and "untracked (pworld p) = L" and "tracked (pworld p) = H"
  shows "closing io S L H p \<and> {va_start v, va_stop v} \<subseteq> dom (hp_mem (w_events (pworld p))) \<and> va_start v \<noteq> va_stop v"
  using assms by (simp add: closing_def run_ok_def)

text \<open>
  C29. The vector addition example. After a successful \<open>cbInit\<close> on a reachable library that tracks no host buffer, with \<open>malloc\<close>
  returning fresh addresses and device addresses that do not wrap, the report returns. If an allocation of the setup
  fails the run is undefined (the jump to \<open>cleanup\<close> reads variables that were never set). Otherwise, which is so whenever there is memory
  for three host buffers, three device buffers and two events, \<open>main\<close> returns 0, the output contains \<open>Result: PASSED\<close>, the
  library is shut down with no GPU context left, and the host memory is as it was after \<open>cbInit\<close>.
\<close>

theorem vector_add_passes:
  assumes "call (cbInit (xe_cuda env)) (emit env (newline @ ''=== CudaBridge Vector Addition Example ==='' @ newline @ newline) [] p) =
      Some (cbSuccess, p1)"
    and "lib_reach io H (xp_lib p1)" and "lb_initialized (xp_lib p1)" and "float_sane env"
    and "gs_host_allocs (w_state (pworld p1)) = []" and "picks_fresh 3 (w_host (pworld p1))" and "gpu_space 3 (pworld p1)"
  shows "\<exists>p2. va_report env p1 = Some p2 \<and> (setup_room 3 3 (pworld p1) \<longrightarrow> va_setup env p2 \<noteq> None) \<and>
    (case va_setup env p2 of
       None \<Rightarrow> vector_add_main env p = None
     | Some _ \<Rightarrow> \<exists>q. vector_add_main env p = Some (0, q) \<and> printed q (''Result: PASSED'' @ newline) \<and>
         \<not> cbIsInitialized (xp_lib q) \<and> cold (pworld q) \<and> hm_live (w_host (pworld q)) = hm_live (w_host (pworld p1)))"
proof -
  from report_step [OF assms(2,3)] obtain p2 where p2: "va_report env p1 = Some p2" "xp_lib p2 = xp_lib p1" by blast
  have room: "setup_room 3 3 (pworld p1) \<longrightarrow> va_setup env p2 \<noteq> None"
    using setup_succeeds [of p2 env] p2(2) by simp
  show ?thesis
  proof (cases "va_setup env p2")
    case None
    with assms(1) p2 room show ?thesis by (simp add: vector_add_main_def)
  next
    case (Some x)
    then obtain v p3 where x: "va_setup env p2 = Some (v, p3)" by (cases x) simp
    let ?L = "hm_live (w_host (pworld p1))"
    from libreach_inv [OF assms(2)] have "cuda_reach io H (pworld p1)" by (simp add: lib_inv_def)
    then obtain S where "cuda_inv io S (pworld p1)" by (rule reachE)
    then have "prep io S ?L {} 3 3 Map.empty p2"
      using assms(3,5,6,7) p2(2) by (simp add: prep_def host_space_def MAX_HOST_ALLOCS_def untracked_def tracked_def cb.holds_map_def)
    from setup_step [OF this x] have s: "vars_ok v" "run_ok io S v (blocks v zero_block zero_block zero_block) p3"
      "untracked (pworld p3) = ?L" "tracked (pworld p3) = {va_ha v, va_hb v, va_hc v}" by simp_all
    have z: "length zero_block = VECTOR_N * 4" by (simp add: zero_block_def)
    from compute_passes [OF s(2,1) assms(4) z z z] obtain p4 m where
      c: "va_compute env v p3 = Some p4" "run_ok io S v m p4" "after p3 p4" "printed p4 (''Result: PASSED'' @ newline)" by blast
    have "untracked (pworld p4) = ?L" "tracked (pworld p4) = {va_ha v, va_hb v, va_hc v}"
      using untracked_cong [of "pworld p4" "pworld p3"] c(3) s(3,4) by (simp_all add: after_def)
    note cl = run_closing [OF c(2) this]
    from cleanup_step [OF conjunct1 [OF cl] s(1)] conjunct2 [OF cl] obtain q where
      q: "va_cleanup env v p4 = Some q" "later p4 q" "\<not> cbIsInitialized (xp_lib q)" "hm_live (w_host (pworld q)) = ?L" "cold (pworld q)" by blast
    have "vector_add_main env p = Some (0, q)" using assms(1) p2(1) x c(1) q(1) by (simp add: vector_add_main_def)
    with printed_later [OF c(4) q(2)] q(3-5) p2(1) room Some show ?thesis by simp
  qed
qed

theorem vector_add_passes_witness:
  "\<exists>q. vector_add_main demo_example_env (example_zero demo_world) = Some (0, q) \<and> printed q (''Result: PASSED'' @ newline) \<and>
     \<not> cbIsInitialized (xp_lib q)"
proof -
  let ?p = "emit demo_example_env (newline @ ''=== CudaBridge Vector Addition Example ==='' @ newline @ newline) [] (example_zero demo_world)"
  from demo_cb_init obtain l t where l: "cbInit demo_env (library_zero demo_world) = Some (cbSuccess, l)" "lib_reach None [] l"
    "lb_world l = demo_hot t" "lb_initialized l" by blast
  have env: "xe_cuda demo_example_env = demo_env" by (simp add: demo_example_env_def)
  let ?p1 = "?p\<lparr>xp_lib := l\<rparr>"
  have w: "pworld ?p1 = demo_hot t" using l(3) by simp
  have "call (cbInit (xe_cuda demo_example_env)) ?p = Some (cbSuccess, ?p1)" using l(1) by (simp add: env call_def example_zero_def)
  moreover have "lib_reach None [] (xp_lib ?p1)" "lb_initialized (xp_lib ?p1)" using l(2,4) by simp_all
  moreover have "gs_host_allocs (w_state (pworld ?p1)) = []" "picks_fresh 3 (w_host (pworld ?p1))" "gpu_space 3 (pworld ?p1)"
    "setup_room 3 3 (pworld ?p1)"
    unfolding w using demo_room [of t] by blast+
  ultimately obtain p2 where "va_setup demo_example_env p2 \<noteq> None"
    "case va_setup demo_example_env p2 of None \<Rightarrow> vector_add_main demo_example_env (example_zero demo_world) = None
     | Some _ \<Rightarrow> \<exists>q. vector_add_main demo_example_env (example_zero demo_world) = Some (0, q) \<and> printed q (''Result: PASSED'' @ newline) \<and>
         \<not> cbIsInitialized (xp_lib q) \<and> cold (pworld q) \<and> hm_live (w_host (pworld q)) = hm_live (w_host (pworld ?p1))"
    using vector_add_passes [OF _ _ _ demo_sane] by blast
  then show ?thesis by auto
qed

text \<open>
  C30. The bandwidth test. After a successful \<open>cbInit\<close> on a reachable library that tracks no host buffer, with a fresh address from
  \<open>malloc\<close>, device addresses that do not wrap and memory for its two events, the program returns 0 or 1: all its transfers are of
  at most the size of its buffers. It returns 0 whenever there is memory for the host buffer and the device buffer. On every
  path the library is shut down, no GPU context is left, and the host memory is as it was after \<open>cbInit\<close>.
\<close>

theorem bandwidth_test_ends:
  assumes "call (cbInit (xe_cuda env)) (double_line env (emit env (''     CudaBridge - USB4/Thunderbolt eGPU Bandwidth Test'' @ newline) []
        (double_line env (emit env newline [] p)))) = Some (cbSuccess, p1)"
    and "lib_reach io H (xp_lib p1)" and "lb_initialized (xp_lib p1)"
    and "gs_host_allocs (w_state (pworld p1)) = []" and "picks_fresh 1 (w_host (pworld p1))" and "gpu_space 128 (pworld p1)"
    and "hp_oom (w_events (pworld p1)) = (\<lambda>_. False)"
  shows "\<exists>r q. bandwidth_test_main env p = Some (r, q) \<and> r \<in> {0, 1} \<and> (setup_room 1 64 (pworld p1) \<longrightarrow> r = 0) \<and> \<not> cbIsInitialized (xp_lib q) \<and> cold (pworld q) \<and>
    hm_live (w_host (pworld q)) = hm_live (w_host (pworld p1))"
proof -
  let ?L = "hm_live (w_host (pworld p1))" and ?n = "test_sizes ! (NUM_SIZES - 1)"
  from bw_device_step [OF assms(2,3)] obtain conn p2 where 2: "bw_device env p1 = Some (conn, p2)" "xp_lib p2 = xp_lib p1" by blast
  have cnt: "call_out (cbGetDeviceCount (xe_cuda env) True) p1 = Some (cbSuccess, Some 1, p1)"
    unfolding call_out_def device_report(1) [OF assms(2,3)] by (cases p1) simp
  note main = assms(1) 2(1) cnt
  have fin: ?thesis if "bandwidth_test_main env p = Some (r, q)" "r \<in> {0, 1}" "setup_room 1 64 (pworld p1) \<longrightarrow> r = 0" "ended ?L q" for r q
    using that by (auto simp: ended_def)
  from libreach_inv [OF assms(2)] have "cuda_reach io H (pworld p1)" by (simp add: lib_inv_def)
  then obtain S where "cuda_inv io S (pworld p1)" by (rule reachE)
  then have pr: "prep io S ?L {} (Suc 0) 128 Map.empty p2"
    using assms(3-6) 2(2) by (simp add: prep_def host_space_def MAX_HOST_ALLOCS_def untracked_def tracked_def cb.holds_map_def)
  obtain err out p3 where 3: "call_out (cbMallocHost True ?n) p2 = Some (err, out, p3)"
    by (cases "call_out (cbMallocHost True ?n) p2") (auto simp: call_out_def cbMallocHost_def runtime_out_def split: if_splits)
  have "?n \<noteq> 0" using page_max(1) [OF test_sizes_bound(2)] by simp
  with 3 2(2) have room: "err = cbSuccess \<and> setup_room 0 64 (pworld p3)" if "setup_room 1 64 (pworld p1)"
    using host_room [of 0 64 p2 ?n] that by auto
  show ?thesis
  proof (cases "err = cbSuccess")
    case False
    from host_failed [OF pr 3 False] have "closing io S ?L {} (emit env (''Failed to allocate host memory: %s'' @ newline) [AStr (cbGetErrorString err)] p3)"
      by simp
    from shutdown_ends [OF this] obtain e q where q: "call cbShutdown (emit env (''Failed to allocate host memory: %s'' @ newline)
      [AStr (cbGetErrorString err)] p3) = Some (e, q)" "ended ?L q" by blast
    with main 3 False have "bandwidth_test_main env p = Some (1, q)" by (simp add: bandwidth_test_main_def Let_def)
    then show ?thesis by (rule fin) (use False room q(2) in blast)+
  next
    case True
    from host_made [OF pr 3 [unfolded True]] obtain h where h: "out = Some h" "h \<noteq> 0" "prep io S ?L {h} 0 128 Map.empty p3"
      "w_events (pworld p3) = w_events (pworld p2)" by auto
    have "hp_oom (w_events (pworld p3)) = (\<lambda>_. False)" using h(4) 2(2) assms(7) by simp
    with h(3,2) show ?thesis
    proof (cases rule: bw_device_buffer [where env = env and conn = conn])
      case (failed err2 out2 p4 e p5 e2 q)
      with main 3 True h(1) have "bandwidth_test_main env p = Some (1, q)" by (simp add: bandwidth_test_main_def Let_def)
      then show ?thesis by (rule fin) (use failed(5,6) room in blast)+
    next
      case (measured d p4 q)
      with main 3 True h(1) have "bandwidth_test_main env p = Some (0, q)" by (simp add: bandwidth_test_main_def Let_def)
      then show ?thesis by (rule fin) (use measured(3) in blast)+
    qed
  qed
qed

theorem bandwidth_test_ends_witness:
  "\<exists>q. bandwidth_test_main demo_example_env (example_zero demo_world) = Some (0, q) \<and> \<not> cbIsInitialized (xp_lib q)"
proof -
  let ?env = demo_example_env
  let ?p = "double_line ?env (emit ?env (''     CudaBridge - USB4/Thunderbolt eGPU Bandwidth Test'' @ newline) []
        (double_line ?env (emit ?env newline [] (example_zero demo_world))))"
  from demo_cb_init obtain l t where l: "cbInit demo_env (library_zero demo_world) = Some (cbSuccess, l)" "lib_reach None [] l"
    "lb_world l = demo_hot t" "lb_initialized l" by blast
  let ?p1 = "?p\<lparr>xp_lib := l\<rparr>"
  have w: "pworld ?p1 = demo_hot t" using l(3) by simp
  have env: "xe_cuda ?env = demo_env" by (simp add: demo_example_env_def)
  have "call (cbInit (xe_cuda ?env)) ?p = Some (cbSuccess, ?p1)" using l(1) by (simp add: env call_def example_zero_def)
  moreover have "lib_reach None [] (xp_lib ?p1)" "lb_initialized (xp_lib ?p1)" using l(2,4) by simp_all
  moreover have "gs_host_allocs (w_state (pworld ?p1)) = []" "picks_fresh 1 (w_host (pworld ?p1))" "gpu_space 128 (pworld ?p1)"
    "hp_oom (w_events (pworld ?p1)) = (\<lambda>_. False)"
    unfolding w using demo_bench_room [of t] by blast+
  ultimately obtain r q where q: "bandwidth_test_main ?env (example_zero demo_world) = Some (r, q)"
    "setup_room 1 64 (pworld ?p1) \<longrightarrow> r = 0" "\<not> cbIsInitialized (xp_lib q)"
    using bandwidth_test_ends [of ?env "example_zero demo_world" ?p1] by blast
  have "r = 0" using q(2) demo_bench_room(1) [of t] unfolding w by blast
  with q(1,3) show ?thesis by blast
qed

end
